(* ===== verification/Prelude.thy ===== *)
theory Prelude
  imports Complex_Main "HOL-Library.Word"
begin

text \<open>
  Shared ground of the development: the machine integer types of the firmware, the
  little-endian byte packing used by every wire and storage format, and the lemma
  collections the component theories extend.

  \<^item> \<open>u8\<close>, \<open>u16\<close>, \<open>u32\<close>, \<open>u64\<close> are the fixed width unsigned types of \<open><cstdint>\<close>;
    arithmetic on them wraps as in C++.
  \<^item> A byte array (\<open>std::array<uint8_t, N>\<close>) is a list of \<open>u8\<close> of that length, written by
    list update.
  \<^item> \<open>wire_simps\<close> collects the equations that read back what was packed;
    \<open>guard_simps\<close> the characteristic equations of small guards and predicates.
\<close>

unbundle bit_operations_syntax

type_synonym u8 = "8 word"
type_synonym u16 = "16 word"
type_synonym u32 = "32 word"
type_synonym u64 = "64 word"

named_theorems wire_simps \<open>reading back packed fields\<close>
named_theorems guard_simps \<open>characteristic equations of guards\<close>

section \<open>Lists updated by index\<close>

lemma list_update_Cons_numeral [simp]:
  "(x # xs)[numeral v := y] = x # xs[pred_numeral v := y]"
  by (simp add: numeral_eq_Suc)

lemma nth_Cons_pred_numeral [wire_simps]:
  "(x # xs) ! numeral v = xs ! pred_numeral v"
  by (simp add: numeral_eq_Suc)

lemma length_eq_numeral_Cons:
  "length xs = numeral v \<longleftrightarrow> (\<exists>y ys. xs = y # ys \<and> length ys = pred_numeral v)"
  by (cases xs) (simp_all add: numeral_eq_Suc)

lemma length_8_cases:
  assumes "length xs = 8"
  obtains a b c d e f g h where "xs = [a, b, c, d, e, f, g, h]"
  using assms by (auto simp: length_eq_numeral_Cons length_Suc_conv)

lemma length_6_cases:
  assumes "length xs = 6"
  obtains a b c d e f where "xs = [a, b, c, d, e, f]"
  using assms by (auto simp: length_eq_numeral_Cons length_Suc_conv)

section \<open>Little-endian packing\<close>

text \<open>\<open>byte_at n v\<close> is \<open>static_cast<uint8_t>(v >> (8 * n))\<close>.\<close>

definition byte_at :: "nat \<Rightarrow> 'a::len word \<Rightarrow> u8" where
  "byte_at n v = ucast (drop_bit (8 * n) v)"

lemma bit_byte_at [bit_simps]:
  "bit (byte_at n v) k \<longleftrightarrow> k < 8 \<and> bit v (8 * n + k)"
  by (auto simp: byte_at_def bit_simps dest: bit_imp_le_length)

lemma bit_push_byte:
  "bit (push_bit (8 * m) (ucast (byte_at m v) :: 'a::len word)) n \<longleftrightarrow>
     8 * m \<le> n \<and> n < 8 * Suc m \<and> n < LENGTH('a) \<and> bit (v :: 'a word) n"
  by (auto simp: bit_simps dest: bit_imp_le_length)

text \<open>
  The reader's side: the first \<open>m\<close> bytes of \<open>v\<close>, each shifted to its place and or-ed.
\<close>

fun or_bytes :: "nat \<Rightarrow> 'a::len word \<Rightarrow> 'a word" where
  "or_bytes 0 v = 0"
| "or_bytes (Suc m) v = or_bytes m v OR push_bit (8 * m) (ucast (byte_at m v))"

lemma bit_or_bytes: "bit (or_bytes m v) n \<longleftrightarrow> n < 8 * m \<and> bit v n"
proof (induction m)
  case 0
  then show ?case by simp
next
  case (Suc m)
  show ?case
    unfolding or_bytes.simps bit_or_iff bit_push_byte Suc.IH
    by (auto dest: bit_imp_le_length)
qed

lemma or_bytes_take_bit: "or_bytes m v = take_bit (8 * m) v"
  by (rule bit_word_eqI) (simp add: bit_or_bytes bit_take_bit_iff)

lemma take_bit_word_all: "LENGTH('a) \<le> n \<Longrightarrow> take_bit n (v::'a::len word) = v"
  by (rule bit_word_eqI) (simp add: bit_take_bit_iff)

lemma take_bit_word_small: "v < 2 ^ n \<Longrightarrow> n < LENGTH('a) \<Longrightarrow> take_bit n (v::'a::len word) = v"
  by (simp add: take_bit_eq_mask less_mask_eq)

lemma u16_of_bytes [wire_simps]:
  "ucast (byte_at 0 v) OR push_bit 8 (ucast (byte_at (Suc 0) v)) = (v::u16)"
  using or_bytes_take_bit[of 2 v] by (simp add: numeral_2_eq_2 take_bit_word_all)

lemma u24_of_bytes [wire_simps]:
  "ucast (byte_at 0 v) OR (push_bit 8 (ucast (byte_at (Suc 0) v))
     OR push_bit 16 (ucast (byte_at 2 v))) = take_bit 24 (v::u32)"
  using or_bytes_take_bit[of 3 v] by (simp add: eval_nat_numeral or.assoc)

lemma u32_of_bytes [wire_simps]:
  "ucast (byte_at 0 v) OR (push_bit 8 (ucast (byte_at (Suc 0) v))
     OR (push_bit 16 (ucast (byte_at 2 v)) OR push_bit 24 (ucast (byte_at 3 v)))) = (v::u32)"
  using or_bytes_take_bit[of 4 v] by (simp add: eval_nat_numeral or.assoc take_bit_word_all)

section \<open>Masks\<close>

text \<open>A mask test on a word says that the masked-out bits are clear.\<close>

lemma and_eq_0_self:
  fixes v m n :: "'a::len word"
  assumes "v AND m = 0" and "m OR n = -1"
  shows "v AND n = v"
proof (rule bit_word_eqI)
  fix k assume k: "k < LENGTH('a)"
  have "bit (v AND m) k = bit (0 :: 'a word) k" and "bit (m OR n) k = bit (- 1 :: 'a word) k"
    by (simp_all only: assms)
  with k show "bit (v AND n) k = bit v k" by (auto simp: bit_simps)
qed

section \<open>Small values\<close>

lemma word_le_pred_cases:
  fixes r w :: "'a::len word"
  assumes "0 < w"
  shows "r \<le> w \<longleftrightarrow> r = w \<or> r \<le> w - 1"
proof -
  have "unat (w - 1) = unat w - 1"
    using assms by (simp add: unat_minus_one word_neq_0_conv)
  moreover have "0 < unat w"
    using assms by (simp add: word_less_nat_alt)
  ultimately show ?thesis
    by (auto simp: word_le_nat_alt word_unat_eq_iff)
qed

lemmas word_le_numeral_cases = word_le_pred_cases [of "numeral n" for n]

lemma u8_le_1: "(r::u8) \<le> 1 \<longleftrightarrow> r = 1 \<or> r = 0"
proof -
  have "r \<le> 1 \<longleftrightarrow> unat r \<le> 1" by (simp add: word_le_nat_alt)
  also have "\<dots> \<longleftrightarrow> unat r = 1 \<or> unat r = 0" by linarith
  also have "\<dots> \<longleftrightarrow> r = 1 \<or> r = 0" by (simp add: word_unat_eq_iff)
  finally show ?thesis .
qed

lemmas u8_small_cases = word_le_numeral_cases u8_le_1

lemma take_bit_word_less: "n < LENGTH('a) \<Longrightarrow> take_bit n (v::'a::len word) < 2 ^ n"
  by (simp add: take_bit_eq_mask and_mask_less')

section \<open>Packing what was read\<close>

lemma bit_u8_ge [simp]: "8 \<le> k \<Longrightarrow> \<not> bit (a::u8) k"
  by (auto dest: bit_imp_le_length)

text \<open>Reading a packed field and packing it again gives the same bytes.\<close>

lemma bytes_of_u16 [wire_simps]:
  "byte_at 0 (ucast a OR push_bit 8 (ucast b) :: u16) = a"
  "byte_at (Suc 0) (ucast a OR push_bit 8 (ucast b) :: u16) = b"
  by (auto intro!: bit_word_eqI simp: bit_simps dest: bit_imp_le_length)

lemma bytes_of_u24 [wire_simps]:
  "byte_at 0 (ucast a OR (push_bit 8 (ucast b) OR push_bit 16 (ucast c)) :: u32) = a"
  "byte_at (Suc 0) (ucast a OR (push_bit 8 (ucast b) OR push_bit 16 (ucast c)) :: u32) = b"
  "byte_at 2 (ucast a OR (push_bit 8 (ucast b) OR push_bit 16 (ucast c)) :: u32) = c"
  by (auto intro!: bit_word_eqI simp: bit_simps dest: bit_imp_le_length)

lemma bytes_of_u32 [wire_simps]:
  "byte_at 0 (ucast a OR (push_bit 8 (ucast b) OR (push_bit 16 (ucast c) OR push_bit 24 (ucast d))) :: u32) = a"
  "byte_at (Suc 0) (ucast a OR (push_bit 8 (ucast b) OR (push_bit 16 (ucast c) OR push_bit 24 (ucast d))) :: u32) = b"
  "byte_at 2 (ucast a OR (push_bit 8 (ucast b) OR (push_bit 16 (ucast c) OR push_bit 24 (ucast d))) :: u32) = c"
  "byte_at 3 (ucast a OR (push_bit 8 (ucast b) OR (push_bit 16 (ucast c) OR push_bit 24 (ucast d))) :: u32) = d"
  by (auto intro!: bit_word_eqI simp: bit_simps dest: bit_imp_le_length)

lemma u24_bound [wire_simps]:
  "ucast a OR (push_bit 8 (ucast b) OR push_bit 16 (ucast c)) < (0x1000000::u32)"
  for a b c :: u8
proof -
  have "ucast a OR (push_bit 8 (ucast b) OR push_bit 16 (ucast c)) =
      take_bit 24 (ucast a OR (push_bit 8 (ucast b) OR push_bit 16 (ucast c)) :: u32)"
    by (rule bit_word_eqI) (auto simp: bit_simps dest: bit_imp_le_length)
  then show ?thesis
    using take_bit_word_less [of 24 "ucast a OR (push_bit 8 (ucast b) OR push_bit 16 (ucast c)) :: u32"]
    by simp
qed

lemma u16_bytes_eq:
  "ucast a OR push_bit 8 (ucast b) = (v::u16) \<longleftrightarrow> a = byte_at 0 v \<and> b = byte_at (Suc 0) v"
  by (auto simp: bytes_of_u16 u16_of_bytes)

section \<open>Searching an array\<close>

text \<open>\<open>std::find_if\<close>: the position of the first element that satisfies the predicate, the
  length of the array (the end iterator) when there is none.\<close>

fun find_if :: "('a \<Rightarrow> bool) \<Rightarrow> 'a list \<Rightarrow> nat" where
  "find_if P [] = 0"
| "find_if P (x # xs) = (if P x then 0 else Suc (find_if P xs))"

lemma find_if_le: "find_if P xs \<le> length xs"
  by (induction xs) auto

lemma find_if_less: "find_if P xs < length xs \<longleftrightarrow> (\<exists>x\<in>set xs. P x)"
  by (induction xs) auto

lemma find_if_nth: "find_if P xs < length xs \<Longrightarrow> P (xs ! find_if P xs)"
  by (induction xs) auto

lemma find_if_least: "i < find_if P xs \<Longrightarrow> \<not> P (xs ! i)"
  by (induction xs arbitrary: i) (auto simp: nth_Cons split: nat.splits if_splits)

lemma find_if_eqI: "k < length xs \<Longrightarrow> P (xs ! k) \<Longrightarrow> (\<And>i. i < k \<Longrightarrow> \<not> P (xs ! i)) \<Longrightarrow> find_if P xs = k"
  using find_if_least[of k P xs] find_if_nth[of P xs] find_if_less[of P xs]
  by (metis linorder_neqE_nat nth_mem)

end
