(* ===== verification/Can_Protocol.thy ===== *)
theory Can_Protocol
  imports Prelude
begin

text \<open>
  The CAN wire protocol of \<open>src/protocol/can_protocol.{hpp,cpp}\<close>: identifiers, enumerations,
  the message structs, the frame and one encoder and one decoder per message. A decoder
  returns \<open>Inl e\<close> where the code returns an error (and leaves the message untouched) and
  \<open>Inr m\<close> where it returns \<open>CodecError::none\<close>. Enumerations are datatypes with their wire
  value (\<open>..._code\<close>); a \<open>static_cast\<close> of a received byte is \<open>..._cast\<close>, used, as in the
  code, together with the range check on the raw byte.
\<close>

unbundle bit_operations_syntax

section \<open>Identifiers and enumerations\<close>

datatype can_id =
    Id_actuator_emergency_stop | Id_liftoff_detection_emergency_stop | Id_recovery_control
  | Id_generic_command_request | Id_command_result | Id_time_request | Id_time_response
  | Id_recovery_mode_command | Id_mission_event | Id_kinematics_telemetry
  | Id_control_telemetry | Id_mission_status_telemetry | Id_power_time_telemetry
  | Id_descent_core_telemetry | Id_recovery_status | Id_recovery_log_data
  | Id_attitude_tilt_telemetry | Id_lps_telemetry | Id_airspeed_telemetry
  | Id_control_roll_telemetry_v2

fun can_id_code :: "can_id \<Rightarrow> u16" where
  "can_id_code Id_actuator_emergency_stop = 0x001"
| "can_id_code Id_liftoff_detection_emergency_stop = 0x002"
| "can_id_code Id_recovery_control = 0x008"
| "can_id_code Id_generic_command_request = 0x010"
| "can_id_code Id_command_result = 0x011"
| "can_id_code Id_time_request = 0x012"
| "can_id_code Id_time_response = 0x013"
| "can_id_code Id_recovery_mode_command = 0x014"
| "can_id_code Id_mission_event = 0x020"
| "can_id_code Id_kinematics_telemetry = 0x100"
| "can_id_code Id_control_telemetry = 0x101"
| "can_id_code Id_mission_status_telemetry = 0x102"
| "can_id_code Id_power_time_telemetry = 0x103"
| "can_id_code Id_descent_core_telemetry = 0x104"
| "can_id_code Id_recovery_status = 0x105"
| "can_id_code Id_recovery_log_data = 0x106"
| "can_id_code Id_attitude_tilt_telemetry = 0x107"
| "can_id_code Id_lps_telemetry = 0x108"
| "can_id_code Id_airspeed_telemetry = 0x109"
| "can_id_code Id_control_roll_telemetry_v2 = 0x10A"

datatype mission_state =
    MS_command_receive | MS_liftoff_detection | MS_engine_burn | MS_control | MS_descent
  | MS_unknown

fun mission_state_code :: "mission_state \<Rightarrow> u8" where
  "mission_state_code MS_command_receive = 0"
| "mission_state_code MS_liftoff_detection = 1"
| "mission_state_code MS_engine_burn = 2"
| "mission_state_code MS_control = 3"
| "mission_state_code MS_descent = 4"
| "mission_state_code MS_unknown = 0xFF"

datatype command_phase = CP_accepted | CP_completed | CP_rejected | CP_failed

fun command_phase_code :: "command_phase \<Rightarrow> u8" where
  "command_phase_code CP_accepted = 0"
| "command_phase_code CP_completed = 1"
| "command_phase_code CP_rejected = 2"
| "command_phase_code CP_failed = 3"

datatype command_reason =
    CR_none | CR_busy | CR_invalid_state | CR_invalid_argument | CR_not_configured
  | CR_device_unavailable | CR_timeout | CR_stall | CR_protocol_error
  | CR_interrupted_by_emergency | CR_persistence_error | CR_internal_error
  | CR_not_supported | CR_safety_interlock | CR_already_satisfied

fun command_reason_code :: "command_reason \<Rightarrow> u8" where
  "command_reason_code CR_none = 0"
| "command_reason_code CR_busy = 1"
| "command_reason_code CR_invalid_state = 2"
| "command_reason_code CR_invalid_argument = 3"
| "command_reason_code CR_not_configured = 4"
| "command_reason_code CR_device_unavailable = 5"
| "command_reason_code CR_timeout = 6"
| "command_reason_code CR_stall = 7"
| "command_reason_code CR_protocol_error = 8"
| "command_reason_code CR_interrupted_by_emergency = 9"
| "command_reason_code CR_persistence_error = 10"
| "command_reason_code CR_internal_error = 11"
| "command_reason_code CR_not_supported = 12"
| "command_reason_code CR_safety_interlock = 13"
| "command_reason_code CR_already_satisfied = 14"

datatype time_source = TS_invalid | TS_gnss | TS_ground

fun time_source_code :: "time_source \<Rightarrow> u8" where
  "time_source_code TS_invalid = 0"
| "time_source_code TS_gnss = 1"
| "time_source_code TS_ground = 2"

datatype recovery_opcode = RO_wake | RO_start_log_dump | RO_stop_log_dump

fun recovery_opcode_code :: "recovery_opcode \<Rightarrow> u8" where
  "recovery_opcode_code RO_wake = 1"
| "recovery_opcode_code RO_start_log_dump = 2"
| "recovery_opcode_code RO_stop_log_dump = 3"

datatype recovery_mode = RM_enter_recovery_beacon

fun recovery_mode_code :: "recovery_mode \<Rightarrow> u8" where
  "recovery_mode_code RM_enter_recovery_beacon = 1"

datatype recovery_mode_reason =
    RR_auto_elapsed_120 | RR_ground_requested | RR_recovery_wake_retry | RR_reset_recovery

fun recovery_mode_reason_code :: "recovery_mode_reason \<Rightarrow> u8" where
  "recovery_mode_reason_code RR_auto_elapsed_120 = 0"
| "recovery_mode_reason_code RR_ground_requested = 1"
| "recovery_mode_reason_code RR_recovery_wake_retry = 2"
| "recovery_mode_reason_code RR_reset_recovery = 3"

datatype recovery_source = RS_internal_flash | RS_mission_sd_latest_flight

fun recovery_source_code :: "recovery_source \<Rightarrow> u8" where
  "recovery_source_code RS_internal_flash = 0"
| "recovery_source_code RS_mission_sd_latest_flight = 1"

datatype recovery_status_code =
    SC_ready | SC_dumping | SC_complete | SC_busy | SC_invalid_state | SC_invalid_argument
  | SC_source_unavailable | SC_io_error | SC_aborted | SC_internal_error

fun recovery_status_code_code :: "recovery_status_code \<Rightarrow> u8" where
  "recovery_status_code_code SC_ready = 0"
| "recovery_status_code_code SC_dumping = 1"
| "recovery_status_code_code SC_complete = 2"
| "recovery_status_code_code SC_busy = 3"
| "recovery_status_code_code SC_invalid_state = 4"
| "recovery_status_code_code SC_invalid_argument = 5"
| "recovery_status_code_code SC_source_unavailable = 6"
| "recovery_status_code_code SC_io_error = 7"
| "recovery_status_code_code SC_aborted = 8"
| "recovery_status_code_code SC_internal_error = 9"

datatype fin_mode =
    FM_free | FM_brake | FM_position_hold | FM_zero_hold | FM_relative_move
  | FM_roll_control | FM_unknown

fun fin_mode_code :: "fin_mode \<Rightarrow> u8" where
  "fin_mode_code FM_free = 0"
| "fin_mode_code FM_brake = 1"
| "fin_mode_code FM_position_hold = 2"
| "fin_mode_code FM_zero_hold = 3"
| "fin_mode_code FM_relative_move = 4"
| "fin_mode_code FM_roll_control = 5"
| "fin_mode_code FM_unknown = 15"

datatype para_mode =
    PM_free | PM_hold | PM_relative_move | PM_opening_or_retrying | PM_closing
  | PM_powered_off | PM_unknown

fun para_mode_code :: "para_mode \<Rightarrow> u8" where
  "para_mode_code PM_free = 0"
| "para_mode_code PM_hold = 1"
| "para_mode_code PM_relative_move = 2"
| "para_mode_code PM_opening_or_retrying = 3"
| "para_mode_code PM_closing = 4"
| "para_mode_code PM_powered_off = 5"
| "para_mode_code PM_unknown = 15"

text \<open>
  The casts from the wire. Each is only applied to a value that passed the corresponding
  check; the last branch is the largest enumerator.
\<close>

definition mission_state_cast :: "u8 \<Rightarrow> mission_state" where
  "mission_state_cast r =
     (if r = 0 then MS_command_receive else if r = 1 then MS_liftoff_detection
      else if r = 2 then MS_engine_burn else if r = 3 then MS_control
      else if r = 4 then MS_descent else MS_unknown)"

definition command_phase_cast :: "u8 \<Rightarrow> command_phase" where
  "command_phase_cast r =
     (if r = 0 then CP_accepted else if r = 1 then CP_completed
      else if r = 2 then CP_rejected else CP_failed)"

definition command_reason_cast :: "u8 \<Rightarrow> command_reason" where
  "command_reason_cast r =
     (if r = 0 then CR_none else if r = 1 then CR_busy else if r = 2 then CR_invalid_state
      else if r = 3 then CR_invalid_argument else if r = 4 then CR_not_configured
      else if r = 5 then CR_device_unavailable else if r = 6 then CR_timeout
      else if r = 7 then CR_stall else if r = 8 then CR_protocol_error
      else if r = 9 then CR_interrupted_by_emergency else if r = 10 then CR_persistence_error
      else if r = 11 then CR_internal_error else if r = 12 then CR_not_supported
      else if r = 13 then CR_safety_interlock else CR_already_satisfied)"

definition time_source_cast :: "u8 \<Rightarrow> time_source" where
  "time_source_cast r = (if r = 0 then TS_invalid else if r = 1 then TS_gnss else TS_ground)"

definition recovery_opcode_cast :: "u8 \<Rightarrow> recovery_opcode" where
  "recovery_opcode_cast r =
     (if r = 1 then RO_wake else if r = 2 then RO_start_log_dump else RO_stop_log_dump)"

definition recovery_mode_reason_cast :: "u8 \<Rightarrow> recovery_mode_reason" where
  "recovery_mode_reason_cast r =
     (if r = 0 then RR_auto_elapsed_120 else if r = 1 then RR_ground_requested
      else if r = 2 then RR_recovery_wake_retry else RR_reset_recovery)"

definition recovery_source_cast :: "u8 \<Rightarrow> recovery_source" where
  "recovery_source_cast r =
     (if r = 0 then RS_internal_flash else RS_mission_sd_latest_flight)"

definition recovery_status_code_cast :: "u8 \<Rightarrow> recovery_status_code" where
  "recovery_status_code_cast r =
     (if r = 0 then SC_ready else if r = 1 then SC_dumping else if r = 2 then SC_complete
      else if r = 3 then SC_busy else if r = 4 then SC_invalid_state
      else if r = 5 then SC_invalid_argument else if r = 6 then SC_source_unavailable
      else if r = 7 then SC_io_error else if r = 8 then SC_aborted else SC_internal_error)"

definition fin_mode_cast :: "u8 \<Rightarrow> fin_mode" where
  "fin_mode_cast r =
     (if r = 0 then FM_free else if r = 1 then FM_brake else if r = 2 then FM_position_hold
      else if r = 3 then FM_zero_hold else if r = 4 then FM_relative_move
      else if r = 5 then FM_roll_control else FM_unknown)"

definition para_mode_cast :: "u8 \<Rightarrow> para_mode" where
  "para_mode_cast r =
     (if r = 0 then PM_free else if r = 1 then PM_hold else if r = 2 then PM_relative_move
      else if r = 3 then PM_opening_or_retrying else if r = 4 then PM_closing
      else if r = 5 then PM_powered_off else PM_unknown)"

definition validMissionState :: "u8 \<Rightarrow> bool" where
  "validMissionState r \<longleftrightarrow>
     r \<le> mission_state_code MS_descent \<or> r = mission_state_code MS_unknown"

definition validFinMode :: "u8 \<Rightarrow> bool" where
  "validFinMode r \<longleftrightarrow> r \<le> fin_mode_code FM_roll_control \<or> r = fin_mode_code FM_unknown"

definition validParaMode :: "u8 \<Rightarrow> bool" where
  "validParaMode r \<longleftrightarrow> r \<le> para_mode_code PM_powered_off \<or> r = para_mode_code PM_unknown"

datatype codec_error =
    CE_none | CE_wrong_identifier | CE_wrong_length | CE_unsupported_frame
  | CE_reserved_bits | CE_invalid_enum

end
