(* ===== verification/Can_Codec.thy ===== *)
theory Can_Codec
  imports Can_Protocol
begin

text \<open>
  Frames, messages, encoders and decoders of \<open>src/protocol/can_protocol.cpp\<close>, in the order
  of the file; then the contract every message type keeps (locale \<open>can_codec\<close>), interpreted
  for each encoder/decoder pair, and the telemetry sequence counters.
\<close>

unbundle bit_operations_syntax

section \<open>Frames and byte access\<close>

record can_frame =
  fr_identifier :: u16
  fr_data_length :: u8
  fr_data :: "u8 list"
  fr_extended :: bool
  fr_remote :: bool

definition zero8 :: "u8 list" where
  "zero8 = [0, 0, 0, 0, 0, 0, 0, 0]"

definition frame :: "can_id \<Rightarrow> u8 \<Rightarrow> can_frame" where
  "frame i len =
     \<lparr>fr_identifier = can_id_code i, fr_data_length = len, fr_data = zero8,
      fr_extended = False, fr_remote = False\<rparr>"

definition putU16 :: "u8 list \<Rightarrow> nat \<Rightarrow> u16 \<Rightarrow> u8 list" where
  "putU16 d off v = d[off := byte_at 0 v, off + 1 := byte_at 1 v]"

definition putU24 :: "u8 list \<Rightarrow> nat \<Rightarrow> u32 \<Rightarrow> u8 list" where
  "putU24 d off v = d[off := byte_at 0 v, off + 1 := byte_at 1 v, off + 2 := byte_at 2 v]"

definition putU32 :: "u8 list \<Rightarrow> nat \<Rightarrow> u32 \<Rightarrow> u8 list" where
  "putU32 d off v =
     d[off := byte_at 0 v, off + 1 := byte_at 1 v, off + 2 := byte_at 2 v,
       off + 3 := byte_at 3 v]"

definition getU16 :: "u8 list \<Rightarrow> nat \<Rightarrow> u16" where
  "getU16 d off = ucast (d ! off) OR push_bit 8 (ucast (d ! (off + 1)))"

definition getU24 :: "u8 list \<Rightarrow> nat \<Rightarrow> u32" where
  "getU24 d off =
     ucast (d ! off) OR (push_bit 8 (ucast (d ! (off + 1)))
       OR push_bit 16 (ucast (d ! (off + 2))))"

definition getU32 :: "u8 list \<Rightarrow> nat \<Rightarrow> u32" where
  "getU32 d off =
     ucast (d ! off) OR (push_bit 8 (ucast (d ! (off + 1)))
       OR (push_bit 16 (ucast (d ! (off + 2))) OR push_bit 24 (ucast (d ! (off + 3)))))"

definition validate :: "can_frame \<Rightarrow> can_id \<Rightarrow> u8 \<Rightarrow> codec_error" where
  "validate f i len =
     (if fr_extended f \<or> fr_remote f then CE_unsupported_frame
      else if fr_identifier f \<noteq> can_id_code i then CE_wrong_identifier
      else if fr_data_length f = len then CE_none else CE_wrong_length)"

section \<open>Messages\<close>

record emergency_stop =
  es_transaction_id :: u8

record recovery_control =
  rc_opcode :: recovery_opcode
  rc_source :: recovery_source
  rc_transfer_id :: u8
  rc_offset :: u32
  rc_length :: u32

record recovery_mode_command =
  rmc_sequence :: u8
  rmc_mode :: recovery_mode
  rmc_reason :: recovery_mode_reason

record generic_command_request =
  gcr_transaction_id :: u8
  gcr_command :: u8
  gcr_arguments :: "u8 list"

record command_result =
  res_transaction_id :: u8
  res_command :: u8
  res_phase :: command_phase
  res_reason :: command_reason
  res_detail :: u32

record time_request =
  trq_request_id :: u8

record time_response =
  trs_request_id :: u8
  trs_source :: time_source
  trs_unix_seconds :: u32
  trs_milliseconds :: u16

record mission_event =
  mev_sequence :: u8
  mev_flags :: u16
  mev_state :: mission_state
  mev_elapsed_raw :: u16
  mev_detail :: u16

record kinematics_telemetry =
  kin_sequence :: u8
  kin_roll_raw :: u16
  kin_roll_rate_raw :: u16
  kin_fin_angle_raw :: u8
  kin_fin_rate_raw :: u16

record control_telemetry =
  ctl_sequence :: u8
  ctl_requested_torque_raw :: u16
  ctl_flight_elapsed_raw :: u8

record mission_status_telemetry =
  mst_sequence :: u8
  mst_state :: mission_state
  mst_flight_status :: u16
  mst_config_flags :: u8
  mst_fin_mode :: fin_mode
  mst_para_mode :: para_mode
  mst_parachute_angle_raw :: u8

record power_time_telemetry =
  pwt_sequence :: u8
  pwt_logic_voltage_raw :: u8
  pwt_motor_voltage_raw :: u8
  pwt_descent_elapsed_raw :: u16
  pwt_recovery_elapsed_raw :: u16
  pwt_persistence_flags :: u8

record descent_core_telemetry =
  dsc_sequence :: u8
  dsc_descent_status :: u16
  dsc_parachute_angle_raw :: u8

record recovery_status_message =
  rsm_opcode :: recovery_opcode
  rsm_transfer_id :: u8
  rsm_status :: recovery_status_code
  rsm_source :: recovery_source
  rsm_total_size :: u32

record recovery_log_data =
  rld_transfer_id :: u8
  rld_sequence :: u8
  rld_data :: "u8 list"

record attitude_tilt_telemetry =
  att_sequence :: u8
  att_magnitude_raw :: u8
  att_direction_raw :: u16

record lps_telemetry =
  lps_sequence :: u8
  lps_pressure_raw :: u16
  lps_temperature_raw :: u8

record airspeed_telemetry =
  asp_sequence :: u8
  asp_airspeed_raw :: u8

record control_roll_telemetry_v2 =
  crt_sequence :: u8
  crt_reference_unwrapped_raw :: u16
  crt_deviation_unwrapped_raw :: u16
  crt_flags :: u8
  crt_reference_capture_event_sequence :: u8

definition crt_schema_version :: u8 where
  "crt_schema_version = 2"

definition crt_reference_valid :: u8 where
  "crt_reference_valid = push_bit 0 1"

definition crt_reference_captured_since_previous_frame :: u8 where
  "crt_reference_captured_since_previous_frame = push_bit 1 1"

definition crt_control_active :: u8 where
  "crt_control_active = push_bit 2 1"

definition crt_reference_out_of_range :: u8 where
  "crt_reference_out_of_range = push_bit 3 1"

definition crt_deviation_out_of_range :: u8 where
  "crt_deviation_out_of_range = push_bit 4 1"

text \<open>\<open>quantization::RollError::out_of_range\<close>.\<close>

definition roll_error_out_of_range :: u16 where
  "roll_error_out_of_range = 0x800A"

definition controlRollQualityCode :: "u16 \<Rightarrow> u8" where
  "controlRollQualityCode raw =
     (if raw \<ge> 0x8000 \<and> raw \<le> 0x800F then ucast ((raw AND 0x000F) + 1) else 0)"

definition controlRollStatusSignature :: "u16 \<Rightarrow> u16 \<Rightarrow> u8 \<Rightarrow> u32" where
  "controlRollStatusSignature reference_raw deviation_raw flags =
     (let kStatusFlagMask =
            crt_reference_valid OR crt_control_active OR crt_reference_out_of_range
              OR crt_deviation_out_of_range
      in ucast (flags AND kStatusFlagMask)
           OR (push_bit 8 (ucast (controlRollQualityCode reference_raw))
           OR push_bit 13 (ucast (controlRollQualityCode deviation_raw))))"

section \<open>Encoders\<close>

definition encode_EmergencyStop :: "can_id \<Rightarrow> emergency_stop \<Rightarrow> can_frame" where
  "encode_EmergencyStop i m =
     (let r = frame i 1
      in r\<lparr>fr_data := (fr_data r)[0 := es_transaction_id m]\<rparr>)"

definition encode_RecoveryControl :: "recovery_control \<Rightarrow> can_frame" where
  "encode_RecoveryControl m =
     (let r = frame Id_recovery_control 8;
          d = (fr_data r)[0 := recovery_opcode_code (rc_opcode m)
                 OR push_bit 4 (recovery_source_code (rc_source m))];
          d = d[1 := rc_transfer_id m];
          d = putU24 d 2 (rc_offset m);
          d = putU24 d 5 (rc_length m)
      in r\<lparr>fr_data := d\<rparr>)"

definition encode_RecoveryModeCommand :: "recovery_mode_command \<Rightarrow> can_frame" where
  "encode_RecoveryModeCommand m =
     (let r = frame Id_recovery_mode_command 3;
          d = (fr_data r)[0 := rmc_sequence m];
          d = d[1 := recovery_mode_code (rmc_mode m)];
          d = d[2 := recovery_mode_reason_code (rmc_reason m)]
      in r\<lparr>fr_data := d\<rparr>)"

text \<open>\<open>copy_to off src d\<close> is \<open>std::copy(src.begin(), src.end(), d.begin() + off)\<close>.\<close>

fun copy_to :: "nat \<Rightarrow> 'a list \<Rightarrow> 'a list \<Rightarrow> 'a list" where
  "copy_to off [] d = d"
| "copy_to off (x # xs) d = copy_to (Suc off) xs (d[off := x])"

definition encode_GenericCommandRequest :: "generic_command_request \<Rightarrow> can_frame" where
  "encode_GenericCommandRequest m =
     (let r = frame Id_generic_command_request 8;
          d = (fr_data r)[0 := gcr_transaction_id m];
          d = d[1 := gcr_command m];
          d = copy_to 2 (gcr_arguments m) d
      in r\<lparr>fr_data := d\<rparr>)"

definition encode_CommandResult :: "command_result \<Rightarrow> can_frame" where
  "encode_CommandResult m =
     (let r = frame Id_command_result 8;
          d = (fr_data r)[0 := res_transaction_id m];
          d = d[1 := res_command m];
          d = d[2 := command_phase_code (res_phase m)];
          d = d[3 := command_reason_code (res_reason m)];
          d = putU32 d 4 (res_detail m)
      in r\<lparr>fr_data := d\<rparr>)"

definition encode_TimeRequest :: "time_request \<Rightarrow> can_frame" where
  "encode_TimeRequest m =
     (let r = frame Id_time_request 1
      in r\<lparr>fr_data := (fr_data r)[0 := trq_request_id m]\<rparr>)"

definition encode_TimeResponse :: "time_response \<Rightarrow> can_frame" where
  "encode_TimeResponse m =
     (let r = frame Id_time_response 8;
          d = (fr_data r)[0 := trs_request_id m];
          d = d[1 := time_source_code (trs_source m)];
          d = putU32 d 2 (trs_unix_seconds m);
          d = putU16 d 6 (trs_milliseconds m)
      in r\<lparr>fr_data := d\<rparr>)"

definition encode_MissionEvent :: "mission_event \<Rightarrow> can_frame" where
  "encode_MissionEvent m =
     (let r = frame Id_mission_event 8;
          d = (fr_data r)[0 := mev_sequence m];
          d = putU16 d 1 (mev_flags m);
          d = d[3 := mission_state_code (mev_state m)];
          d = putU16 d 4 (mev_elapsed_raw m);
          d = putU16 d 6 (mev_detail m)
      in r\<lparr>fr_data := d\<rparr>)"

definition encode_KinematicsTelemetry :: "kinematics_telemetry \<Rightarrow> can_frame" where
  "encode_KinematicsTelemetry m =
     (let r = frame Id_kinematics_telemetry 8;
          d = (fr_data r)[0 := kin_sequence m];
          d = putU16 d 1 (kin_roll_raw m);
          d = putU16 d 3 (kin_roll_rate_raw m);
          d = d[5 := kin_fin_angle_raw m];
          d = putU16 d 6 (kin_fin_rate_raw m)
      in r\<lparr>fr_data := d\<rparr>)"

definition encode_ControlTelemetry :: "control_telemetry \<Rightarrow> can_frame" where
  "encode_ControlTelemetry m =
     (let r = frame Id_control_telemetry 4;
          d = (fr_data r)[0 := ctl_sequence m];
          d = putU16 d 1 (ctl_requested_torque_raw m AND 0x0FFF);
          d = d[3 := ctl_flight_elapsed_raw m]
      in r\<lparr>fr_data := d\<rparr>)"

definition encode_MissionStatusTelemetry :: "mission_status_telemetry \<Rightarrow> can_frame" where
  "encode_MissionStatusTelemetry m =
     (let r = frame Id_mission_status_telemetry 8;
          d = (fr_data r)[0 := mst_sequence m];
          d = d[1 := mission_state_code (mst_state m)];
          d = putU16 d 2 (mst_flight_status m);
          d = d[4 := mst_config_flags m];
          d = d[5 := fin_mode_code (mst_fin_mode m)];
          d = d[6 := para_mode_code (mst_para_mode m)];
          d = d[7 := mst_parachute_angle_raw m]
      in r\<lparr>fr_data := d\<rparr>)"

definition encode_PowerTimeTelemetry :: "power_time_telemetry \<Rightarrow> can_frame" where
  "encode_PowerTimeTelemetry m =
     (let r = frame Id_power_time_telemetry 8;
          d = (fr_data r)[0 := pwt_sequence m];
          d = d[1 := pwt_logic_voltage_raw m];
          d = d[2 := pwt_motor_voltage_raw m];
          d = putU16 d 3 (pwt_descent_elapsed_raw m);
          d = putU16 d 5 (pwt_recovery_elapsed_raw m);
          d = d[7 := pwt_persistence_flags m AND 0x8F]
      in r\<lparr>fr_data := d\<rparr>)"

definition encode_DescentCoreTelemetry :: "descent_core_telemetry \<Rightarrow> can_frame" where
  "encode_DescentCoreTelemetry m =
     (let r = frame Id_descent_core_telemetry 4;
          d = (fr_data r)[0 := dsc_sequence m];
          d = putU16 d 1 (dsc_descent_status m AND 0x001F);
          d = d[3 := dsc_parachute_angle_raw m]
      in r\<lparr>fr_data := d\<rparr>)"

definition encode_RecoveryStatusMessage :: "recovery_status_message \<Rightarrow> can_frame" where
  "encode_RecoveryStatusMessage m =
     (let r = frame Id_recovery_status 8;
          d = (fr_data r)[0 := recovery_opcode_code (rsm_opcode m)];
          d = d[1 := rsm_transfer_id m];
          d = d[2 := recovery_status_code_code (rsm_status m)];
          d = d[3 := recovery_source_code (rsm_source m)];
          d = putU32 d 4 (rsm_total_size m)
      in r\<lparr>fr_data := d\<rparr>)"

definition encode_RecoveryLogData :: "recovery_log_data \<Rightarrow> can_frame" where
  "encode_RecoveryLogData m =
     (let r = frame Id_recovery_log_data 8;
          d = (fr_data r)[0 := rld_transfer_id m];
          d = d[1 := rld_sequence m];
          d = copy_to 2 (rld_data m) d
      in r\<lparr>fr_data := d\<rparr>)"

definition encode_AttitudeTiltTelemetry :: "attitude_tilt_telemetry \<Rightarrow> can_frame" where
  "encode_AttitudeTiltTelemetry m =
     (let r = frame Id_attitude_tilt_telemetry 3;
          d = (fr_data r)[0 := att_sequence m];
          packed = ucast (att_magnitude_raw m AND 0x7F)
            OR push_bit 7 (att_direction_raw m AND 0x01FF);
          d = putU16 d 1 packed
      in r\<lparr>fr_data := d\<rparr>)"

definition encode_LpsTelemetry :: "lps_telemetry \<Rightarrow> can_frame" where
  "encode_LpsTelemetry m =
     (let r = frame Id_lps_telemetry 4;
          d = (fr_data r)[0 := lps_sequence m];
          d = putU16 d 1 (lps_pressure_raw m AND 0x07FF);
          d = d[3 := lps_temperature_raw m]
      in r\<lparr>fr_data := d\<rparr>)"

definition encode_AirspeedTelemetry :: "airspeed_telemetry \<Rightarrow> can_frame" where
  "encode_AirspeedTelemetry m =
     (let r = frame Id_airspeed_telemetry 2;
          d = (fr_data r)[0 := asp_sequence m];
          d = d[1 := asp_airspeed_raw m]
      in r\<lparr>fr_data := d\<rparr>)"

definition encode_ControlRollTelemetryV2 :: "control_roll_telemetry_v2 \<Rightarrow> can_frame" where
  "encode_ControlRollTelemetryV2 m =
     (let r = frame Id_control_roll_telemetry_v2 8;
          d = (fr_data r)[0 := crt_sequence m];
          d = d[1 := crt_schema_version];
          d = putU16 d 2 (crt_reference_unwrapped_raw m);
          d = putU16 d 4 (crt_deviation_unwrapped_raw m);
          d = d[6 := crt_flags m AND 0x1F];
          d = d[7 := crt_reference_capture_event_sequence m]
      in r\<lparr>fr_data := d\<rparr>)"

section \<open>Decoders\<close>

definition decode_EmergencyStop :: "can_id \<Rightarrow> can_frame \<Rightarrow> codec_error + emergency_stop" where
  "decode_EmergencyStop i f =
     (if i \<noteq> Id_actuator_emergency_stop \<and> i \<noteq> Id_liftoff_detection_emergency_stop
      then Inl CE_wrong_identifier
      else let e = validate f i 1 in
        if e \<noteq> CE_none then Inl e else Inr \<lparr>es_transaction_id = fr_data f ! 0\<rparr>)"

definition decode_RecoveryControl :: "can_frame \<Rightarrow> codec_error + recovery_control" where
  "decode_RecoveryControl f =
     (let e = validate f Id_recovery_control 8; d = fr_data f in
      if e \<noteq> CE_none then Inl e
      else if (d ! 0) AND 0xE0 \<noteq> 0 then Inl CE_reserved_bits
      else let opcode_raw = (d ! 0) AND 0x0F;
               source = recovery_source_cast (drop_bit 4 (d ! 0) AND 0x01) in
        if opcode_raw < recovery_opcode_code RO_wake
           \<or> opcode_raw > recovery_opcode_code RO_stop_log_dump
        then Inl CE_invalid_enum
        else Inr \<lparr>rc_opcode = recovery_opcode_cast opcode_raw, rc_source = source,
                  rc_transfer_id = d ! 1, rc_offset = getU24 d 2, rc_length = getU24 d 5\<rparr>)"

definition decode_RecoveryModeCommand :: "can_frame \<Rightarrow> codec_error + recovery_mode_command" where
  "decode_RecoveryModeCommand f =
     (let e = validate f Id_recovery_mode_command 3; d = fr_data f in
      if e \<noteq> CE_none then Inl e
      else if d ! 1 \<noteq> recovery_mode_code RM_enter_recovery_beacon
           \<or> d ! 2 > recovery_mode_reason_code RR_reset_recovery
      then Inl CE_invalid_enum
      else Inr \<lparr>rmc_sequence = d ! 0, rmc_mode = RM_enter_recovery_beacon,
                rmc_reason = recovery_mode_reason_cast (d ! 2)\<rparr>)"

definition decode_GenericCommandRequest ::
    "can_frame \<Rightarrow> codec_error + generic_command_request" where
  "decode_GenericCommandRequest f =
     (let e = validate f Id_generic_command_request 8; d = fr_data f in
      if e \<noteq> CE_none then Inl e
      else Inr \<lparr>gcr_transaction_id = d ! 0, gcr_command = d ! 1,
                gcr_arguments = take 6 (drop 2 d)\<rparr>)"

definition decode_CommandResult :: "can_frame \<Rightarrow> codec_error + command_result" where
  "decode_CommandResult f =
     (let e = validate f Id_command_result 8; d = fr_data f in
      if e \<noteq> CE_none then Inl e
      else if d ! 2 > 3 \<or> d ! 3 > 14 then Inl CE_invalid_enum
      else Inr \<lparr>res_transaction_id = d ! 0, res_command = d ! 1,
                res_phase = command_phase_cast (d ! 2),
                res_reason = command_reason_cast (d ! 3), res_detail = getU32 d 4\<rparr>)"

definition decode_TimeRequest :: "can_frame \<Rightarrow> codec_error + time_request" where
  "decode_TimeRequest f =
     (let e = validate f Id_time_request 1 in
      if e = CE_none then Inr \<lparr>trq_request_id = fr_data f ! 0\<rparr> else Inl e)"

definition decode_TimeResponse :: "can_frame \<Rightarrow> codec_error + time_response" where
  "decode_TimeResponse f =
     (let e = validate f Id_time_response 8; d = fr_data f in
      if e \<noteq> CE_none then Inl e
      else if d ! 1 > 2 \<or> getU16 d 6 > 999 then Inl CE_invalid_enum
      else Inr \<lparr>trs_request_id = d ! 0, trs_source = time_source_cast (d ! 1),
                trs_unix_seconds = getU32 d 2, trs_milliseconds = getU16 d 6\<rparr>)"

definition decode_MissionEvent :: "can_frame \<Rightarrow> codec_error + mission_event" where
  "decode_MissionEvent f =
     (let e = validate f Id_mission_event 8; d = fr_data f in
      if e \<noteq> CE_none then Inl e
      else if \<not> validMissionState (d ! 3) then Inl CE_invalid_enum
      else Inr \<lparr>mev_sequence = d ! 0, mev_flags = getU16 d 1,
                mev_state = mission_state_cast (d ! 3), mev_elapsed_raw = getU16 d 4,
                mev_detail = getU16 d 6\<rparr>)"

definition decode_KinematicsTelemetry :: "can_frame \<Rightarrow> codec_error + kinematics_telemetry" where
  "decode_KinematicsTelemetry f =
     (let e = validate f Id_kinematics_telemetry 8; d = fr_data f in
      if e = CE_none
      then Inr \<lparr>kin_sequence = d ! 0, kin_roll_raw = getU16 d 1, kin_roll_rate_raw = getU16 d 3,
                kin_fin_angle_raw = d ! 5, kin_fin_rate_raw = getU16 d 6\<rparr>
      else Inl e)"

definition decode_ControlTelemetry :: "can_frame \<Rightarrow> codec_error + control_telemetry" where
  "decode_ControlTelemetry f =
     (let e = validate f Id_control_telemetry 4; d = fr_data f in
      if e \<noteq> CE_none then Inl e
      else let raw = getU16 d 1 in
        if raw AND 0xF000 \<noteq> 0 then Inl CE_reserved_bits
        else Inr \<lparr>ctl_sequence = d ! 0, ctl_requested_torque_raw = raw,
                  ctl_flight_elapsed_raw = d ! 3\<rparr>)"

definition decode_MissionStatusTelemetry ::
    "can_frame \<Rightarrow> codec_error + mission_status_telemetry" where
  "decode_MissionStatusTelemetry f =
     (let e = validate f Id_mission_status_telemetry 8; d = fr_data f in
      if e \<noteq> CE_none then Inl e
      else if \<not> validMissionState (d ! 1) \<or> \<not> validFinMode (d ! 5) \<or> \<not> validParaMode (d ! 6)
      then Inl CE_invalid_enum
      else Inr \<lparr>mst_sequence = d ! 0, mst_state = mission_state_cast (d ! 1),
                mst_flight_status = getU16 d 2, mst_config_flags = d ! 4,
                mst_fin_mode = fin_mode_cast (d ! 5), mst_para_mode = para_mode_cast (d ! 6),
                mst_parachute_angle_raw = d ! 7\<rparr>)"

definition decode_PowerTimeTelemetry :: "can_frame \<Rightarrow> codec_error + power_time_telemetry" where
  "decode_PowerTimeTelemetry f =
     (let e = validate f Id_power_time_telemetry 8; d = fr_data f in
      if e \<noteq> CE_none then Inl e
      else if (d ! 7) AND 0x70 \<noteq> 0 then Inl CE_reserved_bits
      else Inr \<lparr>pwt_sequence = d ! 0, pwt_logic_voltage_raw = d ! 1,
                pwt_motor_voltage_raw = d ! 2, pwt_descent_elapsed_raw = getU16 d 3,
                pwt_recovery_elapsed_raw = getU16 d 5, pwt_persistence_flags = d ! 7\<rparr>)"

definition decode_DescentCoreTelemetry ::
    "can_frame \<Rightarrow> codec_error + descent_core_telemetry" where
  "decode_DescentCoreTelemetry f =
     (let e = validate f Id_descent_core_telemetry 4; d = fr_data f in
      if e \<noteq> CE_none then Inl e
      else let status = getU16 d 1 in
        if status AND 0xFFE0 \<noteq> 0 then Inl CE_reserved_bits
        else Inr \<lparr>dsc_sequence = d ! 0, dsc_descent_status = status,
                  dsc_parachute_angle_raw = d ! 3\<rparr>)"

definition decode_RecoveryStatusMessage ::
    "can_frame \<Rightarrow> codec_error + recovery_status_message" where
  "decode_RecoveryStatusMessage f =
     (let e = validate f Id_recovery_status 8; d = fr_data f in
      if e \<noteq> CE_none then Inl e
      else if d ! 0 < recovery_opcode_code RO_wake
           \<or> d ! 0 > recovery_opcode_code RO_stop_log_dump
           \<or> d ! 2 > 9 \<or> d ! 3 > 1
      then Inl CE_invalid_enum
      else Inr \<lparr>rsm_opcode = recovery_opcode_cast (d ! 0), rsm_transfer_id = d ! 1,
                rsm_status = recovery_status_code_cast (d ! 2),
                rsm_source = recovery_source_cast (d ! 3), rsm_total_size = getU32 d 4\<rparr>)"

definition decode_RecoveryLogData :: "can_frame \<Rightarrow> codec_error + recovery_log_data" where
  "decode_RecoveryLogData f =
     (let e = validate f Id_recovery_log_data 8; d = fr_data f in
      if e \<noteq> CE_none then Inl e
      else Inr \<lparr>rld_transfer_id = d ! 0, rld_sequence = d ! 1, rld_data = take 6 (drop 2 d)\<rparr>)"

definition decode_AttitudeTiltTelemetry ::
    "can_frame \<Rightarrow> codec_error + attitude_tilt_telemetry" where
  "decode_AttitudeTiltTelemetry f =
     (let e = validate f Id_attitude_tilt_telemetry 3; d = fr_data f in
      if e \<noteq> CE_none then Inl e
      else let packed = getU16 d 1 in
        Inr \<lparr>att_sequence = d ! 0, att_magnitude_raw = ucast (packed AND 0x7F),
             att_direction_raw = drop_bit 7 packed\<rparr>)"

definition decode_LpsTelemetry :: "can_frame \<Rightarrow> codec_error + lps_telemetry" where
  "decode_LpsTelemetry f =
     (let e = validate f Id_lps_telemetry 4; d = fr_data f in
      if e \<noteq> CE_none then Inl e
      else let pressure = getU16 d 1 in
        if pressure AND 0xF800 \<noteq> 0 then Inl CE_reserved_bits
        else Inr \<lparr>lps_sequence = d ! 0, lps_pressure_raw = pressure,
                  lps_temperature_raw = d ! 3\<rparr>)"

definition decode_AirspeedTelemetry :: "can_frame \<Rightarrow> codec_error + airspeed_telemetry" where
  "decode_AirspeedTelemetry f =
     (let e = validate f Id_airspeed_telemetry 2; d = fr_data f in
      if e = CE_none then Inr \<lparr>asp_sequence = d ! 0, asp_airspeed_raw = d ! 1\<rparr> else Inl e)"

definition decode_ControlRollTelemetryV2 ::
    "can_frame \<Rightarrow> codec_error + control_roll_telemetry_v2" where
  "decode_ControlRollTelemetryV2 f =
     (let e = validate f Id_control_roll_telemetry_v2 8; d = fr_data f in
      if e \<noteq> CE_none then Inl e
      else if d ! 1 \<noteq> crt_schema_version then Inl CE_invalid_enum
      else if (d ! 6) AND 0xE0 \<noteq> 0 then Inl CE_reserved_bits
      else let reference_raw = getU16 d 2; deviation_raw = getU16 d 4;
               reference_oor = ((d ! 6) AND crt_reference_out_of_range \<noteq> 0);
               deviation_oor = ((d ! 6) AND crt_deviation_out_of_range \<noteq> 0) in
        if (reference_raw = roll_error_out_of_range) \<noteq> reference_oor
           \<or> (deviation_raw = roll_error_out_of_range) \<noteq> deviation_oor
        then Inl CE_invalid_enum
        else Inr \<lparr>crt_sequence = d ! 0, crt_reference_unwrapped_raw = reference_raw,
                  crt_deviation_unwrapped_raw = deviation_raw, crt_flags = d ! 6,
                  crt_reference_capture_event_sequence = d ! 7\<rparr>)"

section \<open>The codec contract\<close>

locale can_codec =
  fixes cid :: can_id
    and len :: u8
    and encode :: "'m \<Rightarrow> can_frame"
    and decode :: "can_frame \<Rightarrow> codec_error + 'm"
    and wf :: "'m \<Rightarrow> bool"
  assumes header: "validate (encode m) cid len = CE_none"
    and payload: "length (fr_data (encode m)) = 8"
    and decode_encode: "wf m \<Longrightarrow> decode (encode m) = Inr m"
    and decode_header: "decode f = Inr m \<Longrightarrow> validate f cid len = CE_none"
    and decode_rejects: "validate f cid len \<noteq> CE_none \<Longrightarrow> decode f = Inl (validate f cid len)"
    and decode_wf: "decode f = Inr m \<Longrightarrow> length (fr_data f) = 8 \<Longrightarrow> wf m"
    and decode_bytes: "decode f = Inr m \<Longrightarrow> length (fr_data f) = 8 \<Longrightarrow>
      take (unat len) (fr_data (encode m)) = take (unat len) (fr_data f)"
begin

lemma encode_inject: "wf m \<Longrightarrow> wf m' \<Longrightarrow> encode m = encode m' \<Longrightarrow> m = m'"
  by (metis decode_encode sum.inject(2))

lemma reencode: "decode f = Inr m \<Longrightarrow> length (fr_data f) = 8 \<Longrightarrow> decode (encode m) = Inr m"
  by (simp add: decode_encode decode_wf)

lemma accepted_identifier: "decode f = Inr m \<Longrightarrow> fr_identifier f = can_id_code cid"
  using decode_header[of f m] by (simp add: validate_def split: if_splits)

end

subsection \<open>Well-formed messages\<close>

definition wf_RecoveryControl :: "recovery_control \<Rightarrow> bool" where
  "wf_RecoveryControl m \<longleftrightarrow> rc_offset m < 2 ^ 24 \<and> rc_length m < 2 ^ 24"

definition wf_GenericCommandRequest :: "generic_command_request \<Rightarrow> bool" where
  "wf_GenericCommandRequest m \<longleftrightarrow> length (gcr_arguments m) = 6"

definition wf_TimeResponse :: "time_response \<Rightarrow> bool" where
  "wf_TimeResponse m \<longleftrightarrow> trs_milliseconds m \<le> 999"

definition wf_ControlTelemetry :: "control_telemetry \<Rightarrow> bool" where
  "wf_ControlTelemetry m \<longleftrightarrow> ctl_requested_torque_raw m AND 0xF000 = 0"

definition wf_PowerTimeTelemetry :: "power_time_telemetry \<Rightarrow> bool" where
  "wf_PowerTimeTelemetry m \<longleftrightarrow> pwt_persistence_flags m AND 0x70 = 0"

definition wf_DescentCoreTelemetry :: "descent_core_telemetry \<Rightarrow> bool" where
  "wf_DescentCoreTelemetry m \<longleftrightarrow> dsc_descent_status m AND 0xFFE0 = 0"

definition wf_RecoveryLogData :: "recovery_log_data \<Rightarrow> bool" where
  "wf_RecoveryLogData m \<longleftrightarrow> length (rld_data m) = 6"

definition wf_AttitudeTiltTelemetry :: "attitude_tilt_telemetry \<Rightarrow> bool" where
  "wf_AttitudeTiltTelemetry m \<longleftrightarrow> att_magnitude_raw m < 128 \<and> att_direction_raw m < 512"

definition wf_LpsTelemetry :: "lps_telemetry \<Rightarrow> bool" where
  "wf_LpsTelemetry m \<longleftrightarrow> lps_pressure_raw m AND 0xF800 = 0"

definition wf_ControlRollTelemetryV2 :: "control_roll_telemetry_v2 \<Rightarrow> bool" where
  "wf_ControlRollTelemetryV2 m \<longleftrightarrow>
     crt_flags m AND 0xE0 = 0 \<and>
     (crt_reference_unwrapped_raw m = roll_error_out_of_range \<longleftrightarrow>
        crt_flags m AND crt_reference_out_of_range \<noteq> 0) \<and>
     (crt_deviation_unwrapped_raw m = roll_error_out_of_range \<longleftrightarrow>
        crt_flags m AND crt_deviation_out_of_range \<noteq> 0)"

subsection \<open>Casts, masks and packed fields\<close>

lemma length_copy_to [simp]: "length (copy_to off xs d) = length d"
  by (induction off xs d rule: copy_to.induct) simp_all

lemma cast_code [wire_simps]:
  "mission_state_cast (mission_state_code ms) = ms"
  "command_phase_cast (command_phase_code cp) = cp"
  "command_reason_cast (command_reason_code cr) = cr"
  "time_source_cast (time_source_code ts) = ts"
  "recovery_opcode_cast (recovery_opcode_code ro) = ro"
  "recovery_mode_reason_cast (recovery_mode_reason_code rr) = rr"
  "recovery_source_cast (recovery_source_code rs) = rs"
  "recovery_status_code_cast (recovery_status_code_code sc) = sc"
  "fin_mode_cast (fin_mode_code fm) = fm"
  "para_mode_cast (para_mode_code pm) = pm"
  by - ((cases ms; simp add: mission_state_cast_def),
      (cases cp; simp add: command_phase_cast_def),
      (cases cr; simp add: command_reason_cast_def),
      (cases ts; simp add: time_source_cast_def),
      (cases ro; simp add: recovery_opcode_cast_def),
      (cases rr; simp add: recovery_mode_reason_cast_def),
      (cases rs; simp add: recovery_source_cast_def),
      (cases sc; simp add: recovery_status_code_cast_def),
      (cases fm; simp add: fin_mode_cast_def),
      (cases pm; simp add: para_mode_cast_def))

lemma code_cast_state: "validMissionState r \<Longrightarrow> mission_state_code (mission_state_cast r) = r"
  by (auto simp: validMissionState_def mission_state_cast_def u8_small_cases)

lemma code_cast_phase: "r \<le> 3 \<Longrightarrow> command_phase_code (command_phase_cast r) = r"
  by (auto simp: command_phase_cast_def u8_small_cases)

lemma code_cast_reason: "r \<le> 14 \<Longrightarrow> command_reason_code (command_reason_cast r) = r"
  by (auto simp: command_reason_cast_def u8_small_cases)

lemma code_cast_time_source: "r \<le> 2 \<Longrightarrow> time_source_code (time_source_cast r) = r"
  by (auto simp: time_source_cast_def u8_small_cases)

lemma code_cast_opcode:
  "r \<noteq> 0 \<Longrightarrow> r \<le> 3 \<Longrightarrow> recovery_opcode_code (recovery_opcode_cast r) = r"
  by (auto simp: recovery_opcode_cast_def u8_small_cases)

lemma code_cast_mode_reason:
  "r \<le> 3 \<Longrightarrow> recovery_mode_reason_code (recovery_mode_reason_cast r) = r"
  by (auto simp: recovery_mode_reason_cast_def u8_small_cases)

lemma code_cast_source: "r \<le> 1 \<Longrightarrow> recovery_source_code (recovery_source_cast r) = r"
  by (auto simp: recovery_source_cast_def u8_small_cases)

lemma code_cast_status:
  "r \<le> 9 \<Longrightarrow> recovery_status_code_code (recovery_status_code_cast r) = r"
  by (auto simp: recovery_status_code_cast_def u8_small_cases)

lemma code_cast_fin_mode: "validFinMode r \<Longrightarrow> fin_mode_code (fin_mode_cast r) = r"
  by (auto simp: validFinMode_def fin_mode_cast_def u8_small_cases)

lemma code_cast_para_mode: "validParaMode r \<Longrightarrow> para_mode_code (para_mode_cast r) = r"
  by (auto simp: validParaMode_def para_mode_cast_def u8_small_cases)

lemma code_bounds [wire_simps]:
  "\<not> 3 < command_phase_code cp" "\<not> 14 < command_reason_code cr" "\<not> 2 < time_source_code ts"
  "recovery_opcode_code ro \<noteq> 0" "\<not> 3 < recovery_opcode_code ro"
  "\<not> 3 < recovery_mode_reason_code rr" "\<not> 1 < recovery_source_code rs"
  "\<not> 9 < recovery_status_code_code sc" "validMissionState (mission_state_code ms)"
  "validFinMode (fin_mode_code fm)" "validParaMode (para_mode_code pm)"
  by - ((cases cp; simp), (cases cr; simp), (cases ts; simp), (cases ro; simp), (cases ro; simp),
      (cases rr; simp), (cases rs; simp), (cases sc; simp),
      (cases ms; simp add: validMissionState_def), (cases fm; simp add: validFinMode_def),
      (cases pm; simp add: validParaMode_def))

text \<open>The masks of the encoders and of the reserved-bit checks are complementary.\<close>

lemma mask_complements [wire_simps]:
  "(t AND 0x0FFF) AND 0xF000 = 0" "(t AND 0x001F) AND 0xFFE0 = 0" "(t AND 0x07FF) AND 0xF800 = 0"
  "(b AND 0x8F) AND 0x70 = 0" "(b AND 0x1F) AND 0xE0 = 0"
  for t :: u16 and b :: u8
  by (simp_all add: and.assoc)

lemma mask_identities [wire_simps]:
  "t AND 0xF000 = 0 \<Longrightarrow> t AND 0x0FFF = t" "t AND 0xFFE0 = 0 \<Longrightarrow> t AND 0x001F = t"
  "t AND 0xF800 = 0 \<Longrightarrow> t AND 0x07FF = t"
  "b AND 0x70 = 0 \<Longrightarrow> b AND 0x8F = b" "b AND 0xE0 = 0 \<Longrightarrow> b AND 0x1F = b"
  for t :: u16 and b :: u8
  by (erule and_eq_0_self; simp)+

lemmas code_casts = code_cast_state code_cast_phase code_cast_reason code_cast_time_source
  code_cast_opcode code_cast_mode_reason code_cast_source code_cast_status code_cast_fin_mode
  code_cast_para_mode

lemma masks_of_tilt:
  "(0x7F::u16) = mask 7" "(0x7F::u8) = mask 7" "(0x01FF::u16) = mask 9"
  by (simp_all add: mask_eq_exp_minus_1)

lemma tilt_pack_unpack [wire_simps]:
  "mag < 128 \<Longrightarrow>
     ucast ((ucast (mag AND 0x7F) OR push_bit 7 (dir AND 0x01FF)) AND 0x7F) = mag"
  "dir < 512 \<Longrightarrow>
     drop_bit 7 (ucast (mag AND 0x7F) OR push_bit 7 (dir AND 0x01FF)) = dir"
  "ucast (ucast (p AND 0x7F) AND 0x7F :: u8) OR push_bit 7 (drop_bit 7 p AND 0x01FF) = p"
  for mag :: u8 and dir p :: u16
proof -
  assume "mag < 128"
  then have m: "take_bit 7 mag = mag" by (intro take_bit_word_small) simp_all
  have "bit (ucast ((ucast (mag AND 0x7F) OR push_bit 7 (dir AND 0x01FF)) AND 0x7F) :: u8) n
          \<longleftrightarrow> bit (take_bit 7 mag) n" if "n < 8" for n
    using that unfolding masks_of_tilt by (auto simp: bit_simps)
  then show "ucast ((ucast (mag AND 0x7F) OR push_bit 7 (dir AND 0x01FF)) AND 0x7F) = mag"
    unfolding m by (intro bit_word_eqI) simp
next
  assume "dir < 512"
  then have d: "take_bit 9 dir = dir" by (intro take_bit_word_small) simp_all
  have "bit (drop_bit 7 (ucast (mag AND 0x7F) OR push_bit 7 (dir AND 0x01FF))) n
          \<longleftrightarrow> bit (take_bit 9 dir) n" if "n < 16" for n
    using that unfolding masks_of_tilt by (auto simp: bit_simps)
  then show "drop_bit 7 (ucast (mag AND 0x7F) OR push_bit 7 (dir AND 0x01FF)) = dir"
    unfolding d by (intro bit_word_eqI) simp
next
  have "bit (ucast (ucast (p AND 0x7F) AND 0x7F :: u8) OR push_bit 7 (drop_bit 7 p AND 0x01FF)) n
          \<longleftrightarrow> bit p n" if "n < 16" for n
    using that unfolding masks_of_tilt by (cases "n < 7") (auto simp: bit_simps)
  then show "ucast (ucast (p AND 0x7F) AND 0x7F :: u8) OR push_bit 7 (drop_bit 7 p AND 0x01FF) = p"
    by (intro bit_word_eqI) simp
qed

lemma tilt_unpacked_bounds [wire_simps]:
  "ucast (p AND 0x7F) < (128::u8)" "drop_bit 7 p < (512::u16)" for p :: u16
proof -
  have "ucast (p AND 0x7F) = take_bit 7 (ucast p :: u8)"
    unfolding masks_of_tilt by (rule bit_word_eqI) (auto simp: bit_simps)
  then show "ucast (p AND 0x7F) < (128::u8)"
    using take_bit_word_less [of 7 "ucast p :: u8"] by simp
  have "drop_bit 7 p = take_bit 9 (drop_bit 7 p)"
    by (rule bit_word_eqI) (auto simp: bit_simps dest: bit_imp_le_length)
  then show "drop_bit 7 p < (512::u16)"
    using take_bit_word_less [of 9 "drop_bit 7 p"] by simp
qed

text \<open>The first byte of \<open>RecoveryControl\<close>: opcode in the low nibble, source in bit 4.\<close>

lemma opcode_source_unpack [wire_simps]:
  "(recovery_opcode_code ro OR push_bit 4 (recovery_source_code rs)) AND 0xE0 = 0"
  "(recovery_opcode_code ro OR push_bit 4 (recovery_source_code rs)) AND 0x0F
     = recovery_opcode_code ro"
  "recovery_source_cast
     (drop_bit 4 (recovery_opcode_code ro OR push_bit 4 (recovery_source_code rs)) AND 1) = rs"
  by (cases ro; cases rs; simp add: recovery_source_cast_def)+

lemma opcode_source_repack:
  assumes "b AND 0xE0 = 0" and "b AND 0x0F \<noteq> 0" and "\<not> 3 < b AND 0x0F"
  shows "recovery_opcode_code (recovery_opcode_cast (b AND 0x0F))
    OR push_bit 4 (recovery_source_code (recovery_source_cast (drop_bit 4 b AND 1))) = b"
proof -
  have "drop_bit 4 b AND 1 \<le> 1" by (rule word_and_le1)
  then have "recovery_source_code (recovery_source_cast (drop_bit 4 b AND 1)) = drop_bit 4 b AND 1"
    by (rule code_cast_source)
  moreover have "recovery_opcode_code (recovery_opcode_cast (b AND 0x0F)) = b AND 0x0F"
    using assms(2,3) by (intro code_cast_opcode) simp_all
  moreover have "(b AND mask 4) OR push_bit 4 (drop_bit 4 b AND mask 1) = b AND mask 5"
  proof (rule bit_word_eqI)
    fix n assume "n < LENGTH(8)"
    then show "bit ((b AND mask 4) OR push_bit 4 (drop_bit 4 b AND mask 1)) n = bit (b AND mask 5) n"
      by (cases "n = 4") (auto simp: bit_simps simp del: push_bit_and)
  qed
  moreover have "b AND 0x1F = b" using assms(1) by (rule mask_identities)
  ultimately show ?thesis by (simp add: mask_eq_exp_minus_1)
qed

lemma recovery_mode_single [wire_simps]:
  "recovery_mode_code rm = 1"
  "\<lparr>rmc_sequence = rmc_sequence m, rmc_mode = RM_enter_recovery_beacon,
     rmc_reason = rmc_reason m\<rparr> = m"
  by - ((cases rm; simp), (cases m; cases "rmc_mode m"; simp))

lemmas frame_simps = frame_def zero8_def validate_def putU16_def putU24_def putU32_def
  getU16_def getU24_def getU32_def wire_simps Let_def

subsection \<open>Every codec keeps the contract\<close>

interpretation emergency_codec:
  can_codec Id_actuator_emergency_stop 1 "encode_EmergencyStop Id_actuator_emergency_stop"
    "decode_EmergencyStop Id_actuator_emergency_stop" "\<lambda>_. True"
  by unfold_locales
    (auto simp: encode_EmergencyStop_def decode_EmergencyStop_def
      frame_simps code_casts
      elim!: length_8_cases length_6_cases split: if_splits)

interpretation liftoff_emergency_codec:
  can_codec Id_liftoff_detection_emergency_stop 1 "encode_EmergencyStop Id_liftoff_detection_emergency_stop"
    "decode_EmergencyStop Id_liftoff_detection_emergency_stop" "\<lambda>_. True"
  by unfold_locales
    (auto simp: encode_EmergencyStop_def decode_EmergencyStop_def
      frame_simps code_casts
      elim!: length_8_cases length_6_cases split: if_splits)

interpretation recovery_control_codec:
  can_codec Id_recovery_control 8 encode_RecoveryControl
    decode_RecoveryControl wf_RecoveryControl
  by unfold_locales
    (auto simp: encode_RecoveryControl_def decode_RecoveryControl_def wf_RecoveryControl_def
      frame_simps take_bit_word_small opcode_source_repack simp del: push_bit_and drop_bit_or
      elim!: length_8_cases length_6_cases split: if_splits)

interpretation recovery_mode_codec:
  can_codec Id_recovery_mode_command 3 encode_RecoveryModeCommand
    decode_RecoveryModeCommand "\<lambda>_. True"
  by unfold_locales
    (auto simp: encode_RecoveryModeCommand_def decode_RecoveryModeCommand_def
      frame_simps code_casts
      elim!: length_8_cases length_6_cases split: if_splits)

interpretation generic_codec:
  can_codec Id_generic_command_request 8 encode_GenericCommandRequest
    decode_GenericCommandRequest wf_GenericCommandRequest
  by unfold_locales
    (auto simp: encode_GenericCommandRequest_def decode_GenericCommandRequest_def wf_GenericCommandRequest_def
      frame_simps code_casts
      elim!: length_8_cases length_6_cases split: if_splits)

interpretation result_codec:
  can_codec Id_command_result 8 encode_CommandResult
    decode_CommandResult "\<lambda>_. True"
  by unfold_locales
    (auto simp: encode_CommandResult_def decode_CommandResult_def
      frame_simps code_casts
      elim!: length_8_cases length_6_cases split: if_splits)

interpretation time_request_codec:
  can_codec Id_time_request 1 encode_TimeRequest
    decode_TimeRequest "\<lambda>_. True"
  by unfold_locales
    (auto simp: encode_TimeRequest_def decode_TimeRequest_def
      frame_simps code_casts
      elim!: length_8_cases length_6_cases split: if_splits)

interpretation time_response_codec:
  can_codec Id_time_response 8 encode_TimeResponse
    decode_TimeResponse wf_TimeResponse
  by unfold_locales
    (auto simp: encode_TimeResponse_def decode_TimeResponse_def wf_TimeResponse_def
      frame_simps code_casts
      elim!: length_8_cases length_6_cases split: if_splits)

interpretation mission_event_codec:
  can_codec Id_mission_event 8 encode_MissionEvent
    decode_MissionEvent "\<lambda>_. True"
  by unfold_locales
    (auto simp: encode_MissionEvent_def decode_MissionEvent_def
      frame_simps code_casts
      elim!: length_8_cases length_6_cases split: if_splits)

interpretation kinematics_codec:
  can_codec Id_kinematics_telemetry 8 encode_KinematicsTelemetry
    decode_KinematicsTelemetry "\<lambda>_. True"
  by unfold_locales
    (auto simp: encode_KinematicsTelemetry_def decode_KinematicsTelemetry_def
      frame_simps code_casts
      elim!: length_8_cases length_6_cases split: if_splits)

interpretation control_codec:
  can_codec Id_control_telemetry 4 encode_ControlTelemetry
    decode_ControlTelemetry wf_ControlTelemetry
  by unfold_locales
    (auto simp: encode_ControlTelemetry_def decode_ControlTelemetry_def wf_ControlTelemetry_def
      frame_simps code_casts
      elim!: length_8_cases length_6_cases split: if_splits)

interpretation mission_status_codec:
  can_codec Id_mission_status_telemetry 8 encode_MissionStatusTelemetry
    decode_MissionStatusTelemetry "\<lambda>_. True"
  by unfold_locales
    (auto simp: encode_MissionStatusTelemetry_def decode_MissionStatusTelemetry_def
      frame_simps code_casts
      elim!: length_8_cases length_6_cases split: if_splits)

interpretation power_time_codec:
  can_codec Id_power_time_telemetry 8 encode_PowerTimeTelemetry
    decode_PowerTimeTelemetry wf_PowerTimeTelemetry
  by unfold_locales
    (auto simp: encode_PowerTimeTelemetry_def decode_PowerTimeTelemetry_def wf_PowerTimeTelemetry_def
      frame_simps code_casts
      elim!: length_8_cases length_6_cases split: if_splits)

interpretation descent_core_codec:
  can_codec Id_descent_core_telemetry 4 encode_DescentCoreTelemetry
    decode_DescentCoreTelemetry wf_DescentCoreTelemetry
  by unfold_locales
    (auto simp: encode_DescentCoreTelemetry_def decode_DescentCoreTelemetry_def wf_DescentCoreTelemetry_def
      frame_simps code_casts
      elim!: length_8_cases length_6_cases split: if_splits)

interpretation recovery_status_codec:
  can_codec Id_recovery_status 8 encode_RecoveryStatusMessage
    decode_RecoveryStatusMessage "\<lambda>_. True"
  by unfold_locales
    (auto simp: encode_RecoveryStatusMessage_def decode_RecoveryStatusMessage_def
      frame_simps code_casts
      elim!: length_8_cases length_6_cases split: if_splits)

interpretation recovery_log_codec:
  can_codec Id_recovery_log_data 8 encode_RecoveryLogData
    decode_RecoveryLogData wf_RecoveryLogData
  by unfold_locales
    (auto simp: encode_RecoveryLogData_def decode_RecoveryLogData_def wf_RecoveryLogData_def
      frame_simps code_casts
      elim!: length_8_cases length_6_cases split: if_splits)

interpretation tilt_codec:
  can_codec Id_attitude_tilt_telemetry 3 encode_AttitudeTiltTelemetry
    decode_AttitudeTiltTelemetry wf_AttitudeTiltTelemetry
  by unfold_locales
    (auto simp: encode_AttitudeTiltTelemetry_def decode_AttitudeTiltTelemetry_def wf_AttitudeTiltTelemetry_def
      frame_simps code_casts simp del: push_bit_and drop_bit_or push_bit_or
      elim!: length_8_cases length_6_cases split: if_splits)

interpretation lps_codec:
  can_codec Id_lps_telemetry 4 encode_LpsTelemetry
    decode_LpsTelemetry wf_LpsTelemetry
  by unfold_locales
    (auto simp: encode_LpsTelemetry_def decode_LpsTelemetry_def wf_LpsTelemetry_def
      frame_simps code_casts
      elim!: length_8_cases length_6_cases split: if_splits)

interpretation airspeed_codec:
  can_codec Id_airspeed_telemetry 2 encode_AirspeedTelemetry
    decode_AirspeedTelemetry "\<lambda>_. True"
  by unfold_locales
    (auto simp: encode_AirspeedTelemetry_def decode_AirspeedTelemetry_def
      frame_simps code_casts
      elim!: length_8_cases length_6_cases split: if_splits)

interpretation control_roll_codec:
  can_codec Id_control_roll_telemetry_v2 8 encode_ControlRollTelemetryV2
    decode_ControlRollTelemetryV2 wf_ControlRollTelemetryV2
  by unfold_locales
    (auto simp: encode_ControlRollTelemetryV2_def decode_ControlRollTelemetryV2_def wf_ControlRollTelemetryV2_def
      frame_simps code_casts u16_bytes_eq [of _ _ roll_error_out_of_range]
      elim!: length_8_cases length_6_cases split: if_splits)

section \<open>Telemetry schedule and sequence counters\<close>

definition canPeriodMilliseconds :: "can_id \<Rightarrow> u16" where
  "canPeriodMilliseconds i =
     (case i of
        Id_kinematics_telemetry \<Rightarrow> 10 | Id_control_telemetry \<Rightarrow> 10
      | Id_descent_core_telemetry \<Rightarrow> 10 | Id_airspeed_telemetry \<Rightarrow> 10
      | Id_control_roll_telemetry_v2 \<Rightarrow> 100
      | Id_lps_telemetry \<Rightarrow> 40
      | Id_mission_status_telemetry \<Rightarrow> 100 | Id_power_time_telemetry \<Rightarrow> 100
      | Id_attitude_tilt_telemetry \<Rightarrow> 100
      | _ \<Rightarrow> 0)"

definition sequenceIndex :: "can_id \<Rightarrow> nat" where
  "sequenceIndex i =
     (case i of
        Id_kinematics_telemetry \<Rightarrow> 0 | Id_control_telemetry \<Rightarrow> 1
      | Id_mission_status_telemetry \<Rightarrow> 2 | Id_power_time_telemetry \<Rightarrow> 3
      | Id_descent_core_telemetry \<Rightarrow> 4 | Id_recovery_status \<Rightarrow> 5
      | Id_recovery_log_data \<Rightarrow> 6 | Id_attitude_tilt_telemetry \<Rightarrow> 7
      | Id_lps_telemetry \<Rightarrow> 8 | Id_airspeed_telemetry \<Rightarrow> 9
      | Id_control_roll_telemetry_v2 \<Rightarrow> 10
      | _ \<Rightarrow> 0)"

text \<open>\<open>TelemetrySequences\<close>: eleven wrapping 8-bit counters.\<close>

type_synonym telemetry_sequences = "u8 list"

definition sequences_init :: telemetry_sequences where
  "sequences_init = replicate 11 0"

definition sequences_next :: "can_id \<Rightarrow> telemetry_sequences \<Rightarrow> u8 \<times> telemetry_sequences" where
  "sequences_next i cs =
     (let k = sequenceIndex i; result = cs ! k in (result, cs[k := result + 1]))"

text \<open>The values handed out over a sequence of requests.\<close>

fun sequences_run :: "can_id list \<Rightarrow> telemetry_sequences \<Rightarrow> u8 list \<times> telemetry_sequences" where
  "sequences_run [] cs = ([], cs)"
| "sequences_run (i # is) cs =
     (let (r, cs') = sequences_next i cs; (rs, cs'') = sequences_run is cs' in (r # rs, cs''))"

text \<open>The identifiers that own a counter.\<close>

definition sequenced :: "can_id \<Rightarrow> bool" where
  "sequenced i \<longleftrightarrow> i \<in> {Id_kinematics_telemetry, Id_control_telemetry,
     Id_mission_status_telemetry, Id_power_time_telemetry, Id_descent_core_telemetry,
     Id_recovery_status, Id_recovery_log_data, Id_attitude_tilt_telemetry, Id_lps_telemetry,
     Id_airspeed_telemetry, Id_control_roll_telemetry_v2}"

lemma sequenceIndex_bound: "sequenceIndex i < 11"
  by (cases i) (simp_all add: sequenceIndex_def)

lemma sequenceIndex_inj: "sequenced i \<Longrightarrow> sequenced j \<Longrightarrow> sequenceIndex i = sequenceIndex j \<longleftrightarrow> i = j"
  by (cases i; cases j; simp add: sequenceIndex_def sequenced_def)

lemma sequences_next_length: "sequences_next i cs = (r, cs') \<Longrightarrow> length cs' = length cs"
  by (auto simp: sequences_next_def Let_def)

lemma sequences_run_counter:
  assumes "length cs = 11" and "sequences_run is cs = (rs, cs')"
    and "\<forall>j\<in>set is. sequenced j" and "sequenced i"
  shows "length rs = length is \<and>
    (\<forall>k<length is. is ! k = i \<longrightarrow>
       rs ! k = cs ! sequenceIndex i + of_nat (count_list (take k is) i))"
  using assms
proof (induction "is" arbitrary: cs rs)
  case Nil
  then show ?case by simp
next
  case (Cons j js)
  obtain cs1 rs1 where next_j: "sequences_next j cs = (cs ! sequenceIndex j, cs1)"
    and run: "sequences_run js cs1 = (rs1, cs')" and rs: "rs = cs ! sequenceIndex j # rs1"
    and cs1: "cs1 = cs[sequenceIndex j := cs ! sequenceIndex j + 1]"
    using Cons.prems(2) by (auto simp: sequences_next_def Let_def split: prod.splits)
  have IH: "length rs1 = length js" "\<And>k. k < length js \<Longrightarrow> js ! k = i \<Longrightarrow>
       rs1 ! k = cs1 ! sequenceIndex i + of_nat (count_list (take k js) i)"
    using Cons.IH [OF _ run] Cons.prems by (auto simp: cs1)
  have upd: "cs1 ! sequenceIndex i = cs ! sequenceIndex i + (if j = i then 1 else 0)"
    using Cons.prems sequenceIndex_bound [of i] sequenceIndex_inj [of i j]
    by (auto simp: cs1 nth_list_update)
  show ?case
    using IH upd by (auto simp: rs nth_Cons split: nat.splits)
qed

section \<open>Properties\<close>

text \<open>C22: Round trip of the whole wire format. Every message of the protocol whose fields
  fit their wire width decodes, from the frame its encoder builds, to exactly itself; both
  emergency stop identifiers included.\<close>

theorem can_roundtrip:
  "(i \<in> {Id_actuator_emergency_stop, Id_liftoff_detection_emergency_stop} \<longrightarrow>
      decode_EmergencyStop i (encode_EmergencyStop i es) = Inr es) \<and>
   (wf_RecoveryControl rc \<longrightarrow> decode_RecoveryControl (encode_RecoveryControl rc) = Inr rc) \<and>
   (decode_RecoveryModeCommand (encode_RecoveryModeCommand rm) = Inr rm) \<and>
   (wf_GenericCommandRequest g \<longrightarrow>
      decode_GenericCommandRequest (encode_GenericCommandRequest g) = Inr g) \<and>
   (decode_CommandResult (encode_CommandResult r) = Inr r) \<and>
   (decode_TimeRequest (encode_TimeRequest tq) = Inr tq) \<and>
   (wf_TimeResponse tr \<longrightarrow> decode_TimeResponse (encode_TimeResponse tr) = Inr tr) \<and>
   (decode_MissionEvent (encode_MissionEvent ev) = Inr ev) \<and>
   (decode_KinematicsTelemetry (encode_KinematicsTelemetry k) = Inr k) \<and>
   (wf_ControlTelemetry c \<longrightarrow> decode_ControlTelemetry (encode_ControlTelemetry c) = Inr c) \<and>
   (decode_MissionStatusTelemetry (encode_MissionStatusTelemetry ms) = Inr ms) \<and>
   (wf_PowerTimeTelemetry p \<longrightarrow> decode_PowerTimeTelemetry (encode_PowerTimeTelemetry p) = Inr p) \<and>
   (wf_DescentCoreTelemetry d \<longrightarrow>
      decode_DescentCoreTelemetry (encode_DescentCoreTelemetry d) = Inr d) \<and>
   (decode_RecoveryStatusMessage (encode_RecoveryStatusMessage rs) = Inr rs) \<and>
   (wf_RecoveryLogData ld \<longrightarrow> decode_RecoveryLogData (encode_RecoveryLogData ld) = Inr ld) \<and>
   (wf_AttitudeTiltTelemetry a \<longrightarrow>
      decode_AttitudeTiltTelemetry (encode_AttitudeTiltTelemetry a) = Inr a) \<and>
   (wf_LpsTelemetry l \<longrightarrow> decode_LpsTelemetry (encode_LpsTelemetry l) = Inr l) \<and>
   (decode_AirspeedTelemetry (encode_AirspeedTelemetry s) = Inr s) \<and>
   (wf_ControlRollTelemetryV2 v \<longrightarrow>
      decode_ControlRollTelemetryV2 (encode_ControlRollTelemetryV2 v) = Inr v)"
  by (auto simp: emergency_codec.decode_encode liftoff_emergency_codec.decode_encode
      recovery_control_codec.decode_encode recovery_mode_codec.decode_encode
      generic_codec.decode_encode result_codec.decode_encode time_request_codec.decode_encode
      time_response_codec.decode_encode mission_event_codec.decode_encode
      kinematics_codec.decode_encode control_codec.decode_encode
      mission_status_codec.decode_encode power_time_codec.decode_encode
      descent_core_codec.decode_encode recovery_status_codec.decode_encode
      recovery_log_codec.decode_encode tilt_codec.decode_encode lps_codec.decode_encode
      airspeed_codec.decode_encode control_roll_codec.decode_encode)

theorem can_roundtrip_witness:
  "decode_RecoveryControl (encode_RecoveryControl
     \<lparr>rc_opcode = RO_start_log_dump, rc_source = RS_mission_sd_latest_flight,
      rc_transfer_id = 7, rc_offset = 0x123456, rc_length = 0xFFFFFF\<rparr>)
   = Inr \<lparr>rc_opcode = RO_start_log_dump, rc_source = RS_mission_sd_latest_flight,
      rc_transfer_id = 7, rc_offset = 0x123456, rc_length = 0xFFFFFF\<rparr> \<and>
   decode_GenericCommandRequest (encode_GenericCommandRequest
     \<lparr>gcr_transaction_id = 3, gcr_command = 0x13, gcr_arguments = [1, 2, 3, 4, 5, 6]\<rparr>)
   = Inr \<lparr>gcr_transaction_id = 3, gcr_command = 0x13, gcr_arguments = [1, 2, 3, 4, 5, 6]\<rparr>"
proof -
  let ?rc = "\<lparr>rc_opcode = RO_start_log_dump, rc_source = RS_mission_sd_latest_flight,
      rc_transfer_id = 7, rc_offset = 0x123456, rc_length = 0xFFFFFF\<rparr>"
  let ?g = "\<lparr>gcr_transaction_id = 3, gcr_command = 0x13, gcr_arguments = [1, 2, 3, 4, 5, 6]\<rparr>"
  have "wf_RecoveryControl ?rc" and "wf_GenericCommandRequest ?g"
    by (simp_all add: wf_RecoveryControl_def wf_GenericCommandRequest_def)
  then show ?thesis using can_roundtrip [where rc = ?rc and g = ?g] by blast
qed



text \<open>Emergency isolation. A frame that decodes as an emergency stop for one of the two
  reserved identifiers is rejected by every other decoder of the protocol that the board
  listens to, and no generic command, time response or recovery frame can be taken for an
  emergency stop.\<close>

theorem emergency_frames_isolated:
  assumes "decode_EmergencyStop i f = Inr m"
  shows "i \<in> {Id_actuator_emergency_stop, Id_liftoff_detection_emergency_stop} \<and>
    fr_identifier f = can_id_code i \<and>
    decode_GenericCommandRequest f = Inl CE_wrong_identifier \<and>
    decode_TimeResponse f = Inl CE_wrong_identifier \<and>
    decode_RecoveryControl f = Inl CE_wrong_identifier \<and>
    decode_RecoveryModeCommand f = Inl CE_wrong_identifier \<and>
    (\<forall>j. j \<noteq> i \<longrightarrow> decode_EmergencyStop j f = Inl CE_wrong_identifier)"
proof -
  from assms have i: "i \<in> {Id_actuator_emergency_stop, Id_liftoff_detection_emergency_stop}"
    and v: "validate f i 1 = CE_none"
    by (auto simp: decode_EmergencyStop_def Let_def split: if_splits)
  then have fr: "\<not> fr_extended f" "\<not> fr_remote f" "fr_identifier f = can_id_code i"
    by (auto simp: validate_def split: if_splits)
  have other: "validate f j n = CE_wrong_identifier" if "can_id_code j \<noteq> can_id_code i" for j n
    using fr that by (simp add: validate_def)
  have "decode_EmergencyStop j f = Inl CE_wrong_identifier" if "j \<noteq> i" for j
    using i that other [of j 1] by (auto simp: decode_EmergencyStop_def)
  then show ?thesis
    using i fr by (auto simp: generic_codec.decode_rejects time_response_codec.decode_rejects
        recovery_control_codec.decode_rejects recovery_mode_codec.decode_rejects other)
qed

theorem emergency_frames_isolated_witness:
  "decode_GenericCommandRequest (encode_EmergencyStop Id_actuator_emergency_stop
     \<lparr>es_transaction_id = 5\<rparr>) = Inl CE_wrong_identifier"
  using emergency_frames_isolated [OF emergency_codec.decode_encode
      [of "\<lparr>es_transaction_id = 5\<rparr>"]] by simp

text \<open>Telemetry sequence numbers. Starting from power-up, over any interleaving of
  requests for sequenced identifiers, the k-th number handed out for an identifier is the
  count of earlier requests for that same identifier, modulo 256: streams never disturb each
  other, so a receiver sees a gap exactly when a frame of that stream was lost.\<close>

theorem sequence_numbers_per_stream:
  assumes "sequences_run is sequences_init = (rs, cs)" and "\<forall>j\<in>set is. sequenced j"
    and "k < length is"
  shows "length rs = length is \<and>
    unat (rs ! k) = count_list (take k is) (is ! k) mod 256"
proof -
  have "sequenced (is ! k)" using assms(2,3) by simp
  with sequences_run_counter [OF _ assms(1,2), of "is ! k"] assms(3)
  have "length rs = length is \<and>
      rs ! k = sequences_init ! sequenceIndex (is ! k) + of_nat (count_list (take k is) (is ! k))"
    by (simp add: sequences_init_def)
  then show ?thesis
    using sequenceIndex_bound [of "is ! k"] by (simp add: sequences_init_def unat_of_nat)
qed

theorem sequence_numbers_per_stream_witness:
  "fst (sequences_run [Id_lps_telemetry, Id_kinematics_telemetry, Id_lps_telemetry]
     sequences_init) ! 2 = 1"
proof -
  let ?is = "[Id_lps_telemetry, Id_kinematics_telemetry, Id_lps_telemetry]"
  obtain rs cs where run: "sequences_run ?is sequences_init = (rs, cs)" by fastforce
  have "unat (rs ! 2) = count_list (take 2 ?is) (?is ! 2) mod 256"
    using sequence_numbers_per_stream [OF run, of 2] by (simp add: sequenced_def)
  then have "unat (rs ! 2) = unat (1::u8)" by simp
  then show ?thesis by (simp only: word_unat_eq_iff run fst_conv)
qed

end
