(* ===== verification/Double.thy ===== *)
theory Double
  imports Prelude
begin

text \<open>
  The C++ type \<open>double\<close> (IEEE 754 binary64) as an explicit value type: a finite real, a signed
  infinity or NaN. Every arithmetic operation computes the exact real result and rounds it
  once, to nearest with ties to even, with 53 significant bits, the subnormal exponent floor
  of -1074 and overflow to infinity from \<open>2 ^ 1024\<close> on. The two zeros are one value: the code
  compares zeros and tests divisors, and never divides by a zero whose sign matters. The
  payload of a NaN is not represented. Lemmas: rounding is monotone, odd, exact on
  representable values and within half a unit in the last place.
\<close>

section \<open>Rounding\<close>

text \<open>Round a real to the nearest integer, ties to even.\<close>

definition rne :: "real \<Rightarrow> int" where
  "rne y = (let f = \<lfloor>y\<rfloor>; d = y - of_int f in
     if d < 1 / 2 then f else if 1 / 2 < d then f + 1 else if even f then f else f + 1)"

text \<open>The exponent of the last place of a non-zero real in binary64.\<close>

definition lastplace :: "real \<Rightarrow> int" where
  "lastplace x = max (\<lfloor>log 2 \<bar>x\<bar>\<rfloor> - 52) (-1074)"

definition rnd_real :: "real \<Rightarrow> real" where
  "rnd_real x = (if x = 0 then 0
     else of_int (rne (x / 2 powi lastplace x)) * 2 powi lastplace x)"

datatype dbl = Fin real | Inf bool | NaN

definition max_dbl_bound :: real where
  "max_dbl_bound = 2 ^ 1024"

definition rnd :: "real \<Rightarrow> dbl" where
  "rnd x = (let r = rnd_real x in if max_dbl_bound \<le> \<bar>r\<bar> then Inf (r < 0) else Fin r)"

section \<open>Operations\<close>

fun dneg :: "dbl \<Rightarrow> dbl" where
  "dneg (Fin x) = Fin (- x)"
| "dneg (Inf n) = Inf (\<not> n)"
| "dneg NaN = NaN"

fun dabs :: "dbl \<Rightarrow> dbl" where
  "dabs (Fin x) = Fin \<bar>x\<bar>"
| "dabs (Inf n) = Inf False"
| "dabs NaN = NaN"

fun dadd :: "dbl \<Rightarrow> dbl \<Rightarrow> dbl" where
  "dadd (Fin x) (Fin y) = rnd (x + y)"
| "dadd (Fin x) (Inf n) = Inf n"
| "dadd (Inf n) (Fin y) = Inf n"
| "dadd (Inf m) (Inf n) = (if m = n then Inf m else NaN)"
| "dadd NaN y = NaN"
| "dadd x NaN = NaN"

definition dsub :: "dbl \<Rightarrow> dbl \<Rightarrow> dbl" where
  "dsub x y = dadd x (dneg y)"

fun dmul :: "dbl \<Rightarrow> dbl \<Rightarrow> dbl" where
  "dmul (Fin x) (Fin y) = rnd (x * y)"
| "dmul (Fin x) (Inf n) = (if x = 0 then NaN else Inf ((x < 0) \<noteq> n))"
| "dmul (Inf n) (Fin y) = (if y = 0 then NaN else Inf (n \<noteq> (y < 0)))"
| "dmul (Inf m) (Inf n) = Inf (m \<noteq> n)"
| "dmul NaN y = NaN"
| "dmul x NaN = NaN"

fun ddiv :: "dbl \<Rightarrow> dbl \<Rightarrow> dbl" where
  "ddiv (Fin x) (Fin y) =
     (if y = 0 then (if x = 0 then NaN else Inf (x < 0)) else rnd (x / y))"
| "ddiv (Fin x) (Inf n) = Fin 0"
| "ddiv (Inf n) (Fin y) = Inf (n \<noteq> (y < 0))"
| "ddiv (Inf m) (Inf n) = NaN"
| "ddiv NaN y = NaN"
| "ddiv x NaN = NaN"

fun dless :: "dbl \<Rightarrow> dbl \<Rightarrow> bool" where
  "dless (Fin x) (Fin y) = (x < y)"
| "dless (Fin x) (Inf n) = (\<not> n)"
| "dless (Inf n) (Fin y) = n"
| "dless (Inf m) (Inf n) = (m \<and> \<not> n)"
| "dless NaN y = False"
| "dless x NaN = False"

fun dle :: "dbl \<Rightarrow> dbl \<Rightarrow> bool" where
  "dle (Fin x) (Fin y) = (x \<le> y)"
| "dle (Fin x) (Inf n) = (\<not> n)"
| "dle (Inf n) (Fin y) = n"
| "dle (Inf m) (Inf n) = (m \<or> \<not> n)"
| "dle NaN y = False"
| "dle x NaN = False"

text \<open>The operator \<open>==\<close>; a NaN is equal to nothing.\<close>

fun deq :: "dbl \<Rightarrow> dbl \<Rightarrow> bool" where
  "deq NaN y = False"
| "deq x NaN = False"
| "deq x y = (x = y)"

fun isfinite :: "dbl \<Rightarrow> bool" where
  "isfinite (Fin x) = True"
| "isfinite x = False"

fun isnan :: "dbl \<Rightarrow> bool" where
  "isnan NaN = True"
| "isnan x = False"

text \<open>The real value of a finite double.\<close>

fun dval :: "dbl \<Rightarrow> real" where
  "dval (Fin x) = x"
| "dval x = 0"

text \<open>\<open>std::copysign\<close>; a NaN second argument is taken to be positive.\<close>

fun dnegative :: "dbl \<Rightarrow> bool" where
  "dnegative (Fin x) = (x < 0)"
| "dnegative (Inf n) = n"
| "dnegative NaN = False"

definition dcopysign :: "dbl \<Rightarrow> dbl \<Rightarrow> dbl" where
  "dcopysign m s = (if dnegative s then dneg (dabs m) else dabs m)"

text \<open>\<open>std::clamp(v, lo, hi)\<close> as the library specifies it, by two comparisons.\<close>

definition dclamp :: "dbl \<Rightarrow> dbl \<Rightarrow> dbl \<Rightarrow> dbl" where
  "dclamp v lo hi = (if dless v lo then lo else if dless hi v then hi else v)"

section \<open>Rounding to an integer\<close>

lemma rne_of_int [simp]: "rne (of_int i) = i"
  by (simp add: rne_def)

lemma rne_error: "\<bar>of_int (rne y) - y\<bar> \<le> 1 / 2"
proof -
  have "of_int \<lfloor>y\<rfloor> \<le> y" "y < of_int \<lfloor>y\<rfloor> + 1" by linarith+
  then show ?thesis by (auto simp: rne_def Let_def)
qed

lemma rne_mono: assumes "x \<le> y" shows "rne x \<le> rne y"
proof (cases "\<lfloor>x\<rfloor> = \<lfloor>y\<rfloor>")
  case True
  then show ?thesis using assms by (auto simp: rne_def Let_def)
next
  case False
  then have "\<lfloor>x\<rfloor> + 1 \<le> \<lfloor>y\<rfloor>" using floor_mono[OF assms] by linarith
  moreover have "rne x \<le> \<lfloor>x\<rfloor> + 1" "\<lfloor>y\<rfloor> \<le> rne y" by (auto simp: rne_def Let_def)
  ultimately show ?thesis by linarith
qed

lemma rne_minus: "rne (- y) = - rne y"
proof (cases "y = of_int \<lfloor>y\<rfloor>")
  case True
  then show ?thesis by (metis of_int_minus rne_of_int)
next
  case False
  then have f: "\<lfloor>- y\<rfloor> = - \<lfloor>y\<rfloor> - 1" by linarith
  then show ?thesis by (auto simp: rne_def Let_def f)
qed

section \<open>Rounding to a double\<close>

lemma rnd_real_0 [simp]: "rnd_real 0 = 0"
  by (simp add: rnd_real_def)

lemma lastplace_minus [simp]: "lastplace (- x) = lastplace x"
  by (simp add: lastplace_def)

lemma rnd_real_minus [simp]: "rnd_real (- x) = - rnd_real x"
  by (simp add: rnd_real_def rne_minus)

text \<open>The values of the format, before the overflow bound.\<close>

definition representable :: "real \<Rightarrow> bool" where
  "representable x \<longleftrightarrow> (\<exists>m e. x = of_int m * 2 powi e \<and> \<bar>m\<bar> \<le> 2 ^ 53 \<and> -1074 \<le> e)"

lemma representable_minus: assumes "representable x" shows "representable (- x)"
proof -
  obtain m e where "x = of_int m * 2 powi e" "\<bar>m\<bar> \<le> 2 ^ 53" "-1074 \<le> e"
    using assms by (auto simp: representable_def)
  then show ?thesis unfolding representable_def by (intro exI[of _ "- m"] exI[of _ e]) simp
qed

lemma floor_log2_less:
  assumes "0 < x" "x < 2 powi k" shows "\<lfloor>log 2 x\<rfloor> < k"
proof -
  have "log 2 x < of_int k"
    using assms by (subst log_less_iff) (simp_all add: powr_real_of_int')
  then show ?thesis by (simp add: floor_less_iff)
qed

lemma floor_log2_ge:
  assumes "0 < x" "2 powi k \<le> x" shows "k \<le> \<lfloor>log 2 x\<rfloor>"
proof -
  have "of_int k \<le> log 2 x"
    using assms by (subst le_log_iff) (simp_all add: powr_real_of_int')
  then show ?thesis by (simp add: le_floor_iff)
qed

lemma floor_log2_bounds:
  assumes "0 < x" shows "2 powi \<lfloor>log 2 x\<rfloor> \<le> x \<and> x < 2 powi (\<lfloor>log 2 x\<rfloor> + 1)"
proof -
  have "2 powr of_int \<lfloor>log 2 x\<rfloor> \<le> x"
    using assms by (subst le_log_iff[symmetric]) simp_all
  moreover have "log 2 x < of_int (\<lfloor>log 2 x\<rfloor> + 1)" by linarith
  then have "x < 2 powr of_int (\<lfloor>log 2 x\<rfloor> + 1)"
    using assms by (subst (asm) log_less_iff) simp_all
  ultimately show ?thesis by (simp add: powr_real_of_int' del: of_int_add)
qed

lemma powi_2_pos [simp]: "0 < (2 :: real) powi k"
  by simp

lemma powi_2_mono: "i \<le> j \<Longrightarrow> (2 :: real) powi i \<le> 2 powi j"
  by (simp add: power_int_increasing)

lemma powi_2_int:
  assumes "k \<le> j" shows "(2 :: real) powi j / 2 powi k = of_int (2 ^ nat (j - k))"
proof -
  have "(2 :: real) powi j / 2 powi k = 2 powi (j - k)" by (simp add: power_int_diff)
  also have "\<dots> = 2 ^ nat (j - k)" using assms by (simp add: power_int_def)
  finally show ?thesis by simp
qed

text \<open>A representable value is an integer multiple of its last place.\<close>

lemma representable_multiple:
  assumes "representable x" "0 < x" shows "\<exists>n. x = of_int n * 2 powi lastplace x"
proof -
  obtain m e where m: "x = of_int m * 2 powi e" "\<bar>m\<bar> \<le> 2 ^ 53" "-1074 \<le> e"
    using assms by (auto simp: representable_def)
  have "\<not> (2 :: real) powi e < 0" by (simp add: not_less)
  then have mp: "0 < m" using assms(2) m(1) by (simp add: zero_less_mult_iff)
  show ?thesis
  proof (cases "lastplace x \<le> e")
    case True
    then have "x = of_int (m * 2 ^ nat (e - lastplace x)) * 2 powi lastplace x"
      using powi_2_int[OF True] m(1) by (simp add: field_simps)
    then show ?thesis by blast
  next
    case False
    then have lp: "e < \<lfloor>log 2 x\<rfloor> - 52" using m(3) assms(2) by (auto simp: lastplace_def max_def split: if_splits)
    then have "(2::real) powi (e + 53) \<le> 2 powi \<lfloor>log 2 x\<rfloor>" by (intro powi_2_mono) simp
    also have "\<dots> \<le> x" using floor_log2_bounds[OF assms(2)] by simp
    finally have "2 powi 53 \<le> (of_int m :: real)"
      using m(1) by (simp add: power_int_add)
    then have "2 ^ 53 \<le> (of_int m :: real)" by simp
    then have "2 ^ 53 \<le> m" by (metis of_int_le_iff of_int_numeral of_int_power)
    with mp m(2) have "m = 2 ^ 53" by simp
    then have xe: "x = 2 powi (e + 53)" using m(1) by (simp add: power_int_add)
    have "\<lfloor>log 2 x\<rfloor> \<le> e + 53"
      using floor_log2_less[of x "e + 54"] assms(2) xe by (simp add: power_int_add)
    then have le: "lastplace x \<le> e + 53" using m(3) assms(2) by (simp add: lastplace_def)
    then show ?thesis using powi_2_int[OF le] xe
      by (metis nonzero_eq_divide_eq power_int_eq_0_iff zero_neq_numeral)
  qed
qed

lemma rnd_real_exact: assumes "representable x" shows "rnd_real x = x"
proof -
  have pos: "rnd_real y = y" if y: "representable y" "0 < y" for y
  proof -
    obtain n where n: "y = of_int n * 2 powi lastplace y"
      using representable_multiple[OF y] by blast
    then have "y / 2 powi lastplace y = of_int n"
      by (metis nonzero_eq_divide_eq power_int_eq_0_iff zero_neq_numeral)
    then show ?thesis using n y(2) by (simp add: rnd_real_def)
  qed
  show ?thesis
  proof (cases x "0 :: real" rule: linorder_cases)
    case less
    have "representable (- x)" using assms by (rule representable_minus)
    then show ?thesis using pos[of "- x"] less by simp
  qed (use pos assms in auto)
qed

section \<open>Monotonicity and bounds\<close>

lemma rnd_real_nonneg: assumes "0 \<le> x" shows "0 \<le> rnd_real x"
proof -
  have "0 \<le> rne (x / 2 powi lastplace x)"
    using rne_mono[of 0 "x / 2 powi lastplace x"] rne_of_int[of 0] assms by simp
  then show ?thesis by (simp add: rnd_real_def)
qed

lemma rnd_real_mono_pos:
  assumes "0 < x" "x \<le> y" shows "rnd_real x \<le> rnd_real y"
proof -
  let ?i = "lastplace x" and ?j = "lastplace y" and ?k = "\<lfloor>log 2 y\<rfloor>"
  have y: "0 < y" using assms by simp
  have fl: "\<lfloor>log 2 x\<rfloor> \<le> ?k" using assms by (intro floor_mono) simp
  then have ij: "?i \<le> ?j" using assms y by (simp add: lastplace_def)
  show ?thesis
  proof (cases "?i = ?j")
    case True
    have "rne (x / 2 powi ?j) \<le> rne (y / 2 powi ?j)"
      using assms by (intro rne_mono divide_right_mono) simp_all
    then show ?thesis using assms y True by (simp add: rnd_real_def mult_right_mono)
  next
    case False
    have d: "?i = max (\<lfloor>log 2 x\<rfloor> - 52) (-1074)" "?j = max (?k - 52) (-1074)"
      using assms y by (simp_all add: lastplace_def)
    from False ij have j: "?j = ?k - 52" and lt: "\<lfloor>log 2 x\<rfloor> + 1 \<le> ?k" and ik: "?i \<le> ?k"
      unfolding d by (simp_all only: max_def split: if_splits) presburger+
    have xk: "x \<le> 2 powi ?k"
      using floor_log2_bounds[OF assms(1)] powi_2_mono[OF lt] by linarith
    have yk: "2 powi ?k \<le> y" using floor_log2_bounds[OF y] by simp
    have "rnd_real x \<le> 2 powi ?k"
    proof -
      have "x / 2 powi ?i \<le> of_int (2 ^ nat (?k - ?i))"
        using divide_right_mono[OF xk, of "2 powi ?i"] powi_2_int[OF ik] by simp
      then have "rne (x / 2 powi ?i) \<le> 2 ^ nat (?k - ?i)"
        using rne_mono rne_of_int by metis
      then have "of_int (rne (x / 2 powi ?i)) \<le> (of_int (2 ^ nat (?k - ?i)) :: real)"
        by (simp only: of_int_le_iff)
      then have "of_int (rne (x / 2 powi ?i)) \<le> (2 :: real) powi ?k / 2 powi ?i"
        using powi_2_int[OF ik] by simp
      then show ?thesis using assms by (simp add: rnd_real_def pos_le_divide_eq)
    qed
    also have "2 powi ?k \<le> rnd_real y"
    proof -
      have jk: "?j \<le> ?k" using j by simp
      have "of_int (2 ^ nat (?k - ?j)) \<le> y / 2 powi ?j"
        using divide_right_mono[OF yk, of "2 powi ?j"] powi_2_int[OF jk] by simp
      then have "2 ^ nat (?k - ?j) \<le> rne (y / 2 powi ?j)"
        using rne_mono rne_of_int by metis
      then have "(of_int (2 ^ nat (?k - ?j)) :: real) \<le> of_int (rne (y / 2 powi ?j))"
        by (simp only: of_int_le_iff)
      then have "(2 :: real) powi ?k / 2 powi ?j \<le> of_int (rne (y / 2 powi ?j))"
        using powi_2_int[OF jk] by simp
      then show ?thesis using y by (simp add: rnd_real_def pos_divide_le_eq)
    qed
    finally show ?thesis .
  qed
qed

lemma rnd_real_mono: assumes "x \<le> y" shows "rnd_real x \<le> rnd_real y"
proof (cases "0 < x")
  case True then show ?thesis using assms rnd_real_mono_pos by simp
next
  case nx: False
  show ?thesis
  proof (cases "y < 0")
    case True
    then have "rnd_real (- y) \<le> rnd_real (- x)" using assms by (intro rnd_real_mono_pos) auto
    then show ?thesis by simp
  next
    case False
    have "0 \<le> rnd_real (- x)" using nx by (intro rnd_real_nonneg) simp
    moreover have "0 \<le> rnd_real y" using False by (intro rnd_real_nonneg) simp
    ultimately show ?thesis by simp
  qed
qed

lemma rnd_real_abs: "\<bar>rnd_real x\<bar> = rnd_real \<bar>x\<bar>"
  using rnd_real_nonneg[of x] rnd_real_nonneg[of "- x"] by (cases "0 \<le> x") auto

lemma rnd_real_le: "x \<le> b \<Longrightarrow> representable b \<Longrightarrow> rnd_real x \<le> b"
  using rnd_real_mono[of x b] by (simp add: rnd_real_exact)

lemma rnd_real_ge: "b \<le> x \<Longrightarrow> representable b \<Longrightarrow> b \<le> rnd_real x"
  using rnd_real_mono[of b x] by (simp add: rnd_real_exact)

text \<open>The rounding error is at most half of the last place.\<close>

lemma rnd_real_error: "\<bar>rnd_real x - x\<bar> \<le> 2 powi lastplace x / 2"
proof (cases "x = 0")
  case False
  let ?u = "2 powi lastplace x :: real"
  have "rnd_real x - x = (of_int (rne (x / ?u)) - x / ?u) * ?u"
    using False by (simp add: rnd_real_def left_diff_distrib)
  then have "\<bar>rnd_real x - x\<bar> = \<bar>of_int (rne (x / ?u)) - x / ?u\<bar> * ?u"
    by (simp add: abs_mult)
  also have "\<dots> \<le> 1 / 2 * ?u" by (intro mult_right_mono rne_error) simp
  finally show ?thesis by simp
qed simp

text \<open>In the normal range the relative error is at most \<open>2 ^ -53\<close>.\<close>

lemma rnd_real_rel_error:
  assumes "2 powi (-1022) \<le> \<bar>x\<bar>" shows "\<bar>rnd_real x - x\<bar> \<le> \<bar>x\<bar> / 2 ^ 53"
proof -
  have x: "0 < \<bar>x\<bar>" using assms powi_2_pos[of "-1022"] by linarith
  have "-1022 \<le> \<lfloor>log 2 \<bar>x\<bar>\<rfloor>" using floor_log2_ge[OF x assms] .
  then have lp: "lastplace x = \<lfloor>log 2 \<bar>x\<bar>\<rfloor> - 52"
    by (simp only: lastplace_def max_def) presburger
  have "\<bar>rnd_real x - x\<bar> \<le> 2 powi \<lfloor>log 2 \<bar>x\<bar>\<rfloor> / 2 ^ 53"
    using rnd_real_error[of x] lp by (simp add: power_int_diff)
  also have "\<dots> \<le> \<bar>x\<bar> / 2 ^ 53"
    using floor_log2_bounds[OF x] by (intro divide_right_mono) simp_all
  finally show ?thesis .
qed

section \<open>Representable values\<close>

lemma representable_0 [simp]: "representable 0"
  unfolding representable_def by (rule exI[of _ 0]) auto

lemma representable_int: "\<bar>i\<bar> \<le> 2 ^ 53 \<Longrightarrow> representable (of_int i)"
  unfolding representable_def by (rule exI[of _ i], rule exI[of _ 0]) auto

lemma representable_numeral: "(numeral n :: int) \<le> 2 ^ 53 \<Longrightarrow> representable (numeral n)"
  using representable_int[of "numeral n"] by simp

lemma representable_1 [simp]: "representable 1"
  using representable_int[of 1] by simp

lemma representable_scaled:
  assumes "\<bar>i\<bar> \<le> 2 ^ 53" "k \<le> 1074" shows "representable (of_int i / 2 ^ k)"
  unfolding representable_def
  by (rule exI[of _ i], rule exI[of _ "- int k"]) (use assms in \<open>simp add: power_int_minus divide_inverse\<close>)

lemma rnd_real_representable:
  "representable (rnd_real x)"
proof (cases "x = 0")
  case False
  define e where "e = lastplace x"
  have e: "-1074 \<le> e" "\<lfloor>log 2 \<bar>x\<bar>\<rfloor> - 52 \<le> e" by (auto simp: e_def lastplace_def)
  have "\<bar>x\<bar> < 2 powi (\<lfloor>log 2 \<bar>x\<bar>\<rfloor> + 1)" using floor_log2_bounds[of "\<bar>x\<bar>"] False by simp
  also have "\<dots> \<le> 2 powi (e + 53)" using e(2) by (intro powi_2_mono) simp
  finally have "\<bar>x / 2 powi e\<bar> \<le> of_int (2 ^ 53)"
    by (simp add: power_int_add abs_divide pos_divide_le_eq mult.commute)
  then have "x / 2 powi e \<le> of_int (2 ^ 53)" "of_int (- (2 ^ 53)) \<le> x / 2 powi e"
    unfolding abs_le_iff by simp_all
  then have "rne (x / 2 powi e) \<le> 2 ^ 53" "- (2 ^ 53) \<le> rne (x / 2 powi e)"
    using rne_mono rne_of_int by metis+
  then have "\<bar>rne (x / 2 powi e)\<bar> \<le> 2 ^ 53" by linarith
  then show ?thesis unfolding representable_def rnd_real_def e_def[symmetric] using e(1) False by auto
qed simp

section \<open>Doubles\<close>

definition is_double :: "dbl \<Rightarrow> bool" where
  "is_double d = (case d of Fin x \<Rightarrow> representable x \<and> \<bar>x\<bar> < max_dbl_bound | _ \<Rightarrow> True)"

lemma rnd_is_double [simp]: "is_double (rnd x)"
  by (auto simp: rnd_def Let_def is_double_def rnd_real_representable)

lemma rnd_Fin_exact: "representable x \<Longrightarrow> \<bar>x\<bar> < max_dbl_bound \<Longrightarrow> rnd x = Fin x"
  by (simp add: rnd_def rnd_real_exact Let_def)

lemma rnd_Fin: "\<bar>x\<bar> \<le> b \<Longrightarrow> representable b \<Longrightarrow> b < max_dbl_bound \<Longrightarrow> rnd x = Fin (rnd_real x)"
  using rnd_real_le[of "\<bar>x\<bar>" b] by (simp add: rnd_def Let_def rnd_real_abs)

lemma max_dbl_bound_numeral: "(x :: real) \<le> 2 ^ 53 \<Longrightarrow> x < max_dbl_bound"
proof -
  assume "x \<le> 2 ^ 53"
  also have "(2 :: real) ^ 53 < 2 ^ 1024" by (intro power_strict_increasing) auto
  finally show ?thesis by (simp add: max_dbl_bound_def)
qed

lemma rnd_0 [simp]: "rnd 0 = Fin 0"
  by (simp add: rnd_def max_dbl_bound_def)

lemma isfinite_iff: "isfinite d \<longleftrightarrow> (\<exists>x. d = Fin x)"
  by (cases d) auto

lemma not_isnan_iff: "\<not> isnan d \<longleftrightarrow> (\<exists>x. d = Fin x) \<or> (\<exists>n. d = Inf n)"
  by (cases d) auto

section \<open>Absolute error and finite results\<close>

lemma rnd_abs_error: assumes "\<bar>x\<bar> \<le> 2 ^ n" shows "\<bar>rnd_real x - x\<bar> \<le> 2 ^ n / 2 ^ 53"
proof (cases "x = 0")
  case False
  have "\<lfloor>log 2 \<bar>x\<bar>\<rfloor> < int n + 1"
    using False assms by (intro floor_log2_less) (simp_all add: power_int_add)
  then have "lastplace x \<le> int n - 52" by (simp add: lastplace_def)
  then have "(2 :: real) powi lastplace x \<le> 2 powi (int n - 52)" by (rule powi_2_mono)
  also have "(2 :: real) powi (int n - 52) = 2 ^ n / 2 ^ 52" by (simp add: power_int_diff)
  finally show ?thesis using rnd_real_error[of x] by simp
qed simp

lemma rnd_finite: assumes "\<bar>x\<bar> \<le> 2 ^ 53" shows "rnd x = Fin (rnd_real x)"
proof (rule rnd_Fin[OF assms])
  show "representable (2 ^ 53)" using representable_int[of "2 ^ 53"] by simp
qed (rule max_dbl_bound_numeral, simp)

lemma rnd_int: "\<bar>i\<bar> \<le> 2 ^ 53 \<Longrightarrow> rnd (of_int i) = Fin (of_int i)"
proof (rule rnd_Fin_exact)
  assume a: "\<bar>i\<bar> \<le> 2 ^ 53"
  then show "representable (of_int i)" by (rule representable_int)
  have "\<bar>of_int i :: real\<bar> = of_int \<bar>i\<bar>" by simp
  also have "\<dots> \<le> of_int (2 ^ 53)" using a by (simp only: of_int_le_iff)
  finally have "\<bar>of_int i :: real\<bar> \<le> 2 ^ 53" by simp
  then show "\<bar>of_int i\<bar> < max_dbl_bound" by (rule max_dbl_bound_numeral)
qed

text \<open>A double strictly below a multiple of a grid step is a step below it, while the doubles
  of its size lie on the grid.\<close>

lemma representable_step_below:
  assumes "representable x" "x < of_int n / 2 ^ k" "2 ^ 52 / 2 ^ k \<le> (of_int n - 1) / (2 ^ k :: real)"
  shows "x \<le> (of_int n - 1) / 2 ^ k"
proof -
  obtain m e where m: "x = of_int m * 2 powi e" "\<bar>m\<bar> \<le> 2 ^ 53"
    using assms(1) by (auto simp: representable_def)
  show ?thesis
  proof (cases "- int k \<le> e")
    case True
    have "x * 2 ^ k = of_int m * (2 powi e * 2 powi int k)" by (simp add: m(1))
    also have "2 powi e * 2 powi int k = (2 :: real) powi (e + int k)" by (simp add: power_int_add)
    also have "(2 :: real) powi (e + int k) = of_int (2 ^ nat (e + int k))"
      using True by (simp add: power_int_def)
    finally have z: "x * 2 ^ k = of_int (m * 2 ^ nat (e + int k))" by simp
    have "x * 2 ^ k < of_int n" using assms(2) by (simp add: pos_less_divide_eq)
    then have "m * 2 ^ nat (e + int k) < n" unfolding z by (simp only: of_int_less_iff)
    then have "of_int (m * 2 ^ nat (e + int k)) \<le> (of_int (n - 1) :: real)" by (simp only: of_int_le_iff)
    then have "x * 2 ^ k \<le> of_int n - 1" unfolding z by simp
    then show ?thesis by (simp add: pos_le_divide_eq)
  next
    case False
    then have "(2 :: real) powi e \<le> 2 powi (- int k - 1)" by (intro powi_2_mono) simp
    also have "\<dots> = 2 powi (- int k) / 2" by (simp add: power_int_diff)
    also have "(2 :: real) powi (- int k) = 1 / 2 ^ k" by (simp only: power_int_minus power_int_of_nat inverse_eq_divide)
    also have "1 / (2 :: real) ^ k / 2 = 1 / (2 * 2 ^ k)" by simp
    finally have e: "(2 :: real) powi e \<le> 1 / (2 * 2 ^ k)" .
    have "m \<le> 2 ^ 53" using m(2) by simp
    then have "(of_int m :: real) \<le> of_int (2 ^ 53)" by (simp only: of_int_le_iff)
    then have "(of_int m :: real) \<le> 2 ^ 53" by simp
    then have "x \<le> 2 ^ 53 * (1 / (2 * 2 ^ k))"
      unfolding m(1) using e by (intro mult_mono) simp_all
    then show ?thesis using assms(3) by simp
  qed
qed

end
