(* ===== verification/Fin_Overtravel.thy ===== *)
theory Fin_Overtravel
  imports Double
begin

text \<open>
  \<open>src/control/fin_overtravel_guard.{hpp,cpp}\<close>: the overtravel fault of the fin, three atomic
  flags observed at 1 kHz. The functions run on the control task, so each is one step on the
  record; the fault limit is the constant of \<open>src/config/control_config.hpp\<close>.
\<close>

definition kFinOvertravelFaultLimitRad :: dbl where
  "kFinOvertravelFaultLimitRad = rnd 0.34906585039886590"

record fin_guard =
  fg_fault_latched :: bool
  fg_sample_valid :: bool
  fg_inside_fault_limit :: bool

definition fin_guard_init :: fin_guard where
  "fin_guard_init = \<lparr>fg_fault_latched = False, fg_sample_valid = False,
     fg_inside_fault_limit = False\<rparr>"

definition observeFinOvertravel :: "dbl \<Rightarrow> bool \<Rightarrow> fin_guard \<Rightarrow> fin_guard" where
  "observeFinOvertravel angle_rad valid_sample g =
     (let finite_angle = isfinite angle_rad;
          usable_sample = (valid_sample \<and> finite_angle);
          inside = (usable_sample \<and> dle (dabs angle_rad) kFinOvertravelFaultLimitRad);
          g1 = g\<lparr>fg_sample_valid := usable_sample, fg_inside_fault_limit := inside\<rparr>
      in if usable_sample \<and> \<not> inside then g1\<lparr>fg_fault_latched := True\<rparr> else g1)"

definition finOvertravelFaultLatched :: "fin_guard \<Rightarrow> bool" where
  "finOvertravelFaultLatched g = fg_fault_latched g"

text \<open>The result is the function's return value and the guard after the call.\<close>

definition clearFinOvertravelIfRecoverable :: "fin_guard \<Rightarrow> bool \<times> fin_guard" where
  "clearFinOvertravelIfRecoverable g =
     (if \<not> fg_fault_latched g then (True, g)
      else if \<not> fg_sample_valid g \<or> \<not> fg_inside_fault_limit g then (False, g)
      else (True, g\<lparr>fg_fault_latched := False\<rparr>))"

definition clearFinOvertravelFault :: "fin_guard \<Rightarrow> fin_guard" where
  "clearFinOvertravelFault g = g\<lparr>fg_fault_latched := False\<rparr>"

section \<open>Facts\<close>

text \<open>A sample that the guard may act on.\<close>

definition usable :: "dbl \<times> bool \<Rightarrow> bool" where
  "usable s = (snd s \<and> isfinite (fst s))"

definition outside :: "dbl \<times> bool \<Rightarrow> bool" where
  "outside s = (usable s \<and> \<not> dle (dabs (fst s)) kFinOvertravelFaultLimitRad)"

lemma observe_fields [guard_simps]:
  "fg_sample_valid (observeFinOvertravel a v g) = usable (a, v)"
  "fg_inside_fault_limit (observeFinOvertravel a v g) = (usable (a, v) \<and> \<not> outside (a, v))"
  "fg_fault_latched (observeFinOvertravel a v g) = (fg_fault_latched g \<or> outside (a, v))"
  by (auto simp: observeFinOvertravel_def Let_def usable_def outside_def)

lemma clear_if_recoverable_fields [guard_simps]:
  "fst (clearFinOvertravelIfRecoverable g) = (\<not> fg_fault_latched (snd (clearFinOvertravelIfRecoverable g)))"
  "fg_fault_latched (snd (clearFinOvertravelIfRecoverable g)) =
     (fg_fault_latched g \<and> \<not> (fg_sample_valid g \<and> fg_inside_fault_limit g))"
  "fg_sample_valid (snd (clearFinOvertravelIfRecoverable g)) = fg_sample_valid g"
  "fg_inside_fault_limit (snd (clearFinOvertravelIfRecoverable g)) = fg_inside_fault_limit g"
  by (auto simp: clearFinOvertravelIfRecoverable_def)

text \<open>The guard after a sequence of samples.\<close>

definition observe_all :: "(dbl \<times> bool) list \<Rightarrow> fin_guard \<Rightarrow> fin_guard" where
  "observe_all ss g = fold (\<lambda>s. observeFinOvertravel (fst s) (snd s)) ss g"

lemma observe_all_latched:
  "fg_fault_latched (observe_all ss g) = (fg_fault_latched g \<or> (\<exists>s\<in>set ss. outside s))"
  unfolding observe_all_def by (induction ss arbitrary: g) (auto simp: guard_simps)

lemma observe_all_last:
  "ss \<noteq> [] \<Longrightarrow> fg_sample_valid (observe_all ss g) = usable (last ss) \<and>
     fg_inside_fault_limit (observe_all ss g) = (usable (last ss) \<and> \<not> outside (last ss))"
  unfolding observe_all_def by (induction ss arbitrary: g) (auto simp: guard_simps)

text \<open>Recovery rule of the overtravel guard. After any non-empty sequence of samples the
  conditional clear reports success exactly when no usable sample lay outside the limit (and
  no fault was latched before) or the LAST sample was usable and inside it; invalid and
  non-finite samples never latch a fault and never clear one, and after a successful clear
  the fault is gone while after a refused one it is still latched.\<close>

theorem overtravel_recovery_rule:
  assumes "ss \<noteq> []"
  shows "fst (clearFinOvertravelIfRecoverable (observe_all ss g)) =
           ((\<not> fg_fault_latched g \<and> (\<forall>s\<in>set ss. \<not> outside s)) \<or>
            (usable (last ss) \<and> \<not> outside (last ss))) \<and>
         finOvertravelFaultLatched (snd (clearFinOvertravelIfRecoverable (observe_all ss g))) =
           (\<not> fst (clearFinOvertravelIfRecoverable (observe_all ss g)))"
  using observe_all_last[OF assms, of g] observe_all_latched[of ss g]
  by (auto simp: guard_simps finOvertravelFaultLatched_def)

lemma limit_value: "\<exists>r. kFinOvertravelFaultLimitRad = Fin r \<and> 0 < r \<and> r < 1"
proof -
  have r: "representable (1 / 4)" "representable (1 / 2)"
    using representable_scaled[of 1 2] representable_scaled[of 1 1] by simp_all
  have "kFinOvertravelFaultLimitRad = Fin (rnd_real 0.34906585039886590)"
    unfolding kFinOvertravelFaultLimitRad_def
    by (rule rnd_Fin[OF _ r(2)]) (simp, rule max_dbl_bound_numeral, simp)
  moreover have "1 / 4 \<le> rnd_real 0.34906585039886590" by (rule rnd_real_ge[OF _ r(1)]) simp
  moreover have "rnd_real 0.34906585039886590 \<le> 1 / 2" by (rule rnd_real_le[OF _ r(2)]) simp
  ultimately show ?thesis by auto
qed

theorem overtravel_recovery_rule_witness:
  "fst (clearFinOvertravelIfRecoverable
     (observe_all [(Fin 1, True), (NaN, True), (Fin 0, False)] fin_guard_init)) = False \<and>
   fst (clearFinOvertravelIfRecoverable
     (observe_all [(Fin 1, True), (NaN, True), (Fin 0, True)] fin_guard_init)) = True"
proof -
  obtain r where k: "kFinOvertravelFaultLimitRad = Fin r" and r: "0 < r" "r < 1"
    using limit_value by blast
  show ?thesis
    using overtravel_recovery_rule[of "[(Fin 1, True), (NaN, True), (Fin 0, False)]" fin_guard_init]
      overtravel_recovery_rule[of "[(Fin 1, True), (NaN, True), (Fin 0, True)]" fin_guard_init]
    r by (simp add: usable_def outside_def fin_guard_init_def k)
qed

end
