(* ===== verification/Mission_State.thy ===== *)
theory Mission_State
  imports Can_Protocol Fin_Overtravel
begin

text \<open>
  \<open>src/mission/mission_state.{hpp,cpp}\<close>: the mission state machine. The record
  \<open>mission_machine\<close> is the class, \<open>mission_snapshot\<close> extended by its four private members; the
  global overtravel guard is threaded through the operations that read or clear it. Times are
  \<open>uint64_t\<close> microseconds, so their sums and differences wrap as in the code. \<open>mission_step\<close>
  is the whole alphabet of calls, \<open>mission_reachable\<close> the states it reaches from power-up, and
  \<open>mission_inv\<close> the invariant every call preserves.
\<close>

unbundle bit_operations_syntax

section \<open>Types\<close>

datatype fin_directive = FD_free | FD_brake | FD_zero_hold | FD_roll_control
datatype para_directive = PD_hold | PD_open | PD_powered_off
datatype start_mode = SM_normal | SM_forced

datatype preflight_readiness_bit =
    PRB_fin_zero_configured | PRB_motor_profile_valid | PRB_gyro_bias_valid
  | PRB_gravity_reference_valid | PRB_ssc_zero_valid

fun preflight_readiness_bit_code :: "preflight_readiness_bit \<Rightarrow> nat" where
  "preflight_readiness_bit_code PRB_fin_zero_configured = 0"
| "preflight_readiness_bit_code PRB_motor_profile_valid = 1"
| "preflight_readiness_bit_code PRB_gyro_bias_valid = 2"
| "preflight_readiness_bit_code PRB_gravity_reference_valid = 3"
| "preflight_readiness_bit_code PRB_ssc_zero_valid = 4"

definition kPreflightReadinessMask :: u8 where
  "kPreflightReadinessMask = 0x1F"

record preflight_readiness =
  pr_generation :: u32
  pr_captured_at_us :: u64
  pr_fin_zero_configured :: bool
  pr_motor_profile_valid :: bool
  pr_gyro_bias_valid :: bool
  pr_gravity_reference_valid :: bool
  pr_ssc_zero_valid :: bool
  pr_resources_preallocated :: bool

record control_availability =
  ca_fin_control_available :: bool
  ca_fin_zero_hold_valid :: bool
  ca_attitude_valid :: bool
  ca_airspeed_above_60 :: bool
  ca_lps_available :: bool
  ca_ssc_available :: bool
  ca_gyro_bias_valid :: bool
  ca_ssc_zero_valid :: bool
  ca_roll_estimate :: dbl
  ca_roll_estimator_timestamp_us :: u64
  ca_attitude_fresh :: bool

record mission_tick_input =
  ti_monotonic_us :: u64
  ti_liftoff_detected :: bool
  ti_deployment_pressure_condition :: bool
  ti_control :: control_availability
  ti_control_tick :: u64

record safety_request =
  sr_flight_epoch :: u32
  sr_deploy :: bool
  sr_absolute_power_cutoff :: bool

record mission_snapshot =
  sn_state :: mission_state
  sn_flight_epoch :: u32
  sn_liftoff_time_valid :: bool
  sn_liftoff_time_us :: u64
  sn_elapsed_us :: u64
  sn_fin_control_disabled :: bool
  sn_control_reentry_inhibited :: bool
  sn_reset_invalidated :: bool
  sn_deployment_started :: bool
  sn_power_cutoff_latched :: bool
  sn_forced_start :: bool
  sn_preflight_generation :: u32
  sn_preflight_captured_at_us :: u64
  sn_ready_mask :: u8
  sn_missing_mask :: u8
  sn_roll_reference_rad :: dbl
  sn_roll_reference_capture_tick :: u64
  sn_roll_reference_estimator_timestamp_us :: u64
  sn_roll_reference_capture_event_sequence :: u8
  sn_roll_reference_valid :: bool
  sn_fin :: fin_directive
  sn_parachute :: para_directive

record mission_machine = mission_snapshot +
  mm_control_gate_evaluated :: bool
  mm_fin_control_available :: bool
  mm_elapsed_offset_us :: u64
  mm_capture_event_sequence :: u8

datatype transition_result =
    TR_completed | TR_invalid_state | TR_not_configured | TR_runtime_unavailable

record reset_checkpoint =
  ck_valid :: bool
  ck_state :: mission_state
  ck_flight_epoch :: u32
  ck_elapsed_valid :: bool
  ck_elapsed_us :: u64
  ck_deployment_started :: bool
  ck_power_cutoff_latched :: bool
  ck_forced_start :: bool
  ck_preflight_generation :: u32
  ck_preflight_captured_at_us :: u64
  ck_ready_mask :: u8
  ck_missing_mask :: u8

text \<open>A default-constructed \<open>MissionSnapshot\<close> and a default-constructed machine.\<close>

definition snapshot_init :: mission_snapshot where
  "snapshot_init = \<lparr>sn_state = MS_command_receive, sn_flight_epoch = 0,
     sn_liftoff_time_valid = False, sn_liftoff_time_us = 0, sn_elapsed_us = 0,
     sn_fin_control_disabled = False, sn_control_reentry_inhibited = False,
     sn_reset_invalidated = False, sn_deployment_started = False,
     sn_power_cutoff_latched = False, sn_forced_start = False, sn_preflight_generation = 0,
     sn_preflight_captured_at_us = 0, sn_ready_mask = 0, sn_missing_mask = 0,
     sn_roll_reference_rad = Fin 0, sn_roll_reference_capture_tick = 0,
     sn_roll_reference_estimator_timestamp_us = 0,
     sn_roll_reference_capture_event_sequence = 0, sn_roll_reference_valid = False,
     sn_fin = FD_brake, sn_parachute = PD_hold\<rparr>"

definition machine_init :: mission_machine where
  "machine_init = mission_snapshot.extend snapshot_init
     (mission_machine.fields False False 0 0)"

definition safety_request_default :: safety_request where
  "safety_request_default =
     \<lparr>sr_flight_epoch = 0, sr_deploy = False, sr_absolute_power_cutoff = False\<rparr>"

section \<open>Constants and helpers\<close>

definition kOneSecondUs :: u64 where "kOneSecondUs = 1000000"
definition kControlGateUs :: u64 where "kControlGateUs = 8 * kOneSecondUs"
definition kPressureDeploymentGateUs :: u64 where "kPressureDeploymentGateUs = 10 * kOneSecondUs"
definition kDeploymentDeadlineUs :: u64 where "kDeploymentDeadlineUs = 17 * kOneSecondUs"
definition kPowerCutoffUs :: u64 where "kPowerCutoffUs = 25 * kOneSecondUs"

definition nextEpoch :: "u32 \<Rightarrow> u32" where
  "nextEpoch current = (let c = current + 1 in if c = 0 then 1 else c)"

definition readiness_bit :: "preflight_readiness_bit \<Rightarrow> u8" where
  "readiness_bit b = push_bit (preflight_readiness_bit_code b) 1"

definition finFlightReadinessValid :: "u8 \<Rightarrow> bool" where
  "finFlightReadinessValid ready_mask =
     (let required = readiness_bit PRB_fin_zero_configured OR readiness_bit PRB_motor_profile_valid
      in ready_mask AND required = required)"

definition readyMask :: "preflight_readiness \<Rightarrow> u8" where
  "readyMask p =
     (let r0 = 0;
          r1 = (if pr_fin_zero_configured p then r0 OR readiness_bit PRB_fin_zero_configured else r0);
          r2 = (if pr_motor_profile_valid p then r1 OR readiness_bit PRB_motor_profile_valid else r1);
          r3 = (if pr_gyro_bias_valid p then r2 OR readiness_bit PRB_gyro_bias_valid else r2);
          r4 = (if pr_gravity_reference_valid p then r3 OR readiness_bit PRB_gravity_reference_valid else r3);
          r5 = (if pr_ssc_zero_valid p then r4 OR readiness_bit PRB_ssc_zero_valid else r4)
      in r5)"

definition missingMask :: "preflight_readiness \<Rightarrow> u8" where
  "missingMask p = (NOT (readyMask p)) AND kPreflightReadinessMask"

definition normalReady :: "preflight_readiness \<Rightarrow> bool" where
  "normalReady p = (pr_resources_preallocated p \<and> missingMask p = 0)"

definition control_ready :: "control_availability \<Rightarrow> bool" where
  "control_ready c =
     (ca_fin_control_available c \<and> ca_fin_zero_hold_valid c \<and> ca_attitude_valid c \<and>
      ca_airspeed_above_60 c \<and> ca_lps_available c \<and> ca_ssc_available c \<and>
      ca_gyro_bias_valid c \<and> ca_ssc_zero_valid c \<and> ca_attitude_fresh c \<and>
      isfinite (ca_roll_estimate c) \<and> ca_roll_estimator_timestamp_us c \<noteq> 0)"

section \<open>Private operations\<close>

definition invalidateLiftoff :: "mission_machine \<Rightarrow> mission_machine" where
  "invalidateLiftoff m = m\<lparr>sn_liftoff_time_valid := False, sn_liftoff_time_us := 0,
     sn_elapsed_us := 0, mm_elapsed_offset_us := 0\<rparr>"

definition invalidateControlRollReference :: "mission_machine \<Rightarrow> mission_machine" where
  "invalidateControlRollReference m = m\<lparr>sn_roll_reference_rad := Fin 0,
     sn_roll_reference_capture_tick := 0, sn_roll_reference_estimator_timestamp_us := 0,
     sn_roll_reference_capture_event_sequence := mm_capture_event_sequence m,
     sn_roll_reference_valid := False\<rparr>"

definition clearFlightAttemptMetadata :: "mission_machine \<Rightarrow> mission_machine" where
  "clearFlightAttemptMetadata m = m\<lparr>sn_forced_start := False, sn_preflight_generation := 0,
     sn_preflight_captured_at_us := 0, sn_ready_mask := 0, sn_missing_mask := 0\<rparr>"

definition enterDescent :: "mission_machine \<Rightarrow> mission_machine" where
  "enterDescent m = m\<lparr>sn_state := MS_descent, sn_deployment_started := True,
     sn_parachute := PD_open\<rparr>"

definition updateDirectives :: "u64 \<Rightarrow> mission_machine \<Rightarrow> mission_machine" where
  "updateDirectives now_us m =
     (let m = m\<lparr>sn_parachute :=
            (if sn_power_cutoff_latched m then PD_powered_off
             else if sn_deployment_started m then PD_open else PD_hold)\<rparr>
      in if sn_reset_invalidated m \<or> sn_fin_control_disabled m then m\<lparr>sn_fin := FD_brake\<rparr>
      else if sn_state m = MS_control then
        m\<lparr>sn_fin := (if finFlightReadinessValid (sn_ready_mask m) then FD_roll_control
                      else FD_brake)\<rparr>
      else if sn_state m = MS_liftoff_detection \<or> sn_state m = MS_engine_burn \<or>
              sn_state m = MS_descent then
        (if sn_liftoff_time_valid m \<and> sn_liftoff_time_us m + kPowerCutoffUs \<le> now_us
         then m\<lparr>sn_fin := FD_brake\<rparr>
         else if mm_fin_control_available m \<and> finFlightReadinessValid (sn_ready_mask m)
         then m\<lparr>sn_fin := FD_zero_hold\<rparr>
         else m\<lparr>sn_fin := FD_brake\<rparr>)
      else m\<lparr>sn_fin := FD_brake\<rparr>)"

text \<open>The result is the value returned and the machine after the call.\<close>

definition captureControlRollReference ::
    "mission_tick_input \<Rightarrow> mission_machine \<Rightarrow> bool \<times> mission_machine" where
  "captureControlRollReference input m =
     (let ts = ca_roll_estimator_timestamp_us (ti_control input) in
      if sn_roll_reference_valid m then (True, m)
      else if ti_monotonic_us input < ts \<or> 3000 < ti_monotonic_us input - ts then (False, m)
      else let s = mm_capture_event_sequence m + 1 in
        (True, m\<lparr>mm_capture_event_sequence := s,
           sn_roll_reference_rad := ca_roll_estimate (ti_control input),
           sn_roll_reference_capture_tick := ti_control_tick input,
           sn_roll_reference_estimator_timestamp_us := ts,
           sn_roll_reference_capture_event_sequence := s,
           sn_roll_reference_valid := True\<rparr>))"

section \<open>Public operations\<close>

definition startSequence ::
    "u64 \<Rightarrow> preflight_readiness \<Rightarrow> start_mode \<Rightarrow> mission_machine \<Rightarrow> fin_guard \<Rightarrow>
     transition_result \<times> mission_machine \<times> fin_guard" where
  "startSequence now_us readiness mode m g =
     (if sn_state m \<noteq> MS_command_receive then (TR_invalid_state, m, g)
      else let g = snd (clearFinOvertravelIfRecoverable g) in
      if finOvertravelFaultLatched g then (TR_runtime_unavailable, m, g)
      else if \<not> pr_resources_preallocated readiness then (TR_runtime_unavailable, m, g)
      else if mode = SM_normal \<and> missingMask readiness \<noteq> 0 then (TR_not_configured, m, g)
      else let
        m = m\<lparr>sn_flight_epoch := nextEpoch (sn_flight_epoch m),
          sn_state := MS_liftoff_detection,
          sn_fin_control_disabled := False,
          sn_control_reentry_inhibited := False,
          sn_reset_invalidated := False,
          sn_deployment_started := False,
          sn_power_cutoff_latched := False,
          sn_forced_start := (mode = SM_forced),
          sn_preflight_generation := pr_generation readiness,
          sn_preflight_captured_at_us := pr_captured_at_us readiness,
          sn_ready_mask := readyMask readiness,
          sn_missing_mask := missingMask readiness,
          sn_parachute := PD_hold,
          mm_control_gate_evaluated := False,
          mm_fin_control_available :=
            (pr_fin_zero_configured readiness \<and> pr_motor_profile_valid readiness),
          mm_elapsed_offset_us := 0\<rparr>;
        m = invalidateControlRollReference m;
        m = invalidateLiftoff m;
        m = updateDirectives 0 m
      in (TR_completed, m, g))"

definition cancelSequence :: "mission_machine \<Rightarrow> transition_result \<times> mission_machine" where
  "cancelSequence m =
     (if sn_state m \<noteq> MS_liftoff_detection then (TR_invalid_state, m)
      else let
        m = m\<lparr>sn_state := MS_command_receive, sn_fin_control_disabled := False,
          sn_control_reentry_inhibited := False, sn_deployment_started := False,
          mm_control_gate_evaluated := False, mm_fin_control_available := False,
          mm_elapsed_offset_us := 0\<rparr>;
        m = invalidateControlRollReference m;
        m = invalidateLiftoff m;
        m = clearFlightAttemptMetadata m;
        m = updateDirectives 0 m
      in (TR_completed, m))"

definition disableFinControl :: "mission_machine \<Rightarrow> transition_result \<times> mission_machine" where
  "disableFinControl m =
     (if sn_state m \<noteq> MS_liftoff_detection \<and> sn_state m \<noteq> MS_engine_burn \<and>
         sn_state m \<noteq> MS_control then (TR_invalid_state, m)
      else let
        m = m\<lparr>sn_fin_control_disabled := True, sn_control_reentry_inhibited := True\<rparr>;
        m = invalidateControlRollReference m;
        m = (if sn_state m = MS_control then m\<lparr>sn_state := MS_engine_burn\<rparr> else m);
        m = updateDirectives 0 m
      in (TR_completed, m))"

definition liftoffDetectionEmergencyStop ::
    "mission_machine \<Rightarrow> transition_result \<times> mission_machine" where
  "liftoffDetectionEmergencyStop m =
     (if sn_state m \<noteq> MS_engine_burn then (TR_invalid_state, m)
      else let
        m = m\<lparr>sn_flight_epoch := nextEpoch (sn_flight_epoch m),
          sn_state := MS_liftoff_detection,
          sn_control_reentry_inhibited := sn_fin_control_disabled m,
          sn_deployment_started := False, mm_control_gate_evaluated := False,
          mm_elapsed_offset_us := 0\<rparr>;
        m = invalidateControlRollReference m;
        m = invalidateLiftoff m;
        m = updateDirectives 0 m
      in (TR_completed, m))"

definition restoreAfterReset ::
    "u64 \<Rightarrow> reset_checkpoint \<Rightarrow> mission_machine \<Rightarrow> transition_result \<times> mission_machine" where
  "restoreAfterReset now_us c m =
     (if \<not> ck_valid c \<or> ck_flight_epoch c = 0 then (TR_not_configured, m)
      else if ck_state c = MS_liftoff_detection \<and> ck_elapsed_valid c
      then (TR_not_configured, m)
      else if ck_state c \<noteq> MS_liftoff_detection \<and>
              (\<not> ck_elapsed_valid c \<or>
               (ck_state c \<noteq> MS_engine_burn \<and> ck_state c \<noteq> MS_control \<and>
                ck_state c \<noteq> MS_descent))
      then (TR_not_configured, m)
      else let
        m = mission_snapshot.extend
          (snapshot_init\<lparr>sn_flight_epoch := ck_flight_epoch c,
             sn_forced_start := ck_forced_start c,
             sn_preflight_generation := ck_preflight_generation c,
             sn_preflight_captured_at_us := ck_preflight_captured_at_us c,
             sn_ready_mask := ck_ready_mask c,
             sn_missing_mask := ck_missing_mask c,
             sn_control_reentry_inhibited := True,
             sn_reset_invalidated := True\<rparr>)
          (mission_machine.fields (mm_control_gate_evaluated m) (mm_fin_control_available m)
             (mm_elapsed_offset_us m) (mm_capture_event_sequence m));
        m = invalidateControlRollReference m
      in if ck_state c = MS_liftoff_detection then let
          m = m\<lparr>sn_state := MS_liftoff_detection, sn_parachute := PD_hold,
            mm_control_gate_evaluated := False, mm_fin_control_available := False,
            mm_elapsed_offset_us := 0\<rparr>;
          m = invalidateLiftoff m;
          m = updateDirectives now_us m
        in (TR_completed, m)
      else let
          m = m\<lparr>sn_state := (if ck_deployment_started c \<or> ck_state c = MS_descent
                             then MS_descent else MS_engine_burn),
            sn_liftoff_time_valid := True,
            sn_liftoff_time_us := now_us,
            sn_elapsed_us := ck_elapsed_us c,
            sn_deployment_started := ck_deployment_started c,
            sn_power_cutoff_latched := ck_power_cutoff_latched c,
            sn_fin := FD_brake,
            sn_parachute := (if ck_power_cutoff_latched c then PD_powered_off
              else if ck_deployment_started c then PD_open else PD_hold),
            mm_control_gate_evaluated := True, mm_fin_control_available := False,
            mm_elapsed_offset_us := ck_elapsed_us c\<rparr>;
          m = updateDirectives now_us m
        in (TR_completed, m))"

subsection \<open>The tick\<close>

text \<open>The tick is the sequence of its blocks, in the order of the code.\<close>

definition current_safety :: "safety_request \<Rightarrow> mission_machine \<Rightarrow> bool" where
  "current_safety safety m =
     (sr_flight_epoch safety \<noteq> 0 \<and> sr_flight_epoch safety = sn_flight_epoch m)"

definition tick_safety_cutoff :: "safety_request \<Rightarrow> mission_machine \<Rightarrow> mission_machine" where
  "tick_safety_cutoff safety m =
     (if current_safety safety m \<and> sn_liftoff_time_valid m \<and> sr_absolute_power_cutoff safety
      then m\<lparr>sn_power_cutoff_latched := True\<rparr> else m)"

definition tick_liftoff :: "mission_tick_input \<Rightarrow> mission_machine \<Rightarrow> mission_machine" where
  "tick_liftoff input m =
     (if sn_state m = MS_liftoff_detection \<and> ti_liftoff_detected input
      then m\<lparr>sn_liftoff_time_valid := True,
        sn_liftoff_time_us := (if kOneSecondUs \<le> ti_monotonic_us input
                               then ti_monotonic_us input - kOneSecondUs else 0),
        sn_state := MS_engine_burn, mm_control_gate_evaluated := False,
        mm_elapsed_offset_us := 0\<rparr>
      else m)"

definition tick_elapsed :: "mission_tick_input \<Rightarrow> mission_machine \<Rightarrow> mission_machine" where
  "tick_elapsed input m =
     m\<lparr>sn_elapsed_us :=
         (if sn_liftoff_time_valid m \<and> sn_liftoff_time_us m \<le> ti_monotonic_us input
          then mm_elapsed_offset_us m + ti_monotonic_us input - sn_liftoff_time_us m else 0),
       mm_fin_control_available := ca_fin_control_available (ti_control input)\<rparr>"

definition tick_overtravel :: "mission_machine \<times> fin_guard \<Rightarrow> mission_machine \<times> fin_guard" where
  "tick_overtravel mg =
     (let (m, g) = mg in
      if sn_state m = MS_command_receive then (m, snd (clearFinOvertravelIfRecoverable g))
      else if finOvertravelFaultLatched g then
        (let m = m\<lparr>sn_control_reentry_inhibited := True, mm_fin_control_available := False\<rparr>;
             m = invalidateControlRollReference m
         in (if sn_state m = MS_control then m\<lparr>sn_state := MS_engine_burn\<rparr> else m, g))
      else (m, g))"

definition tick_deployment ::
    "mission_tick_input \<Rightarrow> safety_request \<Rightarrow> mission_machine \<Rightarrow> mission_machine" where
  "tick_deployment input safety m =
     (let elapsed_us = sn_elapsed_us m;
          flight_state = (sn_state m = MS_engine_burn \<or> sn_state m = MS_control)
      in if flight_state \<and>
           ((current_safety safety m \<and> sr_deploy safety) \<or>
            (ti_deployment_pressure_condition input \<and> sn_liftoff_time_valid m \<and>
             kPressureDeploymentGateUs \<le> elapsed_us) \<or>
            (sn_liftoff_time_valid m \<and> kDeploymentDeadlineUs \<le> elapsed_us))
      then enterDescent m else m)"

definition tick_control_gate :: "mission_tick_input \<Rightarrow> mission_machine \<Rightarrow> mission_machine" where
  "tick_control_gate input m =
     (if sn_state m = MS_engine_burn \<and> sn_liftoff_time_valid m \<and>
         kControlGateUs \<le> sn_elapsed_us m \<and> \<not> mm_control_gate_evaluated m
      then let m = m\<lparr>mm_control_gate_evaluated := True\<rparr> in
        if \<not> sn_fin_control_disabled m \<and> \<not> sn_control_reentry_inhibited m \<and>
           finFlightReadinessValid (sn_ready_mask m) \<and> control_ready (ti_control input)
        then (case captureControlRollReference input m of (captured, m) \<Rightarrow>
          if captured then m\<lparr>sn_state := MS_control\<rparr>
          else m\<lparr>sn_control_reentry_inhibited := True\<rparr>)
        else m\<lparr>sn_control_reentry_inhibited := True\<rparr>
      else m)"

definition tick_control_loss :: "mission_tick_input \<Rightarrow> mission_machine \<Rightarrow> mission_machine" where
  "tick_control_loss input m =
     (if sn_state m = MS_control \<and> \<not> control_ready (ti_control input)
      then m\<lparr>sn_state := MS_engine_burn, sn_control_reentry_inhibited := True\<rparr> else m)"

definition tick_power_cutoff :: "mission_machine \<Rightarrow> mission_machine" where
  "tick_power_cutoff m =
     (if sn_liftoff_time_valid m \<and> kPowerCutoffUs \<le> sn_elapsed_us m
      then m\<lparr>sn_power_cutoff_latched := True\<rparr> else m)"

definition mission_tick ::
    "mission_tick_input \<Rightarrow> safety_request \<Rightarrow> mission_machine \<Rightarrow> fin_guard \<Rightarrow>
     mission_machine \<times> fin_guard" where
  "mission_tick input safety m g =
     (let m = tick_safety_cutoff safety m;
          m = tick_liftoff input m;
          m = tick_elapsed input m;
          (m, g) = tick_overtravel (m, g);
          m = tick_deployment input safety m;
          m = tick_control_gate input m;
          m = tick_control_loss input m;
          m = tick_power_cutoff m;
          m = updateDirectives (ti_monotonic_us input) m
      in (m, g))"

section \<open>Calls and reachable states\<close>

text \<open>Everything that other tasks do to the machine and to the overtravel guard. \<open>Call_observe\<close>
  is the 1 kHz fin sample, \<open>Call_zero_set\<close> the clear after a completed \<open>SetFinZero\<close>.\<close>

datatype mission_call =
    Call_start u64 preflight_readiness start_mode
  | Call_cancel
  | Call_disable
  | Call_emergency
  | Call_restore u64 reset_checkpoint
  | Call_tick mission_tick_input safety_request
  | Call_observe dbl bool
  | Call_zero_set

fun mission_step :: "mission_call \<Rightarrow> mission_machine \<times> fin_guard \<Rightarrow> mission_machine \<times> fin_guard" where
  "mission_step (Call_start now p md) (m, g) = snd (startSequence now p md m g)"
| "mission_step Call_cancel (m, g) = (snd (cancelSequence m), g)"
| "mission_step Call_disable (m, g) = (snd (disableFinControl m), g)"
| "mission_step Call_emergency (m, g) = (snd (liftoffDetectionEmergencyStop m), g)"
| "mission_step (Call_restore now c) (m, g) = (snd (restoreAfterReset now c m), g)"
| "mission_step (Call_tick i s) (m, g) = mission_tick i s m g"
| "mission_step (Call_observe a v) (m, g) = (m, observeFinOvertravel a v g)"
| "mission_step Call_zero_set (m, g) = (m, clearFinOvertravelFault g)"

definition mission_run :: "mission_call list \<Rightarrow> mission_machine \<times> fin_guard \<Rightarrow> mission_machine \<times> fin_guard" where
  "mission_run cs s = fold mission_step cs s"

text \<open>The checkpoints the boot path may hand to \<open>restoreAfterReset\<close>: those whose deployment flag
  and readiness masks are the ones of a machine state. \<open>Recovery_Boot\<close> shows that every
  checkpoint it stores and loads is one.\<close>

definition checkpoint_consistent :: "reset_checkpoint \<Rightarrow> bool" where
  "checkpoint_consistent c =
     ((ck_deployment_started c = (ck_state c = MS_descent)) \<and>
      ck_ready_mask c AND ck_missing_mask c = 0 \<and>
      ck_ready_mask c OR ck_missing_mask c = kPreflightReadinessMask \<and>
      (ck_forced_start c \<or> ck_missing_mask c = 0))"

fun call_consistent :: "mission_call \<Rightarrow> bool" where
  "call_consistent (Call_restore now c) = checkpoint_consistent c"
| "call_consistent _ = True"

inductive mission_reachable :: "mission_machine \<times> fin_guard \<Rightarrow> bool" where
  init: "mission_reachable (machine_init, fin_guard_init)"
| step: "mission_reachable s \<Longrightarrow> call_consistent c \<Longrightarrow> mission_reachable (mission_step c s)"

section \<open>The invariant\<close>

definition in_flight :: "mission_state \<Rightarrow> bool" where
  "in_flight s = (s = MS_engine_burn \<or> s = MS_control \<or> s = MS_descent)"

text \<open>The part that does not mention the two directives.\<close>

definition core_inv :: "mission_machine \<Rightarrow> bool" where
  "core_inv m =
     (sn_state m \<noteq> MS_unknown \<and>
      (sn_state m \<noteq> MS_command_receive \<longrightarrow> sn_flight_epoch m \<noteq> 0) \<and>
      (sn_liftoff_time_valid m = in_flight (sn_state m)) \<and>
      (sn_deployment_started m = (sn_state m = MS_descent)) \<and>
      (sn_state m = MS_command_receive \<longrightarrow> sn_ready_mask m = 0 \<and> sn_missing_mask m = 0) \<and>
      (sn_state m \<noteq> MS_command_receive \<longrightarrow>
         sn_ready_mask m AND sn_missing_mask m = 0 \<and>
         sn_ready_mask m OR sn_missing_mask m = kPreflightReadinessMask \<and>
         (sn_forced_start m \<or> sn_missing_mask m = 0)) \<and>
      (sn_state m = MS_control \<longrightarrow>
         \<not> sn_fin_control_disabled m \<and> \<not> sn_control_reentry_inhibited m \<and>
         mm_control_gate_evaluated m \<and> sn_roll_reference_valid m \<and>
         finFlightReadinessValid (sn_ready_mask m)) \<and>
      (\<not> sn_liftoff_time_valid m \<longrightarrow>
         sn_elapsed_us m = 0 \<and> sn_liftoff_time_us m = 0 \<and> mm_elapsed_offset_us m = 0) \<and>
      (sn_fin_control_disabled m \<longrightarrow> sn_control_reentry_inhibited m) \<and>
      sn_roll_reference_capture_event_sequence m = mm_capture_event_sequence m \<and>
      (sn_roll_reference_valid m \<longrightarrow>
         in_flight (sn_state m) \<and> isfinite (sn_roll_reference_rad m) \<and>
         sn_roll_reference_estimator_timestamp_us m \<noteq> 0) \<and>
      (sn_roll_reference_valid m \<and> sn_state m = MS_engine_burn \<longrightarrow>
         sn_control_reentry_inhibited m))"

text \<open>The directives handed to the actuators are a function of the latches.\<close>

definition directive_inv :: "mission_machine \<Rightarrow> bool" where
  "directive_inv m =
     (sn_parachute m = (if sn_power_cutoff_latched m then PD_powered_off
        else if sn_deployment_started m then PD_open else PD_hold) \<and>
      sn_fin m \<noteq> FD_free \<and>
      (sn_fin m \<noteq> FD_brake \<longrightarrow>
         \<not> sn_reset_invalidated m \<and> \<not> sn_fin_control_disabled m \<and>
         finFlightReadinessValid (sn_ready_mask m) \<and>
         sn_state m \<noteq> MS_command_receive) \<and>
      (sn_fin m = FD_roll_control \<longrightarrow> sn_state m = MS_control) \<and>
      (sn_fin m = FD_zero_hold \<longrightarrow> sn_state m \<noteq> MS_control))"

definition mission_inv :: "mission_machine \<Rightarrow> bool" where
  "mission_inv m = (core_inv m \<and> directive_inv m)"

lemma nextEpoch_nonzero [simp]: "nextEpoch e \<noteq> 0"
  by (simp add: nextEpoch_def Let_def)

lemma nextEpoch_changes [simp]: "nextEpoch e \<noteq> e"
  by (auto simp: nextEpoch_def Let_def)

lemma mask_partition [simp]:
  "readyMask p AND missingMask p = 0"
  "readyMask p OR missingMask p = kPreflightReadinessMask"
  by (cases "pr_fin_zero_configured p"; cases "pr_motor_profile_valid p";
      cases "pr_gyro_bias_valid p"; cases "pr_gravity_reference_valid p";
      cases "pr_ssc_zero_valid p";
      simp add: readyMask_def missingMask_def readiness_bit_def kPreflightReadinessMask_def)+

lemma readiness_of_mask [simp]:
  "finFlightReadinessValid (readyMask p) = (pr_fin_zero_configured p \<and> pr_motor_profile_valid p)"
  by (cases "pr_fin_zero_configured p"; cases "pr_motor_profile_valid p";
      cases "pr_gyro_bias_valid p"; cases "pr_gravity_reference_valid p";
      cases "pr_ssc_zero_valid p";
      simp add: readyMask_def finFlightReadinessValid_def readiness_bit_def)

lemma missing_none [simp]: "missingMask p = 0 \<Longrightarrow> readyMask p = kPreflightReadinessMask"
  using mask_partition(2)[of p] by simp

lemma not_ready_0 [simp]: "\<not> finFlightReadinessValid 0"
  by (simp add: finFlightReadinessValid_def readiness_bit_def)

lemma updateDirectives_core [simp]: "core_inv (updateDirectives now m) = core_inv m"
  by (simp add: updateDirectives_def core_inv_def Let_def)

lemma updateDirectives_directive: "directive_inv (updateDirectives now m)"
  by (simp add: updateDirectives_def directive_inv_def Let_def)

lemma updateDirectives_fields [simp]:
  "sn_state (updateDirectives now m) = sn_state m"
  "sn_flight_epoch (updateDirectives now m) = sn_flight_epoch m"
  "sn_liftoff_time_valid (updateDirectives now m) = sn_liftoff_time_valid m"
  "sn_liftoff_time_us (updateDirectives now m) = sn_liftoff_time_us m"
  "sn_elapsed_us (updateDirectives now m) = sn_elapsed_us m"
  "sn_fin_control_disabled (updateDirectives now m) = sn_fin_control_disabled m"
  "sn_control_reentry_inhibited (updateDirectives now m) = sn_control_reentry_inhibited m"
  "sn_reset_invalidated (updateDirectives now m) = sn_reset_invalidated m"
  "sn_deployment_started (updateDirectives now m) = sn_deployment_started m"
  "sn_power_cutoff_latched (updateDirectives now m) = sn_power_cutoff_latched m"
  "sn_forced_start (updateDirectives now m) = sn_forced_start m"
  "sn_ready_mask (updateDirectives now m) = sn_ready_mask m"
  "sn_missing_mask (updateDirectives now m) = sn_missing_mask m"
  "mm_control_gate_evaluated (updateDirectives now m) = mm_control_gate_evaluated m"
  "mm_elapsed_offset_us (updateDirectives now m) = mm_elapsed_offset_us m"
  by (simp_all add: updateDirectives_def Let_def)

section \<open>Every call preserves the invariant\<close>

lemmas invalidate_defs = invalidateLiftoff_def invalidateControlRollReference_def
  clearFlightAttemptMetadata_def

lemma start_inv:
  assumes "mission_inv m" shows "mission_inv (fst (snd (startSequence now p md m g)))"
proof -
  have "md = SM_normal \<or> md = SM_forced" by (cases md) auto
  then show ?thesis
    using assms updateDirectives_directive
    by (auto simp: mission_inv_def startSequence_def Let_def)
      (auto simp: core_inv_def invalidate_defs in_flight_def)
qed

lemma cancel_inv: "mission_inv m \<Longrightarrow> mission_inv (snd (cancelSequence m))"
  using updateDirectives_directive
  by (auto simp: mission_inv_def cancelSequence_def Let_def)
    (auto simp: core_inv_def invalidate_defs in_flight_def)

lemma disable_inv: "mission_inv m \<Longrightarrow> mission_inv (snd (disableFinControl m))"
  using updateDirectives_directive
  by (auto simp: mission_inv_def disableFinControl_def Let_def)
    (auto simp: core_inv_def invalidate_defs in_flight_def)

lemma emergency_inv: "mission_inv m \<Longrightarrow> mission_inv (snd (liftoffDetectionEmergencyStop m))"
  using updateDirectives_directive
  by (auto simp: mission_inv_def liftoffDetectionEmergencyStop_def Let_def)
    (auto simp: core_inv_def invalidate_defs in_flight_def)

lemma restore_inv:
  assumes "mission_inv m" "checkpoint_consistent c"
  shows "mission_inv (snd (restoreAfterReset now c m))"
  using assms updateDirectives_directive
  by (auto simp: mission_inv_def restoreAfterReset_def Let_def)
    (auto simp: core_inv_def invalidate_defs in_flight_def checkpoint_consistent_def
      snapshot_init_def mission_snapshot.extend_def mission_machine.fields_def)

subsection \<open>The blocks of the tick\<close>

lemma tick_safety_cutoff_core: "core_inv m \<Longrightarrow> core_inv (tick_safety_cutoff s m)"
  by (simp add: tick_safety_cutoff_def core_inv_def)

lemma tick_liftoff_core: "core_inv m \<Longrightarrow> core_inv (tick_liftoff i m)"
  by (auto simp: tick_liftoff_def core_inv_def in_flight_def)

lemma tick_elapsed_core: "core_inv m \<Longrightarrow> core_inv (tick_elapsed i m)"
  by (auto simp: tick_elapsed_def core_inv_def)

lemma tick_overtravel_core: "core_inv m \<Longrightarrow> core_inv (fst (tick_overtravel (m, g)))"
  by (auto simp: tick_overtravel_def core_inv_def in_flight_def invalidate_defs Let_def)

lemma enterDescent_core:
  "core_inv m \<Longrightarrow> in_flight (sn_state m) \<Longrightarrow> core_inv (enterDescent m)"
  by (auto simp: core_inv_def in_flight_def enterDescent_def)

lemma tick_deployment_core: "core_inv m \<Longrightarrow> core_inv (tick_deployment i s m)"
  using enterDescent_core[of m] unfolding tick_deployment_def in_flight_def Let_def
  by (simp split: if_split) blast

lemma capture_core:
  assumes "captureControlRollReference i m = (r, m')" "core_inv m" "sn_state m = MS_engine_burn"
    "control_ready (ti_control i)" "\<not> sn_fin_control_disabled m"
    "\<not> sn_control_reentry_inhibited m" "mm_control_gate_evaluated m"
    "finFlightReadinessValid (sn_ready_mask m)"
  shows "core_inv (if r then m'\<lparr>sn_state := MS_control\<rparr>
                   else m'\<lparr>sn_control_reentry_inhibited := True\<rparr>)"
  using assms
  by (auto simp: captureControlRollReference_def core_inv_def in_flight_def control_ready_def Let_def
      split: if_splits)

lemma capture_frame:
  assumes "captureControlRollReference i m = (r, m')"
  shows "sn_state m' = sn_state m" "sn_fin_control_disabled m' = sn_fin_control_disabled m"
    "sn_control_reentry_inhibited m' = sn_control_reentry_inhibited m"
    "mm_control_gate_evaluated m' = mm_control_gate_evaluated m"
    "sn_ready_mask m' = sn_ready_mask m" "sn_reset_invalidated m' = sn_reset_invalidated m"
    "sn_flight_epoch m' = sn_flight_epoch m" "sn_elapsed_us m' = sn_elapsed_us m"
    "sn_power_cutoff_latched m' = sn_power_cutoff_latched m"
    "sn_deployment_started m' = sn_deployment_started m"
    "sn_liftoff_time_valid m' = sn_liftoff_time_valid m"
    "sn_forced_start m' = sn_forced_start m"
    "sn_missing_mask m' = sn_missing_mask m"
  using assms by (auto simp: captureControlRollReference_def Let_def split: if_splits)

lemma tick_control_gate_core: assumes "core_inv m" shows "core_inv (tick_control_gate i m)"
proof -
  let ?m = "m\<lparr>mm_control_gate_evaluated := True\<rparr>"
  have c: "core_inv ?m" using assms by (auto simp: core_inv_def)
  obtain r m' where e: "captureControlRollReference i ?m = (r, m')" by fastforce
  have 1: "core_inv (if r then m'\<lparr>sn_state := MS_control\<rparr>
                     else m'\<lparr>sn_control_reentry_inhibited := True\<rparr>)"
    if "sn_state m = MS_engine_burn" "control_ready (ti_control i)"
      "\<not> sn_fin_control_disabled m" "\<not> sn_control_reentry_inhibited m"
      "finFlightReadinessValid (sn_ready_mask m)"
    using capture_core[OF e c] that by simp
  have 3: "core_inv (?m\<lparr>sn_control_reentry_inhibited := True\<rparr>)" if "sn_state m = MS_engine_burn"
    using c that by (auto simp: core_inv_def)
  show ?thesis using assms 1 3 by (simp add: tick_control_gate_def Let_def e)
qed

lemma tick_control_loss_core: "core_inv m \<Longrightarrow> core_inv (tick_control_loss i m)"
  by (auto simp: tick_control_loss_def core_inv_def in_flight_def)

lemma tick_power_cutoff_core: "core_inv m \<Longrightarrow> core_inv (tick_power_cutoff m)"
  by (simp add: tick_power_cutoff_def core_inv_def)

lemmas tick_core = tick_safety_cutoff_core tick_liftoff_core tick_elapsed_core
  tick_overtravel_core tick_deployment_core tick_control_gate_core tick_control_loss_core
  tick_power_cutoff_core

lemma tick_inv: "mission_inv m \<Longrightarrow> mission_inv (fst (mission_tick i s m g))"
  unfolding mission_inv_def mission_tick_def Let_def
  by (auto simp: updateDirectives_directive split: prod.splits)
    (metis tick_core fst_conv)

lemma step_inv:
  "mission_inv (fst s) \<Longrightarrow> call_consistent c \<Longrightarrow> mission_inv (fst (mission_step c s))"
  by (cases s; cases c)
    (simp_all add: start_inv cancel_inv disable_inv emergency_inv restore_inv tick_inv)

lemma init_inv: "mission_inv machine_init"
  by (simp add: mission_inv_def core_inv_def directive_inv_def machine_init_def snapshot_init_def
      mission_snapshot.extend_def mission_machine.fields_def in_flight_def)

lemma reachable_inv: "mission_reachable s \<Longrightarrow> mission_inv (fst s)"
  by (induction rule: mission_reachable.induct) (auto simp: init_inv step_inv)

end
