(* ===== verification/Mission_Flight.thy ===== *)
theory Mission_Flight
  imports Mission_State
begin

text \<open>
  What the mission state machine guarantees in flight, over every sequence of calls from
  power-up: the invariant, the deployment deadline, the absence of early deployments, the
  control gate and the absence of a re-entry into Control.
\<close>

section \<open>Frames\<close>

lemma safety_cutoff_fields [simp]:
  "sn_state (tick_safety_cutoff s m) = sn_state m"
  "sn_liftoff_time_valid (tick_safety_cutoff s m) = sn_liftoff_time_valid m"
  "sn_liftoff_time_us (tick_safety_cutoff s m) = sn_liftoff_time_us m"
  "sn_deployment_started (tick_safety_cutoff s m) = sn_deployment_started m"
  "sn_control_reentry_inhibited (tick_safety_cutoff s m) = sn_control_reentry_inhibited m"
  "mm_control_gate_evaluated (tick_safety_cutoff s m) = mm_control_gate_evaluated m"
  "mm_elapsed_offset_us (tick_safety_cutoff s m) = mm_elapsed_offset_us m"
  "sn_roll_reference_valid (tick_safety_cutoff s m) = sn_roll_reference_valid m"
  by (simp_all add: tick_safety_cutoff_def)

lemma liftoff_idle [simp]: "sn_state m \<noteq> MS_liftoff_detection \<Longrightarrow> tick_liftoff i m = m"
  by (simp add: tick_liftoff_def)

lemma liftoff_fields [simp]:
  "sn_state (tick_liftoff i m) =
     (if sn_state m = MS_liftoff_detection \<and> ti_liftoff_detected i then MS_engine_burn
      else sn_state m)"
  "sn_deployment_started (tick_liftoff i m) = sn_deployment_started m"
  "sn_control_reentry_inhibited (tick_liftoff i m) = sn_control_reentry_inhibited m"
  "sn_roll_reference_valid (tick_liftoff i m) = sn_roll_reference_valid m"
  by (simp_all add: tick_liftoff_def)

lemma elapsed_fields [simp]:
  "sn_state (tick_elapsed i m) = sn_state m"
  "sn_liftoff_time_valid (tick_elapsed i m) = sn_liftoff_time_valid m"
  "sn_deployment_started (tick_elapsed i m) = sn_deployment_started m"
  "sn_control_reentry_inhibited (tick_elapsed i m) = sn_control_reentry_inhibited m"
  "mm_control_gate_evaluated (tick_elapsed i m) = mm_control_gate_evaluated m"
  "sn_roll_reference_valid (tick_elapsed i m) = sn_roll_reference_valid m"
  by (simp_all add: tick_elapsed_def)

lemma elapsed_of_cutoff [simp]:
  "sn_elapsed_us (tick_elapsed i (tick_safety_cutoff s m)) = sn_elapsed_us (tick_elapsed i m)"
  by (simp add: tick_elapsed_def)

lemma overtravel_fields [simp]:
  "sn_state (fst (tick_overtravel (m, g))) =
     (if sn_state m = MS_control \<and> fg_fault_latched g then MS_engine_burn else sn_state m)"
  "sn_liftoff_time_valid (fst (tick_overtravel (m, g))) = sn_liftoff_time_valid m"
  "sn_elapsed_us (fst (tick_overtravel (m, g))) = sn_elapsed_us m"
  "sn_deployment_started (fst (tick_overtravel (m, g))) = sn_deployment_started m"
  "mm_control_gate_evaluated (fst (tick_overtravel (m, g))) = mm_control_gate_evaluated m"
  "sn_control_reentry_inhibited (fst (tick_overtravel (m, g))) =
     (sn_control_reentry_inhibited m \<or> sn_state m \<noteq> MS_command_receive \<and> fg_fault_latched g)"
  "sn_roll_reference_valid (fst (tick_overtravel (m, g))) =
     (sn_roll_reference_valid m \<and> (sn_state m = MS_command_receive \<or> \<not> fg_fault_latched g))"
  by (simp_all add: tick_overtravel_def finOvertravelFaultLatched_def invalidate_defs Let_def)

lemma deployment_fields [simp]:
  "sn_elapsed_us (tick_deployment i s m) = sn_elapsed_us m"
  "sn_liftoff_time_valid (tick_deployment i s m) = sn_liftoff_time_valid m"
  "sn_control_reentry_inhibited (tick_deployment i s m) = sn_control_reentry_inhibited m"
  "mm_control_gate_evaluated (tick_deployment i s m) = mm_control_gate_evaluated m"
  "sn_roll_reference_valid (tick_deployment i s m) = sn_roll_reference_valid m"
  by (simp_all add: tick_deployment_def enterDescent_def Let_def)

lemma deployment_state:
  "tick_deployment i s m = m \<or> (sn_state m = MS_engine_burn \<or> sn_state m = MS_control) \<and>
     tick_deployment i s m = enterDescent m"
  by (simp add: tick_deployment_def Let_def)

lemma gate_fields [simp]:
  "sn_elapsed_us (tick_control_gate i m) = sn_elapsed_us m"
  "sn_liftoff_time_valid (tick_control_gate i m) = sn_liftoff_time_valid m"
  "sn_deployment_started (tick_control_gate i m) = sn_deployment_started m"
  "sn_power_cutoff_latched (tick_control_gate i m) = sn_power_cutoff_latched m"
proof -
  obtain r m' where e: "captureControlRollReference i (m\<lparr>mm_control_gate_evaluated := True\<rparr>) = (r, m')"
    by fastforce
  show
    "sn_elapsed_us (tick_control_gate i m) = sn_elapsed_us m"
    "sn_liftoff_time_valid (tick_control_gate i m) = sn_liftoff_time_valid m"
    "sn_deployment_started (tick_control_gate i m) = sn_deployment_started m"
    "sn_power_cutoff_latched (tick_control_gate i m) = sn_power_cutoff_latched m"
    using capture_frame[OF e] by (simp_all add: tick_control_gate_def Let_def e)
qed

lemma loss_fields [simp]:
  "sn_elapsed_us (tick_control_loss i m) = sn_elapsed_us m"
  "sn_liftoff_time_valid (tick_control_loss i m) = sn_liftoff_time_valid m"
  "sn_deployment_started (tick_control_loss i m) = sn_deployment_started m"
  "mm_control_gate_evaluated (tick_control_loss i m) = mm_control_gate_evaluated m"
  "sn_power_cutoff_latched (tick_control_loss i m) = sn_power_cutoff_latched m"
  by (simp_all add: tick_control_loss_def)

lemma power_cutoff_fields [simp]:
  "sn_elapsed_us (tick_power_cutoff m) = sn_elapsed_us m"
  "sn_state (tick_power_cutoff m) = sn_state m"
  "sn_liftoff_time_valid (tick_power_cutoff m) = sn_liftoff_time_valid m"
  "sn_deployment_started (tick_power_cutoff m) = sn_deployment_started m"
  "sn_control_reentry_inhibited (tick_power_cutoff m) = sn_control_reentry_inhibited m"
  "mm_control_gate_evaluated (tick_power_cutoff m) = mm_control_gate_evaluated m"
  by (simp_all add: tick_power_cutoff_def)

text \<open>The fields no block of the tick writes.\<close>

definition attempt :: "mission_machine \<Rightarrow> u32 \<times> bool \<times> bool \<times> u8 \<times> u8 \<times> bool" where
  "attempt m = (sn_flight_epoch m, sn_reset_invalidated m, sn_fin_control_disabled m,
     sn_ready_mask m, sn_missing_mask m, sn_forced_start m)"

lemma tick_blocks_attempt [simp]:
  "attempt (tick_safety_cutoff s m) = attempt m"
  "attempt (tick_liftoff i m) = attempt m"
  "attempt (tick_elapsed i m) = attempt m"
  "attempt (fst (tick_overtravel (m, g))) = attempt m"
  "attempt (tick_deployment i s m) = attempt m"
  "attempt (tick_control_loss i m) = attempt m"
  "attempt (tick_power_cutoff m) = attempt m"
  "attempt (updateDirectives now m) = attempt m"
  by (simp_all add: attempt_def tick_safety_cutoff_def tick_liftoff_def tick_elapsed_def
      tick_overtravel_def tick_deployment_def tick_control_loss_def tick_power_cutoff_def
      enterDescent_def invalidate_defs Let_def)

lemma tick_control_gate_attempt [simp]: "attempt (tick_control_gate i m) = attempt m"
proof -
  obtain r m' where e: "captureControlRollReference i (m\<lparr>mm_control_gate_evaluated := True\<rparr>) = (r, m')"
    by fastforce
  show ?thesis using capture_frame[OF e] by (simp add: attempt_def tick_control_gate_def Let_def e)
qed

text \<open>The machine before the directives of a tick, and the guard after it.\<close>

definition tick_before_gate ::
    "mission_tick_input \<Rightarrow> safety_request \<Rightarrow> mission_machine \<Rightarrow> fin_guard \<Rightarrow> mission_machine" where
  "tick_before_gate i s m g =
     tick_deployment i s (fst (tick_overtravel (tick_elapsed i (tick_liftoff i
       (tick_safety_cutoff s m)), g)))"

lemma mission_tick_split:
  "fst (mission_tick i s m g) = updateDirectives (ti_monotonic_us i)
     (tick_power_cutoff (tick_control_loss i (tick_control_gate i (tick_before_gate i s m g))))"
  by (simp add: mission_tick_def tick_before_gate_def Let_def split: prod.splits)

lemma tick_attempt [simp]: "attempt (fst (mission_tick i s m g)) = attempt m"
  by (simp add: mission_tick_split tick_before_gate_def)

lemma attempt_fields:
  "attempt m = attempt m' \<Longrightarrow> sn_flight_epoch m = sn_flight_epoch m' \<and>
     sn_reset_invalidated m = sn_reset_invalidated m' \<and>
     sn_fin_control_disabled m = sn_fin_control_disabled m' \<and>
     sn_ready_mask m = sn_ready_mask m' \<and> sn_missing_mask m = sn_missing_mask m' \<and>
     sn_forced_start m = sn_forced_start m'"
  by (simp add: attempt_def)

lemma mission_run_Nil [simp]: "mission_run [] s = s"
  by (simp add: mission_run_def)

lemma mission_run_Cons [simp]: "mission_run (c # cs) s = mission_run cs (mission_step c s)"
  by (simp add: mission_run_def)

lemma mission_run_append: "mission_run (cs @ ds) s = mission_run ds (mission_run cs s)"
  by (simp add: mission_run_def)

lemma mission_run_reachable:
  "mission_reachable s \<Longrightarrow> list_all call_consistent cs \<Longrightarrow> mission_reachable (mission_run cs s)"
  by (induction cs arbitrary: s) (simp_all add: mission_reachable.step)

text \<open>A predicate that every call of a class preserves holds after any run of such calls.\<close>

lemma mission_run_preserves:
  assumes step: "\<And>c s. C c \<Longrightarrow> call_consistent c \<Longrightarrow> mission_reachable s \<Longrightarrow> P s \<Longrightarrow> P (mission_step c s)"
    and "mission_reachable s" "P s" "list_all C cs" "list_all call_consistent cs"
  shows "P (mission_run cs s)"
  using assms(2-)
proof (induction cs arbitrary: s)
  case (Cons c cs)
  show ?case unfolding mission_run_Cons
    by (rule Cons.IH) (use Cons.prems in \<open>simp_all add: step mission_reachable.step\<close>)
qed simp

section \<open>The invariant\<close>

fun is_start :: "mission_call \<Rightarrow> bool" where
  "is_start (Call_start _ _ _) = True"
| "is_start _ = False"

fun is_emergency :: "mission_call \<Rightarrow> bool" where
  "is_emergency Call_emergency = True"
| "is_emergency _ = False"

fun is_restore :: "mission_call \<Rightarrow> bool" where
  "is_restore (Call_restore _ _) = True"
| "is_restore _ = False"

text \<open>A concrete flight used by the witnesses: a start with everything ready, the liftoff at
  2 s, the control gate and the deployment deadline.\<close>

definition ready_all :: preflight_readiness where
  "ready_all = \<lparr>pr_generation = 1, pr_captured_at_us = 5, pr_fin_zero_configured = True,
     pr_motor_profile_valid = True, pr_gyro_bias_valid = True,
     pr_gravity_reference_valid = True, pr_ssc_zero_valid = True,
     pr_resources_preallocated = True\<rparr>"

definition available :: "u64 \<Rightarrow> control_availability" where
  "available ts = \<lparr>ca_fin_control_available = True, ca_fin_zero_hold_valid = True,
     ca_attitude_valid = True, ca_airspeed_above_60 = True, ca_lps_available = True,
     ca_ssc_available = True, ca_gyro_bias_valid = True, ca_ssc_zero_valid = True,
     ca_roll_estimate = Fin 1, ca_roll_estimator_timestamp_us = ts, ca_attitude_fresh = True\<rparr>"

definition tick_at :: "u64 \<Rightarrow> bool \<Rightarrow> bool \<Rightarrow> mission_tick_input" where
  "tick_at now liftoff pressure = \<lparr>ti_monotonic_us = now, ti_liftoff_detected = liftoff,
     ti_deployment_pressure_condition = pressure, ti_control = available (now - 1000),
     ti_control_tick = 7\<rparr>"

definition flight_calls :: "mission_call list" where
  "flight_calls = [Call_start 0 ready_all SM_normal,
     Call_tick (tick_at 2000000 True False) safety_request_default,
     Call_tick (tick_at 9500000 False False) safety_request_default]"

lemmas example_defs = flight_calls_def ready_all_def available_def tick_at_def
  safety_request_default_def machine_init_def snapshot_init_def
  mission_snapshot.extend_def mission_machine.fields_def fin_guard_init_def

text \<open>The step functions, unfolded on a concrete state.\<close>

lemmas eval_defs = example_defs startSequence_def cancelSequence_def disableFinControl_def
  liftoffDetectionEmergencyStop_def restoreAfterReset_def mission_tick_def
  tick_safety_cutoff_def tick_liftoff_def tick_elapsed_def tick_overtravel_def
  tick_deployment_def tick_control_gate_def tick_control_loss_def tick_power_cutoff_def
  captureControlRollReference_def updateDirectives_def enterDescent_def invalidate_defs
  current_safety_def clearFinOvertravelIfRecoverable_def finOvertravelFaultLatched_def
  control_ready_def nextEpoch_def readyMask_def missingMask_def readiness_bit_def
  kPreflightReadinessMask_def finFlightReadinessValid_def kOneSecondUs_def kControlGateUs_def
  kPressureDeploymentGateUs_def kDeploymentDeadlineUs_def kPowerCutoffUs_def Let_def

definition flight_machine :: mission_machine where
  "flight_machine = \<lparr>sn_state = MS_control, sn_flight_epoch = 1, sn_liftoff_time_valid = True,
     sn_liftoff_time_us = 1000000, sn_elapsed_us = 8500000, sn_fin_control_disabled = False,
     sn_control_reentry_inhibited = False, sn_reset_invalidated = False,
     sn_deployment_started = False, sn_power_cutoff_latched = False, sn_forced_start = False,
     sn_preflight_generation = 1, sn_preflight_captured_at_us = 5, sn_ready_mask = 31,
     sn_missing_mask = 0, sn_roll_reference_rad = Fin 1, sn_roll_reference_capture_tick = 7,
     sn_roll_reference_estimator_timestamp_us = 9499000,
     sn_roll_reference_capture_event_sequence = 1, sn_roll_reference_valid = True,
     sn_fin = FD_roll_control, sn_parachute = PD_hold, mm_control_gate_evaluated = True,
     mm_fin_control_available = True, mm_elapsed_offset_us = 0, mm_capture_event_sequence = 1\<rparr>"

lemma flight_result:
  "mission_run flight_calls (machine_init, fin_guard_init) = (flight_machine, fin_guard_init)"
  by (simp add: eval_defs flight_machine_def)

lemma flight_reachable: "mission_reachable (flight_machine, fin_guard_init)"
  unfolding flight_result[symmetric]
  by (intro mission_run_reachable mission_reachable.init) (simp add: flight_calls_def)

text \<open>C1: The invariant of the mission state machine. In every state reachable from power-up by
  starts, cancels, ground disables, emergency stops, restores of stored checkpoints, ticks and
  fin samples: the state is one of the five real states, an active sequence has a non-zero
  flight epoch, the liftoff time is valid exactly in flight, the deployment flag is set exactly
  in descent, the readiness masks partition the five bits, a normal start has no missing bit,
  Control implies an evaluated gate, a captured finite roll reference and neither latch, and
  the directives follow the latches (fin drive only with a valid readiness and without a
  reset or a ground disable).\<close>

theorem mission_invariant:
  assumes "mission_reachable s" shows "mission_inv (fst s)"
  using assms by (rule reachable_inv)

theorem mission_invariant_witness:
  "mission_inv (fst (mission_run flight_calls (machine_init, fin_guard_init)))"
  unfolding flight_result by (rule mission_invariant[OF flight_reachable])

section \<open>Deployment\<close>

text \<open>The time since liftoff that a tick computes, over the unbounded naturals.\<close>

definition flight_time :: "mission_machine \<Rightarrow> u64 \<Rightarrow> nat" where
  "flight_time m now = unat (mm_elapsed_offset_us m) + unat now - unat (sn_liftoff_time_us m)"

lemma elapsed_is_flight_time:
  assumes "sn_liftoff_time_valid m" "sn_liftoff_time_us m \<le> ti_monotonic_us i"
    "unat (mm_elapsed_offset_us m) + unat (ti_monotonic_us i) < 2 ^ 64"
  shows "unat (sn_elapsed_us (tick_elapsed i m)) = flight_time m (ti_monotonic_us i)"
proof -
  let ?s = "mm_elapsed_offset_us m + ti_monotonic_us i"
  have s: "unat ?s = unat (mm_elapsed_offset_us m) + unat (ti_monotonic_us i)"
    using assms(3) by (simp add: unat_word_ariths)
  then have "sn_liftoff_time_us m \<le> ?s" using assms(2) by (simp add: word_le_nat_alt)
  then show ?thesis using assms s
    by (simp add: tick_elapsed_def flight_time_def unat_sub word_le_nat_alt)
qed

lemma core_facts:
  assumes "core_inv m"
  shows "sn_liftoff_time_valid m = in_flight (sn_state m)"
    "sn_deployment_started m = (sn_state m = MS_descent)"
    "sn_state m = MS_control \<Longrightarrow> \<not> sn_control_reentry_inhibited m"
    "sn_state m = MS_control \<Longrightarrow> mm_control_gate_evaluated m"
    "sn_fin_control_disabled m \<Longrightarrow> sn_control_reentry_inhibited m"
    "sn_roll_reference_valid m \<Longrightarrow> sn_state m = MS_engine_burn \<Longrightarrow> sn_control_reentry_inhibited m"
    "sn_roll_reference_valid m \<Longrightarrow> in_flight (sn_state m)"
  using assms by (simp_all add: core_inv_def)

lemma reachable_core: "mission_reachable (m, g) \<Longrightarrow> core_inv m"
  using reachable_inv[of "(m, g)"] by (simp add: mission_inv_def)

lemma reachable_directive: "mission_reachable (m, g) \<Longrightarrow> directive_inv m"
  using reachable_inv[of "(m, g)"] by (simp add: mission_inv_def)

text \<open>What the blocks before the deployment test keep, for a machine already in flight.\<close>

lemma before_deployment:
  fixes m i s g
  assumes "sn_state m = MS_engine_burn \<or> sn_state m = MS_control" "core_inv m"
  defines "m' \<equiv> fst (tick_overtravel (tick_elapsed i (tick_liftoff i (tick_safety_cutoff s m)), g))"
  shows "(sn_state m' = MS_engine_burn \<or> sn_state m' = MS_control) \<and> sn_liftoff_time_valid m' \<and>
    sn_elapsed_us m' = sn_elapsed_us (tick_elapsed i m)"
  using assms(1) core_facts(1)[OF assms(2)] unfolding m'_def by (auto simp: in_flight_def)

lemma after_deployment:
  assumes "sn_state m = MS_descent"
  shows "sn_state (updateDirectives n (tick_power_cutoff (tick_control_loss i (tick_control_gate i m))))
      = MS_descent"
    "sn_deployment_started (updateDirectives n (tick_power_cutoff (tick_control_loss i
       (tick_control_gate i m)))) = sn_deployment_started m"
  using assms by (simp_all add: tick_power_cutoff_def tick_control_loss_def tick_control_gate_def)

text \<open>C2: The deployment deadline. In every reachable flight state (engine burn or control), the
  first tick at least 17 s after liftoff enters descent, starts the deployment and directs the
  parachute open (or keeps it powered off if the power cutoff is latched), whatever the
  sensors, the pressure condition, the safety request and the overtravel guard say, provided
  the clock has not run backwards past liftoff and the sums fit 64 bits.\<close>

theorem deployment_deadline:
  assumes "mission_reachable (m, g)" "sn_state m = MS_engine_burn \<or> sn_state m = MS_control"
    "sn_liftoff_time_us m \<le> ti_monotonic_us i"
    "unat (mm_elapsed_offset_us m) + unat (ti_monotonic_us i) < 2 ^ 64"
    "17000000 \<le> flight_time m (ti_monotonic_us i)"
  shows "sn_state (fst (mission_tick i s m g)) = MS_descent \<and>
    sn_deployment_started (fst (mission_tick i s m g)) \<and>
    sn_parachute (fst (mission_tick i s m g)) =
      (if sn_power_cutoff_latched (fst (mission_tick i s m g)) then PD_powered_off else PD_open)"
proof -
  have core: "core_inv m" using assms(1) by (rule reachable_core)
  have lv: "sn_liftoff_time_valid m" using core_facts(1)[OF core] assms(2) by (auto simp: in_flight_def)
  have "unat kDeploymentDeadlineUs \<le> unat (sn_elapsed_us (tick_elapsed i m))"
    using elapsed_is_flight_time[OF lv assms(3,4)] assms(5)
    by (simp add: kDeploymentDeadlineUs_def kOneSecondUs_def)
  then have "kDeploymentDeadlineUs \<le> sn_elapsed_us (tick_elapsed i m)" by (simp add: word_le_nat_alt)
  then have d: "sn_state (tick_before_gate i s m g) = MS_descent"
    "sn_deployment_started (tick_before_gate i s m g)"
    using before_deployment[OF assms(2) core, of i s g]
    by (simp_all add: tick_before_gate_def tick_deployment_def enterDescent_def)
  have "directive_inv (fst (mission_tick i s m g))"
    unfolding mission_tick_split by (rule updateDirectives_directive)
  then show ?thesis using after_deployment[OF d(1)] d(2)
    by (simp add: mission_tick_split directive_inv_def)
qed

theorem deployment_deadline_witness:
  "sn_state (fst (mission_tick (tick_at 18000000 False False) safety_request_default
     flight_machine fin_guard_init)) = MS_descent"
  by (rule deployment_deadline[THEN conjunct1, OF flight_reachable])
    (simp_all add: flight_machine_def tick_at_def flight_time_def)

text \<open>C3: No early deployment. A call that starts the deployment of a reachable machine is a tick
  in engine burn or control which either carries a deploy request stamped with the current
  non-zero flight epoch, or sees the pressure condition at 10 s or more after liftoff, or is
  the 17 s deadline; or it is the restore of a checkpoint that was already in descent.\<close>

theorem no_early_deployment:
  assumes "mission_reachable s" "\<not> sn_deployment_started (fst s)"
    "sn_deployment_started (fst (mission_step c s))" "call_consistent c"
  shows "(\<exists>i r. c = Call_tick i r \<and>
      (sn_state (fst s) \<in> {MS_liftoff_detection, MS_engine_burn, MS_control}) \<and>
      ((sr_deploy r \<and> sr_flight_epoch r \<noteq> 0 \<and> sr_flight_epoch r = sn_flight_epoch (fst s)) \<or>
       (ti_deployment_pressure_condition i \<and>
          kPressureDeploymentGateUs \<le> sn_elapsed_us (fst (mission_step c s))) \<or>
       kDeploymentDeadlineUs \<le> sn_elapsed_us (fst (mission_step c s)))) \<or>
    (\<exists>now k. c = Call_restore now k \<and> ck_state k = MS_descent)"
proof -
  obtain m g where s: "s = (m, g)" by fastforce
  show ?thesis
  proof (cases c)
    case (Call_tick i r)
    let ?b = "fst (tick_overtravel (tick_elapsed i (tick_liftoff i (tick_safety_cutoff r m)), g))"
    have nd: "\<not> sn_deployment_started ?b" using assms(2) s by simp
    have ep: "sn_flight_epoch ?b = sn_flight_epoch m"
      using attempt_fields[of ?b m] by simp
    have "sn_deployment_started (tick_before_gate i r m g)"
      using assms(3) by (simp add: s Call_tick mission_tick_split)
    then have "tick_before_gate i r m g \<noteq> ?b" using nd by auto
    then have t: "(sn_state ?b = MS_engine_burn \<or> sn_state ?b = MS_control) \<and>
       ((current_safety r ?b \<and> sr_deploy r) \<or>
        (ti_deployment_pressure_condition i \<and> kPressureDeploymentGateUs \<le> sn_elapsed_us ?b) \<or>
        kDeploymentDeadlineUs \<le> sn_elapsed_us ?b)"
      unfolding tick_before_gate_def tick_deployment_def Let_def by (metis (no_types, lifting))
    have el: "sn_elapsed_us (fst (mission_step c s)) = sn_elapsed_us ?b"
      by (simp add: s Call_tick mission_tick_split tick_before_gate_def)
    show ?thesis using t unfolding el
      by (auto simp: Call_tick s current_safety_def ep split: if_splits)
  next
    case (Call_restore now k)
    then show ?thesis using assms(2-4) s
      by (auto simp: restoreAfterReset_def invalidate_defs Let_def checkpoint_consistent_def
          snapshot_init_def mission_snapshot.extend_def
          mission_machine.fields_def split: if_splits)
  qed (use assms(2,3) s in \<open>auto simp: startSequence_def cancelSequence_def disableFinControl_def
      liftoffDetectionEmergencyStop_def invalidate_defs Let_def split: if_splits\<close>)
qed

theorem no_early_deployment_witness:
  "kPressureDeploymentGateUs \<le> sn_elapsed_us (fst (mission_step
     (Call_tick (tick_at 11500000 False True) safety_request_default)
     (flight_machine, fin_guard_init)))"
proof -
  let ?c = "Call_tick (tick_at 11500000 False True) safety_request_default"
  have d: "sn_deployment_started (fst (mission_step ?c (flight_machine, fin_guard_init)))"
    "\<not> sn_deployment_started (fst (flight_machine, fin_guard_init))"
    by (simp_all add: eval_defs flight_machine_def)
  have "kPressureDeploymentGateUs \<le> kDeploymentDeadlineUs"
    by (simp add: kPressureDeploymentGateUs_def kDeploymentDeadlineUs_def kOneSecondUs_def)
  then show ?thesis
    using no_early_deployment[OF flight_reachable d(2) d(1)]
    by (auto simp: safety_request_default_def)
qed

section \<open>Control\<close>

text \<open>How the gate can leave the machine in Control.\<close>

lemma gate_enters_control:
  assumes "sn_state m \<noteq> MS_control" "sn_state (tick_control_gate i m) = MS_control"
  shows "sn_state m = MS_engine_burn \<and> kControlGateUs \<le> sn_elapsed_us m \<and>
    \<not> mm_control_gate_evaluated m \<and> \<not> sn_fin_control_disabled m \<and>
    \<not> sn_control_reentry_inhibited m \<and> finFlightReadinessValid (sn_ready_mask m) \<and>
    control_ready (ti_control i) \<and>
    fst (captureControlRollReference i (m\<lparr>mm_control_gate_evaluated := True\<rparr>)) \<and>
    tick_control_gate i m = (snd (captureControlRollReference i
      (m\<lparr>mm_control_gate_evaluated := True\<rparr>)))\<lparr>sn_state := MS_control\<rparr>"
proof -
  obtain r m' where e: "captureControlRollReference i (m\<lparr>mm_control_gate_evaluated := True\<rparr>) = (r, m')"
    by fastforce
  have g: "sn_state m = MS_engine_burn \<and> sn_liftoff_time_valid m \<and>
      kControlGateUs \<le> sn_elapsed_us m \<and> \<not> mm_control_gate_evaluated m"
    using assms by (simp add: tick_control_gate_def split: if_splits)
  show ?thesis using g assms(2) capture_frame(1)[OF e]
    by (simp add: tick_control_gate_def Let_def e split: if_splits)
qed

lemma gate_state:
  "sn_state (tick_control_gate i m) = sn_state m \<or> sn_state m = MS_engine_burn \<and>
     sn_state (tick_control_gate i m) = MS_control"
proof -
  obtain r m' where e: "captureControlRollReference i (m\<lparr>mm_control_gate_evaluated := True\<rparr>) = (r, m')"
    by fastforce
  show ?thesis using capture_frame(1)[OF e] by (simp add: tick_control_gate_def Let_def e)
qed

lemma tick_state_control:
  "sn_state (fst (mission_tick i r m g)) = MS_control \<longleftrightarrow>
     sn_state (tick_control_gate i (tick_before_gate i r m g)) = MS_control \<and> control_ready (ti_control i)"
  by (auto simp: mission_tick_split tick_control_loss_def split: if_splits)

lemma before_gate_fields:
  "sn_elapsed_us (tick_before_gate i r m g) = sn_elapsed_us (fst (mission_tick i r m g))"
  "sn_liftoff_time_valid (tick_before_gate i r m g) = sn_liftoff_time_valid (fst (mission_tick i r m g))"
  "sn_deployment_started (tick_before_gate i r m g) = sn_deployment_started (fst (mission_tick i r m g))"
  by (simp_all add: mission_tick_split)

lemma before_gate_inhibited:
  "sn_control_reentry_inhibited (tick_before_gate i r m g) =
     (sn_control_reentry_inhibited m \<or>
      sn_state (tick_liftoff i m) \<noteq> MS_command_receive \<and> fg_fault_latched g)"
  by (simp add: tick_before_gate_def)

lemma before_gate_state:
  assumes "sn_state (tick_before_gate i r m g) = MS_control"
  shows "sn_state m = MS_control \<and> \<not> fg_fault_latched g"
proof -
  let ?b = "fst (tick_overtravel (tick_elapsed i (tick_liftoff i (tick_safety_cutoff r m)), g))"
  have "sn_state ?b = MS_control"
    using assms deployment_state[of i r ?b] by (auto simp: tick_before_gate_def enterDescent_def)
  then show ?thesis by (simp split: if_splits)
qed

lemma capture_success:
  assumes "fst (captureControlRollReference i m)" "\<not> sn_roll_reference_valid m"
  shows "ca_roll_estimator_timestamp_us (ti_control i) \<le> ti_monotonic_us i"
    "ti_monotonic_us i - ca_roll_estimator_timestamp_us (ti_control i) \<le> 3000"
    "sn_roll_reference_rad (snd (captureControlRollReference i m)) = ca_roll_estimate (ti_control i)"
    "sn_roll_reference_capture_tick (snd (captureControlRollReference i m)) = ti_control_tick i"
  using assms by (auto simp: captureControlRollReference_def Let_def split: if_splits)

lemma directives_control:
  assumes "sn_state m = MS_control"
  shows "sn_fin (updateDirectives now m) =
    (if sn_reset_invalidated m \<or> sn_fin_control_disabled m \<or>
        \<not> finFlightReadinessValid (sn_ready_mask m) then FD_brake else FD_roll_control)"
  using assms by (simp add: updateDirectives_def Let_def)

lemma tick_reference:
  assumes "control_ready (ti_control i)"
  shows "sn_roll_reference_rad (fst (mission_tick i r m g)) =
      sn_roll_reference_rad (tick_control_gate i (tick_before_gate i r m g))"
    "sn_roll_reference_capture_tick (fst (mission_tick i r m g)) =
      sn_roll_reference_capture_tick (tick_control_gate i (tick_before_gate i r m g))"
  using assms by (simp_all add: mission_tick_split tick_control_loss_def tick_power_cutoff_def
      updateDirectives_def Let_def)

lemma only_tick_enters_control:
  assumes "sn_state (fst s) \<noteq> MS_control" "sn_state (fst (mission_step c s)) = MS_control"
  shows "\<exists>i r. c = Call_tick i r"
  using assms by (cases s; cases c)
    (auto simp: startSequence_def cancelSequence_def disableFinControl_def restoreAfterReset_def
      liftoffDetectionEmergencyStop_def invalidate_defs Let_def snapshot_init_def
      mission_snapshot.extend_def mission_machine.fields_def split: if_splits)

text \<open>C4: The control gate. Control is entered by a tick only, from engine burn (or the same
  tick's liftoff), with the elapsed time in [8 s, 17 s), with every control availability true in
  that tick, with the fin-zero and motor-profile readiness bits, without an overtravel fault,
  ground disable or re-entry inhibition, and with a roll reference captured from the very
  estimator sample of that tick, at most 3 ms old; the fin directive is then roll control
  unless the machine was restored after a reset.\<close>

theorem control_entry_gate:
  assumes "mission_reachable (m, g)" "sn_state m \<noteq> MS_control"
    "sn_state (fst (mission_step c (m, g))) = MS_control"
  shows "\<exists>i r. c = Call_tick i r \<and> control_ready (ti_control i) \<and>
    kControlGateUs \<le> sn_elapsed_us (fst (mission_step c (m, g))) \<and>
    sn_elapsed_us (fst (mission_step c (m, g))) < kDeploymentDeadlineUs \<and>
    finFlightReadinessValid (sn_ready_mask m) \<and> \<not> fg_fault_latched g \<and>
    \<not> sn_fin_control_disabled m \<and> \<not> sn_control_reentry_inhibited m \<and>
    ca_roll_estimator_timestamp_us (ti_control i) \<le> ti_monotonic_us i \<and>
    ti_monotonic_us i - ca_roll_estimator_timestamp_us (ti_control i) \<le> 3000 \<and>
    sn_roll_reference_rad (fst (mission_step c (m, g))) = ca_roll_estimate (ti_control i) \<and>
    sn_roll_reference_capture_tick (fst (mission_step c (m, g))) = ti_control_tick i \<and>
    sn_fin (fst (mission_step c (m, g))) =
      (if sn_reset_invalidated m then FD_brake else FD_roll_control)"
proof -
  obtain i r where c: "c = Call_tick i r"
    using only_tick_enters_control[of "(m, g)" c] assms(2,3) by auto
  let ?b = "tick_before_gate i r m g" and ?m = "fst (mission_tick i r m g)"
  have st: "sn_state ?m = MS_control" using assms(3) by (simp add: c)
  then have cr: "control_ready (ti_control i)" and gc: "sn_state (tick_control_gate i ?b) = MS_control"
    by (simp_all add: tick_state_control)
  have nb: "sn_state ?b \<noteq> MS_control" using assms(2) before_gate_state by blast
  note gate = gate_enters_control[OF nb gc]
  have core: "core_inv m" using assms(1) by (rule reachable_core)
  have cb: "core_inv ?b" unfolding tick_before_gate_def
    by (intro tick_core core)
  have nr: "\<not> sn_roll_reference_valid ?b" using core_facts(6)[OF cb] gate by blast
  have att: "attempt ?b = attempt m" by (simp add: tick_before_gate_def)
  have lat: "\<not> fg_fault_latched g" "\<not> sn_control_reentry_inhibited m"
  proof -
    have "sn_state (tick_liftoff i m) \<noteq> MS_command_receive"
    proof
      assume a: "sn_state (tick_liftoff i m) = MS_command_receive"
      then have "sn_state m = MS_command_receive" by (auto split: if_splits)
      then have "sn_state ?b = MS_command_receive"
        by (simp add: tick_before_gate_def tick_deployment_def)
      then show False using gate by simp
    qed
    then show "\<not> fg_fault_latched g" "\<not> sn_control_reentry_inhibited m"
      using gate before_gate_inhibited[of i r m g] by auto
  qed
  have early: "sn_elapsed_us ?b < kDeploymentDeadlineUs"
  proof (rule ccontr)
    assume "\<not> sn_elapsed_us ?b < kDeploymentDeadlineUs"
    then have l: "kDeploymentDeadlineUs \<le> sn_elapsed_us ?b" by simp
    have "sn_liftoff_time_valid ?b" using core_facts(1)[OF cb] gate by (simp add: in_flight_def)
    then show False using gate l
      by (auto simp: tick_before_gate_def tick_deployment_def enterDescent_def Let_def split: if_splits)
  qed
  let ?g = "?b\<lparr>mm_control_gate_evaluated := True\<rparr>"
  have cap: "fst (captureControlRollReference i ?g)" "\<not> sn_roll_reference_valid ?g"
    using gate nr by simp_all
  have tg: "tick_control_gate i ?b =
      (snd (captureControlRollReference i ?g))\<lparr>sn_state := MS_control\<rparr>"
    using gate by blast
  have "sn_roll_reference_rad ?m = ca_roll_estimate (ti_control i) \<and>
      sn_roll_reference_capture_tick ?m = ti_control_tick i"
    unfolding tick_reference[OF cr] tg by (simp add: capture_success(3,4)[OF cap])
  moreover have "sn_fin ?m = (if sn_reset_invalidated m then FD_brake else FD_roll_control)"
  proof -
    let ?l = "tick_power_cutoff (tick_control_loss i (tick_control_gate i ?b))"
    have "attempt ?l = attempt m" by (simp add: att)
    note a = attempt_fields[OF this]
    have "sn_state ?l = MS_control" using st unfolding mission_tick_split by simp
    then have "sn_fin ?m = (if sn_reset_invalidated ?l \<or> sn_fin_control_disabled ?l \<or>
        \<not> finFlightReadinessValid (sn_ready_mask ?l) then FD_brake else FD_roll_control)"
      unfolding mission_tick_split by (rule directives_control)
    moreover have "\<not> sn_fin_control_disabled m \<and> finFlightReadinessValid (sn_ready_mask m)"
      using gate attempt_fields[OF att] by simp
    ultimately show ?thesis using a by presburger
  qed
  ultimately show ?thesis
    using gate cr lat early capture_success(1,2)[OF cap] attempt_fields[OF att]
      before_gate_fields(1)[of i r m g]
    unfolding c by (intro exI[of _ i] exI[of _ r]) simp
qed

theorem control_entry_gate_witness:
  "ca_roll_estimator_timestamp_us (available 9499000) \<le> 9500000 \<and> sn_state flight_machine = MS_control"
proof -
  let ?cs = "take 2 flight_calls" and ?c = "Call_tick (tick_at 9500000 False False) safety_request_default"
  let ?s = "mission_run ?cs (machine_init, fin_guard_init)"
  have r: "mission_reachable (fst ?s, snd ?s)"
    by (simp only: prod.collapse, intro mission_run_reachable mission_reachable.init)
      (simp add: flight_calls_def)
  have n: "sn_state (fst ?s) \<noteq> MS_control" by (simp add: eval_defs)
  have e: "mission_step ?c ?s = (flight_machine, fin_guard_init)"
    unfolding flight_result[symmetric] by (simp add: flight_calls_def)
  then have y: "sn_state (fst (mission_step ?c (fst ?s, snd ?s))) = MS_control"
    by (simp add: flight_machine_def)
  show ?thesis using control_entry_gate[OF r n y] e
    by (auto simp: tick_at_def flight_machine_def available_def)
qed

text \<open>A machine that cannot enter Control any more in its flight epoch.\<close>

definition control_spent :: "mission_machine \<Rightarrow> bool" where
  "control_spent m =
     (sn_state m = MS_command_receive \<or> sn_state m = MS_descent \<or>
      (sn_state m \<noteq> MS_control \<and> sn_control_reentry_inhibited m) \<or>
      (sn_state m = MS_engine_burn \<and> mm_control_gate_evaluated m))"

lemma spent_not_control: "control_spent m \<Longrightarrow> sn_state m \<noteq> MS_control"
  by (auto simp: control_spent_def)

lemma gate_blocked:
  assumes "sn_state m \<noteq> MS_engine_burn \<or> sn_control_reentry_inhibited m \<or> mm_control_gate_evaluated m"
  shows "sn_state (tick_control_gate i m) = sn_state m"
  using assms gate_state[of i m] gate_enters_control[of m i] by (cases "sn_state m = MS_control") auto

lemma gate_latches:
  "sn_control_reentry_inhibited m \<Longrightarrow> sn_control_reentry_inhibited (tick_control_gate i m)"
  "mm_control_gate_evaluated m \<Longrightarrow> mm_control_gate_evaluated (tick_control_gate i m)"
  by (simp_all add: tick_control_gate_def Let_def)

text \<open>A tick whose gate is blocked changes the state only by the blocks before the gate.\<close>

lemma tick_blocked:
  fixes i r m g
  defines "b \<equiv> tick_before_gate i r m g"
  assumes "sn_state b \<noteq> MS_control"
    and bl: "sn_state b \<noteq> MS_engine_burn \<or> sn_control_reentry_inhibited b \<or> mm_control_gate_evaluated b"
  shows "sn_state (fst (mission_tick i r m g)) = sn_state b"
    "sn_control_reentry_inhibited b \<Longrightarrow> sn_control_reentry_inhibited (fst (mission_tick i r m g))"
    "mm_control_gate_evaluated b \<Longrightarrow> mm_control_gate_evaluated (fst (mission_tick i r m g))"
proof -
  have "sn_state (tick_control_gate i b) \<noteq> MS_control" using gate_blocked[OF bl] assms(2) by simp
  then have l: "tick_control_loss i (tick_control_gate i b) = tick_control_gate i b"
    by (simp add: tick_control_loss_def)
  show "sn_state (fst (mission_tick i r m g)) = sn_state b"
    unfolding mission_tick_split b_def[symmetric] l using gate_blocked[OF bl] by simp
  show "sn_control_reentry_inhibited (fst (mission_tick i r m g))" if "sn_control_reentry_inhibited b"
    unfolding mission_tick_split b_def[symmetric] l using gate_latches(1)[OF that] by simp
  show "mm_control_gate_evaluated (fst (mission_tick i r m g))" if "mm_control_gate_evaluated b"
    unfolding mission_tick_split b_def[symmetric] l using gate_latches(2)[OF that] by simp
qed

lemma before_gate_cases:
  fixes i r m g
  defines "b \<equiv> tick_before_gate i r m g"
  shows "sn_state m = MS_command_receive \<Longrightarrow> sn_state b = MS_command_receive"
    "sn_state m = MS_descent \<Longrightarrow> sn_state b = MS_descent"
    "sn_state m \<noteq> MS_control \<Longrightarrow> sn_state b \<noteq> MS_control"
    "sn_state m = MS_engine_burn \<Longrightarrow> sn_state b = MS_engine_burn \<or> sn_state b = MS_descent"
    "sn_state m = MS_control \<Longrightarrow> sn_state b = MS_control \<or> sn_state b = MS_descent \<or>
       sn_state b = MS_engine_burn \<and> sn_control_reentry_inhibited b"
    "sn_state m = MS_engine_burn \<Longrightarrow> mm_control_gate_evaluated b = mm_control_gate_evaluated m"
proof -
  let ?c = "fst (tick_overtravel (tick_elapsed i (tick_liftoff i (tick_safety_cutoff r m)), g))"
  have b: "b = ?c \<or> (sn_state ?c = MS_engine_burn \<or> sn_state ?c = MS_control) \<and> b = enterDescent ?c"
    unfolding b_def tick_before_gate_def by (rule deployment_state)
  note be = b[THEN disjE]
  show "sn_state m = MS_command_receive \<Longrightarrow> sn_state b = MS_command_receive"
    "sn_state m = MS_descent \<Longrightarrow> sn_state b = MS_descent"
    using b by auto
  show "sn_state m \<noteq> MS_control \<Longrightarrow> sn_state b \<noteq> MS_control"
    using before_gate_state unfolding b_def by blast
  show "sn_state m = MS_engine_burn \<Longrightarrow> sn_state b = MS_engine_burn \<or> sn_state b = MS_descent"
    using b by (auto simp: enterDescent_def)
  show "sn_state b = MS_control \<or> sn_state b = MS_descent \<or>
      sn_state b = MS_engine_burn \<and> sn_control_reentry_inhibited b" if "sn_state m = MS_control"
    by (rule be) (use that in \<open>auto simp: enterDescent_def split: if_splits\<close>)
  show "mm_control_gate_evaluated b = mm_control_gate_evaluated m" if "sn_state m = MS_engine_burn"
    by (rule be) (use that in \<open>auto simp: enterDescent_def\<close>)
qed

lemma spent_tick:
  assumes "control_spent m" shows "control_spent (fst (mission_tick i r m g))"
proof -
  let ?b = "tick_before_gate i r m g"
  have nc: "sn_state m \<noteq> MS_control" using assms by (auto simp: control_spent_def)
  have inh: "sn_control_reentry_inhibited ?b" if "sn_control_reentry_inhibited m"
    using that before_gate_inhibited by blast
  consider "sn_state ?b = MS_command_receive \<or> sn_state ?b = MS_descent"
    | "sn_control_reentry_inhibited ?b" | "sn_state ?b = MS_engine_burn" "mm_control_gate_evaluated ?b"
    using assms inh before_gate_cases(1,2,4,6)[of m i r g] unfolding control_spent_def by metis
  then show ?thesis
    using tick_blocked[of i r m g] before_gate_cases(3)[OF nc, of i r g]
    by cases (auto simp: control_spent_def)
qed

lemma leaving_control_tick:
  assumes "sn_state m = MS_control" "core_inv m"
  shows "sn_state (fst (mission_tick i r m g)) = MS_control \<or> control_spent (fst (mission_tick i r m g))"
proof -
  let ?b = "tick_before_gate i r m g"
  show ?thesis
  proof (cases "sn_state ?b = MS_control")
    case True
    then have "sn_state (tick_control_gate i ?b) = MS_control" using gate_blocked[of ?b i] by simp
    then show ?thesis
      by (auto simp: mission_tick_split tick_control_loss_def control_spent_def)
  next
    case False
    then show ?thesis
      using before_gate_cases(5)[OF assms(1), of i r g] tick_blocked[of i r m g]
      by (auto simp: control_spent_def)
  qed
qed

lemma spent_step:
  assumes "\<not> is_start c \<and> \<not> is_emergency c" "call_consistent c" "mission_reachable s"
    "sn_state (fst s) = MS_control \<or> control_spent (fst s)"
  shows "(sn_state (fst (mission_step c s)) = MS_control \<and> sn_state (fst s) = MS_control) \<or>
    control_spent (fst (mission_step c s))"
proof -
  obtain m g where s: "s = (m, g)" by fastforce
  have core: "core_inv m" using assms(3) reachable_core unfolding s by blast
  show ?thesis
  proof (cases c)
    case (Call_tick i r)
    then show ?thesis using assms(4) spent_tick[of m i r g] leaving_control_tick[OF _ core, of i r g]
      by (auto simp: s)
  qed (use assms(1,4) in \<open>auto simp: s control_spent_def cancelSequence_def disableFinControl_def
      restoreAfterReset_def invalidate_defs Let_def snapshot_init_def
      mission_snapshot.extend_def mission_machine.fields_def split: if_splits\<close>)
qed

lemma spent_run:
  assumes "control_spent (fst s)" "mission_reachable s" "list_all call_consistent cs"
    "list_all (\<lambda>c. \<not> is_start c \<and> \<not> is_emergency c) cs"
  shows "control_spent (fst (mission_run cs s))"
  by (rule mission_run_preserves[where C = "\<lambda>c. \<not> is_start c \<and> \<not> is_emergency c" and
        P = "\<lambda>s. control_spent (fst s)", OF _ assms(2,1,4,3)])
    (use spent_step spent_not_control in blast)

lemma control_or_spent_run:
  assumes "sn_state (fst s) = MS_control \<or> control_spent (fst s)" "mission_reachable s"
    "list_all call_consistent cs" "list_all (\<lambda>c. \<not> is_start c \<and> \<not> is_emergency c) cs"
  shows "sn_state (fst (mission_run cs s)) = MS_control \<or> control_spent (fst (mission_run cs s))"
  by (rule mission_run_preserves[where C = "\<lambda>c. \<not> is_start c \<and> \<not> is_emergency c" and
        P = "\<lambda>s. sn_state (fst s) = MS_control \<or> control_spent (fst s)", OF _ assms(2,1,4,3)])
    (use spent_step in blast)

text \<open>C5: No re-entry. From a machine in Control, over any calls other than a new start and a
  rollback (which open a new flight epoch): once the machine has left Control - by a sensor
  loss, an overtravel fault, a ground disable, the deployment or a reset - no continuation
  brings it back to Control, whatever the inputs of the later ticks.\<close>

theorem control_not_reentered:
  assumes "mission_reachable s" "sn_state (fst s) = MS_control"
    "list_all call_consistent (cs @ ds)"
    "list_all (\<lambda>c. \<not> is_start c \<and> \<not> is_emergency c) (cs @ ds)"
    "sn_state (fst (mission_run cs s)) \<noteq> MS_control"
  shows "sn_state (fst (mission_run (cs @ ds) s)) \<noteq> MS_control"
proof -
  have "control_spent (fst (mission_run cs s))"
    using control_or_spent_run[of s cs] assms by simp
  then have "control_spent (fst (mission_run ds (mission_run cs s)))"
    using assms(3,4) by (intro spent_run[OF _ mission_run_reachable[OF assms(1)]]) simp_all
  then show ?thesis unfolding mission_run_append by (rule spent_not_control)
qed

theorem control_not_reentered_witness:
  "sn_state (fst (mission_run ([Call_observe (Fin 1) True,
      Call_tick (tick_at 9501000 False False) safety_request_default] @
     [Call_zero_set, Call_tick (tick_at 9502000 False False) safety_request_default])
     (flight_machine, fin_guard_init))) \<noteq> MS_control"
proof -
  let ?g = "observeFinOvertravel (Fin 1) True fin_guard_init"
  obtain k where k: "kFinOvertravelFaultLimitRad = Fin k" "0 < k" "k < 1"
    using limit_value by blast
  have g: "?g = \<lparr>fg_fault_latched = True, fg_sample_valid = True, fg_inside_fault_limit = False\<rparr>"
    using k(2,3) by (simp add: observeFinOvertravel_def fin_guard_init_def k(1))
  show ?thesis
    by (rule control_not_reentered[OF flight_reachable])
      (simp_all add: g, simp_all add: flight_machine_def eval_defs)
qed

end
