(* ===== verification/Mission_Attempt.thy ===== *)
theory Mission_Attempt
  imports Mission_Flight
begin

text \<open>
  Guarantees of the mission state machine that concern a whole flight attempt: what a start
  accepts and refuses, irrevocable descent, isolation from the requests of an old flight epoch
  after a rollback, and the attempts whose fin stays at brake (missing readiness, reset).
\<close>

section \<open>Start\<close>

text \<open>Every branch of the sequence start. It is refused outside CommandReceive (invalid
  state), while an overtravel fault that the last sample does not allow to clear is latched or
  resources are missing (runtime unavailable, forced or not), and, in normal mode only, while
  a readiness bit is missing (not configured); a refusal leaves the machine untouched. An
  accepted start opens liftoff detection under a new non-zero epoch with all latches clear,
  records the readiness masks and the forced flag, holds the parachute, and holds the fin at
  zero exactly when the fin zero and the motor profile are ready.\<close>

theorem start_branches:
  "let (res, m', g') = startSequence now p md m g;
       latched = (fg_fault_latched g \<and> \<not> (fg_sample_valid g \<and> fg_inside_fault_limit g))
   in res = (if sn_state m \<noteq> MS_command_receive then TR_invalid_state
             else if latched then TR_runtime_unavailable
             else if \<not> pr_resources_preallocated p then TR_runtime_unavailable
             else if md = SM_normal \<and> missingMask p \<noteq> 0 then TR_not_configured
             else TR_completed) \<and>
      (if res = TR_completed
       then sn_state m' = MS_liftoff_detection \<and> sn_flight_epoch m' = nextEpoch (sn_flight_epoch m) \<and>
         sn_flight_epoch m' \<notin> {0, sn_flight_epoch m} \<and>
         \<not> sn_liftoff_time_valid m' \<and> \<not> sn_deployment_started m' \<and>
         \<not> sn_power_cutoff_latched m' \<and> \<not> sn_fin_control_disabled m' \<and>
         \<not> sn_control_reentry_inhibited m' \<and> \<not> sn_reset_invalidated m' \<and>
         sn_forced_start m' = (md = SM_forced) \<and> sn_ready_mask m' = readyMask p \<and>
         sn_missing_mask m' = missingMask p \<and> sn_parachute m' = PD_hold \<and>
         sn_fin m' = (if pr_fin_zero_configured p \<and> pr_motor_profile_valid p
                      then FD_zero_hold else FD_brake) \<and>
         \<not> fg_fault_latched g'
       else m' = m)"
proof -
  have l: "finOvertravelFaultLatched (snd (clearFinOvertravelIfRecoverable g)) =
      (fg_fault_latched g \<and> \<not> (fg_sample_valid g \<and> fg_inside_fault_limit g))"
    by (simp add: finOvertravelFaultLatched_def guard_simps)
  show ?thesis
    unfolding startSequence_def Let_def l
    by (simp add: invalidate_defs)
      (simp add: updateDirectives_def Let_def guard_simps; blast)
qed

section \<open>Descent\<close>

lemma descent_step:
  assumes "sn_state m = MS_descent" "sn_deployment_started m" "\<not> is_restore c"
  shows "sn_state (fst (mission_step c (m, g))) = MS_descent \<and>
    sn_deployment_started (fst (mission_step c (m, g))) \<and>
    sn_flight_epoch (fst (mission_step c (m, g))) = sn_flight_epoch m \<and>
    (sn_power_cutoff_latched m \<longrightarrow> sn_power_cutoff_latched (fst (mission_step c (m, g))))"
proof (cases c)
  case (Call_tick i r)
  let ?b = "tick_before_gate i r m g"
  have b: "sn_state ?b = MS_descent" using before_gate_cases(2)[OF assms(1)] .
  then have s: "sn_state (fst (mission_tick i r m g)) = MS_descent" using tick_blocked(1)[of i r m g] by simp
  have "?b = fst (tick_overtravel (tick_elapsed i (tick_liftoff i (tick_safety_cutoff r m)), g))"
    using assms(1) by (simp add: tick_before_gate_def tick_deployment_def)
  then have "sn_power_cutoff_latched m \<longrightarrow> sn_power_cutoff_latched ?b"
    using assms(1) by (auto simp: tick_overtravel_def tick_elapsed_def tick_safety_cutoff_def invalidate_defs Let_def)
  then have p: "sn_power_cutoff_latched m \<longrightarrow> sn_power_cutoff_latched (fst (mission_tick i r m g))"
    by (simp add: mission_tick_split tick_power_cutoff_def)
  have "sn_deployment_started ?b" using assms(1,2) by (simp add: tick_before_gate_def tick_deployment_def)
  then have d: "sn_deployment_started (fst (mission_tick i r m g))" by (simp add: before_gate_fields(3))
  show ?thesis using s p d attempt_fields[OF tick_attempt[of i r m g]] by (simp add: Call_tick)
qed (use assms in \<open>simp_all add: startSequence_def cancelSequence_def disableFinControl_def
    liftoffDetectionEmergencyStop_def\<close>)

text \<open>C7: Descent is irrevocable. Once a reachable machine is in descent, every sequence of calls
  short of a restore (starts, cancels, emergency stops, ticks with any input and safety
  request) keeps it in descent in the same flight epoch, with the deployment started and the
  parachute never directed back to hold; a latched power cutoff stays latched and keeps the
  parachute powered off.\<close>

theorem descent_irrevocable:
  assumes "mission_reachable s" "sn_state (fst s) = MS_descent"
    "list_all call_consistent cs" "list_all (\<lambda>c. \<not> is_restore c) cs"
  shows "sn_state (fst (mission_run cs s)) = MS_descent \<and>
    sn_flight_epoch (fst (mission_run cs s)) = sn_flight_epoch (fst s) \<and>
    sn_deployment_started (fst (mission_run cs s)) \<and>
    sn_parachute (fst (mission_run cs s)) \<noteq> PD_hold \<and>
    (sn_power_cutoff_latched (fst s) \<longrightarrow> sn_parachute (fst (mission_run cs s)) = PD_powered_off)"
proof -
  obtain m g where s: "s = (m, g)" by fastforce
  let ?P = "\<lambda>t :: mission_machine \<times> fin_guard. sn_state (fst t) = MS_descent \<and> sn_deployment_started (fst t) \<and>
    sn_flight_epoch (fst t) = sn_flight_epoch m \<and>
    (sn_power_cutoff_latched m \<longrightarrow> sn_power_cutoff_latched (fst t))"
  have "sn_deployment_started m" using core_facts(2)[OF reachable_core] assms(1,2) s by simp
  then have p: "?P s" using assms(2) s by simp
  have run: "?P (mission_run cs s)"
  proof (rule mission_run_preserves[where C = "\<lambda>c. \<not> is_restore c" and P = ?P, OF _ assms(1) p assms(4,3)])
    fix c and t :: "mission_machine \<times> fin_guard" assume "\<not> is_restore c" "?P t"
    then show "?P (mission_step c t)" using descent_step[of "fst t" c "snd t"] by simp
  qed
  have "mission_reachable (mission_run cs s)" using mission_run_reachable[OF assms(1,3)] .
  then have "directive_inv (fst (mission_run cs s))" using reachable_inv by (simp add: mission_inv_def)
  then show ?thesis using run s by (simp add: directive_inv_def)
qed

definition descent_calls :: "mission_call list" where
  "descent_calls = [Call_tick (tick_at 18000000 False False) safety_request_default]"

lemma descent_reachable: "mission_reachable (mission_run descent_calls (flight_machine, fin_guard_init))"
  by (intro mission_run_reachable flight_reachable) (simp add: descent_calls_def)

theorem descent_irrevocable_witness:
  "sn_parachute (fst (mission_run [Call_emergency, Call_cancel, Call_start 0 ready_all SM_forced,
     Call_tick (tick_at 18000001 False False) safety_request_default]
     (mission_run descent_calls (flight_machine, fin_guard_init)))) \<noteq> PD_hold"
proof -
  have d: "sn_state (fst (mission_run descent_calls (flight_machine, fin_guard_init))) = MS_descent"
    by (simp add: descent_calls_def flight_machine_def eval_defs)
  show ?thesis by (rule descent_irrevocable[OF descent_reachable d, THEN conjunct2, THEN conjunct2,
        THEN conjunct2, THEN conjunct1]) simp_all
qed

section \<open>Rollback\<close>

lemma stale_request_ignored:
  assumes "\<not> current_safety r m"
  shows "mission_tick i r m g = mission_tick i safety_request_default m g"
proof -
  have d: "\<not> current_safety safety_request_default m'" for m'
    by (simp add: current_safety_def safety_request_default_def)
  let ?c = "tick_overtravel (tick_elapsed i (tick_liftoff i m), g)"
  have "sn_flight_epoch (fst ?c) = sn_flight_epoch m" using attempt_fields[of "fst ?c" m] by simp
  then have "\<not> current_safety r (fst ?c)" using assms by (simp add: current_safety_def)
  then have "tick_deployment i r (fst ?c) = tick_deployment i safety_request_default (fst ?c)"
    by (simp add: tick_deployment_def d)
  moreover have "tick_safety_cutoff r m = m" "tick_safety_cutoff safety_request_default m = m"
    using assms by (simp_all add: tick_safety_cutoff_def d)
  moreover obtain m1 g1 where "?c = (m1, g1)" by fastforce
  ultimately show ?thesis by (simp add: mission_tick_def)
qed

text \<open>The liftoff-detection rollback isolates the new epoch. An emergency stop in engine burn
  returns to liftoff detection under a new flight epoch with the liftoff time, the elapsed
  time and the roll reference invalidated, keeps the attempt's forced flag and readiness
  masks, and from then on every tick that carries a safety request stamped with the old epoch
  behaves exactly as a tick without any request.\<close>

theorem rollback_isolates_epoch:
  assumes "mission_reachable (m, g)" "sn_state m = MS_engine_burn"
    "liftoffDetectionEmergencyStop m = (res, m')" "sr_flight_epoch r = sn_flight_epoch m"
  shows "res = TR_completed \<and> sn_state m' = MS_liftoff_detection \<and>
    sn_flight_epoch m' \<notin> {0, sn_flight_epoch m} \<and> \<not> sn_liftoff_time_valid m' \<and>
    sn_elapsed_us m' = 0 \<and> \<not> sn_roll_reference_valid m' \<and>
    sn_forced_start m' = sn_forced_start m \<and> sn_ready_mask m' = sn_ready_mask m \<and>
    sn_missing_mask m' = sn_missing_mask m \<and>
    sn_fin_control_disabled m' = sn_fin_control_disabled m \<and>
    mission_tick i r m' g' = mission_tick i safety_request_default m' g'"
proof -
  have v: "sn_roll_reference_valid (updateDirectives n x) = sn_roll_reference_valid x" for n x
    by (simp add: updateDirectives_def Let_def)
  have a: "res = TR_completed \<and> sn_state m' = MS_liftoff_detection \<and>
    sn_flight_epoch m' = nextEpoch (sn_flight_epoch m) \<and> \<not> sn_liftoff_time_valid m' \<and>
    sn_elapsed_us m' = 0 \<and> \<not> sn_roll_reference_valid m' \<and>
    sn_forced_start m' = sn_forced_start m \<and> sn_ready_mask m' = sn_ready_mask m \<and>
    sn_missing_mask m' = sn_missing_mask m \<and>
    sn_fin_control_disabled m' = sn_fin_control_disabled m"
    using assms(2,3) by (auto simp: liftoffDetectionEmergencyStop_def invalidate_defs Let_def v)
  have n: "sn_flight_epoch m' \<noteq> sn_flight_epoch m" "sn_flight_epoch m' \<noteq> 0" using a by simp_all
  then have "\<not> current_safety r m'" using assms(4) by (simp add: current_safety_def)
  then show ?thesis using a n stale_request_ignored[of r m' i g'] by simp
qed

definition rollback_machine :: mission_machine where
  "rollback_machine = flight_machine\<lparr>sn_state := MS_engine_burn,
     sn_control_reentry_inhibited := True, sn_elapsed_us := 9000000, sn_fin := FD_zero_hold\<rparr>"

lemma rollback_reachable: "mission_reachable (rollback_machine, fin_guard_init)"
proof -
  let ?i = "(tick_at 10000000 False False)\<lparr>ti_control := (available 9999000)\<lparr>ca_attitude_fresh := False\<rparr>\<rparr>"
  have "mission_step (Call_tick ?i safety_request_default) (flight_machine, fin_guard_init) =
      (rollback_machine, fin_guard_init)"
    by (simp add: eval_defs flight_machine_def rollback_machine_def)
  then show ?thesis using mission_reachable.step[OF flight_reachable, of "Call_tick ?i safety_request_default"]
    by simp
qed

theorem rollback_isolates_epoch_witness:
  "mission_tick (tick_at 11000000 False False)
     \<lparr>sr_flight_epoch = 1, sr_deploy = True, sr_absolute_power_cutoff = True\<rparr>
     (snd (liftoffDetectionEmergencyStop rollback_machine)) fin_guard_init =
   mission_tick (tick_at 11000000 False False) safety_request_default
     (snd (liftoffDetectionEmergencyStop rollback_machine)) fin_guard_init"
proof -
  obtain res m' where e: "liftoffDetectionEmergencyStop rollback_machine = (res, m')" by fastforce
  have s: "sn_state rollback_machine = MS_engine_burn" by (simp add: rollback_machine_def)
  show ?thesis
    using rollback_isolates_epoch[OF rollback_reachable s e,
        of "\<lparr>sr_flight_epoch = 1, sr_deploy = True, sr_absolute_power_cutoff = True\<rparr>"
           "tick_at 11000000 False False" fin_guard_init] e
    by (simp add: rollback_machine_def flight_machine_def)
qed

section \<open>Attempts whose fin stays at brake\<close>

lemma masks_step:
  assumes "\<not> finFlightReadinessValid (sn_ready_mask m)" "\<not> is_start c" "\<not> is_restore c"
  shows "\<not> finFlightReadinessValid (sn_ready_mask (fst (mission_step c (m, g))))"
proof (cases c)
  case (Call_tick i r)
  then show ?thesis using assms(1) attempt_fields[OF tick_attempt[of i r m g]] by simp
qed (use assms in \<open>simp_all add: cancelSequence_def disableFinControl_def
    liftoffDetectionEmergencyStop_def invalidate_defs Let_def\<close>)

text \<open>A forced attempt without the fin readiness never drives the fin. If a start is accepted
  although the fin zero or the motor profile is missing (only a forced start can be), then
  over every later sequence of calls without a new start or a restore the fin directive stays
  at brake and the machine never reports Control.\<close>

theorem unready_attempt_brakes:
  assumes "mission_reachable (m, g)" "startSequence now p md m g = (TR_completed, m', g')"
    "\<not> (pr_fin_zero_configured p \<and> pr_motor_profile_valid p)"
    "list_all (\<lambda>c. \<not> is_start c \<and> \<not> is_restore c) cs"
  shows "md = SM_forced \<and> sn_fin (fst (mission_run cs (m', g'))) = FD_brake \<and>
    sn_state (fst (mission_run cs (m', g'))) \<noteq> MS_control"
proof -
  have cc: "list_all call_consistent cs"
    using assms(4) by (induction cs) (auto elim: is_restore.elims call_consistent.elims)
  have r: "mission_reachable (m', g')"
    using mission_reachable.step[OF assms(1), of "Call_start now p md"] assms(2) by simp
  have st: "sn_ready_mask m' = readyMask p \<and> (md = SM_normal \<longrightarrow> missingMask p = 0)"
    using assms(2) by (auto simp: startSequence_def invalidate_defs Let_def split: if_splits)
  have nv: "\<not> finFlightReadinessValid (sn_ready_mask m')" using st assms(3) by simp
  have "finFlightReadinessValid kPreflightReadinessMask"
    by (simp add: finFlightReadinessValid_def kPreflightReadinessMask_def readiness_bit_def)
  then have f: "md = SM_forced" using st nv by (cases md) auto
  have v: "\<not> finFlightReadinessValid (sn_ready_mask (fst (mission_run cs (m', g'))))"
  proof (rule mission_run_preserves[where C = "\<lambda>c. \<not> is_start c \<and> \<not> is_restore c" and
        P = "\<lambda>s :: mission_machine \<times> fin_guard. \<not> finFlightReadinessValid (sn_ready_mask (fst s))", OF _ r _ assms(4) cc])
    fix c and t :: "mission_machine \<times> fin_guard" assume "\<not> is_start c \<and> \<not> is_restore c"
      "\<not> finFlightReadinessValid (sn_ready_mask (fst t))"
    then show "\<not> finFlightReadinessValid (sn_ready_mask (fst (mission_step c t)))"
      using masks_step[of "fst t" c "snd t"] by simp
  qed (simp add: nv)
  have inv: "mission_inv (fst (mission_run cs (m', g')))"
    by (rule reachable_inv[OF mission_run_reachable[OF r cc]])
  show ?thesis using inv v f by (auto simp: mission_inv_def directive_inv_def core_inv_def)
qed

definition unready :: preflight_readiness where
  "unready = ready_all\<lparr>pr_motor_profile_valid := False\<rparr>"

theorem unready_attempt_brakes_witness:
  "sn_fin (fst (mission_run
     [Call_tick (tick_at 2000000 True False) safety_request_default,
      Call_tick (tick_at 9500000 False False) safety_request_default]
     (snd (startSequence 0 unready SM_forced machine_init fin_guard_init)))) = FD_brake"
proof -
  obtain m' g' where e: "startSequence 0 unready SM_forced machine_init fin_guard_init =
      (TR_completed, m', g')"
    by (simp add: eval_defs unready_def)
  show ?thesis unfolding e snd_conv
    by (rule unready_attempt_brakes[OF mission_reachable.init e, THEN conjunct2, THEN conjunct1])
      (simp_all add: unready_def)
qed

lemma reset_step:
  assumes "sn_reset_invalidated m" "\<not> is_start c"
  shows "sn_reset_invalidated (fst (mission_step c (m, g)))"
proof (cases c)
  case (Call_tick i r)
  then show ?thesis using assms(1) attempt_fields[OF tick_attempt[of i r m g]] by simp
qed (use assms in \<open>auto simp: cancelSequence_def disableFinControl_def restoreAfterReset_def
    liftoffDetectionEmergencyStop_def invalidate_defs Let_def snapshot_init_def
    mission_snapshot.extend_def mission_machine.fields_def split: if_splits\<close>)

text \<open>A reset ends fin control until the next start. After a restore that completed, over
  every sequence of calls without a new start (ticks, rollbacks, further restores of stored
  checkpoints), the fin directive is brake and the reset flag stays set.\<close>

theorem reset_flight_brakes:
  assumes "mission_reachable (m, g)" "restoreAfterReset now c m = (TR_completed, m')"
    "checkpoint_consistent c"
    "list_all (\<lambda>c. \<not> is_start c) cs" "list_all call_consistent cs"
  shows "sn_reset_invalidated (fst (mission_run cs (m', g))) \<and>
    sn_fin (fst (mission_run cs (m', g))) = FD_brake"
proof -
  have r: "mission_reachable (m', g)"
    using mission_reachable.step[OF assms(1), of "Call_restore now c"] assms(2,3) by simp
  have i: "sn_reset_invalidated m'"
    using assms(2) by (auto simp: restoreAfterReset_def invalidate_defs Let_def snapshot_init_def
        mission_snapshot.extend_def mission_machine.fields_def split: if_splits)
  have v: "sn_reset_invalidated (fst (mission_run cs (m', g)))"
  proof (rule mission_run_preserves[where C = "\<lambda>c. \<not> is_start c" and
        P = "\<lambda>s :: mission_machine \<times> fin_guard. sn_reset_invalidated (fst s)", OF _ r _ assms(4,5)])
    fix c and t :: "mission_machine \<times> fin_guard"
    assume "\<not> is_start c" "sn_reset_invalidated (fst t)"
    then show "sn_reset_invalidated (fst (mission_step c t))"
      using reset_step[of "fst t" c "snd t"] by simp
  qed (simp add: i)
  have "mission_inv (fst (mission_run cs (m', g)))"
    by (rule reachable_inv[OF mission_run_reachable[OF r assms(5)]])
  then show ?thesis using v by (auto simp: mission_inv_def directive_inv_def)
qed

text \<open>The checkpoint of an engine-burn state 3 s after liftoff.\<close>

definition burn_checkpoint :: reset_checkpoint where
  "burn_checkpoint = \<lparr>ck_valid = True, ck_state = MS_engine_burn, ck_flight_epoch = 1,
     ck_elapsed_valid = True, ck_elapsed_us = 3000000, ck_deployment_started = False,
     ck_power_cutoff_latched = False, ck_forced_start = False, ck_preflight_generation = 1,
     ck_preflight_captured_at_us = 5, ck_ready_mask = 31, ck_missing_mask = 0\<rparr>"

lemma burn_checkpoint_consistent: "checkpoint_consistent burn_checkpoint"
  by (simp add: burn_checkpoint_def checkpoint_consistent_def kPreflightReadinessMask_def)

definition rollback_after_reset :: "mission_call list" where
  "rollback_after_reset = [Call_emergency,
     Call_tick (tick_at 2000000 True False) safety_request_default,
     Call_tick (tick_at 9500000 False False) safety_request_default]"

theorem reset_flight_brakes_witness:
  "sn_fin (fst (mission_run rollback_after_reset
     (snd (restoreAfterReset 1000 burn_checkpoint machine_init), fin_guard_init))) = FD_brake"
proof -
  obtain m' where e: "restoreAfterReset 1000 burn_checkpoint machine_init = (TR_completed, m')"
    by (simp add: restoreAfterReset_def burn_checkpoint_def Let_def)
  show ?thesis unfolding e snd_conv
    by (rule reset_flight_brakes[OF mission_reachable.init e burn_checkpoint_consistent, THEN conjunct2])
      (simp_all add: rollback_after_reset_def)
qed

text \<open>A rollback undoes the re-entry inhibition of a reset. From the engine-burn state restored
  after a reset, the emergency stop followed by a new liftoff and the 8 s gate leads to the
  state Control although the reset flag is still set; the fin directive is brake, so the
  machine reports and stores Control without controlling.\<close>

theorem reset_rollback_reports_control:
  "sn_control_reentry_inhibited (snd (restoreAfterReset 1000 burn_checkpoint machine_init)) \<and>
   sn_state (fst (mission_run rollback_after_reset
     (snd (restoreAfterReset 1000 burn_checkpoint machine_init), fin_guard_init))) = MS_control \<and>
   sn_reset_invalidated (fst (mission_run rollback_after_reset
     (snd (restoreAfterReset 1000 burn_checkpoint machine_init), fin_guard_init))) \<and>
   sn_fin (fst (mission_run rollback_after_reset
     (snd (restoreAfterReset 1000 burn_checkpoint machine_init), fin_guard_init))) = FD_brake"
  by (simp add: eval_defs rollback_after_reset_def burn_checkpoint_def)

end
