(* ===== verification/Command_Executor.thy ===== *)
theory Command_Executor
  imports Can_Codec Fin_Overtravel
begin

text \<open>
  \<open>src/mission/command_executor.{hpp,cpp}\<close>: acceptance of generic commands, the cache of the
  last 16 transactions, completion and the actuator emergency. The record \<open>command_executor\<close>
  is the class; a command code is the raw byte, as after the \<open>static_cast\<close> of the code.
  Invariant: distinct non-zero transactions, one pending command per domain, hence always a
  slot for the next command. Properties: exactly-once execution of a transaction, the
  conditions under which a command executes, completion and emergency.
\<close>

section \<open>Types\<close>

datatype command_code =
    CC_start_sequence | CC_cancel_sequence | CC_disable_fin_control | CC_force_start_sequence
  | CC_fin_free | CC_fin_move_relative | CC_set_fin_zero | CC_start_fin_zero_hold
  | CC_para_free | CC_para_hold | CC_para_move_relative | CC_set_para_open | CC_set_para_close
  | CC_para_open | CC_para_close | CC_run_preflight_calibration | CC_export_flash_log
  | CC_enter_recovery | CC_actuator_emergency_result | CC_liftoff_emergency_result

text \<open>\<open>fin_free = fin_release_hold\<close> and \<open>fin_move_relative = fin_hold_current\<close>, as in the code.\<close>

fun command_code_code :: "command_code \<Rightarrow> u8" where
  "command_code_code CC_start_sequence = 0x01"
| "command_code_code CC_cancel_sequence = 0x02"
| "command_code_code CC_disable_fin_control = 0x03"
| "command_code_code CC_force_start_sequence = 0x04"
| "command_code_code CC_fin_free = 0x10"
| "command_code_code CC_fin_move_relative = 0x13"
| "command_code_code CC_set_fin_zero = 0x11"
| "command_code_code CC_start_fin_zero_hold = 0x12"
| "command_code_code CC_para_free = 0x20"
| "command_code_code CC_para_hold = 0x21"
| "command_code_code CC_para_move_relative = 0x22"
| "command_code_code CC_set_para_open = 0x23"
| "command_code_code CC_set_para_close = 0x24"
| "command_code_code CC_para_open = 0x25"
| "command_code_code CC_para_close = 0x26"
| "command_code_code CC_run_preflight_calibration = 0x30"
| "command_code_code CC_export_flash_log = 0x31"
| "command_code_code CC_enter_recovery = 0x33"
| "command_code_code CC_actuator_emergency_result = 0xF0"
| "command_code_code CC_liftoff_emergency_result = 0xF1"

abbreviation cc :: "command_code \<Rightarrow> u8" where
  "cc \<equiv> command_code_code"

datatype command_domain =
    CD_sequence | CD_fin | CD_parachute | CD_calibration | CD_storage | CD_recovery

record command_context =
  cx_state :: mission_state
  cx_resources_preallocated :: bool
  cx_fin_available :: bool
  cx_parachute_available :: bool
  cx_motor_test_busy :: bool
  cx_calibration_supported :: bool
  cx_storage_export_supported :: bool
  cx_deployment_power_cutoff_done :: bool
  cx_fin_safe_commands_supported :: bool

record command_decision =
  cd_result :: command_result
  cd_execute :: bool
  cd_replay :: bool
  cd_domain :: command_domain

record emergency_decision =
  ed_result :: command_result
  ed_interrupted :: "command_result list"
  ed_execute :: bool

record entry =
  en_valid :: bool
  en_pending :: bool
  en_age :: u32
  en_request :: generic_command_request
  en_result :: command_result
  en_domain :: command_domain

record command_executor =
  ce_entries :: "entry list"
  ce_age :: u32

definition kResultCacheSize :: nat where
  "kResultCacheSize = 16"

definition entry_init :: entry where
  "entry_init = \<lparr>en_valid = False, en_pending = False, en_age = 0,
     en_request = \<lparr>gcr_transaction_id = 0, gcr_command = 0, gcr_arguments = replicate 6 0\<rparr>,
     en_result = \<lparr>res_transaction_id = 0, res_command = 0, res_phase = CP_accepted,
       res_reason = CR_none, res_detail = 0\<rparr>, en_domain = CD_sequence\<rparr>"

definition executor_init :: command_executor where
  "executor_init = \<lparr>ce_entries = replicate kResultCacheSize entry_init, ce_age = 0\<rparr>"

section \<open>Classification of commands\<close>

definition sameRequest :: "generic_command_request \<Rightarrow> generic_command_request \<Rightarrow> bool" where
  "sameRequest l r = (gcr_transaction_id l = gcr_transaction_id r \<and>
     gcr_command l = gcr_command r \<and> gcr_arguments l = gcr_arguments r)"

definition allZero :: "generic_command_request \<Rightarrow> nat \<Rightarrow> bool" where
  "allZero r first = list_all (\<lambda>v. v = 0) (drop first (gcr_arguments r))"

definition commandKnown :: "u8 \<Rightarrow> bool" where
  "commandKnown raw =
     ((0x01 \<le> raw \<and> raw \<le> 0x04) \<or> raw = 0x10 \<or> raw = 0x11 \<or> raw = 0x13 \<or>
      (0x20 \<le> raw \<and> raw \<le> 0x26) \<or> (0x30 \<le> raw \<and> raw \<le> 0x31) \<or> raw = 0x33)"

definition unsupportedParachuteCommand :: "u8 \<Rightarrow> bool" where
  "unsupportedParachuteCommand raw = (cc CC_para_free \<le> raw \<and> raw \<le> cc CC_set_para_close)"

definition domainFor :: "u8 \<Rightarrow> command_domain" where
  "domainFor code =
     (if code \<in> {cc CC_start_sequence, cc CC_cancel_sequence, cc CC_disable_fin_control,
                 cc CC_force_start_sequence} then CD_sequence
      else if code \<in> {cc CC_fin_free, cc CC_set_fin_zero, cc CC_start_fin_zero_hold,
                      cc CC_fin_move_relative} then CD_fin
      else if code \<in> {cc CC_para_free, cc CC_para_hold, cc CC_para_move_relative,
                      cc CC_set_para_open, cc CC_set_para_close, cc CC_para_open,
                      cc CC_para_close} then CD_parachute
      else if code = cc CC_run_preflight_calibration then CD_calibration
      else if code = cc CC_export_flash_log then CD_storage
      else if code = cc CC_enter_recovery then CD_recovery
      else CD_sequence)"

definition argumentsValid :: "generic_command_request \<Rightarrow> u8 \<Rightarrow> bool" where
  "argumentsValid r code =
     (if code = cc CC_fin_move_relative then allZero r 0 else allZero r 0)"

definition stateValid :: "u8 \<Rightarrow> mission_state \<Rightarrow> bool" where
  "stateValid code s =
     (if code \<in> {cc CC_start_sequence, cc CC_force_start_sequence, cc CC_fin_free,
                 cc CC_set_fin_zero, cc CC_start_fin_zero_hold, cc CC_fin_move_relative,
                 cc CC_para_open, cc CC_para_close, cc CC_run_preflight_calibration,
                 cc CC_export_flash_log} then s = MS_command_receive
      else if code = cc CC_cancel_sequence then s = MS_liftoff_detection
      else if code = cc CC_disable_fin_control
      then s = MS_liftoff_detection \<or> s = MS_engine_burn \<or> s = MS_control
      else if code = cc CC_enter_recovery then s = MS_descent
      else False)"

definition isStart :: "u8 \<Rightarrow> bool" where
  "isStart code = (code = cc CC_start_sequence \<or> code = cc CC_force_start_sequence)"

definition blockedByFinOvertravel :: "u8 \<Rightarrow> bool" where
  "blockedByFinOvertravel code =
     (isStart code \<or> code = cc CC_start_fin_zero_hold \<or> code = cc CC_fin_move_relative)"

definition resultFor ::
    "generic_command_request \<Rightarrow> command_phase \<Rightarrow> command_reason \<Rightarrow> u32 \<Rightarrow> command_result" where
  "resultFor r ph rs d = \<lparr>res_transaction_id = gcr_transaction_id r,
     res_command = gcr_command r, res_phase = ph, res_reason = rs, res_detail = d\<rparr>"

section \<open>The cache\<close>

definition busy :: "command_domain \<Rightarrow> command_executor \<Rightarrow> bool" where
  "busy d ex = list_ex (\<lambda>e. en_valid e \<and> en_pending e \<and> en_domain e = d) (ce_entries ex)"

definition cachedCount :: "command_executor \<Rightarrow> nat" where
  "cachedCount ex = length (filter en_valid (ce_entries ex))"

definition find_transaction :: "u8 \<Rightarrow> command_executor \<Rightarrow> nat option" where
  "find_transaction tx ex =
     (let i = find_if (\<lambda>e. en_valid e \<and> gcr_transaction_id (en_request e) = tx) (ce_entries ex)
      in if i = length (ce_entries ex) then None else Some i)"

text \<open>The scan for the oldest entry that is not pending.\<close>

definition oldest_step :: "entry list \<Rightarrow> nat \<Rightarrow> nat option \<Rightarrow> nat option" where
  "oldest_step es i oldest =
     (if \<not> en_pending (es ! i) \<and>
         (case oldest of None \<Rightarrow> True | Some j \<Rightarrow> en_age (es ! i) < en_age (es ! j))
      then Some i else oldest)"

definition allocate :: "command_executor \<Rightarrow> nat option" where
  "allocate ex =
     (let es = ce_entries ex; unused = find_if (\<lambda>e. \<not> en_valid e) es
      in if unused \<noteq> length es then Some unused
         else fold (oldest_step es) [0..<length es] None)"

definition remember ::
    "generic_command_request \<Rightarrow> command_result \<Rightarrow> bool \<Rightarrow> command_domain \<Rightarrow> command_executor \<Rightarrow>
     command_executor" where
  "remember r res pending d ex =
     (case allocate ex of None \<Rightarrow> ex
      | Some i \<Rightarrow> let a = ce_age ex + 1 in
          ex\<lparr>ce_age := a, ce_entries := (ce_entries ex)[i :=
            \<lparr>en_valid = True, en_pending = pending, en_age = a, en_request = r,
             en_result = res, en_domain = d\<rparr>]\<rparr>)"

section \<open>Operations\<close>

definition rejection ::
    "generic_command_request \<Rightarrow> command_context \<Rightarrow> command_executor \<Rightarrow> fin_guard \<Rightarrow> command_reason" where
  "rejection r cx ex g =
     (let code = gcr_command r; domain = domainFor code in
      if \<not> commandKnown code then CR_not_supported
      else if unsupportedParachuteCommand code then CR_not_supported
      else if \<not> argumentsValid r code then CR_invalid_argument
      else if \<not> stateValid code (cx_state cx) then CR_invalid_state
      else if finOvertravelFaultLatched g \<and> blockedByFinOvertravel code then CR_safety_interlock
      else if code = cc CC_enter_recovery \<and> \<not> cx_deployment_power_cutoff_done cx
      then CR_safety_interlock
      else if isStart code \<and> (busy CD_parachute ex \<or> busy CD_fin ex \<or> busy CD_calibration ex \<or>
                               cx_motor_test_busy cx) then CR_busy
      else if isStart code \<and> \<not> cx_resources_preallocated cx then CR_internal_error
      else if domain = CD_parachute \<and> busy CD_sequence ex then CR_busy
      else if (domain = CD_fin \<and> \<not> cx_fin_available cx) \<or>
              (domain = CD_parachute \<and> \<not> cx_parachute_available cx) then CR_device_unavailable
      else if domain = CD_fin \<and> \<not> cx_fin_safe_commands_supported cx then CR_not_supported
      else if (domain = CD_calibration \<and> \<not> cx_calibration_supported cx) \<or>
              (domain = CD_storage \<and> \<not> cx_storage_export_supported cx) then CR_not_supported
      else if busy domain ex then CR_busy
      else if isStart code \<and> cachedCount ex \<noteq> 0 \<and> list_ex en_pending (ce_entries ex) then CR_busy
      else if domain = CD_calibration \<and>
              (busy CD_fin ex \<or> busy CD_parachute ex \<or> cx_motor_test_busy cx) then CR_busy
      else if (domain = CD_fin \<or> domain = CD_parachute) \<and> busy CD_calibration ex then CR_busy
      else CR_none)"

text \<open>\<open>CommandExecutor::begin\<close>: the decision, the executor and the overtravel guard after it.\<close>

definition executor_begin ::
    "generic_command_request \<Rightarrow> command_context \<Rightarrow> command_executor \<Rightarrow> fin_guard \<Rightarrow>
     command_decision \<times> command_executor \<times> fin_guard" where
  "executor_begin r cx ex g =
     (if gcr_transaction_id r = 0 then
        (\<lparr>cd_result = resultFor r CP_rejected CR_invalid_argument 0, cd_execute = False,
          cd_replay = False, cd_domain = CD_sequence\<rparr>, ex, g)
      else case find_transaction (gcr_transaction_id r) ex of
        Some i \<Rightarrow> let existing = ce_entries ex ! i in
          if sameRequest (en_request existing) r then
            (\<lparr>cd_result = en_result existing, cd_execute = False, cd_replay = True,
              cd_domain = en_domain existing\<rparr>, ex, g)
          else (\<lparr>cd_result = resultFor r CP_rejected CR_protocol_error 0, cd_execute = False,
                 cd_replay = False, cd_domain = en_domain existing\<rparr>, ex, g)
      | None \<Rightarrow> let
          domain = domainFor (gcr_command r);
          g = (if cx_state cx = MS_command_receive
               then snd (clearFinOvertravelIfRecoverable g) else g);
          rej = rejection r cx ex g
        in if rej \<noteq> CR_none then
             (let result = resultFor r CP_rejected rej 0 in
              (\<lparr>cd_result = result, cd_execute = False, cd_replay = False, cd_domain = domain\<rparr>,
               remember r result False domain ex, g))
           else
             (let result = resultFor r CP_accepted CR_none 0 in
              (\<lparr>cd_result = result, cd_execute = True, cd_replay = False, cd_domain = domain\<rparr>,
               remember r result True domain ex, g)))"

definition executor_finish ::
    "u8 \<Rightarrow> command_phase \<Rightarrow> command_reason \<Rightarrow> u32 \<Rightarrow> command_executor \<Rightarrow> fin_guard \<Rightarrow>
     command_result \<times> command_executor \<times> fin_guard" where
  "executor_finish tx ph rs detail ex g =
     (let refused = \<lparr>res_transaction_id = tx, res_command = 0, res_phase = CP_failed,
        res_reason = CR_internal_error, res_detail = detail\<rparr> in
      case find_transaction tx ex of None \<Rightarrow> (refused, ex, g)
      | Some i \<Rightarrow> let e = ce_entries ex ! i in
        if \<not> en_pending e \<or> (ph \<noteq> CP_completed \<and> ph \<noteq> CP_failed) then (refused, ex, g)
        else let
          a = ce_age ex + 1;
          e = e\<lparr>en_pending := False, en_age := a,
            en_result := (en_result e)\<lparr>res_phase := ph, res_reason := rs, res_detail := detail\<rparr>\<rparr>;
          g = (if ph = CP_completed \<and> rs = CR_none \<and>
                  gcr_command (en_request e) = cc CC_set_fin_zero
               then clearFinOvertravelFault g else g)
        in (en_result e, ex\<lparr>ce_age := a, ce_entries := (ce_entries ex)[i := e]\<rparr>, g))"

text \<open>The loop of the actuator emergency: the entries after it, the age counter and the results
  reported, at most two.\<close>

fun interrupt_entries :: "entry list \<Rightarrow> u32 \<Rightarrow> command_result list \<Rightarrow>
    entry list \<times> u32 \<times> command_result list" where
  "interrupt_entries [] a out = ([], a, out)"
| "interrupt_entries (e # es) a out =
     (if \<not> en_pending e \<or> (en_domain e \<noteq> CD_fin \<and> en_domain e \<noteq> CD_parachute) then
        (let (es', a', out') = interrupt_entries es a out in (e # es', a', out'))
      else let
        e' = e\<lparr>en_pending := False, en_age := a + 1,
          en_result := (en_result e)\<lparr>res_phase := CP_failed,
            res_reason := CR_interrupted_by_emergency\<rparr>\<rparr>;
        out1 = (if length out < 2 then out @ [en_result e'] else out);
        (es', a', out') = interrupt_entries es (a + 1) out1
      in (e' # es', a', out'))"

definition actuatorEmergency ::
    "u8 \<Rightarrow> mission_state \<Rightarrow> command_executor \<Rightarrow> emergency_decision \<times> command_executor" where
  "actuatorEmergency tx s ex =
     (let accepted = (tx \<noteq> 0 \<and> s = MS_command_receive);
          result = \<lparr>res_transaction_id = tx, res_command = cc CC_actuator_emergency_result,
            res_phase = (if accepted then CP_completed else CP_rejected),
            res_reason = (if accepted then CR_none
              else if tx = 0 then CR_invalid_argument else CR_invalid_state), res_detail = 0\<rparr>
      in if \<not> accepted then
           (\<lparr>ed_result = result, ed_interrupted = [], ed_execute = accepted\<rparr>, ex)
         else let (es, a, out) = interrupt_entries (ce_entries ex) (ce_age ex) []
           in (\<lparr>ed_result = result, ed_interrupted = out, ed_execute = accepted\<rparr>,
               ex\<lparr>ce_entries := es, ce_age := a\<rparr>))"

definition liftoffEmergencyResult :: "u8 \<Rightarrow> bool \<Rightarrow> command_result" where
  "liftoffEmergencyResult tx accepted =
     (let valid = (tx \<noteq> 0 \<and> accepted) in
      \<lparr>res_transaction_id = tx, res_command = cc CC_liftoff_emergency_result,
       res_phase = (if valid then CP_completed else CP_rejected),
       res_reason = (if valid then CR_none
         else if tx = 0 then CR_invalid_argument else CR_invalid_state), res_detail = 0\<rparr>)"

section \<open>The invariant\<close>

text \<open>The transaction of the entry at an index.\<close>

abbreviation entry_tx :: "entry \<Rightarrow> u8" where
  "entry_tx e \<equiv> gcr_transaction_id (en_request e)"

definition entry_ok :: "entry \<Rightarrow> bool" where
  "entry_ok e =
     ((en_pending e \<longrightarrow> en_valid e) \<and>
      (en_valid e \<longrightarrow> entry_tx e \<noteq> 0 \<and> res_transaction_id (en_result e) = entry_tx e \<and>
         res_command (en_result e) = gcr_command (en_request e) \<and>
         en_pending e = (res_phase (en_result e) = CP_accepted)))"

definition entries_apart :: "entry \<Rightarrow> entry \<Rightarrow> bool" where
  "entries_apart e f =
     ((en_valid e \<and> en_valid f \<longrightarrow> entry_tx e \<noteq> entry_tx f) \<and>
      (en_pending e \<and> en_pending f \<longrightarrow> en_domain e \<noteq> en_domain f))"

definition exec_inv :: "command_executor \<Rightarrow> bool" where
  "exec_inv ex =
     (length (ce_entries ex) = kResultCacheSize \<and>
      (\<forall>i < kResultCacheSize. entry_ok (ce_entries ex ! i)) \<and>
      (\<forall>i < kResultCacheSize. \<forall>j < kResultCacheSize. i \<noteq> j \<longrightarrow>
         entries_apart (ce_entries ex ! i) (ce_entries ex ! j)))"

lemma entries_apart_sym: "entries_apart e f \<Longrightarrow> entries_apart f e"
  by (auto simp: entries_apart_def)

text \<open>Writing one slot.\<close>

lemma exec_inv_write:
  assumes "exec_inv ex" "k < kResultCacheSize" "entry_ok e"
    "\<And>j. j < kResultCacheSize \<Longrightarrow> j \<noteq> k \<Longrightarrow> entries_apart e (ce_entries ex ! j)"
  shows "exec_inv (ex\<lparr>ce_age := a, ce_entries := (ce_entries ex)[k := e]\<rparr>)"
  using assms by (auto simp: exec_inv_def nth_list_update intro: entries_apart_sym)

lemma exec_inv_nth:
  "exec_inv ex \<Longrightarrow> i < kResultCacheSize \<Longrightarrow> entry_ok (ce_entries ex ! i)"
  "exec_inv ex \<Longrightarrow> i < kResultCacheSize \<Longrightarrow> j < kResultCacheSize \<Longrightarrow> i \<noteq> j \<Longrightarrow>
     entries_apart (ce_entries ex ! i) (ce_entries ex ! j)"
  "exec_inv ex \<Longrightarrow> length (ce_entries ex) = kResultCacheSize"
  by (auto simp: exec_inv_def)

lemma find_transaction_Some:
  assumes "find_transaction tx ex = Some i"
  shows "i < length (ce_entries ex)" "en_valid (ce_entries ex ! i)" "entry_tx (ce_entries ex ! i) = tx"
proof -
  let ?P = "\<lambda>e. en_valid e \<and> entry_tx e = tx"
  have "i = find_if ?P (ce_entries ex)" "i \<noteq> length (ce_entries ex)"
    using assms by (auto simp: find_transaction_def Let_def split: if_splits)
  then show "i < length (ce_entries ex)" "en_valid (ce_entries ex ! i)" "entry_tx (ce_entries ex ! i) = tx"
    using find_if_le[of ?P "ce_entries ex"] find_if_nth[of ?P "ce_entries ex"] by auto
qed

lemma find_transaction_None:
  assumes "find_transaction tx ex = None" "i < length (ce_entries ex)" "en_valid (ce_entries ex ! i)"
  shows "entry_tx (ce_entries ex ! i) \<noteq> tx"
proof -
  let ?P = "\<lambda>e. en_valid e \<and> entry_tx e = tx"
  have "find_if ?P (ce_entries ex) = length (ce_entries ex)"
    using assms(1) by (auto simp: find_transaction_def Let_def split: if_splits)
  then show ?thesis using find_if_less[of ?P "ce_entries ex"] assms(2,3) by (metis less_irrefl nth_mem)
qed

lemma find_transaction_eqI:
  assumes "exec_inv ex" "i < kResultCacheSize" "en_valid (ce_entries ex ! i)"
  shows "find_transaction (entry_tx (ce_entries ex ! i)) ex = Some i"
proof -
  let ?tx = "entry_tx (ce_entries ex ! i)"
  have "find_transaction ?tx ex \<noteq> None"
    using find_transaction_None[of ?tx ex i] assms by (auto simp: exec_inv_def)
  then obtain j where j: "find_transaction ?tx ex = Some j" by blast
  note f = find_transaction_Some[OF j]
  have "j = i"
    using exec_inv_nth(2)[OF assms(1), of j i] f assms by (auto simp: entries_apart_def exec_inv_nth(3))
  then show ?thesis using j by simp
qed

lemma busy_iff:
  "exec_inv ex \<Longrightarrow> busy d ex \<longleftrightarrow>
     (\<exists>i < kResultCacheSize. en_pending (ce_entries ex ! i) \<and> en_domain (ce_entries ex ! i) = d)"
  by (auto simp: busy_def list_ex_length exec_inv_def entry_ok_def)

section \<open>A slot is always free\<close>

lemma command_domain_UNIV:
  "(UNIV :: command_domain set) =
     {CD_sequence, CD_fin, CD_parachute, CD_calibration, CD_storage, CD_recovery}"
  using command_domain.exhaust by auto

lemma some_not_pending:
  assumes "exec_inv ex" shows "\<exists>i < kResultCacheSize. \<not> en_pending (ce_entries ex ! i)"
proof (rule ccontr)
  assume "\<not> ?thesis"
  then have p: "\<forall>i < kResultCacheSize. en_pending (ce_entries ex ! i)" by blast
  have "inj_on (\<lambda>i. en_domain (ce_entries ex ! i)) {..<kResultCacheSize}"
    using assms p by (auto simp: inj_on_def exec_inv_def entries_apart_def)
  moreover have "finite (UNIV :: command_domain set)" by (simp add: command_domain_UNIV)
  ultimately have "card {..<kResultCacheSize} \<le> card (UNIV :: command_domain set)"
    using card_inj_on_le[OF _ subset_UNIV] by blast
  then show False by (simp add: command_domain_UNIV kResultCacheSize_def)
qed

lemma oldest_scan:
  "(case fold (oldest_step es) [0..<n] None of
      None \<Rightarrow> \<forall>j < n. en_pending (es ! j)
    | Some k \<Rightarrow> k < n \<and> \<not> en_pending (es ! k) \<and>
        (\<forall>j < n. \<not> en_pending (es ! j) \<longrightarrow> en_age (es ! k) \<le> en_age (es ! j)))"
proof (induction n)
  case (Suc n)
  then show ?case
    by (auto simp: oldest_step_def less_Suc_eq split: option.splits)
qed simp

lemma allocate_Some:
  assumes "exec_inv ex"
  obtains k where "allocate ex = Some k" "k < kResultCacheSize" "\<not> en_pending (ce_entries ex ! k)"
    "en_valid (ce_entries ex ! k) \<Longrightarrow> (\<forall>j < kResultCacheSize. en_valid (ce_entries ex ! j) \<and>
       (\<not> en_pending (ce_entries ex ! j) \<longrightarrow> en_age (ce_entries ex ! k) \<le> en_age (ce_entries ex ! j)))"
proof -
  let ?es = "ce_entries ex"
  let ?u = "find_if (\<lambda>e. \<not> en_valid e) ?es"
  have len: "length ?es = kResultCacheSize" using assms by (rule exec_inv_nth(3))
  show thesis
  proof (cases "?u = length ?es")
    case False
    then have u: "?u < length ?es" using find_if_le[of "\<lambda>e. \<not> en_valid e" ?es] by simp
    then have "\<not> en_valid (?es ! ?u)" by (rule find_if_nth)
    moreover have "allocate ex = Some ?u" using False by (simp add: allocate_def Let_def)
    moreover have "entry_ok (?es ! ?u)" using assms u len by (simp add: exec_inv_def)
    ultimately show thesis using that[of ?u] u len by (auto simp: entry_ok_def)
  next
    case True
    then have v: "\<forall>j < kResultCacheSize. en_valid (?es ! j)"
      using find_if_less[of "\<lambda>e. \<not> en_valid e" ?es] len by (metis less_irrefl nth_mem)
    have a: "allocate ex = fold (oldest_step ?es) [0..<kResultCacheSize] None"
      using True len by (simp add: allocate_def Let_def)
    obtain k where k: "allocate ex = Some k" "k < kResultCacheSize" "\<not> en_pending (?es ! k)"
      "\<forall>j < kResultCacheSize. \<not> en_pending (?es ! j) \<longrightarrow> en_age (?es ! k) \<le> en_age (?es ! j)"
      using oldest_scan[where es = ?es and n = kResultCacheSize] some_not_pending[OF assms]
      unfolding a by (auto split: option.splits)
    then show thesis using that[of k] v by simp
  qed
qed

text \<open>What \<open>remember\<close> stores, and that it disturbs no pending entry.\<close>

lemma remember_stores:
  assumes "exec_inv ex" "find_transaction (gcr_transaction_id r) ex = None"
    "gcr_transaction_id r \<noteq> 0" "res_transaction_id res = gcr_transaction_id r"
    "res_command res = gcr_command r" "pending = (res_phase res = CP_accepted)"
    "pending \<Longrightarrow> \<not> busy d ex"
  obtains k where "k < kResultCacheSize" "\<not> en_pending (ce_entries ex ! k)"
    "exec_inv (remember r res pending d ex)"
    "ce_entries (remember r res pending d ex) = (ce_entries ex)[k :=
       \<lparr>en_valid = True, en_pending = pending, en_age = ce_age ex + 1, en_request = r,
        en_result = res, en_domain = d\<rparr>]"
proof -
  obtain k where k: "allocate ex = Some k" "k < kResultCacheSize" "\<not> en_pending (ce_entries ex ! k)"
    using allocate_Some[OF assms(1)] by blast
  let ?e = "\<lparr>en_valid = True, en_pending = pending, en_age = ce_age ex + 1, en_request = r,
        en_result = res, en_domain = d\<rparr>"
  have m: "remember r res pending d ex = ex\<lparr>ce_age := ce_age ex + 1, ce_entries := (ce_entries ex)[k := ?e]\<rparr>"
    by (simp add: remember_def k(1) Let_def)
  have "exec_inv (ex\<lparr>ce_age := ce_age ex + 1, ce_entries := (ce_entries ex)[k := ?e]\<rparr>)"
  proof (rule exec_inv_write[OF assms(1) k(2)])
    show "entry_ok ?e" using assms(3-6) by (simp add: entry_ok_def)
    show "entries_apart ?e (ce_entries ex ! j)" if "j < kResultCacheSize" "j \<noteq> k" for j
      using that find_transaction_None[OF assms(2), of j] assms(1,7)
      by (auto simp: entries_apart_def exec_inv_nth(3) busy_iff)
  qed
  then show thesis using that[OF k(2,3)] m by simp
qed

section \<open>Every operation preserves the invariant\<close>

lemma rejection_none:
  assumes "rejection r cx ex g = CR_none"
  shows "commandKnown (gcr_command r)" "\<not> unsupportedParachuteCommand (gcr_command r)"
    "allZero r 0" "stateValid (gcr_command r) (cx_state cx)"
    "\<not> (fg_fault_latched g \<and> blockedByFinOvertravel (gcr_command r))"
    "gcr_command r = cc CC_enter_recovery \<Longrightarrow> cx_deployment_power_cutoff_done cx"
    "isStart (gcr_command r) \<Longrightarrow> cx_resources_preallocated cx \<and> \<not> cx_motor_test_busy cx"
    "isStart (gcr_command r) \<Longrightarrow> cachedCount ex \<noteq> 0 \<Longrightarrow> \<not> list_ex en_pending (ce_entries ex)"
    "\<not> busy (domainFor (gcr_command r)) ex"
    "domainFor (gcr_command r) = CD_fin \<Longrightarrow>
       cx_fin_available cx \<and> cx_fin_safe_commands_supported cx \<and> \<not> busy CD_calibration ex"
    "domainFor (gcr_command r) = CD_parachute \<Longrightarrow>
       cx_parachute_available cx \<and> \<not> busy CD_sequence ex \<and> \<not> busy CD_calibration ex"
    "domainFor (gcr_command r) = CD_calibration \<Longrightarrow> cx_calibration_supported cx \<and>
       \<not> busy CD_fin ex \<and> \<not> busy CD_parachute ex \<and> \<not> cx_motor_test_busy cx"
  using assms unfolding rejection_def Let_def finOvertravelFaultLatched_def argumentsValid_def
  by (simp_all split: if_splits)

lemma begin_new:
  assumes "exec_inv ex" "gcr_transaction_id r \<noteq> 0" "find_transaction (gcr_transaction_id r) ex = None"
    "executor_begin r cx ex g = (d, ex', g')"
  obtains k where "k < kResultCacheSize" "\<not> en_pending (ce_entries ex ! k)" "exec_inv ex'"
    "ce_entries ex' = (ce_entries ex)[k := \<lparr>en_valid = True, en_pending = cd_execute d,
       en_age = ce_age ex + 1, en_request = r, en_result = cd_result d,
       en_domain = domainFor (gcr_command r)\<rparr>]"
    "cd_domain d = domainFor (gcr_command r)" "\<not> cd_replay d"
    "cd_execute d = (rejection r cx ex g' = CR_none)"
proof -
  let ?g = "if cx_state cx = MS_command_receive then snd (clearFinOvertravelIfRecoverable g) else g"
  let ?D = "domainFor (gcr_command r)" and ?rej = "rejection r cx ex ?g"
  let ?res = "if ?rej \<noteq> CR_none then resultFor r CP_rejected ?rej 0 else resultFor r CP_accepted CR_none 0"
  have b: "d = \<lparr>cd_result = ?res, cd_execute = (?rej = CR_none), cd_replay = False, cd_domain = ?D\<rparr>"
    "ex' = remember r ?res (?rej = CR_none) ?D ex" "g' = ?g"
    using assms(2-4) by (auto simp: executor_begin_def Let_def split: if_splits)
  have nb: "(?rej = CR_none) \<Longrightarrow> \<not> busy ?D ex" by (rule rejection_none(9))
  obtain k where "k < kResultCacheSize" "\<not> en_pending (ce_entries ex ! k)"
    "exec_inv (remember r ?res (?rej = CR_none) ?D ex)"
    "ce_entries (remember r ?res (?rej = CR_none) ?D ex) = (ce_entries ex)[k :=
       \<lparr>en_valid = True, en_pending = (?rej = CR_none), en_age = ce_age ex + 1, en_request = r,
        en_result = ?res, en_domain = ?D\<rparr>]"
    by (rule remember_stores[OF assms(1,3,2), of ?res "?rej = CR_none" ?D])
      (auto simp: resultFor_def nb)
  then show thesis using that[of k] b by simp
qed

lemma begin_old:
  assumes "gcr_transaction_id r = 0 \<or> find_transaction (gcr_transaction_id r) ex \<noteq> None"
    "executor_begin r cx ex g = (d, ex', g')"
  shows "ex' = ex" "g' = g" "\<not> cd_execute d"
  using assms by (auto simp: executor_begin_def Let_def split: if_splits)

lemma begin_inv: "exec_inv ex \<Longrightarrow> executor_begin r cx ex g = (d, ex', g') \<Longrightarrow> exec_inv ex'"
  using begin_old begin_new by metis

lemma finish_cases:
  assumes "exec_inv ex" "executor_finish tx ph rs dt ex g = (res, ex', g')"
  shows "(ex' = ex \<and> g' = g \<and> res_reason res = CR_internal_error \<and>
      \<not> (\<exists>i. find_transaction tx ex = Some i \<and> en_pending (ce_entries ex ! i) \<and>
            ph \<in> {CP_completed, CP_failed})) \<or>
    (\<exists>i. find_transaction tx ex = Some i \<and> en_pending (ce_entries ex ! i) \<and>
      ph \<in> {CP_completed, CP_failed} \<and> exec_inv ex' \<and>
      res = (en_result (ce_entries ex ! i))\<lparr>res_phase := ph, res_reason := rs, res_detail := dt\<rparr> \<and>
      ce_entries ex' = (ce_entries ex)[i := (ce_entries ex ! i)\<lparr>en_pending := False,
        en_age := ce_age ex + 1, en_result := res\<rparr>])"
proof (cases "\<exists>i. find_transaction tx ex = Some i \<and> en_pending (ce_entries ex ! i) \<and>
    ph \<in> {CP_completed, CP_failed}")
  case True
  then obtain i where i: "find_transaction tx ex = Some i" "en_pending (ce_entries ex ! i)"
    "ph \<in> {CP_completed, CP_failed}" by blast
  let ?e = "ce_entries ex ! i"
  let ?r = "(en_result ?e)\<lparr>res_phase := ph, res_reason := rs, res_detail := dt\<rparr>"
  let ?n = "?e\<lparr>en_pending := False, en_age := ce_age ex + 1, en_result := ?r\<rparr>"
  have k: "i < kResultCacheSize" using find_transaction_Some(1)[OF i(1)] assms(1) by (simp add: exec_inv_nth(3))
  have ok: "entry_ok ?e" using exec_inv_nth(1)[OF assms(1) k] .
  have "exec_inv (ex\<lparr>ce_age := ce_age ex + 1, ce_entries := (ce_entries ex)[i := ?n]\<rparr>)"
  proof (rule exec_inv_write[OF assms(1) k])
    show "entry_ok ?n" using ok i by (auto simp: entry_ok_def)
    show "entries_apart ?n (ce_entries ex ! j)" if "j < kResultCacheSize" "j \<noteq> i" for j
      using exec_inv_nth(2)[OF assms(1) k that(1)] that(2) by (auto simp: entries_apart_def)
  qed
  moreover have "ex' = ex\<lparr>ce_age := ce_age ex + 1, ce_entries := (ce_entries ex)[i := ?n]\<rparr>" "res = ?r"
    using assms(2) i by (auto simp: executor_finish_def Let_def split: if_splits)
  ultimately show ?thesis using i by auto
next
  case False
  then show ?thesis using assms(2)
    by (auto simp: executor_finish_def Let_def split: option.splits if_splits)
qed

lemma finish_inv: "exec_inv ex \<Longrightarrow> executor_finish tx ph rs dt ex g = (res, ex', g') \<Longrightarrow> exec_inv ex'"
  using finish_cases by blast

subsection \<open>The actuator emergency\<close>

definition interruptible :: "entry \<Rightarrow> bool" where
  "interruptible e = (en_pending e \<and> en_domain e \<in> {CD_fin, CD_parachute})"

definition interrupted_result :: "entry \<Rightarrow> command_result" where
  "interrupted_result e =
     (en_result e)\<lparr>res_phase := CP_failed, res_reason := CR_interrupted_by_emergency\<rparr>"

lemma interrupt_entries_Cons:
  "interruptible e \<Longrightarrow> interrupt_entries (e # es) a out =
     (let (es', a', out') = interrupt_entries es (a + 1)
        (if length out < 2 then out @ [interrupted_result e] else out)
      in (e\<lparr>en_pending := False, en_age := a + 1, en_result := interrupted_result e\<rparr> # es', a', out'))"
  "\<not> interruptible e \<Longrightarrow> interrupt_entries (e # es) a out =
     (let (es', a', out') = interrupt_entries es a out in (e # es', a', out'))"
  by (auto simp: interruptible_def interrupted_result_def Let_def)

lemma interrupt_entries_spec:
  assumes "interrupt_entries es a out = (es', a', out')" "length out \<le> 2"
  shows "length es' = length es \<and>
    (\<forall>i < length es. if interruptible (es ! i)
       then \<exists>b. es' ! i = (es ! i)\<lparr>en_pending := False, en_age := b,
              en_result := interrupted_result (es ! i)\<rparr>
       else es' ! i = es ! i) \<and>
    out' = take 2 (out @ map interrupted_result (filter interruptible es))"
  using assms
proof (induction es arbitrary: es' a a' out out')
  case (Cons e es)
  show ?case
  proof (cases "interruptible e")
    case False
    obtain es1 a1 out1 where r: "interrupt_entries es a out = (es1, a1, out1)"
      by (metis prod_cases3)
    have eq: "es' = e # es1" "out' = out1"
      using Cons.prems(1) r
      by (simp_all add: interrupt_entries_Cons(2)[OF False] del: interrupt_entries.simps)
    show ?thesis using Cons.IH[OF r Cons.prems(2)] eq False
      by (auto simp: nth_Cons split: nat.splits)
  next
    case True
    let ?o = "if length out < 2 then out @ [interrupted_result e] else out"
    obtain es1 a1 out1 where r: "interrupt_entries es (a + 1) ?o = (es1, a1, out1)"
      by (metis prod_cases3)
    have o: "length ?o \<le> 2" using Cons.prems(2) by simp
    have t: "take 2 (?o @ xs) = take 2 (out @ interrupted_result e # xs)" for xs
      using Cons.prems(2) by (cases "length out = 2") auto
    have eq: "es' = e\<lparr>en_pending := False, en_age := a + 1, en_result := interrupted_result e\<rparr> # es1"
      "out' = out1"
      using Cons.prems(1) r
      by (simp_all add: interrupt_entries_Cons(1)[OF True] del: interrupt_entries.simps)
    note ih = Cons.IH[OF r o]
    have "out' = take 2 (out @ map interrupted_result (filter interruptible (e # es)))"
      using ih eq(2) t True by simp
    then show ?thesis using ih eq(1) True by (auto simp: nth_Cons split: nat.splits)
  qed
qed simp

lemma interruptible_domains_distinct:
  "sorted_wrt entries_apart es \<Longrightarrow> distinct (map en_domain (filter interruptible es))"
  by (induction es) (auto simp: entries_apart_def interruptible_def)

lemma interruptible_at_most_two:
  assumes "exec_inv ex" shows "length (filter interruptible (ce_entries ex)) \<le> 2"
proof -
  have "sorted_wrt entries_apart (ce_entries ex)"
    using assms by (auto simp: sorted_wrt_iff_nth_less exec_inv_def)
  then have d: "distinct (map en_domain (filter interruptible (ce_entries ex)))"
    by (rule interruptible_domains_distinct)
  let ?ds = "map en_domain (filter interruptible (ce_entries ex))"
  have "set ?ds \<subseteq> {CD_fin, CD_parachute}" by (auto simp: interruptible_def)
  then have "card (set ?ds) \<le> card {CD_fin, CD_parachute}" by (intro card_mono) auto
  then show ?thesis using distinct_card[OF d] by simp
qed

lemma emergency_accepted:
  assumes "exec_inv ex" "tx \<noteq> 0" "actuatorEmergency tx MS_command_receive ex = (d, ex')"
  shows "ed_execute d \<and> exec_inv ex' \<and> \<not> busy CD_fin ex' \<and> \<not> busy CD_parachute ex' \<and>
    ed_interrupted d = map interrupted_result (filter interruptible (ce_entries ex)) \<and>
    (\<forall>i < kResultCacheSize. if interruptible (ce_entries ex ! i)
       then \<exists>b. ce_entries ex' ! i = (ce_entries ex ! i)\<lparr>en_pending := False, en_age := b,
              en_result := interrupted_result (ce_entries ex ! i)\<rparr>
       else ce_entries ex' ! i = ce_entries ex ! i)"
proof -
  let ?es = "ce_entries ex"
  obtain es a out where r: "interrupt_entries ?es (ce_age ex) [] = (es, a, out)" by (metis prod_cases3)
  have sp: "length es = length ?es \<and>
    (\<forall>i < length ?es. if interruptible (?es ! i)
       then \<exists>b. es ! i = (?es ! i)\<lparr>en_pending := False, en_age := b,
              en_result := interrupted_result (?es ! i)\<rparr>
       else es ! i = ?es ! i) \<and> out = take 2 (map interrupted_result (filter interruptible ?es))"
    using interrupt_entries_spec[OF r] by simp
  have d: "ed_execute d" "ed_interrupted d = out"
    and ex': "ex' = ex\<lparr>ce_entries := es, ce_age := a\<rparr>"
    using assms(2,3) r by (auto simp: actuatorEmergency_def Let_def)
  have out: "out = map interrupted_result (filter interruptible ?es)"
    using sp interruptible_at_most_two[OF assms(1)] by simp
  have len: "length ?es = kResultCacheSize" using assms(1) by (rule exec_inv_nth(3))
  have rel: "\<exists>b. es ! i = (?es ! i)\<lparr>en_pending := False, en_age := b,
        en_result := interrupted_result (?es ! i)\<rparr>"
    if "i < kResultCacheSize" "interruptible (?es ! i)" for i using sp that len by auto
  have same: "es ! i = ?es ! i" if "i < kResultCacheSize" "\<not> interruptible (?es ! i)" for i
    using sp that len by auto
  have np: "\<not> interruptible (es ! i)" if "i < kResultCacheSize" for i
    using rel[OF that] same[OF that] by (cases "interruptible (?es ! i)") (auto simp: interruptible_def)
  have ok: "entry_ok (es ! i)" if "i < kResultCacheSize" for i
    using rel[OF that] same[OF that] exec_inv_nth(1)[OF assms(1) that]
    by (cases "interruptible (?es ! i)") (auto simp: entry_ok_def interrupted_result_def)
  have proj: "en_valid (es ! i) = en_valid (?es ! i) \<and> entry_tx (es ! i) = entry_tx (?es ! i) \<and>
      en_domain (es ! i) = en_domain (?es ! i) \<and> (en_pending (es ! i) \<longrightarrow> en_pending (?es ! i))"
    if "i < kResultCacheSize" for i
    using rel[OF that] same[OF that] by (cases "interruptible (?es ! i)") auto
  have apart: "entries_apart (es ! i) (es ! j)"
    if "i < kResultCacheSize" "j < kResultCacheSize" "i \<noteq> j" for i j
    using exec_inv_nth(2)[OF assms(1) that] proj[OF that(1)] proj[OF that(2)]
    unfolding entries_apart_def by metis
  have inv: "exec_inv ex'" using ok apart sp len by (simp add: exec_inv_def ex')
  have "\<not> busy CD_fin ex'" "\<not> busy CD_parachute ex'"
    unfolding busy_iff[OF inv] using np by (auto simp: ex' interruptible_def)
  then show ?thesis using inv d out sp len by (simp add: ex')
qed

lemma emergency_refused:
  "\<not> (tx \<noteq> 0 \<and> s = MS_command_receive) \<Longrightarrow>
     snd (actuatorEmergency tx s ex) = ex \<and> \<not> ed_execute (fst (actuatorEmergency tx s ex))"
  by (auto simp: actuatorEmergency_def Let_def)

lemma exec_emergency_inv: "exec_inv ex \<Longrightarrow> exec_inv (snd (actuatorEmergency tx s ex))"
  using emergency_accepted[of ex tx "fst (actuatorEmergency tx s ex)" "snd (actuatorEmergency tx s ex)"]
    emergency_refused[of tx s ex] by (cases "tx \<noteq> 0 \<and> s = MS_command_receive") auto

section \<open>Histories\<close>

datatype exec_call =
    EC_begin generic_command_request command_context
  | EC_finish u8 command_phase command_reason u32
  | EC_emergency u8 mission_state
  | EC_observe dbl bool

fun exec_step :: "exec_call \<Rightarrow> command_executor \<times> fin_guard \<Rightarrow> command_executor \<times> fin_guard" where
  "exec_step (EC_begin r cx) (ex, g) = snd (executor_begin r cx ex g)"
| "exec_step (EC_finish tx ph rs dt) (ex, g) = snd (executor_finish tx ph rs dt ex g)"
| "exec_step (EC_emergency tx s) (ex, g) = (snd (actuatorEmergency tx s ex), g)"
| "exec_step (EC_observe a v) (ex, g) = (ex, observeFinOvertravel a v g)"

definition exec_run :: "exec_call list \<Rightarrow> command_executor \<times> fin_guard \<Rightarrow> command_executor \<times> fin_guard" where
  "exec_run cs s = fold exec_step cs s"

inductive exec_reachable :: "command_executor \<times> fin_guard \<Rightarrow> bool" where
  init: "exec_reachable (executor_init, fin_guard_init)"
| step: "exec_reachable s \<Longrightarrow> exec_reachable (exec_step c s)"

lemma exec_step_inv: assumes "exec_inv (fst s)" shows "exec_inv (fst (exec_step c s))"
proof -
  obtain ex g where s: "s = (ex, g)" by fastforce
  have e: "exec_inv ex" using assms s by simp
  show ?thesis
  proof (cases c)
    case (EC_begin r cx)
    obtain d ex' g' where "executor_begin r cx ex g = (d, ex', g')" by (metis prod_cases3)
    then show ?thesis using begin_inv[OF e] by (simp add: EC_begin s)
  next
    case (EC_finish tx ph rs dt)
    obtain d ex' g' where "executor_finish tx ph rs dt ex g = (d, ex', g')" by (metis prod_cases3)
    then show ?thesis using finish_inv[OF e] by (simp add: EC_finish s)
  qed (simp_all add: s e exec_emergency_inv)
qed

lemma exec_init_inv: "exec_inv executor_init"
  by (auto simp: exec_inv_def executor_init_def entry_init_def entry_ok_def entries_apart_def)

lemma exec_reachable_inv: "exec_reachable s \<Longrightarrow> exec_inv (fst s)"
  by (induction rule: exec_reachable.induct) (simp_all add: exec_init_inv exec_step_inv)

lemma exec_run_reachable: "exec_reachable s \<Longrightarrow> exec_reachable (exec_run cs s)"
  unfolding exec_run_def by (induction cs arbitrary: s) (simp_all add: exec_reachable.step)

end
