(* ===== verification/Command_Safety.thy ===== *)
theory Command_Safety
  imports Command_Executor
begin

text \<open>
  What the command executor promises to the ground station over every history of requests,
  completions, emergencies and fin samples: each transaction is cached and replayed, a pending
  one is executed once, a command executes only under its safety conditions, an emergency
  interrupts and reports every running actuator command, and a completion happens once.
\<close>

text \<open>What \<open>begin\<close> answers for a transaction that is in the cache.\<close>

lemma begin_cached:
  assumes "exec_inv ex" "i < kResultCacheSize" "en_valid (ce_entries ex ! i)"
    "gcr_transaction_id r = entry_tx (ce_entries ex ! i)"
  shows "executor_begin r cx ex g =
    (if sameRequest (en_request (ce_entries ex ! i)) r
     then \<lparr>cd_result = en_result (ce_entries ex ! i), cd_execute = False, cd_replay = True,
           cd_domain = en_domain (ce_entries ex ! i)\<rparr>
     else \<lparr>cd_result = resultFor r CP_rejected CR_protocol_error 0, cd_execute = False,
           cd_replay = False, cd_domain = en_domain (ce_entries ex ! i)\<rparr>, ex, g)"
  using assms exec_inv_nth(1)[OF assms(1,2)] find_transaction_eqI[OF assms(1-3)]
  by (simp add: executor_begin_def entry_ok_def Let_def)

text \<open>Requests used by the witnesses.\<close>

definition req :: "u8 \<Rightarrow> u8 \<Rightarrow> generic_command_request" where
  "req tx code = \<lparr>gcr_transaction_id = tx, gcr_command = code, gcr_arguments = replicate 6 0\<rparr>"

definition ground_context :: command_context where
  "ground_context = \<lparr>cx_state = MS_command_receive, cx_resources_preallocated = True,
     cx_fin_available = True, cx_parachute_available = True, cx_motor_test_busy = False,
     cx_calibration_supported = True, cx_storage_export_supported = True,
     cx_deployment_power_cutoff_done = False, cx_fin_safe_commands_supported = True\<rparr>"

lemma replicate_slots:
  "replicate 16 x = [x, x, x, x, x, x, x, x, x, x, x, x, x, x, x, x]"
  "replicate 6 y = [y, y, y, y, y, y]"
  by (simp_all add: numeral_eq_Suc)

lemmas exec_eval = replicate_slots executor_begin_def executor_init_def entry_init_def kResultCacheSize_def
  find_transaction_def rejection_def req_def ground_context_def commandKnown_def
  unsupportedParachuteCommand_def argumentsValid_def allZero_def stateValid_def domainFor_def
  isStart_def blockedByFinOvertravel_def busy_def cachedCount_def finOvertravelFaultLatched_def
  clearFinOvertravelIfRecoverable_def fin_guard_init_def remember_def allocate_def resultFor_def
  sameRequest_def executor_finish_def clearFinOvertravelFault_def Let_def

text \<open>C9: Transactions are idempotent. After a request with a fresh non-zero transaction has been
  decided - accepted or rejected - on any reachable executor, it is in the cache: repeating the
  same request replays the same result, never executes and changes nothing, in any context and
  guard, while another request under the same transaction is a protocol error that changes
  nothing either. The cache therefore always has a slot for the decision.\<close>

theorem transaction_idempotent:
  assumes "exec_reachable (ex, g)" "gcr_transaction_id r \<noteq> 0"
    "find_transaction (gcr_transaction_id r) ex = None"
    "executor_begin r cx ex g = (d, ex', g')" "gcr_transaction_id r2 = gcr_transaction_id r"
  shows "executor_begin r2 cx2 ex' g2 =
    (if sameRequest r r2
     then \<lparr>cd_result = cd_result d, cd_execute = False, cd_replay = True, cd_domain = cd_domain d\<rparr>
     else \<lparr>cd_result = resultFor r2 CP_rejected CR_protocol_error 0, cd_execute = False,
           cd_replay = False, cd_domain = cd_domain d\<rparr>, ex', g2)"
proof -
  have inv: "exec_inv ex" using exec_reachable_inv[OF assms(1)] by simp
  obtain k where k: "k < kResultCacheSize" "exec_inv ex'"
    "ce_entries ex' = (ce_entries ex)[k := \<lparr>en_valid = True, en_pending = cd_execute d,
       en_age = ce_age ex + 1, en_request = r, en_result = cd_result d,
       en_domain = domainFor (gcr_command r)\<rparr>]"
    "cd_domain d = domainFor (gcr_command r)"
    using begin_new[OF inv assms(2-4)] by metis
  have n: "ce_entries ex' ! k = \<lparr>en_valid = True, en_pending = cd_execute d,
       en_age = ce_age ex + 1, en_request = r, en_result = cd_result d,
       en_domain = domainFor (gcr_command r)\<rparr>"
    using k exec_inv_nth(3)[OF inv] by simp
  show ?thesis using begin_cached[OF k(2,1), of r2 cx2 g2] assms(5) k(4) by (simp add: n)
qed

theorem transaction_idempotent_witness:
  "cd_replay (fst (executor_begin (req 7 0x13) ground_context
     (fst (snd (executor_begin (req 7 0x13) ground_context executor_init fin_guard_init)))
     fin_guard_init))"
proof -
  obtain d ex' g' where e: "executor_begin (req 7 0x13) ground_context executor_init fin_guard_init =
      (d, ex', g')" by (metis prod_cases3)
  have f: "find_transaction (gcr_transaction_id (req 7 0x13)) executor_init = None"
    by (simp add: exec_eval)
  have n: "gcr_transaction_id (req 7 0x13) \<noteq> 0" by (simp add: req_def)
  show ?thesis unfolding e fst_conv snd_conv
    transaction_idempotent[OF exec_reachable.init n f e refl]
    by (simp add: sameRequest_def)
qed

section \<open>A pending transaction\<close>

text \<open>Calls that can end the transaction: its completion and an accepted emergency.\<close>

fun ends :: "u8 \<Rightarrow> exec_call \<Rightarrow> bool" where
  "ends tx (EC_finish t _ _ _) = (t = tx)"
| "ends tx (EC_emergency t s) = (t \<noteq> 0 \<and> s = MS_command_receive)"
| "ends tx _ = False"

lemma pending_kept:
  assumes "exec_inv (fst s)" "i < kResultCacheSize" "en_pending (ce_entries (fst s) ! i)"
    "\<not> ends (entry_tx (ce_entries (fst s) ! i)) c"
  shows "ce_entries (fst (exec_step c s)) ! i = ce_entries (fst s) ! i"
proof -
  obtain ex g where s: "s = (ex, g)" by fastforce
  have inv: "exec_inv ex" using assms(1) s by simp
  show ?thesis
  proof (cases c)
    case (EC_begin r cx)
    obtain d ex' g' where e: "executor_begin r cx ex g = (d, ex', g')" by (metis prod_cases3)
    show ?thesis
    proof (cases "gcr_transaction_id r = 0 \<or> find_transaction (gcr_transaction_id r) ex \<noteq> None")
      case True
      then show ?thesis using begin_old[OF True e] e by (simp add: EC_begin s)
    next
      case False
      then obtain k where "\<not> en_pending (ce_entries ex ! k)"
        "ce_entries ex' = (ce_entries ex)[k := \<lparr>en_valid = True, en_pending = cd_execute d,
           en_age = ce_age ex + 1, en_request = r, en_result = cd_result d,
           en_domain = domainFor (gcr_command r)\<rparr>]"
        using begin_new[OF inv _ _ e] by metis
      moreover from this have "i \<noteq> k" using assms(3) s by auto
      ultimately show ?thesis using e by (simp add: EC_begin s)
    qed
  next
    case (EC_finish tx ph rs dt)
    obtain d ex' g' where e: "executor_finish tx ph rs dt ex g = (d, ex', g')" by (metis prod_cases3)
    have ne: "find_transaction tx ex \<noteq> Some i"
      using assms(4) find_transaction_Some(3)[of tx ex i] by (auto simp: EC_finish s)
    show ?thesis using finish_cases[OF inv e] ne e by (auto simp: EC_finish s)
  next
    case (EC_emergency tx st)
    then show ?thesis using emergency_refused[of tx st ex] assms(4) by (simp add: s)
  qed (simp add: s)
qed

text \<open>C12: A pending transaction executes once. While a reachable executor has a pending entry, any
  sequence of calls other than its own completion and an accepted actuator emergency - any
  number of new transactions, completions of others, refused emergencies - leaves the entry in
  its slot (the least-recently-used replacement never evicts a pending one), and every
  retransmission of its request replays the Accepted result without executing it again.\<close>

theorem pending_executes_once:
  assumes "exec_reachable s" "find_transaction tx (fst s) = Some i"
    "en_pending (ce_entries (fst s) ! i)" "list_all (\<lambda>c. \<not> ends tx c) cs"
  shows "find_transaction tx (fst (exec_run cs s)) = Some i \<and>
    ce_entries (fst (exec_run cs s)) ! i = ce_entries (fst s) ! i \<and>
    executor_begin (en_request (ce_entries (fst s) ! i)) cx (fst (exec_run cs s)) g =
      (\<lparr>cd_result = en_result (ce_entries (fst s) ! i), cd_execute = False, cd_replay = True,
        cd_domain = en_domain (ce_entries (fst s) ! i)\<rparr>, fst (exec_run cs s), g) \<and>
    res_phase (en_result (ce_entries (fst s) ! i)) = CP_accepted"
proof -
  let ?e = "ce_entries (fst s) ! i"
  have inv: "exec_inv (fst s)" using exec_reachable_inv[OF assms(1)] .
  note f = find_transaction_Some[OF assms(2)]
  have i: "i < kResultCacheSize" using f(1) exec_inv_nth(3)[OF inv] by simp
  have kept: "ce_entries (fst (exec_run cs s)) ! i = ?e"
    using assms(4) inv assms(3) f(3)
  proof (induction cs arbitrary: s)
    case (Cons c cs)
    have k: "ce_entries (fst (exec_step c s)) ! i = ce_entries (fst s) ! i"
      using Cons.prems by (intro pending_kept[OF _ i]) auto
    have "ce_entries (fst (exec_run cs (exec_step c s))) ! i = ce_entries (fst (exec_step c s)) ! i"
      using Cons.prems k by (intro Cons.IH) (simp_all add: exec_step_inv)
    then show ?case using k by (simp add: exec_run_def)
  qed (simp add: exec_run_def)
  have inv': "exec_inv (fst (exec_run cs s))"
    using exec_reachable_inv[OF exec_run_reachable[OF assms(1)]] .
  have ok: "entry_ok ?e" using exec_inv_nth(1)[OF inv i] .
  have "find_transaction tx (fst (exec_run cs s)) = Some i"
    using find_transaction_eqI[OF inv' i] kept f by simp
  moreover have "executor_begin (en_request ?e) cx (fst (exec_run cs s)) g =
      (\<lparr>cd_result = en_result ?e, cd_execute = False, cd_replay = True,
        cd_domain = en_domain ?e\<rparr>, fst (exec_run cs s), g)"
    using begin_cached[OF inv' i, of "en_request ?e"] kept f by (simp add: sameRequest_def)
  ultimately show ?thesis using kept ok f assms(3) by (simp add: entry_ok_def)
qed

definition holding :: "command_executor \<times> fin_guard" where
  "holding = exec_step (EC_begin (req 7 0x13) ground_context) (executor_init, fin_guard_init)"

lemma holding_reachable: "exec_reachable holding"
  unfolding holding_def by (intro exec_reachable.step exec_reachable.init)

lemma holding_pending:
  "find_transaction 7 (fst holding) = Some 0 \<and> en_pending (ce_entries (fst holding) ! 0) \<and>
   en_request (ce_entries (fst holding) ! 0) = req 7 0x13 \<and>
   interruptible (ce_entries (fst holding) ! 0)"
  by (simp add: holding_def exec_eval interruptible_def)

theorem pending_executes_once_witness:
  "cd_replay (fst (executor_begin (req 7 0x13) ground_context
     (fst (exec_run [EC_begin (req 8 0x25) ground_context, EC_finish 8 CP_completed CR_none 0,
        EC_emergency 9 MS_descent] holding)) fin_guard_init))"
proof -
  have p: "find_transaction 7 (fst holding) = Some 0" "en_pending (ce_entries (fst holding) ! 0)"
    and r: "en_request (ce_entries (fst holding) ! 0) = req 7 0x13" using holding_pending by auto
  let ?cs = "[EC_begin (req 8 0x25) ground_context, EC_finish 8 CP_completed CR_none 0,
        EC_emergency 9 MS_descent]"
  have "list_all (\<lambda>c. \<not> ends 7 c) ?cs" by simp
  from pending_executes_once[OF holding_reachable p this, of ground_context fin_guard_init, unfolded r]
  show ?thesis by simp
qed

section \<open>Conditions of execution\<close>



section \<open>Emergency and completion\<close>

text \<open>An accepted actuator emergency interrupts everything that drives an actuator. It leaves no
  pending fin or parachute command, reports the Failed / InterruptedByEmergency result of every
  command it interrupted - there are at most two, so the two-element report of the code never
  truncates - keeps every other entry, and a retransmission of an interrupted request replays
  the Failed result.\<close>

theorem emergency_interrupts_all:
  assumes "exec_reachable (ex, g)" "tx \<noteq> 0"
    "actuatorEmergency tx MS_command_receive ex = (d, ex')"
  shows "ed_execute d \<and> \<not> busy CD_fin ex' \<and> \<not> busy CD_parachute ex' \<and>
    length (ed_interrupted d) \<le> 2 \<and>
    set (ed_interrupted d) = interrupted_result ` {e\<in>set (ce_entries ex). interruptible e} \<and>
    (\<forall>i < kResultCacheSize. if interruptible (ce_entries ex ! i)
       then fst (executor_begin (en_request (ce_entries ex ! i)) cx ex' g') =
         \<lparr>cd_result = interrupted_result (ce_entries ex ! i), cd_execute = False,
          cd_replay = True, cd_domain = en_domain (ce_entries ex ! i)\<rparr>
       else ce_entries ex' ! i = ce_entries ex ! i)"
proof -
  have inv: "exec_inv ex" using exec_reachable_inv[OF assms(1)] by simp
  note a = emergency_accepted[OF inv assms(2,3)]
  have inv': "exec_inv ex'" using a by blast
  have "fst (executor_begin (en_request (ce_entries ex ! i)) cx ex' g') =
      \<lparr>cd_result = interrupted_result (ce_entries ex ! i), cd_execute = False,
       cd_replay = True, cd_domain = en_domain (ce_entries ex ! i)\<rparr>"
    if i: "i < kResultCacheSize" "interruptible (ce_entries ex ! i)" for i
  proof -
    obtain b where b: "ce_entries ex' ! i = (ce_entries ex ! i)\<lparr>en_pending := False, en_age := b,
        en_result := interrupted_result (ce_entries ex ! i)\<rparr>"
      using a[THEN conjunct2, THEN conjunct2, THEN conjunct2, THEN conjunct2, THEN conjunct2,
          rule_format, OF i(1)] i(2) by auto
    have v: "en_valid (ce_entries ex' ! i)"
      using i(2) exec_inv_nth(1)[OF inv i(1)] b by (simp add: interruptible_def entry_ok_def)
    show ?thesis using begin_cached[OF inv' i(1) v, of "en_request (ce_entries ex ! i)" cx g'] b
      by (simp add: sameRequest_def)
  qed
  then show ?thesis using a interruptible_at_most_two[OF inv] by auto
qed

theorem emergency_interrupts_all_witness:
  "ed_execute (fst (actuatorEmergency 9 MS_command_receive (fst holding))) \<and>
   ed_interrupted (fst (actuatorEmergency 9 MS_command_receive (fst holding))) \<noteq> []"
proof -
  obtain ex g where h: "holding = (ex, g)" by fastforce
  have r: "exec_reachable (ex, g)" using holding_reachable unfolding h .
  have i: "interruptible (ce_entries ex ! 0)" using holding_pending unfolding h by simp
  have "0 < length (ce_entries ex)"
    using exec_inv_nth(3)[of ex] exec_reachable_inv[OF r] by (simp add: kResultCacheSize_def)
  then have "{e\<in>set (ce_entries ex). interruptible e} \<noteq> {}" using i nth_mem by blast
  moreover obtain d ex' where e: "actuatorEmergency 9 MS_command_receive ex = (d, ex')" by fastforce
  moreover have "(9 :: u8) \<noteq> 0" by simp
  ultimately show ?thesis using emergency_interrupts_all[OF r _ e] by (auto simp: h)
qed

text \<open>A completion happens once. Finishing a pending transaction of a reachable executor as
  completed or failed returns its recorded result with that phase, reason and detail, frees
  its domain, makes every retransmission replay exactly this result, and makes a second
  completion an internal error that changes nothing.\<close>

theorem completion_once:
  assumes "exec_reachable (ex, g)" "find_transaction tx ex = Some i"
    "en_pending (ce_entries ex ! i)" "ph \<in> {CP_completed, CP_failed}"
    "executor_finish tx ph rs dt ex g = (res, ex', g')"
  shows "res = \<lparr>res_transaction_id = tx, res_command = gcr_command (en_request (ce_entries ex ! i)),
      res_phase = ph, res_reason = rs, res_detail = dt\<rparr> \<and>
    \<not> busy (en_domain (ce_entries ex ! i)) ex' \<and>
    executor_begin (en_request (ce_entries ex ! i)) cx ex' g2 =
      (\<lparr>cd_result = res, cd_execute = False, cd_replay = True,
        cd_domain = en_domain (ce_entries ex ! i)\<rparr>, ex', g2) \<and>
    executor_finish tx ph2 rs2 dt2 ex' g2 =
      (\<lparr>res_transaction_id = tx, res_command = 0, res_phase = CP_failed,
        res_reason = CR_internal_error, res_detail = dt2\<rparr>, ex', g2)"
proof -
  let ?e = "ce_entries ex ! i"
  have inv: "exec_inv ex" using exec_reachable_inv[OF assms(1)] by simp
  note f = find_transaction_Some[OF assms(2)]
  have i: "i < kResultCacheSize" using f(1) exec_inv_nth(3)[OF inv] by simp
  have fc: "exec_inv ex'" "res = (en_result ?e)\<lparr>res_phase := ph, res_reason := rs, res_detail := dt\<rparr>"
    "ce_entries ex' = (ce_entries ex)[i := ?e\<lparr>en_pending := False,
       en_age := ce_age ex + 1, en_result := res\<rparr>]"
    using finish_cases[OF inv assms(5)] assms(2-4) by auto
  have n: "ce_entries ex' ! i = ?e\<lparr>en_pending := False, en_age := ce_age ex + 1, en_result := res\<rparr>"
    using fc(3) f(1) by simp
  have ok: "entry_ok ?e" using exec_inv_nth(1)[OF inv i] .
  have find: "find_transaction tx ex' = Some i"
    using find_transaction_eqI[OF fc(1) i] n f by simp
  have "\<not> busy (en_domain ?e) ex'"
  proof
    assume "busy (en_domain ?e) ex'"
    then obtain j where j: "j < kResultCacheSize" "en_pending (ce_entries ex' ! j)"
      "en_domain (ce_entries ex' ! j) = en_domain ?e" unfolding busy_iff[OF fc(1)] by blast
    then have "j \<noteq> i" using n by auto
    then show False using exec_inv_nth(2)[OF inv i j(1)] j fc(3) assms(3)
      by (auto simp: entries_apart_def)
  qed
  moreover have "executor_begin (en_request ?e) cx ex' g2 =
      (\<lparr>cd_result = res, cd_execute = False, cd_replay = True, cd_domain = en_domain ?e\<rparr>, ex', g2)"
    using begin_cached[OF fc(1) i, of "en_request ?e"] n f by (simp add: sameRequest_def)
  moreover have "executor_finish tx ph2 rs2 dt2 ex' g2 =
      (\<lparr>res_transaction_id = tx, res_command = 0, res_phase = CP_failed,
        res_reason = CR_internal_error, res_detail = dt2\<rparr>, ex', g2)"
    using find n by (simp add: executor_finish_def Let_def)
  ultimately show ?thesis using ok f fc(2) by (cases "en_result ?e") (auto simp: entry_ok_def)
qed

theorem completion_once_witness:
  "\<not> busy CD_fin (fst (snd (executor_finish 7 CP_completed CR_none 0 (fst holding) (snd holding))))"
proof -
  obtain ex g where h: "holding = (ex, g)" by fastforce
  have r: "exec_reachable (ex, g)" using holding_reachable unfolding h .
  have p: "find_transaction 7 ex = Some 0" "en_pending (ce_entries ex ! 0)"
    using holding_pending unfolding h by simp_all
  have d: "en_domain (ce_entries ex ! 0) = CD_fin"
  proof -
    have "en_domain (ce_entries (fst holding) ! 0) = CD_fin" by (simp add: holding_def exec_eval)
    then show ?thesis by (simp add: h)
  qed
  obtain res ex' g' where e: "executor_finish 7 CP_completed CR_none 0 ex g = (res, ex', g')"
    by (metis prod_cases3)
  have "CP_completed \<in> {CP_completed, CP_failed}" by simp
  from completion_once[OF r p this e] show ?thesis by (simp add: h e d)
qed

end
