(* ===== verification/Quantization.thy ===== *)
theory Quantization
  imports Can_Codec Double
begin

text \<open>
  \<open>src/protocol/quantization.{hpp,cpp}\<close>: the quantised telemetry values with their in-band
  error codes, over the doubles of \<open>Double\<close>. \<open>std::lround\<close> of a value that does not fit the
  32-bit \<open>long\<close> of the target has no specified result: \<open>lround\<close> and the encoders that call it
  before a range check take that result as the parameter \<open>ovf\<close>. A decoder returns the
  semantics, the value and the raw code.
\<close>

section \<open>Arithmetic the code uses\<close>

text \<open>Round half away from zero, and truncation.\<close>

definition round_away :: "real \<Rightarrow> int" where
  "round_away x = (if 0 \<le> x then \<lfloor>x + 1 / 2\<rfloor> else - \<lfloor>1 / 2 - x\<rfloor>)"

definition trunc :: "real \<Rightarrow> int" where
  "trunc x = (if 0 \<le> x then \<lfloor>x\<rfloor> else \<lceil>x\<rceil>)"

definition fits_long :: "int \<Rightarrow> bool" where
  "fits_long n = (- (2 ^ 31) \<le> n \<and> n < 2 ^ 31)"

fun lround :: "(dbl \<Rightarrow> int) \<Rightarrow> dbl \<Rightarrow> int" where
  "lround ovf (Fin x) = (if fits_long (round_away x) then round_away x else ovf (Fin x))"
| "lround ovf d = ovf d"

fun dfloor :: "dbl \<Rightarrow> dbl" where
  "dfloor (Fin x) = Fin (of_int \<lfloor>x\<rfloor>)"
| "dfloor d = d"

text \<open>\<open>std::fmod\<close>, exact, with the sign of the dividend.\<close>

fun dfmod :: "dbl \<Rightarrow> dbl \<Rightarrow> dbl" where
  "dfmod (Fin x) (Fin y) = (if y = 0 then NaN else Fin (x - y * of_int (trunc (x / y))))"
| "dfmod (Fin x) (Inf n) = Fin x"
| "dfmod d e = NaN"

text \<open>A cast of a double to an unsigned integer; the code casts values in the target's range.\<close>

fun dcast :: "dbl \<Rightarrow> 'a::len word" where
  "dcast (Fin x) = word_of_int (trunc x)"
| "dcast d = 0"

text \<open>A floating literal, and the conversion of an integer.\<close>

definition lit :: "real \<Rightarrow> dbl" where
  "lit x = rnd x"

definition dint :: "int \<Rightarrow> dbl" where
  "dint i = rnd (of_int i)"

section \<open>Error codes\<close>

datatype semantic = QS_numeric | QS_error | QS_reserved

record 'r decoded =
  dc_semantic :: semantic
  dc_value :: dbl
  dc_raw :: 'r

datatype roll_error =
    RE_unavailable | RE_not_initialized | RE_spi_timeout | RE_spi_error | RE_stale
    | RE_fifo_full | RE_fifo_lost_packet | RE_fifo_format_fault | RE_sample_invalid
    | RE_odr_changed | RE_out_of_range | RE_timestamp_invalid | RE_estimator_invalid
    | RE_reset_invalidated | RE_internal_error | RE_unknown

fun roll_error_code :: "roll_error \<Rightarrow> u16" where
  "roll_error_code RE_unavailable = 0x8000"
| "roll_error_code RE_not_initialized = 0x8001"
| "roll_error_code RE_spi_timeout = 0x8002"
| "roll_error_code RE_spi_error = 0x8003"
| "roll_error_code RE_stale = 0x8004"
| "roll_error_code RE_fifo_full = 0x8005"
| "roll_error_code RE_fifo_lost_packet = 0x8006"
| "roll_error_code RE_fifo_format_fault = 0x8007"
| "roll_error_code RE_sample_invalid = 0x8008"
| "roll_error_code RE_odr_changed = 0x8009"
| "roll_error_code RE_out_of_range = 0x800A"
| "roll_error_code RE_timestamp_invalid = 0x800B"
| "roll_error_code RE_estimator_invalid = 0x800C"
| "roll_error_code RE_reset_invalidated = 0x800D"
| "roll_error_code RE_internal_error = 0x800E"
| "roll_error_code RE_unknown = 0x800F"

datatype fin_rate_error =
    FRE_unavailable | FRE_source_angle_error | FRE_stale | FRE_not_enough_samples
    | FRE_unwrap_ambiguous | FRE_timestamp_invalid | FRE_estimator_not_ready
    | FRE_estimator_numeric_error | FRE_out_of_range | FRE_reset_invalidated

fun fin_rate_error_code :: "fin_rate_error \<Rightarrow> u16" where
  "fin_rate_error_code FRE_unavailable = 0x8000"
| "fin_rate_error_code FRE_source_angle_error = 0x8001"
| "fin_rate_error_code FRE_stale = 0x8002"
| "fin_rate_error_code FRE_not_enough_samples = 0x8003"
| "fin_rate_error_code FRE_unwrap_ambiguous = 0x8004"
| "fin_rate_error_code FRE_timestamp_invalid = 0x8005"
| "fin_rate_error_code FRE_estimator_not_ready = 0x8006"
| "fin_rate_error_code FRE_estimator_numeric_error = 0x8007"
| "fin_rate_error_code FRE_out_of_range = 0x8008"
| "fin_rate_error_code FRE_reset_invalidated = 0x8009"

datatype fin_angle_error =
    FAE_not_initialized | FAE_spi_timeout | FAE_spi_error | FAE_response_parity_error
    | FAE_sensor_parity_error | FAE_invalid_command | FAE_framing_error
    | FAE_pipeline_state_error | FAE_stale | FAE_unwrap_ambiguous | FAE_zero_not_configured
    | FAE_reset_invalidated | FAE_output_angle_invalid | FAE_out_of_mechanical_range
    | FAE_internal_or_unknown

fun fin_angle_error_code :: "fin_angle_error \<Rightarrow> u8" where
  "fin_angle_error_code FAE_not_initialized = 241"
| "fin_angle_error_code FAE_spi_timeout = 242"
| "fin_angle_error_code FAE_spi_error = 243"
| "fin_angle_error_code FAE_response_parity_error = 244"
| "fin_angle_error_code FAE_sensor_parity_error = 245"
| "fin_angle_error_code FAE_invalid_command = 246"
| "fin_angle_error_code FAE_framing_error = 247"
| "fin_angle_error_code FAE_pipeline_state_error = 248"
| "fin_angle_error_code FAE_stale = 249"
| "fin_angle_error_code FAE_unwrap_ambiguous = 250"
| "fin_angle_error_code FAE_zero_not_configured = 251"
| "fin_angle_error_code FAE_reset_invalidated = 252"
| "fin_angle_error_code FAE_output_angle_invalid = 253"
| "fin_angle_error_code FAE_out_of_mechanical_range = 254"
| "fin_angle_error_code FAE_internal_or_unknown = 255"

datatype torque_error =
    TQE_unavailable | TQE_controller_input_invalid | TQE_controller_numeric_error
    | TQE_reset_invalidated | TQE_limit_config_invalid | TQE_internal_error | TQE_unknown

fun torque_error_code :: "torque_error \<Rightarrow> u16" where
  "torque_error_code TQE_unavailable = 0x800"
| "torque_error_code TQE_controller_input_invalid = 0x801"
| "torque_error_code TQE_controller_numeric_error = 0x802"
| "torque_error_code TQE_reset_invalidated = 0x803"
| "torque_error_code TQE_limit_config_invalid = 0x804"
| "torque_error_code TQE_internal_error = 0x805"
| "torque_error_code TQE_unknown = 0x806"

datatype lps_pressure_error =
    LPE_not_initialized | LPE_i2c_timeout | LPE_i2c_bus_error | LPE_data_not_ready
    | LPE_who_am_i_mismatch | LPE_reset_timeout | LPE_pressure_overrun | LPE_stale
    | LPE_powered_off | LPE_below_range | LPE_above_range | LPE_configuration_error
    | LPE_invalid_sample | LPE_internal_error | LPE_unknown | LPE_unavailable

fun lps_pressure_error_code :: "lps_pressure_error \<Rightarrow> u16" where
  "lps_pressure_error_code LPE_not_initialized = 2032"
| "lps_pressure_error_code LPE_i2c_timeout = 2033"
| "lps_pressure_error_code LPE_i2c_bus_error = 2034"
| "lps_pressure_error_code LPE_data_not_ready = 2035"
| "lps_pressure_error_code LPE_who_am_i_mismatch = 2036"
| "lps_pressure_error_code LPE_reset_timeout = 2037"
| "lps_pressure_error_code LPE_pressure_overrun = 2038"
| "lps_pressure_error_code LPE_stale = 2039"
| "lps_pressure_error_code LPE_powered_off = 2040"
| "lps_pressure_error_code LPE_below_range = 2041"
| "lps_pressure_error_code LPE_above_range = 2042"
| "lps_pressure_error_code LPE_configuration_error = 2043"
| "lps_pressure_error_code LPE_invalid_sample = 2044"
| "lps_pressure_error_code LPE_internal_error = 2045"
| "lps_pressure_error_code LPE_unknown = 2046"
| "lps_pressure_error_code LPE_unavailable = 2047"

datatype lps_temperature_error =
    LTE_not_initialized | LTE_i2c_timeout | LTE_i2c_bus_error | LTE_data_not_ready
    | LTE_who_am_i_mismatch | LTE_reset_timeout | LTE_temperature_overrun | LTE_stale
    | LTE_powered_off | LTE_below_range | LTE_above_range | LTE_configuration_error
    | LTE_invalid_sample | LTE_internal_error | LTE_unknown | LTE_unavailable

fun lps_temperature_error_code :: "lps_temperature_error \<Rightarrow> u8" where
  "lps_temperature_error_code LTE_not_initialized = 240"
| "lps_temperature_error_code LTE_i2c_timeout = 241"
| "lps_temperature_error_code LTE_i2c_bus_error = 242"
| "lps_temperature_error_code LTE_data_not_ready = 243"
| "lps_temperature_error_code LTE_who_am_i_mismatch = 244"
| "lps_temperature_error_code LTE_reset_timeout = 245"
| "lps_temperature_error_code LTE_temperature_overrun = 246"
| "lps_temperature_error_code LTE_stale = 247"
| "lps_temperature_error_code LTE_powered_off = 248"
| "lps_temperature_error_code LTE_below_range = 249"
| "lps_temperature_error_code LTE_above_range = 250"
| "lps_temperature_error_code LTE_configuration_error = 251"
| "lps_temperature_error_code LTE_invalid_sample = 252"
| "lps_temperature_error_code LTE_internal_error = 253"
| "lps_temperature_error_code LTE_unknown = 254"
| "lps_temperature_error_code LTE_unavailable = 255"

datatype airspeed_error =
    ASE_negative_differential_pressure | ASE_above_range | ASE_static_pressure_invalid
    | ASE_ssc_not_initialized | ASE_ssc_i2c_timeout | ASE_ssc_i2c_error | ASE_ssc_stale
    | ASE_ssc_command_mode | ASE_ssc_diagnostic_fault | ASE_internal_invalid

fun airspeed_error_code :: "airspeed_error \<Rightarrow> u8" where
  "airspeed_error_code ASE_negative_differential_pressure = 246"
| "airspeed_error_code ASE_above_range = 247"
| "airspeed_error_code ASE_static_pressure_invalid = 248"
| "airspeed_error_code ASE_ssc_not_initialized = 249"
| "airspeed_error_code ASE_ssc_i2c_timeout = 250"
| "airspeed_error_code ASE_ssc_i2c_error = 251"
| "airspeed_error_code ASE_ssc_stale = 252"
| "airspeed_error_code ASE_ssc_command_mode = 253"
| "airspeed_error_code ASE_ssc_diagnostic_fault = 254"
| "airspeed_error_code ASE_internal_invalid = 255"

datatype time_error =
    TME_pre_liftoff | TME_unavailable | TME_recovery_in_progress | TME_rtc_recovery_failed
    | TME_checkpoint_missing | TME_checkpoint_invalid | TME_gnss_time_unavailable
    | TME_ground_time_unavailable | TME_absolute_time_unavailable | TME_time_inconsistent
    | TME_stale | TME_overflow | TME_persistence_error | TME_power_on_reset_unrecoverable
    | TME_internal_error | TME_unknown

fun time_error_code :: "time_error \<Rightarrow> u8" where
  "time_error_code TME_pre_liftoff = 0"
| "time_error_code TME_unavailable = 1"
| "time_error_code TME_recovery_in_progress = 2"
| "time_error_code TME_rtc_recovery_failed = 3"
| "time_error_code TME_checkpoint_missing = 4"
| "time_error_code TME_checkpoint_invalid = 5"
| "time_error_code TME_gnss_time_unavailable = 6"
| "time_error_code TME_ground_time_unavailable = 7"
| "time_error_code TME_absolute_time_unavailable = 8"
| "time_error_code TME_time_inconsistent = 9"
| "time_error_code TME_stale = 10"
| "time_error_code TME_overflow = 11"
| "time_error_code TME_persistence_error = 12"
| "time_error_code TME_power_on_reset_unrecoverable = 13"
| "time_error_code TME_internal_error = 14"
| "time_error_code TME_unknown = 15"

datatype gnss_error =
    GNE_unavailable | GNE_no_fix | GNE_stale | GNE_out_of_range | GNE_invalid_sample
    | GNE_receiver_error | GNE_reference_invalid | GNE_internal_error | GNE_unknown

fun gnss_error_code :: "gnss_error \<Rightarrow> u16" where
  "gnss_error_code GNE_unavailable = 0x8000"
| "gnss_error_code GNE_no_fix = 0x8001"
| "gnss_error_code GNE_stale = 0x8002"
| "gnss_error_code GNE_out_of_range = 0x8003"
| "gnss_error_code GNE_invalid_sample = 0x8004"
| "gnss_error_code GNE_receiver_error = 0x8005"
| "gnss_error_code GNE_reference_invalid = 0x8006"
| "gnss_error_code GNE_internal_error = 0x8007"
| "gnss_error_code GNE_unknown = 0x8008"

datatype gnss_height_error =
    GHE_unavailable | GHE_no_fix | GHE_stale | GHE_out_of_range | GHE_invalid_sample
    | GHE_receiver_error | GHE_internal_error | GHE_unknown

fun gnss_height_error_code :: "gnss_height_error \<Rightarrow> u16" where
  "gnss_height_error_code GHE_unavailable = 496"
| "gnss_height_error_code GHE_no_fix = 497"
| "gnss_height_error_code GHE_stale = 498"
| "gnss_height_error_code GHE_out_of_range = 499"
| "gnss_height_error_code GHE_invalid_sample = 500"
| "gnss_height_error_code GHE_receiver_error = 501"
| "gnss_height_error_code GHE_internal_error = 502"
| "gnss_height_error_code GHE_unknown = 503"

datatype parachute_angle_error =
    PAE_not_initialized | PAE_uart_timeout | PAE_uart_protocol_error
    | PAE_device_error_response | PAE_configuration_invalid | PAE_wrong_operating_mode
    | PAE_stale | PAE_position_out_of_range | PAE_powered_off | PAE_open_command_failed
    | PAE_retry_exhausted | PAE_position_invalid | PAE_internal_error | PAE_unknown
    | PAE_unavailable

fun parachute_angle_error_code :: "parachute_angle_error \<Rightarrow> u8" where
  "parachute_angle_error_code PAE_not_initialized = 241"
| "parachute_angle_error_code PAE_uart_timeout = 242"
| "parachute_angle_error_code PAE_uart_protocol_error = 243"
| "parachute_angle_error_code PAE_device_error_response = 244"
| "parachute_angle_error_code PAE_configuration_invalid = 245"
| "parachute_angle_error_code PAE_wrong_operating_mode = 246"
| "parachute_angle_error_code PAE_stale = 247"
| "parachute_angle_error_code PAE_position_out_of_range = 248"
| "parachute_angle_error_code PAE_powered_off = 249"
| "parachute_angle_error_code PAE_open_command_failed = 250"
| "parachute_angle_error_code PAE_retry_exhausted = 251"
| "parachute_angle_error_code PAE_position_invalid = 252"
| "parachute_angle_error_code PAE_internal_error = 253"
| "parachute_angle_error_code PAE_unknown = 254"
| "parachute_angle_error_code PAE_unavailable = 255"

datatype battery_error =
    BAE_stale | BAE_adc_error | BAE_unavailable

fun battery_error_code :: "battery_error \<Rightarrow> u8" where
  "battery_error_code BAE_stale = 253"
| "battery_error_code BAE_adc_error = 254"
| "battery_error_code BAE_unavailable = 255"

section \<open>Helpers\<close>

definition q_numeric :: "'r \<Rightarrow> dbl \<Rightarrow> 'r decoded" where
  "q_numeric raw v = \<lparr>dc_semantic = QS_numeric, dc_value = v, dc_raw = raw\<rparr>"

definition q_error :: "'r \<Rightarrow> 'r decoded" where
  "q_error raw = \<lparr>dc_semantic = QS_error, dc_value = Fin 0, dc_raw = raw\<rparr>"

definition q_reserved :: "'r \<Rightarrow> 'r decoded" where
  "q_reserved raw = \<lparr>dc_semantic = QS_reserved, dc_value = Fin 0, dc_raw = raw\<rparr>"

definition signedRaw :: "int \<Rightarrow> nat \<Rightarrow> u16" where
  "signedRaw v width = (let mask = push_bit width (1 :: u32) - 1
     in ucast ((word_of_int v :: u32) AND mask))"

definition signedValue :: "u16 \<Rightarrow> nat \<Rightarrow> int" where
  "signedValue raw width =
     (let sign = push_bit (width - 1) (1 :: u32); mask = push_bit width (1 :: u32) - 1;
          v = (ucast raw :: u32) AND mask
      in sint ((v XOR sign) - sign))"

section \<open>Encoders and decoders\<close>

definition encodeRoll :: "(dbl \<Rightarrow> int) \<Rightarrow> dbl \<Rightarrow> roll_error \<Rightarrow> u16" where
  "encodeRoll ovf degrees invalid =
     (if \<not> isfinite degrees then roll_error_code invalid
      else let count = lround ovf (ddiv degrees (lit 0.5)) in
        if count < -32752 \<or> 32767 < count then roll_error_code RE_out_of_range
        else signedRaw count 16)"

definition decodeRoll :: "u16 \<Rightarrow> u16 decoded" where
  "decodeRoll raw = (if 0x8000 \<le> raw \<and> raw \<le> 0x800F then q_error raw
     else q_numeric raw (dmul (dint (sint raw)) (lit 0.5)))"

definition encodeRollRate :: "(dbl \<Rightarrow> int) \<Rightarrow> dbl \<Rightarrow> roll_error \<Rightarrow> u16" where
  "encodeRollRate ovf value invalid =
     (if \<not> isfinite value then roll_error_code invalid
      else let count = lround ovf (ddiv value (lit 0.1)) in
        if count < -32752 \<or> 32767 < count then roll_error_code RE_out_of_range
        else signedRaw count 16)"

definition decodeRollRate :: "u16 \<Rightarrow> u16 decoded" where
  "decodeRollRate raw = (if 0x8000 \<le> raw \<and> raw \<le> 0x800F then q_error raw
     else q_numeric raw (dmul (dint (sint raw)) (lit 0.1)))"

definition encodeTiltMagnitude :: "(dbl \<Rightarrow> int) \<Rightarrow> dbl \<Rightarrow> u8 \<Rightarrow> u8" where
  "encodeTiltMagnitude ovf degrees error_raw =
     (if \<not> isfinite degrees \<or> dless degrees (lit 0) \<or> dless (lit 90) degrees then error_raw
      else word_of_int (lround ovf (ddiv degrees (lit 0.75))))"

definition decodeTiltMagnitude :: "u8 \<Rightarrow> u8 decoded" where
  "decodeTiltMagnitude raw =
     (if raw \<le> 120 then q_numeric raw (dmul (dint (uint raw)) (lit 0.75))
      else if raw \<le> 127 then q_error raw else q_reserved raw)"

definition encodeTiltDirection :: "(dbl \<Rightarrow> int) \<Rightarrow> dbl \<Rightarrow> u16" where
  "encodeTiltDirection ovf degrees =
     (if \<not> isfinite degrees then 511
      else let n = dfmod degrees (lit 360);
               n = (if dless n (lit 0) then dadd n (lit 360) else n)
        in word_of_int (lround ovf n) mod 360)"

definition decodeTiltDirection :: "u16 \<Rightarrow> u16 decoded" where
  "decodeTiltDirection raw =
     (if raw \<le> 359 then q_numeric raw (dint (uint raw)) else q_reserved raw)"

definition encodeFinAngle :: "(dbl \<Rightarrow> int) \<Rightarrow> dbl \<Rightarrow> fin_angle_error \<Rightarrow> u8" where
  "encodeFinAngle ovf degrees invalid =
     (if \<not> isfinite degrees \<or> dless degrees (lit (-15)) \<or> dless (lit 15) degrees
      then fin_angle_error_code invalid
      else word_of_int (lround ovf (ddiv (dadd degrees (lit 15)) (lit 0.125))))"

definition decodeFinAngle :: "u8 \<Rightarrow> u8 decoded" where
  "decodeFinAngle raw =
     (if raw \<le> 240 then q_numeric raw (dadd (lit (-15)) (dmul (dint (uint raw)) (lit 0.125)))
      else q_error raw)"

definition encodeFinRate :: "(dbl \<Rightarrow> int) \<Rightarrow> dbl \<Rightarrow> fin_rate_error \<Rightarrow> u16" where
  "encodeFinRate ovf value invalid =
     (if \<not> isfinite value then fin_rate_error_code invalid
      else let count = lround ovf (ddiv value (lit 0.02)) in
        if count < -32752 \<or> 32767 < count then fin_rate_error_code FRE_out_of_range
        else signedRaw count 16)"

definition decodeFinRate :: "u16 \<Rightarrow> u16 decoded" where
  "decodeFinRate raw =
     (if 0x8000 \<le> raw \<and> raw \<le> 0x8009 then q_error raw
      else if 0x800A \<le> raw \<and> raw \<le> 0x800F then q_reserved raw
      else q_numeric raw (dmul (dint (sint raw)) (lit 0.02)))"

definition encodeRequestedTorque :: "(dbl \<Rightarrow> int) \<Rightarrow> dbl \<Rightarrow> torque_error \<Rightarrow> u16" where
  "encodeRequestedTorque ovf value invalid =
     (if \<not> isfinite value then torque_error_code invalid
      else let count = lround ovf (ddiv value (lit 0.002)) in
        if count < -2032 \<or> 2047 < count then torque_error_code TQE_limit_config_invalid
        else signedRaw count 12)"

definition decodeRequestedTorque :: "u16 \<Rightarrow> u16 decoded" where
  "decodeRequestedTorque raw0 =
     (if 0x0FFF < raw0 then q_reserved raw0
      else let raw = raw0 AND 0x0FFF in
        if 0x800 \<le> raw \<and> raw \<le> 0x806 then q_error raw
        else if 0x807 \<le> raw \<and> raw \<le> 0x80F then q_reserved raw
        else q_numeric raw (dmul (dint (signedValue raw 12)) (lit 0.002)))"

definition encodeLpsPressure :: "(dbl \<Rightarrow> int) \<Rightarrow> dbl \<Rightarrow> lps_pressure_error \<Rightarrow> u16" where
  "encodeLpsPressure ovf value invalid =
     (if \<not> isfinite value then lps_pressure_error_code invalid
      else if dless value (lit 800) then lps_pressure_error_code LPE_below_range
      else if dless (lit 1206.2) value then lps_pressure_error_code LPE_above_range
      else word_of_int (lround ovf (ddiv (dsub value (lit 800)) (lit 0.2))))"

definition decodeLpsPressure :: "u16 \<Rightarrow> u16 decoded" where
  "decodeLpsPressure raw =
     (if raw \<le> 2031 then q_numeric raw (dadd (lit 800) (dmul (dint (uint raw)) (lit 0.2)))
      else if raw \<le> 2047 then q_error raw else q_reserved raw)"

definition encodeLpsTemperature :: "(dbl \<Rightarrow> int) \<Rightarrow> dbl \<Rightarrow> lps_temperature_error \<Rightarrow> u8" where
  "encodeLpsTemperature ovf value invalid =
     (if \<not> isfinite value then lps_temperature_error_code invalid
      else if dless value (lit (-50)) then lps_temperature_error_code LTE_below_range
      else if dless (lit 150) value then lps_temperature_error_code LTE_above_range
      else word_of_int (lround ovf (dadd value (lit 50))))"

definition decodeLpsTemperature :: "u8 \<Rightarrow> u8 decoded" where
  "decodeLpsTemperature raw =
     (if raw \<le> 200 then q_numeric raw (dadd (lit (-50)) (dint (uint raw)))
      else if raw \<le> 239 then q_reserved raw else q_error raw)"

definition encodeAirspeed :: "(dbl \<Rightarrow> int) \<Rightarrow> dbl \<Rightarrow> airspeed_error \<Rightarrow> u8" where
  "encodeAirspeed ovf value invalid =
     (if \<not> isfinite value then airspeed_error_code invalid
      else if dless value (lit 0) then airspeed_error_code ASE_negative_differential_pressure
      else if dless (lit 245) value then airspeed_error_code ASE_above_range
      else word_of_int (lround ovf value))"

definition decodeAirspeed :: "u8 \<Rightarrow> u8 decoded" where
  "decodeAirspeed raw = (if raw \<le> 245 then q_numeric raw (dint (uint raw)) else q_error raw)"

definition encodeFlightElapsed :: "dbl \<Rightarrow> time_error \<Rightarrow> u8" where
  "encodeFlightElapsed seconds invalid =
     (if \<not> isfinite seconds \<or> dless seconds (lit 0) then 0xF0 OR time_error_code invalid
      else if dle (lit 24) seconds then 0xFB
      else dcast (dfloor (dmul seconds (lit 10))))"

definition decodeFlightElapsed :: "u8 \<Rightarrow> u8 decoded" where
  "decodeFlightElapsed raw =
     (if raw \<le> 0xEF then q_numeric raw (dmul (dint (uint raw)) (lit 0.1)) else q_error raw)"

definition encodeDescentElapsed :: "dbl \<Rightarrow> time_error \<Rightarrow> u16" where
  "encodeDescentElapsed seconds invalid =
     (if \<not> isfinite seconds \<or> dless seconds (lit 0) then 0xFFF0 OR ucast (time_error_code invalid)
      else if dle (lit 6552) seconds then 0xFFFB
      else dcast (dfloor (dmul seconds (lit 10))))"

definition decodeDescentElapsed :: "u16 \<Rightarrow> u16 decoded" where
  "decodeDescentElapsed raw =
     (if raw \<le> 0xFFEF then q_numeric raw (dmul (dint (uint raw)) (lit 0.1)) else q_error raw)"

definition encodeRecoveryElapsed :: "dbl \<Rightarrow> time_error \<Rightarrow> u16" where
  "encodeRecoveryElapsed seconds invalid =
     (if \<not> isfinite seconds \<or> dless seconds (lit 0) then 0xFFF0 OR ucast (time_error_code invalid)
      else let count = dfloor (ddiv seconds (lit 10)) in
        if dless (dint 0xFFEF) count then 0xFFFB else dcast count)"

definition decodeRecoveryElapsed :: "u16 \<Rightarrow> u16 decoded" where
  "decodeRecoveryElapsed raw =
     (if raw \<le> 0xFFEF then q_numeric raw (dmul (dint (uint raw)) (lit 10)) else q_error raw)"

definition encodeGnssOffset :: "(dbl \<Rightarrow> int) \<Rightarrow> dbl \<Rightarrow> gnss_error \<Rightarrow> u16" where
  "encodeGnssOffset ovf metres invalid =
     (if \<not> isfinite metres then gnss_error_code invalid
      else let count = lround ovf metres in
        if count < -32752 \<or> 32767 < count then gnss_error_code GNE_out_of_range
        else signedRaw count 16)"

definition decodeGnssOffset :: "u16 \<Rightarrow> u16 decoded" where
  "decodeGnssOffset raw =
     (if 0x8000 \<le> raw \<and> raw \<le> 0x8008 then q_error raw
      else if 0x8009 \<le> raw \<and> raw \<le> 0x800F then q_reserved raw
      else q_numeric raw (dint (sint raw)))"

definition encodeGnssHeight :: "(dbl \<Rightarrow> int) \<Rightarrow> dbl \<Rightarrow> gnss_height_error \<Rightarrow> u16" where
  "encodeGnssHeight ovf metres invalid =
     (if \<not> isfinite metres then gnss_height_error_code invalid
      else if dless metres (lit (-100)) \<or> dless (lit 2375) metres
      then gnss_height_error_code GHE_out_of_range
      else word_of_int (lround ovf (ddiv (dadd metres (lit 100)) (lit 5))))"

definition decodeGnssHeight :: "u16 \<Rightarrow> u16 decoded" where
  "decodeGnssHeight raw0 =
     (if 0x01FF < raw0 then q_reserved raw0
      else let raw = raw0 AND 0x01FF in
        if raw \<le> 495 then q_numeric raw (dadd (lit (-100)) (dmul (dint (uint raw)) (lit 5)))
        else if raw \<le> 503 then q_error raw else q_reserved raw)"

definition encodeParachuteAngle :: "(dbl \<Rightarrow> int) \<Rightarrow> dbl \<Rightarrow> parachute_angle_error \<Rightarrow> u8" where
  "encodeParachuteAngle ovf degrees invalid =
     (if \<not> isfinite degrees \<or> dless degrees (lit 0) \<or> dless (lit 360) degrees
      then parachute_angle_error_code invalid
      else word_of_int (lround ovf (ddiv degrees (lit 1.5))))"

definition decodeParachuteAngle :: "u8 \<Rightarrow> u8 decoded" where
  "decodeParachuteAngle raw =
     (if raw \<le> 240 then q_numeric raw (dmul (dint (uint raw)) (lit 1.5)) else q_error raw)"

definition encodeBatteryVoltage :: "(dbl \<Rightarrow> int) \<Rightarrow> dbl \<Rightarrow> battery_error \<Rightarrow> u8" where
  "encodeBatteryVoltage ovf volts invalid =
     (if \<not> isfinite volts then battery_error_code invalid
      else if dless volts (lit 0) \<or> dless (lit 12) volts then battery_error_code BAE_adc_error
      else word_of_int (lround ovf (ddiv volts (lit 0.05))))"

definition decodeBatteryVoltage :: "u8 \<Rightarrow> u8 decoded" where
  "decodeBatteryVoltage raw =
     (if raw \<le> 240 then q_numeric raw (dmul (dint (uint raw)) (lit 0.05))
      else if raw \<le> 252 then q_reserved raw else q_error raw)"

section \<open>Rounding facts\<close>

lemma abs_of_int_le: "\<bar>i\<bar> \<le> b \<Longrightarrow> \<bar>of_int i :: real\<bar> \<le> of_int b"
  by (simp only: of_int_abs[symmetric] of_int_le_iff)

lemma near_abs: "\<bar>p - q\<bar> \<le> e \<Longrightarrow> \<bar>q\<bar> \<le> b \<Longrightarrow> \<bar>p\<bar> \<le> b + (e :: real)"
  by linarith

lemma near_trans: "\<bar>v - (a + p)\<bar> \<le> e \<Longrightarrow> \<bar>p - q\<bar> \<le> f \<Longrightarrow> \<bar>v - (a + q)\<bar> \<le> e + (f :: real)"
  by linarith

lemma near_chain: "\<bar>q - n\<bar> \<le> e \<Longrightarrow> \<bar>r - q\<bar> \<le> f \<Longrightarrow> \<bar>r - n\<bar> \<le> e + (f :: real)"
  by linarith

lemma near_shift: "\<bar>q - (v - a)\<bar> \<le> e \<Longrightarrow> \<bar>v - (a + r)\<bar> \<le> f \<Longrightarrow> \<bar>q - r\<bar> \<le> e + (f :: real)"
  by linarith

lemma round_away_near: assumes "\<bar>x - of_int n\<bar> < 1 / 2" shows "round_away x = n"
proof -
  have b: "of_int n - 1 / 2 < x" "x < of_int n + 1 / 2" using assms unfolding abs_less_iff by linarith+
  show ?thesis
  proof (cases "0 \<le> x")
    case True
    have "\<lfloor>x + 1 / 2\<rfloor> = n" by (rule floor_unique) (use b in linarith)+
    then show ?thesis using True by (simp add: round_away_def)
  next
    case False
    have "\<lfloor>1 / 2 - x\<rfloor> = - n" by (rule floor_unique) (use b in simp_all)
    then show ?thesis using False by (simp add: round_away_def)
  qed
qed

lemma round_away_bounds:
  "of_int a - 1 / 2 < x \<Longrightarrow> a \<le> round_away x"
  "x < of_int b + 1 / 2 \<Longrightarrow> round_away x \<le> b"
  by (auto simp: round_away_def le_floor_iff floor_le_iff; linarith)+

lemma lit_int: "\<bar>i\<bar> \<le> 2 ^ 53 \<Longrightarrow> lit (of_int i) = Fin (of_int i)"
  unfolding lit_def by (rule rnd_int)

lemma lit_numerals [simp]:
  "lit 0 = Fin 0" "lit 5 = Fin 5" "lit 10 = Fin 10" "lit 12 = Fin 12" "lit 15 = Fin 15"
  "lit 24 = Fin 24" "lit 50 = Fin 50" "lit 90 = Fin 90" "lit 100 = Fin 100" "lit 150 = Fin 150"
  "lit 245 = Fin 245" "lit 360 = Fin 360" "lit 800 = Fin 800" "lit 2375 = Fin 2375"
  "lit 6552 = Fin 6552" "lit (-15) = Fin (-15)" "lit (-50) = Fin (-50)" "lit (-100) = Fin (-100)"
  using lit_int[of 0] lit_int[of 5] lit_int[of 10] lit_int[of 12] lit_int[of 15] lit_int[of 24]
    lit_int[of 50] lit_int[of 90] lit_int[of 100] lit_int[of 150] lit_int[of 245] lit_int[of 360]
    lit_int[of 800] lit_int[of 2375] lit_int[of 6552] lit_int[of "-15"] lit_int[of "-50"]
    lit_int[of "-100"] by simp_all

lemma dint_Fin: "\<bar>i\<bar> \<le> 2 ^ 53 \<Longrightarrow> dint i = Fin (of_int i)"
  unfolding dint_def by (rule rnd_int)

text \<open>A literal between two powers of two.\<close>

lemma lit_close:
  assumes "0 < s" "s \<le> 2 ^ 10"
  shows "lit s = Fin (rnd_real s)" "\<bar>rnd_real s - s\<bar> \<le> 1 / 2 ^ 43"
proof -
  show "lit s = Fin (rnd_real s)" unfolding lit_def using assms by (intro rnd_finite) simp
  show "\<bar>rnd_real s - s\<bar> \<le> 1 / 2 ^ 43" using rnd_abs_error[of s 10] assms by simp
qed

section \<open>Round trip of one scaled value\<close>

text \<open>The scales of the code lie between 0.002 and 8.\<close>

definition scale_ok :: "real \<Rightarrow> bool" where
  "scale_ok s = (1 / 600 \<le> s \<and> s \<le> 8)"

lemma scale_rounded:
  assumes "scale_ok s"
  shows "lit s = Fin (rnd_real s)" "1 / 1000 \<le> rnd_real s" "rnd_real s \<le> 8"
proof -
  show "lit s = Fin (rnd_real s)" using assms by (intro lit_close(1)) (simp_all add: scale_ok_def)
  have e: "\<bar>rnd_real s - s\<bar> \<le> 1 / 2 ^ 43" using assms by (intro lit_close(2)) (simp_all add: scale_ok_def)
  have "(1 :: real) / 2 ^ 43 \<le> 1 / 3000" by simp
  then show "1 / 1000 \<le> rnd_real s" using e assms unfolding scale_ok_def by linarith
  have "representable 8" using representable_int[of 8] by simp
  then show "rnd_real s \<le> 8" using assms by (intro rnd_real_le) (simp_all add: scale_ok_def)
qed

text \<open>\<open>((a + n * s) - a) / s\<close>, every operation rounded, is within a quarter of \<open>n\<close>.\<close>

lemma offset_roundtrip:
  assumes "scale_ok s" "\<bar>n\<bar> \<le> 2 ^ 16" "\<bar>a\<bar> \<le> 2 ^ 12"
  defines "c \<equiv> rnd_real s"
  defines "v \<equiv> rnd_real (of_int a + rnd_real (of_int n * c))"
  shows "dadd (Fin (of_int a)) (dmul (dint n) (lit s)) = Fin v"
    "\<bar>v - (of_int a + of_int n * c)\<bar> \<le> 1 / 2 ^ 32"
    "ddiv (dadd (Fin v) (Fin (- of_int a))) (lit s) = Fin (rnd_real (rnd_real (v - of_int a) / c))"
    "\<bar>rnd_real (rnd_real (v - of_int a) / c) - of_int n\<bar> < 1 / 4"
proof -
  note c = scale_rounded[OF assms(1), folded c_def]
  have n: "\<bar>of_int n :: real\<bar> \<le> 65536" using abs_of_int_le[OF assms(2)] by simp
  have a: "\<bar>of_int a :: real\<bar> \<le> 4096" using abs_of_int_le[OF assms(3)] by simp
  have nc: "\<bar>of_int n * c\<bar> \<le> 2 ^ 19"
  proof -
    have "\<bar>of_int n * c\<bar> \<le> 65536 * 8" unfolding abs_mult using n c by (intro mult_mono) simp_all
    then show ?thesis by simp
  qed
  define p where "p = rnd_real (of_int n * c)"
  have p: "\<bar>p - of_int n * c\<bar> \<le> 1 / 2 ^ 33"
    using rnd_abs_error[of "of_int n * c" 20] nc by (simp add: p_def)
  have "\<bar>p\<bar> \<le> 2 ^ 19 + 1 / 2 ^ 33" by (rule near_abs[OF p nc])
  then have "\<bar>p\<bar> \<le> 2 ^ 19 + 1" by simp
  then have s1: "\<bar>of_int a + p\<bar> \<le> 2 ^ 20" using a by simp
  have v1: "\<bar>v - (of_int a + p)\<bar> \<le> 1 / 2 ^ 33"
    using rnd_abs_error[OF s1] by (simp add: v_def p_def)
  show vv: "\<bar>v - (of_int a + of_int n * c)\<bar> \<le> 1 / 2 ^ 32"
    using near_trans[OF v1 p] by simp
  have m: "dmul (dint n) (lit s) = Fin p"
    using dint_Fin[of n] assms(2) c(1) nc rnd_finite[of "of_int n * c"] by (simp add: p_def)
  show "dadd (Fin (of_int a)) (dmul (dint n) (lit s)) = Fin v"
    using s1 rnd_finite[of "of_int a + p"] by (simp add: m v_def p_def)
  define q where "q = rnd_real (v - of_int a)"
  have "\<bar>(v - of_int a) - of_int n * c\<bar> \<le> 1 / 2 ^ 32" using vv by (simp add: algebra_simps)
  from near_abs[OF this nc] have s2: "\<bar>v - of_int a\<bar> \<le> 2 ^ 20" by simp
  have q1: "\<bar>q - (v - of_int a)\<bar> \<le> 1 / 2 ^ 33" using rnd_abs_error[OF s2] by (simp add: q_def)
  have "\<bar>q - of_int n * c\<bar> \<le> 1 / 2 ^ 33 + 1 / 2 ^ 32" by (rule near_shift[OF q1 vv])
  then have q: "\<bar>q - of_int n * c\<bar> \<le> 1 / 2 ^ 31" by simp
  have "q / c - of_int n = (q - of_int n * c) / c" using c(2) by (simp add: field_simps)
  then have "\<bar>q / c - of_int n\<bar> = \<bar>q - of_int n * c\<bar> / c" using c(2) by (simp add: abs_divide)
  also have "\<dots> \<le> (1 / 2 ^ 31) / (1 / 1000)" using q c(2) by (intro frac_le) simp_all
  finally have d: "\<bar>q / c - of_int n\<bar> \<le> 1 / 2 ^ 20" by simp
  have s3: "\<bar>q / c\<bar> \<le> 2 ^ 20" by (rule order_trans[OF near_abs[OF d n]]) simp
  have d2: "\<bar>rnd_real (q / c) - q / c\<bar> \<le> 1 / 2 ^ 33" using rnd_abs_error[OF s3] by simp
  show "\<bar>rnd_real (rnd_real (v - of_int a) / c) - of_int n\<bar> < 1 / 4"
    unfolding q_def[symmetric] by (rule le_less_trans[OF near_chain[OF d d2]]) simp
  have "dadd (Fin v) (Fin (- of_int a)) = Fin q" using s2 rnd_finite[of "v - of_int a"] by (simp add: q_def)
  then show "ddiv (dadd (Fin v) (Fin (- of_int a))) (lit s) = Fin (rnd_real (rnd_real (v - of_int a) / c))"
    using c(1,2) s3 rnd_finite[of "q / c"] by (simp add: q_def[symmetric])
qed

lemma scale_roundtrip:
  assumes "scale_ok s" "\<bar>n\<bar> \<le> 2 ^ 16"
  obtains v x where "dmul (dint n) (lit s) = Fin v" "ddiv (Fin v) (lit s) = Fin x"
    "round_away x = n" "\<bar>v - of_int n * rnd_real s\<bar> \<le> 1 / 2 ^ 32"
proof -
  define c where "c = rnd_real s"
  note z = offset_roundtrip[OF assms, of 0, folded c_def, simplified]
  define v where "v = rnd_real (of_int n * c)"
  have rv: "rnd_real v = v" unfolding v_def by (rule rnd_real_exact[OF rnd_real_representable])
  have c: "lit s = Fin c" "1 / 1000 \<le> c" "c \<le> 8" using scale_rounded[OF assms(1)] by (simp_all add: c_def)
  have n: "\<bar>of_int n :: real\<bar> \<le> 65536" using abs_of_int_le[OF assms(2)] by simp
  have "\<bar>of_int n * c\<bar> \<le> 65536 * 8" unfolding abs_mult using n c by (intro mult_mono) simp_all
  then have m: "dmul (dint n) (lit s) = Fin v"
    using dint_Fin[of n] assms(2) c(1) rnd_finite[of "of_int n * c"] by (simp add: v_def)
  have near: "\<bar>rnd_real (v / c) - of_int n\<bar> < 1 / 4" using z(4) rv by (simp add: v_def[symmetric])
  have d: "ddiv (Fin v) (lit s) = rnd (v / c)" using c by simp
  have "rnd v = Fin v"
    using z(1) m rv by (simp add: v_def[symmetric])
  then have d': "ddiv (Fin v) (lit s) = Fin (rnd_real (v / c))" using z(3) rv by (simp add: v_def[symmetric])
  show thesis
    by (rule that[OF m d']) (use near round_away_near[of _ n] z(2) rv in \<open>simp_all add: v_def[symmetric] c_def[symmetric]\<close>)
qed

section \<open>Raw codes\<close>

lemma signedRaw_mod: "w \<le> 16 \<Longrightarrow> signedRaw v w = word_of_int (v mod 2 ^ w)"
proof -
  assume w: "w \<le> 16"
  have m: "push_bit w (1 :: u32) - 1 = mask w" by (simp add: mask_eq_exp_minus_1 push_bit_eq_mult)
  have "ucast ((word_of_int v :: u32) AND mask w) = (word_of_int (take_bit w v) :: u16)"
    by (rule bit_word_eqI) (use w in \<open>auto simp: bit_simps\<close>)
  then show ?thesis unfolding signedRaw_def Let_def m by (simp add: take_bit_eq_mod)
qed

lemma uint_u16: "0 \<le> uint (raw :: u16)" "uint (raw :: u16) < 65536"
  using unsigned_less[of raw, where 'a = int] by simp_all

lemma uint_u8: "0 \<le> uint (raw :: u8)" "uint (raw :: u8) < 256"
  using unsigned_less[of raw, where 'a = int] by simp_all

lemma sint_u16: "sint (raw :: u16) = (if uint raw < 32768 then uint raw else uint raw - 65536)"
proof -
  have s: "sint raw = (uint raw + 32768) mod 65536 - 32768"
    by (simp add: sint_uint signed_take_bit_eq_take_bit_shift take_bit_eq_mod)
  show ?thesis
  proof (cases "uint raw < 32768")
    case True
    then have "(uint raw + 32768) mod 65536 = uint raw + 32768"
      using uint_u16[of raw] by (intro mod_pos_pos_trivial) linarith+
    then show ?thesis using s True by simp
  next
    case False
    have "(uint raw + 32768) mod 65536 = uint raw - 32768"
      by (rule int_mod_pos_eq[where q = 1]) (use False uint_u16[of raw] in linarith)+
    then show ?thesis using s False by simp
  qed
qed

lemma mod_negative: "- m \<le> n \<Longrightarrow> n < 0 \<Longrightarrow> n mod m = n + (m :: int)"
  by (rule int_mod_pos_eq[where q = "-1"]) linarith+

lemma signedRaw_sint: "signedRaw (sint (raw :: u16)) 16 = raw"
proof -
  have "sint raw mod 65536 = uint raw"
    using uint_u16[of raw] mod_negative[of 65536 "uint raw - 65536"] by (simp add: sint_u16)
  then show ?thesis by (simp add: signedRaw_mod)
qed

text \<open>The numeric codes of the 16-bit fields are exactly the counts the encoders let through.\<close>

lemma sint_numeric:
  assumes "\<not> (0x8000 \<le> raw \<and> raw \<le> (0x800F :: u16))"
  shows "- 32752 \<le> sint raw" "sint raw \<le> 32767"
proof -
  have "uint raw < 32768 \<or> 32783 < uint raw" using assms by (auto simp: word_le_def)
  then show "- 32752 \<le> sint raw" "sint raw \<le> 32767"
    using uint_u16[of raw] unfolding sint_u16
    by (cases "uint raw < 32768"; simp only: if_True if_False; linarith)+
qed

lemma signedRaw_numeric:
  assumes "- 32752 \<le> n" "n \<le> 32767"
  shows "\<not> (0x8000 \<le> signedRaw n 16 \<and> signedRaw n 16 \<le> 0x800F)"
proof -
  have "n mod 65536 = (if 0 \<le> n then n else n + 65536)"
    using assms mod_negative[of 65536 n] by (auto simp: mod_pos_pos_trivial)
  then have "uint (signedRaw n 16) = (if 0 \<le> n then n else n + 65536)"
    by (simp add: signedRaw_mod uint_word_of_int)
  then show ?thesis using assms by (auto simp: word_le_def split: if_splits)
qed

lemma xor_high_bit:
  fixes y :: u32 assumes "y < 0x800" shows "y XOR 0x800 = y + 0x800"
proof -
  have p: "(0x800 :: u32) = push_bit 11 1" by simp
  have "y = take_bit 11 y" using assms by (simp add: take_bit_word_small)
  then have "\<not> bit y 11" by (metis bit_take_bit_iff less_irrefl)
  then have d: "\<not> bit y n \<or> \<not> bit (push_bit 11 1 :: u32) n" for n
    unfolding bit_push_bit_iff bit_1_iff by (cases "n = 11") auto
  have "y + push_bit 11 1 = y OR push_bit 11 1" by (rule disjunctive_add) (rule d)
  moreover have "y OR push_bit 11 1 = y XOR push_bit 11 1"
    by (rule bit_word_eqI) (use d in \<open>auto simp: bit_or_iff bit_xor_iff\<close>)
  ultimately show ?thesis unfolding p by simp
qed

section \<open>Evaluated literals\<close>

lemma rnd_real_eval:
  assumes "2 ^ 52 \<le> x * 2 ^ j" "x * 2 ^ j < 2 ^ 53" "j \<le> 1074" "\<bar>x * 2 ^ j - of_int m\<bar> < 1 / 2"
  shows "rnd_real x = of_int m / 2 ^ j"
proof -
  have x: "0 < x"
  proof (rule ccontr)
    assume "\<not> 0 < x"
    then have "x * 2 ^ j \<le> 0" by (simp add: mult_nonpos_nonneg)
    moreover have "(0 :: real) < 2 ^ 52" by simp
    ultimately show False using assms(1) by linarith
  qed
  have p: "(2 :: real) powi (n - int j) = 2 powi n / 2 ^ j" for n by (simp add: power_int_diff)
  have "52 - int j \<le> \<lfloor>log 2 x\<rfloor>"
    by (rule floor_log2_ge[OF x]) (use assms(1) in \<open>simp add: p field_simps\<close>)
  moreover have "\<lfloor>log 2 x\<rfloor> < 53 - int j"
    by (rule floor_log2_less[OF x]) (use assms(2) in \<open>simp add: p field_simps\<close>)
  ultimately have l: "lastplace x = - int j" using x assms(3) by (simp add: lastplace_def)
  have "rne (x * 2 ^ j) = m"
  proof -
    have a: "\<bar>of_int (rne (x * 2 ^ j)) - x * 2 ^ j\<bar> \<le> 1 / 2" by (rule rne_error)
    have "\<bar>of_int (rne (x * 2 ^ j)) - of_int m\<bar> < (1 :: real)" using a assms(4) by linarith
    then have "\<bar>of_int (rne (x * 2 ^ j) - m)\<bar> < (1 :: real)" by simp
    then show ?thesis by linarith
  qed
  then show ?thesis using x by (simp add: rnd_real_def l power_int_minus divide_inverse)
qed

lemma rnd_real_literals:
  "rnd_real (1 / 10) = 3602879701896397 / 2 ^ 55"
  "rnd_real (1 / 5) = 3602879701896397 / 2 ^ 54"
  "rnd_real (1 / 20) = 3602879701896397 / 2 ^ 56"
  "rnd_real (6031 / 5) = 5304923701693645 / 2 ^ 42"
  using rnd_real_eval[of "1 / 10" 56 7205759403792794] rnd_real_eval[of "1 / 5" 55 7205759403792794]
    rnd_real_eval[of "1 / 20" 57 7205759403792794] rnd_real_eval[of "6031 / 5" 42 5304923701693645]
  by simp_all


section \<open>Round trips of the encoders\<close>

lemma fits_small: "\<bar>n\<bar> \<le> 2 ^ 16 \<Longrightarrow> fits_long n"
  by (auto simp: fits_long_def abs_le_iff)

lemma lround_scaled:
  assumes "scale_ok s" "\<bar>n\<bar> \<le> 2 ^ 16"
  shows "lround ovf (ddiv (dmul (dint n) (lit s)) (lit s)) = n" "isfinite (dmul (dint n) (lit s))"
proof -
  obtain v x where *: "dmul (dint n) (lit s) = Fin v" "ddiv (Fin v) (lit s) = Fin x" "round_away x = n"
    using scale_roundtrip[OF assms] by blast
  show "lround ovf (ddiv (dmul (dint n) (lit s)) (lit s)) = n" "isfinite (dmul (dint n) (lit s))"
    using fits_small[OF assms(2)] * by simp_all
qed

lemma lround_offset:
  assumes "scale_ok s" "\<bar>n\<bar> \<le> 2 ^ 16" "\<bar>a\<bar> \<le> 2 ^ 12"
  shows "lround ovf (ddiv (dadd (dadd (Fin (of_int a)) (dmul (dint n) (lit s))) (Fin (- of_int a))) (lit s)) = n"
proof -
  note r = offset_roundtrip[OF assms]
  have "round_away (rnd_real (rnd_real (rnd_real (of_int a + rnd_real (of_int n * rnd_real s)) - of_int a)
      / rnd_real s)) = n" by (rule round_away_near) (use r(4) in linarith)
  then show ?thesis using fits_small[OF assms(2)] by (simp only: r(1) r(3) lround.simps if_True)
qed

text \<open>A scale that is a binary fraction: the decoded value is exact.\<close>

lemma exact_scaled:
  assumes "\<bar>n * k\<bar> \<le> 2 ^ 20" "\<bar>k\<bar> \<le> 2 ^ 20" "\<bar>n\<bar> \<le> 2 ^ 16"
  shows "dmul (dint n) (lit (of_int k / 8)) = Fin (of_int (n * k) / 8)"
    "lit (of_int k / 8) = Fin (of_int k / 8)"
proof -
  have r: "rnd (of_int i / 8) = Fin (of_int i / 8)" if "\<bar>i\<bar> \<le> 2 ^ 20" for i
  proof (rule rnd_Fin_exact)
    show "representable (of_int i / 8)" using representable_scaled[of i 3] that by simp
    have "\<bar>of_int i :: real\<bar> \<le> 2 ^ 20" using abs_of_int_le[OF that] by simp
    then have "\<bar>of_int i / 8 :: real\<bar> \<le> 2 ^ 53" by simp
    then show "\<bar>of_int i / 8\<bar> < max_dbl_bound" by (rule max_dbl_bound_numeral)
  qed
  show l: "lit (of_int k / 8) = Fin (of_int k / 8)" unfolding lit_def by (rule r[OF assms(2)])
  show "dmul (dint n) (lit (of_int k / 8)) = Fin (of_int (n * k) / 8)"
    using r[OF assms(1)] assms(3) by (simp add: l dint_Fin)
qed

text \<open>The tenth of a second of the elapsed codes: \<open>0.1\<close> is rounded up by one part in \<open>2 ^ 54\<close>,
  and the product with ten comes back to at least the code, hence exactly to it after the floor.\<close>

lemma tenth: "lit 0.1 = Fin (3602879701896397 / 2 ^ 55)"
proof -
  have "lit 0.1 = Fin (rnd_real 0.1)" by (intro lit_close(1)) simp_all
  then show ?thesis using rnd_real_literals(1) by simp
qed

lemma rnd_real_up:
  assumes "2 ^ k < n" "n < 2 ^ (k + 1)" "k \<le> 52" "of_int n - 2 ^ k / 2 ^ 53 < (y :: real)"
  shows "of_int n \<le> rnd_real y"
proof -
  have n: "2 ^ k + 1 \<le> (of_int n :: real)" "(of_int n :: real) < 2 ^ (k + 1)"
    using assms(1,2) of_int_le_iff[of "2 ^ k + 1" n, where 'a = real]
      of_int_less_iff[of n "2 ^ (k + 1)", where 'a = real] by simp_all
  have k: "(2 :: real) ^ (k + 1) \<le> 2 ^ 53" "(2 :: real) ^ k \<le> 2 ^ 53"
    using assms(3) by (intro power_increasing; simp)+
  show ?thesis
  proof (cases "of_int n \<le> y")
    case True
    have "(2 :: int) ^ (k + 1) \<le> 2 ^ 53" using assms(3) by (intro power_increasing) simp_all
    then have "representable (of_int n)" using assms(1,2) by (intro representable_int) simp
    then show ?thesis using True by (intro rnd_real_ge)
  next
    case False
    define j where "j = 52 - k"
    have j: "(2 :: real) ^ k * 2 ^ j = 2 ^ 52"
      using assms(3) unfolding j_def power_add[symmetric] by simp
    have j0: "(0 :: real) < 2 ^ j" by simp
    have d: "(of_int n - y) * 2 ^ j < 1 / 2"
    proof -
      have "(of_int n - y) * 2 ^ j < 2 ^ k / 2 ^ 53 * 2 ^ j"
        using assms(4) j0 by (intro mult_strict_right_mono) linarith+
      also have "\<dots> = (2 ^ k * 2 ^ j) / 2 ^ 53" by simp
      also have "\<dots> = 1 / 2" unfolding j by simp
      finally show ?thesis .
    qed
    have "2 ^ k / 2 ^ 53 \<le> (1 :: real)" using k(2) by simp
    then have "2 ^ k \<le> y" using n(1) assms(4) by linarith
    then have "2 ^ k * 2 ^ j \<le> y * 2 ^ j" by (intro mult_right_mono) simp_all
    then have l: "2 ^ 52 \<le> y * 2 ^ j" unfolding j .
    have "y * 2 ^ j < 2 ^ (k + 1) * 2 ^ j"
      using False n(2) j0 by (intro mult_strict_right_mono) linarith+
    also have "2 ^ (k + 1) * 2 ^ j = 2 * (2 ^ k * 2 ^ j :: real)" by simp
    finally have u: "y * 2 ^ j < 2 ^ 53" unfolding j by simp
    have "\<bar>y * 2 ^ j - of_int (n * 2 ^ j)\<bar> < 1 / 2"
    proof -
      have "y * 2 ^ j - of_int (n * 2 ^ j) = - ((of_int n - y) * 2 ^ j)" by (simp add: algebra_simps)
      moreover have "0 \<le> (of_int n - y) * 2 ^ j" using False by simp
      ultimately show ?thesis using d by linarith
    qed
    then have "rnd_real y = of_int (n * 2 ^ j) / 2 ^ j"
      by (intro rnd_real_eval[OF l u]) (simp_all add: j_def)
    then show ?thesis by simp
  qed
qed

lemma tenths_floor:
  assumes "0 \<le> n" "n \<le> 2 ^ 16"
  obtains v where "dmul (dint n) (lit 0.1) = Fin v" "0 \<le> v" "v \<le> of_int n / 10 + 1 / 2 ^ 30"
    "dfloor (dmul (Fin v) (lit 10)) = Fin (of_int n)"
proof -
  define c :: real where "c = 3602879701896397 / 2 ^ 55"
  define v where "v = rnd_real (of_int n * c)"
  have n: "0 \<le> (of_int n :: real)" "(of_int n :: real) \<le> 65536"
    using assms of_int_le_iff[of n "2 ^ 16", where 'a = real] by simp_all
  have c: "c * 10 = 1 + 1 / 2 ^ 54" by (simp add: c_def)
  have c': "0 \<le> c" "c \<le> 1" by (simp_all add: c_def)
  have nc: "\<bar>of_int n * c\<bar> \<le> 2 ^ 16"
    using n c' mult_mono[of "of_int n :: real" 65536 c 1] by (simp add: abs_mult)
  have m: "dmul (dint n) (lit 0.1) = Fin v"
    using rnd_finite[of "of_int n * c"] nc assms by (simp add: tenth[folded c_def] dint_Fin v_def)
  have v0: "0 \<le> v" unfolding v_def using n c' by (intro rnd_real_nonneg) simp
  have v1: "\<bar>v - of_int n * c\<bar> \<le> 1 / 2 ^ 37" using rnd_abs_error[OF nc] by (simp add: v_def)
  have up: "v \<le> of_int n / 10 + 1 / 2 ^ 35"
  proof -
    have "of_int n * c = of_int n / 10 * (1 + 1 / 2 ^ 54)" using c by (simp add: field_simps)
    also have "\<dots> \<le> of_int n / 10 + 1 / 2 ^ 37" using n by (simp add: algebra_simps)
    finally have "v \<le> of_int n / 10 + (1 / 2 ^ 37 + 1 / 2 ^ 37)" using v1 by linarith
    then show ?thesis by simp
  qed
  define w where "w = rnd_real (v * 10)"
  have "\<bar>v * 10\<bar> \<le> 2 ^ 17" using v0 up n by simp
  then have w: "dmul (Fin v) (lit 10) = Fin w" "\<bar>w - v * 10\<bar> \<le> 1 / 2 ^ 36"
    using rnd_finite[of "v * 10"] rnd_abs_error[of "v * 10" 17] by (simp_all add: w_def)
  have "w \<le> v * 10 + 1 / 2 ^ 36" using w(2) by linarith
  then have "w \<le> of_int n + (10 / 2 ^ 35 + 1 / 2 ^ 36)" using up by simp
  then have "w < of_int n + 1" by simp
  moreover have "of_int n \<le> w"
  proof (cases "n = 0")
    case True then show ?thesis using v0 by (simp add: w_def rnd_real_nonneg)
  next
    case False
    then have "1 \<le> nat n" using assms(1) by simp
    from ex_power_ivl1[OF le_refl this]
    obtain k where k: "2 ^ k \<le> nat n" "nat n < 2 ^ (k + 1)" by blast
    have "nat n < 2 ^ 17" using assms by (simp add: nat_less_iff)
    then have "(2 :: nat) ^ k < 2 ^ 17" using k(1) by (rule le_less_trans[rotated])
    then have k17: "k < 17" by (rule power_less_imp_less_exp[rotated]) simp
    have k': "2 ^ k \<le> n" "n < 2 ^ (k + 1)"
      using k assms(1) by (simp_all add: nat_less_iff le_nat_iff)
    show ?thesis
    proof (cases "n = 2 ^ k")
      case True
      have "of_int n * c = of_int 3602879701896397 / 2 ^ (55 - k)"
        using k17 by (simp add: True c_def power_diff)
      moreover have "representable (of_int 3602879701896397 / 2 ^ (55 - k))"
        by (rule representable_scaled) simp_all
      ultimately have "v = of_int n * c" by (simp only: v_def rnd_real_exact)
      then have "v * 10 = of_int n * (c * 10)" by simp
      then have "of_int n \<le> v * 10" using n unfolding c by (simp add: algebra_simps)
      then show ?thesis unfolding w_def using assms by (intro rnd_real_ge representable_int) simp_all
    next
      case False
      have "2 powi (-1022) \<le> (2 :: real) powi (-4)" by (intro powi_2_mono) simp
      also have "\<dots> = 1 / 16" by (simp add: power_int_minus)
      also have "1 / 16 \<le> c" by (simp add: c_def)
      also have "c \<le> of_int n * c"
        using mult_right_mono[of 1 "of_int n" c] \<open>n \<noteq> 0\<close> assms(1) c' by simp
      also have "\<dots> \<le> \<bar>of_int n * c\<bar>" by simp
      finally have "2 powi (-1022) \<le> \<bar>of_int n * c\<bar>" .
      then have "\<bar>v - of_int n * c\<bar> \<le> \<bar>of_int n * c\<bar> / 2 ^ 53"
        unfolding v_def by (rule rnd_real_rel_error)
      also have "\<bar>of_int n * c\<bar> = of_int n * c" using n c' by simp
      finally have "of_int n * c - of_int n * c / 2 ^ 53 \<le> v" by linarith
      then have "of_int n * c * (1 - 1 / 2 ^ 53) \<le> v" by (simp add: algebra_simps)
      then have a: "of_int n * (c * 10) * (1 - 1 / 2 ^ 53) \<le> v * 10" by (simp add: algebra_simps)
      have b: "of_int n + 1 \<le> (2 :: real) * 2 ^ k"
        using k'(2) of_int_le_iff[of "n + 1" "2 * 2 ^ k", where 'a = real] by simp
      have e: "of_int n - of_int n / 2 ^ 54 - of_int n / 2 ^ 107 \<le> v * 10"
        using a unfolding c by (simp add: algebra_simps)
      have "of_int n - 2 ^ k / 2 ^ 53 < v * 10" using e b n by simp
      then show ?thesis unfolding w_def using k' False k17 by (intro rnd_real_up[of k]) simp_all
    qed
  qed
  ultimately have "\<lfloor>w\<rfloor> = n" by (intro floor_unique) simp_all
  then have "dfloor (dmul (Fin v) (lit 10)) = Fin (of_int n)"
    by (simp only: w(1) dfloor.simps)
  then show thesis using that[OF m v0] up by simp
qed


section \<open>Numeric codes survive decoding and encoding\<close>

definition numeric_stable :: "('r \<Rightarrow> 'r decoded) \<Rightarrow> (dbl \<Rightarrow> 'r) \<Rightarrow> bool" where
  "numeric_stable decode encode =
     (\<forall>raw. dc_semantic (decode raw) = QS_numeric \<longrightarrow> encode (dc_value (decode raw)) = raw)"

lemmas quantity_simps = q_numeric_def q_error_def q_reserved_def numeric_stable_def

lemma u16_int_le: "(raw :: u16) \<le> b \<longleftrightarrow> uint raw \<le> uint b"
  by (simp add: word_le_def)

lemma scales: "scale_ok 0.5" "scale_ok 0.1" "scale_ok 0.75" "scale_ok 0.125" "scale_ok 0.02"
  "scale_ok 0.002" "scale_ok 0.2" "scale_ok 5" "scale_ok 1.5" "scale_ok 0.05"
  by (simp_all add: scale_ok_def)

lemma sint_small: "\<bar>sint (raw :: u16)\<bar> \<le> 2 ^ 16"
  using uint_u16[of raw] by (simp add: sint_u16)

lemma uint_small: "\<bar>uint (raw :: u16)\<bar> \<le> 2 ^ 16" "\<bar>uint (byte :: u8)\<bar> \<le> 2 ^ 16"
  using uint_u16[of raw] uint_u8[of byte] by simp_all

lemma sint_code:
  assumes "\<not> (0x8000 \<le> raw \<and> raw \<le> (0x800F :: u16))"
  shows "\<not> sint raw < - 32752" "\<not> 32767 < sint raw"
  using sint_numeric[OF assms] by simp_all

lemma signed_stable:
  assumes "scale_ok s" "\<not> (0x8000 \<le> raw \<and> raw \<le> (0x800F :: u16))"
  shows "(if \<not> isfinite (dmul (dint (sint raw)) (lit s)) then x
     else let count = lround ovf (ddiv (dmul (dint (sint raw)) (lit s)) (lit s)) in
       if count < -32752 \<or> 32767 < count then y else signedRaw count 16) = raw"
  using sint_code[OF assms(2)]
  by (simp add: lround_scaled[OF assms(1) sint_small] signedRaw_sint)

lemma numeric_stableI:
  "(\<And>raw. dc_semantic (decode raw) = QS_numeric \<Longrightarrow> encode (dc_value (decode raw)) = raw)
   \<Longrightarrow> numeric_stable decode encode"
  by (simp add: numeric_stable_def)

lemma scaled_value:
  assumes "scale_ok s" "\<bar>n\<bar> \<le> 2 ^ 16"
  shows "dmul (dint n) (lit s) = Fin (rnd_real (of_int n * rnd_real s))"
proof -
  have n: "\<bar>of_int n :: real\<bar> \<le> 65536" using abs_of_int_le[OF assms(2)] by simp
  note c = scale_rounded[OF assms(1)]
  have "\<bar>of_int n * rnd_real s\<bar> \<le> 65536 * 8" unfolding abs_mult using n c by (intro mult_mono) simp_all
  then show ?thesis using dint_Fin[of n] assms(2) c(1) rnd_finite[of "of_int n * rnd_real s"] by simp
qed

lemma roll_stable: "numeric_stable decodeRoll (\<lambda>v. encodeRoll ovf v e)"
proof (rule numeric_stableI)
  fix raw assume s: "dc_semantic (decodeRoll raw) = QS_numeric"
  then have n: "\<not> (0x8000 \<le> raw \<and> raw \<le> (0x800F :: u16))"
    by (auto simp: decodeRoll_def quantity_simps u16_int_le split: if_splits)
  have v: "dc_value (decodeRoll raw) = dmul (dint (sint raw)) (lit 0.5)"
    using s by (auto simp only: decodeRoll_def q_numeric_def q_error_def q_reserved_def decoded.select_convs
      semantic.distinct split: if_splits)
  show "encodeRoll ovf (dc_value (decodeRoll raw)) e = raw"
    unfolding v encodeRoll_def by (rule signed_stable[OF scales(1) n])
qed

lemma roll_rate_stable: "numeric_stable decodeRollRate (\<lambda>v. encodeRollRate ovf v e)"
proof (rule numeric_stableI)
  fix raw assume s: "dc_semantic (decodeRollRate raw) = QS_numeric"
  then have n: "\<not> (0x8000 \<le> raw \<and> raw \<le> (0x800F :: u16))"
    by (auto simp: decodeRollRate_def quantity_simps u16_int_le split: if_splits)
  have v: "dc_value (decodeRollRate raw) = dmul (dint (sint raw)) (lit 0.1)"
    using s by (auto simp only: decodeRollRate_def q_numeric_def q_error_def q_reserved_def decoded.select_convs
      semantic.distinct split: if_splits)
  show "encodeRollRate ovf (dc_value (decodeRollRate raw)) e = raw"
    unfolding v encodeRollRate_def by (rule signed_stable[OF scales(2) n])
qed

lemma fin_rate_stable: "numeric_stable decodeFinRate (\<lambda>v. encodeFinRate ovf v e)"
proof (rule numeric_stableI)
  fix raw assume s: "dc_semantic (decodeFinRate raw) = QS_numeric"
  then have n: "\<not> (0x8000 \<le> raw \<and> raw \<le> (0x800F :: u16))"
    by (auto simp: decodeFinRate_def quantity_simps u16_int_le split: if_splits)
  have v: "dc_value (decodeFinRate raw) = dmul (dint (sint raw)) (lit 0.02)"
    using s by (auto simp only: decodeFinRate_def q_numeric_def q_error_def q_reserved_def decoded.select_convs
      semantic.distinct split: if_splits)
  show "encodeFinRate ovf (dc_value (decodeFinRate raw)) e = raw"
    unfolding v encodeFinRate_def by (rule signed_stable[OF scales(5) n])
qed

lemma round_away_of_int [simp]: "round_away (of_int i) = i"
  by (rule round_away_near) simp

lemma round_away_word [simp]:
  "round_away (signed (raw :: 'a::len word)) = sint raw"
  "round_away (unsigned (raw :: 'a::len word)) = uint raw"
  using round_away_of_int[of "sint raw"] round_away_of_int[of "uint raw"] by simp_all

lemma gnss_offset_stable: "numeric_stable decodeGnssOffset (\<lambda>v. encodeGnssOffset ovf v e)"
proof (rule numeric_stableI)
  fix raw assume s: "dc_semantic (decodeGnssOffset raw) = QS_numeric"
  then have n: "\<not> (0x8000 \<le> raw \<and> raw \<le> (0x800F :: u16))"
    by (auto simp: decodeGnssOffset_def quantity_simps u16_int_le split: if_splits)
  have "dc_value (decodeGnssOffset raw) = Fin (of_int (sint raw))"
    using s sint_small[of raw]
    by (auto simp: decodeGnssOffset_def quantity_simps dint_Fin split: if_splits)
  then show "encodeGnssOffset ovf (dc_value (decodeGnssOffset raw)) e = raw"
    using sint_code[OF n] by (simp add: encodeGnssOffset_def fits_small[OF sint_small] signedRaw_sint)
qed

text \<open>The 12-bit torque.\<close>

lemma xor_twice: "(a XOR b) XOR b = (a :: u32)"
  by (rule bit_word_eqI) (auto simp: bit_simps)

lemma sint_u32: "sint (word_of_int i :: u32) = i" if "- 2147483648 \<le> i" "i < 2147483648"
  using that by (simp add: sint_sbintrunc' signed_take_bit_int_eq_self)

lemma signedValue_12:
  assumes "raw \<le> (0xFFF :: u16)"
  shows "signedValue raw 12 = (if raw < 0x800 then uint raw else uint raw - 4096)"
proof -
  define u where "u = uint raw"
  have u: "0 \<le> u" "u \<le> 4095" using assms by (simp_all add: u_def word_le_def)
  have m: "(ucast raw :: u32) AND 4095 = word_of_int u"
  proof -
    have w: "(ucast raw :: u32) = word_of_int u" by (simp add: u_def unsigned_ucast_eq)
    have "(word_of_int u :: u32) < 0x1000"
      using u by (simp add: word_less_def uint_word_of_int take_bit_int_eq_self)
    then have "take_bit 12 (word_of_int u :: u32) = word_of_int u" by (simp add: take_bit_word_small)
    then show ?thesis unfolding w by (simp add: take_bit_eq_mask mask_eq_exp_minus_1)
  qed
  have lo: "(word_of_int y :: u32) XOR 0x800 = word_of_int (y + 2048)" if "0 \<le> y" "y < 2048" for y
    using xor_high_bit[of "word_of_int y"] that
    by (simp add: word_less_def uint_word_of_int take_bit_int_eq_self of_int_add)
  have "(word_of_int u XOR 0x800) - 0x800 = (word_of_int (if u < 2048 then u else u - 4096) :: u32)"
  proof (cases "u < 2048")
    case True
    then show ?thesis using lo[of u] u by (simp add: of_int_add)
  next
    case False
    have "(word_of_int (u - 2048) :: u32) XOR 0x800 = word_of_int u" using lo[of "u - 2048"] u False by simp
    then have "(word_of_int u :: u32) XOR 0x800 = word_of_int (u - 2048)"
      using xor_twice[of "word_of_int (u - 2048)" "0x800"] by simp
    then show ?thesis using False by (simp add: of_int_diff)
  qed
  then show ?thesis
    unfolding signedValue_def Let_def using u
    by (simp add: m sint_u32 u_def[symmetric] word_less_def)
qed

lemma low_twelve: "raw \<le> 0xFFF \<Longrightarrow> raw AND 0xFFF = (raw :: u16)"
proof -
  assume "raw \<le> 0xFFF"
  then have "raw < 2 ^ 12" by (simp add: word_le_def word_less_def)
  then have "take_bit 12 raw = raw" by (simp add: take_bit_word_small)
  then show ?thesis by (simp add: take_bit_eq_mask mask_eq_exp_minus_1)
qed

lemma torque_stable: "numeric_stable decodeRequestedTorque (\<lambda>v. encodeRequestedTorque ovf v e)"
proof (rule numeric_stableI)
  fix raw assume s: "dc_semantic (decodeRequestedTorque raw) = QS_numeric"
  then have le: "\<not> 0xFFF < raw" by (auto simp: decodeRequestedTorque_def quantity_simps split: if_splits)
  then have a: "raw AND 0xFFF = raw" by (intro low_twelve) simp
  define n where "n = signedValue raw 12"
  have u: "uint raw \<le> 4095" "\<not> (2048 \<le> uint raw \<and> uint raw \<le> 2063)"
    using s le by (auto simp: decodeRequestedTorque_def quantity_simps a Let_def word_le_def word_less_def
      split: if_splits)
  have v: "dc_value (decodeRequestedTorque raw) = dmul (dint n) (lit 0.002)"
    using s le by (auto simp: decodeRequestedTorque_def quantity_simps a Let_def n_def split: if_splits)
  have n: "n = (if uint raw < 2048 then uint raw else uint raw - 4096)"
    using signedValue_12[of raw] le by (simp add: n_def word_less_def word_le_def)
  have b: "\<not> n < - 2032" "\<not> 2047 < n" "\<bar>n\<bar> \<le> 2 ^ 16"
    unfolding n using u uint_u16[of raw] by (cases "uint raw < 2048"; simp; linarith)+
  have "n mod 4096 = uint raw"
    using u uint_u16[of raw] mod_negative[of 4096 n] by (auto simp: n)
  then have r: "signedRaw n 12 = raw" by (simp add: signedRaw_mod)
  show "encodeRequestedTorque ovf (dc_value (decodeRequestedTorque raw)) e = raw"
    unfolding v encodeRequestedTorque_def lround_scaled[OF scales(6) b(3)] Let_def
    using lround_scaled(2)[OF scales(6) b(3)] b(1,2) r by simp
qed

text \<open>The unsigned quantities with a range check.\<close>

lemma within_of:
  assumes "\<not> dless v lo" "\<not> dless hi v" "isfinite v" "lround ovf w = n" "word_of_int n = raw"
  shows "(if \<not> isfinite v \<or> dless v lo \<or> dless hi v then e else word_of_int (lround ovf w)) = raw"
    "(if \<not> isfinite v then e else if dless v lo then e1 else if dless hi v then e2
      else word_of_int (lround ovf w)) = raw"
    "(if \<not> isfinite v then e else if dless v lo \<or> dless hi v then e1
      else word_of_int (lround ovf w)) = raw"
  using assms by simp_all

lemma tilt_magnitude_stable: "numeric_stable decodeTiltMagnitude (\<lambda>v. encodeTiltMagnitude ovf v e)"
proof (rule numeric_stableI)
  fix raw assume s: "dc_semantic (decodeTiltMagnitude raw) = QS_numeric"
  define n where "n = uint raw"
  have raw: "word_of_int n = raw" by (simp add: n_def)
  have n: "0 \<le> n" "n \<le> 120" "\<bar>n\<bar> \<le> 2 ^ 16"
    using s uint_u8[of raw]
    by (auto simp: n_def decodeTiltMagnitude_def quantity_simps word_le_def split: if_splits)
  have v: "dc_value (decodeTiltMagnitude raw) = dmul (dint n) (lit 0.75)"
    using s by (auto simp only: decodeTiltMagnitude_def q_numeric_def q_error_def q_reserved_def decoded.select_convs
      semantic.distinct n_def split: if_splits)
  have x: "dmul (dint n) (lit 0.75) = Fin (of_int (n * 6) / 8)"
    using exact_scaled(1)[of n 6] n by simp
  have r: "lround ovf (ddiv (dmul (dint n) (lit 0.75)) (lit 0.75)) = n"
    by (rule lround_scaled(1)[OF scales(3) n(3)])
  show "encodeTiltMagnitude ovf (dc_value (decodeTiltMagnitude raw)) e = raw"
    unfolding v encodeTiltMagnitude_def
    by (rule within_of(1)[OF _ _ _ r raw]) (unfold x, use n in simp_all)
qed

lemma parachute_angle_stable: "numeric_stable decodeParachuteAngle (\<lambda>v. encodeParachuteAngle ovf v e)"
proof (rule numeric_stableI)
  fix raw assume s: "dc_semantic (decodeParachuteAngle raw) = QS_numeric"
  define n where "n = uint raw"
  have raw: "word_of_int n = raw" by (simp add: n_def)
  have n: "0 \<le> n" "n \<le> 240" "\<bar>n\<bar> \<le> 2 ^ 16"
    using s uint_u8[of raw]
    by (auto simp: n_def decodeParachuteAngle_def quantity_simps word_le_def split: if_splits)
  have v: "dc_value (decodeParachuteAngle raw) = dmul (dint n) (lit 1.5)"
    using s by (auto simp only: decodeParachuteAngle_def q_numeric_def q_error_def q_reserved_def decoded.select_convs
      semantic.distinct n_def split: if_splits)
  have x: "dmul (dint n) (lit 1.5) = Fin (of_int (n * 12) / 8)"
    using exact_scaled(1)[of n 12] n by simp
  have r: "lround ovf (ddiv (dmul (dint n) (lit 1.5)) (lit 1.5)) = n"
    by (rule lround_scaled(1)[OF scales(9) n(3)])
  show "encodeParachuteAngle ovf (dc_value (decodeParachuteAngle raw)) e = raw"
    unfolding v encodeParachuteAngle_def
    by (rule within_of(1)[OF _ _ _ r raw]) (unfold x, use n in simp_all)
qed

lemma offset_range:
  assumes "\<bar>a\<bar> \<le> 2 ^ 12" "\<bar>b\<bar> \<le> 2 ^ 20"
  shows "dadd (Fin (of_int a)) (Fin (of_int b / 8)) = Fin (of_int (8 * a + b) / 8)"
proof -
  have "representable (of_int (8 * a + b) / 8)"
    using representable_scaled[of "8 * a + b" 3] assms by simp
  moreover have "\<bar>of_int (8 * a + b) / 8\<bar> < max_dbl_bound"
  proof (rule max_dbl_bound_numeral)
    have "\<bar>8 * a + b\<bar> \<le> 2 ^ 21" using assms by simp
    from abs_of_int_le[OF this] show "\<bar>of_int (8 * a + b) / 8 :: real\<bar> \<le> 2 ^ 53" by simp
  qed
  ultimately show ?thesis using rnd_Fin_exact[of "of_int (8 * a + b) / 8"] by (simp add: add_divide_distrib)
qed

lemma fin_angle_stable: "numeric_stable decodeFinAngle (\<lambda>v. encodeFinAngle ovf v e)"
proof (rule numeric_stableI)
  fix raw assume s: "dc_semantic (decodeFinAngle raw) = QS_numeric"
  define n where "n = uint raw"
  have raw: "word_of_int n = raw" by (simp add: n_def)
  have n: "0 \<le> n" "n \<le> 240" "\<bar>n\<bar> \<le> 2 ^ 16"
    using s uint_u8[of raw]
    by (auto simp: n_def decodeFinAngle_def quantity_simps word_le_def split: if_splits)
  have v: "dc_value (decodeFinAngle raw) = dadd (lit (-15)) (dmul (dint n) (lit 0.125))"
    using s by (auto simp only: decodeFinAngle_def q_numeric_def q_error_def q_reserved_def decoded.select_convs
      semantic.distinct n_def split: if_splits)
  have x: "dadd (lit (-15)) (dmul (dint n) (lit 0.125)) = Fin (of_int (8 * (-15) + n * 1) / 8)"
    using exact_scaled(1)[of n 1] offset_range[of "-15" n] n by simp
  have r: "lround ovf (ddiv (dadd (dadd (lit (-15)) (dmul (dint n) (lit 0.125))) (lit 15)) (lit 0.125)) = n"
    using lround_offset[OF scales(4) n(3), of "-15"] by simp
  show "encodeFinAngle ovf (dc_value (decodeFinAngle raw)) e = raw"
    unfolding v encodeFinAngle_def
    by (rule within_of(1)[OF _ _ _ r raw]) (unfold x, use n in simp_all)
qed


lemma lps_temperature_stable: "numeric_stable decodeLpsTemperature (\<lambda>v. encodeLpsTemperature ovf v e)"
proof (rule numeric_stableI)
  fix raw assume s: "dc_semantic (decodeLpsTemperature raw) = QS_numeric"
  define n where "n = uint raw"
  have raw: "word_of_int n = raw" by (simp add: n_def)
  have n: "0 \<le> n" "n \<le> 200" "\<bar>n\<bar> \<le> 2 ^ 16"
    using s uint_u8[of raw]
    by (auto simp: n_def decodeLpsTemperature_def quantity_simps word_le_def split: if_splits)
  have v: "dc_value (decodeLpsTemperature raw) = dadd (lit (-50)) (dint n)"
    using s by (auto simp only: decodeLpsTemperature_def q_numeric_def q_error_def q_reserved_def decoded.select_convs
      semantic.distinct n_def split: if_splits)
  have x: "dadd (lit (-50)) (dint n) = Fin (of_int (n - 50))"
    using n rnd_int[of "n - 50"] by (simp add: dint_Fin)
  have r: "lround ovf (dadd (dadd (lit (-50)) (dint n)) (lit 50)) = n"
    unfolding x using n rnd_int[of n] fits_small[of n] by simp
  show "encodeLpsTemperature ovf (dc_value (decodeLpsTemperature raw)) e = raw"
    unfolding v encodeLpsTemperature_def
    by (rule within_of(2)[OF _ _ _ r raw]) (unfold x, use n in simp_all)
qed

lemma airspeed_stable: "numeric_stable decodeAirspeed (\<lambda>v. encodeAirspeed ovf v e)"
proof (rule numeric_stableI)
  fix raw assume s: "dc_semantic (decodeAirspeed raw) = QS_numeric"
  define n where "n = uint raw"
  have raw: "word_of_int n = raw" by (simp add: n_def)
  have n: "0 \<le> n" "n \<le> 245" "\<bar>n\<bar> \<le> 2 ^ 16"
    using s uint_u8[of raw]
    by (auto simp: n_def decodeAirspeed_def quantity_simps word_le_def split: if_splits)
  have v: "dc_value (decodeAirspeed raw) = dint n"
    using s by (auto simp only: decodeAirspeed_def q_numeric_def q_error_def q_reserved_def decoded.select_convs
      semantic.distinct n_def split: if_splits)
  have x: "dint n = Fin (of_int n)" using n by (simp add: dint_Fin)
  have r: "lround ovf (dint n) = n"
    using n fits_small[of n] by (simp add: x)
  show "encodeAirspeed ovf (dc_value (decodeAirspeed raw)) e = raw"
    unfolding v encodeAirspeed_def
    by (rule within_of(2)[OF _ _ _ r raw]) (unfold x, use n in simp_all)
qed

lemma lps_top: "rnd_real (2031 * (3602879701896397 / 2 ^ 54)) = 7145945971241780 / 2 ^ 44"
  "rnd_real (800 + 7145945971241780 / 2 ^ 44) = 5304923701693645 / 2 ^ 42"
  using rnd_real_eval[of "2031 * (3602879701896397 / 2 ^ 54)" 44 7145945971241780]
    rnd_real_eval[of "800 + 7145945971241780 / 2 ^ 44" 42 5304923701693645] by simp_all

lemma battery_stable: "numeric_stable decodeBatteryVoltage (\<lambda>v. encodeBatteryVoltage ovf v e)"
proof (rule numeric_stableI)
  fix raw assume s: "dc_semantic (decodeBatteryVoltage raw) = QS_numeric"
  define n where "n = uint raw"
  have raw: "word_of_int n = raw" by (simp add: n_def)
  have n: "0 \<le> n" "n \<le> 240" "\<bar>n\<bar> \<le> 2 ^ 16"
    using s uint_u8[of raw]
    by (auto simp: n_def decodeBatteryVoltage_def quantity_simps word_le_def split: if_splits)
  have v: "dc_value (decodeBatteryVoltage raw) = dmul (dint n) (lit 0.05)"
    using s by (auto simp only: decodeBatteryVoltage_def q_numeric_def q_error_def q_reserved_def decoded.select_convs
      semantic.distinct n_def split: if_splits)
  define y where "y = rnd_real (of_int n * (3602879701896397 / 2 ^ 56))"
  have x: "dmul (dint n) (lit 0.05) = Fin y"
    using scaled_value[OF scales(10) n(3)] rnd_real_literals(3) by (simp add: y_def)
  have y: "0 \<le> y" unfolding y_def using n(1) by (intro rnd_real_nonneg) simp
  have "rnd_real (240 * (3602879701896397 / 2 ^ 56)) = 12"
    using rnd_real_eval[of "240 * (3602879701896397 / 2 ^ 56)" 49 6755399441055744] by simp
  moreover have "y \<le> rnd_real (240 * (3602879701896397 / 2 ^ 56))"
    unfolding y_def using n(2) by (intro rnd_real_mono mult_right_mono) simp_all
  ultimately have y12: "y \<le> 12" by simp
  have r: "lround ovf (ddiv (dmul (dint n) (lit 0.05)) (lit 0.05)) = n"
    by (rule lround_scaled(1)[OF scales(10) n(3)])
  show "encodeBatteryVoltage ovf (dc_value (decodeBatteryVoltage raw)) e = raw"
    unfolding v encodeBatteryVoltage_def
    by (rule within_of(3)[OF _ _ _ r raw]) (unfold x, use y y12 in simp_all)
qed


lemma lit_1206: "lit 1206.2 = Fin (5304923701693645 / 2 ^ 42)"
proof -
  have "lit 1206.2 = rnd (6031 / 5)" by (simp add: lit_def)
  also have "\<dots> = Fin (rnd_real (6031 / 5))" by (rule rnd_finite) simp
  finally show ?thesis unfolding rnd_real_literals .
qed

lemma lps_pressure_stable: "numeric_stable decodeLpsPressure (\<lambda>v. encodeLpsPressure ovf v e)"
proof (rule numeric_stableI)
  fix raw assume s: "dc_semantic (decodeLpsPressure raw) = QS_numeric"
  define n where "n = uint raw"
  have raw: "word_of_int n = raw" by (simp add: n_def)
  have n: "0 \<le> n" "n \<le> 2031" "\<bar>n\<bar> \<le> 2 ^ 16"
    using s uint_u16[of raw]
    by (auto simp: n_def decodeLpsPressure_def quantity_simps word_le_def split: if_splits)
  have v: "dc_value (decodeLpsPressure raw) = dadd (lit 800) (dmul (dint n) (lit 0.2))"
    using s by (auto simp only: decodeLpsPressure_def q_numeric_def q_error_def q_reserved_def decoded.select_convs
      semantic.distinct n_def split: if_splits)
  define c :: real where "c = 3602879701896397 / 2 ^ 54"
  have c: "rnd_real 0.2 = c" "0 \<le> c" using rnd_real_literals(2) by (simp_all add: c_def)
  define y where "y = rnd_real (800 + rnd_real (of_int n * c))"
  have x: "dadd (lit 800) (dmul (dint n) (lit 0.2)) = Fin y"
    using offset_roundtrip(1)[OF scales(7) n(3), of 800, unfolded c(1)] by (simp add: y_def)
  have p: "0 \<le> rnd_real (of_int n * c)" using n(1) c by (intro rnd_real_nonneg) simp
  have y: "800 \<le> y" unfolding y_def using p by (intro rnd_real_ge representable_numeral) simp_all
  have "rnd_real (of_int n * c) \<le> rnd_real (2031 * c)"
    using n(2) c(2) by (intro rnd_real_mono mult_right_mono) simp_all
  then have "y \<le> rnd_real (800 + rnd_real (2031 * c))" unfolding y_def by (intro rnd_real_mono) simp
  then have y2: "y \<le> 5304923701693645 / 2 ^ 42" unfolding c_def lps_top .
  have r: "lround ovf (ddiv (dsub (dadd (lit 800) (dmul (dint n) (lit 0.2))) (lit 800)) (lit 0.2)) = n"
    using lround_offset[OF scales(7) n(3), of 800] by (simp add: dsub_def)
  show "encodeLpsPressure ovf (dc_value (decodeLpsPressure raw)) e = raw"
    unfolding v encodeLpsPressure_def
    by (rule within_of(2)[OF _ _ _ r raw]) (unfold x lit_1206, use y y2 in simp_all)
qed


lemma trunc_of_int [simp]: "trunc (of_int i) = i"
  by (simp add: trunc_def)

lemma flight_elapsed_stable: "numeric_stable decodeFlightElapsed (\<lambda>v. encodeFlightElapsed v e)"
proof (rule numeric_stableI)
  fix raw assume s: "dc_semantic (decodeFlightElapsed raw) = QS_numeric"
  define n where "n = uint raw"
  have raw: "word_of_int n = raw" by (simp add: n_def)
  have n: "0 \<le> n" "n \<le> 239" "\<bar>n\<bar> \<le> 2 ^ 16"
    using s uint_u8[of raw]
    by (auto simp: n_def decodeFlightElapsed_def quantity_simps word_le_def split: if_splits)
  have v: "dc_value (decodeFlightElapsed raw) = dmul (dint n) (lit 0.1)"
    using s by (auto simp only: decodeFlightElapsed_def q_numeric_def q_error_def q_reserved_def decoded.select_convs
      semantic.distinct n_def split: if_splits)
  obtain y where y: "dmul (dint n) (lit 0.1) = Fin y" "0 \<le> y" "y \<le> of_int n / 10 + 1 / 2 ^ 30"
    "dfloor (dmul (Fin y) (lit 10)) = Fin (of_int n)" using n by (rule_tac tenths_floor[of n]) simp_all
  have "of_int n \<le> (239 :: real)" using n(2) of_int_le_iff[of n 239, where 'a = real] by simp
  then have "y < 24" using y(3) by simp
  show "encodeFlightElapsed (dc_value (decodeFlightElapsed raw)) e = raw"
    unfolding v encodeFlightElapsed_def
    unfolding y(1) y(4) using y(2) \<open>y < 24\<close> raw by simp
qed

lemma descent_elapsed_stable: "numeric_stable decodeDescentElapsed (\<lambda>v. encodeDescentElapsed v e)"
proof (rule numeric_stableI)
  fix raw assume s: "dc_semantic (decodeDescentElapsed raw) = QS_numeric"
  define n where "n = uint raw"
  have raw: "word_of_int n = raw" by (simp add: n_def)
  have n: "0 \<le> n" "n \<le> 65519" "\<bar>n\<bar> \<le> 2 ^ 16"
    using s uint_u16[of raw]
    by (auto simp: n_def decodeDescentElapsed_def quantity_simps word_le_def split: if_splits)
  have v: "dc_value (decodeDescentElapsed raw) = dmul (dint n) (lit 0.1)"
    using s by (auto simp only: decodeDescentElapsed_def q_numeric_def q_error_def q_reserved_def decoded.select_convs
      semantic.distinct n_def split: if_splits)
  obtain y where y: "dmul (dint n) (lit 0.1) = Fin y" "0 \<le> y" "y \<le> of_int n / 10 + 1 / 2 ^ 30"
    "dfloor (dmul (Fin y) (lit 10)) = Fin (of_int n)" using n by (rule_tac tenths_floor[of n]) simp_all
  have "of_int n \<le> (65519 :: real)" using n(2) of_int_le_iff[of n 65519, where 'a = real] by simp
  then have "y < 6552" using y(3) by simp
  show "encodeDescentElapsed (dc_value (decodeDescentElapsed raw)) e = raw"
    unfolding v encodeDescentElapsed_def
    unfolding y(1) y(4) using y(2) \<open>y < 6552\<close> raw by simp
qed

lemma recovery_elapsed_stable: "numeric_stable decodeRecoveryElapsed (\<lambda>v. encodeRecoveryElapsed v e)"
proof (rule numeric_stableI)
  fix raw assume s: "dc_semantic (decodeRecoveryElapsed raw) = QS_numeric"
  define n where "n = uint raw"
  have raw: "word_of_int n = raw" by (simp add: n_def)
  have n: "0 \<le> n" "n \<le> 65519" "\<bar>n\<bar> \<le> 2 ^ 16"
    using s uint_u16[of raw]
    by (auto simp: n_def decodeRecoveryElapsed_def quantity_simps word_le_def split: if_splits)
  have v: "dc_value (decodeRecoveryElapsed raw) = dmul (dint n) (lit 10)"
    using s by (auto simp only: decodeRecoveryElapsed_def q_numeric_def q_error_def q_reserved_def decoded.select_convs
      semantic.distinct n_def split: if_splits)
  have x: "dmul (dint n) (lit 10) = Fin (of_int (n * 10))"
    using n rnd_int[of "n * 10"] by (simp add: dint_Fin)
  have d: "ddiv (Fin (of_int (n * 10))) (lit 10) = Fin (of_int n)" using n rnd_int[of n] by simp
  show "encodeRecoveryElapsed (dc_value (decodeRecoveryElapsed raw)) e = raw"
    unfolding v encodeRecoveryElapsed_def
    unfolding x d using n raw by (simp add: dint_Fin)
qed


lemma low_nine: "raw \<le> 0x1FF \<Longrightarrow> raw AND 0x1FF = (raw :: u16)"
proof -
  assume "raw \<le> 0x1FF"
  then have "raw < 2 ^ 9" by (simp add: word_le_def word_less_def)
  then have "take_bit 9 raw = raw" by (simp add: take_bit_word_small)
  then show ?thesis by (simp add: take_bit_eq_mask mask_eq_exp_minus_1)
qed

lemma gnss_height_stable: "numeric_stable decodeGnssHeight (\<lambda>v. encodeGnssHeight ovf v e)"
proof (rule numeric_stableI)
  fix raw assume s: "dc_semantic (decodeGnssHeight raw) = QS_numeric"
  then have le: "\<not> 0x1FF < raw" by (auto simp: decodeGnssHeight_def quantity_simps split: if_splits)
  then have a: "raw AND 0x1FF = raw" by (intro low_nine) simp
  define n where "n = uint raw"
  have raw: "word_of_int n = raw" by (simp add: n_def)
  have n: "0 \<le> n" "n \<le> 495" "\<bar>n\<bar> \<le> 2 ^ 16"
    using s le uint_u16[of raw]
    by (auto simp: decodeGnssHeight_def quantity_simps a Let_def n_def word_le_def split: if_splits)
  have v: "dc_value (decodeGnssHeight raw) = dadd (lit (-100)) (dmul (dint n) (lit 5))"
    using s le by (auto simp only: decodeGnssHeight_def q_numeric_def q_error_def q_reserved_def
      decoded.select_convs semantic.distinct n_def a Let_def split: if_splits)
  have x: "dadd (lit (-100)) (dmul (dint n) (lit 5)) = Fin (of_int (8 * (-100) + n * 40) / 8)"
    using exact_scaled(1)[of n 40] offset_range[of "-100" "n * 40"] n by simp
  have r: "lround ovf (ddiv (dadd (dadd (lit (-100)) (dmul (dint n) (lit 5))) (lit 100)) (lit 5)) = n"
    using lround_offset[OF scales(8) n(3), of "-100"] by simp
  show "encodeGnssHeight ovf (dc_value (decodeGnssHeight raw)) e = raw"
    unfolding v encodeGnssHeight_def
    by (rule within_of(3)[OF _ _ _ r raw]) (unfold x, use n in simp_all)
qed

lemma tilt_direction_stable: "numeric_stable decodeTiltDirection (encodeTiltDirection ovf)"
proof (rule numeric_stableI)
  fix raw assume s: "dc_semantic (decodeTiltDirection raw) = QS_numeric"
  define n where "n = uint raw"
  have raw: "word_of_int n = raw" by (simp add: n_def)
  have n: "0 \<le> n" "n \<le> 359"
    using s uint_u16[of raw]
    by (auto simp: n_def decodeTiltDirection_def quantity_simps word_le_def split: if_splits)
  have v: "dc_value (decodeTiltDirection raw) = Fin (of_int n)"
    using s n by (auto simp: decodeTiltDirection_def quantity_simps dint_Fin n_def split: if_splits)
  have "(of_int n :: real) \<le> 359" using n(2) of_int_le_iff[of n 359, where 'a = real] by simp
  then have "trunc (of_int n / 360) = 0" using n(1) by (simp add: trunc_def floor_eq_iff)
  then have d: "dfmod (Fin (of_int n)) (Fin 360) = Fin (of_int n)" by simp
  have m: "raw mod 360 = raw"
    using n by (intro mod_word_less) (simp add: n_def word_less_def)
  show "encodeTiltDirection ovf (dc_value (decodeTiltDirection raw)) = raw"
    unfolding v encodeTiltDirection_def Let_def lit_numerals d
    using n fits_small[of n] raw m by simp
qed

text \<open>every telemetry quantity is stable on the wire: a code a decoder reads as a number is
  the code the encoder writes for that number, with every intermediate result rounded to binary64,
  whatever \<open>lround\<close> returns outside the range of \<open>long\<close> and whatever error the sender passes.\<close>

theorem numeric_roundtrip:
  "numeric_stable decodeRoll (\<lambda>v. encodeRoll ovf v re)
   \<and> numeric_stable decodeRollRate (\<lambda>v. encodeRollRate ovf v re)
   \<and> numeric_stable decodeTiltMagnitude (\<lambda>v. encodeTiltMagnitude ovf v tilt)
   \<and> numeric_stable decodeTiltDirection (encodeTiltDirection ovf)
   \<and> numeric_stable decodeFinAngle (\<lambda>v. encodeFinAngle ovf v fa)
   \<and> numeric_stable decodeFinRate (\<lambda>v. encodeFinRate ovf v fr)
   \<and> numeric_stable decodeRequestedTorque (\<lambda>v. encodeRequestedTorque ovf v tq)
   \<and> numeric_stable decodeLpsPressure (\<lambda>v. encodeLpsPressure ovf v lp)
   \<and> numeric_stable decodeLpsTemperature (\<lambda>v. encodeLpsTemperature ovf v lt)
   \<and> numeric_stable decodeAirspeed (\<lambda>v. encodeAirspeed ovf v ae)
   \<and> numeric_stable decodeFlightElapsed (\<lambda>v. encodeFlightElapsed v te)
   \<and> numeric_stable decodeDescentElapsed (\<lambda>v. encodeDescentElapsed v te)
   \<and> numeric_stable decodeRecoveryElapsed (\<lambda>v. encodeRecoveryElapsed v te)
   \<and> numeric_stable decodeGnssOffset (\<lambda>v. encodeGnssOffset ovf v ge)
   \<and> numeric_stable decodeGnssHeight (\<lambda>v. encodeGnssHeight ovf v he)
   \<and> numeric_stable decodeParachuteAngle (\<lambda>v. encodeParachuteAngle ovf v pa)
   \<and> numeric_stable decodeBatteryVoltage (\<lambda>v. encodeBatteryVoltage ovf v ba)"
  by (intro conjI roll_stable roll_rate_stable tilt_magnitude_stable tilt_direction_stable
    fin_angle_stable fin_rate_stable torque_stable lps_pressure_stable lps_temperature_stable
    airspeed_stable flight_elapsed_stable descent_elapsed_stable recovery_elapsed_stable
    gnss_offset_stable gnss_height_stable parachute_angle_stable battery_stable)

end
