(* ===== verification/Quantization_Accuracy.thy ===== *)
theory Quantization_Accuracy
  imports Quantization
begin

text \<open>
  What \<open>src/protocol/quantization.cpp\<close> loses: a double in the range of a quantity comes back as a
  number within half a step, or truncated to the step for the elapsed times.
\<close>

section \<open>The quantisation error\<close>

lemma round_away_error: "\<bar>of_int (round_away d) - d\<bar> \<le> 1 / 2"
proof -
  have "of_int \<lfloor>d + 1 / 2\<rfloor> \<le> d + 1 / 2" "d + 1 / 2 < of_int \<lfloor>d + 1 / 2\<rfloor> + 1"
    "of_int \<lfloor>1 / 2 - d\<rfloor> \<le> 1 / 2 - d" "1 / 2 - d < of_int \<lfloor>1 / 2 - d\<rfloor> + 1" by linarith+
  then show ?thesis unfolding round_away_def abs_le_iff
    by (cases "0 \<le> d"; simp only: if_True if_False of_int_minus; linarith)
qed

lemma encode_near:
  assumes "scale_ok s" "\<bar>a\<bar> \<le> 2 ^ 12" "\<bar>x\<bar> \<le> 2 ^ 18"
  defines "c \<equiv> rnd_real s"
  defines "d \<equiv> rnd_real (rnd_real (x - of_int a) / c)"
  shows "ddiv (dadd (Fin x) (Fin (- of_int a))) (lit s) = Fin d"
    "\<bar>d - (x - of_int a) / s\<bar> < 1 / 4"
    "\<bar>of_int (round_away d) * c - (x - of_int a)\<bar> \<le> s / 2 + 1 / 2 ^ 18"
proof -
  note c = scale_rounded[OF assms(1), folded c_def]
  have s: "1 / 600 \<le> s" "s \<le> 8" using assms(1) by (simp_all add: scale_ok_def)
  have cs: "\<bar>c - s\<bar> \<le> 1 / 2 ^ 43" using lit_close(2)[of s] s by (simp add: c_def)
  have cs': "c \<le> s + 1 / 2 ^ 43" using cs by linarith
  define z where "z = x - of_int a"
  have "\<bar>of_int a :: real\<bar> \<le> 4096" using abs_of_int_le[OF assms(2)] by simp
  then have z: "\<bar>z\<bar> \<le> 2 ^ 19" using assms(3) by (simp add: z_def)
  define q where "q = rnd_real z"
  have q: "rnd z = Fin q" "\<bar>q - z\<bar> \<le> 1 / 2 ^ 34"
    using z rnd_finite[of z] rnd_abs_error[OF z] by (simp_all add: q_def)
  have "\<bar>q\<bar> \<le> 2 ^ 20" by (rule order_trans[OF near_abs[OF q(2) z]]) simp
  then have "\<bar>q / c\<bar> \<le> 2 ^ 20 / (1 / 1000)" using c(2) unfolding abs_divide by (intro frac_le) simp_all
  then have qc: "\<bar>q / c\<bar> \<le> 2 ^ 30" by simp
  have d: "rnd (q / c) = Fin d" "\<bar>d - q / c\<bar> \<le> 1 / 2 ^ 23"
    using qc rnd_finite[of "q / c"] rnd_abs_error[OF qc] by (simp_all add: d_def q_def z_def)
  show "ddiv (dadd (Fin x) (Fin (- of_int a))) (lit s) = Fin d"
    using c(1,2) d(1) q(1) by (simp add: z_def)
  have e1: "\<bar>q / c - z / c\<bar> \<le> 1 / 2 ^ 24"
  proof -
    have "\<bar>q / c - z / c\<bar> = \<bar>q - z\<bar> / c" using c(2) by (simp add: diff_divide_distrib[symmetric])
    also have "\<dots> \<le> (1 / 2 ^ 34) / (1 / 1000)" using q(2) c(2) by (intro frac_le) simp_all
    finally show ?thesis by simp
  qed
  have e2: "\<bar>z / c - z / s\<bar> \<le> 1 / 8"
  proof -
    have "z / c - z / s = z * (s - c) / (c * s)" using c(2) s by (simp add: field_simps)
    then have "\<bar>z / c - z / s\<bar> = \<bar>z\<bar> * \<bar>c - s\<bar> / (c * s)" using c(2) s by (simp add: abs_mult abs_minus_commute)
    also have "\<dots> \<le> (2 ^ 19 * (1 / 2 ^ 43)) / (1 / 1000 * (1 / 600))"
      using z cs c(2) s by (intro frac_le mult_mono) simp_all
    finally show ?thesis by simp
  qed
  have "\<bar>d - z / s\<bar> \<le> 1 / 2 ^ 23 + (1 / 2 ^ 24 + 1 / 8)"
    using d(2) e1 e2 by linarith
  then show "\<bar>d - (x - of_int a) / s\<bar> < 1 / 4" by (simp add: z_def)
  note r = round_away_error[of d]
  have "\<bar>of_int (round_away d) - z / c\<bar> \<le> 1 / 2 + (1 / 2 ^ 23 + 1 / 2 ^ 24)"
    using r d(2) e1 by linarith
  then have k: "\<bar>of_int (round_away d) - z / c\<bar> \<le> 1 / 2 + 1 / 2 ^ 22" by simp
  have "of_int (round_away d) * c - z = (of_int (round_away d) - z / c) * c" using c(2) by (simp add: field_simps)
  then have "\<bar>of_int (round_away d) * c - z\<bar> = \<bar>of_int (round_away d) - z / c\<bar> * c"
    using c(2) by (simp add: abs_mult)
  also have "\<dots> \<le> (1 / 2 + 1 / 2 ^ 22) * c" using k c(2) by (intro mult_right_mono) simp_all
  also have "\<dots> = c / 2 + c / 2 ^ 22" by (simp add: algebra_simps)
  also have "\<dots> \<le> (s + 1 / 2 ^ 43) / 2 + 8 / 2 ^ 22" using cs' c(3) by (intro add_mono divide_right_mono) simp_all
  also have "\<dots> \<le> s / 2 + 1 / 2 ^ 18" by (simp add: add_divide_distrib)
  finally show "\<bar>of_int (round_away d) * c - (x - of_int a)\<bar> \<le> s / 2 + 1 / 2 ^ 18"
    by (simp add: z_def)
qed

lemma encode_count:
  assumes "scale_ok s" "\<bar>a\<bar> \<le> 2 ^ 12" "\<bar>x\<bar> \<le> 2 ^ 18" "\<bar>l\<bar> \<le> 2 ^ 16" "\<bar>h\<bar> \<le> 2 ^ 16"
    "of_int a + of_int l * s \<le> x" "x \<le> of_int a + of_int h * s"
  obtains n y where "\<And>ovf. lround ovf (ddiv (dadd (Fin x) (Fin (- of_int a))) (lit s)) = n"
    "l \<le> n" "n \<le> h" "\<bar>n\<bar> \<le> 2 ^ 16"
    "dadd (Fin (of_int a)) (dmul (dint n) (lit s)) = Fin y" "\<bar>y - x\<bar> \<le> s / 2 + 1 / 2 ^ 17"
proof -
  define d where "d = rnd_real (rnd_real (x - of_int a) / rnd_real s)"
  define n where "n = round_away d"
  note e = encode_near[OF assms(1-3), folded d_def]
  have s: "0 < s" using assms(1) by (simp add: scale_ok_def)
  have "of_int l * s \<le> x - of_int a" "x - of_int a \<le> of_int h * s" using assms(6,7) by linarith+
  then have "of_int l \<le> (x - of_int a) / s" "(x - of_int a) / s \<le> of_int h"
    using s by (simp_all add: pos_le_divide_eq pos_divide_le_eq)
  then have "of_int l - 1 / 2 < d" "d < of_int h + 1 / 2" using e(2) by linarith+
  then have n: "l \<le> n" "n \<le> h" unfolding n_def by (auto intro: round_away_bounds)
  have n16: "\<bar>n\<bar> \<le> 2 ^ 16" using n assms(4,5) by linarith
  define y where "y = rnd_real (of_int a + rnd_real (of_int n * rnd_real s))"
  note o = offset_roundtrip(1,2)[OF assms(1) n16 assms(2), folded y_def]
  have "lround ovf (ddiv (dadd (Fin x) (Fin (- of_int a))) (lit s)) = n" for ovf
    using fits_small[OF n16] by (simp add: e(1) n_def del: dadd.simps)
  moreover have "\<bar>y - x\<bar> \<le> 1 / 2 ^ 32 + (s / 2 + 1 / 2 ^ 18)"
    using o(2) e(3) unfolding n_def[symmetric] by linarith
  then have "\<bar>y - x\<bar> \<le> s / 2 + 1 / 2 ^ 17" by simp
  ultimately show thesis using that[of n y] n n16 o(1) by blast
qed

lemma encode_count0:
  assumes "scale_ok s" "representable x" "\<bar>x\<bar> \<le> 2 ^ 18" "\<bar>l\<bar> \<le> 2 ^ 16" "\<bar>h\<bar> \<le> 2 ^ 16"
    "of_int l * s \<le> x" "x \<le> of_int h * s"
  obtains n y where "\<And>ovf. lround ovf (ddiv (Fin x) (lit s)) = n"
    "l \<le> n" "n \<le> h" "dmul (dint n) (lit s) = Fin y" "\<bar>y - x\<bar> \<le> s / 2 + 1 / 2 ^ 17"
proof -
  obtain n y where n: "\<And>ovf. lround ovf (ddiv (dadd (Fin x) (Fin (- of_int 0))) (lit s)) = n"
    "l \<le> n" "n \<le> h" "\<bar>n\<bar> \<le> 2 ^ 16"
    "dadd (Fin (of_int 0)) (dmul (dint n) (lit s)) = Fin y" "\<bar>y - x\<bar> \<le> s / 2 + 1 / 2 ^ 17"
    by (rule encode_count[OF assms(1), of 0 x l h]) (use assms(3-) in auto)
  have "x < max_dbl_bound" "\<bar>x\<bar> < max_dbl_bound"
    using assms(3) by (intro max_dbl_bound_numeral; simp)+
  then have x: "dadd (Fin x) (Fin 0) = Fin x" using rnd_Fin_exact[OF assms(2)] by simp
  define p where "p = rnd_real (of_int n * rnd_real s)"
  have m: "dmul (dint n) (lit s) = Fin p" unfolding p_def by (rule scaled_value[OF assms(1) n(4)])
  have "rnd_real p = p" unfolding p_def by (rule rnd_real_exact[OF rnd_real_representable])
  then have "y = p" using n(5) unfolding m by (auto simp: rnd_def Let_def split: if_splits)
  then show thesis using that[of n y] n x m by simp
qed

text \<open>A quantity is accurate on an interval when every double of it is sent as a number that differs
  from it by at most half a step, up to a binary rounding below \<open>1 / 2 ^ 17\<close>.\<close>

definition accurate :: "('r \<Rightarrow> 'r decoded) \<Rightarrow> (dbl \<Rightarrow> 'r) \<Rightarrow> real \<Rightarrow> real \<Rightarrow> real \<Rightarrow> bool" where
  "accurate decode encode lo hi step =
     (\<forall>x. representable x \<and> lo \<le> x \<and> x \<le> hi \<longrightarrow>
        (\<exists>y. decode (encode (Fin x)) = q_numeric (encode (Fin x)) (Fin y)
          \<and> \<bar>y - x\<bar> \<le> step / 2 + 1 / 2 ^ 17))"

lemma accurateI:
  assumes "\<And>x. representable x \<Longrightarrow> lo \<le> x \<Longrightarrow> x \<le> hi \<Longrightarrow> \<exists>raw y. encode (Fin x) = raw
     \<and> decode raw = q_numeric raw (Fin y) \<and> \<bar>y - x\<bar> \<le> step / 2 + 1 / 2 ^ 17"
  shows "accurate decode encode lo hi step"
  unfolding accurate_def using assms by fastforce

lemma sint_signedRaw: "- 32768 \<le> n \<Longrightarrow> n \<le> 32767 \<Longrightarrow> sint (signedRaw n 16) = n"
proof -
  assume n: "- 32768 \<le> n" "n \<le> 32767"
  have "n mod 65536 = (if 0 \<le> n then n else n + 65536)"
    using n mod_negative[of 65536 n] by (auto simp: mod_pos_pos_trivial)
  then have "uint (signedRaw n 16) = (if 0 \<le> n then n else n + 65536)"
    by (simp add: signedRaw_mod uint_word_of_int)
  then show ?thesis using n unfolding sint_u16 by auto
qed

lemma uint_small_word:
  "0 \<le> n \<Longrightarrow> n < 65536 \<Longrightarrow> uint (word_of_int n :: u16) = n"
  "0 \<le> n \<Longrightarrow> n < 256 \<Longrightarrow> uint (word_of_int n :: u8) = n"
  by (simp_all add: uint_word_of_int)

lemma tilt_magnitude_accurate: "accurate decodeTiltMagnitude (\<lambda>v. encodeTiltMagnitude ovf v e) 0 90 0.75"
proof (rule accurateI)
  fix x :: real assume x: "representable x" "0 \<le> x" "x \<le> 90"
  obtain n y where n: "\<And>ovf. lround ovf (ddiv (Fin x) (lit 0.75)) = n" "0 \<le> n" "n \<le> 120"
    "dmul (dint n) (lit 0.75) = Fin y" "\<bar>y - x\<bar> \<le> 0.75 / 2 + 1 / 2 ^ 17"
    by (rule encode_count0[OF scales(3) x(1), of 0 120]) (use x in auto)
  have "encodeTiltMagnitude ovf (Fin x) e = word_of_int n"
    unfolding encodeTiltMagnitude_def n(1) using x by simp
  moreover have "decodeTiltMagnitude (word_of_int n) = q_numeric (word_of_int n) (Fin y)"
    unfolding decodeTiltMagnitude_def using n(2,3) by (simp add: word_le_def uint_small_word n(4)[simplified])
  ultimately show "\<exists>raw y. encodeTiltMagnitude ovf (Fin x) e = raw \<and> decodeTiltMagnitude raw = q_numeric raw (Fin y)
     \<and> \<bar>y - x\<bar> \<le> 0.75 / 2 + 1 / 2 ^ 17" using n(5) by blast
qed

lemma parachute_angle_accurate: "accurate decodeParachuteAngle (\<lambda>v. encodeParachuteAngle ovf v e) 0 360 1.5"
proof (rule accurateI)
  fix x :: real assume x: "representable x" "0 \<le> x" "x \<le> 360"
  obtain n y where n: "\<And>ovf. lround ovf (ddiv (Fin x) (lit 1.5)) = n" "0 \<le> n" "n \<le> 240"
    "dmul (dint n) (lit 1.5) = Fin y" "\<bar>y - x\<bar> \<le> 1.5 / 2 + 1 / 2 ^ 17"
    by (rule encode_count0[OF scales(9) x(1), of 0 240]) (use x in auto)
  have "encodeParachuteAngle ovf (Fin x) e = word_of_int n"
    unfolding encodeParachuteAngle_def n(1) using x by simp
  moreover have "decodeParachuteAngle (word_of_int n) = q_numeric (word_of_int n) (Fin y)"
    unfolding decodeParachuteAngle_def using n(2,3) by (simp add: word_le_def uint_small_word n(4)[simplified])
  ultimately show "\<exists>raw y. encodeParachuteAngle ovf (Fin x) e = raw \<and> decodeParachuteAngle raw = q_numeric raw (Fin y)
     \<and> \<bar>y - x\<bar> \<le> 1.5 / 2 + 1 / 2 ^ 17" using n(5) by blast
qed

lemma battery_accurate: "accurate decodeBatteryVoltage (\<lambda>v. encodeBatteryVoltage ovf v e) 0 12 0.05"
proof (rule accurateI)
  fix x :: real assume x: "representable x" "0 \<le> x" "x \<le> 12"
  obtain n y where n: "\<And>ovf. lround ovf (ddiv (Fin x) (lit 0.05)) = n" "0 \<le> n" "n \<le> 240"
    "dmul (dint n) (lit 0.05) = Fin y" "\<bar>y - x\<bar> \<le> 0.05 / 2 + 1 / 2 ^ 17"
    by (rule encode_count0[OF scales(10) x(1), of 0 240]) (use x in auto)
  have "encodeBatteryVoltage ovf (Fin x) e = word_of_int n"
    unfolding encodeBatteryVoltage_def n(1) using x by simp
  moreover have "decodeBatteryVoltage (word_of_int n) = q_numeric (word_of_int n) (Fin y)"
    unfolding decodeBatteryVoltage_def using n(2,3) by (simp add: word_le_def uint_small_word n(4)[simplified])
  ultimately show "\<exists>raw y. encodeBatteryVoltage ovf (Fin x) e = raw \<and> decodeBatteryVoltage raw = q_numeric raw (Fin y)
     \<and> \<bar>y - x\<bar> \<le> 0.05 / 2 + 1 / 2 ^ 17" using n(5) by blast
qed

lemma roll_accurate: "accurate decodeRoll (\<lambda>v. encodeRoll ovf v e) (- 16376) 16383.5 0.5"
proof (rule accurateI)
  fix x :: real assume x: "representable x" "- 16376 \<le> x" "x \<le> 16383.5"
  obtain n y where n: "\<And>ovf. lround ovf (ddiv (Fin x) (lit 0.5)) = n" "- 32752 \<le> n" "n \<le> 32767"
    "dmul (dint n) (lit 0.5) = Fin y" "\<bar>y - x\<bar> \<le> 0.5 / 2 + 1 / 2 ^ 17"
    by (rule encode_count0[OF scales(1) x(1), of "- 32752" 32767]) (use x in auto)
  have "encodeRoll ovf (Fin x) e = signedRaw n 16"
    unfolding encodeRoll_def n(1) using n(2,3) by simp
  moreover have "decodeRoll (signedRaw n 16) = q_numeric (signedRaw n 16) (Fin y)"
    unfolding decodeRoll_def using signedRaw_numeric[OF n(2,3)] n(2,3)
    by (auto simp: sint_signedRaw n(4)[simplified] word_le_def)
  ultimately show "\<exists>raw y. encodeRoll ovf (Fin x) e = raw \<and> decodeRoll raw = q_numeric raw (Fin y)
     \<and> \<bar>y - x\<bar> \<le> 0.5 / 2 + 1 / 2 ^ 17" using n(5) by blast
qed

lemma roll_rate_accurate: "accurate decodeRollRate (\<lambda>v. encodeRollRate ovf v e) (- 3275.2) 3276.7 0.1"
proof (rule accurateI)
  fix x :: real assume x: "representable x" "- 3275.2 \<le> x" "x \<le> 3276.7"
  obtain n y where n: "\<And>ovf. lround ovf (ddiv (Fin x) (lit 0.1)) = n" "- 32752 \<le> n" "n \<le> 32767"
    "dmul (dint n) (lit 0.1) = Fin y" "\<bar>y - x\<bar> \<le> 0.1 / 2 + 1 / 2 ^ 17"
    by (rule encode_count0[OF scales(2) x(1), of "- 32752" 32767]) (use x in auto)
  have "encodeRollRate ovf (Fin x) e = signedRaw n 16"
    unfolding encodeRollRate_def n(1) using n(2,3) by simp
  moreover have "decodeRollRate (signedRaw n 16) = q_numeric (signedRaw n 16) (Fin y)"
    unfolding decodeRollRate_def using signedRaw_numeric[OF n(2,3)] n(2,3)
    by (auto simp: sint_signedRaw n(4)[simplified] word_le_def)
  ultimately show "\<exists>raw y. encodeRollRate ovf (Fin x) e = raw \<and> decodeRollRate raw = q_numeric raw (Fin y)
     \<and> \<bar>y - x\<bar> \<le> 0.1 / 2 + 1 / 2 ^ 17" using n(5) by blast
qed

lemma fin_rate_accurate: "accurate decodeFinRate (\<lambda>v. encodeFinRate ovf v e) (- 655.04) 655.34 0.02"
proof (rule accurateI)
  fix x :: real assume x: "representable x" "- 655.04 \<le> x" "x \<le> 655.34"
  obtain n y where n: "\<And>ovf. lround ovf (ddiv (Fin x) (lit 0.02)) = n" "- 32752 \<le> n" "n \<le> 32767"
    "dmul (dint n) (lit 0.02) = Fin y" "\<bar>y - x\<bar> \<le> 0.02 / 2 + 1 / 2 ^ 17"
    by (rule encode_count0[OF scales(5) x(1), of "- 32752" 32767]) (use x in auto)
  have "encodeFinRate ovf (Fin x) e = signedRaw n 16"
    unfolding encodeFinRate_def n(1) using n(2,3) by simp
  moreover have "decodeFinRate (signedRaw n 16) = q_numeric (signedRaw n 16) (Fin y)"
    unfolding decodeFinRate_def using signedRaw_numeric[OF n(2,3)] n(2,3)
    by (auto simp: sint_signedRaw n(4)[simplified] word_le_def)
  ultimately show "\<exists>raw y. encodeFinRate ovf (Fin x) e = raw \<and> decodeFinRate raw = q_numeric raw (Fin y)
     \<and> \<bar>y - x\<bar> \<le> 0.02 / 2 + 1 / 2 ^ 17" using n(5) by blast
qed

lemma uint_16_12: "0 \<le> n \<Longrightarrow> n < 4096 \<Longrightarrow> (word_of_int n :: u16) \<le> 0xFFF"
  by (simp add: word_le_def uint_small_word)

lemma torque_accurate:
  "accurate decodeRequestedTorque (\<lambda>v. encodeRequestedTorque ovf v e) (- 4.064) 4.094 0.002"
proof (rule accurateI)
  fix x :: real assume x: "representable x" "- 4.064 \<le> x" "x \<le> 4.094"
  obtain n y where n: "\<And>ovf. lround ovf (ddiv (Fin x) (lit 0.002)) = n" "- 2032 \<le> n" "n \<le> 2047"
    "dmul (dint n) (lit 0.002) = Fin y" "\<bar>y - x\<bar> \<le> 0.002 / 2 + 1 / 2 ^ 17"
    by (rule encode_count0[OF scales(6) x(1), of "- 2032" 2047]) (use x in auto)
  define m where "m = (if 0 \<le> n then n else n + 4096)"
  define raw where "raw = (word_of_int m :: u16)"
  have m: "0 \<le> m" "m < 4096" "\<not> (2048 \<le> m \<and> m \<le> 2063)"
    using n(2,3) by (simp_all add: m_def)
  have "n mod 4096 = m" using n(2,3) mod_negative[of 4096 n] by (simp add: m_def mod_pos_pos_trivial)
  then have e: "encodeRequestedTorque ovf (Fin x) e = raw"
    unfolding encodeRequestedTorque_def n(1) using n(2,3) by (simp add: signedRaw_mod raw_def)
  have u: "uint raw = m" using m by (simp add: raw_def uint_small_word)
  have le: "raw \<le> 0xFFF" unfolding raw_def using m by (intro uint_16_12)
  have "signedValue raw 12 = n"
    using signedValue_12[OF le] n(2,3) by (simp add: word_less_def u m_def split: if_splits)
  then have "decodeRequestedTorque raw = q_numeric raw (Fin y)"
    using m(3) le n(4)
    by (auto simp add: decodeRequestedTorque_def low_twelve Let_def word_le_def word_less_def u)
  then show "\<exists>raw y. encodeRequestedTorque ovf (Fin x) e = raw
     \<and> decodeRequestedTorque raw = q_numeric raw (Fin y) \<and> \<bar>y - x\<bar> \<le> 0.002 / 2 + 1 / 2 ^ 17"
    using e n(5) by blast
qed

lemma round_away_range: "of_int l \<le> x \<Longrightarrow> x \<le> of_int h \<Longrightarrow> l \<le> round_away x \<and> round_away x \<le> h"
  by (auto intro!: round_away_bounds)

lemma gnss_offset_accurate:
  "accurate decodeGnssOffset (\<lambda>v. encodeGnssOffset ovf v e) (- 32752) 32767 1"
proof (rule accurateI)
  fix x :: real assume x: "representable x" "- 32752 \<le> x" "x \<le> 32767"
  define n where "n = round_away x"
  have n: "- 32752 \<le> n" "n \<le> 32767"
    using round_away_range[of "- 32752" x 32767] x by (simp_all add: n_def)
  then have "fits_long n" by (simp add: fits_long_def)
  then have "encodeGnssOffset ovf (Fin x) e = signedRaw n 16"
    unfolding encodeGnssOffset_def using n by (simp add: n_def[symmetric])
  moreover have "decodeGnssOffset (signedRaw n 16) = q_numeric (signedRaw n 16) (Fin (of_int n))"
    unfolding decodeGnssOffset_def using signedRaw_numeric[OF n] n dint_Fin[of n]
    by (auto simp: sint_signedRaw word_le_def)
  moreover have "\<bar>of_int n - x\<bar> \<le> 1 / 2 + 1 / 2 ^ 17"
    using round_away_error[of x] by (simp add: n_def)
  ultimately show "\<exists>raw y. encodeGnssOffset ovf (Fin x) e = raw
     \<and> decodeGnssOffset raw = q_numeric raw (Fin y) \<and> \<bar>y - x\<bar> \<le> 1 / 2 + 1 / 2 ^ 17" by blast
qed

lemma airspeed_accurate: "accurate decodeAirspeed (\<lambda>v. encodeAirspeed ovf v e) 0 245 1"
proof (rule accurateI)
  fix x :: real assume x: "representable x" "0 \<le> x" "x \<le> 245"
  define n where "n = round_away x"
  have n: "0 \<le> n" "n \<le> 245"
    using round_away_range[of 0 x 245] x by (simp_all add: n_def)
  then have "fits_long n" by (simp add: fits_long_def)
  then have "encodeAirspeed ovf (Fin x) e = word_of_int n"
    unfolding encodeAirspeed_def using x by (simp add: n_def[symmetric])
  moreover have "decodeAirspeed (word_of_int n) = q_numeric (word_of_int n) (Fin (of_int n))"
    unfolding decodeAirspeed_def using n dint_Fin[of n] by (simp add: uint_small_word word_le_def)
  moreover have "\<bar>of_int n - x\<bar> \<le> 1 / 2 + 1 / 2 ^ 17"
    using round_away_error[of x] by (simp add: n_def)
  ultimately show "\<exists>raw y. encodeAirspeed ovf (Fin x) e = raw
     \<and> decodeAirspeed raw = q_numeric raw (Fin y) \<and> \<bar>y - x\<bar> \<le> 1 / 2 + 1 / 2 ^ 17" by blast
qed

lemma fin_angle_accurate: "accurate decodeFinAngle (\<lambda>v. encodeFinAngle ovf v e) (- 15) 15 0.125"
proof (rule accurateI)
  fix x :: real assume x: "representable x" "- 15 \<le> x" "x \<le> 15"
  obtain n y where n: "\<And>ovf. lround ovf (ddiv (dadd (Fin x) (Fin (- of_int (- 15)))) (lit 0.125)) = n" "0 \<le> n" "n \<le> 240"
    "dadd (Fin (of_int (- 15))) (dmul (dint n) (lit 0.125)) = Fin y" "\<bar>y - x\<bar> \<le> 0.125 / 2 + 1 / 2 ^ 17"
    by (rule encode_count[OF scales(4), of "- 15" x 0 240]) (use x in auto)
  have l: "lround ovf (ddiv (dadd (Fin x) (lit 15)) (lit 0.125)) = n" using n(1) by (simp add: dsub_def)
  have "encodeFinAngle ovf (Fin x) e = word_of_int n"
    unfolding encodeFinAngle_def l using x by (simp)
  moreover have "decodeFinAngle (word_of_int n) = q_numeric (word_of_int n) (Fin y)"
    unfolding decodeFinAngle_def using n(2,3) n(4) by (simp add: word_le_def word_less_def uint_small_word)
  ultimately show "\<exists>raw y. encodeFinAngle ovf (Fin x) e = raw \<and> decodeFinAngle raw = q_numeric raw (Fin y)
     \<and> \<bar>y - x\<bar> \<le> 0.125 / 2 + 1 / 2 ^ 17" using n(5) by blast
qed

lemma lps_pressure_accurate: "accurate decodeLpsPressure (\<lambda>v. encodeLpsPressure ovf v e) (800) 1206.2 0.2"
proof (rule accurateI)
  fix x :: real assume x: "representable x" "800 \<le> x" "x \<le> 1206.2"
  obtain n y where n: "\<And>ovf. lround ovf (ddiv (dadd (Fin x) (Fin (- of_int (800)))) (lit 0.2)) = n" "0 \<le> n" "n \<le> 2031"
    "dadd (Fin (of_int (800))) (dmul (dint n) (lit 0.2)) = Fin y" "\<bar>y - x\<bar> \<le> 0.2 / 2 + 1 / 2 ^ 17"
    by (rule encode_count[OF scales(7), of "800" x 0 2031]) (use x in auto)
  have l: "lround ovf (ddiv (dsub (Fin x) (lit 800)) (lit 0.2)) = n" using n(1) by (simp add: dsub_def)
  have "encodeLpsPressure ovf (Fin x) e = word_of_int n"
    unfolding encodeLpsPressure_def l using x by (simp add: lit_1206[simplified])
  moreover have "decodeLpsPressure (word_of_int n) = q_numeric (word_of_int n) (Fin y)"
    unfolding decodeLpsPressure_def using n(2,3) n(4) by (simp add: word_le_def word_less_def uint_small_word)
  ultimately show "\<exists>raw y. encodeLpsPressure ovf (Fin x) e = raw \<and> decodeLpsPressure raw = q_numeric raw (Fin y)
     \<and> \<bar>y - x\<bar> \<le> 0.2 / 2 + 1 / 2 ^ 17" using n(5) by blast
qed

lemma gnss_height_accurate: "accurate decodeGnssHeight (\<lambda>v. encodeGnssHeight ovf v e) (- 100) 2375 5"
proof (rule accurateI)
  fix x :: real assume x: "representable x" "- 100 \<le> x" "x \<le> 2375"
  obtain n y where n: "\<And>ovf. lround ovf (ddiv (dadd (Fin x) (Fin (- of_int (- 100)))) (lit 5)) = n" "0 \<le> n" "n \<le> 495"
    "dadd (Fin (of_int (- 100))) (dmul (dint n) (lit 5)) = Fin y" "\<bar>y - x\<bar> \<le> 5 / 2 + 1 / 2 ^ 17"
    by (rule encode_count[OF scales(8), of "- 100" x 0 495]) (use x in auto)
  have l: "lround ovf (ddiv (dadd (Fin x) (lit 100)) (lit 5)) = n" using n(1) by (simp add: dsub_def)
  have "encodeGnssHeight ovf (Fin x) e = word_of_int n"
    unfolding encodeGnssHeight_def l using x by (simp)
  moreover have "decodeGnssHeight (word_of_int n) = q_numeric (word_of_int n) (Fin y)"
    unfolding decodeGnssHeight_def using n(2,3) n(4) by (simp add: word_le_def word_less_def uint_small_word low_nine Let_def)
  ultimately show "\<exists>raw y. encodeGnssHeight ovf (Fin x) e = raw \<and> decodeGnssHeight raw = q_numeric raw (Fin y)
     \<and> \<bar>y - x\<bar> \<le> 5 / 2 + 1 / 2 ^ 17" using n(5) by blast
qed

lemma lps_temperature_accurate:
  "accurate decodeLpsTemperature (\<lambda>v. encodeLpsTemperature ovf v e) (- 50) 150 1"
proof (rule accurateI)
  fix x :: real assume x: "representable x" "- 50 \<le> x" "x \<le> 150"
  define z where "z = rnd_real (x + 50)"
  define n where "n = round_away z"
  have b: "\<bar>x + 50\<bar> \<le> 2 ^ 8" using x by simp
  have z: "dadd (Fin x) (Fin 50) = Fin z" "\<bar>z - (x + 50)\<bar> \<le> 1 / 2 ^ 45"
    using b rnd_finite[of "x + 50"] rnd_abs_error[OF b] by (simp_all add: z_def)
  have "0 \<le> z" unfolding z_def using x by (intro rnd_real_nonneg) simp
  moreover have "z \<le> 200" unfolding z_def using x by (intro rnd_real_le representable_numeral) simp_all
  ultimately have n: "0 \<le> n" "n \<le> 200"
    using round_away_range[of 0 z 200] by (simp_all add: n_def)
  then have "fits_long n" by (simp add: fits_long_def)
  then have "encodeLpsTemperature ovf (Fin x) e = word_of_int n"
    unfolding encodeLpsTemperature_def using x z(1) by (simp add: n_def[symmetric])
  moreover have "decodeLpsTemperature (word_of_int n) = q_numeric (word_of_int n) (Fin (of_int (n - 50)))"
    unfolding decodeLpsTemperature_def using n dint_Fin[of n] rnd_int[of "n - 50"]
    by (simp add: uint_small_word word_le_def)
  moreover have "\<bar>of_int (n - 50) - x\<bar> \<le> 1 / 2 + 1 / 2 ^ 45"
    using round_away_error[of z] z(2) unfolding n_def[symmetric] of_int_diff abs_le_iff by simp
  then have "\<bar>of_int (n - 50) - x\<bar> \<le> 1 / 2 + 1 / 2 ^ 17" by simp
  ultimately show "\<exists>raw y. encodeLpsTemperature ovf (Fin x) e = raw
     \<and> decodeLpsTemperature raw = q_numeric raw (Fin y) \<and> \<bar>y - x\<bar> \<le> 1 / 2 + 1 / 2 ^ 17" by blast
qed

text \<open>An elapsed time is truncated: the number sent is the last step that has begun.\<close>

definition truncated :: "('r \<Rightarrow> 'r decoded) \<Rightarrow> (dbl \<Rightarrow> 'r) \<Rightarrow> real \<Rightarrow> real \<Rightarrow> bool" where
  "truncated decode encode hi step =
     (\<forall>x. representable x \<and> 0 \<le> x \<and> x < hi \<longrightarrow>
        (\<exists>y. decode (encode (Fin x)) = q_numeric (encode (Fin x)) (Fin y)
          \<and> y \<le> x + 1 / 2 ^ 17 \<and> x < y + step + 1 / 2 ^ 17))"

lemma tenths_below:
  assumes "representable x" "x < 24" shows "rnd_real (x * 10) < 240"
proof -
  have "x \<le> (of_int (24 * 2 ^ 48) - 1) / 2 ^ 48"
    by (rule representable_step_below[OF assms(1)]) (use assms(2) in simp_all)
  then have "x * 10 \<le> of_int (240 * 2 ^ 45 - 1) / 2 ^ 45" by simp
  then have "rnd_real (x * 10) \<le> of_int (240 * 2 ^ 45 - 1) / 2 ^ 45"
    by (intro rnd_real_le representable_scaled) simp_all
  also have "\<dots> < 240" by simp
  finally show ?thesis .
qed

lemma tenths_below_long:
  assumes "representable x" "x < 6552" shows "rnd_real (x * 10) < 65520"
proof -
  have "x \<le> (of_int (6552 * 2 ^ 40) - 1) / 2 ^ 40"
    by (rule representable_step_below[OF assms(1)]) (use assms(2) in simp_all)
  then have "x * 10 \<le> of_int (65520 * 2 ^ 37 - 1) / 2 ^ 37" by simp
  then have "rnd_real (x * 10) \<le> of_int (65520 * 2 ^ 37 - 1) / 2 ^ 37"
    by (intro rnd_real_le representable_scaled) simp_all
  also have "\<dots> < 65520" by simp
  finally show ?thesis .
qed

lemma tenth_near:
  assumes "m \<le> x * 10 + e" "x * 10 < m + 1 + e" "\<bar>y - m / 10\<bar> \<le> f"
  shows "y \<le> x + (e / 10 + f) \<and> x < y + 1 / 10 + (e / 10 + (f :: real))"
  using assms unfolding abs_le_iff by simp

lemma tenths_count:
  assumes "0 \<le> x" "x < 6552" "rnd_real (x * 10) < of_int l"
  obtains m y where "dfloor (dmul (Fin x) (Fin 10)) = Fin (of_int m)" "0 \<le> m" "m < l"
    "m \<le> 65536" "dmul (dint m) (lit 0.1) = Fin y" "y \<le> x + 1 / 2 ^ 17" "x < y + 0.1 + 1 / 2 ^ 17"
proof -
  define w where "w = rnd_real (x * 10)"
  have b: "\<bar>x * 10\<bar> \<le> 2 ^ 16" using assms by simp
  have w: "dmul (Fin x) (Fin 10) = Fin w" "\<bar>w - x * 10\<bar> \<le> 1 / 2 ^ 37"
    using b rnd_finite[of "x * 10"] rnd_abs_error[OF b] by (simp_all add: w_def)
  have w0: "0 \<le> w" unfolding w_def using assms(1) by (intro rnd_real_nonneg) simp
  define m where "m = \<lfloor>w\<rfloor>"
  have m: "0 \<le> m" "m < l" using w0 assms(3) by (simp_all add: m_def w_def floor_less_iff)
  have f: "of_int m \<le> w" "w < of_int m + 1" by (simp_all add: m_def)
  have "w \<le> 2 ^ 16 + 1" using near_abs[OF w(2) b] by simp
  have "w \<le> 65536" unfolding w_def using assms by (intro rnd_real_le representable_numeral) simp_all
  then have "of_int m \<le> (of_int 65536 :: real)" using f(1) by simp
  then have m16: "m \<le> 65536" by (simp only: of_int_le_iff)
  define c :: real where "c = 3602879701896397 / 2 ^ 55"
  define y where "y = rnd_real (of_int m * c)"
  have c: "rnd_real 0.1 = c" using rnd_real_literals(1) by (simp add: c_def)
  have y: "dmul (dint m) (lit 0.1) = Fin y"
    unfolding y_def c[symmetric] using m(1) m16 by (intro scaled_value scales(2)) simp
  have mr: "0 \<le> (of_int m :: real)" "(of_int m :: real) \<le> 65536"
    using m(1) m16 of_int_le_iff[of m 65536, where 'a = real] by simp_all
  have d: "of_int m * c - of_int m / 10 = of_int m / (10 * 2 ^ 54)" by (simp add: c_def field_simps)
  have "\<bar>of_int m * c - of_int m / 10\<bar> = of_int m / (10 * 2 ^ 54)" unfolding d using mr by simp
  also have "\<dots> \<le> 65536 / (10 * 2 ^ 54)" using mr by (intro divide_right_mono) simp_all
  finally have e: "\<bar>of_int m * c - of_int m / 10\<bar> \<le> 1 / 2 ^ 30" by simp
  have b2: "\<bar>of_int m * c\<bar> \<le> 2 ^ 16" using mr by (simp add: c_def)
  have "\<bar>y - of_int m * c\<bar> \<le> 1 / 2 ^ 37" using rnd_abs_error[OF b2] by (simp add: y_def)
  then have ym: "\<bar>y - of_int m / 10\<bar> \<le> 1 / 2 ^ 30 + 1 / 2 ^ 37" using e by linarith
  have "of_int m \<le> x * 10 + 1 / 2 ^ 37" "x * 10 < of_int m + 1 + 1 / 2 ^ 37" using w(2) f by linarith+
  from tenth_near[OF this ym]
  have "y \<le> x + 1 / 2 ^ 17" "x < y + 0.1 + 1 / 2 ^ 17" by simp_all
  then show thesis using that[of m y] w(1) m m16 y by (simp add: m_def del: dmul.simps)
qed

lemma flight_elapsed_truncated: "truncated decodeFlightElapsed (\<lambda>v. encodeFlightElapsed v e) 24 0.1"
  unfolding truncated_def
proof (intro allI impI)
  fix x :: real assume x: "representable x \<and> 0 \<le> x \<and> x < 24"
  obtain m y where m: "dfloor (dmul (Fin x) (Fin 10)) = Fin (of_int m)" "0 \<le> m" "m < 240"
    "m \<le> 65536" "dmul (dint m) (lit 0.1) = Fin y" "y \<le> x + 1 / 2 ^ 17" "x < y + 0.1 + 1 / 2 ^ 17"
    by (rule tenths_count[of x 240]) (use x tenths_below[of x] in auto)
  have e: "encodeFlightElapsed (Fin x) e = word_of_int m"
    unfolding encodeFlightElapsed_def lit_numerals m(1) using x by simp
  have "decodeFlightElapsed (word_of_int m) = q_numeric (word_of_int m) (Fin y)"
    unfolding decodeFlightElapsed_def using m(2,3) m(5) by (simp add: word_le_def uint_small_word)
  then show "\<exists>y. decodeFlightElapsed (encodeFlightElapsed (Fin x) e) = q_numeric (encodeFlightElapsed (Fin x) e) (Fin y)
     \<and> y \<le> x + 1 / 2 ^ 17 \<and> x < y + 0.1 + 1 / 2 ^ 17"
    unfolding e using m(6,7) by blast
qed

lemma descent_elapsed_truncated: "truncated decodeDescentElapsed (\<lambda>v. encodeDescentElapsed v e) 6552 0.1"
  unfolding truncated_def
proof (intro allI impI)
  fix x :: real assume x: "representable x \<and> 0 \<le> x \<and> x < 6552"
  obtain m y where m: "dfloor (dmul (Fin x) (Fin 10)) = Fin (of_int m)" "0 \<le> m" "m < 65520"
    "m \<le> 65536" "dmul (dint m) (lit 0.1) = Fin y" "y \<le> x + 1 / 2 ^ 17" "x < y + 0.1 + 1 / 2 ^ 17"
    by (rule tenths_count[of x 65520]) (use x tenths_below_long[of x] in auto)
  have e: "encodeDescentElapsed (Fin x) e = word_of_int m"
    unfolding encodeDescentElapsed_def lit_numerals m(1) using x by simp
  have "decodeDescentElapsed (word_of_int m) = q_numeric (word_of_int m) (Fin y)"
    unfolding decodeDescentElapsed_def using m(2,3) m(5) by (simp add: word_le_def uint_small_word)
  then show "\<exists>y. decodeDescentElapsed (encodeDescentElapsed (Fin x) e) = q_numeric (encodeDescentElapsed (Fin x) e) (Fin y)
     \<and> y \<le> x + 1 / 2 ^ 17 \<and> x < y + 0.1 + 1 / 2 ^ 17"
    unfolding e using m(6,7) by blast
qed

text \<open>every double in the range of a telemetry quantity is sent as a number within half a step of
  it, the two fine elapsed times as the step that has begun; so no value in range is read as an error.\<close>

theorem quantization_accuracy:
  "accurate decodeRoll (\<lambda>v. encodeRoll ovf v re) (- 16376) 16383.5 0.5
   \<and> accurate decodeRollRate (\<lambda>v. encodeRollRate ovf v re) (- 3275.2) 3276.7 0.1
   \<and> accurate decodeTiltMagnitude (\<lambda>v. encodeTiltMagnitude ovf v tilt) 0 90 0.75
   \<and> accurate decodeFinAngle (\<lambda>v. encodeFinAngle ovf v fa) (- 15) 15 0.125
   \<and> accurate decodeFinRate (\<lambda>v. encodeFinRate ovf v fr) (- 655.04) 655.34 0.02
   \<and> accurate decodeRequestedTorque (\<lambda>v. encodeRequestedTorque ovf v tq) (- 4.064) 4.094 0.002
   \<and> accurate decodeLpsPressure (\<lambda>v. encodeLpsPressure ovf v lp) 800 1206.2 0.2
   \<and> accurate decodeLpsTemperature (\<lambda>v. encodeLpsTemperature ovf v lt) (- 50) 150 1
   \<and> accurate decodeAirspeed (\<lambda>v. encodeAirspeed ovf v ae) 0 245 1
   \<and> accurate decodeGnssOffset (\<lambda>v. encodeGnssOffset ovf v ge) (- 32752) 32767 1
   \<and> accurate decodeGnssHeight (\<lambda>v. encodeGnssHeight ovf v he) (- 100) 2375 5
   \<and> accurate decodeParachuteAngle (\<lambda>v. encodeParachuteAngle ovf v pa) 0 360 1.5
   \<and> accurate decodeBatteryVoltage (\<lambda>v. encodeBatteryVoltage ovf v ba) 0 12 0.05
   \<and> truncated decodeFlightElapsed (\<lambda>v. encodeFlightElapsed v te) 24 0.1
   \<and> truncated decodeDescentElapsed (\<lambda>v. encodeDescentElapsed v te) 6552 0.1"
  by (intro conjI roll_accurate roll_rate_accurate tilt_magnitude_accurate fin_angle_accurate
    fin_rate_accurate torque_accurate lps_pressure_accurate lps_temperature_accurate
    airspeed_accurate gnss_offset_accurate gnss_height_accurate parachute_angle_accurate
    battery_accurate flight_elapsed_truncated descent_elapsed_truncated)

end
