(* ===== verification/Recovery.thy ===== *)
theory Recovery
  imports Mission_State Quantization
begin

text \<open>
  \<open>src/mission/recovery.{hpp,cpp}\<close> and \<open>src/runtime/recovery_persistence.{hpp,cpp}\<close>: the recovery
  marker kept in RTC memory, the boot path, the recovery run states, and the recovery latch in
  NVS with the exit transaction. The NVS library is the parameter \<open>nvs_api\<close> over an external
  state; every call may change that state and may fail. The atomics hold their last value.
\<close>

section \<open>The marker\<close>

datatype reset_kind = RK_power_on | RK_software_or_watchdog | RK_deep_sleep

datatype boot_path =
    BP_normal | BP_resume_flight_safely | BP_await_absolute_time | BP_recovery_only | BP_fail_safe

record recovery_marker =
  rm_magic :: u32
  rm_version :: u16
  rm_checksum :: u16
  rm_wake_sequence :: u32
  rm_entry_rtc_time_us :: u64
  rm_recovery_requested :: bool

record boot_evidence =
  be_reset_kind :: reset_kind
  be_flight_checkpoint_valid :: bool
  be_rtc_elapsed_valid :: bool
  be_absolute_liftoff_time_valid :: bool
  be_current_absolute_time_valid :: bool
  be_recovery_wake_cause :: bool
  be_recovery_marker :: recovery_marker

definition marker_init :: recovery_marker where
  "marker_init = \<lparr>rm_magic = 0, rm_version = 0, rm_checksum = 0, rm_wake_sequence = 0,
     rm_entry_rtc_time_us = 0, rm_recovery_requested = False\<rparr>"

definition kRecoveryMagic :: u32 where "kRecoveryMagic = 0x39394C52"
definition kRecoveryVersion :: u16 where "kRecoveryVersion = 2"

text \<open>The last three lines of each of the three checksums.\<close>

definition fold_checksum :: "u64 \<Rightarrow> u16" where
  "fold_checksum v = (let v = v XOR drop_bit 32 v; v = v XOR drop_bit 16 v in ucast v)"

definition recoveryMarkerChecksum :: "recovery_marker \<Rightarrow> u16" where
  "recoveryMarkerChecksum m = fold_checksum
     (ucast (rm_magic m XOR push_bit 16 (ucast (rm_version m)) XOR rm_wake_sequence m)
      XOR rm_entry_rtc_time_us m XOR drop_bit 32 (rm_entry_rtc_time_us m)
      XOR (if rm_recovery_requested m then 0xA55AA55A else 0))"

definition validRecoveryMarker :: "recovery_marker \<Rightarrow> bool" where
  "validRecoveryMarker m =
     (rm_magic m = kRecoveryMagic \<and> rm_version m = kRecoveryVersion \<and> rm_recovery_requested m \<and>
      rm_checksum m = recoveryMarkerChecksum m)"

definition selectBootPath :: "boot_evidence \<Rightarrow> boot_path" where
  "selectBootPath e =
     (if be_reset_kind e = RK_deep_sleep
      then if be_recovery_wake_cause e \<and> validRecoveryMarker (be_recovery_marker e)
           then BP_recovery_only else BP_fail_safe
      else if \<not> be_flight_checkpoint_valid e then BP_normal
      else if be_reset_kind e = RK_software_or_watchdog
      then if be_rtc_elapsed_valid e then BP_resume_flight_safely else BP_fail_safe
      else if be_absolute_liftoff_time_valid e \<and> be_current_absolute_time_valid e
      then BP_resume_flight_safely else BP_await_absolute_time)"

section \<open>The recovery run states\<close>

datatype recovery_state =
    RS_inactive | RS_flushing_and_safeing | RS_ready_for_deep_sleep
  | RS_wake_command_window | RS_transfer_in_progress

definition requestEntry :: "recovery_state \<Rightarrow> bool \<times> recovery_state" where
  "requestEntry s = (if s \<noteq> RS_inactive then (False, s) else (True, RS_flushing_and_safeing))"

definition markResourcesSafeAndFlushed :: "recovery_state \<Rightarrow> bool \<times> recovery_state" where
  "markResourcesSafeAndFlushed s =
     (if s \<noteq> RS_flushing_and_safeing then (False, s) else (True, RS_ready_for_deep_sleep))"

definition recovery_wake :: "bool \<Rightarrow> bool \<Rightarrow> recovery_state \<Rightarrow> bool \<times> recovery_state" where
  "recovery_wake marker_valid wake_cause_valid s =
     (if \<not> marker_valid \<or> \<not> wake_cause_valid then (False, s) else (True, RS_wake_command_window))"

definition beginTransfer :: "recovery_state \<Rightarrow> bool \<times> recovery_state" where
  "beginTransfer s = (if s \<noteq> RS_wake_command_window then (False, s) else (True, RS_transfer_in_progress))"

definition finishTransfer :: "recovery_state \<Rightarrow> recovery_state" where
  "finishTransfer s = (if s = RS_transfer_in_progress then RS_ready_for_deep_sleep else s)"

definition mayEnterDeepSleep :: "recovery_state \<Rightarrow> bool" where
  "mayEnterDeepSleep s = (s = RS_ready_for_deep_sleep \<or> s = RS_wake_command_window)"

definition periodicWakeUs :: u64 where "periodicWakeUs = 10000000"

datatype recovery_call =
    RC_request_entry | RC_flushed | RC_wake bool bool | RC_begin_transfer | RC_finish_transfer

fun recovery_step :: "recovery_call \<Rightarrow> recovery_state \<Rightarrow> recovery_state" where
  "recovery_step RC_request_entry s = snd (requestEntry s)"
| "recovery_step RC_flushed s = snd (markResourcesSafeAndFlushed s)"
| "recovery_step (RC_wake mv wv) s = snd (recovery_wake mv wv s)"
| "recovery_step RC_begin_transfer s = snd (beginTransfer s)"
| "recovery_step RC_finish_transfer s = finishTransfer s"

section \<open>The latch in NVS\<close>

text \<open>The values of \<open>esp_err_t\<close> the code distinguishes.\<close>

datatype esp_err = ESP_OK | ESP_ERR_NVS_NOT_FOUND | ESP_ERR_OTHER int

text \<open>The calls of the NVS library, over its state. The second argument of \<open>nvs_open\<close> is true for
  \<open>NVS_READWRITE\<close>; the handle is returned with the result, and so is the value read.\<close>

record 'n nvs_api =
  nvs_flash_init :: "'n \<Rightarrow> esp_err \<times> 'n"
  nvs_open :: "string \<Rightarrow> bool \<Rightarrow> 'n \<Rightarrow> esp_err \<times> nat \<times> 'n"
  nvs_get_u8 :: "nat \<Rightarrow> string \<Rightarrow> 'n \<Rightarrow> esp_err \<times> u8 \<times> 'n"
  nvs_set_u8 :: "nat \<Rightarrow> string \<Rightarrow> u8 \<Rightarrow> 'n \<Rightarrow> esp_err \<times> 'n"
  nvs_erase_key :: "nat \<Rightarrow> string \<Rightarrow> 'n \<Rightarrow> esp_err \<times> 'n"
  nvs_commit :: "nat \<Rightarrow> 'n \<Rightarrow> esp_err \<times> 'n"
  nvs_close :: "nat \<Rightarrow> 'n \<Rightarrow> 'n"

datatype latch_state = LS_inactive | LS_active | LS_unreadable

definition kNamespace :: string where "kNamespace = ''recovery''"
definition kActiveKey :: string where "kActiveKey = ''active_v1''"

definition latchState :: "'n nvs_api \<Rightarrow> 'n \<Rightarrow> latch_state \<times> 'n" where
  "latchState api n =
     (case nvs_flash_init api n of (e, n) \<Rightarrow>
      if e \<noteq> ESP_OK then (LS_unreadable, n)
      else case nvs_open api kNamespace False n of (opened, handle, n) \<Rightarrow>
      if opened = ESP_ERR_NVS_NOT_FOUND then (LS_inactive, n)
      else if opened \<noteq> ESP_OK then (LS_unreadable, n)
      else case nvs_get_u8 api handle kActiveKey n of (result, active, n) \<Rightarrow>
      let n = nvs_close api handle n in
      if result = ESP_ERR_NVS_NOT_FOUND then (LS_inactive, n)
      else if result \<noteq> ESP_OK \<or> active \<noteq> 1 then (LS_unreadable, n)
      else (LS_active, n))"

definition ensureActive :: "'n nvs_api \<Rightarrow> 'n \<Rightarrow> bool \<times> 'n" where
  "ensureActive api n =
     (case latchState api n of (l, n) \<Rightarrow>
      if l = LS_active then (True, n)
      else case nvs_flash_init api n of (e, n) \<Rightarrow>
      if e \<noteq> ESP_OK then (False, n)
      else case nvs_open api kNamespace True n of (opened, handle, n) \<Rightarrow>
      if opened \<noteq> ESP_OK then (False, n)
      else case nvs_set_u8 api handle kActiveKey 1 n of (result, n) \<Rightarrow>
      case (if result = ESP_OK then nvs_commit api handle n else (result, n)) of (result, n) \<Rightarrow>
      let n = nvs_close api handle n in
      if result = ESP_OK then (case latchState api n of (l, n) \<Rightarrow> (l = LS_active, n))
      else (False, n))"

definition makeRecoveryMarker ::
    "'n nvs_api \<Rightarrow> u32 \<Rightarrow> u64 \<Rightarrow> 'n \<Rightarrow> recovery_marker \<times> 'n" where
  "makeRecoveryMarker api wake_sequence entry_rtc_time_us n =
     (let n = snd (ensureActive api n);
          m = \<lparr>rm_magic = kRecoveryMagic, rm_version = kRecoveryVersion, rm_checksum = 0,
               rm_wake_sequence = wake_sequence, rm_entry_rtc_time_us = entry_rtc_time_us,
               rm_recovery_requested = True\<rparr>
      in (m\<lparr>rm_checksum := recoveryMarkerChecksum m\<rparr>, n))"

section \<open>The exit transaction\<close>

text \<open>The RTC marker, the atomics of the file and the NVS state.\<close>

record 'n recovery_memory =
  re_marker :: recovery_marker
  re_por_unrecoverable :: bool
  re_exit_transaction :: u8
  re_exit_arguments_valid :: bool
  re_exit_prepared :: bool
  re_nvs :: 'n

definition setBootEvidence :: "bool \<Rightarrow> bool \<Rightarrow> 'n recovery_memory \<Rightarrow> 'n recovery_memory" where
  "setBootEvidence persistent_evidence rtc_marker_valid r =
     r\<lparr>re_por_unrecoverable := persistent_evidence \<and> \<not> rtc_marker_valid\<rparr>"

definition powerOnResetUnrecoverable :: "'n recovery_memory \<Rightarrow> bool" where
  "powerOnResetUnrecoverable r = re_por_unrecoverable r"

definition armExitRequest :: "u8 \<Rightarrow> bool \<Rightarrow> 'n recovery_memory \<Rightarrow> 'n recovery_memory" where
  "armExitRequest transaction_id valid_arguments r =
     (if transaction_id = 0 then r
      else r\<lparr>re_exit_arguments_valid := valid_arguments, re_exit_transaction := transaction_id,
        re_exit_prepared := False\<rparr>)"

definition exitRequestPending :: "u8 \<Rightarrow> 'n recovery_memory \<Rightarrow> bool" where
  "exitRequestPending transaction_id r =
     (transaction_id \<noteq> 0 \<and> re_exit_transaction r = transaction_id)"

definition exitArgumentsValid :: "u8 \<Rightarrow> 'n recovery_memory \<Rightarrow> bool" where
  "exitArgumentsValid transaction_id r =
     (exitRequestPending transaction_id r \<and> re_exit_arguments_valid r)"

definition clearMarker :: "'n recovery_memory \<Rightarrow> 'n recovery_memory" where
  "clearMarker r = r\<lparr>re_marker := marker_init\<rparr>"

definition prepareExit :: "'n nvs_api \<Rightarrow> u8 \<Rightarrow> 'n recovery_memory \<Rightarrow> bool \<times> 'n recovery_memory" where
  "prepareExit api transaction_id r =
     (if \<not> exitArgumentsValid transaction_id r then (False, r)
      else if re_exit_prepared r then (True, r)
      else case nvs_flash_init api (re_nvs r) of (e, n) \<Rightarrow>
      if e \<noteq> ESP_OK then (False, r\<lparr>re_nvs := n\<rparr>)
      else case nvs_open api kNamespace True n of (opened, handle, n) \<Rightarrow>
      if opened \<noteq> ESP_OK \<and> opened \<noteq> ESP_ERR_NVS_NOT_FOUND then (False, r\<lparr>re_nvs := n\<rparr>)
      else case (if opened = ESP_OK
                 then case nvs_erase_key api handle kActiveKey n of (result, n) \<Rightarrow>
                   let result = (if result = ESP_ERR_NVS_NOT_FOUND then ESP_OK else result) in
                   case (if result = ESP_OK then nvs_commit api handle n else (result, n)) of
                     (result, n) \<Rightarrow> (result, nvs_close api handle n)
                 else (ESP_OK, n)) of (result, n) \<Rightarrow>
      if result \<noteq> ESP_OK then (False, r\<lparr>re_nvs := n\<rparr>)
      else case latchState api n of (l, n) \<Rightarrow>
      if l \<noteq> LS_inactive then (False, r\<lparr>re_nvs := n\<rparr>)
      else let r = clearMarker (r\<lparr>re_nvs := n\<rparr>)
        in (True, r\<lparr>re_por_unrecoverable := False, re_exit_prepared := True\<rparr>))"

definition clearExitRequest :: "u8 \<Rightarrow> 'n recovery_memory \<Rightarrow> 'n recovery_memory" where
  "clearExitRequest transaction_id r =
     (if \<not> exitRequestPending transaction_id r then r
      else r\<lparr>re_exit_transaction := 0, re_exit_arguments_valid := False, re_exit_prepared := False\<rparr>)"

section \<open>The boot decision of \<open>app_main\<close>\<close>

text \<open>Returns \<open>recovery_only\<close> and \<open>recovery_wake_authorized\<close> for the runtime.\<close>

definition boot_decision ::
    "'n nvs_api \<Rightarrow> bool \<Rightarrow> 'n recovery_memory \<Rightarrow> (bool \<times> bool) \<times> 'n recovery_memory" where
  "boot_decision api wake_cause_valid r =
     (let marker_valid = validRecoveryMarker (re_marker r) in
      case latchState api (re_nvs r) of (persistent_state, n) \<Rightarrow>
      let persistent_evidence = (persistent_state \<noteq> LS_inactive);
          r = setBootEvidence persistent_evidence marker_valid (r\<lparr>re_nvs := n\<rparr>);
          recovery_only = (marker_valid \<or> wake_cause_valid \<or> persistent_evidence);
          recovery_wake_authorized = (marker_valid \<and> wake_cause_valid \<or> persistent_evidence)
      in ((recovery_only, recovery_wake_authorized), r))"

end
