(* ===== verification/Recovery_Boot.thy ===== *)
theory Recovery_Boot
  imports Recovery Mission_Attempt
begin

text \<open>
  \<open>src/runtime/recovery_boot.{hpp,cpp}\<close>: the flight checkpoint, the readiness audit and the
  recovery marker in RTC memory. The record \<open>boot_memory\<close> is the RTC memory, on top of the
  recovery memory. The reset reason, the wake-up causes, the bit of the timer cause and every
  reading of the RTC clock are arguments, in the order the code takes them.
\<close>

datatype reset_reason = ESP_RST_POWERON | ESP_RST_DEEPSLEEP | ESP_RST_OTHER

record flight_checkpoint_record =
  fc_magic :: u32
  fc_version :: u16
  fc_checksum :: u16
  fc_flight_epoch :: u32
  fc_elapsed_us :: u64
  fc_rtc_time_us :: u64
  fc_preflight_captured_at_us :: u64
  fc_preflight_generation :: u32
  fc_state :: u8
  fc_ready_mask :: u8
  fc_missing_mask :: u8
  fc_elapsed_valid :: bool
  fc_deployment_started :: bool
  fc_power_cutoff_latched :: bool
  fc_forced_start :: bool

record start_readiness_audit_record =
  sa_magic :: u32
  sa_version :: u8
  sa_ready_mask :: u8
  sa_missing_mask :: u8
  sa_forced :: bool
  sa_generation :: u32
  sa_captured_at_us :: u64
  sa_checksum :: u16

record start_readiness_audit =
  ra_valid :: bool
  ra_forced :: bool
  ra_generation :: u32
  ra_captured_at_us :: u64
  ra_ready_mask :: u8
  ra_missing_mask :: u8

record 'n boot_memory = "'n recovery_memory" +
  bo_checkpoint :: flight_checkpoint_record
  bo_audit :: start_readiness_audit_record

definition checkpoint_record_init :: flight_checkpoint_record where
  "checkpoint_record_init = \<lparr>fc_magic = 0, fc_version = 0, fc_checksum = 0, fc_flight_epoch = 0,
     fc_elapsed_us = 0, fc_rtc_time_us = 0, fc_preflight_captured_at_us = 0,
     fc_preflight_generation = 0, fc_state = 0, fc_ready_mask = 0, fc_missing_mask = 0,
     fc_elapsed_valid = False, fc_deployment_started = False, fc_power_cutoff_latched = False,
     fc_forced_start = False\<rparr>"

definition audit_record_init :: start_readiness_audit_record where
  "audit_record_init = \<lparr>sa_magic = 0, sa_version = 0, sa_ready_mask = 0, sa_missing_mask = 0,
     sa_forced = False, sa_generation = 0, sa_captured_at_us = 0, sa_checksum = 0\<rparr>"

definition audit_init :: start_readiness_audit where
  "audit_init = \<lparr>ra_valid = False, ra_forced = False, ra_generation = 0, ra_captured_at_us = 0,
     ra_ready_mask = 0, ra_missing_mask = 0\<rparr>"

definition reset_checkpoint_init :: reset_checkpoint where
  "reset_checkpoint_init = \<lparr>ck_valid = False, ck_state = MS_command_receive, ck_flight_epoch = 0,
     ck_elapsed_valid = False, ck_elapsed_us = 0, ck_deployment_started = False,
     ck_power_cutoff_latched = False, ck_forced_start = False, ck_preflight_generation = 0,
     ck_preflight_captured_at_us = 0, ck_ready_mask = 0, ck_missing_mask = 0\<rparr>"

definition kFlightCheckpointMagic :: u32 where "kFlightCheckpointMagic = 0x39394C43"
definition kFlightCheckpointVersion :: u16 where "kFlightCheckpointVersion = 2"
definition kStartReadinessAuditMagic :: u32 where "kStartReadinessAuditMagic = 0x39395341"
definition kStartReadinessAuditVersion :: u8 where "kStartReadinessAuditVersion = 1"

section \<open>Checksums and validity\<close>

definition startReadinessAuditChecksum :: "start_readiness_audit_record \<Rightarrow> u16" where
  "startReadinessAuditChecksum r = fold_checksum
     (ucast (sa_magic r XOR push_bit 24 (ucast (sa_version r)) XOR push_bit 16 (ucast (sa_ready_mask r))
        XOR push_bit 8 (ucast (sa_missing_mask r)) XOR sa_generation r)
      XOR sa_captured_at_us r XOR drop_bit 32 (sa_captured_at_us r)
      XOR (if sa_forced r then 0x5AA5 else 0xA55A))"

definition validStartReadinessAudit :: "start_readiness_audit_record \<Rightarrow> bool" where
  "validStartReadinessAudit r =
     (let masks = (sa_ready_mask r OR sa_missing_mask r) AND kPreflightReadinessMask in
      sa_magic r = kStartReadinessAuditMagic \<and> sa_version r = kStartReadinessAuditVersion \<and>
      sa_generation r \<noteq> 0 \<and> masks = kPreflightReadinessMask \<and>
      sa_ready_mask r AND sa_missing_mask r = 0 \<and>
      sa_checksum r = startReadinessAuditChecksum r)"

definition checkpointChecksum :: "flight_checkpoint_record \<Rightarrow> u16" where
  "checkpointChecksum r = fold_checksum
     (ucast (fc_magic r XOR push_bit 16 (ucast (fc_version r)) XOR fc_flight_epoch r)
      XOR fc_elapsed_us r XOR drop_bit 32 (fc_elapsed_us r)
      XOR fc_rtc_time_us r XOR drop_bit 32 (fc_rtc_time_us r)
      XOR fc_preflight_captured_at_us r XOR drop_bit 32 (fc_preflight_captured_at_us r)
      XOR ucast (fc_preflight_generation r)
      XOR ucast (push_bit 24 (ucast (fc_state r)) :: u32)
      XOR ucast (push_bit 8 (ucast (fc_ready_mask r)) :: u32)
      XOR ucast (fc_missing_mask r)
      XOR (if fc_elapsed_valid r then 0xA55A else 0)
      XOR (if fc_deployment_started r then 0x5AA5 else 0)
      XOR (if fc_power_cutoff_latched r then 0x9696 else 0)
      XOR (if fc_forced_start r then 0xC33C else 0))"

definition validFlightCheckpoint :: "flight_checkpoint_record \<Rightarrow> bool" where
  "validFlightCheckpoint r =
     (let state = mission_state_cast (fc_state r);
          state_valid = (state = MS_liftoff_detection \<or> state = MS_engine_burn \<or>
                         state = MS_control \<or> state = MS_descent);
          elapsed_contract = (if state = MS_liftoff_detection then \<not> fc_elapsed_valid r
                              else fc_elapsed_valid r);
          masks = (fc_ready_mask r OR fc_missing_mask r) AND kPreflightReadinessMask;
          masks_disjoint = (fc_ready_mask r AND fc_missing_mask r = 0)
      in fc_magic r = kFlightCheckpointMagic \<and> fc_version r = kFlightCheckpointVersion \<and>
         fc_flight_epoch r \<noteq> 0 \<and> state_valid \<and> elapsed_contract \<and>
         masks = kPreflightReadinessMask \<and> masks_disjoint \<and>
         fc_checksum r = checkpointChecksum r)"

definition resetPreservesRtcMemory :: "reset_reason \<Rightarrow> bool" where
  "resetPreservesRtcMemory reason = (reason \<noteq> ESP_RST_POWERON \<and> reason \<noteq> ESP_RST_DEEPSLEEP)"

definition markerStoragePresent :: "('n, 'x) boot_memory_scheme \<Rightarrow> bool" where
  "markerStoragePresent b =
     (rm_magic (re_marker b) \<noteq> 0 \<or> rm_version (re_marker b) \<noteq> 0 \<or> rm_checksum (re_marker b) \<noteq> 0 \<or>
      rm_wake_sequence (re_marker b) \<noteq> 0 \<or> rm_entry_rtc_time_us (re_marker b) \<noteq> 0 \<or>
      rm_recovery_requested (re_marker b))"

definition recoveryTimeError :: "time_error \<Rightarrow> u16" where
  "recoveryTimeError e = ucast (0xFFF0 OR ucast (time_error_code e) :: u32)"

section \<open>The readiness audit\<close>

definition loadStartReadinessAudit ::
    "reset_reason \<Rightarrow> 'n boot_memory \<Rightarrow> bool \<times> start_readiness_audit" where
  "loadStartReadinessAudit reason b =
     (if \<not> resetPreservesRtcMemory reason \<or> \<not> validStartReadinessAudit (bo_audit b)
      then (False, audit_init)
      else (True, \<lparr>ra_valid = True, ra_forced = sa_forced (bo_audit b),
        ra_generation = sa_generation (bo_audit b),
        ra_captured_at_us = sa_captured_at_us (bo_audit b),
        ra_ready_mask = sa_ready_mask (bo_audit b),
        ra_missing_mask = sa_missing_mask (bo_audit b)\<rparr>))"

definition storeStartReadinessAudit ::
    "preflight_readiness \<Rightarrow> bool \<Rightarrow> 'n boot_memory \<Rightarrow> 'n boot_memory" where
  "storeStartReadinessAudit readiness forced b =
     (let r = \<lparr>sa_magic = kStartReadinessAuditMagic, sa_version = kStartReadinessAuditVersion,
            sa_ready_mask = readyMask readiness, sa_missing_mask = missingMask readiness,
            sa_forced = forced, sa_generation = pr_generation readiness,
            sa_captured_at_us = pr_captured_at_us readiness, sa_checksum = 0\<rparr>
      in b\<lparr>bo_audit := r\<lparr>sa_checksum := startReadinessAuditChecksum r\<rparr>\<rparr>)"

definition clearStartReadinessAudit :: "'n boot_memory \<Rightarrow> 'n boot_memory" where
  "clearStartReadinessAudit b = b\<lparr>bo_audit := audit_record_init\<rparr>"

section \<open>The recovery marker\<close>

definition markerValid :: "'n boot_memory \<Rightarrow> bool" where
  "markerValid b = validRecoveryMarker (re_marker b)"

definition wakeCauseValid :: "u32 \<Rightarrow> nat \<Rightarrow> bool" where
  "wakeCauseValid causes timer_bit = (causes AND push_bit timer_bit 1 \<noteq> 0)"

definition wakeSequence :: "'n boot_memory \<Rightarrow> u32" where
  "wakeSequence b = (if validRecoveryMarker (re_marker b) then rm_wake_sequence (re_marker b) else 0)"

definition commitRecoveryEntryMarker ::
    "'n nvs_api \<Rightarrow> u64 \<Rightarrow> 'n boot_memory \<Rightarrow> bool \<times> 'n boot_memory" where
  "commitRecoveryEntryMarker api now_us b =
     (if validRecoveryMarker (re_marker b) \<and> rm_entry_rtc_time_us (re_marker b) \<noteq> 0 then (True, b)
      else if now_us = 0 then (False, b)
      else case makeRecoveryMarker api 0 now_us (re_nvs b) of (marker, n) \<Rightarrow>
        let b = b\<lparr>re_marker := marker, re_nvs := n\<rparr>
        in (validRecoveryMarker (re_marker b) \<and> rm_entry_rtc_time_us (re_marker b) = now_us, b))"

definition recoveryElapsedRaw ::
    "bool \<Rightarrow> bool \<Rightarrow> bool \<Rightarrow> u64 \<Rightarrow> 'n boot_memory \<Rightarrow> u16" where
  "recoveryElapsedRaw wake_cause_valid recovery_requested recovery_only now_us b =
     (if validRecoveryMarker (re_marker b) then
        if rm_entry_rtc_time_us (re_marker b) = 0 then recoveryTimeError TME_rtc_recovery_failed
        else if recovery_only \<and> \<not> wake_cause_valid then recoveryTimeError TME_rtc_recovery_failed
        else if now_us < rm_entry_rtc_time_us (re_marker b)
        then recoveryTimeError TME_time_inconsistent
        else let elapsed_seconds =
               ddiv (dint (uint (now_us - rm_entry_rtc_time_us (re_marker b)))) (lit 1000000)
             in encodeRecoveryElapsed elapsed_seconds TME_internal_error
      else if recovery_only
      then recoveryTimeError (if markerStoragePresent b then TME_checkpoint_invalid
                              else TME_checkpoint_missing)
      else if recovery_requested then recoveryTimeError TME_recovery_in_progress
      else recoveryTimeError TME_unavailable)"

definition prepareMarker :: "'n nvs_api \<Rightarrow> 'n boot_memory \<Rightarrow> 'n boot_memory" where
  "prepareMarker api b =
     (if \<not> validRecoveryMarker (re_marker b) \<or> rm_entry_rtc_time_us (re_marker b) = 0 then b
      else case makeRecoveryMarker api (wakeSequence b + 1) (rm_entry_rtc_time_us (re_marker b))
             (re_nvs b) of (marker, n) \<Rightarrow> b\<lparr>re_marker := marker, re_nvs := n\<rparr>)"

section \<open>The flight checkpoint\<close>

text \<open>The result is the value returned and the checkpoint written to the argument.\<close>

definition loadFlightCheckpoint ::
    "reset_reason \<Rightarrow> u64 \<Rightarrow> 'n boot_memory \<Rightarrow> bool \<times> reset_checkpoint" where
  "loadFlightCheckpoint reason rtc_now_us b =
     (let f = bo_checkpoint b; none = (False, reset_checkpoint_init);
          some = (\<lambda>elapsed. (True, \<lparr>ck_valid = True, ck_state = mission_state_cast (fc_state f),
            ck_flight_epoch = fc_flight_epoch f, ck_elapsed_valid = fc_elapsed_valid f,
            ck_elapsed_us = elapsed, ck_deployment_started = fc_deployment_started f,
            ck_power_cutoff_latched = fc_power_cutoff_latched f,
            ck_forced_start = fc_forced_start f,
            ck_preflight_generation = fc_preflight_generation f,
            ck_preflight_captured_at_us = fc_preflight_captured_at_us f,
            ck_ready_mask = fc_ready_mask f, ck_missing_mask = fc_missing_mask f\<rparr>))
      in if \<not> resetPreservesRtcMemory reason \<or> \<not> validFlightCheckpoint f then none
      else let elapsed = fc_elapsed_us f in
        if fc_elapsed_valid f then
          if rtc_now_us < fc_rtc_time_us f then none
          else let reset_elapsed_us = rtc_now_us - fc_rtc_time_us f in
            if - 1 - elapsed < reset_elapsed_us then none
            else some (elapsed + reset_elapsed_us)
        else some elapsed)"

definition clearFlightCheckpoint :: "'n boot_memory \<Rightarrow> 'n boot_memory" where
  "clearFlightCheckpoint b = b\<lparr>bo_checkpoint := checkpoint_record_init\<rparr>"

definition storeFlightCheckpoint ::
    "u64 \<Rightarrow> ('x) mission_snapshot_scheme \<Rightarrow> 'n boot_memory \<Rightarrow> 'n boot_memory" where
  "storeFlightCheckpoint rtc_now_us s b =
     (if sn_flight_epoch s = 0 \<or> sn_state s = MS_command_receive then clearFlightCheckpoint b
      else let pre_liftoff = (sn_state s = MS_liftoff_detection) in
        if \<not> pre_liftoff \<and> \<not> sn_liftoff_time_valid s then clearFlightCheckpoint b
        else let r = \<lparr>fc_magic = kFlightCheckpointMagic, fc_version = kFlightCheckpointVersion,
              fc_checksum = 0, fc_flight_epoch = sn_flight_epoch s,
              fc_elapsed_us = (if pre_liftoff then 0 else sn_elapsed_us s),
              fc_rtc_time_us = rtc_now_us,
              fc_preflight_captured_at_us = sn_preflight_captured_at_us s,
              fc_preflight_generation = sn_preflight_generation s,
              fc_state = mission_state_code (sn_state s),
              fc_ready_mask = sn_ready_mask s, fc_missing_mask = sn_missing_mask s,
              fc_elapsed_valid = (\<not> pre_liftoff),
              fc_deployment_started = sn_deployment_started s,
              fc_power_cutoff_latched = sn_power_cutoff_latched s,
              fc_forced_start = sn_forced_start s\<rparr>
          in b\<lparr>bo_checkpoint := r\<lparr>fc_checksum := checkpointChecksum r\<rparr>\<rparr>)"

end
