(* ===== verification/Recovery_Safety.thy ===== *)
theory Recovery_Safety
  imports Recovery_Boot
begin

text \<open>
  What the recovery code promises: the checksums, the round trip of a flight over a reset, the
  recovery clock over deep sleep, when deep sleep is entered, and the exit transaction.
\<close>

unbundle bit_operations_syntax

section \<open>What the checksums cover\<close>

lemma fold_checksum_xor: "fold_checksum (a XOR b) = fold_checksum a XOR fold_checksum b"
  unfolding fold_checksum_def Let_def
  by (rule bit_word_eqI) (auto simp: bit_simps)

lemma fold_field:
  "fold_checksum ((e XOR push_bit 32 d) XOR drop_bit 32 (e XOR push_bit 32 d) XOR x) =
   fold_checksum (e XOR drop_bit 32 e XOR x)"
  unfolding fold_checksum_def Let_def
  by (rule bit_word_eqI) (auto simp: bit_simps)

lemma fold_peel: "fold_checksum a = fold_checksum b \<Longrightarrow> fold_checksum (c XOR a) = fold_checksum (c XOR b)"
  by (simp add: fold_checksum_xor)

lemma checkpoint_high_words:
  "checkpointChecksum (r\<lparr>fc_elapsed_us := fc_elapsed_us r XOR push_bit 32 d\<rparr>) = checkpointChecksum r"
  "checkpointChecksum (r\<lparr>fc_rtc_time_us := fc_rtc_time_us r XOR push_bit 32 d\<rparr>) = checkpointChecksum r"
  "checkpointChecksum (r\<lparr>fc_preflight_captured_at_us :=
     fc_preflight_captured_at_us r XOR push_bit 32 d\<rparr>) = checkpointChecksum r"
  unfolding checkpointChecksum_def 
  by (cases r; simp only: flight_checkpoint_record.simps; (rule fold_field fold_peel)+)+

text \<open>the checksums protect only the low half of their 64-bit fields. A field enters as
  \<open>e XOR (e >> 32)\<close> and the sum is folded by the same shift, so its upper 32 bits cancel: any
  change of the upper half of an elapsed time, of an RTC time or of a capture time leaves the
  record, the audit and the recovery marker valid.\<close>

theorem checksum_ignores_high_words:
  "validFlightCheckpoint (r\<lparr>fc_elapsed_us := fc_elapsed_us r XOR push_bit 32 d\<rparr>) = validFlightCheckpoint r \<and>
   validFlightCheckpoint (r\<lparr>fc_rtc_time_us := fc_rtc_time_us r XOR push_bit 32 d\<rparr>) = validFlightCheckpoint r \<and>
   validFlightCheckpoint (r\<lparr>fc_preflight_captured_at_us :=
     fc_preflight_captured_at_us r XOR push_bit 32 d\<rparr>) = validFlightCheckpoint r \<and>
   validStartReadinessAudit (a\<lparr>sa_captured_at_us := sa_captured_at_us a XOR push_bit 32 d\<rparr>) =
     validStartReadinessAudit a \<and>
   validRecoveryMarker (m\<lparr>rm_entry_rtc_time_us := rm_entry_rtc_time_us m XOR push_bit 32 d\<rparr>) =
     validRecoveryMarker m"
proof -
  have "startReadinessAuditChecksum (a\<lparr>sa_captured_at_us := sa_captured_at_us a XOR push_bit 32 d\<rparr>) =
      startReadinessAuditChecksum a"
    unfolding startReadinessAuditChecksum_def 
    by (cases a; simp only: start_readiness_audit_record.simps; (rule fold_field fold_peel)+)
  moreover have "recoveryMarkerChecksum (m\<lparr>rm_entry_rtc_time_us := rm_entry_rtc_time_us m XOR push_bit 32 d\<rparr>) =
      recoveryMarkerChecksum m"
    unfolding recoveryMarkerChecksum_def 
    by (cases m; simp only: recovery_marker.simps; (rule fold_field fold_peel)+)
  ultimately show ?thesis
    using checkpoint_high_words[of r d]
    by (simp add: validFlightCheckpoint_def validStartReadinessAudit_def validRecoveryMarker_def Let_def)
qed

section \<open>Storing and loading a checkpoint\<close>

lemma audit_checksum_frame [simp]:
  "startReadinessAuditChecksum (r\<lparr>sa_checksum := c\<rparr>) = startReadinessAuditChecksum r"
  by (simp add: startReadinessAuditChecksum_def)

lemma checkpoint_checksum_frame [simp]:
  "checkpointChecksum (r\<lparr>fc_checksum := c\<rparr>) = checkpointChecksum r"
  by (simp add: checkpointChecksum_def)

lemma marker_checksum_frame [simp]:
  "recoveryMarkerChecksum (r\<lparr>rm_checksum := c\<rparr>) = recoveryMarkerChecksum r"
  by (simp add: recoveryMarkerChecksum_def)

lemma state_cast_code [simp]: "mission_state_cast (mission_state_code s) = s"
  by (cases s) (simp_all add: mission_state_cast_def)

lemma masks_complete:
  "r OR m = kPreflightReadinessMask \<Longrightarrow> (r OR m) AND kPreflightReadinessMask = kPreflightReadinessMask"
  by simp

text \<open>The checkpoint the code means to keep of a snapshot, \<open>gap\<close> microseconds after it was stored.\<close>

definition checkpoint_of :: "u64 \<Rightarrow> mission_machine \<Rightarrow> reset_checkpoint" where
  "checkpoint_of gap m = \<lparr>ck_valid = True, ck_state = sn_state m,
     ck_flight_epoch = sn_flight_epoch m, ck_elapsed_valid = in_flight (sn_state m),
     ck_elapsed_us = (if in_flight (sn_state m) then sn_elapsed_us m + gap else 0),
     ck_deployment_started = sn_deployment_started m,
     ck_power_cutoff_latched = sn_power_cutoff_latched m, ck_forced_start = sn_forced_start m,
     ck_preflight_generation = sn_preflight_generation m,
     ck_preflight_captured_at_us = sn_preflight_captured_at_us m,
     ck_ready_mask = sn_ready_mask m, ck_missing_mask = sn_missing_mask m\<rparr>"

definition record_of :: "u64 \<Rightarrow> mission_machine \<Rightarrow> flight_checkpoint_record" where
  "record_of t m = \<lparr>fc_magic = kFlightCheckpointMagic, fc_version = kFlightCheckpointVersion,
     fc_checksum = 0, fc_flight_epoch = sn_flight_epoch m,
     fc_elapsed_us = (if in_flight (sn_state m) then sn_elapsed_us m else 0), fc_rtc_time_us = t,
     fc_preflight_captured_at_us = sn_preflight_captured_at_us m,
     fc_preflight_generation = sn_preflight_generation m, fc_state = mission_state_code (sn_state m),
     fc_ready_mask = sn_ready_mask m, fc_missing_mask = sn_missing_mask m,
     fc_elapsed_valid = in_flight (sn_state m), fc_deployment_started = sn_deployment_started m,
     fc_power_cutoff_latched = sn_power_cutoff_latched m, fc_forced_start = sn_forced_start m\<rparr>"

lemma record_of_fields [simp]:
  "fc_magic (record_of t m) = kFlightCheckpointMagic"
  "fc_version (record_of t m) = kFlightCheckpointVersion"
  "fc_checksum (record_of t m) = 0"
  "fc_flight_epoch (record_of t m) = sn_flight_epoch m"
  "fc_elapsed_us (record_of t m) = (if in_flight (sn_state m) then sn_elapsed_us m else 0)"
  "fc_rtc_time_us (record_of t m) = t"
  "fc_preflight_captured_at_us (record_of t m) = sn_preflight_captured_at_us m"
  "fc_preflight_generation (record_of t m) = sn_preflight_generation m"
  "fc_state (record_of t m) = mission_state_code (sn_state m)"
  "fc_ready_mask (record_of t m) = sn_ready_mask m"
  "fc_missing_mask (record_of t m) = sn_missing_mask m"
  "fc_elapsed_valid (record_of t m) = in_flight (sn_state m)"
  "fc_deployment_started (record_of t m) = sn_deployment_started m"
  "fc_power_cutoff_latched (record_of t m) = sn_power_cutoff_latched m"
  "fc_forced_start (record_of t m) = sn_forced_start m"
  by (simp_all add: record_of_def)

lemma active_states:
  assumes "mission_inv m" "sn_state m \<noteq> MS_command_receive"
  shows "sn_flight_epoch m \<noteq> 0" "sn_liftoff_time_valid m = in_flight (sn_state m)"
    "sn_ready_mask m AND sn_missing_mask m = 0"
    "sn_ready_mask m OR sn_missing_mask m = kPreflightReadinessMask"
    "sn_deployment_started m = (sn_state m = MS_descent)"
    "sn_forced_start m \<or> sn_missing_mask m = 0"
    "in_flight (sn_state m) = (sn_state m \<noteq> MS_liftoff_detection)"
    "sn_state m = MS_liftoff_detection \<or> sn_state m = MS_engine_burn \<or> sn_state m = MS_control \<or>
     sn_state m = MS_descent"
  using assms unfolding mission_inv_def core_inv_def in_flight_def
  by (blast | cases "sn_state m"; simp)+

lemma store_record:
  assumes "mission_inv m" "sn_state m \<noteq> MS_command_receive"
  shows "storeFlightCheckpoint t m b =
    b\<lparr>bo_checkpoint := (record_of t m)\<lparr>fc_checksum := checkpointChecksum (record_of t m)\<rparr>\<rparr>"
  using active_states(1,2,7)[OF assms] assms(2)
  by (simp add: storeFlightCheckpoint_def record_of_def Let_def)

lemma record_valid:
  assumes "mission_inv m" "sn_state m \<noteq> MS_command_receive"
  shows "validFlightCheckpoint ((record_of t m)\<lparr>fc_checksum := checkpointChecksum (record_of t m)\<rparr>)"
  using active_states(1,3,7,8)[OF assms] active_states(4)[OF assms]
  by (auto simp: validFlightCheckpoint_def Let_def in_flight_def)

lemma stored_loads:
  assumes "mission_inv m" "sn_state m \<noteq> MS_command_receive" "resetPreservesRtcMemory reason"
    "t \<le> now" "now - t \<le> - 1 - sn_elapsed_us m"
  shows "loadFlightCheckpoint reason now (storeFlightCheckpoint t m b) = (True, checkpoint_of (now - t) m)"
proof -
  have "\<not> now < t" "\<not> - 1 - sn_elapsed_us m < now - t" using assms(4,5) by (simp_all add: not_less)
  then show ?thesis
    unfolding store_record[OF assms(1,2)] loadFlightCheckpoint_def Let_def
    using assms(3) record_valid[OF assms(1,2), of t] by (simp add: checkpoint_of_def)
qed

lemma checkpoint_of_consistent:
  assumes "mission_inv m" "sn_state m \<noteq> MS_command_receive"
  shows "checkpoint_consistent (checkpoint_of gap m)"
  using active_states(3-6)[OF assms] by (simp add: checkpoint_of_def checkpoint_consistent_def)

text \<open>What a restore of the checkpoint reproduces of the machine it was stored from.\<close>

definition resumes :: "u64 \<Rightarrow> mission_machine \<Rightarrow> mission_machine \<Rightarrow> bool" where
  "resumes gap m m' =
     (sn_state m' = (if sn_state m = MS_control then MS_engine_burn else sn_state m)
      \<and> sn_flight_epoch m' = sn_flight_epoch m
      \<and> sn_liftoff_time_valid m' = sn_liftoff_time_valid m
      \<and> sn_elapsed_us m' = (if in_flight (sn_state m) then sn_elapsed_us m + gap else 0)
      \<and> sn_deployment_started m' = sn_deployment_started m
      \<and> (in_flight (sn_state m) \<longrightarrow> sn_power_cutoff_latched m' = sn_power_cutoff_latched m)
      \<and> sn_ready_mask m' = sn_ready_mask m \<and> sn_missing_mask m' = sn_missing_mask m
      \<and> sn_forced_start m' = sn_forced_start m
      \<and> sn_reset_invalidated m' \<and> sn_control_reentry_inhibited m' \<and> sn_fin m' = FD_brake)"

lemma restore_resumes:
  assumes "mission_inv m" "sn_state m \<noteq> MS_command_receive"
  shows "\<exists>m'. restoreAfterReset now (checkpoint_of gap m) m0 = (TR_completed, m') \<and> resumes gap m m'"
  using active_states[OF assms] unfolding in_flight_def
  by (auto simp: restoreAfterReset_def checkpoint_of_def resumes_def in_flight_def Let_def
    invalidate_defs snapshot_init_def mission_snapshot.extend_def mission_machine.fields_def
    updateDirectives_def)


definition liftoff_run :: "mission_call list" where
  "liftoff_run = [Call_start 0 ready_all SM_normal, Call_tick (tick_at 2000000 True False) safety_request_default]"

definition boot_memory_init :: "unit boot_memory" where
  "boot_memory_init = \<lparr>re_marker = marker_init, re_por_unrecoverable = False, re_exit_transaction = 0,
     re_exit_arguments_valid = False, re_exit_prepared = False, re_nvs = (),
     bo_checkpoint = checkpoint_record_init, bo_audit = audit_record_init\<rparr>"


section \<open>The recovery clock\<close>

lemma near_tenth: "\<bar>x - q * 10\<bar> \<le> e \<Longrightarrow> \<bar>y - x / 10\<bar> \<le> f \<Longrightarrow> \<bar>y - q\<bar> \<le> e / 10 + (f :: real)"
  by linarith

lemma recovery_count:
  assumes "0 \<le> d" "d < 655200000000"
  shows "encodeRecoveryElapsed (ddiv (dint d) (lit 1000000)) e = word_of_int (d div 10000000)"
proof -
  define k where "k = d div 10000000"
  define r where "r = d mod 10000000"
  have d: "d = 10000000 * k + r" unfolding k_def r_def by simp
  have r: "0 \<le> r" "r < 10000000" by (simp_all add: r_def)
  have k: "0 \<le> k" "k \<le> 65519" using assms by (simp_all add: k_def)
  have dr: "(of_int d :: real) = 10000000 * of_int k + of_int r" by (simp add: d)
  have rr: "0 \<le> (of_int r :: real)" "(of_int r :: real) \<le> 9999999"
    using r of_int_le_iff[of r 9999999, where 'a = real] by simp_all
  have kr: "0 \<le> (of_int k :: real)" "(of_int k :: real) \<le> 65519"
    using k of_int_le_iff[of k 65519, where 'a = real] by simp_all
  define x where "x = rnd_real (of_int d / 1000000)"
  have bx: "\<bar>of_int d / 1000000\<bar> \<le> (2 ^ 20 :: real)" using dr rr kr by simp
  have million: "lit 1000000 = Fin 1000000" using lit_int[of 1000000] by simp
  have x: "ddiv (dint d) (lit 1000000) = Fin x"
    using assms dint_Fin[of d] rnd_finite[of "of_int d / 1000000"] bx by (simp add: million x_def)
  have x0: "0 \<le> x" unfolding x_def using assms by (intro rnd_real_nonneg) simp
  have xe: "\<bar>x - of_int d / 1000000\<bar> \<le> 1 / 2 ^ 33" using rnd_abs_error[OF bx] by (simp add: x_def)
  define y where "y = rnd_real (x / 10)"
  have "x \<le> 1000000" unfolding x_def using dr rr kr by (intro rnd_real_le representable_numeral) simp_all
  then have by17: "\<bar>x / 10\<bar> \<le> 2 ^ 17" using x0 by simp
  have y: "ddiv (Fin x) (Fin 10) = Fin y" using rnd_finite[of "x / 10"] by17 by (simp add: y_def)
  have ye: "\<bar>y - x / 10\<bar> \<le> 1 / 2 ^ 36" using rnd_abs_error[OF by17] by (simp add: y_def)
  have fl: "\<lfloor>y\<rfloor> = k"
  proof (cases "r = 0")
    case True
    then have "of_int d / 1000000 = (of_int (10 * k) :: real)" using dr by simp
    then have "x = of_int (10 * k)" unfolding x_def using k by (simp only: ) (intro rnd_real_exact representable_int, simp)
    then have "x / 10 = of_int k" by simp
    then have "y = of_int k" unfolding y_def using k by (simp only: ) (intro rnd_real_exact representable_int, simp)
    then show ?thesis by simp
  next
    case False
    then have r1: "1 \<le> (of_int r :: real)" using r by simp
    define q where "q = (of_int d / 10000000 :: real)"
    have q: "of_int k + 1 / 10000000 \<le> q" "q \<le> of_int k + 9999999 / 10000000"
      using dr r1 rr by (simp_all add: q_def)
    have "of_int d / 1000000 = q * 10" by (simp add: q_def)
    then have "\<bar>x - q * 10\<bar> \<le> 1 / 2 ^ 33" using xe by (simp only:)
    then have "\<bar>y - q\<bar> \<le> 1 / 2 ^ 33 / 10 + 1 / 2 ^ 36" using ye by (rule near_tenth)
    then have "\<bar>y - q\<bar> \<le> 1 / 20000000" by (rule order_trans) simp
    then have "of_int k \<le> y" "y < of_int k + 1" using q unfolding abs_le_iff by linarith+
    then show ?thesis by (rule floor_unique)
  qed
  show ?thesis unfolding x encodeRecoveryElapsed_def lit_numerals y dfloor.simps fl Let_def
    using x0 k by (simp add: dint_Fin k_def[symmetric])
qed

lemma made_marker_valid:
  "validRecoveryMarker (fst (makeRecoveryMarker api w t n))"
  "rm_entry_rtc_time_us (fst (makeRecoveryMarker api w t n)) = t"
  "rm_wake_sequence (fst (makeRecoveryMarker api w t n)) = w"
  by (simp_all add: makeRecoveryMarker_def validRecoveryMarker_def recoveryMarkerChecksum_def Let_def)

lemma commit_valid:
  assumes "commitRecoveryEntryMarker api t b = (True, b')"
  shows "validRecoveryMarker (re_marker b')" "rm_entry_rtc_time_us (re_marker b') \<noteq> 0"
  using assms by (auto simp: commitRecoveryEntryMarker_def Let_def split: if_splits prod.splits)

lemma prepare_marker:
  assumes "validRecoveryMarker (re_marker b)" "rm_entry_rtc_time_us (re_marker b) \<noteq> 0"
  shows "validRecoveryMarker (re_marker (prepareMarker api b))"
    "rm_entry_rtc_time_us (re_marker (prepareMarker api b)) = rm_entry_rtc_time_us (re_marker b)"
    "wakeSequence (prepareMarker api b) = wakeSequence b + 1"
  using assms made_marker_valid[of api "wakeSequence b + 1" "rm_entry_rtc_time_us (re_marker b)" "re_nvs b"]
  by (auto simp: prepareMarker_def wakeSequence_def split: prod.splits)

lemma prepare_cycles:
  assumes "validRecoveryMarker (re_marker b)" "rm_entry_rtc_time_us (re_marker b) \<noteq> 0"
  shows "validRecoveryMarker (re_marker ((prepareMarker api ^^ k) b)) \<and>
    rm_entry_rtc_time_us (re_marker ((prepareMarker api ^^ k) b)) = rm_entry_rtc_time_us (re_marker b) \<and>
    wakeSequence ((prepareMarker api ^^ k) b) = wakeSequence b + of_nat k"
proof (induction k)
  case (Suc k)
  then show ?case using assms prepare_marker[of "(prepareMarker api ^^ k) b" api] by simp
qed (use assms in simp)

text \<open>the recovery clock runs across deep sleep. Once an entry marker is committed, any number of
  sleep cycles keeps it valid with its entry time and counts one wake each, whatever NVS does, and
  for 655200 s the elapsed time reported at RTC time \<open>t\<close> is exactly the number of full tens of
  seconds since the entry.\<close>

theorem recovery_clock:
  assumes "commitRecoveryEntryMarker api t0 b = (True, b1)"
    "rm_entry_rtc_time_us (re_marker b1) \<le> t"
    "uint (t - rm_entry_rtc_time_us (re_marker b1)) < 655200000000"
    "recovery_only \<longrightarrow> wake_cause_valid"
  shows "markerValid ((prepareMarker api ^^ k) b1) \<and>
    wakeSequence ((prepareMarker api ^^ k) b1) = wakeSequence b1 + of_nat k \<and>
    recoveryElapsedRaw wake_cause_valid requested recovery_only t ((prepareMarker api ^^ k) b1) =
      word_of_int (uint (t - rm_entry_rtc_time_us (re_marker b1)) div 10000000)"
proof -
  note v = commit_valid[OF assms(1)]
  note c = prepare_cycles[OF v, where api = api and k = k]
  have "\<not> t < rm_entry_rtc_time_us (re_marker b1)" using assms(2) by (simp add: not_less)
  then show ?thesis
    using c v assms(3,4) recovery_count[of "uint (t - rm_entry_rtc_time_us (re_marker b1))" TME_internal_error]
    by (auto simp: markerValid_def recoveryElapsedRaw_def Let_def)
qed

text \<open>An NVS whose every call succeeds and that keeps one byte.\<close>

definition nvs_byte :: "u8 option nvs_api" where
  "nvs_byte = \<lparr>nvs_flash_init = (\<lambda>n. (ESP_OK, n)), nvs_open = (\<lambda>_ _ n. (ESP_OK, 1, n)),
     nvs_get_u8 = (\<lambda>_ _ n. case n of None \<Rightarrow> (ESP_ERR_NVS_NOT_FOUND, 0, n) | Some v \<Rightarrow> (ESP_OK, v, n)),
     nvs_set_u8 = (\<lambda>_ _ v n. (ESP_OK, Some v)),
     nvs_erase_key = (\<lambda>_ _ n. (if n = None then ESP_ERR_NVS_NOT_FOUND else ESP_OK, None)),
     nvs_commit = (\<lambda>_ n. (ESP_OK, n)), nvs_close = (\<lambda>_ n. n)\<rparr>"

definition nvs_memory :: "u8 option boot_memory" where
  "nvs_memory = \<lparr>re_marker = marker_init, re_por_unrecoverable = False, re_exit_transaction = 0,
     re_exit_arguments_valid = False, re_exit_prepared = False, re_nvs = None,
     bo_checkpoint = checkpoint_record_init, bo_audit = audit_record_init\<rparr>"

theorem recovery_clock_witness:
  "recoveryElapsedRaw True True True 34500000
     ((prepareMarker nvs_byte ^^ 3) (snd (commitRecoveryEntryMarker nvs_byte 1000000 nvs_memory))) = 3"
proof -
  obtain mk n where k: "makeRecoveryMarker nvs_byte 0 1000000 None = (mk, n)" by fastforce
  then have mk: "validRecoveryMarker mk" "rm_entry_rtc_time_us mk = 1000000"
    using made_marker_valid(1,2)[of nvs_byte 0 1000000 None] by simp_all
  have u: "\<not> validRecoveryMarker marker_init"
    by (simp add: validRecoveryMarker_def marker_init_def)
  obtain b1 where e: "commitRecoveryEntryMarker nvs_byte 1000000 nvs_memory = (True, b1)"
      "rm_entry_rtc_time_us (re_marker b1) = 1000000"
    using u mk by (simp add: commitRecoveryEntryMarker_def nvs_memory_def k)
  show ?thesis unfolding e(1) snd_conv
    using recovery_clock[OF e(1), of 34500000 True True 3 True] e(2) by simp
qed

section \<open>When the recovery sleeps and leaves\<close>

lemma recovery_step_sleep:
  "recovery_step c s = RS_ready_for_deep_sleep \<Longrightarrow>
     s = RS_ready_for_deep_sleep \<or> s = RS_transfer_in_progress \<or> (s = RS_flushing_and_safeing \<and> c = RC_flushed)"
  "recovery_step c s = RS_wake_command_window \<Longrightarrow> s = RS_wake_command_window \<or> c = RC_wake True True"
  "recovery_step c s = RS_transfer_in_progress \<Longrightarrow>
     s = RS_transfer_in_progress \<or> s = RS_wake_command_window"
  "recovery_step c s = RS_flushing_and_safeing \<Longrightarrow>
     s = RS_flushing_and_safeing \<or> (s = RS_inactive \<and> c = RC_request_entry)"
  by (cases c; auto simp: requestEntry_def markResourcesSafeAndFlushed_def recovery_wake_def
      beginTransfer_def finishTransfer_def split: if_splits)+

text \<open>Resources flushed after an entry request, or a wake that was authorised.\<close>

definition sleep_cause :: "recovery_call list \<Rightarrow> bool" where
  "sleep_cause cs =
     ((\<exists>xs ys zs. cs = xs @ RC_request_entry # ys @ RC_flushed # zs) \<or> RC_wake True True \<in> set cs)"

lemma sleep_cause_snoc: "sleep_cause cs \<Longrightarrow> sleep_cause (cs @ [c])"
  unfolding sleep_cause_def by fastforce

lemma recovery_history:
  "(fold recovery_step cs RS_inactive \<in> {RS_ready_for_deep_sleep, RS_wake_command_window, RS_transfer_in_progress}
      \<longrightarrow> sleep_cause cs) \<and>
   (fold recovery_step cs RS_inactive = RS_flushing_and_safeing \<longrightarrow> RC_request_entry \<in> set cs)"
proof (induction cs rule: rev_induct)
  case (snoc c cs)
  let ?s = "fold recovery_step cs RS_inactive"
  have f: "sleep_cause (cs @ [RC_flushed])" if "RC_request_entry \<in> set cs"
    using split_list[OF that] unfolding sleep_cause_def by fastforce
  have w: "sleep_cause (cs @ [RC_wake True True])" unfolding sleep_cause_def by simp
  show ?case
    using snoc.IH recovery_step_sleep[of c ?s] sleep_cause_snoc[of cs c] f w by auto
qed simp

lemma transfer_awake:
  "RC_finish_transfer \<notin> set cs \<Longrightarrow> RC_wake True True \<notin> set cs \<Longrightarrow>
   fold recovery_step cs RS_transfer_in_progress = RS_transfer_in_progress"
proof (induction cs)
  case (Cons c cs)
  then show ?case
    by (cases c) (auto simp: requestEntry_def markResourcesSafeAndFlushed_def recovery_wake_def
      beginTransfer_def)
qed simp

text \<open>deep sleep is entered only in a safe moment. Whatever calls are made after power-up, the
  runtime may sleep only once an entry was requested and then flushed, or a wake was authorised
  by a valid marker and a timer cause; and during a log transfer only after it was finished or
  such a wake.\<close>

theorem deep_sleep_guarded:
  "(mayEnterDeepSleep (fold recovery_step cs RS_inactive) \<longrightarrow> sleep_cause cs) \<and>
   (beginTransfer s = (True, s') \<and> mayEnterDeepSleep (fold recovery_step ds s') \<longrightarrow>
      RC_finish_transfer \<in> set ds \<or> RC_wake True True \<in> set ds)"
proof (intro conjI impI)
  assume "mayEnterDeepSleep (fold recovery_step cs RS_inactive)"
  then show "sleep_cause cs" using recovery_history[of cs] by (auto simp: mayEnterDeepSleep_def)
next
  assume "beginTransfer s = (True, s') \<and> mayEnterDeepSleep (fold recovery_step ds s')"
  then have "fold recovery_step ds RS_transfer_in_progress \<noteq> RS_transfer_in_progress"
    by (auto simp: mayEnterDeepSleep_def beginTransfer_def split: if_splits)
  then show "RC_finish_transfer \<in> set ds \<or> RC_wake True True \<in> set ds"
    using transfer_awake[of ds] by blast
qed

theorem deep_sleep_guarded_witness:
  "sleep_cause [RC_request_entry, RC_flushed] \<and>
   RC_finish_transfer \<in> set [RC_flushed, RC_finish_transfer]"
  using deep_sleep_guarded[of "[RC_request_entry, RC_flushed]" RS_wake_command_window RS_transfer_in_progress
    "[RC_flushed, RC_finish_transfer]"]
  by (simp add: mayEnterDeepSleep_def requestEntry_def markResourcesSafeAndFlushed_def
    beginTransfer_def finishTransfer_def)

text \<open>the exit is all or nothing. A prepared exit had valid arguments for its pending transaction;
  it clears the marker and the power-on evidence only when the latch, read back after the erase,
  is inactive. A failed one, whichever NVS call failed, changes nothing but NVS, so the marker
  and the request stay.\<close>

theorem exit_all_or_nothing:
  assumes "prepareExit api t r = (ok, r')"
  shows "(ok \<longrightarrow> exitArgumentsValid t r \<and> re_exit_prepared r' \<and>
      (re_exit_prepared r \<or> re_marker r' = marker_init \<and> \<not> re_por_unrecoverable r' \<and>
        (\<exists>n. latchState api n = (LS_inactive, re_nvs r')))) \<and>
    (\<not> ok \<longrightarrow> r' = r\<lparr>re_nvs := re_nvs r'\<rparr>)"
  using assms unfolding prepareExit_def Let_def
  by (auto simp: clearMarker_def split: if_splits prod.splits)

definition armed_exit :: "u8 option recovery_memory" where
  "armed_exit = armExitRequest 7 True \<lparr>re_marker = fst (makeRecoveryMarker nvs_byte 4 99 None),
     re_por_unrecoverable = False, re_exit_transaction = 0, re_exit_arguments_valid = False,
     re_exit_prepared = False, re_nvs = Some 1\<rparr>"

theorem exit_all_or_nothing_witness:
  "fst (prepareExit nvs_byte 7 armed_exit) \<and>
   re_marker (snd (prepareExit nvs_byte 7 armed_exit)) = marker_init"
proof -
  obtain r' where e: "prepareExit nvs_byte 7 armed_exit = (True, r')"
    by (simp add: prepareExit_def armed_exit_def armExitRequest_def exitArgumentsValid_def
      exitRequestPending_def nvs_byte_def latchState_def)
  have "\<not> re_exit_prepared armed_exit" by (simp add: armed_exit_def armExitRequest_def)
  then show ?thesis using exit_all_or_nothing[OF e] e by simp
qed

end
