(* ===== verification/Flight_Log.thy ===== *)
theory Flight_Log
  imports Prelude
begin

text \<open>
  \<open>src/runtime/flight_log.{hpp,cpp}\<close> and \<open>flight_runtime_metadata.{hpp,cpp}\<close>: the 192-byte record
  of the flight log and its CRC-32. A \<open>float\<close> of the sample is its 32-bit pattern, which is all
  \<open>putFloat\<close> copies. The record is a list of bytes; the published metadata is an argument.
\<close>

unbundle bit_operations_syntax

section \<open>Types\<close>

type_synonym f32 = u32

datatype fin_zero_approach_direction = AD_unknown | AD_positive | AD_negative

fun approach_direction_code :: "fin_zero_approach_direction \<Rightarrow> u8" where
  "approach_direction_code AD_unknown = 0"
| "approach_direction_code AD_positive = 1"
| "approach_direction_code AD_negative = 2"

datatype fin_zero_calibration_method =
    CM_unknown | CM_current_position | CM_positive_single_approach
  | CM_negative_single_approach | CM_bidirectional_midpoint

fun calibration_method_code :: "fin_zero_calibration_method \<Rightarrow> u8" where
  "calibration_method_code CM_unknown = 0"
| "calibration_method_code CM_current_position = 1"
| "calibration_method_code CM_positive_single_approach = 2"
| "calibration_method_code CM_negative_single_approach = 3"
| "calibration_method_code CM_bidirectional_midpoint = 4"

datatype fin_zero_ground_verification = GV_unverified | GV_passed | GV_failed

fun ground_verification_code :: "fin_zero_ground_verification \<Rightarrow> u8" where
  "ground_verification_code GV_unverified = 0"
| "ground_verification_code GV_passed = 1"
| "ground_verification_code GV_failed = 2"

datatype encoder_pipeline_state = EP_uninitialized | EP_warming_up | EP_ready | EP_faulted

fun pipeline_state_code :: "encoder_pipeline_state \<Rightarrow> u8" where
  "pipeline_state_code EP_uninitialized = 0"
| "pipeline_state_code EP_warming_up = 1"
| "pipeline_state_code EP_ready = 2"
| "pipeline_state_code EP_faulted = 3"

record fin_zero_metadata =
  fz_encoder_zero_count :: u16
  fz_configured_timestamp_us :: u64
  fz_approach_direction :: fin_zero_approach_direction
  fz_calibration_method :: fin_zero_calibration_method
  fz_ground_verification_status :: fin_zero_ground_verification
  fz_measured_bidirectional_span_rad :: f32

record encoder_timing_metadata =
  et_capture_requested_timestamp_us :: u64
  et_spi_transaction_start_us :: u64
  et_spi_transaction_complete_us :: u64
  et_consumer_timestamp_us :: u64
  et_pipeline_ready_timestamp_us :: u64
  et_consumer_deadline_miss_count :: u16
  et_repeated_block_count :: u16
  et_coalesced_notification_count :: u16
  et_raw_capture_missed_tick_count :: u16
  et_timestamp_offset_saturation_count :: u16
  et_pipeline_state :: encoder_pipeline_state

record flight_metadata =
  md_fin_zero :: fin_zero_metadata
  md_encoder :: encoder_timing_metadata

record sample =
  fs_monotonic_us :: u64
  fs_flight_elapsed_us :: u64
  fs_flight_epoch :: u32
  fs_sd_drop_count :: u32
  fs_flash_drop_count :: u32
  fs_flight_status :: u16
  fs_state :: u8
  fs_config_flags :: u8
  fs_fin_mode :: u8
  fs_para_mode :: u8
  fs_lps_temperature_raw :: u8
  fs_airspeed_raw :: u8
  fs_fin_angle_raw :: u8
  fs_lps_pressure_raw :: u16
  fs_roll_raw :: u16
  fs_roll_rate_raw :: u16
  fs_fin_rate_raw :: u16
  fs_requested_torque_raw :: u16
  fs_control_roll_reference_raw :: u16
  fs_roll_deviation_raw :: u16
  fs_control_roll_flags :: u8
  fs_reference_capture_event_sequence :: u8
  fs_gain_clamp_flags :: u8
  fs_lps_valid :: bool
  fs_airspeed_valid :: bool
  fs_deployment_power_cutoff :: bool
  fs_control_reference_valid :: bool
  fs_fin_zero_configured :: bool
  fs_encoder_zero_count :: u16
  fs_reference_capture_tick :: u64
  fs_reference_estimator_timestamp_us :: u64
  fs_roll_estimate_rad :: f32
  fs_control_reference_rad :: f32
  fs_roll_deviation_rad :: f32
  fs_static_pressure_pa :: f32
  fs_ssc_temperature_celsius :: f32
  fs_airspeed_mps :: f32
  fs_pitot_coefficient_assumed :: f32
  fs_pitot_coefficient_diagnostic_min :: f32
  fs_pitot_coefficient_diagnostic_max :: f32
  fs_measured_bidirectional_span_rad :: f32

definition publishFinZero :: "fin_zero_metadata \<Rightarrow> flight_metadata \<Rightarrow> flight_metadata" where
  "publishFinZero metadata latest = latest\<lparr>md_fin_zero := metadata\<rparr>"

definition publishEncoderTiming :: "encoder_timing_metadata \<Rightarrow> flight_metadata \<Rightarrow> flight_metadata" where
  "publishEncoderTiming metadata latest = latest\<lparr>md_encoder := metadata\<rparr>"

definition kSchemaVersion :: u8 where "kSchemaVersion = 2"
definition kSerializedRecordBytes :: nat where "kSerializedRecordBytes = 192"
definition kUnknownEncoderZeroCount :: u16 where "kUnknownEncoderZeroCount = 0xFFFF"
definition kMagic :: "u8 list" where "kMagic = [0x39, 0x39, 0x4C, 0x47]"

definition sample_init :: sample where
  "sample_init = \<lparr>fs_monotonic_us = 0, fs_flight_elapsed_us = 0, fs_flight_epoch = 0,
     fs_sd_drop_count = 0, fs_flash_drop_count = 0, fs_flight_status = 0, fs_state = 0,
     fs_config_flags = 0, fs_fin_mode = 0, fs_para_mode = 0, fs_lps_temperature_raw = 0,
     fs_airspeed_raw = 0, fs_fin_angle_raw = 0, fs_lps_pressure_raw = 0, fs_roll_raw = 0,
     fs_roll_rate_raw = 0, fs_fin_rate_raw = 0, fs_requested_torque_raw = 0,
     fs_control_roll_reference_raw = 0, fs_roll_deviation_raw = 0, fs_control_roll_flags = 0,
     fs_reference_capture_event_sequence = 0, fs_gain_clamp_flags = 0, fs_lps_valid = False,
     fs_airspeed_valid = False, fs_deployment_power_cutoff = False, fs_control_reference_valid =
     False, fs_fin_zero_configured = False, fs_encoder_zero_count = kUnknownEncoderZeroCount,
     fs_reference_capture_tick = 0, fs_reference_estimator_timestamp_us = 0,
     fs_roll_estimate_rad = 0, fs_control_reference_rad = 0, fs_roll_deviation_rad = 0,
     fs_static_pressure_pa = 0, fs_ssc_temperature_celsius = 0, fs_airspeed_mps = 0,
     fs_pitot_coefficient_assumed = 0, fs_pitot_coefficient_diagnostic_min = 0,
     fs_pitot_coefficient_diagnostic_max = 0, fs_measured_bidirectional_span_rad = 0\<rparr>"

definition metadata_init :: flight_metadata where
  "metadata_init = \<lparr>md_fin_zero = \<lparr>fz_encoder_zero_count = 0xFFFF, fz_configured_timestamp_us = 0,
       fz_approach_direction = AD_unknown, fz_calibration_method = CM_unknown,
       fz_ground_verification_status = GV_unverified, fz_measured_bidirectional_span_rad = 0x7FC00000\<rparr>,
     md_encoder = \<lparr>et_capture_requested_timestamp_us = 0, et_spi_transaction_start_us = 0,
       et_spi_transaction_complete_us = 0, et_consumer_timestamp_us = 0,
       et_pipeline_ready_timestamp_us = 0, et_consumer_deadline_miss_count = 0,
       et_repeated_block_count = 0, et_coalesced_notification_count = 0,
       et_raw_capture_missed_tick_count = 0, et_timestamp_offset_saturation_count = 0,
       et_pipeline_state = EP_uninitialized\<rparr>\<rparr>"

section \<open>Writing and reading fields\<close>

definition log_putU16 :: "u8 list \<Rightarrow> nat \<Rightarrow> u16 \<Rightarrow> u8 list" where
  "log_putU16 d off v = d[off := byte_at 0 v, off + 1 := byte_at 1 v]"

definition log_putU32 :: "u8 list \<Rightarrow> nat \<Rightarrow> u32 \<Rightarrow> u8 list" where
  "log_putU32 d off v = foldl (\<lambda>d i. d[off + i := byte_at i v]) d [0..<4]"

definition log_putU64 :: "u8 list \<Rightarrow> nat \<Rightarrow> u64 \<Rightarrow> u8 list" where
  "log_putU64 d off v = foldl (\<lambda>d i. d[off + i := byte_at i v]) d [0..<8]"

definition log_putFloat :: "u8 list \<Rightarrow> nat \<Rightarrow> f32 \<Rightarrow> u8 list" where
  "log_putFloat d off v = log_putU32 d off v"

definition log_getU32 :: "u8 list \<Rightarrow> nat \<Rightarrow> u32" where
  "log_getU32 d off = ucast (d ! off) OR push_bit 8 (ucast (d ! (off + 1)))
     OR push_bit 16 (ucast (d ! (off + 2))) OR push_bit 24 (ucast (d ! (off + 3)))"

section \<open>The checksum\<close>

definition crc_bit :: "u32 \<Rightarrow> u32" where
  "crc_bit crc = drop_bit 1 crc XOR (if crc AND 1 \<noteq> 0 then 0xEDB88320 else 0)"

definition crc_byte :: "u32 \<Rightarrow> u8 \<Rightarrow> u32" where
  "crc_byte crc b = (crc_bit ^^ 8) (crc XOR ucast b)"

definition crc32 :: "u8 list \<Rightarrow> u32" where
  "crc32 data = NOT (foldl crc_byte 0xFFFFFFFF data)"

section \<open>The record\<close>

definition validity_bits :: "sample \<Rightarrow> u8" where
  "validity_bits s =
     (if fs_lps_valid s then 1 else 0) OR (if fs_airspeed_valid s then 2 else 0)
     OR (if fs_deployment_power_cutoff s then 4 else 0)
     OR (if fs_control_reference_valid s then 8 else 0)
     OR (if fs_fin_zero_configured s then 16 else 0)"

definition serialize :: "flight_metadata \<Rightarrow> sample \<Rightarrow> u8 list" where
  "serialize md s =
     (let d = replicate kSerializedRecordBytes 0;
          d = kMagic @ drop 4 d;
          d = d[4 := kSchemaVersion];
          d = d[5 := of_nat kSerializedRecordBytes];
          d = d[6 := fs_state s];
          d = d[7 := validity_bits s];
          d = log_putU64 d 8 (fs_monotonic_us s);
          d = log_putU64 d 16 (fs_flight_elapsed_us s);
          d = log_putU32 d 24 (fs_flight_epoch s);
          d = log_putU32 d 28 (fs_sd_drop_count s);
          d = log_putU32 d 32 (fs_flash_drop_count s);
          d = log_putU16 d 36 (fs_flight_status s);
          d = d[38 := fs_config_flags s];
          d = d[39 := fs_fin_mode s];
          d = d[40 := fs_para_mode s];
          d = d[41 := fs_lps_temperature_raw s];
          d = d[42 := fs_airspeed_raw s];
          d = d[43 := fs_fin_angle_raw s];
          d = log_putU16 d 44 (fs_lps_pressure_raw s);
          d = log_putU16 d 46 (fs_roll_raw s);
          d = log_putU16 d 48 (fs_roll_rate_raw s);
          d = log_putU16 d 50 (fs_fin_rate_raw s);
          d = log_putU16 d 52 (fs_requested_torque_raw s);
          d = log_putU16 d 54 (fs_control_roll_reference_raw s);
          d = log_putU16 d 56 (fs_roll_deviation_raw s);
          d = d[58 := fs_control_roll_flags s];
          d = d[59 := fs_reference_capture_event_sequence s];
          d = d[60 := fs_gain_clamp_flags s];
          d = d[61 := if fs_fin_zero_configured s then 1 else 0];
          d = log_putU16 d 62 (if fz_encoder_zero_count (md_fin_zero md) \<noteq> kUnknownEncoderZeroCount then fz_encoder_zero_count (md_fin_zero md) else fs_encoder_zero_count s);
          d = log_putU64 d 64 (fs_reference_capture_tick s);
          d = log_putU64 d 72 (fs_reference_estimator_timestamp_us s);
          d = log_putFloat d 80 (fs_roll_estimate_rad s);
          d = log_putFloat d 84 (fs_control_reference_rad s);
          d = log_putFloat d 88 (fs_roll_deviation_rad s);
          d = log_putFloat d 92 (fs_static_pressure_pa s);
          d = log_putFloat d 96 (fs_ssc_temperature_celsius s);
          d = log_putFloat d 100 (fs_airspeed_mps s);
          d = log_putFloat d 104 (fs_pitot_coefficient_assumed s);
          d = log_putFloat d 108 (fs_pitot_coefficient_diagnostic_min s);
          d = log_putFloat d 112 (fs_pitot_coefficient_diagnostic_max s);
          d = log_putFloat d 116 (fz_measured_bidirectional_span_rad (md_fin_zero md));
          d = log_putU64 d 120 (fz_configured_timestamp_us (md_fin_zero md));
          d = log_putU32 d 128 (if fs_fin_zero_configured s then fs_flight_epoch s else 0);
          d = log_putU64 d 132 (et_capture_requested_timestamp_us (md_encoder md));
          d = log_putU64 d 140 (et_spi_transaction_start_us (md_encoder md));
          d = log_putU64 d 148 (et_spi_transaction_complete_us (md_encoder md));
          d = log_putU64 d 156 (et_consumer_timestamp_us (md_encoder md));
          d = log_putU64 d 164 (et_pipeline_ready_timestamp_us (md_encoder md));
          d = log_putU16 d 172 (et_consumer_deadline_miss_count (md_encoder md));
          d = log_putU16 d 174 (et_repeated_block_count (md_encoder md));
          d = log_putU16 d 176 (et_coalesced_notification_count (md_encoder md));
          d = log_putU16 d 178 (et_raw_capture_missed_tick_count (md_encoder md));
          d = log_putU16 d 180 (et_timestamp_offset_saturation_count (md_encoder md));
          d = d[182 := approach_direction_code (fz_approach_direction (md_fin_zero md))];
          d = d[183 := calibration_method_code (fz_calibration_method (md_fin_zero md))];
          d = d[184 := ground_verification_code (fz_ground_verification_status (md_fin_zero md))];
          d = d[185 := pipeline_state_code (et_pipeline_state (md_encoder md))];
          d = log_putU16 d 186 0;
          d = log_putU32 d 188 (crc32 (take 188 d))
      in d)"

definition log_validate :: "u8 list \<Rightarrow> bool" where
  "log_validate r =
     (if take 4 r \<noteq> kMagic \<or> r ! 4 \<noteq> kSchemaVersion \<or> r ! 5 \<noteq> of_nat kSerializedRecordBytes
      then False else log_getU32 r 188 = crc32 (take 188 r))"

definition erased :: "u8 list \<Rightarrow> bool" where
  "erased r = list_all (\<lambda>b. b = 0xFF) r"

section \<open>The layout\<close>

text \<open>The first \<open>n\<close> bytes of a word, least significant first, and the record as the plain sequence
  of its fields.\<close>

definition le :: "nat \<Rightarrow> 'a::len word \<Rightarrow> u8 list" where
  "le n v = map (\<lambda>i. byte_at i v) [0..<n]"

definition record_body :: "flight_metadata \<Rightarrow> sample \<Rightarrow> u8 list" where
  "record_body md s = kMagic
      @ [kSchemaVersion]
      @ [of_nat kSerializedRecordBytes]
      @ [fs_state s]
      @ [validity_bits s]
      @ le 8 (fs_monotonic_us s)
      @ le 8 (fs_flight_elapsed_us s)
      @ le 4 (fs_flight_epoch s)
      @ le 4 (fs_sd_drop_count s)
      @ le 4 (fs_flash_drop_count s)
      @ le 2 (fs_flight_status s)
      @ [fs_config_flags s]
      @ [fs_fin_mode s]
      @ [fs_para_mode s]
      @ [fs_lps_temperature_raw s]
      @ [fs_airspeed_raw s]
      @ [fs_fin_angle_raw s]
      @ le 2 (fs_lps_pressure_raw s)
      @ le 2 (fs_roll_raw s)
      @ le 2 (fs_roll_rate_raw s)
      @ le 2 (fs_fin_rate_raw s)
      @ le 2 (fs_requested_torque_raw s)
      @ le 2 (fs_control_roll_reference_raw s)
      @ le 2 (fs_roll_deviation_raw s)
      @ [fs_control_roll_flags s]
      @ [fs_reference_capture_event_sequence s]
      @ [fs_gain_clamp_flags s]
      @ [if fs_fin_zero_configured s then 1 else 0]
      @ le 2 (if fz_encoder_zero_count (md_fin_zero md) \<noteq> kUnknownEncoderZeroCount then fz_encoder_zero_count (md_fin_zero md) else fs_encoder_zero_count s)
      @ le 8 (fs_reference_capture_tick s)
      @ le 8 (fs_reference_estimator_timestamp_us s)
      @ le 4 (fs_roll_estimate_rad s)
      @ le 4 (fs_control_reference_rad s)
      @ le 4 (fs_roll_deviation_rad s)
      @ le 4 (fs_static_pressure_pa s)
      @ le 4 (fs_ssc_temperature_celsius s)
      @ le 4 (fs_airspeed_mps s)
      @ le 4 (fs_pitot_coefficient_assumed s)
      @ le 4 (fs_pitot_coefficient_diagnostic_min s)
      @ le 4 (fs_pitot_coefficient_diagnostic_max s)
      @ le 4 (fz_measured_bidirectional_span_rad (md_fin_zero md))
      @ le 8 (fz_configured_timestamp_us (md_fin_zero md))
      @ le 4 (if fs_fin_zero_configured s then fs_flight_epoch s else 0)
      @ le 8 (et_capture_requested_timestamp_us (md_encoder md))
      @ le 8 (et_spi_transaction_start_us (md_encoder md))
      @ le 8 (et_spi_transaction_complete_us (md_encoder md))
      @ le 8 (et_consumer_timestamp_us (md_encoder md))
      @ le 8 (et_pipeline_ready_timestamp_us (md_encoder md))
      @ le 2 (et_consumer_deadline_miss_count (md_encoder md))
      @ le 2 (et_repeated_block_count (md_encoder md))
      @ le 2 (et_coalesced_notification_count (md_encoder md))
      @ le 2 (et_raw_capture_missed_tick_count (md_encoder md))
      @ le 2 (et_timestamp_offset_saturation_count (md_encoder md))
      @ [approach_direction_code (fz_approach_direction (md_fin_zero md))]
      @ [calibration_method_code (fz_calibration_method (md_fin_zero md))]
      @ [ground_verification_code (fz_ground_verification_status (md_fin_zero md))]
      @ [pipeline_state_code (et_pipeline_state (md_encoder md))]
      @ le 2 (0 :: u16)"

text \<open>A record whose fields have been written up to the length of \<open>p\<close>.\<close>

definition filled :: "u8 list \<Rightarrow> nat \<Rightarrow> u8 list" where
  "filled p k = p @ replicate k 0"

lemma length_le [simp]: "length (le n v) = n"
  by (simp add: le_def)

lemma filled_put_loop:
  assumes "length p = off" "n \<le> k"
  shows "foldl (\<lambda>d i. d[off + i := byte_at i v]) (filled p k) [0..<n] = filled (p @ le n v) (k - n)"
  using assms(2)
proof (induction n)
  case (Suc n)
  obtain j where j: "k - n = Suc j" using Suc.prems by (cases "k - n") auto
  then have k: "k - Suc n = j" by simp
  have "foldl (\<lambda>d i. d[off + i := byte_at i v]) (filled p k) [0..<Suc n] =
      (filled (p @ le n v) (Suc j))[off + n := byte_at n v]"
    using Suc j by simp
  also have "\<dots> = filled (p @ le (Suc n) v) j"
    using assms(1) by (simp add: filled_def le_def list_update_append)
  finally show ?case unfolding k .
qed (simp add: le_def)

lemma filled_byte: "length p = off \<Longrightarrow> 1 \<le> k \<Longrightarrow> (filled p k)[off := b] = filled (p @ [b]) (k - 1)"
  by (cases k) (simp_all add: filled_def list_update_append)

lemma filled_put:
  "length p = off \<Longrightarrow> 2 \<le> k \<Longrightarrow> log_putU16 (filled p k) off v = filled (p @ le 2 v) (k - 2)"
  "length p = off \<Longrightarrow> 4 \<le> k \<Longrightarrow> log_putU32 (filled p k) off w = filled (p @ le 4 w) (k - 4)"
  "length p = off \<Longrightarrow> 8 \<le> k \<Longrightarrow> log_putU64 (filled p k) off x = filled (p @ le 8 x) (k - 8)"
  "length p = off \<Longrightarrow> 4 \<le> k \<Longrightarrow> log_putFloat (filled p k) off w = filled (p @ le 4 w) (k - 4)"
proof -
  assume "length p = off" "2 \<le> k"
  from filled_put_loop[OF this, of v]
  show "log_putU16 (filled p k) off v = filled (p @ le 2 v) (k - 2)"
    by (simp add: log_putU16_def upt_rec)
qed (unfold log_putU32_def log_putU64_def log_putFloat_def, rule filled_put_loop; assumption)+

lemma kMagic_length [simp]: "length kMagic = 4"
  by (simp add: kMagic_def)

lemma length_record_body [simp]: "length (record_body md s) = 188"
  by (simp add: record_body_def)

lemma serialize_concat: "serialize md s = record_body md s @ le 4 (crc32 (record_body md s))"
proof -
  have z: "kMagic @ drop 4 (replicate kSerializedRecordBytes 0) = filled kMagic 188"
    by (simp add: filled_def kSerializedRecordBytes_def)
  have "serialize md s = (let d = filled (record_body md s) 4 in log_putU32 d 188 (crc32 (take 188 d)))"
    unfolding serialize_def Let_def z record_body_def
    by (simp add: filled_put filled_byte split del: if_split)
  then show ?thesis by (simp add: Let_def filled_put) (simp add: filled_def)
qed

lemma log_getU32_le: "log_getU32 (p @ le 4 v) (length p) = v"
proof -
  have l: "le 4 v = [byte_at 0 v, byte_at 1 v, byte_at 2 v, byte_at 3 v]"
    by (simp add: le_def upt_rec numeral_2_eq_2 numeral_3_eq_3)
  show ?thesis unfolding log_getU32_def l by (simp add: nth_append u32_of_bytes or.assoc)
qed

lemma serialize_valid: "log_validate (serialize md s)" "\<not> erased (serialize md s)" "length (serialize md s) = 192"
proof -
  define b where "b = record_body md s"
  have b: "length b = 188" "take 4 b = kMagic" "b ! 4 = kSchemaVersion" "b ! 5 = of_nat kSerializedRecordBytes"
    by (simp_all add: b_def) (simp_all add: record_body_def nth_append)
  have "log_getU32 (b @ le 4 (crc32 b)) 188 = crc32 b" using log_getU32_le[of b] b(1) by simp
  then show "log_validate (serialize md s)"
    unfolding serialize_concat b_def[symmetric] log_validate_def using b by (simp add: nth_append)
  have "hd b = 0x39" using b(2) by (cases b) (simp_all add: kMagic_def)
  then show "\<not> erased (serialize md s)"
    unfolding serialize_concat b_def[symmetric] erased_def using b(1) by (cases b) simp_all
  show "length (serialize md s) = 192" by (simp add: serialize_concat)
qed

section \<open>What the checksum detects\<close>

lemma low_bit: "(x AND 1 \<noteq> 0) = bit (x :: u32) 0"
  by (simp add: and_one_eq bit_0 odd_iff_mod_2_eq_one)

lemma crc_bit_xor: "crc_bit (a XOR b) = crc_bit a XOR crc_bit b"
  unfolding crc_bit_def low_bit by (rule bit_word_eqI) (auto simp: bit_simps)

lemma crc_bit_0 [simp]: "crc_bit 0 = 0"
  by (simp add: crc_bit_def)

lemma polynomial_top: "bit (0xEDB88320 :: u32) 31"
  by simp

lemma crc_bit_zero: assumes "crc_bit x = 0" shows "x = 0"
proof -
  have "bit (crc_bit x) 31 = bit x 0"
    using polynomial_top by (auto simp: crc_bit_def low_bit bit_xor_iff bit_drop_bit_eq dest: bit_imp_le_length)
  then have o: "\<not> bit x 0" using assms by simp
  then have d: "drop_bit 1 x = 0" using assms unfolding crc_bit_def low_bit by simp
  show ?thesis
  proof (rule bit_word_eqI)
    fix n assume "n < LENGTH(32)"
    have "bit (drop_bit 1 x) k = bit x (Suc k)" for k by (simp add: bit_drop_bit_eq)
    then show "bit x n = bit (0 :: u32) n" using o d by (cases n) simp_all
  qed
qed

lemma crc_bit_shift: assumes "\<not> bit z 31" shows "crc_bit (push_bit 1 z) = z"
proof -
  have "\<not> bit (push_bit 1 z) 0" unfolding bit_push_bit_iff by simp
  then show ?thesis unfolding crc_bit_def low_bit
  proof (simp only: if_False, intro bit_word_eqI)
    fix n assume "n < LENGTH(32)"
    then show "bit (drop_bit 1 (push_bit 1 z) XOR 0) n = bit z n"
      unfolding bit_xor_iff bit_drop_bit_eq bit_push_bit_iff comp_def
      using assms by (cases "n = 31") (auto dest: bit_imp_le_length)
  qed
qed

text \<open>One byte of the checksum: linear, injective, and a right shift on words without low bits.\<close>

definition crc_step :: "u32 \<Rightarrow> u32" where
  "crc_step c = (crc_bit ^^ 8) c"

lemma crc_pow_xor: "(crc_bit ^^ n) (a XOR b) = (crc_bit ^^ n) a XOR (crc_bit ^^ n) b"
  by (induction n) (simp_all add: crc_bit_xor)

lemma crc_pow_zero: "(crc_bit ^^ n) x = 0 \<Longrightarrow> x = 0"
  by (induction n) (auto dest: crc_bit_zero)

lemma crc_pow_inj: assumes "(crc_bit ^^ n) a = (crc_bit ^^ n) b" shows "a = b"
proof -
  have "(crc_bit ^^ n) (a XOR b) = 0" using assms by (simp add: crc_pow_xor)
  then have "a XOR b = 0" by (rule crc_pow_zero)
  then have "bit (a XOR b) k = bit (0 :: u32) k" for k by (simp only:)
  then show ?thesis by (intro bit_word_eqI) (simp add: bit_xor_iff)
qed

lemma crc_pow_shift: "n \<le> 32 \<Longrightarrow> (\<forall>k. k < n \<longrightarrow> \<not> bit z (31 - k)) \<Longrightarrow> (crc_bit ^^ n) (push_bit n z) = z"
proof (induction n arbitrary: z)
  case (Suc n)
  have p: "push_bit (Suc n) z = push_bit n (push_bit 1 z)" by (simp add: push_bit_push_bit)
  have "\<not> bit (push_bit 1 z) (31 - k)" if "k < n" for k
  proof -
    have "31 - k - 1 = 31 - Suc k" by simp
    then show ?thesis unfolding bit_push_bit_iff using Suc.prems that by auto
  qed
  then have "(crc_bit ^^ n) (push_bit (Suc n) z) = push_bit 1 z" unfolding p using Suc by simp
  moreover have "\<not> bit z 31" using Suc.prems(2) by (metis diff_zero zero_less_Suc)
  ultimately show ?case using crc_bit_shift[of z] by (simp add: funpow_swap1 del: push_bit_numeral) 
qed simp

lemma crc_byte_step: "crc_byte c b = crc_step (c XOR ucast b)"
  by (simp add: crc_byte_def crc_step_def)

text \<open>Four bytes at once are one word.\<close>

definition word_of :: "u8 \<Rightarrow> u8 \<Rightarrow> u8 \<Rightarrow> u8 \<Rightarrow> u32" where
  "word_of a b c d = ucast a OR push_bit 8 (ucast b) OR push_bit 16 (ucast c) OR push_bit 24 (ucast d)"

lemma crc_step_shift: "crc_step (push_bit 8 (ucast (b :: u8))) = ucast b"
  unfolding crc_step_def by (rule crc_pow_shift) (auto simp: bit_ucast_iff dest: bit_imp_le_length)

lemma crc_four: "foldl crc_byte x [a, b, c, d] = (crc_bit ^^ 32) (x XOR word_of a b c d)"
proof -
  have s2: "(crc_bit ^^ 16) (push_bit 16 (ucast (c :: u8))) = ucast c"
    by (rule crc_pow_shift) (auto simp: bit_ucast_iff dest: bit_imp_le_length)
  have s3: "(crc_bit ^^ 24) (push_bit 24 (ucast (d :: u8))) = ucast d"
    by (rule crc_pow_shift) (auto simp: bit_ucast_iff dest: bit_imp_le_length)
  have s1: "(crc_bit ^^ 8) (push_bit 8 (ucast (b :: u8))) = ucast b"
    by (rule crc_pow_shift) (auto simp: bit_ucast_iff dest: bit_imp_le_length)
  have w: "word_of a b c d = ucast a XOR (push_bit 8 (ucast b) XOR (push_bit 16 (ucast c) XOR push_bit 24 (ucast d)))"
    unfolding word_of_def
    by (rule bit_word_eqI) (auto simp: bit_or_iff bit_xor_iff bit_push_bit_iff bit_ucast_iff dest: bit_imp_le_length)
  have add: "(crc_bit ^^ (m + n)) y = (crc_bit ^^ m) ((crc_bit ^^ n) y)" for m n y
    by (simp add: funpow_add)
  have f: "(crc_bit ^^ 32) y = (crc_bit ^^ 8) ((crc_bit ^^ 8) ((crc_bit ^^ 8) ((crc_bit ^^ 8) y)))" for y
    using add[of 8 24 y] add[of 8 16 y] add[of 8 8 y] by simp
  have c2: "(crc_bit ^^ 8) ((crc_bit ^^ 8) (push_bit 16 (ucast c))) = ucast c"
    using s2 add[of 8 8 "push_bit 16 (ucast c)"] by simp
  have c3: "(crc_bit ^^ 8) ((crc_bit ^^ 8) ((crc_bit ^^ 8) (push_bit 24 (ucast d)))) = ucast d"
    using s3 add[of 8 16 "push_bit 24 (ucast d)"] add[of 8 8 "push_bit 24 (ucast d)"] by simp
  show ?thesis unfolding w f crc_pow_xor s1 c2 c3
    by (simp only: foldl.simps crc_byte_def crc_pow_xor xor.assoc)
qed

lemma word_of_inj: "word_of a b c d = word_of a' b' c' d' \<Longrightarrow> [a, b, c, d] = [a', b', c', d']"
  unfolding word_of_def by (metis bytes_of_u32)

lemma foldl_crc_inj: "foldl crc_byte x ys = foldl crc_byte x' ys \<Longrightarrow> x = x'"
proof (induction ys arbitrary: x x')
  case (Cons y ys)
  then have "crc_byte x y = crc_byte x' y" by simp
  then have "x XOR ucast y = x' XOR ucast y" unfolding crc_byte_def by (rule crc_pow_inj)
  then have "bit (x XOR ucast y) k = bit (x' XOR ucast y) k" for k by (simp only:)
  then show ?case by (intro bit_word_eqI) (auto simp: bit_xor_iff)
qed simp

text \<open>A valid record leaves the same state after its last byte, whatever it holds.\<close>

lemma four_bytes: assumes "length xs = 4" obtains a b c d where "xs = [a, b, c, d]"
  using assms by (auto simp: length_Suc_conv eval_nat_numeral)

lemma valid_residue:
  assumes "log_validate r" "length r = 192"
  shows "foldl crc_byte 0xFFFFFFFF r = (crc_bit ^^ 32) (- 1)"
proof -
  define p where "p = take 188 r"
  have "length (drop 188 r) = 4" using assms(2) by simp
  then obtain a b c d where q: "drop 188 r = [a, b, c, d]" by (rule four_bytes)
  have r: "r = p @ [a, b, c, d]" unfolding p_def q[symmetric] by simp
  have p: "length p = 188" using assms(2) by (simp add: p_def)
  have "log_getU32 r 188 = word_of a b c d"
    unfolding r log_getU32_def word_of_def using p by (simp add: nth_append)
  then have "word_of a b c d = NOT (foldl crc_byte 0xFFFFFFFF p)"
    using assms(1) p_def by (auto simp: log_validate_def crc32_def split: if_splits)
  moreover have "x XOR NOT x = - 1" for x :: u32
    by (rule bit_word_eqI) (auto simp: bit_simps)
  ultimately show ?thesis unfolding r foldl_append crc_four by simp
qed

text \<open>the record written to storage is exactly the published format: the fields of the sample and
  of the metadata in order, little-endian, without gap or overlap, over 188 bytes, followed by
  their CRC-32; it is accepted by \<open>log_validate\<close> and never taken for erased flash.\<close>

theorem serialize_layout:
  "serialize md s = record_body md s @ le 4 (crc32 (record_body md s)) \<and>
   length (record_body md s) = 188 \<and> log_validate (serialize md s) \<and> \<not> erased (serialize md s)"
  using serialize_concat serialize_valid by simp

text \<open>damage within four consecutive bytes is always noticed. Two records that \<open>log_validate\<close> accepts
  and that agree outside some window of four bytes, anywhere in the record, are equal.\<close>

theorem crc_burst:
  assumes "log_validate r" "log_validate r'" "length r = 192" "length r' = 192" "i \<le> 188"
    "take i r = take i r'" "drop (i + 4) r = drop (i + 4) r'"
  shows "r = r'"
proof -
  have split: "xs = take i xs @ take 4 (drop i xs) @ drop (i + 4) xs" for xs :: "u8 list"
    by (metis append_take_drop_id drop_drop add.commute)
  have "length (take 4 (drop i r)) = 4" "length (take 4 (drop i r')) = 4" using assms by simp_all
  then obtain a b c d a' b' c' d' where w: "take 4 (drop i r) = [a, b, c, d]"
      "take 4 (drop i r') = [a', b', c', d']" by (metis four_bytes)
  define p z where "p = take i r" and "z = drop (i + 4) r"
  have r: "r = p @ [a, b, c, d] @ z" "r' = p @ [a', b', c', d'] @ z"
    using split[of r] split[of r'] w assms(6,7) by (simp_all add: p_def z_def)
  have "foldl crc_byte 0xFFFFFFFF r = foldl crc_byte 0xFFFFFFFF r'"
    using valid_residue assms(1-4) by simp
  then have "foldl crc_byte (foldl crc_byte (foldl crc_byte 0xFFFFFFFF p) [a, b, c, d]) z =
      foldl crc_byte (foldl crc_byte (foldl crc_byte 0xFFFFFFFF p) [a', b', c', d']) z"
    unfolding r foldl_append .
  from foldl_crc_inj[OF this]
  have "foldl crc_byte 0xFFFFFFFF p XOR word_of a b c d = foldl crc_byte 0xFFFFFFFF p XOR word_of a' b' c' d'"
    unfolding crc_four by (rule crc_pow_inj)
  then have "bit (foldl crc_byte 0xFFFFFFFF p XOR word_of a b c d) k =
      bit (foldl crc_byte 0xFFFFFFFF p XOR word_of a' b' c' d') k" for k by (simp only:)
  then have "word_of a b c d = word_of a' b' c' d'" by (intro bit_word_eqI) (auto simp: bit_xor_iff)
  from word_of_inj[OF this] show ?thesis unfolding r by simp
qed

theorem crc_burst_witness:
  "\<not> log_validate ((serialize metadata_init sample_init)[43 := 1])"
proof
  define r where "r = serialize metadata_init sample_init"
  assume v: "log_validate ((serialize metadata_init sample_init)[43 := 1])"
  have l: "length r = 192" "log_validate r" unfolding r_def by (rule serialize_valid)+
  have "r ! 43 = 0"
    by (simp add: r_def serialize_concat nth_append) (simp add: record_body_def sample_init_def nth_append)
  moreover have "r = r[43 := 1]"
    by (rule crc_burst[OF l(2) v[folded r_def], where i = 43]) (simp_all add: l)
  then have "r ! 43 = r[43 := 1] ! 43" by (rule arg_cong)
  ultimately show False using l by simp
qed

end
