(* ===== verification/Runtime_Queues.thy ===== *)
theory Runtime_Queues
  imports Mission_State
begin

text \<open>
  The lock-free exchange between tasks: \<open>SpscBoundedQueue\<close> and the task table of
  \<open>src/runtime/task_architecture.hpp\<close>, \<open>emergency_latch.hpp\<close>, \<open>mission_snapshot_cache.hpp\<close> and
  the heartbeat clock of \<open>imu_heartbeat_clock.cpp\<close>. \<open>spsc_push\<close> and \<open>spsc_pop\<close> are the whole
  operations; the steps of \<open>queue_step\<close> cut them at their atomic accesses, so that producer and
  consumer interleave. Memory is sequentially consistent, which the release and acquire accesses
  of the code give for the slots they publish.
\<close>

section \<open>The bounded queue interface\<close>

text \<open>A run of calls: \<open>Some x\<close> puts \<open>x\<close>, \<open>None\<close> takes. It returns what was accepted and taken.\<close>

fun fifo_run ::
    "('a \<Rightarrow> 's \<Rightarrow> bool \<times> 's) \<Rightarrow> ('s \<Rightarrow> 'a list \<times> 's) \<Rightarrow> 'a option list \<Rightarrow> 's \<Rightarrow> 'a list \<times> 'a list \<times> 's" where
  "fifo_run put take_out [] s = ([], [], s)"
| "fifo_run put take_out (Some x # ops) s =
     (case put x s of (ok, s1) \<Rightarrow> case fifo_run put take_out ops s1 of (acc, out, s2) \<Rightarrow>
        (if ok then x # acc else acc, out, s2))"
| "fifo_run put take_out (None # ops) s =
     (case take_out s of (xs, s1) \<Rightarrow> case fifo_run put take_out ops s1 of (acc, out, s2) \<Rightarrow>
        (acc, xs @ out, s2))"

text \<open>What a client relies on: a push appends or is refused when the queue holds \<open>cap\<close> elements, a
  take removes a chunk from the front.\<close>

locale bounded_fifo =
  fixes put :: "'a \<Rightarrow> 's \<Rightarrow> bool \<times> 's"
    and take_out :: "'s \<Rightarrow> 'a list \<times> 's"
    and content :: "'s \<Rightarrow> 'a list"
    and wf :: "'s \<Rightarrow> bool"
    and cap :: "'s \<Rightarrow> nat"
  assumes put_accepted: "wf s \<Longrightarrow> put x s = (True, s') \<Longrightarrow>
      wf s' \<and> cap s' = cap s \<and> content s' = content s @ [x]"
    and put_refused: "wf s \<Longrightarrow> put x s = (False, s') \<Longrightarrow>
      wf s' \<and> cap s' = cap s \<and> content s' = content s \<and> length (content s) = cap s"
    and take_front: "wf s \<Longrightarrow> take_out s = (xs, s') \<Longrightarrow>
      wf s' \<and> cap s' = cap s \<and> content s = xs @ content s'"
    and within: "wf s \<Longrightarrow> length (content s) \<le> cap s"
begin

lemma fifo_order:
  "wf s \<Longrightarrow> fifo_run put take_out ops s = (acc, out, s') \<Longrightarrow>
     wf s' \<and> cap s' = cap s \<and> content s @ acc = out @ content s'"
proof (induction ops arbitrary: s acc out s')
  case (Cons op ops)
  show ?case
  proof (cases op)
    case (Some x)
    obtain ok s1 where p: "put x s = (ok, s1)" by fastforce
    obtain acc1 out1 s2 where r: "fifo_run put take_out ops s1 = (acc1, out1, s2)" by (metis prod_cases3)
    have e: "acc = (if ok then x # acc1 else acc1)" "out = out1" "s' = s2"
      using Cons.prems(2) by (auto simp: Some p r)
    show ?thesis
      using put_accepted[OF Cons.prems(1), of x s1] put_refused[OF Cons.prems(1), of x s1]
        Cons.IH[OF _ r] p unfolding e by (cases ok) auto
  next
    case None
    obtain xs s1 where p: "take_out s = (xs, s1)" by fastforce
    obtain acc1 out1 s2 where r: "fifo_run put take_out ops s1 = (acc1, out1, s2)" by (metis prod_cases3)
    have e: "acc = acc1" "out = xs @ out1" "s' = s2" using Cons.prems(2) by (auto simp: None p r)
    show ?thesis using take_front[OF Cons.prems(1) p] Cons.IH[OF _ r] unfolding e by auto
  qed
qed simp

end

section \<open>The single-producer single-consumer queue\<close>

record 'a spsc =
  sp_storage :: "'a list"
  sp_head :: nat
  sp_tail :: nat
  sp_overflow_count :: u32

definition spsc_init :: "nat \<Rightarrow> 'a \<Rightarrow> 'a spsc" where
  "spsc_init capacity blank = \<lparr>sp_storage = replicate (capacity + 1) blank, sp_head = 0,
     sp_tail = 0, sp_overflow_count = 0\<rparr>"

definition spsc_push :: "'a \<Rightarrow> 'a spsc \<Rightarrow> bool \<times> 'a spsc" where
  "spsc_push value q =
     (let head = sp_head q; following = (head + 1) mod length (sp_storage q) in
      if following = sp_tail q then (False, q\<lparr>sp_overflow_count := sp_overflow_count q + 1\<rparr>)
      else (True, q\<lparr>sp_storage := (sp_storage q)[head := value], sp_head := following\<rparr>))"

text \<open>\<open>None\<close> is the result false; otherwise the value written to the argument.\<close>

definition spsc_pop :: "'a spsc \<Rightarrow> ('a \<times> 'a spsc) option" where
  "spsc_pop q =
     (let tail = sp_tail q in
      if tail = sp_head q then None
      else Some (sp_storage q ! tail, q\<lparr>sp_tail := (tail + 1) mod length (sp_storage q)\<rparr>))"

definition spsc_overflowCount :: "'a spsc \<Rightarrow> u32" where
  "spsc_overflowCount q = sp_overflow_count q"

section \<open>The interleaved queue\<close>

text \<open>Where the producer is inside \<open>push\<close> and the consumer inside \<open>pop\<close>; the log of the values whose
  push returned true, and of the values \<open>pop\<close> returned.\<close>

datatype 'a producer = P_idle | P_write 'a nat nat | P_publish 'a nat
datatype 'a consumer = C_idle | C_read nat | C_publish 'a nat

record 'a spsc_run = "'a spsc" +
  qr_producer :: "'a producer"
  qr_consumer :: "'a consumer"
  qr_sent :: "'a list"
  qr_received :: "'a list"

inductive queue_step :: "'a spsc_run \<Rightarrow> 'a spsc_run \<Rightarrow> bool" where
  push_full: "qr_producer q = P_idle \<Longrightarrow> (sp_head q + 1) mod length (sp_storage q) = sp_tail q \<Longrightarrow>
    queue_step q (q\<lparr>sp_overflow_count := sp_overflow_count q + 1\<rparr>)"
| push_check: "qr_producer q = P_idle \<Longrightarrow> (sp_head q + 1) mod length (sp_storage q) \<noteq> sp_tail q \<Longrightarrow>
    queue_step q (q\<lparr>qr_producer := P_write v (sp_head q) ((sp_head q + 1) mod length (sp_storage q))\<rparr>)"
| push_write: "qr_producer q = P_write v head following \<Longrightarrow>
    queue_step q (q\<lparr>sp_storage := (sp_storage q)[head := v], qr_producer := P_publish v following\<rparr>)"
| push_publish: "qr_producer q = P_publish v following \<Longrightarrow>
    queue_step q (q\<lparr>sp_head := following, qr_producer := P_idle, qr_sent := qr_sent q @ [v]\<rparr>)"
| pop_empty: "qr_consumer q = C_idle \<Longrightarrow> sp_tail q = sp_head q \<Longrightarrow> queue_step q q"
| pop_check: "qr_consumer q = C_idle \<Longrightarrow> sp_tail q \<noteq> sp_head q \<Longrightarrow>
    queue_step q (q\<lparr>qr_consumer := C_read (sp_tail q)\<rparr>)"
| pop_read: "qr_consumer q = C_read tail \<Longrightarrow>
    queue_step q (q\<lparr>qr_consumer := C_publish (sp_storage q ! tail) tail\<rparr>)"
| pop_publish: "qr_consumer q = C_publish v tail \<Longrightarrow>
    queue_step q (q\<lparr>sp_tail := (tail + 1) mod length (sp_storage q), qr_consumer := C_idle,
      qr_received := qr_received q @ [v]\<rparr>)"

definition queue_start :: "nat \<Rightarrow> 'a \<Rightarrow> 'a spsc_run" where
  "queue_start capacity blank = spsc.extend (spsc_init capacity blank)
     (spsc_run.fields P_idle C_idle [] [])"

inductive queue_reachable :: "nat \<Rightarrow> 'a \<Rightarrow> 'a spsc_run \<Rightarrow> bool" for capacity blank where
  init: "queue_reachable capacity blank (queue_start capacity blank)"
| step: "queue_reachable capacity blank q \<Longrightarrow> queue_step q q' \<Longrightarrow> queue_reachable capacity blank q'"

section \<open>The emergency latch\<close>

definition latch_signal :: "u8 \<Rightarrow> u16 \<Rightarrow> bool \<times> u16" where
  "latch_signal transaction_id pending = (pending AND 0x100 \<noteq> 0, ucast transaction_id OR 0x100)"

definition latch_take :: "u16 \<Rightarrow> u8 option \<times> u16" where
  "latch_take pending = (if pending AND 0x100 = 0 then None else Some (ucast pending), 0)"

definition latch_pending :: "u16 \<Rightarrow> bool" where
  "latch_pending pending = (pending AND 0x100 \<noteq> 0)"

section \<open>The snapshot cache\<close>

definition snapshot_cache_init :: mission_snapshot where
  "snapshot_cache_init = snapshot_init\<lparr>sn_state := MS_unknown, sn_fin := FD_brake, sn_parachute := PD_hold\<rparr>"

definition snapshot_cache_update :: "mission_snapshot \<Rightarrow> mission_snapshot \<Rightarrow> mission_snapshot" where
  "snapshot_cache_update s cache = s"

section \<open>The task table\<close>

datatype hardware_owner =
    HO_deployment_power | HO_parachute_uart | HO_mission_spi_and_motor | HO_air_data_i2c
  | HO_can_controller | HO_command_dispatch | HO_housekeeping_adc | HO_internal_flash | HO_mission_sd

record task_descriptor =
  td_name :: string
  td_owner :: hardware_owner
  td_priority :: u8
  td_period_us :: u32
  td_may_block :: bool

definition kTaskArchitecture :: "task_descriptor list" where
  "kTaskArchitecture =
    [\<lparr>td_name = ''SafetyTask'', td_owner = HO_deployment_power, td_priority = 22, td_period_us = 1000, td_may_block = False\<rparr>,
     \<lparr>td_name = ''ParachuteTask'', td_owner = HO_parachute_uart, td_priority = 21, td_period_us = 10000, td_may_block = True\<rparr>,
     \<lparr>td_name = ''MissionRealtimeTask'', td_owner = HO_mission_spi_and_motor, td_priority = 20, td_period_us = 1000, td_may_block = False\<rparr>,
     \<lparr>td_name = ''AirDataTask'', td_owner = HO_air_data_i2c, td_priority = 18, td_period_us = 2500, td_may_block = True\<rparr>,
     \<lparr>td_name = ''CanTask'', td_owner = HO_can_controller, td_priority = 16, td_period_us = 1000, td_may_block = True\<rparr>,
     \<lparr>td_name = ''CommandWorkerTask'', td_owner = HO_command_dispatch, td_priority = 14, td_period_us = 10000, td_may_block = True\<rparr>,
     \<lparr>td_name = ''HousekeepingTask'', td_owner = HO_housekeeping_adc, td_priority = 10, td_period_us = 100000, td_may_block = True\<rparr>,
     \<lparr>td_name = ''InternalFlashTask'', td_owner = HO_internal_flash, td_priority = 8, td_period_us = 20000, td_may_block = True\<rparr>,
     \<lparr>td_name = ''SdLogTask'', td_owner = HO_mission_sd, td_priority = 7, td_period_us = 20000, td_may_block = True\<rparr>]"

section \<open>The heartbeat clock\<close>

datatype heartbeat_wait = HW_ready | HW_failed | HW_unavailable

text \<open>\<open>wrapped\<close> is the wrapped kernel call, \<open>wait\<close> the wait for the sensor interrupt and \<open>ticks\<close> the tick
  count, over the state of the kernel; the wake time is \<open>None\<close> for a null pointer. Returns
  \<open>pdTRUE\<close> and the new wake time.\<close>

definition wrap_xTaskDelayUntil ::
    "(u32 option \<Rightarrow> u32 \<Rightarrow> 'k \<Rightarrow> (bool \<times> u32 option) \<times> 'k) \<Rightarrow> (u32 \<Rightarrow> 'k \<Rightarrow> heartbeat_wait \<times> 'k) \<Rightarrow>
     ('k \<Rightarrow> u32) \<Rightarrow> u32 option \<Rightarrow> u32 \<Rightarrow> 'k \<Rightarrow> (bool \<times> u32 option) \<times> 'k" where
  "wrap_xTaskDelayUntil wrapped wait ticks previous_wake increment k =
     (if previous_wake = None then wrapped previous_wake increment k
      else case wait 3 k of (heartbeat, k) \<Rightarrow>
        if heartbeat = HW_unavailable then wrapped previous_wake increment k
        else ((heartbeat = HW_ready, Some (ticks k)), k))"

section \<open>Circular indices\<close>

definition slots_used :: "nat \<Rightarrow> nat \<Rightarrow> nat \<Rightarrow> nat" where
  "slots_used n head tail = (if tail \<le> head then head - tail else n + head - tail)"

definition next_slot :: "nat \<Rightarrow> nat \<Rightarrow> nat" where
  "next_slot n i = (i + 1) mod n"

lemma next_slot_eq: "i < n \<Longrightarrow> next_slot n i = (if i + 1 = n then 0 else i + 1)"
  by (auto simp: next_slot_def)

lemma slot_offset:
  fixes n :: nat
  assumes "tail < n" "k < n"
  shows "(tail + k) mod n = (if tail + k < n then tail + k else tail + k - n)"
  using assms by (cases "tail + k < n") (simp_all add: le_mod_geq)

lemma used_bound: "head < n \<Longrightarrow> tail < n \<Longrightarrow> slots_used n head tail < n"
  by (auto simp: slots_used_def)

lemma used_zero: "head < n \<Longrightarrow> tail < n \<Longrightarrow> slots_used n head tail = 0 \<longleftrightarrow> head = tail"
  by (auto simp: slots_used_def)

lemma used_push: "head < n \<Longrightarrow> tail < n \<Longrightarrow> next_slot n head \<noteq> tail \<Longrightarrow>
    slots_used n (next_slot n head) tail = slots_used n head tail + 1"
  by (auto simp: slots_used_def next_slot_eq)

lemma used_full: "head < n \<Longrightarrow> tail < n \<Longrightarrow> next_slot n head = tail \<longleftrightarrow> slots_used n head tail = n - 1"
  by (auto simp: slots_used_def next_slot_eq)

lemma used_pop: "head < n \<Longrightarrow> tail < n \<Longrightarrow> head \<noteq> tail \<Longrightarrow>
    slots_used n head tail = slots_used n head (next_slot n tail) + 1"
  by (auto simp: slots_used_def next_slot_eq)

lemma used_head: "head < n \<Longrightarrow> tail < n \<Longrightarrow> (tail + slots_used n head tail) mod n = head"
  by (auto simp: slots_used_def)

text \<open>The elements between tail and head, in order.\<close>

definition ring_content :: "'a list \<Rightarrow> nat \<Rightarrow> nat \<Rightarrow> 'a list" where
  "ring_content st head tail =
     map (\<lambda>k. st ! ((tail + k) mod length st)) [0..<slots_used (length st) head tail]"

lemma ring_content_length: "length (ring_content st head tail) = slots_used (length st) head tail"
  by (simp add: ring_content_def)

lemma ring_write:
  assumes "head < length st" "tail < length st"
  shows "ring_content (st[head := v]) head tail = ring_content st head tail"
proof -
  have "head \<noteq> (tail + k) mod length st" if "k < slots_used (length st) head tail" for k
  proof -
    have "k < length st" using that used_bound[OF assms] by simp
    then show ?thesis using that assms by (auto simp: slot_offset slots_used_def split: if_splits)
  qed
  then show ?thesis by (simp add: ring_content_def)
qed

lemma ring_publish:
  assumes "head < length st" "tail < length st" "next_slot (length st) head \<noteq> tail"
  shows "ring_content st (next_slot (length st) head) tail = ring_content st head tail @ [st ! head]"
  using used_head[OF assms(1,2)] by (simp add: ring_content_def used_push[OF assms])

lemma ring_pop:
  assumes "head < length st" "tail < length st" "head \<noteq> tail"
  shows "ring_content st head tail = st ! tail # ring_content st head (next_slot (length st) tail)"
proof -
  let ?n = "length st"
  have "map (\<lambda>k. st ! ((tail + k) mod ?n)) [0..<Suc m] =
      st ! tail # map (\<lambda>k. st ! ((next_slot ?n tail + k) mod ?n)) [0..<m]" for m
  proof -
    have "[0..<Suc m] = 0 # map Suc [0..<m]" by (simp add: upt_conv_Cons map_Suc_upt)
    moreover have "(next_slot ?n tail + k) mod ?n = (tail + Suc k) mod ?n" for k
      by (simp add: next_slot_def mod_simps)
    ultimately show ?thesis using assms(2) by (simp add: comp_def del: upt_Suc)
  qed
  then show ?thesis using used_pop[OF assms] by (simp add: ring_content_def del: upt_Suc)
qed

section \<open>The whole operations are a bounded queue\<close>

definition spsc_content :: "('a, 'b) spsc_scheme \<Rightarrow> 'a list" where
  "spsc_content q = ring_content (sp_storage q) (sp_head q) (sp_tail q)"

definition spsc_wf :: "('a, 'b) spsc_scheme \<Rightarrow> bool" where
  "spsc_wf q = (sp_head q < length (sp_storage q) \<and> sp_tail q < length (sp_storage q))"

definition spsc_capacity :: "('a, 'b) spsc_scheme \<Rightarrow> nat" where
  "spsc_capacity q = length (sp_storage q) - 1"

definition spsc_take :: "'a spsc \<Rightarrow> 'a list \<times> 'a spsc" where
  "spsc_take q = (case spsc_pop q of None \<Rightarrow> ([], q) | Some (v, q') \<Rightarrow> ([v], q'))"

lemma next_slot_less: "i < n \<Longrightarrow> next_slot n i < n"
  by (simp add: next_slot_def)

lemma spsc_push_slot:
  "spsc_push value q =
     (if next_slot (length (sp_storage q)) (sp_head q) = sp_tail q
      then (False, q\<lparr>sp_overflow_count := sp_overflow_count q + 1\<rparr>)
      else (True, q\<lparr>sp_storage := (sp_storage q)[sp_head q := value],
        sp_head := next_slot (length (sp_storage q)) (sp_head q)\<rparr>))"
  by (simp add: spsc_push_def next_slot_def Let_def)

interpretation spsc: bounded_fifo spsc_push spsc_take spsc_content spsc_wf spsc_capacity
proof
  fix s s' :: "'a spsc" and x
  assume w: "spsc_wf s" and p: "spsc_push x s = (True, s')"
  have b: "sp_head s < length (sp_storage s)" "sp_tail s < length (sp_storage s)"
    using w by (simp_all add: spsc_wf_def)
  have n: "next_slot (length (sp_storage s)) (sp_head s) \<noteq> sp_tail s"
    and s': "s' = s\<lparr>sp_storage := (sp_storage s)[sp_head s := x],
        sp_head := next_slot (length (sp_storage s)) (sp_head s)\<rparr>"
    using p by (auto simp: spsc_push_slot split: if_splits)
  have "spsc_content s' = spsc_content s @ [x]"
    using ring_publish[of "sp_head s" "(sp_storage s)[sp_head s := x]" "sp_tail s"] ring_write[OF b] n b
    by (simp add: spsc_content_def s')
  then show "spsc_wf s' \<and> spsc_capacity s' = spsc_capacity s \<and> spsc_content s' = spsc_content s @ [x]"
    using b next_slot_less[OF b(1)] by (simp add: spsc_wf_def spsc_capacity_def s')
next
  fix s s' :: "'a spsc" and x
  assume w: "spsc_wf s" and p: "spsc_push x s = (False, s')"
  then show "spsc_wf s' \<and> spsc_capacity s' = spsc_capacity s \<and> spsc_content s' = spsc_content s \<and>
      length (spsc_content s) = spsc_capacity s"
    using used_full[of "sp_head s" "length (sp_storage s)" "sp_tail s"]
    by (auto simp: spsc_push_slot spsc_wf_def spsc_capacity_def spsc_content_def ring_content_length
        split: if_splits)
next
  fix s s' :: "'a spsc" and xs
  assume w: "spsc_wf s" and p: "spsc_take s = (xs, s')"
  then show "spsc_wf s' \<and> spsc_capacity s' = spsc_capacity s \<and> spsc_content s = xs @ spsc_content s'"
    using ring_pop[of "sp_head s" "sp_storage s" "sp_tail s"] next_slot_less[of "sp_tail s" "length (sp_storage s)"]
    by (auto simp: spsc_take_def spsc_pop_def Let_def spsc_wf_def spsc_capacity_def spsc_content_def
        next_slot_def split: if_splits)
next
  fix s :: "'a spsc"
  assume "spsc_wf s"
  then show "length (spsc_content s) \<le> spsc_capacity s"
    using used_bound[of "sp_head s" "length (sp_storage s)" "sp_tail s"]
    by (simp add: spsc_wf_def spsc_capacity_def spsc_content_def ring_content_length)
qed

text \<open>a queue between two tasks loses, repeats and reorders nothing. Over any sequence of whole
  pushes and pops on a fresh queue, the values accepted are exactly the values popped, in order,
  followed by those still in it, and a push is refused only when \<open>capacity\<close> values wait.\<close>

theorem spsc_fifo:
  assumes "fifo_run spsc_push spsc_take ops (spsc_init capacity blank) = (acc, out, q)"
  shows "acc = out @ spsc_content q \<and> length (spsc_content q) \<le> capacity \<and>
    (fst (spsc_push x q) \<longleftrightarrow> length (spsc_content q) \<noteq> capacity)"
proof -
  have i: "spsc_wf (spsc_init capacity blank)" "spsc_content (spsc_init capacity blank) = []"
      "spsc_capacity (spsc_init capacity blank) = capacity"
    by (simp_all add: spsc_init_def spsc_wf_def spsc_content_def spsc_capacity_def ring_content_def slots_used_def)
  from spsc.fifo_order[OF i(1) assms] i
  have q: "spsc_wf q" "spsc_capacity q = capacity" "acc = out @ spsc_content q" by simp_all
  have b: "sp_head q < length (sp_storage q)" "sp_tail q < length (sp_storage q)"
    using q(1) by (simp_all add: spsc_wf_def)
  have "fst (spsc_push x q) \<longleftrightarrow> length (spsc_content q) \<noteq> capacity"
    using used_full[OF b] q(2)
    by (simp add: spsc_push_slot spsc_content_def ring_content_length spsc_capacity_def)
  then show ?thesis using q spsc.within[OF q(1)] by simp
qed

theorem spsc_fifo_witness:
  "fst (snd (fifo_run spsc_push spsc_take [Some True, Some False, Some True, None, Some True, None]
     (spsc_init 2 False))) = [True, False]"
proof -
  have r: "replicate (2 + 1) False = [False, False, False]" by (simp add: eval_nat_numeral)
  obtain acc out q where e: "fifo_run spsc_push spsc_take [Some True, Some False, Some True, None, Some True, None]
      (spsc_init 2 False) = (acc, out, q)" by (metis prod_cases3)
  have v: "acc = [True, False, True]" "q = \<lparr>sp_storage = [True, False, True], sp_head = 0, sp_tail = 2,
      sp_overflow_count = 1\<rparr>"
    using e unfolding spsc_init_def r by (auto simp: spsc_push_def spsc_take_def spsc_pop_def numeral_2_eq_2)
  have "spsc_content q = [True]" by (simp add: v(2) spsc_content_def ring_content_def slots_used_def)
  then have "acc = out @ [True]" using spsc_fifo[OF e] by simp
  moreover have "acc = [True, False] @ [True]" using v(1) by simp
  ultimately have "out = [True, False]" by (metis append1_eq_conv)
  then show ?thesis using e by simp
qed

section \<open>The interleaved operations\<close>

fun producer_ok :: "'a producer \<Rightarrow> 'a list \<Rightarrow> nat \<Rightarrow> nat \<Rightarrow> bool" where
  "producer_ok P_idle st head tail = True"
| "producer_ok (P_write v h f) st head tail =
     (h = head \<and> f = next_slot (length st) head \<and> f \<noteq> tail)"
| "producer_ok (P_publish v f) st head tail =
     (f = next_slot (length st) head \<and> f \<noteq> tail \<and> st ! head = v)"

fun consumer_ok :: "'a consumer \<Rightarrow> 'a list \<Rightarrow> nat \<Rightarrow> nat \<Rightarrow> bool" where
  "consumer_ok C_idle st head tail = True"
| "consumer_ok (C_read t) st head tail = (t = tail \<and> head \<noteq> tail)"
| "consumer_ok (C_publish v t) st head tail = (t = tail \<and> head \<noteq> tail \<and> st ! tail = v)"

definition run_inv :: "nat \<Rightarrow> 'a spsc_run \<Rightarrow> bool" where
  "run_inv capacity q =
     (length (sp_storage q) = capacity + 1 \<and> spsc_wf q \<and>
      producer_ok (qr_producer q) (sp_storage q) (sp_head q) (sp_tail q) \<and>
      consumer_ok (qr_consumer q) (sp_storage q) (sp_head q) (sp_tail q) \<and>
      qr_sent q = qr_received q @ spsc_content q)"

lemma next_slot_inj: "i < n \<Longrightarrow> j < n \<Longrightarrow> next_slot n i = next_slot n j \<Longrightarrow> i = j"
  by (auto simp: next_slot_eq split: if_splits)

lemma producer_write:
  "producer_ok (P_write v h f) st head tail \<Longrightarrow> head < length st \<Longrightarrow>
   producer_ok (P_publish v f) (st[h := v]) head tail"
  by simp

lemma consumer_write:
  "consumer_ok c st head tail \<Longrightarrow> consumer_ok c (st[head := v]) head tail"
  by (cases c) auto

lemma consumer_publish:
  "consumer_ok c st head tail \<Longrightarrow> f \<noteq> tail \<Longrightarrow> consumer_ok c st f tail"
  by (cases c) auto

lemma producer_pop:
  "producer_ok p st head tail \<Longrightarrow> head < length st \<Longrightarrow> tail < length st \<Longrightarrow> head \<noteq> tail \<Longrightarrow>
   producer_ok p st head (next_slot (length st) tail)"
  by (cases p) (auto dest: next_slot_inj)

lemma run_step:
  assumes "queue_step q q'" "run_inv capacity q"
  shows "run_inv capacity q'"
  using assms(1)
proof (cases rule: queue_step.cases)
  case (push_write v head following)
  have w: "sp_head q < length (sp_storage q)" "sp_tail q < length (sp_storage q)"
    using assms(2) by (simp_all add: run_inv_def spsc_wf_def)
  show ?thesis
    using assms(2) push_write ring_write[OF w] consumer_write[of "qr_consumer q" "sp_storage q" "sp_head q" "sp_tail q" v]
    by (auto simp: run_inv_def spsc_wf_def spsc_content_def)
next
  case (push_publish v following)
  have w: "sp_head q < length (sp_storage q)" "sp_tail q < length (sp_storage q)"
    using assms(2) by (simp_all add: run_inv_def spsc_wf_def)
  show ?thesis
    using assms(2) push_publish ring_publish[OF w] next_slot_less[OF w(1)] consumer_publish[of "qr_consumer q" "sp_storage q" "sp_head q" "sp_tail q"]
    by (auto simp: run_inv_def spsc_wf_def spsc_content_def)
next
  case (pop_publish v tail)
  have w: "sp_head q < length (sp_storage q)" "sp_tail q < length (sp_storage q)"
    using assms(2) by (simp_all add: run_inv_def spsc_wf_def)
  show ?thesis
    using assms(2) pop_publish ring_pop[OF w] next_slot_less[OF w(2)] producer_pop[OF _ w, of "qr_producer q"]
    by (auto simp: run_inv_def spsc_wf_def spsc_content_def next_slot_def)
qed (use assms(2) in \<open>auto simp: run_inv_def spsc_wf_def spsc_content_def next_slot_def\<close>)

text \<open>C37: the queue is lossless under every interleaving of its producer and its consumer. However the
  atomic accesses of pushes and pops interleave, the values whose push returned true are the
  values popped, in order, followed by those between tail and head; at most \<open>capacity\<close> wait, and a
  producer that finds the queue full finds \<open>capacity\<close> values waiting.\<close>

theorem spsc_interleaved:
  assumes "queue_reachable capacity blank q"
  shows "qr_sent q = qr_received q @ spsc_content q \<and> length (spsc_content q) \<le> capacity \<and>
    (fst (spsc_push x (spsc.truncate q)) \<longleftrightarrow> length (spsc_content q) \<noteq> capacity)"
proof -
  have i: "run_inv capacity q"
    using assms
  proof (induction rule: queue_reachable.induct)
    case init
    show ?case
      by (simp add: run_inv_def queue_start_def spsc_init_def spsc.extend_def spsc_run.fields_def
        spsc_wf_def spsc_content_def ring_content_def slots_used_def)
  qed (rule run_step)
  then have b: "sp_head q < length (sp_storage q)" "sp_tail q < length (sp_storage q)"
      "length (sp_storage q) = capacity + 1"
    by (simp_all add: run_inv_def spsc_wf_def)
  show ?thesis
    using i used_full[OF b(1,2)] used_bound[OF b(1,2)] b(3)
    by (simp add: run_inv_def spsc_push_slot spsc_content_def ring_content_length spsc.truncate_def)
qed

text \<open>A push of 7 that the consumer overtakes: it finds the queue empty until the head is published.\<close>

theorem spsc_interleaved_witness:
  "\<exists>q. queue_reachable 1 (0 :: int) q \<and> qr_sent q = [7] \<and> qr_received q = [7] \<and>
    qr_sent q = qr_received q @ spsc_content q"
proof -
  let ?q0 = "queue_start 1 (0 :: int)"
  note d = queue_start_def spsc_init_def spsc.extend_def spsc_run.fields_def
  have r: "replicate (1 + 1) (0 :: int) = [0, 0]" by (simp add: eval_nat_numeral)
  let ?q1 = "?q0\<lparr>qr_producer := P_write 7 0 1\<rparr>"
  let ?q2 = "?q1\<lparr>sp_storage := (sp_storage ?q1)[0 := 7], qr_producer := P_publish 7 1\<rparr>"
  let ?q3 = "?q2\<lparr>sp_head := 1, qr_producer := P_idle, qr_sent := qr_sent ?q2 @ [7]\<rparr>"
  let ?q4 = "?q3\<lparr>qr_consumer := C_read 0\<rparr>"
  let ?q5 = "?q4\<lparr>qr_consumer := C_publish (sp_storage ?q4 ! 0) 0\<rparr>"
  let ?q6 = "?q5\<lparr>sp_tail := (0 + 1) mod length (sp_storage ?q5), qr_consumer := C_idle,
      qr_received := qr_received ?q5 @ [7]\<rparr>"
  have s1: "queue_step ?q0 ?q1" using queue_step.push_check[of ?q0 7] by (simp add: d r)
  have s2: "queue_step ?q1 ?q2" by (rule queue_step.push_write[of ?q1 7 0 1]) simp
  have s3: "queue_step ?q2 ?q3" by (rule queue_step.push_publish[of ?q2 7 1]) simp
  have s4: "queue_step ?q3 ?q4" using queue_step.pop_check[of ?q3] by (simp add: d)
  have s5: "queue_step ?q4 ?q5" by (rule queue_step.pop_read[of ?q4 0]) simp
  have s6: "queue_step ?q5 ?q6" using queue_step.pop_publish[of ?q5 7 0] by (simp add: d r)
  note i = queue_reachable.init[of 1 "0 :: int"]
  note q6 = queue_reachable.step[OF queue_reachable.step[OF queue_reachable.step[OF
    queue_reachable.step[OF queue_reachable.step[OF queue_reachable.step[OF i s1] s2] s3] s4] s5] s6]
  have "qr_sent ?q6 = [7]" "qr_received ?q6 = [7]" by (simp_all add: d)
  then show ?thesis using q6 spsc_interleaved[OF q6] by blast
qed

section \<open>The latch keeps the last emergency\<close>

lemma latch_bits:
  "(ucast (i :: u8) OR 0x100 :: u16) AND 0x100 \<noteq> 0" "ucast (ucast i OR 0x100 :: u16) = i"
proof -
  have b: "bit ((ucast i OR 0x100 :: u16) AND 0x100) 8" by (simp add: bit_or_iff bit_and_iff)
  then show "(ucast i OR 0x100 :: u16) AND 0x100 \<noteq> 0" by (metis bit_0_eq bot_apply bot_bool_def)
  show "ucast (ucast i OR 0x100 :: u16) = i"
  proof (rule bit_word_eqI)
    fix n assume "n < LENGTH(8)"
    then have "n = 0 \<or> n = 1 \<or> n = 2 \<or> n = 3 \<or> n = 4 \<or> n = 5 \<or> n = 6 \<or> n = 7" by auto
    then show "bit (ucast (ucast i OR 0x100 :: u16) :: u8) n = bit i n"
      by (auto simp: bit_ucast_iff bit_or_iff)
  qed
qed

text \<open>Signals are \<open>Some id\<close>, takes \<open>None\<close>.\<close>

fun latch_run :: "u8 option list \<Rightarrow> u16 \<Rightarrow> u16" where
  "latch_run [] p = p"
| "latch_run (Some i # ops) p = latch_run ops (snd (latch_signal i p))"
| "latch_run (None # ops) p = latch_run ops (snd (latch_take p))"

lemma latch_run_append: "latch_run (xs @ ys) p = latch_run ys (latch_run xs p)"
  by (induction xs p rule: latch_run.induct) simp_all

text \<open>no emergency is lost between the CAN task and its consumer. After any history of signals and
  takes, a take delivers exactly the id of the last operation if that was a signal, and nothing if
  it was a take; a further signal replaces the id and reports that one was pending.\<close>

theorem latch_latest:
  "fst (latch_take (latch_run (ops @ [Some i]) 0)) = Some i \<and>
   fst (latch_take (latch_run (ops @ [None]) 0)) = None \<and>
   fst (latch_signal j (latch_run (ops @ [Some i]) 0)) \<and>
   \<not> fst (latch_signal j (latch_run (ops @ [None]) 0)) \<and>
   latch_pending (latch_run (ops @ [Some i]) 0)"
  using latch_bits by (simp add: latch_run_append latch_take_def latch_signal_def latch_pending_def)

end
