(* ===== verification/Flight_Storage.thy ===== *)
theory Flight_Storage
  imports Flight_Log Runtime_Queues
begin

text \<open>
  \<open>src/runtime/flight_storage.{hpp,cpp}\<close>. \<open>InternalFlashLog\<close> over a partition API that is the
  parameter \<open>partition_api\<close> on an external state \<open>'f\<close>; \<open>SdFlightLog\<close>: the staging ring, the writer
  that drains it in batches over a file whose calls are the parameter \<open>sd_api\<close>, and the export of
  the raw flash. Offsets are natural numbers: the partition of the build has 2 MiB, so no
  \<open>uint32_t\<close> sum wraps. Mounting, heap allocation, task creation and semaphores are not modelled.
\<close>

unbundle bit_operations_syntax

datatype esp_code =
    EC_ok | EC_fail | EC_no_mem | EC_invalid_arg | EC_invalid_state | EC_invalid_size
  | EC_not_found | EC_invalid_crc | EC_other int

section \<open>The internal flash log\<close>

text \<open>\<open>pa_find_first\<close> is the size of the \<open>flightlog\<close> partition, if there is one. Offset and length,
  or offset and data, are the arguments of the others.\<close>

record 'f partition_api =
  pa_find_first :: "'f \<Rightarrow> nat option"
  pa_read :: "nat \<Rightarrow> nat \<Rightarrow> 'f \<Rightarrow> esp_code \<times> u8 list \<times> 'f"
  pa_write :: "nat \<Rightarrow> u8 list \<Rightarrow> 'f \<Rightarrow> esp_code \<times> 'f"
  pa_erase_range :: "nat \<Rightarrow> nat \<Rightarrow> 'f \<Rightarrow> esp_code \<times> 'f"

record flash_log =
  fl_partition :: "nat option"
  fl_write_offset :: nat
  fl_has_data :: bool

definition flash_log_init :: flash_log where
  "flash_log_init = \<lparr>fl_partition = None, fl_write_offset = 0, fl_has_data = False\<rparr>"

definition kMinimumFlightLogBytes :: nat where "kMinimumFlightLogBytes = 2 * 1024 * 1024"
definition kScanBufferBytes :: nat where "kScanBufferBytes = 4096"

definition locatePartition :: "'f partition_api \<Rightarrow> 'f \<Rightarrow> flash_log \<Rightarrow> esp_code \<times> flash_log" where
  "locatePartition api f l =
     (if fl_partition l \<noteq> None then (EC_ok, l)
      else case pa_find_first api f of
        None \<Rightarrow> (EC_not_found, l)
      | Some extent \<Rightarrow> if extent < kMinimumFlightLogBytes then (EC_not_found, l)
          else (EC_ok, l\<lparr>fl_partition := Some extent\<rparr>))"

definition flash_prepareForFlight ::
    "'f partition_api \<Rightarrow> flash_log \<times> 'f \<Rightarrow> esp_code \<times> flash_log \<times> 'f" where
  "flash_prepareForFlight api = (\<lambda>(l, f).
     case locatePartition api f l of (e, l) \<Rightarrow>
     if e \<noteq> EC_ok then (e, l, f)
     else case pa_erase_range api 0 (the (fl_partition l)) f of (e, f) \<Rightarrow>
     if e \<noteq> EC_ok then (e, l, f)
     else (EC_ok, l\<lparr>fl_write_offset := 0, fl_has_data := False\<rparr>, f))"

text \<open>The records of one block: \<open>valid_prefix\<close> and the write offset after the inner loop.\<close>

function scan_records :: "nat \<Rightarrow> nat \<Rightarrow> u8 list \<Rightarrow> nat \<Rightarrow> nat \<Rightarrow> bool \<times> nat" where
  "scan_records block_offset block_size block local write_offset =
     (if local + kSerializedRecordBytes \<le> block_size then
        let r = take kSerializedRecordBytes (drop local block) in
        if erased r \<or> \<not> log_validate r then (False, write_offset)
        else scan_records block_offset block_size block (local + kSerializedRecordBytes)
          (block_offset + (local + kSerializedRecordBytes))
      else (True, write_offset))"
  by pat_completeness auto
termination
  by (relation "measure (\<lambda>(_, extent, _, local, _). extent - local)") (auto simp: kSerializedRecordBytes_def)

declare scan_records.simps [simp del]

function scan_blocks ::
    "'f partition_api \<Rightarrow> nat \<Rightarrow> nat \<Rightarrow> bool \<Rightarrow> flash_log \<times> 'f \<Rightarrow> esp_code \<times> flash_log \<times> 'f" where
  "scan_blocks api extent block_offset valid_prefix (l, f) =
     (if block_offset < extent then
        let block_size = min kScanBufferBytes (extent - block_offset) in
        case pa_read api block_offset block_size f of (e, block, f) \<Rightarrow>
        if e \<noteq> EC_ok then (e, l, f)
        else let l = l\<lparr>fl_has_data := fl_has_data l \<or> list_ex (\<lambda>b. b \<noteq> 0xFF) (take block_size block)\<rparr> in
        if \<not> valid_prefix then scan_blocks api extent (block_offset + kScanBufferBytes) False (l, f)
        else case scan_records block_offset block_size block 0 (fl_write_offset l) of (v, w) \<Rightarrow>
          scan_blocks api extent (block_offset + kScanBufferBytes) v (l\<lparr>fl_write_offset := w\<rparr>, f)
      else (EC_ok, l, f))"
  by pat_completeness auto
termination
  by (relation "measure (\<lambda>(_, extent, offset, _, _). extent - offset)") (auto simp: kScanBufferBytes_def)

declare scan_blocks.simps [simp del]

definition flash_openExisting ::
    "'f partition_api \<Rightarrow> flash_log \<times> 'f \<Rightarrow> esp_code \<times> flash_log \<times> 'f" where
  "flash_openExisting api = (\<lambda>(l, f).
     case locatePartition api f l of (e, l) \<Rightarrow>
     if e \<noteq> EC_ok then (e, l, f)
     else scan_blocks api (the (fl_partition l)) 0 True
       (l\<lparr>fl_write_offset := 0, fl_has_data := False\<rparr>, f))"

definition flash_append ::
    "'f partition_api \<Rightarrow> u8 list \<Rightarrow> flash_log \<times> 'f \<Rightarrow> esp_code \<times> flash_log \<times> 'f" where
  "flash_append api r = (\<lambda>(l, f).
     case fl_partition l of
       None \<Rightarrow> (EC_invalid_state, l, f)
     | Some extent \<Rightarrow>
       if \<not> log_validate r then (EC_invalid_crc, l, f)
       else if extent < fl_write_offset l \<or> extent - fl_write_offset l < length r then (EC_no_mem, l, f)
       else case pa_write api (fl_write_offset l) r f of (e, f) \<Rightarrow>
         (e, if e = EC_ok
             then l\<lparr>fl_write_offset := fl_write_offset l + length r, fl_has_data := True\<rparr>
             else l, f))"

text \<open>The bytes read, empty for a read size of 0; the destination is never null in the callers.\<close>

definition flash_read ::
    "'f partition_api \<Rightarrow> nat \<Rightarrow> nat \<Rightarrow> flash_log \<times> 'f \<Rightarrow> esp_code \<times> u8 list \<times> 'f" where
  "flash_read api offset requested = (\<lambda>(l, f).
     if fl_partition l = None then (EC_invalid_state, [], f)
     else if fl_write_offset l \<le> offset \<or> requested = 0 then (EC_ok, [], f)
     else case pa_read api offset (min requested (fl_write_offset l - offset)) f of (e, bytes, f) \<Rightarrow>
       (e, if e \<noteq> EC_ok then [] else bytes, f))"

definition flash_readRaw ::
    "'f partition_api \<Rightarrow> nat \<Rightarrow> nat \<Rightarrow> flash_log \<times> 'f \<Rightarrow> esp_code \<times> u8 list \<times> 'f" where
  "flash_readRaw api offset requested = (\<lambda>(l, f).
     case fl_partition l of
       None \<Rightarrow> (EC_invalid_state, [], f)
     | Some extent \<Rightarrow>
       if requested = 0 \<or> extent \<le> offset then (EC_ok, [], f)
       else case pa_read api offset (min requested (extent - offset)) f of (e, bytes, f) \<Rightarrow>
         (e, if e \<noteq> EC_ok then [] else bytes, f))"

definition flash_erase ::
    "'f partition_api \<Rightarrow> flash_log \<times> 'f \<Rightarrow> esp_code \<times> flash_log \<times> 'f" where
  "flash_erase api = (\<lambda>(l, f).
     case (if fl_partition l = None then locatePartition api f l else (EC_ok, l)) of (e, l) \<Rightarrow>
     if e \<noteq> EC_ok then (e, l, f)
     else case pa_erase_range api 0 (the (fl_partition l)) f of (e, f) \<Rightarrow>
       (e, if e = EC_ok then l\<lparr>fl_write_offset := 0, fl_has_data := False\<rparr> else l, f))"

definition flash_size :: "flash_log \<Rightarrow> nat" where "flash_size l = fl_write_offset l"
definition flash_capacity :: "flash_log \<Rightarrow> nat" where
  "flash_capacity l = (case fl_partition l of None \<Rightarrow> 0 | Some extent \<Rightarrow> extent)"
definition flash_ready :: "flash_log \<Rightarrow> bool" where "flash_ready l = (fl_partition l \<noteq> None)"
definition flash_hasData :: "flash_log \<Rightarrow> bool" where "flash_hasData l = fl_has_data l"

section \<open>Documented behaviour of the partition\<close>

text \<open>NOR flash: a successful write clears bits, a successful erase sets them, a read changes nothing.
  \<open>bytes\<close> is the content of the partition.\<close>

definition find_law :: "'f partition_api \<Rightarrow> ('f \<Rightarrow> u8 list) \<Rightarrow> bool" where
  "find_law api bytes = (\<forall>f extent. pa_find_first api f = Some extent \<longrightarrow> extent = length (bytes f))"

definition read_law :: "'f partition_api \<Rightarrow> ('f \<Rightarrow> u8 list) \<Rightarrow> bool" where
  "read_law api bytes = (\<forall>f off n e data f'.
     off + n \<le> length (bytes f) \<longrightarrow> pa_read api off n f = (e, data, f') \<longrightarrow>
       bytes f' = bytes f \<and> (e = EC_ok \<longrightarrow> data = take n (drop off (bytes f))))"

definition write_law :: "'f partition_api \<Rightarrow> ('f \<Rightarrow> u8 list) \<Rightarrow> bool" where
  "write_law api bytes = (\<forall>f off data e f'.
     off + length data \<le> length (bytes f) \<longrightarrow> pa_write api off data f = (e, f') \<longrightarrow>
       length (bytes f') = length (bytes f) \<and>
       (e = EC_ok \<longrightarrow> bytes f' = take off (bytes f) @
          map2 (AND) (take (length data) (drop off (bytes f))) data @
          drop (off + length data) (bytes f)))"

definition erase_law :: "'f partition_api \<Rightarrow> ('f \<Rightarrow> u8 list) \<Rightarrow> bool" where
  "erase_law api bytes = (\<forall>f off n e f'.
     off + n \<le> length (bytes f) \<longrightarrow> pa_erase_range api off n f = (e, f') \<longrightarrow>
       length (bytes f') = length (bytes f) \<and>
       (e = EC_ok \<longrightarrow> bytes f' = take off (bytes f) @ replicate n 0xFF @ drop (off + n) (bytes f)))"

definition nor_partition :: "'f partition_api \<Rightarrow> ('f \<Rightarrow> u8 list) \<Rightarrow> bool" where
  "nor_partition api bytes =
     (find_law api bytes \<and> read_law api bytes \<and> write_law api bytes \<and> erase_law api bytes)"

text \<open>A partition in working order: every access inside it succeeds.\<close>

definition reliable_partition :: "'f partition_api \<Rightarrow> ('f \<Rightarrow> u8 list) \<Rightarrow> bool" where
  "reliable_partition api bytes = (nor_partition api bytes \<and>
     (\<forall>f off n. off + n \<le> length (bytes f) \<longrightarrow>
        fst (pa_read api off n f) = EC_ok \<and> fst (pa_erase_range api off n f) = EC_ok) \<and>
     (\<forall>f off data. off + length data \<le> length (bytes f) \<longrightarrow> fst (pa_write api off data f) = EC_ok))"

lemma reliable_parts:
  assumes "reliable_partition api bytes"
  shows "find_law api bytes" "read_law api bytes" "write_law api bytes" "erase_law api bytes"
    "off + n \<le> length (bytes f) \<Longrightarrow> fst (pa_read api off n f) = EC_ok"
    "off + n \<le> length (bytes f) \<Longrightarrow> fst (pa_erase_range api off n f) = EC_ok"
    "off + length data \<le> length (bytes f) \<Longrightarrow> fst (pa_write api off data f) = EC_ok"
  using assms unfolding reliable_partition_def nor_partition_def by blast+

lemma reliable_read:
  assumes api: "reliable_partition api bytes" and fits: "off + n \<le> length (bytes f)"
  obtains f' where "pa_read api off n f = (EC_ok, take n (drop off (bytes f)), f')" "bytes f' = bytes f"
proof -
  obtain e data f' where r: "pa_read api off n f = (e, data, f')" by (metis prod_cases3)
  have e: "e = EC_ok" using reliable_parts(5)[OF api fits] r by simp
  show ?thesis using that r e reliable_parts(2)[OF api] fits unfolding read_law_def by blast
qed

lemma reliable_write:
  assumes api: "reliable_partition api bytes" and fits: "off + length data \<le> length (bytes f)"
  obtains f' where "pa_write api off data f = (EC_ok, f')"
    "bytes f' = take off (bytes f) @ map2 (AND) (take (length data) (drop off (bytes f))) data @
       drop (off + length data) (bytes f)"
proof -
  obtain e f' where r: "pa_write api off data f = (e, f')" by fastforce
  have e: "e = EC_ok" using reliable_parts(7)[OF api fits] r by simp
  show ?thesis using that r e reliable_parts(3)[OF api] fits unfolding write_law_def by blast
qed

lemma reliable_erase:
  assumes api: "reliable_partition api bytes" and fits: "off + n \<le> length (bytes f)"
  obtains f' where "pa_erase_range api off n f = (EC_ok, f')"
    "bytes f' = take off (bytes f) @ replicate n 0xFF @ drop (off + n) (bytes f)"
proof -
  obtain e f' where r: "pa_erase_range api off n f = (e, f')" by fastforce
  have e: "e = EC_ok" using reliable_parts(6)[OF api fits] r by simp
  show ?thesis using that r e reliable_parts(4)[OF api] fits unfolding erase_law_def by blast
qed

lemma nor_find: "reliable_partition api bytes \<Longrightarrow> pa_find_first api f = Some extent \<Longrightarrow> extent = length (bytes f)"
  using reliable_parts(1) unfolding find_law_def by blast

lemma and_erased: "map2 (AND) (replicate (length d) 0xFF) d = (d :: u8 list)"
proof -
  have "(0xFF :: u8) = - 1" by simp
  then have "0xFF AND b = b" for b :: u8 by (metis and.left_neutral)
  then show ?thesis by (induction d) simp_all
qed

section \<open>The log is an append-only list of records\<close>

text \<open>The contract: a list of records in an area of \<open>extent\<close> bytes.\<close>

definition spec_append :: "nat \<Rightarrow> u8 list \<Rightarrow> u8 list list \<Rightarrow> esp_code \<times> u8 list list" where
  "spec_append extent r recs =
     (if \<not> log_validate r then (EC_invalid_crc, recs)
      else if extent < 192 * (length recs + 1) then (EC_no_mem, recs)
      else (EC_ok, recs @ [r]))"

fun spec_appends :: "nat \<Rightarrow> u8 list list \<Rightarrow> u8 list list \<Rightarrow> esp_code list \<times> u8 list list" where
  "spec_appends extent [] recs = ([], recs)"
| "spec_appends extent (r # rs) recs =
     (case spec_append extent r recs of (e, recs) \<Rightarrow>
      case spec_appends extent rs recs of (es, recs) \<Rightarrow> (e # es, recs))"

fun flash_appends ::
    "'f partition_api \<Rightarrow> u8 list list \<Rightarrow> flash_log \<times> 'f \<Rightarrow> esp_code list \<times> flash_log \<times> 'f" where
  "flash_appends api [] s = ([], s)"
| "flash_appends api (r # rs) s =
     (case flash_append api r s of (e, s) \<Rightarrow>
      case flash_appends api rs s of (es, s) \<Rightarrow> (e # es, s))"

text \<open>The concrete log holds these records: back to back from offset 0, erased flash behind them.\<close>

fun flash_holds :: "('f \<Rightarrow> u8 list) \<Rightarrow> nat \<Rightarrow> u8 list list \<Rightarrow> flash_log \<times> 'f \<Rightarrow> bool" where
  "flash_holds bytes extent recs (l, f) =
     (fl_partition l = Some extent \<and> fl_write_offset l = 192 * length recs \<and>
      fl_has_data l = (recs \<noteq> []) \<and> 192 * length recs \<le> extent \<and>
      (\<forall>r\<in>set recs. length r = 192 \<and> log_validate r) \<and>
      bytes f = concat recs @ replicate (extent - 192 * length recs) 0xFF)"

lemma length_records: "(\<forall>r\<in>set recs. length r = 192 \<and> P r) \<Longrightarrow> length (concat recs) = 192 * length recs"
  by (induction recs) auto

lemma append_simulates:
  assumes api: "reliable_partition api bytes"
    and holds: "flash_holds bytes extent recs (l, f)" and r: "length r = 192"
  shows "\<exists>e recs' s'. spec_append extent r recs = (e, recs') \<and> flash_append api r (l, f) = (e, s') \<and>
           flash_holds bytes extent recs' s'"
proof (cases "log_validate r \<and> 192 * (length recs + 1) \<le> extent")
  case False
  then show ?thesis
    using holds r by (auto simp: spec_append_def flash_append_def)
next
  case True
  have len: "length (concat recs) = 192 * length recs" using holds by (auto intro: length_records)
  have b: "bytes f = concat recs @ replicate (extent - 192 * length recs) 0xFF" using holds by simp
  have fits: "192 * length recs + length r \<le> length (bytes f)" using True b len r by simp
  obtain f' where w: "pa_write api (192 * length recs) r f = (EC_ok, f')"
    and b': "bytes f' = take (192 * length recs) (bytes f) @
       map2 (AND) (take (length r) (drop (192 * length recs) (bytes f))) r @
       drop (192 * length recs + length r) (bytes f)"
    using reliable_write[OF api fits] by blast
  have room: "192 \<le> extent - 192 * length recs" using True by auto
  have fill: "take (length r) (drop (192 * length recs) (bytes f)) = replicate (length r) 0xFF"
    using room b len r by (simp add: min_def)
  have "bytes f' = concat (recs @ [r]) @ replicate (extent - 192 * length (recs @ [r])) 0xFF"
    unfolding b' fill and_erased using room b len r by simp
  then show ?thesis
    using holds True r w by (auto simp: spec_append_def flash_append_def)
qed

lemma appends_simulate:
  "reliable_partition api bytes \<Longrightarrow> flash_holds bytes extent recs s \<Longrightarrow> \<forall>r\<in>set rs. length r = 192 \<Longrightarrow>
     \<exists>es recs' s'. spec_appends extent rs recs = (es, recs') \<and> flash_appends api rs s = (es, s') \<and>
       flash_holds bytes extent recs' s'"
proof (induction rs arbitrary: recs s)
  case (Cons r rs)
  obtain l f where s: "s = (l, f)" by fastforce
  obtain e recs1 s1 where a: "spec_append extent r recs = (e, recs1)" "flash_append api r s = (e, s1)"
      "flash_holds bytes extent recs1 s1"
    using append_simulates[OF Cons.prems(1) Cons.prems(2)[unfolded s], of r] Cons.prems(3) s
    by (metis list.set_intros(1))
  show ?case using Cons.IH[OF Cons.prems(1) a(3)] Cons.prems(3) a by auto
qed simp

lemma prepare_holds:
  assumes api: "reliable_partition api bytes" and found: "pa_find_first api f = Some extent"
    and big: "kMinimumFlightLogBytes \<le> extent"
  obtains s where "flash_prepareForFlight api (flash_log_init, f) = (EC_ok, s)" "flash_holds bytes extent [] s"
proof -
  have len: "extent = length (bytes f)" using nor_find[OF api found] .
  obtain f' where "pa_erase_range api 0 extent f = (EC_ok, f')" "bytes f' = replicate extent 0xFF"
    using reliable_erase[OF api, of 0 extent f] len by auto
  then show ?thesis
    using that found big by (auto simp: flash_prepareForFlight_def locatePartition_def flash_log_init_def)
qed

lemma holds_read:
  assumes api: "reliable_partition api bytes" and holds: "flash_holds bytes extent recs (l, f)"
  obtains f' where "flash_read api off n (l, f) = (EC_ok, take n (drop off (concat recs)), f')"
    "bytes f' = bytes f"
proof -
  have len: "length (concat recs) = 192 * length recs" using holds by (auto intro: length_records)
  have w: "fl_write_offset l = 192 * length recs" using holds by simp
  show ?thesis
  proof (cases "fl_write_offset l \<le> off \<or> n = 0")
    case True
    then show ?thesis using that[of f] holds len by (auto simp: flash_read_def)
  next
    case False
    define k where "k = min n (192 * length recs - off)"
    have k: "off + k \<le> length (bytes f)" "take k (drop off (bytes f)) = take n (drop off (concat recs))"
      using False holds len by (auto simp: k_def min_def)
    obtain f' where "pa_read api off k f = (EC_ok, take n (drop off (concat recs)), f')" "bytes f' = bytes f"
      using reliable_read[OF api k(1)] k(2) by metis
    then show ?thesis using that False holds by (auto simp: flash_read_def k_def[symmetric])
  qed
qed

section \<open>Reopening\<close>

lemma scan_step:
  assumes api: "reliable_partition api bytes" and len: "extent = length (bytes f)" and off: "off < extent"
  obtains f' where "bytes f' = bytes f"
    "scan_blocks api extent off v (l, f) =
       (let block_size = min kScanBufferBytes (extent - off);
            block = take block_size (drop off (bytes f));
            l = l\<lparr>fl_has_data := fl_has_data l \<or> list_ex (\<lambda>b. b \<noteq> 0xFF) block\<rparr> in
        if \<not> v then scan_blocks api extent (off + kScanBufferBytes) False (l, f')
        else case scan_records off block_size block 0 (fl_write_offset l) of (v, w) \<Rightarrow>
          scan_blocks api extent (off + kScanBufferBytes) v (l\<lparr>fl_write_offset := w\<rparr>, f'))"
proof -
  have fits: "off + min kScanBufferBytes (extent - off) \<le> length (bytes f)" using len off by simp
  obtain f' where r: "pa_read api off (min kScanBufferBytes (extent - off)) f =
      (EC_ok, take (min kScanBufferBytes (extent - off)) (drop off (bytes f)), f')" "bytes f' = bytes f"
    using reliable_read[OF api fits] by blast
  show ?thesis
    using that[OF r(2)] off r(1)
    by (simp add: scan_blocks.simps[of api extent off] Let_def)
qed

lemma list_ex_block: "list_ex P (drop off xs) \<longleftrightarrow> list_ex P (take n (drop off xs)) \<or> list_ex P (drop (off + n) xs)"
  by (metis append_take_drop_id drop_drop list_ex_append add.commute)

lemma list_ex_last_block: "length xs \<le> off + n \<Longrightarrow>
    list_ex P (drop off xs) \<longleftrightarrow> list_ex P (take (length xs - off) (drop off xs)) \<or> list_ex P (drop (off + n) xs)"
  by simp

text \<open>The scan reads every block; once the prefix has ended it only looks for written bytes.\<close>

lemma scan_result:
  assumes api: "reliable_partition api bytes"
  shows "extent = length (bytes f) \<Longrightarrow>
     \<exists>l' f'. scan_blocks api extent off v (l, f) = (EC_ok, l', f') \<and> bytes f' = bytes f \<and>
       fl_partition l' = fl_partition l \<and>
       fl_has_data l' = (fl_has_data l \<or> list_ex (\<lambda>b. b \<noteq> 0xFF) (drop off (bytes f))) \<and>
       (\<not> v \<longrightarrow> fl_write_offset l' = fl_write_offset l)"
proof (induction "extent - off" arbitrary: off v l f rule: less_induct)
  case less
  show ?case
  proof (cases "off < extent")
    case False
    then show ?thesis using less.prems by (auto simp: scan_blocks.simps)
  next
    case True
    define n where "n = min kScanBufferBytes (extent - off)"
    define block where "block = take n (drop off (bytes f))"
    define l1 where "l1 = l\<lparr>fl_has_data := fl_has_data l \<or> list_ex (\<lambda>b. b \<noteq> 0xFF) block\<rparr>"
    have data: "list_ex (\<lambda>b. b \<noteq> 0xFF) (drop off (bytes f)) \<longleftrightarrow>
        list_ex (\<lambda>b. b \<noteq> 0xFF) block \<or> list_ex (\<lambda>b. b \<noteq> 0xFF) (drop (off + kScanBufferBytes) (bytes f))"
    proof (cases "kScanBufferBytes \<le> extent - off")
      case True
      then have "n = kScanBufferBytes" by (simp add: n_def)
      then show ?thesis unfolding block_def by (simp only: list_ex_block[of _ off "bytes f" kScanBufferBytes])
    next
      case False
      then have "n = length (bytes f) - off" "length (bytes f) \<le> off + kScanBufferBytes"
        using less.prems by (simp_all add: n_def)
      then show ?thesis unfolding block_def using list_ex_last_block by metis
    qed
    have smaller: "extent - (off + kScanBufferBytes) < extent - off" using True by (simp add: kScanBufferBytes_def)
    obtain f1 where f1: "bytes f1 = bytes f" and step: "scan_blocks api extent off v (l, f) =
       (if \<not> v then scan_blocks api extent (off + kScanBufferBytes) False (l1, f1)
        else case scan_records off n block 0 (fl_write_offset l1) of (v, w) \<Rightarrow>
          scan_blocks api extent (off + kScanBufferBytes) v (l1\<lparr>fl_write_offset := w\<rparr>, f1))"
      using scan_step[OF api less.prems True, of v l] unfolding n_def block_def l1_def Let_def by blast
    obtain v' w where sr: "scan_records off n block 0 (fl_write_offset l1) = (v', w)" by fastforce
    have e1: "extent = length (bytes f1)" using less.prems f1 by simp
    obtain v2 l2 where onward: "scan_blocks api extent off v (l, f) =
          scan_blocks api extent (off + kScanBufferBytes) v2 (l2, f1)"
        "fl_partition l2 = fl_partition l" "fl_has_data l2 = fl_has_data l1"
        "\<not> v \<longrightarrow> \<not> v2 \<and> fl_write_offset l2 = fl_write_offset l"
      using that[of False l1] that[of v' "l1\<lparr>fl_write_offset := w\<rparr>"]
      unfolding step sr by (cases v) (simp_all add: l1_def)
    obtain l' f' where "scan_blocks api extent (off + kScanBufferBytes) v2 (l2, f1) = (EC_ok, l', f')"
        "bytes f' = bytes f1" "fl_partition l' = fl_partition l2"
        "fl_has_data l' = (fl_has_data l2 \<or> list_ex (\<lambda>b. b \<noteq> 0xFF) (drop (off + kScanBufferBytes) (bytes f1)))"
        "\<not> v2 \<longrightarrow> fl_write_offset l' = fl_write_offset l2"
      using less.hyps[OF smaller e1] by blast
    then show ?thesis unfolding onward(1) using onward(2-) f1 data by (auto simp: l1_def)
  qed
qed

lemma validate_not_erased: "log_validate r \<Longrightarrow> \<not> erased r"
  by (cases r) (auto simp: log_validate_def erased_def kMagic_def split: if_splits)

lemma nth_record:
  "(\<forall>r\<in>set recs. length r = 192) \<Longrightarrow> j < length recs \<Longrightarrow>
     take 192 (drop (192 * j) (concat recs @ rest)) = recs ! j"
proof (induction recs arbitrary: j)
  case (Cons r recs)
  then show ?case by (cases j) simp_all
qed simp

lemma scan_first_block:
  assumes recs: "\<forall>r\<in>set recs. length r = 192 \<and> log_validate r"
    and block: "block = take 4096 (concat recs @ replicate k 0xFF)"
    and room: "4096 \<le> 192 * length recs + k"
  shows "j \<le> min (length recs) 21 \<Longrightarrow>
     scan_records 0 4096 block (192 * j) (192 * j) = (21 \<le> length recs, 192 * min (length recs) 21)"
proof (induction "21 - j" arbitrary: j)
  case 0
  then show ?case by (subst scan_records.simps) (simp add: kSerializedRecordBytes_def)
next
  case (Suc m)
  have j: "j < 21" "m = 21 - Suc j" using Suc.hyps(2) by arith+
  have inside: "192 * j + 192 \<le> 4096" using j by simp
  have piece: "take 192 (drop (192 * j) block) = take 192 (drop (192 * j) (concat recs @ replicate k 0xFF))"
  proof -
    have "min 192 (4096 - 192 * j) = (192 :: nat)" using inside by arith
    then show ?thesis unfolding block drop_take take_take by (simp only:)
  qed
  show ?case
  proof (cases "j < length recs")
    case True
    have "take 192 (drop (192 * j) block) = recs ! j"
      unfolding piece by (rule nth_record[OF _ True]) (simp add: recs)
    moreover have "log_validate (recs ! j)" using True recs by simp
    moreover have "scan_records 0 4096 block (192 * j + 192) (192 * j + 192) =
        (21 \<le> length recs, 192 * min (length recs) 21)"
      using Suc.hyps(1)[OF j(2)] True j(1) by (simp add: add.commute)
    ultimately show ?thesis
      unfolding scan_records.simps[of 0 4096 block "192 * j"] kSerializedRecordBytes_def Let_def
      using inside validate_not_erased by simp
  next
    case False
    then have e: "j = length recs" using Suc.prems by simp
    have "length (concat recs) = 192 * j" using recs length_records e by blast
    then have "take 192 (drop (192 * j) block) = replicate 192 0xFF"
      using piece room inside unfolding e by (simp only: drop_append) (simp add: min_def)
    then have "erased (take 192 (drop (192 * j) block))" by (simp add: erased_def list_all_iff)
    then show ?thesis
      unfolding scan_records.simps[of 0 4096 block "192 * j"] kSerializedRecordBytes_def Let_def
      using inside e j by simp
  qed
qed

lemma scan_full_block:
  assumes api: "reliable_partition api bytes" and len: "extent = length (bytes f)" and off: "off + 4096 \<le> extent"
    and sr: "scan_records off 4096 (take 4096 (drop off (bytes f))) 0 (fl_write_offset l) = (v', w)"
  obtains l' f' where "bytes f' = bytes f" "fl_write_offset l' = w"
    "scan_blocks api extent off True (l, f) = scan_blocks api extent (off + 4096) v' (l', f')"
proof -
  have inside: "off < extent" using off by simp
  have n: "min kScanBufferBytes (extent - off) = 4096" using off by (simp add: kScanBufferBytes_def)
  define l1 where "l1 = l\<lparr>fl_has_data := fl_has_data l \<or>
      list_ex (\<lambda>b. b \<noteq> 0xFF) (take 4096 (drop off (bytes f)))\<rparr>"
  have w1: "fl_write_offset l1 = fl_write_offset l" by (simp add: l1_def)
  obtain f' where f': "bytes f' = bytes f" and
    step: "scan_blocks api extent off True (l, f) =
      scan_blocks api extent (off + 4096) v' (l1\<lparr>fl_write_offset := w\<rparr>, f')"
    using scan_step[OF api len inside, of True l] unfolding n Let_def l1_def[symmetric] w1 sr
    by (auto simp: kScanBufferBytes_def)
  show ?thesis by (rule that[OF f' _ step]) simp
qed

lemma drop_record_stream:
  assumes recs: "\<forall>r\<in>set recs. length r = 192" and n: "22 \<le> length recs"
  shows "take 4 (drop 4096 (concat recs @ rest)) = take 4 (drop 64 (recs ! 21))"
proof -
  have "take 192 (drop 4032 (concat recs @ rest)) = recs ! 21"
    using nth_record[OF recs, of 21 rest] n by simp
  from arg_cong[OF this, of "drop 64"]
  have "drop 64 (recs ! 21) = take 128 (drop 4096 (concat recs @ rest))"
    by (simp only: drop_take drop_drop) simp
  then show ?thesis by (simp del: drop_append take_append)
qed

lemma reopen_scan:
  assumes api: "reliable_partition api bytes" and holds: "flash_holds bytes extent recs (l0, f)"
    and found: "pa_find_first api f = Some extent" and big: "kMinimumFlightLogBytes \<le> extent"
    and no_magic: "22 \<le> length recs \<Longrightarrow> take 4 (drop 64 (recs ! 21)) \<noteq> kMagic"
  obtains l f' where "flash_openExisting api (flash_log_init, f) = (EC_ok, l, f')" "bytes f' = bytes f"
    "fl_write_offset l = 192 * min (length recs) 21" "fl_partition l = Some extent"
    "fl_has_data l = list_ex (\<lambda>b. b \<noteq> 0xFF) (bytes f)"
proof -
  define l1 where "l1 = flash_log_init\<lparr>fl_partition := Some extent, fl_write_offset := 0, fl_has_data := False\<rparr>"
  have recs: "\<forall>r\<in>set recs. length r = 192 \<and> log_validate r"
    and b: "bytes f = concat recs @ replicate (extent - 192 * length recs) 0xFF"
    and fits: "192 * length recs \<le> extent" using holds by auto
  have len: "extent = length (bytes f)" using nor_find[OF api found] .
  have large: "8192 \<le> extent" using big by (simp add: kMinimumFlightLogBytes_def)
  have open1: "flash_openExisting api (flash_log_init, f) = scan_blocks api extent 0 True (l1, f)"
    using found big by (simp add: flash_openExisting_def locatePartition_def flash_log_init_def l1_def)
  have block: "take 4096 (drop 0 (bytes f)) = take 4096 (concat recs @ replicate (extent - 192 * length recs) 0xFF)"
    using b by simp
  have "scan_records 0 4096 (take 4096 (drop 0 (bytes f))) 0 0 = (21 \<le> length recs, 192 * min (length recs) 21)"
    using scan_first_block[OF recs block, of 0] fits large by simp
  then have first: "scan_records 0 4096 (take 4096 (drop 0 (bytes f))) 0 (fl_write_offset l1) =
      (21 \<le> length recs, 192 * min (length recs) 21)" by (simp add: l1_def)
  obtain f1 l2 where f1: "bytes f1 = bytes f" and w2: "fl_write_offset l2 = 192 * min (length recs) 21"
    and step1: "scan_blocks api extent 0 True (l1, f) = scan_blocks api extent 4096 (21 \<le> length recs) (l2, f1)"
    by (rule scan_full_block[OF api len _ first]) (use large in auto)
  have len1: "extent = length (bytes f1)" using len f1 by simp
  obtain l' f2 v where last: "scan_blocks api extent 0 True (l1, f) = scan_blocks api extent v False (l', f2)"
      "fl_write_offset l' = 192 * min (length recs) 21" "bytes f2 = bytes f"
  proof (cases "21 \<le> length recs")
    case False
    then show ?thesis using that step1 w2 f1 by metis
  next
    case True
    have second: "scan_records 4096 4096 (take 4096 (drop 4096 (bytes f1))) 0 w = (False, w)" for w
    proof -
      have "erased (take 192 (drop 4096 (bytes f1))) \<or> \<not> log_validate (take 192 (drop 4096 (bytes f1)))"
      proof (cases "22 \<le> length recs")
        case True
        have "take 4 (take 192 (drop 4096 (bytes f1))) = take 4 (drop 64 (recs ! 21))"
          unfolding f1 b using drop_record_stream[of recs] recs True by (simp del: drop_append take_append)
        then show ?thesis using no_magic[OF True] by (simp add: log_validate_def)
      next
        case False
        then have "length (concat recs) = 4032" using True recs length_records[of recs log_validate] by simp
        then show ?thesis unfolding f1 b by (simp add: erased_def list_all_iff)
      qed
      then show ?thesis by (subst scan_records.simps) (simp add: kSerializedRecordBytes_def min_def)
    qed
    obtain l3 f3 where "bytes f3 = bytes f1" "fl_write_offset l3 = fl_write_offset l2"
        "scan_blocks api extent 4096 True (l2, f1) = scan_blocks api extent (4096 + 4096) False (l3, f3)"
      by (rule scan_full_block[OF api len1 _ second]) (use large in auto)
    then show ?thesis using that step1 True w2 f1 by metis
  qed
  have len2: "extent = length (bytes f2)" using len last(3) by simp
  obtain l f' where r: "scan_blocks api extent 0 True (l1, f) = (EC_ok, l, f')" "bytes f' = bytes f"
      "fl_partition l = fl_partition l1"
      "fl_has_data l = (fl_has_data l1 \<or> list_ex (\<lambda>b. b \<noteq> 0xFF) (drop 0 (bytes f)))"
    using scan_result[OF api len, of 0 True l1] by blast
  have "fl_write_offset l = fl_write_offset l'"
    using scan_result[OF api len2, of v False l'] r(1) last(1) by auto
  then show ?thesis using that open1 r last(2) by (simp add: l1_def)
qed

section \<open>A partition in memory\<close>

definition ram_partition :: "u8 list partition_api" where
  "ram_partition = \<lparr>pa_find_first = (\<lambda>f. Some (length f)),
     pa_read = (\<lambda>off n f. if off + n \<le> length f then (EC_ok, take n (drop off f), f) else (EC_invalid_size, [], f)),
     pa_write = (\<lambda>off d f. if off + length d \<le> length f
        then (EC_ok, take off f @ map2 (AND) (take (length d) (drop off f)) d @ drop (off + length d) f)
        else (EC_invalid_size, f)),
     pa_erase_range = (\<lambda>off n f. if off + n \<le> length f
        then (EC_ok, take off f @ replicate n 0xFF @ drop (off + n) f) else (EC_invalid_size, f))\<rparr>"

lemma ram_reliable: "reliable_partition ram_partition id"
  unfolding reliable_partition_def nor_partition_def find_law_def read_law_def write_law_def erase_law_def
  by (auto simp: ram_partition_def)

section \<open>Properties\<close>


definition sample_record :: "u8 list" where "sample_record = serialize metadata_init sample_init"

lemma sample_record_valid: "log_validate sample_record" "length sample_record = 192"
  by (simp_all add: sample_record_def serialize_valid)


text \<open>\<open>openExisting\<close> on a log of \<open>n\<close> records reads the whole partition and sets \<open>hasData\<close>
  exactly when some byte is not erased, but it finds the end of the log only up to the first 4096-byte
  block: its record scan restarts at the start of every block, and 4096 is not a multiple of 192. Of
  22 or more records it recovers 21, 4032 bytes, unless byte 64 of the 22nd record spells the magic;
  \<open>read\<close> then hides the rest and the next \<open>append\<close> is written over record 22.\<close>

theorem flash_reopen_truncates:
  assumes "reliable_partition api bytes" "pa_find_first api f = Some extent" "kMinimumFlightLogBytes \<le> extent"
    and "flash_holds bytes extent recs (l0, f)"
    and "22 \<le> length recs \<Longrightarrow> take 4 (drop 64 (recs ! 21)) \<noteq> kMagic"
  shows "\<exists>l g. flash_openExisting api (flash_log_init, f) = (EC_ok, l, g) \<and>
     flash_size l = 192 * min (length recs) 21 \<and>
     flash_hasData l = list_ex (\<lambda>b. b \<noteq> 0xFF) (bytes f) \<and> bytes g = bytes f"
proof -
  obtain l f' where "flash_openExisting api (flash_log_init, f) = (EC_ok, l, f')" "bytes f' = bytes f"
    "fl_write_offset l = 192 * min (length recs) 21"
    "fl_has_data l = list_ex (\<lambda>b. b \<noteq> 0xFF) (bytes f)"
    using reopen_scan[OF assms(1,4,2,3) assms(5)] .
  then show ?thesis by (simp add: flash_size_def flash_hasData_def)
qed

theorem flash_reopen_truncates_witness:
  "\<exists>l g. flash_openExisting ram_partition
       (flash_log_init, concat (replicate 100 sample_record) @ replicate 2077952 0xFF) = (EC_ok, l, g) \<and>
     flash_size l = 4032"
proof -
  let ?f = "concat (replicate 100 sample_record) @ replicate 2077952 0xFF"
  let ?l = "\<lparr>fl_partition = Some 2097152, fl_write_offset = 19200, fl_has_data = True\<rparr>"
  have len: "length (concat (replicate n sample_record)) = 192 * n" for n
    by (induction n) (simp_all add: sample_record_valid)
  have found: "pa_find_first ram_partition ?f = Some 2097152" by (simp add: ram_partition_def len)
  have big: "kMinimumFlightLogBytes \<le> 2097152" by (simp add: kMinimumFlightLogBytes_def)
  have holds: "flash_holds id 2097152 (replicate 100 sample_record) (?l, ?f)"
    using sample_record_valid by simp
  have tick: "take 4 (drop 64 sample_record) \<noteq> kMagic"
    unfolding sample_record_def serialize_concat record_body_def
    by (simp add: sample_init_def le_def byte_at_def upt_conv_Cons kMagic_def)
  show ?thesis
    using flash_reopen_truncates[OF ram_reliable found big holds] tick by simp blast
qed

end
