(* ===== verification/Sd_Log.thy ===== *)
theory Sd_Log
  imports Flight_Storage
begin

text \<open>
  \<open>SdFlightLog\<close> of \<open>src/runtime/flight_storage.{hpp,cpp}\<close>: the staging ring between the logging task
  and the writer task, the writer's batches, reading back, and the export of the raw flash. The SD
  driver, the VFS and the kernel objects are the parameters \<open>sd_api\<close> and \<open>raw_api\<close> over a state
  \<open>'d\<close>. A loop that retries on \<open>EINTR\<close> may run forever, so the operations that contain it return
  \<open>option\<close>. \<open>requestWriterFlush\<close> blocks until the writer has acknowledged, so it contains the
  writer's iteration. The staging memory starts with zero bytes here; \<open>heap_caps_malloc\<close> leaves it
  unset, and no slot is read before it is written. The two 64-bit indices are natural numbers.
\<close>

section \<open>The SD card and the file\<close>

datatype io = IO_bytes nat | IO_eintr | IO_error

datatype open_result = Opened | Open_enoent | Open_failed

record 'd sd_api =
  sa_mount :: "'d \<Rightarrow> esp_code \<times> 'd"
  sa_unmount :: "'d \<Rightarrow> 'd"
  sa_largest_free_block :: "'d \<Rightarrow> nat"
  sa_malloc :: "nat \<Rightarrow> 'd \<Rightarrow> bool \<times> 'd"
  sa_free :: "'d \<Rightarrow> 'd"
  sa_open_truncated :: "'d \<Rightarrow> bool \<times> 'd"
  sa_open_existing :: "'d \<Rightarrow> open_result \<times> 'd"
  sa_fstat_size :: "'d \<Rightarrow> int option"
  sa_lseek_cur :: "'d \<Rightarrow> int \<times> 'd"
  sa_lseek_set :: "nat \<Rightarrow> 'd \<Rightarrow> bool \<times> 'd"
  sa_lseek_end :: "'d \<Rightarrow> bool \<times> 'd"
  sa_write :: "u8 list \<Rightarrow> 'd \<Rightarrow> io \<times> 'd"
  sa_read :: "nat \<Rightarrow> 'd \<Rightarrow> io \<times> u8 list \<times> 'd"
  sa_ftruncate :: "nat \<Rightarrow> 'd \<Rightarrow> 'd"
  sa_fsync :: "'d \<Rightarrow> bool \<times> 'd"
  sa_close :: "'d \<Rightarrow> 'd"
  sa_create_semaphores :: "'d \<Rightarrow> bool \<times> bool \<times> 'd"
  sa_create_writer :: "'d \<Rightarrow> bool \<times> 'd"

section \<open>State\<close>

record sd_log =
  sd_mounted :: bool
  sd_open :: bool
  sd_writable :: bool
  sd_file_size :: nat
  sd_stage :: "u8 list list option"
  sd_staging_bytes :: nat
  sd_capacity_records :: nat
  sd_write_index :: nat
  sd_read_index :: nat
  sd_high_water :: nat
  sd_writer :: bool
  sd_flush_ack :: bool
  sd_stop_ack :: bool
  sd_flush_requested :: bool
  sd_stop_requested :: bool
  sd_writer_error :: esp_code
  sd_flush_result :: esp_code

definition sd_init :: sd_log where
  "sd_init = \<lparr>sd_mounted = False, sd_open = False, sd_writable = False, sd_file_size = 0, sd_stage = None,
     sd_staging_bytes = 0, sd_capacity_records = 0, sd_write_index = 0, sd_read_index = 0,
     sd_high_water = 0, sd_writer = False, sd_flush_ack = False, sd_stop_ack = False,
     sd_flush_requested = False, sd_stop_requested = False, sd_writer_error = EC_ok, sd_flush_result = EC_ok\<rparr>"

definition kWriteBatchTargetBytes :: nat where "kWriteBatchTargetBytes = 8192"
definition kWriteBatchRecords :: nat where "kWriteBatchRecords = kWriteBatchTargetBytes div kSerializedRecordBytes"
definition kWriteBatchBytes :: nat where "kWriteBatchBytes = kSerializedRecordBytes * kWriteBatchRecords"
definition kPsramReserveBytes :: nat where "kPsramReserveBytes = 512 * 1024"
definition kMaxPsramStagingBytes :: nat where "kMaxPsramStagingBytes = 8 * 1024 * 1024"
definition uint32_max :: nat where "uint32_max = 2 ^ 32 - 1"

section \<open>Mounting, staging memory and writer task\<close>

definition sd_mount :: "'d sd_api \<Rightarrow> sd_log \<times> 'd \<Rightarrow> esp_code \<times> sd_log \<times> 'd" where
  "sd_mount api = (\<lambda>(l, d).
     if sd_mounted l then (EC_ok, l, d)
     else case sa_mount api d of (e, d) \<Rightarrow> (e, l\<lparr>sd_mounted := (e = EC_ok)\<rparr>, d))"

text \<open>The attempts left, and the bytes of the block that was allocated.\<close>

fun allocate_attempts :: "'d sd_api \<Rightarrow> nat \<Rightarrow> 'd \<Rightarrow> nat option \<times> 'd" where
  "allocate_attempts api 0 d = (None, d)"
| "allocate_attempts api (Suc k) d =
     (let largest = sa_largest_free_block api d in
      if largest \<le> kPsramReserveBytes + kWriteBatchBytes then (None, d)
      else let target = min kMaxPsramStagingBytes (largest - kPsramReserveBytes);
               target = target - target mod kSerializedRecordBytes in
      if target < kWriteBatchBytes then (None, d)
      else case sa_malloc api target d of (got, d) \<Rightarrow>
        if got then (Some target, d) else allocate_attempts api k d)"

definition allocateStaging :: "'d sd_api \<Rightarrow> sd_log \<times> 'd \<Rightarrow> esp_code \<times> sd_log \<times> 'd" where
  "allocateStaging api = (\<lambda>(l, d).
     if sd_stage l \<noteq> None then (EC_ok, l, d)
     else case allocate_attempts api 3 d of
       (None, d) \<Rightarrow> (EC_no_mem, l, d)
     | (Some allocated, d) \<Rightarrow>
         let records = allocated div kSerializedRecordBytes in
         (EC_ok, l\<lparr>sd_stage := Some (replicate records (replicate kSerializedRecordBytes 0)),
            sd_staging_bytes := allocated, sd_capacity_records := records,
            sd_write_index := 0, sd_read_index := 0, sd_high_water := 0\<rparr>, d))"

definition releaseStaging :: "'d sd_api \<Rightarrow> sd_log \<times> 'd \<Rightarrow> sd_log \<times> 'd" where
  "releaseStaging api = (\<lambda>(l, d).
     (l\<lparr>sd_stage := None, sd_staging_bytes := 0, sd_capacity_records := 0,
        sd_write_index := 0, sd_read_index := 0, sd_high_water := 0\<rparr>,
      if sd_stage l \<noteq> None then sa_free api d else d))"

definition startWriter :: "'d sd_api \<Rightarrow> sd_log \<times> 'd \<Rightarrow> esp_code \<times> sd_log \<times> 'd" where
  "startWriter api = (\<lambda>(l, d).
     if sd_writer l \<or> \<not> sd_open l \<or> sd_stage l = None \<or> sd_capacity_records l = 0
     then (EC_invalid_state, l, d)
     else case sa_create_semaphores api d of (flush_ack, stop_ack, d) \<Rightarrow>
       let l = l\<lparr>sd_flush_ack := flush_ack, sd_stop_ack := stop_ack\<rparr> in
       if \<not> flush_ack \<or> \<not> stop_ack then (EC_no_mem, l, d)
       else let l = l\<lparr>sd_flush_requested := False, sd_stop_requested := False,
                      sd_writer_error := EC_ok, sd_flush_result := EC_ok\<rparr> in
       case sa_create_writer api d of (created, d) \<Rightarrow>
         (if created then EC_ok else EC_no_mem, l\<lparr>sd_writer := created\<rparr>, d))"

text \<open>The writer ends after the iteration in which it sees the request.\<close>

definition stopWriter :: "sd_log \<Rightarrow> sd_log" where
  "stopWriter l = (if \<not> sd_writer l then l else l\<lparr>sd_stop_requested := True, sd_writer := False\<rparr>)"

section \<open>The writer\<close>

partial_function (option) write_loop :: "'d sd_api \<Rightarrow> u8 list \<Rightarrow> nat \<Rightarrow> 'd \<Rightarrow> (bool \<times> 'd) option" where
  [code]: "write_loop api batch offset d =
     (if offset < length batch then
        (case sa_write api (drop offset batch) d of
           (IO_bytes n, d) \<Rightarrow> if 0 < n then write_loop api batch (offset + n) d else Some (False, d)
         | (IO_eintr, d) \<Rightarrow> write_loop api batch offset d
         | (IO_error, d) \<Rightarrow> Some (False, d))
      else Some (True, d))"

definition writeBatch ::
    "'d sd_api \<Rightarrow> u8 list list \<Rightarrow> sd_log \<times> 'd \<Rightarrow> (esp_code \<times> sd_log \<times> 'd) option" where
  "writeBatch api records = (\<lambda>(l, d).
     let record_count = length records; byte_count = record_count * kSerializedRecordBytes in
     if \<not> sd_open l \<or> record_count = 0 \<or> kWriteBatchRecords < record_count then Some (EC_invalid_arg, l, d)
     else if uint32_max - sd_file_size l < byte_count then Some (EC_invalid_size, l, d)
     else case sa_lseek_cur api d of (batch_start, d) \<Rightarrow>
     if batch_start < 0 then Some (EC_fail, l, d)
     else case write_loop api (concat records) 0 d of
       None \<Rightarrow> None
     | Some (True, d) \<Rightarrow> Some (EC_ok, l\<lparr>sd_file_size := sd_file_size l + byte_count\<rparr>, d)
     | Some (False, d) \<Rightarrow>
         Some (EC_fail, l, snd (sa_lseek_set api (nat batch_start) (sa_ftruncate api (nat batch_start) d))))"

definition drainOneBatch ::
    "'d sd_api \<Rightarrow> bool \<Rightarrow> sd_log \<times> 'd \<Rightarrow> (bool \<times> sd_log \<times> 'd) option" where
  "drainOneBatch api flush_partial = (\<lambda>(l, d).
     case sd_stage l of
       None \<Rightarrow> Some (False, l, d)
     | Some stage \<Rightarrow>
       if sd_capacity_records l = 0 then Some (False, l, d)
       else if sd_write_index l < sd_read_index l
       then Some (False, l\<lparr>sd_writer_error := EC_invalid_state\<rparr>, d)
       else let available = sd_write_index l - sd_read_index l in
       if available = 0 \<or> \<not> flush_partial \<and> available < kWriteBatchRecords then Some (False, l, d)
       else let record_count = min available kWriteBatchRecords;
                records = map (\<lambda>i. stage ! ((sd_read_index l + i) mod sd_capacity_records l)) [0..<record_count] in
       case writeBatch api records (l, d) of
         None \<Rightarrow> None
       | Some (e, l, d) \<Rightarrow>
           if e \<noteq> EC_ok then Some (False, l\<lparr>sd_writer_error := e\<rparr>, d)
           else Some (True, l\<lparr>sd_read_index := sd_read_index l + record_count\<rparr>, d))"

partial_function (option) drain_loop :: "'d sd_api \<Rightarrow> bool \<Rightarrow> sd_log \<times> 'd \<Rightarrow> (sd_log \<times> 'd) option" where
  [code]: "drain_loop api flush s =
     (case drainOneBatch api flush s of
        None \<Rightarrow> None
      | Some (again, s) \<Rightarrow> if again then drain_loop api flush s else Some s)"

text \<open>One turn of \<open>writerTaskLoop\<close>, without its wait.\<close>

definition writer_iteration :: "'d sd_api \<Rightarrow> sd_log \<times> 'd \<Rightarrow> (sd_log \<times> 'd) option" where
  "writer_iteration api = (\<lambda>(l, d).
     let flush = sd_flush_requested l in
     case (if sd_writer_error l = EC_ok then drain_loop api flush (l, d) else Some (l, d)) of
       None \<Rightarrow> None
     | Some (l, d) \<Rightarrow>
         if \<not> flush then Some (l, d)
         else case (if sd_writer_error l = EC_ok
                    then (case sa_fsync api d of (ok, d) \<Rightarrow> (if ok then EC_ok else EC_fail, d))
                    else (sd_writer_error l, d)) of (result, d) \<Rightarrow>
           Some (l\<lparr>sd_writer_error := (if result \<noteq> EC_ok then result else sd_writer_error l),
                   sd_flush_result := result, sd_flush_requested := False\<rparr>, d))"

section \<open>The interface of the log\<close>

definition requestWriterFlush :: "'d sd_api \<Rightarrow> sd_log \<times> 'd \<Rightarrow> (esp_code \<times> sd_log \<times> 'd) option" where
  "requestWriterFlush api = (\<lambda>(l, d).
     if \<not> sd_writer l \<or> \<not> sd_flush_ack l then Some (EC_invalid_state, l, d)
     else if sd_flush_requested l then Some (EC_invalid_state, l, d)
     else case writer_iteration api (l\<lparr>sd_flush_requested := True\<rparr>, d) of
       None \<Rightarrow> None
     | Some (l, d) \<Rightarrow> Some (sd_flush_result l, l, d))"

definition sd_flush :: "'d sd_api \<Rightarrow> sd_log \<times> 'd \<Rightarrow> (esp_code \<times> sd_log \<times> 'd) option" where
  "sd_flush api = (\<lambda>(l, d).
     if \<not> sd_open l then Some (EC_invalid_state, l, d)
     else if \<not> sd_writable l then Some (EC_ok, l, d)
     else requestWriterFlush api (l, d))"

definition sd_close :: "'d sd_api \<Rightarrow> sd_log \<times> 'd \<Rightarrow> (sd_log \<times> 'd) option" where
  "sd_close api = (\<lambda>(l, d).
     case (if sd_open l \<and> sd_writable l then map_option snd (sd_flush api (l, d)) else Some (l, d)) of
       None \<Rightarrow> None
     | Some (l, d) \<Rightarrow>
         let l = stopWriter l;
             d = (if sd_open l then sa_close api d else d);
             l = l\<lparr>sd_open := False, sd_writable := False, sd_file_size := 0\<rparr> in
         case releaseStaging api (l, d) of (l, d) \<Rightarrow>
         Some (if sd_mounted l then (l\<lparr>sd_mounted := False\<rparr>, sa_unmount api d) else (l, d)))"

definition sd_closed_with :: "'d sd_api \<Rightarrow> esp_code \<Rightarrow> sd_log \<times> 'd \<Rightarrow> (esp_code \<times> sd_log \<times> 'd) option" where
  "sd_closed_with api e s = map_option (Pair e) (sd_close api s)"

definition sd_prepareForFlight :: "'d sd_api \<Rightarrow> sd_log \<times> 'd \<Rightarrow> (esp_code \<times> sd_log \<times> 'd) option" where
  "sd_prepareForFlight api s =
     (case sd_mount api s of (e, l, d) \<Rightarrow>
      if e \<noteq> EC_ok then Some (e, l, d)
      else if sd_open l then Some (EC_invalid_state, l, d)
      else case allocateStaging api (l, d) of (e, l, d) \<Rightarrow>
      if e \<noteq> EC_ok then sd_closed_with api e (l, d)
      else case sa_open_truncated api d of (opened, d) \<Rightarrow>
      let l = l\<lparr>sd_open := opened\<rparr> in
      if \<not> opened then sd_closed_with api EC_fail (l, d)
      else case startWriter api (l\<lparr>sd_file_size := 0\<rparr>, d) of (e, l, d) \<Rightarrow>
      if e \<noteq> EC_ok then sd_closed_with api e (l, d)
      else Some (EC_ok, l\<lparr>sd_writable := True\<rparr>, d))"

definition sd_openExisting :: "'d sd_api \<Rightarrow> sd_log \<times> 'd \<Rightarrow> (esp_code \<times> sd_log \<times> 'd) option" where
  "sd_openExisting api s =
     (case sd_mount api s of (e, l, d) \<Rightarrow>
      if e \<noteq> EC_ok then Some (e, l, d)
      else if sd_open l then Some (EC_invalid_state, l, d)
      else case sa_open_existing api d of (r, d) \<Rightarrow>
      if r \<noteq> Opened
      then sd_closed_with api (if r = Open_enoent then EC_not_found else EC_fail) (l, d)
      else let l = l\<lparr>sd_open := True\<rparr> in
      case sa_fstat_size api d of
        None \<Rightarrow> sd_closed_with api EC_invalid_size (l, d)
      | Some st_size \<Rightarrow>
          if st_size < 0 \<or> int uint32_max < st_size then sd_closed_with api EC_invalid_size (l, d)
          else Some (EC_ok, l\<lparr>sd_file_size := nat st_size, sd_writable := False\<rparr>, d))"

definition sd_append :: "u8 list \<Rightarrow> sd_log \<Rightarrow> esp_code \<times> sd_log" where
  "sd_append r l =
     (case sd_stage l of
        None \<Rightarrow> (EC_invalid_state, l)
      | Some stage \<Rightarrow>
        if \<not> sd_open l \<or> \<not> sd_writable l \<or> \<not> sd_writer l \<or> sd_capacity_records l = 0 then (EC_invalid_state, l)
        else if sd_writer_error l \<noteq> EC_ok then (sd_writer_error l, l)
        else if \<not> log_validate r then (EC_invalid_crc, l)
        else if sd_write_index l < sd_read_index l then (EC_invalid_state, l)
        else let occupancy = sd_write_index l - sd_read_index l in
        if sd_capacity_records l \<le> occupancy then (EC_no_mem, l)
        else (EC_ok, l\<lparr>sd_stage := Some (stage[sd_write_index l mod sd_capacity_records l := r]),
                sd_write_index := sd_write_index l + 1,
                sd_high_water := max (sd_high_water l) (min (occupancy + 1) uint32_max)\<rparr>))"

partial_function (option) read_loop ::
    "'d sd_api \<Rightarrow> nat \<Rightarrow> u8 list \<Rightarrow> 'd \<Rightarrow> (u8 list option \<times> 'd) option" where
  [code]: "read_loop api wanted got d =
     (if length got < wanted then
        (case sa_read api (wanted - length got) d of
           (IO_bytes n, bytes, d) \<Rightarrow>
             if 0 < n then read_loop api wanted (got @ take n bytes) d else Some (None, d)
         | (IO_eintr, _, d) \<Rightarrow> read_loop api wanted got d
         | (IO_error, _, d) \<Rightarrow> Some (None, d))
      else Some (Some got, d))"

text \<open>The code, the bytes that were read, and the log; the destination is not null in the callers.\<close>

definition sd_read ::
    "'d sd_api \<Rightarrow> nat \<Rightarrow> nat \<Rightarrow> sd_log \<times> 'd \<Rightarrow> (esp_code \<times> u8 list \<times> sd_log \<times> 'd) option" where
  "sd_read api offset requested = (\<lambda>(l, d).
     if \<not> sd_open l then Some (EC_invalid_state, [], l, d)
     else case (if sd_writable l then sd_flush api (l, d) else Some (EC_ok, l, d)) of
       None \<Rightarrow> None
     | Some (e, l, d) \<Rightarrow>
         if e \<noteq> EC_ok then Some (e, [], l, d)
         else if sd_file_size l \<le> offset \<or> requested = 0 then Some (EC_ok, [], l, d)
         else let wanted = min requested (sd_file_size l - offset) in
         case sa_lseek_set api offset d of (ok, d) \<Rightarrow>
         if \<not> ok then Some (EC_fail, [], l, d)
         else case read_loop api wanted [] d of
           None \<Rightarrow> None
         | Some (None, d) \<Rightarrow> Some (EC_fail, [], l, if sd_writable l then snd (sa_lseek_end api d) else d)
         | Some (Some got, d) \<Rightarrow>
             if sd_writable l
             then (case sa_lseek_end api d of (ok, d) \<Rightarrow>
                     Some (if ok then (EC_ok, got, l, d) else (EC_fail, [], l, d)))
             else Some (EC_ok, got, l, d))"

section \<open>Export of the raw flash\<close>

text \<open>The calls on \<open>avi_99l_flash_raw.bin\<close>: the stream functions report success, the count that was
  written, the position, or the bytes that were read.\<close>

record 'd raw_api =
  ra_fopen :: "'d \<Rightarrow> bool \<times> 'd"
  ra_fwrite :: "u8 list \<Rightarrow> 'd \<Rightarrow> nat \<times> 'd"
  ra_fflush :: "'d \<Rightarrow> bool \<times> 'd"
  ra_fsync :: "'d \<Rightarrow> bool \<times> 'd"
  ra_fseek_end :: "'d \<Rightarrow> bool \<times> 'd"
  ra_fseek_set :: "'d \<Rightarrow> bool \<times> 'd"
  ra_ftell :: "'d \<Rightarrow> int"
  ra_fread :: "nat \<Rightarrow> 'd \<Rightarrow> u8 list \<times> 'd"
  ra_fclose :: "'d \<Rightarrow> bool \<times> 'd"

definition kCopyBytes :: nat where "kCopyBytes = 4096"

text \<open>\<open>None\<close> when the loop has run to its end, else the result of its early return.\<close>

function copy_loop ::
    "'f partition_api \<Rightarrow> 'd raw_api \<Rightarrow> flash_log \<Rightarrow> nat \<Rightarrow> 'f \<times> 'd \<Rightarrow> esp_code option \<times> 'f \<times> 'd" where
  "copy_loop papi rapi fl offset (f, d) =
     (if offset < flash_capacity fl then
        let requested = min kCopyBytes (flash_capacity fl - offset) in
        case flash_readRaw papi offset requested (fl, f) of (e, bytes, f) \<Rightarrow>
        if e \<noteq> EC_ok \<or> length bytes \<noteq> requested then (Some (if e = EC_ok then EC_fail else e), f, d)
        else case ra_fwrite rapi bytes d of (n, d) \<Rightarrow>
        if n \<noteq> length bytes then (Some EC_fail, f, d)
        else copy_loop papi rapi fl (offset + requested) (f, d)
      else (None, f, d))"
  by pat_completeness auto
termination
  by (relation "measure (\<lambda>(_, _, fl, offset, _). flash_capacity fl - offset)") (auto simp: kCopyBytes_def)

declare copy_loop.simps [simp del]

function verify_loop ::
    "'f partition_api \<Rightarrow> 'd raw_api \<Rightarrow> flash_log \<Rightarrow> nat \<Rightarrow> 'f \<times> 'd \<Rightarrow> esp_code option \<times> 'f \<times> 'd" where
  "verify_loop papi rapi fl offset (f, d) =
     (if offset < flash_capacity fl then
        let requested = min kCopyBytes (flash_capacity fl - offset) in
        case ra_fread rapi requested d of (sd_bytes, d) \<Rightarrow>
        if length sd_bytes \<noteq> requested then (Some EC_fail, f, d)
        else case flash_readRaw papi offset requested (fl, f) of (e, bytes, f) \<Rightarrow>
        if e \<noteq> EC_ok \<or> length bytes \<noteq> requested then (Some (if e = EC_ok then EC_fail else e), f, d)
        else if sd_bytes \<noteq> bytes then (Some EC_invalid_crc, f, d)
        else verify_loop papi rapi fl (offset + requested) (f, d)
      else (None, f, d))"
  by pat_completeness auto
termination
  by (relation "measure (\<lambda>(_, _, fl, offset, _). flash_capacity fl - offset)") (auto simp: kCopyBytes_def)

declare verify_loop.simps [simp del]

definition closeWith :: "'d raw_api \<Rightarrow> esp_code \<Rightarrow> 'd \<Rightarrow> esp_code \<times> 'd" where
  "closeWith rapi result d =
     (case ra_fclose rapi d of (ok, d) \<Rightarrow> (if \<not> ok \<and> result = EC_ok then EC_fail else result, d))"

text \<open>From the opened file to the erasure.\<close>

definition export_opened ::
    "'f partition_api \<Rightarrow> 'd raw_api \<Rightarrow> flash_log \<times> 'f \<times> 'd \<Rightarrow> esp_code \<times> flash_log \<times> 'f \<times> 'd" where
  "export_opened papi rapi = (\<lambda>(fl, f, d).
     let stop = (\<lambda>e f d. case closeWith rapi e d of (e, d) \<Rightarrow> (e, fl, f, d)) in
     case copy_loop papi rapi fl 0 (f, d) of (r, f, d) \<Rightarrow>
     if r \<noteq> None then stop (the r) f d
     else case ra_fflush rapi d of (ok, d) \<Rightarrow>
     if \<not> ok then stop EC_fail f d
     else case ra_fsync rapi d of (ok, d) \<Rightarrow>
     if \<not> ok then stop EC_fail f d
     else case ra_fseek_end rapi d of (ok, d) \<Rightarrow>
     if \<not> ok then stop EC_fail f d
     else if ra_ftell rapi d < 0 \<or> nat (ra_ftell rapi d mod 2 ^ 32) \<noteq> flash_capacity fl
     then stop EC_invalid_size f d
     else case ra_fseek_set rapi d of (ok, d) \<Rightarrow>
     if \<not> ok then stop EC_fail f d
     else case verify_loop papi rapi fl 0 (f, d) of (r, f, d) \<Rightarrow>
     if r \<noteq> None then stop (the r) f d
     else case ra_fclose rapi d of (ok, d) \<Rightarrow>
     if \<not> ok then (EC_fail, fl, f, d)
     else case flash_erase papi (fl, f) of (e, fl, f) \<Rightarrow> (e, fl, f, d))"

definition exportRawFlashAndErase ::
    "'d sd_api \<Rightarrow> 'f partition_api \<Rightarrow> 'd raw_api \<Rightarrow> sd_log \<Rightarrow> flash_log \<times> 'f \<times> 'd \<Rightarrow>
       (esp_code \<times> sd_log \<times> flash_log \<times> 'f \<times> 'd) option" where
  "exportRawFlashAndErase api papi rapi l = (\<lambda>(fl, f, d).
     if \<not> sd_mounted l \<or> \<not> flash_ready fl \<or> flash_capacity fl = 0 then Some (EC_invalid_state, l, fl, f, d)
     else case (if sd_writable l then sd_flush api (l, d) else Some (EC_ok, l, d)) of
       None \<Rightarrow> None
     | Some (e, l, d) \<Rightarrow>
         if e \<noteq> EC_ok then Some (EC_fail, l, fl, f, d)
         else case ra_fopen rapi d of (ok, d) \<Rightarrow>
         if \<not> ok then Some (EC_fail, l, fl, f, d)
         else case export_opened papi rapi (fl, f, d) of (e, fl, f, d) \<Rightarrow> Some (e, l, fl, f, d))"

section \<open>Every batch loop returns\<close>

text \<open>A bound on consecutive interruptions: some rank of the card's state falls at every call that
  reports \<open>EINTR\<close>.\<close>

definition interrupts_end :: "'d sd_api \<Rightarrow> ('d \<Rightarrow> nat) \<Rightarrow> bool" where
  "interrupts_end api rank =
     ((\<forall>d bytes d'. sa_write api bytes d = (IO_eintr, d') \<longrightarrow> rank d' < rank d) \<and>
      (\<forall>d n bytes d'. sa_read api n d = (IO_eintr, bytes, d') \<longrightarrow> rank d' < rank d))"

lemma write_loop_returns:
  assumes "interrupts_end api rank"
  shows "write_loop api batch offset d \<noteq> None"
proof (induction "(length batch - offset, d)" arbitrary: offset d
    rule: wf_induct_rule[OF wf_lex_prod[OF wf_less wf_measure[of rank]]])
  case (1 offset d)
  show ?case
  proof (cases "offset < length batch")
    case True
    obtain r d' where w: "sa_write api (drop offset batch) d = (r, d')" by fastforce
    have fall: "rank d' < rank d" if "r = IO_eintr" using assms w that unfolding interrupts_end_def by blast
    have step: "write_loop api batch (offset + n) d' \<noteq> None" if "0 < n" for n
      by (rule 1) (use that True in auto)
    have retry: "write_loop api batch offset d' \<noteq> None" if "r = IO_eintr"
      by (rule 1) (use fall[OF that] in auto)
    show ?thesis using True w step retry by (subst write_loop.simps) (auto split: io.split)
  next
    case False
    then show ?thesis by (subst write_loop.simps) simp
  qed
qed

lemma writeBatch_returns: "interrupts_end api rank \<Longrightarrow> writeBatch api records s \<noteq> None"
  using write_loop_returns[of api rank "concat records" 0]
  by (auto simp: writeBatch_def Let_def split: prod.splits option.splits bool.splits simp del: not_None_eq)

lemma writeBatch_frame:
  "writeBatch api records (l, d) = Some (e, l', d') \<Longrightarrow> \<exists>n. l' = l\<lparr>sd_file_size := n\<rparr>"
  by (auto simp: writeBatch_def Let_def split: prod.splits option.splits if_splits bool.splits intro: exI[of _ "sd_file_size l"] simp del: not_None_eq)

lemma drainOneBatch_returns: "interrupts_end api rank \<Longrightarrow> drainOneBatch api flush s \<noteq> None"
  using writeBatch_returns[of api rank]
  by (auto simp: drainOneBatch_def Let_def split: prod.splits option.splits simp del: not_None_eq)

text \<open>A batch that was written makes the backlog shorter.\<close>

lemma drainOneBatch_progress:
  "drainOneBatch api flush (l, d) = Some (True, l', d') \<Longrightarrow>
     sd_write_index l' - sd_read_index l' < sd_write_index l - sd_read_index l"
  by (auto simp: drainOneBatch_def Let_def kWriteBatchRecords_def kWriteBatchTargetBytes_def
      kSerializedRecordBytes_def split: prod.splits option.splits if_splits dest!: writeBatch_frame simp del: not_None_eq)

lemma drain_loop_returns:
  assumes api: "interrupts_end api rank"
  shows "drain_loop api flush (l, d) \<noteq> None"
proof (induction "sd_write_index l - sd_read_index l" arbitrary: l d rule: less_induct)
  case less
  obtain again l' d' where step: "drainOneBatch api flush (l, d) = Some (again, l', d')"
    using drainOneBatch_returns[OF api, of flush "(l, d)"] by auto
  moreover have "again \<Longrightarrow> drain_loop api flush (l', d') \<noteq> None"
    using less[of l' d'] drainOneBatch_progress[of api flush l d l' d'] step by simp
  ultimately show ?case by (subst drain_loop.simps) auto
qed

lemma writer_iteration_returns:
  assumes "interrupts_end api rank" shows "writer_iteration api s \<noteq> None"
proof (cases s)
  case (Pair l d)
  then show ?thesis
    using drain_loop_returns[OF assms, of "sd_flush_requested l" l d]
    by (auto simp: writer_iteration_def Let_def split: prod.splits option.splits)
qed

lemma requestWriterFlush_returns: "interrupts_end api rank \<Longrightarrow> requestWriterFlush api s \<noteq> None"
  using writer_iteration_returns[of api rank]
  by (auto simp: requestWriterFlush_def split: prod.splits option.splits simp del: not_None_eq)

lemma read_loop_returns:
  assumes "interrupts_end api rank" and "\<And>n d k bytes d'. sa_read api n d = (IO_bytes k, bytes, d') \<Longrightarrow> length bytes = k"
  shows "read_loop api wanted got d \<noteq> None"
proof (induction "(wanted - length got, d)" arbitrary: got d
    rule: wf_induct_rule[OF wf_lex_prod[OF wf_less wf_measure[of rank]]])
  case (1 got d)
  show ?case
  proof (cases "length got < wanted")
    case True
    obtain r bytes d' where w: "sa_read api (wanted - length got) d = (r, bytes, d')" by (metis prod_cases3)
    have fall: "rank d' < rank d" if "r = IO_eintr" using assms(1) w that unfolding interrupts_end_def by blast
    have step: "read_loop api wanted (got @ take n bytes) d' \<noteq> None" if "0 < n" "r = IO_bytes n" for n
      by (rule 1) (use that True w assms(2) in auto)
    have retry: "read_loop api wanted got d' \<noteq> None" if "r = IO_eintr"
      by (rule 1) (use fall[OF that] in auto)
    show ?thesis using True w step retry by (subst read_loop.simps) (auto split: io.split)
  next
    case False
    then show ?thesis by (subst read_loop.simps) simp
  qed
qed

lemma sd_flush_returns: "interrupts_end api rank \<Longrightarrow> sd_flush api s \<noteq> None"
  using requestWriterFlush_returns[of api rank s]
  by (auto simp: sd_flush_def split: prod.splits simp del: not_None_eq)

lemma sd_close_returns: "interrupts_end api rank \<Longrightarrow> sd_close api s \<noteq> None"
  using sd_flush_returns[of api rank s]
  by (auto simp: sd_close_def Let_def split: prod.splits option.splits simp del: not_None_eq)

lemma sd_read_returns:
  assumes "interrupts_end api rank" and "\<And>n d k bytes d'. sa_read api n d = (IO_bytes k, bytes, d') \<Longrightarrow> length bytes = k"
  shows "sd_read api offset n s \<noteq> None"
  using sd_flush_returns[OF assms(1), of s] read_loop_returns[OF assms]
  by (auto simp: sd_read_def Let_def split: prod.splits option.splits simp del: not_None_eq)

section \<open>The file holds the accepted records in order\<close>

text \<open>Documented behaviour of a regular file that only this log uses: \<open>content\<close> and the position.\<close>

definition file_write_law :: "'d sd_api \<Rightarrow> ('d \<Rightarrow> u8 list) \<Rightarrow> ('d \<Rightarrow> nat) \<Rightarrow> bool" where
  "file_write_law api content pos = (\<forall>d bytes r d'. pos d = length (content d) \<longrightarrow> sa_write api bytes d = (r, d') \<longrightarrow>
     (\<exists>k\<le>length bytes. content d' = content d @ take k bytes \<and> pos d' = pos d + k \<and>
        r \<in> {IO_bytes k, IO_eintr, IO_error} \<and> (r = IO_bytes k \<or> k = 0)))"

definition file_seek_law :: "'d sd_api \<Rightarrow> ('d \<Rightarrow> u8 list) \<Rightarrow> ('d \<Rightarrow> nat) \<Rightarrow> bool" where
  "file_seek_law api content pos = (\<forall>d r ok d'.
     (sa_lseek_cur api d = (r, d') \<longrightarrow> content d' = content d \<and> pos d' = pos d \<and> (0 \<le> r \<longrightarrow> r = int (pos d))) \<and>
     (\<forall>n. sa_lseek_set api n d = (ok, d') \<longrightarrow> content d' = content d \<and> pos d' = n) \<and>
     (sa_lseek_end api d = (ok, d') \<longrightarrow> content d' = content d \<and> pos d' = length (content d)))"

definition file_other_law :: "'d sd_api \<Rightarrow> ('d \<Rightarrow> u8 list) \<Rightarrow> ('d \<Rightarrow> nat) \<Rightarrow> bool" where
  "file_other_law api content pos = (\<forall>d ok d'.
     (\<forall>n. n \<le> length (content d) \<longrightarrow>
        content (sa_ftruncate api n d) = take n (content d) \<and> pos (sa_ftruncate api n d) = pos d) \<and>
     (sa_fsync api d = (ok, d') \<longrightarrow> content d' = content d \<and> pos d' = pos d) \<and>
     (sa_open_truncated api d = (True, d') \<longrightarrow> content d' = [] \<and> pos d' = 0) \<and>
     (\<forall>a b. sa_create_semaphores api d = (a, b, d') \<longrightarrow> content d' = content d \<and> pos d' = pos d) \<and>
     (sa_create_writer api d = (ok, d') \<longrightarrow> content d' = content d \<and> pos d' = pos d))"

definition regular_file :: "'d sd_api \<Rightarrow> ('d \<Rightarrow> u8 list) \<Rightarrow> ('d \<Rightarrow> nat) \<Rightarrow> bool" where
  "regular_file api content pos =
     (file_write_law api content pos \<and> file_seek_law api content pos \<and> file_other_law api content pos)"

lemma write_loop_appends:
  assumes run: "write_loop api batch offset d = Some y" and law: "file_write_law api content pos"
    and start: "pos d = length (content d)"
  shows "\<exists>k. content (snd y) = content d @ take k (drop offset batch) \<and>
           pos (snd y) = length (content (snd y)) \<and> (fst y \<longrightarrow> length batch \<le> offset + k)"
proof -
  let ?P = "\<lambda>api batch offset d y. file_write_law api content pos \<longrightarrow> pos d = length (content d) \<longrightarrow>
     (\<exists>k. content (snd y) = content d @ take k (drop offset batch) \<and>
       pos (snd y) = length (content (snd y)) \<and> (fst y \<longrightarrow> length batch \<le> offset + k))"
  have "?P api batch offset d y"
  proof (rule write_loop.raw_induct[of ?P, OF _ run], intro impI)
    fix wl and api :: "'a sd_api" and batch offset d y
    assume IH: "\<And>batch offset d b y. wl batch offset d b = Some y \<Longrightarrow> ?P batch offset d b y"
      and step: "(if offset < length batch
        then case sa_write api (drop offset batch) d of
             (IO_bytes n, d) \<Rightarrow> if 0 < n then wl api batch (offset + n) d else Some (False, d)
           | (IO_eintr, d) \<Rightarrow> wl api batch offset d
           | (IO_error, d) \<Rightarrow> Some (False, d)
        else Some (True, d)) = Some y"
      and law: "file_write_law api content pos" and start: "pos d = length (content d)"
    show "\<exists>k. content (snd y) = content d @ take k (drop offset batch) \<and>
       pos (snd y) = length (content (snd y)) \<and> (fst y \<longrightarrow> length batch \<le> offset + k)"
    proof (cases "offset < length batch")
      case False
      then show ?thesis using step start by (intro exI[of _ 0]) auto
    next
      case True
      obtain r d1 where w: "sa_write api (drop offset batch) d = (r, d1)" by fastforce
      obtain k where k: "k \<le> length batch - offset" "content d1 = content d @ take k (drop offset batch)"
          "pos d1 = length (content d1)" "r = IO_bytes k \<or> k = 0 \<and> r \<in> {IO_eintr, IO_error}"
        using law w start unfolding file_write_law_def by fastforce
      show ?thesis
      proof (cases "r = IO_error \<or> r = IO_bytes 0")
        case True
        then show ?thesis using step w k \<open>offset < length batch\<close> by (intro exI[of _ 0]) auto
      next
        case False
        then have "wl api batch (offset + k) d1 = Some y" using step w k True by (auto split: if_splits)
        from IH[OF this] obtain k' where "content (snd y) = content d1 @ take k' (drop (offset + k) batch)"
            "pos (snd y) = length (content (snd y))" "fst y \<longrightarrow> length batch \<le> offset + k + k'"
          using law k(3) by blast
        then show ?thesis
          using k(2) by (intro exI[of _ "k + k'"]) (auto simp: take_add add.commute[of offset k])
      qed
    qed
  qed
  then show ?thesis using law start by blast
qed

lemma writeBatch_file:
  assumes law: "regular_file api content pos" and run: "writeBatch api records (l, d) = Some (e, l', d')"
    and start: "pos d = length (content d)" and recs: "\<forall>r\<in>set records. length r = 192"
  shows "pos d' = length (content d') \<and>
     (if e = EC_ok then content d' = content d @ concat records \<and>
        l' = l\<lparr>sd_file_size := sd_file_size l + 192 * length records\<rparr>
      else content d' = content d \<and> l' = l)"
proof -
  obtain r d1 where seek: "sa_lseek_cur api d = (r, d1)" by fastforce
  have d1: "content d1 = content d" "pos d1 = pos d" "0 \<le> r \<Longrightarrow> r = int (pos d)"
    using law seek unfolding regular_file_def file_seek_law_def by blast+
  consider (refused) "e \<noteq> EC_ok" "l' = l" "d' = d \<or> d' = d1"
    | (stopped) d2 where "e = EC_fail" "l' = l" "0 \<le> r" "write_loop api (concat records) 0 d1 = Some (False, d2)"
        "d' = snd (sa_lseek_set api (nat r) (sa_ftruncate api (nat r) d2))"
    | (written) "e = EC_ok" "l' = l\<lparr>sd_file_size := sd_file_size l + 192 * length records\<rparr>"
        "write_loop api (concat records) 0 d1 = Some (True, d')"
    using run seek
    by (auto simp: writeBatch_def Let_def kSerializedRecordBytes_def mult.commute
        split: if_splits option.splits prod.splits bool.splits)
  then show ?thesis
  proof cases
    case refused
    then show ?thesis using d1 start by auto
  next
    case stopped
    obtain k where k: "content d2 = content d1 @ take k (concat records)"
      using write_loop_appends[OF stopped(4), of content pos] law d1 start unfolding regular_file_def by auto
    then have "content (sa_ftruncate api (nat r) d2) = content d"
      using law d1(3)[OF stopped(3)] d1(1) start unfolding regular_file_def file_other_law_def by simp
    then show ?thesis
      using law stopped(1,2,5) d1(3)[OF stopped(3)] start unfolding regular_file_def file_seek_law_def
      by (metis esp_code.distinct(1) nat_int prod.collapse)
  next
    case written
    then show ?thesis
      using write_loop_appends[OF written(3), of content pos] law d1 start unfolding regular_file_def by auto
  qed
qed

text \<open>The accepted records are \<open>acc\<close>: those before the read index are in the file, the others are
  in their slots of the ring.\<close>

definition sd_holds :: "('d \<Rightarrow> u8 list) \<Rightarrow> ('d \<Rightarrow> nat) \<Rightarrow> u8 list list \<Rightarrow> sd_log \<times> 'd \<Rightarrow> bool" where
  "sd_holds content pos acc = (\<lambda>(l, d).
     sd_open l \<and> sd_writable l \<and> 0 < sd_capacity_records l \<and>
     (\<exists>stage. sd_stage l = Some stage \<and> length stage = sd_capacity_records l \<and>
        (\<forall>i. sd_read_index l \<le> i \<longrightarrow> i < sd_write_index l \<longrightarrow>
           stage ! (i mod sd_capacity_records l) = acc ! i)) \<and>
     sd_read_index l \<le> sd_write_index l \<and> sd_write_index l \<le> sd_read_index l + sd_capacity_records l \<and>
     sd_write_index l = length acc \<and> (\<forall>r\<in>set acc. length r = 192) \<and>
     sd_file_size l = 192 * sd_read_index l \<and>
     content d = concat (take (sd_read_index l) acc) \<and> pos d = length (content d))"

lemma slot_apart: "i < w \<Longrightarrow> w < i + cap \<Longrightarrow> i mod cap \<noteq> w mod (cap :: nat)"
proof
  assume w: "i < w" "w < i + cap" "i mod cap = w mod cap"
  then have "cap dvd w - i" by (metis mod_eq_dvd_iff_nat less_imp_le)
  then show False using w by (auto dest: dvd_imp_le)
qed

lemma append_holds:
  assumes holds: "sd_holds content pos acc (l, d)" and r: "length r = 192" and run: "sd_append r l = (e, l')"
  shows "sd_holds content pos (if e = EC_ok then acc @ [r] else acc) (l', d)"
proof (cases "e = EC_ok")
  case False
  then have "l' = l" using run by (auto simp: sd_append_def Let_def split: option.splits if_splits)
  then show ?thesis using holds False by simp
next
  case True
  obtain stage where stage: "sd_stage l = Some stage" "length stage = sd_capacity_records l"
      "\<And>i. sd_read_index l \<le> i \<Longrightarrow> i < sd_write_index l \<Longrightarrow> stage ! (i mod sd_capacity_records l) = acc ! i"
    using holds unfolding sd_holds_def by blast
  have free: "sd_write_index l < sd_read_index l + sd_capacity_records l"
    and l': "l' = l\<lparr>sd_stage := Some (stage[sd_write_index l mod sd_capacity_records l := r]),
       sd_write_index := sd_write_index l + 1,
       sd_high_water := max (sd_high_water l) (min (sd_write_index l - sd_read_index l + 1) uint32_max)\<rparr>"
    using run True stage(1) by (auto simp: sd_append_def Let_def split: if_splits)
  have slots: "stage[sd_write_index l mod sd_capacity_records l := r] ! (i mod sd_capacity_records l) = (acc @ [r]) ! i"
    if i: "sd_read_index l \<le> i" "i < sd_write_index l + 1" for i
  proof (cases "i = sd_write_index l")
    case True
    then show ?thesis using holds stage(2) by (simp add: sd_holds_def)
  next
    case False
    then have "i mod sd_capacity_records l \<noteq> sd_write_index l mod sd_capacity_records l"
      using slot_apart[of i "sd_write_index l"] i free by simp
    then show ?thesis using False i stage(3) holds by (simp add: sd_holds_def nth_append)
  qed
  show ?thesis
    using holds slots free r stage(2) True unfolding l' by (auto simp: sd_holds_def)
qed

lemma drain_holds:
  assumes law: "regular_file api content pos" and holds: "sd_holds content pos acc (l, d)"
    and run: "drainOneBatch api flush (l, d) = Some (again, l', d')"
  shows "sd_holds content pos acc (l', d') \<and>
     (\<not> again \<longrightarrow> flush \<longrightarrow> sd_writer_error l' = EC_ok \<longrightarrow> sd_read_index l' = sd_write_index l') \<and>
     sd_writer l' = sd_writer l"
proof -
  obtain stage where stage: "sd_stage l = Some stage" "length stage = sd_capacity_records l"
      "\<And>i. sd_read_index l \<le> i \<Longrightarrow> i < sd_write_index l \<Longrightarrow> stage ! (i mod sd_capacity_records l) = acc ! i"
    using holds unfolding sd_holds_def by blast
  have state: "0 < sd_capacity_records l" "sd_read_index l \<le> sd_write_index l" "sd_write_index l = length acc"
    "\<forall>r\<in>set acc. length r = 192" "pos d = length (content d)" "sd_file_size l = 192 * sd_read_index l"
    "content d = concat (take (sd_read_index l) acc)"
    using holds by (auto simp: sd_holds_def)
  define n where "n = min (sd_write_index l - sd_read_index l) kWriteBatchRecords"
  define records where "records = map (\<lambda>i. stage ! ((sd_read_index l + i) mod sd_capacity_records l)) [0..<n]"
  have records: "records = take n (drop (sd_read_index l) acc)"
    by (rule nth_equalityI) (use stage(3) state(2,3) in \<open>auto simp: records_def n_def\<close>)
  consider (idle) "\<not> again" "l' = l" "d' = d" "flush \<longrightarrow> sd_read_index l = sd_write_index l"
    | (failed) e l1 where "\<not> again" "writeBatch api records (l, d) = Some (e, l1, d')" "e \<noteq> EC_ok"
        "l' = l1\<lparr>sd_writer_error := e\<rparr>"
    | (written) l1 where "again" "writeBatch api records (l, d) = Some (EC_ok, l1, d')"
        "l' = l1\<lparr>sd_read_index := sd_read_index l1 + n\<rparr>"
    using run stage(1) state(1,2)
    by (auto simp: drainOneBatch_def Let_def records_def[symmetric] n_def[symmetric]
        split: if_splits option.splits prod.splits)
  then show ?thesis
  proof cases
    case idle
    then show ?thesis using holds by simp
  next
    case failed
    have "pos d' = length (content d')" "content d' = content d" "l1 = l"
      using writeBatch_file[OF law failed(2) state(5)] failed(3) records state(4) by (auto dest: in_set_takeD in_set_dropD)
    then show ?thesis using failed holds by (auto simp: sd_holds_def)
  next
    case written
    have len: "length records = n" by (simp add: records_def)
    have eff: "pos d' = length (content d')" "content d' = content d @ concat records"
        "l1 = l\<lparr>sd_file_size := sd_file_size l + 192 * n\<rparr>"
      using writeBatch_file[OF law written(2) state(5)] records state(4) len by (auto dest: in_set_takeD in_set_dropD)
    have "content d' = concat (take (sd_read_index l + n) acc)"
      unfolding eff(2) records state(7) by (simp add: take_add)
    then show ?thesis
      using written(1,3) eff(1,3) holds stage by (auto simp: sd_holds_def n_def)
  qed
qed

lemma drain_loop_holds:
  assumes run: "drain_loop api flush s = Some s'" and law: "regular_file api content pos"
    and holds: "sd_holds content pos acc s"
  shows "sd_holds content pos acc s' \<and>
     (flush \<longrightarrow> sd_writer_error (fst s') = EC_ok \<longrightarrow> sd_read_index (fst s') = sd_write_index (fst s')) \<and>
     sd_writer (fst s') = sd_writer (fst s)"
proof -
  let ?P = "\<lambda>api flush s s'. regular_file api content pos \<longrightarrow> sd_holds content pos acc s \<longrightarrow>
     sd_holds content pos acc s' \<and>
     (flush \<longrightarrow> sd_writer_error (fst s') = EC_ok \<longrightarrow> sd_read_index (fst s') = sd_write_index (fst s')) \<and>
     sd_writer (fst s') = sd_writer (fst s)"
  have "?P api flush s s'"
  proof (rule drain_loop.raw_induct[of ?P, OF _ run], intro impI)
    fix dl and api :: "'a sd_api" and flush s s'
    assume IH: "\<And>flush s b y. dl flush s b = Some y \<Longrightarrow> ?P flush s b y"
      and step: "(case drainOneBatch api flush s of None \<Rightarrow> None
         | Some (again, s) \<Rightarrow> if again then dl api flush s else Some s) = Some s'"
      and law: "regular_file api content pos" and holds: "sd_holds content pos acc s"
    obtain l d where s: "s = (l, d)" by fastforce
    obtain again l1 d1 where one: "drainOneBatch api flush (l, d) = Some (again, l1, d1)"
      using step s by (auto split: option.splits)
    note kept = drain_holds[OF law holds[unfolded s] one]
    show "sd_holds content pos acc s' \<and>
       (flush \<longrightarrow> sd_writer_error (fst s') = EC_ok \<longrightarrow> sd_read_index (fst s') = sd_write_index (fst s')) \<and>
       sd_writer (fst s') = sd_writer (fst s)"
    proof (cases again)
      case True
      then have "dl api flush (l1, d1) = Some s'" using step one s by simp
      from IH[OF this] show ?thesis using law kept s by simp
    next
      case False
      then show ?thesis using step one s kept by auto
    qed
  qed
  then show ?thesis using law holds by blast
qed

lemma iteration_holds:
  assumes law: "regular_file api content pos" and holds: "sd_holds content pos acc (l, d)"
    and run: "writer_iteration api (l, d) = Some (l', d')"
  shows "sd_holds content pos acc (l', d') \<and> sd_writer l' = sd_writer l \<and>
     (sd_flush_requested l \<longrightarrow> sd_flush_result l' = EC_ok \<longrightarrow> sd_read_index l' = sd_write_index l')"
proof -
  obtain l1 d1 where first: "(if sd_writer_error l = EC_ok then drain_loop api (sd_flush_requested l) (l, d)
      else Some (l, d)) = Some (l1, d1)"
    using run by (auto simp: writer_iteration_def Let_def split: option.splits)
  have kept: "sd_holds content pos acc (l1, d1)" "sd_writer l1 = sd_writer l"
    "sd_flush_requested l \<Longrightarrow> sd_writer_error l1 = EC_ok \<Longrightarrow> sd_read_index l1 = sd_write_index l1"
    using first drain_loop_holds[OF _ law holds] holds by (auto split: if_splits)
  obtain ok d2 where sync: "sa_fsync api d1 = (ok, d2)" by fastforce
  have d2: "content d2 = content d1" "pos d2 = pos d1"
    using law sync unfolding regular_file_def file_other_law_def by blast+
  show ?thesis
    using run kept d2 unfolding writer_iteration_def by (auto simp: first sync sd_holds_def split: if_splits)
qed

datatype sd_op = Sd_append "u8 list" | Sd_turn | Sd_flush

text \<open>The records that were accepted, and the final state.\<close>

fun sd_run :: "'d sd_api \<Rightarrow> sd_op list \<Rightarrow> sd_log \<times> 'd \<Rightarrow> (u8 list list \<times> sd_log \<times> 'd) option" where
  "sd_run api [] s = Some ([], s)"
| "sd_run api (Sd_append r # ops) (l, d) =
     (case sd_append r l of (e, l) \<Rightarrow>
        map_option (\<lambda>(acc, s). (if e = EC_ok then r # acc else acc, s)) (sd_run api ops (l, d)))"
| "sd_run api (Sd_turn # ops) s =
     (case writer_iteration api s of None \<Rightarrow> None | Some s \<Rightarrow> sd_run api ops s)"
| "sd_run api (Sd_flush # ops) s =
     (case sd_flush api s of None \<Rightarrow> None | Some (e, s) \<Rightarrow> sd_run api ops s)"

lemma flush_holds:
  assumes law: "regular_file api content pos" and holds: "sd_holds content pos acc s"
    and run: "sd_flush api s = Some (e, s')"
  shows "sd_holds content pos acc s' \<and> (e = EC_ok \<longrightarrow> sd_read_index (fst s') = sd_write_index (fst s'))"
proof -
  obtain l d l' d' where s: "s = (l, d)" "s' = (l', d')" by fastforce
  consider "s' = s" "e = EC_invalid_state"
    | "writer_iteration api (l\<lparr>sd_flush_requested := True\<rparr>, d) = Some (l', d')" "e = sd_flush_result l'"
    using run holds unfolding s
    by (auto simp: sd_flush_def requestWriterFlush_def sd_holds_def split: if_splits option.splits)
  then show ?thesis
  proof cases
    case 2
    have "sd_holds content pos acc (l\<lparr>sd_flush_requested := True\<rparr>, d)" using holds s by (auto simp: sd_holds_def)
    from iteration_holds[OF law this 2(1)] show ?thesis using 2(2) s by simp
  qed (use holds in simp)
qed

lemma sd_run_returns: "interrupts_end api rank \<Longrightarrow> sd_run api ops s \<noteq> None"
proof (induction api ops s rule: sd_run.induct)
  case (3 api ops s)
  then show ?case using writer_iteration_returns[of api rank s] by (auto split: option.splits)
next
  case (4 api ops s)
  then show ?case using sd_flush_returns[of api rank s] by (auto split: option.splits)
qed (auto split: prod.splits)

lemma sd_run_holds:
  "sd_run api ops s = Some (new, s') \<Longrightarrow> regular_file api content pos \<Longrightarrow> sd_holds content pos acc s \<Longrightarrow>
     \<forall>r. Sd_append r \<in> set ops \<longrightarrow> length r = 192 \<Longrightarrow> sd_holds content pos (acc @ new) s'"
proof (induction api ops s arbitrary: acc new s' rule: sd_run.induct)
  case (2 api r ops l d)
  obtain e l1 where a: "sd_append r l = (e, l1)" by fastforce
  obtain new1 where n: "sd_run api ops (l1, d) = Some (new1, s')" "new = (if e = EC_ok then r # new1 else new1)"
    using 2(2) a by (cases "sd_run api ops (l1, d)") auto
  have "sd_holds content pos (if e = EC_ok then acc @ [r] else acc) (l1, d)"
    using append_holds[OF 2(4) _ a] 2(5) by simp
  then show ?case using 2(1)[OF a[symmetric] n(1) 2(3)] 2(5) n(2) by (cases "e = EC_ok") force+
next
  case (3 api ops s)
  obtain s1 where a: "writer_iteration api s = Some s1" "sd_run api ops s1 = Some (new, s')"
    using 3(2) by (auto split: option.splits)
  have "sd_holds content pos acc s1"
    using iteration_holds[OF 3(3)] 3(4) a(1) by (metis prod.collapse)
  then show ?case using 3(1)[OF a 3(3)] 3(5) by simp
next
  case (4 api ops s)
  obtain e s1 where a: "sd_flush api s = Some (e, s1)" "sd_run api ops s1 = Some (new, s')"
    using 4(2) by (auto split: option.splits)
  have "sd_holds content pos acc s1" using flush_holds[OF 4(3,4) a(1)] by simp
  then show ?case using 4(1)[OF a(1) refl a(2) 4(3)] 4(5) by simp
qed simp

lemma allocate_nonempty: "allocate_attempts api k d = (Some n, d') \<Longrightarrow> 192 \<le> n"
  by (induction k arbitrary: d)
    (auto simp: Let_def kWriteBatchBytes_def kWriteBatchRecords_def kWriteBatchTargetBytes_def
      kSerializedRecordBytes_def split: if_splits prod.splits)

lemma closed_with_fails: "sd_closed_with api e s = Some (e', s') \<Longrightarrow> e' = e"
  by (auto simp: sd_closed_with_def)

lemma prepare_holds_nothing:
  assumes law: "regular_file api content pos" and run: "sd_prepareForFlight api (sd_init, d) = Some (EC_ok, s)"
  shows "sd_holds content pos [] s \<and> sd_read_index (fst s) = 0"
proof -
  obtain e1 d1 where m: "sa_mount api d = (e1, d1)" by fastforce
  have e1: "e1 = EC_ok" using run m by (auto simp: sd_prepareForFlight_def sd_mount_def sd_init_def split: if_splits)
  obtain a d2 where alloc: "allocate_attempts api 3 d1 = (a, d2)" by fastforce
  obtain n where n: "a = Some n"
    using run m e1 alloc
    by (cases a) (auto simp: sd_prepareForFlight_def sd_mount_def sd_init_def allocateStaging_def
        dest: closed_with_fails)
  obtain ok d3 where opened: "sa_open_truncated api d2 = (ok, d3)" by fastforce
  obtain fa sa d4 where sem: "sa_create_semaphores api d3 = (fa, sa, d4)" by (metis prod_cases3)
  obtain created d5 where task: "sa_create_writer api d4 = (created, d5)" by fastforce
  have cap: "0 < n div kSerializedRecordBytes"
    using allocate_nonempty[OF alloc[unfolded n]] by (simp add: kSerializedRecordBytes_def div_greater_zero_iff)
  have all: "ok \<and> fa \<and> sa \<and> created \<and> snd s = d5 \<and> sd_open (fst s) \<and> sd_writable (fst s) \<and>
     sd_capacity_records (fst s) = n div kSerializedRecordBytes \<and> sd_file_size (fst s) = 0 \<and>
     sd_stage (fst s) = Some (replicate (n div kSerializedRecordBytes) (replicate kSerializedRecordBytes 0)) \<and>
     sd_write_index (fst s) = 0 \<and> sd_read_index (fst s) = 0"
    using run m e1 alloc n opened sem task cap
    by (auto simp: sd_prepareForFlight_def sd_mount_def sd_init_def allocateStaging_def startWriter_def Let_def
        split: if_splits dest: closed_with_fails)
  have law: "file_other_law api content pos" using law by (simp add: regular_file_def)
  have "sa_open_truncated api d2 = (True, d3)" using opened all by simp
  then have "content d3 = []" "pos d3 = 0" using law unfolding file_other_law_def by blast+
  moreover have "content d4 = content d3" "pos d4 = pos d3" using law sem unfolding file_other_law_def by blast+
  moreover have "content d5 = content d4" "pos d5 = pos d4" using law task unfolding file_other_law_def by blast+
  ultimately show ?thesis using all cap by (cases s) (simp add: sd_holds_def)
qed

section \<open>The export erases only what it has copied\<close>

text \<open>Documented behaviour of the stream on the exported file: \<open>fread\<close> returns the bytes at the position,
  \<open>fseek\<close> and \<open>ftell\<close> agree with the length of the file (\<open>ftell\<close> fails when it does not fit a 32-bit \<open>long\<close>), \<open>fclose\<close> keeps it.\<close>

definition raw_file :: "'d raw_api \<Rightarrow> ('d \<Rightarrow> u8 list) \<Rightarrow> ('d \<Rightarrow> nat) \<Rightarrow> bool" where
  "raw_file rapi content pos = (\<forall>d ok d'.
     (\<forall>n bytes. ra_fread rapi n d = (bytes, d') \<longrightarrow>
        content d' = content d \<and> bytes = take (length bytes) (drop (pos d) (content d)) \<and>
        pos d' = pos d + length bytes) \<and>
     (ra_fseek_end rapi d = (True, d') \<longrightarrow> content d' = content d \<and> pos d' = length (content d)) \<and>
     ra_ftell rapi d = (if pos d < 2 ^ 31 then int (pos d) else - 1) \<and>
     (ra_fseek_set rapi d = (True, d') \<longrightarrow> content d' = content d \<and> pos d' = 0) \<and>
     (ra_fclose rapi d = (ok, d') \<longrightarrow> content d' = content d))"

lemma readRaw_keeps:
  assumes law: "find_law papi bytes \<and> read_law papi bytes" and part: "fl_partition fl = Some (length (bytes f))"
    and run: "flash_readRaw papi offset n (fl, f) = (e, data, f')" and fits: "offset + n \<le> length (bytes f)"
  shows "bytes f' = bytes f \<and> (e = EC_ok \<longrightarrow> data = take n (drop offset (bytes f)))"
proof (cases "n = 0 \<or> length (bytes f) \<le> offset")
  case True
  then show ?thesis using run part by (auto simp: flash_readRaw_def)
next
  case False
  have k: "min n (length (bytes f) - offset) = n" using fits by simp
  obtain e1 b1 f1 where r: "pa_read papi offset n f = (e1, b1, f1)" by (metis prod_cases3)
  have "bytes f1 = bytes f \<and> (e1 = EC_ok \<longrightarrow> b1 = take n (drop offset (bytes f)))"
    using law fits r unfolding read_law_def by blast
  then show ?thesis using run part False r by (auto simp: k flash_readRaw_def split: if_splits)
qed

text \<open>A verification that runs to its end has compared every byte.\<close>

lemma verify_compares:
  assumes raw: "raw_file rapi content pos" and law: "find_law papi bytes \<and> read_law papi bytes"
  shows "fl_partition fl = Some (length (bytes f)) \<Longrightarrow> offset \<le> length (bytes f) \<Longrightarrow>
     verify_loop papi rapi fl offset (f, d) = (r, f', d') \<Longrightarrow>
     bytes f' = bytes f \<and> content d' = content d \<and>
     (r = None \<longrightarrow> take (length (bytes f) - offset) (drop (pos d) (content d)) = drop offset (bytes f))"
proof (induction "length (bytes f) - offset" arbitrary: offset f d rule: less_induct)
  case less
  have cap: "flash_capacity fl = length (bytes f)" using less.prems(1) by (simp add: flash_capacity_def)
  show ?case
  proof (cases "offset < length (bytes f)")
    case False
    then show ?thesis using less.prems cap by (auto simp: verify_loop.simps)
  next
    case True
    define n where "n = min kCopyBytes (length (bytes f) - offset)"
    have n: "0 < n" "offset + n \<le> length (bytes f)" using True by (auto simp: n_def kCopyBytes_def)
    obtain sd d1 where read: "ra_fread rapi n d = (sd, d1)" by fastforce
    obtain e data f1 where rr: "flash_readRaw papi offset n (fl, f) = (e, data, f1)" by (metis prod_cases3)
    have d1: "content d1 = content d" "sd = take (length sd) (drop (pos d) (content d))" "pos d1 = pos d + length sd"
      using raw read unfolding raw_file_def by blast+
    have f1: "bytes f1 = bytes f \<and> (e = EC_ok \<longrightarrow> data = take n (drop offset (bytes f)))"
      using readRaw_keeps[OF law less.prems(1) rr n(2)] .
    show ?thesis
    proof (cases "length sd = n \<and> e = EC_ok \<and> length data = n \<and> sd = data")
      case False
      then have "r \<noteq> None \<and> (f' = f \<or> f' = f1) \<and> d' = d1"
        using less.prems(3) True cap read rr
        by (subst (asm) verify_loop.simps) (auto simp: n_def[symmetric] Let_def split: if_splits)
      then show ?thesis using f1 d1 by auto
    next
      case same: True
      have onward: "verify_loop papi rapi fl (offset + n) (f1, d1) = (r, f', d')"
        using less.prems(3) True cap read rr same
        by (subst (asm) verify_loop.simps) (simp add: n_def[symmetric] Let_def)
      have IH: "bytes f' = bytes f \<and> content d' = content d \<and> (r = None \<longrightarrow>
          take (length (bytes f) - (offset + n)) (drop (pos d + n) (content d)) = drop (offset + n) (bytes f))"
        using less.hyps[of f1 "offset + n" d1] less.prems(1) n f1 onward d1 same True by simp
      have "take n (drop (pos d) (content d)) = take n (drop offset (bytes f))" using same d1(2) f1 by metis
      then have "take (n + (length (bytes f) - (offset + n))) (drop (pos d) (content d)) =
          take n (drop offset (bytes f)) @ drop n (drop offset (bytes f))" if "r = None"
        using IH that unfolding take_add drop_drop by (simp add: add.commute[of n])
      moreover have "take n (drop offset (bytes f)) @ drop n (drop offset (bytes f)) = drop offset (bytes f)"
        by (rule append_take_drop_id)
      moreover have "n + (length (bytes f) - (offset + n)) = length (bytes f) - offset" using n by simp
      ultimately show ?thesis using IH by simp
    qed
  qed
qed

lemma copy_keeps_flash:
  assumes law: "find_law papi bytes \<and> read_law papi bytes"
  shows "fl_partition fl = Some (length (bytes f)) \<Longrightarrow> copy_loop papi rapi fl offset (f, d) = (r, f', d') \<Longrightarrow>
     bytes f' = bytes f"
proof (induction "length (bytes f) - offset" arbitrary: offset f d rule: less_induct)
  case less
  have cap: "flash_capacity fl = length (bytes f)" using less.prems(1) by (simp add: flash_capacity_def)
  show ?case
  proof (cases "offset < length (bytes f)")
    case False
    then show ?thesis using less.prems cap by (auto simp: copy_loop.simps)
  next
    case True
    define n where "n = min kCopyBytes (length (bytes f) - offset)"
    have n: "0 < n" "offset + n \<le> length (bytes f)" using True by (auto simp: n_def kCopyBytes_def)
    obtain e data f1 where rr: "flash_readRaw papi offset n (fl, f) = (e, data, f1)" by (metis prod_cases3)
    have f1: "bytes f1 = bytes f" using readRaw_keeps[OF law less.prems(1) rr n(2)] by simp
    obtain k d1 where w: "ra_fwrite rapi data d = (k, d1)" by fastforce
    have "f' = f1 \<or> copy_loop papi rapi fl (offset + n) (f1, d1) = (r, f', d')"
      using less.prems(2) True cap rr w
      by (subst (asm) copy_loop.simps) (auto simp: n_def[symmetric] Let_def split: if_splits)
    then show ?thesis using less.hyps[of f1 "offset + n" d1] less.prems(1) n f1 by auto
  qed
qed

lemma loops_fail:
  "copy_loop papi rapi fl offset (f, d) = (Some e, f', d') \<Longrightarrow> e \<noteq> EC_ok"
  "verify_loop papi rapi fl offset (f, d) = (Some e, f', d') \<Longrightarrow> e \<noteq> EC_ok"
proof -
  have next_smaller: "offset < cap \<Longrightarrow> cap - (offset + min kCopyBytes (cap - offset)) < cap - offset" for cap offset :: nat
    by (simp add: kCopyBytes_def)
  show "copy_loop papi rapi fl offset (f, d) = (Some e, f', d') \<Longrightarrow> e \<noteq> EC_ok"
  proof (induction "flash_capacity fl - offset" arbitrary: offset f d rule: less_induct)
    case less
    note IH = less.hyps[OF next_smaller]
    from less.prems show ?case
      by (subst (asm) copy_loop.simps) (auto simp: Let_def split: if_splits prod.splits dest: IH)
  qed
  show "verify_loop papi rapi fl offset (f, d) = (Some e, f', d') \<Longrightarrow> e \<noteq> EC_ok"
  proof (induction "flash_capacity fl - offset" arbitrary: offset f d rule: less_induct)
    case less
    note IH = less.hyps[OF next_smaller]
    from less.prems show ?case
      by (subst (asm) verify_loop.simps) (auto simp: Let_def split: if_splits prod.splits dest: IH)
  qed
qed

text \<open>Past the opened file there are two ends: the flash is untouched, or the file is its copy.\<close>

lemma export_opened_ends:
  assumes raw: "raw_file rapi content pos" and law: "find_law papi bytes \<and> read_law papi bytes"
    and part: "fl_partition fl = Some (length (bytes f))"
    and run: "export_opened papi rapi (fl, f, d) = (e, fl', f', d')"
  shows "bytes f' = bytes f \<and> e \<noteq> EC_ok \<or> content d' = bytes f \<and> (e = EC_ok \<longrightarrow> flash_size fl' = 0 \<and> \<not> flash_hasData fl')"
proof -
  have cap: "flash_capacity fl = length (bytes f)" using part by (simp add: flash_capacity_def)
  obtain r f1 d1 where copy: "copy_loop papi rapi fl 0 (f, d) = (r, f1, d1)" by (metis prod_cases3)
  have f1: "bytes f1 = bytes f" using copy_keeps_flash[OF law part copy] .
  have stop: "closeWith rapi c x = (EC_ok, x') \<Longrightarrow> c = EC_ok" for c x x'
    by (auto simp: closeWith_def split: prod.splits if_splits)
  obtain b2 d2 where flushed: "ra_fflush rapi d1 = (b2, d2)" by fastforce
  obtain b3 d3 where synced: "ra_fsync rapi d2 = (b3, d3)" by fastforce
  obtain b4 d4 where ended: "ra_fseek_end rapi d3 = (b4, d4)" by fastforce
  obtain b5 d5 where rewound: "ra_fseek_set rapi d4 = (b5, d5)" by fastforce
  obtain r6 f6 d6 where compared: "verify_loop papi rapi fl 0 (f1, d5) = (r6, f6, d6)" by (metis prod_cases3)
  obtain b7 d7 where closed: "ra_fclose rapi d6 = (b7, d7)" by fastforce
  obtain e8 fl8 f8 where erased: "flash_erase papi (fl, f6) = (e8, fl8, f8)" by (metis prod_cases3)
  have part1: "fl_partition fl = Some (length (bytes f1))" using part f1 by simp
  have failed: "r \<noteq> Some EC_ok" "r6 \<noteq> Some EC_ok" using copy loops_fail(1)[of papi rapi fl 0 f d EC_ok f1 d1] compared
      loops_fail(2)[of papi rapi fl 0 f1 d5 EC_ok f6 d6] by auto
  note cmp = verify_compares[OF raw law part1 le0 compared]
  show ?thesis
  proof (cases "r = None \<and> b2 \<and> b3 \<and> b4 \<and> \<not> (ra_ftell rapi d4 < 0 \<or> nat (ra_ftell rapi d4 mod 2 ^ 32) \<noteq> flash_capacity fl)
      \<and> b5 \<and> r6 = None \<and> b7")
    case False
    then have "(f' = f1 \<or> f' = f6) \<and> e \<noteq> EC_ok"
      using run copy flushed synced ended rewound compared closed failed
      by (auto simp: export_opened_def Let_def split: prod.splits if_splits dest: stop)
    then show ?thesis using f1 cmp by auto
  next
    case True
    then have fin: "e = e8" "fl' = fl8" "f' = f8" "d' = d7"
      using run copy flushed synced ended rewound compared closed erased
      by (auto simp: export_opened_def Let_def)
    have "ra_fseek_end rapi d3 = (True, d4)" "ra_fseek_set rapi d4 = (True, d5)" using ended rewound True by simp_all
    then have pos: "content d4 = content d3" "pos d4 = length (content d3)" "content d5 = content d4" "pos d5 = 0"
        "content d7 = content d6" "ra_ftell rapi d4 = (if pos d4 < 2 ^ 31 then int (pos d4) else - 1)"
      using raw closed unfolding raw_file_def by blast+
    have "pos d4 < 2 ^ 31" "ra_ftell rapi d4 = int (pos d4)" using True pos(6) by (simp_all split: if_splits)
    then have "length (content d5) = length (bytes f)" using True cap pos(1-3) by simp
    moreover have "take (length (bytes f) - 0) (drop (pos d5) (content d5)) = bytes f" "content d6 = content d5"
      using cmp True f1 by simp_all
    ultimately have "content d7 = bytes f" using pos(4,5) by simp
    moreover have "e = EC_ok \<longrightarrow> flash_size fl' = 0 \<and> \<not> flash_hasData fl'"
      using erased fin part by (auto simp: flash_erase_def flash_size_def flash_hasData_def split: prod.splits)
    ultimately show ?thesis using fin by simp
  qed
qed

section \<open>A card in memory\<close>

text \<open>Content and position of the log file, then of the exported file. A write takes at most 1000 bytes.\<close>

type_synonym ram_card = "(u8 list \<times> nat) \<times> (u8 list \<times> nat)"

definition ram_sd :: "ram_card sd_api" where
  "ram_sd = \<lparr>sa_mount = (\<lambda>d. (EC_ok, d)), sa_unmount = (\<lambda>d. d), sa_largest_free_block = (\<lambda>_. 1048576),
     sa_malloc = (\<lambda>_ d. (True, d)), sa_free = (\<lambda>d. d),
     sa_open_truncated = (\<lambda>(_, x). (True, ([], 0), x)), sa_open_existing = (\<lambda>d. (Opened, d)),
     sa_fstat_size = (\<lambda>((c, _), _). Some (int (length c))),
     sa_lseek_cur = (\<lambda>d. (int (snd (fst d)), d)),
     sa_lseek_set = (\<lambda>n ((c, p), x). (True, (c, n), x)),
     sa_lseek_end = (\<lambda>((c, p), x). (True, (c, length c), x)),
     sa_write = (\<lambda>b ((c, p), x). (IO_bytes (min 1000 (length b)),
        (take p c @ take (min 1000 (length b)) b @ drop (p + 1000) c, p + min 1000 (length b)), x)),
     sa_read = (\<lambda>n ((c, p), x). (IO_bytes (length (take n (drop p c))), take n (drop p c),
        (c, p + length (take n (drop p c))), x)),
     sa_ftruncate = (\<lambda>n ((c, p), x). ((take n c, p), x)), sa_fsync = (\<lambda>d. (True, d)), sa_close = (\<lambda>d. d),
     sa_create_semaphores = (\<lambda>d. (True, True, d)), sa_create_writer = (\<lambda>d. (True, d))\<rparr>"

definition ram_raw :: "ram_card raw_api" where
  "ram_raw = \<lparr>ra_fopen = (\<lambda>(x, _). (True, x, [], 0)),
     ra_fwrite = (\<lambda>b (x, c, p). if length c + length b < 2 ^ 32 \<and> p = length c
        then (length b, x, c @ b, p + length b) else (0, x, c, p)),
     ra_fflush = (\<lambda>d. (True, d)), ra_fsync = (\<lambda>d. (True, d)),
     ra_fseek_end = (\<lambda>(x, c, p). (True, x, c, length c)), ra_fseek_set = (\<lambda>(x, c, p). (True, x, c, 0)),
     ra_ftell = (\<lambda>(x, c, p). if p < 2 ^ 31 then int p else - 1),
     ra_fread = (\<lambda>n (x, c, p). (take n (drop p c), x, c, p + length (take n (drop p c)))),
     ra_fclose = (\<lambda>d. (True, d))\<rparr>"

lemma ram_sd_regular: "regular_file ram_sd (\<lambda>d. fst (fst d)) (\<lambda>d. snd (fst d))"
  unfolding regular_file_def file_write_law_def file_seek_law_def file_other_law_def ram_sd_def
  by auto

lemma ram_sd_rank: "interrupts_end ram_sd (\<lambda>_. 0)"
  by (auto simp: interrupts_end_def ram_sd_def)

lemma ram_sd_prepared: "\<exists>s. sd_prepareForFlight ram_sd (sd_init, d) = Some (EC_ok, s)"
  by (auto simp: sd_prepareForFlight_def sd_mount_def ram_sd_def sd_init_def allocateStaging_def Let_def
      numeral_3_eq_3 startWriter_def kSerializedRecordBytes_def kPsramReserveBytes_def kWriteBatchBytes_def
      kWriteBatchRecords_def kWriteBatchTargetBytes_def kMaxPsramStagingBytes_def split: prod.splits)

section \<open>Properties\<close>





text \<open>C21: The export is safe: unless the card holds a complete copy, the flash is not erased. Whenever
  \<open>exportRawFlashAndErase\<close> returns with the flash changed, or with \<open>ESP_OK\<close>, the exported file
  contains exactly the bytes that the whole partition held before; and \<open>ESP_OK\<close> means that the log is empty.\<close>

theorem export_copies_first:
  assumes "raw_file rapi content pos" "find_law papi bytes \<and> read_law papi bytes"
    and "fl_partition fl = Some (length (bytes f))"
    and "exportRawFlashAndErase api papi rapi l (fl, f, d) = Some (e, l', fl', f', d')"
    and "bytes f' \<noteq> bytes f \<or> e = EC_ok"
  shows "content d' = bytes f \<and> (e = EC_ok \<longrightarrow> flash_size fl' = 0 \<and> \<not> flash_hasData fl')"
proof -
  have "(bytes f' = bytes f \<and> e \<noteq> EC_ok) \<or> (\<exists>d1. export_opened papi rapi (fl, f, d1) = (e, fl', f', d'))"
    using assms(4) unfolding exportRawFlashAndErase_def by (auto split: if_splits option.splits prod.splits)
  then show ?thesis using export_opened_ends[OF assms(1-3)] assms(5) by blast
qed

theorem export_copies_first_witness:
  "\<exists>e l fl f d. exportRawFlashAndErase ram_sd ram_partition ram_raw (sd_init\<lparr>sd_mounted := True\<rparr>)
       (\<lparr>fl_partition = Some 2, fl_write_offset = 0, fl_has_data = True\<rparr>, [7, 9], (([], 0), [], 0)) =
         Some (e, l, fl, f, d) \<and> e = EC_ok \<and> fst (snd d) = [7, 9] \<and> f = [0xFF, 0xFF]"
proof -
  let ?l = "sd_init\<lparr>sd_mounted := True\<rparr>"
  let ?fl = "\<lparr>fl_partition = Some 2, fl_write_offset = 0, fl_has_data = True\<rparr>"
  let ?d = "(([], 0), [], 0) :: ram_card"
  have raw: "raw_file ram_raw (\<lambda>d. fst (snd d)) (\<lambda>d. snd (snd d))"
    by (auto simp: raw_file_def ram_raw_def min_def)
  have law: "find_law ram_partition id \<and> read_law ram_partition id"
    using reliable_parts[OF ram_reliable] by blast
  have two: "replicate 2 b = [b, b]" for b :: u8 by (simp add: numeral_2_eq_2)
  have ev: "\<exists>l fl f d. exportRawFlashAndErase ram_sd ram_partition ram_raw ?l (?fl, [7, 9], ?d) =
      Some (EC_ok, l, fl, f, d) \<and> f = [0xFF, 0xFF]"
    by (simp add: exportRawFlashAndErase_def export_opened_def copy_loop.simps verify_loop.simps Let_def
      ram_raw_def ram_partition_def flash_readRaw_def flash_erase_def flash_ready_def flash_capacity_def
      sd_init_def kCopyBytes_def two)
  then obtain l fl f d where run: "exportRawFlashAndErase ram_sd ram_partition ram_raw ?l (?fl, [7, 9], ?d) =
      Some (EC_ok, l, fl, f, d)" "f = [0xFF, 0xFF]" by blast
  have part: "fl_partition ?fl = Some (length (id [7 :: u8, 9]))" by simp
  show ?thesis using export_copies_first[OF raw law part run(1)] run by simp
qed

end
