(* ===== verification/Safety_Core.thy ===== *)
theory Safety_Core
  imports Prelude
begin

text \<open>
  \<open>src/actuators/safety_core.{hpp,cpp}\<close> and \<open>parachute_configuration.hpp\<close>: the power arbiter with
  its deployment cutoff, the angle arithmetic of the parachute servo, and the controller that opens
  the parachute with retries inside a global deadline. Time is the 64-bit microsecond clock. The
  calls on the controller are the steps of \<open>open_run\<close>.
\<close>

unbundle bit_operations_syntax

section \<open>Power\<close>

record power_state =
  ps_auxiliary_5v :: bool
  ps_parachute_power :: bool
  ps_cutoff_latched :: bool

definition power_init :: power_state where
  "power_init = \<lparr>ps_auxiliary_5v = False, ps_parachute_power = False, ps_cutoff_latched = False\<rparr>"

definition requestAuxiliary5v :: "bool \<Rightarrow> power_state \<Rightarrow> bool \<times> power_state" where
  "requestAuxiliary5v enabled s =
     (if enabled \<and> ps_cutoff_latched s then (False, s) else (True, s\<lparr>ps_auxiliary_5v := enabled\<rparr>))"

definition requestParachutePower :: "bool \<Rightarrow> power_state \<Rightarrow> bool \<times> power_state" where
  "requestParachutePower enabled s =
     (if enabled \<and> ps_cutoff_latched s then (False, s) else (True, s\<lparr>ps_parachute_power := enabled\<rparr>))"

definition latchDeploymentCutoff :: "power_state \<Rightarrow> power_state" where
  "latchDeploymentCutoff s = s\<lparr>ps_cutoff_latched := True, ps_auxiliary_5v := False, ps_parachute_power := False\<rparr>"

section \<open>The angle of the parachute servo\<close>

definition kParachuteCountsPerRevolution :: int where "kParachuteCountsPerRevolution = 4096"
definition kParachuteHalfRevolutionCounts :: int where
  "kParachuteHalfRevolutionCounts = kParachuteCountsPerRevolution div 2"

text \<open>Bit 15 is the sign, the other bits are the magnitude.\<close>

definition decodeStsSignedMagnitudePositionCount :: "u16 \<Rightarrow> int" where
  "decodeStsSignedMagnitudePositionCount raw_count =
     (let magnitude = uint (raw_count AND 0x7FFF) in
      if raw_count AND 0x8000 \<noteq> 0 then - magnitude else magnitude)"

text \<open>An \<open>AbsoluteParachuteAngle\<close> is its count; the constructor is private, so only the two
  factories make one. C++'s \<open>%\<close> truncates.\<close>

definition fromCanonicalCount :: "u16 \<Rightarrow> u16 option" where
  "fromCanonicalCount count = (if kParachuteCountsPerRevolution \<le> uint count then None else Some count)"

definition cpp_mod :: "int \<Rightarrow> int \<Rightarrow> int" where
  "cpp_mod a b = sgn a * (\<bar>a\<bar> mod b)"

definition fromCount :: "u16 \<Rightarrow> u16 option" where
  "fromCount raw_count =
     (let signed_count = decodeStsSignedMagnitudePositionCount raw_count;
          wrapped = cpp_mod signed_count kParachuteCountsPerRevolution;
          wrapped = (if wrapped < 0 then wrapped + kParachuteCountsPerRevolution else wrapped)
      in fromCanonicalCount (word_of_int wrapped))"

datatype parachute_path_error = PE_none | PE_exactly_half_turn

record parachute_displacement =
  pd_counts :: int
  pd_error :: parachute_path_error

definition displacement_valid :: "parachute_displacement \<Rightarrow> bool" where
  "displacement_valid d = (pd_error d = PE_none)"

definition shortestParachuteDisplacement :: "u16 \<Rightarrow> u16 \<Rightarrow> parachute_displacement" where
  "shortestParachuteDisplacement current target =
     (let delta = uint target - uint current;
          delta = (if delta < 0 then delta + kParachuteCountsPerRevolution else delta) in
      if delta = kParachuteHalfRevolutionCounts
      then \<lparr>pd_counts = 0, pd_error = PE_exactly_half_turn\<rparr>
      else let delta = (if kParachuteHalfRevolutionCounts < delta
                        then delta - kParachuteCountsPerRevolution else delta) in
      \<lparr>pd_counts = delta, pd_error = PE_none\<rparr>)"

section \<open>The controller\<close>

datatype parachute_action = PA_none | PA_command_open | PA_retry_open | PA_hold_open | PA_stop_retrying

datatype parachute_open_state =
    PO_idle | PO_opening | PO_retrying | PO_open_confirmed | PO_retry_exhausted | PO_powered_off

record parachute_tick =
  pt_now_us :: u64
  pt_position_valid :: bool
  pt_position_count :: u16
  pt_target_reached :: bool

record parachute_controller =
  pc_state :: parachute_open_state
  pc_retry_count :: u32
  pc_servo_open_confirmed :: bool
  pc_open_attempt_finished :: bool
  pc_started_at_us :: u64
  pc_window_started_at_us :: u64
  pc_window_position_count :: u16

definition controller_init :: parachute_controller where
  "controller_init = \<lparr>pc_state = PO_idle, pc_retry_count = 0, pc_servo_open_confirmed = False,
     pc_open_attempt_finished = False, pc_started_at_us = 0, pc_window_started_at_us = 0,
     pc_window_position_count = 0\<rparr>"

definition kProgressWindowUs :: u64 where "kProgressWindowUs = 500000"
definition kGlobalDeadlineUs :: u64 where "kGlobalDeadlineUs = 5000000"
definition kMinimumProgressCount :: int where "kMinimumProgressCount = 23"

definition startOpen :: "u64 \<Rightarrow> u16 \<Rightarrow> parachute_controller \<Rightarrow> parachute_action \<times> parachute_controller" where
  "startOpen now_us initial_position_count c =
     (if fromCanonicalCount initial_position_count = None \<or> pc_state c \<noteq> PO_idle then (PA_none, c)
      else (PA_command_open,
        \<lparr>pc_state = PO_opening, pc_retry_count = 0, pc_servo_open_confirmed = False,
         pc_open_attempt_finished = False, pc_started_at_us = now_us, pc_window_started_at_us = now_us,
         pc_window_position_count = initial_position_count\<rparr>))"

text \<open>Whether the servo has moved by 23 counts since the window began.\<close>

definition window_progressed :: "parachute_tick \<Rightarrow> parachute_controller \<Rightarrow> bool" where
  "window_progressed i c =
     (case (fromCanonicalCount (pc_window_position_count c), fromCanonicalCount (pt_position_count i)) of
        (Some previous, Some current) \<Rightarrow> pt_position_valid i \<and>
          (let d = shortestParachuteDisplacement previous current in
           displacement_valid d \<and>
           (kMinimumProgressCount \<le> pd_counts d \<or> pd_counts d \<le> - kMinimumProgressCount))
      | _ \<Rightarrow> False)"

definition parachute_tick_step ::
    "parachute_tick \<Rightarrow> parachute_controller \<Rightarrow> parachute_action \<times> parachute_controller" where
  "parachute_tick_step i c =
     (if pc_state c \<noteq> PO_opening \<and> pc_state c \<noteq> PO_retrying then (PA_none, c)
      else if pt_now_us i < pc_started_at_us c \<or> kGlobalDeadlineUs \<le> pt_now_us i - pc_started_at_us c
      then (PA_stop_retrying, c\<lparr>pc_state := PO_retry_exhausted, pc_open_attempt_finished := True\<rparr>)
      else if pt_target_reached i \<and> pt_position_valid i
      then (PA_hold_open, c\<lparr>pc_state := PO_open_confirmed, pc_servo_open_confirmed := True,
              pc_open_attempt_finished := True\<rparr>)
      else if pt_now_us i < pc_window_started_at_us c \<or>
        pt_now_us i - pc_window_started_at_us c < kProgressWindowUs
      then (PA_none, c)
      else let progressed = window_progressed i c;
               c = c\<lparr>pc_window_started_at_us := pt_now_us i\<rparr>;
               c = (if pt_position_valid i \<and> fromCanonicalCount (pt_position_count i) \<noteq> None
                    then c\<lparr>pc_window_position_count := pt_position_count i\<rparr> else c) in
      if progressed then (PA_none, c)
      else (PA_retry_open, c\<lparr>pc_state := PO_retrying, pc_retry_count := pc_retry_count c + 1\<rparr>))"

definition notifyPowerCutoff :: "parachute_controller \<Rightarrow> parachute_controller" where
  "notifyPowerCutoff c = c\<lparr>pc_state := PO_powered_off\<rparr>"

section \<open>Runs\<close>

datatype power_call = Request_auxiliary bool | Request_parachute bool | Latch_cutoff

fun power_step :: "power_call \<Rightarrow> power_state \<Rightarrow> power_state" where
  "power_step (Request_auxiliary b) s = snd (requestAuxiliary5v b s)"
| "power_step (Request_parachute b) s = snd (requestParachutePower b s)"
| "power_step Latch_cutoff s = latchDeploymentCutoff s"

datatype open_call = Call_start u64 u16 | Call_tick parachute_tick | Call_cutoff

fun open_step :: "open_call \<Rightarrow> parachute_controller \<Rightarrow> parachute_action \<times> parachute_controller" where
  "open_step (Call_start t p) c = startOpen t p c"
| "open_step (Call_tick i) c = parachute_tick_step i c"
| "open_step Call_cutoff c = (PA_none, notifyPowerCutoff c)"

fun open_run :: "open_call list \<Rightarrow> parachute_controller \<Rightarrow> parachute_action list \<times> parachute_controller" where
  "open_run [] c = ([], c)"
| "open_run (x # xs) c =
     (case open_step x c of (a, c) \<Rightarrow> case open_run xs c of (acts, c) \<Rightarrow> (a # acts, c))"

section \<open>The attempt is bounded\<close>

text \<open>What the actions so far say of the controller.\<close>

definition open_inv :: "parachute_action list \<Rightarrow> parachute_controller \<Rightarrow> bool" where
  "open_inv acts c \<longleftrightarrow>
     count_list acts PA_retry_open = unat (pc_retry_count c) \<and> unat (pc_retry_count c) \<le> 9 \<and>
     count_list acts PA_command_open \<le> 1 \<and>
     count_list acts PA_hold_open + count_list acts PA_stop_retrying \<le> 1 \<and>
     (pc_servo_open_confirmed c \<longleftrightarrow> PA_hold_open \<in> set acts) \<and>
     (pc_state c = PO_idle \<longrightarrow> count_list acts PA_command_open = 0 \<and> pc_retry_count c = 0) \<and>
     (pc_state c \<in> {PO_idle, PO_opening, PO_retrying} \<longrightarrow>
        count_list acts PA_hold_open + count_list acts PA_stop_retrying = 0) \<and>
     (pc_state c \<in> {PO_opening, PO_retrying} \<longrightarrow>
        unat (pc_started_at_us c) + 500000 * unat (pc_retry_count c) \<le> unat (pc_window_started_at_us c))"

lemma count_list_snoc: "count_list (xs @ [y]) x = count_list xs x + (if y = x then 1 else 0)"
  by (induction xs) auto

lemma unat_elapsed: "\<not> (now :: u64) < t \<Longrightarrow> unat (now - t) = unat now - unat t"
  by (simp add: unat_sub not_less)

text \<open>A retry needs a whole window inside the deadline, so there are at most nine.\<close>

lemma retry_room:
  fixes now t0 w :: u64 and r :: u32
  assumes "\<not> now < t0" "\<not> kGlobalDeadlineUs \<le> now - t0" "\<not> now < w" "\<not> now - w < kProgressWindowUs"
    and "unat t0 + 500000 * unat r \<le> unat w"
  shows "unat (r + 1) = unat r + 1 \<and> unat r + 1 \<le> 9 \<and> unat t0 + 500000 * (unat r + 1) \<le> unat now"
proof -
  have "unat now - unat t0 < 5000000" "unat t0 \<le> unat now" "500000 \<le> unat now - unat w" "unat w \<le> unat now"
    using assms(1-4) by (simp_all add: kGlobalDeadlineUs_def kProgressWindowUs_def word_le_nat_alt
        word_less_nat_alt unat_elapsed not_less not_le)
  then have "unat w + 500000 \<le> unat now" "unat now < unat t0 + 5000000" by arith+
  then have r: "unat r + 1 \<le> 9" "unat t0 + 500000 * (unat r + 1) \<le> unat now" using assms(5) by (simp_all add: algebra_simps)
  then have "unat (r + 1) = unat r + 1" by (simp add: unat_word_ariths)
  then show ?thesis using r by simp
qed

definition moved_window :: "parachute_tick \<Rightarrow> parachute_controller \<Rightarrow> parachute_controller" where
  "moved_window i c = (if pt_position_valid i \<and> fromCanonicalCount (pt_position_count i) \<noteq> None
     then c\<lparr>pc_window_started_at_us := pt_now_us i, pc_window_position_count := pt_position_count i\<rparr>
     else c\<lparr>pc_window_started_at_us := pt_now_us i\<rparr>)"

lemma tick_effect:
  "parachute_tick_step i c =
     (if pc_state c \<noteq> PO_opening \<and> pc_state c \<noteq> PO_retrying then (PA_none, c)
      else if pt_now_us i < pc_started_at_us c \<or> kGlobalDeadlineUs \<le> pt_now_us i - pc_started_at_us c
      then (PA_stop_retrying, c\<lparr>pc_state := PO_retry_exhausted, pc_open_attempt_finished := True\<rparr>)
      else if pt_target_reached i \<and> pt_position_valid i
      then (PA_hold_open, c\<lparr>pc_state := PO_open_confirmed, pc_servo_open_confirmed := True,
              pc_open_attempt_finished := True\<rparr>)
      else if pt_now_us i < pc_window_started_at_us c \<or>
        pt_now_us i - pc_window_started_at_us c < kProgressWindowUs
      then (PA_none, c)
      else if window_progressed i c then (PA_none, moved_window i c)
      else (PA_retry_open, (moved_window i c)\<lparr>pc_state := PO_retrying, pc_retry_count := pc_retry_count c + 1\<rparr>))"
  by (simp add: parachute_tick_step_def moved_window_def Let_def)

lemma moved_window_fields [simp]:
  "pc_started_at_us (moved_window i c) = pc_started_at_us c"
  "pc_window_started_at_us (moved_window i c) = pt_now_us i"
  "pc_servo_open_confirmed (moved_window i c) = pc_servo_open_confirmed c"
  "pc_state (moved_window i c) = pc_state c" "pc_retry_count (moved_window i c) = pc_retry_count c"
  by (simp_all add: moved_window_def)

text \<open>The end of a window: the window moves, and a retry fits the deadline.\<close>

lemma window_inv:
  assumes inv: "open_inv acts c" and active: "pc_state c = PO_opening \<or> pc_state c = PO_retrying"
    and in_time: "\<not> pt_now_us i < pc_started_at_us c" "\<not> kGlobalDeadlineUs \<le> pt_now_us i - pc_started_at_us c"
    and window: "\<not> pt_now_us i < pc_window_started_at_us c"
      "\<not> pt_now_us i - pc_window_started_at_us c < kProgressWindowUs"
  shows "open_inv (acts @ [PA_none]) (moved_window i c)"
    "open_inv (acts @ [PA_retry_open])
       ((moved_window i c)\<lparr>pc_state := PO_retrying, pc_retry_count := pc_retry_count c + 1\<rparr>)"
proof -
  have room: "unat (pc_started_at_us c) + 500000 * unat (pc_retry_count c) \<le> unat (pc_window_started_at_us c)"
    and none_yet: "count_list acts PA_hold_open = 0" "count_list acts PA_stop_retrying = 0"
    using inv active by (auto simp: open_inv_def)
  have late: "unat (pc_window_started_at_us c) \<le> unat (pt_now_us i)" using window by (simp add: word_less_nat_alt)
  show "open_inv (acts @ [PA_none]) (moved_window i c)"
    using inv late room none_yet by (simp add: open_inv_def count_list_snoc)
  note more = retry_room[OF in_time window room]
  show "open_inv (acts @ [PA_retry_open])
      ((moved_window i c)\<lparr>pc_state := PO_retrying, pc_retry_count := pc_retry_count c + 1\<rparr>)"
    using inv none_yet more by (simp add: open_inv_def count_list_snoc)
qed

lemma sequence_tick_inv:
  assumes inv: "open_inv acts c" and step: "parachute_tick_step i c = (a, c')"
  shows "open_inv (acts @ [a]) c'"
proof (cases "pc_state c = PO_opening \<or> pc_state c = PO_retrying")
  case False
  then have "a = PA_none" "c' = c" using step by (auto simp: tick_effect)
  then show ?thesis using inv by (simp add: open_inv_def count_list_snoc)
next
  case active: True
  then have none_yet: "count_list acts PA_hold_open = 0" "count_list acts PA_stop_retrying = 0"
    using inv by (auto simp: open_inv_def)
  have "\<not> (pc_state c \<noteq> PO_opening \<and> pc_state c \<noteq> PO_retrying)" using active by blast
  note eff = step[unfolded tick_effect if_not_P[OF this]]
  show ?thesis
  proof (cases "pt_now_us i < pc_started_at_us c \<or> kGlobalDeadlineUs \<le> pt_now_us i - pc_started_at_us c
      \<or> pt_target_reached i \<and> pt_position_valid i")
    case True
    then have "(a, c') = (PA_stop_retrying, c\<lparr>pc_state := PO_retry_exhausted, pc_open_attempt_finished := True\<rparr>) \<or>
        (a, c') = (PA_hold_open, c\<lparr>pc_state := PO_open_confirmed, pc_servo_open_confirmed := True,
           pc_open_attempt_finished := True\<rparr>)"
      using eff by (auto split: if_splits)
    then show ?thesis using inv none_yet by (auto simp: open_inv_def count_list_snoc)
  next
    case on: False
    then have out: "\<not> (pt_now_us i < pc_started_at_us c \<or> kGlobalDeadlineUs \<le> pt_now_us i - pc_started_at_us c)"
        "\<not> (pt_target_reached i \<and> pt_position_valid i)" by blast+
    note eff2 = eff[unfolded if_not_P[OF out(1)] if_not_P[OF out(2)]]
    show ?thesis
    proof (cases "pt_now_us i < pc_window_started_at_us c \<or> pt_now_us i - pc_window_started_at_us c < kProgressWindowUs")
      case True
      then have "a = PA_none" "c' = c" using eff2 by simp_all
      then show ?thesis using inv by (simp add: open_inv_def count_list_snoc)
    next
      case False
      then show ?thesis using eff2 window_inv[OF inv active] on by (cases "window_progressed i c") auto
    qed
  qed
qed

lemma open_step_inv:
  assumes inv: "open_inv acts c" and step: "open_step x c = (a, c')"
  shows "open_inv (acts @ [a]) c'"
proof (cases x)
  case (Call_start t p)
  then show ?thesis
    using inv step by (auto simp: startOpen_def open_inv_def count_list_snoc count_list_0_iff split: if_splits)
next
  case (Call_tick i)
  then show ?thesis using sequence_tick_inv[OF inv, of i a c'] step by simp
next
  case Call_cutoff
  then have "a = PA_none" "c' = c\<lparr>pc_state := PO_powered_off\<rparr>" using step by (simp_all add: notifyPowerCutoff_def)
  then show ?thesis using inv by (simp add: open_inv_def count_list_snoc)
qed

lemma open_run_inv: "open_run calls c = (acts, c') \<Longrightarrow> open_inv pre c \<Longrightarrow> open_inv (pre @ acts) c'"
proof (induction calls arbitrary: pre c acts)
  case (Cons x calls)
  obtain a c1 acts1 where "open_step x c = (a, c1)" "open_run calls c1 = (acts1, c')" "acts = a # acts1"
    using Cons.prems(1) by (auto split: prod.splits)
  then show ?case using Cons.IH[of c1 acts1 "pre @ [a]"] open_step_inv[OF Cons.prems(2)] by simp
qed simp

text \<open>An attempt that has ended stays ended, and commands nothing any more.\<close>

definition ended :: "parachute_controller \<Rightarrow> bool" where
  "ended c = (pc_state c \<in> {PO_open_confirmed, PO_retry_exhausted, PO_powered_off})"

lemma ended_run: "ended c \<Longrightarrow> open_run calls c = (acts, c') \<Longrightarrow> ended c' \<and> set acts \<subseteq> {PA_none}"
proof (induction calls arbitrary: c acts)
  case (Cons x calls)
  obtain a c1 acts1 where s: "open_step x c = (a, c1)" "open_run calls c1 = (acts1, c')" "acts = a # acts1"
    using Cons.prems(2) by (auto split: prod.splits)
  have "ended c1 \<and> a = PA_none"
    using s(1) Cons.prems(1)
    by (cases x) (auto simp: ended_def startOpen_def parachute_tick_step_def notifyPowerCutoff_def split: if_splits)
  then show ?case using Cons.IH[OF _ s(2)] s(3) by auto
qed simp

lemma running_or_ended:
  "pc_state c \<in> {PO_opening, PO_retrying} \<and> pc_started_at_us c = t \<or> ended c \<Longrightarrow> open_step x c = (a, c') \<Longrightarrow>
     pc_state c' \<in> {PO_opening, PO_retrying} \<and> pc_started_at_us c' = t \<or> ended c'"
  by (cases x) (auto simp: ended_def startOpen_def parachute_tick_step_def notifyPowerCutoff_def Let_def split: if_splits)

lemma deadline_ends:
  "pc_state c \<in> {PO_opening, PO_retrying} \<and> pc_started_at_us c = t \<or> ended c \<Longrightarrow>
     Call_tick i \<in> set calls \<Longrightarrow> kGlobalDeadlineUs \<le> pt_now_us i - t \<Longrightarrow> open_run calls c = (acts, c') \<Longrightarrow> ended c'"
proof (induction calls arbitrary: c acts)
  case (Cons x calls)
  obtain a c1 acts1 where s: "open_step x c = (a, c1)" "open_run calls c1 = (acts1, c')"
    using Cons.prems(4) by (auto split: prod.splits)
  show ?case
  proof (cases "x = Call_tick i")
    case True
    then have "ended c1"
      using s(1) Cons.prems(1,3) by (auto simp: parachute_tick_step_def ended_def split: if_splits)
    then show ?thesis using ended_run s(2) by blast
  next
    case False
    then show ?thesis
      using Cons.IH[OF running_or_ended[OF Cons.prems(1) s(1)] _ Cons.prems(3) s(2)] Cons.prems(2) by simp
  qed
qed simp

section \<open>Angles\<close>

lemma fromCount_angle:
  assumes "fromCount raw = Some a"
  shows "uint a < 4096 \<and> (decodeStsSignedMagnitudePositionCount raw - uint a) mod 4096 = 0"
proof -
  define n where "n = decodeStsSignedMagnitudePositionCount raw"
  define m where "m = (let w = cpp_mod n 4096 in if w < 0 then w + 4096 else w)"
  have m: "0 \<le> m \<and> m < 4096 \<and> (n - m) mod 4096 = 0"
  proof -
    have "m = n mod 4096"
      using zmod_zminus1_eq_if[of "- n" 4096] pos_mod_bound[of 4096 "- n"]
      by (auto simp: m_def cpp_mod_def Let_def sgn_if)
    then show ?thesis by (simp add: minus_mod_eq_mult_div)
  qed
  have "uint (word_of_int m :: u16) = m" using m by (simp add: uint_word_of_int)
  moreover have "a = word_of_int m"
    using assms unfolding fromCount_def fromCanonicalCount_def n_def m_def
    by (auto simp: Let_def kParachuteCountsPerRevolution_def split: if_splits)
  ultimately show ?thesis using m n_def by simp
qed

lemma shortest_delta:
  fixes a b :: int
  assumes "0 \<le> a" "a < 4096" "0 \<le> b" "b < 4096"
  shows "(b - a) mod 4096 = (if b < a then b - a + 4096 else b - a)"
proof (cases "b < a")
  case True
  then have "(b - a + 4096) mod 4096 = b - a + 4096" using assms by (intro mod_pos_pos_trivial) auto
  then show ?thesis using True by simp
next
  case False
  then show ?thesis using assms by simp
qed

section \<open>Properties\<close>

text \<open>The deployment cutoff is final: once \<open>latchDeploymentCutoff\<close> has run, no sequence of calls on
  the arbiter powers the 5 V rail or the parachute again; a request to switch on is refused.\<close>

theorem power_cutoff_final:
  "\<exists>s. fold power_step calls (latchDeploymentCutoff s0) = s \<and> ps_cutoff_latched s \<and>
     \<not> ps_auxiliary_5v s \<and> \<not> ps_parachute_power s \<and>
     fst (requestAuxiliary5v on s) = (\<not> on) \<and> fst (requestParachutePower on s) = (\<not> on)"
proof -
  have "ps_cutoff_latched s \<and> \<not> ps_auxiliary_5v s \<and> \<not> ps_parachute_power s \<Longrightarrow>
      ps_cutoff_latched (fold power_step calls s) \<and> \<not> ps_auxiliary_5v (fold power_step calls s) \<and>
      \<not> ps_parachute_power (fold power_step calls s)" for s
  proof (induction calls arbitrary: s)
    case (Cons x calls)
    then show ?case
      by (cases x) (auto simp: requestAuxiliary5v_def requestParachutePower_def latchDeploymentCutoff_def)
  qed simp
  from this[of "latchDeploymentCutoff s0"] show ?thesis
    by (simp add: latchDeploymentCutoff_def requestAuxiliary5v_def requestParachutePower_def)
qed

text \<open>C15: Whatever the calls and their times, one controller commands the opening at most once, retries it
  at most nine times (the count it reports), ends the attempt at most once, and reports the servo open
  exactly when it has commanded to hold; and once it has been started, a tick 5 s or more after the
  start, or before it, leaves the attempt ended, with no further command to the servo.\<close>

theorem parachute_attempt_bounded:
  assumes "open_run calls controller_init = (acts, c)"
    and "startOpen t p controller_init = (PA_command_open, c1)"
    and "open_run (calls1 @ Call_tick i # calls2) c1 = (acts2, c2)" "kGlobalDeadlineUs \<le> pt_now_us i - t"
  shows "count_list acts PA_command_open \<le> 1 \<and> count_list acts PA_retry_open = unat (pc_retry_count c) \<and>
     unat (pc_retry_count c) \<le> 9 \<and> count_list acts PA_hold_open + count_list acts PA_stop_retrying \<le> 1 \<and>
     (pc_servo_open_confirmed c \<longleftrightarrow> PA_hold_open \<in> set acts) \<and>
     ended c2 \<and> set (fst (open_run calls3 c2)) \<subseteq> {PA_none}"
proof -
  have start: "open_inv [] controller_init" by (simp add: open_inv_def controller_init_def)
  have "pc_state c1 \<in> {PO_opening, PO_retrying} \<and> pc_started_at_us c1 = t"
    using assms(2) by (auto simp: startOpen_def split: if_splits)
  then have e: "ended c2" using deadline_ends[OF _ _ assms(4) assms(3)] by simp
  then have "set (fst (open_run calls3 c2)) \<subseteq> {PA_none}"
    using ended_run[OF e] by (metis prod.collapse)
  then show ?thesis using open_run_inv[OF assms(1) start] e by (simp add: open_inv_def)
qed

theorem parachute_attempt_bounded_witness:
  "ended (snd (open_run [Call_tick \<lparr>pt_now_us = 6000000, pt_position_valid = True, pt_position_count = 7,
       pt_target_reached = False\<rparr>] (snd (startOpen 1000 100 controller_init)))) \<and>
   count_list (fst (open_run [Call_start 1000 100] controller_init)) PA_command_open \<le> 1"
proof -
  let ?i = "\<lparr>pt_now_us = 6000000, pt_position_valid = True, pt_position_count = 7, pt_target_reached = False\<rparr>"
  obtain c1 where c1: "startOpen 1000 100 controller_init = (PA_command_open, c1)"
    by (simp add: startOpen_def controller_init_def fromCanonicalCount_def kParachuteCountsPerRevolution_def)
  obtain acts c where r: "open_run [Call_start 1000 100] controller_init = (acts, c)" by fastforce
  obtain acts2 c2 where r2: "open_run ([] @ Call_tick ?i # []) c1 = (acts2, c2)" by fastforce
  have late: "kGlobalDeadlineUs \<le> pt_now_us ?i - 1000" by (simp add: kGlobalDeadlineUs_def)
  show ?thesis using parachute_attempt_bounded[OF r c1 r2 late] r r2 c1 by simp
qed

text \<open>The servo angles: a position register with sign bit and magnitude is reduced to the count of
  the same angle, in range; the displacement between two angles leads from the first to the second, is the
  shorter way round, and is refused exactly when both ways are half a turn.\<close>

theorem parachute_angles:
  assumes "fromCount raw1 = Some a" "fromCount raw2 = Some b"
  shows "uint a < 4096 \<and> (decodeStsSignedMagnitudePositionCount raw1 - uint a) mod 4096 = 0 \<and>
     (let d = shortestParachuteDisplacement a b in
      (displacement_valid d \<longleftrightarrow> (uint b - uint a) mod 4096 \<noteq> 2048) \<and>
      (displacement_valid d \<longrightarrow> (uint a + pd_counts d) mod 4096 = uint b \<and> \<bar>pd_counts d\<bar> < 2048))"
proof -
  have a: "uint a < 4096" "(decodeStsSignedMagnitudePositionCount raw1 - uint a) mod 4096 = 0"
    using fromCount_angle[OF assms(1)] by auto
  have b: "uint b < 4096" using fromCount_angle[OF assms(2)] by auto
  have lo: "0 \<le> uint a" "0 \<le> uint b" by simp_all
  show ?thesis
    using a b lo shortest_delta[of "uint a" "uint b"]
    by (auto simp: shortestParachuteDisplacement_def displacement_valid_def Let_def
        kParachuteHalfRevolutionCounts_def kParachuteCountsPerRevolution_def)
qed

theorem parachute_angles_witness:
  "pd_counts (shortestParachuteDisplacement 10 4090) = - 16 \<and>
   (let d = shortestParachuteDisplacement 10 4090 in displacement_valid d \<longleftrightarrow> (4090 - 10) mod 4096 \<noteq> (2048 :: int))"
proof -
  have a: "fromCount 10 = Some 10" "fromCount 4090 = Some 4090"
    by (simp_all add: fromCount_def decodeStsSignedMagnitudePositionCount_def cpp_mod_def fromCanonicalCount_def
        kParachuteCountsPerRevolution_def)
  show ?thesis
    using parachute_angles[OF a]
    by (simp add: shortestParachuteDisplacement_def Let_def kParachuteCountsPerRevolution_def kParachuteHalfRevolutionCounts_def)
qed

end
