(* ===== verification/Flight_Detectors.thy ===== *)
theory Flight_Detectors
  imports Double Can_Protocol
begin

text \<open>
  The detectors of \<open>src/sensors/\<close>: liftoff by acceleration and by pressure, pressure apex
  (\<open>flight_detectors.{hpp,cpp}\<close>), their composition over the mission states
  (\<open>air_data_flight_logic.{hpp,cpp}\<close>), sample freshness and the airspeed gate
  (\<open>sensor_health.{hpp,cpp}\<close>), encoder status (\<open>as5047d_health.hpp\<close>) and rail presence
  (\<open>power_presence.{hpp,cpp}\<close>, \<open>power_presence_runtime.cpp\<close>). Most of them count consecutive good
  samples up to a limit; the locale \<open>debounced\<close> states that contract once.
\<close>

section \<open>Debouncing\<close>

text \<open>A run of updates with, for every input, whether it was good in the state it met and the output.\<close>

fun debounce_run ::
    "('i \<Rightarrow> 's \<Rightarrow> bool \<times> 's) \<Rightarrow> ('i \<Rightarrow> 's \<Rightarrow> bool) \<Rightarrow> 'i list \<Rightarrow> 's \<Rightarrow> bool list \<times> bool list \<times> 's" where
  "debounce_run update good [] s = ([], [], s)"
| "debounce_run update good (i # is) s =
     (case update i s of (b, s') \<Rightarrow> case debounce_run update good is s' of (gs, bs, s'') \<Rightarrow>
        (good i s # gs, b # bs, s''))"

definition streak_of :: "bool list \<Rightarrow> nat" where
  "streak_of gs = length (takeWhile id (rev gs))"

lemma streak_of_snoc [simp]: "streak_of (gs @ [g]) = (if g then streak_of gs + 1 else 0)"
  by (simp add: streak_of_def)

lemma debounce_run_snoc:
  "debounce_run update good (is @ [i]) s =
     (case debounce_run update good is s of (gs, bs, s1) \<Rightarrow> case update i s1 of (b, s2) \<Rightarrow>
        (gs @ [good i s1], bs @ [b], s2))"
  by (induction "is" arbitrary: s) (simp_all split: prod.splits)

locale debounced =
  fixes update :: "'i \<Rightarrow> 's \<Rightarrow> bool \<times> 's"
    and good :: "'i \<Rightarrow> 's \<Rightarrow> bool"
    and wf :: "'s \<Rightarrow> bool"
    and streak :: "'s \<Rightarrow> nat"
    and limit :: nat
  assumes wf_step: "wf s \<Longrightarrow> update i s = (b, s') \<Longrightarrow> wf s'"
    and streak_step: "wf s \<Longrightarrow> update i s = (b, s') \<Longrightarrow>
      streak s' = (if good i s then min limit (streak s + 1) else 0)"
    and fires: "wf s \<Longrightarrow> update i s = (b, s') \<Longrightarrow> b = (limit \<le> streak s')"
begin

lemma run_streak:
  "wf s \<Longrightarrow> streak s = 0 \<Longrightarrow> debounce_run update good is s = (gs, bs, s') \<Longrightarrow>
     wf s' \<and> streak s' = min limit (streak_of gs)"
proof (induction "is" arbitrary: gs bs s' rule: rev_induct)
  case (snoc i "is")
  obtain gs1 bs1 s1 where r: "debounce_run update good is s = (gs1, bs1, s1)" by (metis prod_cases3)
  obtain b s2 where u: "update i s1 = (b, s2)" by fastforce
  have e: "gs = gs1 @ [good i s1]" "s' = s2" using snoc.prems(3) r u by (simp_all add: debounce_run_snoc)
  have "wf s1" "streak s1 = min limit (streak_of gs1)" using snoc.IH[OF snoc.prems(1,2) r] by auto
  then show ?case using wf_step[OF _ u] streak_step[OF _ u] e by auto
qed (simp add: streak_of_def)

text \<open>The last update fires exactly when the last \<open>limit\<close> inputs were good.\<close>

lemma fires_after_streak:
  assumes "wf s" "streak s = 0" "debounce_run update good (is @ [i]) s = (gs, bs, s')"
  shows "last bs = (limit \<le> streak_of gs)"
proof -
  obtain gs1 bs1 s1 where r: "debounce_run update good is s = (gs1, bs1, s1)" by (metis prod_cases3)
  obtain b s2 where u: "update i s1 = (b, s2)" by fastforce
  have "bs = bs1 @ [b]" "s' = s2" using assms(3) r u by (simp_all add: debounce_run_snoc)
  then show ?thesis
    using run_streak[OF assms] run_streak[OF assms(1,2) r] fires[OF _ u] by simp
qed

end

section \<open>Means over a ring\<close>

definition array_mean :: "dbl list \<Rightarrow> dbl" where
  "array_mean samples = ddiv (foldl dadd (Fin 0) samples) (Fin (real (length samples)))"

section \<open>Liftoff by acceleration\<close>

record imu_liftoff =
  il_ax :: "dbl list"
  il_ay :: "dbl list"
  il_az :: "dbl list"
  il_head :: nat
  il_count :: nat
  il_consecutive :: nat

definition imu_liftoff_init :: imu_liftoff where
  "imu_liftoff_init = \<lparr>il_ax = replicate 20 (Fin 0), il_ay = replicate 20 (Fin 0), il_az = replicate 20 (Fin 0),
     il_head = 0, il_count = 0, il_consecutive = 0\<rparr>"

definition imu_store :: "dbl \<times> dbl \<times> dbl \<Rightarrow> imu_liftoff \<Rightarrow> imu_liftoff" where
  "imu_store = (\<lambda>(ax_g, ay_g, az_g) d.
     d\<lparr>il_ax := (il_ax d)[il_head d := ax_g], il_ay := (il_ay d)[il_head d := ay_g],
       il_az := (il_az d)[il_head d := az_g], il_head := (il_head d + 1) mod 20,
       il_count := min (il_count d + 1) 20\<rparr>)"

definition above_two_g :: "imu_liftoff \<Rightarrow> bool" where
  "above_two_g d =
     (let x = array_mean (il_ax d); y = array_mean (il_ay d); z = array_mean (il_az d) in
      dless (Fin 4) (dadd (dadd (dmul x x) (dmul y y)) (dmul z z)))"

definition imu_liftoff_update :: "(dbl \<times> dbl \<times> dbl) \<times> bool \<Rightarrow> imu_liftoff \<Rightarrow> bool \<times> imu_liftoff" where
  "imu_liftoff_update = (\<lambda>((ax_g, ay_g, az_g), valid) d.
     if \<not> valid \<or> \<not> isfinite ax_g \<or> \<not> isfinite ay_g \<or> \<not> isfinite az_g
     then (False, d\<lparr>il_consecutive := 0\<rparr>)
     else let d = imu_store (ax_g, ay_g, az_g) d in
     if il_count d \<noteq> 20 then (False, d)
     else let d = d\<lparr>il_consecutive := (if above_two_g d then min 50 (il_consecutive d + 1) else 0)\<rparr> in
     (50 \<le> il_consecutive d, d))"

section \<open>Liftoff and apex by pressure\<close>

text \<open>The two detectors have the same members.\<close>

record pressure_detector =
  pr_samples :: "dbl list"
  pr_head :: nat
  pr_count :: nat
  pr_previous_mean :: dbl
  pr_have_previous_mean :: bool
  pr_consecutive :: nat

definition pressure_init :: pressure_detector where
  "pressure_init = \<lparr>pr_samples = replicate 5 (Fin 0), pr_head = 0, pr_count = 0,
     pr_previous_mean = Fin 0, pr_have_previous_mean = False, pr_consecutive = 0\<rparr>"

definition pressure_store :: "dbl \<Rightarrow> pressure_detector \<Rightarrow> pressure_detector" where
  "pressure_store p d = d\<lparr>pr_samples := (pr_samples d)[pr_head d := p], pr_head := (pr_head d + 1) mod 5,
     pr_count := min (pr_count d + 1) 5\<rparr>"

definition lps_liftoff_update :: "dbl \<times> bool \<Rightarrow> pressure_detector \<Rightarrow> bool \<times> pressure_detector" where
  "lps_liftoff_update = (\<lambda>(pressure_hpa, valid) d.
     if \<not> valid \<or> \<not> isfinite pressure_hpa then (False, pressure_init)
     else let d = pressure_store pressure_hpa d in
     if pr_count d \<noteq> 5 then (False, d)
     else let current = array_mean (pr_samples d);
              consecutive = (if pr_have_previous_mean d
                 then (if dle (rnd 0.05) (dsub (pr_previous_mean d) current)
                       then min 5 (pr_consecutive d + 1) else 0)
                 else pr_consecutive d) in
     (5 \<le> consecutive, d\<lparr>pr_consecutive := consecutive, pr_previous_mean := current,
        pr_have_previous_mean := True\<rparr>))"

definition pressure_apex_update :: "dbl \<times> bool \<times> u64 \<Rightarrow> pressure_detector \<Rightarrow> bool \<times> pressure_detector" where
  "pressure_apex_update = (\<lambda>(pressure_hpa, valid, elapsed_us) d.
     if \<not> valid \<or> \<not> isfinite pressure_hpa then (False, pressure_init)
     else let d = pressure_store pressure_hpa d in
     if pr_count d \<noteq> 5 then (False, d)
     else let current = array_mean (pr_samples d);
              consecutive = (if pr_have_previous_mean d \<and> 10000000 \<le> elapsed_us
                 then (if dless (pr_previous_mean d) current then min 25 (pr_consecutive d + 1) else 0)
                 else 0) in
     (25 \<le> consecutive, d\<lparr>pr_consecutive := consecutive, pr_previous_mean := current,
        pr_have_previous_mean := True\<rparr>))"

section \<open>The air data logic\<close>

record air_data_event =
  ad_flight_epoch :: u32
  ad_lps_liftoff_detected :: bool
  ad_pressure_apex_detected :: bool

record air_data_logic =
  al_liftoff :: pressure_detector
  al_apex :: pressure_detector
  al_flight_epoch :: u32

definition air_data_init :: air_data_logic where
  "air_data_init = \<lparr>al_liftoff = pressure_init, al_apex = pressure_init, al_flight_epoch = 0\<rparr>"

record air_data_input =
  ai_flight_epoch :: u32
  ai_state :: mission_state
  ai_elapsed_us :: u64
  ai_pressure_hpa :: dbl
  ai_valid :: bool

definition air_data_reset :: "u32 \<Rightarrow> air_data_logic \<Rightarrow> air_data_logic" where
  "air_data_reset flight_epoch l = \<lparr>al_liftoff = pressure_init, al_apex = pressure_init, al_flight_epoch = flight_epoch\<rparr>"

definition air_data_update :: "air_data_input \<Rightarrow> air_data_logic \<Rightarrow> air_data_event \<times> air_data_logic" where
  "air_data_update i l =
     (let l = (if ai_flight_epoch i \<noteq> al_flight_epoch l \<or> ai_state i = MS_command_receive
               then air_data_reset (ai_flight_epoch i) l else l);
          (lift, dl) = (if ai_state i = MS_liftoff_detection
               then lps_liftoff_update (ai_pressure_hpa i, ai_valid i) (al_liftoff l)
               else (False, pressure_init));
          apex_state = (ai_state i = MS_engine_burn \<or> ai_state i = MS_control);
          (apex, da) = pressure_apex_update (ai_pressure_hpa i, ai_valid i \<and> apex_state, ai_elapsed_us i) (al_apex l)
      in (\<lparr>ad_flight_epoch = ai_flight_epoch i, ad_lps_liftoff_detected = lift, ad_pressure_apex_detected = apex\<rparr>,
          l\<lparr>al_liftoff := dl, al_apex := da\<rparr>))"

section \<open>Freshness and the airspeed gate\<close>

datatype availability_reason =
    AR_available | AR_not_initialized | AR_powered_off | AR_unhealthy | AR_no_valid_sample | AR_stale
  | AR_calibration_missing

record 'a fresh_sample =
  fr_value :: 'a
  fr_timestamp_us :: u64
  fr_initialized :: bool
  fr_powered :: bool
  fr_healthy :: bool
  fr_have_value :: bool

definition fresh_publish :: "'a \<Rightarrow> u64 \<Rightarrow> 'a fresh_sample \<Rightarrow> 'a fresh_sample" where
  "fresh_publish v timestamp_us s = s\<lparr>fr_value := v, fr_timestamp_us := timestamp_us, fr_have_value := True\<rparr>"

definition fresh_init :: "'a \<Rightarrow> 'a fresh_sample" where
  "fresh_init blank = \<lparr>fr_value = blank, fr_timestamp_us = 0, fr_initialized = False, fr_powered = True,
     fr_healthy = False, fr_have_value = False\<rparr>"

definition setInitialized :: "bool \<Rightarrow> 'a fresh_sample \<Rightarrow> 'a fresh_sample" where
  "setInitialized initialized s = s\<lparr>fr_initialized := initialized\<rparr>"
definition setPowered :: "bool \<Rightarrow> 'a fresh_sample \<Rightarrow> 'a fresh_sample" where
  "setPowered powered s = s\<lparr>fr_powered := powered\<rparr>"
definition setHealthy :: "bool \<Rightarrow> 'a fresh_sample \<Rightarrow> 'a fresh_sample" where
  "setHealthy healthy s = s\<lparr>fr_healthy := healthy\<rparr>"

definition fresh_availability :: "u64 \<Rightarrow> u64 \<Rightarrow> 'a fresh_sample \<Rightarrow> availability_reason" where
  "fresh_availability now_us freshness_us s =
     (if \<not> fr_initialized s then AR_not_initialized
      else if \<not> fr_powered s then AR_powered_off
      else if \<not> fr_healthy s then AR_unhealthy
      else if \<not> fr_have_value s then AR_no_valid_sample
      else if now_us < fr_timestamp_us s \<or> freshness_us < now_us - fr_timestamp_us s then AR_stale
      else AR_available)"

definition kEntrySamples :: nat where "kEntrySamples = 50"
definition kStopSamples :: nat where "kStopSamples = 20"

record airspeed_gate =
  ag_entry_count :: nat
  ag_stop_count :: nat
  ag_above_threshold :: bool

definition airspeed_gate_init :: airspeed_gate where
  "airspeed_gate_init = \<lparr>ag_entry_count = 0, ag_stop_count = 0, ag_above_threshold = False\<rparr>"

definition airspeed_gate_update :: "bool \<times> dbl \<Rightarrow> airspeed_gate \<Rightarrow> bool \<times> airspeed_gate" where
  "airspeed_gate_update = (\<lambda>(available, airspeed_mps) g.
     let g = (if \<not> available \<or> \<not> isfinite airspeed_mps
              then g\<lparr>ag_entry_count := 0, ag_stop_count := kStopSamples, ag_above_threshold := False\<rparr>
              else if dless (Fin 60) airspeed_mps
              then let entry = min kEntrySamples (ag_entry_count g + 1) in
                   g\<lparr>ag_stop_count := 0, ag_entry_count := entry,
                     ag_above_threshold := (if kEntrySamples \<le> entry then True else ag_above_threshold g)\<rparr>
              else let stop = min kStopSamples (ag_stop_count g + 1) in
                   g\<lparr>ag_entry_count := 0, ag_stop_count := stop,
                     ag_above_threshold := (if kStopSamples \<le> stop then False else ag_above_threshold g)\<rparr>)
     in (ag_above_threshold g, g))"

section \<open>Encoder status\<close>

text \<open>The status of the AS5047D driver.\<close>

record as5047d_status =
  as_magnetic_too_low :: bool
  as_magnetic_too_high :: bool
  as_cordic_overflow :: bool
  as_offset_compensation_finished :: bool
  as_agc :: u8
  as_magnitude :: u16

definition statusResponseAllZero :: "as5047d_status \<Rightarrow> bool" where
  "statusResponseAllZero s =
     (\<not> as_magnetic_too_low s \<and> \<not> as_magnetic_too_high s \<and> \<not> as_cordic_overflow s \<and>
      \<not> as_offset_compensation_finished s \<and> as_agc s = 0 \<and> as_magnitude s = 0)"

definition statusFaulted :: "as5047d_status \<Rightarrow> bool" where
  "statusFaulted s = (as_magnetic_too_low s \<or> as_magnetic_too_high s \<or> as_cordic_overflow s \<or> statusResponseAllZero s)"

text \<open>\<open>None\<close> stands for \<open>ESP_ERR_INVALID_RESPONSE\<close>, \<open>Some\<close> for the transport's own result.\<close>

definition validateStatus :: "bool \<Rightarrow> as5047d_status \<Rightarrow> bool option" where
  "validateStatus transport_ok s = (if transport_ok \<and> statusResponseAllZero s then None else Some transport_ok)"

section \<open>Rail presence\<close>

record presence_config =
  pp_configured :: bool
  pp_present_on_voltage_v :: dbl
  pp_present_off_voltage_v :: dbl
  pp_assert_samples :: u16
  pp_clear_samples :: u16
  pp_stale_timeout_us :: u64

record presence_detector =
  pp_config :: presence_config
  pp_last_valid_timestamp_us :: u64
  pp_assert_count :: u16
  pp_clear_count :: u16
  pp_present :: bool

definition presence_init :: "presence_config \<Rightarrow> presence_detector" where
  "presence_init config = \<lparr>pp_config = config, pp_last_valid_timestamp_us = 0, pp_assert_count = 0,
     pp_clear_count = 0, pp_present = False\<rparr>"

definition presence_reset :: "presence_detector \<Rightarrow> presence_detector" where
  "presence_reset d = d\<lparr>pp_last_valid_timestamp_us := 0, pp_assert_count := 0, pp_clear_count := 0, pp_present := False\<rparr>"

text \<open>\<open>count + 1\<close> is an \<open>int\<close> that the argument of \<open>std::min<uint16_t>\<close> converts back.\<close>

definition presence_update :: "u64 \<Rightarrow> dbl \<Rightarrow> bool \<Rightarrow> presence_detector \<Rightarrow> presence_detector" where
  "presence_update timestamp_us voltage_v sample_valid d =
     (let c = pp_config d in
      if \<not> pp_configured c \<or> \<not> sample_valid \<or> timestamp_us = 0 \<or> \<not> isfinite voltage_v then d
      else let d = d\<lparr>pp_last_valid_timestamp_us := timestamp_us\<rparr> in
      if \<not> pp_present d
      then let d = d\<lparr>pp_clear_count := 0,
                 pp_assert_count := (if dle (pp_present_on_voltage_v c) voltage_v
                    then min (pp_assert_count d + 1) (pp_assert_samples c) else 0)\<rparr> in
           if pp_assert_samples c \<noteq> 0 \<and> pp_assert_samples c \<le> pp_assert_count d
           then d\<lparr>pp_present := True, pp_assert_count := 0\<rparr> else d
      else let d = d\<lparr>pp_assert_count := 0,
                 pp_clear_count := (if dle voltage_v (pp_present_off_voltage_v c)
                    then min (pp_clear_count d + 1) (pp_clear_samples c) else 0)\<rparr> in
           if pp_clear_samples c \<noteq> 0 \<and> pp_clear_samples c \<le> pp_clear_count d
           then d\<lparr>pp_present := False, pp_clear_count := 0\<rparr> else d)"

definition rail_present :: "u64 \<Rightarrow> presence_detector \<Rightarrow> bool" where
  "rail_present now_us d =
     (let c = pp_config d in
      if \<not> pp_configured c \<or> \<not> pp_present d \<or> pp_last_valid_timestamp_us d = 0 \<or>
        now_us < pp_last_valid_timestamp_us d then False
      else pp_stale_timeout_us c = 0 \<or> now_us - pp_last_valid_timestamp_us d \<le> pp_stale_timeout_us c)"

definition kLogicConfig :: presence_config where
  "kLogicConfig = \<lparr>pp_configured = True, pp_present_on_voltage_v = Fin 1, pp_present_off_voltage_v = rnd 0.5,
     pp_assert_samples = 3, pp_clear_samples = 2, pp_stale_timeout_us = 500000\<rparr>"

definition observeOne :: "u8 \<Rightarrow> u64 \<Rightarrow> presence_detector \<Rightarrow> presence_detector" where
  "observeOne raw timestamp_us d =
     (let valid = (raw \<le> 240) in
      presence_update timestamp_us
        (if valid then dmul (Fin (real (unat raw))) (rnd 0.05) else Fin 0) valid d)"

definition observeRaw ::
    "u8 \<Rightarrow> u8 \<Rightarrow> u64 \<Rightarrow> presence_detector \<times> presence_detector \<Rightarrow> presence_detector \<times> presence_detector" where
  "observeRaw logic_voltage_raw motor_voltage_raw timestamp_us = (\<lambda>(logic_detector, motor_detector).
     (observeOne logic_voltage_raw timestamp_us logic_detector,
      observeOne motor_voltage_raw timestamp_us motor_detector))"

section \<open>The detectors debounce\<close>

definition imu_good :: "(dbl \<times> dbl \<times> dbl) \<times> bool \<Rightarrow> imu_liftoff \<Rightarrow> bool" where
  "imu_good = (\<lambda>((ax_g, ay_g, az_g), valid) d.
     valid \<and> isfinite ax_g \<and> isfinite ay_g \<and> isfinite az_g \<and>
     (let d = imu_store (ax_g, ay_g, az_g) d in il_count d = 20 \<and> above_two_g d))"

definition imu_wf :: "imu_liftoff \<Rightarrow> bool" where
  "imu_wf d = (il_count d \<le> 20 \<and> (il_count d < 20 \<longrightarrow> il_consecutive d = 0) \<and> il_consecutive d \<le> 50)"

lemma imu_store_counts [simp]:
  "il_count (imu_store a d) = min (il_count d + 1) 20" "il_consecutive (imu_store a d) = il_consecutive d"
  by (simp_all add: imu_store_def split: prod.splits)

interpretation imu: debounced imu_liftoff_update imu_good imu_wf il_consecutive 50
proof
  fix s s' i b
  assume wf: "imu_wf s" and u: "imu_liftoff_update i s = (b, s')"
  obtain x y z v where i: "i = ((x, y, z), v)" by (metis prod_cases3 surj_pair)
  have above: "above_two_g (d\<lparr>il_consecutive := n\<rparr>) = above_two_g d" for d n by (simp add: above_two_g_def)
  show "imu_wf s'" "il_consecutive s' = (if imu_good i s then min 50 (il_consecutive s + 1) else 0)"
    "b = (50 \<le> il_consecutive s')"
    using wf u by (auto simp: i imu_liftoff_update_def imu_good_def imu_wf_def Let_def above split: if_splits)
qed

text \<open>Both pressure detectors keep the previous mean only while their window is full.\<close>

definition pressure_wf :: "nat \<Rightarrow> pressure_detector \<Rightarrow> bool" where
  "pressure_wf n d = (pr_count d \<le> 5 \<and> (pr_have_previous_mean d \<longrightarrow> pr_count d = 5) \<and>
     (pr_consecutive d > 0 \<longrightarrow> pr_have_previous_mean d) \<and> pr_consecutive d \<le> n)"

lemma pressure_store_fields [simp]:
  "pr_count (pressure_store p d) = min (pr_count d + 1) 5"
  "pr_have_previous_mean (pressure_store p d) = pr_have_previous_mean d"
  "pr_previous_mean (pressure_store p d) = pr_previous_mean d"
  "pr_consecutive (pressure_store p d) = pr_consecutive d"
  by (simp_all add: pressure_store_def)

lemma pressure_init_fields [simp]:
  "pr_count pressure_init = 0" "pr_have_previous_mean pressure_init = False" "pr_consecutive pressure_init = 0"
  by (simp_all add: pressure_init_def)

definition lps_good :: "dbl \<times> bool \<Rightarrow> pressure_detector \<Rightarrow> bool" where
  "lps_good = (\<lambda>(p, valid) d. valid \<and> isfinite p \<and> pr_have_previous_mean d \<and>
     dle (rnd 0.05) (dsub (pr_previous_mean d) (array_mean (pr_samples (pressure_store p d)))))"

definition apex_good :: "dbl \<times> bool \<times> u64 \<Rightarrow> pressure_detector \<Rightarrow> bool" where
  "apex_good = (\<lambda>(p, valid, elapsed_us) d. valid \<and> isfinite p \<and> 10000000 \<le> elapsed_us \<and> pr_have_previous_mean d \<and>
     dless (pr_previous_mean d) (array_mean (pr_samples (pressure_store p d))))"

interpretation lps: debounced lps_liftoff_update lps_good "pressure_wf 5" pr_consecutive 5
  by unfold_locales (auto simp: lps_liftoff_update_def lps_good_def pressure_wf_def Let_def split: if_splits prod.splits)

interpretation apex: debounced pressure_apex_update apex_good "pressure_wf 25" pr_consecutive 25
  by unfold_locales (auto simp: pressure_apex_update_def apex_good_def pressure_wf_def Let_def split: if_splits prod.splits)

section \<open>How much data a detection takes\<close>

text \<open>\<open>n\<close> valid samples in a row so far: a full window, then one more sample for every comparison.\<close>

definition fed :: "nat \<Rightarrow> pressure_detector \<Rightarrow> bool" where
  "fed n d = (pr_count d \<le> n \<and> (pr_have_previous_mean d \<longrightarrow> 5 \<le> n \<and> pr_count d = 5) \<and> (0 < pr_consecutive d \<longrightarrow> pr_consecutive d + 5 \<le> n \<and>
     pr_have_previous_mean d))"

lemma fed_init: "fed n pressure_init"
  by (simp add: fed_def)

lemma lps_fed:
  assumes "fed n d" "lps_liftoff_update (p, v) d = (b, d')"
  shows "fed (if v \<and> isfinite p then n + 1 else 0) d' \<and> (b \<longrightarrow> v \<and> isfinite p \<and> 10 \<le> n + 1)"
  using assms by (auto simp: lps_liftoff_update_def fed_def Let_def split: if_splits)

lemma apex_fed:
  assumes "fed n d" "pressure_apex_update (p, v, e) d = (b, d')" "pr_consecutive d \<le> m"
  shows "fed (if v \<and> isfinite p then n + 1 else 0) d' \<and>
     pr_consecutive d' \<le> (if v \<and> isfinite p \<and> 10000000 \<le> e then m + 1 else 0) \<and>
     (b \<longrightarrow> v \<and> isfinite p \<and> 10000000 \<le> e \<and> 30 \<le> n + 1 \<and> 25 \<le> m + 1)"
  using assms by (auto simp: pressure_apex_update_def fed_def Let_def split: if_splits)

text \<open>The events and the final state of a run.\<close>

fun air_data_run :: "air_data_input list \<Rightarrow> air_data_logic \<Rightarrow> air_data_event list \<times> air_data_logic" where
  "air_data_run [] l = ([], l)"
| "air_data_run (i # is) l =
     (case air_data_update i l of (e, l) \<Rightarrow> case air_data_run is l of (es, l) \<Rightarrow> (e # es, l))"

lemma air_data_run_snoc:
  "air_data_run (is @ [i]) l = (case air_data_run is l of (es, l1) \<Rightarrow> case air_data_update i l1 of (e, l2) \<Rightarrow>
     (es @ [e], l2))"
  by (induction "is" arbitrary: l) (simp_all split: prod.splits)

definition lift_input :: "u32 \<Rightarrow> air_data_input \<Rightarrow> bool" where
  "lift_input epoch i = (ai_flight_epoch i = epoch \<and> ai_state i = MS_liftoff_detection \<and> ai_valid i \<and>
     isfinite (ai_pressure_hpa i))"

definition apex_input :: "u32 \<Rightarrow> air_data_input \<Rightarrow> bool" where
  "apex_input epoch i = (ai_flight_epoch i = epoch \<and> ai_state i \<in> {MS_engine_burn, MS_control} \<and> ai_valid i \<and>
     isfinite (ai_pressure_hpa i))"

definition late_apex_input :: "u32 \<Rightarrow> air_data_input \<Rightarrow> bool" where
  "late_apex_input epoch i = (apex_input epoch i \<and> 10000000 \<le> ai_elapsed_us i)"

definition streak_inputs :: "(air_data_input \<Rightarrow> bool) \<Rightarrow> air_data_input list \<Rightarrow> nat" where
  "streak_inputs P is = streak_of (map P is)"

lemma streak_inputs_snoc [simp]: "streak_inputs P (is @ [i]) = (if P i then streak_inputs P is + 1 else 0)"
  by (simp add: streak_inputs_def)

definition logic_fed :: "air_data_input list \<Rightarrow> air_data_logic \<Rightarrow> bool" where
  "logic_fed is l =
     (fed (streak_inputs (lift_input (al_flight_epoch l)) is) (al_liftoff l) \<and>
      fed (streak_inputs (apex_input (al_flight_epoch l)) is) (al_apex l) \<and>
      pr_consecutive (al_apex l) \<le> streak_inputs (late_apex_input (al_flight_epoch l)) is)"

lemma logic_step:
  assumes fed: "logic_fed is l" and step: "air_data_update i l = (e, l')"
  shows "logic_fed (is @ [i]) l' \<and>
     (ad_lps_liftoff_detected e \<longrightarrow> 10 \<le> streak_inputs (lift_input (ai_flight_epoch i)) (is @ [i])) \<and>
     (ad_pressure_apex_detected e \<longrightarrow> 30 \<le> streak_inputs (apex_input (ai_flight_epoch i)) (is @ [i]) \<and>
        25 \<le> streak_inputs (late_apex_input (ai_flight_epoch i)) (is @ [i]))"
proof -
  let ?e = "ai_flight_epoch i"
  define l1 where "l1 = (if ?e \<noteq> al_flight_epoch l \<or> ai_state i = MS_command_receive then air_data_reset ?e l else l)"
  have epoch: "al_flight_epoch l1 = ?e" by (simp add: l1_def air_data_reset_def)
  have l1: "fed (streak_inputs (lift_input ?e) is) (al_liftoff l1)" "fed (streak_inputs (apex_input ?e) is) (al_apex l1)"
      "pr_consecutive (al_apex l1) \<le> streak_inputs (late_apex_input ?e) is"
    using fed by (auto simp: l1_def air_data_reset_def logic_fed_def fed_init)
  obtain lift dl where dl: "(if ai_state i = MS_liftoff_detection
      then lps_liftoff_update (ai_pressure_hpa i, ai_valid i) (al_liftoff l1) else (False, pressure_init)) = (lift, dl)" by fastforce
  obtain apex da where da: "pressure_apex_update (ai_pressure_hpa i, ai_valid i \<and>
      (ai_state i = MS_engine_burn \<or> ai_state i = MS_control), ai_elapsed_us i) (al_apex l1) = (apex, da)" by fastforce
  have out: "ad_lps_liftoff_detected e = lift" "ad_pressure_apex_detected e = apex"
      "l' = l1\<lparr>al_liftoff := dl, al_apex := da\<rparr>"
    using step unfolding air_data_update_def l1_def[symmetric] Let_def dl prod.case da by auto
  have lift: "fed (streak_inputs (lift_input ?e) (is @ [i])) dl \<and>
      (lift \<longrightarrow> 10 \<le> streak_inputs (lift_input ?e) (is @ [i]))"
    using dl lps_fed[OF l1(1), of "ai_pressure_hpa i" "ai_valid i" lift dl]
    by (auto simp: lift_input_def fed_init split: if_splits)
  have apex: "fed (streak_inputs (apex_input ?e) (is @ [i])) da \<and>
      pr_consecutive da \<le> streak_inputs (late_apex_input ?e) (is @ [i]) \<and>
      (apex \<longrightarrow> 30 \<le> streak_inputs (apex_input ?e) (is @ [i]) \<and> 25 \<le> streak_inputs (late_apex_input ?e) (is @ [i]))"
    using apex_fed[OF l1(2) da l1(3)] by (auto simp: apex_input_def late_apex_input_def split: if_splits)
  show ?thesis using lift apex epoch unfolding out logic_fed_def by simp
qed

section \<open>The airspeed gate\<close>

fun gate_run :: "(bool \<times> dbl) list \<Rightarrow> airspeed_gate \<Rightarrow> airspeed_gate" where
  "gate_run [] g = g"
| "gate_run (i # is) g = gate_run is (snd (airspeed_gate_update i g))"

lemma gate_run_snoc: "gate_run (is @ [i]) g = snd (airspeed_gate_update i (gate_run is g))"
  by (induction "is" arbitrary: g) simp_all

definition usable_speed :: "bool \<times> dbl \<Rightarrow> bool" where "usable_speed = (\<lambda>(available, v). available \<and> isfinite v)"
definition fast :: "bool \<times> dbl \<Rightarrow> bool" where "fast i = (usable_speed i \<and> dless (Fin 60) (snd i))"
definition slow :: "bool \<times> dbl \<Rightarrow> bool" where "slow i = (usable_speed i \<and> \<not> dless (Fin 60) (snd i))"

lemma gate_counts:
  "ag_entry_count (gate_run is airspeed_gate_init) = min 50 (streak_of (map fast is)) \<and>
   (ag_above_threshold (gate_run is airspeed_gate_init) \<longrightarrow>
      ag_stop_count (gate_run is airspeed_gate_init) = streak_of (map slow is) \<and> streak_of (map slow is) < 20)"
proof (induction "is" rule: rev_induct)
  case Nil
  then show ?case by (simp add: airspeed_gate_init_def streak_of_def)
next
  case (snoc i "is")
  obtain a v where "i = (a, v)" by fastforce
  then show ?case
    using snoc unfolding gate_run_snoc
    by (auto simp: airspeed_gate_update_def Let_def fast_def slow_def usable_speed_def kEntrySamples_def kStopSamples_def)
qed

lemma air_data_fed: "air_data_run is air_data_init = (es, l) \<Longrightarrow> logic_fed is l"
proof (induction "is" arbitrary: es l rule: rev_induct)
  case Nil
  then show ?case by (auto simp: air_data_init_def logic_fed_def fed_init)
next
  case (snoc i "is")
  obtain es1 l1 where "air_data_run is air_data_init = (es1, l1)" by fastforce
  moreover obtain e l2 where "air_data_update i l1 = (e, l2)" by fastforce
  ultimately show ?case
    using snoc.IH logic_step[of "is" l1 i e l2] snoc.prems by (simp add: air_data_run_snoc)
qed

section \<open>Properties\<close>

text \<open>C11: The air data logic raises its flight events only on uninterrupted evidence of the current flight.
  A liftoff takes ten consecutive valid finite pressures in liftoff detection, a pressure apex
  thirty in engine burn or control of which the last twenty-five come at least 10 s after liftoff; all
  carry the epoch of the event. A change of epoch, another state or one invalid sample starts over.\<close>

theorem air_data_evidence:
  assumes "air_data_run (is @ [i]) air_data_init = (es, l)"
  shows "(ad_lps_liftoff_detected (last es) \<longrightarrow>
       10 \<le> streak_inputs (lift_input (ai_flight_epoch i)) (is @ [i])) \<and>
     (ad_pressure_apex_detected (last es) \<longrightarrow>
       30 \<le> streak_inputs (apex_input (ai_flight_epoch i)) (is @ [i]) \<and>
       25 \<le> streak_inputs (late_apex_input (ai_flight_epoch i)) (is @ [i]))"
proof -
  obtain es1 l1 where r: "air_data_run is air_data_init = (es1, l1)" by fastforce
  obtain e l2 where u: "air_data_update i l1 = (e, l2)" by fastforce
  have "last es = e" using assms r u by (auto simp: air_data_run_snoc)
  then show ?thesis using logic_step[OF air_data_fed[OF r] u] by simp
qed

theorem air_data_evidence_witness:
  "\<exists>es l. air_data_run [\<lparr>ai_flight_epoch = 1, ai_state = MS_liftoff_detection, ai_elapsed_us = 0,
       ai_pressure_hpa = Fin 1000, ai_valid = True\<rparr>] air_data_init = (es, l) \<and> \<not> ad_lps_liftoff_detected (last es)"
proof -
  let ?i = "\<lparr>ai_flight_epoch = 1, ai_state = MS_liftoff_detection, ai_elapsed_us = 0,
      ai_pressure_hpa = Fin 1000, ai_valid = True\<rparr>"
  obtain es l where r: "air_data_run ([] @ [?i]) air_data_init = (es, l)" by fastforce
  have "\<not> ad_lps_liftoff_detected (last es)"
    using air_data_evidence[OF r] by (simp add: streak_inputs_def streak_of_def split: if_splits)
  then show ?thesis using r by auto
qed

text \<open>The detectors are exact debouncers, over any input: the acceleration detector answers true
  exactly when the last 50 samples each were valid and completed a 20-sample window whose mean exceeds
  2 g; the pressure detectors exactly when the last 5 (25) samples each lowered (raised) the
  windowed mean, by 0.05 hPa for the liftoff, 10 s after liftoff or later for the apex.\<close>

theorem detectors_debounce:
  assumes "debounce_run imu_liftoff_update imu_good (xs @ [x]) imu_liftoff_init = (gs1, bs1, d1)"
    and "debounce_run lps_liftoff_update lps_good (ys @ [y]) pressure_init = (gs2, bs2, d2)"
    and "debounce_run pressure_apex_update apex_good (zs @ [z]) pressure_init = (gs3, bs3, d3)"
  shows "last bs1 = (50 \<le> streak_of gs1) \<and> last bs2 = (5 \<le> streak_of gs2) \<and> last bs3 = (25 \<le> streak_of gs3)"
proof -
  have "imu_wf imu_liftoff_init" "il_consecutive imu_liftoff_init = 0"
    by (simp_all add: imu_wf_def imu_liftoff_init_def)
  moreover have "pressure_wf n pressure_init" for n by (simp add: pressure_wf_def)
  ultimately show ?thesis
    using imu.fires_after_streak[OF _ _ assms(1)] lps.fires_after_streak[OF _ _ assms(2)]
      apex.fires_after_streak[OF _ _ assms(3)] by simp
qed

theorem detectors_debounce_witness:
  "\<exists>gs bs d. debounce_run imu_liftoff_update imu_good [((Fin 3, Fin 0, Fin 0), True)] imu_liftoff_init = (gs, bs, d) \<and>
     \<not> last bs"
proof -
  obtain gs1 bs1 d1 where 1: "debounce_run imu_liftoff_update imu_good ([] @ [((Fin 3, Fin 0, Fin 0), True)])
      imu_liftoff_init = (gs1, bs1, d1)" by (metis prod_cases3)
  obtain gs2 bs2 d2 where 2: "debounce_run lps_liftoff_update lps_good ([] @ [(Fin 1000, True)]) pressure_init =
      (gs2, bs2, d2)" by (metis prod_cases3)
  obtain gs3 bs3 d3 where 3: "debounce_run pressure_apex_update apex_good ([] @ [(Fin 1000, True, 0)]) pressure_init =
      (gs3, bs3, d3)" by (metis prod_cases3)
  have "length gs1 = 1" using 1 by (auto split: prod.splits)
  then have "streak_of gs1 \<le> 1" using length_takeWhile_le[of id "rev gs1"] by (simp add: streak_of_def)
  then show ?thesis using detectors_debounce[OF 1 2 3] 1 by auto
qed

text \<open>The airspeed gate has hysteresis over any history: it opens exactly at the 50th consecutive usable
  speed above 60 m/s, and an open gate closes exactly at an unusable sample or at the 20th
  consecutive one that is not above 60 m/s.\<close>

theorem airspeed_gate_hysteresis:
  "ag_above_threshold (gate_run (is @ [i]) airspeed_gate_init) =
     (if ag_above_threshold (gate_run is airspeed_gate_init)
      then usable_speed i \<and> streak_of (map slow (is @ [i])) < 20
      else 50 \<le> streak_of (map fast (is @ [i])))"
proof -
  obtain a v where "i = (a, v)" by fastforce
  then show ?thesis
    using gate_counts[of "is"] unfolding gate_run_snoc
    by (auto simp: airspeed_gate_update_def Let_def fast_def slow_def usable_speed_def kEntrySamples_def kStopSamples_def)
qed

end
