(* ===== verification/Control_Pipeline.thy ===== *)
theory Control_Pipeline
  imports Fin_Overtravel Flight_Detectors
begin

text \<open>
  \<open>src/control/control_pipeline.{hpp,cpp}\<close> with the constants of \<open>src/config/\<close>: the roll controller and
  its gain schedule, the zero hold of the fin, the velocity estimator, the map from torque to PWM, and
  the choice of the control mode. Arithmetic is that of \<open>Double\<close>; a \<open>float\<close> field holds a value of
  the narrower format, written out as its exact fraction, and is used as a double.
\<close>

section \<open>Configuration\<close>

datatype motor_polarity = MP_unconfigured | MP_positive_in1 | MP_positive_in2

record motor_profile =
  mp_id :: u8
  mp_polarity :: motor_polarity
  mp_parameters_valid :: bool
  mp_resistance_ohm :: dbl
  mp_torque_constant_nm_per_a :: dbl
  mp_speed_constant_rpm_per_v :: dbl
  mp_drivetrain_efficiency :: dbl
  mp_max_motor_current_a :: dbl
  mp_max_output_torque_nm :: dbl

record fin_limits =
  fl_configured :: bool
  fl_minimum_rad :: dbl
  fl_maximum_rad :: dbl

record authority_limits =
  ca_hold_position_limit_Nm :: dbl
  ca_zero_hold_requested_torque_limit_Nm :: dbl
  ca_roll_control_gentle_limit_Nm :: dbl
  ca_roll_control_high_authority_limit_Nm :: dbl

definition authority_valid :: "authority_limits \<Rightarrow> bool" where
  "authority_valid l =
     (dless (Fin 0) (ca_hold_position_limit_Nm l) \<and>
      dless (Fin 0) (ca_zero_hold_requested_torque_limit_Nm l) \<and>
      dless (Fin 0) (ca_roll_control_gentle_limit_Nm l) \<and>
      dle (ca_roll_control_gentle_limit_Nm l) (ca_roll_control_high_authority_limit_Nm l))"

definition kControlAuthorityLimits :: authority_limits where
  "kControlAuthorityLimits = \<lparr>ca_hold_position_limit_Nm = rnd 0.30,
     ca_zero_hold_requested_torque_limit_Nm = rnd 0.80,
     ca_roll_control_gentle_limit_Nm = rnd 1.21208, ca_roll_control_high_authority_limit_Nm = Fin 3\<rparr>"

definition kFlightMotorA :: motor_profile where
  "kFlightMotorA = \<lparr>mp_id = 1, mp_polarity = MP_positive_in1, mp_parameters_valid = True,
     mp_resistance_ohm = Fin (7298089 / 2 ^ 21), mp_torque_constant_nm_per_a = Fin (9180493 / 2 ^ 30),
     mp_speed_constant_rpm_per_v = Fin 1120, mp_drivetrain_efficiency = Fin (5033165 / 2 ^ 23),
     mp_max_motor_current_a = Fin 2, mp_max_output_torque_nm = Fin (635479 / 2 ^ 19)\<rparr>"

definition kFlightMotorAFlightQualified :: bool where "kFlightMotorAFlightQualified = False"

definition kSpareMotorB :: motor_profile where
  "kSpareMotorB = \<lparr>mp_id = 2, mp_polarity = MP_unconfigured, mp_parameters_valid = False,
     mp_resistance_ohm = Fin 0, mp_torque_constant_nm_per_a = Fin 0, mp_speed_constant_rpm_per_v = Fin 0,
     mp_drivetrain_efficiency = Fin 0, mp_max_motor_current_a = Fin 0, mp_max_output_torque_nm = Fin 0\<rparr>"

definition kSpareMotorBFlightQualified :: bool where "kSpareMotorBFlightQualified = False"

definition kFinSoftwareLimits :: fin_limits where
  "kFinSoftwareLimits = \<lparr>fl_configured = True, fl_minimum_rad = Fin (- 16397789 / 2 ^ 26),
     fl_maximum_rad = Fin (16397789 / 2 ^ 26)\<rparr>"

definition kMotorBusVoltageV :: dbl where "kMotorBusVoltageV = Fin 9"

text \<open>The build selects profile 1 or 2.\<close>

definition motorProfileValid :: "nat \<Rightarrow> bool" where
  "motorProfileValid profile_id =
     (let (profile, qualified) = (if profile_id = 1 then (kFlightMotorA, kFlightMotorAFlightQualified)
                                  else (kSpareMotorB, kSpareMotorBFlightQualified)) in
      mp_parameters_valid profile \<and> mp_polarity profile \<noteq> MP_unconfigured \<and> qualified)"

section \<open>Clamping\<close>

definition clampMagnitude :: "dbl \<Rightarrow> dbl \<Rightarrow> bool \<Rightarrow> dbl \<times> bool" where
  "clampMagnitude v limit saturated =
     (if dle (dabs v) limit then (v, saturated) else (dcopysign limit v, True))"

section \<open>Roll control\<close>

record roll_state =
  rs_roll_deviation_unwrapped_rad :: dbl
  rs_fin_rad :: dbl
  rs_roll_rate_rad_s :: dbl
  rs_fin_rate_rad_s :: dbl

record gain_point =
  gp_airspeed_mps :: dbl
  gp_gain :: "dbl list"

record gain_schedule =
  gs_points :: "gain_point list"
  gs_configured :: bool

record torque_request =
  tr_output_torque_nm :: dbl
  tr_saturated :: bool
  tr_valid :: bool

definition no_torque :: torque_request where
  "no_torque = \<lparr>tr_output_torque_nm = Fin 0, tr_saturated = False, tr_valid = False\<rparr>"

datatype roll_authority = RA_gentle | RA_high_authority
datatype verification_mode = VM_closed_loop | VM_matched_control_off

definition kRollGainSchedule :: gain_schedule where
  "kRollGainSchedule = \<lparr>gs_points = map (\<lambda>v. \<lparr>gp_airspeed_mps = Fin v,
     gp_gain = [rnd 0.08, rnd 2.32, rnd 0.04, rnd 0.296]\<rparr>) [60, 80, 100, 120, 140, 160, 180],
     gs_configured = True\<rparr>"

definition finiteState :: "roll_state \<Rightarrow> bool" where
  "finiteState s = (isfinite (rs_roll_deviation_unwrapped_rad s) \<and> isfinite (rs_fin_rad s) \<and>
     isfinite (rs_roll_rate_rad_s s) \<and> isfinite (rs_fin_rate_rad_s s))"

definition kRequiredSpeeds :: "dbl list" where
  "kRequiredSpeeds = map Fin [60, 80, 100, 120, 140, 160, 180]"

text \<open>The search for the upper point from index \<open>high\<close> on.\<close>

function upper_point :: "gain_point list \<Rightarrow> dbl \<Rightarrow> nat \<Rightarrow> nat" where
  "upper_point points limited_speed high =
     (if high < length points \<and> dless (gp_airspeed_mps (points ! high)) limited_speed
      then upper_point points limited_speed (high + 1) else high)"
  by pat_completeness auto
termination by (relation "measure (\<lambda>(points, _, high). length points - high)") auto

declare upper_point.simps [simp del]

text \<open>The sum over the four states, left to right; \<open>None\<close> at a gain that is not finite.\<close>

fun feedback :: "dbl \<Rightarrow> (dbl \<times> dbl \<times> dbl) list \<Rightarrow> dbl \<Rightarrow> dbl option" where
  "feedback fraction [] torque = Some torque"
| "feedback fraction ((left, right, v) # rest) torque =
     (let gain = dadd left (dmul fraction (dsub right left)) in
      if \<not> isfinite gain then None else feedback fraction rest (dsub torque (dmul gain v)))"

definition roll_feedback :: "gain_schedule \<Rightarrow> roll_state \<Rightarrow> dbl \<Rightarrow> dbl option" where
  "roll_feedback schedule s airspeed_mps =
     (let limited_speed = dclamp airspeed_mps (Fin 60) (Fin 180);
          points = gs_points schedule;
          high = min (upper_point points limited_speed 1) (length points - 1);
          low = (if high = 0 then 0 else high - 1);
          left = points ! low; right = points ! high in
      if dless (gp_airspeed_mps right) (gp_airspeed_mps left) \<or> dless (gp_airspeed_mps left) (Fin 60) \<or>
        dless (Fin 180) (gp_airspeed_mps right) then None
      else let denominator = dsub (gp_airspeed_mps right) (gp_airspeed_mps left);
               fraction = (if dless (Fin 0) denominator
                 then ddiv (dsub limited_speed (gp_airspeed_mps left)) denominator else Fin 0);
               values = [rs_roll_deviation_unwrapped_rad s, rs_fin_rad s, rs_roll_rate_rad_s s, rs_fin_rate_rad_s s] in
      feedback fraction (map (\<lambda>i. (gp_gain left ! i, gp_gain right ! i, values ! i)) [0..<4]) (Fin 0))"

definition roll_compute ::
    "gain_schedule \<Rightarrow> roll_state \<Rightarrow> dbl \<Rightarrow> roll_authority \<Rightarrow> authority_limits \<Rightarrow> verification_mode \<Rightarrow> torque_request" where
  "roll_compute schedule s airspeed_mps authority limits mode =
     (let output_limit_nm = (if authority = RA_gentle then ca_roll_control_gentle_limit_Nm limits
                             else ca_roll_control_high_authority_limit_Nm limits) in
      if \<not> gs_configured schedule \<or> \<not> finiteState s \<or> \<not> isfinite airspeed_mps \<or>
        \<not> isfinite output_limit_nm \<or> dle output_limit_nm (Fin 0) then no_torque
      else if list_ex (\<lambda>i. \<not> deq (gp_airspeed_mps (gs_points schedule ! i)) (kRequiredSpeeds ! i)) [0..<7]
      then no_torque
      else case roll_feedback schedule s airspeed_mps of
        None \<Rightarrow> no_torque
      | Some torque \<Rightarrow>
          if \<not> isfinite torque then no_torque
          else if mode = VM_matched_control_off
          then \<lparr>tr_output_torque_nm = Fin 0, tr_saturated = False, tr_valid = True\<rparr>
          else case clampMagnitude torque output_limit_nm False of (torque, saturated) \<Rightarrow>
            \<lparr>tr_output_torque_nm = torque, tr_saturated = saturated, tr_valid = True\<rparr>)"

section \<open>Zero hold\<close>

record zero_hold_config =
  zh_proportional_gain :: dbl
  zh_derivative_gain :: dbl
  zh_torque_limit_Nm :: dbl
  zh_valid_angle_rad :: dbl
  zh_valid_rate_rad_s :: dbl
  zh_valid_samples :: nat

definition zero_hold_default :: zero_hold_config where
  "zero_hold_default = \<lparr>zh_proportional_gain = rnd 2.32, zh_derivative_gain = rnd 0.296,
     zh_torque_limit_Nm = rnd 0.80, zh_valid_angle_rad = rnd 0.017453292519943295,
     zh_valid_rate_rad_s = rnd 0.08726646259971647, zh_valid_samples = 100\<rparr>"

definition zero_hold_compute :: "zero_hold_config \<Rightarrow> fin_guard \<Rightarrow> dbl \<Rightarrow> dbl \<Rightarrow> torque_request" where
  "zero_hold_compute c g angle_rad rate_rad_s =
     (if finOvertravelFaultLatched g then no_torque
      else if \<not> isfinite angle_rad \<or> \<not> isfinite rate_rad_s \<or> \<not> isfinite (zh_proportional_gain c) \<or>
        \<not> isfinite (zh_derivative_gain c) \<or> dle (zh_torque_limit_Nm c) (Fin 0) then no_torque
      else let torque = dsub (dmul (dneg (zh_proportional_gain c)) angle_rad)
                 (dmul (zh_derivative_gain c) rate_rad_s) in
      case clampMagnitude torque (zh_torque_limit_Nm c) False of (torque, saturated) \<Rightarrow>
        \<lparr>tr_output_torque_nm = torque, tr_saturated = saturated, tr_valid = True\<rparr>)"

text \<open>The count of valid samples and the overtravel guard that the call also feeds.\<close>

definition updateValidity ::
    "zero_hold_config \<Rightarrow> dbl \<times> dbl \<times> bool \<Rightarrow> nat \<times> fin_guard \<Rightarrow> bool \<times> nat \<times> fin_guard" where
  "updateValidity c = (\<lambda>(angle_rad, rate_rad_s, sample_valid) (valid_count, g).
     let g = observeFinOvertravel angle_rad sample_valid g;
         inside = (sample_valid \<and> isfinite angle_rad \<and> isfinite rate_rad_s \<and>
           dle (dabs angle_rad) (zh_valid_angle_rad c) \<and> dle (dabs rate_rad_s) (zh_valid_rate_rad_s c));
         valid_count = (if \<not> inside then 0
           else if valid_count < zh_valid_samples c then valid_count + 1 else valid_count)
     in (zh_valid_samples c \<noteq> 0 \<and> zh_valid_samples c \<le> valid_count, valid_count, g))"

section \<open>Velocity estimation\<close>

record estimator_point =
  ep_timestamp_us :: u64
  ep_angle_rad :: dbl

text \<open>The points in use; \<open>count_\<close> is their number.\<close>

type_synonym estimator = "estimator_point list"

definition signed_us :: "u64 \<Rightarrow> int" where "signed_us t = (if uint t < 2 ^ 63 then uint t else uint t - 2 ^ 64)"

text \<open>The time of a point relative to the last one, in seconds.\<close>

definition seconds_from :: "estimator_point \<Rightarrow> estimator_point \<Rightarrow> dbl" where
  "seconds_from newest p =
     dmul (rnd (of_int (signed_us (ep_timestamp_us p) - signed_us (ep_timestamp_us newest)))) (rnd (1 / 10 ^ 6))"

definition quadratic_rate :: "estimator_point \<Rightarrow> estimator_point \<Rightarrow> estimator_point \<Rightarrow> dbl option" where
  "quadratic_rate p0 p1 p2 =
     (let t0 = seconds_from p2 p0; t1 = seconds_from p2 p1 in
      if deq t0 (Fin 0) \<or> deq t1 (Fin 0) \<or> deq t0 t1 then None
      else let derivative_l0 = ddiv (dneg t1) (dmul t0 (dsub t0 t1));
               derivative_l1 = ddiv (dneg t0) (dmul t1 (dsub t1 t0));
               derivative_l2 = ddiv (dneg (dadd t0 t1)) (dmul t0 t1);
               candidate = dadd (dadd (dmul (ep_angle_rad p0) derivative_l0) (dmul (ep_angle_rad p1) derivative_l1))
                 (dmul (ep_angle_rad p2) derivative_l2) in
      if isfinite candidate then Some candidate else None)"

definition estimator_update :: "u64 \<Rightarrow> dbl \<Rightarrow> estimator \<Rightarrow> dbl option \<times> estimator" where
  "estimator_update timestamp_us angle_rad ps =
     (if \<not> isfinite angle_rad \<or> ps \<noteq> [] \<and> timestamp_us \<le> ep_timestamp_us (last ps) then (None, [])
      else let p = \<lparr>ep_timestamp_us = timestamp_us, ep_angle_rad = angle_rad\<rparr>;
               ps = (if length ps < 3 then ps @ [p] else [ps ! 1, ps ! 2, p]) in
      if length ps < 3 then (None, ps) else (quadratic_rate (ps ! 0) (ps ! 1) (ps ! 2), ps))"

section \<open>From torque to PWM\<close>

record motor_command =
  mc_requested_output_torque_nm :: dbl
  mc_motor_current_a :: dbl
  mc_motor_voltage_v :: dbl
  mc_pwm_duty :: dbl
  mc_positive_in1 :: bool
  mc_saturated :: bool
  mc_brake :: bool
  mc_valid :: bool

definition motor_command_init :: motor_command where
  "motor_command_init = \<lparr>mc_requested_output_torque_nm = Fin 0, mc_motor_current_a = Fin 0,
     mc_motor_voltage_v = Fin 0, mc_pwm_duty = Fin 0, mc_positive_in1 = False, mc_saturated = False,
     mc_brake = True, mc_valid = False\<rparr>"

definition kTotalGearRatio :: dbl where "kTotalGearRatio = rnd 176.175"
definition kPi :: dbl where "kPi = rnd 3.14159265358979323846"
definition kRadiansPerRpm :: dbl where "kRadiansPerRpm = ddiv (dmul (Fin 2) kPi) (Fin 60)"

definition mapper_refuses :: "motor_profile \<Rightarrow> fin_limits \<Rightarrow> dbl \<Rightarrow> dbl \<Rightarrow> dbl \<Rightarrow> dbl \<Rightarrow> bool" where
  "mapper_refuses p l torque angle rate bus =
     (\<not> mp_parameters_valid p \<or> mp_polarity p = MP_unconfigured \<or> \<not> fl_configured l \<or>
      dle (mp_resistance_ohm p) (Fin 0) \<or> dle (mp_torque_constant_nm_per_a p) (Fin 0) \<or>
      dle (mp_speed_constant_rpm_per_v p) (Fin 0) \<or> dle (mp_drivetrain_efficiency p) (Fin 0) \<or>
      dle (mp_max_motor_current_a p) (Fin 0) \<or> dle (mp_max_output_torque_nm p) (Fin 0) \<or>
      dle (fl_maximum_rad l) (fl_minimum_rad l) \<or> \<not> isfinite torque \<or> \<not> isfinite angle \<or>
      \<not> isfinite rate \<or> \<not> isfinite bus \<or> dle bus (Fin 0))"

definition torque_map :: "motor_profile \<Rightarrow> fin_limits \<Rightarrow> dbl \<Rightarrow> dbl \<Rightarrow> dbl \<Rightarrow> dbl \<Rightarrow> motor_command" where
  "torque_map p l requested_output_torque_nm fin_angle_rad fin_rate_rad_s motor_bus_voltage_v =
     (if mapper_refuses p l requested_output_torque_nm fin_angle_rad fin_rate_rad_s motor_bus_voltage_v
      then motor_command_init
      else case clampMagnitude requested_output_torque_nm (mp_max_output_torque_nm p) False of (torque, saturated) \<Rightarrow>
      if dle (fl_maximum_rad l) fin_angle_rad \<and> dle (Fin 0) torque \<or>
        dle fin_angle_rad (fl_minimum_rad l) \<and> dle torque (Fin 0)
      then \<lparr>mc_requested_output_torque_nm = Fin 0, mc_motor_current_a = Fin 0, mc_motor_voltage_v = Fin 0,
            mc_pwm_duty = Fin 0, mc_positive_in1 = True, mc_saturated = True, mc_brake = True, mc_valid = True\<rparr>
      else let motor_torque = ddiv torque (dmul kTotalGearRatio (mp_drivetrain_efficiency p)) in
      case clampMagnitude (ddiv motor_torque (mp_torque_constant_nm_per_a p)) (mp_max_motor_current_a p) saturated of
        (current, saturated) \<Rightarrow>
      let motor_speed_rad_s = dmul fin_rate_rad_s kTotalGearRatio;
          motor_speed_rpm = ddiv motor_speed_rad_s kRadiansPerRpm;
          back_emf_v = ddiv motor_speed_rpm (mp_speed_constant_rpm_per_v p);
          voltage = dadd (dmul current (mp_resistance_ohm p)) back_emf_v;
          duty = dclamp (ddiv (dabs voltage) motor_bus_voltage_v) (Fin 0) (Fin 1);
          saturated = (saturated \<or> dless motor_bus_voltage_v (dabs voltage));
          positive_voltage = dle (Fin 0) voltage;
          positive_in1 = (if mp_polarity p = MP_positive_in1 then positive_voltage else \<not> positive_voltage) in
      \<lparr>mc_requested_output_torque_nm = torque, mc_motor_current_a = current, mc_motor_voltage_v = voltage,
       mc_pwm_duty = duty, mc_positive_in1 = positive_in1, mc_saturated = saturated, mc_brake = False, mc_valid = True\<rparr>)"

section \<open>Structure, stoppers and mode\<close>

definition elasticDeflectionRad :: "dbl \<Rightarrow> dbl" where
  "elasticDeflectionRad output_torque_nm = ddiv output_torque_nm (rnd 269.43)"

definition conservativeLostMotionRad :: dbl where "conservativeLostMotionRad = rnd 0.00600"

datatype stopper_judgement = SJ_pass | SJ_fail | SJ_needs_hardware_validation

record stopper_observation =
  so_fin_angle_rad :: dbl
  so_fin_rate_rad_s :: dbl
  so_static_contact_torque_nm :: dbl
  so_dynamic_contact :: bool

definition judgeStopperContact :: "stopper_observation \<Rightarrow> stopper_judgement" where
  "judgeStopperContact observation =
     (if \<not> isfinite (so_fin_angle_rad observation) \<or> \<not> isfinite (so_fin_rate_rad_s observation) \<or>
        \<not> isfinite (so_static_contact_torque_nm observation) \<or>
        dless (ddiv (dmul (Fin 15) kPi) (Fin 180)) (dabs (so_fin_angle_rad observation)) \<or>
        dless (rnd 7.10328) (dabs (so_static_contact_torque_nm observation)) then SJ_fail
      else if so_dynamic_contact observation then SJ_needs_hardware_validation else SJ_pass)"

datatype control_mode = CMode_brake | CMode_zero_hold | CMode_roll_control

definition choose_mode :: "bool \<Rightarrow> bool \<Rightarrow> bool \<Rightarrow> bool \<Rightarrow> bool \<Rightarrow> control_mode" where
  "choose_mode roll_requested zero_hold_requested fin_available control_inputs_valid fin_control_disabled =
     (if \<not> fin_available \<or> fin_control_disabled then CMode_brake
      else if roll_requested \<and> control_inputs_valid then CMode_roll_control
      else if zero_hold_requested then CMode_zero_hold
      else CMode_brake)"

section \<open>Bounds\<close>

lemma dabs_copysign: "dabs (dcopysign m v) = dabs m"
  by (cases m) (auto simp: dcopysign_def)

lemma clamp_bounds:
  assumes "clampMagnitude v (Fin limit) sat = (u, sat')" "0 \<le> limit" "\<not> isnan v"
  shows "isfinite u \<and> dle (dabs u) (Fin limit) \<and> (dnegative u \<longrightarrow> dnegative v) \<and> (sat \<longrightarrow> sat')"
  using assms by (cases v) (auto simp: clampMagnitude_def dcopysign_def split: if_splits)

lemma roll_compute_result:
  "roll_compute schedule s v authority limits mode = no_torque \<or>
   (\<exists>u. tr_output_torque_nm (roll_compute schedule s v authority limits mode) = Fin u \<and>
      tr_valid (roll_compute schedule s v authority limits mode) \<and> finiteState s \<and> isfinite v \<and>
      dle (Fin \<bar>u\<bar>) (if authority = RA_gentle then ca_roll_control_gentle_limit_Nm limits
                     else ca_roll_control_high_authority_limit_Nm limits) \<and>
      (mode = VM_matched_control_off \<longrightarrow> u = 0))"
proof (cases "roll_compute schedule s v authority limits mode = no_torque")
  case False
  define lim where "lim = (if authority = RA_gentle then ca_roll_control_gentle_limit_Nm limits
    else ca_roll_control_high_authority_limit_Nm limits)"
  obtain torque where t: "roll_feedback schedule s v = Some torque" "isfinite torque" "finiteState s" "isfinite v"
      "isfinite lim" "\<not> dle lim (Fin 0)"
    using False by (auto simp: roll_compute_def lim_def[symmetric] Let_def split: if_splits option.splits)
  obtain x where x: "lim = Fin x" "0 < x" using t(5,6) by (cases lim) auto
  obtain u sat where c: "clampMagnitude torque (Fin x) False = (u, sat)" by fastforce
  have b: "isfinite u \<and> dle (dabs u) (Fin x)"
    using clamp_bounds[OF c] x(2) t(2) by (cases torque) auto
  have "roll_compute schedule s v authority limits mode =
      (if mode = VM_matched_control_off then \<lparr>tr_output_torque_nm = Fin 0, tr_saturated = False, tr_valid = True\<rparr>
       else \<lparr>tr_output_torque_nm = u, tr_saturated = sat, tr_valid = True\<rparr>)"
    using False t c x by (auto simp: roll_compute_def lim_def[symmetric] Let_def split: if_splits)
  then show ?thesis using b t x(2) unfolding lim_def[symmetric] x(1) by (cases u) auto
qed simp

text \<open>A profile that the mapper can compute with.\<close>

definition finite_profile :: "motor_profile \<Rightarrow> bool" where
  "finite_profile p = (isfinite (mp_resistance_ohm p) \<and> isfinite (mp_max_motor_current_a p) \<and>
     isfinite (mp_max_output_torque_nm p) \<and> isfinite (mp_drivetrain_efficiency p) \<and>
     isfinite (mp_torque_constant_nm_per_a p) \<and> isfinite (mp_speed_constant_rpm_per_v p))"

lemma rnd_not_nan [simp]: "\<not> isnan (rnd x)"
  by (simp add: rnd_def Let_def)

lemma ddiv_not_nan: "isfinite x \<Longrightarrow> isfinite y \<Longrightarrow> y \<noteq> Fin 0 \<Longrightarrow> \<not> isnan (ddiv x y)"
  by (cases x; cases y) auto

lemma clamp_unit: "\<not> isnan x \<Longrightarrow> \<exists>d. dclamp x (Fin 0) (Fin 1) = Fin d \<and> 0 \<le> d \<and> d \<le> 1"
  by (cases x) (auto simp: dclamp_def)

text \<open>The constants of the mapper that it divides by.\<close>

lemma rnd_between:
  assumes "representable a" "representable b" "a \<le> x" "x \<le> b" "0 \<le> a" "b \<le> 2 ^ 53"
  obtains r where "rnd x = Fin r" "a \<le> r" "r \<le> b"
proof -
  have "\<bar>x\<bar> \<le> 2 ^ 53" using assms by simp
  from that[OF rnd_finite[OF this]] show ?thesis using assms rnd_real_le rnd_real_ge by blast
qed

lemma small_representable: "(n :: int) \<le> 2 ^ 53 \<Longrightarrow> 0 \<le> n \<Longrightarrow> representable (of_int n)"
  by (intro representable_int) simp

lemma gear_efficiency: "\<exists>g. dmul kTotalGearRatio (mp_drivetrain_efficiency kFlightMotorA) = Fin g \<and> 1 \<le> g"
proof -
  have rep: "representable 176" "representable 177" "representable 1024"
    using small_representable[of 176] small_representable[of 177] small_representable[of 1024] by simp_all
  obtain r where r: "kTotalGearRatio = Fin r" "176 \<le> r" "r \<le> 177"
    unfolding kTotalGearRatio_def by (rule rnd_between[OF rep(1,2), of "176.175"]) auto
  have "1 \<le> r * (5033165 / 2 ^ 23)" "r * (5033165 / 2 ^ 23) \<le> 1024" using r(2,3) by simp_all
  then obtain g where "rnd (r * (5033165 / 2 ^ 23)) = Fin g" "1 \<le> g"
    by (rule rnd_between[OF representable_1 rep(3)]) auto
  then show ?thesis unfolding r(1) by (simp add: kFlightMotorA_def)
qed

lemma gear_finite: "\<exists>r. kTotalGearRatio = Fin r \<and> r \<noteq> 0"
proof -
  have rep: "representable 176" "representable 177"
    using small_representable[of 176] small_representable[of 177] by simp_all
  obtain r where "kTotalGearRatio = Fin r" "176 \<le> r"
    unfolding kTotalGearRatio_def by (rule rnd_between[OF rep, of "176.175"]) auto
  then show ?thesis by auto
qed

lemma radians_per_rpm: "\<exists>k. kRadiansPerRpm = Fin k \<and> 0 < k"
proof -
  have rep: "representable 3" "representable 4" "representable 6" "representable 8" "representable (1 / 2 ^ 4)"
    using small_representable[of 3] small_representable[of 4] small_representable[of 6] small_representable[of 8]
      representable_scaled[of 1 4] by simp_all
  obtain p where p: "kPi = Fin p" "3 \<le> p" "p \<le> 4"
    unfolding kPi_def by (rule rnd_between[OF rep(1,2), of "3.14159265358979323846"]) auto
  obtain q where q: "rnd (2 * p) = Fin q" "6 \<le> q" "q \<le> 8"
    by (rule rnd_between[OF rep(3,4), of "2 * p"]) (use p in auto)
  obtain k where "rnd (q / 60) = Fin k" "1 / 2 ^ 4 \<le> k"
    by (rule rnd_between[OF rep(5) representable_1, of "q / 60"]) (use q in auto)
  then show ?thesis unfolding kRadiansPerRpm_def p(1) by (simp add: q(1))
qed

lemma back_emf_not_nan:
  assumes "isfinite rate"
  shows "\<not> isnan (ddiv (ddiv (dmul rate kTotalGearRatio) kRadiansPerRpm) (mp_speed_constant_rpm_per_v kFlightMotorA))"
proof -
  obtain r k where rk: "kTotalGearRatio = Fin r" "kRadiansPerRpm = Fin k" "0 < k"
    using gear_finite radians_per_rpm by blast
  have div: "\<not> isnan x \<Longrightarrow> 0 < y \<Longrightarrow> \<not> isnan (ddiv x (Fin y))" for x y by (cases x) auto
  have "\<not> isnan (dmul rate kTotalGearRatio)" unfolding rk(1) using assms by (cases rate) simp_all
  from div[OF this rk(3)] have "\<not> isnan (ddiv (dmul rate kTotalGearRatio) kRadiansPerRpm)" unfolding rk(2) .
  moreover have "mp_speed_constant_rpm_per_v kFlightMotorA = Fin 1120" by (simp add: kFlightMotorA_def)
  ultimately show ?thesis using div[of _ 1120] by simp
qed

text \<open>The roll controller never asks for more than its authority. For any schedule, states and speed,
  infinities and NaN included, it either refuses with the invalid zero request or returns a finite
  torque within the limit of the selected authority; it refuses whenever a state or the speed is not
  finite, and the matched control-off mode asks for zero under the same checks.\<close>

theorem roll_torque_limited:
  "roll_compute schedule s v authority limits mode = no_torque \<or>
   (\<exists>u. tr_output_torque_nm (roll_compute schedule s v authority limits mode) = Fin u \<and>
      tr_valid (roll_compute schedule s v authority limits mode) \<and> finiteState s \<and> isfinite v \<and>
      dle (Fin \<bar>u\<bar>) (if authority = RA_gentle then ca_roll_control_gentle_limit_Nm limits
                     else ca_roll_control_high_authority_limit_Nm limits) \<and>
      u = (if mode = VM_matched_control_off then 0 else u))"
  using roll_compute_result[of schedule s v authority limits mode] by auto

text \<open>C8: What the flight motor can be given. For any torque request, angle, rate and bus voltage, NaN and
  infinities included, \<open>map\<close> either refuses (a brake command with duty 0) or brakes with duty 0
  because the fin is at a software limit and the request is not away from it, or drives with a duty between
  0 and 1, at most 2 A, at most the motor's torque, and the half bridge of the voltage's sign.\<close>

theorem motor_output_bounded:
  "let c = torque_map kFlightMotorA limits torque angle rate bus in
   if mapper_refuses kFlightMotorA limits torque angle rate bus then c = motor_command_init
   else if dle (fl_maximum_rad limits) angle \<and> dle (Fin 0) torque \<or> dle angle (fl_minimum_rad limits) \<and> dle torque (Fin 0)
   then mc_brake c \<and> mc_pwm_duty c = Fin 0 \<and> mc_valid c
   else \<not> mc_brake c \<and> mc_valid c \<and> (\<exists>d. mc_pwm_duty c = Fin d \<and> 0 \<le> d \<and> d \<le> 1) \<and>
     dle (dabs (mc_motor_current_a c)) (Fin 2) \<and>
     dle (dabs (mc_requested_output_torque_nm c)) (mp_max_output_torque_nm kFlightMotorA) \<and>
     mc_positive_in1 c = dle (Fin 0) (mc_motor_voltage_v c)"
proof (cases "mapper_refuses kFlightMotorA limits torque angle rate bus")
  case True
  then show ?thesis by (simp add: torque_map_def)
next
  case False
  define maximum where "maximum = (635479 / 2 ^ 19 :: real)"
  have max: "mp_max_output_torque_nm kFlightMotorA = Fin maximum" "0 < maximum"
    by (simp_all add: kFlightMotorA_def maximum_def)
  have fin: "isfinite torque" "isfinite rate" and "isfinite bus" "\<not> dle bus (Fin 0)"
    using False by (simp_all add: mapper_refuses_def)
  then have bus: "\<exists>b. bus = Fin b \<and> 0 < b" by (cases bus) auto
  obtain t sat where t: "clampMagnitude torque (Fin maximum) False = (t, sat)" by fastforce
  have tb: "isfinite t" "dle (dabs t) (Fin maximum)"
    using clamp_bounds[OF t] max(2) fin(1) by (cases torque; auto)+
  have sign: "dle (Fin 0) t = dle (Fin 0) torque" "dle t (Fin 0) = dle torque (Fin 0)"
    using t max(2) fin(1) by (cases torque; auto simp: clampMagnitude_def dcopysign_def split: if_splits)+
  obtain g where g: "dmul kTotalGearRatio (mp_drivetrain_efficiency kFlightMotorA) = Fin g" "1 \<le> g"
    using gear_efficiency by blast
  define raw where "raw = ddiv (ddiv t (Fin g)) (mp_torque_constant_nm_per_a kFlightMotorA)"
  have raw: "\<not> isnan raw"
    using tb(1) g(2) unfolding raw_def kFlightMotorA_def by (cases t) (auto simp: rnd_def Let_def)
  obtain i sat2 where i: "clampMagnitude raw (Fin 2) sat = (i, sat2)" by fastforce
  have ib: "isfinite i" "dle (dabs i) (Fin 2)" using clamp_bounds[OF i _ raw] by auto
  define emf where "emf = ddiv (ddiv (dmul rate kTotalGearRatio) kRadiansPerRpm) (mp_speed_constant_rpm_per_v kFlightMotorA)"
  have emf: "\<not> isnan emf" unfolding emf_def using back_emf_not_nan[OF fin(2)] .
  define volt where "volt = dadd (dmul i (mp_resistance_ohm kFlightMotorA)) emf"
  have volt: "\<not> isnan volt"
  proof -
    obtain i' where i': "i = Fin i'" "\<bar>i'\<bar> \<le> 2" using ib by (cases i) auto
    have "\<bar>i' * (7298089 / 2 ^ 21)\<bar> \<le> 2 ^ 53"
    proof -
      have "\<bar>i' * (7298089 / 2 ^ 21)\<bar> = \<bar>i'\<bar> * (7298089 / 2 ^ 21)" by (simp add: abs_mult)
      also have "\<dots> \<le> 2 * (7298089 / 2 ^ 21)" using i'(2) by (intro mult_right_mono) auto
      finally show ?thesis by simp
    qed
    then have "dmul i (mp_resistance_ohm kFlightMotorA) = Fin (rnd_real (i' * (7298089 / 2 ^ 21)))"
      using i'(1) by (simp add: kFlightMotorA_def rnd_finite)
    then show ?thesis using emf by (cases emf) (simp_all add: volt_def)
  qed
  have duty: "\<exists>d. dclamp (ddiv (dabs volt) bus) (Fin 0) (Fin 1) = Fin d \<and> 0 \<le> d \<and> d \<le> 1"
    using volt bus by (intro clamp_unit) (cases volt; auto)
  have amps: "mp_max_motor_current_a kFlightMotorA = Fin 2" "mp_polarity kFlightMotorA = MP_positive_in1"
    by (simp_all add: kFlightMotorA_def)
  show ?thesis
    using False t i duty tb ib sign
    by (simp add: torque_map_def Let_def max(1) amps g(1) raw_def[symmetric] emf_def[symmetric] volt_def[symmetric])
qed

section \<open>Zero hold over a history\<close>

definition zero_hold_inside :: "dbl \<times> dbl \<times> bool \<Rightarrow> bool" where
  "zero_hold_inside = (\<lambda>(angle_rad, rate_rad_s, sample_valid).
     sample_valid \<and> isfinite angle_rad \<and> isfinite rate_rad_s \<and>
     dle (dabs angle_rad) (rnd 0.017453292519943295) \<and> dle (dabs rate_rad_s) (rnd 0.08726646259971647))"

interpretation zero_hold: debounced "updateValidity zero_hold_default" "\<lambda>i _. zero_hold_inside i"
    "\<lambda>s. fst s \<le> 100" fst 100
  by unfold_locales
    (auto simp: updateValidity_def zero_hold_default_def zero_hold_inside_def Let_def split: if_splits)

lemma debounce_goods: "debounce_run update (\<lambda>i _. P i) is s = (gs, bs, s') \<Longrightarrow> gs = map P is"
  by (induction "is" arbitrary: s gs bs) (auto split: prod.splits)

lemma debounce_guard:
  "debounce_run (updateValidity c) good is s = (gs, bs, s') \<Longrightarrow>
     finOvertravelFaultLatched (snd s') =
       (finOvertravelFaultLatched (snd s) \<or> list_ex (\<lambda>(a, r, v). outside (a, v)) is)"
proof (induction "is" arbitrary: s gs bs)
  case (Cons i "is")
  obtain b s1 where u: "updateValidity c i s = (b, s1)" by (metis surj_pair)
  obtain gs1 bs1 where "debounce_run (updateValidity c) good is s1 = (gs1, bs1, s')"
    using Cons.prems u by (auto split: prod.splits)
  from Cons.IH[OF this] show ?case
    using u by (auto simp: updateValidity_def Let_def finOvertravelFaultLatched_def guard_simps split: prod.splits)
qed simp

text \<open>The zero hold over any history of samples: the fin counts as held exactly when the last 100 samples
  were valid, finite and within 1 degree and 5 degrees per second; and one usable sample beyond the
  20 degree limit anywhere in the history leaves the controller without torque.\<close>

theorem zero_hold_history:
  assumes "debounce_run (updateValidity zero_hold_default) (\<lambda>i _. zero_hold_inside i) (is @ [i]) (0, g0) = (gs, bs, n, g)"
  shows "last bs = (100 \<le> streak_of (map zero_hold_inside (is @ [i]))) \<and>
     zero_hold_compute c g angle rate =
       (if finOvertravelFaultLatched g0 \<or> list_ex (\<lambda>(a, r, v). outside (a, v)) (is @ [i]) then no_torque
        else zero_hold_compute c (g\<lparr>fg_fault_latched := False\<rparr>) angle rate)"
proof -
  have "last bs = (100 \<le> streak_of gs)" by (rule zero_hold.fires_after_streak[OF _ _ assms]) simp_all
  moreover have "gs = map zero_hold_inside (is @ [i])" using debounce_goods[OF assms] .
  moreover have "finOvertravelFaultLatched g =
      (finOvertravelFaultLatched g0 \<or> list_ex (\<lambda>(a, r, v). outside (a, v)) (is @ [i]))"
    using debounce_guard[OF assms] by (simp only: snd_conv)
  ultimately show ?thesis
    by (auto simp: zero_hold_compute_def finOvertravelFaultLatched_def)
qed

theorem zero_hold_history_witness:
  "\<exists>gs bs n g. debounce_run (updateValidity zero_hold_default) (\<lambda>i _. zero_hold_inside i)
       [(Fin 1, Fin 0, True)] (0, fin_guard_init) = (gs, bs, n, g) \<and>
     \<not> last bs \<and> zero_hold_compute zero_hold_default g (Fin 0) (Fin 0) = no_torque"
proof -
  obtain gs bs n g where r: "debounce_run (updateValidity zero_hold_default) (\<lambda>i _. zero_hold_inside i)
      ([] @ [(Fin 1, Fin 0, True)]) (0, fin_guard_init) = (gs, bs, n, g)" by (metis prod_cases4)
  obtain k where k: "kFinOvertravelFaultLimitRad = Fin k" "k < 1" using limit_value by blast
  have "outside (Fin 1, True)" using k(2) by (simp add: outside_def usable_def k(1))
  then show ?thesis
    using zero_hold_history[OF r, of zero_hold_default "Fin 0" "Fin 0"] r
    by (auto simp: streak_of_def)
qed

section \<open>The window of the estimator\<close>

fun estimator_run :: "(u64 \<times> dbl) list \<Rightarrow> estimator \<Rightarrow> dbl option list \<times> estimator" where
  "estimator_run [] ps = ([], ps)"
| "estimator_run ((t, a) # is) ps =
     (case estimator_update t a ps of (r, ps) \<Rightarrow> case estimator_run is ps of (rs, ps) \<Rightarrow> (r # rs, ps))"

lemma estimator_run_snoc:
  "estimator_run (is @ [(t, a)]) ps = (case estimator_run is ps of (rs, ps1) \<Rightarrow>
     case estimator_update t a ps1 of (r, ps2) \<Rightarrow> (rs @ [r], ps2))"
  by (induction "is" arbitrary: ps) (auto split: prod.splits)

definition point_of :: "u64 \<times> dbl \<Rightarrow> estimator_point" where
  "point_of = (\<lambda>(t, a). \<lparr>ep_timestamp_us = t, ep_angle_rad = a\<rparr>)"

definition window_of :: "(u64 \<times> dbl) list \<Rightarrow> estimator \<Rightarrow> bool" where
  "window_of is ps = (length ps \<le> 3 \<and> (\<exists>before. map point_of is = before @ ps) \<and>
     sorted_wrt (<) (map ep_timestamp_us ps) \<and> list_all (\<lambda>p. isfinite (ep_angle_rad p)) ps)"

lemma sorted_before_last:
  fixes f :: "'a \<Rightarrow> 'b::linorder"
  shows "sorted_wrt (<) (map f ps) \<Longrightarrow> x \<in> set ps \<Longrightarrow> f x \<le> f (last ps)"
  by (induction ps) (auto split: if_splits simp: less_imp_le)

lemma window_step:
  assumes w: "window_of is ps" and u: "estimator_update t a ps = (r, ps')"
  shows "window_of (is @ [(t, a)]) ps' \<and> (r = None \<or> length ps' = 3)"
proof (cases "\<not> isfinite a \<or> ps \<noteq> [] \<and> t \<le> ep_timestamp_us (last ps)")
  case True
  then show ?thesis using u by (auto simp: estimator_update_def window_of_def)
next
  case False
  define p where "p = \<lparr>ep_timestamp_us = t, ep_angle_rad = a\<rparr>"
  obtain before where before: "map point_of is = before @ ps" using w by (auto simp: window_of_def)
  have later: "x \<in> set ps \<Longrightarrow> ep_timestamp_us x < t" for x
    using w False sorted_before_last[of ep_timestamp_us ps x] unfolding window_of_def by fastforce
  have p: "point_of (t, a) = p" "ep_timestamp_us p = t" "ep_angle_rad p = a" by (simp_all add: point_of_def p_def)
  have whole: "map point_of (is @ [(t, a)]) = before @ (ps @ [p])" using before p by simp
  have sorted: "sorted_wrt (<) (map ep_timestamp_us (ps @ [p]))" "list_all (\<lambda>p. isfinite (ep_angle_rad p)) (ps @ [p])"
    using w later False p by (auto simp: window_of_def sorted_wrt_append)
  define ps2 where "ps2 = (if length ps < 3 then ps @ [p] else [ps ! 1, ps ! 2, p])"
  have res: "ps' = ps2" "r = None \<or> length ps2 = 3"
    using u False unfolding ps2_def by (auto simp: estimator_update_def p_def Let_def split: if_splits)
  have "window_of (is @ [(t, a)]) ps2"
  proof (cases "length ps < 3")
    case True
    then show ?thesis using whole sorted unfolding window_of_def ps2_def by auto
  next
    case False
    then have "length ps = 3" using w by (simp add: window_of_def)
    then obtain x y z where ps: "ps = [x, y, z]"
      by (auto simp: numeral_3_eq_3 length_Suc_conv)
    have "map point_of (is @ [(t, a)]) = (before @ [x]) @ [y, z, p]" using whole ps by simp
    then show ?thesis using sorted False unfolding window_of_def ps2_def ps by auto
  qed
  then show ?thesis using res by simp
qed

lemma estimator_run_window: "estimator_run is [] = (rs, ps) \<Longrightarrow> window_of is ps"
proof (induction "is" arbitrary: rs ps rule: rev_induct)
  case Nil
  then show ?case by (simp add: window_of_def)
next
  case (snoc i "is")
  obtain t a where i: "i = (t, a)" by fastforce
  obtain rs1 ps1 where r: "estimator_run is [] = (rs1, ps1)" by fastforce
  obtain r2 ps2 where u: "estimator_update t a ps1 = (r2, ps2)" by fastforce
  show ?case using window_step[OF snoc.IH[OF r] u] snoc.prems r u by (simp add: i estimator_run_snoc)
qed

text \<open>The velocity estimator works on consecutive samples only: after any history its points are the
  last at most three samples, finite and with strictly increasing timestamps, and a rate comes only
  from three of them; a sample that is not finite or not later empties it.\<close>

theorem estimator_window:
  "let (rs, ps) = estimator_run (is @ [(t, a)]) [] in
   window_of (is @ [(t, a)]) ps \<and> (last rs = None \<or> length ps = 3)"
proof -
  obtain rs1 ps1 where r: "estimator_run is [] = (rs1, ps1)" by fastforce
  obtain r2 ps2 where u: "estimator_update t a ps1 = (r2, ps2)" by fastforce
  show ?thesis using window_step[OF estimator_run_window[OF r] u] r u by (simp add: estimator_run_snoc)
qed

end
