(* ===== verification/Characterization_Types.thy ===== *)
theory Characterization_Types
  imports Prelude
begin

text \<open>
  \<open>include/characterization/characterization_types.hpp\<close>: the constants, enumerations and structs
  shared by the motor identification firmware. An enumeration is a datatype with its wire value
  as \<open>..._code\<close>; its last constructor \<open>..._other\<close> is every value without an enumerator, which a
  \<open>static_cast\<close> of a decoded byte (\<open>..._cast\<close>) may give. Aliases of enumerators and union members
  of the same type are one name.
\<close>

section \<open>Constants\<close>

definition kCharSchemaVersion :: u16 where "kCharSchemaVersion = 5"
definition kProfileContractVersion :: u32 where "kProfileContractVersion = 1"
definition kConsumerRateHz :: u32 where "kConsumerRateHz = 1000"
definition kEpochDurationUs :: u64 where "kEpochDurationUs = 1000"
definition kConsumerDeadlineBudgetUs :: u32 where "kConsumerDeadlineBudgetUs = 100"
definition kMaximumEncoderSamplesPerEpoch :: nat where "kMaximumEncoderSamplesPerEpoch = 5"
definition kSessionIdBytes :: nat where "kSessionIdBytes = 32"
definition kSessionIdMaximumPrintableBytes :: nat where "kSessionIdMaximumPrintableBytes = 31"
definition kFinMechanicalLimitMilliDeg :: int where "kFinMechanicalLimitMilliDeg = 15000"
definition kRoutineEnvelopeMilliDeg :: int where "kRoutineEnvelopeMilliDeg = 8000"
definition kHardAbortMilliDeg :: int where "kHardAbortMilliDeg = 10000"
definition kApproachStepMilliDeg :: int where "kApproachStepMilliDeg = 100"
definition kRawDiagnosticMask :: u16 where "kRawDiagnosticMask = 0x007F"
definition kMaximumCommandPermille :: int where "kMaximumCommandPermille = 350"

section \<open>Enumerations\<close>

datatype assembly_stage =
    Stage_None | Stage_FV | Stage_FHPositive | Stage_FHNegative | Stage_M0 | Stage_other u8

fun assembly_stage_code :: "assembly_stage \<Rightarrow> u8" where
  "assembly_stage_code Stage_None = 0"
| "assembly_stage_code Stage_FV = 1"
| "assembly_stage_code Stage_FHPositive = 2"
| "assembly_stage_code Stage_FHNegative = 3"
| "assembly_stage_code Stage_M0 = 4"
| "assembly_stage_code (Stage_other v) = v"

datatype campaign_state =
    Cam_Idle | Cam_AwaitingStageConfirmation | Cam_Ready | Cam_Running | Cam_AwaitingM0Handoff
  | Cam_PowerCycleRequired | Cam_AwaitingM0Confirmation | Cam_Completed | Cam_Faulted

datatype encoder_rate = Hz1000 | Hz2000 | Hz5000 | Hz_other u32

fun encoder_rate_code :: "encoder_rate \<Rightarrow> u32" where
  "encoder_rate_code Hz1000 = 1000"
| "encoder_rate_code Hz2000 = 2000"
| "encoder_rate_code Hz5000 = 5000"
| "encoder_rate_code (Hz_other v) = v"

datatype motor_mode = Mode_Coast | Mode_DriveIn1 | Mode_DriveIn2 | Mode_Brake | Mode_other u8

fun motor_mode_code :: "motor_mode \<Rightarrow> u8" where
  "motor_mode_code Mode_Coast = 0"
| "motor_mode_code Mode_DriveIn1 = 1"
| "motor_mode_code Mode_DriveIn2 = 2"
| "motor_mode_code Mode_Brake = 3"
| "motor_mode_code (Mode_other v) = v"

datatype profile_phase =
    Phase_Idle | Phase_StationaryBaseline | Phase_ZeroApproach | Phase_PolarityCheck
  | Phase_BreakawaySweep | Phase_SustainedMotionSweep | Phase_BoundedPulseGrid | Phase_Coast
  | Phase_ShortBrake | Phase_PositiveToNegative | Phase_NegativeToPositive | Phase_BoundedPrbs
  | Phase_BandLimitedNoise | Phase_Chirp | Phase_Recenter | Phase_other u8

fun profile_phase_code :: "profile_phase \<Rightarrow> u8" where
  "profile_phase_code Phase_Idle = 0"
| "profile_phase_code Phase_StationaryBaseline = 1"
| "profile_phase_code Phase_ZeroApproach = 2"
| "profile_phase_code Phase_PolarityCheck = 3"
| "profile_phase_code Phase_BreakawaySweep = 4"
| "profile_phase_code Phase_SustainedMotionSweep = 5"
| "profile_phase_code Phase_BoundedPulseGrid = 6"
| "profile_phase_code Phase_Coast = 7"
| "profile_phase_code Phase_ShortBrake = 8"
| "profile_phase_code Phase_PositiveToNegative = 9"
| "profile_phase_code Phase_NegativeToPositive = 10"
| "profile_phase_code Phase_BoundedPrbs = 11"
| "profile_phase_code Phase_BandLimitedNoise = 12"
| "profile_phase_code Phase_Chirp = 13"
| "profile_phase_code Phase_Recenter = 14"
| "profile_phase_code (Phase_other v) = v"

datatype approach_branch = Branch_None | Branch_FromPositive | Branch_FromNegative | Branch_other u8

fun approach_branch_code :: "approach_branch \<Rightarrow> u8" where
  "approach_branch_code Branch_None = 0"
| "approach_branch_code Branch_FromPositive = 1"
| "approach_branch_code Branch_FromNegative = 2"
| "approach_branch_code (Branch_other v) = v"

datatype guard_state = Guard_Allow | Guard_Coast | Guard_Abort | Guard_other u8

fun guard_state_code :: "guard_state \<Rightarrow> u8" where
  "guard_state_code Guard_Allow = 0"
| "guard_state_code Guard_Coast = 1"
| "guard_state_code Guard_Abort = 2"
| "guard_state_code (Guard_other v) = v"

datatype position_guard_reason =
    PG_None | PG_SoftLimitOutward | PG_HardLimit | PG_PredictedStopExceedsLimit
  | PG_EncoderInvalid | PG_ConsumerDeadlineMiss | PG_CommandModeMismatch
  | PG_PolarityUnconfigured | PG_ConfigurationInvalid

datatype abort_reason =
    Abort_None | Abort_StopRequested | Abort_EncoderInvalid | Abort_PositionGuard
  | Abort_Overshoot | Abort_Timeout | Abort_Deadline | Abort_QueueFull | Abort_WriterError
  | Abort_MotorApplyError | Abort_VbusInvalid | Abort_SamplerError | Abort_ValidationError
  | Abort_StageError | Abort_other u16

fun abort_reason_code :: "abort_reason \<Rightarrow> u16" where
  "abort_reason_code Abort_None = 0"
| "abort_reason_code Abort_StopRequested = 1"
| "abort_reason_code Abort_EncoderInvalid = 2"
| "abort_reason_code Abort_PositionGuard = 3"
| "abort_reason_code Abort_Overshoot = 4"
| "abort_reason_code Abort_Timeout = 5"
| "abort_reason_code Abort_Deadline = 6"
| "abort_reason_code Abort_QueueFull = 7"
| "abort_reason_code Abort_WriterError = 8"
| "abort_reason_code Abort_MotorApplyError = 9"
| "abort_reason_code Abort_VbusInvalid = 10"
| "abort_reason_code Abort_SamplerError = 11"
| "abort_reason_code Abort_ValidationError = 12"
| "abort_reason_code Abort_StageError = 13"
| "abort_reason_code (Abort_other v) = v"

datatype run_kind = Run_None | Run_RateCheck | Run_Full | Run_other u8

fun run_kind_code :: "run_kind \<Rightarrow> u8" where
  "run_kind_code Run_None = 0"
| "run_kind_code Run_RateCheck = 1"
| "run_kind_code Run_Full = 2"
| "run_kind_code (Run_other v) = v"

datatype completion_code = Done_Normal | Done_Aborted | Done_Unsupported | Done_other u8

fun completion_code_code :: "completion_code \<Rightarrow> u8" where
  "completion_code_code Done_Normal = 1"
| "completion_code_code Done_Aborted = 2"
| "completion_code_code Done_Unsupported = 3"
| "completion_code_code (Done_other v) = v"

datatype unsupported_reason =
    Unsup_None | Unsup_TriggerCoalesced | Unsup_IncompleteEpoch | Unsup_InvalidRead
  | Unsup_DeadlineMiss | Unsup_QueueOverflow | Unsup_WriterFailure | Unsup_SensorHealth
  | Unsup_OperatorMarkedUnsupported | Unsup_other u8

fun unsupported_reason_code :: "unsupported_reason \<Rightarrow> u8" where
  "unsupported_reason_code Unsup_None = 0"
| "unsupported_reason_code Unsup_TriggerCoalesced = 1"
| "unsupported_reason_code Unsup_IncompleteEpoch = 2"
| "unsupported_reason_code Unsup_InvalidRead = 3"
| "unsupported_reason_code Unsup_DeadlineMiss = 4"
| "unsupported_reason_code Unsup_QueueOverflow = 5"
| "unsupported_reason_code Unsup_WriterFailure = 6"
| "unsupported_reason_code Unsup_SensorHealth = 7"
| "unsupported_reason_code Unsup_OperatorMarkedUnsupported = 8"
| "unsupported_reason_code (Unsup_other v) = v"

datatype board_reset =
    Reset_PowerOn | Reset_Software | Reset_Watchdog | Reset_Panic | Reset_Brownout
  | Reset_DeepSleep | Reset_Unknown

datatype zero_reference_kind = Zero_Common | Zero_M0 | Zero_other u8

fun zero_reference_kind_code :: "zero_reference_kind \<Rightarrow> u8" where
  "zero_reference_kind_code Zero_Common = 0"
| "zero_reference_kind_code Zero_M0 = 1"
| "zero_reference_kind_code (Zero_other v) = v"

datatype campaign_status =
    Cst_Ok | Cst_InvalidState | Cst_InvalidArgument | Cst_WrongStage | Cst_WrongRateOrder
  | Cst_MandatoryRateUnsupported | Cst_PowerCycleRequired | Cst_InvalidHandoff | Cst_QueueFull
  | Cst_SnapshotInvalid | Cst_ColdPowerCycleNotProven | Cst_FinRemovalConfirmationRequired
  | Cst_SessionIdMismatch | Cst_RateNotQualified

datatype run_outcome = Outcome_Accepted | Outcome_Failed | Outcome_Unsupported
datatype rate_result = Rate_Pending | Rate_Accepted | Rate_Unsupported
datatype add_result = Add_Accepted | Add_PreEpoch | Add_AlreadyReleased | Add_BucketCollision

definition EpochIncomplete :: u16 where "EpochIncomplete = 0x01"
definition EpochRepeated :: u16 where "EpochRepeated = 0x02"
definition EpochSkipped :: u16 where "EpochSkipped = 0x04"
definition EpochInvalid :: u16 where "EpochInvalid = 0x08"
definition EpochLate :: u16 where "EpochLate = 0x10"
definition EpochDeadline :: u16 where "EpochDeadline = 0x20"
definition EpochAggregateValid :: u16 where "EpochAggregateValid = 0x40"
definition EpochStartup :: u16 where "EpochStartup = 0x80"

lemmas epoch_flags = EpochIncomplete_def EpochRepeated_def EpochSkipped_def EpochInvalid_def
  EpochLate_def EpochDeadline_def EpochAggregateValid_def EpochStartup_def

section \<open>Structs\<close>

record motor_request =
  mr_command_permille :: int
  mr_mode :: motor_mode

record motor_applied =
  ma_command_permille :: int
  ma_mode :: motor_mode
  ma_result :: int
  ma_command_apply_timestamp_us :: u64

record command_evidence =
  ev_command_generation :: u64
  ev_requested_command_permille :: int
  ev_requested_motor_mode :: motor_mode
  ev_applied_command_permille :: int
  ev_applied_motor_mode :: motor_mode
  ev_apply_result_code :: int
  ev_command_apply_timestamp_us :: u64
  ev_logger_snapshot_timestamp_us :: u64

record raw_sample =
  rs_generation :: u64
  rs_scheduled_timestamp_us :: u64
  rs_capture_timestamp_us :: u64
  rs_angle_raw :: u16
  rs_diagnostic_flags :: u16
  rs_read_result_code :: int
  rs_valid :: bool
  rs_slot :: u8

record epoch_block =
  eb_epoch_index :: u64
  eb_epoch_start_timestamp_us :: u64
  eb_epoch_end_timestamp_us :: u64
  eb_release_timestamp_us :: u64
  eb_consumer_lateness_us :: int
  eb_expected_sample_count :: u8
  eb_observed_sample_count :: u8
  eb_actual_sample_count :: u8
  eb_selected_sample_count :: u8
  eb_valid_sample_count :: u8
  eb_repeated_sample_count :: u8
  eb_skipped_sample_count :: u8
  eb_invalid_sample_count :: u8
  eb_flags :: u16
  eb_mean_unwrapped_counts_q16 :: int
  eb_samples :: "raw_sample list"
  eb_sample_present :: "bool list"

record power_evidence =
  pe_capture_timestamp_us :: u64
  pe_motor_millivolts :: u16
  pe_read_result :: int
  pe_valid :: bool

record log_record =
  lr_sequence :: u64
  lr_stage :: assembly_stage
  lr_encoder_rate :: encoder_rate
  lr_profile_phase :: profile_phase
  lr_approach_branch :: approach_branch
  lr_zero_reference_kind :: zero_reference_kind
  lr_run_kind :: run_kind
  lr_qualification :: u8
  lr_episode_index :: u32
  lr_target_fin_angle_millideg :: int
  lr_fin_angle_millideg :: int
  lr_fin_rate_millideg_s :: int
  lr_guard_state :: guard_state
  lr_abort_reason :: abort_reason
  lr_first_error :: int
  lr_command :: command_evidence
  lr_power :: power_evidence
  lr_encoder :: epoch_block

record sampler_statistics =
  ss_released_epochs :: u64
  ss_incomplete_epochs :: u64
  ss_bucket_collisions :: u64
  ss_trigger_coalesced_or_missed :: u64
  ss_pre_epoch_samples :: u64
  ss_repeated_samples :: u64
  ss_skipped_samples :: u64
  ss_invalid_samples :: u64
  ss_late_after_release :: u64
  ss_startup_incomplete_epochs :: u64
  ss_steady_state_incomplete_epochs :: u64
  ss_consumer_deadline_misses :: u64
  ss_raw_queue_overflows :: u64
  ss_writer_queue_overflows :: u64
  ss_encoder_transport_errors :: u64
  ss_encoder_status_faults :: u64
  ss_vbus_invalid_samples :: u64
  ss_first_error :: int

record m0_handoff =
  mh_schema_version :: u32
  mh_session_id :: "u8 list"
  mh_profile_seed :: u32
  mh_completed_stage_mask :: u8
  mh_expected_stage :: assembly_stage
  mh_checksum :: u32

section \<open>Default values\<close>

definition raw_sample_init :: raw_sample where
  "raw_sample_init = \<lparr>rs_generation = 0, rs_scheduled_timestamp_us = 0, rs_capture_timestamp_us = 0,
     rs_angle_raw = 0, rs_diagnostic_flags = 0, rs_read_result_code = 0, rs_valid = False,
     rs_slot = 0\<rparr>"

definition epoch_block_init :: epoch_block where
  "epoch_block_init = \<lparr>eb_epoch_index = 0, eb_epoch_start_timestamp_us = 0,
     eb_epoch_end_timestamp_us = 0, eb_release_timestamp_us = 0, eb_consumer_lateness_us = 0,
     eb_expected_sample_count = 0, eb_observed_sample_count = 0, eb_actual_sample_count = 0,
     eb_selected_sample_count = 0, eb_valid_sample_count = 0, eb_repeated_sample_count = 0,
     eb_skipped_sample_count = 0, eb_invalid_sample_count = 0, eb_flags = 0,
     eb_mean_unwrapped_counts_q16 = 0, eb_samples = replicate 5 raw_sample_init,
     eb_sample_present = replicate 5 False\<rparr>"

definition evidence_init :: command_evidence where
  "evidence_init = \<lparr>ev_command_generation = 0, ev_requested_command_permille = 0,
     ev_requested_motor_mode = Mode_Coast, ev_applied_command_permille = 0,
     ev_applied_motor_mode = Mode_Coast, ev_apply_result_code = 0,
     ev_command_apply_timestamp_us = 0, ev_logger_snapshot_timestamp_us = 0\<rparr>"

definition applied_init :: motor_applied where
  "applied_init = \<lparr>ma_command_permille = 0, ma_mode = Mode_Coast, ma_result = 0,
     ma_command_apply_timestamp_us = 0\<rparr>"

definition statistics_init :: sampler_statistics where
  "statistics_init = \<lparr>ss_released_epochs = 0, ss_incomplete_epochs = 0, ss_bucket_collisions = 0,
     ss_trigger_coalesced_or_missed = 0, ss_pre_epoch_samples = 0, ss_repeated_samples = 0,
     ss_skipped_samples = 0, ss_invalid_samples = 0, ss_late_after_release = 0,
     ss_startup_incomplete_epochs = 0, ss_steady_state_incomplete_epochs = 0,
     ss_consumer_deadline_misses = 0, ss_raw_queue_overflows = 0, ss_writer_queue_overflows = 0,
     ss_encoder_transport_errors = 0, ss_encoder_status_faults = 0, ss_vbus_invalid_samples = 0,
     ss_first_error = 0\<rparr>"

definition handoff_init :: m0_handoff where
  "handoff_init = \<lparr>mh_schema_version = ucast kCharSchemaVersion, mh_session_id = replicate 32 0,
     mh_profile_seed = 0, mh_completed_stage_mask = 0, mh_expected_stage = Stage_M0,
     mh_checksum = 0\<rparr>"

section \<open>Helper functions\<close>

fun expectedSamplesPerEpoch :: "encoder_rate \<Rightarrow> u8" where
  "expectedSamplesPerEpoch Hz1000 = 1"
| "expectedSamplesPerEpoch Hz2000 = 2"
| "expectedSamplesPerEpoch Hz5000 = 5"
| "expectedSamplesPerEpoch (Hz_other _) = 0"

definition isSupportedEncoderRate :: "encoder_rate \<Rightarrow> bool" where
  "isSupportedEncoderRate rate = (expectedSamplesPerEpoch rate \<noteq> 0)"

fun motorModeMatchesCommand :: "int \<Rightarrow> motor_mode \<Rightarrow> bool" where
  "motorModeMatchesCommand command Mode_DriveIn1 = (command < 0)"
| "motorModeMatchesCommand command Mode_DriveIn2 = (command > 0)"
| "motorModeMatchesCommand command Mode_Coast = (command = 0)"
| "motorModeMatchesCommand command Mode_Brake = (command = 0)"
| "motorModeMatchesCommand command (Mode_other _) = False"

definition isKnownStage :: "assembly_stage \<Rightarrow> bool" where
  "isKnownStage stage = (stage = Stage_FV \<or> stage = Stage_FHPositive \<or> stage = Stage_FHNegative \<or>
     stage = Stage_M0)"

fun stageBit :: "assembly_stage \<Rightarrow> u8" where
  "stageBit Stage_FV = 1"
| "stageBit Stage_FHPositive = 2"
| "stageBit Stage_FHNegative = 4"
| "stageBit Stage_M0 = 8"
| "stageBit Stage_None = 0"
| "stageBit (Stage_other _) = 0"

end
