(* ===== verification/Campaign.thy ===== *)
theory Campaign
  imports Characterization_Types "HOL-Library.Sublist"
begin

text \<open>
  \<open>characterization/campaign_state_machine.{hpp,cpp}\<close>: the order of a motor identification
  campaign. Three fin configurations (FV, FH+, FH-) and the bare motor (M0) are run in this order;
  each needs an accepted 1 kHz rate check and an accepted full run. Between FH- and M0 the board is
  powered off, the fin is removed, and the campaign resumes from a checksummed handoff. A call of a
  member function is a \<open>campaign_call\<close>; \<open>campaign_step\<close> is the call, \<open>campaign_run\<close> a history from
  power-up. A \<open>char\<close> is the byte it holds.
\<close>

section \<open>State\<close>

record campaign =
  cp_session_id :: "u8 list"
  cp_state :: campaign_state
  cp_stage :: assembly_stage
  cp_active_rate :: encoder_rate
  cp_active_run_kind :: run_kind
  cp_profile_seed :: u32
  cp_completed_stage_mask :: u8
  cp_rate_results :: "rate_result list"
  cp_full_completed :: "bool list"

definition campaign_init :: campaign where
  "campaign_init = \<lparr>cp_session_id = replicate 32 0, cp_state = Cam_Idle, cp_stage = Stage_None,
     cp_active_rate = Hz1000, cp_active_run_kind = Run_None, cp_profile_seed = 0,
     cp_completed_stage_mask = 0, cp_rate_results = replicate 3 Rate_Pending,
     cp_full_completed = replicate 3 False\<rparr>"

section \<open>Sessions and handoffs\<close>

text \<open>The loop over the characters: whether the terminator was seen and the length so far, or an
  early \<open>return false\<close>.\<close>

fun session_scan :: "bool \<Rightarrow> nat \<Rightarrow> u8 list \<Rightarrow> (bool \<times> nat) option" where
  "session_scan terminated n [] = Some (terminated, n)"
| "session_scan terminated n (v # vs) =
     (if v = 0 then session_scan True n vs
      else if terminated then None
      else if v < 0x21 \<or> v > 0x7E then None
      else session_scan terminated (n + 1) vs)"

definition validSessionId :: "u8 list \<Rightarrow> bool" where
  "validSessionId session_id =
     (case session_scan False 0 session_id of None \<Rightarrow> False
      | Some (terminated, n) \<Rightarrow> terminated \<and> n \<noteq> 0 \<and> n \<le> kSessionIdMaximumPrintableBytes)"

definition kFnvOffset :: u32 where "kFnvOffset = 2166136261"
definition kFnvPrime :: u32 where "kFnvPrime = 16777619"

definition hashByte :: "u32 \<Rightarrow> u8 \<Rightarrow> u32" where
  "hashByte hash v = (hash XOR ucast v) * kFnvPrime"

definition hashU32 :: "u32 \<Rightarrow> u32 \<Rightarrow> u32" where
  "hashU32 hash v = foldl hashByte hash [byte_at 0 v, byte_at 1 v, byte_at 2 v, byte_at 3 v]"

definition computeHandoffChecksum :: "m0_handoff \<Rightarrow> u32" where
  "computeHandoffChecksum handoff =
     (let hash = hashU32 kFnvOffset (mh_schema_version handoff);
          hash = foldl hashByte hash (mh_session_id handoff);
          hash = hashU32 hash (mh_profile_seed handoff);
          hash = hashByte hash (mh_completed_stage_mask handoff) in
      hashByte hash (assembly_stage_code (mh_expected_stage handoff)))"

definition validateHandoff :: "m0_handoff \<Rightarrow> bool" where
  "validateHandoff handoff =
     (let required = stageBit Stage_FV OR stageBit Stage_FHPositive OR stageBit Stage_FHNegative in
      if mh_schema_version handoff \<noteq> ucast kCharSchemaVersion \<or> \<not> validSessionId (mh_session_id handoff) \<or>
         mh_profile_seed handoff = 0 \<or> mh_expected_stage handoff \<noteq> Stage_M0 \<or>
         mh_completed_stage_mask handoff AND required \<noteq> required
      then False
      else mh_checksum handoff = computeHandoffChecksum (handoff\<lparr>mh_checksum := 0\<rparr>))"

section \<open>Operations\<close>

definition resetStageRuns :: "campaign \<Rightarrow> campaign" where
  "resetStageRuns c = c\<lparr>cp_rate_results := [Rate_Pending, Rate_Unsupported, Rate_Unsupported],
     cp_full_completed := [False, False, False], cp_active_run_kind := Run_None\<rparr>"

definition startNewSession :: "u8 list \<Rightarrow> u32 \<Rightarrow> campaign \<Rightarrow> campaign_status \<times> campaign" where
  "startNewSession session_id profile_seed c =
     (if cp_state c \<noteq> Cam_Idle then (Cst_InvalidState, c)
      else if \<not> validSessionId session_id \<or> profile_seed = 0 then (Cst_InvalidArgument, c)
      else (Cst_Ok, (resetStageRuns (c\<lparr>cp_session_id := session_id, cp_profile_seed := profile_seed,
             cp_completed_stage_mask := 0, cp_stage := Stage_FV\<rparr>))
             \<lparr>cp_state := Cam_AwaitingStageConfirmation\<rparr>))"

definition confirmStage :: "assembly_stage \<Rightarrow> campaign \<Rightarrow> campaign_status \<times> campaign" where
  "confirmStage stage c =
     (if cp_state c \<noteq> Cam_AwaitingStageConfirmation then (Cst_InvalidState, c)
      else if stage \<noteq> cp_stage c \<or> stage = Stage_M0
      then (if stage = Stage_M0 then Cst_FinRemovalConfirmationRequired else Cst_WrongStage, c)
      else (Cst_Ok, c\<lparr>cp_state := Cam_Ready\<rparr>))"

fun rateIndex :: "encoder_rate \<Rightarrow> nat" where
  "rateIndex Hz1000 = 0"
| "rateIndex Hz2000 = 1"
| "rateIndex Hz5000 = 2"
| "rateIndex (Hz_other _) = 3"

definition begin_running :: "encoder_rate \<Rightarrow> run_kind \<Rightarrow> campaign \<Rightarrow> campaign" where
  "begin_running rate kind c =
     c\<lparr>cp_active_rate := rate, cp_active_run_kind := kind, cp_state := Cam_Running\<rparr>"

definition beginRun :: "encoder_rate \<Rightarrow> run_kind \<Rightarrow> campaign \<Rightarrow> campaign_status \<times> campaign" where
  "beginRun rate kind c =
     (if cp_state c \<noteq> Cam_Ready then (Cst_InvalidState, c)
      else let index = rateIndex rate in
        if index \<ge> length (cp_rate_results c) \<or> (kind \<noteq> Run_RateCheck \<and> kind \<noteq> Run_Full)
        then (Cst_InvalidArgument, c)
        else if rate \<noteq> Hz1000
        then (if kind = Run_Full then (Cst_RateNotQualified, c)
              else (Cst_Ok, begin_running rate kind c))
        else if kind = Run_RateCheck \<and> cp_rate_results c ! index \<noteq> Rate_Pending
        then (Cst_WrongRateOrder, c)
        else if kind = Run_Full \<and> cp_rate_results c ! index \<noteq> Rate_Accepted
        then (Cst_RateNotQualified, c)
        else (Cst_Ok, begin_running rate kind c))"

definition end_running :: "campaign \<Rightarrow> campaign" where
  "end_running c = c\<lparr>cp_active_run_kind := Run_None, cp_state := Cam_Ready\<rparr>"

definition finishRun :: "run_outcome \<Rightarrow> unsupported_reason \<Rightarrow> campaign \<Rightarrow> campaign_status \<times> campaign" where
  "finishRun outcome reason c =
     (if cp_state c \<noteq> Cam_Running then (Cst_InvalidState, c)
      else let index = rateIndex (cp_active_rate c) in
        if index \<ge> length (cp_rate_results c) then (Cst_InvalidArgument, c)
        else if cp_active_run_kind c = Run_RateCheck
        then (if outcome = Outcome_Accepted
              then (Cst_Ok, end_running (c\<lparr>cp_rate_results := (cp_rate_results c)[index := Rate_Accepted]\<rparr>))
              else if outcome = Outcome_Unsupported
              then (if cp_active_rate c = Hz1000 then (Cst_MandatoryRateUnsupported, end_running c)
                    else if reason = Unsup_None then (Cst_InvalidArgument, c)
                    else (Cst_Ok, end_running (c\<lparr>cp_rate_results :=
                            (cp_rate_results c)[index := Rate_Unsupported]\<rparr>)))
              else (Cst_Ok, end_running c))
        else if cp_active_run_kind c = Run_Full \<and> outcome = Outcome_Accepted
        then (Cst_Ok, end_running (c\<lparr>cp_full_completed := (cp_full_completed c)[index := True]\<rparr>))
        else (Cst_Ok, end_running c))"

definition allRateChecksResolved :: "campaign \<Rightarrow> bool" where
  "allRateChecksResolved c = (cp_rate_results c ! 0 \<noteq> Rate_Pending)"

definition completeStage :: "campaign \<Rightarrow> campaign_status \<times> campaign" where
  "completeStage c =
     (if cp_state c \<noteq> Cam_Ready \<or> \<not> allRateChecksResolved c \<or> \<not> cp_full_completed c ! 0
      then (Cst_InvalidState, c)
      else let c = c\<lparr>cp_completed_stage_mask := cp_completed_stage_mask c OR stageBit (cp_stage c)\<rparr> in
        case cp_stage c of
          Stage_FV \<Rightarrow> (Cst_Ok, (resetStageRuns (c\<lparr>cp_stage := Stage_FHPositive\<rparr>))
             \<lparr>cp_state := Cam_AwaitingStageConfirmation\<rparr>)
        | Stage_FHPositive \<Rightarrow> (Cst_Ok, (resetStageRuns (c\<lparr>cp_stage := Stage_FHNegative\<rparr>))
             \<lparr>cp_state := Cam_AwaitingStageConfirmation\<rparr>)
        | Stage_FHNegative \<Rightarrow> (Cst_Ok, c\<lparr>cp_state := Cam_AwaitingM0Handoff\<rparr>)
        | Stage_M0 \<Rightarrow> (Cst_Ok, c\<lparr>cp_state := Cam_Completed\<rparr>)
        | _ \<Rightarrow> (Cst_WrongStage, c))"

text \<open>The handoff is written only on success.\<close>

definition prepareM0 :: "m0_handoff \<Rightarrow> campaign \<Rightarrow> campaign_status \<times> m0_handoff \<times> campaign" where
  "prepareM0 handoff c =
     (if cp_state c \<noteq> Cam_AwaitingM0Handoff \<or> cp_stage c \<noteq> Stage_FHNegative
      then (Cst_InvalidState, handoff, c)
      else let handoff = handoff_init\<lparr>mh_session_id := cp_session_id c,
                 mh_profile_seed := cp_profile_seed c,
                 mh_completed_stage_mask := cp_completed_stage_mask c\<rparr>;
               handoff = handoff\<lparr>mh_checksum := computeHandoffChecksum handoff\<rparr> in
           (Cst_Ok, handoff, c\<lparr>cp_state := Cam_PowerCycleRequired\<rparr>))"

definition resumeM0 :: "m0_handoff \<Rightarrow> board_reset \<Rightarrow> bool \<Rightarrow> campaign \<Rightarrow> campaign_status \<times> campaign" where
  "resumeM0 handoff reset_kind rtc_cookie_survived c =
     (if cp_state c \<noteq> Cam_Idle then (Cst_InvalidState, c)
      else if \<not> validateHandoff handoff then (Cst_InvalidHandoff, c)
      else if reset_kind \<noteq> Reset_PowerOn then (Cst_PowerCycleRequired, c)
      else if rtc_cookie_survived then (Cst_ColdPowerCycleNotProven, c)
      else (Cst_Ok, (resetStageRuns (c\<lparr>cp_session_id := mh_session_id handoff,
              cp_profile_seed := mh_profile_seed handoff,
              cp_completed_stage_mask := mh_completed_stage_mask handoff, cp_stage := Stage_M0\<rparr>))
              \<lparr>cp_state := Cam_AwaitingM0Confirmation\<rparr>))"

text \<open>The overload with the confirmation; \<open>None\<close> is the null pointer.\<close>

definition confirmM0 :: "u8 list \<Rightarrow> string option \<Rightarrow> campaign \<Rightarrow> campaign_status \<times> campaign" where
  "confirmM0 confirmed_session_id literal_fin_removed c =
     (if cp_state c \<noteq> Cam_AwaitingM0Confirmation then (Cst_InvalidState, c)
      else if confirmed_session_id \<noteq> cp_session_id c then (Cst_SessionIdMismatch, c)
      else if literal_fin_removed \<noteq> Some ''FIN_REMOVED'' then (Cst_FinRemovalConfirmationRequired, c)
      else (Cst_Ok, c\<lparr>cp_state := Cam_Ready\<rparr>))"

definition canArmMotor :: "campaign \<Rightarrow> bool" where
  "canArmMotor c = (cp_state c = Cam_Ready \<and> isKnownStage (cp_stage c))"

definition campaign_fault :: "campaign \<Rightarrow> campaign" where
  "campaign_fault c = c\<lparr>cp_state := Cam_Faulted\<rparr>"

section \<open>Histories\<close>

datatype campaign_call =
    Call_startNewSession "u8 list" u32 | Call_confirmStage assembly_stage
  | Call_beginRun encoder_rate run_kind | Call_finishRun run_outcome unsupported_reason
  | Call_completeStage | Call_prepareM0 | Call_resumeM0 m0_handoff board_reset bool
  | Call_confirmM0 "u8 list" "string option" | Call_fault

fun campaign_step :: "campaign_call \<Rightarrow> campaign \<Rightarrow> campaign" where
  "campaign_step (Call_startNewSession sid seed) c = snd (startNewSession sid seed c)"
| "campaign_step (Call_confirmStage stage) c = snd (confirmStage stage c)"
| "campaign_step (Call_beginRun rate kind) c = snd (beginRun rate kind c)"
| "campaign_step (Call_finishRun outcome reason) c = snd (finishRun outcome reason c)"
| "campaign_step Call_completeStage c = snd (completeStage c)"
| "campaign_step Call_prepareM0 c = snd (snd (prepareM0 handoff_init c))"
| "campaign_step (Call_resumeM0 handoff reset rtc) c = snd (resumeM0 handoff reset rtc c)"
| "campaign_step (Call_confirmM0 sid text) c = snd (confirmM0 sid text c)"
| "campaign_step Call_fault c = campaign_fault c"

definition campaign_run :: "campaign_call list \<Rightarrow> campaign \<Rightarrow> campaign" where
  "campaign_run calls c = foldl (\<lambda>c call. campaign_step call c) c calls"

text \<open>The runs that were accepted, in order: stage, rate and kind of every \<open>finishRun(Accepted)\<close> that
  ended a run.\<close>

definition accepted_run :: "campaign_call \<Rightarrow> campaign \<Rightarrow> (assembly_stage \<times> encoder_rate \<times> run_kind) list" where
  "accepted_run call c =
     (case call of Call_finishRun Outcome_Accepted reason \<Rightarrow>
        if cp_state c = Cam_Running then [(cp_stage c, cp_active_rate c, cp_active_run_kind c)] else []
      | _ \<Rightarrow> [])"

fun accepted_runs :: "campaign_call list \<Rightarrow> campaign \<Rightarrow> (assembly_stage \<times> encoder_rate \<times> run_kind) list" where
  "accepted_runs [] c = []"
| "accepted_runs (call # calls) c = accepted_run call c @ accepted_runs calls (campaign_step call c)"

definition stage_evidence :: "assembly_stage \<Rightarrow> (assembly_stage \<times> encoder_rate \<times> run_kind) list" where
  "stage_evidence stage = [(stage, Hz1000, Run_RateCheck), (stage, Hz1000, Run_Full)]"

section \<open>The invariant of a history\<close>

text \<open>What the stages before \<open>stage\<close> have left in the accepted runs of this boot, and the mask they
  have set. A campaign resumed at M0 has an empty history of its own.\<close>

fun earlier_evidence :: "assembly_stage \<Rightarrow> (assembly_stage \<times> encoder_rate \<times> run_kind) list" where
  "earlier_evidence Stage_FHPositive = stage_evidence Stage_FV"
| "earlier_evidence Stage_FHNegative = stage_evidence Stage_FV @ stage_evidence Stage_FHPositive"
| "earlier_evidence _ = []"

fun earlier_mask :: "assembly_stage \<Rightarrow> u8" where
  "earlier_mask Stage_FHPositive = 1"
| "earlier_mask Stage_FHNegative = 3"
| "earlier_mask _ = 0"

definition mask_agrees :: "campaign \<Rightarrow> bool" where
  "mask_agrees c =
     (if cp_stage c = Stage_M0 then cp_completed_stage_mask c AND 7 = 7
      else if cp_state c = Cam_AwaitingM0Handoff \<or> cp_state c = Cam_PowerCycleRequired
      then cp_completed_stage_mask c = 7
      else cp_completed_stage_mask c = earlier_mask (cp_stage c))"

text \<open>The state of a campaign that has a session.\<close>

definition campaign_wf :: "campaign \<Rightarrow> bool" where
  "campaign_wf c \<longleftrightarrow>
     length (cp_rate_results c) = 3 \<and> length (cp_full_completed c) = 3 \<and>
     (cp_state c \<noteq> Cam_Idle \<and> cp_state c \<noteq> Cam_Faulted \<longrightarrow>
        isKnownStage (cp_stage c) \<and> validSessionId (cp_session_id c) \<and> cp_profile_seed c \<noteq> 0 \<and>
        mask_agrees c) \<and>
     (cp_state c = Cam_AwaitingM0Handoff \<or> cp_state c = Cam_PowerCycleRequired \<longrightarrow>
        cp_stage c = Stage_FHNegative) \<and>
     (cp_state c = Cam_AwaitingM0Confirmation \<or> cp_state c = Cam_Completed \<longrightarrow> cp_stage c = Stage_M0) \<and>
     (cp_state c = Cam_AwaitingStageConfirmation \<longrightarrow> cp_stage c \<noteq> Stage_M0) \<and>
     (cp_state c = Cam_Running \<longrightarrow>
        cp_active_run_kind c = Run_RateCheck \<or>
        cp_active_run_kind c = Run_Full \<and> cp_active_rate c = Hz1000 \<and>
        cp_rate_results c ! 0 = Rate_Accepted)"

definition earned :: "(assembly_stage \<times> encoder_rate \<times> run_kind) list \<Rightarrow> campaign \<Rightarrow> bool" where
  "earned acc c \<longleftrightarrow> cp_state c = Cam_Idle \<or> cp_state c = Cam_Faulted \<or>
     subseq (earlier_evidence (cp_stage c)) acc \<and>
     (cp_rate_results c ! 0 = Rate_Accepted \<longrightarrow>
        subseq (earlier_evidence (cp_stage c) @ [(cp_stage c, Hz1000, Run_RateCheck)]) acc) \<and>
     (cp_full_completed c ! 0 \<or> cp_state c = Cam_AwaitingM0Handoff \<longrightarrow>
        subseq (earlier_evidence (cp_stage c) @ stage_evidence (cp_stage c)) acc)"

lemmas campaign_ops = startNewSession_def confirmStage_def beginRun_def finishRun_def
  completeStage_def prepareM0_def resumeM0_def confirmM0_def campaign_fault_def resetStageRuns_def
  begin_running_def end_running_def

lemma rateIndex_0 [simp]: "rateIndex rate = 0 \<longleftrightarrow> rate = Hz1000"
  by (cases rate) auto

lemma campaign_wf_init: "campaign_wf campaign_init"
  by (simp add: campaign_wf_def campaign_init_def)

lemma validateHandoff_fields:
  assumes "validateHandoff handoff"
  shows "validSessionId (mh_session_id handoff)" "mh_profile_seed handoff \<noteq> 0"
    "mh_completed_stage_mask handoff AND 7 = 7"
  using assms by (auto simp: validateHandoff_def Let_def split: if_splits)

lemma known_stages [simp]:
  "isKnownStage Stage_FV" "isKnownStage Stage_FHPositive" "isKnownStage Stage_FHNegative"
  "isKnownStage Stage_M0" "\<not> isKnownStage Stage_None" "\<not> isKnownStage (Stage_other v)"
  by (simp_all add: isKnownStage_def)

lemma start_wf: "campaign_wf c \<Longrightarrow> campaign_wf (snd (startNewSession sid seed c))"
  by (simp add: campaign_wf_def startNewSession_def resetStageRuns_def mask_agrees_def)

lemma confirm_wf: "campaign_wf c \<Longrightarrow> campaign_wf (snd (confirmStage stage c))"
  by (auto simp: campaign_wf_def confirmStage_def mask_agrees_def)

lemma begin_wf: "campaign_wf c \<Longrightarrow> campaign_wf (snd (beginRun rate kind c))"
  by (simp add: campaign_wf_def beginRun_def begin_running_def mask_agrees_def Let_def)

lemma finish_wf: "campaign_wf c \<Longrightarrow> campaign_wf (snd (finishRun outcome reason c))"
  by (simp add: campaign_wf_def finishRun_def end_running_def mask_agrees_def Let_def)

lemma prepare_wf: "campaign_wf c \<Longrightarrow> campaign_wf (snd (snd (prepareM0 h c)))"
  by (simp add: campaign_wf_def prepareM0_def mask_agrees_def Let_def)

lemma resume_wf: "campaign_wf c \<Longrightarrow> campaign_wf (snd (resumeM0 handoff reset rtc c))"
  using validateHandoff_fields[of handoff]
  by (simp add: campaign_wf_def resumeM0_def resetStageRuns_def mask_agrees_def)

lemma confirm_m0_wf: "campaign_wf c \<Longrightarrow> campaign_wf (snd (confirmM0 sid text c))"
  by (simp add: campaign_wf_def confirmM0_def mask_agrees_def)

lemma fault_wf: "campaign_wf c \<Longrightarrow> campaign_wf (campaign_fault c)"
  by (simp add: campaign_wf_def campaign_fault_def)

lemma mask_keeps: "(m::u8) AND 7 = 7 \<Longrightarrow> (m OR 8) AND 7 = 7"
  by (simp add: bit.conj_disj_distrib2)

lemma complete_wf: "campaign_wf c \<Longrightarrow> campaign_wf (snd (completeStage c))"
  by (cases "cp_stage c") (auto simp: campaign_wf_def completeStage_def resetStageRuns_def mask_agrees_def
      mask_keeps Let_def)

lemma campaign_wf_step: "campaign_wf c \<Longrightarrow> campaign_wf (campaign_step call c)"
  by (cases call) (simp_all add: start_wf confirm_wf begin_wf finish_wf complete_wf prepare_wf resume_wf
      confirm_m0_wf fault_wf)

lemma campaign_run_simps [simp]:
  "campaign_run [] c = c"
  "campaign_run (call # calls) c = campaign_run calls (campaign_step call c)"
  by (simp_all add: campaign_run_def)

lemma campaign_run_append: "campaign_run (xs @ ys) c = campaign_run ys (campaign_run xs c)"
  by (simp add: campaign_run_def)

lemma campaign_wf_run: "campaign_wf c \<Longrightarrow> campaign_wf (campaign_run calls c)"
  by (induction calls arbitrary: c) (simp_all add: campaign_wf_step)

lemma subseq_snoc: "subseq xs acc \<Longrightarrow> subseq (xs @ [y]) (acc @ [y])"
  by (simp add: list_emb_append_mono)

lemma subseq_more: "subseq xs acc \<Longrightarrow> subseq xs (acc @ ys)"
  using list_emb_append_mono[of "(=)" xs acc "[]" ys] by simp

text \<open>Calls that end no run leave the history of accepted runs as it is.\<close>

lemma earned_quiet:
  assumes "earned acc c" "campaign_wf c"
    and "\<And>outcome reason. call \<noteq> Call_finishRun outcome reason"
  shows "earned acc (campaign_step call c)"
proof (cases call)
  case Call_completeStage
  then show ?thesis
    using assms(1,2) by (cases "cp_stage c") (auto simp: campaign_ops earned_def campaign_wf_def Let_def)
qed (use assms in \<open>auto simp: campaign_ops earned_def Let_def\<close>)

lemma end_running_simps [simp]:
  "cp_state (end_running c) = Cam_Ready" "cp_stage (end_running c) = cp_stage c"
  "cp_rate_results (end_running c) = cp_rate_results c"
  "cp_full_completed (end_running c) = cp_full_completed c"
  "cp_state (begin_running rate kind c) = Cam_Running"
  by (simp_all add: end_running_def begin_running_def)

lemma finish_idle: "cp_state c \<noteq> Cam_Running \<Longrightarrow> snd (finishRun outcome reason c) = c"
  by (simp add: finishRun_def)

lemma finish_unaccepted:
  assumes "outcome \<noteq> Outcome_Accepted"
  shows "snd (finishRun outcome reason c) = c \<or> snd (finishRun outcome reason c) = end_running c \<or>
    cp_active_rate c \<noteq> Hz1000 \<and> snd (finishRun outcome reason c) = end_running (c\<lparr>cp_rate_results :=
      (cp_rate_results c)[rateIndex (cp_active_rate c) := Rate_Unsupported]\<rparr>)"
  using assms by (cases "cp_state c = Cam_Running") (simp_all add: finishRun_def Let_def)

lemma earned_finish:
  assumes "earned acc c" "campaign_wf c"
  shows "earned (acc @ accepted_run (Call_finishRun outcome reason) c) (snd (finishRun outcome reason c))"
proof (cases "cp_state c = Cam_Running \<and> outcome = Outcome_Accepted")
  case True
  then have e: "subseq (earlier_evidence (cp_stage c)) acc"
      "cp_rate_results c ! 0 = Rate_Accepted \<Longrightarrow>
         subseq (earlier_evidence (cp_stage c) @ [(cp_stage c, Hz1000, Run_RateCheck)]) acc"
      "cp_full_completed c ! 0 \<Longrightarrow>
         subseq (earlier_evidence (cp_stage c) @ stage_evidence (cp_stage c)) acc"
    using assms(1) by (auto simp: earned_def)
  have wf: "length (cp_rate_results c) = 3" "length (cp_full_completed c) = 3" "cp_state c = Cam_Running"
      "accepted_run (Call_finishRun outcome reason) c = [(cp_stage c, cp_active_rate c, cp_active_run_kind c)]"
    using True assms(2) by (auto simp: campaign_wf_def accepted_run_def)
  consider "cp_active_run_kind c = Run_RateCheck" "cp_active_rate c = Hz1000"
    | "cp_active_run_kind c = Run_RateCheck" "cp_active_rate c \<noteq> Hz1000"
    | "cp_active_run_kind c = Run_Full" "cp_active_rate c = Hz1000" "cp_rate_results c ! 0 = Rate_Accepted"
    using True assms(2) by (auto simp: campaign_wf_def)
  then show ?thesis
  proof cases
    case 1
    then show ?thesis
      using True wf e(1,3) subseq_more[OF e(1)] subseq_more[OF e(3)] subseq_snoc[OF e(1)]
      by (simp add: finishRun_def end_running_def earned_def)
  next
    case 2
    then show ?thesis
      using True wf subseq_more[OF e(1)] subseq_more[OF e(2)] subseq_more[OF e(3)]
      by (simp add: finishRun_def end_running_def earned_def Let_def nth_list_update)
  next
    case 3
    then show ?thesis
      using True wf subseq_more[OF e(1)] subseq_more[OF e(2)[OF 3(3)]] subseq_snoc[OF e(2)[OF 3(3)]]
      by (simp add: finishRun_def end_running_def earned_def stage_evidence_def)
  qed
next
  case False
  then have quiet: "accepted_run (Call_finishRun outcome reason) c = []"
    by (auto simp: accepted_run_def split: run_outcome.splits)
  show ?thesis
  proof (cases "cp_state c = Cam_Running")
    case True
    then have "outcome \<noteq> Outcome_Accepted" using False by simp
    from finish_unaccepted[OF this, of reason c] show ?thesis
      using True assms(1) by (elim disjE) (simp_all add: quiet earned_def)
  next
    case False
    then show ?thesis using assms(1) by (simp add: quiet finish_idle)
  qed
qed

lemma earned_run:
  "earned acc c \<Longrightarrow> campaign_wf c \<Longrightarrow> earned (acc @ accepted_runs calls c) (campaign_run calls c)"
proof (induction calls arbitrary: acc c)
  case (Cons call calls)
  have "earned (acc @ accepted_run call c) (campaign_step call c)"
  proof (cases "\<exists>outcome reason. call = Call_finishRun outcome reason")
    case True
    then show ?thesis using earned_finish[OF Cons.prems] by auto
  next
    case False
    then have "accepted_run call c = []" by (auto simp: accepted_run_def split: campaign_call.splits)
    then show ?thesis using earned_quiet[OF Cons.prems] False by auto
  qed
  then show ?case
    using Cons.IH[OF _ campaign_wf_step[OF Cons.prems(2)], of "acc @ accepted_run call c" call] by simp
qed simp

lemma campaign_history: "earned (accepted_runs calls campaign_init) (campaign_run calls campaign_init)"
  using earned_run[of "[]" campaign_init calls] campaign_wf_init by (simp add: earned_def campaign_init_def)

text \<open>Once M0 is the stage, the campaign was resumed, and once it may run, the fin was reported removed.\<close>

fun resumed_by :: "u8 list \<Rightarrow> campaign_call \<Rightarrow> bool" where
  "resumed_by sid (Call_resumeM0 handoff reset rtc) =
     (validateHandoff handoff \<and> mh_session_id handoff = sid \<and> reset = Reset_PowerOn \<and> \<not> rtc)"
| "resumed_by sid _ = False"

fun fin_removed :: "u8 list \<Rightarrow> campaign_call \<Rightarrow> bool" where
  "fin_removed sid (Call_confirmM0 sid' text) = (sid' = sid \<and> text = Some ''FIN_REMOVED'')"
| "fin_removed sid _ = False"

text \<open>A call that satisfies \<open>P\<close> and later one that satisfies \<open>Q\<close>.\<close>

definition first_then :: "('a \<Rightarrow> bool) \<Rightarrow> ('a \<Rightarrow> bool) \<Rightarrow> 'a list \<Rightarrow> bool" where
  "first_then P Q xs = (\<exists>pre x mid y post. xs = pre @ x # mid @ y # post \<and> P x \<and> Q y)"

lemma first_then_snoc: "first_then P Q xs \<Longrightarrow> first_then P Q (xs @ [z])"
  unfolding first_then_def by (metis append.assoc append_Cons)

lemma first_then_end:
  assumes "\<exists>x\<in>set xs. P x" and "Q z"
  shows "first_then P Q (xs @ [z])"
proof -
  obtain pre x mid where "xs = pre @ x # mid" "P x" using assms(1) by (metis split_list)
  then have "xs @ [z] = pre @ x # mid @ z # []" by simp
  then show ?thesis unfolding first_then_def using \<open>P x\<close> assms(2) by blast
qed

definition m0_history :: "campaign_call list \<Rightarrow> campaign \<Rightarrow> bool" where
  "m0_history calls c \<longleftrightarrow>
     (cp_stage c = Stage_M0 \<longrightarrow> (\<exists>call\<in>set calls. resumed_by (cp_session_id c) call) \<and>
        (cp_state c = Cam_Idle \<or> cp_state c = Cam_AwaitingM0Confirmation \<or> cp_state c = Cam_Faulted \<or>
         first_then (resumed_by (cp_session_id c)) (fin_removed (cp_session_id c)) calls))"

lemma idle_finish: "cp_state (snd (finishRun outcome reason c)) = Cam_Idle \<Longrightarrow> snd (finishRun outcome reason c) = c"
  by (cases "cp_state c = Cam_Running") (simp_all add: finishRun_def Let_def split: if_split_asm)

lemma idle_complete: "cp_state (snd (completeStage c)) = Cam_Idle \<Longrightarrow> snd (completeStage c) = c"
  by (cases "cp_stage c") (simp_all add: completeStage_def Let_def split: if_split_asm)

lemma idle_begin: "cp_state (snd (beginRun rate kind c)) = Cam_Idle \<Longrightarrow> snd (beginRun rate kind c) = c"
  by (cases "cp_state c = Cam_Ready") (simp_all add: beginRun_def Let_def split: if_split_asm)

lemma idle_step: "cp_state (campaign_step call c) = Cam_Idle \<Longrightarrow> campaign_step call c = c"
  by (cases call) (auto simp add: idle_finish idle_begin idle_complete startNewSession_def confirmStage_def
      prepareM0_def resumeM0_def confirmM0_def campaign_fault_def Let_def split: if_split_asm)

lemma idle_run: "cp_state (campaign_run calls campaign_init) = Cam_Idle \<Longrightarrow>
    campaign_run calls campaign_init = campaign_init"
proof (induction calls rule: rev_induct)
  case (snoc call calls)
  then show ?case using idle_step[of call "campaign_run calls campaign_init"]
    by (simp add: campaign_run_append)
qed simp

lemma finish_frame:
  "cp_session_id (snd (finishRun outcome reason c)) = cp_session_id c"
  "cp_stage (snd (finishRun outcome reason c)) = cp_stage c"
  "cp_state c \<noteq> Cam_Running \<Longrightarrow> cp_state (snd (finishRun outcome reason c)) = cp_state c"
  by (simp_all add: finishRun_def end_running_def Let_def)

lemma begin_frame:
  "cp_session_id (snd (beginRun rate kind c)) = cp_session_id c"
  "cp_stage (snd (beginRun rate kind c)) = cp_stage c"
  "cp_state c \<noteq> Cam_Ready \<Longrightarrow> cp_state (snd (beginRun rate kind c)) = cp_state c"
  by (simp_all add: beginRun_def begin_running_def Let_def)

lemma m0_step:
  assumes "cp_stage c = Stage_M0" "cp_state c \<noteq> Cam_Idle"
  shows "cp_session_id (campaign_step call c) = cp_session_id c"
    and "cp_state c = Cam_AwaitingM0Confirmation \<Longrightarrow>
      cp_state (campaign_step call c) = Cam_AwaitingM0Confirmation \<or>
      cp_state (campaign_step call c) = Cam_Faulted \<or> fin_removed (cp_session_id c) call"
    and "cp_state c = Cam_Faulted \<Longrightarrow> cp_state (campaign_step call c) = Cam_Faulted"
  using assms by (cases call; simp add: finish_frame begin_frame startNewSession_def confirmStage_def
      completeStage_def prepareM0_def resumeM0_def confirmM0_def campaign_fault_def Let_def)+

lemma m0_entry:
  assumes "cp_stage (campaign_step call c) = Stage_M0" "cp_stage c \<noteq> Stage_M0"
  shows "resumed_by (cp_session_id (campaign_step call c)) call"
    and "cp_state (campaign_step call c) = Cam_AwaitingM0Confirmation"
  using assms by (cases call; cases "cp_stage c"; simp add: finish_frame begin_frame startNewSession_def
      confirmStage_def completeStage_def prepareM0_def resumeM0_def confirmM0_def campaign_fault_def
      resetStageRuns_def Let_def split: if_split_asm)+

lemma m0_history_run: "m0_history calls (campaign_run calls campaign_init)"
proof (induction calls rule: rev_induct)
  case Nil
  then show ?case by (simp add: m0_history_def campaign_init_def)
next
  case (snoc call calls)
  define c where "c = campaign_run calls campaign_init"
  have next_state: "campaign_run (calls @ [call]) campaign_init = campaign_step call c"
    by (simp add: campaign_run_append c_def)
  show ?case
  proof (cases "cp_stage c = Stage_M0")
    case True
    then have "cp_state c \<noteq> Cam_Idle"
      using idle_run[of calls] by (auto simp: c_def campaign_init_def)
    note step = m0_step[OF True this, of call]
    show ?thesis
      using snoc True \<open>cp_state c \<noteq> Cam_Idle\<close> step
        first_then_snoc[of "resumed_by (cp_session_id c)" "fin_removed (cp_session_id c)" calls call]
        first_then_end[of calls "resumed_by (cp_session_id c)" "fin_removed (cp_session_id c)" call]
      unfolding next_state m0_history_def c_def[symmetric] by auto
  next
    case False
    then show ?thesis
      using m0_entry[of call c] unfolding next_state m0_history_def by auto
  qed
qed

section \<open>A sample campaign\<close>

definition sample_session :: "u8 list" where
  "sample_session = [0x46, 0x56, 0x31] @ replicate 29 0"

definition stage_calls :: "assembly_stage \<Rightarrow> campaign_call list" where
  "stage_calls stage = [Call_confirmStage stage, Call_beginRun Hz1000 Run_RateCheck,
     Call_finishRun Outcome_Accepted Unsup_None, Call_beginRun Hz1000 Run_Full,
     Call_finishRun Outcome_Accepted Unsup_None, Call_completeStage]"

definition sample_calls :: "campaign_call list" where
  "sample_calls = Call_startNewSession sample_session 7 # stage_calls Stage_FV @
     stage_calls Stage_FHPositive @ stage_calls Stage_FHNegative"

lemma scan_zeros: "session_scan t n (replicate k 0) = Some (t \<or> k \<noteq> 0, n)"
  by (induction k arbitrary: t) auto

lemma sample_session_valid: "validSessionId sample_session"
  by (simp add: validSessionId_def sample_session_def kSessionIdMaximumPrintableBytes_def scan_zeros)

lemma sample_campaign:
  "cp_state (campaign_run sample_calls campaign_init) = Cam_AwaitingM0Handoff"
  "cp_stage (campaign_run sample_calls campaign_init) = Stage_FHNegative"
  by (simp_all add: sample_calls_def stage_calls_def campaign_init_def campaign_ops sample_session_valid
      allRateChecksResolved_def Let_def numeral_3_eq_3)

section \<open>Properties\<close>

text \<open>C38: The handoff for the bare motor is earned: \<open>prepareM0\<close> succeeds only after, in this boot and in
  this order, each of FV, FH+ and FH- had an accepted 1 kHz rate check and then an accepted 1 kHz full
  run.\<close>

theorem handoff_earned:
  assumes "fst (prepareM0 handoff (campaign_run calls campaign_init)) = Cst_Ok"
  shows "subseq (stage_evidence Stage_FV @ stage_evidence Stage_FHPositive @ stage_evidence Stage_FHNegative)
     (accepted_runs calls campaign_init)"
proof -
  have "cp_state (campaign_run calls campaign_init) = Cam_AwaitingM0Handoff"
      "cp_stage (campaign_run calls campaign_init) = Stage_FHNegative"
    using assms by (auto simp: prepareM0_def split: if_splits)
  then show ?thesis using campaign_history[of calls] by (simp add: earned_def)
qed

theorem handoff_earned_witness:
  "subseq (stage_evidence Stage_FV @ stage_evidence Stage_FHPositive @ stage_evidence Stage_FHNegative)
     (accepted_runs sample_calls campaign_init)"
  by (rule handoff_earned[of handoff_init]) (simp add: prepareM0_def sample_campaign Let_def)

text \<open>A handoff survives the power cycle: the handoff of every successful \<open>prepareM0\<close>, given after a
  cold power-on with the confirmation that the fin is removed, lets a fresh board run the motor at
  stage M0 of the same session with the same profile seed.\<close>

theorem handoff_resumes:
  assumes "prepareM0 h (campaign_run calls campaign_init) = (Cst_Ok, handoff, c)"
  shows "\<exists>c1 c2. resumeM0 handoff Reset_PowerOn False campaign_init = (Cst_Ok, c1) \<and>
     confirmM0 (cp_session_id c) (Some ''FIN_REMOVED'') c1 = (Cst_Ok, c2) \<and>
     canArmMotor c2 \<and> cp_stage c2 = Stage_M0 \<and> cp_session_id c2 = cp_session_id c \<and>
     cp_profile_seed c2 = cp_profile_seed c"
proof -
  let ?d = "campaign_run calls campaign_init"
  have d: "cp_state ?d = Cam_AwaitingM0Handoff" "cp_stage ?d = Stage_FHNegative"
      "cp_session_id c = cp_session_id ?d" "cp_profile_seed c = cp_profile_seed ?d"
    using assms by (auto simp: prepareM0_def Let_def split: if_splits)
  have "validSessionId (cp_session_id ?d)" "cp_profile_seed ?d \<noteq> 0" "cp_completed_stage_mask ?d = 7"
    using campaign_wf_run[OF campaign_wf_init, of calls] d by (auto simp: campaign_wf_def mask_agrees_def)
  moreover have "handoff = (let handoff = handoff_init\<lparr>mh_session_id := cp_session_id ?d,
      mh_profile_seed := cp_profile_seed ?d, mh_completed_stage_mask := cp_completed_stage_mask ?d\<rparr> in
      handoff\<lparr>mh_checksum := computeHandoffChecksum handoff\<rparr>)"
    using assms by (auto simp: prepareM0_def Let_def split: if_splits)
  ultimately have "validateHandoff handoff" "mh_session_id handoff = cp_session_id ?d"
      "mh_profile_seed handoff = cp_profile_seed ?d"
    by (simp_all add: validateHandoff_def handoff_init_def Let_def)
  then show ?thesis
    by (simp add: d resumeM0_def campaign_init_def resetStageRuns_def confirmM0_def canArmMotor_def)
qed

theorem handoff_resumes_witness:
  "\<exists>handoff c c1 c2. prepareM0 handoff_init (campaign_run sample_calls campaign_init) = (Cst_Ok, handoff, c) \<and>
     resumeM0 handoff Reset_PowerOn False campaign_init = (Cst_Ok, c1) \<and>
     confirmM0 (cp_session_id c) (Some ''FIN_REMOVED'') c1 = (Cst_Ok, c2) \<and> canArmMotor c2"
proof -
  obtain handoff c where
    "prepareM0 handoff_init (campaign_run sample_calls campaign_init) = (Cst_Ok, handoff, c)"
    by (simp add: prepareM0_def sample_campaign Let_def)
  then show ?thesis using handoff_resumes by blast
qed

text \<open>The bare motor runs only after a cold start: whenever the motor may be armed at stage M0, the
  calls of this boot hold an accepted \<open>resumeM0\<close> with a valid handoff, a power-on reset and no surviving
  RTC cookie, and after it the operator's \<open>FIN_REMOVED\<close> for that session.\<close>

theorem m0_needs_cold_start:
  assumes "canArmMotor (campaign_run calls campaign_init)"
    and "cp_stage (campaign_run calls campaign_init) = Stage_M0"
  shows "\<exists>sid. first_then (resumed_by sid) (fin_removed sid) calls"
  using m0_history_run[of calls] assms by (auto simp: m0_history_def canArmMotor_def)

theorem m0_needs_cold_start_witness:
  "\<exists>handoff sid. first_then (resumed_by sid) (fin_removed sid)
     [Call_resumeM0 handoff Reset_PowerOn False, Call_confirmM0 sample_session (Some ''FIN_REMOVED'')]"
proof -
  define handoff where "handoff = (let h = handoff_init\<lparr>mh_session_id := sample_session, mh_profile_seed := 7,
    mh_completed_stage_mask := 7\<rparr> in h\<lparr>mh_checksum := computeHandoffChecksum h\<rparr>)"
  have "validateHandoff handoff" "mh_session_id handoff = sample_session"
    by (simp_all add: handoff_def validateHandoff_def handoff_init_def sample_session_valid Let_def)
  then have "canArmMotor (campaign_run [Call_resumeM0 handoff Reset_PowerOn False,
        Call_confirmM0 sample_session (Some ''FIN_REMOVED'')] campaign_init) \<and>
      cp_stage (campaign_run [Call_resumeM0 handoff Reset_PowerOn False,
        Call_confirmM0 sample_session (Some ''FIN_REMOVED'')] campaign_init) = Stage_M0"
    by (simp add: resumeM0_def campaign_init_def resetStageRuns_def confirmM0_def canArmMotor_def)
  then show ?thesis using m0_needs_cold_start by blast
qed

end
