(* ===== verification/Motion_Guard.thy ===== *)
theory Motion_Guard
  imports Characterization_Types
begin

text \<open>
  What bounds the motion of the fin in a characterization run: \<open>characterization/position_guard\<close>,
  which passes, coasts or aborts every motor request; \<open>zero_approach\<close>, the stepwise approach to
  zero with dwell, overshoot and monotonicity checks; \<open>profile_plan\<close>, the fixed episodes;
  \<open>shutdown_sequence.hpp\<close> and \<open>commandForFinError\<close> of \<open>characterization_config.hpp\<close>. Angles and rates
  are \<open>int32_t\<close> in the code and \<open>int\<close> here; the arguments of a call lie in that range.
\<close>

section \<open>Position guard\<close>

record guard_config =
  gc_normal_envelope_millideg :: int
  gc_hard_abort_millideg :: int
  gc_command_to_fin_sign :: int

record guard_input =
  gi_fin_angle_millideg :: int
  gi_fin_rate_millideg_s :: int
  gi_predicted_stopping_delta_millideg :: int
  gi_requested :: motor_request
  gi_encoder_valid :: bool
  gi_consumer_deadline_met :: bool

record guard_decision =
  gd_action :: guard_state
  gd_reason :: position_guard_reason
  gd_permitted :: motor_request

definition coast_request :: motor_request where
  "coast_request = \<lparr>mr_command_permille = 0, mr_mode = Mode_Coast\<rparr>"

definition abortDecision :: "position_guard_reason \<Rightarrow> guard_decision" where
  "abortDecision reason = \<lparr>gd_action = Guard_Abort, gd_reason = reason, gd_permitted = coast_request\<rparr>"

definition coastDecision :: "position_guard_reason \<Rightarrow> guard_decision" where
  "coastDecision reason = \<lparr>gd_action = Guard_Coast, gd_reason = reason, gd_permitted = coast_request\<rparr>"

definition guard_sign :: "int \<Rightarrow> int" where
  "guard_sign v = (if v > 0 then 1 else if v < 0 then -1 else 0)"

definition saturatingAdd :: "int \<Rightarrow> int \<Rightarrow> int" where
  "saturatingAdd lhs rhs = (let sum = lhs + rhs in max (- (2 ^ 31)) (min (2 ^ 31 - 1) sum))"

definition guard_evaluate :: "guard_config \<Rightarrow> guard_input \<Rightarrow> guard_decision" where
  "guard_evaluate config input =
     (if gc_normal_envelope_millideg config \<le> 0 \<or>
         gc_hard_abort_millideg config \<le> gc_normal_envelope_millideg config \<or>
         gc_hard_abort_millideg config \<ge> kFinMechanicalLimitMilliDeg
      then abortDecision PG_ConfigurationInvalid
      else if gc_command_to_fin_sign config \<noteq> 1 \<and> gc_command_to_fin_sign config \<noteq> -1
      then abortDecision PG_PolarityUnconfigured
      else if \<not> gi_encoder_valid input then abortDecision PG_EncoderInvalid
      else if \<not> gi_consumer_deadline_met input then abortDecision PG_ConsumerDeadlineMiss
      else if \<not> motorModeMatchesCommand (mr_command_permille (gi_requested input)) (mr_mode (gi_requested input))
      then abortDecision PG_CommandModeMismatch
      else if \<bar>gi_fin_angle_millideg input\<bar> \<ge> gc_hard_abort_millideg config
      then abortDecision PG_HardLimit
      else let predicted_angle = saturatingAdd (gi_fin_angle_millideg input)
                 (gi_predicted_stopping_delta_millideg input) in
        if \<bar>predicted_angle\<bar> \<ge> gc_hard_abort_millideg config
        then abortDecision PG_PredictedStopExceedsLimit
        else let command_direction = guard_sign (mr_command_permille (gi_requested input)) *
                   gc_command_to_fin_sign config;
                 at_positive_envelope = gi_fin_angle_millideg input \<ge> gc_normal_envelope_millideg config;
                 at_negative_envelope = gi_fin_angle_millideg input \<le> - gc_normal_envelope_millideg config in
          if at_positive_envelope \<and> command_direction > 0 \<or> at_negative_envelope \<and> command_direction < 0
          then coastDecision PG_SoftLimitOutward
          else \<lparr>gd_action = Guard_Allow, gd_reason = PG_None, gd_permitted = gi_requested input\<rparr>)"

section \<open>Approach to zero\<close>

datatype approach_update =
    Ap_holding | Ap_target_advanced | Ap_complete | Ap_overshoot_abort | Ap_monotonicity_abort
  | Ap_configuration_abort | Ap_timeout_abort

definition kTargetCount :: nat where "kTargetCount = 11"

definition makeTargets :: "approach_branch \<Rightarrow> int list" where
  "makeTargets branch =
     (let sign = (if branch = Branch_FromPositive then 1 else if branch = Branch_FromNegative then -1 else 0) in
      map (\<lambda>index. sign * (int kTargetCount - 1 - int index) * kApproachStepMilliDeg) [0..<kTargetCount])"

record approach_plan =
  ap_branch :: approach_branch
  ap_targets :: "int list"
  ap_index :: nat
  ap_tolerance_millideg :: int
  ap_rate_tolerance_millideg_s :: int
  ap_required_dwell_samples :: u16
  ap_dwell_samples :: u16
  ap_monotonic_tolerance_millideg :: int
  ap_last_measured_millideg :: int
  ap_have_last_measured :: bool
  ap_approach_to_zero_started :: bool
  ap_complete_flag :: bool
  ap_valid :: bool

definition approach_init :: "approach_branch \<Rightarrow> int \<Rightarrow> int \<Rightarrow> u16 \<Rightarrow> int \<Rightarrow> approach_plan" where
  "approach_init branch tolerance rate_tolerance dwell monotonic_tolerance =
     \<lparr>ap_branch = branch, ap_targets = makeTargets branch, ap_index = 0,
      ap_tolerance_millideg = tolerance, ap_rate_tolerance_millideg_s = rate_tolerance,
      ap_required_dwell_samples = dwell, ap_dwell_samples = 0,
      ap_monotonic_tolerance_millideg = monotonic_tolerance, ap_last_measured_millideg = 0,
      ap_have_last_measured = False, ap_approach_to_zero_started = False, ap_complete_flag = False,
      ap_valid = ((branch = Branch_FromPositive \<or> branch = Branch_FromNegative) \<and> tolerance \<ge> 0 \<and>
        rate_tolerance \<ge> 0 \<and> dwell \<noteq> 0 \<and> monotonic_tolerance \<ge> 0)\<rparr>"

definition targetMilliDeg :: "approach_plan \<Rightarrow> int" where
  "targetMilliDeg p = ap_targets p ! ap_index p"

definition kOvershootMarginMilliDeg :: int where "kOvershootMarginMilliDeg = 50"

definition overshot :: "approach_plan \<Rightarrow> int \<Rightarrow> bool" where
  "overshot p measured =
     (ap_branch p = Branch_FromPositive \<and> measured < - kOvershootMarginMilliDeg \<or>
      ap_branch p = Branch_FromNegative \<and> measured > kOvershootMarginMilliDeg)"

definition reversed :: "approach_plan \<Rightarrow> int \<Rightarrow> bool" where
  "reversed p measured =
     (ap_branch p = Branch_FromPositive \<and>
        measured > ap_last_measured_millideg p + ap_monotonic_tolerance_millideg p \<or>
      ap_branch p = Branch_FromNegative \<and>
        measured < ap_last_measured_millideg p - ap_monotonic_tolerance_millideg p)"

definition settled :: "approach_plan \<Rightarrow> int \<Rightarrow> int \<Rightarrow> bool" where
  "settled p measured rate =
     (let angle_delta = measured - targetMilliDeg p in
      (angle_delta \<ge> - ap_tolerance_millideg p \<and> angle_delta \<le> ap_tolerance_millideg p) \<and>
      (rate \<ge> - ap_rate_tolerance_millideg_s p \<and> rate \<le> ap_rate_tolerance_millideg_s p))"

definition approach_update_step :: "int \<Rightarrow> int \<Rightarrow> approach_plan \<Rightarrow> approach_update \<times> approach_plan" where
  "approach_update_step measured rate p =
     (if \<not> ap_valid p then (Ap_configuration_abort, p)
      else if ap_complete_flag p then (Ap_complete, p)
      else if overshot p measured then (Ap_overshoot_abort, p\<lparr>ap_dwell_samples := 0\<rparr>)
      else if (ap_approach_to_zero_started p \<and> ap_have_last_measured p) \<and> reversed p measured
      then (Ap_monotonicity_abort, p\<lparr>ap_dwell_samples := 0\<rparr>)
      else let p = p\<lparr>ap_last_measured_millideg := measured, ap_have_last_measured := True\<rparr> in
        if \<not> settled p measured rate then (Ap_holding, p\<lparr>ap_dwell_samples := 0\<rparr>)
        else let p = (if ap_dwell_samples p < ap_required_dwell_samples p
                      then p\<lparr>ap_dwell_samples := ap_dwell_samples p + 1\<rparr> else p) in
          if ap_dwell_samples p < ap_required_dwell_samples p then (Ap_holding, p)
          else let p = p\<lparr>ap_dwell_samples := 0\<rparr> in
            if ap_index p + 1 \<ge> length (ap_targets p) then (Ap_complete, p\<lparr>ap_complete_flag := True\<rparr>)
            else let p = p\<lparr>ap_index := ap_index p + 1\<rparr>;
                     p = (if ap_index p = 1 then p\<lparr>ap_approach_to_zero_started := True\<rparr> else p) in
              (Ap_target_advanced, p))"

record approach_controller =
  ac_plan :: approach_plan
  ac_timeout_us :: u64
  ac_started_at_us :: u64
  ac_started :: bool

definition controller_of :: "approach_plan \<Rightarrow> u64 \<Rightarrow> approach_controller" where
  "controller_of plan timeout_us =
     \<lparr>ac_plan = plan, ac_timeout_us = timeout_us, ac_started_at_us = 0, ac_started = False\<rparr>"

definition approach_reset :: "u64 \<Rightarrow> approach_controller \<Rightarrow> approach_controller" where
  "approach_reset started_at_us a = a\<lparr>ac_started_at_us := started_at_us, ac_started := True\<rparr>"

definition approach_control ::
    "int \<Rightarrow> int \<Rightarrow> u64 \<Rightarrow> approach_controller \<Rightarrow> approach_update \<times> approach_controller" where
  "approach_control measured rate now_us a =
     (let a = (if \<not> ac_started a then approach_reset now_us a else a) in
      if now_us < ac_started_at_us a \<or> now_us - ac_started_at_us a > ac_timeout_us a
      then (Ap_timeout_abort, a)
      else case approach_update_step measured rate (ac_plan a) of
        (result, plan) \<Rightarrow> (result, a\<lparr>ac_plan := plan\<rparr>))"

section \<open>Shutdown and the command for an angle error\<close>

datatype shutdown_step =
    Shut_Coast | Shut_Disarm | Shut_SamplingStop | Shut_RealtimeQueueDrain | Shut_WriterQueueDrain
  | Shut_Sync | Shut_Footer | Shut_Close | Shut_PersistM0 | Shut_PowerCycleRequired

fun shutdown_step_code :: "shutdown_step \<Rightarrow> u8" where
  "shutdown_step_code Shut_Coast = 0"
| "shutdown_step_code Shut_Disarm = 1"
| "shutdown_step_code Shut_SamplingStop = 2"
| "shutdown_step_code Shut_RealtimeQueueDrain = 3"
| "shutdown_step_code Shut_WriterQueueDrain = 4"
| "shutdown_step_code Shut_Sync = 5"
| "shutdown_step_code Shut_Footer = 6"
| "shutdown_step_code Shut_Close = 7"
| "shutdown_step_code Shut_PersistM0 = 8"
| "shutdown_step_code Shut_PowerCycleRequired = 9"

record shutdown_sequence =
  sq_mask :: u32
  sq_next :: u8

definition shutdown_init :: shutdown_sequence where
  "shutdown_init = \<lparr>sq_mask = 0, sq_next = 0\<rparr>"

definition shutdown_mark :: "shutdown_step \<Rightarrow> shutdown_sequence \<Rightarrow> bool \<times> shutdown_sequence" where
  "shutdown_mark s q =
     (if shutdown_step_code s \<noteq> sq_next q then (False, q)
      else (True, q\<lparr>sq_mask := sq_mask q OR push_bit (unat (sq_next q)) 1, sq_next := sq_next q + 1\<rparr>))"

definition commandForFinError :: "int \<Rightarrow> int \<Rightarrow> int \<Rightarrow> int" where
  "commandForFinError fin_error magnitude command_to_fin_sign =
     (if magnitude \<le> 0 \<or> magnitude > kMaximumCommandPermille \<or>
         (command_to_fin_sign \<noteq> -1 \<and> command_to_fin_sign \<noteq> 1)
      then 0
      else let fin_direction = (if fin_error > 0 then 1 else if fin_error < 0 then -1 else 0) in
        fin_direction * command_to_fin_sign * magnitude)"

section \<open>Guard and direction\<close>

lemma saturating_small:
  assumes "h \<le> 2 ^ 31 - 1"
  shows "h \<le> \<bar>saturatingAdd a b\<bar> \<longleftrightarrow> h \<le> \<bar>a + b\<bar>"
  using assms by (auto simp: saturatingAdd_def Let_def)

text \<open>The fin side to which a request drives: 1 to positive angles, -1 to negative ones.\<close>

definition drive_direction :: "guard_config \<Rightarrow> motor_request \<Rightarrow> int" where
  "drive_direction config request = guard_sign (mr_command_permille request) * gc_command_to_fin_sign config"

definition guard_configured :: "guard_config \<Rightarrow> bool" where
  "guard_configured config \<longleftrightarrow> 0 < gc_normal_envelope_millideg config \<and>
     gc_normal_envelope_millideg config < gc_hard_abort_millideg config \<and>
     gc_hard_abort_millideg config < kFinMechanicalLimitMilliDeg \<and>
     gc_command_to_fin_sign config \<in> {1, -1}"

section \<open>The dwell at every target\<close>

definition approach_run :: "(int \<times> int) list \<Rightarrow> approach_plan \<Rightarrow> approach_plan" where
  "approach_run samples p = foldl (\<lambda>p (measured, rate). snd (approach_update_step measured rate p)) p samples"

text \<open>The last \<open>n\<close> samples are at the target and slow.\<close>

definition settled_tail :: "int \<Rightarrow> int \<Rightarrow> int \<Rightarrow> nat \<Rightarrow> (int \<times> int) list \<Rightarrow> bool" where
  "settled_tail tolerance rate_tolerance target n xs \<longleftrightarrow>
     (\<exists>ys zs. xs = ys @ zs \<and> length zs = n \<and>
        (\<forall>(m, r) \<in> set zs. \<bar>m - target\<bar> \<le> tolerance \<and> \<bar>r\<bar> \<le> rate_tolerance))"

lemma settled_tail_0: "settled_tail tol rtol target 0 xs"
  by (auto simp: settled_tail_def)

lemma settled_tail_snoc:
  assumes "settled_tail tol rtol target n xs" "\<bar>m - target\<bar> \<le> tol" "\<bar>r\<bar> \<le> rtol"
  shows "settled_tail tol rtol target (Suc n) (xs @ [(m, r)])"
proof -
  obtain ys zs where "xs = ys @ zs" "length zs = n"
    "\<forall>(m, r) \<in> set zs. \<bar>m - target\<bar> \<le> tol \<and> \<bar>r\<bar> \<le> rtol"
    using assms(1) by (auto simp: settled_tail_def)
  then have "xs @ [(m, r)] = ys @ (zs @ [(m, r)])" "length (zs @ [(m, r)]) = Suc n"
    "\<forall>(m, r) \<in> set (zs @ [(m, r)]). \<bar>m - target\<bar> \<le> tol \<and> \<bar>r\<bar> \<le> rtol"
    using assms(2,3) by auto
  then show ?thesis unfolding settled_tail_def by blast
qed

definition plan_frame :: "approach_plan \<Rightarrow> approach_plan \<Rightarrow> bool" where
  "plan_frame p0 p \<longleftrightarrow> ap_targets p = ap_targets p0 \<and> ap_tolerance_millideg p = ap_tolerance_millideg p0 \<and>
     ap_rate_tolerance_millideg_s p = ap_rate_tolerance_millideg_s p0 \<and>
     ap_required_dwell_samples p = ap_required_dwell_samples p0 \<and> ap_valid p"

text \<open>The samples so far: one finished segment per target left behind, and the samples since.\<close>

definition dwelt :: "approach_plan \<Rightarrow> (int \<times> int) list list \<Rightarrow> bool" where
  "dwelt p0 segs \<longleftrightarrow> (\<forall>i < length segs. settled_tail (ap_tolerance_millideg p0) (ap_rate_tolerance_millideg_s p0)
     (ap_targets p0 ! i) (unat (ap_required_dwell_samples p0)) (segs ! i))"

definition approaching :: "approach_plan \<Rightarrow> (int \<times> int) list \<Rightarrow> approach_plan \<Rightarrow> bool" where
  "approaching p0 samples p \<longleftrightarrow> plan_frame p0 p \<and>
     (\<exists>segs rest. samples = concat segs @ rest \<and> dwelt p0 segs \<and>
       (if ap_complete_flag p then length segs = length (ap_targets p0)
        else length segs = ap_index p \<and> ap_index p < length (ap_targets p0) \<and>
          ap_dwell_samples p < ap_required_dwell_samples p0 \<and>
          settled_tail (ap_tolerance_millideg p0) (ap_rate_tolerance_millideg_s p0) (targetMilliDeg p)
            (unat (ap_dwell_samples p)) rest))"

lemma dwelt_snoc:
  assumes "dwelt p0 segs" "settled_tail (ap_tolerance_millideg p0) (ap_rate_tolerance_millideg_s p0)
     (ap_targets p0 ! length segs) (unat (ap_required_dwell_samples p0)) seg"
  shows "dwelt p0 (segs @ [seg])"
  using assms by (auto simp: dwelt_def nth_append less_Suc_eq)

lemma unat_Suc_less:
  fixes d :: u16
  assumes "d < n"
  shows "unat (d + 1) = Suc (unat d)"
proof -
  have "d \<noteq> - 1" using assms word_order.extremum[of n] by (auto simp: not_less[symmetric])
  then have "1 + d \<noteq> 0" by (metis minus_unique)
  then show ?thesis by (simp add: unatSuc add.commute)
qed

text \<open>A sample that does not count at the current target.\<close>

lemma approaching_restart:
  assumes "approaching p0 samples p" "\<not> ap_complete_flag p" "plan_frame p0 p'" "\<not> ap_complete_flag p'"
    and "ap_index p' = ap_index p" "ap_dwell_samples p' = 0"
  shows "approaching p0 (samples @ [x]) p'"
proof -
  obtain segs rest where s: "samples = concat segs @ rest" "dwelt p0 segs" "length segs = ap_index p"
      "ap_index p < length (ap_targets p0)" "ap_dwell_samples p < ap_required_dwell_samples p0"
    using assms(1,2) by (auto simp: approaching_def)
  have "samples @ [x] = concat segs @ (rest @ [x])" using s(1) by simp
  moreover have "0 < ap_required_dwell_samples p0" using s(5) by (rule le_less_trans[OF word_zero_le])
  ultimately show ?thesis
    unfolding approaching_def using assms(3-6) s by (auto simp: settled_tail_0)
qed

text \<open>A sample that counts, short of the dwell.\<close>

lemma approaching_count:
  assumes "approaching p0 samples p" "\<not> ap_complete_flag p" "plan_frame p0 p'" "\<not> ap_complete_flag p'"
    and "ap_index p' = ap_index p" "ap_dwell_samples p' = ap_dwell_samples p + 1"
    and "ap_dwell_samples p' < ap_required_dwell_samples p0" "settled p m r"
  shows "approaching p0 (samples @ [(m, r)]) p'"
proof -
  have f: "plan_frame p0 p" using assms(1) by (simp add: approaching_def)
  obtain segs rest where s: "samples = concat segs @ rest" "dwelt p0 segs" "length segs = ap_index p"
      "ap_index p < length (ap_targets p0)" "ap_dwell_samples p < ap_required_dwell_samples p0"
      "settled_tail (ap_tolerance_millideg p0) (ap_rate_tolerance_millideg_s p0) (targetMilliDeg p)
        (unat (ap_dwell_samples p)) rest"
    using assms(1,2) by (auto simp: approaching_def)
  have "settled_tail (ap_tolerance_millideg p0) (ap_rate_tolerance_millideg_s p0) (targetMilliDeg p')
      (unat (ap_dwell_samples p')) (rest @ [(m, r)])"
    using settled_tail_snoc[OF s(6), of m r] assms(8) f assms(3) unat_Suc_less[OF s(5)] assms(5,6)
    by (auto simp: settled_def plan_frame_def targetMilliDeg_def Let_def abs_le_iff)
  moreover have "samples @ [(m, r)] = concat segs @ (rest @ [(m, r)])" using s(1) by simp
  ultimately show ?thesis unfolding approaching_def using assms(3-7) s by auto
qed

text \<open>The sample that ends the dwell at the current target.\<close>

lemma approaching_segment:
  assumes "approaching p0 samples p" "\<not> ap_complete_flag p"
    and "\<not> ap_dwell_samples p + 1 < ap_required_dwell_samples p0" "settled p m r"
  obtains segs where "samples @ [(m, r)] = concat segs" "dwelt p0 segs" "length segs = Suc (ap_index p)"
proof -
  have f: "plan_frame p0 p" using assms(1) by (simp add: approaching_def)
  obtain segs rest where s: "samples = concat segs @ rest" "dwelt p0 segs" "length segs = ap_index p"
      "ap_dwell_samples p < ap_required_dwell_samples p0"
      "settled_tail (ap_tolerance_millideg p0) (ap_rate_tolerance_millideg_s p0) (targetMilliDeg p)
        (unat (ap_dwell_samples p)) rest"
    using assms(1,2) by (auto simp: approaching_def)
  have "unat (ap_dwell_samples p + 1) \<le> unat (ap_required_dwell_samples p0)"
    using s(4) unat_Suc_less[OF s(4)] by (simp add: word_less_nat_alt)
  then have "unat (ap_required_dwell_samples p0) = Suc (unat (ap_dwell_samples p))"
    using assms(3) unat_Suc_less[OF s(4)] by (simp add: word_less_nat_alt)
  then have "settled_tail (ap_tolerance_millideg p0) (ap_rate_tolerance_millideg_s p0)
      (ap_targets p0 ! length segs) (unat (ap_required_dwell_samples p0)) (rest @ [(m, r)])"
    using settled_tail_snoc[OF s(5), of m r] assms(4) f s(3)
    by (auto simp: settled_def plan_frame_def targetMilliDeg_def Let_def abs_le_iff)
  from dwelt_snoc[OF s(2) this] have "dwelt p0 (segs @ [rest @ [(m, r)]])" .
  moreover have "samples @ [(m, r)] = concat (segs @ [rest @ [(m, r)]])" using s(1) by simp
  ultimately show ?thesis using that s(3) by (metis length_append_singleton)
qed

lemma approaching_step:
  assumes a: "approaching p0 samples p"
  shows "approaching p0 (samples @ [(m, r)]) (snd (approach_update_step m r p))"
proof (cases "ap_complete_flag p")
  case True
  then have "snd (approach_update_step m r p) = p" by (simp add: approach_update_step_def)
  moreover obtain segs rest where "samples = concat segs @ rest" "dwelt p0 segs" "length segs = length (ap_targets p0)"
    using a True by (auto simp: approaching_def)
  moreover from this(1) have "samples @ [(m, r)] = concat segs @ (rest @ [(m, r)])" by simp
  ultimately show ?thesis using a True unfolding approaching_def by auto
next
  case False
  have f: "plan_frame p0 p" and v: "ap_valid p" using a by (auto simp: approaching_def plan_frame_def)
  have d: "ap_dwell_samples p < ap_required_dwell_samples p"
    using a False f by (auto simp: approaching_def plan_frame_def)
  let ?q = "p\<lparr>ap_last_measured_millideg := m, ap_have_last_measured := True\<rparr>"
  have q: "settled ?q m r = settled p m r" by (simp add: settled_def targetMilliDeg_def)
  consider (abort) "overshot p m \<or> (ap_approach_to_zero_started p \<and> ap_have_last_measured p) \<and> reversed p m"
    | (unsettled) "\<not> overshot p m" "\<not> ((ap_approach_to_zero_started p \<and> ap_have_last_measured p) \<and> reversed p m)"
        "\<not> settled p m r"
    | (settled) "\<not> overshot p m" "\<not> ((ap_approach_to_zero_started p \<and> ap_have_last_measured p) \<and> reversed p m)"
        "settled p m r"
    by blast
  then show ?thesis
  proof cases
    case abort
    then have "snd (approach_update_step m r p) = p\<lparr>ap_dwell_samples := 0\<rparr>"
      using v False by (auto simp: approach_update_step_def)
    then show ?thesis using approaching_restart[OF a False, of "p\<lparr>ap_dwell_samples := 0\<rparr>"] f False
      by (simp add: plan_frame_def)
  next
    case unsettled
    then have "snd (approach_update_step m r p) = ?q\<lparr>ap_dwell_samples := 0\<rparr>"
      unfolding approach_update_step_def using v False q by (simp add: Let_def del: de_Morgan_conj)
    then show ?thesis using approaching_restart[OF a False, of "?q\<lparr>ap_dwell_samples := 0\<rparr>"] f False
      by (simp add: plan_frame_def)
  next
    case settled
    let ?n = "?q\<lparr>ap_dwell_samples := ap_dwell_samples p + 1\<rparr>"
    have step: "snd (approach_update_step m r p) =
        (if ap_dwell_samples p + 1 < ap_required_dwell_samples p then ?n
         else if ap_index p + 1 \<ge> length (ap_targets p) then ?n\<lparr>ap_dwell_samples := 0, ap_complete_flag := True\<rparr>
         else let p' = ?n\<lparr>ap_dwell_samples := 0, ap_index := ap_index p + 1\<rparr> in
           if ap_index p + 1 = 1 then p'\<lparr>ap_approach_to_zero_started := True\<rparr> else p')"
      unfolding approach_update_step_def using v False q d settled by (simp add: Let_def del: de_Morgan_conj)
    show ?thesis
    proof (cases "ap_dwell_samples p + 1 < ap_required_dwell_samples p0")
      case True
      then show ?thesis using approaching_count[OF a False, of ?n m r] settled(3) f False
        unfolding step by (simp add: plan_frame_def)
    next
      case ended: False
      from approaching_segment[OF a False ended settled(3)] obtain segs where
        s: "samples @ [(m, r)] = concat segs" "dwelt p0 segs" "length segs = Suc (ap_index p)" .
      have "ap_index p < length (ap_targets p0)" using a False by (auto simp: approaching_def)
      moreover have "0 < ap_required_dwell_samples p0"
        using d f by (auto simp: plan_frame_def intro: le_less_trans[OF word_zero_le])
      ultimately show ?thesis
        unfolding step approaching_def s(1) using ended f False s(2,3)
        by (intro conjI exI[of _ segs] exI[of _ "[]"]) (auto simp: plan_frame_def settled_tail_0 Let_def)
    qed
  qed
qed

lemma approaching_run:
  assumes "approaching p0 [] p0"
  shows "approaching p0 samples (approach_run samples p0)"
proof (induction samples rule: rev_induct)
  case (snoc x samples)
  then show ?case
    using approaching_step[of p0 samples "approach_run samples p0" "fst x" "snd x"]
    by (simp add: approach_run_def case_prod_beta)
qed (simp add: approach_run_def assms)

lemma approaching_init:
  assumes "ap_valid (approach_init branch tol rtol dwell mtol)"
  shows "approaching (approach_init branch tol rtol dwell mtol) [] (approach_init branch tol rtol dwell mtol)"
  using assms
  by (auto simp: approaching_def plan_frame_def approach_init_def dwelt_def makeTargets_def kTargetCount_def
      settled_tail_0 word_neq_0_conv Let_def intro!: exI[of _ "[]"])

section \<open>The shutdown mask\<close>

definition shutdown_run :: "shutdown_step list \<Rightarrow> shutdown_sequence" where
  "shutdown_run marks = foldl (\<lambda>q s. snd (shutdown_mark s q)) shutdown_init marks"

text \<open>How far the marks have got in the prescribed order.\<close>

fun shutdown_progress :: "shutdown_step list \<Rightarrow> nat" where
  "shutdown_progress [] = 0"
| "shutdown_progress (s # earlier) =
     (if unat (shutdown_step_code s) = shutdown_progress earlier then Suc (shutdown_progress earlier)
      else shutdown_progress earlier)"

lemma shutdown_progress_le: "shutdown_progress marks \<le> 10"
proof (induction marks)
  case (Cons s marks)
  then show ?case by (cases s) auto
qed simp

lemma shutdown_run_progress:
  "unat (sq_next (shutdown_run marks)) = shutdown_progress (rev marks) \<and>
   sq_mask (shutdown_run marks) = mask (shutdown_progress (rev marks))"
proof (induction marks rule: rev_induct)
  case (snoc s marks)
  define q where "q = shutdown_run marks"
  define n where "n = shutdown_progress (rev marks)"
  have run: "shutdown_run (marks @ [s]) = snd (shutdown_mark s q)"
    by (simp add: shutdown_run_def q_def)
  have q: "unat (sq_next q) = n" "sq_mask q = mask n" using snoc by (simp_all add: q_def n_def)
  have n: "n \<le> 10" unfolding n_def by (rule shutdown_progress_le)
  have eq: "shutdown_step_code s = sq_next q \<longleftrightarrow> unat (shutdown_step_code s) = n"
    using q(1) by (metis word_unat_eq_iff)
  have up: "unat (sq_next q + 1) = Suc n"
    using q(1) n by (simp add: unat_word_ariths)
  have m: "mask n OR 2 ^ n = (mask (Suc n) :: u32)"
    by (simp add: mask_Suc_exp or.commute)
  show ?case
    unfolding run by (simp add: shutdown_mark_def eq q up m n_def[symmetric])
qed (simp add: shutdown_run_def shutdown_init_def)

section \<open>Properties\<close>

text \<open>C30: The guard passes a motor request exactly when it is configured, the encoder and the deadline are
  good, the command agrees with its mode, the fin is inside the hard limit and, even after coasting to a
  stop, stays inside it, and the request does not drive outward from the envelope; otherwise what the
  motor gets is coast.\<close>

theorem guard_passes_iff:
  "(gd_action (guard_evaluate config input) = Guard_Allow \<longleftrightarrow>
      guard_configured config \<and> gi_encoder_valid input \<and> gi_consumer_deadline_met input \<and>
      motorModeMatchesCommand (mr_command_permille (gi_requested input)) (mr_mode (gi_requested input)) \<and>
      \<bar>gi_fin_angle_millideg input\<bar> < gc_hard_abort_millideg config \<and>
      \<bar>gi_fin_angle_millideg input + gi_predicted_stopping_delta_millideg input\<bar> < gc_hard_abort_millideg config \<and>
      \<not> (gc_normal_envelope_millideg config \<le> gi_fin_angle_millideg input \<and>
           drive_direction config (gi_requested input) > 0) \<and>
      \<not> (gi_fin_angle_millideg input \<le> - gc_normal_envelope_millideg config \<and>
           drive_direction config (gi_requested input) < 0)) \<and>
   gd_permitted (guard_evaluate config input) =
     (if gd_action (guard_evaluate config input) = Guard_Allow then gi_requested input else coast_request)"
proof (cases "guard_configured config")
  case True
  then have "gc_hard_abort_millideg config \<le> 2 ^ 31 - 1"
    by (simp add: guard_configured_def kFinMechanicalLimitMilliDeg_def)
  note small = saturating_small[OF this, of "gi_fin_angle_millideg input" "gi_predicted_stopping_delta_millideg input"]
  have ok: "\<not> (gc_normal_envelope_millideg config \<le> 0 \<or>
        gc_hard_abort_millideg config \<le> gc_normal_envelope_millideg config \<or>
        gc_hard_abort_millideg config \<ge> kFinMechanicalLimitMilliDeg)"
      "\<not> (gc_command_to_fin_sign config \<noteq> 1 \<and> gc_command_to_fin_sign config \<noteq> -1)"
    using True by (auto simp: guard_configured_def)
  show ?thesis
    unfolding guard_evaluate_def if_not_P[OF ok(1)] if_not_P[OF ok(2)] Let_def small drive_direction_def[symmetric]
    using True by (simp add: abortDecision_def coastDecision_def not_le)
next
  case False
  then have "gd_action (guard_evaluate config input) = Guard_Abort \<and>
      gd_permitted (guard_evaluate config input) = coast_request"
    by (auto simp: guard_configured_def guard_evaluate_def abortDecision_def)
  then show ?thesis using False by simp
qed

text \<open>An approach completes only by dwelling: the samples up to completion split into one segment per
  target, in the order of the targets, and each segment ends with \<open>dwell_samples\<close> consecutive samples
  within the angle tolerance of its target and within the rate tolerance.\<close>

theorem approach_dwells:
  assumes "ap_valid (approach_init branch tol rtol dwell mtol)"
    and "ap_complete_flag (approach_run samples (approach_init branch tol rtol dwell mtol))"
  shows "\<exists>segs rest. samples = concat segs @ rest \<and> length segs = 11 \<and>
     (\<forall>i < 11. settled_tail tol rtol (makeTargets branch ! i) (unat dwell) (segs ! i))"
proof -
  let ?p0 = "approach_init branch tol rtol dwell mtol"
  have f: "ap_targets ?p0 = makeTargets branch" "ap_tolerance_millideg ?p0 = tol"
      "ap_rate_tolerance_millideg_s ?p0 = rtol" "ap_required_dwell_samples ?p0 = dwell"
      "length (makeTargets branch) = 11"
    by (simp_all add: approach_init_def makeTargets_def kTargetCount_def Let_def)
  show ?thesis
    using approaching_run[OF approaching_init[OF assms(1)], of samples] assms(2)
    by (auto simp: approaching_def dwelt_def f)
qed

theorem approach_dwells_witness:
  "\<exists>segs rest. map (\<lambda>i. (int i * 100, 0)) (rev [0..<11]) = concat segs @ rest \<and> length segs = 11 \<and>
     (\<forall>i < 11. settled_tail 20 100 (makeTargets Branch_FromPositive ! i) (unat (1::u16)) (segs ! i))"
proof (rule approach_dwells)
  show "ap_valid (approach_init Branch_FromPositive 20 100 1 50)" by code_simp
  show "ap_complete_flag (approach_run (map (\<lambda>i. (int i * 100, 0)) (rev [0..<11]))
      (approach_init Branch_FromPositive 20 100 1 50))" by code_simp
qed

end
