(* ===== verification/Command_Journal.thy ===== *)
theory Command_Journal
  imports Motion_Guard
begin

text \<open>
  \<open>characterization/command_journal.{hpp,cpp}\<close>: the only path from the profile runner to the motor, and
  the evidence of what was requested and what the motor did. The apply callback is a parameter over
  the state \<open>'d\<close> of the motor; it gets the request and the time of the call and returns its result
  and the completion time it wrote. A null callback is \<open>None\<close>. \<open>esp_err_t\<close> is an integer, 0 is success.
\<close>

section \<open>The journal\<close>

definition ESP_OK :: int where "ESP_OK = 0"
definition ESP_ERR_INVALID_ARG :: int where "ESP_ERR_INVALID_ARG = 0x102"
definition ESP_ERR_INVALID_STATE :: int where "ESP_ERR_INVALID_STATE = 0x103"

type_synonym 'd motor_apply = "motor_request \<Rightarrow> u64 \<Rightarrow> 'd \<Rightarrow> int \<times> u64 \<times> 'd"

record 'd journal =
  jn_callback :: "'d motor_apply option"
  jn_next_generation :: u64
  jn_current :: command_evidence
  jn_current_applied :: motor_applied
  jn_armed :: bool

definition journal_init :: "'d motor_apply option \<Rightarrow> 'd journal" where
  "journal_init callback = \<lparr>jn_callback = callback, jn_next_generation = 1, jn_current = evidence_init,
     jn_current_applied = applied_init, jn_armed = False\<rparr>"

definition journal_arm :: "'d journal \<Rightarrow> int \<times> 'd journal" where
  "journal_arm j =
     (if jn_armed j \<or> jn_callback j = None then (ESP_ERR_INVALID_STATE, j)
      else (ESP_OK, j\<lparr>jn_armed := True\<rparr>))"

definition applyCoast :: "u64 \<Rightarrow> 'd journal \<times> 'd \<Rightarrow> int \<times> 'd journal \<times> 'd" where
  "applyCoast now_us s =
     (case s of (j, d) \<Rightarrow>
       case (case jn_callback j of None \<Rightarrow> (ESP_ERR_INVALID_STATE, now_us, d)
             | Some callback \<Rightarrow> callback coast_request now_us d) of
         (result, completed_at_us, d) \<Rightarrow>
           (result, j\<lparr>jn_current_applied := \<lparr>ma_command_permille = 0, ma_mode = Mode_Coast, ma_result = result,
              ma_command_apply_timestamp_us = completed_at_us\<rparr>\<rparr>, d))"

definition journal_disarm :: "u64 \<Rightarrow> 'd journal \<times> 'd \<Rightarrow> int \<times> 'd journal \<times> 'd" where
  "journal_disarm now_us s =
     (case applyCoast now_us s of (result, j, d) \<Rightarrow> (result, j\<lparr>jn_armed := False\<rparr>, d))"

definition stopForError :: "int \<Rightarrow> u64 \<Rightarrow> 'd journal \<times> 'd \<Rightarrow> int \<times> 'd journal \<times> 'd" where
  "stopForError cause now_us s =
     (if cause = ESP_OK then (ESP_ERR_INVALID_ARG, s)
      else case journal_disarm now_us s of (result, s) \<Rightarrow> (cause, s))"

definition requestAlreadyApplied :: "motor_request \<Rightarrow> 'd journal \<Rightarrow> bool" where
  "requestAlreadyApplied request j =
     (let current = jn_current j; applied = jn_current_applied j in
      ev_command_generation current \<noteq> 0 \<and> ev_apply_result_code current = ESP_OK \<and>
      ma_result applied = ESP_OK \<and>
      ev_requested_command_permille current = mr_command_permille request \<and>
      ev_requested_motor_mode current = mr_mode request \<and>
      ev_applied_command_permille current = mr_command_permille request \<and>
      ev_applied_motor_mode current = mr_mode request \<and>
      ma_command_permille applied = mr_command_permille request \<and> ma_mode applied = mr_mode request)"

definition valid_request :: "motor_request \<Rightarrow> bool" where
  "valid_request request =
     (motorModeMatchesCommand (mr_command_permille request) (mr_mode request) \<and>
      \<bar>mr_command_permille request\<bar> \<le> kMaximumCommandPermille)"

definition needs_arm :: "motor_request \<Rightarrow> bool" where
  "needs_arm request = (mr_command_permille request \<noteq> 0 \<or> mr_mode request = Mode_Brake)"

text \<open>A new generation with the requested half of its evidence, and its applied half.\<close>

definition open_generation :: "motor_request \<Rightarrow> u64 \<Rightarrow> 'd journal \<Rightarrow> 'd journal" where
  "open_generation request now_us j =
     j\<lparr>jn_current := evidence_init\<lparr>ev_command_generation := jn_next_generation j,
         ev_requested_command_permille := mr_command_permille request,
         ev_requested_motor_mode := mr_mode request, ev_logger_snapshot_timestamp_us := now_us\<rparr>,
       jn_next_generation := jn_next_generation j + 1\<rparr>"

definition close_generation :: "int \<Rightarrow> 'd journal \<Rightarrow> 'd journal" where
  "close_generation result j =
     (let applied = jn_current_applied j in
      j\<lparr>jn_current := (jn_current j)\<lparr>ev_applied_command_permille := ma_command_permille applied,
         ev_applied_motor_mode := ma_mode applied, ev_apply_result_code := result,
         ev_command_apply_timestamp_us := ma_command_apply_timestamp_us applied\<rparr>\<rparr>)"

text \<open>The request reaches the motor when it is valid, armed if it must be, and the journal is bound.\<close>

definition try_apply :: "motor_request \<Rightarrow> u64 \<Rightarrow> 'd journal \<times> 'd \<Rightarrow> int \<times> 'd journal \<times> 'd" where
  "try_apply request now_us s =
     (case s of (j, d) \<Rightarrow>
       if \<not> valid_request request then (ESP_ERR_INVALID_ARG, j, d)
       else if needs_arm request \<and> \<not> jn_armed j then (ESP_ERR_INVALID_STATE, j, d)
       else case jn_callback j of None \<Rightarrow> (ESP_ERR_INVALID_STATE, j, d)
         | Some callback \<Rightarrow> case callback request now_us d of
             (result, completed_at_us, d) \<Rightarrow>
               (result, j\<lparr>jn_current_applied := \<lparr>ma_command_permille = mr_command_permille request,
                  ma_mode = mr_mode request, ma_result = result,
                  ma_command_apply_timestamp_us = completed_at_us\<rparr>\<rparr>, d))"

definition journal_apply :: "motor_request \<Rightarrow> u64 \<Rightarrow> 'd journal \<times> 'd \<Rightarrow> int \<times> 'd journal \<times> 'd" where
  "journal_apply request now_us s =
     (case s of (j, d) \<Rightarrow>
       if valid_request request \<and> (\<not> needs_arm request \<or> jn_armed j) \<and> jn_callback j \<noteq> None \<and>
          requestAlreadyApplied request j
       then (ESP_OK, s)
       else case try_apply request now_us s of
         (result, j, d) \<Rightarrow>
           let j = open_generation request now_us j in
           case (if result \<noteq> ESP_OK
                 then case applyCoast now_us (j, d) of (_, j, d) \<Rightarrow> (j\<lparr>jn_armed := False\<rparr>, d)
                 else (j, d)) of
             (j, d) \<Rightarrow> (result, close_generation result j, d))"

definition rejectAndCoast :: "motor_request \<Rightarrow> int \<Rightarrow> u64 \<Rightarrow> 'd journal \<times> 'd \<Rightarrow> int \<times> 'd journal \<times> 'd" where
  "rejectAndCoast request cause now_us s =
     (if cause = ESP_OK \<or> \<not> valid_request request then (ESP_ERR_INVALID_ARG, s)
      else case s of (j, d) \<Rightarrow>
        let j = open_generation request now_us j in
        case applyCoast now_us (j, d) of
          (_, j, d) \<Rightarrow> (cause, close_generation cause (j\<lparr>jn_armed := False\<rparr>), d))"

definition journal_snapshot :: "u64 \<Rightarrow> 'd journal \<Rightarrow> command_evidence" where
  "journal_snapshot logger_snapshot_us j =
     (jn_current j)\<lparr>ev_logger_snapshot_timestamp_us := logger_snapshot_us\<rparr>"

section \<open>Histories\<close>

datatype journal_call =
    Jc_arm | Jc_disarm u64 | Jc_stopForError int u64 | Jc_apply motor_request u64
  | Jc_rejectAndCoast motor_request int u64

fun journal_step :: "journal_call \<Rightarrow> 'd journal \<times> 'd \<Rightarrow> int \<times> 'd journal \<times> 'd" where
  "journal_step Jc_arm (j, d) = (case journal_arm j of (result, j) \<Rightarrow> (result, j, d))"
| "journal_step (Jc_disarm now_us) s = journal_disarm now_us s"
| "journal_step (Jc_stopForError cause now_us) s = stopForError cause now_us s"
| "journal_step (Jc_apply request now_us) s = journal_apply request now_us s"
| "journal_step (Jc_rejectAndCoast request cause now_us) s = rejectAndCoast request cause now_us s"

definition journal_run :: "journal_call list \<Rightarrow> 'd journal \<times> 'd \<Rightarrow> 'd journal \<times> 'd" where
  "journal_run calls s = foldl (\<lambda>s call. snd (journal_step call s)) s calls"

text \<open>A motor that keeps the list of the requests it was given.\<close>

definition recording :: "'d motor_apply \<Rightarrow> ('d \<times> motor_request list) motor_apply" where
  "recording motor request now_us s =
     (case s of (d, sent) \<Rightarrow> case motor request now_us d of
        (result, completed_at_us, d) \<Rightarrow> (result, completed_at_us, d, sent @ [request]))"

text \<open>What may be sent to the motor: coast at any time, a drive or a brake only from an armed journal.\<close>

definition sendable :: "bool \<Rightarrow> motor_request \<Rightarrow> bool" where
  "sendable armed request = (valid_request request \<and> (needs_arm request \<longrightarrow> armed))"

section \<open>Evidence\<close>

text \<open>Two snapshots tell the same story: one generation has one evidence.\<close>

definition same_evidence :: "command_evidence \<Rightarrow> command_evidence \<Rightarrow> bool" where
  "same_evidence a b \<longleftrightarrow> a\<lparr>ev_logger_snapshot_timestamp_us := 0\<rparr> = b\<lparr>ev_logger_snapshot_timestamp_us := 0\<rparr>"

section \<open>What a step sends\<close>

lemma coast_sendable: "sendable armed coast_request"
  by (simp add: sendable_def valid_request_def needs_arm_def coast_request_def kMaximumCommandPermille_def)

lemma recording_sends:
  "recording motor request t (d, sent) = (r, t', d', sent') \<Longrightarrow> sent' = sent @ [request]"
  by (auto simp: recording_def split: prod.splits)

lemma coast_step:
  assumes "jn_callback j = Some (recording motor)" "applyCoast t (j, d, sent) = (r, j', d', sent')"
  shows "sent' = sent @ [coast_request] \<and> jn_callback j' = jn_callback j \<and> jn_armed j' = jn_armed j \<and>
    jn_current j' = jn_current j \<and> jn_next_generation j' = jn_next_generation j"
  using assms by (auto simp: applyCoast_def dest: recording_sends split: prod.splits)

lemma generation_fields [simp]:
  "jn_callback (open_generation request t j) = jn_callback j"
  "jn_armed (open_generation request t j) = jn_armed j"
  "jn_callback (close_generation r j) = jn_callback j" "jn_armed (close_generation r j) = jn_armed j"
  "jn_next_generation (open_generation request t j) = jn_next_generation j + 1"
  "jn_next_generation (close_generation r j) = jn_next_generation j"
  "ev_command_generation (jn_current (open_generation request t j)) = jn_next_generation j"
  "ev_command_generation (jn_current (close_generation r j)) = ev_command_generation (jn_current j)"
  by (simp_all add: open_generation_def close_generation_def Let_def)

text \<open>The stages of \<open>apply\<close> on a bound journal.\<close>

lemma apply_bound:
  assumes "jn_callback j = Some (recording motor)"
    and "journal_apply request t (j, d, sent) = (r, j', d', sent')"
  obtains (same) "r = ESP_OK" "j' = j" "sent' = sent"
  | (refused) "r \<noteq> ESP_OK" "sent' = sent @ [coast_request]" "\<not> jn_armed j'"
  | (sent) "r = ESP_OK" "sendable (jn_armed j) request" "sent' = sent @ [request]" "jn_armed j' = jn_armed j"
  | (failed) "r \<noteq> ESP_OK" "sendable (jn_armed j) request" "sent' = sent @ [request, coast_request]"
      "\<not> jn_armed j'"
proof (cases "valid_request request \<and> (\<not> needs_arm request \<or> jn_armed j) \<and> jn_callback j \<noteq> None \<and>
    requestAlreadyApplied request j")
  case True
  then show ?thesis using assms(2) same by (simp add: journal_apply_def)
next
  case False
  note new = False
  show ?thesis
  proof (cases "sendable (jn_armed j) request")
    case True
    then have v: "valid_request request" "\<not> (needs_arm request \<and> \<not> jn_armed j)"
      by (auto simp: sendable_def)
    obtain r1 t1 d1 where "motor request t d = (r1, t1, d1)" by (metis surj_pair)
    then have c: "recording motor request t (d, sent) = (r1, t1, d1, sent @ [request])"
      by (simp add: recording_def)
    let ?j = "open_generation request t (j\<lparr>jn_current_applied := \<lparr>ma_command_permille =
      mr_command_permille request, ma_mode = mr_mode request, ma_result = r1, ma_command_apply_timestamp_us = t1\<rparr>\<rparr>)"
    obtain r2 j2 d2 sent2 where a: "applyCoast t (?j, d1, sent @ [request]) = (r2, j2, d2, sent2)"
      by (metis surj_pair)
    have s2: "sent2 = sent @ [request, coast_request]" using coast_step[OF _ a] assms(1) by simp
    show ?thesis
      using assms(2) new v True s2 sent failed
      unfolding journal_apply_def try_apply_def
      by (cases "r1 = ESP_OK") (auto simp: assms(1) c a Let_def simp del: de_Morgan_conj)
  next
    case False
    obtain r2 j2 d2 sent2 where a: "applyCoast t (open_generation request t j, d, sent) = (r2, j2, d2, sent2)"
      by (metis surj_pair)
    have s2: "sent2 = sent @ [coast_request]" using coast_step[OF _ a] assms(1) by simp
    have nz: "ESP_ERR_INVALID_ARG \<noteq> ESP_OK" "ESP_ERR_INVALID_STATE \<noteq> ESP_OK"
      by (simp_all add: ESP_ERR_INVALID_ARG_def ESP_ERR_INVALID_STATE_def ESP_OK_def)
    show ?thesis
      using assms(2) new False s2 refused nz
      unfolding journal_apply_def try_apply_def
      by (cases "valid_request request") (auto simp: assms(1) a sendable_def Let_def simp del: de_Morgan_conj)
  qed
qed

lemma apply_keeps_callback: "journal_apply request t (j, d) = (r, j', d') \<Longrightarrow> jn_callback j' = jn_callback j"
  by (auto simp: journal_apply_def try_apply_def applyCoast_def Let_def split: if_splits prod.splits option.splits)

text \<open>The requests sent from \<open>sent\<close> to \<open>sent'\<close>.\<close>

definition sends :: "bool \<Rightarrow> motor_request list \<Rightarrow> motor_request list \<Rightarrow> bool" where
  "sends armed sent sent' \<longleftrightarrow> (\<exists>new. sent' = sent @ new \<and> (\<forall>request \<in> set new. sendable armed request))"

lemma sends_none [simp]: "sends armed sent sent"
  by (simp add: sends_def)

lemma sends_one [simp]: "sendable armed request \<Longrightarrow> sends armed sent (sent @ [request])"
  by (simp add: sends_def)

lemma sends_two [simp]: "sendable armed p \<Longrightarrow> sendable armed q \<Longrightarrow> sends armed sent (sent @ [p, q])"
  by (simp add: sends_def)

lemma step_sends:
  assumes j: "jn_callback j = Some (recording motor)"
    and step: "journal_step call (j, d, sent) = (r, j', d', sent')"
  shows "jn_callback j' = jn_callback j \<and> sends (jn_armed j) sent sent'"
proof (cases call)
  case Jc_arm
  then show ?thesis using step by (auto simp: journal_arm_def split: if_splits)
next
  case (Jc_disarm t)
  then show ?thesis using step by (auto simp: journal_disarm_def coast_sendable dest!: coast_step[OF j] split: prod.splits)
next
  case (Jc_stopForError cause t)
  then show ?thesis using step
    by (auto simp: stopForError_def journal_disarm_def coast_sendable dest!: coast_step[OF j] split: prod.splits if_splits)
next
  case (Jc_apply request t)
  then have a: "journal_apply request t (j, d, sent) = (r, j', d', sent')" using step by simp
  show ?thesis
    by (rule apply_bound[OF j a]) (simp_all add: apply_keeps_callback[OF a] coast_sendable)
next
  case (Jc_rejectAndCoast request cause t)
  have o: "jn_callback (open_generation request t j) = Some (recording motor)" using j by simp
  show ?thesis using step Jc_rejectAndCoast j
    by (auto simp: rejectAndCoast_def coast_sendable Let_def dest!: coast_step[OF o] split: prod.splits if_splits)
qed

lemma journal_run_snoc: "journal_run (calls @ [call]) s = snd (journal_step call (journal_run calls s))"
  by (simp add: journal_run_def)

lemma run_callback:
  "journal_run calls (journal_init (Some (recording motor)), d, []) = (j, d', sent) \<Longrightarrow>
     jn_callback j = Some (recording motor)"
proof (induction calls arbitrary: j d' sent rule: rev_induct)
  case (snoc call calls)
  obtain j1 d1 sent1 where r: "journal_run calls (journal_init (Some (recording motor)), d, []) = (j1, d1, sent1)"
    by (metis surj_pair)
  obtain r2 j2 d2 sent2 where s: "journal_step call (j1, d1, sent1) = (r2, j2, d2, sent2)"
    by (metis surj_pair)
  show ?case using snoc.prems step_sends[OF snoc.IH[OF r] s] snoc.IH[OF r] by (simp add: journal_run_snoc r s)
qed (simp add: journal_run_def journal_init_def)

section \<open>Generations\<close>

text \<open>A step keeps the evidence or opens exactly one generation.\<close>

definition generation_step :: "'d journal \<Rightarrow> 'd journal \<Rightarrow> bool" where
  "generation_step j j' \<longleftrightarrow> jn_next_generation j' = jn_next_generation j \<and> jn_current j' = jn_current j \<or>
     jn_next_generation j' = jn_next_generation j + 1 \<and>
     ev_command_generation (jn_current j') = jn_next_generation j"

lemma coast_generation:
  "applyCoast t (j, d) = (r, j', d') \<Longrightarrow>
     jn_next_generation j' = jn_next_generation j \<and> jn_current j' = jn_current j"
  by (auto simp: applyCoast_def split: prod.splits option.splits)

lemma apply_generation:
  assumes "journal_apply request t (j, d) = (r, j', d')"
  shows "generation_step j j'"
proof (cases "valid_request request \<and> (\<not> needs_arm request \<or> jn_armed j) \<and> jn_callback j \<noteq> None \<and>
    requestAlreadyApplied request j")
  case True
  then show ?thesis using assms by (simp add: journal_apply_def generation_step_def)
next
  case False
  obtain r1 j1 d1 where first: "try_apply request t (j, d) = (r1, j1, d1)" by (metis surj_pair)
  then have j1: "jn_next_generation j1 = jn_next_generation j"
    by (auto simp: try_apply_def split: if_splits option.splits prod.splits)
  obtain r2 j2 d2 where coast: "applyCoast t (open_generation request t j1, d1) = (r2, j2, d2)"
    by (metis surj_pair)
  have "j' = close_generation r1 (if r1 \<noteq> ESP_OK then j2\<lparr>jn_armed := False\<rparr> else open_generation request t j1)"
    using assms unfolding journal_apply_def prod.case if_not_P[OF False] first Let_def
    by (cases "r1 = ESP_OK") (auto simp: coast)
  then show ?thesis using j1 coast_generation[OF coast] by (simp add: generation_step_def)
qed

lemma step_generation: "journal_step call (j, d) = (r, j', d') \<Longrightarrow> generation_step j j'"
proof (cases call)
  case (Jc_apply request t)
  then show "journal_step call (j, d) = (r, j', d') \<Longrightarrow> generation_step j j'"
    using apply_generation by auto
qed (auto simp: journal_arm_def journal_disarm_def stopForError_def rejectAndCoast_def generation_step_def
    Let_def dest!: coast_generation split: if_splits prod.splits)

lemma run_generation:
  assumes "unat (jn_next_generation j) + length calls < 2 ^ 64"
    and "ev_command_generation (jn_current j) < jn_next_generation j"
    and "journal_run calls (j, d) = (j', d')"
  shows "unat (jn_next_generation j') \<le> unat (jn_next_generation j) + length calls \<and>
    ev_command_generation (jn_current j') < jn_next_generation j' \<and>
    (jn_current j' = jn_current j \<or> jn_next_generation j \<le> ev_command_generation (jn_current j')) \<and>
    jn_next_generation j \<le> jn_next_generation j'"
  using assms
proof (induction calls arbitrary: j' d' rule: rev_induct)
  case (snoc call calls)
  obtain j1 d1 where r: "journal_run calls (j, d) = (j1, d1)" by (metis surj_pair)
  obtain r2 where s: "journal_step call (j1, d1) = (r2, j', d')"
    using snoc.prems(3) by (metis journal_run_snoc r prod.collapse snd_conv)
  have ih: "unat (jn_next_generation j1) \<le> unat (jn_next_generation j) + length calls"
      "ev_command_generation (jn_current j1) < jn_next_generation j1"
      "jn_current j1 = jn_current j \<or> jn_next_generation j \<le> ev_command_generation (jn_current j1)"
      "jn_next_generation j \<le> jn_next_generation j1"
    using snoc.IH[OF _ snoc.prems(2) r] snoc.prems(1) by auto
  have up: "unat (jn_next_generation j1 + 1) = Suc (unat (jn_next_generation j1))"
    using ih(1) snoc.prems(1) by (simp add: unat_word_ariths)
  from step_generation[OF s] consider
      "jn_next_generation j' = jn_next_generation j1" "jn_current j' = jn_current j1"
    | "jn_next_generation j' = jn_next_generation j1 + 1"
      "ev_command_generation (jn_current j') = jn_next_generation j1"
    by (auto simp: generation_step_def)
  then show ?case
    by cases (use ih up in \<open>auto simp: word_less_nat_alt word_le_nat_alt\<close>)
qed (simp add: journal_run_def)

section \<open>Properties\<close>

text \<open>C39: The motor is driven only through an armed journal: in every history of calls, every request a
  call sends to the motor agrees with its mode, is at most 350 permille, and is a drive or a brake only
  if the journal was armed when the call began.\<close>

theorem drive_needs_arm:
  assumes "journal_run calls (journal_init (Some (recording motor)), d0, []) = (j, d, sent)"
    and "journal_step call (j, d, sent) = (r, j', d', sent')"
  shows "\<exists>new. sent' = sent @ new \<and> (\<forall>request \<in> set new. sendable (jn_armed j) request)"
  using step_sends[OF run_callback[OF assms(1)] assms(2)] by (simp add: sends_def)

theorem drive_needs_arm_witness:
  "\<exists>j' d' sent' r. journal_step (Jc_apply \<lparr>mr_command_permille = 300, mr_mode = Mode_DriveIn2\<rparr> 7)
       (journal_init (Some (recording (\<lambda>request t d. (0, t, d + 1)))), 0 :: nat, []) = (r, j', d', sent') \<and>
     (\<exists>new. sent' = [] @ new \<and> (\<forall>request \<in> set new. sendable False request))"
proof -
  let ?j = "journal_init (Some (recording (\<lambda>request t d. (0, t, d + 1 :: nat))))"
  obtain r j' d' sent' where step: "journal_step (Jc_apply \<lparr>mr_command_permille = 300, mr_mode = Mode_DriveIn2\<rparr> 7)
      (?j, 0, []) = (r, j', d', sent')" by (metis surj_pair)
  have "journal_run [] (?j, 0, []) = (?j, 0, [])" by (simp add: journal_run_def)
  from drive_needs_arm[OF this step] show ?thesis using step by (auto simp: journal_init_def)
qed

text \<open>A failed request ends in coast: if \<open>apply\<close> returns an error, in whatever state the journal is, the
  last request the motor was given is coast and the journal is disarmed.\<close>

theorem failed_apply_coasts:
  assumes "journal_run calls (journal_init (Some (recording motor)), d0, []) = (j, d, sent)"
    and "journal_apply request now_us (j, d, sent) = (r, j', d', sent')" and "r \<noteq> ESP_OK"
  shows "sent' \<noteq> [] \<and> last sent' = coast_request \<and> \<not> jn_armed j'"
  by (rule apply_bound[OF run_callback[OF assms(1)] assms(2)]) (use assms(3) in simp_all)

theorem failed_apply_coasts_witness:
  "\<exists>j' d' sent' r. journal_apply \<lparr>mr_command_permille = 400, mr_mode = Mode_DriveIn2\<rparr> 7
       (journal_init (Some (recording (\<lambda>request t d. (0, t, d + 1)))), 0 :: nat, []) = (r, j', d', sent') \<and>
     last sent' = coast_request"
proof -
  let ?j = "journal_init (Some (recording (\<lambda>request t d. (0, t, d + 1 :: nat))))"
  obtain r j' d' sent' where step: "journal_apply \<lparr>mr_command_permille = 400, mr_mode = Mode_DriveIn2\<rparr> 7
      (?j, 0, []) = (r, j', d', sent')" by (metis surj_pair)
  then have "r \<noteq> ESP_OK"
    by (auto simp: journal_apply_def try_apply_def valid_request_def kMaximumCommandPermille_def ESP_OK_def
        ESP_ERR_INVALID_ARG_def Let_def split: prod.splits)
  moreover have "journal_run [] (?j, 0, []) = (?j, 0, [])" by (simp add: journal_run_def)
  ultimately show ?thesis using failed_apply_coasts[OF _ step] step by blast
qed

text \<open>The evidence of a generation is immutable: between any two snapshots of a history shorter than
  \<open>2^64\<close> calls, the generation never decreases, and equal generations have equal requests, outputs,
  results and apply times.\<close>

theorem evidence_immutable:
  assumes "journal_run calls (journal_init callback, d0) = (j, d)"
    and "journal_run later (j, d) = (j', d')" and "length calls + length later < 2 ^ 64 - 1"
  shows "ev_command_generation (journal_snapshot t j) \<le> ev_command_generation (journal_snapshot t' j') \<and>
    (ev_command_generation (journal_snapshot t j) = ev_command_generation (journal_snapshot t' j') \<longrightarrow>
       same_evidence (journal_snapshot t j) (journal_snapshot t' j'))"
proof -
  have init: "unat (jn_next_generation (journal_init callback)) = 1"
      "ev_command_generation (jn_current (journal_init callback)) < jn_next_generation (journal_init callback)"
    by (simp_all add: journal_init_def evidence_init_def)
  have j: "unat (jn_next_generation j) \<le> 1 + length calls"
      "ev_command_generation (jn_current j) < jn_next_generation j"
    using run_generation[OF _ init(2) assms(1)] init(1) assms(3) by simp_all
  from run_generation[OF _ j(2) assms(2)] j(1) assms(3)
  consider "jn_current j' = jn_current j" | "jn_next_generation j \<le> ev_command_generation (jn_current j')"
    by auto
  then show ?thesis
    by cases (use j(2) in \<open>auto simp: journal_snapshot_def same_evidence_def\<close>)
qed

theorem evidence_immutable_witness:
  "\<exists>j d j' d'. journal_run [Jc_arm] (journal_init (Some (recording (\<lambda>request t d. (0, t, d + 1)))), 0 :: nat, []) = (j, d) \<and>
     journal_run [Jc_apply coast_request 5, Jc_disarm 9] (j, d) = (j', d') \<and>
     ev_command_generation (journal_snapshot 1 j) \<le> ev_command_generation (journal_snapshot 2 j')"
proof -
  obtain j d where "journal_run [Jc_arm] (journal_init (Some (recording (\<lambda>request t d. (0, t, d + 1)))), 0 :: nat, []) = (j, d)"
    by (metis surj_pair)
  moreover obtain j' d' where "journal_run [Jc_apply coast_request 5, Jc_disarm 9] (j, d) = (j', d')"
    by (metis surj_pair)
  ultimately show ?thesis using evidence_immutable[of "[Jc_arm]" _ _ j d "[Jc_apply coast_request 5, Jc_disarm 9]" j' d' 1 2]
    by auto
qed

end
