(* ===== verification/Epoch_Assembler.thy ===== *)
theory Epoch_Assembler
  imports Characterization_Types "HOL-Library.Signed_Division"
begin

text \<open>
  \<open>characterization/fixed_epoch_assembler.{hpp,cpp}\<close>: encoder samples are put into 1 ms epochs by
  their capture time, at most one per slot, and an epoch is released as a block, in order. Eight
  buckets hold the epochs that are not released yet. \<open>int64_t\<close> values are \<open>int\<close>, and the additions the
  code checks for overflow are checked here; \<open>release\<close> returns \<open>None\<close> for \<open>false\<close>, with the state at
  that point. The timing scope of the rate-check diagnostics is left out.
\<close>

section \<open>State\<close>

definition kBucketCount :: u64 where "kBucketCount = 8"

record bucket =
  bk_initialized :: bool
  bk_epoch_index :: u64
  bk_observed_count :: u8
  bk_repeated_count :: u8
  bk_samples :: "raw_sample list"
  bk_present :: "bool list"

definition bucket_init :: bucket where
  "bucket_init = \<lparr>bk_initialized = False, bk_epoch_index = 0, bk_observed_count = 0,
     bk_repeated_count = 0, bk_samples = replicate 5 raw_sample_init, bk_present = replicate 5 False\<rparr>"

record assembler =
  as_rate :: encoder_rate
  as_samples_per_epoch :: u8
  as_deadline_budget_us :: u32
  as_epoch_zero_timestamp_us :: u64
  as_initialized :: bool
  as_has_released_epoch :: bool
  as_last_released_epoch :: u64
  as_has_unwrapped_reference :: bool
  as_last_released_raw :: u16
  as_last_unwrapped_count :: int
  as_unreported_late_samples :: u64
  as_buckets :: "bucket list"
  as_statistics :: sampler_statistics

definition assembler_of :: "encoder_rate \<Rightarrow> u32 \<Rightarrow> assembler" where
  "assembler_of rate deadline_budget_us =
     \<lparr>as_rate = rate, as_samples_per_epoch = expectedSamplesPerEpoch rate,
      as_deadline_budget_us = deadline_budget_us, as_epoch_zero_timestamp_us = 0,
      as_initialized = False, as_has_released_epoch = False, as_last_released_epoch = 0,
      as_has_unwrapped_reference = False, as_last_released_raw = 0, as_last_unwrapped_count = 0,
      as_unreported_late_samples = 0, as_buckets = replicate 8 bucket_init,
      as_statistics = statistics_init\<rparr>"

definition assembler_reset :: "u64 \<Rightarrow> assembler \<Rightarrow> assembler" where
  "assembler_reset epoch_zero_timestamp_us a =
     a\<lparr>as_epoch_zero_timestamp_us := epoch_zero_timestamp_us, as_initialized := True,
       as_has_released_epoch := False, as_last_released_epoch := 0,
       as_has_unwrapped_reference := False, as_last_released_raw := 0, as_last_unwrapped_count := 0,
       as_unreported_late_samples := 0, as_buckets := replicate 8 bucket_init,
       as_statistics := statistics_init\<rparr>"

definition reset_with_reference :: "u64 \<Rightarrow> u16 \<Rightarrow> assembler \<Rightarrow> assembler" where
  "reset_with_reference epoch_zero_timestamp_us initial_raw a =
     (assembler_reset epoch_zero_timestamp_us a)\<lparr>as_last_released_raw := initial_raw,
        as_last_unwrapped_count := uint initial_raw, as_has_unwrapped_reference := True\<rparr>"

definition reset_with_rate :: "encoder_rate \<Rightarrow> u64 \<Rightarrow> assembler \<Rightarrow> assembler" where
  "reset_with_rate rate epoch_zero_timestamp_us a =
     assembler_reset epoch_zero_timestamp_us
       (a\<lparr>as_rate := rate, as_samples_per_epoch := expectedSamplesPerEpoch rate\<rparr>)"

section \<open>Arithmetic\<close>

definition int64_min :: int where "int64_min = - (2 ^ 63)"
definition int64_max :: int where "int64_max = 2 ^ 63 - 1"

definition checkedAdd :: "int \<Rightarrow> int \<Rightarrow> int option" where
  "checkedAdd lhs rhs =
     (if rhs > 0 \<and> lhs > int64_max - rhs \<or> rhs < 0 \<and> lhs < int64_min - rhs then None
      else Some (lhs + rhs))"

text \<open>\<open>int64_min / 65536\<close> is exact and \<open>int64_max / 65536\<close> positive, so division truncates as \<open>div\<close>.\<close>

definition checkedQ16 :: "int \<Rightarrow> int option" where
  "checkedQ16 counts =
     (if counts > int64_max div 65536 \<or> counts < int64_min div 65536 then None
      else Some (counts * 65536))"

definition slotForCaptureOffset :: "u64 \<Rightarrow> assembler \<Rightarrow> u8" where
  "slotForCaptureOffset offset_us a =
     (let scaled = offset_us * ucast (as_samples_per_epoch a); slot = scaled div kEpochDurationUs in
      ucast (min slot (ucast (as_samples_per_epoch a) - 1)))"

definition slotCenterOffsetUs :: "u8 \<Rightarrow> assembler \<Rightarrow> u64" where
  "slotCenterOffsetUs slot a =
     (let numerator = (2 * ucast slot + 1) * kEpochDurationUs;
          denominator = 2 * ucast (as_samples_per_epoch a) in numerator div denominator)"

definition absoluteDifference :: "u64 \<Rightarrow> u64 \<Rightarrow> u64" where
  "absoluteDifference lhs rhs = (if lhs \<ge> rhs then lhs - rhs else rhs - lhs)"

definition wrappedDelta :: "u16 \<Rightarrow> u16 \<Rightarrow> int" where
  "wrappedDelta current previous =
     (let delta = uint current - uint previous in
      if delta > 8192 then delta - 16384 else if delta < -8192 then delta + 16384 else delta)"

section \<open>Adding a sample\<close>

definition bucket_index :: "u64 \<Rightarrow> nat" where
  "bucket_index epoch_index = unat (epoch_index mod kBucketCount)"

text \<open>The bucket part of \<open>add\<close>: the slot keeps the sample nearest to its centre, the earlier on a tie.\<close>

definition bucket_put :: "assembler \<Rightarrow> u64 \<Rightarrow> u64 \<Rightarrow> raw_sample \<Rightarrow> bucket \<Rightarrow> bucket" where
  "bucket_put a epoch_index offset_us sample bucket =
     (let slot = slotForCaptureOffset offset_us a;
          bucket = bucket\<lparr>bk_observed_count := bk_observed_count bucket + 1\<rparr> in
      if \<not> bk_present bucket ! unat slot
      then bucket\<lparr>bk_samples := (bk_samples bucket)[unat slot := sample],
             bk_present := (bk_present bucket)[unat slot := True]\<rparr>
      else let bucket = bucket\<lparr>bk_repeated_count := bk_repeated_count bucket + 1\<rparr>;
               center = slotCenterOffsetUs slot a;
               kept = bk_samples bucket ! unat slot;
               current_offset = rs_capture_timestamp_us kept -
                 (as_epoch_zero_timestamp_us a + epoch_index * kEpochDurationUs);
               old_distance = absoluteDifference current_offset center;
               new_distance = absoluteDifference offset_us center in
        if new_distance < old_distance \<or> new_distance = old_distance \<and>
           rs_capture_timestamp_us sample < rs_capture_timestamp_us kept
        then bucket\<lparr>bk_samples := (bk_samples bucket)[unat slot := sample]\<rparr>
        else bucket)"

definition assembler_add :: "raw_sample \<Rightarrow> assembler \<Rightarrow> add_result \<times> assembler" where
  "assembler_add sample a =
     (if \<not> as_initialized a \<or> as_samples_per_epoch a = 0 \<or>
         rs_capture_timestamp_us sample < as_epoch_zero_timestamp_us a
      then (Add_PreEpoch, a\<lparr>as_statistics := (as_statistics a)
             \<lparr>ss_pre_epoch_samples := ss_pre_epoch_samples (as_statistics a) + 1\<rparr>\<rparr>)
      else let relative = rs_capture_timestamp_us sample - as_epoch_zero_timestamp_us a;
               epoch_index = relative div kEpochDurationUs in
        if as_has_released_epoch a \<and> epoch_index \<le> as_last_released_epoch a
        then (Add_AlreadyReleased, a\<lparr>as_statistics := (as_statistics a)
               \<lparr>ss_late_after_release := ss_late_after_release (as_statistics a) + 1\<rparr>,
               as_unreported_late_samples := as_unreported_late_samples a + 1\<rparr>)
        else let i = bucket_index epoch_index; bucket = as_buckets a ! i in
          if bk_initialized bucket \<and> bk_epoch_index bucket \<noteq> epoch_index
          then (Add_BucketCollision, a\<lparr>as_statistics := (as_statistics a)
                 \<lparr>ss_bucket_collisions := ss_bucket_collisions (as_statistics a) + 1\<rparr>\<rparr>)
          else let bucket = (if \<not> bk_initialized bucket
                 then bucket_init\<lparr>bk_initialized := True, bk_epoch_index := epoch_index\<rparr> else bucket);
                 offset_us = relative mod kEpochDurationUs in
            (Add_Accepted, a\<lparr>as_buckets := (as_buckets a)[i :=
               bucket_put a epoch_index offset_us sample bucket]\<rparr>))"

section \<open>Releasing an epoch\<close>

text \<open>One turn of the slot loop.\<close>

definition sample_good :: "raw_sample \<Rightarrow> bool" where
  "sample_good sample = (rs_valid sample \<and> rs_read_result_code sample = 0)"

definition collect_slot :: "bucket \<Rightarrow> nat \<Rightarrow> epoch_block \<Rightarrow> epoch_block" where
  "collect_slot bucket slot block =
     (if \<not> bk_present bucket ! slot
      then block\<lparr>eb_skipped_sample_count := eb_skipped_sample_count block + 1\<rparr>
      else let sample = bk_samples bucket ! slot;
               block = block\<lparr>eb_sample_present := (eb_sample_present block)[slot := True],
                 eb_samples := (eb_samples block)[slot := sample\<lparr>rs_slot := of_nat slot\<rparr>],
                 eb_selected_sample_count := eb_selected_sample_count block + 1\<rparr> in
        if sample_good sample
        then block\<lparr>eb_valid_sample_count := eb_valid_sample_count block + 1\<rparr>
        else block\<lparr>eb_invalid_sample_count := eb_invalid_sample_count block + 1\<rparr>)"

definition collect_bucket :: "u8 \<Rightarrow> u64 \<Rightarrow> bucket \<Rightarrow> epoch_block \<Rightarrow> epoch_block" where
  "collect_bucket samples_per_epoch epoch_index bucket block =
     (if bk_initialized bucket \<and> bk_epoch_index bucket = epoch_index
      then foldl (\<lambda>block slot. collect_slot bucket slot block)
             (block\<lparr>eb_observed_sample_count := bk_observed_count bucket,
                eb_actual_sample_count := bk_observed_count bucket,
                eb_repeated_sample_count := bk_repeated_count bucket\<rparr>)
             [0..<unat samples_per_epoch]
      else block\<lparr>eb_skipped_sample_count := samples_per_epoch\<rparr>)"

definition set_flag :: "bool \<Rightarrow> u16 \<Rightarrow> epoch_block \<Rightarrow> epoch_block" where
  "set_flag condition flag block =
     (if condition then block\<lparr>eb_flags := eb_flags block OR flag\<rparr> else block)"

definition block_complete :: "u8 \<Rightarrow> epoch_block \<Rightarrow> bool" where
  "block_complete samples_per_epoch block =
     (eb_observed_sample_count block = samples_per_epoch \<and>
      eb_selected_sample_count block = samples_per_epoch \<and>
      eb_valid_sample_count block = samples_per_epoch \<and> eb_repeated_sample_count block = 0)"

text \<open>The unwrapped sum over the good samples of the block, with the number of them.\<close>

fun aggregate :: "epoch_block \<Rightarrow> nat list \<Rightarrow> int \<Rightarrow> u8 \<Rightarrow> assembler \<Rightarrow> (int \<times> u8) option \<times> assembler" where
  "aggregate block [] sum_q16 count a = (Some (sum_q16, count), a)"
| "aggregate block (slot # slots) sum_q16 count a =
     (if \<not> eb_sample_present block ! slot \<or> \<not> sample_good (eb_samples block ! slot)
      then aggregate block slots sum_q16 count a
      else let raw = rs_angle_raw (eb_samples block ! slot) in
        (case (if \<not> as_has_unwrapped_reference a then Some (uint raw)
               else checkedAdd (as_last_unwrapped_count a) (wrappedDelta raw (as_last_released_raw a))) of
          None \<Rightarrow> (None, a)
        | Some unwrapped \<Rightarrow>
           (let a = a\<lparr>as_has_unwrapped_reference := True, as_last_unwrapped_count := unwrapped,
                      as_last_released_raw := raw\<rparr> in
            (case checkedQ16 unwrapped of None \<Rightarrow> (None, a)
            | Some sample_q16 \<Rightarrow> (case checkedAdd sum_q16 sample_q16 of None \<Rightarrow> (None, a)
                | Some total_q16 \<Rightarrow> aggregate block slots total_q16 (count + 1) a)))))"

definition clamp_int32 :: "int \<Rightarrow> int" where
  "clamp_int32 v = max (- (2 ^ 31)) (min (2 ^ 31 - 1) v)"

text \<open>The block up to the flag of the deadline.\<close>

definition block_of :: "u64 \<Rightarrow> u64 \<Rightarrow> assembler \<Rightarrow> epoch_block" where
  "block_of epoch_index release_timestamp_us a =
     (let start = as_epoch_zero_timestamp_us a + epoch_index * kEpochDurationUs;
          finish = start + kEpochDurationUs;
          block = epoch_block_init\<lparr>eb_epoch_index := epoch_index, eb_epoch_start_timestamp_us := start,
            eb_epoch_end_timestamp_us := finish, eb_release_timestamp_us := release_timestamp_us,
            eb_expected_sample_count := as_samples_per_epoch a\<rparr>;
          block = set_flag (as_unreported_late_samples a \<noteq> 0) EpochLate block;
          signed_lateness = (if release_timestamp_us \<ge> finish then sint (release_timestamp_us - finish)
            else - sint (finish - release_timestamp_us));
          block = block\<lparr>eb_consumer_lateness_us := clamp_int32 signed_lateness\<rparr>;
          block = collect_bucket (as_samples_per_epoch a) epoch_index
            (as_buckets a ! bucket_index epoch_index) block;
          block = set_flag (eb_repeated_sample_count block \<noteq> 0) EpochRepeated block;
          block = set_flag (eb_skipped_sample_count block \<noteq> 0) EpochSkipped block;
          block = set_flag (eb_invalid_sample_count block \<noteq> 0) EpochInvalid block;
          whole = block_complete (as_samples_per_epoch a) block;
          block = set_flag (\<not> whole) EpochIncomplete block;
          block = set_flag (\<not> whole \<and> epoch_index = 0) EpochStartup block in
      set_flag (release_timestamp_us > finish + ucast (as_deadline_budget_us a)) EpochDeadline block)"

definition clear_released :: "u64 \<Rightarrow> assembler \<Rightarrow> assembler" where
  "clear_released epoch_index a =
     (let i = bucket_index epoch_index; bucket = as_buckets a ! i in
      if bk_initialized bucket \<and> bk_epoch_index bucket = epoch_index
      then a\<lparr>as_buckets := (as_buckets a)[i := bucket_init]\<rparr> else a)"

definition count_release :: "epoch_block \<Rightarrow> bool \<Rightarrow> u64 \<Rightarrow> sampler_statistics \<Rightarrow> sampler_statistics" where
  "count_release block whole epoch_index st =
     (let st = st\<lparr>ss_released_epochs := ss_released_epochs st + 1,
            ss_repeated_samples := ss_repeated_samples st + ucast (eb_repeated_sample_count block),
            ss_skipped_samples := ss_skipped_samples st + ucast (eb_skipped_sample_count block),
            ss_invalid_samples := ss_invalid_samples st + ucast (eb_invalid_sample_count block)\<rparr>;
          st = (if \<not> whole then st\<lparr>ss_incomplete_epochs := ss_incomplete_epochs st + 1\<rparr> else st) in
      if \<not> whole \<and> epoch_index = 0
      then st\<lparr>ss_startup_incomplete_epochs := ss_startup_incomplete_epochs st + 1\<rparr>
      else if \<not> whole
      then st\<lparr>ss_steady_state_incomplete_epochs := ss_steady_state_incomplete_epochs st + 1\<rparr>
      else st)"

definition assembler_release :: "u64 \<Rightarrow> u64 \<Rightarrow> assembler \<Rightarrow> epoch_block option \<times> assembler" where
  "assembler_release epoch_index release_timestamp_us a =
     (if \<not> as_initialized a \<or> as_samples_per_epoch a = 0 then (None, a)
      else if \<not> as_has_released_epoch a \<and> epoch_index \<noteq> 0 \<or>
              as_has_released_epoch a \<and> epoch_index \<noteq> as_last_released_epoch a + 1
      then (None, a)
      else let remaining_time = - 1 - as_epoch_zero_timestamp_us a in
        if epoch_index \<ge> remaining_time div kEpochDurationUs then (None, a)
        else let expected_epoch_end = as_epoch_zero_timestamp_us a + (epoch_index + 1) * kEpochDurationUs in
          if release_timestamp_us < expected_epoch_end then (None, a)
          else let block = block_of epoch_index release_timestamp_us a;
                   whole = block_complete (as_samples_per_epoch a) block;
                   a = (clear_released epoch_index a)\<lparr>as_unreported_late_samples := 0\<rparr>;
                   a = (if release_timestamp_us >
                           eb_epoch_end_timestamp_us block + ucast (as_deadline_budget_us a)
                        then a\<lparr>as_statistics := (as_statistics a)\<lparr>ss_consumer_deadline_misses :=
                           ss_consumer_deadline_misses (as_statistics a) + 1\<rparr>\<rparr> else a) in
            case aggregate block [0..<unat (as_samples_per_epoch a)] 0 0 a of
              (None, a) \<Rightarrow> (None, a)
            | (Some (sum_q16, aggregate_count), a) \<Rightarrow>
                let block = (if aggregate_count \<noteq> 0
                      then block\<lparr>eb_mean_unwrapped_counts_q16 := sum_q16 sdiv uint aggregate_count\<rparr>
                      else block);
                    block = set_flag whole EpochAggregateValid block in
                (Some block, a\<lparr>as_statistics := count_release block whole epoch_index (as_statistics a),
                   as_has_released_epoch := True, as_last_released_epoch := epoch_index\<rparr>))"

section \<open>The unwrapped sum does not overflow\<close>

lemma checkedAdd_Some: "\<bar>lhs + rhs\<bar> \<le> 2 ^ 63 - 1 \<Longrightarrow> checkedAdd lhs rhs = Some (lhs + rhs)"
  by (auto simp: checkedAdd_def int64_max_def int64_min_def)

lemma checkedQ16_Some: "\<bar>counts\<bar> \<le> 2 ^ 46 \<Longrightarrow> checkedQ16 counts = Some (counts * 65536)"
  by (auto simp: checkedQ16_def int64_max_def int64_min_def)

lemma uint_u16_bound: "0 \<le> uint (v::u16) \<and> uint v \<le> 65535"
  using uint_lt2p[of v] by simp

lemma wrappedDelta_bound: "\<bar>wrappedDelta current previous\<bar> \<le> 49151"
  using uint_u16_bound[of current] uint_u16_bound[of previous] unfolding wrappedDelta_def Let_def by presburger

lemma aggregate_some:
  assumes "\<bar>as_last_unwrapped_count a\<bar> + 65535 * int (length slots) \<le> B" "B \<le> 2 ^ 44"
    and "\<bar>sum_q16\<bar> + int (length slots) * (65536 * B) \<le> 2 ^ 63 - 1"
  shows "\<exists>total k h u r. aggregate block slots sum_q16 k0 a =
      (Some (total, k), a\<lparr>as_has_unwrapped_reference := h, as_last_unwrapped_count := u, as_last_released_raw := r\<rparr>)
      \<and> \<bar>u\<bar> \<le> B"
  using assms
proof (induction slots arbitrary: sum_q16 k0 a)
  case Nil
  then show ?case
    by (intro exI[of _ sum_q16] exI[of _ k0] exI[of _ "as_has_unwrapped_reference a"]
        exI[of _ "as_last_unwrapped_count a"] exI[of _ "as_last_released_raw a"]) simp
next
  case (Cons slot slots)
  show ?case
  proof (cases "\<not> eb_sample_present block ! slot \<or> \<not> sample_good (eb_samples block ! slot)")
    case True
    have "\<bar>as_last_unwrapped_count a\<bar> + 65535 * int (length slots) \<le> B"
         "\<bar>sum_q16\<bar> + int (length slots) * (65536 * B) \<le> 2 ^ 63 - 1"
      using Cons.prems by (auto simp: algebra_simps)
    from Cons.IH[OF this(1) Cons.prems(2) this(2), of k0] show ?thesis using True by simp
  next
    case False
    define raw where "raw = rs_angle_raw (eb_samples block ! slot)"
    define u where "u = (if \<not> as_has_unwrapped_reference a then uint raw
      else as_last_unwrapped_count a + wrappedDelta raw (as_last_released_raw a))"
    have u: "\<bar>u\<bar> \<le> \<bar>as_last_unwrapped_count a\<bar> + 65535"
      using uint_u16_bound[of raw] wrappedDelta_bound[of raw "as_last_released_raw a"]
      by (auto simp: u_def)
    then have small: "\<bar>u\<bar> \<le> 2 ^ 44" "\<bar>u\<bar> + 65535 * int (length slots) \<le> B"
      using Cons.prems(1,2) by auto
    have next_u: "(if \<not> as_has_unwrapped_reference a then Some (uint raw)
        else checkedAdd (as_last_unwrapped_count a) (wrappedDelta raw (as_last_released_raw a))) = Some u"
      using small(1) by (auto simp: u_def intro!: checkedAdd_Some)
    have "\<bar>u * 65536\<bar> \<le> 65536 * B" using small(2) by auto
    then have "\<bar>sum_q16 + u * 65536\<bar> + int (length slots) * (65536 * B) \<le> 2 ^ 63 - 1"
      using Cons.prems(3) abs_triangle_ineq[of sum_q16 "u * 65536"] by (auto simp: algebra_simps)
    moreover from this have "\<bar>sum_q16 + u * 65536\<bar> \<le> 2 ^ 63 - 1"
      using small Cons.prems(2) by (smt (verit) mult_nonneg_nonneg of_nat_0_le_iff)
    ultimately show ?thesis
      using False small checkedQ16_Some[of u] checkedAdd_Some[of sum_q16 "u * 65536"] next_u
        Cons.IH[of "a\<lparr>as_has_unwrapped_reference := True, as_last_unwrapped_count := u, as_last_released_raw := raw\<rparr>"
          "sum_q16 + u * 65536" "k0 + 1"] Cons.prems(2)
      by (simp add: raw_def[symmetric] Let_def)
  qed
qed

section \<open>Where a sample belongs\<close>

definition epoch_of :: "assembler \<Rightarrow> raw_sample \<Rightarrow> u64" where
  "epoch_of a x = (rs_capture_timestamp_us x - as_epoch_zero_timestamp_us a) div kEpochDurationUs"

definition offset_of :: "assembler \<Rightarrow> raw_sample \<Rightarrow> u64" where
  "offset_of a x = (rs_capture_timestamp_us x - as_epoch_zero_timestamp_us a) mod kEpochDurationUs"

definition slot_of :: "assembler \<Rightarrow> raw_sample \<Rightarrow> nat" where
  "slot_of a x = unat (slotForCaptureOffset (offset_of a x) a)"

definition distance_of :: "assembler \<Rightarrow> raw_sample \<Rightarrow> u64" where
  "distance_of a x =
     absoluteDifference (offset_of a x) (slotCenterOffsetUs (slotForCaptureOffset (offset_of a x) a) a)"

definition nearer :: "assembler \<Rightarrow> raw_sample \<Rightarrow> raw_sample \<Rightarrow> bool" where
  "nearer a x y \<longleftrightarrow> distance_of a x < distance_of a y \<or>
     distance_of a x = distance_of a y \<and> rs_capture_timestamp_us x < rs_capture_timestamp_us y"

lemma nearer_trans: "nearer a x y \<Longrightarrow> nearer a y z \<Longrightarrow> nearer a x z"
  by (auto simp: nearer_def)

lemma nearer_irrefl: "\<not> nearer a x x"
  by (simp add: nearer_def)

definition supported_rate :: "assembler \<Rightarrow> bool" where
  "supported_rate a \<longleftrightarrow> as_samples_per_epoch a \<in> {1, 2, 5}"

lemma offset_less: "offset_of a x < 1000"
  by (simp add: offset_of_def kEpochDurationUs_def word_less_nat_alt unat_mod)

lemma slot_at_offset:
  assumes "supported_rate a" "off < 1000"
  shows "unat (slotForCaptureOffset off a) = unat off * unat (as_samples_per_epoch a) div 1000"
proof -
  let ?n = "as_samples_per_epoch a"
  have off: "unat off < 1000" using assms(2) by (simp add: word_less_nat_alt)
  have n: "unat ?n \<in> {1, 2, 5}" using assms(1) by (auto simp: supported_rate_def)
  have wide: "unat (ucast ?n :: u64) = unat ?n" "ucast ?n \<noteq> (0::u64)"
    using assms(1) by (auto simp: supported_rate_def)
  have "unat off * unat ?n < 2 ^ 64" using off n by auto
  then have prod: "unat (off * ucast ?n :: u64) = unat off * unat ?n"
    by (simp add: unat_word_ariths wide)
  have slot: "unat (off * ucast ?n div kEpochDurationUs :: u64) = unat off * unat ?n div 1000"
    by (simp add: unat_div prod kEpochDurationUs_def)
  have top: "unat (ucast ?n - 1 :: u64) = unat ?n - 1"
    using wide by (simp add: unat_minus_one)
  have "unat off * unat ?n div 1000 < unat ?n" using off n by (auto simp: div_less_iff_less_mult)
  then have "unat off * unat ?n div 1000 \<le> unat ?n - Suc 0" by simp
  then have "min (off * ucast ?n div kEpochDurationUs) (ucast ?n - 1 :: u64) = off * ucast ?n div kEpochDurationUs"
    using slot top by (simp add: min_def word_le_nat_alt)
  moreover have "unat off * unat ?n div 1000 < 2 ^ 8"
    using \<open>unat off * unat ?n div 1000 < unat ?n\<close> n by auto
  ultimately show ?thesis
    unfolding slotForCaptureOffset_def Let_def using slot
    by (simp add: unsigned_ucast_eq take_bit_nat_eq_self_iff)
qed

lemma slot_less: "supported_rate a \<Longrightarrow> slot_of a x < unat (as_samples_per_epoch a)"
  using slot_at_offset[OF _ offset_less, of a a x] offset_less[of a x]
  by (auto simp: slot_of_def supported_rate_def word_less_nat_alt div_less_iff_less_mult)

lemma supported_bound: "supported_rate a \<Longrightarrow> unat (as_samples_per_epoch a) \<le> 5 \<and> 0 < unat (as_samples_per_epoch a)"
  by (auto simp: supported_rate_def)

section \<open>Buckets hold the nearest samples\<close>

text \<open>The accepted samples of an epoch and slot, and a bucket that holds the nearest of each.\<close>

definition seen :: "assembler \<Rightarrow> raw_sample list \<Rightarrow> u64 \<Rightarrow> nat \<Rightarrow> raw_sample list" where
  "seen a H e s = filter (\<lambda>x. epoch_of a x = e \<and> slot_of a x = s) H"

definition nearest_of :: "assembler \<Rightarrow> raw_sample list \<Rightarrow> raw_sample \<Rightarrow> bool" where
  "nearest_of a xs x \<longleftrightarrow> x \<in> set xs \<and> (\<forall>y \<in> set xs. \<not> nearer a y x)"

definition holds_slot :: "assembler \<Rightarrow> raw_sample list \<Rightarrow> u64 \<Rightarrow> bucket \<Rightarrow> nat \<Rightarrow> bool" where
  "holds_slot a H e b s \<longleftrightarrow>
     (if bk_present b ! s then nearest_of a (seen a H e s) (bk_samples b ! s) else seen a H e s = [])"

definition bucket_shape :: "nat \<Rightarrow> bucket \<Rightarrow> bool" where
  "bucket_shape n b \<longleftrightarrow> length (bk_samples b) = 5 \<and> length (bk_present b) = 5 \<and>
     (\<forall>s < 5. n \<le> s \<longrightarrow> \<not> bk_present b ! s) \<and>
     of_nat (length (filter id (bk_present b))) + bk_repeated_count b = bk_observed_count b"

lemma filter_update:
  "i < length xs \<Longrightarrow> \<not> xs ! i \<Longrightarrow> length (filter id (xs[i := True])) = Suc (length (filter id xs))"
proof (induction xs arbitrary: i)
  case (Cons x xs)
  then show ?case by (cases i) auto
qed simp

lemma shape_init: "bucket_shape n bucket_init"
  by (auto simp: bucket_shape_def bucket_init_def less_Suc_eq numeral_eq_Suc)

lemma put_fields [simp]:
  "bk_initialized (bucket_put a e off x b) = bk_initialized b"
  "bk_epoch_index (bucket_put a e off x b) = bk_epoch_index b"
  by (simp_all add: bucket_put_def Let_def)

lemma put_shape:
  assumes "bucket_shape (unat (as_samples_per_epoch a)) b" "supported_rate a"
  shows "bucket_shape (unat (as_samples_per_epoch a)) (bucket_put a e (offset_of a x) x b)"
proof -
  let ?s = "unat (slotForCaptureOffset (offset_of a x) a)"
  have s: "?s < unat (as_samples_per_epoch a)" "?s < 5"
    using slot_less[OF assms(2), of x] supported_bound[OF assms(2)] by (auto simp: slot_of_def)
  show ?thesis
  proof (cases "bk_present b ! ?s")
    case True
    then show ?thesis using assms(1)
      by (auto simp: bucket_put_def bucket_shape_def Let_def ac_simps)
  next
    case False
    then show ?thesis using assms(1) s filter_update[of ?s "bk_present b"]
      by (auto simp: bucket_put_def bucket_shape_def Let_def ac_simps nth_list_update)
  qed
qed

lemma div_mod_word: "(w::u64) - w div 1000 * 1000 = w mod 1000"
  by (metis add_diff_cancel_left' word_mod_div_equality)

lemma capture_offset:
  "epoch_of a x = e \<Longrightarrow> rs_capture_timestamp_us x - (as_epoch_zero_timestamp_us a + e * kEpochDurationUs) = offset_of a x"
  using div_mod_word[of "rs_capture_timestamp_us x - as_epoch_zero_timestamp_us a"]
  by (auto simp: epoch_of_def offset_of_def kEpochDurationUs_def diff_diff_eq)

text \<open>Putting an accepted sample into its bucket.\<close>

lemma put_holds:
  assumes b: "bucket_shape (unat (as_samples_per_epoch a)) b" and rate: "supported_rate a"
    and held: "\<And>s. s < unat (as_samples_per_epoch a) \<Longrightarrow> holds_slot a H (epoch_of a x) b s"
    and s: "s < unat (as_samples_per_epoch a)"
  shows "holds_slot a (H @ [x]) (epoch_of a x) (bucket_put a (epoch_of a x) (offset_of a x) x b) s"
proof (cases "s = slot_of a x")
  case False
  then have "seen a (H @ [x]) (epoch_of a x) s = seen a H (epoch_of a x) s" by (simp add: seen_def)
  moreover have "bk_present (bucket_put a (epoch_of a x) (offset_of a x) x b) ! s = bk_present b ! s"
      "bk_samples (bucket_put a (epoch_of a x) (offset_of a x) x b) ! s = bk_samples b ! s"
    using False by (auto simp: bucket_put_def slot_of_def Let_def)
  ultimately show ?thesis using held[OF s] by (simp add: holds_slot_def)
next
  case True
  have l: "s < length (bk_samples b)" "s < length (bk_present b)"
    using s b supported_bound[OF rate] by (auto simp: bucket_shape_def)
  have xs: "seen a (H @ [x]) (epoch_of a x) s = seen a H (epoch_of a x) s @ [x]"
    using True by (simp add: seen_def)
  show ?thesis
  proof (cases "bk_present b ! s")
    case False
    then have "bucket_put a (epoch_of a x) (offset_of a x) x b = b\<lparr>bk_observed_count := bk_observed_count b + 1,
        bk_samples := (bk_samples b)[s := x], bk_present := (bk_present b)[s := True]\<rparr>"
      using True by (simp add: bucket_put_def slot_of_def Let_def)
    then show ?thesis using held[OF s] False l xs nearer_irrefl by (simp add: holds_slot_def nearest_of_def)
  next
    case present: True
    let ?k = "bk_samples b ! s"
    have k: "nearest_of a (seen a H (epoch_of a x) s) ?k" using held[OF s] present by (simp add: holds_slot_def)
    then have ke: "epoch_of a ?k = epoch_of a x" and "slot_of a ?k = s" by (auto simp: nearest_of_def seen_def)
    then have ks: "slotForCaptureOffset (offset_of a ?k) a = slotForCaptureOffset (offset_of a x) a"
      using True by (simp add: slot_of_def word_unat_eq_iff)
    have kd: "distance_of a ?k = absoluteDifference (rs_capture_timestamp_us ?k -
        (as_epoch_zero_timestamp_us a + epoch_of a x * kEpochDurationUs))
        (slotCenterOffsetUs (slotForCaptureOffset (offset_of a x) a) a)"
      unfolding distance_of_def ks capture_offset[OF ke] by simp
    have put: "bk_present (bucket_put a (epoch_of a x) (offset_of a x) x b) = bk_present b"
        "bk_samples (bucket_put a (epoch_of a x) (offset_of a x) x b) =
          (if nearer a x ?k then (bk_samples b)[s := x] else bk_samples b)"
      using True present kd by (auto simp: bucket_put_def slot_of_def nearer_def distance_of_def Let_def)
    show ?thesis
      unfolding holds_slot_def put xs using present k l nearer_irrefl nearer_trans
      by (auto simp: nearest_of_def)
  qed
qed

section \<open>The assembler's invariant\<close>

definition unreleased :: "assembler \<Rightarrow> u64 \<Rightarrow> bool" where
  "unreleased a e \<longleftrightarrow> (as_has_released_epoch a \<longrightarrow> as_last_released_epoch a < e)"

definition epoch_held :: "assembler \<Rightarrow> raw_sample list \<Rightarrow> u64 \<Rightarrow> bool" where
  "epoch_held a H e \<longleftrightarrow>
     (let b = as_buckets a ! bucket_index e in
      if bk_initialized b \<and> bk_epoch_index b = e
      then \<forall>s < unat (as_samples_per_epoch a). holds_slot a H e b s
      else \<forall>s. seen a H e s = [])"

definition assembler_inv :: "assembler \<Rightarrow> raw_sample list \<Rightarrow> bool" where
  "assembler_inv a H \<longleftrightarrow> as_initialized a \<and> supported_rate a \<and> length (as_buckets a) = 8 \<and>
     (\<forall>b \<in> set (as_buckets a). bucket_shape (unat (as_samples_per_epoch a)) b) \<and>
     (as_has_released_epoch a \<longrightarrow> unat (as_last_released_epoch a) < 2 ^ 64 div 1000) \<and>
     (\<forall>e. unreleased a e \<longrightarrow> epoch_held a H e)"

lemma bucket_index_less: "bucket_index e < 8"
  by (simp add: bucket_index_def kBucketCount_def unat_mod)

text \<open>Where a sample belongs depends on the epoch zero and the rate only.\<close>

definition same_clock :: "assembler \<Rightarrow> assembler \<Rightarrow> bool" where
  "same_clock a a' \<longleftrightarrow> as_epoch_zero_timestamp_us a' = as_epoch_zero_timestamp_us a \<and>
     as_samples_per_epoch a' = as_samples_per_epoch a"

lemma clock_cong:
  assumes "same_clock a a'"
  shows "epoch_of a' = epoch_of a" "offset_of a' = offset_of a" "slot_of a' = slot_of a"
    "distance_of a' = distance_of a" "nearer a' = nearer a" "seen a' = seen a"
    "nearest_of a' = nearest_of a" "holds_slot a' = holds_slot a"
proof -
  have f: "epoch_of a' = epoch_of a" "offset_of a' = offset_of a"
      "slotForCaptureOffset off a' = slotForCaptureOffset off a"
      "slotCenterOffsetUs slot a' = slotCenterOffsetUs slot a" for off slot
    using assms by (auto simp: same_clock_def epoch_of_def offset_of_def slotForCaptureOffset_def
        slotCenterOffsetUs_def Let_def)
  show "epoch_of a' = epoch_of a" "offset_of a' = offset_of a" by (rule f)+
  show s: "slot_of a' = slot_of a" and "distance_of a' = distance_of a"
    by (auto simp: slot_of_def distance_of_def f)
  then show n: "nearer a' = nearer a" and t: "seen a' = seen a" by (auto simp: nearer_def seen_def f fun_eq_iff)
  then show w: "nearest_of a' = nearest_of a" by (auto simp: nearest_of_def fun_eq_iff)
  show "holds_slot a' = holds_slot a" by (auto simp: holds_slot_def fun_eq_iff w t)
qed

text \<open>Changing only statistics, late samples and the unwrapping.\<close>

definition same_buckets :: "assembler \<Rightarrow> assembler \<Rightarrow> bool" where
  "same_buckets a a' \<longleftrightarrow> same_clock a a' \<and> as_buckets a' = as_buckets a \<and> as_initialized a' = as_initialized a \<and>
     as_has_released_epoch a' = as_has_released_epoch a \<and> as_last_released_epoch a' = as_last_released_epoch a"

lemma inv_same_buckets:
  assumes "same_buckets a a'" "assembler_inv a H"
  shows "assembler_inv a' H"
proof -
  have c: "same_clock a a'" using assms(1) by (simp add: same_buckets_def)
  have f: "as_buckets a' = as_buckets a" "as_initialized a' = as_initialized a"
      "as_has_released_epoch a' = as_has_released_epoch a" "as_last_released_epoch a' = as_last_released_epoch a"
      "as_samples_per_epoch a' = as_samples_per_epoch a"
    using assms(1) by (auto simp: same_buckets_def same_clock_def)
  have "epoch_held a' = epoch_held a" "unreleased a' = unreleased a" "supported_rate a' = supported_rate a"
    by (simp_all add: fun_eq_iff epoch_held_def unreleased_def supported_rate_def f clock_cong[OF c])
  then show ?thesis using assms(2) by (simp add: assembler_inv_def f)
qed

lemma add_rejected:
  assumes "assembler_add x a = (r, a')" "r \<noteq> Add_Accepted"
  shows "same_buckets a a' \<and> as_last_unwrapped_count a' = as_last_unwrapped_count a"
  using assms by (auto simp: assembler_add_def same_buckets_def same_clock_def Let_def split: if_splits)

lemma add_accepted:
  assumes "assembler_add x a = (Add_Accepted, a')"
  obtains b where "unreleased a (epoch_of a x)"
    "b = as_buckets a ! bucket_index (epoch_of a x) \<and> bk_initialized b \<and> bk_epoch_index b = epoch_of a x \<or>
     b = bucket_init\<lparr>bk_initialized := True, bk_epoch_index := epoch_of a x\<rparr> \<and>
       \<not> bk_initialized (as_buckets a ! bucket_index (epoch_of a x))"
    "a' = a\<lparr>as_buckets := (as_buckets a)[bucket_index (epoch_of a x) :=
       bucket_put a (epoch_of a x) (offset_of a x) x b]\<rparr>"
    "as_epoch_zero_timestamp_us a \<le> rs_capture_timestamp_us x"
proof -
  let ?b = "as_buckets a ! bucket_index (epoch_of a x)"
  have c: "\<not> (\<not> as_initialized a \<or> as_samples_per_epoch a = 0 \<or>
         rs_capture_timestamp_us x < as_epoch_zero_timestamp_us a)"
    using assms by (auto simp: assembler_add_def Let_def split: if_splits)
  note add = assms[unfolded assembler_add_def if_not_P[OF c] epoch_of_def[symmetric] offset_of_def[symmetric] Let_def]
  have d: "\<not> (as_has_released_epoch a \<and> epoch_of a x \<le> as_last_released_epoch a)"
      "\<not> (bk_initialized ?b \<and> bk_epoch_index ?b \<noteq> epoch_of a x)"
    using add by (auto split: if_splits)
  show ?thesis
  proof (cases "bk_initialized ?b")
    case True
    then show ?thesis using that[of ?b] add d c by (auto simp: unreleased_def not_less not_le)
  next
    case False
    then show ?thesis using that[of "bucket_init\<lparr>bk_initialized := True, bk_epoch_index := epoch_of a x\<rparr>"] add d c
      by (auto simp: unreleased_def not_less not_le)
  qed
qed

lemma add_inv:
  assumes inv: "assembler_inv a H" and add: "assembler_add x a = (Add_Accepted, a')"
  shows "assembler_inv a' (H @ [x])"
proof -
  let ?e = "epoch_of a x" and ?n = "unat (as_samples_per_epoch a)"
  obtain b where b: "unreleased a ?e"
    "b = as_buckets a ! bucket_index ?e \<and> bk_initialized b \<and> bk_epoch_index b = ?e \<or>
     b = bucket_init\<lparr>bk_initialized := True, bk_epoch_index := ?e\<rparr> \<and> \<not> bk_initialized (as_buckets a ! bucket_index ?e)"
    "a' = a\<lparr>as_buckets := (as_buckets a)[bucket_index ?e := bucket_put a ?e (offset_of a x) x b]\<rparr>"
    by (rule add_accepted[OF add]) blast
  have c: "same_clock a a'" by (simp add: same_clock_def b(3))
  have l: "length (as_buckets a) = 8" and rate: "supported_rate a" using inv by (auto simp: assembler_inv_def)
  have held: "epoch_held a H e" if "unreleased a e" for e using inv that by (auto simp: assembler_inv_def)
  have shape: "bucket_shape ?n b"
    using b(2) inv l bucket_index_less[of ?e] shape_init[of ?n]
    by (auto simp: assembler_inv_def bucket_shape_def bucket_init_def)
  have slots: "holds_slot a H ?e b s" if "s < ?n" for s
    using b(2)
  proof (elim disjE conjE)
    assume "b = as_buckets a ! bucket_index ?e" "bk_initialized b" "bk_epoch_index b = ?e"
    then show ?thesis using held[OF b(1)] that by (simp add: epoch_held_def)
  next
    assume "b = bucket_init\<lparr>bk_initialized := True, bk_epoch_index := ?e\<rparr>"
        "\<not> bk_initialized (as_buckets a ! bucket_index ?e)"
    then have "bk_present b ! s = False" "seen a H ?e s = []"
      using held[OF b(1)] supported_bound[OF rate] that by (auto simp: epoch_held_def bucket_init_def)
    then show ?thesis by (simp add: holds_slot_def)
  qed
  have "epoch_held a' (H @ [x]) e" if u: "unreleased a e" for e
  proof (cases "e = ?e")
    case True
    then show ?thesis
      using put_holds[OF shape rate slots] l bucket_index_less[of ?e] b(2)
      unfolding epoch_held_def clock_cong[OF c] by (auto simp: b(3) bucket_init_def)
  next
    case False
    then have seen: "seen a (H @ [x]) e = seen a H e" by (auto simp: seen_def)
    show ?thesis
    proof (cases "bucket_index e = bucket_index ?e")
      case True
      then have "seen a H e s = []" for s using held[OF u] b(2) False by (auto simp: epoch_held_def)
      then show ?thesis
        using l bucket_index_less[of ?e] b(2) False True
        unfolding epoch_held_def clock_cong[OF c] by (auto simp: b(3) seen)
    next
      case other: False
      then have "as_buckets a' ! bucket_index e = as_buckets a ! bucket_index e" by (simp add: b(3))
      then show ?thesis using held[OF u] unfolding epoch_held_def clock_cong[OF c] holds_slot_def
        by (simp add: seen b(3) Let_def split: if_splits)
    qed
  qed
  moreover have "bucket_shape ?n bk" if "bk \<in> set (as_buckets a')" for bk
    using that inv put_shape[OF shape rate, of ?e x] set_update_subset_insert
    by (fastforce simp: b(3) assembler_inv_def)
  ultimately show ?thesis
    using inv by (simp add: assembler_inv_def b(3) unreleased_def supported_rate_def)
qed

section \<open>What a released block contains\<close>

definition good_slots :: "bucket \<Rightarrow> nat \<Rightarrow> nat" where
  "good_slots b k = length (filter (\<lambda>s. bk_present b ! s \<and> sample_good (bk_samples b ! s)) [0..<k])"

definition filled_slots :: "bucket \<Rightarrow> nat \<Rightarrow> nat" where
  "filled_slots b k = length (filter (\<lambda>s. bk_present b ! s) [0..<k])"

definition slot_sample :: "bucket \<Rightarrow> nat \<Rightarrow> nat \<Rightarrow> raw_sample" where
  "slot_sample b k s =
     (if s < k \<and> bk_present b ! s then (bk_samples b ! s)\<lparr>rs_slot := of_nat s\<rparr> else raw_sample_init)"

definition empty_slots :: "epoch_block \<Rightarrow> bool" where
  "empty_slots block \<longleftrightarrow> eb_selected_sample_count block = 0 \<and> eb_valid_sample_count block = 0 \<and>
     eb_invalid_sample_count block = 0 \<and> eb_skipped_sample_count block = 0 \<and>
     eb_sample_present block = replicate 5 False \<and> eb_samples block = replicate 5 raw_sample_init"

lemma good_le_filled: "good_slots b k \<le> filled_slots b k"
  unfolding good_slots_def filled_slots_def by (induction k) auto

lemma filled_le: "filled_slots b k \<le> k"
  unfolding filled_slots_def by (rule order_trans[OF length_filter_le]) simp

lemma map_update_five:
  "k < 5 \<Longrightarrow> (map f [0..<5])[k := y] = map (\<lambda>s. if s = k then y else f s) [0..<5]"
  by (rule nth_equalityI) (auto simp: nth_list_update)

lemma collect_fold:
  assumes "empty_slots block" "k \<le> 5"
  shows "foldl (\<lambda>block slot. collect_slot b slot block) block [0..<k] =
     block\<lparr>eb_selected_sample_count := of_nat (filled_slots b k),
       eb_valid_sample_count := of_nat (good_slots b k),
       eb_invalid_sample_count := of_nat (filled_slots b k - good_slots b k),
       eb_skipped_sample_count := of_nat (k - filled_slots b k),
       eb_sample_present := map (\<lambda>s. s < k \<and> bk_present b ! s) [0..<5],
       eb_samples := map (slot_sample b k) [0..<5]\<rparr>"
  using assms(2)
proof (induction k)
  case 0
  have "map (\<lambda>s. s < 0 \<and> bk_present b ! s) [0..<5] = replicate 5 False"
      "map (slot_sample b 0) [0..<5] = replicate 5 raw_sample_init"
    by (auto simp: slot_sample_def intro!: nth_equalityI)
  then show ?case using assms(1) by (simp add: empty_slots_def good_slots_def filled_slots_def)
next
  case (Suc k)
  have k: "k < 5" using Suc.prems by simp
  have steps: "filled_slots b (Suc k) = filled_slots b k + (if bk_present b ! k then 1 else 0)"
      "good_slots b (Suc k) = good_slots b k + (if bk_present b ! k \<and> sample_good (bk_samples b ! k) then 1 else 0)"
    by (simp_all add: filled_slots_def good_slots_def)
  have present: "map (\<lambda>s. s < Suc k \<and> bk_present b ! s) [0..<5] =
      map (\<lambda>s. if s = k then bk_present b ! k else s < k \<and> bk_present b ! s) [0..<5]"
    by (auto simp: less_Suc_eq)
  have samples: "map (slot_sample b (Suc k)) [0..<5] = map (\<lambda>s. if s = k then
      (if bk_present b ! k then (bk_samples b ! k)\<lparr>rs_slot := of_nat k\<rparr> else raw_sample_init) else slot_sample b k s) [0..<5]"
    by (auto simp: less_Suc_eq slot_sample_def)
  have le: "good_slots b k \<le> filled_slots b k" "filled_slots b k \<le> k"
    by (rule good_le_filled, rule filled_le)
  have fold: "foldl (\<lambda>block slot. collect_slot b slot block) block [0..<Suc k] =
      collect_slot b k (foldl (\<lambda>block slot. collect_slot b slot block) block [0..<k])"
    by simp
  show ?case
  proof (cases "bk_present b ! k")
    case False
    then have c: "filled_slots b (Suc k) = filled_slots b k" "good_slots b (Suc k) = good_slots b k"
      by (simp_all add: steps)
    have maps: "map (\<lambda>s. s < Suc k \<and> bk_present b ! s) [0..<5] = map (\<lambda>s. s < k \<and> bk_present b ! s) [0..<5]"
        "map (slot_sample b (Suc k)) [0..<5] = map (slot_sample b k) [0..<5]"
      using False by (auto simp: less_Suc_eq slot_sample_def)
    have up: "of_nat (Suc m) = of_nat m + (1 :: u8)" for m by simp
    show ?thesis
      unfolding fold Suc.IH[OF less_imp_le[OF k]] maps c Suc_diff_le[OF le(2)] up
      by (simp add: collect_slot_def False)
  next
    case True
    then have f: "filled_slots b (Suc k) = Suc (filled_slots b k)" by (simp add: steps)
    have up: "of_nat (Suc m) = of_nat m + (1 :: u8)" for m by simp
    show ?thesis
    proof (cases "sample_good (bk_samples b ! k)")
      case good: True
      have g: "good_slots b (Suc k) = Suc (good_slots b k)" using True good by (simp add: steps)
      show ?thesis
        unfolding fold Suc.IH[OF less_imp_le[OF k]] present samples f g diff_Suc_Suc up
        by (simp add: collect_slot_def True good map_update_five[OF k])
    next
      case bad: False
      have g: "good_slots b (Suc k) = good_slots b k" using bad by (simp add: steps)
      show ?thesis
        unfolding fold Suc.IH[OF less_imp_le[OF k]] present samples f g diff_Suc_Suc Suc_diff_le[OF le(1)] up
        by (simp add: collect_slot_def True bad map_update_five[OF k])
    qed
  qed
qed

lemma set_flag_fields [simp]:
  "eb_epoch_index (set_flag c f bl) = eb_epoch_index bl"
  "eb_epoch_start_timestamp_us (set_flag c f bl) = eb_epoch_start_timestamp_us bl"
  "eb_epoch_end_timestamp_us (set_flag c f bl) = eb_epoch_end_timestamp_us bl"
  "eb_release_timestamp_us (set_flag c f bl) = eb_release_timestamp_us bl"
  "eb_consumer_lateness_us (set_flag c f bl) = eb_consumer_lateness_us bl"
  "eb_expected_sample_count (set_flag c f bl) = eb_expected_sample_count bl"
  "eb_observed_sample_count (set_flag c f bl) = eb_observed_sample_count bl"
  "eb_actual_sample_count (set_flag c f bl) = eb_actual_sample_count bl"
  "eb_selected_sample_count (set_flag c f bl) = eb_selected_sample_count bl"
  "eb_valid_sample_count (set_flag c f bl) = eb_valid_sample_count bl"
  "eb_repeated_sample_count (set_flag c f bl) = eb_repeated_sample_count bl"
  "eb_skipped_sample_count (set_flag c f bl) = eb_skipped_sample_count bl"
  "eb_invalid_sample_count (set_flag c f bl) = eb_invalid_sample_count bl"
  "eb_mean_unwrapped_counts_q16 (set_flag c f bl) = eb_mean_unwrapped_counts_q16 bl"
  "eb_samples (set_flag c f bl) = eb_samples bl" "eb_sample_present (set_flag c f bl) = eb_sample_present bl"
  "block_complete n (set_flag c f bl) = block_complete n bl"
  by (simp_all add: set_flag_def block_complete_def)

text \<open>The bits of the flags word.\<close>

lemma bit_set_flag: "bit (eb_flags (set_flag c f bl)) k \<longleftrightarrow> bit (eb_flags bl) k \<or> c \<and> bit f k"
  by (simp add: set_flag_def bit_or_iff)

lemma flag_powers:
  "EpochIncomplete = 2 ^ 0" "EpochRepeated = 2 ^ 1" "EpochSkipped = 2 ^ 2" "EpochInvalid = 2 ^ 3"
  "EpochLate = 2 ^ 4" "EpochDeadline = 2 ^ 5" "EpochAggregateValid = 2 ^ 6" "EpochStartup = 2 ^ 7"
  by (simp_all add: epoch_flags)

lemma flag_bit: "i < 16 \<Longrightarrow> bit ((2::u16) ^ i) k \<longleftrightarrow> k = i"
  by (auto simp: bit_exp_iff possible_bit_def)

lemma flag_bits:
  "bit EpochIncomplete k \<longleftrightarrow> k = 0" "bit EpochRepeated k \<longleftrightarrow> k = 1" "bit EpochSkipped k \<longleftrightarrow> k = 2"
  "bit EpochInvalid k \<longleftrightarrow> k = 3" "bit EpochLate k \<longleftrightarrow> k = 4" "bit EpochDeadline k \<longleftrightarrow> k = 5"
  "bit EpochAggregateValid k \<longleftrightarrow> k = 6" "bit EpochStartup k \<longleftrightarrow> k = 7"
  unfolding flag_powers by (rule flag_bit, simp)+

lemma flag_test: "((v::u16) AND 2 ^ i \<noteq> 0) \<longleftrightarrow> bit v i"
  by (simp add: and_exp_eq_0_iff_not_bit)

text \<open>The counts that the code reports for the slots of one bucket.\<close>

definition reports :: "nat \<Rightarrow> bucket \<Rightarrow> epoch_block \<Rightarrow> bool" where
  "reports n b block \<longleftrightarrow>
     eb_selected_sample_count block = of_nat (filled_slots b n) \<and>
     eb_valid_sample_count block = of_nat (good_slots b n) \<and>
     eb_invalid_sample_count block = of_nat (filled_slots b n - good_slots b n) \<and>
     eb_skipped_sample_count block = of_nat (n - filled_slots b n) \<and>
     eb_repeated_sample_count block = bk_repeated_count b \<and>
     eb_actual_sample_count block = bk_observed_count b \<and>
     eb_observed_sample_count block = bk_observed_count b \<and>
     eb_sample_present block = map (\<lambda>s. s < n \<and> bk_present b ! s) [0..<5] \<and>
     eb_samples block = map (slot_sample b n) [0..<5]"

text \<open>The bucket of an epoch, or an empty one when no sample of the epoch was accepted.\<close>

definition bucket_for :: "u64 \<Rightarrow> assembler \<Rightarrow> bucket" where
  "bucket_for e a = (let b = as_buckets a ! bucket_index e in
     if bk_initialized b \<and> bk_epoch_index b = e then b else bucket_init)"

lemma empty_bucket:
  "n \<le> 5 \<Longrightarrow> filled_slots bucket_init n = 0"
  "n \<le> 5 \<Longrightarrow> map (\<lambda>s. s < n \<and> bk_present bucket_init ! s) [0..<5] = replicate 5 False"
  "n \<le> 5 \<Longrightarrow> map (slot_sample bucket_init n) [0..<5] = replicate 5 raw_sample_init"
proof -
  have p: "s < 5 \<Longrightarrow> \<not> bk_present bucket_init ! s" for s by (simp add: bucket_init_def)
  show "n \<le> 5 \<Longrightarrow> filled_slots bucket_init n = 0" using p by (simp add: filled_slots_def)
  show "n \<le> 5 \<Longrightarrow> map (\<lambda>s. s < n \<and> bk_present bucket_init ! s) [0..<5] = replicate 5 False"
    "n \<le> 5 \<Longrightarrow> map (slot_sample bucket_init n) [0..<5] = replicate 5 raw_sample_init"
    using p by (auto simp: slot_sample_def intro!: nth_equalityI)
qed

lemma collect_reports:
  assumes "empty_slots block" "unat n \<le> 5" "eb_repeated_sample_count block = 0" "eb_actual_sample_count block = 0"
    and "eb_observed_sample_count block = 0"
  shows "reports (unat n) (bucket_for e a) (collect_bucket n e (as_buckets a ! bucket_index e) block) \<and>
    (\<exists>bl. collect_bucket n e (as_buckets a ! bucket_index e) block = bl \<and>
      eb_epoch_index bl = eb_epoch_index block \<and> eb_epoch_start_timestamp_us bl = eb_epoch_start_timestamp_us block \<and>
      eb_epoch_end_timestamp_us bl = eb_epoch_end_timestamp_us block \<and>
      eb_release_timestamp_us bl = eb_release_timestamp_us block \<and>
      eb_consumer_lateness_us bl = eb_consumer_lateness_us block \<and>
      eb_expected_sample_count bl = eb_expected_sample_count block \<and> eb_flags bl = eb_flags block)"
proof (cases "bk_initialized (as_buckets a ! bucket_index e) \<and> bk_epoch_index (as_buckets a ! bucket_index e) = e")
  case True
  let ?b = "as_buckets a ! bucket_index e"
  let ?block = "block\<lparr>eb_observed_sample_count := bk_observed_count ?b,
      eb_actual_sample_count := bk_observed_count ?b, eb_repeated_sample_count := bk_repeated_count ?b\<rparr>"
  have "empty_slots ?block" using assms(1) by (simp add: empty_slots_def)
  from collect_fold[OF this assms(2), of ?b] show ?thesis
    using True by (simp add: reports_def bucket_for_def collect_bucket_def)
next
  case False
  then have f: "bucket_for e a = bucket_init" "collect_bucket n e (as_buckets a ! bucket_index e) block =
      block\<lparr>eb_skipped_sample_count := n\<rparr>"
    by (auto simp: bucket_for_def collect_bucket_def Let_def)
  have "good_slots bucket_init (unat n) = 0" "bk_repeated_count bucket_init = 0" "bk_observed_count bucket_init = 0"
    using good_le_filled[of bucket_init "unat n"] empty_bucket(1)[OF assms(2)] by (simp_all add: bucket_init_def)
  then show ?thesis
    using assms unfolding f reports_def empty_bucket[OF assms(2)] by (simp add: empty_slots_def)
qed

lemma block_of_facts:
  fixes e t a
  defines "bl \<equiv> block_of e t a" and "n \<equiv> as_samples_per_epoch a"
  assumes rate: "supported_rate a"
  shows "reports (unat n) (bucket_for e a) bl"
    and "eb_epoch_index bl = e" "eb_epoch_start_timestamp_us bl = as_epoch_zero_timestamp_us a + e * kEpochDurationUs"
    and "eb_epoch_end_timestamp_us bl = eb_epoch_start_timestamp_us bl + kEpochDurationUs"
    and "eb_release_timestamp_us bl = t" "eb_expected_sample_count bl = n"
    and "t \<ge> eb_epoch_end_timestamp_us bl \<Longrightarrow>
      eb_consumer_lateness_us bl = clamp_int32 (sint (t - eb_epoch_end_timestamp_us bl))"
    and "bit (eb_flags bl) k \<longleftrightarrow> k = 0 \<and> \<not> block_complete n bl \<or> k = 1 \<and> eb_repeated_sample_count bl \<noteq> 0 \<or>
      k = 2 \<and> eb_skipped_sample_count bl \<noteq> 0 \<or> k = 3 \<and> eb_invalid_sample_count bl \<noteq> 0 \<or>
      k = 4 \<and> as_unreported_late_samples a \<noteq> 0 \<or>
      k = 5 \<and> t > eb_epoch_end_timestamp_us bl + ucast (as_deadline_budget_us a) \<or>
      k = 7 \<and> \<not> block_complete n bl \<and> e = 0"
proof -
  define start where "start = as_epoch_zero_timestamp_us a + e * kEpochDurationUs"
  define finish where "finish = start + kEpochDurationUs"
  define b0 where "b0 = set_flag (as_unreported_late_samples a \<noteq> 0) EpochLate
    (epoch_block_init\<lparr>eb_epoch_index := e, eb_epoch_start_timestamp_us := start,
       eb_epoch_end_timestamp_us := finish, eb_release_timestamp_us := t, eb_expected_sample_count := n\<rparr>)"
  define b1 where "b1 = b0\<lparr>eb_consumer_lateness_us := clamp_int32 (if t \<ge> finish then sint (t - finish)
    else - sint (finish - t))\<rparr>"
  define b2 where "b2 = collect_bucket n e (as_buckets a ! bucket_index e) b1"
  define b3 where "b3 = set_flag (eb_invalid_sample_count b2 \<noteq> 0) EpochInvalid
    (set_flag (eb_skipped_sample_count b2 \<noteq> 0) EpochSkipped
      (set_flag (eb_repeated_sample_count b2 \<noteq> 0) EpochRepeated b2))"
  have bl: "bl = set_flag (t > finish + ucast (as_deadline_budget_us a)) EpochDeadline
      (set_flag (\<not> block_complete n b2 \<and> e = 0) EpochStartup (set_flag (\<not> block_complete n b2) EpochIncomplete b3))"
    unfolding bl_def block_of_def Let_def n_def[symmetric] start_def[symmetric] finish_def[symmetric]
      b0_def[symmetric] b1_def[symmetric] b2_def[symmetric] by (simp add: b3_def)
  have "empty_slots b1" "eb_repeated_sample_count b1 = 0" "eb_actual_sample_count b1 = 0" "eb_observed_sample_count b1 = 0"
    by (simp_all add: b1_def b0_def empty_slots_def epoch_block_init_def)
  from collect_reports[OF this(1) _ this(2-4), of n e a] supported_bound[OF rate]
  have r: "reports (unat n) (bucket_for e a) b2" "eb_epoch_index b2 = e" "eb_epoch_start_timestamp_us b2 = start"
      "eb_epoch_end_timestamp_us b2 = finish" "eb_release_timestamp_us b2 = t" "eb_expected_sample_count b2 = n"
      "eb_consumer_lateness_us b2 = eb_consumer_lateness_us b1" "eb_flags b2 = eb_flags b1"
    unfolding b2_def[symmetric] by (auto simp: n_def b1_def b0_def)
  show "reports (unat n) (bucket_for e a) bl" using r(1) by (simp add: bl b3_def reports_def)
  show "eb_epoch_index bl = e" "eb_epoch_start_timestamp_us bl = as_epoch_zero_timestamp_us a + e * kEpochDurationUs"
    "eb_release_timestamp_us bl = t" "eb_expected_sample_count bl = n"
    by (simp_all add: bl b3_def r start_def)
  show e: "eb_epoch_end_timestamp_us bl = eb_epoch_start_timestamp_us bl + kEpochDurationUs"
    by (simp add: bl b3_def r finish_def)
  have fin: "eb_epoch_end_timestamp_us bl = finish" by (simp add: bl b3_def r)
  show "t \<ge> eb_epoch_end_timestamp_us bl \<Longrightarrow>
      eb_consumer_lateness_us bl = clamp_int32 (sint (t - eb_epoch_end_timestamp_us bl))"
    unfolding fin by (simp add: bl b3_def r b1_def)
  have "eb_flags b1 = (if as_unreported_late_samples a \<noteq> 0 then EpochLate else 0)"
    by (simp add: b1_def b0_def set_flag_def epoch_block_init_def)
  then have late: "bit (eb_flags b2) k \<longleftrightarrow> as_unreported_late_samples a \<noteq> 0 \<and> k = 4"
    by (auto simp: r flag_bits)
  show "bit (eb_flags bl) k \<longleftrightarrow> k = 0 \<and> \<not> block_complete n bl \<or> k = 1 \<and> eb_repeated_sample_count bl \<noteq> 0 \<or>
      k = 2 \<and> eb_skipped_sample_count bl \<noteq> 0 \<or> k = 3 \<and> eb_invalid_sample_count bl \<noteq> 0 \<or>
      k = 4 \<and> as_unreported_late_samples a \<noteq> 0 \<or>
      k = 5 \<and> t > eb_epoch_end_timestamp_us bl + ucast (as_deadline_budget_us a) \<or>
      k = 7 \<and> \<not> block_complete n bl \<and> e = 0"
    unfolding fin by (auto simp: bl b3_def bit_set_flag late flag_bits)
qed

section \<open>Releasing\<close>

definition next_epoch :: "assembler \<Rightarrow> u64" where
  "next_epoch a = (if as_has_released_epoch a then as_last_released_epoch a + 1 else 0)"

definition release_due :: "u64 \<Rightarrow> u64 \<Rightarrow> assembler \<Rightarrow> bool" where
  "release_due e t a \<longleftrightarrow> e = next_epoch a \<and> e < (- 1 - as_epoch_zero_timestamp_us a) div kEpochDurationUs \<and>
     as_epoch_zero_timestamp_us a + (e + 1) * kEpochDurationUs \<le> t"

text \<open>The final block: the mean is filled in and the flag of a whole block set.\<close>

definition finished :: "assembler \<Rightarrow> u64 \<Rightarrow> u64 \<Rightarrow> int \<Rightarrow> epoch_block" where
  "finished a e t mean = set_flag (block_complete (as_samples_per_epoch a) (block_of e t a)) EpochAggregateValid
     (block_of e t a\<lparr>eb_mean_unwrapped_counts_q16 := mean\<rparr>)"

lemma release_not_due:
  "as_initialized a \<Longrightarrow> \<not> release_due e t a \<Longrightarrow> assembler_release e t a = (None, a)"
  by (auto simp: assembler_release_def release_due_def next_epoch_def Let_def not_less not_le split: if_splits)

lemma mean_unset: "(block_of e t a)\<lparr>eb_mean_unwrapped_counts_q16 := eb_mean_unwrapped_counts_q16 (block_of e t a)\<rparr> = block_of e t a"
  by simp

lemma release_ok:
  assumes init: "as_initialized a" and rate: "supported_rate a" and due: "release_due e t a"
    and room: "\<bar>as_last_unwrapped_count a\<bar> \<le> 2 ^ 43"
  shows "\<exists>mean h u r st. assembler_release e t a = (Some (finished a e t mean),
      (clear_released e a)\<lparr>as_unreported_late_samples := 0, as_statistics := st, as_has_unwrapped_reference := h,
        as_last_unwrapped_count := u, as_last_released_raw := r, as_has_released_epoch := True,
        as_last_released_epoch := e\<rparr>) \<and> \<bar>u\<bar> \<le> \<bar>as_last_unwrapped_count a\<bar> + 327675"
proof -
  let ?n = "as_samples_per_epoch a" and ?bl = "block_of e t a"
  define a1 where "a1 = (clear_released e a)\<lparr>as_unreported_late_samples := 0\<rparr>"
  define a2 where "a2 = (if t > eb_epoch_end_timestamp_us ?bl + ucast (as_deadline_budget_us a)
      then a1\<lparr>as_statistics := (as_statistics a1)\<lparr>ss_consumer_deadline_misses :=
         ss_consumer_deadline_misses (as_statistics a1) + 1\<rparr>\<rparr> else a1)"
  have keep: "as_samples_per_epoch a1 = ?n" "as_samples_per_epoch a2 = ?n" "as_deadline_budget_us a1 = as_deadline_budget_us a"
      "as_last_unwrapped_count a2 = as_last_unwrapped_count a"
    by (simp_all add: a1_def a2_def clear_released_def Let_def)
  have n: "unat ?n \<le> 5" "0 < unat ?n" "0 \<le> uint ?n \<and> uint ?n \<le> 5"
    using rate by (auto simp: supported_rate_def)
  have c: "\<not> (\<not> as_initialized a \<or> ?n = 0)" "\<not> (\<not> as_has_released_epoch a \<and> e \<noteq> 0 \<or>
       as_has_released_epoch a \<and> e \<noteq> as_last_released_epoch a + 1)"
      "\<not> (- 1 - as_epoch_zero_timestamp_us a) div kEpochDurationUs \<le> e"
      "\<not> t < as_epoch_zero_timestamp_us a + (e + 1) * kEpochDurationUs"
    using init n due by (auto simp: release_due_def next_epoch_def)
  have "\<bar>as_last_unwrapped_count a2\<bar> + 65535 * int (length [0..<unat ?n]) \<le> \<bar>as_last_unwrapped_count a\<bar> + 327675"
    using n by (simp add: keep)
  moreover have small: "\<bar>as_last_unwrapped_count a\<bar> + 327675 \<le> 2 ^ 43 + 327675" using room by simp
  moreover have "\<bar>0\<bar> + int (length [0..<unat ?n]) * (65536 * (\<bar>as_last_unwrapped_count a\<bar> + 327675)) \<le> 2 ^ 63 - 1"
  proof -
    have "int (length [0..<unat ?n]) * (65536 * (\<bar>as_last_unwrapped_count a\<bar> + 327675))
        \<le> 5 * (65536 * (2 ^ 43 + 327675))"
      using n small by (intro mult_mono) auto
    then show ?thesis by simp
  qed
  ultimately obtain total k h u r where agg: "aggregate ?bl [0..<unat ?n] 0 0 a2 =
      (Some (total, k), a2\<lparr>as_has_unwrapped_reference := h, as_last_unwrapped_count := u, as_last_released_raw := r\<rparr>)"
      and u: "\<bar>u\<bar> \<le> \<bar>as_last_unwrapped_count a\<bar> + 327675"
    using aggregate_some[of a2 "[0..<unat ?n]" "\<bar>as_last_unwrapped_count a\<bar> + 327675" 0 ?bl 0] by auto
  define mean where "mean = (if k \<noteq> 0 then total sdiv uint k else eb_mean_unwrapped_counts_q16 ?bl)"
  define st where "st = count_release (finished a e t mean) (block_complete ?n ?bl) e (as_statistics a2)"
  have "assembler_release e t a = (Some (finished a e t mean),
      (clear_released e a)\<lparr>as_unreported_late_samples := 0, as_statistics := st, as_has_unwrapped_reference := h,
        as_last_unwrapped_count := u, as_last_released_raw := r, as_has_released_epoch := True,
        as_last_released_epoch := e\<rparr>)"
    unfolding assembler_release_def if_not_P[OF c(1)] if_not_P[OF c(2)] Let_def if_not_P[OF c(3)] if_not_P[OF c(4)]
      a1_def[symmetric] keep a2_def[symmetric] agg
    by (simp add: finished_def mean_def st_def a2_def a1_def)
  then show ?thesis using u by blast
qed

lemma next_unreleased:
  assumes "assembler_inv a H" "release_due e t a"
  shows "unreleased a e" "unat e < 2 ^ 64 div 1000" "e < e' \<Longrightarrow> unreleased a e'"
    "as_has_released_epoch a \<Longrightarrow> unat e = Suc (unat (as_last_released_epoch a))"
proof -
  have l: "as_has_released_epoch a \<Longrightarrow> unat (as_last_released_epoch a) < 2 ^ 64 div 1000"
    using assms(1) by (simp add: assembler_inv_def)
  have e: "e = (if as_has_released_epoch a then as_last_released_epoch a + 1 else 0)"
    using assms(2) by (simp add: release_due_def next_epoch_def)
  show suc: "as_has_released_epoch a \<Longrightarrow> unat e = Suc (unat (as_last_released_epoch a))"
    using l e by (simp add: unat_word_ariths)
  show u: "unreleased a e" using suc by (auto simp: unreleased_def word_less_nat_alt)
  show "e < e' \<Longrightarrow> unreleased a e'" using u by (auto simp: unreleased_def)
  have "unat e < unat ((- 1 - as_epoch_zero_timestamp_us a) div kEpochDurationUs)"
    using assms(2) by (auto simp: release_due_def word_less_nat_alt)
  also have "\<dots> \<le> 2 ^ 64 div 1000"
    using unsigned_less[of "- 1 - as_epoch_zero_timestamp_us a", where ?'a = nat]
    by (simp add: unat_div kEpochDurationUs_def)
  finally show "unat e < 2 ^ 64 div 1000" .
qed


text \<open>Releasing keeps the invariant, with the same accepted samples.\<close>

lemma release_inv:
  assumes inv: "assembler_inv a H" and due: "release_due e t a"
    and a': "a' = (clear_released e a)\<lparr>as_unreported_late_samples := 0, as_statistics := st,
        as_has_unwrapped_reference := h, as_last_unwrapped_count := u, as_last_released_raw := r,
        as_has_released_epoch := True, as_last_released_epoch := e\<rparr>"
  shows "assembler_inv a' H"
proof -
  let ?i = "bucket_index e" and ?bs = "as_buckets a"
  have l: "length ?bs = 8" "?i < 8" and held: "\<And>e. unreleased a e \<Longrightarrow> epoch_held a H e"
    using inv bucket_index_less[of e] by (auto simp: assembler_inv_def)
  define bs where "bs = (if bk_initialized (?bs ! ?i) \<and> bk_epoch_index (?bs ! ?i) = e then ?bs[?i := bucket_init] else ?bs)"
  have f: "as_buckets a' = bs" "as_samples_per_epoch a' = as_samples_per_epoch a" "same_clock a a'"
      "as_has_released_epoch a'" "as_last_released_epoch a' = e" "as_initialized a' = as_initialized a"
    by (simp_all add: a' clear_released_def bs_def same_clock_def Let_def)
  have "epoch_held a' H e'" if u: "unreleased a' e'" for e'
  proof -
    have e': "e < e'" using u f by (simp add: unreleased_def)
    note h = held[OF next_unreleased(3)[OF inv due e']]
    show ?thesis
    proof (cases "bucket_index e' = ?i \<and> bk_initialized (?bs ! ?i) \<and> bk_epoch_index (?bs ! ?i) = e")
      case True
      then have "seen a H e' s = []" for s using h e' by (auto simp: epoch_held_def Let_def)
      moreover have "\<not> bk_initialized (bs ! bucket_index e')"
        using True l by (simp add: bs_def bucket_init_def)
      ultimately show ?thesis by (simp add: epoch_held_def f clock_cong[OF f(3)] Let_def)
    next
      case False
      then have "bs ! bucket_index e' = ?bs ! bucket_index e'" by (auto simp: bs_def)
      then show ?thesis using h by (simp add: epoch_held_def f clock_cong[OF f(3)] Let_def)
    qed
  qed
  moreover have "bucket_shape (unat (as_samples_per_epoch a)) b" if "b \<in> set bs" for b
    using that inv shape_init set_update_subset_insert[of ?bs ?i bucket_init]
    by (auto simp: bs_def assembler_inv_def split: if_splits)
  moreover have "length bs = 8" using l by (simp add: bs_def)
  ultimately show ?thesis
    using inv next_unreleased(2)[OF inv due] by (simp add: assembler_inv_def f supported_rate_def)
qed

section \<open>A run of the assembler\<close>

text \<open>The calls made between two resets, the samples that were accepted, and the released blocks.\<close>

datatype assembler_call = As_add raw_sample | As_release u64 u64

fun assembler_step :: "assembler \<times> raw_sample list \<times> epoch_block list \<Rightarrow> assembler_call \<Rightarrow>
    assembler \<times> raw_sample list \<times> epoch_block list" where
  "assembler_step (a, H, R) (As_add x) =
     (let (r, a') = assembler_add x a in (a', if r = Add_Accepted then H @ [x] else H, R))"
| "assembler_step (a, H, R) (As_release e t) =
     (case assembler_release e t a of (None, a') \<Rightarrow> (a', H, R) | (Some bl, a') \<Rightarrow> (a', H, R @ [bl]))"

definition assembler_run :: "assembler \<Rightarrow> assembler_call list \<Rightarrow> assembler \<times> raw_sample list \<times> epoch_block list" where
  "assembler_run a calls = foldl assembler_step (a, [], []) calls"

text \<open>
  A released block holds the nearest accepted sample of each of its slots, and is marked present
  exactly where a sample was accepted.
\<close>

definition block_records :: "assembler \<Rightarrow> raw_sample list \<Rightarrow> epoch_block \<Rightarrow> bool" where
  "block_records a H bl \<longleftrightarrow> (\<forall>s < unat (as_samples_per_epoch a).
     if eb_sample_present bl ! s
     then \<exists>x. nearest_of a (seen a H (eb_epoch_index bl) s) x \<and> eb_samples bl ! s = x\<lparr>rs_slot := of_nat s\<rparr>
     else seen a H (eb_epoch_index bl) s = [])"

definition assembler_run_inv :: "nat \<Rightarrow> assembler \<Rightarrow> raw_sample list \<Rightarrow> epoch_block list \<Rightarrow> bool" where
  "assembler_run_inv n a H R \<longleftrightarrow> assembler_inv a H \<and> \<bar>as_last_unwrapped_count a\<bar> \<le> 65535 + int n * 327675 \<and>
     map (unat \<circ> eb_epoch_index) R = [0..<length R] \<and>
     length R = (if as_has_released_epoch a then Suc (unat (as_last_released_epoch a)) else 0) \<and>
     (\<forall>bl \<in> set R. block_records a H bl)"

lemma finished_fields [simp]:
  "supported_rate a \<Longrightarrow> eb_epoch_index (finished a e t m) = e"
  "supported_rate a \<Longrightarrow> eb_sample_present (finished a e t m) =
     map (\<lambda>s. s < unat (as_samples_per_epoch a) \<and> bk_present (bucket_for e a) ! s) [0..<5]"
  "supported_rate a \<Longrightarrow> eb_samples (finished a e t m) =
     map (slot_sample (bucket_for e a) (unat (as_samples_per_epoch a))) [0..<5]"
  using block_of_facts(1,2)[of a e t] by (auto simp: finished_def reports_def)

lemma clock_records: "same_clock a a' \<Longrightarrow> block_records a' = block_records a"
  by (auto simp: block_records_def fun_eq_iff clock_cong) (simp_all add: same_clock_def)

lemma records_more:
  assumes "block_records a H bl" "epoch_of a x \<noteq> eb_epoch_index bl"
  shows "block_records a (H @ [x]) bl"
proof -
  have "seen a (H @ [x]) (eb_epoch_index bl) s = seen a H (eb_epoch_index bl) s" for s
    using assms(2) by (simp add: seen_def)
  then show ?thesis using assms(1) by (simp add: block_records_def)
qed

lemma records_finished:
  assumes inv: "assembler_inv a H" and e: "unreleased a e"
  shows "block_records a H (finished a e t m)"
proof -
  have rate: "supported_rate a" using inv by (simp add: assembler_inv_def)
  let ?n = "unat (as_samples_per_epoch a)" and ?b = "bucket_for e a"
  have n: "?n \<le> 5" using supported_bound[OF rate] by simp
  have held: "epoch_held a H e" using inv e by (simp add: assembler_inv_def)
  have slot: "holds_slot a H e ?b s" if "s < ?n" for s
    using held that n by (auto simp: epoch_held_def bucket_for_def Let_def holds_slot_def bucket_init_def)
  have "if eb_sample_present (finished a e t m) ! s
     then \<exists>x. nearest_of a (seen a H e s) x \<and> eb_samples (finished a e t m) ! s = x\<lparr>rs_slot := of_nat s\<rparr>
     else seen a H e s = []" if s: "s < ?n" for s
    using slot[OF s] s n by (auto simp: rate holds_slot_def slot_sample_def)
  then show ?thesis unfolding block_records_def finished_fields(1)[OF rate] by blast
qed

lemma assembler_step_inv:
  assumes run: "assembler_run_inv n a H R" and n: "n \<le> 2 ^ 24" and s: "assembler_step (a, H, R) c = (a', H', R')"
  shows "assembler_run_inv (Suc n) a' H' R' \<and> same_clock a a'"
proof -
  have inv: "assembler_inv a H" and u: "\<bar>as_last_unwrapped_count a\<bar> \<le> 65535 + int n * 327675"
    and ix: "map (unat \<circ> eb_epoch_index) R = [0..<length R]"
    and len: "length R = (if as_has_released_epoch a then Suc (unat (as_last_released_epoch a)) else 0)"
    and rec: "\<And>bl. bl \<in> set R \<Longrightarrow> block_records a H bl"
    using run by (auto simp: assembler_run_inv_def)
  have rate: "supported_rate a" and init: "as_initialized a" using inv by (auto simp: assembler_inv_def)
  show ?thesis
  proof (cases c)
    case (As_add x)
    obtain r b where add: "assembler_add x a = (r, b)" by (metis surj_pair)
    show ?thesis
    proof (cases "r = Add_Accepted")
      case True
      from add_accepted[OF add[unfolded True]]
      obtain bs where a': "unreleased a (epoch_of a x)" "b = a\<lparr>as_buckets := bs\<rparr>" by metis
      have same: "same_clock a b" by (simp add: a' same_clock_def)
      have f: "as_has_released_epoch b = as_has_released_epoch a"
          "as_last_released_epoch b = as_last_released_epoch a"
          "as_last_unwrapped_count b = as_last_unwrapped_count a" by (simp_all add: a')
      have "epoch_of a x \<noteq> eb_epoch_index bl" if "bl \<in> set R" for bl
      proof -
        have "unat (eb_epoch_index bl) \<in> set (map (unat \<circ> eb_epoch_index) R)" using that by simp
        then have "unat (eb_epoch_index bl) < length R" unfolding ix by simp
        then show ?thesis
          using a'(1) len by (auto simp: unreleased_def word_less_nat_alt split: if_splits)
      qed
      then have "block_records b (H @ [x]) bl" if "bl \<in> set R" for bl
        using records_more[OF rec[OF that]] that clock_records[OF same] by metis
      moreover have "a' = b" "H' = H @ [x]" "R' = R" using s add True by (simp_all add: As_add)
      ultimately show ?thesis
        using add_inv[OF inv add[unfolded True]] ix len u same by (simp add: assembler_run_inv_def f)
    next
      case False
      note k = add_rejected[OF add False]
      then have same: "same_clock a b" and f: "as_has_released_epoch b = as_has_released_epoch a"
          "as_last_released_epoch b = as_last_released_epoch a" by (auto simp: same_buckets_def)
      have "a' = b" "H' = H" "R' = R" using s add False by (simp_all add: As_add)
      then show ?thesis
        using inv_same_buckets[OF conjunct1[OF k] inv] k ix len u rec clock_records[OF same] same
        by (simp add: assembler_run_inv_def f)
    qed
  next
    case (As_release e t)
    show ?thesis
    proof (cases "release_due e t a")
      case False
      then show ?thesis
        using s release_not_due[OF init False] inv u ix len rec
        by (simp add: As_release assembler_run_inv_def same_clock_def)
    next
      case True
      have "\<bar>as_last_unwrapped_count a\<bar> \<le> 2 ^ 43" using u n by simp
      from release_ok[OF init rate True this] obtain mean h u' r st b where
        rel: "assembler_release e t a = (Some (finished a e t mean), b)" and
        b: "b = (clear_released e a)\<lparr>as_unreported_late_samples := 0, as_statistics := st,
          as_has_unwrapped_reference := h, as_last_unwrapped_count := u', as_last_released_raw := r,
          as_has_released_epoch := True, as_last_released_epoch := e\<rparr>" and
        u': "\<bar>u'\<bar> \<le> \<bar>as_last_unwrapped_count a\<bar> + 327675" by blast
      have same: "same_clock a b" by (simp add: b same_clock_def clear_released_def Let_def)
      have fin: "block_records a H (finished a e t mean)"
        by (rule records_finished[OF inv next_unreleased(1)[OF inv True]])
      have e: "unat e = length R"
        using next_unreleased(4)[OF inv True] len True by (simp add: release_due_def next_epoch_def)
      have f: "as_last_unwrapped_count b = u'" "as_has_released_epoch b" "as_last_released_epoch b = e"
        by (simp_all add: b)
      have "a' = b" "H' = H" "R' = R @ [finished a e t mean]" using s rel by (simp_all add: As_release)
      then show ?thesis
        using release_inv[OF inv True b] u u' ix e rec fin same clock_records[OF same] rate
        by (simp add: assembler_run_inv_def f)
    qed
  qed
qed

lemma run_from:
  assumes "assembler_run_inv n a H R" "n + length calls \<le> 2 ^ 24" "foldl assembler_step (a, H, R) calls = (a', H', R')"
  shows "assembler_run_inv (n + length calls) a' H' R' \<and> same_clock a a'"
  using assms
proof (induction calls arbitrary: n a H R)
  case Nil
  then show ?case by (simp add: same_clock_def)
next
  case (Cons c calls)
  obtain a1 H1 R1 where s: "assembler_step (a, H, R) c = (a1, H1, R1)" by (metis surj_pair)
  from assembler_step_inv[OF Cons.prems(1) _ s] Cons.prems(2) have one: "assembler_run_inv (Suc n) a1 H1 R1" "same_clock a a1" by auto
  then show ?case using Cons.IH[OF one(1)] Cons.prems(2,3) s by (auto simp: same_clock_def)
qed

lemma reset_inv:
  assumes "supported_rate a"
  shows "assembler_run_inv 0 (assembler_reset z a) [] []"
proof -
  let ?a = "assembler_reset z a"
  have f: "as_buckets ?a = replicate 8 bucket_init" "as_initialized ?a" "\<not> as_has_released_epoch ?a"
      "as_last_unwrapped_count ?a = 0" "supported_rate ?a"
    using assms by (simp_all add: assembler_reset_def supported_rate_def)
  have "epoch_held ?a [] e" for e
    using bucket_index_less[of e] by (simp add: epoch_held_def f bucket_init_def seen_def)
  then show ?thesis using shape_init by (simp add: assembler_run_inv_def assembler_inv_def f)
qed

lemma run_of_reset:
  assumes "supported_rate a" "length calls \<le> 2 ^ 24" "assembler_run (assembler_reset z a) calls = (a', H, R)"
  shows "assembler_run_inv (length calls) a' H R" "same_clock (assembler_reset z a) a'"
  using run_from[OF reset_inv[OF assms(1)], of calls] assms(2,3) by (simp_all add: assembler_run_def)

section \<open>Properties\<close>

definition two_khz :: assembler where "two_khz = assembler_of Hz2000 100"

definition sample_at :: "u64 \<Rightarrow> u16 \<Rightarrow> raw_sample" where
  "sample_at t raw = raw_sample_init\<lparr>rs_capture_timestamp_us := t, rs_scheduled_timestamp_us := t, rs_generation := 1,
     rs_angle_raw := raw, rs_valid := True\<rparr>"

definition two_khz_calls :: "assembler_call list" where
  "two_khz_calls = [As_add (sample_at 5100 7), As_add (sample_at 5260 9), As_release 0 5900, As_release 0 6000,
     As_release 2 9000, As_release 1 9000]"

lemma two_khz_rate: "supported_rate two_khz"
  by (simp add: two_khz_def assembler_of_def supported_rate_def)

text \<open>Between two resets the assembler releases the epochs 0, 1, 2, ... in this order without a gap,
  and a release succeeds exactly when it asks for the next epoch, that epoch is over, and its end
  still fits the clock. The unwrapped angle does not overflow within 2^24 calls.
\<close>

theorem epochs_in_order:
  assumes "supported_rate a" "length calls \<le> 2 ^ 24" "assembler_run (assembler_reset z a) calls = (a', H, R)"
  shows "map (unat \<circ> eb_epoch_index) R = [0..<length R] \<and>
    (fst (assembler_release e t a') \<noteq> None \<longleftrightarrow>
       unat e = length R \<and> e < (- 1 - z) div 1000 \<and> z + (e + 1) * 1000 \<le> t)"
proof -
  note r = run_of_reset[OF assms]
  have inv: "assembler_inv a' H" and ix: "map (unat \<circ> eb_epoch_index) R = [0..<length R]"
    and len: "length R = (if as_has_released_epoch a' then Suc (unat (as_last_released_epoch a')) else 0)"
    and u: "\<bar>as_last_unwrapped_count a'\<bar> \<le> 2 ^ 43"
    using r(1) assms(2) by (auto simp: assembler_run_inv_def)
  have init: "as_initialized a'" "supported_rate a'" and l: "as_has_released_epoch a' \<Longrightarrow>
      unat (as_last_released_epoch a') < 2 ^ 64 div 1000"
    using inv by (auto simp: assembler_inv_def)
  have "length R = unat (next_epoch a')" using l by (auto simp: len next_epoch_def unat_word_ariths)
  moreover have "as_epoch_zero_timestamp_us a' = z" using r(2) by (simp add: same_clock_def assembler_reset_def)
  ultimately have due: "release_due e t a' \<longleftrightarrow> unat e = length R \<and> e < (- 1 - z) div 1000 \<and> z + (e + 1) * 1000 \<le> t"
    by (simp add: release_due_def kEpochDurationUs_def word_unat_eq_iff[of e])
  have "fst (assembler_release e t a') \<noteq> None \<longleftrightarrow> release_due e t a'"
    using release_ok[OF init _ u, of e t] release_not_due[OF init(1), of e t]
    by (cases "release_due e t a'") force+
  then show ?thesis using ix due by simp
qed

lemma epochs_in_order_witness:
  "\<exists>a H R. assembler_run (assembler_reset 5000 two_khz) two_khz_calls = (a, H, R) \<and>
     map (unat \<circ> eb_epoch_index) R = [0..<length R]"
proof -
  obtain a H R where r: "assembler_run (assembler_reset 5000 two_khz) two_khz_calls = (a, H, R)" by (metis surj_pair)
  have "length two_khz_calls \<le> 2 ^ 24" by (simp add: two_khz_calls_def)
  from epochs_in_order[OF two_khz_rate this r] r show ?thesis by blast
qed

text \<open>In every released block, a slot is present exactly when the assembler accepted a sample of that
  epoch and slot, and then it holds the accepted sample nearest to the centre of the slot, the
  earliest of the nearest ones.
\<close>

theorem released_nearest:
  assumes "supported_rate a" "length calls \<le> 2 ^ 24" "assembler_run (assembler_reset z a) calls = (a', H, R)"
    and "bl \<in> set R" "s < unat (as_samples_per_epoch a)"
  shows "if eb_sample_present bl ! s
    then \<exists>x. nearest_of (assembler_reset z a) (seen (assembler_reset z a) H (eb_epoch_index bl) s) x \<and>
      eb_samples bl ! s = x\<lparr>rs_slot := of_nat s\<rparr>
    else seen (assembler_reset z a) H (eb_epoch_index bl) s = []"
proof -
  note r = run_of_reset[OF assms(1-3)]
  have "block_records (assembler_reset z a) H bl"
    using r(1) assms(4) clock_records[OF r(2)] by (simp add: assembler_run_inv_def)
  moreover have "as_samples_per_epoch (assembler_reset z a) = as_samples_per_epoch a"
    by (simp add: assembler_reset_def)
  ultimately show ?thesis using assms(5) by (simp add: block_records_def)
qed

lemma two_khz_run:
  "(\<lambda>(a, H, R). (map (unat \<circ> eb_epoch_index) R, map eb_sample_present R, length H)) (assembler_run (assembler_reset 5000 two_khz) two_khz_calls)
     = ([0, 1], [[True, False, False, False, False], replicate 5 False], 2)"
  by code_simp

lemma released_nearest_witness:
  "\<exists>a H R. assembler_run (assembler_reset 5000 two_khz) two_khz_calls = (a, H, R) \<and> eb_sample_present (hd R) ! 0 \<and>
     (\<exists>x. nearest_of (assembler_reset 5000 two_khz) (seen (assembler_reset 5000 two_khz) H (eb_epoch_index (hd R)) 0) x \<and>
        eb_samples (hd R) ! 0 = x\<lparr>rs_slot := 0\<rparr>)"
proof -
  obtain a H R where r: "assembler_run (assembler_reset 5000 two_khz) two_khz_calls = (a, H, R)" by (metis surj_pair)
  from two_khz_run[unfolded r] have R: "map eb_sample_present R = [[True, False, False, False, False], replicate 5 False]"
    by simp
  then obtain bl R' where c: "R = bl # R'" by (cases R) auto
  have p: "eb_sample_present (hd R) ! 0" "hd R \<in> set R" using R c by auto
  have l: "length two_khz_calls \<le> 2 ^ 24" "0 < unat (as_samples_per_epoch two_khz)"
    using supported_bound[OF two_khz_rate] by (simp_all add: two_khz_calls_def)
  from released_nearest[OF two_khz_rate l(1) r p(2) l(2)] r p show ?thesis by auto
qed

end
