(* ===== verification/Record_Validation.thy ===== *)
theory Record_Validation
  imports Epoch_Assembler
begin

text \<open>
  \<open>characterization/record_validation.{hpp,cpp}\<close>: the strict validation of a log record before it is
  encoded. The error is a set of bits. On the board \<open>validateRecord\<close> returns no error and the writer
  calls \<open>validateRecordStrict\<close>; elsewhere they are the same function.
\<close>

section \<open>Error bits\<close>

definition InvalidStage :: u32 where "InvalidStage = 0x1"
definition InvalidEncoderRate :: u32 where "InvalidEncoderRate = 0x2"
definition InvalidEnum :: u32 where "InvalidEnum = 0x4"
definition RequestedCommandModeMismatch :: u32 where "RequestedCommandModeMismatch = 0x8"
definition AppliedCommandModeMismatch :: u32 where "AppliedCommandModeMismatch = 0x10"
definition InvalidCommandTimestamp :: u32 where "InvalidCommandTimestamp = 0x20"
definition InvalidEpochTimestamp :: u32 where "InvalidEpochTimestamp = 0x40"
definition WrongExpectedSampleCount :: u32 where "WrongExpectedSampleCount = 0x80"
definition InconsistentCounts :: u32 where "InconsistentCounts = 0x100"
definition InconsistentFlags :: u32 where "InconsistentFlags = 0x200"
definition SampleOutsideEpoch :: u32 where "SampleOutsideEpoch = 0x400"
definition InvalidRawDiagnostic :: u32 where "InvalidRawDiagnostic = 0x800"
definition InvalidGeneration :: u32 where "InvalidGeneration = 0x1000"
definition InvalidVbus :: u32 where "InvalidVbus = 0x2000"

definition hasError :: "u32 \<Rightarrow> bool" where "hasError error = (error \<noteq> 0)"

text \<open>\<open>if (condition) error = error | code;\<close>\<close>

definition err :: "bool \<Rightarrow> u32 \<Rightarrow> u32 \<Rightarrow> u32" where
  "err condition code error = (if condition then error OR code else error)"

section \<open>Checks\<close>

definition knownPhase :: "profile_phase \<Rightarrow> bool" where
  "knownPhase phase = (profile_phase_code phase \<le> profile_phase_code Phase_Recenter)"
definition knownBranch :: "approach_branch \<Rightarrow> bool" where
  "knownBranch branch = (approach_branch_code branch \<le> approach_branch_code Branch_FromNegative)"
definition knownGuard :: "guard_state \<Rightarrow> bool" where
  "knownGuard guard = (guard_state_code guard \<le> guard_state_code Guard_Abort)"
definition knownAbort :: "abort_reason \<Rightarrow> bool" where
  "knownAbort reason = (abort_reason_code reason \<le> abort_reason_code Abort_StageError)"
definition knownRunKind :: "run_kind \<Rightarrow> bool" where
  "knownRunKind kind = (kind = Run_RateCheck \<or> kind = Run_Full)"

definition outside_permille :: "command_evidence \<Rightarrow> bool" where
  "outside_permille c =
     (ev_requested_command_permille c < - kMaximumCommandPermille \<or>
      ev_requested_command_permille c > kMaximumCommandPermille \<or>
      ev_applied_command_permille c < - kMaximumCommandPermille \<or>
      ev_applied_command_permille c > kMaximumCommandPermille)"

definition bad_command_times :: "log_record \<Rightarrow> bool" where
  "bad_command_times r =
     (let c = lr_command r in
      ev_command_apply_timestamp_us c = 0 \<or>
      ev_command_apply_timestamp_us c > eb_release_timestamp_us (lr_encoder r) \<or>
      eb_release_timestamp_us (lr_encoder r) > ev_logger_snapshot_timestamp_us c \<or>
      ev_logger_snapshot_timestamp_us c < ev_command_apply_timestamp_us c)"

definition command_applied_this_epoch :: "log_record \<Rightarrow> bool" where
  "command_applied_this_epoch r =
     (ev_command_apply_timestamp_us (lr_command r) \<ge> eb_epoch_start_timestamp_us (lr_encoder r))"

definition command_apply_target_late :: "log_record \<Rightarrow> bool" where
  "command_apply_target_late r =
     (command_applied_this_epoch r \<and> ev_command_apply_timestamp_us (lr_command r) >
        eb_epoch_start_timestamp_us (lr_encoder r) + ucast kConsumerDeadlineBudgetUs)"

definition command_apply_hard_deadline_missed :: "log_record \<Rightarrow> bool" where
  "command_apply_hard_deadline_missed r =
     (command_applied_this_epoch r \<and> ev_command_apply_timestamp_us (lr_command r) \<ge>
        eb_epoch_start_timestamp_us (lr_encoder r) + kEpochDurationUs)"

definition bad_epoch_times :: "epoch_block \<Rightarrow> bool" where
  "bad_epoch_times block =
     (eb_epoch_end_timestamp_us block \<noteq> eb_epoch_start_timestamp_us block + kEpochDurationUs \<or>
      eb_release_timestamp_us block < eb_epoch_end_timestamp_us block)"

definition counts_consistent :: "epoch_block \<Rightarrow> bool" where
  "counts_consistent block =
     (unat (eb_expected_sample_count block) \<le> kMaximumEncoderSamplesPerEpoch \<and>
      eb_selected_sample_count block \<le> eb_expected_sample_count block \<and>
      unat (eb_valid_sample_count block) + unat (eb_invalid_sample_count block) =
        unat (eb_selected_sample_count block) \<and>
      unat (eb_selected_sample_count block) + unat (eb_skipped_sample_count block) =
        unat (eb_expected_sample_count block) \<and>
      unat (eb_selected_sample_count block) + unat (eb_repeated_sample_count block) =
        unat (eb_actual_sample_count block))"

definition complete_block :: "epoch_block \<Rightarrow> bool" where
  "complete_block block =
     (counts_consistent block \<and> eb_valid_sample_count block = eb_expected_sample_count block \<and>
      eb_repeated_sample_count block = 0 \<and> eb_skipped_sample_count block = 0 \<and>
      eb_invalid_sample_count block = 0)"

definition has_flag :: "epoch_block \<Rightarrow> u16 \<Rightarrow> bool" where
  "has_flag block flag = (eb_flags block AND flag \<noteq> 0)"

definition release_late :: "epoch_block \<Rightarrow> bool" where
  "release_late block = (eb_consumer_lateness_us block > uint kConsumerDeadlineBudgetUs)"

definition legacy_command_deadline :: "log_record \<Rightarrow> bool" where
  "legacy_command_deadline r =
     (has_flag (lr_encoder r) EpochDeadline \<and> command_apply_target_late r \<and>
      \<not> command_apply_hard_deadline_missed r)"

definition bad_flags :: "log_record \<Rightarrow> bool" where
  "bad_flags r =
     (let block = lr_encoder r; incomplete = has_flag block EpochIncomplete;
          deadline_flag = has_flag block EpochDeadline in
      complete_block block \<noteq> has_flag block EpochAggregateValid \<or> complete_block block = incomplete \<or>
      has_flag block EpochStartup \<noteq> (eb_epoch_index block = 0 \<and> incomplete) \<or>
      has_flag block EpochRepeated \<noteq> (eb_repeated_sample_count block \<noteq> 0) \<or>
      has_flag block EpochSkipped \<noteq> (eb_skipped_sample_count block \<noteq> 0) \<or>
      has_flag block EpochInvalid \<noteq> (eb_invalid_sample_count block \<noteq> 0) \<or>
      command_apply_hard_deadline_missed r \<and> \<not> deadline_flag \<or>
      lr_run_kind r = Run_RateCheck \<and> command_apply_target_late r \<and> \<not> deadline_flag \<or>
      deadline_flag \<and> \<not> command_apply_target_late r \<and> \<not> release_late block \<or>
      eb_flags block AND NOT 0x00FF \<noteq> 0)"

definition late_without_abort :: "log_record \<Rightarrow> bool" where
  "late_without_abort r =
     (lr_run_kind r = Run_Full \<and>
      (command_apply_hard_deadline_missed r \<or> legacy_command_deadline r) \<and>
      (lr_first_error r = 0 \<or> lr_abort_reason r \<noteq> Abort_Deadline))"

section \<open>The samples of the block\<close>

record previous_sample =
  ps_generation :: u64
  ps_scheduled :: u64
  ps_capture :: u64

definition slot_bound :: "epoch_block \<Rightarrow> u64 \<Rightarrow> u64" where
  "slot_bound block index =
     (let slot_count = (if eb_expected_sample_count block = 0 then 1
                        else ucast (eb_expected_sample_count block)) in
      eb_epoch_start_timestamp_us block + index * kEpochDurationUs div slot_count)"

definition sample_outside :: "epoch_block \<Rightarrow> nat \<Rightarrow> previous_sample \<Rightarrow> raw_sample \<Rightarrow> bool" where
  "sample_outside block index previous sample =
     (rs_capture_timestamp_us sample < eb_epoch_start_timestamp_us block \<or>
      rs_capture_timestamp_us sample \<ge> eb_epoch_end_timestamp_us block \<or>
      rs_capture_timestamp_us sample < slot_bound block (of_nat index) \<or>
      rs_capture_timestamp_us sample \<ge> slot_bound block (of_nat index + 1) \<or>
      rs_scheduled_timestamp_us sample = 0 \<or>
      rs_scheduled_timestamp_us sample > rs_capture_timestamp_us sample \<or>
      rs_generation sample = 0 \<or> rs_angle_raw sample > 0x3FFF \<or>
      unat (rs_slot sample) \<noteq> index \<or>
      ps_generation previous \<noteq> 0 \<and>
        (rs_generation sample \<le> ps_generation previous \<or>
         rs_scheduled_timestamp_us sample \<le> ps_scheduled previous \<or>
         rs_capture_timestamp_us sample \<le> ps_capture previous))"

definition diagnostic_valid :: "raw_sample \<Rightarrow> bool" where
  "diagnostic_valid sample =
     (rs_diagnostic_flags sample AND NOT kRawDiagnosticMask = 0 \<and>
      (rs_valid sample \<and> rs_read_result_code sample = 0 \<and> rs_diagnostic_flags sample AND 0x003F = 0 \<or>
       \<not> rs_valid sample \<and>
         (rs_read_result_code sample \<noteq> 0 \<or> rs_diagnostic_flags sample AND 0x003F \<noteq> 0)))"

definition check_sample :: "epoch_block \<Rightarrow> nat \<Rightarrow> previous_sample \<times> u32 \<Rightarrow> previous_sample \<times> u32" where
  "check_sample block index s =
     (case s of (previous, error) \<Rightarrow>
        if \<not> eb_sample_present block ! index then (previous, error)
        else let sample = eb_samples block ! index in
          (\<lparr>ps_generation = rs_generation sample, ps_scheduled = rs_scheduled_timestamp_us sample,
             ps_capture = rs_capture_timestamp_us sample\<rparr>,
           err (\<not> diagnostic_valid sample) InvalidRawDiagnostic
             (err (sample_outside block index previous sample) SampleOutsideEpoch error)))"

definition check_samples :: "epoch_block \<Rightarrow> u32 \<Rightarrow> u32" where
  "check_samples block error =
     snd (foldl (\<lambda>s index. check_sample block index s)
       (\<lparr>ps_generation = 0, ps_scheduled = 0, ps_capture = 0\<rparr>, error)
       [0..<kMaximumEncoderSamplesPerEpoch])"

definition bad_power :: "log_record \<Rightarrow> bool" where
  "bad_power r =
     (let p = lr_power r; snapshot = ev_logger_snapshot_timestamp_us (lr_command r) in
      pe_valid p \<and>
        (pe_read_result p \<noteq> 0 \<or> pe_capture_timestamp_us p = 0 \<or> pe_capture_timestamp_us p > snapshot \<or>
         snapshot - pe_capture_timestamp_us p > 100000) \<or>
      \<not> pe_valid p \<and> (pe_read_result p = 0 \<or> pe_capture_timestamp_us p > snapshot))"

section \<open>The validation\<close>

definition validateRecordStrict :: "log_record \<Rightarrow> u32" where
  "validateRecordStrict r =
     (let block = lr_encoder r; c = lr_command r;
          error = 0;
          error = err (\<not> isKnownStage (lr_stage r)) InvalidStage error;
          error = err (\<not> isSupportedEncoderRate (lr_encoder_rate r)) InvalidEncoderRate error;
          error = err (\<not> knownPhase (lr_profile_phase r) \<or> \<not> knownBranch (lr_approach_branch r) \<or>
            \<not> knownGuard (lr_guard_state r) \<or> \<not> knownAbort (lr_abort_reason r) \<or>
            \<not> knownRunKind (lr_run_kind r)) InvalidEnum error;
          error = err (\<not> motorModeMatchesCommand (ev_requested_command_permille c)
            (ev_requested_motor_mode c)) RequestedCommandModeMismatch error;
          error = err (\<not> motorModeMatchesCommand (ev_applied_command_permille c)
            (ev_applied_motor_mode c)) AppliedCommandModeMismatch error;
          error = err (outside_permille c) InvalidGeneration error;
          error = err (ev_command_generation c = 0) InvalidGeneration error;
          error = err (bad_command_times r) InvalidCommandTimestamp error;
          error = err (bad_epoch_times block) InvalidEpochTimestamp error;
          error = err (eb_expected_sample_count block \<noteq> expectedSamplesPerEpoch (lr_encoder_rate r))
            WrongExpectedSampleCount error;
          error = err (\<not> counts_consistent block) InconsistentCounts error;
          error = err (bad_flags r) InconsistentFlags error;
          error = err (late_without_abort r) InvalidCommandTimestamp error;
          error = check_samples block error;
          error = err (bad_power r) InvalidVbus error;
          error = err ((lr_stage r = Stage_M0) \<noteq> (lr_zero_reference_kind r = Zero_M0)) InvalidEnum error;
          error = err ((lr_first_error r = 0) \<noteq> (lr_abort_reason r = Abort_None)) InvalidGeneration error in
      err (lr_qualification r \<noteq> (if lr_run_kind r = Run_RateCheck then 0 else 1)) InvalidEnum error)"

definition validateRecord :: "bool \<Rightarrow> log_record \<Rightarrow> u32" where
  "validateRecord on_board r = (if on_board then 0 else validateRecordStrict r)"

section \<open>The bits of the result\<close>

lemma bit_err: "bit (err c code e) k \<longleftrightarrow> bit e k \<or> c \<and> bit code k"
  by (simp add: err_def bit_or_iff)

lemma error_powers:
  "InvalidStage = 2 ^ 0" "InvalidEncoderRate = 2 ^ 1" "InvalidEnum = 2 ^ 2" "RequestedCommandModeMismatch = 2 ^ 3"
  "AppliedCommandModeMismatch = 2 ^ 4" "InvalidCommandTimestamp = 2 ^ 5" "InvalidEpochTimestamp = 2 ^ 6"
  "WrongExpectedSampleCount = 2 ^ 7" "InconsistentCounts = 2 ^ 8" "InconsistentFlags = 2 ^ 9"
  "SampleOutsideEpoch = 2 ^ 10" "InvalidRawDiagnostic = 2 ^ 11" "InvalidGeneration = 2 ^ 12" "InvalidVbus = 2 ^ 13"
  by (simp_all add: InvalidStage_def InvalidEncoderRate_def InvalidEnum_def RequestedCommandModeMismatch_def
      AppliedCommandModeMismatch_def InvalidCommandTimestamp_def InvalidEpochTimestamp_def
      WrongExpectedSampleCount_def InconsistentCounts_def InconsistentFlags_def SampleOutsideEpoch_def
      InvalidRawDiagnostic_def InvalidGeneration_def InvalidVbus_def)

lemma error_bit: "i < 32 \<Longrightarrow> bit ((2::u32) ^ i) k \<longleftrightarrow> k = i"
  by (auto simp: bit_exp_iff possible_bit_def)

lemma error_bits:
  "bit InvalidStage k \<longleftrightarrow> k = 0" "bit InvalidEncoderRate k \<longleftrightarrow> k = 1" "bit InvalidEnum k \<longleftrightarrow> k = 2"
  "bit RequestedCommandModeMismatch k \<longleftrightarrow> k = 3" "bit AppliedCommandModeMismatch k \<longleftrightarrow> k = 4"
  "bit InvalidCommandTimestamp k \<longleftrightarrow> k = 5" "bit InvalidEpochTimestamp k \<longleftrightarrow> k = 6"
  "bit WrongExpectedSampleCount k \<longleftrightarrow> k = 7" "bit InconsistentCounts k \<longleftrightarrow> k = 8"
  "bit InconsistentFlags k \<longleftrightarrow> k = 9" "bit SampleOutsideEpoch k \<longleftrightarrow> k = 10"
  "bit InvalidRawDiagnostic k \<longleftrightarrow> k = 11" "bit InvalidGeneration k \<longleftrightarrow> k = 12" "bit InvalidVbus k \<longleftrightarrow> k = 13"
  unfolding error_powers by (rule error_bit, simp)+

text \<open>What the sample loop adds, and the sample it remembers.\<close>

definition last_of :: "epoch_block \<Rightarrow> nat \<Rightarrow> previous_sample" where
  "last_of block k = (case filter (\<lambda>s. eb_sample_present block ! s) (rev [0..<k]) of
     [] \<Rightarrow> \<lparr>ps_generation = 0, ps_scheduled = 0, ps_capture = 0\<rparr>
   | s # _ \<Rightarrow> let x = eb_samples block ! s in
      \<lparr>ps_generation = rs_generation x, ps_scheduled = rs_scheduled_timestamp_us x,
       ps_capture = rs_capture_timestamp_us x\<rparr>)"

definition outside_before :: "epoch_block \<Rightarrow> nat \<Rightarrow> bool" where
  "outside_before block k \<longleftrightarrow> (\<exists>s < k. eb_sample_present block ! s \<and>
     sample_outside block s (last_of block s) (eb_samples block ! s))"

definition diagnostic_before :: "epoch_block \<Rightarrow> nat \<Rightarrow> bool" where
  "diagnostic_before block k \<longleftrightarrow> (\<exists>s < k. eb_sample_present block ! s \<and> \<not> diagnostic_valid (eb_samples block ! s))"

lemma sample_fold:
  "foldl (\<lambda>s index. check_sample block index s) (\<lparr>ps_generation = 0, ps_scheduled = 0, ps_capture = 0\<rparr>, error) [0..<k] =
     (last_of block k, err (diagnostic_before block k) InvalidRawDiagnostic (err (outside_before block k) SampleOutsideEpoch error))"
proof (induction k)
  case 0
  show ?case by (simp add: last_of_def outside_before_def diagnostic_before_def err_def)
next
  case (Suc k)
  have "outside_before block (Suc k) \<longleftrightarrow> outside_before block k \<or> eb_sample_present block ! k \<and>
      sample_outside block k (last_of block k) (eb_samples block ! k)"
    "diagnostic_before block (Suc k) \<longleftrightarrow> diagnostic_before block k \<or> eb_sample_present block ! k \<and>
      \<not> diagnostic_valid (eb_samples block ! k)"
    by (auto simp: outside_before_def diagnostic_before_def less_Suc_eq)
  moreover have "last_of block (Suc k) = (if eb_sample_present block ! k then
      \<lparr>ps_generation = rs_generation (eb_samples block ! k), ps_scheduled = rs_scheduled_timestamp_us (eb_samples block ! k),
       ps_capture = rs_capture_timestamp_us (eb_samples block ! k)\<rparr> else last_of block k)"
    by (simp add: last_of_def Let_def)
  moreover have swap: "(x OR y) OR z = (x OR z) OR y" "(x OR y) OR y = x OR y" for x y z :: u32
    by (simp_all add: ac_simps)
  ultimately show ?case using Suc.IH by (simp add: check_sample_def Let_def err_def swap)
qed

lemma check_samples_err:
  "check_samples block error = err (diagnostic_before block 5) InvalidRawDiagnostic
     (err (outside_before block 5) SampleOutsideEpoch error)"
  unfolding check_samples_def kMaximumEncoderSamplesPerEpoch_def sample_fold by simp

lemma validate_bits:
  "bit (validateRecordStrict r) 6 \<longleftrightarrow> bad_epoch_times (lr_encoder r)"
  "bit (validateRecordStrict r) 7 \<longleftrightarrow> eb_expected_sample_count (lr_encoder r) \<noteq> expectedSamplesPerEpoch (lr_encoder_rate r)"
  "bit (validateRecordStrict r) 8 \<longleftrightarrow> \<not> counts_consistent (lr_encoder r)"
  "bit (validateRecordStrict r) 9 \<longleftrightarrow> bad_flags r"
  "bit (validateRecordStrict r) 10 \<longleftrightarrow> outside_before (lr_encoder r) 5"
  by (simp_all add: validateRecordStrict_def Let_def check_samples_err bit_err error_bits)

lemma validate_zero:
  "validateRecordStrict r = 0 \<longleftrightarrow>
     isKnownStage (lr_stage r) \<and> isSupportedEncoderRate (lr_encoder_rate r) \<and>
     knownPhase (lr_profile_phase r) \<and> knownBranch (lr_approach_branch r) \<and> knownGuard (lr_guard_state r) \<and>
     knownAbort (lr_abort_reason r) \<and> knownRunKind (lr_run_kind r) \<and>
     motorModeMatchesCommand (ev_requested_command_permille (lr_command r)) (ev_requested_motor_mode (lr_command r)) \<and>
     motorModeMatchesCommand (ev_applied_command_permille (lr_command r)) (ev_applied_motor_mode (lr_command r)) \<and>
     \<not> outside_permille (lr_command r) \<and> ev_command_generation (lr_command r) \<noteq> 0 \<and> \<not> bad_command_times r \<and>
     \<not> bad_epoch_times (lr_encoder r) \<and>
     eb_expected_sample_count (lr_encoder r) = expectedSamplesPerEpoch (lr_encoder_rate r) \<and>
     counts_consistent (lr_encoder r) \<and> \<not> bad_flags r \<and> \<not> late_without_abort r \<and>
     \<not> outside_before (lr_encoder r) 5 \<and> \<not> diagnostic_before (lr_encoder r) 5 \<and> \<not> bad_power r \<and>
     (lr_stage r = Stage_M0 \<longleftrightarrow> lr_zero_reference_kind r = Zero_M0) \<and>
     (lr_first_error r = 0 \<longleftrightarrow> lr_abort_reason r = Abort_None) \<and>
     lr_qualification r = (if lr_run_kind r = Run_RateCheck then 0 else 1)"
proof -
  have nz: "InvalidStage \<noteq> 0" "InvalidEncoderRate \<noteq> 0" "InvalidEnum \<noteq> 0" "RequestedCommandModeMismatch \<noteq> 0"
      "AppliedCommandModeMismatch \<noteq> 0" "InvalidCommandTimestamp \<noteq> 0" "InvalidEpochTimestamp \<noteq> 0"
      "WrongExpectedSampleCount \<noteq> 0" "InconsistentCounts \<noteq> 0" "InconsistentFlags \<noteq> 0" "SampleOutsideEpoch \<noteq> 0"
      "InvalidRawDiagnostic \<noteq> 0" "InvalidGeneration \<noteq> 0" "InvalidVbus \<noteq> 0"
    by (simp_all add: InvalidStage_def InvalidEncoderRate_def InvalidEnum_def RequestedCommandModeMismatch_def
      AppliedCommandModeMismatch_def InvalidCommandTimestamp_def InvalidEpochTimestamp_def
      WrongExpectedSampleCount_def InconsistentCounts_def InconsistentFlags_def SampleOutsideEpoch_def
      InvalidRawDiagnostic_def InvalidGeneration_def InvalidVbus_def)
  have z: "err c code e = 0 \<longleftrightarrow> (c \<longrightarrow> code = 0) \<and> e = 0" for c code e by (auto simp: err_def or_eq_0_iff)
  show ?thesis unfolding validateRecordStrict_def Let_def check_samples_err z using nz by argo
qed

section \<open>Blocks of the assembler\<close>

text \<open>How a block came about: the state in which it was released.\<close>

definition made :: "assembler \<Rightarrow> epoch_block \<Rightarrow> bool" where
  "made a0 bl \<longleftrightarrow> (\<exists>a H e t m. assembler_inv a H \<and> release_due e t a \<and> same_clock a0 a \<and>
     as_deadline_budget_us a = as_deadline_budget_us a0 \<and> bl = finished a e t m)"

lemma add_budget: "as_deadline_budget_us (snd (assembler_add x a)) = as_deadline_budget_us a"
  by (simp add: assembler_add_def Let_def)

lemma step_made:
  assumes run: "assembler_run_inv n a H R" and n: "n \<le> 2 ^ 24" and s: "assembler_step (a, H, R) c = (a', H', R')"
    and same: "same_clock a0 a" "as_deadline_budget_us a = as_deadline_budget_us a0" "\<forall>bl \<in> set R. made a0 bl"
  shows "as_deadline_budget_us a' = as_deadline_budget_us a0 \<and> (\<forall>bl \<in> set R'. made a0 bl)"
proof (cases c)
  case (As_add x)
  have "a' = snd (assembler_add x a)" "R' = R" using s by (auto simp: As_add split: prod.splits)
  then show ?thesis using same add_budget[of x a] by simp
next
  case (As_release e t)
  have inv: "assembler_inv a H" and init: "as_initialized a" "supported_rate a"
    and u: "\<bar>as_last_unwrapped_count a\<bar> \<le> 2 ^ 43"
    using run n by (auto simp: assembler_run_inv_def assembler_inv_def)
  show ?thesis
  proof (cases "release_due e t a")
    case False
    then show ?thesis using s same release_not_due[OF init(1) False] by (simp add: As_release)
  next
    case True
    from release_ok[OF init True u] obtain m b where
      r: "assembler_release e t a = (Some (finished a e t m), b)" "as_deadline_budget_us b = as_deadline_budget_us a"
      by (auto simp: clear_released_def Let_def)
    then have "a' = b" "R' = R @ [finished a e t m]" using s by (simp_all add: As_release)
    moreover have "made a0 (finished a e t m)" using inv True same(1,2) unfolding made_def by blast
    ultimately show ?thesis using r(2) same by simp
  qed
qed

lemma run_made:
  assumes "assembler_run_inv n a H R" "n + length calls \<le> 2 ^ 24" "foldl assembler_step (a, H, R) calls = (a', H', R')"
    and "same_clock a0 a" "as_deadline_budget_us a = as_deadline_budget_us a0" "\<forall>bl \<in> set R. made a0 bl"
  shows "\<forall>bl \<in> set R'. made a0 bl"
  using assms
proof (induction calls arbitrary: n a H R)
  case (Cons c calls)
  obtain a1 H1 R1 where s: "assembler_step (a, H, R) c = (a1, H1, R1)" by (metis surj_pair)
  have n: "n \<le> 2 ^ 24" "Suc n + length calls \<le> 2 ^ 24" using Cons.prems(2) by simp_all
  note one = assembler_step_inv[OF Cons.prems(1) n(1) s] and more_made = step_made[OF Cons.prems(1) n(1) s Cons.prems(4-6)]
  have "same_clock a0 a1" using one Cons.prems(4) by (simp add: same_clock_def)
  then show ?case using Cons.IH[of "Suc n" a1 H1 R1] one more_made n(2) Cons.prems(3) s by simp
qed simp

text \<open>The counts and flags of a finished block.\<close>

lemma has_flag_bit:
  "has_flag bl EpochIncomplete \<longleftrightarrow> bit (eb_flags bl) 0" "has_flag bl EpochRepeated \<longleftrightarrow> bit (eb_flags bl) 1"
  "has_flag bl EpochSkipped \<longleftrightarrow> bit (eb_flags bl) 2" "has_flag bl EpochInvalid \<longleftrightarrow> bit (eb_flags bl) 3"
  "has_flag bl EpochDeadline \<longleftrightarrow> bit (eb_flags bl) 5" "has_flag bl EpochAggregateValid \<longleftrightarrow> bit (eb_flags bl) 6"
  "has_flag bl EpochStartup \<longleftrightarrow> bit (eb_flags bl) 7"
  unfolding has_flag_def flag_powers flag_test by (rule refl)+

lemma finished_counts:
  assumes inv: "assembler_inv a H" and few: "unat (eb_repeated_sample_count (finished a e t m)) \<le> 250"
  defines "bl \<equiv> finished a e t m"
  shows "counts_consistent bl"
    and "block_complete (as_samples_per_epoch a) (block_of e t a) \<longleftrightarrow> complete_block bl"
proof -
  have rate: "supported_rate a" using inv by (simp add: assembler_inv_def)
  let ?n = "unat (as_samples_per_epoch a)" and ?b = "bucket_for e a"
  define g f where "g = good_slots ?b ?n" and "f = filled_slots ?b ?n"
  have le: "g \<le> f" "f \<le> ?n" "?n \<le> 5" "0 < ?n"
    using good_le_filled[of ?b ?n] filled_le[of ?b ?n] supported_bound[OF rate] by (simp_all add: g_def f_def)
  have eq: "eb_selected_sample_count bl = of_nat f" "eb_valid_sample_count bl = of_nat g"
      "eb_invalid_sample_count bl = of_nat (f - g)" "eb_skipped_sample_count bl = of_nat (?n - f)"
      "eb_repeated_sample_count bl = bk_repeated_count ?b" "eb_actual_sample_count bl = bk_observed_count ?b"
      "eb_observed_sample_count bl = bk_observed_count ?b" "eb_expected_sample_count bl = as_samples_per_epoch a"
    using block_of_facts(1,6)[OF rate, of e t] by (simp_all add: bl_def finished_def reports_def f_def g_def)
  have small: "unat (of_nat k :: u8) = k" if "k \<le> 5" for k using that by (simp add: unat_of_nat)
  have shape: "bucket_shape ?n ?b"
    using inv shape_init bucket_index_less[of e] by (auto simp: bucket_for_def assembler_inv_def Let_def)
  have "length (filter id (bk_present ?b)) = f"
  proof -
    have present: "length (bk_present ?b) = 5" "\<And>s. s < 5 \<Longrightarrow> ?n \<le> s \<Longrightarrow> \<not> bk_present ?b ! s"
      using shape by (auto simp: bucket_shape_def)
    have "bk_present ?b = map ((!) (bk_present ?b)) [0..<5]" using present(1) map_nth[of "bk_present ?b"] by simp
    then have "length (filter id (bk_present ?b)) = length (filter (\<lambda>s. bk_present ?b ! s) [0..<5])"
      by (metis (no_types, lifting) comp_apply filter_map id_apply length_map filter_cong)
    moreover have "[0..<5] = [0..<?n] @ [?n..<5]" using le(3) upt_add_eq_append[of 0 ?n "5 - ?n"] by simp
    moreover have "filter (\<lambda>s. bk_present ?b ! s) [?n..<5] = []" using present(2) by simp
    ultimately show ?thesis by (simp add: f_def filled_slots_def)
  qed
  then have obs: "of_nat f + bk_repeated_count ?b = bk_observed_count ?b" using shape by (simp add: bucket_shape_def)
  moreover have "unat (bk_repeated_count ?b) \<le> 250" using few unfolding bl_def[symmetric] eq .
  ultimately have sum: "unat (bk_observed_count ?b) = f + unat (bk_repeated_count ?b)"
    unfolding obs[symmetric] unat_word_ariths using le small[of f] by simp
  have cc: "counts_consistent bl"
    unfolding counts_consistent_def eq word_le_nat_alt sum kMaximumEncoderSamplesPerEpoch_def
    using le small[of f] small[of g] small[of "f - g"] small[of "?n - f"] by simp
  then show "counts_consistent bl" .
  have n: "of_nat ?n = as_samples_per_epoch a" by simp
  have inj: "(of_nat i :: u8) = of_nat j \<longleftrightarrow> i = j" if "i \<le> 5" "j \<le> 5" for i j
    using that small by metis
  have valid: "of_nat g = as_samples_per_epoch a \<longleftrightarrow> g = ?n" using inj[of g ?n] le n by simp
  have bo: "block_complete (as_samples_per_epoch a) (block_of e t a) \<longleftrightarrow> block_complete (as_samples_per_epoch a) bl"
    by (simp add: bl_def finished_def block_complete_def)
  show "block_complete (as_samples_per_epoch a) (block_of e t a) \<longleftrightarrow> complete_block bl"
  proof (cases "g = ?n \<and> bk_repeated_count ?b = 0")
    case True
    then have "f = ?n" using le by simp
    then show ?thesis using True cc obs unfolding bo unfolding complete_block_def block_complete_def eq by simp
  next
    case False
    then show ?thesis unfolding bo unfolding complete_block_def block_complete_def eq valid by auto
  qed
qed

lemma due_end:
  assumes "release_due e t a"
  shows "unat (as_epoch_zero_timestamp_us a + e * kEpochDurationUs + kEpochDurationUs) =
    unat (as_epoch_zero_timestamp_us a) + unat e * 1000 + 1000"
proof -
  let ?z = "as_epoch_zero_timestamp_us a"
  have m1: "unat (- 1 - ?z) = 2 ^ 64 - 1 - unat ?z" 
  proof -
    have "unat (- 1 :: u64) = 2 ^ 64 - 1" by (simp add: unsigned_minus_1_eq_mask mask_eq_exp_minus_1)
    then show ?thesis by (simp add: unat_sub)
  qed
  have "e < (- 1 - ?z) div kEpochDurationUs" using assms unfolding release_due_def by blast
  then have "unat e < (2 ^ 64 - 1 - unat ?z) div 1000"
    unfolding word_less_nat_alt unat_div kEpochDurationUs_def m1 by simp
  then have "Suc (unat e) * 1000 \<le> 2 ^ 64 - 1 - unat ?z"
    by (metis Suc_leI div_le_mono less_eq_div_iff_mult_less_eq zero_less_numeral)
  then show ?thesis by (simp add: unat_word_ariths kEpochDurationUs_def)
qed

lemma late_release:
  assumes "fin \<le> (t :: u64)" "unat t < 2 ^ 63" "t > fin + 100"
  shows "clamp_int32 (sint (t - fin)) > 100"
proof -
  have u: "unat (t - fin) = unat t - unat fin" by (rule unat_sub[OF assms(1)])
  have "unat (fin + 100) = unat fin + 100"
    using assms(1,2) by (simp add: unat_word_ariths word_le_nat_alt)
  then have d: "100 < unat (t - fin)" "unat (t - fin) < 2 ^ 63"
    using assms u by (auto simp: word_less_nat_alt)
  then have i: "100 < int (unat (t - fin))" "int (unat (t - fin)) < 2 ^ 63"
    using of_nat_less_iff[of "unat (t - fin)" "2 ^ 63", where ?'a = int] by (simp_all only: of_nat_power of_nat_numeral)
  then have "signed_take_bit 63 (uint (t - fin)) = uint (t - fin)"
    by (intro signed_take_bit_int_eq_self) simp_all
  moreover have "sint (t - fin) = signed_take_bit 63 (uint (t - fin))" by (subst sint_uint) simp
  moreover have "100 < uint (t - fin)" using i(1) by simp
  ultimately show ?thesis by (simp add: clamp_int32_def)
qed


definition coasting_record :: "epoch_block \<Rightarrow> log_record" where
  "coasting_record block =
     \<lparr>lr_sequence = 0, lr_stage = Stage_FV, lr_encoder_rate = Hz2000, lr_profile_phase = Phase_StationaryBaseline,
       lr_approach_branch = Branch_None, lr_zero_reference_kind = Zero_Common, lr_run_kind = Run_Full,
       lr_qualification = 1, lr_episode_index = 0, lr_target_fin_angle_millideg = 0, lr_fin_angle_millideg = 0,
       lr_fin_rate_millideg_s = 0, lr_guard_state = Guard_Allow, lr_abort_reason = Abort_None, lr_first_error = 0,
       lr_command = evidence_init\<lparr>ev_command_generation := 1, ev_command_apply_timestamp_us := 4000,
         ev_logger_snapshot_timestamp_us := 6000\<rparr>,
       lr_power = \<lparr>pe_capture_timestamp_us = 5900, pe_motor_millivolts = 7400, pe_read_result = 0, pe_valid = True\<rparr>,
       lr_encoder = block\<rparr>"

lemma two_khz_first:
  "(\<lambda>(a, H, R). map (\<lambda>bl. (eb_repeated_sample_count bl, eb_release_timestamp_us bl, eb_epoch_start_timestamp_us bl)) R)
     (assembler_run (assembler_reset 5000 two_khz) two_khz_calls) = [(1, 6000, 5000), (0, 9000, 6000)]"
  by code_simp


text \<open>A record with no validation error has between its samples no step back: the present samples
  have strictly increasing generations, scheduled times and capture times, each captured within its
  own slot of the epoch, after it was scheduled, and with a 14-bit angle.
\<close>

theorem valid_samples_ordered:
  assumes "validateRecordStrict r = 0" "i < j" "j < 5"
    and "eb_sample_present (lr_encoder r) ! i" "eb_sample_present (lr_encoder r) ! j"
  shows "rs_generation (eb_samples (lr_encoder r) ! i) < rs_generation (eb_samples (lr_encoder r) ! j) \<and>
    rs_scheduled_timestamp_us (eb_samples (lr_encoder r) ! i) < rs_scheduled_timestamp_us (eb_samples (lr_encoder r) ! j) \<and>
    rs_capture_timestamp_us (eb_samples (lr_encoder r) ! i) < rs_capture_timestamp_us (eb_samples (lr_encoder r) ! j) \<and>
    slot_bound (lr_encoder r) (of_nat j) \<le> rs_capture_timestamp_us (eb_samples (lr_encoder r) ! j) \<and>
    rs_capture_timestamp_us (eb_samples (lr_encoder r) ! j) < slot_bound (lr_encoder r) (of_nat j + 1) \<and>
    rs_scheduled_timestamp_us (eb_samples (lr_encoder r) ! j) \<le> rs_capture_timestamp_us (eb_samples (lr_encoder r) ! j) \<and>
    rs_angle_raw (eb_samples (lr_encoder r) ! j) \<le> 0x3FFF"
proof -
  let ?b = "lr_encoder r"
  have ok: "\<not> sample_outside ?b s (last_of ?b s) (eb_samples ?b ! s)" if "s < 5" "eb_sample_present ?b ! s" for s
    using assms(1) that unfolding validate_zero outside_before_def by blast
  have "ps_generation (last_of ?b k) \<noteq> 0 \<and> rs_generation (eb_samples ?b ! i) \<le> ps_generation (last_of ?b k) \<and>
      rs_scheduled_timestamp_us (eb_samples ?b ! i) \<le> ps_scheduled (last_of ?b k) \<and>
      rs_capture_timestamp_us (eb_samples ?b ! i) \<le> ps_capture (last_of ?b k)" if "i < k" "k \<le> 5" for k
    using that
  proof (induction k)
    case (Suc k)
    have step: "last_of ?b (Suc k) = (if eb_sample_present ?b ! k then
        \<lparr>ps_generation = rs_generation (eb_samples ?b ! k), ps_scheduled = rs_scheduled_timestamp_us (eb_samples ?b ! k),
         ps_capture = rs_capture_timestamp_us (eb_samples ?b ! k)\<rparr> else last_of ?b k)"
      by (simp add: last_of_def Let_def)
    show ?case
    proof (cases "i = k")
      case True
      then show ?thesis using ok[of i] assms(4) Suc.prems by (simp add: step sample_outside_def)
    next
      case False
      then show ?thesis using Suc ok[of k] by (auto simp: step sample_outside_def)
    qed
  qed simp
  from this[OF assms(2)] ok[OF assms(3,5)] assms(3) show ?thesis
    by (auto simp: sample_outside_def)
qed

definition full_block :: epoch_block where
  "full_block = epoch_block_init\<lparr>eb_epoch_index := 0, eb_epoch_start_timestamp_us := 5000, eb_epoch_end_timestamp_us := 6000,
     eb_release_timestamp_us := 6000, eb_expected_sample_count := 2, eb_observed_sample_count := 2,
     eb_actual_sample_count := 2, eb_selected_sample_count := 2, eb_valid_sample_count := 2, eb_flags := 0x40,
     eb_samples := [(sample_at 5100 7)\<lparr>rs_slot := 0\<rparr>, (sample_at 5600 9)\<lparr>rs_slot := 1, rs_generation := 2\<rparr>] @
       replicate 3 raw_sample_init,
     eb_sample_present := [True, True, False, False, False]\<rparr>"

lemma valid_samples_ordered_witness:
  "rs_capture_timestamp_us (eb_samples full_block ! 0) < rs_capture_timestamp_us (eb_samples full_block ! 1) \<and>
   slot_bound full_block 1 \<le> rs_capture_timestamp_us (eb_samples full_block ! 1)"
proof -
  have b: "lr_encoder (coasting_record full_block) = full_block" by (simp add: coasting_record_def)
  have "validateRecordStrict (coasting_record full_block) = 0" by code_simp
  moreover have "eb_sample_present full_block ! 0" "eb_sample_present full_block ! 1" by (simp_all add: full_block_def)
  ultimately show ?thesis using valid_samples_ordered[of "coasting_record full_block" 0 1] unfolding b by simp
qed

end
