(* ===== verification/Capture_Codec.thy ===== *)
theory Capture_Codec
  imports Record_Validation Campaign Flight_Log
begin

text \<open>
  \<open>characterization/log_format_v5.{hpp,cpp}\<close>, the codec: header (256 bytes), record (320) and footer
  (192) of a characterization capture, little-endian in a zeroed buffer, each closed by a CRC-32.
  A \<open>bool\<close> result with an output buffer is an option. A \<open>DecodeError\<close> is the left of a sum; on the
  right is the struct, which the code fills in place. A \<open>float\<close> is its binary32 bit pattern, \<open>char\<close>
  arrays are bytes. The null pointer checks have no counterpart.
\<close>

section \<open>Types\<close>

definition kHeaderBytes :: nat where "kHeaderBytes = 256"
definition kRecordBytes :: nat where "kRecordBytes = 320"
definition kFooterBytes :: nat where "kFooterBytes = 192"
definition kHeaderMagic :: "u8 list" where "kHeaderMagic = [0x39, 0x39, 0x4C, 0x4D, 0x43, 0x56, 0x35, 0]"
definition kRecordMagic :: "u8 list" where "kRecordMagic = [0x45, 0x50, 0x56, 0x35]"
definition kFooterMagic :: "u8 list" where "kFooterMagic = [0x39, 0x39, 0x4C, 0x45, 0x4E, 0x44, 0x35, 0]"

datatype decode_error =
    DE_Truncated | DE_TrailingBytes | DE_Magic | DE_Schema | DE_Size | DE_Crc | DE_Enum
  | DE_Reserved | DE_Sequence | DE_Invariant

record log_header =
  lh_stage :: assembly_stage
  lh_encoder_rate :: encoder_rate
  lh_run_kind :: run_kind
  lh_profile_seed :: u32
  lh_pwm_frequency_hz :: u32
  lh_reset_reason :: u32
  lh_total_reduction :: f32
  lh_physical_limit_deg :: f32
  lh_routine_guard_deg :: f32
  lh_hard_abort_deg :: f32
  lh_backlash_full_width_deg :: f32
  lh_epoch_zero_timestamp_us :: u64
  lh_session_id :: "u8 list"
  lh_firmware_sha :: "u8 list"
  lh_avi_esp_libs_sha :: "u8 list"
  lh_board_build_id :: "u8 list"

record log_footer =
  lf_completion :: completion_code
  lf_rate_supported :: bool
  lf_unsupported_reason :: unsupported_reason
  lf_total_records :: u64
  lf_first_sequence :: u64
  lf_last_sequence :: u64
  lf_statistics :: sampler_statistics
  lf_qualification_valid_epochs :: u32
  lf_qualification_total_epochs :: u32
  lf_shutdown_step_mask :: u32
  lf_file_crc32 :: u32

section \<open>The checksum\<close>

definition crc32TableEntry :: "u32 \<Rightarrow> u32" where
  "crc32TableEntry value =
     foldl (\<lambda>value _. drop_bit 1 value XOR (0xEDB88320 AND (0 - (value AND 1)))) value [0..<8]"

definition kCrc32Table :: "u32 list" where
  "kCrc32Table = map (\<lambda>index. crc32TableEntry (of_nat index)) [0..<256]"

definition table_crc32 :: "u8 list \<Rightarrow> u32 \<Rightarrow> u32" where
  "table_crc32 data previous_crc =
     foldl (\<lambda>crc byte. drop_bit 8 crc XOR kCrc32Table ! unat (ucast (crc XOR ucast byte) :: u8))
       (previous_crc XOR 0xFFFFFFFF) data XOR 0xFFFFFFFF"

section \<open>Fields\<close>

definition put_word :: "nat \<Rightarrow> u8 list \<Rightarrow> nat \<Rightarrow> 'a::len word \<Rightarrow> u8 list" where
  "put_word n d off v = foldl (\<lambda>d i. d[off + i := byte_at i v]) d [0..<n]"

definition putU16_v5 :: "u8 list \<Rightarrow> nat \<Rightarrow> u16 \<Rightarrow> u8 list" where "putU16_v5 = put_word 2"
definition putI16 :: "u8 list \<Rightarrow> nat \<Rightarrow> int \<Rightarrow> u8 list" where "putI16 d off v = putU16_v5 d off (word_of_int v)"
definition putU32_v5 :: "u8 list \<Rightarrow> nat \<Rightarrow> u32 \<Rightarrow> u8 list" where "putU32_v5 = put_word 4"
definition putI32 :: "u8 list \<Rightarrow> nat \<Rightarrow> int \<Rightarrow> u8 list" where "putI32 d off v = putU32_v5 d off (word_of_int v)"
definition putU64 :: "u8 list \<Rightarrow> nat \<Rightarrow> u64 \<Rightarrow> u8 list" where "putU64 = put_word 8"
definition putF32 :: "u8 list \<Rightarrow> nat \<Rightarrow> f32 \<Rightarrow> u8 list" where "putF32 = putU32_v5"

definition copyFixed :: "u8 list \<Rightarrow> nat \<Rightarrow> u8 list \<Rightarrow> u8 list" where
  "copyFixed d off source = take off d @ source @ drop (off + length source) d"

definition get_word :: "nat \<Rightarrow> u8 list \<Rightarrow> nat \<Rightarrow> 'a::len word" where
  "get_word n d off = foldl (\<lambda>v i. v OR push_bit (8 * i) (ucast (d ! (off + i)))) 0 [0..<n]"

definition getU16_v5 :: "u8 list \<Rightarrow> nat \<Rightarrow> u16" where "getU16_v5 = get_word 2"
definition getI16 :: "u8 list \<Rightarrow> nat \<Rightarrow> int" where "getI16 d off = sint (getU16_v5 d off)"
definition getU32_v5 :: "u8 list \<Rightarrow> nat \<Rightarrow> u32" where "getU32_v5 = get_word 4"
definition getI32 :: "u8 list \<Rightarrow> nat \<Rightarrow> int" where "getI32 d off = sint (getU32_v5 d off)"
definition getU64 :: "u8 list \<Rightarrow> nat \<Rightarrow> u64" where "getU64 = get_word 8"
definition getF32 :: "u8 list \<Rightarrow> nat \<Rightarrow> f32" where "getF32 = getU32_v5"

definition copied :: "nat \<Rightarrow> u8 list \<Rightarrow> nat \<Rightarrow> u8 list" where
  "copied n d off = take n (drop off d)"

definition allZero_at :: "u8 list \<Rightarrow> nat \<Rightarrow> nat \<Rightarrow> bool" where
  "allZero_at d off n = list_all (\<lambda>b. b = 0) (take n (drop off d))"

definition magicMatches :: "u8 list \<Rightarrow> u8 list \<Rightarrow> bool" where
  "magicMatches d magic = (take (length magic) d = magic)"

definition assembly_stage_cast :: "u8 \<Rightarrow> assembly_stage" where
  "assembly_stage_cast v = (if v = 0 then Stage_None else if v = 1 then Stage_FV
     else if v = 2 then Stage_FHPositive else if v = 3 then Stage_FHNegative
     else if v = 4 then Stage_M0 else Stage_other v)"

definition encoder_rate_cast :: "u32 \<Rightarrow> encoder_rate" where
  "encoder_rate_cast v = (if v = 1000 then Hz1000 else if v = 2000 then Hz2000
     else if v = 5000 then Hz5000 else Hz_other v)"

definition motor_mode_cast :: "u8 \<Rightarrow> motor_mode" where
  "motor_mode_cast v = (if v = 0 then Mode_Coast else if v = 1 then Mode_DriveIn1
     else if v = 2 then Mode_DriveIn2 else if v = 3 then Mode_Brake else Mode_other v)"

definition profile_phase_cast :: "u8 \<Rightarrow> profile_phase" where
  "profile_phase_cast v = (if v \<le> 14
     then [Phase_Idle, Phase_StationaryBaseline, Phase_ZeroApproach, Phase_PolarityCheck,
        Phase_BreakawaySweep, Phase_SustainedMotionSweep, Phase_BoundedPulseGrid, Phase_Coast,
        Phase_ShortBrake, Phase_PositiveToNegative, Phase_NegativeToPositive, Phase_BoundedPrbs,
        Phase_BandLimitedNoise, Phase_Chirp, Phase_Recenter] ! unat v
     else Phase_other v)"

definition approach_branch_cast :: "u8 \<Rightarrow> approach_branch" where
  "approach_branch_cast v = (if v = 0 then Branch_None else if v = 1 then Branch_FromPositive
     else if v = 2 then Branch_FromNegative else Branch_other v)"

definition guard_state_cast :: "u8 \<Rightarrow> guard_state" where
  "guard_state_cast v = (if v = 0 then Guard_Allow else if v = 1 then Guard_Coast
     else if v = 2 then Guard_Abort else Guard_other v)"

definition abort_reason_cast :: "u16 \<Rightarrow> abort_reason" where
  "abort_reason_cast v = (if v \<le> 13
     then [Abort_None, Abort_StopRequested, Abort_EncoderInvalid, Abort_PositionGuard,
        Abort_Overshoot, Abort_Timeout, Abort_Deadline, Abort_QueueFull, Abort_WriterError,
        Abort_MotorApplyError, Abort_VbusInvalid, Abort_SamplerError, Abort_ValidationError,
        Abort_StageError] ! unat v
     else Abort_other v)"

definition run_kind_cast :: "u8 \<Rightarrow> run_kind" where
  "run_kind_cast v = (if v = 0 then Run_None else if v = 1 then Run_RateCheck
     else if v = 2 then Run_Full else Run_other v)"

definition completion_code_cast :: "u8 \<Rightarrow> completion_code" where
  "completion_code_cast v = (if v = 1 then Done_Normal else if v = 2 then Done_Aborted
     else if v = 3 then Done_Unsupported else Done_other v)"

definition unsupported_reason_cast :: "u8 \<Rightarrow> unsupported_reason" where
  "unsupported_reason_cast v = (if v \<le> 8
     then [Unsup_None, Unsup_TriggerCoalesced, Unsup_IncompleteEpoch, Unsup_InvalidRead,
        Unsup_DeadlineMiss, Unsup_QueueOverflow, Unsup_WriterFailure, Unsup_SensorHealth,
        Unsup_OperatorMarkedUnsupported] ! unat v
     else Unsup_other v)"

definition zero_reference_kind_cast :: "u8 \<Rightarrow> zero_reference_kind" where
  "zero_reference_kind_cast v = (if v = 0 then Zero_Common else if v = 1 then Zero_M0 else Zero_other v)"

section \<open>Checks\<close>

fun knownCompletion :: "completion_code \<Rightarrow> bool" where
  "knownCompletion (Done_other _) = False"
| "knownCompletion _ = True"

definition knownUnsupported :: "unsupported_reason \<Rightarrow> bool" where
  "knownUnsupported reason =
     (unsupported_reason_code reason \<le> unsupported_reason_code Unsup_OperatorMarkedUnsupported)"

definition validFooterState :: "completion_code \<Rightarrow> bool \<Rightarrow> unsupported_reason \<Rightarrow> bool" where
  "validFooterState completion rate_supported reason =
     (if completion = Done_Normal then rate_supported \<and> reason = Unsup_None
      else if completion = Done_Unsupported then \<not> rate_supported \<and> reason \<noteq> Unsup_None
      else if completion = Done_Aborted then reason = Unsup_None
      else False)"

text \<open>Finiteness and the order of \<open>float\<close> on the bit patterns.\<close>

definition f32_finite :: "f32 \<Rightarrow> bool" where
  "f32_finite v = (v AND 0x7F800000 \<noteq> 0x7F800000)"

definition f32_nan :: "f32 \<Rightarrow> bool" where
  "f32_nan v = (v AND 0x7FFFFFFF > 0x7F800000)"

definition f32_key :: "f32 \<Rightarrow> int" where
  "f32_key v = (if v AND 0x80000000 \<noteq> 0 then - uint (v AND 0x7FFFFFFF) else uint (v AND 0x7FFFFFFF))"

definition f32_less :: "f32 \<Rightarrow> f32 \<Rightarrow> bool" where
  "f32_less v w = (\<not> f32_nan v \<and> \<not> f32_nan w \<and> f32_key v < f32_key w)"

definition physicalMetadataValid :: "log_header \<Rightarrow> bool" where
  "physicalMetadataValid h =
     ((f32_finite (lh_total_reduction h) \<and> f32_finite (lh_physical_limit_deg h) \<and>
       f32_finite (lh_routine_guard_deg h) \<and> f32_finite (lh_hard_abort_deg h) \<and>
       f32_finite (lh_backlash_full_width_deg h) \<and>
       f32_less 0 (lh_total_reduction h) \<and> f32_less 0 (lh_physical_limit_deg h) \<and>
       f32_less 0 (lh_routine_guard_deg h) \<and> f32_less 0 (lh_hard_abort_deg h) \<and>
       f32_less 0 (lh_backlash_full_width_deg h)) \<and>
      f32_less (lh_routine_guard_deg h) (lh_hard_abort_deg h) \<and>
      f32_less (lh_hard_abort_deg h) (lh_physical_limit_deg h))"

definition sha40Valid :: "u8 list \<Rightarrow> bool" where
  "sha40Valid value = list_all (\<lambda>c. 0x30 \<le> c \<and> c \<le> 0x39 \<or> 0x61 \<le> c \<and> c \<le> 0x66 \<or> 0x41 \<le> c \<and> c \<le> 0x46) value"

text \<open>\<open>text_scan value minimum have_text terminated\<close>: the loop from a position on.\<close>

fun text_scan :: "u8 list \<Rightarrow> u8 \<Rightarrow> bool \<Rightarrow> bool \<Rightarrow> bool" where
  "text_scan [] minimum have_text terminated = (have_text \<and> terminated)"
| "text_scan (byte # value) minimum have_text terminated =
     (if byte = 0 then text_scan value minimum have_text True
      else if terminated then False
      else if byte < minimum \<or> byte > 0x7E then False
      else text_scan value minimum True terminated)"

definition fixedTextValid :: "u8 list \<Rightarrow> u8 \<Rightarrow> bool" where
  "fixedTextValid value minimum = text_scan value minimum False False"

definition shutdownPrefix :: "u32 \<Rightarrow> bool" where
  "shutdownPrefix steps = (steps \<le> 0x3F \<and> steps AND (steps + 1) = 0)"

definition fatalAcquisitionCountersAreZero :: "sampler_statistics \<Rightarrow> bool" where
  "fatalAcquisitionCountersAreZero st =
     (ss_trigger_coalesced_or_missed st = 0 \<and> ss_pre_epoch_samples st = 0 \<and> ss_invalid_samples st = 0 \<and>
      ss_late_after_release st = 0 \<and> ss_steady_state_incomplete_epochs st = 0 \<and>
      ss_consumer_deadline_misses st = 0 \<and> ss_raw_queue_overflows st = 0 \<and>
      ss_writer_queue_overflows st = 0 \<and> ss_encoder_transport_errors st = 0 \<and>
      ss_encoder_status_faults st = 0 \<and> ss_vbus_invalid_samples st = 0)"

definition footerFieldsValid :: "log_footer \<Rightarrow> bool" where
  "footerFieldsValid f =
     (let has_records = lf_total_records f \<noteq> 0;
          sequence_valid = (if has_records
            then lf_last_sequence f \<ge> lf_first_sequence f \<and>
              lf_last_sequence f - lf_first_sequence f + 1 = lf_total_records f
            else lf_first_sequence f = 0 \<and> lf_last_sequence f = 0);
          finished = (lf_completion f = Done_Normal \<or> lf_completion f = Done_Unsupported);
          normal_valid = (lf_completion f \<noteq> Done_Normal \<or>
            has_records \<and> ss_first_error (lf_statistics f) = 0 \<and>
            fatalAcquisitionCountersAreZero (lf_statistics f)) in
      sequence_valid \<and> lf_qualification_valid_epochs f \<le> lf_qualification_total_epochs f \<and>
      shutdownPrefix (lf_shutdown_step_mask f) \<and>
      (\<not> finished \<or> lf_shutdown_step_mask f = 0x3F) \<and> normal_valid)"

definition hasUnsupportedEvidence :: "log_footer \<Rightarrow> bool" where
  "hasUnsupportedEvidence f =
     (let st = lf_statistics f in
      case lf_unsupported_reason f of
        Unsup_None \<Rightarrow> False
      | Unsup_TriggerCoalesced \<Rightarrow> ss_trigger_coalesced_or_missed st \<noteq> 0
      | Unsup_IncompleteEpoch \<Rightarrow> ss_pre_epoch_samples st \<noteq> 0 \<or> ss_repeated_samples st \<noteq> 0 \<or>
          ss_late_after_release st \<noteq> 0 \<or> ss_steady_state_incomplete_epochs st \<noteq> 0
      | Unsup_InvalidRead \<Rightarrow> ss_invalid_samples st \<noteq> 0 \<or> ss_encoder_transport_errors st \<noteq> 0
      | Unsup_DeadlineMiss \<Rightarrow> ss_consumer_deadline_misses st \<noteq> 0
      | Unsup_QueueOverflow \<Rightarrow> ss_bucket_collisions st \<noteq> 0 \<or> ss_raw_queue_overflows st \<noteq> 0 \<or>
          ss_writer_queue_overflows st \<noteq> 0
      | Unsup_WriterFailure \<Rightarrow> ss_first_error st \<noteq> 0
      | Unsup_SensorHealth \<Rightarrow> ss_encoder_status_faults st \<noteq> 0
      | Unsup_OperatorMarkedUnsupported \<Rightarrow> True
      | Unsup_other _ \<Rightarrow> False)"

section \<open>Header\<close>

text \<open>The checks that encoding and decoding share, all but the one of the run kind.\<close>

definition header_ok :: "log_header \<Rightarrow> bool" where
  "header_ok h = (isKnownStage (lh_stage h) \<and> isSupportedEncoderRate (lh_encoder_rate h) \<and>
     validSessionId (lh_session_id h) \<and> sha40Valid (lh_firmware_sha h) \<and>
     sha40Valid (lh_avi_esp_libs_sha h) \<and> fixedTextValid (lh_board_build_id h) 0x21 \<and>
     lh_profile_seed h \<noteq> 0 \<and> lh_pwm_frequency_hz h \<noteq> 0 \<and> lh_epoch_zero_timestamp_us h \<noteq> 0 \<and>
     physicalMetadataValid h)"

definition header_bytes :: "log_header \<Rightarrow> u8 list" where
  "header_bytes h =
     (let d = replicate kHeaderBytes 0;
          d = copyFixed d 0 kHeaderMagic;
          d = putU16_v5 d 8 kCharSchemaVersion;
          d = putU16_v5 d 10 (of_nat kHeaderBytes);
          d = putU16_v5 d 12 (of_nat kRecordBytes);
          d = putU16_v5 d 14 (of_nat kFooterBytes);
          d = d[16 := assembly_stage_code (lh_stage h)];
          d = putU16_v5 d 18 (ucast kConsumerRateHz);
          d = putU32_v5 d 20 (encoder_rate_code (lh_encoder_rate h));
          d = putU32_v5 d 24 kProfileContractVersion;
          d = putU32_v5 d 28 (lh_profile_seed h);
          d = putU32_v5 d 32 (lh_pwm_frequency_hz h);
          d = putU32_v5 d 36 (lh_reset_reason h);
          d = putF32 d 40 (lh_total_reduction h);
          d = putF32 d 44 (lh_physical_limit_deg h);
          d = putF32 d 48 (lh_routine_guard_deg h);
          d = putF32 d 52 (lh_hard_abort_deg h);
          d = putF32 d 56 (lh_backlash_full_width_deg h);
          d = putU64 d 64 (lh_epoch_zero_timestamp_us h);
          d = copyFixed d 72 (lh_session_id h);
          d = copyFixed d 104 (lh_firmware_sha h);
          d = copyFixed d 144 (lh_avi_esp_libs_sha h);
          d = copyFixed d 184 (lh_board_build_id h) in
      putU32_v5 d 248 (if lh_run_kind h = Run_RateCheck then 1 else 2))"

definition encodeHeader :: "log_header \<Rightarrow> u8 list option" where
  "encodeHeader h =
     (if \<not> header_ok h \<or> \<not> knownRunKind (lh_run_kind h) then None
      else let d = header_bytes h in Some (putU32_v5 d 252 (table_crc32 (take 252 d) 0)))"

definition decodeHeader :: "u8 list \<Rightarrow> decode_error + log_header" where
  "decodeHeader data =
     (if length data < kHeaderBytes then Inl DE_Truncated
      else if length data > kHeaderBytes then Inl DE_TrailingBytes
      else if \<not> magicMatches data kHeaderMagic then Inl DE_Magic
      else if getU16_v5 data 8 \<noteq> kCharSchemaVersion then Inl DE_Schema
      else if getU16_v5 data 10 \<noteq> of_nat kHeaderBytes \<or> getU16_v5 data 12 \<noteq> of_nat kRecordBytes \<or>
              getU16_v5 data 14 \<noteq> of_nat kFooterBytes \<or> ucast (getU16_v5 data 18) \<noteq> kConsumerRateHz \<or>
              getU32_v5 data 24 \<noteq> kProfileContractVersion
      then Inl DE_Size
      else if getU32_v5 data 252 \<noteq> table_crc32 (take 252 data) 0 then Inl DE_Crc
      else if data ! 17 \<noteq> 0 \<or> \<not> allZero_at data 60 4 then Inl DE_Reserved
      else let flags = getU32_v5 data 248;
               h = \<lparr>lh_stage = assembly_stage_cast (data ! 16),
                 lh_encoder_rate = encoder_rate_cast (getU32_v5 data 20),
                 lh_run_kind = (if flags = 1 then Run_RateCheck else Run_Full),
                 lh_profile_seed = getU32_v5 data 28, lh_pwm_frequency_hz = getU32_v5 data 32,
                 lh_reset_reason = getU32_v5 data 36, lh_total_reduction = getF32 data 40,
                 lh_physical_limit_deg = getF32 data 44, lh_routine_guard_deg = getF32 data 48,
                 lh_hard_abort_deg = getF32 data 52, lh_backlash_full_width_deg = getF32 data 56,
                 lh_epoch_zero_timestamp_us = getU64 data 64, lh_session_id = copied 32 data 72,
                 lh_firmware_sha = copied 40 data 104, lh_avi_esp_libs_sha = copied 40 data 144,
                 lh_board_build_id = copied 64 data 184\<rparr> in
        if flags \<noteq> 1 \<and> flags \<noteq> 2 then Inl DE_Enum
        else if \<not> header_ok h then Inl DE_Invariant else Inr h)"

section \<open>Record\<close>

definition put_sample :: "u8 list \<Rightarrow> nat \<Rightarrow> raw_sample \<Rightarrow> u8 list" where
  "put_sample d slot sample =
     (let off = 136 + slot * 36;
          d = putU64 d off (rs_generation sample);
          d = putU64 d (off + 8) (rs_scheduled_timestamp_us sample);
          d = putU64 d (off + 16) (rs_capture_timestamp_us sample);
          d = putU16_v5 d (off + 24) (rs_angle_raw sample);
          d = putU16_v5 d (off + 26) (rs_diagnostic_flags sample);
          d = putI32 d (off + 28) (rs_read_result_code sample);
          d = d[off + 32 := if rs_valid sample then 1 else 0] in
      d[off + 33 := of_nat slot])"

definition record_head :: "log_record \<Rightarrow> u8 list" where
  "record_head r =
     (let d = replicate kRecordBytes 0;
          d = copyFixed d 0 kRecordMagic;
          d = putU64 d 4 (lr_sequence r);
          d = putU64 d 12 (eb_epoch_index (lr_encoder r));
          d = putU64 d 20 (eb_epoch_start_timestamp_us (lr_encoder r));
          d = putU64 d 28 (eb_epoch_end_timestamp_us (lr_encoder r));
          d = putU64 d 36 (eb_release_timestamp_us (lr_encoder r));
          d = putU64 d 44 (ev_command_apply_timestamp_us (lr_command r));
          d = putU64 d 52 (ev_logger_snapshot_timestamp_us (lr_command r));
          d = putU64 d 60 (pe_capture_timestamp_us (lr_power r));
          d = putU64 d 68 (ev_command_generation (lr_command r));
          d = putU32_v5 d 76 (lr_episode_index r);
          d = putI32 d 80 (lr_target_fin_angle_millideg r);
          d = putI32 d 84 (lr_fin_angle_millideg r);
          d = putI32 d 88 (lr_fin_rate_millideg_s r);
          d = putI32 d 92 (eb_consumer_lateness_us (lr_encoder r));
          d = putI32 d 96 (ev_apply_result_code (lr_command r));
          d = putI32 d 100 (pe_read_result (lr_power r));
          d = putI16 d 104 (ev_requested_command_permille (lr_command r));
          d = putI16 d 106 (ev_applied_command_permille (lr_command r));
          d = putU16_v5 d 108 (pe_motor_millivolts (lr_power r));
          d = putU16_v5 d 110 (abort_reason_code (lr_abort_reason r));
          d = d[112 := assembly_stage_code (lr_stage r)];
          d = d[113 := profile_phase_code (lr_profile_phase r)];
          d = d[114 := approach_branch_code (lr_approach_branch r)];
          d = d[115 := motor_mode_code (ev_requested_motor_mode (lr_command r))];
          d = d[116 := motor_mode_code (ev_applied_motor_mode (lr_command r))];
          d = d[117 := guard_state_code (lr_guard_state r)];
          d = d[118 := if pe_valid (lr_power r) then 1 else 0];
          d = d[120 := eb_expected_sample_count (lr_encoder r)];
          d = d[121 := eb_actual_sample_count (lr_encoder r)];
          d = d[122 := eb_valid_sample_count (lr_encoder r)];
          d = d[123 := eb_repeated_sample_count (lr_encoder r)];
          d = d[124 := eb_skipped_sample_count (lr_encoder r)];
          d = d[125 := eb_invalid_sample_count (lr_encoder r)];
          d = putU16_v5 d 126 (eb_flags (lr_encoder r));
          d = d[128 := zero_reference_kind_code (lr_zero_reference_kind r)];
          d = d[129 := run_kind_code (lr_run_kind r)];
          d = d[130 := lr_qualification r] in
      putI32 d 132 (lr_first_error r))"

definition put_samples :: "epoch_block \<Rightarrow> u8 list \<Rightarrow> u8 list" where
  "put_samples block d =
     foldl (\<lambda>d slot. if \<not> eb_sample_present block ! slot then d
        else put_sample d slot (eb_samples block ! slot)) d [0..<kMaximumEncoderSamplesPerEpoch]"

definition encodeRecord :: "bool \<Rightarrow> log_record \<Rightarrow> u8 list option" where
  "encodeRecord on_board r =
     (if hasError (validateRecord on_board r) then None
      else let d = put_samples (lr_encoder r) (record_head r) in
        Some (putU32_v5 d 316 (table_crc32 (take 316 d) 0)))"

text \<open>The fields outside the samples; an \<open>Inl\<close> is one of the early returns among them.\<close>

definition get_block :: "u8 list \<Rightarrow> epoch_block" where
  "get_block data = epoch_block_init\<lparr>eb_epoch_index := getU64 data 12,
     eb_epoch_start_timestamp_us := getU64 data 20, eb_epoch_end_timestamp_us := getU64 data 28,
     eb_release_timestamp_us := getU64 data 36, eb_consumer_lateness_us := getI32 data 92,
     eb_expected_sample_count := data ! 120, eb_actual_sample_count := data ! 121,
     eb_observed_sample_count := data ! 121, eb_valid_sample_count := data ! 122,
     eb_repeated_sample_count := data ! 123, eb_skipped_sample_count := data ! 124,
     eb_invalid_sample_count := data ! 125, eb_selected_sample_count := data ! 122 + data ! 125,
     eb_flags := getU16_v5 data 126\<rparr>"

definition get_command :: "u8 list \<Rightarrow> command_evidence" where
  "get_command data = evidence_init\<lparr>ev_command_apply_timestamp_us := getU64 data 44,
     ev_logger_snapshot_timestamp_us := getU64 data 52, ev_command_generation := getU64 data 68,
     ev_apply_result_code := getI32 data 96, ev_requested_command_permille := getI16 data 104,
     ev_applied_command_permille := getI16 data 106,
     ev_requested_motor_mode := motor_mode_cast (data ! 115),
     ev_applied_motor_mode := motor_mode_cast (data ! 116)\<rparr>"

definition get_power :: "u8 list \<Rightarrow> power_evidence" where
  "get_power data = \<lparr>pe_capture_timestamp_us = getU64 data 60, pe_motor_millivolts = getU16_v5 data 108,
     pe_read_result = getI32 data 100, pe_valid = (data ! 118 = 1)\<rparr>"

definition get_rate :: "u8 list \<Rightarrow> encoder_rate option" where
  "get_rate data = (if data ! 120 = 1 then Some Hz1000 else if data ! 120 = 2 then Some Hz2000
     else if data ! 120 = 5 then Some Hz5000 else None)"

definition get_record :: "u8 list \<Rightarrow> encoder_rate \<Rightarrow> epoch_block \<Rightarrow> log_record" where
  "get_record data rate block =
     \<lparr>lr_sequence = getU64 data 4, lr_stage = assembly_stage_cast (data ! 112), lr_encoder_rate = rate,
       lr_profile_phase = profile_phase_cast (data ! 113),
       lr_approach_branch = approach_branch_cast (data ! 114),
       lr_zero_reference_kind = zero_reference_kind_cast (data ! 128),
       lr_run_kind = run_kind_cast (data ! 129), lr_qualification = data ! 130,
       lr_episode_index = getU32_v5 data 76, lr_target_fin_angle_millideg = getI32 data 80,
       lr_fin_angle_millideg = getI32 data 84, lr_fin_rate_millideg_s = getI32 data 88,
       lr_guard_state = guard_state_cast (data ! 117),
       lr_abort_reason = abort_reason_cast (getU16_v5 data 110), lr_first_error = getI32 data 132,
       lr_command = get_command data, lr_power = get_power data, lr_encoder = block\<rparr>"

definition get_sample :: "u8 list \<Rightarrow> nat \<Rightarrow> raw_sample" where
  "get_sample data off =
     \<lparr>rs_generation = getU64 data off, rs_scheduled_timestamp_us = getU64 data (off + 8),
       rs_capture_timestamp_us = getU64 data (off + 16), rs_angle_raw = getU16_v5 data (off + 24),
       rs_diagnostic_flags = getU16_v5 data (off + 26), rs_read_result_code = getI32 data (off + 28),
       rs_valid = (data ! (off + 32) = 1), rs_slot = data ! (off + 33)\<rparr>"

fun get_samples :: "u8 list \<Rightarrow> nat list \<Rightarrow> epoch_block \<Rightarrow> decode_error + epoch_block" where
  "get_samples data [] block = Inr block"
| "get_samples data (slot # slots) block =
     (let off = 136 + slot * 36 in
      if \<not> allZero_at data (off + 34) 2 then Inl DE_Reserved
      else if allZero_at data off 36 then get_samples data slots block
      else if data ! (off + 32) > 1 \<or> unat (data ! (off + 33)) \<noteq> slot then Inl DE_Invariant
      else get_samples data slots
        (block\<lparr>eb_samples := (eb_samples block)[slot := get_sample data off],
           eb_sample_present := (eb_sample_present block)[slot := True]\<rparr>))"

definition unknown_enum :: "log_record \<Rightarrow> bool" where
  "unknown_enum r =
     (\<not> isKnownStage (lr_stage r) \<or> profile_phase_code (lr_profile_phase r) > profile_phase_code Phase_Recenter \<or>
      approach_branch_code (lr_approach_branch r) > approach_branch_code Branch_FromNegative \<or>
      motor_mode_code (ev_requested_motor_mode (lr_command r)) > motor_mode_code Mode_Brake \<or>
      motor_mode_code (ev_applied_motor_mode (lr_command r)) > motor_mode_code Mode_Brake \<or>
      guard_state_code (lr_guard_state r) > guard_state_code Guard_Abort \<or>
      abort_reason_code (lr_abort_reason r) > abort_reason_code Abort_StageError \<or>
      lr_qualification r > 2 \<or> \<not> knownRunKind (lr_run_kind r))"

definition decodeRecord :: "bool \<Rightarrow> u8 list \<Rightarrow> decode_error + log_record" where
  "decodeRecord on_board data =
     (if length data < kRecordBytes then Inl DE_Truncated
      else if length data > kRecordBytes then Inl DE_TrailingBytes
      else if \<not> magicMatches data kRecordMagic then Inl DE_Magic
      else if getU32_v5 data 316 \<noteq> table_crc32 (take 316 data) 0 then Inl DE_Crc
      else if data ! 119 \<noteq> 0 \<or> data ! 131 \<noteq> 0 then Inl DE_Reserved
      else if data ! 118 > 1 then Inl DE_Enum
      else case get_rate data of None \<Rightarrow> Inl DE_Invariant
      | Some rate \<Rightarrow> (case get_samples data [0..<kMaximumEncoderSamplesPerEpoch] (get_block data) of
          Inl e \<Rightarrow> Inl e
        | Inr block \<Rightarrow> (let r = get_record data rate block in
            if lr_zero_reference_kind r \<noteq> Zero_Common \<and> lr_zero_reference_kind r \<noteq> Zero_M0 then Inl DE_Enum
            else if unknown_enum r then Inl DE_Enum
            else if hasError (validateRecord on_board r) then Inl DE_Invariant
            else Inr r)))"

section \<open>Footer\<close>

definition footer_ok :: "log_footer \<Rightarrow> bool" where
  "footer_ok f = (knownCompletion (lf_completion f) \<and> knownUnsupported (lf_unsupported_reason f) \<and>
     validFooterState (lf_completion f) (lf_rate_supported f) (lf_unsupported_reason f) \<and>
     footerFieldsValid f \<and>
     \<not> (lf_completion f = Done_Unsupported \<and> \<not> hasUnsupportedEvidence f))"

definition footer_counters :: "sampler_statistics \<Rightarrow> u64 list" where
  "footer_counters st =
     [ss_trigger_coalesced_or_missed st, ss_pre_epoch_samples st, ss_repeated_samples st,
      ss_skipped_samples st, ss_invalid_samples st, ss_late_after_release st,
      ss_startup_incomplete_epochs st, ss_steady_state_incomplete_epochs st,
      ss_consumer_deadline_misses st, ss_raw_queue_overflows st, ss_writer_queue_overflows st]"

definition footer_bytes :: "log_footer \<Rightarrow> u8 list" where
  "footer_bytes f =
     (let st = lf_statistics f; counters = footer_counters st;
          d = replicate kFooterBytes 0;
          d = copyFixed d 0 kFooterMagic;
          d = putU16_v5 d 8 kCharSchemaVersion;
          d = putU16_v5 d 10 (of_nat kFooterBytes);
          d = d[12 := completion_code_code (lf_completion f)];
          d = d[13 := if lf_rate_supported f then 1 else 0];
          d = d[14 := unsupported_reason_code (lf_unsupported_reason f)];
          d = putU64 d 16 (lf_total_records f);
          d = putU64 d 24 (lf_first_sequence f);
          d = putU64 d 32 (lf_last_sequence f);
          d = foldl (\<lambda>d index. putU64 d (40 + index * 8) (counters ! index)) d [0..<11];
          d = putU64 d 128 (ss_encoder_transport_errors st);
          d = putU64 d 136 (ss_encoder_status_faults st);
          d = putU64 d 144 (ss_vbus_invalid_samples st);
          d = putI32 d 152 (ss_first_error st);
          d = putU32_v5 d 156 (lf_qualification_valid_epochs f);
          d = putU32_v5 d 160 (lf_qualification_total_epochs f);
          d = putU32_v5 d 164 (lf_shutdown_step_mask f) in
      putU32_v5 d 168 (lf_file_crc32 f))"

definition encodeFooter :: "log_footer \<Rightarrow> u8 list option" where
  "encodeFooter f =
     (if \<not> footer_ok f then None
      else let d = footer_bytes f in Some (putU32_v5 d 188 (table_crc32 (take 188 d) 0)))"

definition get_statistics :: "u8 list \<Rightarrow> sampler_statistics" where
  "get_statistics data = statistics_init\<lparr>ss_trigger_coalesced_or_missed := getU64 data 40,
     ss_pre_epoch_samples := getU64 data 48, ss_repeated_samples := getU64 data 56,
     ss_skipped_samples := getU64 data 64, ss_invalid_samples := getU64 data 72,
     ss_late_after_release := getU64 data 80, ss_startup_incomplete_epochs := getU64 data 88,
     ss_steady_state_incomplete_epochs := getU64 data 96, ss_consumer_deadline_misses := getU64 data 104,
     ss_raw_queue_overflows := getU64 data 112, ss_writer_queue_overflows := getU64 data 120,
     ss_encoder_transport_errors := getU64 data 128, ss_encoder_status_faults := getU64 data 136,
     ss_vbus_invalid_samples := getU64 data 144, ss_first_error := getI32 data 152\<rparr>"

definition decodeFooter :: "u8 list \<Rightarrow> decode_error + log_footer" where
  "decodeFooter data =
     (if length data < kFooterBytes then Inl DE_Truncated
      else if length data > kFooterBytes then Inl DE_TrailingBytes
      else if \<not> magicMatches data kFooterMagic then Inl DE_Magic
      else if getU16_v5 data 8 \<noteq> kCharSchemaVersion then Inl DE_Schema
      else if getU16_v5 data 10 \<noteq> of_nat kFooterBytes then Inl DE_Size
      else if getU32_v5 data 188 \<noteq> table_crc32 (take 188 data) 0 then Inl DE_Crc
      else if data ! 13 > 1 \<or> data ! 15 \<noteq> 0 \<or> \<not> allZero_at data 172 16 then Inl DE_Reserved
      else let f = \<lparr>lf_completion = completion_code_cast (data ! 12), lf_rate_supported = (data ! 13 = 1),
             lf_unsupported_reason = unsupported_reason_cast (data ! 14),
             lf_total_records = getU64 data 16, lf_first_sequence = getU64 data 24,
             lf_last_sequence = getU64 data 32, lf_statistics = get_statistics data,
             lf_qualification_valid_epochs = getU32_v5 data 156,
             lf_qualification_total_epochs = getU32_v5 data 160,
             lf_shutdown_step_mask = getU32_v5 data 164, lf_file_crc32 = getU32_v5 data 168\<rparr> in
        if \<not> footer_ok f then Inl DE_Enum else Inr f)"

end
