(* ===== verification/Capture_Roundtrip.thy ===== *)
theory Capture_Roundtrip
  imports Capture_Codec
begin

text \<open>
  What is encoded is read back: the header and the footer as they are but for the counters that are
  not transmitted, the record but for the fields the decoder derives. The table-driven checksum is
  the bitwise one, and it may be computed in parts.
\<close>

section \<open>Slices of a buffer\<close>

definition slice :: "nat \<Rightarrow> nat \<Rightarrow> u8 list \<Rightarrow> u8 list" where
  "slice off n d = take n (drop off d)"

lemma slice_update: "k < off \<or> off + n \<le> k \<Longrightarrow> slice off n (d[k := x]) = slice off n d"
  by (auto simp: slice_def drop_update_swap take_update_cancel)

lemma length_put_word [simp]: "length (put_word n d off v) = length d"
  by (induction n) (simp_all add: put_word_def)

lemma put_word_Suc: "put_word (Suc n) d off v = (put_word n d off v)[off + n := byte_at n v]"
  by (simp add: put_word_def)

lemma slice_put_other: "off + n \<le> o' \<or> o' + m \<le> off \<Longrightarrow> slice o' m (put_word n d off v) = slice o' m d"
proof (induction n)
  case (Suc n)
  then show ?case by (auto simp: put_word_Suc slice_update)
qed (simp add: put_word_def)

lemma nth_put_other: "off + n \<le> k \<or> k < off \<Longrightarrow> put_word n d off v ! k = d ! k"
proof (induction n)
  case (Suc n)
  then show ?case by (auto simp: put_word_Suc)
qed (simp add: put_word_def)

lemma nth_put_same: "off + n \<le> length d \<Longrightarrow> i < n \<Longrightarrow> put_word n d off v ! (off + i) = byte_at i v"
proof (induction n)
  case (Suc n)
  then show ?case by (cases "i = n") (simp_all add: put_word_Suc)
qed simp

lemma nth_slice: "i < n \<Longrightarrow> off + n \<le> length d \<Longrightarrow> slice off n d ! i = d ! (off + i)"
  by (simp add: slice_def)

lemma length_slice: "off + n \<le> length d \<Longrightarrow> length (slice off n d) = n"
  by (simp add: slice_def)

lemma nth_le_bytes: "i < n \<Longrightarrow> le n v ! i = byte_at i v"
  by (simp add: le_def)

lemma slice_put_same: "off + n \<le> length d \<Longrightarrow> slice off n (put_word n d off v) = le n v"
  by (rule nth_equalityI) (simp_all add: length_slice nth_slice nth_put_same nth_le_bytes)

lemma slice_copy_same: "off + n \<le> length d \<Longrightarrow> length xs = n \<Longrightarrow> slice off n (copyFixed d off xs) = xs"
  by (simp add: slice_def copyFixed_def)

lemma length_copy [simp]: "off + length xs \<le> length d \<Longrightarrow> length (copyFixed d off xs) = length d"
  by (simp add: copyFixed_def)

lemma nth_copy_other: "off + length xs \<le> length d \<Longrightarrow> off + length xs \<le> k \<or> k < off \<Longrightarrow> copyFixed d off xs ! k = d ! k"
  by (cases "off = length d") (auto simp: copyFixed_def nth_append min_def)

lemma slice_copy_other:
  assumes "off + length xs \<le> length d" "off + length xs \<le> o' \<or> o' + m \<le> off" "o' + m \<le> length d"
  shows "slice o' m (copyFixed d off xs) = slice o' m d"
  using assms by (intro nth_equalityI) (auto simp: length_slice nth_slice nth_copy_other)

lemma slice_zeros: "off + n \<le> k \<Longrightarrow> slice off n (replicate k 0) = replicate n 0"
  by (simp add: slice_def)

text \<open>A word that was put is read back.\<close>

lemma get_word_bytes:
  assumes "\<And>i. i < n \<Longrightarrow> d ! (off + i) = byte_at i (v :: 'a::len word)"
  shows "(get_word n d off :: 'a word) = take_bit (8 * n) v"
proof -
  have "k \<le> n \<Longrightarrow> foldl (\<lambda>v i. v OR push_bit (8 * i) (ucast (d ! (off + i)))) 0 [0..<k] = or_bytes k v" for k
    using assms by (induction k) simp_all
  then show ?thesis by (simp add: get_word_def or_bytes_take_bit)
qed

lemma get_of_slice:
  assumes "slice off n d = le n (v :: 'a::len word)" "LENGTH('a) \<le> 8 * n"
  shows "(get_word n d off :: 'a word) = v"
proof -
  have "length (slice off n d) = n" using assms(1) by (simp add: le_def)
  then have len: "n = 0 \<or> off + n \<le> length d" by (auto simp: slice_def)
  have "d ! (off + i) = byte_at i v" if "i < n" for i
    using that len nth_slice[of i n off d] assms(1) by (auto simp: nth_le_bytes)
  from get_word_bytes[of n d off v, OF this] show ?thesis by (simp add: take_bit_word_all assms(2))
qed

lemma get_words:
  "slice off 2 d = le 2 (v2 :: u16) \<Longrightarrow> getU16_v5 d off = v2"
  "slice off 4 d = le 4 (v4 :: u32) \<Longrightarrow> getU32_v5 d off = v4"
  "slice off 8 d = le 8 (v8 :: u64) \<Longrightarrow> getU64 d off = v8"
  "slice off 4 d = le 4 (v4 :: u32) \<Longrightarrow> getF32 d off = v4"
  by (simp_all add: getU16_v5_def getU32_v5_def getU64_def getF32_def get_of_slice)

text \<open>Signed fields within their range.\<close>

definition fits32 :: "int \<Rightarrow> bool" where "fits32 v \<longleftrightarrow> - (2 ^ 31) \<le> v \<and> v < 2 ^ 31"
definition fits16 :: "int \<Rightarrow> bool" where "fits16 v \<longleftrightarrow> - (2 ^ 15) \<le> v \<and> v < 2 ^ 15"

lemma sint_fits: "fits32 v \<Longrightarrow> sint (word_of_int v :: u32) = v" "fits16 v \<Longrightarrow> sint (word_of_int v :: u16) = v"
  by (simp_all add: fits32_def fits16_def sint_sbintrunc' signed_take_bit_int_eq_self)

lemma get_ints:
  "slice off 4 d = le 4 (word_of_int v :: u32) \<Longrightarrow> fits32 v \<Longrightarrow> getI32 d off = v"
  "slice off 2 d = le 2 (word_of_int v :: u16) \<Longrightarrow> fits16 v \<Longrightarrow> getI16 d off = v"
  using get_words(1,2) by (simp_all add: getI32_def getI16_def sint_fits)

lemmas put_defs = putU16_v5_def putI16_def putU32_v5_def putI32_def putU64_def putF32_def
lemmas field_rules = slice_put_same slice_put_other slice_update slice_copy_same slice_copy_other slice_zeros
  nth_put_other nth_copy_other

section \<open>The header\<close>

definition typed_header :: "log_header \<Rightarrow> bool" where
  "typed_header h \<longleftrightarrow> length (lh_session_id h) = 32 \<and> length (lh_firmware_sha h) = 40 \<and>
     length (lh_avi_esp_libs_sha h) = 40 \<and> length (lh_board_build_id h) = 64"

lemma magic_lengths [simp]: "length kHeaderMagic = 8" "length kRecordMagic = 4" "length kFooterMagic = 8"
  by (simp_all add: kHeaderMagic_def kRecordMagic_def kFooterMagic_def)

lemma header_fields:
  assumes "typed_header h"
  shows "length (header_bytes h) = 256" "slice 0 8 (header_bytes h) = kHeaderMagic"
    "slice 8 2 (header_bytes h) = le 2 kCharSchemaVersion"
    "slice 10 2 (header_bytes h) = le 2 (of_nat kHeaderBytes :: u16)"
    "slice 12 2 (header_bytes h) = le 2 (of_nat kRecordBytes :: u16)"
    "slice 14 2 (header_bytes h) = le 2 (of_nat kFooterBytes :: u16)"
    "header_bytes h ! 16 = assembly_stage_code (lh_stage h)" "header_bytes h ! 17 = 0"
    "slice 18 2 (header_bytes h) = le 2 (ucast kConsumerRateHz :: u16)"
    "slice 20 4 (header_bytes h) = le 4 (encoder_rate_code (lh_encoder_rate h))"
    "slice 24 4 (header_bytes h) = le 4 kProfileContractVersion"
    "slice 28 4 (header_bytes h) = le 4 (lh_profile_seed h)"
    "slice 32 4 (header_bytes h) = le 4 (lh_pwm_frequency_hz h)"
    "slice 36 4 (header_bytes h) = le 4 (lh_reset_reason h)"
    "slice 40 4 (header_bytes h) = le 4 (lh_total_reduction h)"
    "slice 44 4 (header_bytes h) = le 4 (lh_physical_limit_deg h)"
    "slice 48 4 (header_bytes h) = le 4 (lh_routine_guard_deg h)"
    "slice 52 4 (header_bytes h) = le 4 (lh_hard_abort_deg h)"
    "slice 56 4 (header_bytes h) = le 4 (lh_backlash_full_width_deg h)"
    "slice 60 4 (header_bytes h) = replicate 4 0"
    "slice 64 8 (header_bytes h) = le 8 (lh_epoch_zero_timestamp_us h)"
    "slice 72 32 (header_bytes h) = lh_session_id h" "slice 104 40 (header_bytes h) = lh_firmware_sha h"
    "slice 144 40 (header_bytes h) = lh_avi_esp_libs_sha h" "slice 184 64 (header_bytes h) = lh_board_build_id h"
    "slice 248 4 (header_bytes h) = le 4 (if lh_run_kind h = Run_RateCheck then 1 else 2 :: u32)"
  using assms by (simp_all add: header_bytes_def Let_def put_defs field_rules typed_header_def kHeaderBytes_def)

text \<open>The codes of enumerators are read back.\<close>

lemma stage_cast: "isKnownStage s \<Longrightarrow> assembly_stage_cast (assembly_stage_code s) = s"
  by (auto simp: isKnownStage_def assembly_stage_cast_def)

lemma rate_cast: "isSupportedEncoderRate r \<Longrightarrow> encoder_rate_cast (encoder_rate_code r) = r"
  by (cases r) (auto simp: isSupportedEncoderRate_def encoder_rate_cast_def)

text \<open>A buffer closed by its checksum.\<close>

definition closed_by :: "u8 list \<Rightarrow> nat \<Rightarrow> u8 list" where
  "closed_by d off = putU32_v5 d off (table_crc32 (take off d) 0)"

lemma closed_facts:
  assumes "length d = n + 4"
  shows "length (closed_by d n) = n + 4" "off + m \<le> n \<Longrightarrow> slice off m (closed_by d n) = slice off m d"
    "k < n \<Longrightarrow> closed_by d n ! k = d ! k"
    "getU32_v5 (closed_by d n) n = table_crc32 (take n (closed_by d n)) 0"
proof -
  have "take n (closed_by d n) = take n d" using slice_put_other[of n 4 0 n] by (simp add: closed_by_def putU32_v5_def slice_def)
  then show "getU32_v5 (closed_by d n) n = table_crc32 (take n (closed_by d n)) 0"
    using assms by (simp add: closed_by_def putU32_v5_def get_words slice_put_same)
qed (simp_all add: closed_by_def putU32_v5_def slice_put_other nth_put_other assms)

lemma magic_slice: "slice 0 (length magic) d = magic \<Longrightarrow> magicMatches d magic"
  by (simp add: magicMatches_def slice_def)

lemma zero_slice: "slice off n d = replicate n 0 \<Longrightarrow> allZero_at d off n"
  by (simp add: allZero_at_def slice_def list_all_iff in_set_replicate)

lemma copied_slice: "copied n d off = slice off n d"
  by (simp add: copied_def slice_def)

lemma header_roundtrip:
  assumes "typed_header h" "encodeHeader h = Some d"
  shows "decodeHeader d = Inr h \<and> length d = 256"
proof -
  have ok: "header_ok h" "knownRunKind (lh_run_kind h)" and d: "d = closed_by (header_bytes h) 252"
    using assms(2) by (auto simp: encodeHeader_def closed_by_def Let_def split: if_splits)
  note f = header_fields[OF assms(1)]
  have l: "length (header_bytes h) = 252 + 4" using f(1) by simp
  note c = closed_facts[OF l, folded d]
  have s: "slice o' m d = slice o' m (header_bytes h)" if "o' + m \<le> 252" for o' m using c(2)[OF that] .
  have z: "allZero_at d 60 4" "magicMatches d kHeaderMagic" "d ! 17 = 0"
    using f(2,8,20) s[of 60 4] s[of 0 8] c(3)[of 17] by (simp_all add: zero_slice magic_slice)
  have w: "getU16_v5 d 8 = kCharSchemaVersion" "getU16_v5 d 10 = of_nat kHeaderBytes" "getU16_v5 d 12 = of_nat kRecordBytes"
      "getU16_v5 d 14 = of_nat kFooterBytes" "getU16_v5 d 18 = ucast kConsumerRateHz" "getU32_v5 d 24 = kProfileContractVersion"
      "getU32_v5 d 20 = encoder_rate_code (lh_encoder_rate h)" "getU32_v5 d 28 = lh_profile_seed h"
      "getU32_v5 d 32 = lh_pwm_frequency_hz h" "getU32_v5 d 36 = lh_reset_reason h" "getU64 d 64 = lh_epoch_zero_timestamp_us h"
      "getU32_v5 d 248 = (if lh_run_kind h = Run_RateCheck then 1 else 2)"
    using f s by (simp_all add: get_words)
  have g: "getF32 d 40 = lh_total_reduction h" "getF32 d 44 = lh_physical_limit_deg h" "getF32 d 48 = lh_routine_guard_deg h"
      "getF32 d 52 = lh_hard_abort_deg h" "getF32 d 56 = lh_backlash_full_width_deg h"
    using f s by (simp_all add: get_words)
  have b: "copied 32 d 72 = lh_session_id h" "copied 40 d 104 = lh_firmware_sha h" "copied 40 d 144 = lh_avi_esp_libs_sha h"
      "copied 64 d 184 = lh_board_build_id h" "d ! 16 = assembly_stage_code (lh_stage h)"
    using f s c(3)[of 16] by (simp_all add: copied_slice)
  have e: "assembly_stage_cast (assembly_stage_code (lh_stage h)) = lh_stage h"
      "encoder_rate_cast (encoder_rate_code (lh_encoder_rate h)) = lh_encoder_rate h"
    using ok by (auto simp: header_ok_def stage_cast rate_cast)
  have k: "lh_run_kind h = Run_RateCheck \<or> lh_run_kind h = Run_Full" using ok(2) by (simp add: knownRunKind_def)
  have len: "length d = 256" using c(1) by simp
  have rate: "ucast (ucast kConsumerRateHz :: u16) = kConsumerRateHz" by (simp add: kConsumerRateHz_def)
  have kind: "(if (if lh_run_kind h = Run_RateCheck then 1 else 2 :: u32) = 1 then Run_RateCheck else Run_Full) = lh_run_kind h"
    using k by auto
  have whole: "\<lparr>lh_stage = lh_stage h, lh_encoder_rate = lh_encoder_rate h, lh_run_kind = lh_run_kind h,
      lh_profile_seed = lh_profile_seed h, lh_pwm_frequency_hz = lh_pwm_frequency_hz h, lh_reset_reason = lh_reset_reason h,
      lh_total_reduction = lh_total_reduction h, lh_physical_limit_deg = lh_physical_limit_deg h,
      lh_routine_guard_deg = lh_routine_guard_deg h, lh_hard_abort_deg = lh_hard_abort_deg h,
      lh_backlash_full_width_deg = lh_backlash_full_width_deg h, lh_epoch_zero_timestamp_us = lh_epoch_zero_timestamp_us h,
      lh_session_id = lh_session_id h, lh_firmware_sha = lh_firmware_sha h, lh_avi_esp_libs_sha = lh_avi_esp_libs_sha h,
      lh_board_build_id = lh_board_build_id h\<rparr> = h"
    by (cases h) simp
  have "decodeHeader d = Inr h"
    unfolding decodeHeader_def Let_def w g b e kind whole using z c(4) ok len by (simp add: kHeaderBytes_def rate)
  then show ?thesis using len by simp
qed

section \<open>The footer\<close>

definition typed_footer :: "log_footer \<Rightarrow> bool" where
  "typed_footer f \<longleftrightarrow> fits32 (ss_first_error (lf_statistics f)) \<and> (\<forall>v. lf_unsupported_reason f \<noteq> Unsup_other v)"

text \<open>Three counters are not transmitted.\<close>

definition footer_view :: "log_footer \<Rightarrow> log_footer" where
  "footer_view f = f\<lparr>lf_statistics := (lf_statistics f)\<lparr>ss_released_epochs := 0, ss_incomplete_epochs := 0,
     ss_bucket_collisions := 0\<rparr>\<rparr>"

lemma eleven: "[0..<11] = [0, 1, 2, 3, 4, 5, 6, 7, 8, 9, 10]"
  by code_simp

lemma footer_fields:
  "length (footer_bytes f) = 192" "slice 0 8 (footer_bytes f) = kFooterMagic"
  "slice 8 2 (footer_bytes f) = le 2 kCharSchemaVersion"
  "slice 10 2 (footer_bytes f) = le 2 (of_nat kFooterBytes :: u16)"
  "footer_bytes f ! 12 = completion_code_code (lf_completion f)"
  "footer_bytes f ! 13 = (if lf_rate_supported f then 1 else 0)"
  "footer_bytes f ! 14 = unsupported_reason_code (lf_unsupported_reason f)" "footer_bytes f ! 15 = 0"
  "slice 16 8 (footer_bytes f) = le 8 (lf_total_records f)"
  "slice 24 8 (footer_bytes f) = le 8 (lf_first_sequence f)"
  "slice 32 8 (footer_bytes f) = le 8 (lf_last_sequence f)"
  "slice 152 4 (footer_bytes f) = le 4 (word_of_int (ss_first_error (lf_statistics f)) :: u32)"
  "slice 156 4 (footer_bytes f) = le 4 (lf_qualification_valid_epochs f)"
  "slice 160 4 (footer_bytes f) = le 4 (lf_qualification_total_epochs f)"
  "slice 164 4 (footer_bytes f) = le 4 (lf_shutdown_step_mask f)"
  "slice 168 4 (footer_bytes f) = le 4 (lf_file_crc32 f)"
  "slice 172 16 (footer_bytes f) = replicate 16 0"
  by (simp_all add: footer_bytes_def Let_def put_defs field_rules kFooterBytes_def footer_counters_def eleven)

lemma footer_counter_fields:
  "slice 40 8 (footer_bytes f) = le 8 (ss_trigger_coalesced_or_missed (lf_statistics f))"
  "slice 48 8 (footer_bytes f) = le 8 (ss_pre_epoch_samples (lf_statistics f))"
  "slice 56 8 (footer_bytes f) = le 8 (ss_repeated_samples (lf_statistics f))"
  "slice 64 8 (footer_bytes f) = le 8 (ss_skipped_samples (lf_statistics f))"
  "slice 72 8 (footer_bytes f) = le 8 (ss_invalid_samples (lf_statistics f))"
  "slice 80 8 (footer_bytes f) = le 8 (ss_late_after_release (lf_statistics f))"
  "slice 88 8 (footer_bytes f) = le 8 (ss_startup_incomplete_epochs (lf_statistics f))"
  "slice 96 8 (footer_bytes f) = le 8 (ss_steady_state_incomplete_epochs (lf_statistics f))"
  "slice 104 8 (footer_bytes f) = le 8 (ss_consumer_deadline_misses (lf_statistics f))"
  "slice 112 8 (footer_bytes f) = le 8 (ss_raw_queue_overflows (lf_statistics f))"
  "slice 120 8 (footer_bytes f) = le 8 (ss_writer_queue_overflows (lf_statistics f))"
  "slice 128 8 (footer_bytes f) = le 8 (ss_encoder_transport_errors (lf_statistics f))"
  "slice 136 8 (footer_bytes f) = le 8 (ss_encoder_status_faults (lf_statistics f))"
  "slice 144 8 (footer_bytes f) = le 8 (ss_vbus_invalid_samples (lf_statistics f))"
  by (simp_all add: footer_bytes_def Let_def put_defs field_rules kFooterBytes_def footer_counters_def eleven)

lemma completion_cast: "knownCompletion c \<Longrightarrow> completion_code_cast (completion_code_code c) = c"
  by (cases c) (simp_all add: completion_code_cast_def)

lemma unsupported_cast: "(\<forall>v. u \<noteq> Unsup_other v) \<Longrightarrow> unsupported_reason_cast (unsupported_reason_code u) = u"
  by (cases u) (simp_all add: unsupported_reason_cast_def)

text \<open>
  The footer the decoder builds; the code then checks it again. The check may fail on it, because
  the evidence of a queue overflow may be the counter that is not transmitted.
\<close>

lemma footer_decoded:
  assumes "typed_footer f" "encodeFooter f = Some d"
  shows "decodeFooter d = (if footer_ok (footer_view f) then Inr (footer_view f) else Inl DE_Enum) \<and> length d = 192"
proof -
  have ok: "footer_ok f" and d: "d = closed_by (footer_bytes f) 188"
    using assms(2) by (auto simp: encodeFooter_def closed_by_def Let_def split: if_splits)
  note f = footer_fields[of f] and g = footer_counter_fields[of f]
  have l: "length (footer_bytes f) = 188 + 4" using f(1) by simp
  note c = closed_facts[OF l, folded d]
  have s: "slice o' m d = slice o' m (footer_bytes f)" if "o' + m \<le> 188" for o' m using c(2)[OF that] .
  have z: "allZero_at d 172 16" "magicMatches d kFooterMagic" "d ! 15 = 0" "d ! 12 = completion_code_code (lf_completion f)"
      "d ! 13 = (if lf_rate_supported f then 1 else 0)" "d ! 14 = unsupported_reason_code (lf_unsupported_reason f)"
    using f s[of 172 16] s[of 0 8] c(3) by (simp_all add: zero_slice magic_slice)
  have w: "getU16_v5 d 8 = kCharSchemaVersion" "getU16_v5 d 10 = of_nat kFooterBytes" "getU64 d 16 = lf_total_records f"
      "getU64 d 24 = lf_first_sequence f" "getU64 d 32 = lf_last_sequence f" "getI32 d 152 = ss_first_error (lf_statistics f)"
      "getU32_v5 d 156 = lf_qualification_valid_epochs f" "getU32_v5 d 160 = lf_qualification_total_epochs f"
      "getU32_v5 d 164 = lf_shutdown_step_mask f" "getU32_v5 d 168 = lf_file_crc32 f"
    using f s assms(1) by (simp_all add: get_words get_ints typed_footer_def)
  have u: "getU64 d 40 = ss_trigger_coalesced_or_missed (lf_statistics f)" "getU64 d 48 = ss_pre_epoch_samples (lf_statistics f)"
      "getU64 d 56 = ss_repeated_samples (lf_statistics f)" "getU64 d 64 = ss_skipped_samples (lf_statistics f)"
      "getU64 d 72 = ss_invalid_samples (lf_statistics f)" "getU64 d 80 = ss_late_after_release (lf_statistics f)"
      "getU64 d 88 = ss_startup_incomplete_epochs (lf_statistics f)" "getU64 d 96 = ss_steady_state_incomplete_epochs (lf_statistics f)"
      "getU64 d 104 = ss_consumer_deadline_misses (lf_statistics f)" "getU64 d 112 = ss_raw_queue_overflows (lf_statistics f)"
      "getU64 d 120 = ss_writer_queue_overflows (lf_statistics f)" "getU64 d 128 = ss_encoder_transport_errors (lf_statistics f)"
      "getU64 d 136 = ss_encoder_status_faults (lf_statistics f)" "getU64 d 144 = ss_vbus_invalid_samples (lf_statistics f)"
    using g s by (simp_all add: get_words)
  have st: "get_statistics d = (lf_statistics f)\<lparr>ss_released_epochs := 0, ss_incomplete_epochs := 0, ss_bucket_collisions := 0\<rparr>"
    unfolding get_statistics_def u w by (cases "lf_statistics f") (simp add: statistics_init_def)
  have e: "completion_code_cast (d ! 12) = lf_completion f" "unsupported_reason_cast (d ! 14) = lf_unsupported_reason f"
    using ok assms(1) z by (auto simp: footer_ok_def completion_cast typed_footer_def unsupported_cast)
  have bool: "(d ! 13 = 1) = lf_rate_supported f" "\<not> d ! 13 > 1" using z(5) by simp_all
  have whole: "\<lparr>lf_completion = lf_completion f, lf_rate_supported = lf_rate_supported f,
      lf_unsupported_reason = lf_unsupported_reason f, lf_total_records = lf_total_records f,
      lf_first_sequence = lf_first_sequence f, lf_last_sequence = lf_last_sequence f,
      lf_statistics = (lf_statistics f)\<lparr>ss_released_epochs := 0, ss_incomplete_epochs := 0, ss_bucket_collisions := 0\<rparr>,
      lf_qualification_valid_epochs = lf_qualification_valid_epochs f,
      lf_qualification_total_epochs = lf_qualification_total_epochs f,
      lf_shutdown_step_mask = lf_shutdown_step_mask f, lf_file_crc32 = lf_file_crc32 f\<rparr> = footer_view f"
    by (cases f) (simp add: footer_view_def)
  have len: "length d = 192" using c(1) by simp
  have "decodeFooter d = (if footer_ok (footer_view f) then Inr (footer_view f) else Inl DE_Enum)"
    unfolding decodeFooter_def Let_def w st e bool(1) whole using z(1-3) bool(2) c(4) len by (simp add: kFooterBytes_def)
  then show ?thesis using len by simp
qed

lemma view_ok:
  assumes "footer_ok f" "\<not> (lf_completion f = Done_Unsupported \<and> lf_unsupported_reason f = Unsup_QueueOverflow)"
  shows "footer_ok (footer_view f)"
  using assms by (auto simp: footer_ok_def footer_view_def footerFieldsValid_def fatalAcquisitionCountersAreZero_def
      hasUnsupportedEvidence_def Let_def split: unsupported_reason.splits)

lemma footer_roundtrip:
  assumes "typed_footer f" "encodeFooter f = Some d"
    and "\<not> (lf_completion f = Done_Unsupported \<and> lf_unsupported_reason f = Unsup_QueueOverflow)"
  shows "decodeFooter d = Inr (footer_view f) \<and> length d = 192"
proof -
  have "footer_ok f" using assms(2) by (auto simp: encodeFooter_def split: if_splits)
  then show ?thesis using footer_decoded[OF assms(1,2)] view_ok[OF _ assms(3)] by simp
qed

section \<open>The record\<close>

text \<open>The fields before the samples.\<close>

lemma head_length [simp]: "length (record_head r) = 320"
  by (simp add: record_head_def Let_def put_defs kRecordBytes_def)

lemma head_words:
  "slice 0 4 (record_head r) = kRecordMagic" "slice 4 8 (record_head r) = le 8 (lr_sequence r)"
  "slice 12 8 (record_head r) = le 8 (eb_epoch_index (lr_encoder r))"
  "slice 20 8 (record_head r) = le 8 (eb_epoch_start_timestamp_us (lr_encoder r))"
  "slice 28 8 (record_head r) = le 8 (eb_epoch_end_timestamp_us (lr_encoder r))"
  "slice 36 8 (record_head r) = le 8 (eb_release_timestamp_us (lr_encoder r))"
  "slice 44 8 (record_head r) = le 8 (ev_command_apply_timestamp_us (lr_command r))"
  "slice 52 8 (record_head r) = le 8 (ev_logger_snapshot_timestamp_us (lr_command r))"
  "slice 60 8 (record_head r) = le 8 (pe_capture_timestamp_us (lr_power r))"
  "slice 68 8 (record_head r) = le 8 (ev_command_generation (lr_command r))"
  "slice 76 4 (record_head r) = le 4 (lr_episode_index r)"
  "slice 108 2 (record_head r) = le 2 (pe_motor_millivolts (lr_power r))"
  "slice 110 2 (record_head r) = le 2 (abort_reason_code (lr_abort_reason r))"
  "slice 126 2 (record_head r) = le 2 (eb_flags (lr_encoder r))"
  by (simp_all add: record_head_def Let_def put_defs field_rules kRecordBytes_def split del: if_split)

lemma head_ints:
  "slice 80 4 (record_head r) = le 4 (word_of_int (lr_target_fin_angle_millideg r) :: u32)"
  "slice 84 4 (record_head r) = le 4 (word_of_int (lr_fin_angle_millideg r) :: u32)"
  "slice 88 4 (record_head r) = le 4 (word_of_int (lr_fin_rate_millideg_s r) :: u32)"
  "slice 92 4 (record_head r) = le 4 (word_of_int (eb_consumer_lateness_us (lr_encoder r)) :: u32)"
  "slice 96 4 (record_head r) = le 4 (word_of_int (ev_apply_result_code (lr_command r)) :: u32)"
  "slice 100 4 (record_head r) = le 4 (word_of_int (pe_read_result (lr_power r)) :: u32)"
  "slice 104 2 (record_head r) = le 2 (word_of_int (ev_requested_command_permille (lr_command r)) :: u16)"
  "slice 106 2 (record_head r) = le 2 (word_of_int (ev_applied_command_permille (lr_command r)) :: u16)"
  "slice 132 4 (record_head r) = le 4 (word_of_int (lr_first_error r) :: u32)"
  by (simp_all add: record_head_def Let_def put_defs field_rules kRecordBytes_def split del: if_split)

lemma head_bytes:
  "record_head r ! 112 = assembly_stage_code (lr_stage r)"
  "record_head r ! 113 = profile_phase_code (lr_profile_phase r)"
  "record_head r ! 114 = approach_branch_code (lr_approach_branch r)"
  "record_head r ! 115 = motor_mode_code (ev_requested_motor_mode (lr_command r))"
  "record_head r ! 116 = motor_mode_code (ev_applied_motor_mode (lr_command r))"
  "record_head r ! 117 = guard_state_code (lr_guard_state r)"
  "record_head r ! 118 = (if pe_valid (lr_power r) then 1 else 0)" "record_head r ! 119 = 0"
  "record_head r ! 120 = eb_expected_sample_count (lr_encoder r)"
  "record_head r ! 121 = eb_actual_sample_count (lr_encoder r)"
  "record_head r ! 122 = eb_valid_sample_count (lr_encoder r)"
  "record_head r ! 123 = eb_repeated_sample_count (lr_encoder r)"
  "record_head r ! 124 = eb_skipped_sample_count (lr_encoder r)"
  "record_head r ! 125 = eb_invalid_sample_count (lr_encoder r)"
  "record_head r ! 128 = zero_reference_kind_code (lr_zero_reference_kind r)"
  "record_head r ! 129 = run_kind_code (lr_run_kind r)" "record_head r ! 130 = lr_qualification r"
  "record_head r ! 131 = 0"
  by (simp_all add: record_head_def Let_def put_defs field_rules kRecordBytes_def split del: if_split)

lemma head_zeros: "136 \<le> o' \<Longrightarrow> o' + m \<le> 320 \<Longrightarrow> slice o' m (record_head r) = replicate m 0"
  by (simp add: record_head_def Let_def put_defs field_rules kRecordBytes_def split del: if_split)

text \<open>The samples behind the head: each slot is written alone.\<close>

lemma sample_length [simp]: "length (put_sample d slot x) = length d"
  by (simp add: put_sample_def Let_def put_defs)

lemma sample_other: "o' + m \<le> 136 + slot * 36 \<or> 136 + slot * 36 + 36 \<le> o' \<Longrightarrow> slice o' m (put_sample d slot x) = slice o' m d"
  by (auto simp: put_sample_def Let_def put_defs slice_put_other slice_update)

lemma sample_nth: "k < 136 + slot * 36 \<Longrightarrow> put_sample d slot x ! k = d ! k"
  by (simp add: put_sample_def Let_def put_defs nth_put_other)

lemma sample_fields:
  assumes "136 + slot * 36 + 36 \<le> length d" "off = 136 + slot * 36"
  shows "slice off 8 (put_sample d slot x) = le 8 (rs_generation x)"
    "slice (off + 8) 8 (put_sample d slot x) = le 8 (rs_scheduled_timestamp_us x)"
    "slice (off + 16) 8 (put_sample d slot x) = le 8 (rs_capture_timestamp_us x)"
    "slice (off + 24) 2 (put_sample d slot x) = le 2 (rs_angle_raw x)"
    "slice (off + 26) 2 (put_sample d slot x) = le 2 (rs_diagnostic_flags x)"
    "slice (off + 28) 4 (put_sample d slot x) = le 4 (word_of_int (rs_read_result_code x) :: u32)"
    "put_sample d slot x ! (off + 32) = (if rs_valid x then 1 else 0)"
    "put_sample d slot x ! (off + 33) = of_nat slot"
    "slice (off + 34) 2 (put_sample d slot x) = slice (off + 34) 2 d"
  using assms by (simp_all add: put_sample_def Let_def put_defs field_rules split del: if_split)

definition slot_written :: "u8 list \<Rightarrow> nat \<Rightarrow> raw_sample \<Rightarrow> bool" where
  "slot_written d slot x \<longleftrightarrow> (let off = 136 + slot * 36 in
     slice off 8 d = le 8 (rs_generation x) \<and> slice (off + 8) 8 d = le 8 (rs_scheduled_timestamp_us x) \<and>
     slice (off + 16) 8 d = le 8 (rs_capture_timestamp_us x) \<and> slice (off + 24) 2 d = le 2 (rs_angle_raw x) \<and>
     slice (off + 26) 2 d = le 2 (rs_diagnostic_flags x) \<and>
     slice (off + 28) 4 d = le 4 (word_of_int (rs_read_result_code x) :: u32) \<and>
     slice (off + 32) 1 d = [if rs_valid x then 1 else 0] \<and> slice (off + 33) 1 d = [of_nat slot] \<and>
     slice (off + 34) 2 d = replicate 2 0)"

definition slot_blank :: "u8 list \<Rightarrow> nat \<Rightarrow> bool" where
  "slot_blank d slot \<longleftrightarrow> slice (136 + slot * 36) 36 d = replicate 36 0"

lemma slice_one: "k < length d \<Longrightarrow> slice k 1 d = [d ! k]"
  by (simp add: slice_def take_Suc hd_drop_conv_nth)

lemma slice_part: "slice (off + i) m d = take m (drop i (slice off n d))" if "i + m \<le> n"
  using that by (simp add: slice_def drop_take min_def add.commute)

lemma written_here:
  assumes "length d = 320" "slot < 5" "slot_blank d slot"
  shows "slot_written (put_sample d slot x) slot x"
proof -
  let ?off = "136 + slot * 36"
  have room: "?off + 36 \<le> length d" using assms(1,2) by simp
  have "slice (?off + 34) 2 d = replicate 2 0"
    using assms(3) slice_part[of 34 2 36 ?off d] by (simp add: slot_blank_def)
  then show ?thesis
    using sample_fields[OF room refl, of x] slice_one[of "?off + 32" "put_sample d slot x"]
      slice_one[of "?off + 33" "put_sample d slot x"] room
    by (simp add: slot_written_def Let_def)
qed

lemma written_other:
  assumes "k \<noteq> slot"
  shows "slot_written (put_sample d k y) slot x \<longleftrightarrow> slot_written d slot x"
    "slot_blank (put_sample d k y) slot \<longleftrightarrow> slot_blank d slot"
proof -
  have "slice o' m (put_sample d k y) = slice o' m d"
    if "136 + slot * 36 \<le> o'" "o' + m \<le> 136 + slot * 36 + 36" for o' m
    using that assms by (intro sample_other) linarith
  then show "slot_written (put_sample d k y) slot x \<longleftrightarrow> slot_written d slot x"
    "slot_blank (put_sample d k y) slot \<longleftrightarrow> slot_blank d slot"
    by (simp_all add: slot_written_def slot_blank_def Let_def)
qed

lemma samples_written:
  fixes b :: epoch_block
  assumes "length d = 320" "\<forall>s < 5. slot_blank d s" "k \<le> 5"
  defines "D \<equiv> foldl (\<lambda>d slot. if \<not> eb_sample_present b ! slot then d else put_sample d slot (eb_samples b ! slot)) d [0..<k]"
  shows "length D = 320 \<and> (\<forall>o' m. o' + m \<le> 136 \<longrightarrow> slice o' m D = slice o' m d) \<and> (\<forall>i < 136. D ! i = d ! i) \<and>
    (\<forall>s < 5. if s < k \<and> eb_sample_present b ! s then slot_written D s (eb_samples b ! s) else slot_blank D s)"
  using assms(3) unfolding D_def
proof (induction k)
  case 0
  then show ?case using assms(1,2) by simp
next
  case (Suc k)
  define E where "E = foldl (\<lambda>d slot. if \<not> eb_sample_present b ! slot then d else put_sample d slot (eb_samples b ! slot)) d [0..<k]"
  have IH: "length E = 320" "\<forall>o' m. o' + m \<le> 136 \<longrightarrow> slice o' m E = slice o' m d" "\<forall>i < 136. E ! i = d ! i"
    "\<forall>s < 5. if s < k \<and> eb_sample_present b ! s then slot_written E s (eb_samples b ! s) else slot_blank E s"
    using Suc unfolding E_def by simp_all
  show ?case
  proof (cases "eb_sample_present b ! k")
    case True
    have "slot_blank E k" using IH(4) Suc.prems by (metis Suc_le_eq less_irrefl)
    then have here: "slot_written (put_sample E k (eb_samples b ! k)) k (eb_samples b ! k)"
      using written_here IH(1) Suc.prems by simp
    have "if s < Suc k \<and> eb_sample_present b ! s then slot_written (put_sample E k (eb_samples b ! k)) s (eb_samples b ! s)
        else slot_blank (put_sample E k (eb_samples b ! k)) s" if "s < 5" for s
      using here IH(4) that True written_other[of k s E "eb_samples b ! k"] by (cases "s = k") (auto simp: less_Suc_eq)
    moreover have "\<forall>o' m. o' + m \<le> 136 \<longrightarrow> slice o' m (put_sample E k (eb_samples b ! k)) = slice o' m d"
      using IH(2) by (simp add: sample_other)
    moreover have "\<forall>i < 136. put_sample E k (eb_samples b ! k) ! i = d ! i"
      using IH(3) by (simp add: sample_nth)
    ultimately show ?thesis using True IH(1) by (simp add: E_def[symmetric])
  next
    case False
    have "if s < Suc k \<and> eb_sample_present b ! s then slot_written E s (eb_samples b ! s) else slot_blank E s" if "s < 5" for s
      using IH(4) that False by (cases "s = k") (auto simp: less_Suc_eq)
    then show ?thesis using False IH(1-3) by (simp add: E_def[symmetric])
  qed
qed

text \<open>What the decoder sees in a written or a blank slot.\<close>

lemma blank_skipped:
  assumes "slot_blank d s"
  shows "allZero_at d (136 + s * 36 + 34) 2" "allZero_at d (136 + s * 36) 36"
proof -
  have b: "slice (136 + s * 36) 36 d = replicate 36 0" using assms by (simp add: slot_blank_def)
  then show "allZero_at d (136 + s * 36) 36" by (rule zero_slice)
  have "slice (136 + s * 36 + 34) 2 d = replicate 2 0" using slice_part[of 34 2 36 "136 + s * 36" d] b by simp
  then show "allZero_at d (136 + s * 36 + 34) 2" by (rule zero_slice)
qed

lemma byte_of_slice: "slice k 1 d = [v] \<Longrightarrow> d ! k = v"
  by (cases "drop k d") (auto simp: slice_def dest!: nth_via_drop)

lemma written_read:
  assumes "slot_written d s x" "fits32 (rs_read_result_code x)" "unat (rs_slot x) = s" "s < 5" "rs_generation x \<noteq> 0"
  defines "off \<equiv> 136 + s * 36"
  shows "allZero_at d (off + 34) 2" "\<not> allZero_at d off 36" "\<not> d ! (off + 32) > 1" "unat (d ! (off + 33)) = s" "get_sample d off = x"
proof -
  note w = assms(1)[unfolded slot_written_def Let_def, folded off_def]
  show "allZero_at d (off + 34) 2" using w by (simp add: zero_slice)
  show "\<not> allZero_at d off 36"
  proof
    assume "allZero_at d off 36"
    then have "\<forall>b \<in> set (take 36 (drop off d)). b = 0" by (simp add: allZero_at_def list_all_iff)
    moreover have "set (slice off 8 d) \<subseteq> set (take 36 (drop off d))"
      unfolding slice_def using set_take_subset_set_take[of 8 36 "drop off d"] by simp
    ultimately have "\<forall>b \<in> set (le 8 (rs_generation x)). b = 0" 
      unfolding conjunct1[OF w, symmetric] by blast
    then have "byte_at i (rs_generation x) = byte_at i (0 :: u64)" if "i < 8" for i
      using that by (simp add: le_def byte_at_def)
    then have "le 8 (rs_generation x) = le 8 (0 :: u64)" by (simp add: le_def)
    then have "slice off 8 d = le 8 (0 :: u64)" using conjunct1[OF w] by simp
    then show False using get_words(3)[OF conjunct1[OF w]] get_words(3)[of off d 0] assms(5) by simp
  qed
  have v: "d ! (off + 32) = (if rs_valid x then 1 else 0)" "d ! (off + 33) = of_nat s"
    using w byte_of_slice by blast+
  then show "\<not> d ! (off + 32) > 1" "unat (d ! (off + 33)) = s"
    using assms(4) by (simp_all add: unat_of_nat)
  have "of_nat s = rs_slot x" using assms(3) by auto
  then show "get_sample d off = x"
    using w v assms(2) by (cases x) (simp add: get_sample_def get_words get_ints)
qed

text \<open>Decoding the slots of a buffer.\<close>

lemma get_samples_fold:
  assumes "\<And>s. s \<in> set slots \<Longrightarrow> P s \<Longrightarrow> allZero_at d (136 + s * 36 + 34) 2 \<and> \<not> allZero_at d (136 + s * 36) 36 \<and>
      \<not> d ! (136 + s * 36 + 32) > 1 \<and> unat (d ! (136 + s * 36 + 33)) = s \<and> get_sample d (136 + s * 36) = X s"
    and "\<And>s. s \<in> set slots \<Longrightarrow> \<not> P s \<Longrightarrow> allZero_at d (136 + s * 36 + 34) 2 \<and> allZero_at d (136 + s * 36) 36"
  shows "get_samples d slots b = Inr (foldl (\<lambda>b s. if P s then b\<lparr>eb_samples := (eb_samples b)[s := X s],
     eb_sample_present := (eb_sample_present b)[s := True]\<rparr> else b) b slots)"
  using assms
proof (induction slots arbitrary: b)
  case (Cons s slots)
  show ?case
  proof (cases "P s")
    case True
    then show ?thesis using Cons.prems(1)[of s] Cons.IH[OF Cons.prems] by (simp add: Let_def)
  next
    case False
    then show ?thesis using Cons.prems(2)[of s] Cons.IH[OF Cons.prems] by (simp add: Let_def)
  qed
qed simp

lemma present_fold:
  fixes b :: epoch_block
  assumes "eb_samples b = replicate 5 raw_sample_init" "eb_sample_present b = replicate 5 False" "k \<le> 5"
  shows "foldl (\<lambda>b s. if P s then b\<lparr>eb_samples := (eb_samples b)[s := X s],
     eb_sample_present := (eb_sample_present b)[s := True]\<rparr> else b) b [0..<k] =
     b\<lparr>eb_samples := map (\<lambda>s. if s < k \<and> P s then X s else raw_sample_init) [0..<5],
       eb_sample_present := map (\<lambda>s. s < k \<and> P s) [0..<5]\<rparr>"
  using assms(3)
proof (induction k)
  case 0
  have "map (\<lambda>s. raw_sample_init) [0..<5] = eb_samples b" "map (\<lambda>s. False) [0..<5] = eb_sample_present b"
    unfolding assms(1,2) by (simp_all add: map_replicate_const)
  then show ?case by simp
next
  case (Suc k)
  have k: "k < 5" "k \<le> 5" using Suc.prems by simp_all
  have step: "foldl F b [0..<Suc k] = F (foldl F b [0..<k]) k" for F :: "epoch_block \<Rightarrow> nat \<Rightarrow> epoch_block" by simp
  show ?case
  proof (cases "P k")
    case True
    have maps: "map (\<lambda>s. if s < Suc k \<and> P s then X s else raw_sample_init) [0..<5] =
        (map (\<lambda>s. if s < k \<and> P s then X s else raw_sample_init) [0..<5])[k := X k]"
      "map (\<lambda>s. s < Suc k \<and> P s) [0..<5] = (map (\<lambda>s. s < k \<and> P s) [0..<5])[k := True]"
      using True k by (auto intro!: nth_equalityI simp: nth_list_update less_Suc_eq split: if_splits)
    show ?thesis unfolding step Suc.IH[OF k(2)] maps by (simp add: True)
  next
    case False
    then have same: "s < Suc k \<and> P s \<longleftrightarrow> s < k \<and> P s" for s by (auto simp: less_Suc_eq)
    show ?thesis unfolding step Suc.IH[OF k(2)] same by (simp add: False)
  qed
qed

section \<open>The record comes back\<close>

definition typed_record :: "log_record \<Rightarrow> bool" where
  "typed_record r \<longleftrightarrow> (\<forall>v. lr_profile_phase r \<noteq> Phase_other v) \<and> (\<forall>v. lr_approach_branch r \<noteq> Branch_other v) \<and>
     (\<forall>v. lr_guard_state r \<noteq> Guard_other v) \<and> (\<forall>v. lr_abort_reason r \<noteq> Abort_other v) \<and>
     (\<forall>v. lr_zero_reference_kind r \<noteq> Zero_other v) \<and>
     fits32 (lr_target_fin_angle_millideg r) \<and> fits32 (lr_fin_angle_millideg r) \<and> fits32 (lr_fin_rate_millideg_s r) \<and>
     fits32 (lr_first_error r) \<and> fits32 (eb_consumer_lateness_us (lr_encoder r)) \<and>
     fits32 (ev_apply_result_code (lr_command r)) \<and> fits32 (pe_read_result (lr_power r)) \<and>
     (\<forall>x \<in> set (eb_samples (lr_encoder r)). fits32 (rs_read_result_code x)) \<and>
     length (eb_samples (lr_encoder r)) = 5 \<and> length (eb_sample_present (lr_encoder r)) = 5"

text \<open>Not transmitted: the observed count (equal to the actual one), the mean, and absent samples.\<close>

definition block_view :: "epoch_block \<Rightarrow> epoch_block" where
  "block_view b = b\<lparr>eb_observed_sample_count := eb_actual_sample_count b, eb_mean_unwrapped_counts_q16 := 0,
     eb_samples := map (\<lambda>s. if eb_sample_present b ! s then eb_samples b ! s else raw_sample_init) [0..<5]\<rparr>"

definition record_view :: "log_record \<Rightarrow> log_record" where
  "record_view r = r\<lparr>lr_encoder := block_view (lr_encoder r)\<rparr>"

lemma view_validates: "validateRecordStrict (record_view r) = validateRecordStrict r"
proof -
  let ?b = "lr_encoder r"
  have last: "last_of (block_view ?b) k = last_of ?b k" if "k \<le> 5" for k
    using that
  proof (induction k)
    case (Suc k)
    then show ?case by (simp add: last_of_def block_view_def Let_def)
  qed (simp add: last_of_def)
  have out: "sample_outside (block_view ?b) s p x = sample_outside ?b s p x" for s p x
    by (simp add: sample_outside_def block_view_def slot_bound_def Let_def)
  have p: "eb_sample_present (block_view ?b) = eb_sample_present ?b"
    and x: "s < 5 \<Longrightarrow> eb_sample_present ?b ! s \<Longrightarrow> eb_samples (block_view ?b) ! s = eb_samples ?b ! s" for s
    by (simp_all add: block_view_def)
  have slots: "outside_before (block_view ?b) 5 = outside_before ?b 5" "diagnostic_before (block_view ?b) 5 = diagnostic_before ?b 5"
    unfolding outside_before_def diagnostic_before_def p by (metis out last x less_imp_le)+
  have b: "counts_consistent (block_view ?b) = counts_consistent ?b" "bad_epoch_times (block_view ?b) = bad_epoch_times ?b"
      "complete_block (block_view ?b) = complete_block ?b" "release_late (block_view ?b) = release_late ?b"
      "has_flag (block_view ?b) = has_flag ?b" "eb_expected_sample_count (block_view ?b) = eb_expected_sample_count ?b"
    by (simp_all add: counts_consistent_def bad_epoch_times_def complete_block_def release_late_def has_flag_def
        block_view_def fun_eq_iff)
  have c: "command_applied_this_epoch (record_view r) = command_applied_this_epoch r"
      "command_apply_target_late (record_view r) = command_apply_target_late r"
      "command_apply_hard_deadline_missed (record_view r) = command_apply_hard_deadline_missed r"
    by (simp_all add: command_applied_this_epoch_def command_apply_target_late_def
        command_apply_hard_deadline_missed_def record_view_def block_view_def)
  have f: "lr_encoder (record_view r) = block_view ?b" "lr_command (record_view r) = lr_command r"
      "lr_power (record_view r) = lr_power r" "lr_run_kind (record_view r) = lr_run_kind r"
      "lr_first_error (record_view r) = lr_first_error r" "lr_abort_reason (record_view r) = lr_abort_reason r"
    by (simp_all add: record_view_def)
  have g: "eb_flags (block_view ?b) = eb_flags ?b" "eb_epoch_index (block_view ?b) = eb_epoch_index ?b"
      "eb_repeated_sample_count (block_view ?b) = eb_repeated_sample_count ?b"
      "eb_skipped_sample_count (block_view ?b) = eb_skipped_sample_count ?b"
      "eb_invalid_sample_count (block_view ?b) = eb_invalid_sample_count ?b"
      "eb_release_timestamp_us (block_view ?b) = eb_release_timestamp_us ?b"
    by (simp_all add: block_view_def)
  have r: "bad_flags (record_view r) = bad_flags r" "bad_command_times (record_view r) = bad_command_times r"
      "late_without_abort (record_view r) = late_without_abort r" "bad_power (record_view r) = bad_power r"
    unfolding bad_flags_def bad_command_times_def late_without_abort_def legacy_command_deadline_def bad_power_def Let_def
      f g b c by (rule refl)+
  show ?thesis
    unfolding validateRecordStrict_def Let_def check_samples_err f slots b r by (simp add: record_view_def)
qed

text \<open>The codes of the record's enumerations.\<close>

lemma enum_casts:
  "(\<forall>v. p \<noteq> Phase_other v) \<Longrightarrow> profile_phase_cast (profile_phase_code p) = p"
  "(\<forall>v. b \<noteq> Branch_other v) \<Longrightarrow> approach_branch_cast (approach_branch_code b) = b"
  "(\<forall>v. g \<noteq> Guard_other v) \<Longrightarrow> guard_state_cast (guard_state_code g) = g"
  "(\<forall>v. a \<noteq> Abort_other v) \<Longrightarrow> abort_reason_cast (abort_reason_code a) = a"
  "(\<forall>v. z \<noteq> Zero_other v) \<Longrightarrow> zero_reference_kind_cast (zero_reference_kind_code z) = z"
  "motorModeMatchesCommand c m \<Longrightarrow> motor_mode_cast (motor_mode_code m) = m"
  "knownRunKind k \<Longrightarrow> run_kind_cast (run_kind_code k) = k"
proof -
  show "(\<forall>v. p \<noteq> Phase_other v) \<Longrightarrow> profile_phase_cast (profile_phase_code p) = p"
    by (cases p) (simp_all add: profile_phase_cast_def)
  show "(\<forall>v. a \<noteq> Abort_other v) \<Longrightarrow> abort_reason_cast (abort_reason_code a) = a"
    by (cases a) (simp_all add: abort_reason_cast_def)
  show "(\<forall>v. b \<noteq> Branch_other v) \<Longrightarrow> approach_branch_cast (approach_branch_code b) = b"
    by (cases b) (simp_all add: approach_branch_cast_def)
  show "(\<forall>v. g \<noteq> Guard_other v) \<Longrightarrow> guard_state_cast (guard_state_code g) = g"
    by (cases g) (simp_all add: guard_state_cast_def)
  show "(\<forall>v. z \<noteq> Zero_other v) \<Longrightarrow> zero_reference_kind_cast (zero_reference_kind_code z) = z"
    by (cases z) (simp_all add: zero_reference_kind_cast_def)
  show "motorModeMatchesCommand c m \<Longrightarrow> motor_mode_cast (motor_mode_code m) = m"
    by (cases m) (simp_all add: motor_mode_cast_def)
  show "knownRunKind k \<Longrightarrow> run_kind_cast (run_kind_code k) = k"
    by (auto simp: knownRunKind_def run_kind_cast_def)
qed

lemma rate_of_count:
  "isSupportedEncoderRate rate \<Longrightarrow> d ! 120 = expectedSamplesPerEpoch rate \<Longrightarrow> get_rate d = Some rate"
  by (cases rate) (simp_all add: isSupportedEncoderRate_def get_rate_def)

lemma mode_known: "motorModeMatchesCommand c m \<Longrightarrow> motor_mode_code m \<le> motor_mode_code Mode_Brake"
  by (cases m) simp_all

lemma record_buffer:
  assumes typed: "typed_record r" and valid: "validateRecordStrict r = 0"
  defines "d \<equiv> closed_by (put_samples (lr_encoder r) (record_head r)) 316"
  shows "length d = 320" "getU32_v5 d 316 = table_crc32 (take 316 d) 0"
    "o' + m \<le> 136 \<Longrightarrow> slice o' m d = slice o' m (record_head r)" "i < 136 \<Longrightarrow> d ! i = record_head r ! i"
    "get_samples d [0..<5] b0 = Inr (foldl (\<lambda>b s. if eb_sample_present (lr_encoder r) ! s
       then b\<lparr>eb_samples := (eb_samples b)[s := eb_samples (lr_encoder r) ! s],
         eb_sample_present := (eb_sample_present b)[s := True]\<rparr> else b) b0 [0..<5])"
proof -
  let ?b = "lr_encoder r" and ?E = "put_samples (lr_encoder r) (record_head r)"
  have "slot_blank (record_head r) s" if "s < 5" for s using that head_zeros[of "136 + s * 36" 36 r] by (simp add: slot_blank_def)
  then have E: "length ?E = 320" "\<And>o' m. o' + m \<le> 136 \<Longrightarrow> slice o' m ?E = slice o' m (record_head r)"
    "\<And>i. i < 136 \<Longrightarrow> ?E ! i = record_head r ! i"
    "\<And>s. s < 5 \<Longrightarrow> if eb_sample_present ?b ! s then slot_written ?E s (eb_samples ?b ! s) else slot_blank ?E s"
    using samples_written[of "record_head r" 5 ?b] by (simp_all add: put_samples_def kMaximumEncoderSamplesPerEpoch_def)
  have l: "length ?E = 316 + 4" using E(1) by simp
  note c = closed_facts[OF l, folded d_def]
  show "length d = 320" "getU32_v5 d 316 = table_crc32 (take 316 d) 0" using c(1,4) by simp_all
  show "o' + m \<le> 136 \<Longrightarrow> slice o' m d = slice o' m (record_head r)" using c(2)[of o' m] E(2) by simp
  show "i < 136 \<Longrightarrow> d ! i = record_head r ! i" using c(3)[of i] E(3) by simp
  have same: "slot_written d s x = slot_written ?E s x" "slot_blank d s = slot_blank ?E s" if "s < 5" for s x
    using that c(2) by (simp_all add: slot_written_def slot_blank_def Let_def)
  have present: "allZero_at d (136 + s * 36 + 34) 2 \<and> \<not> allZero_at d (136 + s * 36) 36 \<and> \<not> d ! (136 + s * 36 + 32) > 1 \<and>
      unat (d ! (136 + s * 36 + 33)) = s \<and> get_sample d (136 + s * 36) = eb_samples ?b ! s"
    if s: "s < 5" "eb_sample_present ?b ! s" for s
  proof -
    have "\<not> sample_outside ?b s (last_of ?b s) (eb_samples ?b ! s)"
      using valid s unfolding validate_zero outside_before_def by blast
    then have x: "unat (rs_slot (eb_samples ?b ! s)) = s" "rs_generation (eb_samples ?b ! s) \<noteq> 0"
      by (auto simp: sample_outside_def)
    have "fits32 (rs_read_result_code (eb_samples ?b ! s))" using typed s(1) by (auto simp: typed_record_def)
    moreover have "slot_written d s (eb_samples ?b ! s)" using E(4)[OF s(1)] s same(1)[OF s(1)] by simp
    ultimately show ?thesis using written_read[of d s "eb_samples ?b ! s"] x s(1) by simp
  qed
  have blank: "allZero_at d (136 + s * 36 + 34) 2 \<and> allZero_at d (136 + s * 36) 36" if "s < 5" "\<not> eb_sample_present ?b ! s" for s
    using E(4)[OF that(1)] that same(2)[OF that(1)] blank_skipped[of d s] by simp
  show "get_samples d [0..<5] b0 = Inr (foldl (\<lambda>b s. if eb_sample_present (lr_encoder r) ! s
       then b\<lparr>eb_samples := (eb_samples b)[s := eb_samples (lr_encoder r) ! s],
         eb_sample_present := (eb_sample_present b)[s := True]\<rparr> else b) b0 [0..<5])"
    by (rule get_samples_fold) (use present blank in auto)
qed

lemma record_roundtrip:
  assumes typed: "typed_record r" and valid: "validateRecordStrict r = 0" and enc: "encodeRecord on_board r = Some d"
  shows "decodeRecord on_board' d = Inr (record_view r) \<and> length d = 320"
proof -
  let ?b = "lr_encoder r"
  have d: "d = closed_by (put_samples ?b (record_head r)) 316"
    using enc by (auto simp: encodeRecord_def closed_by_def Let_def split: if_splits)
  note R = record_buffer[OF typed valid, folded d]
  note v = valid[unfolded validate_zero]
  have s: "slice o' m d = slice o' m (record_head r)" if "o' + m \<le> 136" for o' m using R(3)[OF that] .
  have magic: "magicMatches d kRecordMagic" using s[of 0 4] head_words(1)[of r] by (simp add: magic_slice)
  have n: "d ! 119 = 0" "d ! 131 = 0" "d ! 118 = (if pe_valid (lr_power r) then 1 else 0)" "d ! 112 = assembly_stage_code (lr_stage r)"
      "d ! 113 = profile_phase_code (lr_profile_phase r)" "d ! 114 = approach_branch_code (lr_approach_branch r)"
      "d ! 115 = motor_mode_code (ev_requested_motor_mode (lr_command r))"
      "d ! 116 = motor_mode_code (ev_applied_motor_mode (lr_command r))" "d ! 117 = guard_state_code (lr_guard_state r)"
      "d ! 120 = eb_expected_sample_count ?b" "d ! 121 = eb_actual_sample_count ?b" "d ! 122 = eb_valid_sample_count ?b"
      "d ! 123 = eb_repeated_sample_count ?b" "d ! 124 = eb_skipped_sample_count ?b" "d ! 125 = eb_invalid_sample_count ?b"
      "d ! 128 = zero_reference_kind_code (lr_zero_reference_kind r)" "d ! 129 = run_kind_code (lr_run_kind r)"
      "d ! 130 = lr_qualification r"
    using R(4) by (simp_all add: head_bytes)
  have w: "getU64 d 4 = lr_sequence r" "getU64 d 12 = eb_epoch_index ?b" "getU64 d 20 = eb_epoch_start_timestamp_us ?b"
      "getU64 d 28 = eb_epoch_end_timestamp_us ?b" "getU64 d 36 = eb_release_timestamp_us ?b"
      "getU64 d 44 = ev_command_apply_timestamp_us (lr_command r)" "getU64 d 52 = ev_logger_snapshot_timestamp_us (lr_command r)"
      "getU64 d 60 = pe_capture_timestamp_us (lr_power r)" "getU64 d 68 = ev_command_generation (lr_command r)"
      "getU32_v5 d 76 = lr_episode_index r" "getU16_v5 d 108 = pe_motor_millivolts (lr_power r)"
      "getU16_v5 d 110 = abort_reason_code (lr_abort_reason r)" "getU16_v5 d 126 = eb_flags ?b"
    using s by (simp_all add: get_words head_words)
  have "fits16 (ev_requested_command_permille (lr_command r))" "fits16 (ev_applied_command_permille (lr_command r))"
    using v by (auto simp: outside_permille_def fits16_def kMaximumCommandPermille_def)
  then have i: "getI32 d 80 = lr_target_fin_angle_millideg r" "getI32 d 84 = lr_fin_angle_millideg r"
      "getI32 d 88 = lr_fin_rate_millideg_s r" "getI32 d 92 = eb_consumer_lateness_us ?b"
      "getI32 d 96 = ev_apply_result_code (lr_command r)" "getI32 d 100 = pe_read_result (lr_power r)"
      "getI16 d 104 = ev_requested_command_permille (lr_command r)" "getI16 d 106 = ev_applied_command_permille (lr_command r)"
      "getI32 d 132 = lr_first_error r"
    using s typed by (simp_all add: get_ints head_ints typed_record_def)
  have casts: "profile_phase_cast (profile_phase_code (lr_profile_phase r)) = lr_profile_phase r"
      "approach_branch_cast (approach_branch_code (lr_approach_branch r)) = lr_approach_branch r"
      "guard_state_cast (guard_state_code (lr_guard_state r)) = lr_guard_state r"
      "abort_reason_cast (abort_reason_code (lr_abort_reason r)) = lr_abort_reason r"
      "zero_reference_kind_cast (zero_reference_kind_code (lr_zero_reference_kind r)) = lr_zero_reference_kind r"
    using typed unfolding typed_record_def by (blast intro: enum_casts)+
  have modes: "motor_mode_cast (motor_mode_code (ev_requested_motor_mode (lr_command r))) = ev_requested_motor_mode (lr_command r)"
      "motor_mode_cast (motor_mode_code (ev_applied_motor_mode (lr_command r))) = ev_applied_motor_mode (lr_command r)"
      "run_kind_cast (run_kind_code (lr_run_kind r)) = lr_run_kind r"
      "assembly_stage_cast (assembly_stage_code (lr_stage r)) = lr_stage r"
    using v by (blast intro: enum_casts stage_cast)+
  have rate: "get_rate d = Some (lr_encoder_rate r)" using rate_of_count[of _ d] v n(10) by simp
  have sel: "eb_valid_sample_count ?b + eb_invalid_sample_count ?b = eb_selected_sample_count ?b"
    using v unsigned_less[of "eb_selected_sample_count ?b", where ?'a = nat]
    by (simp add: counts_consistent_def word_unat_eq_iff unat_word_ariths)
  have cmd: "get_command d = lr_command r"
    unfolding get_command_def w n i modes by (cases "lr_command r") (simp add: evidence_init_def)
  have pow: "get_power d = lr_power r"
    unfolding get_power_def w n i by (cases "lr_power r") simp
  have blk: "get_samples d [0..<5] (get_block d) = Inr (block_view ?b)"
  proof -
    have init: "eb_samples (get_block d) = replicate 5 raw_sample_init" "eb_sample_present (get_block d) = replicate 5 False"
      by (simp_all add: get_block_def epoch_block_init_def)
    have "map (\<lambda>s. eb_sample_present ?b ! s) [0..<5] = eb_sample_present ?b"
      using typed map_nth[of "eb_sample_present ?b"] by (simp add: typed_record_def)
    moreover have "map (\<lambda>s. s < 5 \<and> eb_sample_present ?b ! s) [0..<5] = map (\<lambda>s. eb_sample_present ?b ! s) [0..<5]"
      "map (\<lambda>s. if s < 5 \<and> eb_sample_present ?b ! s then eb_samples ?b ! s else raw_sample_init) [0..<5] =
       map (\<lambda>s. if eb_sample_present ?b ! s then eb_samples ?b ! s else raw_sample_init) [0..<5]"
      by (auto intro!: map_cong)
    ultimately have maps: "map (\<lambda>s. s < 5 \<and> eb_sample_present ?b ! s) [0..<5] = eb_sample_present ?b"
      "map (\<lambda>s. if s < 5 \<and> eb_sample_present ?b ! s then eb_samples ?b ! s else raw_sample_init) [0..<5] =
       eb_samples (block_view ?b)"
      by (simp_all add: block_view_def)
    have "get_block d\<lparr>eb_samples := eb_samples (block_view ?b), eb_sample_present := eb_sample_present ?b\<rparr> = block_view ?b"
      unfolding get_block_def w n i sel by (cases ?b) (simp add: block_view_def epoch_block_init_def)
    then show ?thesis unfolding R(5) present_fold[OF init order_refl] maps by simp
  qed
  have rec: "get_record d (lr_encoder_rate r) (block_view ?b) = record_view r"
    unfolding get_record_def w n i casts modes cmd pow by (cases r) (simp add: record_view_def)
  have view: "hasError (validateRecord on_board' (record_view r)) = False"
    using valid by (simp add: validateRecord_def hasError_def view_validates)
  have "\<not> unknown_enum (record_view r)"
    using v mode_known by (auto simp: unknown_enum_def record_view_def knownPhase_def knownBranch_def knownGuard_def
        knownAbort_def not_less)
  moreover have "lr_zero_reference_kind r = Zero_Common \<or> lr_zero_reference_kind r = Zero_M0"
    using typed by (cases "lr_zero_reference_kind r") (auto simp: typed_record_def)
  moreover have "\<not> d ! 118 > 1" using n(3) by simp
  ultimately have "decodeRecord on_board' d = Inr (record_view r)"
    unfolding decodeRecord_def kMaximumEncoderSamplesPerEpoch_def rate blk option.case sum.case Let_def rec view
    using R(1,2) magic n(1,2) by (auto simp: kRecordBytes_def record_view_def)
  then show ?thesis using R(1) by simp
qed

section \<open>The checksum table\<close>

lemma entry_bit: "drop_bit 1 v XOR (0xEDB88320 AND (0 - (v AND 1))) = crc_bit v" for v :: u32
proof -
  have low: "v AND 1 = of_bool (bit v 0)"
    by (rule bit_word_eqI) (simp only: bit_and_iff bit_1_iff bit_of_bool_iff, auto)
  show ?thesis unfolding crc_bit_def low_bit low by (cases "bit v 0") simp_all
qed

lemma entry_is_step: "crc32TableEntry v = crc_step v"
proof -
  have "foldl (\<lambda>v _. drop_bit 1 v XOR (0xEDB88320 AND (0 - (v AND 1)))) v [0..<n] = (crc_bit ^^ n) v" for n
    unfolding entry_bit by (induction n) simp_all
  then show ?thesis by (simp only: crc32TableEntry_def crc_step_def)
qed

lemma split_low_byte: "x = push_bit 8 (drop_bit 8 x) XOR ucast (ucast x :: u8)" for x :: u32
  by (rule bit_word_eqI) (auto simp: bit_simps)

lemma table_step: "drop_bit 8 crc XOR kCrc32Table ! unat (ucast (crc XOR ucast byte) :: u8) = crc_byte crc byte"
proof -
  let ?x = "crc XOR ucast byte :: u32"
  have "unat (ucast ?x :: u8) < 256" using unsigned_less[of "ucast ?x :: u8", where ?'a = nat] by simp
  then have entry: "kCrc32Table ! unat (ucast ?x :: u8) = crc_step (ucast (ucast ?x :: u8))"
    by (simp add: kCrc32Table_def entry_is_step)
  have high: "drop_bit 8 ?x = drop_bit 8 crc" by (rule bit_word_eqI) (simp add: bit_simps)
  have "(crc_bit ^^ 8) (push_bit 8 (drop_bit 8 ?x)) = drop_bit 8 ?x"
    by (rule crc_pow_shift) (auto simp: bit_simps dest: bit_imp_le_length)
  then have "crc_step ?x = drop_bit 8 ?x XOR crc_step (ucast (ucast ?x :: u8))"
    by (subst split_low_byte[of ?x]) (simp add: crc_step_def crc_pow_xor)
  then show ?thesis unfolding entry high crc_byte_step by simp
qed

text \<open>The table-driven checksum of the capture format is the bitwise CRC-32 of the flight log, and
  computing it in parts, as the writer does for the whole file, gives the checksum of the whole.
\<close>

theorem crc_table_correct:
  "table_crc32 xs 0 = crc32 xs \<and> table_crc32 (xs @ ys) previous_crc = table_crc32 ys (table_crc32 xs previous_crc)"
proof -
  have ones: "(0xFFFFFFFF :: u32) = - 1" by simp
  have "table_crc32 xs 0 = crc32 xs"
    unfolding table_crc32_def table_step crc32_def ones by (simp only: bit.xor_one_right xor_self_eq) simp
  moreover have "(x XOR 0xFFFFFFFF) XOR 0xFFFFFFFF = (x :: u32)" for x
    unfolding ones by (simp only: bit.xor_one_right bit.double_compl)
  ultimately show ?thesis by (simp only: table_crc32_def table_step foldl_append)
qed

end
