(* ===== verification/Capture_Validation.thy ===== *)
theory Capture_Validation
  imports Capture_Roundtrip
begin

text \<open>
  \<open>characterization/log_format_v5.cpp\<close>, \<open>validateCapture\<close>: the check of a whole capture file. The local
  variables of the record loop are the record \<open>scan\<close>; one turn of the loop returns the error it
  stops with, or the variables after it. \<open>on_board\<close> selects the build, see \<open>validateRecord\<close>.
\<close>

section \<open>The loop variables\<close>

record capture_summary =
  cs_error :: "decode_error option"
  cs_records :: u64
  cs_first_sequence :: u64
  cs_last_sequence :: u64

record scan =
  sc_previous_sequence :: u64
  sc_previous_epoch :: u64
  sc_previous_raw_generation :: u64
  sc_previous_raw_scheduled :: u64
  sc_previous_raw_capture :: u64
  sc_previous_command :: command_evidence
  sc_repeated_total :: u64
  sc_skipped_total :: u64
  sc_invalid_total :: u64
  sc_late_flag_total :: u64
  sc_startup_total :: u64
  sc_steady_incomplete_total :: u64
  sc_deadline_total :: u64
  sc_vbus_invalid_total :: u64
  sc_raw_transport_errors :: u64
  sc_raw_status_errors :: u64
  sc_aggregate_valid_total :: u32
  sc_record_first_error :: int
  sc_phases_seen :: "bool list"
  sc_record_error_present :: bool
  sc_first_sequence :: u64

definition scan_init :: scan where
  "scan_init = \<lparr>sc_previous_sequence = 0, sc_previous_epoch = 0, sc_previous_raw_generation = 0,
     sc_previous_raw_scheduled = 0, sc_previous_raw_capture = 0, sc_previous_command = evidence_init,
     sc_repeated_total = 0, sc_skipped_total = 0, sc_invalid_total = 0, sc_late_flag_total = 0,
     sc_startup_total = 0, sc_steady_incomplete_total = 0, sc_deadline_total = 0,
     sc_vbus_invalid_total = 0, sc_raw_transport_errors = 0, sc_raw_status_errors = 0,
     sc_aggregate_valid_total = 0, sc_record_first_error = 0, sc_phases_seen = replicate 15 False,
     sc_record_error_present = False, sc_first_sequence = 0\<rparr>"

section \<open>One record\<close>

definition out_of_sequence :: "log_header \<Rightarrow> nat \<Rightarrow> scan \<Rightarrow> log_record \<Rightarrow> bool" where
  "out_of_sequence header index s r =
     (lr_stage r \<noteq> lh_stage header \<or> lr_encoder_rate r \<noteq> lh_encoder_rate header \<or>
      lr_run_kind r \<noteq> lh_run_kind header \<or>
      eb_epoch_start_timestamp_us (lr_encoder r) \<noteq>
        lh_epoch_zero_timestamp_us header + eb_epoch_index (lr_encoder r) * kEpochDurationUs \<or>
      index \<noteq> 0 \<and>
        (lr_sequence r \<noteq> sc_previous_sequence s + 1 \<or>
         eb_epoch_index (lr_encoder r) \<noteq> sc_previous_epoch s + 1 \<or>
         ev_command_generation (lr_command r) < ev_command_generation (sc_previous_command s)))"

definition not_a_rate_check :: "log_header \<Rightarrow> log_record \<Rightarrow> bool" where
  "not_a_rate_check header r =
     (lh_run_kind header = Run_RateCheck \<and>
      (lr_profile_phase r \<noteq> Phase_StationaryBaseline \<or> lr_episode_index r \<noteq> 1 \<or>
       lr_approach_branch r \<noteq> Branch_None))"

definition stable_command :: "command_evidence \<Rightarrow> command_evidence \<Rightarrow> bool" where
  "stable_command c p =
     (ev_requested_command_permille c = ev_requested_command_permille p \<and>
      ev_requested_motor_mode c = ev_requested_motor_mode p \<and>
      ev_applied_command_permille c = ev_applied_command_permille p \<and>
      ev_applied_motor_mode c = ev_applied_motor_mode p \<and>
      ev_apply_result_code c = ev_apply_result_code p \<and>
      ev_command_apply_timestamp_us c = ev_command_apply_timestamp_us p)"

definition stale_command :: "nat \<Rightarrow> command_evidence \<Rightarrow> log_record \<Rightarrow> bool" where
  "stale_command index p r =
     (let c = lr_command r in
      index \<noteq> 0 \<and> ev_command_generation c > ev_command_generation p \<and>
      (ev_command_apply_timestamp_us c \<le> ev_command_apply_timestamp_us p \<or>
       ev_command_apply_timestamp_us c < eb_epoch_start_timestamp_us (lr_encoder r)))"

fun scan_samples :: "epoch_block \<Rightarrow> nat list \<Rightarrow> scan \<Rightarrow> scan option" where
  "scan_samples block [] s = Some s"
| "scan_samples block (slot # slots) s =
     (if \<not> eb_sample_present block ! slot then scan_samples block slots s
      else let x = eb_samples block ! slot in
        if sc_previous_raw_generation s \<noteq> 0 \<and>
           (rs_generation x \<le> sc_previous_raw_generation s \<or>
            rs_scheduled_timestamp_us x \<le> sc_previous_raw_scheduled s \<or>
            rs_capture_timestamp_us x \<le> sc_previous_raw_capture s)
        then None
        else scan_samples block slots
          (s\<lparr>sc_previous_raw_generation := rs_generation x,
             sc_previous_raw_scheduled := rs_scheduled_timestamp_us x,
             sc_previous_raw_capture := rs_capture_timestamp_us x,
             sc_raw_transport_errors := sc_raw_transport_errors s + (if rs_read_result_code x \<noteq> 0 then 1 else 0),
             sc_raw_status_errors := sc_raw_status_errors s +
               (if rs_diagnostic_flags x AND 0x0038 \<noteq> 0 then 1 else 0)\<rparr>))"

definition count_record :: "nat \<Rightarrow> log_record \<Rightarrow> scan \<Rightarrow> scan" where
  "count_record index r s =
     (let b = lr_encoder r; c = lr_command r in
      s\<lparr>sc_repeated_total := sc_repeated_total s + ucast (eb_repeated_sample_count b),
        sc_skipped_total := sc_skipped_total s + ucast (eb_skipped_sample_count b),
        sc_invalid_total := sc_invalid_total s + ucast (eb_invalid_sample_count b),
        sc_late_flag_total := sc_late_flag_total s + of_bool (has_flag b EpochLate),
        sc_startup_total := sc_startup_total s + of_bool (has_flag b EpochStartup),
        sc_steady_incomplete_total := sc_steady_incomplete_total s +
          of_bool (has_flag b EpochIncomplete \<and> \<not> has_flag b EpochStartup),
        sc_deadline_total := sc_deadline_total s + of_bool (has_flag b EpochDeadline),
        sc_aggregate_valid_total := sc_aggregate_valid_total s + of_bool (has_flag b EpochAggregateValid),
        sc_vbus_invalid_total := sc_vbus_invalid_total s + of_bool (\<not> pe_valid (lr_power r)),
        sc_record_error_present := (sc_record_error_present s \<or> lr_abort_reason r \<noteq> Abort_None \<or>
          lr_first_error r \<noteq> 0 \<or> ev_apply_result_code c \<noteq> 0),
        sc_first_sequence := (if index = 0 then lr_sequence r else sc_first_sequence s),
        sc_previous_sequence := lr_sequence r, sc_previous_epoch := eb_epoch_index b,
        sc_previous_command := c\<rparr>)"

definition scan_record :: "log_header \<Rightarrow> nat \<Rightarrow> log_record \<Rightarrow> scan \<Rightarrow> decode_error + scan" where
  "scan_record header index r s =
     (if out_of_sequence header index s r then Inl DE_Sequence
      else if not_a_rate_check header r then Inl DE_Invariant
      else let s = s\<lparr>sc_phases_seen := (sc_phases_seen s)[unat (profile_phase_code (lr_profile_phase r)) := True]\<rparr> in
        if lr_first_error r \<noteq> 0 \<and> sc_record_first_error s \<noteq> 0 \<and> sc_record_first_error s \<noteq> lr_first_error r
        then Inl DE_Invariant
        else let s = (if lr_first_error r \<noteq> 0 \<and> sc_record_first_error s = 0
                      then s\<lparr>sc_record_first_error := lr_first_error r\<rparr> else s) in
          if index \<noteq> 0 \<and>
             ev_command_generation (lr_command r) = ev_command_generation (sc_previous_command s) \<and>
             \<not> stable_command (lr_command r) (sc_previous_command s)
          then Inl DE_Invariant
          else if stale_command index (sc_previous_command s) r then Inl DE_Invariant
          else (case scan_samples (lr_encoder r) [0..<kMaximumEncoderSamplesPerEpoch] s of
              None \<Rightarrow> Inl DE_Sequence
            | Some s \<Rightarrow> Inr (count_record index r s)))"

text \<open>The loop from a record index on.\<close>

fun scan_capture :: "bool \<Rightarrow> u8 list \<Rightarrow> log_header \<Rightarrow> nat list \<Rightarrow> scan \<Rightarrow> (decode_error \<times> scan) + scan" where
  "scan_capture on_board data header [] s = Inr s"
| "scan_capture on_board data header (index # rest) s =
     (case decodeRecord on_board (copied kRecordBytes data (kHeaderBytes + index * kRecordBytes)) of
        Inl e \<Rightarrow> Inl (e, s)
      | Inr r \<Rightarrow> (case scan_record header index r s of
          Inl e \<Rightarrow> Inl (e, s)
        | Inr s \<Rightarrow> scan_capture on_board data header rest s))"

section \<open>The footer against the records\<close>

definition footer_consistent :: "log_header \<Rightarrow> u64 \<Rightarrow> scan \<Rightarrow> log_footer \<Rightarrow> bool" where
  "footer_consistent header record_count s f =
     (let st = lf_statistics f; rate_check = (lh_run_kind header = Run_RateCheck);
          finished = (lf_completion f = Done_Normal \<or> lf_completion f = Done_Unsupported);
          unsupported = (lf_completion f = Done_Unsupported) in
      shutdownPrefix (lf_shutdown_step_mask f) \<and>
      (\<not> finished \<or> lf_shutdown_step_mask f = 0x3F) \<and>
      (\<not> unsupported \<or> rate_check) \<and> (\<not> unsupported \<or> hasUnsupportedEvidence f) \<and>
      (\<not> unsupported \<or> ss_vbus_invalid_samples st = 0) \<and>
      ss_repeated_samples st = sc_repeated_total s \<and> ss_skipped_samples st = sc_skipped_total s \<and>
      ss_invalid_samples st = sc_invalid_total s \<and> ss_late_after_release st \<ge> sc_late_flag_total s \<and>
      ss_startup_incomplete_epochs st = sc_startup_total s \<and>
      ss_steady_state_incomplete_epochs st = sc_steady_incomplete_total s \<and>
      ss_consumer_deadline_misses st \<ge> sc_deadline_total s \<and>
      ss_vbus_invalid_samples st \<ge> sc_vbus_invalid_total s \<and>
      ss_encoder_transport_errors st \<ge> sc_raw_transport_errors s \<and>
      ss_encoder_status_faults st \<ge> sc_raw_status_errors s \<and>
      (rate_check \<and> ucast (lf_qualification_total_epochs f) = record_count \<and>
         lf_qualification_valid_epochs f = sc_aggregate_valid_total s \<or>
       \<not> rate_check \<and> lf_qualification_total_epochs f = 0 \<and> lf_qualification_valid_epochs f = 0))"

definition fatal_for_normal :: "u64 \<Rightarrow> scan \<Rightarrow> log_footer \<Rightarrow> bool" where
  "fatal_for_normal record_count s f =
     (let st = lf_statistics f in
      record_count = 0 \<or> ss_first_error st \<noteq> 0 \<or> sc_record_error_present s \<or>
      ss_raw_queue_overflows st \<noteq> 0 \<or> ss_writer_queue_overflows st \<noteq> 0 \<or>
      ss_encoder_transport_errors st \<noteq> 0 \<or> ss_encoder_status_faults st \<noteq> 0 \<or>
      ss_vbus_invalid_samples st \<noteq> 0 \<or> ss_steady_state_incomplete_epochs st \<noteq> 0 \<or>
      ss_consumer_deadline_misses st \<noteq> 0)"

definition check_footer :: "u8 list \<Rightarrow> log_header \<Rightarrow> u64 \<Rightarrow> u64 \<Rightarrow> scan \<Rightarrow> log_footer \<Rightarrow> decode_error option" where
  "check_footer data header record_count last_sequence s f =
     (let rate_check = (lh_run_kind header = Run_RateCheck); footer_offset = length data - kFooterBytes in
      if lf_total_records f \<noteq> record_count \<or>
         record_count \<noteq> 0 \<and> (lf_first_sequence f \<noteq> sc_first_sequence s \<or> lf_last_sequence f \<noteq> last_sequence)
      then Some DE_Sequence
      else if \<not> footer_consistent header record_count s f then Some DE_Invariant
      else if lf_completion f = Done_Normal \<and> fatal_for_normal record_count s f then Some DE_Invariant
      else if lf_completion f = Done_Normal \<and> \<not> rate_check \<and> \<not> list_all id (tl (sc_phases_seen s))
      then Some DE_Invariant
      else if sc_record_first_error s \<noteq> 0 \<and> ss_first_error (lf_statistics f) \<noteq> sc_record_first_error s
      then Some DE_Invariant
      else if lf_file_crc32 f \<noteq> table_crc32 (take footer_offset data) 0 then Some DE_Crc
      else None)"

definition summary_of :: "decode_error option \<Rightarrow> u64 \<Rightarrow> u64 \<Rightarrow> u64 \<Rightarrow> capture_summary" where
  "summary_of error records first last_sequence =
     \<lparr>cs_error = error, cs_records = records, cs_first_sequence = first, cs_last_sequence = last_sequence\<rparr>"

definition validateCapture :: "bool \<Rightarrow> u8 list \<Rightarrow> capture_summary" where
  "validateCapture on_board data =
     (if length data < kHeaderBytes + kFooterBytes then summary_of (Some DE_Truncated) 0 0 0
      else let payload_size = length data - kHeaderBytes - kFooterBytes in
        if payload_size mod kRecordBytes \<noteq> 0 then summary_of (Some DE_TrailingBytes) 0 0 0
        else let count = payload_size div kRecordBytes; record_count = of_nat count in
          (case decodeHeader (copied kHeaderBytes data 0) of
            Inl e \<Rightarrow> summary_of (Some e) 0 0 0
          | Inr header \<Rightarrow>
            (case scan_capture on_board data header [0..<count] scan_init of
              Inl (e, s) \<Rightarrow> summary_of (Some e) 0 (sc_first_sequence s) 0
            | Inr s \<Rightarrow>
              (let last_sequence = (if count = 0 then 0 else sc_previous_sequence s) in
               (case decodeFooter (copied kFooterBytes data (kHeaderBytes + payload_size)) of
                  Inl e \<Rightarrow> summary_of (Some e) 0 (sc_first_sequence s) last_sequence
                | Inr footer \<Rightarrow>
                  (case check_footer data header record_count last_sequence s footer of
                     Some e \<Rightarrow> summary_of (Some e) 0 (sc_first_sequence s) last_sequence
                   | None \<Rightarrow> summary_of None record_count (sc_first_sequence s) last_sequence))))))"

section \<open>The loop over decoded records\<close>

text \<open>The loop without the decoding: what it computes from a list of records.\<close>

fun scan_list :: "log_header \<Rightarrow> nat \<Rightarrow> log_record list \<Rightarrow> scan \<Rightarrow> decode_error + scan" where
  "scan_list header index [] s = Inr s"
| "scan_list header index (r # rs) s =
     (case scan_record header index r s of Inl e \<Rightarrow> Inl e | Inr s \<Rightarrow> scan_list header (Suc index) rs s)"

definition record_bytes :: "u8 list \<Rightarrow> nat \<Rightarrow> u8 list" where
  "record_bytes data index = copied kRecordBytes data (kHeaderBytes + index * kRecordBytes)"

definition decodes_to :: "bool \<Rightarrow> u8 list \<Rightarrow> nat \<Rightarrow> log_record list \<Rightarrow> bool" where
  "decodes_to on_board data i rs \<longleftrightarrow> (\<forall>k < length rs. decodeRecord on_board (record_bytes data (i + k)) = Inr (rs ! k))"

lemma decodes_Cons:
  "decodes_to on_board data i (r # rs) \<longleftrightarrow>
     decodeRecord on_board (record_bytes data i) = Inr r \<and> decodes_to on_board data (Suc i) rs"
  unfolding decodes_to_def by (auto simp: less_Suc_eq_0_disj)

lemma scan_capture_list:
  "scan_capture on_board data header [i..<i + n] s = Inr s' \<longleftrightarrow>
     (\<exists>rs. length rs = n \<and> decodes_to on_board data i rs \<and> scan_list header i rs s = Inr s')"
proof (induction n arbitrary: i s)
  case 0
  show ?case by (auto simp: decodes_to_def)
next
  case (Suc n)
  have l: "[i..<i + Suc n] = i # [Suc i..<Suc i + n]" by (simp add: upt_conv_Cons)
  show ?case
  proof
    assume "scan_capture on_board data header [i..<i + Suc n] s = Inr s'"
    then obtain r s1 where r: "decodeRecord on_board (record_bytes data i) = Inr r" "scan_record header i r s = Inr s1"
        "scan_capture on_board data header [Suc i..<Suc i + n] s1 = Inr s'"
      unfolding l scan_capture.simps record_bytes_def[symmetric] by (simp split: sum.split_asm)
    from Suc.IH[THEN iffD1, OF r(3)] obtain rs where "length rs = n" "decodes_to on_board data (Suc i) rs"
        "scan_list header (Suc i) rs s1 = Inr s'" by blast
    then show "\<exists>rs. length rs = Suc n \<and> decodes_to on_board data i rs \<and> scan_list header i rs s = Inr s'"
      using r by (intro exI[of _ "r # rs"]) (simp add: decodes_Cons)
  next
    assume "\<exists>rs. length rs = Suc n \<and> decodes_to on_board data i rs \<and> scan_list header i rs s = Inr s'"
    then obtain r rs where r: "length rs = n" "decodes_to on_board data i (r # rs)" "scan_list header i (r # rs) s = Inr s'"
      by (metis length_Suc_conv)
    then obtain s1 where s1: "scan_record header i r s = Inr s1" "scan_list header (Suc i) rs s1 = Inr s'"
      by (simp split: sum.split_asm)
    have "scan_capture on_board data header [Suc i..<Suc i + n] s1 = Inr s'"
      using r s1 by (intro Suc.IH[THEN iffD2]) (auto simp: decodes_Cons)
    then show "scan_capture on_board data header [i..<i + Suc n] s = Inr s'"
      using r(2) s1 unfolding l scan_capture.simps record_bytes_def[symmetric] by (simp add: decodes_Cons)
  qed
qed

text \<open>One turn that does not stop the loop.\<close>

definition raw_frame :: "scan \<Rightarrow> scan \<Rightarrow> bool" where
  "raw_frame s s' \<longleftrightarrow> sc_previous_sequence s' = sc_previous_sequence s \<and> sc_previous_epoch s' = sc_previous_epoch s \<and>
     sc_previous_command s' = sc_previous_command s \<and> sc_repeated_total s' = sc_repeated_total s \<and>
     sc_skipped_total s' = sc_skipped_total s \<and> sc_invalid_total s' = sc_invalid_total s \<and>
     sc_record_first_error s' = sc_record_first_error s \<and> sc_phases_seen s' = sc_phases_seen s \<and>
     sc_record_error_present s' = sc_record_error_present s \<and> sc_first_sequence s' = sc_first_sequence s"

lemma scan_samples_frame: "scan_samples b slots s = Some s' \<Longrightarrow> raw_frame s s'"
proof (induction slots arbitrary: s)
  case Nil
  then show ?case by (simp add: raw_frame_def)
next
  case (Cons slot slots)
  then show ?case
    by (cases "eb_sample_present b ! slot") (auto simp: Let_def raw_frame_def split: if_split_asm dest!: Cons.IH)
qed

lemma turn_facts:
  assumes "scan_record h i r s = Inr s'"
  shows "\<not> out_of_sequence h i s r" "\<not> not_a_rate_check h r"
    "sc_previous_sequence s' = lr_sequence r" "sc_previous_epoch s' = eb_epoch_index (lr_encoder r)"
    "sc_previous_command s' = lr_command r"
    "sc_repeated_total s' = sc_repeated_total s + ucast (eb_repeated_sample_count (lr_encoder r))"
    "sc_skipped_total s' = sc_skipped_total s + ucast (eb_skipped_sample_count (lr_encoder r))"
    "sc_invalid_total s' = sc_invalid_total s + ucast (eb_invalid_sample_count (lr_encoder r))"
    "sc_phases_seen s' = (sc_phases_seen s)[unat (profile_phase_code (lr_profile_phase r)) := True]"
    "sc_record_error_present s' \<longleftrightarrow> sc_record_error_present s \<or> lr_abort_reason r \<noteq> Abort_None \<or> lr_first_error r \<noteq> 0 \<or>
       ev_apply_result_code (lr_command r) \<noteq> 0"
    "sc_first_sequence s' = (if i = 0 then lr_sequence r else sc_first_sequence s)"
proof -
  have c: "\<not> out_of_sequence h i s r" "\<not> not_a_rate_check h r"
    using assms by (auto simp: scan_record_def split: if_splits)
  define s1 where "s1 = (let s = s\<lparr>sc_phases_seen := (sc_phases_seen s)[unat (profile_phase_code (lr_profile_phase r)) := True]\<rparr> in
    if lr_first_error r \<noteq> 0 \<and> sc_record_first_error s = 0 then s\<lparr>sc_record_first_error := lr_first_error r\<rparr> else s)"
  obtain s2 where s2: "scan_samples (lr_encoder r) [0..<kMaximumEncoderSamplesPerEpoch] s1 = Some s2" "s' = count_record i r s2"
    using assms unfolding scan_record_def if_not_P[OF c(1)] if_not_P[OF c(2)] Let_def s1_def
    by (simp split: if_split_asm option.split_asm)
  have f: "sc_repeated_total s1 = sc_repeated_total s" "sc_skipped_total s1 = sc_skipped_total s"
      "sc_invalid_total s1 = sc_invalid_total s" "sc_record_error_present s1 = sc_record_error_present s"
      "sc_first_sequence s1 = sc_first_sequence s"
      "sc_phases_seen s1 = (sc_phases_seen s)[unat (profile_phase_code (lr_profile_phase r)) := True]"
    by (simp_all add: s1_def Let_def)
  note g = scan_samples_frame[OF s2(1), unfolded raw_frame_def f]
  show "\<not> out_of_sequence h i s r" "\<not> not_a_rate_check h r" by (rule c)+
  show "sc_previous_sequence s' = lr_sequence r" "sc_previous_epoch s' = eb_epoch_index (lr_encoder r)"
    "sc_previous_command s' = lr_command r"
    "sc_repeated_total s' = sc_repeated_total s + ucast (eb_repeated_sample_count (lr_encoder r))"
    "sc_skipped_total s' = sc_skipped_total s + ucast (eb_skipped_sample_count (lr_encoder r))"
    "sc_invalid_total s' = sc_invalid_total s + ucast (eb_invalid_sample_count (lr_encoder r))"
    "sc_phases_seen s' = (sc_phases_seen s)[unat (profile_phase_code (lr_profile_phase r)) := True]"
    "sc_record_error_present s' \<longleftrightarrow> sc_record_error_present s \<or> lr_abort_reason r \<noteq> Abort_None \<or> lr_first_error r \<noteq> 0 \<or>
       ev_apply_result_code (lr_command r) \<noteq> 0"
    "sc_first_sequence s' = (if i = 0 then lr_sequence r else sc_first_sequence s)"
    using g by (simp_all add: s2(2) count_record_def Let_def)
qed

lemma scan_Cons:
  assumes "scan_list h i (r # rs) s = Inr s'"
  obtains s1 where "scan_record h i r s = Inr s1" "scan_list h (Suc i) rs s1 = Inr s'"
  using assms by (simp split: sum.split_asm)

text \<open>What the loop has established when it ends.\<close>

lemma scan_consecutive:
  assumes "scan_list h i rs s = Inr s'" "i \<noteq> 0" "k < length rs"
  shows "lr_sequence (rs ! k) = sc_previous_sequence s + of_nat (Suc k) \<and>
    eb_epoch_index (lr_encoder (rs ! k)) = sc_previous_epoch s + of_nat (Suc k)"
  using assms
proof (induction rs arbitrary: i s k)
  case (Cons r rs)
  from scan_Cons[OF Cons.prems(1)] obtain s1 where s1: "scan_record h i r s = Inr s1" "scan_list h (Suc i) rs s1 = Inr s'" .
  note f = turn_facts[OF s1(1)]
  have now: "lr_sequence r = sc_previous_sequence s + 1" "eb_epoch_index (lr_encoder r) = sc_previous_epoch s + 1"
    using f(1) Cons.prems(2) by (auto simp: out_of_sequence_def)
  show ?case
  proof (cases k)
    case 0
    then show ?thesis using now by simp
  next
    case (Suc k')
    then show ?thesis using Cons.IH[OF s1(2), of k'] Cons.prems(3) f(3,4) now by (simp add: algebra_simps)
  qed
qed simp

lemma scan_all:
  assumes "scan_list h i rs s = Inr s'"
  shows "\<forall>r \<in> set rs. lr_stage r = lh_stage h \<and> lr_encoder_rate r = lh_encoder_rate h \<and> lr_run_kind r = lh_run_kind h \<and>
      eb_epoch_start_timestamp_us (lr_encoder r) = lh_epoch_zero_timestamp_us h + eb_epoch_index (lr_encoder r) * kEpochDurationUs"
    and "\<not> sc_record_error_present s' \<Longrightarrow> \<not> sc_record_error_present s \<and> (\<forall>r \<in> set rs. lr_abort_reason r = Abort_None \<and>
      lr_first_error r = 0 \<and> ev_apply_result_code (lr_command r) = 0)"
    and "length (sc_phases_seen s') = length (sc_phases_seen s)"
    and "p < length (sc_phases_seen s) \<Longrightarrow> sc_phases_seen s' ! p \<longleftrightarrow>
      sc_phases_seen s ! p \<or> (\<exists>r \<in> set rs. unat (profile_phase_code (lr_profile_phase r)) = p)"
    and "sc_repeated_total s' = sc_repeated_total s + (\<Sum>r\<leftarrow>rs. ucast (eb_repeated_sample_count (lr_encoder r)))"
    and "sc_skipped_total s' = sc_skipped_total s + (\<Sum>r\<leftarrow>rs. ucast (eb_skipped_sample_count (lr_encoder r)))"
    and "sc_invalid_total s' = sc_invalid_total s + (\<Sum>r\<leftarrow>rs. ucast (eb_invalid_sample_count (lr_encoder r)))"
    and "i \<noteq> 0 \<Longrightarrow> sc_first_sequence s' = sc_first_sequence s"
proof (atomize (full), use assms in \<open>induction rs arbitrary: i s\<close>)
  case (Cons r rs)
  from scan_Cons[OF Cons.prems] obtain s1 where s1: "scan_record h i r s = Inr s1" "scan_list h (Suc i) rs s1 = Inr s'" .
  note f = turn_facts[OF s1(1)] and IH = Cons.IH[OF s1(2)]
  have "lr_stage r = lh_stage h \<and> lr_encoder_rate r = lh_encoder_rate h \<and> lr_run_kind r = lh_run_kind h \<and>
      eb_epoch_start_timestamp_us (lr_encoder r) = lh_epoch_zero_timestamp_us h + eb_epoch_index (lr_encoder r) * kEpochDurationUs"
    using f(1) by (auto simp: out_of_sequence_def)
  moreover have "p < length (sc_phases_seen s) \<Longrightarrow> sc_phases_seen s1 ! p \<longleftrightarrow>
      sc_phases_seen s ! p \<or> unat (profile_phase_code (lr_profile_phase r)) = p"
    unfolding f(9) by (cases "unat (profile_phase_code (lr_profile_phase r)) = p") simp_all
  moreover have "length (sc_phases_seen s1) = length (sc_phases_seen s)" using f(9) by simp
  ultimately show ?case using IH f(6-8,10,11) by (auto simp: ac_simps)
qed simp

section \<open>Accepted captures\<close>

text \<open>The three parts of a capture of whole records.\<close>

definition capture_parts :: "bool \<Rightarrow> u8 list \<Rightarrow> log_header \<Rightarrow> log_record list \<Rightarrow> log_footer \<Rightarrow> bool" where
  "capture_parts on_board d h rs f \<longleftrightarrow> length d = 448 + 320 * length rs \<and>
     decodeHeader (take 256 d) = Inr h \<and> decodes_to on_board d 0 rs \<and> decodeFooter (drop (length d - 192) d) = Inr f"

lemma capture_sizes: "kHeaderBytes = 256" "kRecordBytes = 320" "kFooterBytes = 192"
  by (simp_all add: kHeaderBytes_def kRecordBytes_def kFooterBytes_def)

lemma validate_parts:
  "cs_error (validateCapture on_board d) = None \<longleftrightarrow>
     (\<exists>h rs f s. capture_parts on_board d h rs f \<and> scan_list h 0 rs scan_init = Inr s \<and>
       check_footer d h (of_nat (length rs)) (if rs = [] then 0 else sc_previous_sequence s) s f = None)"
    (is "?L \<longleftrightarrow> ?R")
proof (cases "length d < 448 \<or> (length d - 448) mod 320 \<noteq> 0")
  case True
  then have "\<not> capture_parts on_board d h rs f" for h rs f by (auto simp: capture_parts_def)
  moreover have "\<not> ?L" using True by (auto simp: validateCapture_def capture_sizes summary_of_def Let_def)
  ultimately show ?thesis by blast
next
  case False
  define n where "n = (length d - 448) div 320"
  have len: "length d = 448 + 320 * n" using False by (auto simp: n_def)
  have "d = take (length d - 192) d @ drop (length d - 192) d" by simp
  have off: "copied 192 d (256 + 320 * n) = drop (length d - 192) d" "copied 256 d 0 = take 256 d"
    using len by (simp_all add: copied_def)
  have not: "\<not> length d < kHeaderBytes + kFooterBytes" "\<not> (length d - kHeaderBytes - kFooterBytes) mod kRecordBytes \<noteq> 0"
      "(length d - kHeaderBytes - kFooterBytes) div kRecordBytes = n" "length d - kHeaderBytes - kFooterBytes = 320 * n"
    using len by (simp_all add: capture_sizes)
  have l: "?L \<longleftrightarrow> (\<exists>h s f. decodeHeader (take 256 d) = Inr h \<and> scan_capture on_board d h [0..<n] scan_init = Inr s \<and>
      decodeFooter (drop (length d - 192) d) = Inr f \<and>
      check_footer d h (of_nat n) (if n = 0 then 0 else sc_previous_sequence s) s f = None)"
    unfolding validateCapture_def if_not_P[OF not(1)] Let_def if_not_P[OF not(2)] not(3,4)
    unfolding capture_sizes off by (cases "n = 0") (simp_all add: summary_of_def split: sum.split option.split prod.split)
  have n: "length rs = n \<longleftrightarrow> length d = 448 + 320 * length rs" for rs :: "log_record list" using len by auto
  show ?thesis
    unfolding l capture_parts_def scan_capture_list[where i = 0, simplified] n[symmetric]
    by (auto simp: conj_commute) (metis length_0_conv)+
qed

section \<open>A capture as the writer composes it\<close>

lemma concat_piece:
  "\<forall>b \<in> set bs. length b = n \<Longrightarrow> k < length bs \<Longrightarrow> take n (drop (k * n) (concat bs @ ys)) = bs ! k"
proof (induction bs arbitrary: k)
  case (Cons b bs)
  then show ?case by (cases k) simp_all
qed simp

lemma concat_length: "\<forall>b \<in> set bs. length b = n \<Longrightarrow> length (concat bs) = length bs * n"
  by (induction bs) simp_all

lemma composed_parts:
  assumes h: "typed_header h" "encodeHeader h = Some hb"
    and rs: "length bs = length rs" "\<And>k. k < length rs \<Longrightarrow> typed_record (rs ! k) \<and> validateRecordStrict (rs ! k) = 0 \<and>
      encodeRecord on_board (rs ! k) = Some (bs ! k)"
    and f: "typed_footer f" "encodeFooter f = Some fb"
      "\<not> (lf_completion f = Done_Unsupported \<and> lf_unsupported_reason f = Unsup_QueueOverflow)"
  shows "capture_parts on_board' (hb @ concat bs @ fb) h (map record_view rs) (footer_view f)"
    and "take (length (hb @ concat bs @ fb) - 192) (hb @ concat bs @ fb) = hb @ concat bs"
proof -
  note H = header_roundtrip[OF h] and F = footer_roundtrip[OF f]
  have R: "decodeRecord on_board' (bs ! k) = Inr (record_view (rs ! k)) \<and> length (bs ! k) = 320" if "k < length rs" for k
    using record_roundtrip[of "rs ! k" on_board "bs ! k" on_board'] rs(2)[OF that] by blast
  have b: "\<forall>b \<in> set bs. length b = 320" using R rs(1) by (auto simp: in_set_conv_nth)
  have len: "length (concat bs) = length rs * 320" using concat_length[OF b] rs(1) by simp
  have "record_bytes (hb @ concat bs @ fb) k = bs ! k" if "k < length rs" for k
    using that concat_piece[OF b, of k fb] rs(1) H by (simp add: record_bytes_def copied_def capture_sizes)
  then have "decodes_to on_board' (hb @ concat bs @ fb) 0 (map record_view rs)" using R by (simp add: decodes_to_def)
  then show "capture_parts on_board' (hb @ concat bs @ fb) h (map record_view rs) (footer_view f)"
    using H F len by (simp add: capture_parts_def)
  show "take (length (hb @ concat bs @ fb) - 192) (hb @ concat bs @ fb) = hb @ concat bs" using F by simp
qed

section \<open>Properties\<close>

text \<open>C13: A capture is accepted only when it is exactly a valid header, records and a valid footer with
  nothing left over; the records' sequence numbers and epochs then run on without a gap from the
  first to the last number the footer names, every epoch starts on the clock of the header, and
  the checksum of the footer covers all the bytes before it.
\<close>

theorem capture_contiguous:
  assumes "cs_error (validateCapture on_board d) = None" "length d < 2 ^ 64"
  shows "\<exists>h rs f. capture_parts on_board d h rs f \<and> lf_total_records f = of_nat (length rs) \<and>
    lf_file_crc32 f = table_crc32 (take (length d - 192) d) 0 \<and>
    (\<forall>k < length rs. lr_sequence (rs ! k) = lf_first_sequence f + of_nat k \<and>
       eb_epoch_index (lr_encoder (rs ! k)) = eb_epoch_index (lr_encoder (rs ! 0)) + of_nat k \<and>
       eb_epoch_start_timestamp_us (lr_encoder (rs ! k)) =
         lh_epoch_zero_timestamp_us h + eb_epoch_index (lr_encoder (rs ! k)) * 1000)"
proof -
  obtain h rs f s where p: "capture_parts on_board d h rs f" and s: "scan_list h 0 rs scan_init = Inr s"
    and c: "check_footer d h (of_nat (length rs)) (if rs = [] then 0 else sc_previous_sequence s) s f = None"
    using assms(1) unfolding validate_parts by blast
  have total: "lf_total_records f = of_nat (length rs)" and crc: "lf_file_crc32 f = table_crc32 (take (length d - 192) d) 0"
    and first: "length rs \<noteq> 0 \<Longrightarrow> (of_nat (length rs) :: u64) \<noteq> 0 \<Longrightarrow> lf_first_sequence f = sc_first_sequence s"
    using c by (auto simp: check_footer_def Let_def capture_sizes split: if_split_asm)
  have all: "eb_epoch_start_timestamp_us (lr_encoder r) = lh_epoch_zero_timestamp_us h + eb_epoch_index (lr_encoder r) * 1000"
    if "r \<in> set rs" for r using scan_all(1)[OF s] that by (simp add: kEpochDurationUs_def)
  show ?thesis
  proof (cases rs)
    case Nil
    then have "\<forall>k < length rs. P k" for P by simp
    then show ?thesis using p total crc by blast
  next
    case (Cons r0 rest)
    from scan_Cons[OF s[unfolded Cons]] obtain s1 where s1: "scan_record h 0 r0 scan_init = Inr s1"
        "scan_list h (Suc 0) rest s1 = Inr s" .
    have fs: "sc_first_sequence s = lr_sequence r0" "sc_previous_sequence s1 = lr_sequence r0"
        "sc_previous_epoch s1 = eb_epoch_index (lr_encoder r0)"
      using turn_facts[OF s1(1)] scan_all(8)[OF s1(2)] by simp_all
    have "length rs < 2 ^ 64" using p assms(2) by (simp add: capture_parts_def)
    then have "unat (of_nat (length rs) :: u64) = length rs" by (simp add: unat_of_nat)
    then have nz: "(of_nat (length rs) :: u64) \<noteq> 0" using Cons by (metis length_0_conv list.distinct(1) unat_0)
    have f0: "lf_first_sequence f = lr_sequence r0" using first Cons nz fs(1) by simp
    have "lr_sequence (rs ! k) = lf_first_sequence f + of_nat k \<and>
       eb_epoch_index (lr_encoder (rs ! k)) = eb_epoch_index (lr_encoder (rs ! 0)) + of_nat k" if k: "k < length rs" for k
    proof (cases k)
      case (Suc k')
      then have "k' < length rest" using k Cons by simp
      from scan_consecutive[OF s1(2) _ this] show ?thesis unfolding fs(2,3) f0 by (simp add: Suc Cons)
    qed (simp add: Cons f0)
    then show ?thesis using p total crc all by (metis nth_mem)
  qed
qed

text \<open>In an accepted capture that ended normally every record is free of errors, the counts of
  repeated, skipped and invalid samples in the footer are the sums over the records, and a full
  run has gone through each of the fourteen profile phases.
\<close>

theorem normal_capture_clean:
  assumes "cs_error (validateCapture on_board d) = None" "capture_parts on_board d h rs f" "lf_completion f = Done_Normal"
  shows "(\<forall>r \<in> set rs. lr_abort_reason r = Abort_None \<and> lr_first_error r = 0 \<and> ev_apply_result_code (lr_command r) = 0) \<and>
    ss_repeated_samples (lf_statistics f) = (\<Sum>r\<leftarrow>rs. ucast (eb_repeated_sample_count (lr_encoder r))) \<and>
    ss_skipped_samples (lf_statistics f) = (\<Sum>r\<leftarrow>rs. ucast (eb_skipped_sample_count (lr_encoder r))) \<and>
    ss_invalid_samples (lf_statistics f) = (\<Sum>r\<leftarrow>rs. ucast (eb_invalid_sample_count (lr_encoder r))) \<and>
    (lh_run_kind h \<noteq> Run_RateCheck \<longrightarrow>
       (\<forall>p \<in> {1..14}. \<exists>r \<in> set rs. unat (profile_phase_code (lr_profile_phase r)) = p))"
proof -
  obtain h' rs' f' s where p: "capture_parts on_board d h' rs' f'" and s: "scan_list h' 0 rs' scan_init = Inr s"
    and c: "check_footer d h' (of_nat (length rs')) (if rs' = [] then 0 else sc_previous_sequence s) s f' = None"
    using assms(1) unfolding validate_parts by blast
  have same: "h' = h" "f' = f" "rs' = rs"
  proof -
    show "h' = h" "f' = f" using p assms(2) by (auto simp: capture_parts_def)
    show "rs' = rs" using p assms(2) by (intro nth_equalityI) (auto simp: capture_parts_def decodes_to_def)
  qed
  note c = c[unfolded same] and s = s[unfolded same]
  have con: "footer_consistent h (of_nat (length rs)) s f" "\<not> fatal_for_normal (of_nat (length rs)) s f"
      "lh_run_kind h \<noteq> Run_RateCheck \<Longrightarrow> list_all id (tl (sc_phases_seen s))"
    using c assms(3) by (auto simp: check_footer_def Let_def split: if_split_asm)
  have totals: "ss_repeated_samples (lf_statistics f) = sc_repeated_total s"
      "ss_skipped_samples (lf_statistics f) = sc_skipped_total s"
      "ss_invalid_samples (lf_statistics f) = sc_invalid_total s"
    using con(1) by (simp_all add: footer_consistent_def Let_def)
  have "\<not> sc_record_error_present s" using con(2) by (simp add: fatal_for_normal_def Let_def)
  note clean = scan_all(2)[OF s this]
  have init: "sc_repeated_total scan_init = 0" "sc_skipped_total scan_init = 0" "sc_invalid_total scan_init = 0"
      "sc_phases_seen scan_init = replicate 15 False"
    by (simp_all add: scan_init_def)
  have phases: "\<exists>r \<in> set rs. unat (profile_phase_code (lr_profile_phase r)) = p"
    if "lh_run_kind h \<noteq> Run_RateCheck" "p \<in> {1..14}" for p
  proof -
    have l: "length (sc_phases_seen s) = 15" using scan_all(3)[OF s] init(4) by simp
    have "p - 1 < 14" using that(2) by auto
    then have "tl (sc_phases_seen s) ! (p - 1)" using con(3)[OF that(1)] l by (simp add: list_all_length)
    moreover have "Suc (p - 1) = p" using that(2) by simp
    ultimately have "sc_phases_seen s ! p" using nth_tl[of "p - 1" "sc_phases_seen s"] l \<open>p - 1 < 14\<close> by simp
    then show ?thesis using scan_all(4)[OF s, of p] that(2) init(4) by simp
  qed
  show ?thesis
    using clean totals scan_all(5-7)[OF s] phases unfolding init by simp
qed

text \<open>A rate check of one record.\<close>

definition check_header :: log_header where
  "check_header = \<lparr>lh_stage = Stage_FV, lh_encoder_rate = Hz2000, lh_run_kind = Run_RateCheck, lh_profile_seed = 1,
     lh_pwm_frequency_hz = 20000, lh_reset_reason = 0, lh_total_reduction = 0x3F800000,
     lh_physical_limit_deg = 0x41700000, lh_routine_guard_deg = 0x41000000, lh_hard_abort_deg = 0x41200000,
     lh_backlash_full_width_deg = 0x3F000000, lh_epoch_zero_timestamp_us = 5000,
     lh_session_id = 0x61 # replicate 31 0, lh_firmware_sha = replicate 40 0x61,
     lh_avi_esp_libs_sha = replicate 40 0x61, lh_board_build_id = 0x61 # replicate 63 0\<rparr>"

definition check_record :: log_record where
  "check_record = (coasting_record full_block)\<lparr>lr_run_kind := Run_RateCheck, lr_qualification := 0, lr_episode_index := 1\<rparr>"

definition check_footer_of :: "u32 \<Rightarrow> log_footer" where
  "check_footer_of crc = \<lparr>lf_completion = Done_Normal, lf_rate_supported = True, lf_unsupported_reason = Unsup_None,
     lf_total_records = 1, lf_first_sequence = 0, lf_last_sequence = 0, lf_statistics = statistics_init,
     lf_qualification_valid_epochs = 1, lf_qualification_total_epochs = 1, lf_shutdown_step_mask = 0x3F,
     lf_file_crc32 = crc\<rparr>"

lemma check_parts_ok:
  "header_ok check_header" "validateRecordStrict check_record = 0" "footer_ok (check_footer_of crc)"
  "typed_header check_header" "typed_record check_record" "typed_footer (check_footer_of crc)"
proof -
  show "header_ok check_header" "validateRecordStrict check_record = 0" by code_simp+
  show "footer_ok (check_footer_of crc)"
    by (simp add: footer_ok_def check_footer_of_def knownUnsupported_def validFooterState_def footerFieldsValid_def
        fatalAcquisitionCountersAreZero_def statistics_init_def shutdownPrefix_def)
  show "typed_header check_header" by (simp add: typed_header_def check_header_def)
  show "typed_footer (check_footer_of crc)"
    by (simp add: typed_footer_def check_footer_of_def statistics_init_def fits32_def)
  show "typed_record check_record"
    by (simp add: typed_record_def check_record_def coasting_record_def full_block_def fits32_def evidence_init_def
        epoch_block_init_def sample_at_def raw_sample_init_def)
qed

lemma check_scan:
  "case scan_list check_header 0 [record_view check_record] scan_init of Inl _ \<Rightarrow> False
   | Inr s \<Rightarrow> sc_repeated_total s = 0 \<and> sc_skipped_total s = 0 \<and> sc_invalid_total s = 0 \<and> sc_late_flag_total s = 0 \<and>
      sc_startup_total s = 0 \<and> sc_steady_incomplete_total s = 0 \<and> sc_deadline_total s = 0 \<and> sc_vbus_invalid_total s = 0 \<and>
      sc_raw_transport_errors s = 0 \<and> sc_raw_status_errors s = 0 \<and> sc_aggregate_valid_total s = 1 \<and>
      sc_record_first_error s = 0 \<and> \<not> sc_record_error_present s \<and> sc_first_sequence s = 0 \<and> sc_previous_sequence s = 0"
  by code_simp

lemma check_capture:
  "\<exists>d. cs_error (validateCapture False d) = None \<and> length d = 768 \<and>
     (\<exists>crc. capture_parts False d check_header [record_view check_record] (footer_view (check_footer_of crc)))"
proof -
  obtain hb where hb: "encodeHeader check_header = Some hb"
    using check_parts_ok(1) by (simp add: encodeHeader_def Let_def knownRunKind_def check_header_def)
  obtain rb where rb: "encodeRecord False check_record = Some rb"
    using check_parts_ok(2) by (simp add: encodeRecord_def hasError_def validateRecord_def Let_def)
  define crc where "crc = table_crc32 (hb @ rb) 0"
  obtain fb where fb: "encodeFooter (check_footer_of crc) = Some fb"
    using check_parts_ok(3) by (simp add: encodeFooter_def Let_def)
  define d where "d = hb @ concat [rb] @ fb"
  have nq: "\<not> (lf_completion (check_footer_of crc) = Done_Unsupported \<and>
      lf_unsupported_reason (check_footer_of crc) = Unsup_QueueOverflow)" by (simp add: check_footer_of_def)
  have one: "length [rb] = length [check_record]"
      "k < length [check_record] \<Longrightarrow> typed_record ([check_record] ! k) \<and> validateRecordStrict ([check_record] ! k) = 0 \<and>
      encodeRecord False ([check_record] ! k) = Some ([rb] ! k)" for k
    using check_parts_ok(2,5) rb by simp_all
  note parts = composed_parts[OF check_parts_ok(4) hb one check_parts_ok(6) fb nq, folded d_def]
  obtain s where s: "scan_list check_header 0 [record_view check_record] scan_init = Inr s"
    using check_scan by (auto split: sum.split_asm simp del: scan_list.simps)
  have check: "check_footer d check_header 1 (sc_previous_sequence s) s (footer_view (check_footer_of crc)) = None"
    using check_scan[unfolded s sum.case] parts(2) crc_def
    by (simp add: check_footer_def Let_def footer_view_def check_footer_of_def capture_sizes footer_consistent_def
        fatal_for_normal_def statistics_init_def shutdownPrefix_def check_header_def)
  have p: "capture_parts False d check_header [record_view check_record] (footer_view (check_footer_of crc))"
    using parts(1)[of False] by simp
  then have "cs_error (validateCapture False d) = None" unfolding validate_parts using s check by force
  then show ?thesis using p by (auto simp: capture_parts_def)
qed

lemma capture_contiguous_witness:
  "\<exists>d. cs_error (validateCapture False d) = None \<and>
     (\<exists>h rs f. capture_parts False d h rs f \<and> lf_file_crc32 f = table_crc32 (take (length d - 192) d) 0)"
proof -
  obtain d where d: "cs_error (validateCapture False d) = None" "length d = 768" using check_capture by blast
  have "length d < 2 ^ 64" by (simp add: d(2))
  from capture_contiguous[OF d(1) this] d(1) show ?thesis by blast
qed

lemma normal_capture_clean_witness:
  "\<exists>d crc. cs_error (validateCapture False d) = None \<and>
     capture_parts False d check_header [record_view check_record] (footer_view (check_footer_of crc)) \<and>
     lr_abort_reason (record_view check_record) = Abort_None"
proof -
  obtain d crc where d: "cs_error (validateCapture False d) = None"
      "capture_parts False d check_header [record_view check_record] (footer_view (check_footer_of crc))"
    using check_capture by blast
  have "lf_completion (footer_view (check_footer_of crc)) = Done_Normal" by (simp add: footer_view_def check_footer_of_def)
  from normal_capture_clean[OF d this] d show ?thesis by auto
qed



end
