(* ===== verification/State_Guarantees.thy ===== *)
theory State_Guarantees
  imports State_Logic
begin

text \<open>
  Guarantees of state-monadic operations: relations between the state before and after that hold of
  every run. The locale \<open>guarantee\<close> collects, for a preorder, the rule of every construct; the
  components interpret it on their own relations.
\<close>

section \<open>Guarantees\<close>

text \<open>What an operation may do to the state, as a relation that contains every run of it.\<close>

definition guar :: "('s \<Rightarrow> 's \<Rightarrow> bool) \<Rightarrow> ('s, 'a) state \<Rightarrow> bool" where
  "guar R m = (\<forall>s. R s (snd (run_state m s)))"

definition preorder_rel :: "('s \<Rightarrow> 's \<Rightarrow> bool) \<Rightarrow> bool" where
  "preorder_rel R = ((\<forall>s. R s s) \<and> (\<forall>a b c. R a b \<longrightarrow> R b c \<longrightarrow> R a c))"

lemma guarD: "guar R m \<Longrightarrow> run_state m s = (a, s') \<Longrightarrow> R s s'"
  by (metis guar_def snd_conv)

lemma guar_valid: "guar R m \<Longrightarrow> (\<And>s a s'. P s \<Longrightarrow> R s s' \<Longrightarrow> Q a s') \<Longrightarrow> valid P m Q"
  by (auto intro!: validI dest: guarD)

lemma guar_keeps: "guar R m \<Longrightarrow> (\<And>s s'. I s \<Longrightarrow> R s s' \<Longrightarrow> I s') \<Longrightarrow> keeps I m"
  by (auto simp: guar_def keeps_def)

locale guarantee =
  fixes R :: "'s \<Rightarrow> 's \<Rightarrow> bool"
  assumes pre: "preorder_rel R"
begin

lemma refl: "R s s"
  using pre by (simp add: preorder_rel_def)

lemma trans: "R a b \<Longrightarrow> R b c \<Longrightarrow> R a c"
  using pre unfolding preorder_rel_def by blast

lemma ret: "guar R (ret a)"
  by (simp add: guar_def refl)

lemma gets: "guar R (gets f)"
  by (simp add: guar_def refl)

lemma modify: "(\<And>s. R s (f s)) \<Longrightarrow> guar R (modify f)"
  by (simp add: guar_def)

lemma bind:
  assumes "guar R m" and "\<And>a. guar R (f a)"
  shows "guar R (m \<bind> f)"
  unfolding guar_def
proof
  fix s
  obtain a s1 where m: "run_state m s = (a, s1)" by fastforce
  have "R s s1" using guarD [OF assms(1) m] .
  moreover have "R s1 (snd (run_state (f a) s1))" using assms(2) by (simp add: guar_def)
  ultimately show "R s (snd (run_state (m \<bind> f) s))" by (simp add: m) (rule trans)
qed

lemma either: "(b \<Longrightarrow> guar R m) \<Longrightarrow> (\<not> b \<Longrightarrow> guar R n) \<Longrightarrow> guar R (if b then m else n)"
  by simp

lemma guarded: "(b \<Longrightarrow> guar R m) \<Longrightarrow> guar R (only_if b m)"
  by (simp add: only_if_def ret)

lemma option: "guar R m \<Longrightarrow> (\<And>x. guar R (f x)) \<Longrightarrow> guar R (case v of None \<Rightarrow> m | Some x \<Rightarrow> f x)"
  by (cases v) simp_all

lemma pair: "(\<And>a b. guar R (f a b)) \<Longrightarrow> guar R (case p of (a, b) \<Rightarrow> f a b)"
  by (cases p) simp

lemmas construct = ret gets bind either guarded option pair

end

section \<open>Sequences of operations\<close>

lemma valid_ret_bind: "valid P (f t) Q \<Longrightarrow> valid P (ret t \<bind> f) Q"
  by (simp add: valid_def)

lemma valid_gets_bind:
  assumes "\<And>a. valid (\<lambda>s. P s \<and> f s = a) (g a) Q"
  shows "valid P (gets f \<bind> g) Q"
  using assms by (simp add: valid_def)

text \<open>Two operations taken together, as where the invariant is restored only by the second.\<close>

lemma valid_bind2:
  fixes m n :: "('s, unit) state" and f :: "unit \<Rightarrow> ('s, 'a) state"
  assumes "valid P (m \<bind> (\<lambda>_. n)) R" and "\<And>a. valid (R a) (f a) Q"
  shows "valid P (m \<bind> (\<lambda>u. n \<bind> f)) Q"
  using valid_bind [OF assms] by simp

section \<open>Traces\<close>

text \<open>A history variable records events; every event of a trace is allowed after the events before it.\<close>

definition trace_allowed :: "('e list \<Rightarrow> 'e \<Rightarrow> bool) \<Rightarrow> 'e list \<Rightarrow> bool" where
  "trace_allowed P tr = (\<forall>k<length tr. P (take k tr) (tr ! k))"

lemma trace_allowed_Nil [simp]: "trace_allowed P []"
  by (simp add: trace_allowed_def)

lemma trace_allowed_snoc [simp]: "trace_allowed P (tr @ [e]) = (trace_allowed P tr \<and> P tr e)"
  unfolding trace_allowed_def by (auto simp: All_less_Suc nth_append)

lemma trace_allowed_quiet:
  assumes "trace_allowed P tr" and "list_all Q es" and "\<And>tr e. Q e \<Longrightarrow> P tr e"
  shows "trace_allowed P (tr @ es)"
  using assms
proof (induction es rule: rev_induct)
  case (snoc e es)
  then show ?case using trace_allowed_snoc [of P "tr @ es" e] by simp
qed simp

end
