(* ===== verification/Safety_Task.thy ===== *)
theory Safety_Task
  imports Mission_State Flight_Storage Quantization
begin

text \<open>
  \<open>runtime/production_runtime.cpp\<close>, \<open>safetyTask\<close> and the tracked power outputs. The task is the last
  resort of the flight: it deploys and cuts the power on its own clock. One turn of its loop is
  \<open>safety_turn\<close>; what the turn reads from the other tasks (queue, snapshot, clock, flags) is its
  argument, the board's rails are an API over an external state \<open>'d\<close>. \<open>ou_sent\<close> is a history
  variable: the calls and messages of the task in their order; it has no counterpart in the code.
\<close>

section \<open>Requests and outputs\<close>

datatype para_request_kind = PR_open | PR_hold | PR_power_off

record para_request =
  pr_kind :: para_request_kind
  pr_flight_epoch :: u32
  pr_safety_authorized :: bool

record power_request =
  pq_auxiliary_5v :: bool
  pq_parachute_power :: bool
  pq_cutoff :: bool
  pq_update_auxiliary_5v :: bool
  pq_update_parachute_power :: bool

text \<open>\<open>PowerRequest{aux, para, cutoff}\<close> leaves the two update flags at their default.\<close>

definition power_request_of :: "bool \<Rightarrow> bool \<Rightarrow> bool \<Rightarrow> power_request" where
  "power_request_of auxiliary parachute cutoff =
     \<lparr>pq_auxiliary_5v = auxiliary, pq_parachute_power = parachute, pq_cutoff = cutoff,
       pq_update_auxiliary_5v = True, pq_update_parachute_power = True\<rparr>"

record 'd rail_api =
  ra_setAux5v :: "bool \<Rightarrow> 'd \<Rightarrow> esp_code \<times> 'd"
  ra_setParaPower :: "bool \<Rightarrow> 'd \<Rightarrow> esp_code \<times> 'd"
  ra_motorCoast :: "'d \<Rightarrow> esp_code \<times> 'd"

datatype rail_output =
    Out_aux bool | Out_para bool | Out_coast | Out_para_request bool para_request | Out_recovery_enter

record 'd outputs =
  ou_board :: 'd
  ou_parachute_power_applied :: bool
  ou_parachute_angle_raw :: u8
  ou_sts_ready :: bool
  ou_para_mode :: para_mode
  ou_recovery_power_safe :: bool
  ou_sent :: "rail_output list"

definition setAux5v :: "'d rail_api \<Rightarrow> bool \<Rightarrow> 'd outputs \<Rightarrow> esp_code \<times> 'd outputs" where
  "setAux5v api enabled out =
     (let (result, d) = ra_setAux5v api enabled (ou_board out) in
      (result, out\<lparr>ou_board := d, ou_sent := ou_sent out @ [Out_aux enabled]\<rparr>))"

definition setTrackedParaPower :: "'d rail_api \<Rightarrow> bool \<Rightarrow> 'd outputs \<Rightarrow> esp_code \<times> 'd outputs" where
  "setTrackedParaPower api enabled out =
     (let was_applied = ou_parachute_power_applied out;
          (result, d) = ra_setParaPower api enabled (ou_board out);
          out = out\<lparr>ou_board := d, ou_sent := ou_sent out @ [Out_para enabled],
                ou_parachute_power_applied := (result = EC_ok \<and> enabled)\<rparr> in
      (result,
       if result \<noteq> EC_ok then out\<lparr>ou_parachute_angle_raw := parachute_angle_error_code PAE_unknown\<rparr>
       else if \<not> enabled then out\<lparr>ou_parachute_angle_raw := parachute_angle_error_code PAE_powered_off\<rparr>
       else if \<not> was_applied then out\<lparr>ou_parachute_angle_raw := parachute_angle_error_code PAE_not_initialized\<rparr>
       else out))"

definition failSafeOutputs :: "'d rail_api \<Rightarrow> 'd outputs \<Rightarrow> 'd outputs" where
  "failSafeOutputs api out =
     (let (_, d) = ra_motorCoast api (ou_board out);
          out = out\<lparr>ou_board := d, ou_sent := ou_sent out @ [Out_coast]\<rparr>;
          out = snd (setAux5v api False out) in
      snd (setTrackedParaPower api False out))"

section \<open>The task\<close>

record safety_state =
  sf_cutoff_latched :: bool
  sf_tracked_epoch :: u32
  sf_liftoff_valid :: bool
  sf_liftoff_time_us :: u64
  sf_elapsed_offset_us :: u64
  sf_deployment_requested :: bool
  sf_recovery_entry_queued :: bool
  sf_tracked_state :: mission_state

definition safety_init :: safety_state where
  "safety_init = \<lparr>sf_cutoff_latched = False, sf_tracked_epoch = 0, sf_liftoff_valid = False,
     sf_liftoff_time_us = 0, sf_elapsed_offset_us = 0, sf_deployment_requested = False,
     sf_recovery_entry_queued = False, sf_tracked_state = MS_command_receive\<rparr>"

text \<open>
  What one turn reads: the recovery flag, the requests of the power queue until it is empty, the
  snapshot when the mutex was free, the clock, the epoch of the pressure criterion, and whether
  the queues accept a message.
\<close>

record safety_input =
  si_recovery_requested :: bool
  si_requests :: "power_request list"
  si_snapshot :: "mission_snapshot option"
  si_now :: u64
  si_pressure_epoch :: u32
  si_open_accepted :: bool
  si_recovery_accepted :: bool

text \<open>The rails down, as at a cutoff.\<close>

definition cut_rails :: "'d rail_api \<Rightarrow> 'd outputs \<Rightarrow> 'd outputs" where
  "cut_rails api out =
     (let out = snd (setAux5v api False out); out = snd (setTrackedParaPower api False out) in
      out\<lparr>ou_sts_ready := False, ou_para_mode := PM_powered_off\<rparr>)"

definition recovery_rails :: "'d rail_api \<Rightarrow> 'd outputs \<Rightarrow> 'd outputs" where
  "recovery_rails api out =
     (let (aux, out) = setAux5v api False out; (para, out) = setTrackedParaPower api False out;
          out = out\<lparr>ou_recovery_power_safe := (aux = EC_ok \<and> para = EC_ok)\<rparr> in
      if para = EC_ok then out\<lparr>ou_sts_ready := False, ou_para_mode := PM_powered_off\<rparr> else out)"

definition power_request_step ::
    "'d rail_api \<Rightarrow> bool \<times> 'd outputs \<Rightarrow> power_request \<Rightarrow> bool \<times> 'd outputs" where
  "power_request_step api s request =
     (case s of (cutoff_latched, out) \<Rightarrow>
       (let cutoff_latched = (cutoff_latched \<or> pq_cutoff request) in
        (cutoff_latched,
         if cutoff_latched then cut_rails api out
         else let out = (if pq_update_auxiliary_5v request
                       then snd (setAux5v api (pq_auxiliary_5v request) out) else out) in
           if pq_update_parachute_power request
           then snd (setTrackedParaPower api (pq_parachute_power request) out) else out)))"

definition track_snapshot :: "mission_snapshot \<Rightarrow> safety_state \<Rightarrow> safety_state" where
  "track_snapshot sn s =
     (let offset = (if sn_reset_invalidated sn then sn_elapsed_us sn else 0);
          s = s\<lparr>sf_tracked_state := sn_state sn\<rparr>;
          s = (if sn_flight_epoch sn \<noteq> sf_tracked_epoch s
               then s\<lparr>sf_tracked_epoch := sn_flight_epoch sn, sf_recovery_entry_queued := False,
                      sf_cutoff_latched := sn_power_cutoff_latched sn,
                      sf_liftoff_valid := sn_liftoff_time_valid sn,
                      sf_liftoff_time_us := sn_liftoff_time_us sn, sf_elapsed_offset_us := offset,
                      sf_deployment_requested := sn_deployment_started sn\<rparr>
               else if sn_liftoff_time_valid sn \<and> \<not> sf_liftoff_valid s
               then s\<lparr>sf_liftoff_valid := True, sf_liftoff_time_us := sn_liftoff_time_us sn,
                      sf_elapsed_offset_us := offset\<rparr>
               else s) in
      s\<lparr>sf_deployment_requested := (sf_deployment_requested s \<or> sn_deployment_started sn)\<rparr>)"

definition safety_elapsed :: "u64 \<Rightarrow> safety_state \<Rightarrow> u64" where
  "safety_elapsed now s =
     (if sf_liftoff_valid s \<and> now \<ge> sf_liftoff_time_us s
      then sf_elapsed_offset_us s + now - sf_liftoff_time_us s else 0)"

definition deploy_due :: "safety_input \<Rightarrow> safety_state \<Rightarrow> bool" where
  "deploy_due i s =
     (let elapsed = safety_elapsed (si_now i) s in
      si_pressure_epoch i = sf_tracked_epoch s \<and> elapsed \<ge> 10000000 \<or> elapsed \<ge> 17000000)"

definition cutoff_due :: "safety_input \<Rightarrow> safety_state \<Rightarrow> bool" where
  "cutoff_due i s = (sf_liftoff_valid s \<and> si_now i \<ge> sf_liftoff_time_us s \<and>
     safety_elapsed (si_now i) s \<ge> 25000000)"

definition deploy_step :: "safety_input \<Rightarrow> safety_state \<times> 'd outputs \<Rightarrow> safety_state \<times> 'd outputs" where
  "deploy_step i so =
     (case so of (s, out) \<Rightarrow>
       if \<not> sf_deployment_requested s \<and> deploy_due i s
       then (s\<lparr>sf_deployment_requested := si_open_accepted i\<rparr>,
             out\<lparr>ou_sent := ou_sent out @ (if si_open_accepted i
                 then [Out_para_request True \<lparr>pr_kind = PR_open, pr_flight_epoch = sf_tracked_epoch s,
                   pr_safety_authorized = True\<rparr>] else [])\<rparr>)
       else (s, out))"

definition cutoff_step ::
    "'d rail_api \<Rightarrow> safety_input \<Rightarrow> safety_state \<times> 'd outputs \<Rightarrow> safety_state \<times> 'd outputs" where
  "cutoff_step api i so =
     (case so of (s, out) \<Rightarrow>
       if \<not> sf_cutoff_latched s \<and> cutoff_due i s
       then let out = cut_rails api out in
         (s\<lparr>sf_cutoff_latched := True\<rparr>,
          out\<lparr>ou_sent := ou_sent out @ [Out_para_request False \<lparr>pr_kind = PR_power_off,
              pr_flight_epoch = sf_tracked_epoch s, pr_safety_authorized = True\<rparr>]\<rparr>)
       else (s, out))"

definition recovery_entry_step :: "safety_input \<Rightarrow> safety_state \<times> 'd outputs \<Rightarrow> safety_state \<times> 'd outputs" where
  "recovery_entry_step i so =
     (case so of (s, out) \<Rightarrow>
       if \<not> sf_recovery_entry_queued s \<and> sf_tracked_state s = MS_descent \<and> sf_cutoff_latched s \<and>
          sf_liftoff_valid s \<and> safety_elapsed (si_now i) s \<ge> 120000000
       then (s\<lparr>sf_recovery_entry_queued := si_recovery_accepted i\<rparr>,
             out\<lparr>ou_sent := ou_sent out @ (if si_recovery_accepted i then [Out_recovery_enter] else [])\<rparr>)
       else (s, out))"

definition safety_turn ::
    "'d rail_api \<Rightarrow> safety_input \<Rightarrow> safety_state \<times> 'd outputs \<Rightarrow> safety_state \<times> 'd outputs" where
  "safety_turn api i so =
     (case so of (s, out) \<Rightarrow>
       (let out = (if si_recovery_requested i then recovery_rails api out else out);
            (cutoff_latched, out) = foldl (power_request_step api) (sf_cutoff_latched s, out) (si_requests i);
            s = s\<lparr>sf_cutoff_latched := cutoff_latched\<rparr>;
            s = (case si_snapshot i of None \<Rightarrow> s | Some sn \<Rightarrow> track_snapshot sn s) in
        recovery_entry_step i (cutoff_step api i (deploy_step i (s, out)))))"

definition safety_run ::
    "'d rail_api \<Rightarrow> safety_input list \<Rightarrow> safety_state \<times> 'd outputs \<Rightarrow> safety_state \<times> 'd outputs" where
  "safety_run api inputs so = foldl (\<lambda>so i. safety_turn api i so) so inputs"

section \<open>What each operation sends\<close>

lemma sent_setAux5v [simp]: "ou_sent (snd (setAux5v api b out)) = ou_sent out @ [Out_aux b]"
  by (simp add: setAux5v_def split: prod.splits)

lemma sent_setTrackedParaPower [simp]:
  "ou_sent (snd (setTrackedParaPower api b out)) = ou_sent out @ [Out_para b]"
  by (simp add: setTrackedParaPower_def Let_def split: prod.splits)

lemma sent_cut_rails [simp]:
  "ou_sent (cut_rails api out) = ou_sent out @ [Out_aux False, Out_para False]"
  by (simp add: cut_rails_def)

lemma sent_recovery_rails [simp]:
  "ou_sent (recovery_rails api out) = ou_sent out @ [Out_aux False, Out_para False]"
proof -
  obtain a o1 where a: "setAux5v api False out = (a, o1)" by fastforce
  obtain b o2 where b: "setTrackedParaPower api False o1 = (b, o2)" by fastforce
  have "ou_sent o1 = ou_sent out @ [Out_aux False]" using sent_setAux5v [of api False out] a by simp
  moreover have "ou_sent o2 = ou_sent o1 @ [Out_para False]"
    using sent_setTrackedParaPower [of api False o1] b by simp
  ultimately show ?thesis by (simp add: recovery_rails_def Let_def a b)
qed

text \<open>An output that gives power to one of the switched rails.\<close>

definition powers_rail :: "rail_output \<Rightarrow> bool" where
  "powers_rail e = (e = Out_aux True \<or> e = Out_para True)"

definition opens_parachute :: "rail_output \<Rightarrow> bool" where
  "opens_parachute e = (case e of Out_para_request _ r \<Rightarrow> pr_kind r = PR_open | _ \<Rightarrow> False)"

text \<open>The requests sent after \<open>out\<close> contain no output with \<open>P\<close>.\<close>

definition sends_no :: "(rail_output \<Rightarrow> bool) \<Rightarrow> 'd outputs \<Rightarrow> 'd outputs \<Rightarrow> bool" where
  "sends_no P out out' = (filter P (ou_sent out') = filter P (ou_sent out))"

lemma sends_no_trans: "sends_no P a b \<Longrightarrow> sends_no P b c \<Longrightarrow> sends_no P a c"
  by (simp add: sends_no_def)

lemma output_kinds [simp]:
  "powers_rail (Out_aux b) = b" "powers_rail (Out_para b) = b" "\<not> powers_rail (Out_para_request f r)"
  "\<not> powers_rail Out_recovery_enter" "\<not> opens_parachute (Out_aux b)" "\<not> opens_parachute (Out_para b)"
  "opens_parachute (Out_para_request f r) = (pr_kind r = PR_open)"
  "\<not> opens_parachute Out_recovery_enter"
  by (simp_all add: powers_rail_def opens_parachute_def)

subsection \<open>The request queue\<close>

lemma requests_latched:
  assumes "latched"
  shows "fst (foldl (power_request_step api) (latched, out) rs)"
    and "sends_no powers_rail out (snd (foldl (power_request_step api) (latched, out) rs))"
  using assms
  by (induction rs arbitrary: out) (simp_all add: power_request_step_def sends_no_def)

lemma requests_open_nothing:
  "sends_no opens_parachute out (snd (foldl (power_request_step api) (latched, out) rs))"
proof (induction rs arbitrary: latched out)
  case Nil
  show ?case by (simp add: sends_no_def)
next
  case (Cons r rs)
  obtain l o1 where r: "power_request_step api (latched, out) r = (l, o1)" by fastforce
  have "sends_no opens_parachute out (snd (power_request_step api (latched, out) r))"
    by (simp add: power_request_step_def sends_no_def Let_def)
  with Cons.IH [of o1 l] show ?case by (auto simp: r intro: sends_no_trans)
qed

text \<open>A cutoff request latches, whatever stands behind it in the queue.\<close>

lemma requests_cutoff:
  "fst (foldl (power_request_step api) (latched, out) rs) = (latched \<or> (\<exists>r\<in>set rs. pq_cutoff r))"
proof (induction rs arbitrary: latched out)
  case (Cons r rs)
  obtain o1 where r: "power_request_step api (latched, out) r = (latched \<or> pq_cutoff r, o1)"
    by (simp add: power_request_step_def Let_def)
  show ?case by (simp add: r Cons.IH)
qed simp

subsection \<open>The turn in its parts\<close>

definition drained :: "'d rail_api \<Rightarrow> safety_input \<Rightarrow> safety_state \<times> 'd outputs \<Rightarrow> bool \<times> 'd outputs" where
  "drained api i so = foldl (power_request_step api) (sf_cutoff_latched (fst so),
     if si_recovery_requested i then recovery_rails api (snd so) else snd so) (si_requests i)"

definition tracked :: "'d rail_api \<Rightarrow> safety_input \<Rightarrow> safety_state \<times> 'd outputs \<Rightarrow> safety_state" where
  "tracked api i so = (let s = (fst so)\<lparr>sf_cutoff_latched := fst (drained api i so)\<rparr> in
     case si_snapshot i of None \<Rightarrow> s | Some sn \<Rightarrow> track_snapshot sn s)"

lemma safety_turn_parts: "safety_turn api i so =
    recovery_entry_step i (cutoff_step api i (deploy_step i (tracked api i so, snd (drained api i so))))"
  by (cases so; cases "si_recovery_requested i")
     (simp_all add: safety_turn_def tracked_def drained_def Let_def split_beta split: option.split)

text \<open>The later steps leave what the snapshot set: the epoch and the liftoff time.\<close>

lemma deploy_step_keeps:
  "sf_tracked_epoch (fst (deploy_step i so)) = sf_tracked_epoch (fst so)"
  "sf_liftoff_valid (fst (deploy_step i so)) = sf_liftoff_valid (fst so)"
  "sf_liftoff_time_us (fst (deploy_step i so)) = sf_liftoff_time_us (fst so)"
  "sf_elapsed_offset_us (fst (deploy_step i so)) = sf_elapsed_offset_us (fst so)"
  "sf_cutoff_latched (fst (deploy_step i so)) = sf_cutoff_latched (fst so)"
  "sf_tracked_state (fst (deploy_step i so)) = sf_tracked_state (fst so)"
  "sf_recovery_entry_queued (fst (deploy_step i so)) = sf_recovery_entry_queued (fst so)"
  by (simp_all add: deploy_step_def split_beta)

lemma cutoff_step_keeps:
  "sf_tracked_epoch (fst (cutoff_step api i so)) = sf_tracked_epoch (fst so)"
  "sf_liftoff_valid (fst (cutoff_step api i so)) = sf_liftoff_valid (fst so)"
  "sf_liftoff_time_us (fst (cutoff_step api i so)) = sf_liftoff_time_us (fst so)"
  "sf_elapsed_offset_us (fst (cutoff_step api i so)) = sf_elapsed_offset_us (fst so)"
  "sf_deployment_requested (fst (cutoff_step api i so)) = sf_deployment_requested (fst so)"
  "sf_tracked_state (fst (cutoff_step api i so)) = sf_tracked_state (fst so)"
  "sf_recovery_entry_queued (fst (cutoff_step api i so)) = sf_recovery_entry_queued (fst so)"
  by (simp_all add: cutoff_step_def Let_def split_beta)

lemma recovery_step_keeps:
  "sf_tracked_epoch (fst (recovery_entry_step i so)) = sf_tracked_epoch (fst so)"
  "sf_liftoff_valid (fst (recovery_entry_step i so)) = sf_liftoff_valid (fst so)"
  "sf_liftoff_time_us (fst (recovery_entry_step i so)) = sf_liftoff_time_us (fst so)"
  "sf_elapsed_offset_us (fst (recovery_entry_step i so)) = sf_elapsed_offset_us (fst so)"
  "sf_cutoff_latched (fst (recovery_entry_step i so)) = sf_cutoff_latched (fst so)"
  "sf_deployment_requested (fst (recovery_entry_step i so)) = sf_deployment_requested (fst so)"
  "sf_tracked_state (fst (recovery_entry_step i so)) = sf_tracked_state (fst so)"
  by (simp_all add: recovery_entry_step_def split_beta)

lemmas step_keeps = deploy_step_keeps cutoff_step_keeps recovery_step_keeps

lemma later_steps_keep:
  "safety_elapsed now (fst (deploy_step i so)) = safety_elapsed now (fst so)"
  "cutoff_due i (fst (deploy_step i so)) = cutoff_due i (fst so)"
  "safety_elapsed now (fst (cutoff_step api i so)) = safety_elapsed now (fst so)"
  "cutoff_due i (fst (cutoff_step api i so)) = cutoff_due i (fst so)"
  "deploy_due i (fst (cutoff_step api i so)) = deploy_due i (fst so)"
  "deploy_due i (fst (deploy_step i so)) = deploy_due i (fst so)"
  "safety_elapsed now (fst (recovery_entry_step i so)) = safety_elapsed now (fst so)"
  "cutoff_due i (fst (recovery_entry_step i so)) = cutoff_due i (fst so)"
  "deploy_due i (fst (recovery_entry_step i so)) = deploy_due i (fst so)"
  by (simp_all only: safety_elapsed_def cutoff_due_def deploy_due_def step_keeps)

section \<open>One flight\<close>

text \<open>The snapshots read are of one flight epoch.\<close>

definition same_flight :: "u32 \<Rightarrow> safety_input \<Rightarrow> bool" where
  "same_flight epoch i = (case si_snapshot i of None \<Rightarrow> True | Some sn \<Rightarrow> sn_flight_epoch sn = epoch)"

lemma tracked_same_flight:
  assumes "same_flight (sf_tracked_epoch s) i"
  shows "sf_tracked_epoch (tracked api i (s, out)) = sf_tracked_epoch s"
    and "sf_cutoff_latched (tracked api i (s, out)) = fst (drained api i (s, out))"
    and "sf_deployment_requested s \<Longrightarrow> sf_deployment_requested (tracked api i (s, out))"
  using assms by (cases "si_snapshot i"; simp add: tracked_def track_snapshot_def same_flight_def Let_def)+

lemma drained_latched:
  assumes "sf_cutoff_latched s"
  shows "fst (drained api i (s, out))" and "sends_no powers_rail out (snd (drained api i (s, out)))"
proof -
  let ?o = "if si_recovery_requested i then recovery_rails api out else out"
  have o: "sends_no powers_rail out ?o" by (simp add: sends_no_def)
  show "fst (drained api i (s, out))" using assms by (simp add: drained_def requests_latched)
  show "sends_no powers_rail out (snd (drained api i (s, out)))"
    unfolding drained_def fst_conv snd_conv by (rule sends_no_trans [OF o requests_latched(2) [OF assms]])
qed

lemma later_steps_power_nothing:
  "sends_no powers_rail (snd so) (snd (deploy_step i so))"
  "sends_no powers_rail (snd so) (snd (cutoff_step api i so))"
  "sends_no powers_rail (snd so) (snd (recovery_entry_step i so))"
  by (cases so; simp add: deploy_step_def cutoff_step_def recovery_entry_step_def sends_no_def Let_def)+

lemma later_steps_open:
  "sends_no opens_parachute (snd so) (snd (cutoff_step api i so))"
  "sends_no opens_parachute (snd so) (snd (recovery_entry_step i so))"
  by (cases so; simp add: cutoff_step_def recovery_entry_step_def sends_no_def Let_def)+

lemma cutoff_step_latch:
  "sf_cutoff_latched (fst (cutoff_step api i so)) = (sf_cutoff_latched (fst so) \<or> cutoff_due i (fst so))"
  by (cases so) (simp add: cutoff_step_def Let_def)

lemma turn_latch: "sf_cutoff_latched (fst (safety_turn api i so)) =
    (sf_cutoff_latched (tracked api i so) \<or> cutoff_due i (tracked api i so))"
  by (simp add: safety_turn_parts step_keeps later_steps_keep cutoff_step_latch)

lemma turn_epoch: "same_flight (sf_tracked_epoch s) i \<Longrightarrow>
    sf_tracked_epoch (fst (safety_turn api i (s, out))) = sf_tracked_epoch s"
  by (simp add: safety_turn_parts step_keeps later_steps_keep tracked_same_flight)

lemma turn_cut_final:
  assumes "sf_cutoff_latched s" and "same_flight (sf_tracked_epoch s) i"
  shows "sf_cutoff_latched (fst (safety_turn api i (s, out)))"
    and "sends_no powers_rail out (snd (safety_turn api i (s, out)))"
proof -
  show "sf_cutoff_latched (fst (safety_turn api i (s, out)))"
    using assms by (simp add: turn_latch tracked_same_flight drained_latched)
  show "sends_no powers_rail out (snd (safety_turn api i (s, out)))"
    unfolding safety_turn_parts
    by (intro sends_no_trans [OF _ later_steps_power_nothing(3)] sends_no_trans [OF _ later_steps_power_nothing(2)]
          sends_no_trans [OF _ later_steps_power_nothing(1)])
       (simp add: drained_latched(2) [OF assms(1)])
qed

lemma run_cut_final:
  assumes "sf_cutoff_latched s" and "\<forall>i\<in>set inputs. same_flight (sf_tracked_epoch s) i"
  shows "sf_cutoff_latched (fst (safety_run api inputs (s, out))) \<and>
    sends_no powers_rail out (snd (safety_run api inputs (s, out)))"
  using assms
proof (induction inputs arbitrary: s out)
  case Nil
  then show ?case by (simp add: safety_run_def sends_no_def)
next
  case (Cons i inputs)
  obtain s1 o1 where t: "safety_turn api i (s, out) = (s1, o1)" by fastforce
  have e: "sf_tracked_epoch s1 = sf_tracked_epoch s" using turn_epoch [where s = s and i = i and api = api and out = out] Cons.prems t by simp
  have l: "sf_cutoff_latched s1" and n: "sends_no powers_rail out o1"
    using turn_cut_final [where s = s and i = i and api = api and out = out] Cons.prems t by simp_all
  have "safety_run api (i # inputs) (s, out) = safety_run api inputs (s1, o1)"
    by (simp add: safety_run_def t)
  then show ?case using Cons.IH [OF l, of o1] Cons.prems(2) e sends_no_trans [OF n] by simp
qed

lemma run_epoch:
  assumes "\<forall>i\<in>set inputs. same_flight (sf_tracked_epoch s) i"
  shows "sf_tracked_epoch (fst (safety_run api inputs (s, out))) = sf_tracked_epoch s"
  using assms
proof (induction inputs arbitrary: s out)
  case (Cons i inputs)
  obtain s1 o1 where t: "safety_turn api i (s, out) = (s1, o1)" by fastforce
  have "sf_tracked_epoch s1 = sf_tracked_epoch s"
    using turn_epoch [where s = s and i = i and api = api and out = out] Cons.prems t by simp
  then show ?case using Cons by (simp add: safety_run_def t)
qed (simp add: safety_run_def)

subsection \<open>The commanded level of the rails\<close>

text \<open>The last level commanded to the auxiliary and the parachute rail.\<close>

definition level_step :: "bool \<times> bool \<Rightarrow> rail_output \<Rightarrow> bool \<times> bool" where
  "level_step l e = (case e of Out_aux b \<Rightarrow> (b, snd l) | Out_para b \<Rightarrow> (fst l, b) | _ \<Rightarrow> l)"

definition rail_levels :: "'d outputs \<Rightarrow> bool \<times> bool" where
  "rail_levels out = foldl level_step (False, False) (ou_sent out)"

lemma levels_of_steps [simp]:
  "rail_levels (cut_rails api out) = (False, False)"
  "rail_levels (recovery_rails api out) = (False, False)"
  by (simp_all add: rail_levels_def level_step_def)

lemma levels_later:
  "rail_levels (snd (deploy_step i so)) = rail_levels (snd so)"
  "rail_levels (snd (recovery_entry_step i so)) = rail_levels (snd so)"
  "rail_levels (snd (cutoff_step api i so)) =
     (if \<not> sf_cutoff_latched (fst so) \<and> cutoff_due i (fst so) then (False, False) else rail_levels (snd so))"
  by (cases so; simp add: deploy_step_def cutoff_step_def recovery_entry_step_def rail_levels_def
        level_step_def Let_def)+

lemma requests_levels:
  assumes "latched \<longrightarrow> rail_levels out = (False, False)"
    and "foldl (power_request_step api) (latched, out) rs = (latched', out')"
  shows "latched' \<longrightarrow> rail_levels out' = (False, False)"
  using assms
proof (induction rs arbitrary: latched out)
  case (Cons r rs)
  obtain l o1 where r: "power_request_step api (latched, out) r = (l, o1)" by fastforce
  have "l \<longrightarrow> rail_levels o1 = (False, False)" using r by (auto simp: power_request_step_def Let_def)
  then show ?case using Cons.IH [of l o1] Cons.prems(2) r by simp
qed simp

lemma turn_rail_levels: "rail_levels (snd (safety_turn api i so)) =
    (if \<not> sf_cutoff_latched (tracked api i so) \<and> cutoff_due i (tracked api i so) then (False, False)
     else rail_levels (snd (drained api i so)))"
  by (simp add: safety_turn_parts levels_later step_keeps later_steps_keep)

lemma turn_levels:
  assumes "sf_cutoff_latched s \<longrightarrow> rail_levels out = (False, False)" and "same_flight (sf_tracked_epoch s) i"
    and t: "safety_turn api i (s, out) = (s', out')" and l: "sf_cutoff_latched s'"
  shows "rail_levels out' = (False, False)"
proof -
  obtain k o1 where d: "drained api i (s, out) = (k, o1)" by fastforce
  have "sf_cutoff_latched s \<longrightarrow>
      rail_levels (if si_recovery_requested i then recovery_rails api out else out) = (False, False)"
    using assms(1) by simp
  from requests_levels [OF this d [unfolded drained_def fst_conv snd_conv]]
  have k: "k \<longrightarrow> rail_levels o1 = (False, False)" .
  have "sf_cutoff_latched (tracked api i (s, out)) = k" by (simp add: tracked_same_flight(2) [OF assms(2)] d)
  then show ?thesis using t l k turn_latch [of api i "(s, out)"] turn_rail_levels [of api i "(s, out)"] d
    by (auto split: if_splits)
qed

lemma run_levels:
  assumes "sf_cutoff_latched s \<longrightarrow> rail_levels out = (False, False)"
    and "\<forall>i\<in>set inputs. same_flight (sf_tracked_epoch s) i"
    and "safety_run api inputs (s, out) = (s', out')" and "sf_cutoff_latched s'"
  shows "rail_levels out' = (False, False)"
  using assms
proof (induction inputs arbitrary: s out)
  case Nil
  then show ?case by (simp add: safety_run_def)
next
  case (Cons i inputs)
  obtain s1 o1 where t: "safety_turn api i (s, out) = (s1, o1)" by fastforce
  have e: "sf_tracked_epoch s1 = sf_tracked_epoch s"
    using turn_epoch [where s = s and i = i and api = api and out = out] Cons.prems(2) t by simp
  have "sf_cutoff_latched s1 \<longrightarrow> rail_levels o1 = (False, False)"
    using turn_levels [OF Cons.prems(1) _ t] Cons.prems(2) by simp
  moreover have "safety_run api (i # inputs) (s, out) = safety_run api inputs (s1, o1)"
    by (simp add: safety_run_def t)
  ultimately show ?case using Cons.IH [of s1 o1] Cons.prems(2-4) e by simp
qed

subsection \<open>The opening of the parachute\<close>

definition open_request :: "u32 \<Rightarrow> rail_output" where
  "open_request epoch = Out_para_request True
     \<lparr>pr_kind = PR_open, pr_flight_epoch = epoch, pr_safety_authorized = True\<rparr>"

lemma turn_opens:
  "filter opens_parachute (ou_sent (snd (safety_turn api i so))) = filter opens_parachute (ou_sent (snd so)) @
     (if \<not> sf_deployment_requested (tracked api i so) \<and> deploy_due i (tracked api i so) \<and> si_open_accepted i
      then [open_request (sf_tracked_epoch (tracked api i so))] else [])"
proof -
  have d: "filter opens_parachute (ou_sent (snd (drained api i so))) = filter opens_parachute (ou_sent (snd so))"
    by (simp add: drained_def requests_open_nothing [unfolded sends_no_def])
  have "filter opens_parachute (ou_sent (snd (safety_turn api i so))) =
      filter opens_parachute (ou_sent (snd (deploy_step i (tracked api i so, snd (drained api i so)))))"
    by (simp add: safety_turn_parts later_steps_open [unfolded sends_no_def])
  then show ?thesis by (simp add: deploy_step_def d open_request_def)
qed

lemma turn_requested: "sf_deployment_requested (fst (safety_turn api i so)) =
    (sf_deployment_requested (tracked api i so) \<or> deploy_due i (tracked api i so) \<and> si_open_accepted i)"
  by (simp add: safety_turn_parts step_keeps) (simp add: deploy_step_def)

lemma turn_tracked:
  "sf_tracked_epoch (fst (safety_turn api i so)) = sf_tracked_epoch (tracked api i so)"
  "safety_elapsed now (fst (safety_turn api i so)) = safety_elapsed now (tracked api i so)"
  "deploy_due i (fst (safety_turn api i so)) = deploy_due i (tracked api i so)"
  "cutoff_due i (fst (safety_turn api i so)) = cutoff_due i (tracked api i so)"
  by (simp_all only: safety_turn_parts step_keeps later_steps_keep fst_conv)

lemma tracked_requested:
  assumes "same_flight (sf_tracked_epoch s) i" and "\<forall>sn. si_snapshot i = Some sn \<longrightarrow> \<not> sn_deployment_started sn"
  shows "sf_deployment_requested (tracked api i (s, out)) = sf_deployment_requested s"
  using assms by (cases "si_snapshot i") (simp_all add: tracked_def track_snapshot_def same_flight_def Let_def)

lemma run_opens:
  assumes "\<forall>i\<in>set inputs. same_flight (sf_tracked_epoch s) i"
    and "\<forall>i\<in>set inputs. \<forall>sn. si_snapshot i = Some sn \<longrightarrow> \<not> sn_deployment_started sn"
    and "safety_run api inputs (s, out) = (s', out')"
  shows "(sf_deployment_requested s \<longrightarrow> sf_deployment_requested s') \<and>
    filter opens_parachute (ou_sent out') = filter opens_parachute (ou_sent out) @
      (if \<not> sf_deployment_requested s \<and> sf_deployment_requested s' then [open_request (sf_tracked_epoch s)] else [])"
  using assms
proof (induction inputs arbitrary: s out)
  case Nil
  then show ?case by (simp add: safety_run_def)
next
  case (Cons i inputs)
  obtain s1 o1 where t: "safety_turn api i (s, out) = (s1, o1)" by fastforce
  have f: "same_flight (sf_tracked_epoch s) i"
    and n: "\<forall>sn. si_snapshot i = Some sn \<longrightarrow> \<not> sn_deployment_started sn" using Cons.prems by simp_all
  have e: "sf_tracked_epoch s1 = sf_tracked_epoch s"
    using turn_epoch [OF f, where api = api and out = out] t by simp
  have r: "sf_deployment_requested s1 = (sf_deployment_requested s \<or>
      deploy_due i (tracked api i (s, out)) \<and> si_open_accepted i)"
    using turn_requested [of api i "(s, out)"] t by (simp add: tracked_requested [OF f n])
  have o1: "filter opens_parachute (ou_sent o1) = filter opens_parachute (ou_sent out) @
      (if \<not> sf_deployment_requested s \<and> sf_deployment_requested s1 then [open_request (sf_tracked_epoch s)] else [])"
    using turn_opens [of api i "(s, out)"] t r
    by (auto simp: tracked_requested [OF f n] tracked_same_flight(1) [OF f])
  have "safety_run api inputs (s1, o1) = (s', out')" using Cons.prems(3) by (simp add: safety_run_def t)
  then show ?case using Cons.IH [of s1 o1] Cons.prems(1,2) e r o1 by auto
qed

lemma safety_run_snoc: "safety_run api (inputs @ [i]) so = safety_turn api i (safety_run api inputs so)"
  by (simp add: safety_run_def)

lemma safety_run_append: "safety_run api (xs @ ys) so = safety_run api ys (safety_run api xs so)"
  by (simp add: safety_run_def)

section \<open>Properties\<close>

text \<open>C31: In one flight the turn of the safety task that sees 25 s since the liftoff latches the cutoff and
  commands both switched rails down, whatever requests the power queue held; after it no turn of the
  same flight ever commands a rail up, and the latch stays.
\<close>

theorem power_cut_for_good:
  assumes "\<forall>k\<in>set (pre @ i # post). same_flight (sf_tracked_epoch s) k"
    and "sf_cutoff_latched s \<longrightarrow> rail_levels out = (False, False)"
    and "safety_run api (pre @ [i]) (s, out) = (s1, o1)" and "safety_run api post (s1, o1) = (s2, o2)"
    and "sf_liftoff_valid s1" and "sf_liftoff_time_us s1 \<le> si_now i"
    and "25000000 \<le> safety_elapsed (si_now i) s1"
  shows "sf_cutoff_latched s1 \<and> rail_levels o1 = (False, False) \<and>
    sf_cutoff_latched s2 \<and> rail_levels o2 = (False, False) \<and> sends_no powers_rail o1 o2"
proof -
  obtain sp op where p: "safety_run api pre (s, out) = (sp, op)" by fastforce
  have t: "safety_turn api i (sp, op) = (s1, o1)" using assms(3) p by (simp add: safety_run_snoc)
  have "cutoff_due i s1" using assms(5-7) by (simp add: cutoff_due_def)
  then have l: "sf_cutoff_latched s1"
    using turn_latch [of api i "(sp, op)"] turn_tracked(4) [of i api "(sp, op)"] t by simp
  have e: "sf_tracked_epoch s1 = sf_tracked_epoch s"
    using run_epoch [of "pre @ [i]" s api out] assms(1,3) by simp
  have "rail_levels o1 = (False, False)"
    by (rule run_levels [OF assms(2) _ assms(3) l]) (use assms(1) in simp)
  moreover have "rail_levels o2 = (False, False)" if "sf_cutoff_latched s2"
    by (rule run_levels [OF _ _ assms(4) that]) (use assms(1) calculation e in simp_all)
  moreover have "sf_cutoff_latched s2 \<and> sends_no powers_rail o1 o2"
    using run_cut_final [OF l, of post api o1] assms(1,4) e by simp
  ultimately show ?thesis using l by blast
qed


text \<open>A board that always obeys, the flight 1 with its liftoff at 2 s, and turns of that flight.\<close>

definition obedient_rails :: "unit rail_api" where
  "obedient_rails = \<lparr>ra_setAux5v = \<lambda>_ d. (EC_ok, d), ra_setParaPower = \<lambda>_ d. (EC_ok, d),
     ra_motorCoast = \<lambda>d. (EC_ok, d)\<rparr>"

definition flight_1 :: safety_state where
  "flight_1 = safety_init\<lparr>sf_tracked_epoch := 1, sf_liftoff_valid := True, sf_liftoff_time_us := 2000000\<rparr>"

definition outputs_1 :: "unit outputs" where
  "outputs_1 = \<lparr>ou_board = (), ou_parachute_power_applied = True, ou_parachute_angle_raw = 0,
     ou_sts_ready = True, ou_para_mode = PM_hold, ou_recovery_power_safe = False, ou_sent = []\<rparr>"

definition turn_at :: "u64 \<Rightarrow> safety_input" where
  "turn_at now = \<lparr>si_recovery_requested = False, si_requests = [power_request_of True True False],
     si_snapshot = None, si_now = now, si_pressure_epoch = 0, si_open_accepted = True,
     si_recovery_accepted = True\<rparr>"

lemma power_cut_for_good_witness:
  "ou_sent (snd (safety_run obedient_rails ([turn_at 26000000] @ [turn_at 27000000]) (flight_1, outputs_1))) =
     [Out_aux True, Out_para True, open_request 1, Out_aux True, Out_para True, Out_aux False, Out_para False,
      Out_para_request False \<lparr>pr_kind = PR_power_off, pr_flight_epoch = 1, pr_safety_authorized = True\<rparr>] \<and>
   rail_levels (snd (safety_run obedient_rails [turn_at 28000000]
     (safety_run obedient_rails ([turn_at 26000000] @ [turn_at 27000000]) (flight_1, outputs_1)))) = (False, False)"
proof -
  let ?r = "safety_run obedient_rails ([turn_at 26000000] @ [turn_at 27000000]) (flight_1, outputs_1)"
  let ?q = "safety_run obedient_rails [turn_at 28000000] ?r"
  have "\<forall>k\<in>set ([turn_at 26000000] @ turn_at 27000000 # [turn_at 28000000]). same_flight (sf_tracked_epoch flight_1) k"
    and "sf_cutoff_latched flight_1 \<longrightarrow> rail_levels outputs_1 = (False, False)"
    and "sf_liftoff_valid (fst ?r)" and "sf_liftoff_time_us (fst ?r) \<le> si_now (turn_at 27000000)"
    and "25000000 \<le> safety_elapsed (si_now (turn_at 27000000)) (fst ?r)"
    by code_simp+
  note h = this
  have "?r = (fst ?r, snd ?r)" and "safety_run obedient_rails [turn_at 28000000] (fst ?r, snd ?r) = (fst ?q, snd ?q)"
    by simp_all
  from power_cut_for_good [OF h(1,2) this h(3-5)] have "rail_levels (snd ?q) = (False, False)" by simp
  moreover have "ou_sent (snd ?r) =
     [Out_aux True, Out_para True, open_request 1, Out_aux True, Out_para True, Out_aux False, Out_para False,
      Out_para_request False \<lparr>pr_kind = PR_power_off, pr_flight_epoch = 1, pr_safety_authorized = True\<rparr>]"
    by code_simp
  ultimately show ?thesis by blast
qed


end
