(* ===== verification/Parachute_Task.thy ===== *)
theory Parachute_Task
  imports Safety_Task State_Guarantees Command_Executor Safety_Core
begin

text \<open>
  \<open>runtime/production_runtime.cpp\<close>, \<open>parachuteTask\<close>: the only owner of the parachute servo. The lambdas
  of the task are operations in the state monad over its captured locals (\<open>para_task\<close>) and the flags
  it shares with the other tasks (\<open>para_shared\<close>); one turn of the loop is \<open>parachute_turn\<close>. The servo
  and its bus, the queues and the mutexes are an API over the external state \<open>'d\<close>; \<open>pa_others\<close> is what
  the other tasks did to the shared flags before an atomic access. \<open>pk_trace\<close> is a history variable:
  it records what the task read and sent, and has no counterpart in the code.
\<close>

unbundle bit_operations_syntax

section \<open>Messages and constants\<close>

record start_response =
  sr_transaction_id :: u8
  sr_reason :: command_reason
  sr_detail :: u32

datatype para_command_kind = PCK_generic | PCK_start_preparation

record para_command =
  pc_kind :: para_command_kind
  pc_command :: generic_command_request

record event_request =
  eq_flags :: u16
  eq_state :: mission_state
  eq_elapsed_raw :: u16
  eq_detail :: u16

datatype deployment_failure = DF_none | DF_move_command_failed | DF_motion_timeout | DF_hold_failed

fun deployment_failure_code :: "deployment_failure \<Rightarrow> u8" where
  "deployment_failure_code DF_none = 0"
| "deployment_failure_code DF_move_command_failed = 4"
| "deployment_failure_code DF_motion_timeout = 5"
| "deployment_failure_code DF_hold_failed = 6"

definition parachute_failure_flag :: u16 where
  "parachute_failure_flag = push_bit 15 1"

text \<open>Degrees of a relative move; the two constants of the code are whole numbers.\<close>

definition kParachuteOpenRelativeDegrees :: int where "kParachuteOpenRelativeDegrees = -130"
definition kParachuteCloseRelativeDegrees :: int where "kParachuteCloseRelativeDegrees = 130"
definition kParachuteDegreesPerCount :: dbl where "kParachuteDegreesPerCount = ddiv (lit 360) (dint 4096)"

definition power_stabilization_ms :: u32 where "power_stabilization_ms = 100"
definition retry_interval_ms :: u32 where "retry_interval_ms = 20"
definition kParachuteCommandReceiveReconnectMs :: u32 where "kParachuteCommandReceiveReconnectMs = 1000"
definition kTelemetryIntervalUs :: u64 where "kTelemetryIntervalUs = 500000"
definition kMotionTimeoutUs :: u64 where "kMotionTimeoutUs = 3000000"

definition EC_timeout :: esp_code where "EC_timeout = EC_other 0x107"
definition EC_invalid_response :: esp_code where "EC_invalid_response = EC_other 0x108"

record raw_data =
  rd_position :: u16
  rd_moving :: bool

section \<open>State\<close>

record 'd para_shared =
  sh_out :: "'d outputs"
  sh_deployment_failure :: u8
  sh_event_overflow_latch :: u16
  sh_failure_overflow_detail :: u16
  sh_result_queue_overflow :: u32

record 'd para_api =
  pi_rails :: "'d rail_api"
  pa_others :: "'d para_shared \<Rightarrow> 'd para_shared"
  pi_snapshot :: "'d \<Rightarrow> mission_snapshot option \<times> 'd"
  pi_lock_executor :: "'d \<Rightarrow> (command_executor \<times> fin_guard) option \<times> 'd"
  pi_unlock_executor :: "command_executor \<times> fin_guard \<Rightarrow> 'd \<Rightarrow> 'd"
  pi_send_power :: "power_request \<Rightarrow> 'd \<Rightarrow> bool \<times> 'd"
  pi_send_result :: "bool \<Rightarrow> command_result \<Rightarrow> 'd \<Rightarrow> bool \<times> 'd"
  pi_send_event :: "event_request \<Rightarrow> 'd \<Rightarrow> bool \<times> 'd"
  pi_send_start_response :: "start_response \<Rightarrow> 'd \<Rightarrow> bool \<times> 'd"
  pi_take_command :: "'d \<Rightarrow> para_command option \<times> 'd"
  bus_initialized :: "'d \<Rightarrow> bool"
  bus_begin :: "'d \<Rightarrow> esp_code \<times> 'd"
  bus_end :: "'d \<Rightarrow> esp_code \<times> 'd"
  servo_initialized :: "'d \<Rightarrow> bool"
  servo_begin :: "'d \<Rightarrow> esp_code \<times> 'd"
  servo_end :: "'d \<Rightarrow> esp_code \<times> 'd"
  servo_configurationValid :: "'d \<Rightarrow> bool"
  servo_configureStepMode :: "'d \<Rightarrow> esp_code \<times> 'd"
  servo_setDirectionNormal :: "'d \<Rightarrow> esp_code \<times> 'd"
  servo_verifyStepMode :: "'d \<Rightarrow> esp_code \<times> 'd"
  servo_holdCurrentPosition :: "'d \<Rightarrow> esp_code \<times> 'd"
  servo_moveRelativeDegrees :: "int \<Rightarrow> 'd \<Rightarrow> esp_code \<times> 'd"
  servo_readRaw :: "'d \<Rightarrow> (esp_code \<times> raw_data) \<times> 'd"

datatype desired_state = DS_holding | DS_moving | DS_powered_off

record motion_operation =
  mo_active :: bool
  mo_automatic :: bool
  mo_pending_start :: bool
  mo_transaction_id :: u8
  mo_flight_epoch :: u32
  mo_started_at_us :: u64
  mo_delta_degrees :: int

definition operation_none :: motion_operation where
  "operation_none = \<lparr>mo_active = False, mo_automatic = False, mo_pending_start = False,
     mo_transaction_id = 0, mo_flight_epoch = 0, mo_started_at_us = 0, mo_delta_degrees = 0\<rparr>"

record command_completion =
  cm_pending :: bool
  cm_transaction_id :: u8
  cm_reason :: command_reason
  cm_detail :: u32

definition completion_none :: command_completion where
  "completion_none = \<lparr>cm_pending = False, cm_transaction_id = 0, cm_reason = CR_none, cm_detail = 0\<rparr>"

datatype para_event =
    Pe_snapshot mission_snapshot | Pe_powered bool | Pe_step_mode | Pe_hold esp_code
  | Pe_move int bool u32 esp_code | Pe_power_request power_request bool | Pe_request para_request
  | Pe_command para_command | Pe_complete u8 command_reason | Pe_failure deployment_failure

record 'd para_task =
  pk_shared :: "'d para_shared"
  pk_desired :: desired_state
  pk_operation :: motion_operation
  pk_completion :: command_completion
  pk_start_response_pending :: bool
  pk_pending_start_response :: start_response
  pk_automatic_open_epoch :: u32
  pk_opened_epoch :: u32
  pk_power_enabled_at_us :: u64
  pk_next_power_request_us :: u64
  pk_next_initialization_attempt_us :: u64
  pk_last_telemetry_read_us :: u64
  pk_power_enabled :: bool
  pk_step_mode_ready :: bool
  pk_hold_established :: bool
  pk_trace :: "para_event list"

definition para_init :: "'d para_shared \<Rightarrow> 'd para_task" where
  "para_init shared = \<lparr>pk_shared = shared, pk_desired = DS_holding, pk_operation = operation_none,
     pk_completion = completion_none, pk_start_response_pending = False,
     pk_pending_start_response = \<lparr>sr_transaction_id = 0, sr_reason = CR_none, sr_detail = 0\<rparr>,
     pk_automatic_open_epoch = 0, pk_opened_epoch = 0, pk_power_enabled_at_us = 0,
     pk_next_power_request_us = 0, pk_next_initialization_attempt_us = 0,
     pk_last_telemetry_read_us = 0, pk_power_enabled = False, pk_step_mode_ready = False,
     pk_hold_established = False, pk_trace = []\<rparr>"

type_synonym ('d, 'a) para = "('d para_task, 'a) state"

section \<open>Access to what is shared\<close>

definition emit :: "para_event \<Rightarrow> ('d, unit) para" where
  "emit e = modify (\<lambda>s. s\<lparr>pk_trace := pk_trace s @ [e]\<rparr>)"

definition shared_update :: "('d para_shared \<Rightarrow> 'd para_shared) \<Rightarrow> ('d, unit) para" where
  "shared_update f = modify (\<lambda>s. s\<lparr>pk_shared := f (pk_shared s)\<rparr>)"

definition out_update :: "('d outputs \<Rightarrow> 'd outputs) \<Rightarrow> ('d, unit) para" where
  "out_update f = shared_update (\<lambda>h. h\<lparr>sh_out := f (sh_out h)\<rparr>)"

definition interfere :: "'d para_api \<Rightarrow> ('d, unit) para" where
  "interfere api = shared_update (pa_others api)"

definition device :: "('d \<Rightarrow> 'a) \<Rightarrow> ('d, 'a) para" where
  "device f = gets (\<lambda>s. f (ou_board (sh_out (pk_shared s))))"

definition call :: "('d \<Rightarrow> 'a \<times> 'd) \<Rightarrow> ('d, 'a) para" where
  "call c = do {
     (a, d) \<leftarrow> device c;
     out_update (\<lambda>out. out\<lparr>ou_board := d\<rparr>);
     ret a }"

definition load_power_applied :: "'d para_api \<Rightarrow> ('d, bool) para" where
  "load_power_applied api = do {
     interfere api;
     applied \<leftarrow> gets (\<lambda>s. ou_parachute_power_applied (sh_out (pk_shared s)));
     emit (Pe_powered applied);
     ret applied }"

definition take_snapshot :: "'d para_api \<Rightarrow> ('d, mission_snapshot option) para" where
  "take_snapshot api = do {
     sn \<leftarrow> call (pi_snapshot api);
     (case sn of None \<Rightarrow> ret () | Some n \<Rightarrow> emit (Pe_snapshot n));
     ret sn }"

definition enqueueResult :: "'d para_api \<Rightarrow> command_result \<Rightarrow> bool \<Rightarrow> ('d, unit) para" where
  "enqueueResult api result priority = do {
     queued \<leftarrow> call (pi_send_result api priority result);
     only_if (\<not> queued) (shared_update
       (\<lambda>h. h\<lparr>sh_result_queue_overflow := sh_result_queue_overflow h + 1\<rparr>)) }"

definition enqueueEvent ::
    "'d para_api \<Rightarrow> u16 \<Rightarrow> mission_state \<Rightarrow> u16 \<Rightarrow> u16 \<Rightarrow> ('d, unit) para" where
  "enqueueEvent api flags st elapsed_raw detail = do {
     queued \<leftarrow> call (pi_send_event api
       \<lparr>eq_flags = flags, eq_state = st, eq_elapsed_raw = elapsed_raw, eq_detail = detail\<rparr>);
     only_if (\<not> queued) (do {
       only_if (flags AND parachute_failure_flag \<noteq> 0) (shared_update
         (\<lambda>h. h\<lparr>sh_failure_overflow_detail := detail\<rparr>));
       shared_update (\<lambda>h. h\<lparr>sh_event_overflow_latch := sh_event_overflow_latch h OR flags\<rparr>) }) }"

section \<open>The lambdas of the task\<close>

definition reconnectIntervalMs :: "'d para_api \<Rightarrow> ('d, u32) para" where
  "reconnectIntervalMs api = do {
     sn \<leftarrow> take_snapshot api;
     ret (if (case sn of None \<Rightarrow> MS_unknown | Some n \<Rightarrow> sn_state n) = MS_command_receive
          then kParachuteCommandReceiveReconnectMs else retry_interval_ms) }"

definition queuePower :: "'d para_api \<Rightarrow> power_request \<Rightarrow> ('d, bool) para" where
  "queuePower api request = do {
     sent \<leftarrow> call (pi_send_power api request);
     emit (Pe_power_request request sent);
     if sent then ret True
     else do {
       only_if (pq_cutoff request \<or> \<not> pq_parachute_power request)
         (out_update (\<lambda>out. snd (setTrackedParaPower (pi_rails api) False out)));
       only_if (pq_cutoff request \<or> \<not> pq_auxiliary_5v request)
         (out_update (\<lambda>out. snd (setAux5v (pi_rails api) False out)));
       ret False } }"

definition end_transport :: "'d para_api \<Rightarrow> ('d, unit) para" where
  "end_transport api = do {
     si \<leftarrow> device (servo_initialized api);
     only_if si (do { _ \<leftarrow> call (servo_end api); ret () });
     bi \<leftarrow> device (bus_initialized api);
     only_if bi (do { _ \<leftarrow> call (bus_end api); ret () }) }"

definition resetTransport :: "'d para_api \<Rightarrow> u64 \<Rightarrow> bool \<Rightarrow> ('d, unit) para" where
  "resetTransport api now_us power_lost = do {
     end_transport api;
     out_update (\<lambda>out. out\<lparr>ou_sts_ready := False\<rparr>);
     modify (\<lambda>s. s\<lparr>pk_step_mode_ready := False, pk_hold_established := False\<rparr>);
     if power_lost
     then modify (\<lambda>s. s\<lparr>pk_power_enabled := False, pk_power_enabled_at_us := 0,
       pk_next_initialization_attempt_us := 0\<rparr>)
     else do {
       applied \<leftarrow> load_power_applied api;
       modify (\<lambda>s. s\<lparr>pk_power_enabled := applied\<rparr>);
       if applied
       then do {
         modify (\<lambda>s. s\<lparr>pk_power_enabled_at_us := now_us\<rparr>);
         ms \<leftarrow> reconnectIntervalMs api;
         modify (\<lambda>s. s\<lparr>pk_next_initialization_attempt_us := now_us + ucast ms * 1000\<rparr>) }
       else modify (\<lambda>s. s\<lparr>pk_power_enabled_at_us := 0, pk_next_initialization_attempt_us := 0\<rparr>) } }"

definition requestPower :: "'d para_api \<Rightarrow> u64 \<Rightarrow> ('d, bool) para" where
  "requestPower api now_us = do {
     applied \<leftarrow> load_power_applied api;
     if applied
     then do {
       enabled \<leftarrow> gets pk_power_enabled;
       only_if (\<not> enabled) (modify (\<lambda>s. s\<lparr>pk_power_enabled := True, pk_power_enabled_at_us := now_us,
         pk_next_initialization_attempt_us := now_us + ucast power_stabilization_ms * 1000\<rparr>));
       modify (\<lambda>s. s\<lparr>pk_next_power_request_us := 0\<rparr>);
       ret True }
     else do {
       enabled \<leftarrow> gets pk_power_enabled;
       only_if enabled (resetTransport api now_us True);
       next_us \<leftarrow> gets pk_next_power_request_us;
       if now_us < next_us then ret True
       else do {
         sent \<leftarrow> queuePower api (power_request_of True True False);
         ms \<leftarrow> reconnectIntervalMs api;
         modify (\<lambda>s. s\<lparr>pk_next_power_request_us := now_us + ucast ms * 1000\<rparr>);
         ret sent } } }"

definition configure_servo :: "'d para_api \<Rightarrow> ('d, bool) para" where
  "configure_servo api = do {
     configured \<leftarrow> call (servo_configureStepMode api);
     if configured \<noteq> EC_ok then ret False
     else do {
       direction \<leftarrow> call (servo_setDirectionNormal api);
       if direction \<noteq> EC_ok then ret False
       else do {
         verified \<leftarrow> call (servo_verifyStepMode api);
         modify (\<lambda>s. s\<lparr>pk_step_mode_ready := verified = EC_ok\<rparr>);
         only_if (verified = EC_ok) (emit Pe_step_mode);
         ret True } } }"

text \<open>Each failing call of the sequence returns false at once.\<close>

definition start_servo :: "'d para_api \<Rightarrow> ('d, bool) para" where
  "start_servo api = do {
     bi \<leftarrow> device (bus_initialized api);
     began \<leftarrow> (if bi then ret EC_ok else call (bus_begin api));
     if began \<noteq> EC_ok then ret False
     else do {
       si \<leftarrow> device (servo_initialized api);
       started \<leftarrow> (if si then ret EC_ok else call (servo_begin api));
       if started \<noteq> EC_ok then ret False
       else do {
         valid_configuration \<leftarrow> device (servo_configurationValid api);
         if \<not> valid_configuration then do { _ \<leftarrow> call (servo_end api); ret False }
         else do {
           ready \<leftarrow> gets pk_step_mode_ready;
           configured \<leftarrow> (if ready then ret True else configure_servo api);
           if \<not> configured then ret False
           else do {
             ready \<leftarrow> gets pk_step_mode_ready;
             out_update (\<lambda>out. out\<lparr>ou_sts_ready := ready\<rparr>);
             ret ready } } } } }"

definition initializeServo :: "'d para_api \<Rightarrow> u64 \<Rightarrow> ('d, bool) para" where
  "initializeServo api now_us = do {
     applied \<leftarrow> load_power_applied api;
     wait \<leftarrow> gets (\<lambda>s. \<not> pk_power_enabled s \<or>
       now_us < pk_power_enabled_at_us s + ucast power_stabilization_ms * 1000 \<or>
       now_us < pk_next_initialization_attempt_us s);
     if \<not> applied \<or> wait then ret False
     else do {
       ms \<leftarrow> reconnectIntervalMs api;
       modify (\<lambda>s. s\<lparr>pk_next_initialization_attempt_us := now_us + ucast ms * 1000\<rparr>);
       start_servo api } }"

definition establishHold :: "'d para_api \<Rightarrow> ('d, esp_code) para" where
  "establishHold api = do {
     si \<leftarrow> device (servo_initialized api);
     ready \<leftarrow> gets pk_step_mode_ready;
     if \<not> si \<or> \<not> ready then ret EC_invalid_state
     else do {
       result \<leftarrow> call (servo_holdCurrentPosition api);
       emit (Pe_hold result);
       only_if (result = EC_ok) (do {
         modify (\<lambda>s. s\<lparr>pk_hold_established := True, pk_desired := DS_holding\<rparr>);
         out_update (\<lambda>out. out\<lparr>ou_para_mode := PM_hold\<rparr>) });
       ret result } }"

definition updateTelemetry :: "(dbl \<Rightarrow> int) \<Rightarrow> 'd para_api \<Rightarrow> ('d, esp_code) para" where
  "updateTelemetry ovf api = do {
     (result, data) \<leftarrow> call (servo_readRaw api);
     if result \<noteq> EC_ok then ret result
     else (case fromCount (rd_position data) of
       None \<Rightarrow> do {
         out_update (\<lambda>out. out\<lparr>ou_parachute_angle_raw := parachute_angle_error_code PAE_position_out_of_range\<rparr>);
         ret EC_invalid_response }
     | Some current \<Rightarrow> do {
         out_update (\<lambda>out. out\<lparr>ou_parachute_angle_raw := encodeParachuteAngle ovf
           (dmul (dint (uint current)) kParachuteDegreesPerCount) PAE_position_invalid\<rparr>);
         ret EC_ok }) }"

definition queueGenericCompletion :: "u8 \<Rightarrow> command_reason \<Rightarrow> u32 \<Rightarrow> ('d, unit) para" where
  "queueGenericCompletion transaction_id reason detail =
     only_if (transaction_id \<noteq> 0) (modify (\<lambda>s. s\<lparr>pk_completion :=
       \<lparr>cm_pending = True, cm_transaction_id = transaction_id, cm_reason = reason, cm_detail = detail\<rparr>\<rparr>))"

definition flushGenericCompletion :: "'d para_api \<Rightarrow> ('d, unit) para" where
  "flushGenericCompletion api = do {
     c \<leftarrow> gets pk_completion;
     only_if (cm_pending c) (do {
       locked \<leftarrow> call (pi_lock_executor api);
       (case locked of None \<Rightarrow> ret ()
       | Some (ex, g) \<Rightarrow> do {
           (result, ex, g) \<leftarrow> ret (executor_finish (cm_transaction_id c)
             (if cm_reason c = CR_none then CP_completed else CP_failed) (cm_reason c) (cm_detail c) ex g);
           call (\<lambda>d. ((), pi_unlock_executor api (ex, g) d));
           modify (\<lambda>s. s\<lparr>pk_completion := completion_none\<rparr>);
           emit (Pe_complete (cm_transaction_id c) (cm_reason c));
           only_if (res_command result \<noteq> 0) (enqueueResult api result False) }) }) }"

definition latchDeploymentFailure :: "'d para_api \<Rightarrow> deployment_failure \<Rightarrow> ('d, unit) para" where
  "latchDeploymentFailure api failure = do {
     interfere api;
     latched \<leftarrow> gets (\<lambda>s. sh_deployment_failure (pk_shared s));
     emit (Pe_failure failure);
     only_if (latched = 0) (do {
       shared_update (\<lambda>h. h\<lparr>sh_deployment_failure := deployment_failure_code failure\<rparr>);
       enqueueEvent api parachute_failure_flag MS_descent 0 (ucast (deployment_failure_code failure)) }) }"

definition startMove :: "'d para_api \<Rightarrow> int \<Rightarrow> bool \<Rightarrow> u8 \<Rightarrow> u32 \<Rightarrow> u64 \<Rightarrow> ('d, bool) para" where
  "startMove api delta_degrees automatic transaction_id flight_epoch now_us = do {
     held \<leftarrow> establishHold api;
     result \<leftarrow> (if held = EC_ok
       then do {
         moved \<leftarrow> call (servo_moveRelativeDegrees api delta_degrees);
         emit (Pe_move delta_degrees automatic flight_epoch moved);
         ret moved }
       else ret held);
     if result \<noteq> EC_ok
     then do {
       (if automatic then latchDeploymentFailure api DF_move_command_failed
        else queueGenericCompletion transaction_id
          (if result = EC_timeout then CR_timeout else CR_device_unavailable) 0);
       resetTransport api now_us False;
       ret False }
     else do {
       modify (\<lambda>s. s\<lparr>pk_operation := \<lparr>mo_active = True, mo_automatic = automatic, mo_pending_start = False,
           mo_transaction_id = transaction_id, mo_flight_epoch = flight_epoch,
           mo_started_at_us = now_us, mo_delta_degrees = delta_degrees\<rparr>,
         pk_desired := DS_moving, pk_hold_established := False\<rparr>);
       out_update (\<lambda>out. out\<lparr>ou_para_mode := (if delta_degrees = kParachuteCloseRelativeDegrees
         then PM_closing else PM_opening_or_retrying)\<rparr>);
       ret True } }"

section \<open>The turn of the loop\<close>

definition powerOff_request :: "'d para_api \<Rightarrow> para_request \<Rightarrow> ('d, unit) para" where
  "powerOff_request api request = do {
     s \<leftarrow> gets id;
     only_if (pr_safety_authorized request)
       (if mo_active (pk_operation s) \<and> mo_automatic (pk_operation s)
        then latchDeploymentFailure api DF_motion_timeout
        else only_if (pk_automatic_open_epoch s \<noteq> 0 \<and> pk_opened_epoch s \<noteq> pk_automatic_open_epoch s)
          (latchDeploymentFailure api DF_move_command_failed));
     modify (\<lambda>s. s\<lparr>pk_operation := operation_none, pk_completion := completion_none,
       pk_desired := DS_powered_off\<rparr>);
     end_transport api;
     _ \<leftarrow> queuePower api (power_request_of False False (pr_safety_authorized request));
     out_update (\<lambda>out. out\<lparr>ou_sts_ready := False, ou_para_mode := PM_powered_off\<rparr>);
     modify (\<lambda>s. s\<lparr>pk_power_enabled := False, pk_step_mode_ready := False, pk_hold_established := False\<rparr>) }"

definition open_request_step :: "'d para_api \<Rightarrow> u64 \<Rightarrow> para_request \<Rightarrow> ('d, unit) para" where
  "open_request_step api now_us request = do {
     current_request \<leftarrow> (if pr_safety_authorized request then ret True
       else do {
         sn \<leftarrow> take_snapshot api;
         ret (case sn of None \<Rightarrow> False
           | Some n \<Rightarrow> pr_flight_epoch request \<noteq> 0 \<and> pr_flight_epoch request = sn_flight_epoch n \<and>
               sn_state n = MS_descent) });
     s \<leftarrow> gets id;
     only_if (current_request \<and> pk_opened_epoch s \<noteq> pr_flight_epoch request \<and>
         pk_automatic_open_epoch s \<noteq> pr_flight_epoch request) (do {
       modify (\<lambda>s. s\<lparr>pk_automatic_open_epoch := pr_flight_epoch request, pk_desired := DS_holding,
         pk_hold_established := False\<rparr>);
       _ \<leftarrow> requestPower api now_us;
       ret () }) }"

definition para_request_step :: "'d para_api \<Rightarrow> u64 \<Rightarrow> para_request \<Rightarrow> ('d, unit) para" where
  "para_request_step api now_us request = do {
     emit (Pe_request request);
     (case pr_kind request of
       PR_power_off \<Rightarrow> powerOff_request api request
     | PR_hold \<Rightarrow> modify (\<lambda>s. s\<lparr>pk_operation := operation_none, pk_completion := completion_none,
         pk_desired := DS_holding, pk_hold_established := False\<rparr>)
     | PR_open \<Rightarrow> open_request_step api now_us request) }"

definition take_command :: "'d para_api \<Rightarrow> u64 \<Rightarrow> ('d, unit) para" where
  "take_command api now_us = do {
     s \<leftarrow> gets id;
     only_if (\<not> mo_active (pk_operation s) \<and> \<not> mo_pending_start (pk_operation s) \<and>
         \<not> cm_pending (pk_completion s) \<and> \<not> pk_start_response_pending s) (do {
       received \<leftarrow> call (pi_take_command api);
       (case received of None \<Rightarrow> ret ()
       | Some r \<Rightarrow> do {
           emit (Pe_command r);
           transaction_id \<leftarrow> ret (gcr_transaction_id (pc_command r));
           if pc_kind r = PCK_start_preparation
           then modify (\<lambda>s. s\<lparr>pk_pending_start_response :=
               \<lparr>sr_transaction_id = transaction_id, sr_reason = CR_none, sr_detail = 0\<rparr>,
             pk_start_response_pending := True\<rparr>)
           else if gcr_command (pc_command r) \<noteq> cc CC_para_open \<and>
                   gcr_command (pc_command r) \<noteq> cc CC_para_close
           then queueGenericCompletion transaction_id CR_not_supported 0
           else do {
             modify (\<lambda>s. s\<lparr>pk_operation := operation_none\<lparr>mo_pending_start := True,
                 mo_transaction_id := transaction_id,
                 mo_delta_degrees := (if gcr_command (pc_command r) = cc CC_para_open
                   then kParachuteOpenRelativeDegrees else kParachuteCloseRelativeDegrees)\<rparr>,
               pk_desired := DS_holding, pk_hold_established := False\<rparr>);
             _ \<leftarrow> requestPower api now_us;
             ret () } }) }) }"

text \<open>The start of a move: a manual command first, else the automatic opening, else the hold.\<close>

definition automatic_open :: "'d para_api \<Rightarrow> u64 \<Rightarrow> ('d, unit) para" where
  "automatic_open api now_us = do {
     sn \<leftarrow> take_snapshot api;
     epoch \<leftarrow> gets pk_automatic_open_epoch;
     only_if (case sn of None \<Rightarrow> False
         | Some n \<Rightarrow> sn_flight_epoch n = epoch \<and> sn_state n = MS_descent \<and> \<not> sn_power_cutoff_latched n) (do {
       modify (\<lambda>s. s\<lparr>pk_opened_epoch := epoch\<rparr>);
       _ \<leftarrow> startMove api kParachuteOpenRelativeDegrees True 0 epoch now_us;
       ret () }) }"

definition begin_motion :: "'d para_api \<Rightarrow> u64 \<Rightarrow> ('d, unit) para" where
  "begin_motion api now_us = do {
     s \<leftarrow> gets id;
     if mo_pending_start (pk_operation s)
     then do {
       modify (\<lambda>s. s\<lparr>pk_operation := operation_none\<rparr>);
       _ \<leftarrow> startMove api (mo_delta_degrees (pk_operation s)) False (mo_transaction_id (pk_operation s)) 0 now_us;
       ret () }
     else if pk_automatic_open_epoch s \<noteq> 0 \<and> pk_opened_epoch s \<noteq> pk_automatic_open_epoch s \<and>
             \<not> mo_active (pk_operation s)
     then automatic_open api now_us
     else only_if (\<not> mo_active (pk_operation s) \<and> \<not> pk_hold_established s) (do {
       held \<leftarrow> establishHold api;
       only_if (held \<noteq> EC_ok) (resetTransport api now_us False) }) }"

text \<open>A move has stopped, or has lasted 3 s.\<close>

definition motion_stopped :: "'d para_api \<Rightarrow> u64 \<Rightarrow> motion_operation \<Rightarrow> ('d, unit) para" where
  "motion_stopped api now_us op = do {
     modify (\<lambda>s. s\<lparr>pk_operation := operation_none\<rparr>);
     held \<leftarrow> establishHold api;
     if held \<noteq> EC_ok
     then do {
       resetTransport api now_us False;
       (if mo_automatic op then latchDeploymentFailure api DF_hold_failed
        else queueGenericCompletion (mo_transaction_id op) CR_device_unavailable 0) }
     else only_if (\<not> mo_automatic op) (queueGenericCompletion (mo_transaction_id op) CR_none 0) }"

definition motion_expired :: "'d para_api \<Rightarrow> u64 \<Rightarrow> motion_operation \<Rightarrow> ('d, unit) para" where
  "motion_expired api now_us op = do {
     modify (\<lambda>s. s\<lparr>pk_operation := operation_none\<rparr>);
     held \<leftarrow> establishHold api;
     only_if (held \<noteq> EC_ok) (resetTransport api now_us False);
     (if mo_automatic op
      then latchDeploymentFailure api (if held = EC_ok then DF_motion_timeout else DF_hold_failed)
      else queueGenericCompletion (mo_transaction_id op) CR_timeout 0) }"

definition watch_motion :: "'d para_api \<Rightarrow> u64 \<Rightarrow> ('d, unit) para" where
  "watch_motion api now_us = do {
     op \<leftarrow> gets pk_operation;
     only_if (mo_active op) (do {
       (read, data) \<leftarrow> call (servo_readRaw api);
       if read = EC_ok \<and> \<not> rd_moving data then motion_stopped api now_us op
       else only_if (now_us - mo_started_at_us op \<ge> kMotionTimeoutUs) (motion_expired api now_us op) }) }"

definition telemetry_step :: "(dbl \<Rightarrow> int) \<Rightarrow> 'd para_api \<Rightarrow> u64 \<Rightarrow> ('d, unit) para" where
  "telemetry_step ovf api now_us = do {
     last_us \<leftarrow> gets pk_last_telemetry_read_us;
     only_if (now_us - last_us \<ge> kTelemetryIntervalUs) (do {
       modify (\<lambda>s. s\<lparr>pk_last_telemetry_read_us := now_us\<rparr>);
       result \<leftarrow> updateTelemetry ovf api;
       op \<leftarrow> gets pk_operation;
       only_if (result \<noteq> EC_ok \<and> \<not> mo_active op) (resetTransport api now_us False) }) }"

definition send_start_response :: "'d para_api \<Rightarrow> ('d, unit) para" where
  "send_start_response api = do {
     s \<leftarrow> gets id;
     only_if (pk_start_response_pending s) (do {
       sent \<leftarrow> call (pi_send_start_response api (pk_pending_start_response s));
       only_if sent (modify (\<lambda>s. s\<lparr>pk_start_response_pending := False\<rparr>)) }) }"

definition drive_servo :: "(dbl \<Rightarrow> int) \<Rightarrow> 'd para_api \<Rightarrow> u64 \<Rightarrow> ('d, unit) para" where
  "drive_servo ovf api now_us = do {
     _ \<leftarrow> requestPower api now_us;
     ready \<leftarrow> initializeServo api now_us;
     only_if ready (do {
       begin_motion api now_us;
       watch_motion api now_us;
       telemetry_step ovf api now_us }) }"

text \<open>
  One turn at the clock value \<open>now_us\<close>; \<open>requests\<close> are the messages of the deployment queue until
  it is empty.
\<close>

definition parachute_turn :: "(dbl \<Rightarrow> int) \<Rightarrow> 'd para_api \<Rightarrow> u64 \<times> para_request list \<Rightarrow> ('d, unit) para" where
  "parachute_turn ovf api input = do {
     flushGenericCompletion api;
     send_start_response api;
     each (para_request_step api (fst input)) (snd input);
     take_command api (fst input);
     desired \<leftarrow> gets pk_desired;
     only_if (desired \<noteq> DS_powered_off) (drive_servo ovf api (fst input)) }"

definition parachute_run ::
    "(dbl \<Rightarrow> int) \<Rightarrow> 'd para_api \<Rightarrow> (u64 \<times> para_request list) list \<Rightarrow> 'd para_task \<Rightarrow> 'd para_task" where
  "parachute_run ovf api inputs s = snd (run_state (each (parachute_turn ovf api) inputs) s)"

section \<open>What the operations leave alone\<close>

text \<open>Events that are neither a move, a message taken nor a completion.\<close>

fun quiet :: "para_event \<Rightarrow> bool" where
  "quiet (Pe_move _ _ _ _) = False"
| "quiet (Pe_request _) = False"
| "quiet (Pe_command _) = False"
| "quiet (Pe_complete _ _) = False"
| "quiet _ = True"

text \<open>The epochs, the operation and the completion stay, and the new events are all in \<open>Q\<close>.\<close>

definition leaves :: "(para_event \<Rightarrow> bool) \<Rightarrow> 'd para_task \<Rightarrow> 'd para_task \<Rightarrow> bool" where
  "leaves Q s s' = (pk_operation s' = pk_operation s \<and> pk_completion s' = pk_completion s \<and>
     pk_automatic_open_epoch s' = pk_automatic_open_epoch s \<and> pk_opened_epoch s' = pk_opened_epoch s \<and>
     (\<exists>es. pk_trace s' = pk_trace s @ es \<and> list_all Q es))"

lemma leaves_preorder: "preorder_rel (leaves Q)"
  by (fastforce simp: preorder_rel_def leaves_def)

interpretation pv: guarantee "leaves Q"
  by unfold_locales (rule leaves_preorder)

lemma guar_emit: "Q e \<Longrightarrow> guar (leaves Q) (emit e)"
  by (simp add: emit_def guar_def leaves_def)

lemma guar_modify:
  "(\<And>s. pk_operation (f s) = pk_operation s \<and> pk_completion (f s) = pk_completion s \<and>
     pk_automatic_open_epoch (f s) = pk_automatic_open_epoch s \<and> pk_opened_epoch (f s) = pk_opened_epoch s \<and>
     pk_trace (f s) = pk_trace s) \<Longrightarrow> guar (leaves Q) (modify f)"
  by (rule pv.modify) (simp add: leaves_def)

lemma guar_shared: "guar (leaves Q) (shared_update f)"
  unfolding shared_update_def by (rule guar_modify) simp

lemma guar_out: "guar (leaves Q) (out_update f)"
  unfolding out_update_def by (rule guar_shared)

lemma guar_device: "guar (leaves Q) (device f)"
  unfolding device_def by (rule pv.gets)

lemma guar_call: "guar (leaves Q) (call c)"
  unfolding call_def by (intro pv.construct guar_device guar_out)

lemmas guar_access = pv.construct guar_device guar_out guar_shared guar_call

lemma guar_interfere: "guar (leaves Q) (interfere api)"
  unfolding interfere_def by (rule guar_shared)

named_theorems guar_ops \<open>operations of the task that leave the command and the epochs alone\<close>

declare guar_interfere [guar_ops]

lemma guar_load [guar_ops]: "guar (leaves quiet) (load_power_applied api)"
  unfolding load_power_applied_def by (intro guar_access guar_interfere guar_emit) simp

lemma guar_snapshot [guar_ops]: "guar (leaves quiet) (take_snapshot api)"
  unfolding take_snapshot_def by (intro guar_access guar_emit) simp

lemma guar_enqueueResult [guar_ops]: "guar (leaves Q) (enqueueResult api r p)"
  unfolding enqueueResult_def by (intro guar_access)

lemma guar_enqueueEvent [guar_ops]: "guar (leaves Q) (enqueueEvent api f st e d)"
  unfolding enqueueEvent_def by (intro guar_access)

lemma guar_reconnect [guar_ops]: "guar (leaves quiet) (reconnectIntervalMs api)"
  unfolding reconnectIntervalMs_def by (intro guar_access guar_snapshot)

lemma guar_queuePower [guar_ops]: "guar (leaves quiet) (queuePower api r)"
  unfolding queuePower_def by (intro guar_access guar_emit) simp

lemma guar_end_transport [guar_ops]: "guar (leaves Q) (end_transport api)"
  unfolding end_transport_def by (intro guar_access)

lemma guar_resetTransport [guar_ops]: "guar (leaves quiet) (resetTransport api now_us lost)"
  unfolding resetTransport_def
  by (intro guar_access guar_end_transport guar_load guar_reconnect guar_modify) simp_all

lemma guar_requestPower [guar_ops]: "guar (leaves quiet) (requestPower api now_us)"
  unfolding requestPower_def
  by (intro guar_access guar_load guar_resetTransport guar_queuePower guar_reconnect guar_modify) simp_all

text \<open>The servo is configured without a load of the power flag.\<close>

definition no_load :: "para_event \<Rightarrow> bool" where
  "no_load e = (quiet e \<and> (\<forall>b. e \<noteq> Pe_powered b))"

lemma no_load_simps [simp]:
  "no_load (Pe_snapshot n)" "no_load Pe_step_mode" "no_load (Pe_hold r)" "\<not> no_load (Pe_powered b)"
  by (simp_all add: no_load_def)

lemma guar_snapshot_no_load: "guar (leaves no_load) (take_snapshot api)"
  unfolding take_snapshot_def by (intro guar_access guar_emit) simp

lemma guar_reconnect_no_load: "guar (leaves no_load) (reconnectIntervalMs api)"
  unfolding reconnectIntervalMs_def by (intro guar_access guar_snapshot_no_load)

lemma guar_start_servo: "guar (leaves no_load) (start_servo api)"
  unfolding start_servo_def configure_servo_def
  by (intro guar_access guar_emit guar_modify) simp_all

lemma guar_establishHold: "guar (leaves no_load) (establishHold api)"
  unfolding establishHold_def by (intro guar_access guar_emit guar_modify) simp_all

lemma leaves_mono: "guar (leaves no_load) m \<Longrightarrow> guar (leaves quiet) m"
  unfolding guar_def leaves_def by (metis (no_types, lifting) list.pred_mono_strong no_load_def)

lemma guar_initializeServo [guar_ops]: "guar (leaves quiet) (initializeServo api now_us)"
  unfolding initializeServo_def
  by (intro guar_access guar_load guar_reconnect leaves_mono [OF guar_start_servo] guar_modify) simp_all

lemma guar_updateTelemetry [guar_ops]: "guar (leaves Q) (updateTelemetry ovf api)"
  unfolding updateTelemetry_def by (intro guar_access)

lemma guar_latch [guar_ops]: "guar (leaves quiet) (latchDeploymentFailure api failure)"
  unfolding latchDeploymentFailure_def
  by (intro guar_access guar_interfere guar_enqueueEvent guar_emit) simp

lemma guar_telemetry [guar_ops]: "guar (leaves quiet) (telemetry_step ovf api now_us)"
  unfolding telemetry_step_def by (intro guar_access guar_updateTelemetry guar_resetTransport guar_modify) simp_all

lemma guar_send_response [guar_ops]: "guar (leaves quiet) (send_start_response api)"
  unfolding send_start_response_def by (intro guar_access guar_modify) simp_all

lemma run_call: "run_state (call c) s = (fst (c (ou_board (sh_out (pk_shared s)))),
    s\<lparr>pk_shared := (pk_shared s)\<lparr>sh_out := (sh_out (pk_shared s))
      \<lparr>ou_board := snd (c (ou_board (sh_out (pk_shared s))))\<rparr>\<rparr>\<rparr>)"
  by (simp add: call_def device_def out_update_def shared_update_def split_beta)

end
