(* ===== verification/Parachute_Moves.thy ===== *)
theory Parachute_Moves
  imports Parachute_Task
begin

text \<open>
  The moves of the parachute servo over a whole run of the task, read from the trace: when a move is
  issued (\<open>trace_allowed event_allowed\<close>) and that the automatic opening happens once per flight (\<open>epochs_ok\<close>). The
  invariant \<open>moves_inv\<close> is carried through the operations: those with a guarantee keep it at once,
  \<open>startMove\<close> and the operations that lead to it have triples.
\<close>

section \<open>The moves of the servo\<close>

definition load_step :: "bool option \<Rightarrow> para_event \<Rightarrow> bool option" where
  "load_step l e = (case e of Pe_powered b \<Rightarrow> Some b | _ \<Rightarrow> l)"

text \<open>The value of the last load of the power flag.\<close>

definition last_load :: "para_event list \<Rightarrow> bool option" where
  "last_load tr = foldl load_step None tr"

definition snapshots :: "para_event list \<Rightarrow> mission_snapshot list" where
  "snapshots tr = concat (map (\<lambda>e. case e of Pe_snapshot n \<Rightarrow> [n] | _ \<Rightarrow> []) tr)"

definition snapshot_epochs :: "para_event list \<Rightarrow> u32 list" where
  "snapshot_epochs tr = map sn_flight_epoch (snapshots tr)"

definition automatic_epochs :: "para_event list \<Rightarrow> u32 list" where
  "automatic_epochs tr = concat (map (\<lambda>e. case e of Pe_move _ automatic epoch _ \<Rightarrow>
     if automatic then [epoch] else [] | _ \<Rightarrow> []) tr)"

text \<open>
  A move may follow the trace: the last load of the power flag was true, the position was just
  held, and an automatic move is the opening of the flight of the last snapshot, in descent and
  before the power cutoff.
\<close>

definition move_allowed :: "para_event list \<Rightarrow> int \<Rightarrow> bool \<Rightarrow> u32 \<Rightarrow> bool" where
  "move_allowed tr degrees automatic epoch =
     (last_load tr = Some True \<and> tr \<noteq> [] \<and> last tr = Pe_hold EC_ok \<and>
      (if automatic
       then degrees = kParachuteOpenRelativeDegrees \<and> snapshots tr \<noteq> [] \<and>
         (let n = last (snapshots tr) in
          sn_flight_epoch n = epoch \<and> sn_state n = MS_descent \<and> \<not> sn_power_cutoff_latched n)
       else True))"

definition event_allowed :: "para_event list \<Rightarrow> para_event \<Rightarrow> bool" where
  "event_allowed tr e = (case e of
     Pe_move degrees automatic epoch _ \<Rightarrow> move_allowed tr degrees automatic epoch | _ \<Rightarrow> True)"

lemma event_allowed_quiet [simp]: "quiet e \<Longrightarrow> event_allowed tr e"
  by (cases e) (simp_all add: event_allowed_def)

lemma trace_snoc [simp]:
  "last_load (tr @ [e]) = load_step (last_load tr) e"
  "snapshots (tr @ [e]) = snapshots tr @ (case e of Pe_snapshot n \<Rightarrow> [n] | _ \<Rightarrow> [])"
  "snapshot_epochs (tr @ [e]) = snapshot_epochs tr @ (case e of Pe_snapshot n \<Rightarrow> [sn_flight_epoch n] | _ \<Rightarrow> [])"
  "automatic_epochs (tr @ [e]) = automatic_epochs tr @
     (case e of Pe_move _ automatic epoch _ \<Rightarrow> if automatic then [epoch] else [] | _ \<Rightarrow> [])"
  by (simp_all add: last_load_def snapshots_def snapshot_epochs_def automatic_epochs_def
        split: para_event.splits)

text \<open>
  The epochs of the automatic moves, as long as the flight epoch never goes back: strictly
  increasing and at most the epoch opened last, which is not beyond the last snapshot.
\<close>

definition epochs_ok :: "para_event list \<Rightarrow> u32 \<Rightarrow> bool" where
  "epochs_ok tr opened = (sorted (snapshot_epochs tr) \<longrightarrow>
     sorted_wrt (<) (automatic_epochs tr) \<and> (\<forall>e\<in>set (automatic_epochs tr). e \<le> opened) \<and>
     opened \<le> last (0 # snapshot_epochs tr))"

definition moves_inv :: "'d para_task \<Rightarrow> bool" where
  "moves_inv s = (trace_allowed event_allowed (pk_trace s) \<and> epochs_ok (pk_trace s) (pk_opened_epoch s))"

lemma sorted_snoc_last: "sorted (xs @ [x]) \<Longrightarrow> last ((0 :: u32) # xs) \<le> x"
  by (auto simp: sorted_append)

lemma epochs_ok_quiet: "epochs_ok tr opened \<Longrightarrow> quiet e \<Longrightarrow> epochs_ok (tr @ [e]) opened"
proof (cases e)
  case (Pe_snapshot n)
  assume ok: "epochs_ok tr opened"
  show ?thesis unfolding epochs_ok_def
  proof
    assume "sorted (snapshot_epochs (tr @ [e]))"
    then have s: "sorted (snapshot_epochs tr @ [sn_flight_epoch n])" by (simp add: Pe_snapshot)
    then have "sorted (snapshot_epochs tr)" by (simp add: sorted_append)
    with ok sorted_snoc_last [OF s] show "sorted_wrt (<) (automatic_epochs (tr @ [e])) \<and>
        (\<forall>e\<in>set (automatic_epochs (tr @ [e])). e \<le> opened) \<and> opened \<le> last (0 # snapshot_epochs (tr @ [e]))"
      by (auto simp: Pe_snapshot epochs_ok_def)
  qed
qed (simp_all add: epochs_ok_def)

lemma trace_inv_quiet:
  assumes "trace_allowed event_allowed tr" and "epochs_ok tr opened" and "list_all quiet es"
  shows "trace_allowed event_allowed (tr @ es) \<and> epochs_ok (tr @ es) opened"
proof
  show "trace_allowed event_allowed (tr @ es)" using assms(1,3) by (rule trace_allowed_quiet) simp
  show "epochs_ok (tr @ es) opened" using assms(2,3)
  proof (induction es rule: rev_induct)
    case (snoc e es)
    then show ?case using epochs_ok_quiet [of "tr @ es" opened e] by simp
  qed simp
qed

lemma load_no_load: "list_all no_load es \<Longrightarrow> last_load (tr @ es) = last_load tr"
proof (induction es rule: rev_induct)
  case (snoc e es)
  then show ?case using trace_snoc(1) [of "tr @ es" e]
    by (cases e) (simp_all add: load_step_def)
qed simp

lemma moves_inv_leaves: "moves_inv s \<Longrightarrow> leaves quiet s s' \<Longrightarrow> moves_inv s'"
  unfolding moves_inv_def leaves_def using trace_inv_quiet by metis

lemma moves_inv_local:
  assumes "moves_inv s" and "pk_trace s' = pk_trace s" and "pk_opened_epoch s' = pk_opened_epoch s"
  shows "moves_inv s'"
  using assms by (simp add: moves_inv_def)

lemma keeps_moves_ops: "guar (leaves quiet) m \<Longrightarrow> keeps moves_inv m"
  by (erule guar_keeps) (rule moves_inv_leaves)

lemma keeps_moves_local:
  "(\<And>s. pk_trace (f s) = pk_trace s \<and> pk_opened_epoch (f s) = pk_opened_epoch s) \<Longrightarrow> keeps moves_inv (modify f)"
  by (rule keeps_modify) (erule moves_inv_local, simp_all)

text \<open>Only a move needs a permission.\<close>

fun is_move :: "para_event \<Rightarrow> bool" where
  "is_move (Pe_move _ _ _ _) = True"
| "is_move _ = False"

lemma keeps_moves_emit: "\<not> is_move ev \<Longrightarrow> keeps moves_inv (emit ev)"
  by (cases ev) (simp_all add: emit_def keeps_def moves_inv_def event_allowed_def epochs_ok_quiet,
      simp_all add: epochs_ok_def)

lemma keeps_moves_completion: "keeps moves_inv (queueGenericCompletion tx r d)"
  unfolding queueGenericCompletion_def by (intro keeps_only_if keeps_moves_local) simp

lemmas keeps_moves = keeps_rules keeps_moves_ops [OF guar_shared] keeps_moves_ops [OF guar_device]
  keeps_moves_ops [OF guar_call] keeps_moves_ops [OF guar_out] keeps_moves_local keeps_moves_emit
  keeps_moves_completion

text \<open>The automatic move of \<open>epoch\<close> would be the first of its flight.\<close>

definition fresh :: "u32 \<Rightarrow> 'd para_task \<Rightarrow> bool" where
  "fresh epoch s = (pk_opened_epoch s = epoch \<and>
     (sorted (snapshot_epochs (pk_trace s)) \<longrightarrow> (\<forall>e\<in>set (automatic_epochs (pk_trace s)). e < epoch)))"

definition may_move :: "int \<Rightarrow> bool \<Rightarrow> u32 \<Rightarrow> 'd para_task \<Rightarrow> bool" where
  "may_move degrees automatic epoch s = (moves_inv s \<and> last_load (pk_trace s) = Some True \<and>
     (automatic \<longrightarrow> fresh epoch s \<and> move_allowed (pk_trace s @ [Pe_hold EC_ok]) degrees True epoch))"

lemma hold_trace:
  assumes "run_state (establishHold api) s = (held, s')"
  shows "pk_opened_epoch s' = pk_opened_epoch s" and "pk_operation s' = pk_operation s"
    and "pk_completion s' = pk_completion s"
    and "pk_trace s' = pk_trace s \<and> held \<noteq> EC_ok \<or> pk_trace s' = pk_trace s @ [Pe_hold held]"
  using assms
  by (auto simp: establishHold_def device_def run_call emit_def only_if_def out_update_def
      shared_update_def split: if_splits)

lemma hold_move:
  "valid (may_move degrees automatic epoch) (establishHold api) (\<lambda>held s. moves_inv s \<and>
     (held = EC_ok \<longrightarrow> move_allowed (pk_trace s) degrees automatic epoch \<and> (automatic \<longrightarrow> fresh epoch s)))"
proof (rule validI)
  fix s :: "'a para_task" and held s'
  assume m: "may_move degrees automatic epoch s" and r: "run_state (establishHold api) s = (held, s')"
  have "moves_inv s'" using m keepsD [OF keeps_moves_ops [OF leaves_mono [OF guar_establishHold]] _ r]
    by (simp add: may_move_def)
  moreover have "move_allowed (pk_trace s') degrees automatic epoch \<and> (automatic \<longrightarrow> fresh epoch s')"
    if "held = EC_ok"
  proof -
    have "pk_trace s' = pk_trace s @ [Pe_hold EC_ok]" using hold_trace(4) [OF r] that by simp
    then show ?thesis using m hold_trace(1) [OF r]
      by (auto simp: may_move_def move_allowed_def fresh_def load_step_def)
  qed
  ultimately show "moves_inv s' \<and> (held = EC_ok \<longrightarrow> move_allowed (pk_trace s') degrees automatic epoch \<and>
      (automatic \<longrightarrow> fresh epoch s'))" by blast
qed

definition move_ready :: "int \<Rightarrow> bool \<Rightarrow> u32 \<Rightarrow> 'd para_task \<Rightarrow> bool" where
  "move_ready degrees automatic epoch s = (moves_inv s \<and>
     move_allowed (pk_trace s) degrees automatic epoch \<and> (automatic \<longrightarrow> fresh epoch s))"

lemma emit_move:
  "valid (move_ready degrees automatic epoch) (emit (Pe_move degrees automatic epoch r)) (\<lambda>_. moves_inv)"
  by (auto simp: valid_def emit_def move_ready_def moves_inv_def event_allowed_def epochs_ok_def
      fresh_def sorted_wrt_append)

lemma call_keeps_ready: "valid (move_ready degrees automatic epoch) (call c) (\<lambda>_. move_ready degrees automatic epoch)"
  by (auto simp: valid_def run_call move_ready_def moves_inv_def fresh_def)

lemma issue_move:
  "valid (move_ready degrees automatic epoch)
     (do { moved \<leftarrow> call c; emit (Pe_move degrees automatic epoch moved); ret moved }) (\<lambda>_. moves_inv)"
  by (rule valid_bind [OF call_keeps_ready], rule valid_bind [OF emit_move], rule valid_ret)

lemma startMove_moves:
  "valid (may_move degrees automatic epoch) (startMove api degrees automatic tx epoch now_us) (\<lambda>_. moves_inv)"
  unfolding startMove_def
proof (rule valid_bind [OF hold_move], goal_cases)
  case (1 held)
  have moved: "valid (\<lambda>s. moves_inv s \<and>
      (held = EC_ok \<longrightarrow> move_allowed (pk_trace s) degrees automatic epoch \<and> (automatic \<longrightarrow> fresh epoch s)))
    (if held = EC_ok then do {
         moved \<leftarrow> call (servo_moveRelativeDegrees api degrees);
         emit (Pe_move degrees automatic epoch moved);
         ret moved }
       else ret held) (\<lambda>_. moves_inv)"
    by (intro valid_if valid_strengthen [OF issue_move] valid_ret) (simp_all add: move_ready_def)
  show ?case
    by (rule valid_bind [OF moved], unfold keeps_valid [symmetric])
       (intro keeps_moves keeps_moves_ops guar_latch guar_resetTransport, simp_all)
qed

section \<open>The turn keeps the moves allowed\<close>

lemma keeps_powerOff: "keeps moves_inv (powerOff_request api r)"
  unfolding powerOff_request_def
  by (intro keeps_moves keeps_moves_ops [OF guar_latch] keeps_moves_ops [OF guar_end_transport]
        keeps_moves_ops [OF guar_queuePower]) simp_all

lemma keeps_open_request: "keeps moves_inv (open_request_step api now_us r)"
  unfolding open_request_step_def
  by (intro keeps_moves keeps_moves_ops [OF guar_snapshot] keeps_moves_ops [OF guar_requestPower]) simp_all

lemma keeps_para_request: "keeps moves_inv (para_request_step api now_us r)"
  unfolding para_request_step_def
  by (cases "pr_kind r"; simp; intro keeps_moves keeps_powerOff keeps_open_request) simp_all

lemma keeps_take_command: "keeps moves_inv (take_command api now_us)"
  unfolding take_command_def
  by (intro keeps_moves keeps_moves_ops [OF guar_requestPower]) simp_all

lemma keeps_flush: "keeps moves_inv (flushGenericCompletion api)"
  unfolding flushGenericCompletion_def
  by (intro keeps_moves keeps_moves_ops [OF guar_enqueueResult]) simp_all

lemma keeps_stopped: "keeps moves_inv (motion_stopped api now_us op)"
  unfolding motion_stopped_def
  by (intro keeps_moves keeps_moves_ops [OF leaves_mono [OF guar_establishHold]]
        keeps_moves_ops [OF guar_resetTransport] keeps_moves_ops [OF guar_latch]) simp_all

lemma keeps_expired: "keeps moves_inv (motion_expired api now_us op)"
  unfolding motion_expired_def
  by (intro keeps_moves keeps_moves_ops [OF leaves_mono [OF guar_establishHold]]
        keeps_moves_ops [OF guar_resetTransport] keeps_moves_ops [OF guar_latch]) simp_all

lemma keeps_watch: "keeps moves_inv (watch_motion api now_us)"
  unfolding watch_motion_def by (intro keeps_moves keeps_stopped keeps_expired)

text \<open>The automatic opening reads the snapshot that its move needs.\<close>

definition powered :: "'d para_task \<Rightarrow> bool" where
  "powered s = (moves_inv s \<and> last_load (pk_trace s) = Some True)"

lemma powered_no_load: "guar (leaves no_load) m \<Longrightarrow> keeps powered m"
proof (erule guar_keeps)
  fix s s' :: "'a para_task"
  assume p: "powered s" and l: "leaves no_load s s'"
  then obtain es where es: "pk_trace s' = pk_trace s @ es" "list_all no_load es" by (auto simp: leaves_def)
  have "leaves quiet s s'" using l unfolding leaves_def by (metis (no_types, lifting) list.pred_mono_strong no_load_def)
  then show "powered s'" using p es load_no_load moves_inv_leaves unfolding powered_def by metis
qed

lemma take_snapshot_trace:
  assumes "run_state (take_snapshot api) s = (sn, s')"
  shows "pk_trace s' = pk_trace s @ (case sn of None \<Rightarrow> [] | Some n \<Rightarrow> [Pe_snapshot n])"
    and "pk_opened_epoch s' = pk_opened_epoch s" and "pk_automatic_open_epoch s' = pk_automatic_open_epoch s"
    and "pk_operation s' = pk_operation s" and "pk_completion s' = pk_completion s"
  using assms by (auto simp: take_snapshot_def run_call emit_def split: option.splits)

lemma fresh_after_snapshot:
  assumes "epochs_ok (tr @ [Pe_snapshot n]) opened" and "epochs_ok tr opened"
    and "opened \<noteq> sn_flight_epoch n" and "sorted (snapshot_epochs (tr @ [Pe_snapshot n]))"
  shows "\<forall>e\<in>set (automatic_epochs tr). e < sn_flight_epoch n" and "opened < sn_flight_epoch n"
proof -
  have "opened \<le> sn_flight_epoch n" using assms(1,4) by (simp add: epochs_ok_def)
  with assms(3) show o: "opened < sn_flight_epoch n" by simp
  have "sorted (snapshot_epochs tr)" using assms(4) by (simp add: sorted_append)
  with assms(2) o show "\<forall>e\<in>set (automatic_epochs tr). e < sn_flight_epoch n" by (auto simp: epochs_ok_def)
qed

lemma may_move_after_snapshot:
  assumes p: "powered s" and "pk_opened_epoch s \<noteq> pk_automatic_open_epoch s"
    and r: "run_state (take_snapshot api) s = (Some n, s')"
    and n: "sn_flight_epoch n = pk_automatic_open_epoch s" "sn_state n = MS_descent" "\<not> sn_power_cutoff_latched n"
  shows "may_move kParachuteOpenRelativeDegrees True (sn_flight_epoch n) (s'\<lparr>pk_opened_epoch := sn_flight_epoch n\<rparr>)"
proof -
  let ?tr = "pk_trace s" and ?e = "sn_flight_epoch n"
  have tr: "pk_trace s' = ?tr @ [Pe_snapshot n]" using take_snapshot_trace(1) [OF r] by simp
  have ok: "epochs_ok ?tr (pk_opened_epoch s)" and a: "trace_allowed event_allowed ?tr" and l: "last_load ?tr = Some True"
    using p by (simp_all add: powered_def moves_inv_def)
  have ok': "epochs_ok (?tr @ [Pe_snapshot n]) (pk_opened_epoch s)" by (rule epochs_ok_quiet [OF ok]) simp
  have ne: "pk_opened_epoch s \<noteq> ?e" using assms(2) n(1) by simp
  note lt = fresh_after_snapshot [OF ok' ok ne]
  have "epochs_ok (?tr @ [Pe_snapshot n]) ?e"
    using ok' lt(1) unfolding epochs_ok_def by (auto intro: less_imp_le)
  moreover have "sorted (snapshot_epochs (?tr @ [Pe_snapshot n])) \<longrightarrow>
      (\<forall>e\<in>set (automatic_epochs (?tr @ [Pe_snapshot n])). e < ?e)"
    using lt(1) by simp
  moreover have "move_allowed ((?tr @ [Pe_snapshot n]) @ [Pe_hold EC_ok]) kParachuteOpenRelativeDegrees True ?e"
    unfolding move_allowed_def trace_snoc using l n(2,3) by (simp add: load_step_def)
  moreover have "last_load (?tr @ [Pe_snapshot n]) = Some True" using l by (simp add: load_step_def)
  ultimately show ?thesis using a by (simp add: may_move_def moves_inv_def fresh_def tr)
qed

lemma automatic_open_moves:
  "valid (\<lambda>s. powered s \<and> pk_opened_epoch s \<noteq> pk_automatic_open_epoch s) (automatic_open api now_us)
     (\<lambda>_. moves_inv)"
proof (rule validI)
  fix s a s'
  assume p: "powered s \<and> pk_opened_epoch s \<noteq> pk_automatic_open_epoch s"
    and r: "run_state (automatic_open api now_us) s = (a, s')"
  obtain sn s1 where s1: "run_state (take_snapshot api) s = (sn, s1)" by fastforce
  have k: "moves_inv s1" using p keepsD [OF keeps_moves_ops [OF guar_snapshot] _ s1] by (simp add: powered_def)
  let ?e = "pk_automatic_open_epoch s"
  have e: "pk_automatic_open_epoch s1 = ?e" using take_snapshot_trace(3) [OF s1] .
  show "moves_inv s'"
  proof (cases "\<exists>n. sn = Some n \<and> sn_flight_epoch n = ?e \<and> sn_state n = MS_descent \<and> \<not> sn_power_cutoff_latched n")
    case True
    then obtain n where n: "sn = Some n" "sn_flight_epoch n = ?e" "sn_state n = MS_descent" "\<not> sn_power_cutoff_latched n"
      by blast
    have m: "may_move kParachuteOpenRelativeDegrees True ?e (s1\<lparr>pk_opened_epoch := ?e\<rparr>)"
      using may_move_after_snapshot [OF _ _ s1 [unfolded n(1)] n(2-4)] p n(2) by simp
    obtain b s2 where s2: "run_state (startMove api kParachuteOpenRelativeDegrees True 0 ?e now_us)
        (s1\<lparr>pk_opened_epoch := ?e\<rparr>) = (b, s2)" by fastforce
    have "s' = s2" using r n by (simp add: automatic_open_def s1 e only_if_def s2)
    then show ?thesis using validD [OF startMove_moves m s2] by simp
  next
    case False
    then have "s' = s1" using r by (auto simp: automatic_open_def s1 e only_if_def split: option.splits if_splits)
    then show ?thesis using k by simp
  qed
qed

lemma manual_move: "powered s \<Longrightarrow> may_move degrees False epoch s"
  by (simp add: powered_def may_move_def)

lemma begin_motion_moves: "valid powered (begin_motion api now_us) (\<lambda>_. moves_inv)"
proof (rule validI)
  fix s a s'
  assume p: "powered s" and r: "run_state (begin_motion api now_us) s = (a, s')"
  let ?op = "pk_operation s" and ?s = "s\<lparr>pk_operation := operation_none\<rparr>"
  consider (manual) "mo_pending_start ?op"
    | (auto) "\<not> mo_pending_start ?op" "pk_automatic_open_epoch s \<noteq> 0"
        "pk_opened_epoch s \<noteq> pk_automatic_open_epoch s" "\<not> mo_active ?op"
    | (hold) "\<not> mo_pending_start ?op" "\<not> (pk_automatic_open_epoch s \<noteq> 0 \<and>
        pk_opened_epoch s \<noteq> pk_automatic_open_epoch s \<and> \<not> mo_active ?op)" by blast
  then show "moves_inv s'"
  proof cases
    case manual
    obtain b s2 where s2: "run_state (startMove api (mo_delta_degrees ?op) False (mo_transaction_id ?op) 0 now_us) ?s = (b, s2)"
      by fastforce
    have "powered ?s" using p by (simp add: powered_def moves_inv_def)
    then have "moves_inv s2" using validD [OF startMove_moves manual_move s2] by simp
    moreover have "s' = s2" using r manual by (simp add: begin_motion_def s2)
    ultimately show ?thesis by simp
  next
    case auto
    then have "run_state (automatic_open api now_us) s = (a, s')" using r by (simp add: begin_motion_def)
    then show ?thesis using validD [OF automatic_open_moves] p auto(3) by blast
  next
    case hold
    have "keeps moves_inv (only_if (\<not> mo_active ?op \<and> \<not> pk_hold_established s) (do {
       held \<leftarrow> establishHold api;
       only_if (held \<noteq> EC_ok) (resetTransport api now_us False) }))"
      by (intro keeps_moves keeps_moves_ops [OF leaves_mono [OF guar_establishHold]]
            keeps_moves_ops [OF guar_resetTransport])
    moreover have "run_state (only_if (\<not> mo_active ?op \<and> \<not> pk_hold_established s) (do {
       held \<leftarrow> establishHold api;
       only_if (held \<noteq> EC_ok) (resetTransport api now_us False) })) s = (a, s')"
      using r hold unfolding begin_motion_def by (simp del: de_Morgan_conj)
    moreover have "moves_inv s" using p by (simp add: powered_def)
    ultimately show ?thesis by (blast intro: keepsD)
  qed
qed

lemma initializeServo_powered:
  "valid moves_inv (initializeServo api now_us) (\<lambda>ready s. moves_inv s \<and> (ready \<longrightarrow> powered s))"
proof -
  have load: "valid moves_inv (load_power_applied api) (\<lambda>applied s. moves_inv s \<and> last_load (pk_trace s) = Some applied)"
  proof (rule valid_conj)
    show "valid moves_inv (load_power_applied api) (\<lambda>_. moves_inv)"
      using keeps_moves_ops [OF guar_load] by (simp add: keeps_valid)
    show "valid moves_inv (load_power_applied api) (\<lambda>applied s. last_load (pk_trace s) = Some applied)"
      by (auto simp: valid_def load_power_applied_def emit_def interfere_def shared_update_def load_step_def)
  qed
  have start: "valid (\<lambda>s. moves_inv s \<and> last_load (pk_trace s) = Some True) (start_servo api) (\<lambda>ready s. moves_inv s \<and> (ready \<longrightarrow> powered s))"
    by (rule valid_weaken [OF powered_no_load [OF guar_start_servo, unfolded keeps_valid powered_def]])
       (simp add: powered_def)
  have rest: "valid (\<lambda>s. moves_inv s \<and> last_load (pk_trace s) = Some True)
      (do { ms \<leftarrow> reconnectIntervalMs api;
            modify (\<lambda>s. s\<lparr>pk_next_initialization_attempt_us := now_us + ucast ms * 1000\<rparr>);
            start_servo api }) (\<lambda>ready s. moves_inv s \<and> (ready \<longrightarrow> powered s))"
    by (rule valid_bind [OF powered_no_load [OF guar_reconnect_no_load, unfolded keeps_valid powered_def]],
        rule valid_bind [OF valid_modify start]) (simp add: moves_inv_def)
  show ?thesis unfolding initializeServo_def
  proof (rule valid_bind [OF load], rule valid_bind [OF valid_gets], assumption, rule valid_if, goal_cases)
    case 1
    show ?case by (rule valid_ret) simp
  next
    case (2 applied waiting)
    then show ?case by (intro valid_strengthen [OF rest]) simp
  qed
qed

lemma drive_servo_moves: "keeps moves_inv (drive_servo ovf api now_us)"
proof -
  have drive: "valid powered (do { begin_motion api now_us; watch_motion api now_us; telemetry_step ovf api now_us }) (\<lambda>_. moves_inv)"
    by (rule valid_bind [OF begin_motion_moves], unfold keeps_valid [symmetric])
       (intro keeps_moves keeps_watch keeps_moves_ops [OF guar_telemetry])
  have "valid moves_inv (do { ready \<leftarrow> initializeServo api now_us;
     only_if ready (do { begin_motion api now_us; watch_motion api now_us; telemetry_step ovf api now_us }) }) (\<lambda>_. moves_inv)"
    by (rule valid_bind [OF initializeServo_powered], rule valid_only_if, rule valid_strengthen [OF drive])
       simp_all
  then show ?thesis unfolding drive_servo_def keeps_valid [symmetric]
    by (rule keeps_bind [OF keeps_moves_ops [OF guar_requestPower]])
qed

lemma parachute_turn_moves: "keeps moves_inv (parachute_turn ovf api input)"
  unfolding parachute_turn_def
  by (intro keeps_moves keeps_flush keeps_moves_ops [OF guar_send_response] keeps_para_request
        keeps_take_command drive_servo_moves)

lemma parachute_run_moves: "moves_inv (parachute_run ovf api inputs (para_init shared))"
proof -
  have "keeps moves_inv (each (parachute_turn ovf api) inputs)"
    by (intro keeps_each parachute_turn_moves)
  moreover have "moves_inv (para_init shared)"
    by (simp add: moves_inv_def para_init_def trace_allowed_def epochs_ok_def snapshot_epochs_def
        snapshots_def automatic_epochs_def)
  ultimately show ?thesis by (simp add: keeps_def parachute_run_def)
qed

section \<open>Properties of the moves\<close>

text \<open>C14: As long as the flight epoch that the task reads never goes back, the automatic opening is
  moved at most once per flight, whatever the servo, the queues and the other tasks do: the epochs
  of the automatic moves are strictly increasing.\<close>

theorem automatic_open_once:
  assumes "sorted (snapshot_epochs (pk_trace (parachute_run ovf api inputs (para_init shared))))"
  shows "sorted_wrt (<) (automatic_epochs (pk_trace (parachute_run ovf api inputs (para_init shared))))"
  using assms by (rule parachute_run_moves [unfolded moves_inv_def epochs_ok_def, THEN conjunct2, rule_format, THEN conjunct1])

text \<open>C20: In every run each relative move of the servo is issued right after the position was held
  successfully and with the parachute power last read as applied; an automatic move is the opening,
  and the last snapshot read shows its flight in descent before the power cutoff.\<close>

theorem moves_only_safe:
  "trace_allowed event_allowed (pk_trace (parachute_run ovf api inputs (para_init shared)))"
  by (rule parachute_run_moves [unfolded moves_inv_def, THEN conjunct1])

text \<open>A servo that obeys, in the descent of flight 1, with the rail on.\<close>

definition descent_1 :: mission_snapshot where
  "descent_1 = snapshot_init\<lparr>sn_state := MS_descent, sn_flight_epoch := 1\<rparr>"

definition obedient_servo :: "unit para_api" where
  "obedient_servo = \<lparr>pi_rails = obedient_rails, pa_others = id, pi_snapshot = (\<lambda>d. (Some descent_1, d)),
     pi_lock_executor = (\<lambda>d. (None, d)), pi_unlock_executor = (\<lambda>_ d. d), pi_send_power = (\<lambda>_ d. (True, d)),
     pi_send_result = (\<lambda>_ _ d. (True, d)), pi_send_event = (\<lambda>_ d. (True, d)),
     pi_send_start_response = (\<lambda>_ d. (True, d)), pi_take_command = (\<lambda>d. (None, d)),
     bus_initialized = (\<lambda>_. True), bus_begin = (\<lambda>d. (EC_ok, d)), bus_end = (\<lambda>d. (EC_ok, d)),
     servo_initialized = (\<lambda>_. True), servo_begin = (\<lambda>d. (EC_ok, d)), servo_end = (\<lambda>d. (EC_ok, d)),
     servo_configurationValid = (\<lambda>_. True), servo_configureStepMode = (\<lambda>d. (EC_ok, d)),
     servo_setDirectionNormal = (\<lambda>d. (EC_ok, d)), servo_verifyStepMode = (\<lambda>d. (EC_ok, d)),
     servo_holdCurrentPosition = (\<lambda>d. (EC_ok, d)), servo_moveRelativeDegrees = (\<lambda>_ d. (EC_ok, d)),
     servo_readRaw = (\<lambda>d. ((EC_ok, \<lparr>rd_position = 0, rd_moving = False\<rparr>), d))\<rparr>"

definition shared_1 :: "unit para_shared" where
  "shared_1 = \<lparr>sh_out = outputs_1, sh_deployment_failure = 0, sh_event_overflow_latch = 0,
     sh_failure_overflow_detail = 0, sh_result_queue_overflow = 0\<rparr>"

definition open_1 :: para_request where
  "open_1 = \<lparr>pr_kind = PR_open, pr_flight_epoch = 1, pr_safety_authorized = False\<rparr>"

text \<open>The request is sent three times; the move is issued once, when the power has settled.\<close>

definition inputs_1 :: "(u64 \<times> para_request list) list" where
  "inputs_1 = [(0, [open_1]), (200000, [open_1]), (300000, [open_1])]"

text \<open>The telemetry rounds real numbers; evaluation does not reach it before 500 ms.\<close>

declare updateTelemetry_def [code del]

lemma automatic_open_once_witness:
  "automatic_epochs (pk_trace (parachute_run (\<lambda>_. 0) obedient_servo inputs_1 (para_init shared_1))) = [1] \<and>
   sorted_wrt (<) (automatic_epochs (pk_trace (parachute_run (\<lambda>_. 0) obedient_servo inputs_1 (para_init shared_1))))"
proof
  show "automatic_epochs (pk_trace (parachute_run (\<lambda>_. 0) obedient_servo inputs_1 (para_init shared_1))) = [1]"
    by code_simp
  have "sorted (snapshot_epochs (pk_trace (parachute_run (\<lambda>_. 0) obedient_servo inputs_1 (para_init shared_1))))"
    by code_simp
  then show "sorted_wrt (<) (automatic_epochs (pk_trace
      (parachute_run (\<lambda>_. 0) obedient_servo inputs_1 (para_init shared_1))))"
    by (rule automatic_open_once)
qed

end
