(* ===== verification/Parachute_Commands.thy ===== *)
theory Parachute_Commands
  imports Parachute_Task
begin

text \<open>
  The manual commands of the parachute task: a command that the task took is the only one outstanding
  until it is completed under its own transaction, or until a hold or power-off request of the mission
  drops it. \<open>outstanding\<close> reads the transaction from the trace; \<open>command_inv\<close> ties it to the task's
  operation and completion.
\<close>

section \<open>The command outstanding after a trace\<close>

definition is_generic :: "para_command \<Rightarrow> bool" where
  "is_generic r = (pc_kind r = PCK_generic \<and> gcr_transaction_id (pc_command r) \<noteq> 0)"

definition outstanding_step :: "u8 option \<Rightarrow> para_event \<Rightarrow> u8 option" where
  "outstanding_step l e = (case e of
     Pe_command r \<Rightarrow> if is_generic r then Some (gcr_transaction_id (pc_command r)) else l
   | Pe_complete _ _ \<Rightarrow> None
   | Pe_request r \<Rightarrow> if pr_kind r = PR_open then l else None
   | _ \<Rightarrow> l)"

definition outstanding :: "para_event list \<Rightarrow> u8 option" where
  "outstanding tr = foldl outstanding_step None tr"

text \<open>A command is taken only when none is outstanding, and only the outstanding one is completed.\<close>

definition command_allowed :: "para_event list \<Rightarrow> para_event \<Rightarrow> bool" where
  "command_allowed tr e = (case e of
     Pe_command _ \<Rightarrow> outstanding tr = None
   | Pe_complete transaction_id _ \<Rightarrow> outstanding tr = Some transaction_id
   | _ \<Rightarrow> True)"

lemma outstanding_snoc [simp]: "outstanding (tr @ [e]) = outstanding_step (outstanding tr) e"
  by (simp add: outstanding_def)

lemma command_allowed_quiet: "quiet e \<Longrightarrow> command_allowed tr e"
  by (cases e) (simp_all add: command_allowed_def)

lemma outstanding_quiet: "list_all quiet es \<Longrightarrow> outstanding (tr @ es) = outstanding tr"
proof (induction es rule: rev_induct)
  case (snoc e es)
  then show ?case using outstanding_snoc [of "tr @ es" e] by (cases e) (simp_all add: outstanding_step_def)
qed simp

section \<open>The invariant\<close>

text \<open>The transaction that operation and completion stand for.\<close>

definition expected :: "motion_operation \<Rightarrow> command_completion \<Rightarrow> u8 option" where
  "expected op c =
     (if cm_pending c then Some (cm_transaction_id c)
      else if (mo_active op \<or> mo_pending_start op) \<and> \<not> mo_automatic op \<and> mo_transaction_id op \<noteq> 0
      then Some (mo_transaction_id op) else None)"

definition manual :: "motion_operation \<Rightarrow> bool" where
  "manual op = (mo_pending_start op \<or> mo_active op \<and> \<not> mo_automatic op)"

definition command_ok :: "para_event list \<Rightarrow> motion_operation \<Rightarrow> command_completion \<Rightarrow> bool" where
  "command_ok tr op c = (trace_allowed command_allowed tr \<and> outstanding tr = expected op c \<and>
     (cm_pending c \<longrightarrow> \<not> manual op) \<and> (mo_pending_start op \<longrightarrow> \<not> mo_active op \<and> \<not> mo_automatic op))"

definition command_inv :: "'d para_task \<Rightarrow> bool" where
  "command_inv s = command_ok (pk_trace s) (pk_operation s) (pk_completion s)"

text \<open>A manual operation was taken off the task and its completion is due.\<close>

definition completion_due :: "u8 \<Rightarrow> 'd para_task \<Rightarrow> bool" where
  "completion_due transaction_id s = (trace_allowed command_allowed (pk_trace s) \<and>
     outstanding (pk_trace s) = (if transaction_id = 0 then None else Some transaction_id) \<and>
     \<not> mo_active (pk_operation s) \<and> \<not> mo_pending_start (pk_operation s) \<and> \<not> cm_pending (pk_completion s))"

text \<open>A request of the mission has dropped what was outstanding.\<close>

definition dropped :: "'d para_task \<Rightarrow> bool" where
  "dropped s = (trace_allowed command_allowed (pk_trace s) \<and> outstanding (pk_trace s) = None)"

lemma leaves_command:
  assumes "leaves quiet s s'"
  shows "command_inv s \<Longrightarrow> command_inv s'" and "completion_due tx s \<Longrightarrow> completion_due tx s'"
    and "dropped s \<Longrightarrow> dropped s'"
proof -
  obtain es where es: "pk_trace s' = pk_trace s @ es" "list_all quiet es"
    and eq: "pk_operation s' = pk_operation s" "pk_completion s' = pk_completion s"
    using assms by (auto simp: leaves_def)
  have o: "outstanding (pk_trace s') = outstanding (pk_trace s)" using outstanding_quiet es by simp
  have t: "trace_allowed command_allowed (pk_trace s')" if "trace_allowed command_allowed (pk_trace s)"
    unfolding es(1) by (rule trace_allowed_quiet [OF that es(2)]) (rule command_allowed_quiet)
  show "command_inv s \<Longrightarrow> command_inv s'" and "completion_due tx s \<Longrightarrow> completion_due tx s'"
    and "dropped s \<Longrightarrow> dropped s'"
    using o t by (simp_all add: command_inv_def command_ok_def completion_due_def dropped_def eq)
qed

lemma keeps_ops:
  assumes "guar (leaves quiet) m"
  shows "keeps command_inv m" and "keeps (completion_due tx) m" and "keeps dropped m"
  using assms leaves_command by (blast intro: guar_keeps)+

lemma keeps_local:
  assumes "\<And>s. pk_operation (f s) = pk_operation s \<and> pk_completion (f s) = pk_completion s \<and> pk_trace (f s) = pk_trace s"
  shows "keeps command_inv (modify f)" and "keeps (completion_due tx) (modify f)" and "keeps dropped (modify f)"
  using assms by (simp_all add: keeps_def command_inv_def completion_due_def dropped_def)

text \<open>Moves do not concern the commands.\<close>

lemma keeps_move_event:
  "keeps command_inv (emit (Pe_move d a e r))" "keeps (completion_due tx) (emit (Pe_move d a e r))"
  by (simp_all add: keeps_def emit_def command_inv_def command_ok_def completion_due_def
        command_allowed_def outstanding_step_def)

lemmas keeps_access = keeps_ops [OF guar_shared] keeps_ops [OF guar_device] keeps_ops [OF guar_call]
  keeps_ops [OF guar_out] keeps_ops [OF leaves_mono [OF guar_establishHold]]
  keeps_ops [OF guar_resetTransport] keeps_ops [OF guar_latch] keeps_ops [OF guar_requestPower]
  keeps_ops [OF guar_snapshot] keeps_ops [OF guar_end_transport] keeps_ops [OF guar_queuePower]

section \<open>Completion\<close>

lemma completion_queued: "valid (completion_due tx) (queueGenericCompletion tx r d) (\<lambda>_. command_inv)"
  by (simp add: valid_def queueGenericCompletion_def only_if_def completion_due_def command_inv_def
        command_ok_def expected_def manual_def)

lemma completion_void: "completion_due 0 s \<Longrightarrow> command_inv s"
  by (simp add: completion_due_def command_inv_def command_ok_def expected_def manual_def)

lemma flush_commands: "keeps command_inv (flushGenericCompletion api)"
  unfolding keeps_valid
proof (rule validI)
  fix s a s'
  assume i: "command_inv s" and r: "run_state (flushGenericCompletion api) s = (a, s')"
  obtain locked s1 where s1: "run_state (call (pi_lock_executor api)) s = (locked, s1)" by fastforce
  have i1: "command_inv s1" using keepsD [OF keeps_ops(1) [OF guar_call] i s1] .
  have c1: "pk_completion s1 = pk_completion s" using guarD [OF guar_call s1] by (simp add: leaves_def)
  show "command_inv s'"
  proof (cases "cm_pending (pk_completion s) \<and> locked \<noteq> None")
    case False
    then have "s' = s \<or> s' = s1" using r
      by (cases "cm_pending (pk_completion s)"; cases locked) (simp_all add: flushGenericCompletion_def only_if_def s1)
    then show ?thesis using i i1 by blast
  next
    case True
    then obtain ex g where l: "locked = Some (ex, g)" by auto
    obtain result ex' g' where f: "executor_finish (cm_transaction_id (pk_completion s))
        (if cm_reason (pk_completion s) = CR_none then CP_completed else CP_failed)
        (cm_reason (pk_completion s)) (cm_detail (pk_completion s)) ex g = (result, ex', g')"
      by (metis prod_cases3)
    obtain s2 where s2: "run_state (call (\<lambda>d. ((), pi_unlock_executor api (ex', g') d))) s1 = ((), s2)"
      by (simp add: run_call)
    have i2: "command_inv s2" using keepsD [OF keeps_ops(1) [OF guar_call] i1 s2] .
    have c2: "pk_completion s2 = pk_completion s" using guarD [OF guar_call s2] c1 by (simp add: leaves_def)
    let ?s3 = "s2\<lparr>pk_completion := completion_none,
      pk_trace := pk_trace s2 @ [Pe_complete (cm_transaction_id (pk_completion s)) (cm_reason (pk_completion s))]\<rparr>"
    have "command_inv ?s3" using i2 True c2
      by (simp add: command_inv_def command_ok_def command_allowed_def outstanding_step_def expected_def
          manual_def completion_none_def)
    moreover have "run_state (only_if (res_command result \<noteq> 0) (enqueueResult api result False)) ?s3 = (a, s')"
      using r True by (simp add: flushGenericCompletion_def s1 l f s2 emit_def only_if_def)
    ultimately show ?thesis
      using keepsD [OF keeps_only_if [OF keeps_ops(1) [OF guar_enqueueResult]]] by blast
  qed
qed

section \<open>The operations of a turn\<close>

lemma startMove_manual:
  "valid (completion_due tx) (startMove api degrees False tx epoch now_us) (\<lambda>_. command_inv)"
  unfolding startMove_def
proof (rule valid_bind [OF keeps_ops(2) [OF leaves_mono [OF guar_establishHold], unfolded keeps_valid]], goal_cases)
  case (1 held)
  have moved: "valid (completion_due tx) (if held = EC_ok then do {
         moved \<leftarrow> call (servo_moveRelativeDegrees api degrees);
         emit (Pe_move degrees False epoch moved);
         ret moved }
       else ret held) (\<lambda>_. completion_due tx)"
    unfolding keeps_valid [symmetric] by (intro keeps_rules keeps_access keeps_move_event)
  have failed: "valid (completion_due tx) (do {
       queueGenericCompletion tx reason 0; resetTransport api now_us False; ret False }) (\<lambda>_. command_inv)" for reason
    by (rule valid_bind [OF completion_queued], unfold keeps_valid [symmetric])
       (intro keeps_rules keeps_access)
  have started: "valid (completion_due tx) (modify (\<lambda>s. s\<lparr>pk_operation := \<lparr>mo_active = True, mo_automatic = False,
      mo_pending_start = False, mo_transaction_id = tx, mo_flight_epoch = epoch,
      mo_started_at_us = now_us, mo_delta_degrees = degrees\<rparr>,
      pk_desired := DS_moving, pk_hold_established := False\<rparr>)) (\<lambda>_. command_inv)"
    by (rule valid_modify) (simp add: completion_due_def command_inv_def command_ok_def expected_def manual_def)
  show ?case
    by (rule valid_bind [OF moved], rule valid_if, simp add: failed, rule valid_bind [OF started],
        unfold keeps_valid [symmetric]) (intro keeps_rules keeps_access)
qed

text \<open>An automatic move starts with no other operation and leaves the outstanding command alone.\<close>

definition idle :: "'d para_task \<Rightarrow> bool" where
  "idle s = (command_inv s \<and> \<not> mo_active (pk_operation s) \<and> \<not> mo_pending_start (pk_operation s))"

lemma idle_leaves: "leaves quiet s s' \<Longrightarrow> idle s \<Longrightarrow> idle s'"
  using leaves_command(1) by (auto simp: idle_def leaves_def)

lemma keeps_idle: "guar (leaves quiet) m \<Longrightarrow> keeps idle m"
  using idle_leaves by (blast intro: guar_keeps)

lemma startMove_automatic: "valid idle (startMove api degrees True 0 epoch now_us) (\<lambda>_. command_inv)"
  unfolding startMove_def
proof (rule valid_bind [OF keeps_idle [OF leaves_mono [OF guar_establishHold], unfolded keeps_valid]], goal_cases)
  case (1 held)
  have move: "keeps idle (emit (Pe_move degrees True epoch r))" for r
    by (simp add: keeps_def idle_def emit_def command_inv_def command_ok_def command_allowed_def outstanding_step_def)
  have moved: "valid idle (if held = EC_ok then do {
         moved \<leftarrow> call (servo_moveRelativeDegrees api degrees);
         emit (Pe_move degrees True epoch moved);
         ret moved }
       else ret held) (\<lambda>_. idle)"
    unfolding keeps_valid [symmetric] by (intro keeps_rules keeps_idle [OF guar_call] move)
  have failed: "valid idle (do {
       latchDeploymentFailure api DF_move_command_failed; resetTransport api now_us False; ret False }) (\<lambda>_. command_inv)"
    by (rule valid_weaken [where Q' = "\<lambda>_. idle"], unfold keeps_valid [symmetric],
        intro keeps_rules keeps_idle [OF guar_latch] keeps_idle [OF guar_resetTransport]) (simp add: idle_def)
  have started: "valid idle (modify (\<lambda>s. s\<lparr>pk_operation := \<lparr>mo_active = True, mo_automatic = True,
      mo_pending_start = False, mo_transaction_id = 0, mo_flight_epoch = epoch,
      mo_started_at_us = now_us, mo_delta_degrees = degrees\<rparr>,
      pk_desired := DS_moving, pk_hold_established := False\<rparr>)) (\<lambda>_. command_inv)"
    by (rule valid_modify) (simp add: idle_def command_inv_def command_ok_def expected_def manual_def)
  show ?case
    by (rule valid_bind [OF moved], rule valid_if, simp add: failed, rule valid_bind [OF started],
        unfold keeps_valid [symmetric]) (intro keeps_rules keeps_access)
qed

lemma automatic_commands: "valid idle (automatic_open api now_us) (\<lambda>_. command_inv)"
  unfolding automatic_open_def
proof (rule valid_bind [OF keeps_idle [OF guar_snapshot, unfolded keeps_valid]],
       rule valid_bind [OF valid_gets], assumption, rule valid_only_if, goal_cases)
  case (1 sn epoch)
  have "keeps idle (modify (\<lambda>s. s\<lparr>pk_opened_epoch := epoch\<rparr>))"
    by (simp add: keeps_def idle_def command_inv_def)
  then show ?case
    by (intro valid_bind [OF _ valid_bind [OF startMove_automatic valid_ret]]) (simp_all add: keeps_valid)
qed (simp add: idle_def)

lemma due_of_pending:
  assumes "command_inv s" and "mo_pending_start (pk_operation s)"
  shows "completion_due (mo_transaction_id (pk_operation s)) (s\<lparr>pk_operation := operation_none\<rparr>)"
  using assms by (auto simp: command_inv_def command_ok_def completion_due_def operation_none_def expected_def manual_def)

lemma due_of_active:
  assumes "command_inv s" and "mo_active (pk_operation s)" and "\<not> mo_automatic (pk_operation s)"
  shows "completion_due (mo_transaction_id (pk_operation s)) (s\<lparr>pk_operation := operation_none\<rparr>)"
  using assms by (auto simp: command_inv_def command_ok_def completion_due_def operation_none_def expected_def manual_def)

lemma inv_of_automatic:
  assumes "command_inv s" and "mo_active (pk_operation s)" and "mo_automatic (pk_operation s)"
  shows "command_inv (s\<lparr>pk_operation := operation_none\<rparr>)"
  using assms by (auto simp: command_inv_def command_ok_def operation_none_def expected_def manual_def)

text \<open>The end of a move, in time or not.\<close>

lemma end_of_move:
  assumes i: "command_inv s" and a: "mo_active (pk_operation s)" "op = pk_operation s"
    and r: "run_state (do { modify (\<lambda>s. s\<lparr>pk_operation := operation_none\<rparr>); m }) s = (x, s')"
    and auto: "mo_automatic op \<Longrightarrow> keeps command_inv m"
    and man: "\<not> mo_automatic op \<Longrightarrow> valid (completion_due (mo_transaction_id op)) m (\<lambda>_. command_inv)"
  shows "command_inv s'"
proof -
  let ?s = "s\<lparr>pk_operation := operation_none\<rparr>"
  have r': "run_state m ?s = (x, s')" using r by simp
  show ?thesis
  proof (cases "mo_automatic op")
    case True
    then show ?thesis using keepsD [OF auto _ r'] inv_of_automatic [OF i a(1)] a(2) by simp
  next
    case False
    then show ?thesis using validD [OF man _ r'] due_of_active [OF i a(1)] a(2) by simp
  qed
qed

lemmas due_hold = keeps_ops(2) [OF leaves_mono [OF guar_establishHold], unfolded keeps_valid]
lemmas due_reset = keeps_ops(2) [OF guar_resetTransport, unfolded keeps_valid]

lemma stopped_commands:
  assumes "command_inv s" and "mo_active (pk_operation s)" and "op = pk_operation s"
    and "run_state (motion_stopped api now_us op) s = (x, s')"
  shows "command_inv s'"
proof (rule end_of_move [OF assms(1-3) assms(4) [unfolded motion_stopped_def]], goal_cases)
  case 1
  then show ?case by (simp, intro keeps_rules keeps_access) simp
next
  case 2
  have "valid (completion_due tx) (do { resetTransport api now_us False;
      queueGenericCompletion tx CR_device_unavailable 0 }) (\<lambda>_. command_inv)" for tx
    by (intro valid_bind [OF due_reset completion_queued])
  moreover have "valid (completion_due tx) (only_if True (queueGenericCompletion tx CR_none 0)) (\<lambda>_. command_inv)" for tx
    by (simp add: only_if_def completion_queued)
  ultimately show ?case using 2
    by (intro valid_bind [OF due_hold] valid_if) simp_all
qed

lemma expired_commands:
  assumes "command_inv s" and "mo_active (pk_operation s)" and "op = pk_operation s"
    and "run_state (motion_expired api now_us op) s = (x, s')"
  shows "command_inv s'"
proof (rule end_of_move [OF assms(1-3) assms(4) [unfolded motion_expired_def]], goal_cases)
  case 1
  then show ?case by (simp, intro keeps_rules keeps_access)
next
  case 2
  have "valid (completion_due tx) (only_if b (resetTransport api now_us False)) (\<lambda>_. completion_due tx)" for b tx
    by (rule valid_only_if [OF due_reset])
  then show ?case using 2
    by (intro valid_bind [OF due_hold] valid_bind [where R = "\<lambda>_. completion_due (mo_transaction_id op)"])
       (simp_all add: completion_queued)
qed

lemma watch_commands: "keeps command_inv (watch_motion api now_us)"
  unfolding keeps_valid
proof (rule validI)
  fix s a s'
  assume i: "command_inv s" and r: "run_state (watch_motion api now_us) s = (a, s')"
  obtain p s1 where p: "run_state (call (servo_readRaw api)) s = (p, s1)" by fastforce
  obtain v data where "p = (v, data)" by fastforce
  with p have s1: "run_state (call (servo_readRaw api)) s = ((v, data), s1)" by simp
  have i1: "command_inv s1" using keepsD [OF keeps_ops(1) [OF guar_call] i s1] .
  have op: "pk_operation s = pk_operation s1" using guarD [OF guar_call s1] by (simp add: leaves_def)
  show "command_inv s'"
  proof (cases "mo_active (pk_operation s)")
    case False
    then show ?thesis using i r by (simp add: watch_motion_def only_if_def)
  next
    case True
    then have act: "mo_active (pk_operation s1)" by (simp add: op)
    show ?thesis
    proof (cases "v = EC_ok \<and> \<not> rd_moving data")
      case True
      then have "run_state (motion_stopped api now_us (pk_operation s)) s1 = (a, s')"
        using r \<open>mo_active (pk_operation s)\<close> by (simp add: watch_motion_def only_if_def s1)
      then show ?thesis by (rule stopped_commands [OF i1 act op])
    next
      case False
      then have "run_state (only_if (kMotionTimeoutUs \<le> now_us - mo_started_at_us (pk_operation s))
          (motion_expired api now_us (pk_operation s))) s1 = (a, s')"
        using r \<open>mo_active (pk_operation s)\<close> unfolding watch_motion_def only_if_def by (simp add: s1 del: de_Morgan_conj)
      then have "s' = s1 \<or> run_state (motion_expired api now_us (pk_operation s)) s1 = (a, s')"
        by (simp add: only_if_def split: if_splits)
      then show ?thesis using i1 expired_commands [OF i1 act op] by blast
    qed
  qed
qed

lemma begin_commands: "keeps command_inv (begin_motion api now_us)"
  unfolding keeps_valid
proof (rule validI)
  fix s a s'
  assume i: "command_inv s" and r: "run_state (begin_motion api now_us) s = (a, s')"
  let ?op = "pk_operation s" and ?s = "s\<lparr>pk_operation := operation_none\<rparr>"
  have hold: "keeps command_inv (only_if b (do {
     held \<leftarrow> establishHold api; only_if (held \<noteq> EC_ok) (resetTransport api now_us False) }))" for b
    by (intro keeps_rules keeps_access)
  show "command_inv s'"
  proof (cases "mo_pending_start ?op")
    case True
    obtain b s2 where s2: "run_state (startMove api (mo_delta_degrees ?op) False (mo_transaction_id ?op) 0 now_us) ?s = (b, s2)"
      by fastforce
    have "command_inv s2" using validD [OF startMove_manual due_of_pending [OF i True] s2] .
    moreover have "s' = s2" using r True by (simp add: begin_motion_def s2)
    ultimately show ?thesis by simp
  next
    case False
    show ?thesis
    proof (cases "pk_automatic_open_epoch s \<noteq> 0 \<and> pk_opened_epoch s \<noteq> pk_automatic_open_epoch s \<and> \<not> mo_active ?op")
      case True
      then have "idle s" using i False by (simp add: idle_def)
      moreover have "run_state (automatic_open api now_us) s = (a, s')"
        using r True False by (simp add: begin_motion_def)
      ultimately show ?thesis using validD [OF automatic_commands] by blast
    next
      case no_auto: False
      have "run_state (only_if (\<not> mo_active ?op \<and> \<not> pk_hold_established s) (do {
          held \<leftarrow> establishHold api; only_if (held \<noteq> EC_ok) (resetTransport api now_us False) })) s = (a, s')"
        using r no_auto False unfolding begin_motion_def by (simp del: de_Morgan_conj)
      then show ?thesis using keepsD [OF hold i] by blast
    qed
  qed
qed

lemma drive_commands: "keeps command_inv (drive_servo ovf api now_us)"
  unfolding drive_servo_def
  by (intro keeps_rules keeps_access keeps_ops(1) [OF guar_initializeServo] keeps_ops(1) [OF guar_telemetry]
        begin_commands watch_commands)

text \<open>The requests of the mission drop what is outstanding, except for an opening.\<close>

lemma dropped_cleared:
  "dropped s \<Longrightarrow> command_inv (s\<lparr>pk_operation := operation_none, pk_completion := completion_none, pk_desired := d\<rparr>)"
  "dropped s \<Longrightarrow> command_inv (s\<lparr>pk_operation := operation_none, pk_completion := completion_none, pk_desired := d,
     pk_hold_established := h\<rparr>)"
  by (simp_all add: dropped_def command_inv_def command_ok_def expected_def manual_def operation_none_def
        completion_none_def)

lemma request_drops: "pr_kind r \<noteq> PR_open \<Longrightarrow> valid command_inv (emit (Pe_request r)) (\<lambda>_. dropped)"
  by (simp add: valid_def emit_def command_inv_def command_ok_def dropped_def command_allowed_def outstanding_step_def)

lemma powerOff_commands: "valid dropped (powerOff_request api r) (\<lambda>_. command_inv)"
  unfolding powerOff_request_def
proof (rule valid_bind [OF valid_gets], assumption,
       rule valid_bind [where R = "\<lambda>_. dropped"], goal_cases)
  case (1 s)
  show ?case unfolding keeps_valid [symmetric] by (intro keeps_rules keeps_access)
next
  case (2 s u)
  show ?case
    by (rule valid_bind [OF valid_modify], rule dropped_cleared(1), assumption, unfold keeps_valid [symmetric])
       (intro keeps_rules keeps_access keeps_local, simp)
qed

lemma open_request_commands: "keeps command_inv (open_request_step api now_us r)"
  unfolding open_request_step_def
  by (intro keeps_rules keeps_access keeps_local) (simp_all add: command_inv_def)

lemma request_commands: "keeps command_inv (para_request_step api now_us r)"
proof (cases "pr_kind r")
  case PR_open
  have "keeps command_inv (emit (Pe_request r))" using PR_open
    by (simp add: keeps_def emit_def command_inv_def command_ok_def command_allowed_def outstanding_step_def)
  then show ?thesis unfolding para_request_step_def using PR_open
    by (simp, intro keeps_bind open_request_commands)
next
  case PR_hold
  then show ?thesis unfolding para_request_step_def keeps_valid
    by (intro valid_bind [OF request_drops]) (auto intro: valid_modify dropped_cleared(2))
next
  case PR_power_off
  then show ?thesis unfolding para_request_step_def keeps_valid
    by (intro valid_bind [OF request_drops]) (auto intro: powerOff_commands)
qed

text \<open>Taking a command: nothing is outstanding then.\<close>

definition taken :: "para_command \<Rightarrow> 'd para_task \<Rightarrow> bool" where
  "taken r s = (completion_due (if is_generic r then gcr_transaction_id (pc_command r) else 0) s)"

lemma command_taken:
  "valid (\<lambda>s. command_inv s \<and> \<not> mo_active (pk_operation s) \<and> \<not> mo_pending_start (pk_operation s) \<and>
       \<not> cm_pending (pk_completion s)) (emit (Pe_command r)) (\<lambda>_. taken r)"
  by (auto simp: valid_def emit_def command_inv_def command_ok_def taken_def completion_due_def command_allowed_def
      outstanding_step_def is_generic_def expected_def)

lemma taken_generic: "taken r s \<Longrightarrow> pc_kind r = PCK_generic \<Longrightarrow> completion_due (gcr_transaction_id (pc_command r)) s"
  by (simp add: taken_def is_generic_def split: if_splits)

lemma pending_inv: "completion_due tx s \<Longrightarrow>
    command_inv (s\<lparr>pk_operation := operation_none\<lparr>mo_pending_start := True, mo_transaction_id := tx,
      mo_delta_degrees := delta\<rparr>, pk_desired := d, pk_hold_established := h\<rparr>)"
  by (simp add: completion_due_def command_inv_def command_ok_def expected_def manual_def operation_none_def)

lemma taken_start:
  assumes "pc_kind r = PCK_start_preparation"
  shows "valid (taken r) (modify (\<lambda>s. s\<lparr>pk_pending_start_response := a, pk_start_response_pending := True\<rparr>))
    (\<lambda>_. command_inv)"
  by (rule valid_modify)
     (use assms in \<open>simp add: taken_def is_generic_def completion_due_def command_inv_def
        command_ok_def expected_def manual_def\<close>)

lemma taken_unsupported:
  assumes "pc_kind r \<noteq> PCK_start_preparation"
  shows "valid (taken r) (queueGenericCompletion (gcr_transaction_id (pc_command r)) CR_not_supported 0)
    (\<lambda>_. command_inv)"
  by (rule valid_strengthen [OF completion_queued], rule taken_generic)
     (use assms para_command_kind.exhaust in auto)

lemma taken_pending:
  assumes "pc_kind r \<noteq> PCK_start_preparation"
  shows "valid (taken r) (do {
      modify (\<lambda>s. s\<lparr>pk_operation := operation_none\<lparr>mo_pending_start := True,
          mo_transaction_id := gcr_transaction_id (pc_command r), mo_delta_degrees := delta\<rparr>,
        pk_desired := DS_holding, pk_hold_established := False\<rparr>);
      _ \<leftarrow> requestPower api now_us;
      ret () }) (\<lambda>_. command_inv)"
proof (rule valid_bind [OF valid_modify [where Q = "\<lambda>_. command_inv"]])
  show "command_inv (s\<lparr>pk_operation := operation_none\<lparr>mo_pending_start := True,
      mo_transaction_id := gcr_transaction_id (pc_command r), mo_delta_degrees := delta\<rparr>,
      pk_desired := DS_holding, pk_hold_established := False\<rparr>)" if "taken r s" for s :: "'a para_task"
    using taken_generic [OF that] pending_inv assms para_command_kind.exhaust by blast
qed (unfold keeps_valid [symmetric], intro keeps_rules keeps_access)

text \<open>No operation and no completion: the state in which the queue is read.\<close>

definition no_command :: "'d para_task \<Rightarrow> bool" where
  "no_command s = (command_inv s \<and> \<not> mo_active (pk_operation s) \<and> \<not> mo_pending_start (pk_operation s) \<and>
     \<not> cm_pending (pk_completion s))"

lemma call_no_command: "valid no_command (call c) (\<lambda>_. no_command)"
  using leaves_command(1) by (intro guar_valid [OF guar_call]) (auto simp: leaves_def no_command_def)

lemma take_commands: "keeps command_inv (take_command api now_us)"
  unfolding keeps_valid take_command_def
proof (rule valid_bind [OF valid_gets [where Q = "\<lambda>s t. s = t \<and> command_inv t"]], simp, rule valid_only_if, goal_cases)
  case (1 s)
  show ?case
  proof (rule valid_strengthen [where P' = no_command], rule valid_bind [OF call_no_command], rule valid_option, goal_cases)
    case (2 received r)
    show ?case
      by (rule valid_bind [OF command_taken [folded no_command_def]], rule valid_ret_bind,
          intro valid_if taken_start taken_unsupported taken_pending)
  next
    case (3 t)
    then show ?case using 1 by (auto simp: no_command_def)
  qed (rule valid_ret, simp add: no_command_def)
qed simp

section \<open>Property\<close>

lemma turn_commands: "keeps command_inv (parachute_turn ovf api input)"
  unfolding parachute_turn_def
  by (intro keeps_rules flush_commands keeps_ops(1) [OF guar_send_response] request_commands take_commands drive_commands)

text \<open>C40: In every run of the parachute task a manual command is taken only when none is outstanding, and a
  completion is only ever sent for the command that is outstanding: every accepted command gets at
  most one result, under its own transaction, and none after the mission dropped it.\<close>

theorem commands_complete_once:
  "trace_allowed command_allowed (pk_trace (parachute_run ovf api inputs (para_init shared)))"
proof -
  have "keeps command_inv (each (parachute_turn ovf api) inputs)" by (intro keeps_each turn_commands)
  moreover have "command_inv (para_init shared)"
    by (simp add: command_inv_def command_ok_def para_init_def outstanding_def expected_def manual_def
        operation_none_def completion_none_def)
  ultimately have "command_inv (parachute_run ovf api inputs (para_init shared))"
    by (simp add: keeps_def parachute_run_def)
  then show ?thesis by (simp add: command_inv_def command_ok_def)
qed

end
