(* ===== verification/Recovery_Task.thy ===== *)
theory Recovery_Task
  imports State_Guarantees Can_Codec Mission_State Flight_Storage Recovery_Safety
begin

text \<open>
  \<open>runtime/production_runtime.cpp\<close>, \<open>internalFlashTask\<close>: the records of the internal flash log, the entry
  into recovery up to the deep sleep, and the dump of the log over CAN. The operations are written in
  the state monad over the task's locals (\<open>flash_task\<close>); what other tasks share with it is
  \<open>flash_shared\<close>, the flash log and the RTC memory included, and \<open>fa_others\<close> is what they did to it
  before an atomic access. Deep sleep does not return: \<open>ft_asleep\<close> ends the run. \<open>ft_trace\<close> is a history
  variable without a counterpart in the code.
\<close>

section \<open>State\<close>

datatype recovery_request_kind = RQ_control | RQ_enter

record recovery_request =
  rq_kind :: recovery_request_kind
  rq_control :: recovery_control
  rq_reason :: recovery_mode_reason

record dump_cursor =
  dc_active :: bool
  dc_control :: recovery_control
  dc_next_offset :: u32
  dc_remaining :: u32
  dc_sequence :: u8

definition dump_none :: dump_cursor where
  "dump_none = \<lparr>dc_active = False,
     dc_control = \<lparr>rc_opcode = RO_wake, rc_source = RS_internal_flash, rc_transfer_id = 0, rc_offset = 0, rc_length = 0\<rparr>,
     dc_next_offset = 0, dc_remaining = 0, dc_sequence = 0\<rparr>"

record ('d, 'n) flash_shared =
  fs_device :: 'd
  fs_log :: flash_log
  fs_boot :: "'n boot_memory"
  fs_recovery_requested :: bool
  fs_recovery_only_mode :: bool
  fs_recovery_wake_valid :: bool
  fs_recovery_motor_safe :: bool
  fs_recovery_power_safe :: bool
  fs_recovery_sd_flushed :: bool
  fs_persistence_flushed :: bool
  fs_recovery_mode_reason :: u8
  fs_recovery_mode_command_sent :: bool
  fs_recovery_mode_command_pending :: bool
  fs_flash_log_drop_count :: u32
  fs_flash_log_failed :: bool
  fs_event_overflow_latch :: u16

record ('d, 'n) flash_api =
  fa_others :: "('d, 'n) flash_shared \<Rightarrow> ('d, 'n) flash_shared"
  fa_partition :: "'d partition_api"
  fa_nvs :: "'n nvs_api"
  fa_now :: "'d \<Rightarrow> u64 \<times> 'd"
  fa_rtc_now :: "'d \<Rightarrow> u64 \<times> 'd"
  fa_snapshot :: "'d \<Rightarrow> mission_snapshot option \<times> 'd"
  fa_send_status :: "recovery_status_message \<Rightarrow> 'd \<Rightarrow> bool \<times> 'd"
  fa_send_data :: "recovery_log_data \<Rightarrow> 'd \<Rightarrow> bool \<times> 'd"
  fa_send_event :: "u16 \<Rightarrow> mission_state \<Rightarrow> u16 \<Rightarrow> u16 \<Rightarrow> 'd \<Rightarrow> bool \<times> 'd"
  fa_overwrite_persistence :: "'d \<Rightarrow> bool \<times> 'd"
  fa_forward_to_sd :: "recovery_control \<Rightarrow> 'd \<Rightarrow> bool \<times> 'd"
  fa_records_waiting :: "'d \<Rightarrow> nat \<times> 'd"

datatype flash_event =
    Fe_only bool | Fe_snapshot mission_snapshot | Fe_entry recovery_mode_reason
  | Fe_flags bool bool bool bool | Fe_marker bool | Fe_sent_flag bool | Fe_time u64 | Fe_sleep
  | Fe_start recovery_control u32 | Fe_read u32 nat "esp_code \<times> u8 list"
  | Fe_chunk recovery_log_data "u8 list" | Fe_complete

record ('d, 'n) flash_task =
  ft_shared :: "('d, 'n) flash_shared"
  ft_recovery :: recovery_state
  ft_enter_waiting :: bool
  ft_enter_reason :: recovery_mode_reason
  ft_entry_deadline_us :: u64
  ft_wake_deadline_us :: u64
  ft_flush_pending :: bool
  ft_dump :: dump_cursor
  ft_asleep :: bool
  ft_trace :: "flash_event list"

type_synonym ('d, 'n, 'a) flash = "(('d, 'n) flash_task, 'a) state"

definition flash_task_init :: "('d, 'n) flash_shared \<Rightarrow> ('d, 'n) flash_task" where
  "flash_task_init shared = \<lparr>ft_shared = shared, ft_recovery = RS_inactive, ft_enter_waiting = False,
     ft_enter_reason = RR_auto_elapsed_120, ft_entry_deadline_us = 0, ft_wake_deadline_us = 0,
     ft_flush_pending = False, ft_dump = dump_none, ft_asleep = False, ft_trace = []\<rparr>"

section \<open>Access to what is shared\<close>

definition fl_emit :: "flash_event \<Rightarrow> ('d, 'n, unit) flash" where
  "fl_emit e = modify (\<lambda>s. s\<lparr>ft_trace := ft_trace s @ [e]\<rparr>)"

definition store :: "(('d, 'n) flash_shared \<Rightarrow> ('d, 'n) flash_shared) \<Rightarrow> ('d, 'n, unit) flash" where
  "store f = modify (\<lambda>s. s\<lparr>ft_shared := f (ft_shared s)\<rparr>)"

definition load :: "('d, 'n) flash_api \<Rightarrow> (('d, 'n) flash_shared \<Rightarrow> 'a) \<Rightarrow> ('d, 'n, 'a) flash" where
  "load api f = do { store (fa_others api); gets (\<lambda>s. f (ft_shared s)) }"

definition fl_call :: "('d \<Rightarrow> 'a \<times> 'd) \<Rightarrow> ('d, 'n, 'a) flash" where
  "fl_call c = do {
     (a, d) \<leftarrow> gets (\<lambda>s. c (fs_device (ft_shared s)));
     store (\<lambda>h. h\<lparr>fs_device := d\<rparr>);
     ret a }"

definition read_clock :: "('d, 'n) flash_api \<Rightarrow> ('d, 'n, u64) flash" where
  "read_clock api = do { now \<leftarrow> fl_call (fa_now api); fl_emit (Fe_time now); ret now }"

definition load_only_mode :: "('d, 'n) flash_api \<Rightarrow> ('d, 'n, bool) flash" where
  "load_only_mode api = do {
     recovery_only \<leftarrow> load api fs_recovery_only_mode;
     fl_emit (Fe_only recovery_only);
     ret recovery_only }"

definition send_status :: "('d, 'n) flash_api \<Rightarrow> recovery_opcode \<Rightarrow> u8 \<Rightarrow> recovery_status_code \<Rightarrow>
    recovery_source \<Rightarrow> u32 \<Rightarrow> ('d, 'n, unit) flash" where
  "send_status api opcode transfer_id status source total_size = do {
     _ \<leftarrow> fl_call (fa_send_status api \<lparr>rsm_opcode = opcode, rsm_transfer_id = transfer_id,
       rsm_status = status, rsm_source = source, rsm_total_size = total_size\<rparr>);
     ret () }"

definition log_size :: "('d, 'n) flash_api \<Rightarrow> ('d, 'n, u32) flash" where
  "log_size api = load api (\<lambda>h. of_nat (flash_size (fs_log h)))"

section \<open>The entry of the task\<close>

definition flash_task_start :: "('d, 'n) flash_api \<Rightarrow> ('d, 'n, unit) flash" where
  "flash_task_start api = do {
     recovery_only \<leftarrow> load_only_mode api;
     only_if recovery_only (do {
       store (\<lambda>h. h\<lparr>fs_recovery_requested := True, fs_recovery_motor_safe := True\<rparr>);
       valid_wake \<leftarrow> load api fs_recovery_wake_valid;
       only_if valid_wake (modify (\<lambda>s. s\<lparr>ft_recovery := snd (recovery_wake True True (ft_recovery s))\<rparr>));
       send_status api RO_wake 0 (if valid_wake then SC_ready else SC_internal_error) RS_internal_flash 0;
       store (\<lambda>h. h\<lparr>fs_recovery_mode_reason := recovery_mode_reason_code RR_recovery_wake_retry,
         fs_recovery_mode_command_sent := False, fs_recovery_mode_command_pending := True\<rparr>);
       now \<leftarrow> read_clock api;
       modify (\<lambda>s. s\<lparr>ft_wake_deadline_us := now + 2000000\<rparr>) }) }"

section \<open>The records\<close>

definition persistence_error_flag :: u16 where "persistence_error_flag = push_bit 9 1"

definition flash_enqueueEvent :: "('d, 'n) flash_api \<Rightarrow> u16 \<Rightarrow> mission_state \<Rightarrow> u16 \<Rightarrow> u16 \<Rightarrow> ('d, 'n, unit) flash" where
  "flash_enqueueEvent api flags st elapsed_raw detail = do {
     queued \<leftarrow> fl_call (fa_send_event api flags st elapsed_raw detail);
     only_if (\<not> queued) (store (\<lambda>h. h\<lparr>fs_event_overflow_latch := fs_event_overflow_latch h OR flags\<rparr>)) }"

definition append_record :: "('d, 'n) flash_api \<Rightarrow> u8 list \<Rightarrow> ('d, 'n, unit) flash" where
  "append_record api r = do {
     (e, l, d) \<leftarrow> load api (\<lambda>h. flash_append (fa_partition api) r (fs_log h, fs_device h));
     store (\<lambda>h. h\<lparr>fs_log := l, fs_device := d\<rparr>);
     only_if (e \<noteq> EC_ok) (do {
       store (\<lambda>h. h\<lparr>fs_flash_log_drop_count := fs_flash_log_drop_count h + 1\<rparr>);
       failed \<leftarrow> load api fs_flash_log_failed;
       store (\<lambda>h. h\<lparr>fs_flash_log_failed := True\<rparr>);
       only_if (\<not> failed) (flash_enqueueEvent api persistence_error_flag MS_unknown 0 0x9001) }) }"

section \<open>The recovery requests\<close>

definition enter_request :: "('d, 'n) flash_api \<Rightarrow> recovery_mode_reason \<Rightarrow> ('d, 'n, unit) flash" where
  "enter_request api reason = do {
     requested \<leftarrow> load api fs_recovery_requested;
     only_if (\<not> requested) (do {
       sn \<leftarrow> fl_call (fa_snapshot api);
       (case sn of None \<Rightarrow> ret () | Some n \<Rightarrow> fl_emit (Fe_snapshot n));
       recovery \<leftarrow> gets ft_recovery;
       only_if ((case sn of None \<Rightarrow> False
           | Some n \<Rightarrow> sn_state n = MS_descent \<and> sn_power_cutoff_latched n) \<and> fst (requestEntry recovery)) (do {
         fl_emit (Fe_entry reason);
         modify (\<lambda>s. s\<lparr>ft_recovery := snd (requestEntry recovery), ft_enter_reason := reason\<rparr>);
         store (\<lambda>h. h\<lparr>fs_recovery_requested := True, fs_recovery_sd_flushed := False,
           fs_persistence_flushed := False, fs_recovery_mode_command_pending := False,
           fs_recovery_mode_command_sent := False\<rparr>);
         signalled \<leftarrow> fl_call (fa_overwrite_persistence api);
         only_if signalled (modify (\<lambda>s. s\<lparr>ft_flush_pending := True, ft_enter_waiting := True\<rparr>)) }) }) }"

text \<open>The answer to \<open>start_log_dump\<close>, with the cursor.\<close>

definition start_dump ::
    "bool \<Rightarrow> u32 \<Rightarrow> recovery_control \<Rightarrow> dump_cursor \<Rightarrow> recovery_status_code \<times> dump_cursor" where
  "start_dump ready total_size control cursor =
     (if \<not> ready then (SC_source_unavailable, cursor)
      else if dc_active cursor then (SC_busy, cursor)
      else if rc_offset control > total_size then (SC_invalid_argument, cursor)
      else let available = total_size - rc_offset control;
               requested = (if rc_length control = 0 then available else min (rc_length control) available) in
        (if requested = 0 then SC_complete else SC_dumping,
         \<lparr>dc_active = (requested \<noteq> 0), dc_control = control, dc_next_offset = rc_offset control,
           dc_remaining = requested, dc_sequence = 0\<rparr>))"

definition stop_dump :: "recovery_control \<Rightarrow> dump_cursor \<Rightarrow> recovery_status_code \<times> dump_cursor" where
  "stop_dump control cursor =
     (if dc_active cursor \<and> rc_transfer_id (dc_control cursor) = rc_transfer_id control
      then (SC_aborted, cursor\<lparr>dc_active := False\<rparr>) else (SC_invalid_state, cursor))"

definition flash_control ::
    "bool \<Rightarrow> bool \<Rightarrow> u32 \<Rightarrow> recovery_control \<Rightarrow> dump_cursor \<Rightarrow> recovery_status_code \<times> dump_cursor" where
  "flash_control recovery_only ready total_size control cursor =
     (case rc_opcode control of
       RO_wake \<Rightarrow> (if recovery_only then SC_ready else SC_invalid_state, cursor)
     | RO_start_log_dump \<Rightarrow> if \<not> recovery_only then (SC_invalid_state, cursor)
         else start_dump ready total_size control cursor
     | RO_stop_log_dump \<Rightarrow> if \<not> recovery_only then (SC_invalid_state, cursor)
         else stop_dump control cursor)"

definition control_request :: "('d, 'n) flash_api \<Rightarrow> recovery_control \<Rightarrow> ('d, 'n, unit) flash" where
  "control_request api control =
     (if rc_source control = RS_mission_sd_latest_flight
      then do {
        forwarded \<leftarrow> fl_call (fa_forward_to_sd api control);
        only_if (\<not> forwarded)
          (send_status api (rc_opcode control) (rc_transfer_id control) SC_busy (rc_source control) 0) }
      else do {
        recovery_only \<leftarrow> load_only_mode api;
        total_size \<leftarrow> log_size api;
        ready \<leftarrow> load api (\<lambda>h. flash_ready (fs_log h));
        cursor \<leftarrow> gets ft_dump;
        (status, cursor) \<leftarrow> ret (flash_control recovery_only ready total_size control cursor);
        modify (\<lambda>s. s\<lparr>ft_dump := cursor\<rparr>);
        only_if (status = SC_dumping) (fl_emit (Fe_start control (dc_remaining cursor)));
        total_size \<leftarrow> log_size api;
        send_status api (rc_opcode control) (rc_transfer_id control) status (rc_source control) total_size })"

definition recovery_request_step :: "('d, 'n) flash_api \<Rightarrow> recovery_request \<Rightarrow> ('d, 'n, unit) flash" where
  "recovery_request_step api request =
     (case rq_kind request of
       RQ_enter \<Rightarrow> enter_request api (rq_reason request)
     | RQ_control \<Rightarrow> control_request api (rq_control request))"

section \<open>One chunk of the dump\<close>

definition dump_step :: "('d, 'n) flash_api \<Rightarrow> ('d, 'n, unit) flash" where
  "dump_step api = do {
     c \<leftarrow> gets ft_dump;
     only_if (dc_active c) (do {
       (read, bytes, d) \<leftarrow> load api (\<lambda>h. flash_read (fa_partition api) (unat (dc_next_offset c))
         (min 6 (unat (dc_remaining c))) (fs_log h, fs_device h));
       store (\<lambda>h. h\<lparr>fs_device := d\<rparr>);
       fl_emit (Fe_read (dc_next_offset c) (min 6 (unat (dc_remaining c))) (read, bytes));
       if read \<noteq> EC_ok \<or> bytes = []
       then do {
         total_size \<leftarrow> log_size api;
         send_status api RO_start_log_dump (rc_transfer_id (dc_control c)) SC_io_error RS_internal_flash total_size;
         modify (\<lambda>s. s\<lparr>ft_dump := (ft_dump s)\<lparr>dc_active := False\<rparr>\<rparr>) }
       else do {
         data \<leftarrow> ret \<lparr>rld_transfer_id = rc_transfer_id (dc_control c), rld_sequence = dc_sequence c,
           rld_data = bytes @ replicate (6 - length bytes) 0\<rparr>;
         sent \<leftarrow> fl_call (fa_send_data api data);
         only_if sent (do {
           fl_emit (Fe_chunk data bytes);
           modify (\<lambda>s. s\<lparr>ft_dump := c\<lparr>dc_next_offset := dc_next_offset c + of_nat (length bytes),
             dc_remaining := dc_remaining c - of_nat (length bytes), dc_sequence := dc_sequence c + 1\<rparr>\<rparr>);
           remaining \<leftarrow> gets (\<lambda>s. dc_remaining (ft_dump s));
           only_if (remaining = 0) (do {
             fl_emit Fe_complete;
             total_size \<leftarrow> log_size api;
             send_status api RO_start_log_dump (rc_transfer_id (dc_control c)) SC_complete RS_internal_flash total_size;
             modify (\<lambda>s. s\<lparr>ft_dump := (ft_dump s)\<lparr>dc_active := False\<rparr>\<rparr>) }) }) } }) }"

section \<open>The way into deep sleep\<close>

definition flush_step :: "('d, 'n) flash_api \<Rightarrow> ('d, 'n, unit) flash" where
  "flush_step api = do {
     pending \<leftarrow> gets ft_flush_pending;
     only_if pending (do {
       waiting \<leftarrow> fl_call (fa_records_waiting api);
       only_if (waiting = 0) (do {
         store (\<lambda>h. h\<lparr>fs_persistence_flushed := True\<rparr>);
         modify (\<lambda>s. s\<lparr>ft_flush_pending := False\<rparr>) }) }) }"

definition safe_flags :: "('d, 'n) flash_api \<Rightarrow> ('d, 'n, bool) flash" where
  "safe_flags api = do {
     power \<leftarrow> load api fs_recovery_power_safe;
     motor \<leftarrow> load api fs_recovery_motor_safe;
     sd \<leftarrow> load api fs_recovery_sd_flushed;
     flash \<leftarrow> load api fs_persistence_flushed;
     fl_emit (Fe_flags power motor sd flash);
     ret (power \<and> motor \<and> sd \<and> flash) }"

definition commit_step :: "('d, 'n) flash_api \<Rightarrow> ('d, 'n, unit) flash" where
  "commit_step api = do {
     waiting \<leftarrow> gets ft_enter_waiting;
     only_if waiting (do {
       safe \<leftarrow> safe_flags api;
       only_if safe (do {
         rtc_now \<leftarrow> fl_call (fa_rtc_now api);
         (committed, b) \<leftarrow> load api (\<lambda>h. commitRecoveryEntryMarker (fa_nvs api) rtc_now (fs_boot h));
         store (\<lambda>h. h\<lparr>fs_boot := b\<rparr>);
         fl_emit (Fe_marker committed);
         recovery \<leftarrow> gets ft_recovery;
         only_if committed (do {
           modify (\<lambda>s. s\<lparr>ft_recovery := snd (markResourcesSafeAndFlushed recovery)\<rparr>);
           only_if (fst (markResourcesSafeAndFlushed recovery)) (do {
             reason \<leftarrow> gets ft_enter_reason;
             store (\<lambda>h. h\<lparr>fs_recovery_mode_reason := recovery_mode_reason_code reason,
               fs_recovery_mode_command_sent := False, fs_recovery_mode_command_pending := True\<rparr>);
             now \<leftarrow> read_clock api;
             modify (\<lambda>s. s\<lparr>ft_entry_deadline_us := now + 1000000, ft_enter_waiting := False\<rparr>) }) }) }) }) }"

definition sleep_step :: "('d, 'n) flash_api \<Rightarrow> ('d, 'n, unit) flash" where
  "sleep_step api = do {
     recovery_only \<leftarrow> load_only_mode api;
     wake_elapsed \<leftarrow> (if recovery_only
       then do { now \<leftarrow> read_clock api; gets (\<lambda>s. now \<ge> ft_wake_deadline_us s) } else ret False);
     entry_deadline \<leftarrow> gets ft_entry_deadline_us;
     entry_elapsed \<leftarrow> (if \<not> recovery_only \<and> entry_deadline \<noteq> 0
       then do { now \<leftarrow> read_clock api; ret (now \<ge> entry_deadline) } else ret False);
     recovery \<leftarrow> gets ft_recovery;
     only_if (mayEnterDeepSleep recovery) (do {
       sleep \<leftarrow> (if wake_elapsed then ret True
         else if recovery_only then ret False
         else do {
           sent \<leftarrow> load api fs_recovery_mode_command_sent;
           fl_emit (Fe_sent_flag sent);
           ret (sent \<or> entry_elapsed) });
       only_if sleep (do {
         b \<leftarrow> load api (\<lambda>h. prepareMarker (fa_nvs api) (fs_boot h));
         store (\<lambda>h. h\<lparr>fs_boot := b\<rparr>);
         fl_emit Fe_sleep;
         modify (\<lambda>s. s\<lparr>ft_asleep := True\<rparr>) }) }) }"

section \<open>The turn\<close>

definition flash_turn :: "('d, 'n) flash_api \<Rightarrow> u8 list list \<times> recovery_request list \<Rightarrow> ('d, 'n, unit) flash" where
  "flash_turn api input = do {
     asleep \<leftarrow> gets ft_asleep;
     only_if (\<not> asleep) (do {
       each (append_record api) (fst input);
       each (recovery_request_step api) (snd input);
       dump_step api;
       flush_step api;
       commit_step api;
       sleep_step api }) }"

definition flash_task_run ::
    "('d, 'n) flash_api \<Rightarrow> (u8 list list \<times> recovery_request list) list \<Rightarrow> ('d, 'n) flash_task \<Rightarrow>
       ('d, 'n) flash_task" where
  "flash_task_run api inputs s = snd (run_state (do { flash_task_start api; each (flash_turn api) inputs }) s)"

end
