(* ===== verification/Recovery_Sleep.thy ===== *)
theory Recovery_Sleep
  imports Recovery_Task
begin

text \<open>
  The way of the internal flash task into deep sleep on a flight boot, read from its trace. The phases
  of the entry are a small automaton over the events (\<open>entry_stage\<close>); \<open>sleep_inv\<close> ties it to the
  recovery state and the deadline of the task.
\<close>

section \<open>The trace\<close>

text \<open>0 before the entry, 1 entered, 2 all four flags read as safe, 3 marker committed after that.\<close>

definition stage_step :: "nat \<Rightarrow> flash_event \<Rightarrow> nat" where
  "stage_step k e = (case e of
     Fe_entry _ \<Rightarrow> 1
   | Fe_flags rails motor sdcard flash \<Rightarrow>
       if k = 0 \<or> k = 3 then k else if rails \<and> motor \<and> sdcard \<and> flash then 2 else 1
   | Fe_marker committed \<Rightarrow> if k = 2 \<and> committed then 3 else k
   | _ \<Rightarrow> k)"

definition entry_stage :: "flash_event list \<Rightarrow> nat" where
  "entry_stage tr = foldl stage_step 0 tr"

definition clock_reads :: "flash_event list \<Rightarrow> u64 list" where
  "clock_reads tr = concat (map (\<lambda>e. case e of Fe_time t \<Rightarrow> [t] | _ \<Rightarrow> []) tr)"

definition sent_reads :: "flash_event list \<Rightarrow> bool list" where
  "sent_reads tr = concat (map (\<lambda>e. case e of Fe_sent_flag b \<Rightarrow> [b] | _ \<Rightarrow> []) tr)"

definition state_reads :: "flash_event list \<Rightarrow> mission_snapshot list" where
  "state_reads tr = concat (map (\<lambda>e. case e of Fe_snapshot n \<Rightarrow> [n] | _ \<Rightarrow> []) tr)"

text \<open>
  Recovery is entered on a snapshot in descent after the power cutoff. Deep sleep needs the whole
  entry, and then either the mode command was read as sent or one second has passed since the
  clock reading that followed the marker.
\<close>

definition sleep_allowed :: "flash_event list \<Rightarrow> flash_event \<Rightarrow> bool" where
  "sleep_allowed tr e = (case e of
     Fe_entry _ \<Rightarrow> state_reads tr \<noteq> [] \<and> sn_state (last (state_reads tr)) = MS_descent \<and>
       sn_power_cutoff_latched (last (state_reads tr))
   | Fe_sleep \<Rightarrow> entry_stage tr = 3 \<and> clock_reads tr \<noteq> [] \<and>
       (sent_reads tr \<noteq> [] \<and> last (sent_reads tr) \<or> hd (clock_reads tr) + 1000000 \<le> last (clock_reads tr))
   | _ \<Rightarrow> True)"

lemma reads_snoc [simp]:
  "entry_stage (tr @ [e]) = stage_step (entry_stage tr) e"
  "clock_reads (tr @ [e]) = clock_reads tr @ (case e of Fe_time t \<Rightarrow> [t] | _ \<Rightarrow> [])"
  "sent_reads (tr @ [e]) = sent_reads tr @ (case e of Fe_sent_flag b \<Rightarrow> [b] | _ \<Rightarrow> [])"
  "state_reads (tr @ [e]) = state_reads tr @ (case e of Fe_snapshot n \<Rightarrow> [n] | _ \<Rightarrow> [])"
  by (simp_all add: entry_stage_def clock_reads_def sent_reads_def state_reads_def split: flash_event.splits)

section \<open>What the operations leave alone\<close>

text \<open>Events that do not concern the entry.\<close>

definition aside :: "flash_event \<Rightarrow> bool" where
  "aside e = (case e of Fe_entry _ \<Rightarrow> False | Fe_flags _ _ _ _ \<Rightarrow> False | Fe_marker _ \<Rightarrow> False
     | Fe_time _ \<Rightarrow> False | Fe_sent_flag _ \<Rightarrow> False | Fe_sleep \<Rightarrow> False | _ \<Rightarrow> True)"

definition calm :: "('d, 'n) flash_task \<Rightarrow> ('d, 'n) flash_task \<Rightarrow> bool" where
  "calm s s' = (ft_recovery s' = ft_recovery s \<and> ft_enter_waiting s' = ft_enter_waiting s \<and>
     ft_entry_deadline_us s' = ft_entry_deadline_us s \<and>
     (\<exists>es. ft_trace s' = ft_trace s @ es \<and> list_all aside es))"

lemma calm_preorder: "preorder_rel calm"
  by (fastforce simp: preorder_rel_def calm_def)

interpretation cm: guarantee calm
  by unfold_locales (rule calm_preorder)

lemma calm_emit: "aside e \<Longrightarrow> guar calm (fl_emit e)"
  by (simp add: fl_emit_def guar_def calm_def)

lemma calm_modify:
  "(\<And>s. ft_recovery (f s) = ft_recovery s \<and> ft_enter_waiting (f s) = ft_enter_waiting s \<and>
     ft_entry_deadline_us (f s) = ft_entry_deadline_us s \<and> ft_trace (f s) = ft_trace s) \<Longrightarrow> guar calm (modify f)"
  by (rule cm.modify) (simp add: calm_def)

lemma calm_store: "guar calm (store f)"
  unfolding store_def by (rule calm_modify) simp

lemma calm_load: "guar calm (load api f)"
  unfolding load_def by (intro cm.construct calm_store)

lemma calm_call: "guar calm (fl_call c)"
  unfolding fl_call_def by (intro cm.construct calm_store)

lemmas calm_access = cm.construct calm_store calm_load calm_call calm_emit calm_modify

lemma aside_simps [simp]:
  "aside (Fe_only b)" "aside (Fe_snapshot n)" "aside (Fe_start c r)" "aside (Fe_read off len a)"
  "aside (Fe_chunk d bs)" "aside Fe_complete"
  by (simp_all add: aside_def)

lemma calm_only: "guar calm (load_only_mode api)"
  unfolding load_only_mode_def by (intro calm_access) simp

lemma calm_status: "guar calm (send_status api op tx st src n)"
  unfolding send_status_def by (intro calm_access)

lemma calm_append: "guar calm (append_record api r)"
  unfolding append_record_def flash_enqueueEvent_def by (intro calm_access)

lemma calm_control: "guar calm (control_request api control)"
  unfolding control_request_def log_size_def by (intro calm_access calm_status calm_only) simp_all

lemma calm_dump: "guar calm (dump_step api)"
  unfolding dump_step_def log_size_def by (intro calm_access calm_status) simp_all

lemma calm_flush: "guar calm (flush_step api)"
  unfolding flush_step_def by (intro calm_access) simp

section \<open>The invariant\<close>

definition flight_trace :: "flash_event list \<Rightarrow> bool" where
  "flight_trace tr = (Fe_only True \<notin> set tr)"

text \<open>A phase of the entry, on a flight boot.\<close>

definition phase :: "recovery_state \<Rightarrow> nat set \<Rightarrow> u64 list \<Rightarrow> u64 \<Rightarrow> ('d, 'n) flash_task \<Rightarrow> bool" where
  "phase r ks ts d s = (trace_allowed sleep_allowed (ft_trace s) \<and> ft_recovery s = r \<and>
     entry_stage (ft_trace s) \<in> ks \<and> clock_reads (ft_trace s) = ts \<and> ft_entry_deadline_us s = d)"

definition entered :: "('d, 'n) flash_task \<Rightarrow> bool" where
  "entered s = (\<exists>t ts. phase RS_ready_for_deep_sleep {3} (t # ts) (t + 1000000) s)"

definition sleep_inv :: "('d, 'n) flash_task \<Rightarrow> bool" where
  "sleep_inv s = (flight_trace (ft_trace s) \<longrightarrow>
     (phase RS_inactive {0} [] 0 s \<and> \<not> ft_enter_waiting s) \<or> phase RS_flushing_and_safeing {1, 2} [] 0 s \<or>
     (entered s \<and> \<not> ft_enter_waiting s))"

text \<open>\<open>P\<close> holds on a flight boot.\<close>

definition on_flight :: "(('d, 'n) flash_task \<Rightarrow> bool) \<Rightarrow> ('d, 'n) flash_task \<Rightarrow> bool" where
  "on_flight P s = (flight_trace (ft_trace s) \<longrightarrow> P s)"

lemma aside_reads:
  assumes "list_all aside es"
  shows "entry_stage (tr @ es) = entry_stage tr" and "clock_reads (tr @ es) = clock_reads tr"
    and "sent_reads (tr @ es) = sent_reads tr"
proof -
  have "entry_stage (tr @ es) = entry_stage tr \<and> clock_reads (tr @ es) = clock_reads tr \<and>
      sent_reads (tr @ es) = sent_reads tr"
    using assms
  proof (induction es rule: rev_induct)
    case (snoc e es)
    then show ?case using reads_snoc(1-3) [of "tr @ es" e] by (cases e) (simp_all add: stage_step_def aside_def)
  qed simp
  then show "entry_stage (tr @ es) = entry_stage tr" "clock_reads (tr @ es) = clock_reads tr"
    "sent_reads (tr @ es) = sent_reads tr" by simp_all
qed

lemma aside_allowed: "aside e \<Longrightarrow> sleep_allowed tr e"
  by (cases e) (simp_all add: aside_def sleep_allowed_def)

lemma phase_calm:
  assumes "calm s s'"
  shows "phase r ks ts d s \<Longrightarrow> phase r ks ts d s'" and "flight_trace (ft_trace s') \<Longrightarrow> flight_trace (ft_trace s)"
    and "ft_enter_waiting s' = ft_enter_waiting s"
proof -
  obtain es where es: "ft_trace s' = ft_trace s @ es" "list_all aside es"
    and eq: "ft_recovery s' = ft_recovery s" "ft_entry_deadline_us s' = ft_entry_deadline_us s"
      "ft_enter_waiting s' = ft_enter_waiting s"
    using assms by (auto simp: calm_def)
  have "trace_allowed sleep_allowed (ft_trace s @ es)" if "trace_allowed sleep_allowed (ft_trace s)"
    by (rule trace_allowed_quiet [OF that es(2)]) (rule aside_allowed)
  then show "phase r ks ts d s \<Longrightarrow> phase r ks ts d s'" using aside_reads [OF es(2)] by (simp add: phase_def es(1) eq)
  show "flight_trace (ft_trace s') \<Longrightarrow> flight_trace (ft_trace s)" by (simp add: flight_trace_def es(1))
  show "ft_enter_waiting s' = ft_enter_waiting s" by (rule eq(3))
qed

lemma entered_calm: "calm s s' \<Longrightarrow> entered s \<Longrightarrow> entered s'"
  unfolding entered_def using phase_calm(1) by blast

lemma sleep_inv_calm:
  assumes "sleep_inv s" and c: "calm s s'"
  shows "sleep_inv s'"
  unfolding sleep_inv_def
proof
  assume "flight_trace (ft_trace s')"
  then have "flight_trace (ft_trace s)" by (rule phase_calm(2) [OF c])
  with assms(1) have "(phase RS_inactive {0} [] 0 s \<and> \<not> ft_enter_waiting s) \<or> phase RS_flushing_and_safeing {1, 2} [] 0 s \<or>
      (entered s \<and> \<not> ft_enter_waiting s)" by (simp add: sleep_inv_def)
  then show "(phase RS_inactive {0} [] 0 s' \<and> \<not> ft_enter_waiting s') \<or> phase RS_flushing_and_safeing {1, 2} [] 0 s' \<or>
      (entered s' \<and> \<not> ft_enter_waiting s')"
    using phase_calm(1) [OF c] entered_calm [OF c] phase_calm(3) [OF c] by blast
qed

lemma keeps_calm: "guar calm m \<Longrightarrow> keeps sleep_inv m"
  by (erule guar_keeps) (rule sleep_inv_calm)

lemma flight_calm:
  assumes "guar calm m"
  shows "valid (on_flight (phase r ks ts d)) m (\<lambda>_. on_flight (phase r ks ts d))"
  using assms by (rule guar_valid) (auto simp: on_flight_def intro: phase_calm)

section \<open>The entry\<close>

abbreviation flushing :: "nat set \<Rightarrow> ('d, 'n) flash_task \<Rightarrow> bool" where
  "flushing ks \<equiv> on_flight (phase RS_flushing_and_safeing ks [] 0)"

lemma flushing_inv: "flushing ks s \<Longrightarrow> ks \<subseteq> {1, 2} \<Longrightarrow> sleep_inv s"
  by (auto simp: on_flight_def sleep_inv_def phase_def)

lemma flushing_local:
  "flushing {1, 2} s \<Longrightarrow> sleep_inv (s\<lparr>ft_flush_pending := a, ft_enter_waiting := b\<rparr>)"
  by (simp add: on_flight_def sleep_inv_def phase_def)

text \<open>A snapshot was just read.\<close>

definition snapshot_read :: "mission_snapshot option \<Rightarrow> ('d, 'n) flash_task \<Rightarrow> bool" where
  "snapshot_read sn s = (sleep_inv s \<and> (case sn of None \<Rightarrow> True
     | Some n \<Rightarrow> state_reads (ft_trace s) \<noteq> [] \<and> last (state_reads (ft_trace s)) = n))"

lemma snapshot_emitted:
  "valid sleep_inv (case sn of None \<Rightarrow> ret () | Some n \<Rightarrow> fl_emit (Fe_snapshot n)) (\<lambda>_. snapshot_read sn)"
proof (cases sn)
  case (Some n)
  have "keeps sleep_inv (fl_emit (Fe_snapshot n))" by (intro keeps_calm calm_emit) simp
  then show ?thesis by (auto simp: valid_def fl_emit_def keeps_def snapshot_read_def Some)
qed (simp add: valid_def snapshot_read_def)

lemma entry_made:
  assumes "case sn of None \<Rightarrow> False | Some n \<Rightarrow> sn_state n = MS_descent \<and> sn_power_cutoff_latched n"
    and "fst (requestEntry recovery)"
  shows "valid (\<lambda>s. snapshot_read sn s \<and> ft_recovery s = recovery)
    (do { fl_emit (Fe_entry reason);
          modify (\<lambda>s. s\<lparr>ft_recovery := snd (requestEntry recovery), ft_enter_reason := r\<rparr>) })
    (\<lambda>_. flushing {1, 2})"
proof -
  obtain n where n: "sn = Some n" "sn_state n = MS_descent" "sn_power_cutoff_latched n"
    using assms(1) by (cases sn) auto
  have r: "recovery = RS_inactive" using assms(2) by (simp add: requestEntry_def split: if_splits)
  show ?thesis
    by (auto simp: valid_def fl_emit_def snapshot_read_def n sleep_inv_def on_flight_def flight_trace_def phase_def
        entered_def r requestEntry_def sleep_allowed_def stage_step_def)
qed

lemma sleep_enter: "keeps sleep_inv (enter_request api reason)"
proof -
  have wait: "valid (flushing {1, 2}) (do {
         signalled \<leftarrow> fl_call (fa_overwrite_persistence api);
         only_if signalled (modify (\<lambda>s. s\<lparr>ft_flush_pending := True, ft_enter_waiting := True\<rparr>)) }) (\<lambda>_. sleep_inv)"
    by (rule valid_bind [OF flight_calm [OF calm_call]], rule valid_only_if, rule valid_modify,
        rule flushing_local, assumption, rule flushing_inv, assumption, rule order_refl)
  have enter: "valid (\<lambda>s. snapshot_read sn s \<and> ft_recovery s = recovery) (do {
         fl_emit (Fe_entry reason);
         modify (\<lambda>s. s\<lparr>ft_recovery := snd (requestEntry recovery), ft_enter_reason := reason\<rparr>);
         store f;
         signalled \<leftarrow> fl_call (fa_overwrite_persistence api);
         only_if signalled (modify (\<lambda>s. s\<lparr>ft_flush_pending := True, ft_enter_waiting := True\<rparr>)) }) (\<lambda>_. sleep_inv)"
    if "case sn of None \<Rightarrow> False | Some n \<Rightarrow> sn_state n = MS_descent \<and> sn_power_cutoff_latched n"
      "fst (requestEntry recovery)" for sn recovery f
    by (rule valid_bind2 [OF entry_made [OF that]], rule valid_bind [OF flight_calm [OF calm_store] wait])
  show ?thesis unfolding enter_request_def
    by (rule keeps_bind [OF keeps_calm [OF calm_load]], rule keeps_only_if,
        rule keeps_bind [OF keeps_calm [OF calm_call]], unfold keeps_valid, rule valid_bind [OF snapshot_emitted],
        rule valid_gets_bind, rule valid_only_if, rule enter) (auto simp: snapshot_read_def)
qed

section \<open>The commit\<close>

lemma flags_read:
  "valid (flushing {1, 2}) (safe_flags api) (\<lambda>safe. flushing (if safe then {2} else {1}))"
proof -
  have emit: "valid (flushing {1, 2}) (do { fl_emit (Fe_flags a b c d); ret (a \<and> b \<and> c \<and> d) })
      (\<lambda>safe. flushing (if safe then {2} else {1}))" for a b c d
    by (auto simp: valid_def fl_emit_def on_flight_def flight_trace_def phase_def sleep_allowed_def stage_step_def)
  show ?thesis unfolding safe_flags_def
    by (rule valid_bind [OF flight_calm [OF calm_load]])+ (rule emit)
qed

lemma marker_read:
  "valid (flushing {2}) (fl_emit (Fe_marker committed)) (\<lambda>_. flushing (if committed then {3} else {2}))"
  by (auto simp: valid_def fl_emit_def on_flight_def flight_trace_def phase_def sleep_allowed_def stage_step_def)

abbreviation ready :: "u64 list \<Rightarrow> ('d, 'n) flash_task \<Rightarrow> bool" where
  "ready ts \<equiv> on_flight (phase RS_ready_for_deep_sleep {3} ts 0)"

lemma clock_after_commit:
  "valid (ready []) (read_clock api) (\<lambda>now. ready [now])"
proof -
  have "valid (ready []) (do { fl_emit (Fe_time now); ret now }) (\<lambda>now. ready [now])" for now
    by (auto simp: valid_def fl_emit_def on_flight_def flight_trace_def phase_def sleep_allowed_def stage_step_def)
  then show ?thesis unfolding read_clock_def by (rule valid_bind [OF flight_calm [OF calm_call]])
qed

lemma deadline_set:
  "ready [now] s \<Longrightarrow> sleep_inv (s\<lparr>ft_entry_deadline_us := now + 1000000, ft_enter_waiting := False\<rparr>)"
  by (auto simp: on_flight_def sleep_inv_def entered_def phase_def)

lemma marked:
  "flushing {3} s \<and> ft_recovery s = recovery \<Longrightarrow> on_flight (\<lambda>s. fst (markResourcesSafeAndFlushed recovery) \<and>
     phase RS_ready_for_deep_sleep {3} [] 0 s) (s\<lparr>ft_recovery := snd (markResourcesSafeAndFlushed recovery)\<rparr>)"
  by (auto simp: on_flight_def phase_def markResourcesSafeAndFlushed_def)

lemma commit_made:
  "valid (flushing (if committed then {3} else {2})) (do {
         recovery \<leftarrow> gets ft_recovery;
         only_if committed (do {
           modify (\<lambda>s. s\<lparr>ft_recovery := snd (markResourcesSafeAndFlushed recovery)\<rparr>);
           only_if (fst (markResourcesSafeAndFlushed recovery)) (do {
             reason \<leftarrow> gets ft_enter_reason;
             store (f reason);
             now \<leftarrow> read_clock api;
             modify (\<lambda>s. s\<lparr>ft_entry_deadline_us := now + 1000000, ft_enter_waiting := False\<rparr>) }) }) })
     (\<lambda>_. sleep_inv)"
proof (rule valid_gets_bind, rule valid_only_if, goal_cases)
  case (1 recovery)
  have end_commit: "valid (ready []) (do {
             reason \<leftarrow> gets ft_enter_reason;
             store (f reason);
             now \<leftarrow> read_clock api;
             modify (\<lambda>s. s\<lparr>ft_entry_deadline_us := now + 1000000, ft_enter_waiting := False\<rparr>) }) (\<lambda>_. sleep_inv)"
    by (rule valid_gets_bind, rule valid_strengthen [where P' = "ready []"],
        rule valid_bind [OF flight_calm [OF calm_store]], rule valid_bind [OF clock_after_commit],
        rule valid_modify, rule deadline_set) simp_all
  have "valid (on_flight (\<lambda>s. fst (markResourcesSafeAndFlushed recovery) \<and> phase RS_ready_for_deep_sleep {3} [] 0 s))
      (only_if (fst (markResourcesSafeAndFlushed recovery)) (do {
             reason \<leftarrow> gets ft_enter_reason;
             store (f reason);
             now \<leftarrow> read_clock api;
             modify (\<lambda>s. s\<lparr>ft_entry_deadline_us := now + 1000000, ft_enter_waiting := False\<rparr>) })) (\<lambda>_. sleep_inv)"
    by (rule valid_only_if, rule valid_strengthen [OF end_commit]) (auto simp: on_flight_def sleep_inv_def)
  then show ?case using 1
    by (intro valid_bind [OF valid_modify]) (auto intro: marked)
next
  case (2 recovery s)
  then show ?case by (auto intro: flushing_inv)
qed

lemma sleep_commit: "keeps sleep_inv (commit_step api)"
  unfolding keeps_valid commit_step_def
proof (rule valid_gets_bind, rule valid_only_if, goal_cases)
  case (1 waiting)
  have safe: "valid (flushing {2}) (do {
         rtc_now \<leftarrow> fl_call (fa_rtc_now api);
         (committed, b) \<leftarrow> load api (\<lambda>h. commitRecoveryEntryMarker (fa_nvs api) rtc_now (fs_boot h));
         store (\<lambda>h. h\<lparr>fs_boot := b\<rparr>);
         fl_emit (Fe_marker committed);
         recovery \<leftarrow> gets ft_recovery;
         only_if committed (do {
           modify (\<lambda>s. s\<lparr>ft_recovery := snd (markResourcesSafeAndFlushed recovery)\<rparr>);
           only_if (fst (markResourcesSafeAndFlushed recovery)) (do {
             reason \<leftarrow> gets ft_enter_reason;
             store (\<lambda>h. h\<lparr>fs_recovery_mode_reason := recovery_mode_reason_code reason,
               fs_recovery_mode_command_sent := False, fs_recovery_mode_command_pending := True\<rparr>);
             now \<leftarrow> read_clock api;
             modify (\<lambda>s. s\<lparr>ft_entry_deadline_us := now + 1000000, ft_enter_waiting := False\<rparr>) }) }) }) (\<lambda>_. sleep_inv)"
  proof (rule valid_bind [OF flight_calm [OF calm_call]], rule valid_bind [OF flight_calm [OF calm_load]], goal_cases)
    case (1 rtc_now answer)
    show ?case
      by (cases answer, simp only: prod.case, rule valid_bind [OF flight_calm [OF calm_store]],
          rule valid_bind [OF marker_read], rule commit_made)
  qed
  have "valid (flushing {1, 2}) (do { safe \<leftarrow> safe_flags api; only_if safe m }) (\<lambda>_. sleep_inv)"
    if "valid (flushing {2}) m (\<lambda>_. sleep_inv)" for m
    by (rule valid_bind [OF flags_read], rule valid_only_if) (auto intro: that flushing_inv)
  from this [OF safe] show ?case
    by (rule valid_strengthen) (use 1 in \<open>auto simp: sleep_inv_def on_flight_def\<close>)
qed simp

section \<open>The sleep\<close>

text \<open>The flag of the boot mode was just read as \<open>b\<close>.\<close>

definition only_read :: "bool \<Rightarrow> ('d, 'n) flash_task \<Rightarrow> bool" where
  "only_read b s = (sleep_inv s \<and> (b \<longrightarrow> \<not> flight_trace (ft_trace s)))"

lemma only_read_calm: "guar calm m \<Longrightarrow> valid (only_read b) m (\<lambda>_. only_read b)"
  by (erule guar_valid) (auto simp: only_read_def intro: sleep_inv_calm phase_calm(2))

lemma only_mode_read: "valid sleep_inv (load_only_mode api) only_read"
proof -
  have "keeps sleep_inv (fl_emit (Fe_only b))" for b by (intro keeps_calm calm_emit) simp
  then have "valid sleep_inv (do { fl_emit (Fe_only b); ret b }) only_read" for b
    by (auto simp: valid_def fl_emit_def keeps_def only_read_def flight_trace_def)
  then show ?thesis unfolding load_only_mode_def
    by (rule valid_bind [OF keeps_calm [OF calm_load, unfolded keeps_valid]])
qed

text \<open>With the deadline set the entry is complete, and reading the clock keeps it.\<close>

lemma deadline_entered: "sleep_inv s \<Longrightarrow> flight_trace (ft_trace s) \<Longrightarrow> ft_entry_deadline_us s \<noteq> 0 \<Longrightarrow>
    entered s \<and> \<not> ft_enter_waiting s"
  by (auto simp: sleep_inv_def phase_def)

lemma entered_clock: "entered s \<Longrightarrow> entered (s\<lparr>ft_trace := ft_trace s @ [Fe_time now]\<rparr>)"
  by (auto simp: entered_def phase_def sleep_allowed_def stage_step_def)

lemma entered_sent: "entered s \<Longrightarrow> entered (s\<lparr>ft_trace := ft_trace s @ [Fe_sent_flag b]\<rparr>)"
  by (auto simp: entered_def phase_def sleep_allowed_def stage_step_def)

lemma clock_in_recovery:
  "valid (only_read True) (read_clock api) (\<lambda>_. only_read True)"
  by (auto simp: valid_def read_clock_def fl_call_def fl_emit_def store_def only_read_def sleep_inv_def
      flight_trace_def split_beta)

lemma clock_emitted:
  "valid (\<lambda>s :: ('d, 'n) flash_task. only_read b s \<and> ft_entry_deadline_us s = d \<and> d \<noteq> 0)
     (do { fl_emit (Fe_time now); ret now })
     (\<lambda>now s. only_read b s \<and> ft_entry_deadline_us s = d \<and> clock_reads (ft_trace s) \<noteq> [] \<and>
       last (clock_reads (ft_trace s)) = now)"
proof (rule validI)
  fix s :: "('d, 'n) flash_task" and a s'
  assume p: "only_read b s \<and> ft_entry_deadline_us s = d \<and> d \<noteq> 0"
    and r: "run_state (do { fl_emit (Fe_time now); ret now }) s = (a, s')"
  have s': "s' = s\<lparr>ft_trace := ft_trace s @ [Fe_time now]\<rparr>" "a = now" using r by (auto simp: fl_emit_def)
  have "sleep_inv s'" unfolding sleep_inv_def
    using deadline_entered [of s] entered_clock [of s now] p by (auto simp: s' only_read_def flight_trace_def)
  then show "only_read b s' \<and> ft_entry_deadline_us s' = d \<and> clock_reads (ft_trace s') \<noteq> [] \<and>
      last (clock_reads (ft_trace s')) = a"
    using p by (simp add: s' only_read_def flight_trace_def)
qed

lemma clock_with_deadline:
  "valid (\<lambda>s. only_read b s \<and> ft_entry_deadline_us s = d \<and> d \<noteq> 0) (read_clock api)
     (\<lambda>now s. only_read b s \<and> ft_entry_deadline_us s = d \<and> clock_reads (ft_trace s) \<noteq> [] \<and>
       last (clock_reads (ft_trace s)) = now)"
proof -
  have call: "valid (\<lambda>s. only_read b s \<and> ft_entry_deadline_us s = d \<and> d \<noteq> 0) (fl_call (fa_now api))
      (\<lambda>_ s. only_read b s \<and> ft_entry_deadline_us s = d \<and> d \<noteq> 0)"
    by (rule guar_valid [OF calm_call])
       (auto simp: only_read_def calm_def intro: sleep_inv_calm [unfolded calm_def] phase_calm(2) [unfolded calm_def])
  show ?thesis unfolding read_clock_def by (rule valid_bind [OF call]) (rule clock_emitted)
qed

text \<open>The wake window has passed only outside a flight boot.\<close>

lemma wake_window:
  "valid (only_read b) (if b then do { now \<leftarrow> read_clock api; gets (\<lambda>s. now \<ge> ft_wake_deadline_us s) } else ret False)
     (\<lambda>w s. only_read b s \<and> (w \<longrightarrow> b))"
  using valid_bind [OF clock_in_recovery valid_gets]
  by (cases b) (auto intro: valid_ret valid_bind [OF clock_in_recovery valid_gets])

text \<open>The entry window has passed: the last clock reading reached the deadline.\<close>

definition window :: "bool \<Rightarrow> bool \<Rightarrow> ('d, 'n) flash_task \<Rightarrow> bool" where
  "window b e s = (only_read b s \<and> (e \<longrightarrow> ft_entry_deadline_us s \<noteq> 0 \<and> clock_reads (ft_trace s) \<noteq> [] \<and>
     ft_entry_deadline_us s \<le> last (clock_reads (ft_trace s))))"

lemma entry_window:
  "valid (\<lambda>s. only_read b s \<and> ft_entry_deadline_us s = d)
     (if \<not> b \<and> d \<noteq> 0 then do { now \<leftarrow> read_clock api; ret (now \<ge> d) } else ret False) (window b)"
proof (rule valid_if)
  assume "\<not> b \<and> d \<noteq> 0"
  then show "valid (\<lambda>s. only_read b s \<and> ft_entry_deadline_us s = d) (do { now \<leftarrow> read_clock api; ret (now \<ge> d) }) (window b)"
    by (intro valid_strengthen [OF valid_bind [OF clock_with_deadline valid_ret]]) (auto simp: window_def)
qed (auto simp: window_def intro: valid_ret)

lemma window_calm: "guar calm m \<Longrightarrow> valid (window b e) m (\<lambda>_. window b e)"
proof (erule guar_valid)
  fix s s' :: "('a, 'b) flash_task"
  assume w: "window b e s" and c: "calm s s'"
  obtain es where es: "ft_trace s' = ft_trace s @ es" "list_all aside es" "ft_entry_deadline_us s' = ft_entry_deadline_us s"
    using c by (auto simp: calm_def)
  show "window b e s'" using w aside_reads(2) [OF es(2)] sleep_inv_calm [OF _ c] phase_calm(2) [OF c]
    by (auto simp: window_def only_read_def es(1,3))
qed

text \<open>The decision to sleep, and what justifies it on a flight boot.\<close>

definition justified :: "('d, 'n) flash_task \<Rightarrow> bool" where
  "justified s = (sleep_inv s \<and> (flight_trace (ft_trace s) \<longrightarrow> entered s \<and> \<not> ft_enter_waiting s \<and>
     (sent_reads (ft_trace s) \<noteq> [] \<and> last (sent_reads (ft_trace s)) \<or>
      clock_reads (ft_trace s) \<noteq> [] \<and> ft_entry_deadline_us s \<le> last (clock_reads (ft_trace s)))))"

lemma may_sleep: "sleep_inv s \<Longrightarrow> flight_trace (ft_trace s) \<Longrightarrow> mayEnterDeepSleep (ft_recovery s) \<Longrightarrow>
    entered s \<and> \<not> ft_enter_waiting s"
  by (auto simp: sleep_inv_def phase_def mayEnterDeepSleep_def)

lemma sleep_emitted: "justified s \<Longrightarrow> sleep_inv (s\<lparr>ft_trace := ft_trace s @ [Fe_sleep], ft_asleep := a\<rparr>)"
  by (auto simp: justified_def sleep_inv_def flight_trace_def entered_def phase_def sleep_allowed_def stage_step_def)

lemma sleep_decided:
  "valid (\<lambda>s. window b e s \<and> ft_recovery s = recovery) (if w then ret True else if b then ret False else do {
         sent \<leftarrow> load api fs_recovery_mode_command_sent;
         fl_emit (Fe_sent_flag sent);
         ret (sent \<or> e) })
     (\<lambda>sleep s. sleep_inv s \<and> (sleep \<longrightarrow> justified s))"
  if w: "w \<longrightarrow> b" and r: "mayEnterDeepSleep recovery"
proof -
  let ?P = "\<lambda>s. window b e s \<and> ft_recovery s = recovery"
  have emit: "valid ?P (do { fl_emit (Fe_sent_flag sent); ret (sent \<or> e) })
      (\<lambda>sleep s. sleep_inv s \<and> (sleep \<longrightarrow> justified s))" for sent
  proof (rule validI, goal_cases)
    case (1 s a s')
    have s': "s' = s\<lparr>ft_trace := ft_trace s @ [Fe_sent_flag sent]\<rparr>" "a = (sent \<or> e)"
      using 1(2) by (auto simp: fl_emit_def)
    have inv: "sleep_inv s" "mayEnterDeepSleep (ft_recovery s)" using 1(1) r by (simp_all add: window_def only_read_def)
    have "entered s' \<and> \<not> ft_enter_waiting s'" if "flight_trace (ft_trace s')"
      using may_sleep [OF inv(1) _ inv(2)] entered_sent [of s sent] that by (simp add: s' flight_trace_def)
    then show ?case using 1(1) by (auto simp: justified_def sleep_inv_def s' window_def)
  qed
  have load: "valid ?P (load api fs_recovery_mode_command_sent) (\<lambda>_. ?P)"
    using window_calm [OF calm_load] by (auto simp: valid_def load_def store_def)
  have "valid ?P (ret True) (\<lambda>sleep s. sleep_inv s \<and> (sleep \<longrightarrow> justified s))" if "b"
    using that by (intro valid_ret) (auto simp: window_def only_read_def justified_def)
  then show ?thesis using w
    by (intro valid_if valid_bind [OF load emit]) (auto intro: valid_ret simp: window_def only_read_def)
qed

lemma go_to_sleep:
  "valid justified (do {
         b \<leftarrow> load api f;
         store (g b);
         fl_emit Fe_sleep;
         modify (\<lambda>s. s\<lparr>ft_asleep := True\<rparr>) }) (\<lambda>_. sleep_inv)"
proof -
  have calm_just: "valid justified m (\<lambda>_. justified)" if c: "guar calm m" for m :: "('d, 'n, 'x) flash"
  proof (rule guar_valid [OF c])
    fix s s' :: "('d, 'n) flash_task"
    assume j: "justified s" and c: "calm s s'"
    obtain es where es: "ft_trace s' = ft_trace s @ es" "list_all aside es" "ft_entry_deadline_us s' = ft_entry_deadline_us s"
      "ft_enter_waiting s' = ft_enter_waiting s" using c by (auto simp: calm_def)
    show "justified s'" using j sleep_inv_calm [OF _ c] phase_calm(2) [OF c] entered_calm [OF c] aside_reads [OF es(2)]
      by (auto simp: justified_def es(1,3,4))
  qed
  have sleep: "valid justified (do { fl_emit Fe_sleep; modify (\<lambda>s. s\<lparr>ft_asleep := True\<rparr>) }) (\<lambda>_. sleep_inv)"
    by (auto simp: valid_def fl_emit_def intro: sleep_emitted)
  show ?thesis
    by (rule valid_bind [OF calm_just [OF calm_load]], rule valid_bind [OF calm_just [OF calm_store]], rule sleep)
qed

lemma sleep_sleep: "keeps sleep_inv (sleep_step api)"
  unfolding keeps_valid sleep_step_def
proof (rule valid_bind [OF only_mode_read], rule valid_bind [OF wake_window], goal_cases)
  case (1 b w)
  have decide: "valid (window b e) (do {
         recovery \<leftarrow> gets ft_recovery;
         only_if (mayEnterDeepSleep recovery) (do {
           sleep \<leftarrow> (if w then ret True else if b then ret False else do {
             sent \<leftarrow> load api fs_recovery_mode_command_sent;
             fl_emit (Fe_sent_flag sent);
             ret (sent \<or> e) });
           only_if sleep (do {
             bm \<leftarrow> load api (\<lambda>h. prepareMarker (fa_nvs api) (fs_boot h));
             store (\<lambda>h. h\<lparr>fs_boot := bm\<rparr>);
             fl_emit Fe_sleep;
             modify (\<lambda>s. s\<lparr>ft_asleep := True\<rparr>) }) }) }) (\<lambda>_. sleep_inv)" if "w \<longrightarrow> b" for e
    using that
    by (intro valid_gets_bind valid_only_if valid_bind [OF sleep_decided] valid_strengthen [OF go_to_sleep])
       (auto simp: window_def only_read_def)
  show ?case
  proof (cases "w \<longrightarrow> b")
    case True
    show ?thesis
      by (rule valid_gets_bind, rule valid_bind [OF valid_strengthen [OF entry_window]], simp, rule decide [OF True])
  next
    case False
    then show ?thesis by (simp add: valid_def)
  qed
qed

section \<open>The run\<close>

definition recovery_boot :: "('d, 'n) flash_task \<Rightarrow> bool" where
  "recovery_boot s = (\<not> flight_trace (ft_trace s))"

lemma keeps_recovery_boot:
  "keeps recovery_boot (store f)" "keeps recovery_boot (load api g)" "keeps recovery_boot (fl_call c)"
  "keeps recovery_boot (send_status api op tx st src n)" "keeps recovery_boot (read_clock api)"
  by (auto simp: keeps_def recovery_boot_def flight_trace_def store_def load_def fl_call_def send_status_def
      read_clock_def fl_emit_def split_beta)

lemma sleep_start: "keeps sleep_inv (flash_task_start api)"
  unfolding keeps_valid flash_task_start_def
proof (rule valid_bind [OF only_mode_read], rule valid_only_if, goal_cases)
  case (1 b)
  have "keeps recovery_boot (do {
       store (\<lambda>h. h\<lparr>fs_recovery_requested := True, fs_recovery_motor_safe := True\<rparr>);
       valid_wake \<leftarrow> load api fs_recovery_wake_valid;
       only_if valid_wake (modify (\<lambda>s. s\<lparr>ft_recovery := snd (recovery_wake True True (ft_recovery s))\<rparr>));
       send_status api RO_wake 0 (if valid_wake then SC_ready else SC_internal_error) RS_internal_flash 0;
       store (\<lambda>h. h\<lparr>fs_recovery_mode_reason := recovery_mode_reason_code RR_recovery_wake_retry,
         fs_recovery_mode_command_sent := False, fs_recovery_mode_command_pending := True\<rparr>);
       now \<leftarrow> read_clock api;
       modify (\<lambda>s. s\<lparr>ft_wake_deadline_us := now + 2000000\<rparr>) })"
    by (intro keeps_rules keeps_recovery_boot) (simp_all add: recovery_boot_def)
  then show ?case unfolding keeps_valid
    by (rule valid_weaken [OF valid_strengthen])
       (use 1 in \<open>auto simp: only_read_def recovery_boot_def sleep_inv_def\<close>)
qed (simp add: only_read_def)

lemma sleep_turn: "keeps sleep_inv (flash_turn api input)"
proof -
  have "keeps sleep_inv (recovery_request_step api r)" for r
    unfolding recovery_request_step_def by (cases "rq_kind r") (simp_all add: sleep_enter keeps_calm [OF calm_control])
  then show ?thesis unfolding flash_turn_def
    by (intro keeps_rules keeps_calm [OF calm_append] keeps_calm [OF calm_dump] keeps_calm [OF calm_flush]
          sleep_commit sleep_sleep)
qed

lemma run_sleep: "sleep_inv (flash_task_run api inputs (flash_task_init shared))"
proof -
  have "keeps sleep_inv (do { flash_task_start api; each (flash_turn api) inputs })"
    by (intro keeps_bind sleep_start keeps_each sleep_turn)
  moreover have "sleep_inv (flash_task_init shared)"
    by (simp add: sleep_inv_def phase_def flash_task_init_def entry_stage_def clock_reads_def)
  ultimately show ?thesis by (simp add: keeps_def flash_task_run_def)
qed

text \<open>C24: On a boot into flight the board falls into its recovery deep sleep only by the whole entry: the
  request was accepted on a snapshot in descent after the power cutoff, then power, motor, SD card and
  flash were all read as safe, then the entry marker was committed to the RTC memory, and finally the
  mode command was read as sent or one second has passed since.\<close>

theorem sleep_after_entry:
  assumes "Fe_only True \<notin> set (ft_trace (flash_task_run api inputs (flash_task_init shared)))"
  shows "trace_allowed sleep_allowed (ft_trace (flash_task_run api inputs (flash_task_init shared)))"
proof -
  have "trace_allowed sleep_allowed (ft_trace s)" if "sleep_inv s" "Fe_only True \<notin> set (ft_trace s)"
    for s :: "('a, 'b) flash_task"
    using that by (auto simp: sleep_inv_def flight_trace_def phase_def entered_def)
  from this [OF run_sleep assms] show ?thesis .
qed

text \<open>A descent after the cutoff in which the entry is asked for and every resource reports safe.\<close>

definition cutoff_snapshot :: mission_snapshot where
  "cutoff_snapshot = snapshot_init\<lparr>sn_state := MS_descent, sn_power_cutoff_latched := True\<rparr>"

definition flight_shared :: "(u8 list, u8 option) flash_shared" where
  "flight_shared = \<lparr>fs_device = [],
     fs_log = flash_log_init\<lparr>fl_partition := Some 16\<rparr>,
     fs_boot = nvs_memory, fs_recovery_requested = False, fs_recovery_only_mode = False,
     fs_recovery_wake_valid = False, fs_recovery_motor_safe = False, fs_recovery_power_safe = False,
     fs_recovery_sd_flushed = False, fs_persistence_flushed = False, fs_recovery_mode_reason = 0,
     fs_recovery_mode_command_sent = False, fs_recovery_mode_command_pending = False,
     fs_flash_log_drop_count = 0, fs_flash_log_failed = False, fs_event_overflow_latch = 0\<rparr>"

definition safe_api :: "(u8 list, u8 option) flash_api" where
  "safe_api = \<lparr>fa_others = (\<lambda>h. h\<lparr>fs_recovery_motor_safe := True, fs_recovery_power_safe := True,
       fs_recovery_sd_flushed := True, fs_recovery_mode_command_sent := True\<rparr>),
     fa_partition = ram_partition, fa_nvs = nvs_byte,
     fa_now = (\<lambda>d. (120001000, d)), fa_rtc_now = (\<lambda>d. (1000000, d)),
     fa_snapshot = (\<lambda>d. (Some cutoff_snapshot, d)),
     fa_send_status = (\<lambda>_ d. (True, d)), fa_send_data = (\<lambda>_ d. (True, d)),
     fa_send_event = (\<lambda>_ _ _ _ d. (True, d)), fa_overwrite_persistence = (\<lambda>d. (True, d)),
     fa_forward_to_sd = (\<lambda>_ d. (True, d)), fa_records_waiting = (\<lambda>d. (0, d))\<rparr>"

definition enter_now :: recovery_request where
  "enter_now = \<lparr>rq_kind = RQ_enter, rq_control = dc_control dump_none, rq_reason = RR_auto_elapsed_120\<rparr>"

definition sleep_trace :: "flash_event list" where
  "sleep_trace = ft_trace (flash_task_run safe_api [([], [enter_now]), ([], [])] (flash_task_init flight_shared))"

lemma sleep_after_entry_witness:
  "Fe_entry RR_auto_elapsed_120 \<in> set sleep_trace \<and> Fe_sleep \<in> set sleep_trace \<and>
   trace_allowed sleep_allowed sleep_trace"
proof -
  have "Fe_entry RR_auto_elapsed_120 \<in> set sleep_trace \<and> Fe_sleep \<in> set sleep_trace" by code_simp
  moreover have "Fe_only True \<notin> set sleep_trace" by code_simp
  then have "trace_allowed sleep_allowed sleep_trace"
    unfolding sleep_trace_def by (rule sleep_after_entry)
  ultimately show ?thesis by simp
qed

end
