(* ===== verification/Command_Worker.thy ===== *)
theory Command_Worker
  imports Parachute_Task Command_Safety
begin

text \<open>
  \<open>runtime/production_runtime.cpp\<close>, \<open>commandWorkerTask\<close>: the only caller of \<open>CommandExecutor::begin\<close>.
  One turn takes a command from its queue, decides it under the executor's mutex and hands it to the
  parachute, storage or mission task; a turn is an operation in the state monad. Queues and mutexes
  are an API over the external state \<open>'d\<close>; \<open>wa_others\<close> are the executor calls the other tasks made
  before the mutex was taken. \<open>wk_trace\<close> is a history variable without a counterpart in the code.
\<close>

section \<open>State\<close>

record command_envelope =
  me_request :: generic_command_request
  me_decision :: command_decision

record 'd worker_api =
  wa_others :: "'d \<Rightarrow> exec_call list \<times> 'd"
  wa_snapshot :: "'d \<Rightarrow> mission_snapshot option \<times> 'd"
  wa_lock_executor :: "'d \<Rightarrow> bool \<times> 'd"
  wa_send_result :: "bool \<Rightarrow> command_result \<Rightarrow> 'd \<Rightarrow> bool \<times> 'd"
  wa_send_parachute :: "para_command \<Rightarrow> 'd \<Rightarrow> bool \<times> 'd"
  wa_send_storage :: "u8 \<Rightarrow> 'd \<Rightarrow> bool \<times> 'd"
  wa_send_transition :: "command_envelope \<Rightarrow> 'd \<Rightarrow> bool \<times> 'd"
  wa_configuration_ready :: bool
  wa_parachute_queue :: bool
  wa_storage_queue :: bool

datatype worker_event =
    Wk_result command_result | Wk_decision generic_command_request command_decision
  | Wk_sent command_domain generic_command_request bool | Wk_failed u8 | Wk_lock_missed u8

record 'd worker =
  wk_device :: 'd
  wk_executor :: "command_executor \<times> fin_guard"
  wk_result_queue_overflow :: u32
  wk_trace :: "worker_event list"

type_synonym ('d, 'a) work = "('d worker, 'a) state"

definition worker_init :: "'d \<Rightarrow> 'd worker" where
  "worker_init d = \<lparr>wk_device = d, wk_executor = (executor_init, fin_guard_init),
     wk_result_queue_overflow = 0, wk_trace = []\<rparr>"

section \<open>Access to what is shared\<close>

definition wk_emit :: "worker_event \<Rightarrow> ('d, unit) work" where
  "wk_emit e = modify (\<lambda>s. s\<lparr>wk_trace := wk_trace s @ [e]\<rparr>)"

definition wk_call :: "('d \<Rightarrow> 'a \<times> 'd) \<Rightarrow> ('d, 'a) work" where
  "wk_call c = do {
     (a, d) \<leftarrow> gets (\<lambda>s. c (wk_device s));
     modify (\<lambda>s. s\<lparr>wk_device := d\<rparr>);
     ret a }"

text \<open>\<open>xSemaphoreTake(executor_mutex)\<close>: while it is held, no other task calls the executor.\<close>

definition lock_executor :: "'d worker_api \<Rightarrow> ('d, bool) work" where
  "lock_executor api = do {
     others \<leftarrow> wk_call (wa_others api);
     modify (\<lambda>s. s\<lparr>wk_executor := exec_run others (wk_executor s)\<rparr>);
     wk_call (wa_lock_executor api) }"

definition worker_result :: "'d worker_api \<Rightarrow> command_result \<Rightarrow> ('d, unit) work" where
  "worker_result api result = do {
     wk_emit (Wk_result result);
     queued \<leftarrow> wk_call (wa_send_result api False result);
     only_if (\<not> queued)
       (modify (\<lambda>s. s\<lparr>wk_result_queue_overflow := wk_result_queue_overflow s + 1\<rparr>)) }"

section \<open>The turn\<close>

definition transitionReason :: "transition_result \<Rightarrow> command_reason" where
  "transitionReason result = (case result of
     TR_completed \<Rightarrow> CR_none
   | TR_invalid_state \<Rightarrow> CR_invalid_state
   | TR_not_configured \<Rightarrow> CR_not_configured
   | TR_runtime_unavailable \<Rightarrow> CR_internal_error)"

definition worker_context :: "'d worker_api \<Rightarrow> ('d, command_context) work" where
  "worker_context api = do {
     sn \<leftarrow> wk_call (wa_snapshot api);
     ret \<lparr>cx_state = (case sn of None \<Rightarrow> MS_unknown | Some n \<Rightarrow> sn_state n),
       cx_resources_preallocated = wa_configuration_ready api, cx_fin_available = True,
       cx_parachute_available = wa_parachute_queue api, cx_motor_test_busy = False,
       cx_calibration_supported = True, cx_storage_export_supported = wa_storage_queue api,
       cx_deployment_power_cutoff_done =
         (case sn of None \<Rightarrow> False | Some n \<Rightarrow> sn_power_cutoff_latched n),
       cx_fin_safe_commands_supported = True\<rparr> }"

definition worker_begin ::
    "generic_command_request \<Rightarrow> command_context \<Rightarrow> ('d, command_decision) work" where
  "worker_begin request context = do {
     (d, ex, g) \<leftarrow> gets (\<lambda>s. executor_begin request context (fst (wk_executor s)) (snd (wk_executor s)));
     modify (\<lambda>s. s\<lparr>wk_executor := (ex, g)\<rparr>);
     wk_emit (Wk_decision request d);
     ret d }"

definition hand_over ::
    "'d worker_api \<Rightarrow> generic_command_request \<Rightarrow> command_decision \<Rightarrow> ('d, bool) work" where
  "hand_over api request d = do {
     queued \<leftarrow> (if cd_domain d = CD_parachute
         then wk_call (wa_send_parachute api \<lparr>pc_kind = PCK_generic, pc_command = request\<rparr>)
       else if cd_domain d = CD_storage then wk_call (wa_send_storage api (gcr_transaction_id request))
       else wk_call (wa_send_transition api \<lparr>me_request = request, me_decision = d\<rparr>));
     wk_emit (Wk_sent (cd_domain d) request queued);
     ret queued }"

definition worker_finish :: "u8 \<Rightarrow> ('d, command_result) work" where
  "worker_finish tx = do {
     (failed, ex, g) \<leftarrow> gets (\<lambda>s.
       executor_finish tx CP_failed CR_busy 0 (fst (wk_executor s)) (snd (wk_executor s)));
     modify (\<lambda>s. s\<lparr>wk_executor := (ex, g)\<rparr>);
     wk_emit (Wk_failed tx);
     ret failed }"

definition give_up :: "'d worker_api \<Rightarrow> u8 \<Rightarrow> ('d, unit) work" where
  "give_up api tx = do {
     locked \<leftarrow> lock_executor api;
     if locked then do { failed \<leftarrow> worker_finish tx; worker_result api failed }
     else wk_emit (Wk_lock_missed tx) }"

definition worker_command :: "'d worker_api \<Rightarrow> generic_command_request \<Rightarrow> ('d, unit) work" where
  "worker_command api request = do {
     context \<leftarrow> worker_context api;
     locked \<leftarrow> lock_executor api;
     if \<not> locked then worker_result api (resultFor request CP_rejected CR_busy 0)
     else do {
       d \<leftarrow> worker_begin request context;
       worker_result api (cd_result d);
       only_if (cd_execute d) (do {
         queued \<leftarrow> hand_over api request d;
         only_if (\<not> queued) (give_up api (gcr_transaction_id request)) }) } }"

text \<open>The turns that received a command; the others do nothing.\<close>

definition command_worker_run :: "'d worker_api \<Rightarrow> generic_command_request list \<Rightarrow> 'd worker \<Rightarrow> 'd worker" where
  "command_worker_run api requests s = snd (run_state (each (worker_command api) requests) s)"

section \<open>What the other tasks leave of the executor\<close>

text \<open>Calls of the other tasks: completions, emergencies and fin samples, never \<open>begin\<close>.\<close>

fun settles :: "exec_call \<Rightarrow> bool" where
  "settles (EC_begin r cx) = False"
| "settles c = True"

definition only_settle :: "'d worker_api \<Rightarrow> bool" where
  "only_settle api = (\<forall>d. list_all settles (fst (wa_others api d)))"

text \<open>A pending entry of the second executor was pending in the first.\<close>

definition exec_settled :: "command_executor \<Rightarrow> command_executor \<Rightarrow> bool" where
  "exec_settled ex ex' = ({e \<in> set (ce_entries ex'). en_pending e} \<subseteq> set (ce_entries ex))"

lemma exec_settled_refl: "exec_settled ex ex"
  by (auto simp: exec_settled_def)

lemma exec_settled_trans: "exec_settled a b \<Longrightarrow> exec_settled b c \<Longrightarrow> exec_settled a c"
  by (auto simp: exec_settled_def)

lemma exec_settled_update:
  assumes "ce_entries ex' = (ce_entries ex)[i := e]" and "\<not> en_pending e"
  shows "exec_settled ex ex'"
  using assms set_update_subset_insert [of "ce_entries ex" i e] by (auto simp: exec_settled_def)

lemma exec_settled_emergency:
  assumes "exec_inv ex"
  shows "exec_settled ex (snd (actuatorEmergency tx st ex))"
proof (cases "tx \<noteq> 0 \<and> st = MS_command_receive")
  case True
  obtain d ex' where e: "actuatorEmergency tx st ex = (d, ex')" by fastforce
  have a: "\<forall>i < kResultCacheSize. if interruptible (ce_entries ex ! i)
       then \<exists>b. ce_entries ex' ! i = (ce_entries ex ! i)\<lparr>en_pending := False, en_age := b,
              en_result := interrupted_result (ce_entries ex ! i)\<rparr>
       else ce_entries ex' ! i = ce_entries ex ! i" and i: "exec_inv ex'"
    using emergency_accepted [OF assms, of tx d ex'] True e by auto
  have "f \<in> set (ce_entries ex)" if f: "f \<in> set (ce_entries ex')" "en_pending f" for f
  proof -
    obtain k where k: "k < kResultCacheSize" "f = ce_entries ex' ! k"
      using f(1) exec_inv_nth(3) [OF i] by (auto simp: in_set_conv_nth)
    then have "f = ce_entries ex ! k" using a f(2) by (auto split: if_splits)
    then show ?thesis using k(1) exec_inv_nth(3) [OF assms] by simp
  qed
  then show ?thesis by (auto simp: exec_settled_def e)
qed (simp add: emergency_refused exec_settled_refl)

lemma exec_settled_finish:
  assumes "exec_inv ex"
  shows "exec_settled ex (fst (snd (executor_finish tx ph rs dt ex g)))"
proof -
  obtain res ex' g' where e: "executor_finish tx ph rs dt ex g = (res, ex', g')" by (metis prod_cases3)
  from finish_cases [OF assms e] have "exec_settled ex ex'"
    by (elim disjE exE conjE) (simp add: exec_settled_refl, erule exec_settled_update, simp)
  then show ?thesis by (simp add: e)
qed

lemma exec_settled_step: "exec_inv (fst s) \<Longrightarrow> settles c \<Longrightarrow> exec_settled (fst s) (fst (exec_step c s))"
  by (cases s; cases c) (simp_all add: exec_settled_emergency exec_settled_finish exec_settled_refl)

lemma exec_settled_run:
  assumes "exec_inv (fst s)" and "list_all settles cs"
  shows "exec_settled (fst s) (fst (exec_run cs s)) \<and> exec_inv (fst (exec_run cs s))"
  using assms
proof (induction cs arbitrary: s)
  case (Cons c cs)
  have "exec_settled (fst s) (fst (exec_step c s))" "exec_inv (fst (exec_step c s))"
    using Cons.prems by (simp_all add: exec_settled_step exec_step_inv)
  with Cons.IH [of "exec_step c s"] Cons.prems(2) show ?case
    by (auto simp: exec_run_def intro: exec_settled_trans)
qed (simp add: exec_run_def exec_settled_refl)

section \<open>No accepted command without an owner\<close>

text \<open>The pending entry's command was put into the queue of its domain.\<close>

definition owned :: "worker_event list \<Rightarrow> entry \<Rightarrow> bool" where
  "owned tr e = (Wk_sent (en_domain e) (en_request e) True \<in> set tr)"

definition no_orphan :: "'d worker \<Rightarrow> bool" where
  "no_orphan s = list_all (\<lambda>e. \<not> en_pending e \<or> owned (wk_trace s) e) (ce_entries (fst (wk_executor s)))"

definition lock_missed :: "'d worker \<Rightarrow> bool" where
  "lock_missed s = list_ex (\<lambda>e. case e of Wk_lock_missed _ \<Rightarrow> True | _ \<Rightarrow> False) (wk_trace s)"

text \<open>A command is sent only after its acceptance, and to the queue of the domain it was accepted for.\<close>

definition work_allowed :: "worker_event list \<Rightarrow> worker_event \<Rightarrow> bool" where
  "work_allowed tr e = (case e of
     Wk_sent domain request queued \<Rightarrow> domain = domainFor (gcr_command request) \<and>
       (\<exists>d h. tr = h @ [Wk_decision request d, Wk_result (cd_result d)] \<and> cd_execute d)
   | _ \<Rightarrow> True)"

text \<open>The invariant, but for the entries \<open>X\<close> of the command in hand.\<close>

definition work_inv :: "(entry \<Rightarrow> bool) \<Rightarrow> 'd worker \<Rightarrow> bool" where
  "work_inv X s = (trace_allowed work_allowed (wk_trace s) \<and> exec_inv (fst (wk_executor s)) \<and>
     (lock_missed s \<or>
      (\<forall>e \<in> set (ce_entries (fst (wk_executor s))). en_pending e \<longrightarrow> X e \<or> owned (wk_trace s) e)))"

definition in_hand :: "generic_command_request \<Rightarrow> command_decision \<Rightarrow> entry \<Rightarrow> bool" where
  "in_hand r d e = (cd_execute d \<and> en_request e = r \<and> en_domain e = cd_domain d)"

definition at_rest :: "entry \<Rightarrow> bool" where "at_rest e = False"

lemma work_inv_emit:
  assumes "work_inv X s" and "work_allowed (wk_trace s) e"
  shows "work_inv X (s\<lparr>wk_trace := wk_trace s @ [e]\<rparr>)"
  using assms by (auto simp: work_inv_def lock_missed_def owned_def)

lemma work_inv_settle:
  assumes "work_inv X s" and "exec_settled (fst (wk_executor s)) (fst x)" and "exec_inv (fst x)"
  shows "work_inv X (s\<lparr>wk_executor := x\<rparr>)"
  using assms unfolding work_inv_def exec_settled_def lock_missed_def owned_def by auto

lemma keeps_wk_call: "(\<And>s d. I s \<Longrightarrow> I (s\<lparr>wk_device := d\<rparr>)) \<Longrightarrow> keeps I (wk_call c)"
  by (simp add: wk_call_def keeps_def split: prod.splits)

lemma work_inv_device [simp]: "work_inv X (s\<lparr>wk_device := d\<rparr>) = work_inv X s"
  "work_inv X (s\<lparr>wk_result_queue_overflow := n\<rparr>) = work_inv X s"
  by (simp_all add: work_inv_def lock_missed_def)

lemma keeps_lock:
  assumes "only_settle api"
  shows "keeps (work_inv X) (lock_executor api)"
  unfolding lock_executor_def keeps_valid
proof (rule valid_bind [where R = "\<lambda>cs s. list_all settles cs \<and> work_inv X s"])
  show "valid (work_inv X) (wk_call (wa_others api)) (\<lambda>cs s. list_all settles cs \<and> work_inv X s)"
    using assms by (auto simp: valid_def wk_call_def only_settle_def split_beta)
next
  fix cs
  have "work_inv X (s\<lparr>wk_executor := exec_run cs (wk_executor s)\<rparr>)"
    if "list_all settles cs \<and> work_inv X s" for s :: "'a worker"
    using that exec_settled_run [of "wk_executor s" cs] by (intro work_inv_settle) (auto simp: work_inv_def)
  then show "valid (\<lambda>s. list_all settles cs \<and> work_inv X s) (do {
      modify (\<lambda>s. s\<lparr>wk_executor := exec_run cs (wk_executor s)\<rparr>); wk_call (wa_lock_executor api) })
      (\<lambda>_. work_inv X)"
    by (intro valid_bind [OF valid_modify [where Q = "\<lambda>_. work_inv X"]] keeps_wk_call [unfolded keeps_valid]) simp_all
qed

text \<open>Results do not disturb the invariant.\<close>

lemma keeps_result: "keeps (work_inv X) (worker_result api r)"
  unfolding worker_result_def wk_emit_def
  by (intro keeps_rules keeps_wk_call) (simp_all add: work_inv_emit work_allowed_def)

text \<open>The decision, its result and the hand-over.\<close>

definition decided :: "generic_command_request \<Rightarrow> command_decision \<Rightarrow> bool \<Rightarrow> 'd worker \<Rightarrow> bool" where
  "decided r d reported s = (work_inv (in_hand r d) s \<and>
     (cd_execute d \<longrightarrow> cd_domain d = domainFor (gcr_command r)) \<and>
     (\<exists>h. wk_trace s = h @ Wk_decision r d # (if reported then [Wk_result (cd_result d)] else [])))"

lemma begin_entries:
  assumes "exec_inv ex" and "executor_begin r cx ex g = (d, ex', g')"
  shows "exec_inv ex' \<and> (cd_execute d \<longrightarrow> cd_domain d = domainFor (gcr_command r)) \<and>
    (\<forall>e \<in> set (ce_entries ex'). en_pending e \<longrightarrow> in_hand r d e \<or> e \<in> set (ce_entries ex))"
proof (cases "gcr_transaction_id r = 0 \<or> find_transaction (gcr_transaction_id r) ex \<noteq> None")
  case True
  then show ?thesis using begin_old [OF True assms(2)] assms(1) by simp
next
  case False
  then obtain k where "exec_inv ex'" "cd_domain d = domainFor (gcr_command r)"
    "ce_entries ex' = (ce_entries ex)[k := \<lparr>en_valid = True, en_pending = cd_execute d,
       en_age = ce_age ex + 1, en_request = r, en_result = cd_result d,
       en_domain = domainFor (gcr_command r)\<rparr>]"
    using begin_new [OF assms(1) _ _ assms(2)] by metis
  then show ?thesis using set_update_subset_insert [of "ce_entries ex" k] by (fastforce simp: in_hand_def)
qed

lemma valid_begin: "valid (work_inv at_rest) (worker_begin r cx) (\<lambda>d. decided r d False)"
proof (rule validI)
  fix s :: "'a worker" and d s'
  assume i: "work_inv at_rest s" and r: "run_state (worker_begin r cx) s = (d, s')"
  obtain d1 ex g where b: "executor_begin r cx (fst (wk_executor s)) (snd (wk_executor s)) = (d1, ex, g)"
    by (metis prod_cases3)
  have s': "d1 = d" "s' = s\<lparr>wk_executor := (ex, g), wk_trace := wk_trace s @ [Wk_decision r d]\<rparr>"
    using r b by (auto simp: worker_begin_def wk_emit_def)
  have "exec_inv (fst (wk_executor s))" using i by (simp add: work_inv_def)
  from begin_entries [OF this b] have "work_inv (in_hand r d) (s\<lparr>wk_executor := (ex, g)\<rparr>)"
    and dom: "cd_execute d \<longrightarrow> cd_domain d = domainFor (gcr_command r)"
    using i s'(1) by (auto simp: work_inv_def lock_missed_def at_rest_def)
  from work_inv_emit [OF this(1), of "Wk_decision r d"] dom show "decided r d False s'"
    by (simp add: s'(2) decided_def work_allowed_def)
qed

lemma valid_reported: "valid (decided r d False) (worker_result api (cd_result d)) (\<lambda>_. decided r d True)"
proof -
  have "decided r d True (s\<lparr>wk_trace := wk_trace s @ [Wk_result (cd_result d)]\<rparr>)"
    if "decided r d False s" for s :: "'a worker"
    using that by (auto simp: decided_def work_inv_emit work_allowed_def)
  moreover have "decided r d True (s\<lparr>wk_device := e\<rparr>) = decided r d True s"
    "decided r d True (s\<lparr>wk_result_queue_overflow := n\<rparr>) = decided r d True s" for s :: "'a worker" and e n
    by (simp_all add: decided_def)
  ultimately show ?thesis unfolding worker_result_def wk_emit_def
    by (intro valid_bind [OF valid_modify] valid_bind [OF keeps_wk_call [unfolded keeps_valid]] valid_only_if
          valid_modify) simp_all
qed

lemma work_inv_rest: "\<not> cd_execute d \<Longrightarrow> decided r d b s \<Longrightarrow> work_inv at_rest s"
  by (simp add: decided_def work_inv_def in_hand_def at_rest_def)

text \<open>Sent, or still in hand.\<close>

lemma valid_hand_over:
  fixes api :: "'d worker_api"
  assumes "cd_execute d"
  shows "valid (decided r d True) (hand_over api r d)
    (\<lambda>queued. work_inv (if queued then at_rest else in_hand r d))"
  unfolding hand_over_def
proof (rule valid_bind [where R = "\<lambda>_. decided r d True"])
  have "decided r d True (s\<lparr>wk_device := e\<rparr>) = decided r d True s" for s :: "'d worker" and e
    by (simp add: decided_def)
  then show "valid (decided r d True) (if cd_domain d = CD_parachute
         then wk_call (wa_send_parachute api \<lparr>pc_kind = PCK_generic, pc_command = r\<rparr>)
       else if cd_domain d = CD_storage then wk_call (wa_send_storage api (gcr_transaction_id r))
       else wk_call (wa_send_transition api \<lparr>me_request = r, me_decision = d\<rparr>)) (\<lambda>_. decided r d True)"
    by (intro valid_if keeps_wk_call [unfolded keeps_valid]) simp_all
next
  fix queued
  have sent: "work_inv (if queued then at_rest else in_hand r d)
      (s\<lparr>wk_trace := wk_trace s @ [Wk_sent (cd_domain d) r queued]\<rparr>)" if "decided r d True s" for s :: "'d worker"
  proof -
    from that assms have i: "work_inv (in_hand r d) s"
      and a: "work_allowed (wk_trace s) (Wk_sent (cd_domain d) r queued)"
      by (auto simp: decided_def work_allowed_def)
    show ?thesis
      using work_inv_emit [OF i a] by (auto simp: work_inv_def in_hand_def owned_def)
  qed
  show "valid (decided r d True) (do { wk_emit (Wk_sent (cd_domain d) r queued); ret queued } :: ('d, bool) work)
      (\<lambda>queued. work_inv (if queued then at_rest else in_hand r d))"
    unfolding wk_emit_def
    using sent by (intro valid_bind [OF valid_modify [where Q = "\<lambda>_. work_inv (if queued then at_rest else in_hand r d)"]] valid_ret)
qed

text \<open>After \<open>finish\<close> the command in hand is no longer pending.\<close>

lemma not_found:
  assumes "exec_inv ex" and "\<not> (\<exists>i. find_transaction tx ex = Some i \<and> en_pending (ce_entries ex ! i))"
    and "k < kResultCacheSize" and "en_pending (ce_entries ex ! k)"
  shows "entry_tx (ce_entries ex ! k) \<noteq> tx"
  using assms find_transaction_eqI [OF assms(1,3)] exec_inv_nth(1) [OF assms(1,3)] by (auto simp: entry_ok_def)

lemma finished_not_pending:
  assumes inv: "exec_inv ex" and f: "executor_finish tx CP_failed rs dt ex g = (res, ex', g')"
    and e: "e \<in> set (ce_entries ex')" "en_pending e"
  shows "entry_tx e \<noteq> tx"
proof -
  have i': "exec_inv ex'" using finish_inv [OF inv f] .
  obtain k where k: "k < kResultCacheSize" "e = ce_entries ex' ! k"
    using e(1) exec_inv_nth(3) [OF i'] by (auto simp: in_set_conv_nth)
  from finish_cases [OF inv f] show ?thesis
  proof (elim disjE exE conjE)
    assume "ex' = ex" "\<not> (\<exists>i. find_transaction tx ex = Some i \<and> en_pending (ce_entries ex ! i) \<and>
        CP_failed \<in> {CP_completed, CP_failed})"
    then show ?thesis using not_found [OF inv, of tx k] k e(2) by auto
  next
    fix i
    assume i: "find_transaction tx ex = Some i"
      and ex': "ce_entries ex' = (ce_entries ex)[i := (ce_entries ex ! i)\<lparr>en_pending := False,
        en_age := ce_age ex + 1, en_result := res\<rparr>]"
    note fi = find_transaction_Some [OF i]
    have "k \<noteq> i" using e(2) k(2) ex' fi(1) by auto
    moreover from this have "e = ce_entries ex ! k" using k(2) ex' by simp
    ultimately show ?thesis
      using exec_inv_nth(2) [OF inv, of k i] k(1) fi e(2) exec_inv_nth(1) [OF inv k(1)] exec_inv_nth(3) [OF inv]
      by (auto simp: entries_apart_def entry_ok_def)
  qed
qed

lemma valid_finish:
  "valid (work_inv (in_hand r d)) (worker_finish (gcr_transaction_id r)) (\<lambda>_. work_inv at_rest)"
proof (rule validI)
  fix s :: "'a worker" and x s'
  assume i: "work_inv (in_hand r d) s"
    and r: "run_state (worker_finish (gcr_transaction_id r)) s = (x, s')"
  obtain res ex g where f: "executor_finish (gcr_transaction_id r) CP_failed CR_busy 0
      (fst (wk_executor s)) (snd (wk_executor s)) = (res, ex, g)" by (metis prod_cases3)
  have s': "s' = s\<lparr>wk_executor := (ex, g), wk_trace := wk_trace s @ [Wk_failed (gcr_transaction_id r)]\<rparr>"
    using r f by (auto simp: worker_finish_def wk_emit_def)
  have e: "exec_inv (fst (wk_executor s))" using i by (simp add: work_inv_def)
  have "exec_settled (fst (wk_executor s)) ex" using exec_settled_finish [OF e] f by (metis fst_conv snd_conv)
  then have "work_inv (in_hand r d) (s\<lparr>wk_executor := (ex, g)\<rparr>)"
    using i finish_inv [OF e f] by (intro work_inv_settle) simp_all
  then have "work_inv at_rest (s\<lparr>wk_executor := (ex, g)\<rparr>)"
    using finished_not_pending [OF e f] by (auto simp: work_inv_def in_hand_def lock_missed_def)
  from work_inv_emit [OF this, of "Wk_failed (gcr_transaction_id r)"] show "work_inv at_rest s'"
    by (simp add: s' work_allowed_def)
qed

lemma valid_give_up:
  assumes "only_settle api"
  shows "valid (work_inv (in_hand r d)) (give_up api (gcr_transaction_id r)) (\<lambda>_. work_inv at_rest)"
proof -
  have "work_inv at_rest (s\<lparr>wk_trace := wk_trace s @ [Wk_lock_missed tx]\<rparr>)"
    if "work_inv (in_hand r d) s" for s :: "'a worker" and tx
    using that by (simp add: work_inv_def lock_missed_def work_allowed_def)
  then show ?thesis unfolding give_up_def wk_emit_def
    by (intro valid_bind [OF keeps_lock [OF assms, unfolded keeps_valid]] valid_if valid_bind [OF valid_finish]
          keeps_result [unfolded keeps_valid] valid_modify) simp_all
qed

section \<open>The run\<close>

lemma keeps_command:
  assumes "only_settle api"
  shows "keeps (work_inv at_rest) (worker_command api request)"
proof -
  have reads: "keeps (work_inv at_rest) (worker_context api)"
    unfolding worker_context_def by (intro keeps_rules keeps_wk_call) simp_all
  have sent: "valid (work_inv (if queued then at_rest else in_hand request d))
      (only_if (\<not> queued) (give_up api (gcr_transaction_id request))) (\<lambda>_. work_inv at_rest)" for queued d
    by (rule valid_only_if) (simp_all add: valid_give_up [OF assms])
  have "valid (decided request d True) (only_if (cd_execute d) (do {
         queued \<leftarrow> hand_over api request d;
         only_if (\<not> queued) (give_up api (gcr_transaction_id request)) })) (\<lambda>_. work_inv at_rest)" for d
    by (rule valid_only_if) (auto intro: valid_bind [OF valid_hand_over sent] work_inv_rest)
  from valid_bind [OF valid_begin valid_bind [OF valid_reported this]]
  have "valid (work_inv at_rest) (do {
       d \<leftarrow> worker_begin request cx;
       worker_result api (cd_result d);
       only_if (cd_execute d) (do {
         queued \<leftarrow> hand_over api request d;
         only_if (\<not> queued) (give_up api (gcr_transaction_id request)) }) }) (\<lambda>_. work_inv at_rest)" for cx .
  then show ?thesis unfolding worker_command_def keeps_valid
    by (intro valid_bind [OF reads [unfolded keeps_valid]] valid_bind [OF keeps_lock [OF assms, unfolded keeps_valid]]
          valid_if keeps_result [unfolded keeps_valid])
qed

lemma run_commands: "only_settle api \<Longrightarrow> work_inv at_rest (command_worker_run api requests (worker_init d))"
proof -
  assume a: "only_settle api"
  have "work_inv at_rest (worker_init d)"
    using exec_init_inv by (simp add: work_inv_def worker_init_def executor_init_def entry_init_def lock_missed_def)
  with keeps_each [of requests "work_inv at_rest", OF keeps_command [OF a]] show ?thesis
    by (simp add: keeps_def command_worker_run_def)
qed


text \<open>Two commands on the way to liftoff; the queue of the mission task takes only the first.\<close>

definition half_full :: "bool worker_api" where
  "half_full = \<lparr>wa_others = (\<lambda>d. ([], d)),
     wa_snapshot = (\<lambda>d. (Some (snapshot_init\<lparr>sn_state := MS_liftoff_detection\<rparr>), d)),
     wa_lock_executor = (\<lambda>d. (True, d)), wa_send_result = (\<lambda>_ _ d. (True, d)),
     wa_send_parachute = (\<lambda>_ d. (True, d)), wa_send_storage = (\<lambda>_ d. (True, d)),
     wa_send_transition = (\<lambda>_ d. (d, False)), wa_configuration_ready = True,
     wa_parachute_queue = True, wa_storage_queue = True\<rparr>"

definition two_commands :: "bool worker" where
  "two_commands = command_worker_run half_full [req 7 2, req 7 2, req 8 2] (worker_init True)"

text \<open>The evaluation below reaches no computation in doubles.\<close>

declare observeFinOvertravel_def [code del] clearFinOvertravelIfRecoverable_def [code del]

lemma two_commands_trace:
  "Wk_sent CD_sequence (req 7 2) True \<in> set (wk_trace two_commands) \<and> \<not> lock_missed two_commands"
  by code_simp


end
