(* ===== verification/Can_Shim.thy ===== *)
theory Can_Shim
  imports Recovery_Safety Flight_Detectors Flight_Storage
begin

text \<open>
  \<open>runtime/CANCREATE.h\<close>: the class \<open>MissionRuntimeCan\<close> between the CAN task and the driver. It rewrites
  frames on their way: an exit request comes in as a wake, and the ready status that answers it goes out
  as the end of the recovery; rail presence, the display attitude and the evidence of an unrecoverable
  power-on reset are filled into telemetry. The driver, the clock and the display attitude are an API.
  The restart of the board after an acknowledged exit ends the run: \<open>cs_restarted\<close>.
\<close>

unbundle bit_operations_syntax

section \<open>State\<close>

record device_frame =
  df_identifier :: u32
  df_data :: "u8 list"
  df_data_length :: u8
  df_extended :: bool
  df_remote :: bool

record wire_telemetry =
  wt_magnitude_raw :: u8
  wt_direction_raw :: u16
  wt_roll_raw :: u16

record ('n, 'a, 'd) shim_api =
  cs_nvs_api :: "'n nvs_api"
  cs_read :: "'d \<Rightarrow> (esp_code \<times> device_frame) \<times> 'd"
  cs_write :: "device_frame \<Rightarrow> 'd \<Rightarrow> esp_code \<times> 'd"
  cs_now :: "'d \<Rightarrow> u64 \<times> 'd"
  cs_calibrationAccepted :: "u8 \<Rightarrow> 'a \<Rightarrow> 'a"
  cs_calibrationFinished :: "u8 \<Rightarrow> bool \<Rightarrow> 'a \<Rightarrow> 'a"
  cs_invalidateForDataLoss :: "'a \<Rightarrow> 'a"
  cs_invalidateForReset :: "'a \<Rightarrow> 'a"
  cs_wireTelemetry :: "u64 \<Rightarrow> 'a \<Rightarrow> wire_telemetry \<times> 'a"

record ('n, 'a, 'd) can_shim =
  cs_memory :: "'n recovery_memory"
  cs_presence :: "presence_detector \<times> presence_detector"
  cs_mission_state_raw :: u8
  cs_display :: 'a
  cs_device :: 'd
  cs_restarted :: bool

text \<open>The frame and the state, as the statements of \<open>write\<close> change them.\<close>

type_synonym ('n, 'a, 'd) passage = "device_frame \<times> ('n, 'a, 'd) can_shim"

definition frame_is :: "u32 \<Rightarrow> u8 \<Rightarrow> device_frame \<Rightarrow> bool" where
  "frame_is identifier len f = (df_identifier f = identifier \<and> df_data_length f = len)"

abbreviation byte :: "device_frame \<Rightarrow> nat \<Rightarrow> u8" where
  "byte f i \<equiv> df_data f ! i"

section \<open>Reading\<close>

definition exit_request_arguments :: "device_frame \<Rightarrow> bool" where
  "exit_request_arguments f = (drop_bit 4 (byte f 0) AND 1 = 0 \<and> byte f 1 \<noteq> 0 \<and>
     list_all (\<lambda>b. b = 0) (drop 2 (df_data f)))"

definition shim_read :: "('n, 'a, 'd) shim_api \<Rightarrow> ('n, 'a, 'd) can_shim \<Rightarrow>
    (esp_code \<times> device_frame) \<times> ('n, 'a, 'd) can_shim" where
  "shim_read api s =
     (let ((result, f), d) = cs_read api (cs_device s); s = s\<lparr>cs_device := d\<rparr> in
      if result \<noteq> EC_ok then ((result, f), s)
      else if frame_is 0x008 8 f \<and> byte f 0 AND 0x0F = 4 then
        ((result, f\<lparr>df_data := (df_data f)[0 := (byte f 0 AND 0x10) OR 1]\<rparr>),
         s\<lparr>cs_memory := armExitRequest (byte f 1) (exit_request_arguments f) (cs_memory s)\<rparr>)
      else ((result, f), s))"

section \<open>Writing\<close>

definition shim_calibration :: "('n, 'a, 'd) shim_api \<Rightarrow> ('n, 'a, 'd) passage \<Rightarrow> ('n, 'a, 'd) passage" where
  "shim_calibration api = (\<lambda>(f, s).
     if frame_is 0x011 8 f \<and> byte f 1 = 0x30 then
       let ph = byte f 2; rs = byte f 3 in
       if ph = 0 \<and> rs = 0 then (f, s\<lparr>cs_display := cs_calibrationAccepted api (byte f 0) (cs_display s)\<rparr>)
       else if ph = 1 \<or> ph = 2 \<or> ph = 3 then
         (f, s\<lparr>cs_display := cs_calibrationFinished api (byte f 0) (ph = 1 \<and> rs = 0) (cs_display s)\<rparr>)
       else (f, s)
     else (f, s))"

definition shim_event :: "('n, 'a, 'd) passage \<Rightarrow> ('n, 'a, 'd) passage" where
  "shim_event = (\<lambda>(f, s).
     if frame_is 0x020 8 f then (f, s\<lparr>cs_mission_state_raw := byte f 3\<rparr>) else (f, s))"

definition set_bit_if :: "nat \<Rightarrow> bool \<Rightarrow> u16 \<Rightarrow> u16" where
  "set_bit_if n b w = (if b then w OR push_bit n 1 else w AND NOT (push_bit n 1))"

definition shim_status ::
    "('n, 'a, 'd) shim_api \<Rightarrow> u64 \<Rightarrow> ('n, 'a, 'd) passage \<Rightarrow> ('n, 'a, 'd) passage" where
  "shim_status api now_us = (\<lambda>(f, s).
     if frame_is 0x102 8 f then
       let status = getU16 (df_data f) 2;
           status = set_bit_if 5 (rail_present now_us (fst (cs_presence s))) status;
           status = set_bit_if 6 (rail_present now_us (snd (cs_presence s))) status;
           a = cs_display s;
           a = (if status AND push_bit 9 1 \<noteq> 0 then cs_invalidateForDataLoss api a else a);
           a = (if status AND push_bit 14 1 \<noteq> 0 then cs_invalidateForReset api a else a)
       in (f\<lparr>df_data := putU16 (df_data f) 2 status\<rparr>,
           s\<lparr>cs_mission_state_raw := byte f 1, cs_display := a\<rparr>)
     else (f, s))"

definition shim_roll ::
    "('n, 'a, 'd) shim_api \<Rightarrow> u64 \<Rightarrow> ('n, 'a, 'd) passage \<Rightarrow> ('n, 'a, 'd) passage" where
  "shim_roll api now_us = (\<lambda>(f, s).
     if frame_is 0x100 8 f \<and> cs_mission_state_raw s = 0 then
       let (attitude, a) = cs_wireTelemetry api now_us (cs_display s) in
       (f\<lparr>df_data := putU16 (df_data f) 1 (wt_roll_raw attitude)\<rparr>, s\<lparr>cs_display := a\<rparr>)
     else (f, s))"

definition shim_power ::
    "u64 \<Rightarrow> ('n, 'a, 'd) passage \<Rightarrow> ('n, 'a, 'd) passage" where
  "shim_power now_us = (\<lambda>(f, s).
     if frame_is 0x103 8 f then
       (if powerOnResetUnrecoverable (cs_memory s) then f\<lparr>df_data := (df_data f)[5 := 0xFD, 6 := 0xFF]\<rparr> else f,
        s\<lparr>cs_presence := observeRaw (byte f 1) (byte f 2) now_us (cs_presence s)\<rparr>)
     else (f, s))"

definition shim_tilt ::
    "('n, 'a, 'd) shim_api \<Rightarrow> u64 \<Rightarrow> ('n, 'a, 'd) passage \<Rightarrow> ('n, 'a, 'd) passage" where
  "shim_tilt api now_us = (\<lambda>(f, s).
     if frame_is 0x107 3 f then
       let (attitude, a) = cs_wireTelemetry api now_us (cs_display s);
           packed = ucast (wt_magnitude_raw attitude AND 0x7F) OR push_bit 7 (wt_direction_raw attitude AND 0x01FF)
       in (f\<lparr>df_data := putU16 (df_data f) 1 packed\<rparr>, s\<lparr>cs_display := a\<rparr>)
     else (f, s))"

definition shim_recovery_mode ::
    "('n, 'a, 'd) shim_api \<Rightarrow> ('n, 'a, 'd) passage \<Rightarrow> ('n, 'a, 'd) passage" where
  "shim_recovery_mode api = (\<lambda>(f, s).
     if frame_is 0x014 3 f then
       (if powerOnResetUnrecoverable (cs_memory s) then f\<lparr>df_data := (df_data f)[2 := 3]\<rparr> else f,
        s\<lparr>cs_memory := (cs_memory s)\<lparr>re_nvs := snd (ensureActive (cs_nvs_api api) (re_nvs (cs_memory s)))\<rparr>\<rparr>)
     else (f, s))"

text \<open>The answer to an exit request; also returns its transaction (0 for none) and whether the exit is
  prepared and may be acknowledged.\<close>

definition shim_exit ::
    "('n, 'a, 'd) shim_api \<Rightarrow> ('n, 'a, 'd) passage \<Rightarrow> u8 \<times> bool \<times> ('n, 'a, 'd) passage" where
  "shim_exit api = (\<lambda>(f, s).
     if frame_is 0x105 8 f \<and> byte f 0 = 1 \<and> exitRequestPending (byte f 1) (cs_memory s) then
       let tx = byte f 1;
           f = f\<lparr>df_data := (df_data f)[0 := 4, 3 := 0, 4 := 0, 5 := 0, 6 := 0, 7 := 0]\<rparr> in
       if byte f 2 \<noteq> 0 then (tx, False, f, s)
       else if \<not> exitArgumentsValid tx (cs_memory s)
       then (tx, False, f\<lparr>df_data := (df_data f)[2 := 5]\<rparr>, s)
       else let (prepared, r) = prepareExit (cs_nvs_api api) tx (cs_memory s) in
         (tx, prepared, f\<lparr>df_data := (df_data f)[2 := (if prepared then 2 else 7)]\<rparr>, s\<lparr>cs_memory := r\<rparr>)
     else (0, False, f, s))"

definition shim_rewrite :: "('n, 'a, 'd) shim_api \<Rightarrow> u64 \<Rightarrow> ('n, 'a, 'd) passage \<Rightarrow> ('n, 'a, 'd) passage" where
  "shim_rewrite api now_us p =
     shim_recovery_mode api (shim_tilt api now_us (shim_power now_us (shim_roll api now_us
       (shim_status api now_us (shim_event (shim_calibration api p))))))"

definition shim_write :: "('n, 'a, 'd) shim_api \<Rightarrow> device_frame \<Rightarrow> ('n, 'a, 'd) can_shim \<Rightarrow>
    esp_code \<times> ('n, 'a, 'd) can_shim" where
  "shim_write api input s =
     (let (now_us, d) = cs_now api (cs_device s);
          p = shim_rewrite api now_us (input, s\<lparr>cs_device := d\<rparr>);
          (exit_transaction, exit_complete, f, s) = shim_exit api p;
          (result, d) = cs_write api f (cs_device s);
          s = s\<lparr>cs_device := d\<rparr> in
      if result = EC_ok \<and> exit_transaction \<noteq> 0
      then if exit_complete then (result, s\<lparr>cs_restarted := True\<rparr>)
           else (result, s\<lparr>cs_memory := clearExitRequest exit_transaction (cs_memory s)\<rparr>)
      else (result, s))"

section \<open>The exit from recovery\<close>

datatype shim_call = Sh_read | Sh_write device_frame

fun shim_step :: "('n, 'a, 'd) shim_api \<Rightarrow> shim_call \<Rightarrow> ('n, 'a, 'd) can_shim \<Rightarrow> ('n, 'a, 'd) can_shim" where
  "shim_step api Sh_read s = snd (shim_read api s)"
| "shim_step api (Sh_write f) s = snd (shim_write api f s)"

definition shim_run :: "('n, 'a, 'd) shim_api \<Rightarrow> shim_call list \<Rightarrow> ('n, 'a, 'd) can_shim \<Rightarrow> ('n, 'a, 'd) can_shim" where
  "shim_run api cs s = fold (\<lambda>c s. if cs_restarted s then s else shim_step api c s) cs s"

text \<open>The recovery beacon is the only frame that sets the latch.\<close>

definition no_beacon :: "shim_call \<Rightarrow> bool" where
  "no_beacon c = (case c of Sh_read \<Rightarrow> True | Sh_write f \<Rightarrow> \<not> frame_is 0x014 3 f)"

text \<open>Nothing of the recovery is left: no marker, no evidence, and the latch reads back as inactive.\<close>

definition recovery_over :: "('n, 'a, 'd) shim_api \<Rightarrow> 'n recovery_memory \<Rightarrow> bool" where
  "recovery_over api r = (re_marker r = marker_init \<and> \<not> re_por_unrecoverable r \<and>
     (\<exists>n. latchState (cs_nvs_api api) n = (LS_inactive, re_nvs r)))"

definition exit_inv :: "('n, 'a, 'd) shim_api \<Rightarrow> ('n, 'a, 'd) can_shim \<Rightarrow> bool" where
  "exit_inv api s = ((re_exit_prepared (cs_memory s) \<longrightarrow> recovery_over api (cs_memory s)) \<and>
     (cs_restarted s \<longrightarrow> recovery_over api (cs_memory s)))"

text \<open>What the rewriting leaves alone.\<close>

definition same_exit :: "('n, 'a, 'd) passage \<Rightarrow> ('n, 'a, 'd) passage \<Rightarrow> bool" where
  "same_exit p q = (cs_memory (snd q) = cs_memory (snd p) \<and> cs_restarted (snd q) = cs_restarted (snd p) \<and>
     df_identifier (fst q) = df_identifier (fst p) \<and> df_data_length (fst q) = df_data_length (fst p))"

lemma same_exit_steps:
  "same_exit p (shim_calibration api p)" "same_exit p (shim_event p)" "same_exit p (shim_status api t p)"
  "same_exit p (shim_roll api t p)" "same_exit p (shim_power t p)" "same_exit p (shim_tilt api t p)"
  by (cases p; simp add: same_exit_def shim_calibration_def shim_event_def shim_status_def shim_roll_def
      shim_power_def shim_tilt_def Let_def split_beta del: split_paired_All)+

lemma same_exit_trans: "same_exit p q \<Longrightarrow> same_exit q r \<Longrightarrow> same_exit p r"
  by (simp add: same_exit_def)

lemma rewrite_keeps:
  assumes "\<not> frame_is 0x014 3 f"
  shows "cs_memory (snd (shim_rewrite api now_us (f, s))) = cs_memory s \<and>
    cs_restarted (snd (shim_rewrite api now_us (f, s))) = cs_restarted s"
proof -
  let ?q = "shim_tilt api now_us (shim_power now_us (shim_roll api now_us
       (shim_status api now_us (shim_event (shim_calibration api (f, s))))))"
  have "same_exit (f, s) ?q" 
    by (rule same_exit_trans [OF _ same_exit_steps(6)] same_exit_trans [OF _ same_exit_steps(5)]
        same_exit_trans [OF _ same_exit_steps(4)] same_exit_trans [OF _ same_exit_steps(3)]
        same_exit_trans [OF _ same_exit_steps(2)] same_exit_steps(1))+
  then have "cs_memory (snd ?q) = cs_memory s" "cs_restarted (snd ?q) = cs_restarted s" "\<not> frame_is 0x014 3 (fst ?q)"
    using assms by (simp_all add: same_exit_def frame_is_def)
  then show ?thesis by (simp add: shim_rewrite_def shim_recovery_mode_def split_beta)
qed

lemma prepareExit_prepared:
  "prepareExit api t r = (ok, r') \<Longrightarrow> re_exit_prepared r \<Longrightarrow> r' = r"
  by (auto simp: prepareExit_def split: if_splits)

lemma prepareExit_refused:
  "prepareExit api t r = (False, r') \<Longrightarrow> re_exit_prepared r' = re_exit_prepared r"
  by (auto simp: prepareExit_def Let_def split: if_splits prod.splits)

lemma prepareExit_done:
  assumes "prepareExit (cs_nvs_api api) t r = (True, r')" and "\<not> re_exit_prepared r"
  shows "recovery_over api r'"
  using assms unfolding prepareExit_def recovery_over_def Let_def
  by (auto simp: clearMarker_def split: if_splits prod.splits)

lemma exit_frame_kept:
  "shim_exit api (f, s) = (tx, ok, f', s') \<Longrightarrow> cs_restarted s' = cs_restarted s"
  by (auto simp: shim_exit_def Let_def split: if_splits prod.splits)

lemma exit_memory:
  assumes "shim_exit api (f, s) = (tx, ok, f', s')"
    and "re_exit_prepared (cs_memory s) \<Longrightarrow> recovery_over api (cs_memory s)"
  shows "(re_exit_prepared (cs_memory s') \<longrightarrow> recovery_over api (cs_memory s')) \<and>
    (ok \<longrightarrow> recovery_over api (cs_memory s'))"
proof (cases "cs_memory s' = cs_memory s \<and> \<not> ok")
  case False
  then obtain t where e: "prepareExit (cs_nvs_api api) t (cs_memory s) = (ok, cs_memory s')"
    using assms(1) by (auto simp: shim_exit_def Let_def split: if_splits prod.splits)
  show ?thesis
    using assms(2) e prepareExit_prepared [OF e] prepareExit_refused [of "cs_nvs_api api" t "cs_memory s" "cs_memory s'"]
      prepareExit_done [of api t "cs_memory s" "cs_memory s'"]
    by (cases "re_exit_prepared (cs_memory s)"; cases ok) auto
qed (use assms(2) in simp)

lemma exit_step:
  assumes "no_beacon c" and "exit_inv api s" and "\<not> cs_restarted s"
  shows "exit_inv api (shim_step api c s)"
proof (cases c)
  case Sh_read
  then show ?thesis using assms
    by (auto simp: exit_inv_def shim_read_def armExitRequest_def Let_def recovery_over_def split: if_splits prod.splits)
next
  case (Sh_write f)
  obtain now_us d where n: "cs_now api (cs_device s) = (now_us, d)" by fastforce
  obtain g t where p: "shim_rewrite api now_us (f, s\<lparr>cs_device := d\<rparr>) = (g, t)" by fastforce
  obtain tx ok h u where e: "shim_exit api (g, t) = (tx, ok, h, u)" by (metis prod_cases4)
  obtain result d' where w: "cs_write api h (cs_device u) = (result, d')" by fastforce
  have t: "cs_memory t = cs_memory s" "\<not> cs_restarted t"
    using rewrite_keeps [of f api now_us "s\<lparr>cs_device := d\<rparr>"] assms(1,3) p by (simp_all add: Sh_write no_beacon_def)
  have m: "re_exit_prepared (cs_memory u) \<longrightarrow> recovery_over api (cs_memory u)"
    "ok \<longrightarrow> recovery_over api (cs_memory u)"
    using exit_memory [OF e] assms(2) t(1) by (simp_all add: exit_inv_def)
  have r: "\<not> cs_restarted u" using exit_frame_kept [OF e] t(2) by simp
  show ?thesis using m r
    by (auto simp: Sh_write shim_write_def n p e w exit_inv_def clearExitRequest_def recovery_over_def Let_def)
qed

text \<open>The board restarts out of recovery only when recovery is over: as long as no recovery beacon is
  sent, whatever frames come and go and whichever transmissions fail, a restart after an acknowledged
  exit finds the marker cleared, no evidence left and the latch inactive.\<close>

theorem restart_after_exit:
  assumes "list_all no_beacon cs" and "\<not> cs_restarted s" and "\<not> re_exit_prepared (cs_memory s)"
    and "cs_restarted (shim_run api cs s)"
  shows "recovery_over api (cs_memory (shim_run api cs s))"
proof -
  have "exit_inv api (shim_run api cs s)" if "exit_inv api s" "list_all no_beacon cs" for s
    using that unfolding shim_run_def
    by (induction cs arbitrary: s) (auto simp: exit_step)
  then show ?thesis using assms by (simp add: exit_inv_def)
qed

section \<open>The exit and the beacon\<close>

text \<open>A driver that delivers one frame and takes frames as long as \<open>snd\<close> says so; a byte for NVS.\<close>

definition exit_frame :: device_frame where
  "exit_frame = \<lparr>df_identifier = 0x008, df_data = [4, 7, 0, 0, 0, 0, 0, 0], df_data_length = 8,
     df_extended = False, df_remote = False\<rparr>"

definition ready_frame :: device_frame where
  "ready_frame = \<lparr>df_identifier = 0x105, df_data = [1, 7, 0, 0, 0, 0, 0, 0], df_data_length = 8,
     df_extended = False, df_remote = False\<rparr>"

definition beacon_frame :: device_frame where
  "beacon_frame = \<lparr>df_identifier = 0x014, df_data = [0, 1, 2], df_data_length = 3,
     df_extended = False, df_remote = False\<rparr>"

text \<open>The driver's state: the results of the writes to come.\<close>

definition bench_api :: "(u8 option, unit, esp_code list) shim_api" where
  "bench_api = \<lparr>cs_nvs_api = nvs_byte, cs_read = (\<lambda>d. ((EC_ok, exit_frame), d)),
     cs_write = (\<lambda>_ d. (hd d, tl d)), cs_now = (\<lambda>d. (1000, d)),
     cs_calibrationAccepted = (\<lambda>_ a. a), cs_calibrationFinished = (\<lambda>_ _ a. a),
     cs_invalidateForDataLoss = id, cs_invalidateForReset = id,
     cs_wireTelemetry = (\<lambda>_ a. (\<lparr>wt_magnitude_raw = 122, wt_direction_raw = 511, wt_roll_raw = 0x8001\<rparr>, a))\<rparr>"

definition bench :: "esp_code list \<Rightarrow> (u8 option, unit, esp_code list) can_shim" where
  "bench writes = \<lparr>cs_memory = \<lparr>re_marker = fst (makeRecoveryMarker nvs_byte 4 99 None),
       re_por_unrecoverable = False, re_exit_transaction = 0, re_exit_arguments_valid = False,
       re_exit_prepared = False, re_nvs = Some 1\<rparr>,
     cs_presence = (presence_init kLogicConfig, presence_init kLogicConfig), cs_mission_state_raw = 4,
     cs_display = (), cs_device = writes, cs_restarted = False\<rparr>"

text \<open>The status is refused once, then acknowledged.\<close>

definition exit_calls :: "shim_call list" where
  "exit_calls = [Sh_read, Sh_write ready_frame, Sh_write ready_frame]"

lemmas shim_eval = shim_run_def shim_read_def shim_write_def shim_rewrite_def shim_calibration_def
  shim_event_def shim_status_def shim_roll_def shim_power_def shim_tilt_def shim_recovery_mode_def
  shim_exit_def frame_is_def exit_frame_def ready_frame_def beacon_frame_def bench_def bench_api_def
  exit_request_arguments_def armExitRequest_def exitRequestPending_def exitArgumentsValid_def
  prepareExit_def clearExitRequest_def clearMarker_def latchState_def ensureActive_def nvs_byte_def
  powerOnResetUnrecoverable_def exit_calls_def

lemma restart_after_exit_witness:
  "cs_restarted (shim_run bench_api exit_calls (bench [EC_invalid_state, EC_ok])) \<and>
   recovery_over bench_api (cs_memory (shim_run bench_api exit_calls (bench [EC_invalid_state, EC_ok])))"
proof -
  have r: "cs_restarted (shim_run bench_api exit_calls (bench [EC_invalid_state, EC_ok]))"
    by (simp add: shim_eval)
  have "list_all no_beacon exit_calls" by (simp add: exit_calls_def no_beacon_def frame_is_def ready_frame_def)
  from restart_after_exit [OF this _ _ r] r show ?thesis by (simp add: bench_def)
qed

text \<open>With the beacon between the two attempts the latch is set again, and the repeated status reports
  an exit that is no longer true: the board restarts with its recovery latch active.\<close>

lemma beacon_undoes_exit:
  "let s = shim_run bench_api [Sh_read, Sh_write ready_frame, Sh_write beacon_frame, Sh_write ready_frame]
       (bench [EC_invalid_state, EC_ok, EC_ok])
   in cs_restarted s \<and> fst (latchState nvs_byte (re_nvs (cs_memory s))) = LS_active"
  by (simp add: shim_eval)

end
