(* ===== verification/Can_Task.thy ===== *)
theory Can_Task
  imports Command_Worker Can_Shim Runtime_Queues Recovery_Task
begin

text \<open>
  \<open>runtime/production_runtime.cpp\<close>, \<open>canTask\<close>: every frame of the board goes through it. A turn
  dispatches the frames received, sends the results, statuses, log data and events of the other tasks,
  and then the telemetry that is due. The turn is written in the state monad over the task's locals
  (\<open>can_task\<close>); \<open>can_shared\<close> is what it shares with the other tasks, \<open>ca_others\<close> what they did to it
  before an atomic access. The driver (behind \<open>MissionRuntimeCan\<close>), the queues and the clocks are an
  API. The frames and events that a turn drains are its input. \<open>ct_trace\<close> is a history variable.
\<close>

unbundle bit_operations_syntax

section \<open>State\<close>

text \<open>The float and double fields are only copied here: their bit patterns.\<close>

record runtime_status =
  ru_state :: mission_state
  ru_flight_status :: u16
  ru_config_flags :: u8
  ru_fin_mode :: fin_mode
  ru_para_mode :: para_mode
  ru_lps_pressure_raw :: u16
  ru_lps_temperature_raw :: u8
  ru_airspeed_raw :: u8
  ru_lps_sample_valid :: bool
  ru_airspeed_sample_valid :: bool
  ru_deployment_power_cutoff :: bool
  ru_flight_elapsed_us :: u64
  ru_static_pressure_pa :: u32
  ru_ssc_temperature_celsius :: u32
  ru_airspeed_mps :: u32
  ru_roll_raw :: u16
  ru_roll_rate_raw :: u16
  ru_fin_angle_raw :: u8
  ru_fin_rate_raw :: u16
  ru_requested_torque_raw :: u16
  ru_roll_reference_raw :: u16
  ru_roll_deviation_raw :: u16
  ru_control_roll_flags :: u8
  ru_capture_event_sequence :: u8
  ru_roll_estimate_rad :: u64
  ru_roll_reference_rad :: u64
  ru_roll_deviation_rad :: u64
  ru_capture_tick :: u64
  ru_estimator_timestamp_us :: u64

definition runtime_status_init :: runtime_status where
  "runtime_status_init = \<lparr>ru_state = MS_command_receive, ru_flight_status = 0, ru_config_flags = 0,
     ru_fin_mode = FM_brake, ru_para_mode = PM_powered_off,
     ru_lps_pressure_raw = lps_pressure_error_code LPE_unavailable,
     ru_lps_temperature_raw = lps_temperature_error_code LTE_unavailable,
     ru_airspeed_raw = airspeed_error_code ASE_ssc_not_initialized,
     ru_lps_sample_valid = False, ru_airspeed_sample_valid = False, ru_deployment_power_cutoff = False,
     ru_flight_elapsed_us = 0, ru_static_pressure_pa = 0, ru_ssc_temperature_celsius = 0, ru_airspeed_mps = 0,
     ru_roll_raw = roll_error_code RE_unavailable, ru_roll_rate_raw = roll_error_code RE_unavailable,
     ru_fin_angle_raw = fin_angle_error_code FAE_not_initialized,
     ru_fin_rate_raw = fin_rate_error_code FRE_estimator_not_ready,
     ru_requested_torque_raw = torque_error_code TQE_unavailable,
     ru_roll_reference_raw = roll_error_code RE_unavailable,
     ru_roll_deviation_raw = roll_error_code RE_unavailable, ru_control_roll_flags = 0,
     ru_capture_event_sequence = 0, ru_roll_estimate_rad = 0, ru_roll_reference_rad = 0,
     ru_roll_deviation_rad = 0, ru_capture_tick = 0, ru_estimator_timestamp_us = 0\<rparr>"

record time_state =
  tm_source :: time_source
  tm_unix_seconds :: u32
  tm_milliseconds :: u16
  tm_received_monotonic_us :: u64
  tm_request_id :: u8
  tm_valid :: bool

record 'd can_shared =
  cn_device :: 'd
  cn_executor :: "command_executor \<times> fin_guard"
  cn_time_state :: time_state
  cn_result_queue_overflow :: u32
  cn_emergency_metadata_overflow :: u32
  cn_actuator_emergency_latch :: u16
  cn_liftoff_emergency_latch :: u16
  cn_event_overflow_latch :: u16
  cn_failure_overflow_detail :: u16
  cn_recovery_only_mode :: bool
  cn_recovery_requested :: bool
  cn_mode_command_pending :: bool
  cn_mode_command_sent :: bool
  cn_recovery_mode_reason :: u8
  cn_can_healthy :: bool
  cn_deployment_failure :: u8
  cn_parachute_angle_raw :: u8
  cn_logic_voltage_raw :: u8
  cn_motor_voltage_raw :: u8
  cn_sd_log_ready :: bool
  cn_sd_log_failed :: bool

datatype can_state = CAN_bus_off | CAN_running | CAN_other

record 'd can_api =
  ca_others :: "'d can_shared \<Rightarrow> 'd can_shared"
  ca_write :: "device_frame \<Rightarrow> 'd \<Rightarrow> esp_code \<times> 'd"
  ca_getStatus :: "'d \<Rightarrow> (esp_code \<times> can_state) \<times> 'd"
  ca_recover :: "'d \<Rightarrow> esp_code \<times> 'd"
  ca_now :: "'d \<Rightarrow> u64 \<times> 'd"
  ca_ticks :: "'d \<Rightarrow> u32 \<times> 'd"
  ca_recoveryElapsedRaw :: "bool \<Rightarrow> bool \<Rightarrow> 'd \<Rightarrow> u16 \<times> 'd"
  ca_send_recovery :: "recovery_control \<Rightarrow> 'd \<Rightarrow> bool \<times> 'd"
  ca_send_recovery_status :: "recovery_status_message \<Rightarrow> 'd \<Rightarrow> bool \<times> 'd"
  ca_send_command :: "generic_command_request \<Rightarrow> 'd \<Rightarrow> bool \<times> 'd"
  ca_send_result :: "bool \<Rightarrow> command_result \<Rightarrow> 'd \<Rightarrow> bool \<times> 'd"
  ca_send_emergency :: "u8 \<Rightarrow> bool \<Rightarrow> 'd \<Rightarrow> bool \<times> 'd"
  ca_send_event :: "event_request \<Rightarrow> 'd \<Rightarrow> bool \<times> 'd"
  ca_take_result :: "'d \<Rightarrow> command_result option \<times> 'd"
  ca_take_recovery_status :: "'d \<Rightarrow> recovery_status_message option \<times> 'd"
  ca_take_log_data :: "'d \<Rightarrow> recovery_log_data option \<times> 'd"
  ca_peek_status :: "'d \<Rightarrow> runtime_status option \<times> 'd"
  ca_lock_executor :: "'d \<Rightarrow> bool \<times> 'd"
  ca_lock_time :: "'d \<Rightarrow> bool \<times> 'd"

datatype can_event =
    Ca_result command_result | Ca_result_sent command_result
  | Ca_recovery_status recovery_status_message | Ca_recovery_status_sent recovery_status_message
  | Ca_log_data recovery_log_data | Ca_log_data_sent recovery_log_data
  | Ca_event event_request | Ca_overflow u16 u16 | Ca_event_sent mission_event
  | Ca_only bool | Ca_command generic_command_request bool | Ca_telemetry can_id
  | Ca_emergency u8 bool bool

definition event_none :: event_request where
  "event_none = \<lparr>eq_flags = 0, eq_state = MS_command_receive, eq_elapsed_raw = 0, eq_detail = 0\<rparr>"

text \<open>A pending message and its flag are one option.\<close>

record 'd can_task =
  ct_shared :: "'d can_shared"
  ct_sequences :: telemetry_sequences
  ct_last_status :: u32
  ct_last_fast :: u32
  ct_last_control_roll :: u32
  ct_last_lps :: u32
  ct_last_time_request :: u32
  ct_latest :: runtime_status
  ct_pending_event :: event_request
  ct_event_pending :: bool
  ct_event_sequence :: u8
  ct_was_bus_off :: bool
  ct_time_request_id :: u8
  ct_recovery_mode_sequence :: u8
  ct_pending_recovery_status :: "recovery_status_message option"
  ct_pending_log_data :: "recovery_log_data option"
  ct_pending_result :: "command_result option"
  ct_last_status_state :: mission_state
  ct_last_capture_event_sequence :: u8
  ct_last_roll_signature :: u32
  ct_trace :: "can_event list"

type_synonym ('d, 'a) can = "('d can_task, 'a) state"

text \<open>The tick count is read once for each of the five deadlines.\<close>

definition can_task_init :: "u32 \<times> u32 \<times> u32 \<times> u32 \<times> u32 \<Rightarrow> 'd can_shared \<Rightarrow> 'd can_task" where
  "can_task_init = (\<lambda>(last_status, last_fast, last_control_roll, last_lps, last_time_request) shared.
     \<lparr>ct_shared = shared, ct_sequences = sequences_init, ct_last_status = last_status,
     ct_last_fast = last_fast, ct_last_control_roll = last_control_roll, ct_last_lps = last_lps,
     ct_last_time_request = last_time_request,
     ct_latest = runtime_status_init, ct_pending_event = event_none, ct_event_pending = False,
     ct_event_sequence = 0, ct_was_bus_off = False, ct_time_request_id = 1, ct_recovery_mode_sequence = 0,
     ct_pending_recovery_status = None, ct_pending_log_data = None, ct_pending_result = None,
     ct_last_status_state = MS_unknown, ct_last_capture_event_sequence = 0,
     ct_last_roll_signature = controlRollStatusSignature (ru_roll_reference_raw runtime_status_init)
       (ru_roll_deviation_raw runtime_status_init) (ru_control_roll_flags runtime_status_init),
     ct_trace = []\<rparr>)"

section \<open>Access to what is shared\<close>

definition cn_emit :: "can_event \<Rightarrow> ('d, unit) can" where
  "cn_emit e = modify (\<lambda>s. s\<lparr>ct_trace := ct_trace s @ [e]\<rparr>)"

definition cn_store :: "('d can_shared \<Rightarrow> 'd can_shared) \<Rightarrow> ('d, unit) can" where
  "cn_store f = modify (\<lambda>s. s\<lparr>ct_shared := f (ct_shared s)\<rparr>)"

definition cn_load :: "'d can_api \<Rightarrow> ('d can_shared \<Rightarrow> 'a) \<Rightarrow> ('d, 'a) can" where
  "cn_load api f = do { cn_store (ca_others api); gets (\<lambda>s. f (ct_shared s)) }"

definition cn_call :: "('d \<Rightarrow> 'a \<times> 'd) \<Rightarrow> ('d, 'a) can" where
  "cn_call c = do {
     (a, d) \<leftarrow> gets (\<lambda>s. c (cn_device (ct_shared s)));
     cn_store (\<lambda>h. h\<lparr>cn_device := d\<rparr>);
     ret a }"

definition can_only_mode :: "'d can_api \<Rightarrow> ('d, bool) can" where
  "can_only_mode api = do {
     recovery_only \<leftarrow> cn_load api cn_recovery_only_mode;
     cn_emit (Ca_only recovery_only);
     ret recovery_only }"

text \<open>Every value of \<open>data\<close> beyond the length stays zero, as in the initialised frame.\<close>

definition toProtocol :: "device_frame \<Rightarrow> can_frame" where
  "toProtocol f = \<lparr>fr_identifier = ucast (df_identifier f), fr_data_length = df_data_length f,
     fr_data = take (unat (df_data_length f)) (df_data f) @ drop (unat (df_data_length f)) zero8,
     fr_extended = df_extended f, fr_remote = df_remote f\<rparr>"

definition writeFrame :: "'d can_api \<Rightarrow> can_frame \<Rightarrow> ('d, bool) can" where
  "writeFrame api f = do {
     result \<leftarrow> cn_call (ca_write api \<lparr>df_identifier = ucast (fr_identifier f),
       df_data = take (unat (fr_data_length f)) (fr_data f) @ drop (unat (fr_data_length f)) zero8,
       df_data_length = fr_data_length f, df_extended = False, df_remote = False\<rparr>);
     ret (result = EC_ok) }"

definition can_result :: "'d can_api \<Rightarrow> command_result \<Rightarrow> bool \<Rightarrow> ('d, unit) can" where
  "can_result api result priority = do {
     queued \<leftarrow> cn_call (ca_send_result api priority result);
     only_if (\<not> queued) (cn_store (\<lambda>h. h\<lparr>cn_result_queue_overflow := cn_result_queue_overflow h + 1\<rparr>)) }"

definition can_event_request :: "'d can_api \<Rightarrow> u16 \<Rightarrow> mission_state \<Rightarrow> ('d, unit) can" where
  "can_event_request api flags st = do {
     queued \<leftarrow> cn_call (ca_send_event api
       \<lparr>eq_flags = flags, eq_state = st, eq_elapsed_raw = 0, eq_detail = 0\<rparr>);
     only_if (\<not> queued) (do {
       only_if (flags AND parachute_failure_flag \<noteq> 0) (cn_store (\<lambda>h. h\<lparr>cn_failure_overflow_detail := 0\<rparr>));
       cn_store (\<lambda>h. h\<lparr>cn_event_overflow_latch := cn_event_overflow_latch h OR flags\<rparr>) }) }"

section \<open>The frames received\<close>

text \<open>\<open>latchPhysicalEmergency\<close>: the queue, or the latch when it is full. A latch that already holds a
  transaction counts the one it loses.\<close>

definition latchPhysicalEmergency :: "'d can_api \<Rightarrow> u8 \<Rightarrow> bool \<Rightarrow> ('d, unit) can" where
  "latchPhysicalEmergency api tx liftoff = do {
     queued \<leftarrow> cn_call (ca_send_emergency api tx liftoff);
     cn_emit (Ca_emergency tx liftoff queued);
     only_if (\<not> queued) (
       if liftoff
       then do {
         (lost, latch) \<leftarrow> cn_load api (\<lambda>h. latch_signal tx (cn_liftoff_emergency_latch h));
         cn_store (\<lambda>h. h\<lparr>cn_liftoff_emergency_latch := latch\<rparr>);
         only_if lost (cn_store (\<lambda>h. h\<lparr>cn_emergency_metadata_overflow := cn_emergency_metadata_overflow h + 1\<rparr>)) }
       else do {
         (lost, latch) \<leftarrow> cn_load api (\<lambda>h. latch_signal tx (cn_actuator_emergency_latch h));
         cn_store (\<lambda>h. h\<lparr>cn_actuator_emergency_latch := latch\<rparr>);
         only_if lost (cn_store (\<lambda>h. h\<lparr>cn_emergency_metadata_overflow := cn_emergency_metadata_overflow h + 1\<rparr>)) }) }"

definition on_recovery_control :: "'d can_api \<Rightarrow> can_frame \<Rightarrow> ('d, unit) can" where
  "on_recovery_control api f = (case decode_RecoveryControl f of
     Inl _ \<Rightarrow> ret ()
   | Inr control \<Rightarrow> do {
       queued \<leftarrow> cn_call (ca_send_recovery api control);
       only_if (\<not> queued) (do {
         _ \<leftarrow> cn_call (ca_send_recovery_status api \<lparr>rsm_opcode = rc_opcode control,
           rsm_transfer_id = rc_transfer_id control, rsm_status = SC_busy, rsm_source = rc_source control,
           rsm_total_size = 0\<rparr>);
         ret () }) })"

definition on_command :: "'d can_api \<Rightarrow> can_frame \<Rightarrow> ('d, unit) can" where
  "on_command api f = (case decode_GenericCommandRequest f of
     Inl _ \<Rightarrow> ret ()
   | Inr request \<Rightarrow> do {
       recovery_only \<leftarrow> can_only_mode api;
       if recovery_only then can_result api (resultFor request CP_rejected CR_invalid_state 0) False
       else do {
         queued \<leftarrow> cn_call (ca_send_command api request);
         cn_emit (Ca_command request queued);
         only_if (\<not> queued) (can_result api (resultFor request CP_rejected CR_busy 0) False) } })"

text \<open>Only transaction 0 is answered here; it is refused by the executor.\<close>

definition on_actuator_emergency :: "'d can_api \<Rightarrow> can_frame \<Rightarrow> ('d, unit) can" where
  "on_actuator_emergency api f = (case decode_EmergencyStop Id_actuator_emergency_stop f of
     Inl _ \<Rightarrow> ret ()
   | Inr emergency \<Rightarrow> let tx = es_transaction_id emergency in
       if tx \<noteq> 0 then latchPhysicalEmergency api tx False
       else do {
         locked \<leftarrow> cn_call (ca_lock_executor api);
         result \<leftarrow> (if locked
           then do {
             (decision, ex) \<leftarrow> cn_load api (\<lambda>h. actuatorEmergency tx MS_unknown (fst (cn_executor h)));
             cn_store (\<lambda>h. h\<lparr>cn_executor := (ex, snd (cn_executor h))\<rparr>);
             ret (ed_result decision) }
           else ret \<lparr>res_transaction_id = tx, res_command = 0xF0, res_phase = CP_rejected,
             res_reason = CR_busy, res_detail = 0\<rparr>);
         can_result api result True })"

definition on_liftoff_emergency :: "'d can_api \<Rightarrow> can_frame \<Rightarrow> ('d, unit) can" where
  "on_liftoff_emergency api f = (case decode_EmergencyStop Id_liftoff_detection_emergency_stop f of
     Inl _ \<Rightarrow> ret ()
   | Inr emergency \<Rightarrow> let tx = es_transaction_id emergency in
       if tx \<noteq> 0 then latchPhysicalEmergency api tx True
       else can_result api (liftoffEmergencyResult tx False) True)"

definition on_time_response :: "'d can_api \<Rightarrow> can_frame \<Rightarrow> ('d, unit) can" where
  "on_time_response api f = (case decode_TimeResponse f of
     Inl _ \<Rightarrow> ret ()
   | Inr response \<Rightarrow>
       only_if (trs_source response \<noteq> TS_invalid \<and> trs_unix_seconds response \<noteq> 0 \<and>
           trs_milliseconds response < 1000) (do {
         locked \<leftarrow> cn_call (ca_lock_time api);
         only_if locked (do {
           now \<leftarrow> cn_call (ca_now api);
           cn_store (\<lambda>h. h\<lparr>cn_time_state := \<lparr>tm_source = trs_source response,
             tm_unix_seconds = trs_unix_seconds response, tm_milliseconds = trs_milliseconds response,
             tm_received_monotonic_us = now, tm_request_id = trs_request_id response, tm_valid = True\<rparr>\<rparr>) }) }))"

definition on_frame :: "'d can_api \<Rightarrow> device_frame \<Rightarrow> ('d, unit) can" where
  "on_frame api received =
     (let input = toProtocol received; i = fr_identifier input in
      if i = can_id_code Id_recovery_control then on_recovery_control api input
      else if i = can_id_code Id_generic_command_request then on_command api input
      else if i = can_id_code Id_actuator_emergency_stop then on_actuator_emergency api input
      else if i = can_id_code Id_liftoff_detection_emergency_stop then on_liftoff_emergency api input
      else if i = can_id_code Id_time_response then on_time_response api input
      else ret ())"

section \<open>The messages of the other tasks\<close>

text \<open>A message is taken from its queue only when none is pending, and stays pending until it is sent. The
  three queues of outgoing messages are served by the same statements, on their own variables: \<open>get\<close> and
  \<open>put\<close> read and write the pending message.\<close>

definition send_from ::
    "('d can_task \<Rightarrow> 'm option) \<Rightarrow> ('m option \<Rightarrow> 'd can_task \<Rightarrow> 'd can_task) \<Rightarrow> ('m \<Rightarrow> can_event) \<Rightarrow>
     ('m \<Rightarrow> can_event) \<Rightarrow> ('d \<Rightarrow> 'm option \<times> 'd) \<Rightarrow> ('m \<Rightarrow> can_frame) \<Rightarrow> 'd can_api \<Rightarrow> ('d, unit) can" where
  "send_from get put took sent_it take_one encode api = do {
     pending \<leftarrow> gets get;
     only_if (pending = None) (do {
       taken \<leftarrow> cn_call take_one;
       (case taken of None \<Rightarrow> ret ()
        | Some m \<Rightarrow> do { cn_emit (took m); modify (put (Some m)) }) });
     pending \<leftarrow> gets get;
     (case pending of None \<Rightarrow> ret ()
      | Some m \<Rightarrow> do {
          sent \<leftarrow> writeFrame api (encode m);
          only_if sent (do { cn_emit (sent_it m); modify (put None) }) }) }"

definition send_results :: "'d can_api \<Rightarrow> ('d, unit) can" where
  "send_results api = send_from ct_pending_result (\<lambda>v s. s\<lparr>ct_pending_result := v\<rparr>)
     Ca_result Ca_result_sent (ca_take_result api) encode_CommandResult api"

definition send_recovery_status :: "'d can_api \<Rightarrow> ('d, unit) can" where
  "send_recovery_status api = send_from ct_pending_recovery_status (\<lambda>v s. s\<lparr>ct_pending_recovery_status := v\<rparr>)
     Ca_recovery_status Ca_recovery_status_sent (ca_take_recovery_status api) encode_RecoveryStatusMessage api"

definition send_log_data :: "'d can_api \<Rightarrow> ('d, unit) can" where
  "send_log_data api = send_from ct_pending_log_data (\<lambda>v s. s\<lparr>ct_pending_log_data := v\<rparr>)
     Ca_log_data Ca_log_data_sent (ca_take_log_data api) encode_RecoveryLogData api"

definition send_recovery_mode :: "'d can_api \<Rightarrow> ('d, unit) can" where
  "send_recovery_mode api = do {
     pending \<leftarrow> cn_load api cn_mode_command_pending;
     only_if pending (do {
       reason \<leftarrow> cn_load api cn_recovery_mode_reason;
       sequence \<leftarrow> gets ct_recovery_mode_sequence;
       sent \<leftarrow> writeFrame api (encode_RecoveryModeCommand \<lparr>rmc_sequence = sequence,
         rmc_mode = RM_enter_recovery_beacon, rmc_reason = recovery_mode_reason_cast reason\<rparr>);
       only_if sent (do {
         modify (\<lambda>s. s\<lparr>ct_recovery_mode_sequence := sequence + 1\<rparr>);
         cn_store (\<lambda>h. h\<lparr>cn_mode_command_pending := False, cn_mode_command_sent := True\<rparr>) }) }) }"

text \<open>Events are merged; the detail of a parachute failure is kept against later events.\<close>

definition merge_event :: "event_request \<Rightarrow> event_request \<Rightarrow> event_request" where
  "merge_event pending event =
     \<lparr>eq_flags = eq_flags pending OR eq_flags event, eq_state = eq_state event,
       eq_elapsed_raw = eq_elapsed_raw event,
       eq_detail = (if eq_flags pending AND parachute_failure_flag = 0 \<or>
           eq_flags event AND parachute_failure_flag \<noteq> 0 then eq_detail event else eq_detail pending)\<rparr>"

definition take_event :: "event_request \<Rightarrow> ('d, unit) can" where
  "take_event event = do {
     cn_emit (Ca_event event);
     modify (\<lambda>s. s\<lparr>ct_pending_event := merge_event (ct_pending_event s) event, ct_event_pending := True\<rparr>) }"

definition take_overflow :: "'d can_api \<Rightarrow> ('d, unit) can" where
  "take_overflow api = do {
     overflow_flags \<leftarrow> cn_load api cn_event_overflow_latch;
     cn_store (\<lambda>h. h\<lparr>cn_event_overflow_latch := 0\<rparr>);
     only_if (overflow_flags \<noteq> 0) (do {
       pending \<leftarrow> gets ct_pending_event;
       detail \<leftarrow> (if overflow_flags AND parachute_failure_flag \<noteq> 0
         then do {
           detail \<leftarrow> cn_load api cn_failure_overflow_detail;
           cn_store (\<lambda>h. h\<lparr>cn_failure_overflow_detail := 0\<rparr>);
           ret detail }
         else ret (eq_detail pending));
       cn_emit (Ca_overflow overflow_flags detail);
       modify (\<lambda>s. s\<lparr>ct_pending_event := pending\<lparr>eq_flags := eq_flags pending OR overflow_flags,
         eq_detail := detail\<rparr>, ct_event_pending := True\<rparr>) }) }"

definition send_event :: "'d can_api \<Rightarrow> ('d, unit) can" where
  "send_event api = do {
     event_pending \<leftarrow> gets ct_event_pending;
     only_if event_pending (do {
       event \<leftarrow> gets (\<lambda>s. \<lparr>mev_sequence = ct_event_sequence s, mev_flags = eq_flags (ct_pending_event s),
         mev_state = eq_state (ct_pending_event s), mev_elapsed_raw = eq_elapsed_raw (ct_pending_event s),
         mev_detail = eq_detail (ct_pending_event s)\<rparr>);
       sent \<leftarrow> writeFrame api (encode_MissionEvent event);
       only_if sent (do {
         cn_emit (Ca_event_sent event);
         modify (\<lambda>s. s\<lparr>ct_event_sequence := ct_event_sequence s + 1, ct_pending_event := event_none,
           ct_event_pending := False\<rparr>) }) }) }"

section \<open>Telemetry\<close>

text \<open>\<open>CONFIG_FREERTOS_HZ\<close> is 1000 in \<open>sdkconfig.defaults\<close>.\<close>

definition pdMS_TO_TICKS :: "u32 \<Rightarrow> u32" where
  "pdMS_TO_TICKS ms = ms * 1000 div 1000"

definition can_recovery_flag :: u16 where "can_recovery_flag = push_bit 11 1"

definition seconds_of_us :: "u64 \<Rightarrow> dbl" where
  "seconds_of_us us = ddiv (dint (uint us)) (lit 1000000)"

definition next_sequence :: "can_id \<Rightarrow> ('d, u8) can" where
  "next_sequence i = do {
     (n, cs) \<leftarrow> gets (\<lambda>s. sequences_next i (ct_sequences s));
     modify (\<lambda>s. s\<lparr>ct_sequences := cs\<rparr>);
     ret n }"

text \<open>The result of a telemetry frame is not looked at.\<close>

definition telemetry_frame :: "'d can_api \<Rightarrow> can_id \<Rightarrow> (u8 \<Rightarrow> can_frame) \<Rightarrow> ('d, unit) can" where
  "telemetry_frame api i f = do {
     n \<leftarrow> next_sequence i;
     cn_emit (Ca_telemetry i);
     _ \<leftarrow> writeFrame api (f n);
     ret () }"

definition send_time_request :: "'d can_api \<Rightarrow> u32 \<Rightarrow> bool \<Rightarrow> ('d, unit) can" where
  "send_time_request api now recovery_only = do {
     locked \<leftarrow> cn_call (ca_lock_time api);
     time_valid \<leftarrow> (if locked then cn_load api (\<lambda>h. tm_valid (cn_time_state h)) else ret False);
     last_request \<leftarrow> gets ct_last_time_request;
     only_if (\<not> recovery_only \<and> \<not> time_valid \<and> now - last_request \<ge> pdMS_TO_TICKS 1000) (do {
       modify (\<lambda>s. s\<lparr>ct_last_time_request := now\<rparr>);
       request_id \<leftarrow> gets ct_time_request_id;
       sent \<leftarrow> writeFrame api (encode_TimeRequest \<lparr>trq_request_id = request_id\<rparr>);
       only_if sent (modify (\<lambda>s. s\<lparr>ct_time_request_id :=
         (if request_id + 1 = 0 then 1 else request_id + 1)\<rparr>)) }) }"

definition send_fast :: "'d can_api \<Rightarrow> u32 \<Rightarrow> bool \<Rightarrow> ('d, unit) can" where
  "send_fast api now recovery_only = do {
     last_fast \<leftarrow> gets ct_last_fast;
     latest \<leftarrow> gets ct_latest;
     only_if (\<not> recovery_only \<and> now - last_fast \<ge> pdMS_TO_TICKS 10) (do {
       modify (\<lambda>s. s\<lparr>ct_last_fast := now\<rparr>);
       telemetry_frame api Id_kinematics_telemetry (\<lambda>n. encode_KinematicsTelemetry
         \<lparr>kin_sequence = n, kin_roll_raw = ru_roll_raw latest, kin_roll_rate_raw = ru_roll_rate_raw latest,
           kin_fin_angle_raw = ru_fin_angle_raw latest, kin_fin_rate_raw = ru_fin_rate_raw latest\<rparr>);
       only_if (ru_state latest \<noteq> MS_command_receive \<and> ru_state latest \<noteq> MS_descent)
         (telemetry_frame api Id_control_telemetry (\<lambda>n. encode_ControlTelemetry
           \<lparr>ctl_sequence = n, ctl_requested_torque_raw = ru_requested_torque_raw latest,
             ctl_flight_elapsed_raw =
               encodeFlightElapsed (seconds_of_us (ru_flight_elapsed_us latest)) TME_unavailable\<rparr>));
       only_if (ru_state latest = MS_descent) (do {
         failure \<leftarrow> cn_load api (\<lambda>h. ucast (cn_deployment_failure h AND 0x0F));
         n \<leftarrow> next_sequence Id_descent_core_telemetry;
         angle \<leftarrow> cn_load api cn_parachute_angle_raw;
         cn_emit (Ca_telemetry Id_descent_core_telemetry);
         _ \<leftarrow> writeFrame api (encode_DescentCoreTelemetry
           \<lparr>dsc_sequence = n, dsc_descent_status = failure, dsc_parachute_angle_raw = angle\<rparr>);
         ret () });
       only_if (\<not> ru_deployment_power_cutoff latest)
         (telemetry_frame api Id_airspeed_telemetry (\<lambda>n. encode_AirspeedTelemetry
           \<lparr>asp_sequence = n, asp_airspeed_raw = ru_airspeed_raw latest\<rparr>)) }) }"

definition send_lps :: "'d can_api \<Rightarrow> u32 \<Rightarrow> bool \<Rightarrow> ('d, unit) can" where
  "send_lps api now recovery_only = do {
     last_lps \<leftarrow> gets ct_last_lps;
     latest \<leftarrow> gets ct_latest;
     only_if (\<not> recovery_only \<and> now - last_lps \<ge> pdMS_TO_TICKS 40) (do {
       modify (\<lambda>s. s\<lparr>ct_last_lps := now\<rparr>);
       only_if (\<not> ru_deployment_power_cutoff latest)
         (telemetry_frame api Id_lps_telemetry (\<lambda>n. encode_LpsTelemetry
           \<lparr>lps_sequence = n, lps_pressure_raw = ru_lps_pressure_raw latest,
             lps_temperature_raw = ru_lps_temperature_raw latest\<rparr>)) }) }"

definition roll_signature :: "runtime_status \<Rightarrow> u32" where
  "roll_signature latest = controlRollStatusSignature (ru_roll_reference_raw latest)
     (ru_roll_deviation_raw latest) (ru_control_roll_flags latest)"

definition send_control_roll :: "'d can_api \<Rightarrow> u32 \<Rightarrow> bool \<Rightarrow> ('d, unit) can" where
  "send_control_roll api now recovery_only = do {
     latest \<leftarrow> gets ct_latest;
     new_capture \<leftarrow> gets (\<lambda>s. ru_capture_event_sequence latest \<noteq> ct_last_capture_event_sequence s);
     changed \<leftarrow> gets (\<lambda>s. roll_signature latest \<noteq> ct_last_roll_signature s);
     last_roll \<leftarrow> gets ct_last_control_roll;
     only_if (\<not> recovery_only \<and> (new_capture \<or> changed \<or> now - last_roll \<ge> pdMS_TO_TICKS 100)) (do {
       modify (\<lambda>s. s\<lparr>ct_last_control_roll := now\<rparr>);
       flags \<leftarrow> ret (if new_capture
         then ru_control_roll_flags latest OR crt_reference_captured_since_previous_frame
         else ru_control_roll_flags latest);
       n \<leftarrow> next_sequence Id_control_roll_telemetry_v2;
       cn_emit (Ca_telemetry Id_control_roll_telemetry_v2);
       sent \<leftarrow> writeFrame api (encode_ControlRollTelemetryV2
         \<lparr>crt_sequence = n, crt_reference_unwrapped_raw = ru_roll_reference_raw latest,
           crt_deviation_unwrapped_raw = ru_roll_deviation_raw latest, crt_flags = flags,
           crt_reference_capture_event_sequence = ru_capture_event_sequence latest\<rparr>);
       only_if sent (modify (\<lambda>s. s\<lparr>ct_last_capture_event_sequence := ru_capture_event_sequence latest,
         ct_last_roll_signature := roll_signature latest\<rparr>)) }) }"

definition persistence_flags_of :: "bool \<Rightarrow> bool \<Rightarrow> u32 \<Rightarrow> u8" where
  "persistence_flags_of ready failed overflow =
     (if ready \<and> \<not> failed then push_bit 3 1 else 0) OR (if overflow \<noteq> 0 then push_bit 7 1 else 0)"

definition send_power_time :: "'d can_api \<Rightarrow> bool \<Rightarrow> ('d, unit) can" where
  "send_power_time api recovery_only = do {
     latest \<leftarrow> gets ct_latest;
     ready \<leftarrow> cn_load api cn_sd_log_ready;
     failed \<leftarrow> cn_load api cn_sd_log_failed;
     overflow \<leftarrow> cn_load api cn_result_queue_overflow;
     n \<leftarrow> next_sequence Id_power_time_telemetry;
     logic \<leftarrow> cn_load api cn_logic_voltage_raw;
     motor \<leftarrow> cn_load api cn_motor_voltage_raw;
     requested \<leftarrow> cn_load api cn_recovery_requested;
     recovery_elapsed \<leftarrow> cn_call (ca_recoveryElapsedRaw api requested recovery_only);
     cn_emit (Ca_telemetry Id_power_time_telemetry);
     _ \<leftarrow> writeFrame api (encode_PowerTimeTelemetry
       \<lparr>pwt_sequence = n, pwt_logic_voltage_raw = logic, pwt_motor_voltage_raw = motor,
         pwt_descent_elapsed_raw =
           (if ru_state latest = MS_engine_burn \<or> ru_state latest = MS_control \<or> ru_state latest = MS_descent
            then encodeDescentElapsed (seconds_of_us (ru_flight_elapsed_us latest)) TME_unavailable
            else 0xFFF0 OR ucast (time_error_code TME_pre_liftoff)),
         pwt_recovery_elapsed_raw = recovery_elapsed,
         pwt_persistence_flags = persistence_flags_of ready failed overflow\<rparr>);
     ret () }"

definition send_status_telemetry :: "'d can_api \<Rightarrow> u32 \<Rightarrow> bool \<Rightarrow> ('d, unit) can" where
  "send_status_telemetry api now recovery_only = do {
     latest \<leftarrow> gets ct_latest;
     due \<leftarrow> gets (\<lambda>s. ru_state latest \<noteq> ct_last_status_state s \<or> now - ct_last_status s \<ge> pdMS_TO_TICKS 100);
     only_if due (do {
       modify (\<lambda>s. s\<lparr>ct_last_status := now, ct_last_status_state := ru_state latest\<rparr>);
       n \<leftarrow> next_sequence Id_mission_status_telemetry;
       angle \<leftarrow> cn_load api cn_parachute_angle_raw;
       cn_emit (Ca_telemetry Id_mission_status_telemetry);
       _ \<leftarrow> writeFrame api (encode_MissionStatusTelemetry
         \<lparr>mst_sequence = n, mst_state = ru_state latest, mst_flight_status = ru_flight_status latest,
           mst_config_flags = ru_config_flags latest, mst_fin_mode = ru_fin_mode latest,
           mst_para_mode = ru_para_mode latest, mst_parachute_angle_raw = angle\<rparr>);
       send_power_time api recovery_only;
       only_if (\<not> recovery_only) (telemetry_frame api Id_attitude_tilt_telemetry (\<lambda>n.
         encode_AttitudeTiltTelemetry \<lparr>att_sequence = n, att_magnitude_raw = 121, att_direction_raw = 511\<rparr>)) }) }"

definition watch_bus :: "'d can_api \<Rightarrow> ('d, unit) can" where
  "watch_bus api = do {
     (result, st) \<leftarrow> cn_call (ca_getStatus api);
     if result = EC_ok
     then do {
       cn_store (\<lambda>h. h\<lparr>cn_can_healthy := st = CAN_running\<rparr>);
       was_bus_off \<leftarrow> gets ct_was_bus_off;
       latest \<leftarrow> gets ct_latest;
       (if st = CAN_bus_off then do { _ \<leftarrow> cn_call (ca_recover api); ret () }
        else only_if was_bus_off (can_event_request api can_recovery_flag (ru_state latest)));
       modify (\<lambda>s. s\<lparr>ct_was_bus_off := st = CAN_bus_off\<rparr>) }
     else cn_store (\<lambda>h. h\<lparr>cn_can_healthy := False\<rparr>) }"

section \<open>The turn\<close>

definition send_telemetry :: "'d can_api \<Rightarrow> ('d, unit) can" where
  "send_telemetry api = do {
     status \<leftarrow> cn_call (ca_peek_status api);
     (case status of None \<Rightarrow> ret () | Some latest \<Rightarrow> modify (\<lambda>s. s\<lparr>ct_latest := latest\<rparr>));
     now \<leftarrow> cn_call (ca_ticks api);
     recovery_only \<leftarrow> can_only_mode api;
     send_time_request api now recovery_only;
     send_fast api now recovery_only;
     send_lps api now recovery_only;
     send_control_roll api now recovery_only;
     send_status_telemetry api now recovery_only }"

definition can_turn :: "'d can_api \<Rightarrow> device_frame list \<times> event_request list \<Rightarrow> ('d, unit) can" where
  "can_turn api input = do {
     each (on_frame api) (fst input);
     send_results api;
     send_recovery_status api;
     send_log_data api;
     send_recovery_mode api;
     each take_event (snd input);
     take_overflow api;
     send_event api;
     send_telemetry api;
     watch_bus api }"

text \<open>\<open>begin_result\<close> is the answer of \<open>can.begin(canConfig())\<close>; without the driver the loop only waits.\<close>

definition can_task_run ::
    "'d can_api \<Rightarrow> esp_code \<Rightarrow> (device_frame list \<times> event_request list) list \<Rightarrow> 'd can_task \<Rightarrow> 'd can_task" where
  "can_task_run api begin_result inputs s = snd (run_state (do {
     cn_store (\<lambda>h. h\<lparr>cn_can_healthy := begin_result = EC_ok\<rparr>);
     only_if (begin_result = EC_ok) (each (can_turn api) inputs) }) s)"

end
