(* ===== verification/Can_Delivery.thy ===== *)
theory Can_Delivery
  imports Can_Task
begin

text \<open>
  What the CAN task does with the messages of the other tasks, read from its trace: results, recovery
  statuses and log data leave in order, each exactly once; events are merged without losing a flag; in a
  recovery boot neither commands nor flight telemetry pass.
\<close>

section \<open>The trace\<close>

definition results_taken :: "can_event list \<Rightarrow> command_result list" where
  "results_taken tr = concat (map (\<lambda>e. case e of Ca_result r \<Rightarrow> [r] | _ \<Rightarrow> []) tr)"
definition results_sent :: "can_event list \<Rightarrow> command_result list" where
  "results_sent tr = concat (map (\<lambda>e. case e of Ca_result_sent r \<Rightarrow> [r] | _ \<Rightarrow> []) tr)"
definition statuses_taken :: "can_event list \<Rightarrow> recovery_status_message list" where
  "statuses_taken tr = concat (map (\<lambda>e. case e of Ca_recovery_status m \<Rightarrow> [m] | _ \<Rightarrow> []) tr)"
definition statuses_sent :: "can_event list \<Rightarrow> recovery_status_message list" where
  "statuses_sent tr = concat (map (\<lambda>e. case e of Ca_recovery_status_sent m \<Rightarrow> [m] | _ \<Rightarrow> []) tr)"
definition log_data_taken :: "can_event list \<Rightarrow> recovery_log_data list" where
  "log_data_taken tr = concat (map (\<lambda>e. case e of Ca_log_data m \<Rightarrow> [m] | _ \<Rightarrow> []) tr)"
definition log_data_sent :: "can_event list \<Rightarrow> recovery_log_data list" where
  "log_data_sent tr = concat (map (\<lambda>e. case e of Ca_log_data_sent m \<Rightarrow> [m] | _ \<Rightarrow> []) tr)"
definition events_sent :: "can_event list \<Rightarrow> mission_event list" where
  "events_sent tr = concat (map (\<lambda>e. case e of Ca_event_sent m \<Rightarrow> [m] | _ \<Rightarrow> []) tr)"
definition only_reads :: "can_event list \<Rightarrow> bool list" where
  "only_reads tr = concat (map (\<lambda>e. case e of Ca_only b \<Rightarrow> [b] | _ \<Rightarrow> []) tr)"

text \<open>The flags taken since the last event was sent, and the detail of the last parachute failure.\<close>

definition flags_step :: "u16 \<Rightarrow> can_event \<Rightarrow> u16" where
  "flags_step w e = (case e of
     Ca_event q \<Rightarrow> w OR eq_flags q | Ca_overflow f _ \<Rightarrow> w OR f | Ca_event_sent _ \<Rightarrow> 0 | _ \<Rightarrow> w)"

definition failure_step :: "u16 option \<Rightarrow> can_event \<Rightarrow> u16 option" where
  "failure_step d e = (case e of
     Ca_event q \<Rightarrow> if eq_flags q AND parachute_failure_flag \<noteq> 0 then Some (eq_detail q) else d
   | Ca_overflow f x \<Rightarrow> if f AND parachute_failure_flag \<noteq> 0 then Some x else d
   | Ca_event_sent _ \<Rightarrow> None | _ \<Rightarrow> d)"

definition open_flags :: "can_event list \<Rightarrow> u16" where "open_flags tr = foldl flags_step 0 tr"
definition open_failure :: "can_event list \<Rightarrow> u16 option" where "open_failure tr = foldl failure_step None tr"

definition delivery_allowed :: "can_event list \<Rightarrow> can_event \<Rightarrow> bool" where
  "delivery_allowed tr e = (case e of
     Ca_result_sent r \<Rightarrow> results_taken tr = results_sent tr @ [r]
   | Ca_recovery_status_sent m \<Rightarrow> statuses_taken tr = statuses_sent tr @ [m]
   | Ca_log_data_sent m \<Rightarrow> log_data_taken tr = log_data_sent tr @ [m]
   | Ca_event_sent m \<Rightarrow> mev_sequence m = of_nat (length (events_sent tr)) \<and> mev_flags m = open_flags tr \<and>
       (case open_failure tr of None \<Rightarrow> True | Some d \<Rightarrow> mev_detail m = d)
   | _ \<Rightarrow> True)"

text \<open>Events outside the delivery.\<close>

definition message_free :: "can_event \<Rightarrow> bool" where
  "message_free e = (case e of
     Ca_only _ \<Rightarrow> True | Ca_command _ _ \<Rightarrow> True | Ca_telemetry _ \<Rightarrow> True | Ca_emergency _ _ _ \<Rightarrow> True | _ \<Rightarrow> False)"

lemma reads_append:
  "results_taken (a @ b) = results_taken a @ results_taken b" "results_sent (a @ b) = results_sent a @ results_sent b"
  "statuses_taken (a @ b) = statuses_taken a @ statuses_taken b" "statuses_sent (a @ b) = statuses_sent a @ statuses_sent b"
  "log_data_taken (a @ b) = log_data_taken a @ log_data_taken b" "log_data_sent (a @ b) = log_data_sent a @ log_data_sent b"
  "events_sent (a @ b) = events_sent a @ events_sent b" "only_reads (a @ b) = only_reads a @ only_reads b"
  by (simp_all add: results_taken_def results_sent_def statuses_taken_def statuses_sent_def log_data_taken_def
      log_data_sent_def events_sent_def only_reads_def)

lemma reads_one [simp]:
  "results_taken (tr @ [e]) = results_taken tr @ (case e of Ca_result r \<Rightarrow> [r] | _ \<Rightarrow> [])"
  "results_sent (tr @ [e]) = results_sent tr @ (case e of Ca_result_sent r \<Rightarrow> [r] | _ \<Rightarrow> [])"
  "statuses_taken (tr @ [e]) = statuses_taken tr @ (case e of Ca_recovery_status m \<Rightarrow> [m] | _ \<Rightarrow> [])"
  "statuses_sent (tr @ [e]) = statuses_sent tr @ (case e of Ca_recovery_status_sent m \<Rightarrow> [m] | _ \<Rightarrow> [])"
  "log_data_taken (tr @ [e]) = log_data_taken tr @ (case e of Ca_log_data m \<Rightarrow> [m] | _ \<Rightarrow> [])"
  "log_data_sent (tr @ [e]) = log_data_sent tr @ (case e of Ca_log_data_sent m \<Rightarrow> [m] | _ \<Rightarrow> [])"
  "events_sent (tr @ [e]) = events_sent tr @ (case e of Ca_event_sent m \<Rightarrow> [m] | _ \<Rightarrow> [])"
  "only_reads (tr @ [e]) = only_reads tr @ (case e of Ca_only b \<Rightarrow> [b] | _ \<Rightarrow> [])"
  "open_flags (tr @ [e]) = flags_step (open_flags tr) e"
  "open_failure (tr @ [e]) = failure_step (open_failure tr) e"
  by (simp_all add: results_taken_def results_sent_def statuses_taken_def statuses_sent_def log_data_taken_def
      log_data_sent_def events_sent_def only_reads_def open_flags_def open_failure_def)

lemma message_free_reads:
  assumes "list_all message_free es"
  shows "results_taken es = []" "results_sent es = []" "statuses_taken es = []" "statuses_sent es = []"
    "log_data_taken es = []" "log_data_sent es = []" "events_sent es = []"
    "foldl flags_step w es = w" "foldl failure_step d es = d"
  using assms by (induction es arbitrary: w d) (auto simp: results_taken_def results_sent_def statuses_taken_def
      statuses_sent_def log_data_taken_def log_data_sent_def events_sent_def flags_step_def failure_step_def
      message_free_def split: can_event.splits)

section \<open>What the operations leave alone\<close>

definition same_messages :: "'d can_task \<Rightarrow> 'd can_task \<Rightarrow> bool" where
  "same_messages s s' = (ct_pending_result s' = ct_pending_result s \<and>
     ct_pending_recovery_status s' = ct_pending_recovery_status s \<and> ct_pending_log_data s' = ct_pending_log_data s \<and>
     ct_pending_event s' = ct_pending_event s \<and> ct_event_pending s' = ct_event_pending s \<and>
     ct_event_sequence s' = ct_event_sequence s)"

definition passes :: "(can_event \<Rightarrow> bool) \<Rightarrow> 'd can_task \<Rightarrow> 'd can_task \<Rightarrow> bool" where
  "passes Q s s' = (same_messages s s' \<and> (\<exists>es. ct_trace s' = ct_trace s @ es \<and> list_all Q es))"

interpretation ps: guarantee "passes Q" for Q
proof
  have "passes Q s s" for s :: "'a can_task" by (auto simp: passes_def same_messages_def)
  moreover have "passes Q a c" if "passes Q a b" "passes Q b c" for a b c :: "'a can_task"
    using that by (fastforce simp: passes_def same_messages_def)
  ultimately show "preorder_rel (passes Q :: 'a can_task \<Rightarrow> _)" unfolding preorder_rel_def by blast
qed

lemma passes_same: "passes Q s s' \<Longrightarrow> same_messages s s'"
  "passes Q s s' \<Longrightarrow> ct_pending_event s' = ct_pending_event s"
  "passes Q s s' \<Longrightarrow> ct_event_sequence s' = ct_event_sequence s"
  by (simp_all add: passes_def same_messages_def)

lemma passes_mono: "guar (passes Q) m \<Longrightarrow> (\<And>e. Q e \<Longrightarrow> R e) \<Longrightarrow> guar (passes R) m"
  by (auto simp: guar_def passes_def list_all_iff) fastforce

lemma passes_emit: "Q e \<Longrightarrow> guar (passes Q) (cn_emit e)"
  unfolding cn_emit_def by (rule ps.modify) (simp add: passes_def same_messages_def)

lemma passes_modify:
  "(\<And>s. ct_trace (f s) = ct_trace s \<and> same_messages s (f s)) \<Longrightarrow> guar (passes Q) (modify f)"
  by (rule ps.modify) (simp add: passes_def)

lemma passes_store: "guar (passes Q) (cn_store f)"
  unfolding cn_store_def by (rule passes_modify) (simp add: same_messages_def)

lemma passes_load: "guar (passes Q) (cn_load api f)"
  unfolding cn_load_def by (intro ps.construct passes_store)

lemma passes_call: "guar (passes Q) (cn_call c)"
  unfolding cn_call_def by (intro ps.construct passes_store)

lemma passes_write: "guar (passes Q) (writeFrame api f)"
  unfolding writeFrame_def by (intro ps.construct passes_call)

lemma passes_result: "guar (passes Q) (can_result api r p)"
  unfolding can_result_def by (intro ps.construct passes_call passes_store)

lemma passes_request: "guar (passes Q) (can_event_request api f st)"
  unfolding can_event_request_def by (intro ps.construct passes_call passes_store)

lemma passes_next: "guar (passes Q) (next_sequence i)"
  unfolding next_sequence_def by (intro ps.construct passes_modify) (simp add: same_messages_def)

lemmas passes_access = passes_store passes_load passes_call passes_write passes_result passes_request passes_next ps.construct

lemma passes_only: "(\<And>b. Q (Ca_only b)) \<Longrightarrow> guar (passes Q) (can_only_mode api)"
  unfolding can_only_mode_def by (intro passes_access passes_emit)

lemma passes_latch: "(\<And>a b c. Q (Ca_emergency a b c)) \<Longrightarrow> guar (passes Q) (latchPhysicalEmergency api tx l)"
  unfolding latchPhysicalEmergency_def by (intro passes_access passes_emit)

lemma passes_frame:
  assumes "\<And>b. Q (Ca_only b)" and "\<And>a b c. Q (Ca_emergency a b c)" and "\<And>r b. Q (Ca_command r b)"
  shows "guar (passes Q) (on_frame api f)"
proof -
  have "guar (passes Q) (on_recovery_control api i)" "guar (passes Q) (on_command api i)"
    "guar (passes Q) (on_actuator_emergency api i)" "guar (passes Q) (on_liftoff_emergency api i)"
    "guar (passes Q) (on_time_response api i)" for i
    unfolding on_recovery_control_def on_command_def on_actuator_emergency_def on_liftoff_emergency_def
      on_time_response_def Let_def
    by (auto intro!: passes_access passes_emit passes_latch passes_only assms split: sum.splits)
  then show ?thesis unfolding on_frame_def Let_def by (intro passes_access)
qed

lemma passes_recovery_mode: "guar (passes Q) (send_recovery_mode api)"
  unfolding send_recovery_mode_def by (intro passes_access passes_modify) (simp add: same_messages_def)

lemma passes_bus: "guar (passes Q) (watch_bus api)"
  unfolding watch_bus_def by (intro passes_access passes_modify) (simp_all add: same_messages_def)

lemma passes_telemetry_frame: "Q (Ca_telemetry i) \<Longrightarrow> guar (passes Q) (telemetry_frame api i f)"
  unfolding telemetry_frame_def by (intro passes_access passes_emit)

text \<open>In a recovery boot only the status and the power telemetry are sent.\<close>

lemma passes_parts:
  assumes Q: "\<And>i. \<not> b \<or> i = Id_mission_status_telemetry \<or> i = Id_power_time_telemetry \<Longrightarrow> Q (Ca_telemetry i)"
  shows "guar (passes Q) (send_time_request api now b)" "guar (passes Q) (send_fast api now b)"
    "guar (passes Q) (send_lps api now b)" "guar (passes Q) (send_control_roll api now b)"
    "guar (passes Q) (send_status_telemetry api now b)"
proof -
  show "guar (passes Q) (send_time_request api now b)" "guar (passes Q) (send_fast api now b)"
    "guar (passes Q) (send_lps api now b)" "guar (passes Q) (send_control_roll api now b)"
    unfolding send_time_request_def send_fast_def send_lps_def send_control_roll_def
    by (intro passes_access passes_modify passes_telemetry_frame passes_emit; simp add: same_messages_def Q)+
  have "guar (passes Q) (send_power_time api b)"
    unfolding send_power_time_def by (intro passes_access passes_emit) (simp add: Q)
  then show "guar (passes Q) (send_status_telemetry api now b)"
    unfolding send_status_telemetry_def
    by (intro passes_access passes_modify passes_telemetry_frame passes_emit; simp add: same_messages_def Q)
qed

definition telemetry_parts :: "'d can_api \<Rightarrow> u32 \<Rightarrow> bool \<Rightarrow> ('d, unit) can" where
  "telemetry_parts api now recovery_only = do {
     send_time_request api now recovery_only;
     send_fast api now recovery_only;
     send_lps api now recovery_only;
     send_control_roll api now recovery_only;
     send_status_telemetry api now recovery_only }"

lemma send_telemetry_parts: "send_telemetry api = do {
     status \<leftarrow> cn_call (ca_peek_status api);
     (case status of None \<Rightarrow> ret () | Some latest \<Rightarrow> modify (\<lambda>s. s\<lparr>ct_latest := latest\<rparr>));
     now \<leftarrow> cn_call (ca_ticks api);
     recovery_only \<leftarrow> can_only_mode api;
     telemetry_parts api now recovery_only }"
  by (simp add: send_telemetry_def telemetry_parts_def)

lemma passes_telemetry:
  assumes "\<And>b. Q (Ca_only b)" and "\<And>i. Q (Ca_telemetry i)"
  shows "guar (passes Q) (send_telemetry api)"
  unfolding send_telemetry_parts telemetry_parts_def
  by (intro passes_access passes_modify passes_only passes_parts assms; simp add: same_messages_def)

section \<open>The invariant\<close>

definition waiting :: "'m option \<Rightarrow> 'm list" where
  "waiting v = (case v of None \<Rightarrow> [] | Some m \<Rightarrow> [m])"

definition event_inv :: "'d can_task \<Rightarrow> bool" where
  "event_inv s = (eq_flags (ct_pending_event s) = open_flags (ct_trace s) \<and>
     (open_failure (ct_trace s) = None) = (open_flags (ct_trace s) AND parachute_failure_flag = 0) \<and>
     (\<forall>d. open_failure (ct_trace s) = Some d \<longrightarrow> eq_detail (ct_pending_event s) = d) \<and>
     ct_event_sequence s = of_nat (length (events_sent (ct_trace s))))"

definition delivery_inv :: "'d can_task \<Rightarrow> bool" where
  "delivery_inv s = (trace_allowed delivery_allowed (ct_trace s) \<and>
     results_taken (ct_trace s) = results_sent (ct_trace s) @ waiting (ct_pending_result s) \<and>
     statuses_taken (ct_trace s) = statuses_sent (ct_trace s) @ waiting (ct_pending_recovery_status s) \<and>
     log_data_taken (ct_trace s) = log_data_sent (ct_trace s) @ waiting (ct_pending_log_data s) \<and> event_inv s)"

lemma passes_delivery: "passes message_free s s' \<Longrightarrow> delivery_inv s \<Longrightarrow> delivery_inv s'"
proof -
  assume p: "passes message_free s s'" and i: "delivery_inv s"
  then obtain es where es: "ct_trace s' = ct_trace s @ es" "list_all message_free es" by (auto simp: passes_def)
  note r = message_free_reads [OF es(2)]
  have "trace_allowed delivery_allowed (ct_trace s')"
    using i unfolding es(1) by (intro trace_allowed_quiet [OF _ es(2)])
      (auto simp: delivery_inv_def message_free_def delivery_allowed_def split: can_event.splits)
  moreover have "open_flags (ct_trace s') = open_flags (ct_trace s)" "open_failure (ct_trace s') = open_failure (ct_trace s)"
    using r(8,9) by (simp_all add: es(1) open_flags_def open_failure_def)
  ultimately show ?thesis
    using i p r(1-7) by (simp add: delivery_inv_def event_inv_def es(1) reads_append passes_def same_messages_def)
qed

lemma keeps_delivery: "guar (passes message_free) m \<Longrightarrow> keeps delivery_inv m"
  by (erule guar_keeps) (simp add: passes_delivery)

section \<open>The three streams\<close>

locale stream =
  fixes get :: "'d can_task \<Rightarrow> 'm option" and put :: "'m option \<Rightarrow> 'd can_task \<Rightarrow> 'd can_task"
    and took sent_it :: "'m \<Rightarrow> can_event"
  assumes same: "passes message_free s s' \<Longrightarrow> get s' = get s"
    and take: "delivery_inv s \<Longrightarrow> get s = None \<Longrightarrow> delivery_inv (put (Some m) (s\<lparr>ct_trace := ct_trace s @ [took m]\<rparr>))"
    and send: "delivery_inv s \<Longrightarrow> get s = Some m \<Longrightarrow> delivery_inv (put None (s\<lparr>ct_trace := ct_trace s @ [sent_it m]\<rparr>))"
begin

definition holds :: "'m option \<Rightarrow> 'd can_task \<Rightarrow> bool" where
  "holds v s = (delivery_inv s \<and> get s = v)"

lemma holds_calm: "guar (passes message_free) m \<Longrightarrow> valid (holds v) m (\<lambda>_. holds v)"
  by (erule guar_valid) (simp add: holds_def passes_delivery same)

lemma stream_sends: "keeps delivery_inv (send_from get put took sent_it take_one encode api)"
proof -
  have taken: "valid (holds None) (case v of None \<Rightarrow> ret ()
        | Some m \<Rightarrow> do { cn_emit (took m); modify (put (Some m)) }) (\<lambda>_. delivery_inv)" for v
    by (cases v) (auto simp: valid_def cn_emit_def holds_def take)
  have sent: "valid (holds (Some m)) (only_if b (do { cn_emit (sent_it m); modify (put None) })) (\<lambda>_. delivery_inv)" for m b
    by (rule valid_only_if) (auto simp: valid_def cn_emit_def holds_def send)
  have fetched: "valid (\<lambda>s. delivery_inv s \<and> get s = pending) (only_if (pending = None) (do {
       taken \<leftarrow> cn_call take_one;
       (case taken of None \<Rightarrow> ret () | Some m \<Rightarrow> do { cn_emit (took m); modify (put (Some m)) }) })) (\<lambda>_. delivery_inv)"
    for pending
    by (intro valid_only_if valid_bind [where R = "\<lambda>_. holds None", OF _ taken]
          valid_strengthen [OF holds_calm [OF passes_call]]) (auto simp: holds_def)
  have written: "valid (\<lambda>s. delivery_inv s \<and> get s = Some m) (do {
       sent \<leftarrow> writeFrame api (encode m);
       only_if sent (do { cn_emit (sent_it m); modify (put None) }) }) (\<lambda>_. delivery_inv)" for m
    by (intro valid_bind [where R = "\<lambda>_. holds (Some m)", OF _ sent] valid_strengthen [OF holds_calm [OF passes_write]])
       (auto simp: holds_def)
  have "valid (\<lambda>s. delivery_inv s \<and> get s = pending) (case pending of None \<Rightarrow> ret ()
      | Some m \<Rightarrow> do {
          sent \<leftarrow> writeFrame api (encode m);
          only_if sent (do { cn_emit (sent_it m); modify (put None) }) }) (\<lambda>_. delivery_inv)" for pending
    by (cases pending) (auto simp: written intro: valid_ret)
  then have delivered: "valid delivery_inv (do {
       pending \<leftarrow> gets get;
       (case pending of None \<Rightarrow> ret ()
        | Some m \<Rightarrow> do {
            sent \<leftarrow> writeFrame api (encode m);
            only_if sent (do { cn_emit (sent_it m); modify (put None) }) }) }) (\<lambda>_. delivery_inv)"
    by (rule valid_gets_bind)
  show ?thesis unfolding send_from_def keeps_valid
    by (rule valid_gets_bind, rule valid_bind [OF fetched delivered])
qed

end

text \<open>An event of one stream leaves the other invariants alone.\<close>

lemma event_inv_stream:
  assumes "event_inv s" and "ct_trace s' = ct_trace s @ [e]" and "ct_pending_event s' = ct_pending_event s"
    and "ct_event_sequence s' = ct_event_sequence s"
    and "case e of Ca_event _ \<Rightarrow> False | Ca_overflow _ _ \<Rightarrow> False | Ca_event_sent _ \<Rightarrow> False | _ \<Rightarrow> True"
  shows "event_inv s'"
  using assms by (auto simp: event_inv_def flags_step_def failure_step_def split: can_event.splits)

interpretation results: stream ct_pending_result "\<lambda>v s. s\<lparr>ct_pending_result := v\<rparr>" Ca_result Ca_result_sent
  by unfold_locales (auto simp: passes_def same_messages_def delivery_inv_def delivery_allowed_def waiting_def
      elim: event_inv_stream)

interpretation statuses: stream ct_pending_recovery_status "\<lambda>v s. s\<lparr>ct_pending_recovery_status := v\<rparr>"
  Ca_recovery_status Ca_recovery_status_sent
  by unfold_locales (auto simp: passes_def same_messages_def delivery_inv_def delivery_allowed_def waiting_def
      elim: event_inv_stream)

interpretation log_data: stream ct_pending_log_data "\<lambda>v s. s\<lparr>ct_pending_log_data := v\<rparr>" Ca_log_data Ca_log_data_sent
  by unfold_locales (auto simp: passes_def same_messages_def delivery_inv_def delivery_allowed_def waiting_def
      elim: event_inv_stream)

section \<open>The events\<close>

lemma or_failure: "((a OR b) AND parachute_failure_flag = 0) =
    (a AND parachute_failure_flag = 0 \<and> b AND parachute_failure_flag = 0)" for a b :: u16
  by (simp add: bit_eq_iff bit_simps) blast

lemma keeps_take_event: "keeps delivery_inv (take_event q)"
  by (auto simp: take_event_def cn_emit_def keeps_def delivery_inv_def event_inv_def delivery_allowed_def
      flags_step_def failure_step_def merge_event_def or_failure)

text \<open>What \<open>take_overflow\<close> does to the state, once it has read the latch.\<close>

lemma overflow_taken:
  assumes "delivery_inv s" and "p = ct_pending_event s"
    and "f AND parachute_failure_flag = 0 \<Longrightarrow> d = eq_detail p"
  shows "delivery_inv (s\<lparr>ct_trace := ct_trace s @ [Ca_overflow f d],
    ct_pending_event := p\<lparr>eq_flags := eq_flags p OR f, eq_detail := d\<rparr>, ct_event_pending := True\<rparr>)"
  using assms by (auto simp: delivery_inv_def event_inv_def delivery_allowed_def flags_step_def failure_step_def or_failure)

definition pends :: "event_request \<Rightarrow> 'd can_task \<Rightarrow> bool" where
  "pends p s = (delivery_inv s \<and> ct_pending_event s = p)"

lemma pends_calm: "guar (passes message_free) m \<Longrightarrow> valid (pends p) m (\<lambda>_. pends p)"
  by (erule guar_valid) (simp add: pends_def passes_delivery passes_same)

lemma keeps_overflow: "keeps delivery_inv (take_overflow api)"
proof -
  have detail: "valid (pends p) (if f AND parachute_failure_flag \<noteq> 0
         then do {
           detail \<leftarrow> cn_load api cn_failure_overflow_detail;
           cn_store (\<lambda>h. h\<lparr>cn_failure_overflow_detail := 0\<rparr>);
           ret detail }
         else ret (eq_detail p))
      (\<lambda>d s. pends p s \<and> (f AND parachute_failure_flag = 0 \<longrightarrow> d = eq_detail p))" for f :: u16 and p
  proof (rule valid_if)
    assume f: "f AND parachute_failure_flag \<noteq> 0"
    have "valid (pends p) (do {
           detail \<leftarrow> cn_load api cn_failure_overflow_detail;
           cn_store (\<lambda>h. h\<lparr>cn_failure_overflow_detail := 0\<rparr>);
           ret detail }) (\<lambda>_. pends p)"
      by (intro pends_calm passes_access)
    then show "valid (pends p) (do {
           detail \<leftarrow> cn_load api cn_failure_overflow_detail;
           cn_store (\<lambda>h. h\<lparr>cn_failure_overflow_detail := 0\<rparr>);
           ret detail }) (\<lambda>d s. pends p s \<and> (f AND parachute_failure_flag = 0 \<longrightarrow> d = eq_detail p))"
      by (rule valid_weaken) (simp add: f)
  qed (simp add: valid_def)
  have taken: "valid (\<lambda>s. pends p s \<and> (f AND parachute_failure_flag = 0 \<longrightarrow> d = eq_detail p))
      (do {
        cn_emit (Ca_overflow f d);
        modify (\<lambda>s. s\<lparr>ct_pending_event := p\<lparr>eq_flags := eq_flags p OR f, eq_detail := d\<rparr>,
          ct_event_pending := True\<rparr>) }) (\<lambda>_. delivery_inv)" for f :: u16 and p d
    by (auto simp: valid_def cn_emit_def pends_def overflow_taken)
  show ?thesis unfolding take_overflow_def
  proof (rule keeps_bind [OF keeps_delivery [OF passes_load] keeps_bind [OF keeps_delivery [OF passes_store]
        keeps_only_if]], unfold keeps_valid, rule valid_gets_bind, goal_cases)
    case (1 f u p)
    show ?case by (rule valid_strengthen [OF valid_bind [OF detail taken]]) (simp add: pends_def)
  qed
qed

lemma keeps_send_event: "keeps delivery_inv (send_event api)"
proof -
  have sent: "delivery_inv (s\<lparr>ct_trace := ct_trace s @ [Ca_event_sent m], ct_event_sequence := ct_event_sequence s + 1,
      ct_pending_event := event_none, ct_event_pending := False\<rparr>)"
    if "delivery_inv s" "m = \<lparr>mev_sequence = ct_event_sequence s, mev_flags = eq_flags (ct_pending_event s),
         mev_state = eq_state (ct_pending_event s), mev_elapsed_raw = eq_elapsed_raw (ct_pending_event s),
         mev_detail = eq_detail (ct_pending_event s)\<rparr>" for s :: "'a can_task" and m
    using that by (auto simp: delivery_inv_def event_inv_def delivery_allowed_def flags_step_def failure_step_def
        event_none_def split: option.splits)
  have "valid (\<lambda>s. delivery_inv s \<and> \<lparr>mev_sequence = ct_event_sequence s, mev_flags = eq_flags (ct_pending_event s),
         mev_state = eq_state (ct_pending_event s), mev_elapsed_raw = eq_elapsed_raw (ct_pending_event s),
         mev_detail = eq_detail (ct_pending_event s)\<rparr> = m) (do {
       sent \<leftarrow> writeFrame api (encode_MissionEvent m);
       only_if sent (do {
         cn_emit (Ca_event_sent m);
         modify (\<lambda>s. s\<lparr>ct_event_sequence := ct_event_sequence s + 1, ct_pending_event := event_none,
           ct_event_pending := False\<rparr>) }) }) (\<lambda>_. delivery_inv)" (is "valid ?P _ _") for m
  proof (rule valid_bind [where R = "\<lambda>_. ?P"])
    show "valid ?P (writeFrame api (encode_MissionEvent m)) (\<lambda>_. ?P)"
      by (rule guar_valid [OF passes_write [of message_free]])
         (auto simp: passes_delivery passes_same)
    show "valid ?P (only_if b (do {
         cn_emit (Ca_event_sent m);
         modify (\<lambda>s. s\<lparr>ct_event_sequence := ct_event_sequence s + 1, ct_pending_event := event_none,
           ct_event_pending := False\<rparr>) })) (\<lambda>_. delivery_inv)" for b
      by (rule valid_only_if) (auto simp: valid_def cn_emit_def sent)
  qed
  note written = this
  show ?thesis unfolding send_event_def
    by (rule keeps_bind [OF keeps_gets keeps_only_if], unfold keeps_valid, rule valid_gets_bind, rule written)
qed

section \<open>The run\<close>

lemma keeps_can_turn: "keeps delivery_inv (can_turn api input)"
  unfolding can_turn_def send_results_def send_recovery_status_def send_log_data_def
  by (intro keeps_bind keeps_each results.stream_sends statuses.stream_sends log_data.stream_sends keeps_take_event keeps_overflow
        keeps_send_event keeps_delivery passes_frame passes_recovery_mode passes_telemetry passes_bus)
     (simp_all add: message_free_def)

text \<open>C25: The CAN task delivers what the other tasks hand to it. Results, recovery statuses and log data
  leave in the order in which they were taken, each exactly once however often the driver refuses a
  frame; every mission event sent carries exactly the flags taken since the one before, under
  consecutive numbers, with the detail of the last parachute failure among them.\<close>

theorem can_delivers:
  "trace_allowed delivery_allowed (ct_trace (can_task_run api began inputs (can_task_init ticks shared)))"
proof -
  have "keeps delivery_inv (do {
     cn_store (\<lambda>h. h\<lparr>cn_can_healthy := began = EC_ok\<rparr>);
     only_if (began = EC_ok) (each (can_turn api) inputs) })"
    by (intro keeps_bind keeps_only_if keeps_each keeps_can_turn keeps_delivery passes_store)
  moreover have "delivery_inv (can_task_init ticks shared)"
    by (simp add: delivery_inv_def event_inv_def can_task_init_def split_beta waiting_def event_none_def
        results_taken_def results_sent_def statuses_taken_def statuses_sent_def log_data_taken_def
        log_data_sent_def events_sent_def open_flags_def open_failure_def)
  ultimately show ?thesis by (simp add: keeps_def can_task_run_def delivery_inv_def)
qed

section \<open>A recovery boot\<close>

text \<open>Commands are passed on, and flight telemetry is sent, only when the mode was last read as flight.\<close>

definition gate_allowed :: "can_event list \<Rightarrow> can_event \<Rightarrow> bool" where
  "gate_allowed tr e = (case e of
     Ca_command _ _ \<Rightarrow> only_reads tr \<noteq> [] \<and> \<not> last (only_reads tr)
   | Ca_telemetry i \<Rightarrow> only_reads tr \<noteq> [] \<and>
       (\<not> last (only_reads tr) \<or> i = Id_mission_status_telemetry \<or> i = Id_power_time_telemetry)
   | _ \<Rightarrow> True)"

definition appends :: "(can_event \<Rightarrow> bool) \<Rightarrow> 'd can_task \<Rightarrow> 'd can_task \<Rightarrow> bool" where
  "appends Q s s' = (\<exists>es. ct_trace s' = ct_trace s @ es \<and> list_all Q es)"

interpretation ap: guarantee "appends Q" for Q
proof
  have "appends Q s s" for s :: "'a can_task" by (simp add: appends_def)
  moreover have "appends Q a c" if "appends Q a b" "appends Q b c" for a b c :: "'a can_task"
    using that by (fastforce simp: appends_def)
  ultimately show "preorder_rel (appends Q :: 'a can_task \<Rightarrow> _)" unfolding preorder_rel_def by blast
qed

lemma appends_passes: "guar (passes Q) m \<Longrightarrow> guar (appends Q) m"
  by (simp add: guar_def passes_def appends_def)

lemma appends_emit: "Q e \<Longrightarrow> guar (appends Q) (cn_emit e)"
  by (rule appends_passes [OF passes_emit])

lemma appends_modify: "(\<And>s. ct_trace (f s) = ct_trace s) \<Longrightarrow> guar (appends Q) (modify f)"
  by (rule ap.modify) (simp add: appends_def)

lemmas appends_access = appends_passes [OF passes_store] appends_passes [OF passes_load]
  appends_passes [OF passes_call] appends_passes [OF passes_write] appends_emit ap.construct

definition ungated :: "can_event \<Rightarrow> bool" where
  "ungated e = (case e of Ca_command _ _ \<Rightarrow> False | Ca_telemetry _ \<Rightarrow> False | _ \<Rightarrow> True)"

lemma appends_send:
  assumes "\<And>v s. ct_trace (put v s) = ct_trace s" and "\<And>m. Q (took m)" and "\<And>m. Q (sent_it m)"
  shows "guar (appends Q) (send_from get put took sent_it take_one encode api)"
  unfolding send_from_def by (intro appends_access appends_modify assms)

lemma appends_messages:
  "guar (appends ungated) (send_results api)" "guar (appends ungated) (send_recovery_status api)"
  "guar (appends ungated) (send_log_data api)" "guar (appends ungated) (take_event q)"
  "guar (appends ungated) (take_overflow api)" "guar (appends ungated) (send_event api)"
  unfolding send_results_def send_recovery_status_def send_log_data_def take_event_def take_overflow_def send_event_def
  by (intro appends_access appends_send appends_modify; simp add: ungated_def)+

definition gate_inv :: "'d can_task \<Rightarrow> bool" where
  "gate_inv s = trace_allowed gate_allowed (ct_trace s)"

definition mode_read :: "bool \<Rightarrow> 'd can_task \<Rightarrow> bool" where
  "mode_read b s = (gate_inv s \<and> only_reads (ct_trace s) \<noteq> [] \<and> last (only_reads (ct_trace s)) = b)"

lemma keeps_ungated: "guar (appends ungated) m \<Longrightarrow> keeps gate_inv m"
proof (erule guar_keeps)
  fix s s' :: "'a can_task" assume "gate_inv s" "appends ungated s s'"
  then show "gate_inv s'" unfolding gate_inv_def appends_def
    by (auto intro!: trace_allowed_quiet simp: ungated_def gate_allowed_def split: can_event.splits)
qed

lemma valid_mode: "valid gate_inv (can_only_mode api) mode_read"
  by (auto simp: valid_def can_only_mode_def cn_load_def cn_store_def cn_emit_def gate_inv_def mode_read_def gate_allowed_def)

lemma mode_read_access:
  "valid (mode_read b) (cn_call c) (\<lambda>_. mode_read b)" "valid (mode_read b) (can_result api r p) (\<lambda>_. mode_read b)"
  by (rule guar_valid [OF passes_call [where Q = "\<lambda>_. False"]] guar_valid [OF passes_result [where Q = "\<lambda>_. False"]],
      auto simp: passes_def mode_read_def gate_inv_def list_all_iff)+

lemma gate_command: "keeps gate_inv (on_command api f)"
proof -
  have passed: "valid (mode_read False) (do {
         queued \<leftarrow> cn_call (ca_send_command api request);
         cn_emit (Ca_command request queued);
         only_if (\<not> queued) (can_result api r False) }) (\<lambda>_. mode_read False)" for request r
  proof (rule valid_bind [OF mode_read_access(1)], rule valid_bind [where R = "\<lambda>_. mode_read False"])
    show "valid (mode_read False) (cn_emit (Ca_command request q) :: ('a, unit) can) (\<lambda>_. mode_read False)" for q
      by (auto simp: valid_def cn_emit_def mode_read_def gate_inv_def gate_allowed_def)
    show "valid (mode_read False) (only_if b (can_result api r False)) (\<lambda>_. mode_read False)" for b
      by (rule valid_only_if) (simp_all add: mode_read_access)
  qed
  have "valid (mode_read b) (if b then can_result api (resultFor request CP_rejected CR_invalid_state 0) False else do {
         queued \<leftarrow> cn_call (ca_send_command api request);
         cn_emit (Ca_command request queued);
         only_if (\<not> queued) (can_result api (resultFor request CP_rejected CR_busy 0) False) }) (\<lambda>_. gate_inv)"
    for b request
    by (cases b; simp only: if_True if_False;
        rule valid_weaken [OF mode_read_access(2)] valid_weaken [OF passed], simp add: mode_read_def)
  then show ?thesis unfolding on_command_def keeps_valid
    by (auto split: sum.splits intro: valid_ret valid_bind [OF valid_mode])
qed

lemma gate_frame: "keeps gate_inv (on_frame api f)"
proof -
  have "guar (appends ungated) (on_recovery_control api i)" "guar (appends ungated) (on_actuator_emergency api i)"
    "guar (appends ungated) (on_liftoff_emergency api i)" "guar (appends ungated) (on_time_response api i)" for i
    unfolding on_recovery_control_def on_actuator_emergency_def on_liftoff_emergency_def on_time_response_def Let_def
    by (auto intro!: appends_access appends_passes [OF passes_latch] appends_passes [OF passes_result]
        simp: ungated_def split: sum.splits)
  then show ?thesis unfolding on_frame_def Let_def
    by (intro keeps_if keeps_ret gate_command keeps_ungated)
qed

definition tele :: "bool \<Rightarrow> can_event \<Rightarrow> bool" where
  "tele b e = (case e of
     Ca_telemetry i \<Rightarrow> \<not> b \<or> i = Id_mission_status_telemetry \<or> i = Id_power_time_telemetry | _ \<Rightarrow> False)"

lemma tele_mode:
  assumes "mode_read b s" and "appends (tele b) s s'"
  shows "mode_read b s'"
proof -
  have "trace_allowed gate_allowed (ct_trace s @ es) \<and> only_reads (ct_trace s @ es) = only_reads (ct_trace s)"
    if "list_all (tele b) es" for es
    using that
  proof (induction es rule: rev_induct)
    case (snoc e es)
    then show ?case using assms(1)
      by (auto simp: tele_def mode_read_def gate_allowed_def append_assoc [symmetric] simp del: append_assoc
          split: can_event.splits)
  qed (use assms(1) in \<open>simp add: mode_read_def gate_inv_def\<close>)
  with assms show ?thesis by (auto simp: appends_def mode_read_def gate_inv_def)
qed

lemma gate_telemetry: "keeps gate_inv (send_telemetry api)"
proof -
  have parts: "valid (mode_read b) (telemetry_parts api now b) (\<lambda>_. gate_inv)" for now b
  proof (rule guar_valid)
    show "guar (appends (tele b)) (telemetry_parts api now b)"
      unfolding telemetry_parts_def by (intro appends_passes ps.construct passes_parts) (auto simp: tele_def)
    show "gate_inv s'" if "mode_read b s" "appends (tele b) s s'" for s s' :: "'a can_task"
      using tele_mode [OF that] by (simp add: mode_read_def)
  qed
  have latest: "keeps gate_inv (case v of None \<Rightarrow> ret () | Some latest \<Rightarrow> modify (\<lambda>s. s\<lparr>ct_latest := latest\<rparr>))" for v
    by (intro keeps_rules) (simp add: gate_inv_def)
  show ?thesis unfolding send_telemetry_parts
    by (rule keeps_bind [OF keeps_ungated [OF appends_passes [OF passes_call]] keeps_bind [OF latest
          keeps_bind [OF keeps_ungated [OF appends_passes [OF passes_call]]]]],
        unfold keeps_valid, rule valid_bind [OF valid_mode parts])
qed

lemma gate_turn: "keeps gate_inv (can_turn api input)"
  unfolding can_turn_def
  by (intro keeps_bind keeps_each gate_frame gate_telemetry keeps_ungated appends_messages
        appends_passes [OF passes_recovery_mode] appends_passes [OF passes_bus])

text \<open>A recovery boot is isolated from flight: the CAN task passes a command on, and sends any telemetry
  besides the status and the power of the board, only when it last read the mode as not recovery-only.\<close>

theorem recovery_boot_isolated:
  "trace_allowed gate_allowed (ct_trace (can_task_run api began inputs (can_task_init ticks shared)))"
proof -
  have "keeps gate_inv (do {
     cn_store (\<lambda>h. h\<lparr>cn_can_healthy := began = EC_ok\<rparr>);
     only_if (began = EC_ok) (each (can_turn api) inputs) })"
    by (intro keeps_bind keeps_only_if keeps_each gate_turn keeps_ungated appends_passes [OF passes_store])
  moreover have "gate_inv (can_task_init ticks shared)"
    by (simp add: gate_inv_def can_task_init_def split_beta)
  ultimately show ?thesis by (simp add: keeps_def can_task_run_def gate_inv_def)
qed

end
