(* ===== verification/Motor_Driver.thy ===== *)
theory Motor_Driver
  imports Control_Pipeline Flight_Storage Quantization State_Guarantees
begin

text \<open>
  \<open>actuators/production_motor.{hpp,cpp}\<close>: the PWM driver of the fin motor's half bridges, in the state
  monad over the object and the board. The LEDC peripheral and \<open>safe_outputs\<close> are an API over the
  external state \<open>'d\<close>; \<open>le_characterization\<close> says which of the two builds it is. \<open>md_calls\<close> is a history
  variable: the calls on the outputs in their order.
\<close>

section \<open>State\<close>

datatype motor_channel = In1 | In2

fun other_channel :: "motor_channel \<Rightarrow> motor_channel" where
  "other_channel In1 = In2"
| "other_channel In2 = In1"

record 'd ledc_api =
  le_safe_outputs_initialized :: "'d \<Rightarrow> bool"
  le_timer_config :: "'d \<Rightarrow> esp_code \<times> 'd"
  le_channel_config :: "motor_channel \<Rightarrow> 'd \<Rightarrow> esp_code \<times> 'd"
  le_set_duty :: "motor_channel \<Rightarrow> u32 \<Rightarrow> 'd \<Rightarrow> esp_code \<times> 'd"
  le_update_duty :: "motor_channel \<Rightarrow> 'd \<Rightarrow> esp_code \<times> 'd"
  le_stop :: "motor_channel \<Rightarrow> 'd \<Rightarrow> esp_code \<times> 'd"
  le_motorCoast :: "'d \<Rightarrow> esp_code \<times> 'd"
  le_characterization :: bool

datatype motor_call = Mc_set motor_channel u32 | Mc_update motor_channel | Mc_stop motor_channel | Mc_coast

record 'd motor_driver =
  md_board :: 'd
  md_initialized :: bool
  md_timer_configured :: bool
  md_in1_configured :: bool
  md_in2_configured :: bool
  md_coast_known :: bool
  md_calls :: "motor_call list"

type_synonym ('d, 'a) drv = "('d motor_driver, 'a) state"

definition kMaximumDutyCount :: u32 where "kMaximumDutyCount = push_bit 10 1 - 1"

definition kProductionMotorMaximumDuty :: "bool \<Rightarrow> dbl" where
  "kProductionMotorMaximumDuty characterization = (if characterization then rnd 0.35 else Fin 1)"

definition rememberFirst :: "esp_code \<Rightarrow> esp_code \<Rightarrow> esp_code" where
  "rememberFirst next_error first = (if first = EC_ok \<and> next_error \<noteq> EC_ok then next_error else first)"

section \<open>Operations\<close>

definition md_access :: "('d \<Rightarrow> esp_code \<times> 'd) \<Rightarrow> ('d, esp_code) drv" where
  "md_access c = do {
     (result, d) \<leftarrow> gets (\<lambda>s. c (md_board s));
     modify (\<lambda>s. s\<lparr>md_board := d\<rparr>);
     ret result }"

definition md_output :: "motor_call \<Rightarrow> ('d \<Rightarrow> esp_code \<times> 'd) \<Rightarrow> ('d, esp_code) drv" where
  "md_output e c = do {
     modify (\<lambda>s. s\<lparr>md_calls := md_calls s @ [e]\<rparr>);
     md_access c }"

text \<open>\<open>if (result == ESP_OK) result = ...\<close>\<close>

definition then_output :: "esp_code \<Rightarrow> motor_call \<Rightarrow> ('d \<Rightarrow> esp_code \<times> 'd) \<Rightarrow> ('d, esp_code) drv" where
  "then_output result e c = (if result = EC_ok then md_output e c else ret result)"

definition driver_coast :: "'d ledc_api \<Rightarrow> ('d, esp_code) drv" where
  "driver_coast api = do {
     known \<leftarrow> gets (\<lambda>s. md_initialized s \<and> md_coast_known s);
     if le_characterization api \<and> known then ret EC_ok
     else do {
       in1 \<leftarrow> gets (\<lambda>s. md_timer_configured s \<and> md_in1_configured s);
       first \<leftarrow> (if in1 then md_output (Mc_stop In1) (le_stop api In1) else ret EC_ok);
       in2 \<leftarrow> gets (\<lambda>s. md_timer_configured s \<and> md_in2_configured s);
       second \<leftarrow> (if in2 then md_output (Mc_stop In2) (le_stop api In2) else ret EC_ok);
       third \<leftarrow> md_output Mc_coast (le_motorCoast api);
       result \<leftarrow> ret (rememberFirst third (rememberFirst second (rememberFirst first EC_ok)));
       modify (\<lambda>s. s\<lparr>md_coast_known := result = EC_ok\<rparr>);
       ret result } }"

text \<open>The end of \<open>setChannelDuty\<close> and \<open>brake\<close>.\<close>

definition driven_or_coast :: "'d ledc_api \<Rightarrow> esp_code \<Rightarrow> ('d, esp_code) drv" where
  "driven_or_coast api result =
     (if result = EC_ok then do { modify (\<lambda>s. s\<lparr>md_coast_known := False\<rparr>); ret result }
      else do { fallback \<leftarrow> driver_coast api; ret (rememberFirst fallback result) })"

definition duty_count :: "(dbl \<Rightarrow> int) \<Rightarrow> dbl \<Rightarrow> u32" where
  "duty_count ovf duty = word_of_int (lround ovf (dmul (dclamp duty (Fin 0) (Fin 1)) (dint (uint kMaximumDutyCount))))"

definition setChannelDuty :: "(dbl \<Rightarrow> int) \<Rightarrow> 'd ledc_api \<Rightarrow> bool \<Rightarrow> dbl \<Rightarrow> ('d, esp_code) drv" where
  "setChannelDuty ovf api positive_in1 duty = do {
     active \<leftarrow> ret (if positive_in1 then In1 else In2);
     inactive \<leftarrow> ret (other_channel active);
     result \<leftarrow> md_output (Mc_set inactive 0) (le_set_duty api inactive 0);
     result \<leftarrow> then_output result (Mc_update inactive) (le_update_duty api inactive);
     result \<leftarrow> then_output result (Mc_set active (duty_count ovf duty)) (le_set_duty api active (duty_count ovf duty));
     result \<leftarrow> then_output result (Mc_update active) (le_update_duty api active);
     driven_or_coast api result }"

definition command_refused :: "motor_command \<Rightarrow> bool" where
  "command_refused c = (\<not> mc_valid c \<or> mc_brake c \<or> \<not> isfinite (mc_pwm_duty c) \<or>
     dless (mc_pwm_duty c) (Fin 0) \<or> dless (Fin 1) (mc_pwm_duty c))"

definition driver_apply :: "(dbl \<Rightarrow> int) \<Rightarrow> 'd ledc_api \<Rightarrow> motor_command \<Rightarrow> ('d, esp_code) drv" where
  "driver_apply ovf api c = do {
     initialized \<leftarrow> gets md_initialized;
     if \<not> initialized \<or> command_refused c then do {
       fallback \<leftarrow> driver_coast api;
       ret (if fallback = EC_ok then EC_invalid_arg else fallback) }
     else do {
       limit \<leftarrow> ret (kProductionMotorMaximumDuty (le_characterization api));
       setChannelDuty ovf api (mc_positive_in1 c) (if dless limit (mc_pwm_duty c) then limit else mc_pwm_duty c) } }"

definition driver_brake :: "'d ledc_api \<Rightarrow> ('d, esp_code) drv" where
  "driver_brake api = do {
     initialized \<leftarrow> gets md_initialized;
     if \<not> initialized then ret EC_invalid_state
     else do {
       result \<leftarrow> md_output (Mc_set In1 kMaximumDutyCount) (le_set_duty api In1 kMaximumDutyCount);
       result \<leftarrow> then_output result (Mc_update In1) (le_update_duty api In1);
       result \<leftarrow> then_output result (Mc_set In2 kMaximumDutyCount) (le_set_duty api In2 kMaximumDutyCount);
       result \<leftarrow> then_output result (Mc_update In2) (le_update_duty api In2);
       driven_or_coast api result } }"

definition configure_channel :: "'d ledc_api \<Rightarrow> motor_channel \<Rightarrow> ('d, esp_code) drv" where
  "configure_channel api channel = do {
     result \<leftarrow> md_access (le_channel_config api channel);
     if result \<noteq> EC_ok then do { _ \<leftarrow> driver_coast api; ret result }
     else do {
       modify (\<lambda>s. if channel = In1 then s\<lparr>md_in1_configured := True\<rparr> else s\<lparr>md_in2_configured := True\<rparr>);
       ret EC_ok } }"

definition driver_initialize :: "'d ledc_api \<Rightarrow> ('d, esp_code) drv" where
  "driver_initialize api = do {
     initialized \<leftarrow> gets md_initialized;
     safe \<leftarrow> gets (\<lambda>s. le_safe_outputs_initialized api (md_board s));
     if initialized then ret EC_ok
     else if \<not> safe then ret EC_invalid_state
     else do {
       modify (\<lambda>s. s\<lparr>md_coast_known := False\<rparr>);
       result \<leftarrow> md_access (le_timer_config api);
       if result \<noteq> EC_ok then do { _ \<leftarrow> driver_coast api; ret result }
       else do {
         modify (\<lambda>s. s\<lparr>md_timer_configured := True\<rparr>);
         result \<leftarrow> configure_channel api In1;
         if result \<noteq> EC_ok then ret result
         else do {
           result \<leftarrow> configure_channel api In2;
           if result \<noteq> EC_ok then ret result
           else do {
             modify (\<lambda>s. s\<lparr>md_initialized := True\<rparr>);
             result \<leftarrow> driver_coast api;
             only_if (result \<noteq> EC_ok) (modify (\<lambda>s. s\<lparr>md_initialized := False\<rparr>));
             ret result } } } } }"

section \<open>What one call does to the outputs\<close>

lemma run_output: "run_state (md_output e c) s =
    (case c (md_board s) of (r, d) \<Rightarrow> (r, s\<lparr>md_board := d, md_calls := md_calls s @ [e]\<rparr>))"
  by (simp add: md_output_def md_access_def split: prod.splits)

text \<open>Coasting ends with the two inputs at low level, unless the characterization build knows them to be.\<close>

lemma coast_calls:
  assumes "run_state (driver_coast api) s = (r, s')"
  shows "(\<exists>cs. md_calls s' = md_calls s @ cs @ [Mc_coast] \<and> (\<forall>c \<in> set cs. \<exists>ch. c = Mc_stop ch)) \<or>
    md_coast_known s \<and> le_characterization api \<and> s' = s"
  using assms unfolding driver_coast_def
  by (auto simp: run_output split: if_splits prod.splits)

lemma duty_count_bound:
  assumes "0 \<le> x" and "x \<le> 1"
  shows "duty_count ovf (Fin x) \<le> kMaximumDutyCount"
proof -
  have k: "uint kMaximumDutyCount = 1023" by (simp add: kMaximumDutyCount_def)
  have d: "dint 1023 = Fin 1023" using dint_Fin [of 1023] by simp
  let ?y = "rnd_real (x * 1023)"
  have y: "0 \<le> ?y" "?y \<le> 1023"
    using assms representable_int [of 1023] by (auto intro: rnd_real_le rnd_real_nonneg)
  have "rnd (x * 1023) = Fin ?y" using assms by (intro rnd_finite) (auto simp: abs_mult)
  then have e: "duty_count ovf (Fin x) = word_of_int (lround ovf (Fin ?y))"
    using assms by (simp add: duty_count_def k d dclamp_def)
  have r: "0 \<le> round_away ?y" "round_away ?y \<le> 1023"
    using y round_away_bounds(1) [of 0 ?y] round_away_bounds(2) [of ?y 1023] by simp_all
  then have "lround ovf (Fin ?y) = round_away ?y" by (simp add: fits_long_def)
  then show ?thesis using r unfolding e word_le_def k
    by (simp add: uint_word_of_int take_bit_int_eq_self)
qed

lemma set_calls:
  assumes "run_state (setChannelDuty ovf api positive duty) s = (r, s')" and "\<not> le_characterization api"
  shows "if r = EC_ok then md_calls s' = md_calls s @ [Mc_set (other_channel (if positive then In1 else In2)) 0,
      Mc_update (other_channel (if positive then In1 else In2)),
      Mc_set (if positive then In1 else In2) (duty_count ovf duty), Mc_update (if positive then In1 else In2)]
    else \<exists>cs. md_calls s' = md_calls s @ cs @ [Mc_coast]"
  using assms unfolding setChannelDuty_def then_output_def driven_or_coast_def rememberFirst_def
  by (auto simp: run_output split: if_splits prod.splits dest!: coast_calls)

text \<open>The motor driver never drives both half bridges. A drive command that succeeds was valid, and it
  set the inactive half bridge to 0 and latched that before it set the active one, to at most the full
  count; whatever fails - the command, the object or any call of the peripheral - the outputs are
  coasted last.\<close>

theorem drive_breaks_before_make:
  assumes "run_state (driver_apply ovf api c) s = (r, s')" and "\<not> le_characterization api"
  shows "if r = EC_ok then md_initialized s \<and> \<not> command_refused c \<and>
      (\<exists>n \<le> kMaximumDutyCount. md_calls s' = md_calls s @
        [Mc_set (other_channel (if mc_positive_in1 c then In1 else In2)) 0,
         Mc_update (other_channel (if mc_positive_in1 c then In1 else In2)),
         Mc_set (if mc_positive_in1 c then In1 else In2) n, Mc_update (if mc_positive_in1 c then In1 else In2)])
    else \<exists>cs. md_calls s' = md_calls s @ cs @ [Mc_coast]"
proof (cases "\<not> md_initialized s \<or> command_refused c")
  case True
  obtain f s1 where c: "run_state (driver_coast api) s = (f, s1)" by fastforce
  then have "s' = s1" "r \<noteq> EC_ok" using assms(1) True by (auto simp: driver_apply_def split: if_splits)
  then show ?thesis using coast_calls [OF c] assms(2) by auto
next
  case False
  then obtain x where x: "mc_pwm_duty c = Fin x" "0 \<le> x" "x \<le> 1"
    by (cases "mc_pwm_duty c") (auto simp: command_refused_def)
  then have "run_state (setChannelDuty ovf api (mc_positive_in1 c) (Fin x)) s = (r, s')"
    using assms False by (simp add: driver_apply_def kProductionMotorMaximumDuty_def)
  from set_calls [OF this assms(2)] show ?thesis
    using duty_count_bound [OF x(2,3), of ovf] False by auto
qed

text \<open>A peripheral that accepts every call.\<close>

definition obedient_ledc :: "unit ledc_api" where
  "obedient_ledc = \<lparr>le_safe_outputs_initialized = (\<lambda>_. True), le_timer_config = (\<lambda>d. (EC_ok, d)),
     le_channel_config = (\<lambda>_ d. (EC_ok, d)), le_set_duty = (\<lambda>_ _ d. (EC_ok, d)),
     le_update_duty = (\<lambda>_ d. (EC_ok, d)), le_stop = (\<lambda>_ d. (EC_ok, d)), le_motorCoast = (\<lambda>d. (EC_ok, d)),
     le_characterization = False\<rparr>"

definition ready_driver :: "unit motor_driver" where
  "ready_driver = \<lparr>md_board = (), md_initialized = True, md_timer_configured = True, md_in1_configured = True,
     md_in2_configured = True, md_coast_known = True, md_calls = []\<rparr>"

definition full_drive :: motor_command where
  "full_drive = motor_command_init\<lparr>mc_pwm_duty := Fin 1, mc_positive_in1 := True, mc_brake := False, mc_valid := True\<rparr>"

lemma drive_breaks_before_make_witness:
  "\<exists>n \<le> kMaximumDutyCount. md_calls (snd (run_state (driver_apply (\<lambda>_. 0) obedient_ledc full_drive) ready_driver)) =
      [Mc_set In2 0, Mc_update In2, Mc_set In1 n, Mc_update In1]"
proof -
  note d = obedient_ledc_def ready_driver_def full_drive_def motor_command_init_def
  obtain r s where a: "run_state (driver_apply (\<lambda>_. 0) obedient_ledc full_drive) ready_driver = (r, s)" by fastforce
  then have "r = EC_ok"
    by (auto simp: driver_apply_def command_refused_def setChannelDuty_def then_output_def driven_or_coast_def
        run_output d)
  then show ?thesis using drive_breaks_before_make [OF a] a by (simp add: d)
qed

end
