(* ===== verification/Attitude_Estimator.thy ===== *)
theory Attitude_Estimator
  imports Quantization
begin

text \<open>
  \<open>sensors/attitude_estimator.{hpp,cpp}\<close>: the history of gyro samples and the roll angle integrated from
  them since liftoff. The ring buffer keeps the last 1,200 samples in their order; \<open>beginFlight\<close>, which
  replays the history, is the same as having integrated the samples one by one; and an estimate that is
  valid rests on an unbroken sequence of samples.
\<close>

section \<open>The history\<close>

record gyro_sample =
  gy_timestamp_us :: u64
  gy_roll_rate_rad_s :: dbl
  gy_timestamp_epoch :: u32
  gy_lost_packets :: u16
  gy_valid :: bool
  gy_saturated :: bool
  gy_fifo_full :: bool
  gy_format_fault :: bool

record gyro_ring =
  gr_samples :: "gyro_sample list"
  gr_head :: nat
  gr_count :: nat

definition gyro_sample_none :: gyro_sample where
  "gyro_sample_none = \<lparr>gy_timestamp_us = 0, gy_roll_rate_rad_s = Fin 0, gy_timestamp_epoch = 0,
     gy_lost_packets = 0, gy_valid = False, gy_saturated = False, gy_fifo_full = False, gy_format_fault = False\<rparr>"

definition kGyroCapacity :: nat where "kGyroCapacity = 1200"

definition gyro_ring_init :: gyro_ring where
  "gyro_ring_init = \<lparr>gr_samples = replicate kGyroCapacity gyro_sample_none, gr_head = 0, gr_count = 0\<rparr>"

definition gyro_push :: "gyro_sample \<Rightarrow> gyro_ring \<Rightarrow> gyro_ring" where
  "gyro_push x r = (let n = length (gr_samples r) in
     r\<lparr>gr_samples := (gr_samples r)[gr_head r := x], gr_head := (gr_head r + 1) mod n,
       gr_count := (if gr_count r < n then gr_count r + 1 else gr_count r)\<rparr>)"

definition gyro_clear :: "gyro_ring \<Rightarrow> gyro_ring" where
  "gyro_clear r = gyro_ring_init"

definition gyro_at :: "gyro_ring \<Rightarrow> nat \<Rightarrow> gyro_sample" where
  "gyro_at r chronological_index =
     (let n = length (gr_samples r);
          oldest = (if gr_count r = n then gr_head r else (gr_head r + n - gr_count r) mod n) in
      gr_samples r ! ((oldest + chronological_index) mod n))"

text \<open>What a loop over \<open>size()\<close> and \<open>at\<close> reads.\<close>

definition gyro_list :: "gyro_ring \<Rightarrow> gyro_sample list" where
  "gyro_list r = map (gyro_at r) [0..<gr_count r]"

section \<open>The estimator\<close>

datatype attitude_invalid_reason =
    AI_none | AI_history_unavailable | AI_sample_invalid | AI_saturated | AI_fifo_format_fault
  | AI_excess_data_loss | AI_timestamp_invalid | AI_timestamp_epoch_changed | AI_numeric_error
  | AI_reset_invalidated

record attitude_state =
  ae_roll_estimate_rad :: dbl
  ae_roll_rate_rad_s :: dbl
  ae_timestamp_us :: u64
  ae_interpolated_sample_count :: u32
  ae_data_loss_event_count :: u32
  ae_fifo_full_event_count :: u32
  ae_invalid_reason :: attitude_invalid_reason
  ae_valid :: bool

record attitude_estimator =
  ea_state :: attitude_state
  ea_bias_rad_s :: dbl
  ea_previous_rate_rad_s :: dbl
  ea_previous_timestamp_us :: u64
  ea_timestamp_epoch :: u32
  ea_seeded :: bool

definition attitude_state_init :: attitude_state where
  "attitude_state_init = \<lparr>ae_roll_estimate_rad = Fin 0, ae_roll_rate_rad_s = Fin 0, ae_timestamp_us = 0,
     ae_interpolated_sample_count = 0, ae_data_loss_event_count = 0, ae_fifo_full_event_count = 0,
     ae_invalid_reason = AI_history_unavailable, ae_valid = False\<rparr>"

definition attitude_init :: attitude_estimator where
  "attitude_init = \<lparr>ea_state = attitude_state_init, ea_bias_rad_s = Fin 0, ea_previous_rate_rad_s = Fin 0,
     ea_previous_timestamp_us = 0, ea_timestamp_epoch = 0, ea_seeded = False\<rparr>"

definition kNominalSampleUs :: u64 where "kNominalSampleUs = 1000"
definition kTimestampToleranceUs :: u64 where "kTimestampToleranceUs = 250"

definition nearPeriod :: "u64 \<Rightarrow> u64 \<Rightarrow> bool" where
  "nearPeriod delta_us periods = (let expected = periods * kNominalSampleUs in
     expected - kTimestampToleranceUs \<le> delta_us \<and> delta_us \<le> expected + kTimestampToleranceUs)"

definition state_update :: "(attitude_state \<Rightarrow> attitude_state) \<Rightarrow> attitude_estimator \<Rightarrow> attitude_estimator" where
  "state_update f a = a\<lparr>ea_state := f (ea_state a)\<rparr>"

definition attitude_invalidate :: "attitude_invalid_reason \<Rightarrow> attitude_estimator \<Rightarrow> attitude_estimator" where
  "attitude_invalidate reason = state_update (\<lambda>t. t\<lparr>ae_valid := False, ae_invalid_reason := reason\<rparr>)"

definition invalidateForReset :: "attitude_estimator \<Rightarrow> attitude_estimator" where
  "invalidateForReset = attitude_invalidate AI_reset_invalidated"

text \<open>The checks that need no timestamp difference.\<close>

definition sample_refusal :: "gyro_sample \<Rightarrow> attitude_estimator \<Rightarrow> attitude_invalid_reason option" where
  "sample_refusal x a =
     (if gy_format_fault x then Some AI_fifo_format_fault
      else if \<not> gy_valid x \<or> \<not> isfinite (gy_roll_rate_rad_s x) then Some AI_sample_invalid
      else if gy_saturated x then Some AI_saturated
      else if gy_timestamp_epoch x \<noteq> ea_timestamp_epoch a then Some AI_timestamp_epoch_changed
      else if gy_timestamp_us x \<le> ea_previous_timestamp_us a then Some AI_timestamp_invalid
      else None)"

definition attitude_accept :: "gyro_sample \<Rightarrow> attitude_estimator \<Rightarrow> bool \<times> attitude_estimator" where
  "attitude_accept x a =
     (let a = (if gy_fifo_full x
               then state_update (\<lambda>t. t\<lparr>ae_fifo_full_event_count := ae_fifo_full_event_count t + 1\<rparr>) a else a) in
      case sample_refusal x a of Some reason \<Rightarrow> (False, attitude_invalidate reason a)
      | None \<Rightarrow> let delta_us = gy_timestamp_us x - ea_previous_timestamp_us a;
          rate = dsub (gy_roll_rate_rad_s x) (ea_bias_rad_s a);
          integrate = (\<lambda>increment a. if \<not> isfinite increment then (False, attitude_invalidate AI_numeric_error a)
            else (True, (state_update (\<lambda>t. t\<lparr>ae_roll_estimate_rad := dadd (ae_roll_estimate_rad t) increment,
                ae_roll_rate_rad_s := rate, ae_timestamp_us := gy_timestamp_us x\<rparr>) a)
              \<lparr>ea_previous_timestamp_us := gy_timestamp_us x, ea_previous_rate_rad_s := rate\<rparr>)) in
        if nearPeriod delta_us 1 \<and> gy_lost_packets x = 0
        then integrate (dmul (dmul (dmul (lit 0.5) (dadd (ea_previous_rate_rad_s a) rate))
          (dint (uint delta_us))) (lit 0.000001)) a
        else if nearPeriod delta_us 2 \<and> gy_lost_packets x \<le> 1
        then integrate (dmul (dadd (ea_previous_rate_rad_s a) rate) (lit 0.001))
          (state_update (\<lambda>t. t\<lparr>ae_interpolated_sample_count := ae_interpolated_sample_count t + 1,
             ae_data_loss_event_count := ae_data_loss_event_count t + 1\<rparr>) a)
        else let a = (if gy_lost_packets x \<noteq> 0
            then state_update (\<lambda>t. t\<lparr>ae_data_loss_event_count := ae_data_loss_event_count t + 1\<rparr>) a else a) in
          (False, attitude_invalidate
            (if gy_lost_packets x > 1 then AI_excess_data_loss else AI_timestamp_invalid) a))"

definition attitude_update :: "gyro_sample \<Rightarrow> attitude_estimator \<Rightarrow> bool \<times> attitude_estimator" where
  "attitude_update x a =
     (if \<not> ae_valid (ea_state a) \<or> \<not> ea_seeded a then (False, a) else attitude_accept x a)"

text \<open>The last usable sample at or before liftoff.\<close>

definition gyro_usable :: "gyro_sample \<Rightarrow> bool" where
  "gyro_usable x = (gy_valid x \<and> \<not> gy_saturated x \<and> \<not> gy_format_fault x)"

definition gyro_seed :: "u64 \<Rightarrow> gyro_sample list \<Rightarrow> gyro_sample option" where
  "gyro_seed liftoff_time_us xs =
     fold (\<lambda>x seed. if gy_timestamp_us x \<le> liftoff_time_us \<and> gyro_usable x then Some x else seed) xs None"

text \<open>The loop over the history: it returns at the first sample that is refused.\<close>

fun replay :: "u64 \<Rightarrow> gyro_sample list \<Rightarrow> attitude_estimator \<Rightarrow> bool \<times> attitude_estimator" where
  "replay liftoff_time_us [] a = (ae_valid (ea_state a), a)"
| "replay liftoff_time_us (x # xs) a =
     (if gy_timestamp_us x \<le> liftoff_time_us then replay liftoff_time_us xs a
      else case attitude_accept x a of (accepted, a) \<Rightarrow>
        if accepted then replay liftoff_time_us xs a else (False, a))"

definition seeded_estimator :: "gyro_sample \<Rightarrow> u64 \<Rightarrow> dbl \<Rightarrow> attitude_estimator" where
  "seeded_estimator seed liftoff_time_us bias =
     \<lparr>ea_state = attitude_state_init\<lparr>ae_valid := True, ae_invalid_reason := AI_none,
        ae_timestamp_us := liftoff_time_us\<rparr>,
      ea_bias_rad_s = bias, ea_previous_rate_rad_s = dsub (gy_roll_rate_rad_s seed) bias,
      ea_previous_timestamp_us = liftoff_time_us, ea_timestamp_epoch = gy_timestamp_epoch seed, ea_seeded = True\<rparr>"

definition beginFlight :: "gyro_sample list \<Rightarrow> u64 \<Rightarrow> dbl \<Rightarrow> attitude_estimator \<Rightarrow> bool \<times> attitude_estimator" where
  "beginFlight history liftoff_time_us bias a =
     (if \<not> isfinite bias then (False, attitude_invalidate AI_numeric_error attitude_init)
      else case gyro_seed liftoff_time_us history of
        None \<Rightarrow> (False, attitude_invalidate AI_history_unavailable (attitude_init\<lparr>ea_bias_rad_s := bias\<rparr>))
      | Some seed \<Rightarrow> replay liftoff_time_us history (seeded_estimator seed liftoff_time_us bias))"

section \<open>The ring is a window\<close>

definition tail_of :: "nat \<Rightarrow> 'a list \<Rightarrow> 'a list" where
  "tail_of n xs = drop (length xs - n) xs"

definition ring_ok :: "gyro_ring \<Rightarrow> bool" where
  "ring_ok r = (gr_samples r \<noteq> [] \<and> gr_head r < length (gr_samples r) \<and> gr_count r \<le> length (gr_samples r))"

lemma gyro_at_oldest: "ring_ok r \<Longrightarrow> gyro_at r i =
    gr_samples r ! ((gr_head r + length (gr_samples r) - gr_count r + i) mod length (gr_samples r))"
  by (auto simp: gyro_at_def ring_ok_def Let_def mod_add_left_eq)

lemma gyro_push_ok: "ring_ok r \<Longrightarrow> ring_ok (gyro_push x r)"
  by (auto simp: ring_ok_def gyro_push_def Let_def)

lemma ring_index_other:
  assumes "h < n" and "c \<le> n" and "i < c" and "c < n \<or> 0 < i"
  shows "(h + n - c + i) mod n \<noteq> (h :: nat)"
proof (cases "h + i < c")
  case True
  then have "(h + n - c + i) mod n = h + n - c + i" using assms by (intro mod_less) arith
  then show ?thesis using assms True by arith
next
  case False
  then have "h + n - c + i = n + (h + i - c)" using assms by arith
  moreover have "h + i - c < n" using assms by arith
  ultimately have "(h + n - c + i) mod n = h + i - c" by simp
  then show ?thesis using assms False by arith
qed

lemma ring_index_next:
  assumes "h < n" and "c < n"
  shows "((h + 1) mod n + n - Suc c + i) mod n = (h + n - c + i) mod (n :: nat)"
proof (cases "h + 1 = n")
  case True
  then have e: "h + n - c + i = n + (n - Suc c + i)" using assms by arith
  show ?thesis unfolding e using True by (simp del: add_diff_assoc2 diff_Suc_eq_diff_pred)
next
  case False
  then have "(h + 1) mod n = h + 1" using assms by simp
  moreover have "h + 1 + n - Suc c + i = h + n - c + i" using assms by arith
  ultimately show ?thesis by simp
qed

lemma gyro_push_keeps:
  assumes "ring_ok r" and "i < gr_count r" and "gr_count r < length (gr_samples r) \<or> 0 < i"
  shows "gr_samples (gyro_push x r) ! ((gr_head r + length (gr_samples r) - gr_count r + i) mod length (gr_samples r))
    = gyro_at r i"
  using ring_index_other [of "gr_head r" "length (gr_samples r)" "gr_count r" i] assms
  by (simp add: gyro_at_oldest gyro_push_def Let_def ring_ok_def)

lemma gyro_push_new: "ring_ok r \<Longrightarrow> gr_samples (gyro_push x r) ! gr_head r = x"
  by (simp add: gyro_push_def Let_def ring_ok_def)

lemma gyro_push_filling:
  assumes "ring_ok r" and "gr_count r < length (gr_samples r)" and "i < Suc (gr_count r)"
  shows "gyro_at (gyro_push x r) i = (if i < gr_count r then gyro_at r i else x)"
proof -
  let ?n = "length (gr_samples r)" and ?r = "gyro_push x r"
  have h: "gr_head r < ?n" using assms(1) by (simp add: ring_ok_def)
  have "gyro_at ?r i = gr_samples ?r ! (((gr_head r + 1) mod ?n + ?n - Suc (gr_count r) + i) mod ?n)"
    using gyro_at_oldest [OF gyro_push_ok [OF assms(1)], of x i] assms(2) by (simp add: gyro_push_def Let_def)
  also have "\<dots> = gr_samples ?r ! ((gr_head r + ?n - gr_count r + i) mod ?n)"
    using ring_index_next [OF h assms(2)] by simp
  finally have a: "gyro_at ?r i = gr_samples ?r ! ((gr_head r + ?n - gr_count r + i) mod ?n)" .
  show ?thesis
  proof (cases "i < gr_count r")
    case True
    then show ?thesis using a gyro_push_keeps [OF assms(1) True] assms(2) by simp
  next
    case False
    then have "gr_head r + ?n - gr_count r + i = ?n + gr_head r" using assms(2,3) by arith
    then show ?thesis using a False h gyro_push_new [OF assms(1)] by simp
  qed
qed

lemma gyro_push_full:
  assumes "ring_ok r" and "gr_count r = length (gr_samples r)" and "i < length (gr_samples r)"
  shows "gyro_at (gyro_push x r) i = (if Suc i < length (gr_samples r) then gyro_at r (Suc i) else x)"
proof -
  let ?n = "length (gr_samples r)" and ?r = "gyro_push x r"
  have h: "gr_head r < ?n" using assms(1) by (simp add: ring_ok_def)
  have "gyro_at ?r i = gr_samples ?r ! (((gr_head r + 1) mod ?n + i) mod ?n)"
    using gyro_at_oldest [OF gyro_push_ok [OF assms(1)], of x i] assms(2) by (simp add: gyro_push_def Let_def)
  also have "\<dots> = gr_samples ?r ! ((gr_head r + Suc i) mod ?n)" by (simp add: mod_simps)
  finally have a: "gyro_at ?r i = gr_samples ?r ! ((gr_head r + Suc i) mod ?n)" .
  show ?thesis
  proof (cases "Suc i < ?n")
    case True
    then show ?thesis using a gyro_push_keeps [OF assms(1), of "Suc i"] assms(2) by simp
  next
    case False
    then have "gr_head r + Suc i = ?n + gr_head r" using assms(3) by simp
    then show ?thesis using a False h gyro_push_new [OF assms(1)] by simp
  qed
qed

lemma gyro_push_fields [simp]:
  "length (gr_samples (gyro_push x r)) = length (gr_samples r)"
  "gr_count (gyro_push x r) = (if gr_count r < length (gr_samples r) then gr_count r + 1 else gr_count r)"
  by (simp_all add: gyro_push_def Let_def)

lemma tail_of_short: "length xs \<le> n \<Longrightarrow> tail_of n xs = xs"
  by (simp add: tail_of_def)

lemma tail_of_snoc: "0 < n \<Longrightarrow> tail_of n (tail_of n xs @ [x]) = tail_of n (xs @ [x])"
  by (cases "length xs \<le> n") (auto simp: tail_of_def Suc_diff_le)

lemma gyro_push_list:
  assumes "ring_ok r"
  shows "gyro_list (gyro_push x r) = tail_of (length (gr_samples r)) (gyro_list r @ [x])"
proof (cases "gr_count r < length (gr_samples r)")
  case True
  have "map (gyro_at (gyro_push x r)) [0..<Suc (gr_count r)] = map (gyro_at r) [0..<gr_count r] @ [x]"
    using gyro_push_filling [OF assms True] by (simp add: list_eq_iff_nth_eq nth_append del: upt_Suc)
  then show ?thesis using True by (simp add: gyro_list_def tail_of_short del: upt_Suc)
next
  case False
  then have full: "gr_count r = length (gr_samples r)" using assms by (simp add: ring_ok_def)
  have "0 < gr_count r" using assms full by (simp add: ring_ok_def)
  have "gyro_at (gyro_push x r) i = drop 1 (map (gyro_at r) [0..<gr_count r] @ [x]) ! i" if "i < gr_count r" for i
    using gyro_push_full [OF assms full, of i x] full that by (simp add: nth_append)
  then have "map (gyro_at (gyro_push x r)) [0..<gr_count r] = drop 1 (map (gyro_at r) [0..<gr_count r] @ [x])"
    using \<open>0 < gr_count r\<close> by (intro nth_equalityI) simp_all
  then show ?thesis using full by (simp add: gyro_list_def tail_of_def)
qed

lemma ring_init_ok: "ring_ok gyro_ring_init"
  by (simp add: ring_ok_def gyro_ring_init_def kGyroCapacity_def)

text \<open>The gyro history is a window: after any samples, the chronological reading of the ring buffer is
  the last 1,200 of them, in their order.\<close>

theorem gyro_history_window:
  "gyro_list (fold gyro_push xs gyro_ring_init) = tail_of 1200 xs"
proof -
  have "ring_ok (fold gyro_push xs gyro_ring_init) \<and>
      length (gr_samples (fold gyro_push xs gyro_ring_init)) = 1200 \<and>
      gyro_list (fold gyro_push xs gyro_ring_init) = tail_of 1200 xs"
  proof (induction xs rule: rev_induct)
    case Nil
    show ?case using ring_init_ok by (simp add: gyro_list_def tail_of_def gyro_ring_init_def kGyroCapacity_def)
  next
    case (snoc x xs)
    then show ?case
      using gyro_push_list [of "fold gyro_push xs gyro_ring_init" x] gyro_push_ok [of "fold gyro_push xs gyro_ring_init" x]
      by (simp add: tail_of_snoc)
  qed
  then show ?thesis by simp
qed

section \<open>Replaying the history\<close>

definition updates :: "gyro_sample list \<Rightarrow> attitude_estimator \<Rightarrow> attitude_estimator" where
  "updates xs a = fold (\<lambda>x a. snd (attitude_update x a)) xs a"

lemma accept_seeded [simp]: "ea_seeded (snd (attitude_accept x a)) = ea_seeded a"
  by (simp add: attitude_accept_def Let_def state_update_def attitude_invalidate_def split: option.split)

lemma accept_valid: "ae_valid (ea_state a) \<Longrightarrow> fst (attitude_accept x a) = ae_valid (ea_state (snd (attitude_accept x a)))"
  by (simp add: attitude_accept_def Let_def state_update_def attitude_invalidate_def split: option.split)

lemma updates_stuck: "\<not> ae_valid (ea_state a) \<Longrightarrow> updates xs a = a"
  by (induction xs) (simp_all add: updates_def attitude_update_def)

lemma updates_Cons: "updates (x # xs) a = updates xs (snd (attitude_update x a))"
  by (simp add: updates_def)

text \<open>Replaying is updating with the samples after liftoff.\<close>

lemma replay_updates:
  assumes "ae_valid (ea_state a)" and "ea_seeded a"
  shows "replay t xs a = (let a' = updates (filter (\<lambda>x. t < gy_timestamp_us x) xs) a in (ae_valid (ea_state a'), a'))"
  using assms
proof (induction xs arbitrary: a)
  case (Cons x xs)
  show ?case
  proof (cases "gy_timestamp_us x \<le> t")
    case True
    then have "\<not> t < gy_timestamp_us x" by simp
    then show ?thesis using Cons True by simp
  next
    case False
    obtain ok a1 where a1: "attitude_accept x a = (ok, a1)" by fastforce
    then have "ok = ae_valid (ea_state a1)" "ea_seeded a1"
      using accept_valid [OF Cons.prems(1), of x] accept_seeded [of x a] Cons.prems(2) by simp_all
    then show ?thesis using Cons False a1
      by (cases ok) (auto simp: updates_Cons attitude_update_def updates_stuck not_le)
  qed
qed (simp add: updates_def)

lemma seed_append:
  "\<forall>x \<in> set ys. t < gy_timestamp_us x \<Longrightarrow> gyro_seed t (xs @ ys) = gyro_seed t xs"
proof -
  have "fold (\<lambda>x seed. if gy_timestamp_us x \<le> t \<and> gyro_usable x then Some x else seed) ys s = s"
    if "\<forall>x \<in> set ys. t < gy_timestamp_us x" for s
    using that by (induction ys arbitrary: s) auto
  then show "\<forall>x \<in> set ys. t < gy_timestamp_us x \<Longrightarrow> gyro_seed t (xs @ ys) = gyro_seed t xs"
    by (simp add: gyro_seed_def)
qed

text \<open>The flight may begin late. The state after \<open>beginFlight\<close> on a history and updates with the samples
  that came after it is the state after \<open>beginFlight\<close> on the longer history that already holds those
  samples, whatever of them is refused; and nothing of the estimator before the call matters.\<close>

theorem late_begin_is_live:
  assumes "\<forall>x \<in> set later. liftoff_time_us < gy_timestamp_us x"
  shows "updates later (snd (beginFlight history liftoff_time_us bias a)) =
    snd (beginFlight (history @ later) liftoff_time_us bias a')"
proof (cases "isfinite bias \<and> gyro_seed liftoff_time_us history \<noteq> None")
  case True
  then obtain seed where s: "gyro_seed liftoff_time_us history = Some seed" "isfinite bias" by blast
  let ?a = "seeded_estimator seed liftoff_time_us bias"
  have v: "ae_valid (ea_state ?a)" "ea_seeded ?a" by (simp_all add: seeded_estimator_def)
  show ?thesis using assms s
    by (simp add: beginFlight_def seed_append replay_updates [OF v] Let_def updates_def)
next
  case False
  have "\<not> ae_valid (ea_state (attitude_invalidate r b))" for r b
    by (simp add: attitude_invalidate_def state_update_def)
  then show ?thesis using False assms
    by (auto simp: beginFlight_def updates_stuck seed_append split: option.split)
qed

section \<open>What a valid estimate rests on\<close>

text \<open>A step the integration accepts: its sample is sound and one period after the last, or two with one
  sample lost.\<close>

definition sound_step :: "u32 \<Rightarrow> u64 \<Rightarrow> gyro_sample \<Rightarrow> bool" where
  "sound_step epoch previous_us x =
     (gy_valid x \<and> isfinite (gy_roll_rate_rad_s x) \<and> \<not> gy_saturated x \<and> \<not> gy_format_fault x \<and>
      gy_timestamp_epoch x = epoch \<and> previous_us < gy_timestamp_us x \<and>
      (let d = uint (gy_timestamp_us x) - uint previous_us in
       750 \<le> d \<and> d \<le> 1250 \<and> gy_lost_packets x = 0 \<or> 1750 \<le> d \<and> d \<le> 2250 \<and> gy_lost_packets x \<le> 1))"

fun sound_sequence :: "u32 \<Rightarrow> u64 \<Rightarrow> gyro_sample list \<Rightarrow> bool" where
  "sound_sequence epoch previous_us [] = True"
| "sound_sequence epoch previous_us (x # xs) =
     (sound_step epoch previous_us x \<and> sound_sequence epoch (gy_timestamp_us x) xs)"

lemma u64_sub: "a < b \<Longrightarrow> uint (b - a :: u64) = uint b - uint a"
  by (simp add: uint_sub_if' word_less_def)

lemma near_one: "nearPeriod d 1 = (750 \<le> uint d \<and> uint d \<le> 1250)"
  by (simp add: nearPeriod_def kNominalSampleUs_def kTimestampToleranceUs_def word_le_def Let_def)

lemma near_two: "nearPeriod d 2 = (1750 \<le> uint d \<and> uint d \<le> 2250)"
  by (simp add: nearPeriod_def kNominalSampleUs_def kTimestampToleranceUs_def word_le_def Let_def)

lemma accept_sound:
  assumes "fst (attitude_accept x a)"
  shows "sound_step (ea_timestamp_epoch a) (ea_previous_timestamp_us a) x \<and>
    ea_previous_timestamp_us (snd (attitude_accept x a)) = gy_timestamp_us x \<and>
    ea_timestamp_epoch (snd (attitude_accept x a)) = ea_timestamp_epoch a"
  using assms
  by (auto simp: attitude_accept_def sample_refusal_def Let_def state_update_def sound_step_def near_one near_two
      u64_sub not_le split: if_splits)

lemma updates_sound:
  assumes "ae_valid (ea_state (updates xs a))" and "ea_seeded a"
  shows "sound_sequence (ea_timestamp_epoch a) (ea_previous_timestamp_us a) xs"
  using assms
proof (induction xs arbitrary: a)
  case (Cons x xs)
  obtain ok a1 where a1: "attitude_accept x a = (ok, a1)" by fastforce
  have v: "ae_valid (ea_state a)" using Cons.prems(1) updates_stuck [of a "x # xs"] by metis
  then have u: "attitude_update x a = (ok, a1)" using a1 Cons.prems(2) by (simp add: attitude_update_def)
  then have v1: "ae_valid (ea_state (updates xs a1))" using Cons.prems(1) by (simp add: updates_Cons)
  then have "ok" using accept_valid [OF v, of x] a1 updates_stuck [of a1 xs] by auto
  moreover have "ea_seeded a1" using accept_seeded [of x a] a1 Cons.prems(2) by simp
  ultimately show ?case using Cons.IH [OF v1] accept_sound [of x a] a1 by simp
qed simp

text \<open>C32: A valid roll estimate rests on an unbroken sequence of samples. If the estimate is valid after any
  updates since the flight began, every sample after liftoff in the history and every later one was valid, in
  range and of the epoch of the seed, and came 0.75 to 1.25 ms after the one before without a lost packet, or
  1.75 to 2.25 ms after it with at most one lost.\<close>

theorem attitude_unbroken:
  assumes "ae_valid (ea_state (updates later (snd (beginFlight history liftoff_time_us bias a))))"
  shows "\<exists>seed. gyro_seed liftoff_time_us history = Some seed \<and>
    sound_sequence (gy_timestamp_epoch seed) liftoff_time_us
      (filter (\<lambda>x. liftoff_time_us < gy_timestamp_us x) history @ later)"
proof -
  have begun: "ae_valid (ea_state (snd (beginFlight history liftoff_time_us bias a)))"
    using assms updates_stuck [of "snd (beginFlight history liftoff_time_us bias a)" later] by metis
  then obtain seed where s: "gyro_seed liftoff_time_us history = Some seed" "isfinite bias"
    by (auto simp: beginFlight_def attitude_invalidate_def state_update_def split: if_splits option.splits)
  let ?a = "seeded_estimator seed liftoff_time_us bias"
  let ?xs = "filter (\<lambda>x. liftoff_time_us < gy_timestamp_us x) history"
  have v: "ae_valid (ea_state ?a)" "ea_seeded ?a" by (simp_all add: seeded_estimator_def)
  have "updates (?xs @ later) ?a = updates later (snd (beginFlight history liftoff_time_us bias a))"
    using s by (simp add: beginFlight_def replay_updates [OF v] Let_def updates_def)
  then have "sound_sequence (ea_timestamp_epoch ?a) (ea_previous_timestamp_us ?a) (?xs @ later)"
    using assms v(2) by (intro updates_sound) simp_all
  then show ?thesis using s(1) by (simp add: seeded_estimator_def)
qed

text \<open>A board at rest: a sample each millisecond.\<close>

definition resting :: "u64 \<Rightarrow> gyro_sample" where
  "resting t = gyro_sample_none\<lparr>gy_timestamp_us := t, gy_valid := True, gy_timestamp_epoch := 1\<rparr>"

lemma late_begin_is_live_witness:
  "updates [resting 2000] (snd (beginFlight [resting 0, resting 1000] 500 (Fin 0) attitude_init)) =
   snd (beginFlight [resting 0, resting 1000, resting 2000] 500 (Fin 0) attitude_init)"
  using late_begin_is_live [of "[resting 2000]" 500 "[resting 0, resting 1000]" "Fin 0" attitude_init attitude_init]
  by (simp add: resting_def)

lemma attitude_unbroken_witness: "sound_sequence 1 500 [resting 1500]"
proof -
  have f: "lit (1 / 2) = Fin (rnd_real (1 / 2))" "lit (1 / 1000000) = Fin (rnd_real (1 / 1000000))"
    by (simp_all add: lit_def rnd_finite)
  have "gyro_seed 500 [resting 0] = Some (resting 0)"
    by (simp add: gyro_seed_def gyro_usable_def resting_def gyro_sample_none_def)
  moreover from this have "ae_valid (ea_state (updates [resting 1500] (snd (beginFlight [resting 0] 500 (Fin 0) attitude_init))))"
    using f by (simp add: beginFlight_def seeded_estimator_def resting_def gyro_sample_none_def updates_def
        attitude_update_def attitude_accept_def sample_refusal_def nearPeriod_def kNominalSampleUs_def
        kTimestampToleranceUs_def state_update_def dsub_def dint_Fin attitude_state_init_def Let_def)
  ultimately show ?thesis
    using attitude_unbroken [of "[resting 1500]" "[resting 0]" 500 "Fin 0" attitude_init]
    by (simp add: resting_def gyro_sample_none_def)
qed

end
