(* ===== verification/Airspeed_Estimator.thy ===== *)
theory Airspeed_Estimator
  imports Quantization
begin

text \<open>
  \<open>sensors/airspeed_estimator.{hpp,cpp}\<close>: the Saint-Venant airspeed of the pitot tube and the conditioning
  of its differential pressure (zero calibration, moving average). \<open>expm1\<close> and \<open>log1p\<close> of the C library are
  an argument, as their rounding is not specified; \<open>sqrt\<close> is correctly rounded.
\<close>

section \<open>The model\<close>

datatype airspeed_model_error =
    AM_none | AM_non_finite_input | AM_static_pressure_invalid | AM_temperature_invalid
  | AM_negative_differential_pressure | AM_numeric_error

record airspeed_computation =
  ac_airspeed_mps :: dbl
  ac_error :: airspeed_model_error
  ac_valid :: bool

record libm =
  m_expm1 :: "dbl \<Rightarrow> dbl"
  m_log1p :: "dbl \<Rightarrow> dbl"

fun dsqrt :: "dbl \<Rightarrow> dbl" where
  "dsqrt (Fin x) = (if x < 0 then NaN else rnd (sqrt x))"
| "dsqrt (Inf n) = (if n then NaN else Inf False)"
| "dsqrt NaN = NaN"

definition kSpecificGasConstantAir :: dbl where "kSpecificGasConstantAir = lit 287.05"
definition kHeatCapacityRatioAir :: dbl where "kHeatCapacityRatioAir = lit 1.4"
definition kKelvinOffset :: dbl where "kKelvinOffset = lit 273.15"

definition airspeed_refused :: "airspeed_model_error \<Rightarrow> airspeed_computation" where
  "airspeed_refused e = \<lparr>ac_airspeed_mps = Fin 0, ac_error = e, ac_valid = False\<rparr>"

definition corrected_pressure_ratio :: "dbl \<Rightarrow> dbl \<Rightarrow> dbl \<Rightarrow> dbl" where
  "corrected_pressure_ratio static_pa differential_pa k = ddiv (dmul (dmul k k) differential_pa) static_pa"

definition saint_venant_radicand :: "libm \<Rightarrow> dbl \<Rightarrow> dbl \<Rightarrow> dbl" where
  "saint_venant_radicand m temperature_kelvin ratio =
     (let exponent = ddiv (dsub kHeatCapacityRatioAir (Fin 1)) kHeatCapacityRatioAir;
          expansion = m_expm1 m (dmul exponent (m_log1p m ratio)) in
      dmul (dmul (dmul (ddiv (dmul (Fin 2) kHeatCapacityRatioAir) (dsub kHeatCapacityRatioAir (Fin 1)))
        kSpecificGasConstantAir) temperature_kelvin) expansion)"

definition computeSaintVenantAirspeed :: "libm \<Rightarrow> dbl \<Rightarrow> dbl \<Rightarrow> dbl \<Rightarrow> dbl \<Rightarrow> airspeed_computation" where
  "computeSaintVenantAirspeed m static_pa differential_pa temperature_celsius k =
     (if \<not> isfinite static_pa \<or> \<not> isfinite differential_pa \<or> \<not> isfinite temperature_celsius \<or>
        \<not> isfinite k \<or> dle k (Fin 0) then airspeed_refused AM_non_finite_input
      else if dle static_pa (Fin 0) then airspeed_refused AM_static_pressure_invalid
      else let temperature_kelvin = dadd temperature_celsius kKelvinOffset in
      if dle temperature_kelvin (Fin 0) then airspeed_refused AM_temperature_invalid
      else if dless differential_pa (Fin 0) then airspeed_refused AM_negative_differential_pressure
      else if deq differential_pa (Fin 0)
      then \<lparr>ac_airspeed_mps = Fin 0, ac_error = AM_none, ac_valid = True\<rparr>
      else let ratio = corrected_pressure_ratio static_pa differential_pa k in
      if \<not> isfinite ratio \<or> dless ratio (Fin 0) then airspeed_refused AM_numeric_error
      else let radicand = saint_venant_radicand m temperature_kelvin ratio in
      if \<not> isfinite radicand \<or> dless radicand (Fin 0) then airspeed_refused AM_numeric_error
      else let airspeed = dsqrt radicand in
      if \<not> isfinite airspeed then airspeed_refused AM_numeric_error
      else \<lparr>ac_airspeed_mps = airspeed, ac_error = AM_none, ac_valid = True\<rparr>)"

section \<open>The conditioner\<close>

definition kMaximumMovingAverageSamples :: nat where "kMaximumMovingAverageSamples = 32"

record conditioned_pressure =
  cq_pressure_pa :: dbl
  cq_zero_valid :: bool
  cq_valid :: bool
  cq_negative_beyond_tolerance :: bool

record conditioner =
  dp_required_zero_samples :: u16
  dp_moving_average_samples :: nat
  dp_negative_tolerance_pa :: dbl
  dp_zero_sum_pa :: dbl
  dp_zero_offset_pa :: dbl
  dp_zero_count :: u16
  dp_zero_valid :: bool
  dp_window :: "dbl list"
  dp_window_head :: nat
  dp_window_count :: nat
  dp_window_sum_pa :: dbl

text \<open>\<open>window_.fill(0)\<close> and the three resets that go with it.\<close>

definition clear_window :: "conditioner \<Rightarrow> conditioner" where
  "clear_window c = c\<lparr>dp_window := replicate (length (dp_window c)) (Fin 0), dp_window_head := 0,
     dp_window_count := 0, dp_window_sum_pa := Fin 0\<rparr>"

definition conditioner_init :: "u16 \<Rightarrow> u8 \<Rightarrow> dbl \<Rightarrow> conditioner" where
  "conditioner_init zero_samples moving_average_samples tolerance_pa =
     \<lparr>dp_required_zero_samples = zero_samples,
      dp_moving_average_samples = min (unat moving_average_samples) kMaximumMovingAverageSamples,
      dp_negative_tolerance_pa = tolerance_pa, dp_zero_sum_pa = Fin 0, dp_zero_offset_pa = Fin 0,
      dp_zero_count = 0, dp_zero_valid = False, dp_window = replicate kMaximumMovingAverageSamples (Fin 0),
      dp_window_head = 0, dp_window_count = 0, dp_window_sum_pa = Fin 0\<rparr>"

definition conditioner_reset :: "conditioner \<Rightarrow> conditioner" where
  "conditioner_reset c = clear_window (c\<lparr>dp_zero_sum_pa := Fin 0, dp_zero_offset_pa := Fin 0,
     dp_zero_count := 0, dp_zero_valid := False\<rparr>)"

definition updateZero :: "dbl \<Rightarrow> bool \<Rightarrow> conditioner \<Rightarrow> bool \<times> conditioner" where
  "updateZero differential_pa calibration_allowed c =
     (if dp_zero_valid c \<or> \<not> calibration_allowed \<or> \<not> isfinite differential_pa \<or> dp_required_zero_samples c = 0
      then (dp_zero_valid c, c)
      else let c = c\<lparr>dp_zero_sum_pa := dadd (dp_zero_sum_pa c) differential_pa,
            dp_zero_count := dp_zero_count c + 1\<rparr> in
        if dp_zero_count c < dp_required_zero_samples c then (False, c)
        else let offset = ddiv (dp_zero_sum_pa c) (dint (uint (dp_zero_count c)));
            c = clear_window (c\<lparr>dp_zero_offset_pa := offset, dp_zero_valid := isfinite offset\<rparr>) in
          (dp_zero_valid c, c))"

definition window_push :: "dbl \<Rightarrow> conditioner \<Rightarrow> conditioner" where
  "window_push x c = (let full = dp_window_count c = dp_moving_average_samples c;
       sum = (if full then dsub (dp_window_sum_pa c) (dp_window c ! dp_window_head c) else dp_window_sum_pa c) in
     c\<lparr>dp_window := (dp_window c)[dp_window_head c := x],
       dp_window_count := (if full then dp_window_count c else dp_window_count c + 1),
       dp_window_sum_pa := dadd sum x,
       dp_window_head := (dp_window_head c + 1) mod dp_moving_average_samples c\<rparr>)"

definition not_conditioned :: "conditioner \<Rightarrow> conditioned_pressure" where
  "not_conditioned c = \<lparr>cq_pressure_pa = Fin 0, cq_zero_valid = dp_zero_valid c, cq_valid = False,
     cq_negative_beyond_tolerance = False\<rparr>"

definition conditioner_update :: "dbl \<Rightarrow> conditioner \<Rightarrow> conditioned_pressure \<times> conditioner" where
  "conditioner_update differential_pa c =
     (if \<not> dp_zero_valid c \<or> \<not> isfinite differential_pa \<or> dp_moving_average_samples c = 0 \<or>
        \<not> isfinite (dp_negative_tolerance_pa c) \<or> dless (dp_negative_tolerance_pa c) (Fin 0)
      then (not_conditioned c, c)
      else let corrected = dsub differential_pa (dp_zero_offset_pa c) in
        if dless corrected (dneg (dp_negative_tolerance_pa c))
        then ((not_conditioned c)\<lparr>cq_negative_beyond_tolerance := True\<rparr>, c)
        else let c = window_push (if dless (Fin 0) corrected then corrected else Fin 0) c;
            pressure = ddiv (dp_window_sum_pa c) (dint (int (dp_window_count c))) in
          ((not_conditioned c)\<lparr>cq_pressure_pa := pressure, cq_valid := isfinite pressure\<rparr>, c))"

section \<open>The result of the model\<close>

lemma dsqrt_nonneg: "dsqrt x = Fin y \<Longrightarrow> 0 \<le> y"
  by (cases x) (auto simp: rnd_def Let_def rnd_real_nonneg split: if_splits)

text \<open>C35: The airspeed is sound. Whatever the inputs - NaN and infinities included - and whatever the C
  library's \<open>expm1\<close> and \<open>log1p\<close> return, a result is valid exactly when it carries no error; a valid airspeed is
  finite and not negative and comes from finite pressures, a positive static pressure, a temperature above
  absolute zero and a differential pressure that is not negative; zero differential pressure gives zero
  speed; and a refused computation reports zero.\<close>

theorem airspeed_sound:
  "let r = computeSaintVenantAirspeed m static_pa differential_pa temperature k in
   (ac_valid r \<longleftrightarrow> ac_error r = AM_none) \<and>
   (if ac_valid r then (\<exists>v. ac_airspeed_mps r = Fin v \<and> (if differential_pa = Fin 0 then v = 0 else 0 \<le> v)) \<and>
      (\<exists>p q t c. static_pa = Fin p \<and> 0 < p \<and> differential_pa = Fin q \<and> 0 \<le> q \<and> temperature = Fin t \<and>
         \<not> dle (dadd temperature kKelvinOffset) (Fin 0) \<and> k = Fin c \<and> 0 < c)
    else ac_airspeed_mps r = Fin 0)"
proof (cases "isfinite static_pa \<and> isfinite differential_pa \<and> isfinite temperature \<and> isfinite k")
  case True
  then obtain p q t c where f: "static_pa = Fin p" "differential_pa = Fin q" "temperature = Fin t" "k = Fin c"
    by (auto simp: isfinite_iff)
  have s: "\<exists>v. dsqrt x = Fin v \<and> 0 \<le> v" if "isfinite (dsqrt x)" for x
    using that dsqrt_nonneg by (auto simp: isfinite_iff)
  show ?thesis using s
    by (auto simp: f computeSaintVenantAirspeed_def airspeed_refused_def Let_def not_less not_le)
next
  case False
  then show ?thesis by (auto simp: computeSaintVenantAirspeed_def airspeed_refused_def)
qed

section \<open>The conditioner's window\<close>

definition window_ok :: "conditioner \<Rightarrow> bool" where
  "window_ok c = (length (dp_window c) = kMaximumMovingAverageSamples \<and>
     dp_moving_average_samples c \<le> kMaximumMovingAverageSamples \<and>
     dp_window_count c \<le> dp_moving_average_samples c \<and>
     (dp_moving_average_samples c = 0 \<or> dp_window_head c < dp_moving_average_samples c) \<and>
     (dp_zero_valid c \<longrightarrow> isfinite (dp_zero_offset_pa c) \<and> dp_required_zero_samples c \<le> dp_zero_count c))"

datatype conditioner_call = Cc_zero dbl bool | Cc_update dbl | Cc_reset

fun conditioner_step :: "conditioner_call \<Rightarrow> conditioner \<Rightarrow> conditioner" where
  "conditioner_step (Cc_zero p allowed) c = snd (updateZero p allowed c)"
| "conditioner_step (Cc_update p) c = snd (conditioner_update p c)"
| "conditioner_step Cc_reset c = conditioner_reset c"

lemma window_ok_push: "window_ok c \<Longrightarrow> dp_moving_average_samples c \<noteq> 0 \<Longrightarrow> window_ok (window_push x c)"
  by (auto simp: window_ok_def window_push_def Let_def)

lemma window_ok_step: "window_ok c \<Longrightarrow> window_ok (conditioner_step call c)"
proof (cases call)
  case (Cc_zero p allowed)
  then show "window_ok c \<Longrightarrow> ?thesis"
    by (auto simp: updateZero_def clear_window_def window_ok_def Let_def not_less)
next
  case (Cc_update p)
  then show "window_ok c \<Longrightarrow> ?thesis"
    by (auto simp: conditioner_update_def Let_def intro!: window_ok_push)
next
  case Cc_reset
  then show "window_ok c \<Longrightarrow> ?thesis"
    by (auto simp: conditioner_reset_def clear_window_def window_ok_def)
qed

text \<open>The pressure conditioner stays inside its window and measures nothing before its zero. After any
  calls, with any number of samples for the average (more than 32 are cut to 32), every index it uses is in
  range; and a pressure it reports as valid is finite, was measured after a zero calibration over the required
  number of samples, with a finite offset.\<close>

theorem conditioner_safe:
  "let c = fold conditioner_step calls (conditioner_init zero_samples average tolerance);
       (r, c') = conditioner_update pressure c in
   window_ok c \<and> window_ok c' \<and>
   (if cq_valid r then isfinite (cq_pressure_pa r) \<and> isfinite (dp_zero_offset_pa c) \<and>
      dp_required_zero_samples c \<le> dp_zero_count c else True)"
proof -
  let ?c = "fold conditioner_step calls (conditioner_init zero_samples average tolerance)"
  have "window_ok (conditioner_init zero_samples average tolerance)"
    by (auto simp: window_ok_def conditioner_init_def)
  then have c: "window_ok ?c"
    by (induction calls arbitrary: zero_samples rule: rev_induct) (simp_all add: window_ok_step)
  moreover have "window_ok (snd (conditioner_update pressure ?c))"
    using window_ok_step [OF c, of "Cc_update pressure"] by simp
  moreover have "cq_valid (fst (conditioner_update pressure ?c)) \<Longrightarrow>
      isfinite (cq_pressure_pa (fst (conditioner_update pressure ?c))) \<and> dp_zero_valid ?c"
    by (auto simp: conditioner_update_def not_conditioned_def Let_def split: if_splits)
  ultimately show ?thesis by (auto simp: window_ok_def split_beta Let_def)
qed

end
