(* ===== verification/Mission_Output.thy ===== *)
theory Mission_Output
  imports Motor_Driver Mission_Flight
begin

text \<open>
  \<open>runtime/production_runtime.cpp\<close>, \<open>missionRealtimeTask\<close>: what the fin motor is given in a turn. The
  choice is \<open>motor_action\<close>, its execution on the motor driver \<open>motor_output\<close>, with \<open>applyTorque\<close> between
  controller, mapper and driver. The variables of the task that the block reads are a record.
\<close>

section \<open>What the block reads\<close>

datatype command_fin_mode = CFM_free | CFM_zero_hold | CFM_position_hold | CFM_relative_move

record fin_view =
  fv_mode :: command_fin_mode
  fv_target_is_unwrapped :: bool
  fv_target_rad :: dbl
  fv_observation_valid :: bool
  fv_sample_valid :: bool
  fv_unwrapped_rad :: dbl
  fv_angle_rad :: dbl
  fv_rate_rad_s :: dbl

record attitude_view =
  av_valid :: bool
  av_fresh :: bool
  av_epoch :: u32
  av_roll_estimate_rad :: dbl
  av_roll_rate_rad_s :: dbl

record output_inputs =
  oi_recovery_requested :: bool
  oi_output_inhibited :: bool
  oi_snapshot :: mission_snapshot
  oi_fin :: fin_view
  oi_attitude :: attitude_view
  oi_airspeed_available :: bool
  oi_airspeed_mps :: dbl
  oi_motor_ready :: bool
  oi_bus_voltage_valid :: bool
  oi_bus_millivolts :: u32
  oi_guard :: fin_guard

definition active_profile :: "nat \<Rightarrow> motor_profile" where
  "active_profile profile_id = (if profile_id = 1 then kFlightMotorA else kSpareMotorB)"

definition mission_zero_hold :: zero_hold_config where
  "mission_zero_hold = \<lparr>zh_proportional_gain = rnd 2.32, zh_derivative_gain = rnd 0.296,
     zh_torque_limit_Nm = ca_zero_hold_requested_torque_limit_Nm kControlAuthorityLimits,
     zh_valid_angle_rad = rnd 0.017453292519943295, zh_valid_rate_rad_s = rnd 0.08726646259971647,
     zh_valid_samples = 100\<rparr>"

definition output_inhibited :: "output_inputs \<Rightarrow> bool" where
  "output_inhibited oi = (oi_recovery_requested oi \<or> oi_output_inhibited oi \<or> sn_reset_invalidated (oi_snapshot oi))"

section \<open>The choice\<close>

datatype motor_choice = MA_coast | MA_brake | MA_torque torque_request

text \<open>The manual modes of the command-receive state.\<close>

definition manual_action :: "bool \<Rightarrow> output_inputs \<Rightarrow> motor_choice \<times> torque_error" where
  "manual_action driver_initialized oi =
     (let f = oi_fin oi in
      if fv_mode f = CFM_free then (MA_coast, TQE_unavailable)
      else let use_unwrapped_target = (fv_mode f = CFM_position_hold \<and> fv_target_is_unwrapped f);
               command_sample_valid = (if use_unwrapped_target then fv_observation_valid f else fv_sample_valid f) in
      if \<not> oi_motor_ready oi \<or> \<not> driver_initialized \<or> \<not> command_sample_valid
      then (MA_brake, TQE_controller_input_invalid)
      else let target = (if fv_mode f = CFM_zero_hold then Fin 0 else fv_target_rad f);
               measured = (if use_unwrapped_target then fv_unwrapped_rad f else fv_angle_rad f) in
      (MA_torque (zero_hold_compute mission_zero_hold (oi_guard oi) (dsub measured target) (fv_rate_rad_s f)),
       TQE_unavailable))"

definition roll_inputs_valid :: "output_inputs \<Rightarrow> dbl \<Rightarrow> bool" where
  "roll_inputs_valid oi roll_deviation_rad =
     (fv_sample_valid (oi_fin oi) \<and> sn_roll_reference_valid (oi_snapshot oi) \<and> av_valid (oi_attitude oi) \<and>
      av_fresh (oi_attitude oi) \<and> isfinite roll_deviation_rad \<and>
      av_epoch (oi_attitude oi) = sn_flight_epoch (oi_snapshot oi) \<and> oi_airspeed_available oi)"

definition motor_action :: "nat \<Rightarrow> bool \<Rightarrow> output_inputs \<Rightarrow> motor_choice \<times> torque_error" where
  "motor_action profile_id driver_initialized oi =
     (let sn = oi_snapshot oi; f = oi_fin oi in
      if output_inhibited oi
      then (MA_coast, if sn_reset_invalidated sn then TQE_reset_invalidated else TQE_unavailable)
      else if sn_state sn = MS_command_receive then manual_action driver_initialized oi
      else if \<not> oi_motor_ready oi \<or> \<not> driver_initialized then (MA_coast, TQE_internal_error)
      else if \<not> motorProfileValid profile_id then (MA_brake, TQE_limit_config_invalid)
      else if sn_fin sn = FD_zero_hold then
        if fv_sample_valid f
        then (MA_torque (zero_hold_compute mission_zero_hold (oi_guard oi) (fv_angle_rad f) (fv_rate_rad_s f)),
              TQE_unavailable)
        else (MA_brake, TQE_controller_input_invalid)
      else if sn_fin sn = FD_roll_control then
        let roll_deviation_rad = dsub (av_roll_estimate_rad (oi_attitude oi)) (sn_roll_reference_rad sn) in
        if roll_inputs_valid oi roll_deviation_rad
        then (MA_torque (roll_compute kRollGainSchedule
                \<lparr>rs_roll_deviation_unwrapped_rad = roll_deviation_rad, rs_fin_rad = fv_angle_rad f,
                  rs_roll_rate_rad_s = av_roll_rate_rad_s (oi_attitude oi), rs_fin_rate_rad_s = fv_rate_rad_s f\<rparr>
                (oi_airspeed_mps oi) RA_gentle kControlAuthorityLimits VM_closed_loop), TQE_unavailable)
        else (MA_brake, TQE_controller_input_invalid)
      else (MA_brake, TQE_unavailable))"

section \<open>The execution\<close>

definition bus_voltage :: "output_inputs \<Rightarrow> dbl" where
  "bus_voltage oi = (if oi_bus_voltage_valid oi \<and> oi_bus_millivolts oi \<ge> 500
     then ddiv (dint (uint (oi_bus_millivolts oi))) (lit 1000) else kMotorBusVoltageV)"

record motor_result =
  mr_result :: esp_code
  mr_coasting :: bool
  mr_braking :: bool
  mr_saturated :: bool
  mr_torque_request :: torque_request
  mr_torque_error :: torque_error
  mr_motor_ready :: bool

definition applyTorque :: "(dbl \<Rightarrow> int) \<Rightarrow> 'd ledc_api \<Rightarrow> nat \<Rightarrow> output_inputs \<Rightarrow> torque_request \<Rightarrow>
    ('d, motor_result) drv" where
  "applyTorque ovf api profile_id oi request =
     (let outcome = \<lparr>mr_result = EC_ok, mr_coasting = False, mr_braking = True, mr_saturated = False,
            mr_torque_request = request, mr_torque_error = TQE_unknown, mr_motor_ready = oi_motor_ready oi\<rparr>;
          c = torque_map (active_profile profile_id) kFinSoftwareLimits (tr_output_torque_nm request)
            (fv_angle_rad (oi_fin oi)) (fv_rate_rad_s (oi_fin oi)) (bus_voltage oi) in
      if \<not> tr_valid request then do {
        result \<leftarrow> driver_brake api;
        ret (outcome\<lparr>mr_result := result, mr_torque_error := TQE_controller_input_invalid\<rparr>) }
      else if \<not> mc_valid c then do {
        result \<leftarrow> driver_brake api;
        ret (outcome\<lparr>mr_result := result, mr_torque_error := TQE_limit_config_invalid\<rparr>) }
      else do {
        result \<leftarrow> (if mc_brake c then driver_brake api else driver_apply ovf api c);
        ret (outcome\<lparr>mr_result := result, mr_braking := False,
          mr_saturated := tr_saturated request \<or> mc_saturated c \<or>
            dless (kProductionMotorMaximumDuty (le_characterization api)) (mc_pwm_duty c)\<rparr>) })"

text \<open>A failing output is coasted, and the motor counts as not ready from then on.\<close>

definition check_output :: "'d ledc_api \<Rightarrow> motor_result \<Rightarrow> ('d, motor_result) drv" where
  "check_output api outcome =
     (if mr_result outcome \<noteq> EC_ok then do {
        _ \<leftarrow> driver_coast api;
        ret (outcome\<lparr>mr_motor_ready := False, mr_coasting := True, mr_braking := False,
          mr_torque_error := TQE_internal_error\<rparr>) }
      else ret outcome)"

definition motor_output :: "(dbl \<Rightarrow> int) \<Rightarrow> 'd ledc_api \<Rightarrow> nat \<Rightarrow> output_inputs \<Rightarrow> ('d, motor_result) drv" where
  "motor_output ovf api profile_id oi = do {
     initialized \<leftarrow> gets md_initialized;
     (action, torque_error) \<leftarrow> ret (motor_action profile_id initialized oi);
     outcome \<leftarrow> ret \<lparr>mr_result = EC_ok, mr_coasting = False, mr_braking = False, mr_saturated = False,
       mr_torque_request = no_torque, mr_torque_error = torque_error, mr_motor_ready = oi_motor_ready oi\<rparr>;
     outcome \<leftarrow> (case action of
         MA_coast \<Rightarrow> do { result \<leftarrow> driver_coast api; ret (outcome\<lparr>mr_result := result, mr_coasting := True\<rparr>) }
       | MA_brake \<Rightarrow> do { result \<leftarrow> driver_brake api; ret (outcome\<lparr>mr_result := result, mr_braking := True\<rparr>) }
       | MA_torque request \<Rightarrow> applyTorque ovf api profile_id oi request);
     check_output api outcome }"

text \<open>The fin mode that is reported.\<close>

definition reported_fin_mode :: "output_inputs \<Rightarrow> motor_result \<Rightarrow> fin_mode" where
  "reported_fin_mode oi outcome =
     (let directed = (if sn_fin (oi_snapshot oi) = FD_zero_hold then FM_zero_hold
            else if sn_fin (oi_snapshot oi) = FD_roll_control then FM_roll_control else FM_brake) in
      if mr_coasting outcome then FM_free
      else if mr_braking outcome then FM_brake
      else if sn_state (oi_snapshot oi) = MS_command_receive then
        (case fv_mode (oi_fin oi) of
           CFM_zero_hold \<Rightarrow> FM_zero_hold | CFM_position_hold \<Rightarrow> FM_position_hold
         | CFM_relative_move \<Rightarrow> FM_relative_move | CFM_free \<Rightarrow> directed)
      else directed)"

section \<open>When the motor is driven\<close>

text \<open>Only \<open>setChannelDuty\<close> sets a half bridge to 0; braking sets both to the full count.\<close>

definition drive_attempt :: "motor_call list \<Rightarrow> bool" where
  "drive_attempt cs = list_ex (\<lambda>c. case c of Mc_set ch n \<Rightarrow> n = 0 | _ \<Rightarrow> False) cs"

definition undriven :: "'d motor_driver \<Rightarrow> 'd motor_driver \<Rightarrow> bool" where
  "undriven s s' = (\<exists>cs. md_calls s' = md_calls s @ cs \<and> \<not> drive_attempt cs)"

interpretation undriven: guarantee undriven
proof
  have "undriven s s" for s :: "'a motor_driver" by (simp add: undriven_def drive_attempt_def)
  moreover have "undriven a c" if "undriven a b" "undriven b c" for a b c :: "'a motor_driver"
    using that by (fastforce simp: undriven_def drive_attempt_def)
  ultimately show "preorder_rel (undriven :: 'a motor_driver \<Rightarrow> _)" unfolding preorder_rel_def by blast
qed

lemma undriven_output: "\<not> drive_attempt [e] \<Longrightarrow> guar undriven (md_output e c)"
  by (auto simp: guar_def undriven_def run_output split: prod.splits)

lemma undriven_modify: "(\<And>s. md_calls (f s) = md_calls s) \<Longrightarrow> guar undriven (modify f)"
  by (rule undriven.modify) (simp add: undriven_def drive_attempt_def)

lemma undriven_coast: "guar undriven (driver_coast api)"
  unfolding driver_coast_def
  by (intro undriven.construct undriven_output undriven_modify) (simp_all add: drive_attempt_def)

lemma undriven_brake: "guar undriven (driver_brake api)"
  unfolding driver_brake_def then_output_def driven_or_coast_def
  by (intro undriven.construct undriven_output undriven_modify undriven_coast) (simp_all add: drive_attempt_def kMaximumDutyCount_def)

lemma undriven_check: "guar undriven (check_output api outcome)"
  unfolding check_output_def by (intro undriven.construct undriven_coast)

text \<open>Without a torque the motor is not driven.\<close>

lemma undriven_unless_torque:
  assumes "run_state (motor_output ovf api profile_id oi) s = (r, s')"
    and "\<And>request. fst (motor_action profile_id (md_initialized s) oi) \<noteq> MA_torque request"
  shows "undriven s s'"
proof -
  obtain a e where m: "motor_action profile_id (md_initialized s) oi = (a, e)" by fastforce
  let ?o = "\<lparr>mr_result = EC_ok, mr_coasting = False, mr_braking = False, mr_saturated = False,
       mr_torque_request = no_torque, mr_torque_error = e, mr_motor_ready = oi_motor_ready oi\<rparr>"
  have "guar undriven (do {
     outcome \<leftarrow> (case a of
         MA_coast \<Rightarrow> do { result \<leftarrow> driver_coast api; ret (?o\<lparr>mr_result := result, mr_coasting := True\<rparr>) }
       | MA_brake \<Rightarrow> do { result \<leftarrow> driver_brake api; ret (?o\<lparr>mr_result := result, mr_braking := True\<rparr>) }
       | MA_torque request \<Rightarrow> applyTorque ovf api profile_id oi request);
     check_output api outcome })"
    using assms(2) m by (cases a) (auto intro!: undriven.construct undriven_coast undriven_brake undriven_check)
  with assms(1) m show ?thesis by (auto simp: motor_output_def elim: guarD)
qed

lemma torque_conditions:
  assumes "fst (motor_action profile_id initialized oi) = MA_torque request"
  shows "\<not> output_inhibited oi \<and> oi_motor_ready oi \<and> initialized \<and>
    (if sn_state (oi_snapshot oi) = MS_command_receive
     then fv_mode (oi_fin oi) \<noteq> CFM_free \<and> (fv_sample_valid (oi_fin oi) \<or> fv_observation_valid (oi_fin oi))
     else motorProfileValid profile_id \<and> fv_sample_valid (oi_fin oi) \<and>
       (sn_fin (oi_snapshot oi) = FD_zero_hold \<or>
        sn_fin (oi_snapshot oi) = FD_roll_control \<and> sn_roll_reference_valid (oi_snapshot oi) \<and>
        av_valid (oi_attitude oi) \<and> av_fresh (oi_attitude oi) \<and>
        av_epoch (oi_attitude oi) = sn_flight_epoch (oi_snapshot oi) \<and> oi_airspeed_available oi))"
  using assms by (auto simp: motor_action_def manual_action_def roll_inputs_valid_def Let_def split: if_splits)

lemma profiles_unqualified: "\<not> motorProfileValid profile_id"
  by (simp add: motorProfileValid_def kFlightMotorAFlightQualified_def kSpareMotorBFlightQualified_def)

lemma undriven_invalid: "\<not> tr_valid request \<Longrightarrow> guar undriven (applyTorque ovf api profile_id oi request)"
  by (simp add: applyTorque_def Let_def) (intro undriven.construct undriven_brake)

lemma undriven_unless_valid:
  assumes "run_state (motor_output ovf api profile_id oi) s = (r, s')"
    and "fst (motor_action profile_id (md_initialized s) oi) = MA_torque request" and "\<not> tr_valid request"
  shows "undriven s s'"
proof -
  obtain e where m: "motor_action profile_id (md_initialized s) oi = (MA_torque request, e)"
    using assms(2) by (cases "motor_action profile_id (md_initialized s) oi") simp
  have "guar undriven (do { outcome \<leftarrow> applyTorque ovf api profile_id oi request; check_output api outcome })"
    by (intro undriven.construct undriven_invalid [OF assms(3)] undriven_check)
  with assms(1) m show ?thesis by (auto simp: motor_output_def elim: guarD)
qed

lemma manual_guard:
  assumes "fst (manual_action initialized oi) = MA_torque request" and "tr_valid request"
  shows "\<not> finOvertravelFaultLatched (oi_guard oi)"
  using assms by (auto simp: manual_action_def zero_hold_compute_def no_torque_def Let_def split: if_splits)

text \<open>C16: The fin motor is driven only under manual control. In whatever turn the mission task sets a half
  bridge to a duty, no recovery is requested, the output is not inhibited, the flight was not invalidated by
  a reset, the motor is ready and its driver initialized, the mission is in command receive under a manual
  mode other than free, the sample it works on is valid, and the overtravel fault is not latched: with
  neither profile of this build qualified for flight, every turn of a flight coasts or brakes.\<close>

theorem motor_drive_guarded:
  assumes "run_state (motor_output ovf api profile_id oi) s = (r, s')"
    and "md_calls s' = md_calls s @ cs" and "drive_attempt cs"
  shows "\<not> oi_recovery_requested oi \<and> \<not> oi_output_inhibited oi \<and> \<not> sn_reset_invalidated (oi_snapshot oi) \<and>
    oi_motor_ready oi \<and> md_initialized s \<and> sn_state (oi_snapshot oi) = MS_command_receive \<and>
    fv_mode (oi_fin oi) \<noteq> CFM_free \<and> (fv_sample_valid (oi_fin oi) \<or> fv_observation_valid (oi_fin oi)) \<and>
    \<not> finOvertravelFaultLatched (oi_guard oi)"
proof -
  have driven: "\<not> undriven s s'" using assms(2,3) by (simp add: undriven_def)
  then obtain request where a: "fst (motor_action profile_id (md_initialized s) oi) = MA_torque request"
    using undriven_unless_torque [OF assms(1)] by blast
  then have "tr_valid request" using undriven_unless_valid [OF assms(1)] driven by blast
  moreover have c: "sn_state (oi_snapshot oi) = MS_command_receive"
    using torque_conditions [OF a] profiles_unqualified by (simp split: if_splits)
  moreover have "fst (manual_action (md_initialized s) oi) = MA_torque request"
    using a c torque_conditions [OF a] by (simp add: motor_action_def Let_def)
  ultimately have "\<not> finOvertravelFaultLatched (oi_guard oi)" by (intro manual_guard)
  then show ?thesis using torque_conditions [OF a] c by (simp add: output_inhibited_def)
qed

text \<open>A fin that is held where it is.\<close>

definition held_fin :: output_inputs where
  "held_fin = \<lparr>oi_recovery_requested = False, oi_output_inhibited = False, oi_snapshot = snapshot_init,
     oi_fin = \<lparr>fv_mode = CFM_position_hold, fv_target_is_unwrapped = False, fv_target_rad = Fin 0,
       fv_observation_valid = True, fv_sample_valid = True, fv_unwrapped_rad = Fin 0, fv_angle_rad = Fin 0,
       fv_rate_rad_s = Fin 0\<rparr>,
     oi_attitude = \<lparr>av_valid = False, av_fresh = False, av_epoch = 0, av_roll_estimate_rad = Fin 0,
       av_roll_rate_rad_s = Fin 0\<rparr>,
     oi_airspeed_available = False, oi_airspeed_mps = Fin 0, oi_motor_ready = True,
     oi_bus_voltage_valid = False, oi_bus_millivolts = 0, oi_guard = fin_guard_init\<rparr>"

lemma no_force: "torque_map kFlightMotorA kFinSoftwareLimits (Fin 0) (Fin 0) (Fin 0) (Fin 9) =
   \<lparr>mc_requested_output_torque_nm = Fin 0, mc_motor_current_a = Fin 0, mc_motor_voltage_v = Fin 0,
    mc_pwm_duty = Fin 0, mc_positive_in1 = True, mc_saturated = False, mc_brake = False, mc_valid = True\<rparr>"
proof -
  obtain g r k where c: "kTotalGearRatio = Fin r" "kRadiansPerRpm = Fin k" "k \<noteq> 0"
    "dmul (Fin r) (Fin (5033165 / 2 ^ 23)) = Fin g" "g \<noteq> 0"
    using gear_finite radians_per_rpm gear_efficiency by (fastforce simp: kFlightMotorA_def)
  then show ?thesis
    by (simp add: torque_map_def mapper_refuses_def kFlightMotorA_def kFinSoftwareLimits_def clampMagnitude_def
        dclamp_def Let_def del: dmul.simps(1)) (simp add: c(1,2))
qed

lemma held_request: "zero_hold_compute mission_zero_hold fin_guard_init (Fin 0) (Fin 0) =
   \<lparr>tr_output_torque_nm = Fin 0, tr_saturated = False, tr_valid = True\<rparr>"
proof -
  have f: "rnd (58 / 25) = Fin (rnd_real (58 / 25))" "rnd (37 / 125) = Fin (rnd_real (37 / 125))"
    "rnd (4 / 5) = Fin (rnd_real (4 / 5))"
    by (intro rnd_finite; simp)+
  have "1 / 2 \<le> rnd_real (4 / 5)"
    using representable_scaled [of 1 1] by (intro rnd_real_ge) simp_all
  then show ?thesis
    by (simp add: zero_hold_compute_def mission_zero_hold_def finOvertravelFaultLatched_def fin_guard_init_def
        kControlAuthorityLimits_def f clampMagnitude_def dsub_def Let_def)
qed

lemma motor_drive_guarded_witness:
  "\<not> finOvertravelFaultLatched (oi_guard held_fin) \<and>
   drive_attempt (md_calls (snd (run_state (motor_output (\<lambda>_. 0) obedient_ledc 1 held_fin) ready_driver)))"
proof -
  note d = obedient_ledc_def ready_driver_def
  obtain r s where run: "run_state (motor_output (\<lambda>_. 0) obedient_ledc 1 held_fin) ready_driver = (r, s)" by fastforce
  have "motor_action 1 True held_fin = (MA_torque
      \<lparr>tr_output_torque_nm = Fin 0, tr_saturated = False, tr_valid = True\<rparr>, TQE_unavailable)"
    using held_request
    by (simp add: motor_action_def manual_action_def output_inhibited_def held_fin_def snapshot_init_def dsub_def Let_def)
  moreover have "bus_voltage held_fin = Fin 9" by (simp add: bus_voltage_def held_fin_def kMotorBusVoltageV_def)
  moreover have "fv_angle_rad (oi_fin held_fin) = Fin 0" "fv_rate_rad_s (oi_fin held_fin) = Fin 0"
    "oi_motor_ready held_fin" by (simp_all add: held_fin_def)
  ultimately have calls: "drive_attempt (md_calls s)"
    using run no_force
    by (auto simp: motor_output_def applyTorque_def active_profile_def d driver_apply_def
        command_refused_def setChannelDuty_def then_output_def driven_or_coast_def run_output check_output_def
        drive_attempt_def kProductionMotorMaximumDuty_def Let_def split: if_splits)
  moreover have "md_calls s = md_calls ready_driver @ md_calls s" by (simp add: d)
  ultimately show ?thesis using motor_drive_guarded [OF run] run by simp
qed

end
