(* ===== verification/Mission_Task.thy ===== *)
theory Mission_Task
  imports Mission_Output Recovery_Task Recovery_Boot Parachute_Task Command_Worker Runtime_Queues
begin

text \<open>
  \<open>runtime/production_runtime.cpp\<close>, \<open>missionRealtimeTask\<close>: the only owner of the mission state machine. The
  first part of its turn is here: emergencies, answers of the parachute task, and the commands of the
  mission domains, as operations in the state monad over the locals of the task (\<open>mission_task\<close>, with the
  atomics only this task writes) and what it shares (\<open>mission_shared\<close>). Queues, mutexes and clocks are an
  API over the external state \<open>'d\<close>; \<open>mi_others\<close> and \<open>mi_exec_others\<close> are what the other tasks did before an
  access. The messages a loop receives are its input. \<open>mt_trace\<close> is a history variable.
\<close>

unbundle bit_operations_syntax

section \<open>Messages\<close>

record emergency_envelope =
  mg_transaction_id :: u8
  mg_liftoff_detection :: bool

record pending_start =
  pd_request :: generic_command_request
  pd_readiness :: preflight_readiness

definition hold_request :: "u32 \<Rightarrow> para_request" where
  "hold_request epoch = \<lparr>pr_kind = PR_hold, pr_flight_epoch = epoch, pr_safety_authorized = False\<rparr>"

definition liftoff_rollback_flag :: u16 where "liftoff_rollback_flag = push_bit 12 1"
definition actuator_emergency_flag :: u16 where "actuator_emergency_flag = push_bit 13 1"
definition fin_disabled_flag :: u16 where "fin_disabled_flag = push_bit 14 1"

section \<open>State\<close>

record 'd mission_shared =
  mx_out :: "'d outputs"
  mx_executor :: "command_executor \<times> fin_guard"
  mx_recovery_requested :: bool
  mx_liftoff_latch :: u16
  mx_actuator_latch :: u16
  mx_event_overflow_latch :: u16
  mx_failure_overflow_detail :: u16
  mx_result_queue_overflow :: u32
  mx_emergency_metadata_overflow :: u32
  mx_deployment_failure :: u8
  mx_bus_voltage_valid :: bool
  mx_bus_millivolts :: u32
  mx_lps_ready :: bool
  mx_ssc_ready :: bool
  mx_logic_power_present :: bool
  mx_motor_power_present :: bool
  mx_can_healthy :: bool

record pending_fin_move =
  pm_active :: bool
  pm_transaction_id :: u8
  pm_deadline_us :: u64
  pm_target_rad :: dbl

record fin_locals =
  fn_mode :: command_fin_mode
  fn_auto_hold_allowed :: bool
  fn_boot_hold_active :: bool
  fn_target_is_unwrapped :: bool
  fn_target_rad :: dbl
  fn_pending_move :: pending_fin_move
  fn_angle_available :: bool
  fn_zero_available :: bool
  fn_latest_raw :: u16
  fn_previous_wrapped_rad :: dbl
  fn_unwrapped_rad :: dbl
  fn_zero_reference_rad :: dbl
  fn_angle_rad :: dbl
  fn_rate_rad_s :: dbl
  fn_rate_valid :: bool
  fn_velocity :: estimator
  fn_valid_count :: nat
  fn_zero_metadata :: fin_zero_metadata
  fn_zero_configured :: bool
  fn_zero_hold_valid :: bool
  fn_encoder_ready :: bool
  fn_motor_ready :: bool
  fn_output_inhibited :: bool

record calibration_state =
  kb_active :: bool
  kb_transaction_id :: u8
  kb_started_at_us :: u64
  kb_gyro_samples :: u32
  kb_accel_samples :: u32
  kb_gyro_sum_rad_s :: dbl
  kb_accel_sum_x_g :: dbl
  kb_accel_sum_y_g :: dbl
  kb_accel_sum_z_g :: dbl

record air_data_snapshot =
  an_flight :: air_data_event
  an_lps_monotonic_us :: u64
  an_ssc_monotonic_us :: u64
  an_pressure_raw :: u16
  an_temperature_raw :: u8
  an_airspeed_raw :: u8
  an_static_pressure_pa :: dbl
  an_ssc_temperature_celsius :: dbl
  an_airspeed_mps :: dbl
  an_lps_valid :: bool
  an_ssc_valid :: bool
  an_ssc_zero_valid :: bool
  an_airspeed_valid :: bool

definition no_fin_move :: pending_fin_move where
  "no_fin_move = \<lparr>pm_active = False, pm_transaction_id = 0, pm_deadline_us = 0, pm_target_rad = Fin 0\<rparr>"

definition no_calibration :: calibration_state where
  "no_calibration = \<lparr>kb_active = False, kb_transaction_id = 0, kb_started_at_us = 0, kb_gyro_samples = 0,
     kb_accel_samples = 0, kb_gyro_sum_rad_s = Fin 0, kb_accel_sum_x_g = Fin 0, kb_accel_sum_y_g = Fin 0,
     kb_accel_sum_z_g = Fin 0\<rparr>"

datatype mt_event =
    Mt_call mission_call | Mt_emergency u8 | Mt_command generic_command_request
  | Mt_prepare pending_start bool | Mt_response start_response | Mt_finish u8 command_phase command_reason
  | Mt_para bool para_request bool | Mt_power power_request bool | Mt_recovery recovery_request bool
  | Mt_released command_code

record ('d, 'n) mission_task =
  mt_shared :: "'d mission_shared"
  mt_driver :: "'d motor_driver"
  mt_boot :: "'n boot_memory"
  mt_metadata :: flight_metadata
  mt_machine :: mission_machine
  mt_fin :: fin_locals
  mt_recovery_motor_safe :: bool
  mt_start_preparation_pending :: bool
  mt_pending_start :: pending_start
  mt_preflight_generation :: u32
  mt_gyro_bias_valid :: bool
  mt_gravity_reference_valid :: bool
  mt_calibration :: calibration_state
  mt_calibration_generation :: u32
  mt_calibration_active :: bool
  mt_air :: air_data_snapshot
  mt_trace :: "mt_event list"

record 'd mission_api =
  mi_others :: "'d mission_shared \<Rightarrow> 'd mission_shared"
  mi_exec_others :: "'d \<Rightarrow> exec_call list \<times> 'd"
  mi_lock_executor :: "'d \<Rightarrow> bool \<times> 'd"
  mi_lock_state :: "'d \<Rightarrow> bool \<times> 'd"
  mi_now :: "'d \<Rightarrow> u64 \<times> 'd"
  mi_rtc_now :: "'d \<Rightarrow> u64 \<times> 'd"
  mi_return_emergency :: "emergency_envelope \<Rightarrow> 'd \<Rightarrow> bool \<times> 'd"
  mi_return_response :: "start_response \<Rightarrow> 'd \<Rightarrow> bool \<times> 'd"
  mi_return_transition :: "generic_command_request \<Rightarrow> 'd \<Rightarrow> bool \<times> 'd"
  mi_send_result :: "bool \<Rightarrow> command_result \<Rightarrow> 'd \<Rightarrow> bool \<times> 'd"
  mi_send_event :: "event_request \<Rightarrow> 'd \<Rightarrow> bool \<times> 'd"
  mi_send_power :: "power_request \<Rightarrow> 'd \<Rightarrow> bool \<times> 'd"
  mi_send_para :: "bool \<Rightarrow> para_request \<Rightarrow> 'd \<Rightarrow> bool \<times> 'd"
  mi_send_recovery :: "recovery_request \<Rightarrow> 'd \<Rightarrow> bool \<times> 'd"
  mi_send_preparation :: "para_command \<Rightarrow> 'd \<Rightarrow> bool \<times> 'd"
  mi_rails :: "'d rail_api"
  mi_ledc :: "'d ledc_api"
  mi_profile_id :: nat
  mi_configuration_ready :: bool
  mi_ovf :: "dbl \<Rightarrow> int"

type_synonym ('d, 'n, 'a) mis = "(('d, 'n) mission_task, 'a) state"

section \<open>Access to what is shared\<close>

definition mt_emit :: "mt_event \<Rightarrow> ('d, 'n, unit) mis" where
  "mt_emit e = modify (\<lambda>s. s\<lparr>mt_trace := mt_trace s @ [e]\<rparr>)"

definition mt_store :: "('d mission_shared \<Rightarrow> 'd mission_shared) \<Rightarrow> ('d, 'n, unit) mis" where
  "mt_store f = modify (\<lambda>s. s\<lparr>mt_shared := f (mt_shared s)\<rparr>)"

definition mt_load :: "'d mission_api \<Rightarrow> ('d mission_shared \<Rightarrow> 'a) \<Rightarrow> ('d, 'n, 'a) mis" where
  "mt_load api f = do { mt_store (mi_others api); gets (\<lambda>s. f (mt_shared s)) }"

definition mt_access :: "('d \<Rightarrow> 'a \<times> 'd) \<Rightarrow> ('d, 'n, 'a) mis" where
  "mt_access c = do {
     (a, d) \<leftarrow> gets (\<lambda>s. c (ou_board (mx_out (mt_shared s))));
     mt_store (\<lambda>h. h\<lparr>mx_out := (mx_out h)\<lparr>ou_board := d\<rparr>\<rparr>);
     ret a }"

definition fin_update :: "(fin_locals \<Rightarrow> fin_locals) \<Rightarrow> ('d, 'n, unit) mis" where
  "fin_update f = modify (\<lambda>s. s\<lparr>mt_fin := f (mt_fin s)\<rparr>)"

definition on_driver :: "('d, 'a) drv \<Rightarrow> ('d, 'n, 'a) mis" where
  "on_driver m = do {
     (a, driver) \<leftarrow> gets (\<lambda>s. run_state m (mt_driver s));
     modify (\<lambda>s. s\<lparr>mt_driver := driver\<rparr>);
     ret a }"

definition mt_result :: "'d mission_api \<Rightarrow> command_result \<Rightarrow> bool \<Rightarrow> ('d, 'n, unit) mis" where
  "mt_result api result priority = do {
     queued \<leftarrow> mt_access (mi_send_result api priority result);
     only_if (\<not> queued) (mt_store (\<lambda>h. h\<lparr>mx_result_queue_overflow := mx_result_queue_overflow h + 1\<rparr>)) }"

definition mt_event_request :: "'d mission_api \<Rightarrow> u16 \<Rightarrow> mission_state \<Rightarrow> u16 \<Rightarrow> ('d, 'n, unit) mis" where
  "mt_event_request api flags st elapsed_raw = do {
     queued \<leftarrow> mt_access (mi_send_event api
       \<lparr>eq_flags = flags, eq_state = st, eq_elapsed_raw = elapsed_raw, eq_detail = 0\<rparr>);
     only_if (\<not> queued) (do {
       only_if (flags AND parachute_failure_flag \<noteq> 0) (mt_store (\<lambda>h. h\<lparr>mx_failure_overflow_detail := 0\<rparr>));
       mt_store (\<lambda>h. h\<lparr>mx_event_overflow_latch := mx_event_overflow_latch h OR flags\<rparr>) }) }"

definition mt_power :: "'d mission_api \<Rightarrow> power_request \<Rightarrow> ('d, 'n, unit) mis" where
  "mt_power api request = do {
     queued \<leftarrow> mt_access (mi_send_power api request);
     mt_emit (Mt_power request queued) }"

text \<open>A request to the parachute task, to the front of its queue or to the end.\<close>

definition mt_para :: "'d mission_api \<Rightarrow> bool \<Rightarrow> para_request \<Rightarrow> ('d, 'n, bool) mis" where
  "mt_para api front request = do {
     queued \<leftarrow> mt_access (mi_send_para api front request);
     mt_emit (Mt_para front request queued);
     ret queued }"

definition try_executor :: "'d mission_api \<Rightarrow> ('d, 'n, bool) mis" where
  "try_executor api = do {
     others \<leftarrow> mt_access (mi_exec_others api);
     mt_store (\<lambda>h. h\<lparr>mx_executor := exec_run others (mx_executor h)\<rparr>);
     mt_access (mi_lock_executor api) }"

definition try_both :: "'d mission_api \<Rightarrow> ('d, 'n, bool) mis" where
  "try_both api = do {
     executor \<leftarrow> try_executor api;
     if \<not> executor then ret False else mt_access (mi_lock_state api) }"

text \<open>A call of the state machine; \<open>mission_step\<close> is its effect.\<close>

definition machine_call :: "mission_call \<Rightarrow> (mission_machine \<times> fin_guard \<Rightarrow> 'a) \<Rightarrow> ('d, 'n, 'a) mis" where
  "machine_call c result = do {
     a \<leftarrow> gets (\<lambda>s. result (mt_machine s, snd (mx_executor (mt_shared s))));
     modify (\<lambda>s. let (m, g) = mission_step c (mt_machine s, snd (mx_executor (mt_shared s))) in
       s\<lparr>mt_machine := m, mt_shared := (mt_shared s)\<lparr>mx_executor := (fst (mx_executor (mt_shared s)), g)\<rparr>\<rparr>);
     mt_emit (Mt_call c);
     ret a }"

definition mt_snapshot :: "('d, 'n, mission_snapshot) mis" where
  "mt_snapshot = gets (\<lambda>s. mission_snapshot.truncate (mt_machine s))"

definition mt_finish :: "u8 \<Rightarrow> command_phase \<Rightarrow> command_reason \<Rightarrow> u32 \<Rightarrow> ('d, 'n, command_result) mis" where
  "mt_finish tx phase reason detail = do {
     (result, ex, g) \<leftarrow> gets (\<lambda>s. executor_finish tx phase reason detail (fst (mx_executor (mt_shared s)))
       (snd (mx_executor (mt_shared s))));
     mt_store (\<lambda>h. h\<lparr>mx_executor := (ex, g)\<rparr>);
     mt_emit (Mt_finish tx phase reason);
     ret result }"

definition mt_checkpoint :: "'d mission_api \<Rightarrow> ('d, 'n, unit) mis" where
  "mt_checkpoint api = do {
     now \<leftarrow> mt_access (mi_rtc_now api);
     modify (\<lambda>s. s\<lparr>mt_boot := storeFlightCheckpoint now (mt_machine s) (mt_boot s)\<rparr>) }"

text \<open>A loop that receives messages until one of them stops it.\<close>

primrec each_while :: "('x \<Rightarrow> ('s, bool) state) \<Rightarrow> 'x list \<Rightarrow> ('s, unit) state" where
  "each_while f [] = ret ()"
| "each_while f (x # xs) = do { continue \<leftarrow> f x; if continue then each_while f xs else ret () }"

section \<open>Emergencies\<close>

definition liftoff_emergency :: "'d mission_api \<Rightarrow> u8 \<Rightarrow> ('d, 'n, unit) mis" where
  "liftoff_emergency api tx = do {
     transition \<leftarrow> machine_call Call_emergency (\<lambda>(m, g). fst (liftoffDetectionEmergencyStop m));
     sn \<leftarrow> mt_snapshot;
     mt_result api (liftoffEmergencyResult tx (transition = TR_completed)) True;
     only_if (transition = TR_completed) (mt_event_request api liftoff_rollback_flag (sn_state sn) 0) }"

definition fin_released :: "fin_locals \<Rightarrow> fin_locals" where
  "fin_released f = f\<lparr>fn_pending_move := no_fin_move, fn_mode := CFM_free, fn_auto_hold_allowed := False,
     fn_boot_hold_active := False, fn_target_is_unwrapped := False\<rparr>"

text \<open>What an accepted actuator emergency stops.\<close>

definition actuator_stop :: "'d mission_api \<Rightarrow> u8 \<Rightarrow> mission_state \<Rightarrow> command_result list \<Rightarrow> ('d, 'n, unit) mis" where
  "actuator_stop api tx st interrupted = do {
     fin_update (\<lambda>f. fin_released (f\<lparr>fn_output_inhibited := True\<rparr>));
     mt_emit (Mt_emergency tx);
     _ \<leftarrow> on_driver (driver_coast (mi_ledc api));
     mt_power api (power_request_of True True False);
     _ \<leftarrow> mt_para api True (hold_request 0);
     each (\<lambda>r. mt_result api r True) interrupted;
     mt_event_request api actuator_emergency_flag st 0 }"

definition actuator_emergency :: "'d mission_api \<Rightarrow> u8 \<Rightarrow> ('d, 'n, unit) mis" where
  "actuator_emergency api tx = do {
     sn \<leftarrow> mt_snapshot;
     (d, ex) \<leftarrow> gets (\<lambda>s. actuatorEmergency tx (sn_state sn) (fst (mx_executor (mt_shared s))));
     mt_store (\<lambda>h. h\<lparr>mx_executor := (ex, snd (mx_executor h))\<rparr>);
     mt_result api (ed_result d) True;
     only_if (ed_execute d) (actuator_stop api tx (sn_state sn) (ed_interrupted d)) }"

definition on_emergency :: "'d mission_api \<Rightarrow> emergency_envelope \<Rightarrow> ('d, 'n, bool) mis" where
  "on_emergency api e = do {
     locked \<leftarrow> try_both api;
     if \<not> locked then do {
       queued \<leftarrow> mt_access (mi_return_emergency api e);
       only_if (\<not> queued) (mt_store (\<lambda>h. h\<lparr>mx_result_queue_overflow := mx_result_queue_overflow h + 1\<rparr>));
       ret False }
     else do {
       (if mg_liftoff_detection e then liftoff_emergency api (mg_transaction_id e)
        else actuator_emergency api (mg_transaction_id e));
       ret True } }"

text \<open>The latches of the CAN task, moved into the queue for the next turn.\<close>

definition take_liftoff_latch :: "'d mission_api \<Rightarrow> ('d, 'n, unit) mis" where
  "take_liftoff_latch api = do {
     (taken, latch) \<leftarrow> mt_load api (\<lambda>h. latch_take (mx_liftoff_latch h));
     mt_store (\<lambda>h. h\<lparr>mx_liftoff_latch := latch\<rparr>);
     (case taken of None \<Rightarrow> ret () | Some tx \<Rightarrow> do {
       queued \<leftarrow> mt_access (mi_return_emergency api \<lparr>mg_transaction_id = tx, mg_liftoff_detection = True\<rparr>);
       only_if (\<not> queued) (do {
         (lost, latch) \<leftarrow> mt_load api (\<lambda>h. latch_signal tx (mx_liftoff_latch h));
         mt_store (\<lambda>h. h\<lparr>mx_liftoff_latch := latch\<rparr>);
         only_if lost (mt_store (\<lambda>h. h\<lparr>mx_emergency_metadata_overflow := mx_emergency_metadata_overflow h + 1\<rparr>)) }) }) }"

definition take_actuator_latch :: "'d mission_api \<Rightarrow> ('d, 'n, unit) mis" where
  "take_actuator_latch api = do {
     (taken, latch) \<leftarrow> mt_load api (\<lambda>h. latch_take (mx_actuator_latch h));
     mt_store (\<lambda>h. h\<lparr>mx_actuator_latch := latch\<rparr>);
     (case taken of None \<Rightarrow> ret () | Some tx \<Rightarrow> do {
       queued \<leftarrow> mt_access (mi_return_emergency api \<lparr>mg_transaction_id = tx, mg_liftoff_detection = False\<rparr>);
       only_if (\<not> queued) (do {
         (lost, latch) \<leftarrow> mt_load api (\<lambda>h. latch_signal tx (mx_actuator_latch h));
         mt_store (\<lambda>h. h\<lparr>mx_actuator_latch := latch\<rparr>);
         only_if lost (mt_store (\<lambda>h. h\<lparr>mx_emergency_metadata_overflow := mx_emergency_metadata_overflow h + 1\<rparr>)) });
       fin_update (\<lambda>f. f\<lparr>fn_output_inhibited := True\<rparr>);
       _ \<leftarrow> on_driver (driver_coast (mi_ledc api));
       ret () }) }"

section \<open>Answers of the parachute task\<close>

definition is_forced :: "generic_command_request \<Rightarrow> bool" where
  "is_forced r = (gcr_command r = cc CC_force_start_sequence)"

text \<open>The store that lets the motor be driven again.\<close>

definition release_output :: "command_code \<Rightarrow> ('d, 'n, unit) mis" where
  "release_output c = do {
     mt_emit (Mt_released c);
     fin_update (\<lambda>f. f\<lparr>fn_output_inhibited := False\<rparr>) }"

text \<open>The start of a prepared flight attempt: the reason and detail of its result.\<close>

definition start_prepared :: "'d mission_api \<Rightarrow> pending_start \<Rightarrow> u32 \<Rightarrow> ('d, 'n, command_reason \<times> u32) mis" where
  "start_prepared api p detail = do {
     now \<leftarrow> mt_access (mi_now api);
     mode \<leftarrow> ret (if is_forced (pd_request p) then SM_forced else SM_normal);
     transition \<leftarrow> machine_call (mission_call.Call_start now (pd_readiness p) mode)
       (\<lambda>(m, g). fst (startSequence now (pd_readiness p) mode m g));
     if transition = TR_completed then do {
       release_output CC_start_sequence;
       mt_checkpoint api;
       ret (transitionReason transition, if is_forced (pd_request p) then ucast (missingMask (pd_readiness p)) else detail) }
     else do {
       _ \<leftarrow> mt_para api True (hold_request 0);
       ret (transitionReason transition, detail) } }"

definition answer_start :: "'d mission_api \<Rightarrow> pending_start \<Rightarrow> start_response \<Rightarrow> ('d, 'n, unit) mis" where
  "answer_start api p r = do {
     mt_emit (Mt_response r);
     (reason, detail) \<leftarrow> (if sr_reason r = CR_none then start_prepared api p (sr_detail r)
       else do { _ \<leftarrow> mt_para api True (hold_request 0); ret (sr_reason r, sr_detail r) });
     final \<leftarrow> mt_finish (gcr_transaction_id (pd_request p))
       (if reason = CR_none then CP_completed else CP_failed) reason detail;
     mt_result api final False;
     modify (\<lambda>s. s\<lparr>mt_start_preparation_pending := False\<rparr>) }"

definition on_start_response :: "'d mission_api \<Rightarrow> start_response \<Rightarrow> ('d, 'n, bool) mis" where
  "on_start_response api r = do {
     pending \<leftarrow> gets mt_start_preparation_pending;
     p \<leftarrow> gets mt_pending_start;
     if \<not> pending \<or> sr_transaction_id r \<noteq> gcr_transaction_id (pd_request p) then ret True
     else do {
       locked \<leftarrow> try_both api;
       if \<not> locked then do { _ \<leftarrow> mt_access (mi_return_response api r); ret False }
       else do { answer_start api p r; ret True } } }"

section \<open>Commands\<close>

text \<open>What a command leaves for the end of the loop body.\<close>

record command_outcome =
  co_transition :: transition_result
  co_reason :: command_reason
  co_asynchronous :: bool
  co_para :: "para_request option"

definition outcome_of :: "transition_result \<Rightarrow> command_outcome" where
  "outcome_of t = \<lparr>co_transition = t, co_reason = CR_none, co_asynchronous = False, co_para = None\<rparr>"

definition refused_with :: "command_reason \<Rightarrow> command_outcome" where
  "refused_with r = (outcome_of TR_not_configured)\<lparr>co_reason := r\<rparr>"

definition continues :: command_outcome where
  "continues = (outcome_of TR_not_configured)\<lparr>co_asynchronous := True\<rparr>"

definition cancel_command :: "('d, 'n, command_outcome) mis" where
  "cancel_command = do {
     before \<leftarrow> mt_snapshot;
     transition \<leftarrow> machine_call mission_call.Call_cancel (\<lambda>(m, g). fst (cancelSequence m));
     if transition = TR_completed then do {
       modify (\<lambda>s. s\<lparr>mt_boot := clearStartReadinessAudit (mt_boot s)\<rparr>);
       ret ((outcome_of transition)\<lparr>co_para := Some (hold_request (sn_flight_epoch before))\<rparr>) }
     else ret (outcome_of transition) }"

definition fin_free_command :: "('d, 'n, command_outcome) mis" where
  "fin_free_command = do {
     fin_update fin_released;
     release_output CC_fin_free;
     ret (outcome_of TR_completed) }"

definition zeroed :: "fin_locals \<Rightarrow> fin_locals" where
  "zeroed f = f\<lparr>fn_zero_reference_rad := fn_unwrapped_rad f, fn_zero_available := True, fn_angle_rad := Fin 0,
     fn_rate_valid := False, fn_velocity := [], fn_zero_configured := True, fn_zero_hold_valid := False,
     fn_valid_count := 0, fn_pending_move := no_fin_move\<rparr>"

definition zero_metadata :: "u64 \<Rightarrow> fin_locals \<Rightarrow> fin_zero_metadata" where
  "zero_metadata now f = \<lparr>fz_encoder_zero_count = fn_latest_raw f, fz_configured_timestamp_us = now,
     fz_approach_direction = AD_unknown, fz_calibration_method = CM_current_position,
     fz_ground_verification_status = GV_unverified, fz_measured_bidirectional_span_rad = 0x7FC00000\<rparr>"

definition set_fin_zero_command :: "'d mission_api \<Rightarrow> ('d, 'n, command_outcome) mis" where
  "set_fin_zero_command api = do {
     available \<leftarrow> gets (\<lambda>s. fn_encoder_ready (mt_fin s) \<and> fn_angle_available (mt_fin s));
     if \<not> available then ret (refused_with CR_device_unavailable)
     else do {
       fin_update zeroed;
       now \<leftarrow> mt_access (mi_now api);
       fin_update (\<lambda>f. f\<lparr>fn_zero_metadata := zero_metadata now f\<rparr>);
       modify (\<lambda>s. s\<lparr>mt_metadata := publishFinZero (fn_zero_metadata (mt_fin s)) (mt_metadata s)\<rparr>);
       fin_update (\<lambda>f. if fn_boot_hold_active f
         then f\<lparr>fn_target_rad := Fin 0, fn_target_is_unwrapped := False, fn_mode := CFM_position_hold\<rparr>
         else f\<lparr>fn_mode := CFM_free, fn_target_is_unwrapped := False\<rparr>);
       release_output CC_set_fin_zero;
       ret (outcome_of TR_completed) } }"

definition fin_usable :: "fin_locals \<Rightarrow> bool" where
  "fin_usable f = (fn_zero_available f \<and> fn_zero_configured f \<and> fn_encoder_ready f \<and> fn_rate_valid f \<and>
     fn_motor_ready f \<and> isfinite (fn_angle_rad f) \<and> isfinite (fn_rate_rad_s f))"

definition zero_hold_command :: "('d, 'n, command_outcome) mis" where
  "zero_hold_command = do {
     f \<leftarrow> gets mt_fin;
     if \<not> fn_zero_available f \<or> \<not> fn_zero_configured f then ret (refused_with CR_not_configured)
     else if \<not> fin_usable f then ret (refused_with CR_device_unavailable)
     else do {
       fin_update (\<lambda>f. f\<lparr>fn_pending_move := no_fin_move, fn_target_rad := Fin 0, fn_target_is_unwrapped := False,
         fn_auto_hold_allowed := False, fn_boot_hold_active := False, fn_mode := CFM_zero_hold\<rparr>);
       release_output CC_start_fin_zero_hold;
       ret (outcome_of TR_completed) } }"

definition deci_degrees :: "generic_command_request \<Rightarrow> int" where
  "deci_degrees r = sint (ucast (gcr_arguments r ! 0) OR push_bit 8 (ucast (gcr_arguments r ! 1)) :: u16)"

definition kDeciDegreeToRad :: dbl where "kDeciDegreeToRad = rnd 0.0017453292519943296"

definition move_target :: "generic_command_request \<Rightarrow> fin_locals \<Rightarrow> dbl" where
  "move_target r f = dadd (fn_angle_rad f) (dmul (dint (deci_degrees r)) kDeciDegreeToRad)"

definition relative_move_command :: "'d mission_api \<Rightarrow> generic_command_request \<Rightarrow> ('d, 'n, command_outcome) mis" where
  "relative_move_command api r = do {
     f \<leftarrow> gets mt_fin;
     if \<not> fn_zero_available f \<or> \<not> fn_zero_configured f then ret (refused_with CR_not_configured)
     else if \<not> fin_usable f then ret (refused_with CR_device_unavailable)
     else do {
       target \<leftarrow> ret (move_target r f);
       if \<not> fl_configured kFinSoftwareLimits \<or> dless target (fl_minimum_rad kFinSoftwareLimits) \<or>
         dless (fl_maximum_rad kFinSoftwareLimits) target then ret (refused_with CR_invalid_argument)
       else do {
         now \<leftarrow> mt_access (mi_now api);
         fin_update (\<lambda>f. f\<lparr>fn_target_rad := target, fn_target_is_unwrapped := False, fn_auto_hold_allowed := False,
           fn_boot_hold_active := False, fn_mode := CFM_relative_move,
           fn_pending_move := \<lparr>pm_active = True, pm_transaction_id = gcr_transaction_id r,
             pm_deadline_us = now + 10000000, pm_target_rad = target\<rparr>\<rparr>);
         release_output CC_fin_move_relative;
         ret continues } } }"

definition enter_recovery_command :: "'d mission_api \<Rightarrow> ('d, 'n, command_outcome) mis" where
  "enter_recovery_command api = do {
     before \<leftarrow> mt_snapshot;
     if sn_state before \<noteq> MS_descent then ret (refused_with CR_invalid_state)
     else if \<not> sn_power_cutoff_latched before then ret (refused_with CR_safety_interlock)
     else do {
       requested \<leftarrow> mt_load api mx_recovery_requested;
       if requested then ret (outcome_of TR_completed)
       else do {
         request \<leftarrow> ret \<lparr>rq_kind = RQ_enter, rq_control = dc_control dump_none,
           rq_reason = RR_ground_requested\<rparr>;
         queued \<leftarrow> mt_access (mi_send_recovery api request);
         mt_emit (Mt_recovery request queued);
         ret (if queued then outcome_of TR_completed else refused_with CR_busy) } } }"

definition next_nonzero :: "u32 \<Rightarrow> u32" where
  "next_nonzero generation = (if generation + 1 = 0 then 1 else generation + 1)"

definition preflight_readiness_of :: "'d mission_api \<Rightarrow> u64 \<Rightarrow> ('d, 'n) mission_task \<Rightarrow> preflight_readiness" where
  "preflight_readiness_of api now s = \<lparr>pr_generation = mt_preflight_generation s, pr_captured_at_us = now,
     pr_fin_zero_configured = fn_zero_configured (mt_fin s),
     pr_motor_profile_valid = motorProfileValid (mi_profile_id api), pr_gyro_bias_valid = mt_gyro_bias_valid s,
     pr_gravity_reference_valid = mt_gravity_reference_valid s,
     pr_ssc_zero_valid = an_ssc_zero_valid (mt_air s), pr_resources_preallocated = mi_configuration_ready api\<rparr>"

definition start_command :: "'d mission_api \<Rightarrow> generic_command_request \<Rightarrow> ('d, 'n, command_outcome) mis" where
  "start_command api r = do {
     modify (\<lambda>s. s\<lparr>mt_preflight_generation := next_nonzero (mt_preflight_generation s)\<rparr>);
     now \<leftarrow> mt_access (mi_now api);
     readiness \<leftarrow> gets (preflight_readiness_of api now);
     modify (\<lambda>s. s\<lparr>mt_boot := storeStartReadinessAudit readiness (is_forced r) (mt_boot s)\<rparr>);
     pending \<leftarrow> gets mt_start_preparation_pending;
     if pending then ret (refused_with CR_busy)
     else do {
       queued \<leftarrow> mt_access (mi_send_preparation api \<lparr>pc_kind = PCK_start_preparation, pc_command = r\<rparr>);
       mt_emit (Mt_prepare \<lparr>pd_request = r, pd_readiness = readiness\<rparr> queued);
       if queued then do {
         modify (\<lambda>s. s\<lparr>mt_pending_start := \<lparr>pd_request = r, pd_readiness = readiness\<rparr>,
           mt_start_preparation_pending := True\<rparr>);
         ret continues }
       else ret (refused_with CR_busy) } }"

definition calibration_command :: "'d mission_api \<Rightarrow> generic_command_request \<Rightarrow> ('d, 'n, command_outcome) mis" where
  "calibration_command api r = do {
     active \<leftarrow> gets (\<lambda>s. kb_active (mt_calibration s));
     if active then ret (refused_with CR_busy)
     else do {
       now \<leftarrow> mt_access (mi_now api);
       modify (\<lambda>s. s\<lparr>mt_calibration := no_calibration\<lparr>kb_active := True,
           kb_transaction_id := gcr_transaction_id r, kb_started_at_us := now\<rparr>,
         mt_gyro_bias_valid := False, mt_gravity_reference_valid := False,
         mt_air := (mt_air s)\<lparr>an_ssc_zero_valid := False, an_airspeed_valid := False\<rparr>,
         mt_calibration_generation := next_nonzero (mt_calibration_generation s),
         mt_calibration_active := True\<rparr>);
       ret continues } }"

text \<open>The other codes leave \<open>not_configured\<close>.\<close>

definition run_command :: "'d mission_api \<Rightarrow> generic_command_request \<Rightarrow> ('d, 'n, command_outcome) mis" where
  "run_command api r = (let code = gcr_command r in
     if code = cc CC_cancel_sequence then cancel_command
     else if code = cc CC_disable_fin_control then do {
       transition \<leftarrow> machine_call Call_disable (\<lambda>(m, g). fst (disableFinControl m));
       ret (outcome_of transition) }
     else if code = cc CC_fin_free then fin_free_command
     else if code = cc CC_set_fin_zero then set_fin_zero_command api
     else if code = cc CC_start_fin_zero_hold then zero_hold_command
     else if code = cc CC_fin_move_relative then relative_move_command api r
     else if code = cc CC_enter_recovery then enter_recovery_command api
     else if code = cc CC_start_sequence \<or> code = cc CC_force_start_sequence then start_command api r
     else if code = cc CC_run_preflight_calibration then calibration_command api r
     else ret (outcome_of TR_not_configured))"

definition complete_command ::
    "'d mission_api \<Rightarrow> generic_command_request \<Rightarrow> command_outcome \<Rightarrow> ('d, 'n, unit) mis" where
  "complete_command api r out = do {
     sn \<leftarrow> mt_snapshot;
     (case co_para out of None \<Rightarrow> ret ()
      | Some request \<Rightarrow> do {
          queued \<leftarrow> mt_para api True request;
          only_if (\<not> queued) (mt_store (\<lambda>h. h\<lparr>mx_out := snd (setTrackedParaPower (mi_rails api) False (mx_out h))\<rparr>)) });
     reason \<leftarrow> ret (if co_reason out = CR_none then transitionReason (co_transition out) else co_reason out);
     final \<leftarrow> mt_finish (gcr_transaction_id r) (if reason = CR_none then CP_completed else CP_failed) reason 0;
     mt_result api final False;
     only_if (gcr_command r = cc CC_disable_fin_control \<and> co_transition out = TR_completed)
       (mt_event_request api fin_disabled_flag (sn_state sn) 0) }"

definition on_transition :: "'d mission_api \<Rightarrow> generic_command_request \<Rightarrow> ('d, 'n, bool) mis" where
  "on_transition api r = do {
     locked \<leftarrow> try_both api;
     if \<not> locked then do {
       queued \<leftarrow> mt_access (mi_return_transition api r);
       only_if (\<not> queued) (mt_store (\<lambda>h. h\<lparr>mx_result_queue_overflow := mx_result_queue_overflow h + 1\<rparr>));
       ret False }
     else do {
       mt_emit (Mt_command r);
       out \<leftarrow> run_command api r;
       only_if (\<not> co_asynchronous out) (complete_command api r out);
       ret True } }"

section \<open>The first part of a turn\<close>

record turn_messages =
  tu_emergencies :: "emergency_envelope list"
  tu_responses :: "start_response list"
  tu_commands :: "generic_command_request list"

definition recovery_coast :: "'d mission_api \<Rightarrow> ('d, 'n, unit) mis" where
  "recovery_coast api = do {
     requested \<leftarrow> mt_load api mx_recovery_requested;
     only_if requested (do {
       result \<leftarrow> on_driver (driver_coast (mi_ledc api));
       modify (\<lambda>s. s\<lparr>mt_recovery_motor_safe := result = EC_ok\<rparr>) }) }"

definition mission_messages :: "'d mission_api \<Rightarrow> turn_messages \<Rightarrow> ('d, 'n, unit) mis" where
  "mission_messages api t = do {
     recovery_coast api;
     each_while (on_emergency api) (tu_emergencies t);
     take_liftoff_latch api;
     take_actuator_latch api;
     each_while (on_start_response api) (tu_responses t);
     each_while (on_transition api) (tu_commands t) }"

end
