(* ===== verification/Mission_Guards.thy ===== *)
theory Mission_Guards
  imports Mission_Task
begin

text \<open>
  What the messages of the mission task may do: a flight attempt starts only from a preparation that a start
  command asked for and that has not been used, and an actuator emergency keeps the fin motor off until a
  command or a start releases it.
\<close>

section \<open>What the history says\<close>

definition start_mode_of :: "generic_command_request \<Rightarrow> start_mode" where
  "start_mode_of r = (if is_forced r then SM_forced else SM_normal)"

text \<open>The preparation that was queued and is not answered.\<close>

fun awaiting_after :: "mt_event \<Rightarrow> pending_start option \<Rightarrow> pending_start option" where
  "awaiting_after (Mt_prepare p queued) w = (if queued then Some p else w)"
| "awaiting_after (Mt_response r) w = None"
| "awaiting_after e w = w"

definition awaiting :: "mt_event list \<Rightarrow> pending_start option" where
  "awaiting tr = fold awaiting_after tr None"

text \<open>An emergency after which the output was not released.\<close>

fun held_after :: "mt_event \<Rightarrow> bool \<Rightarrow> bool" where
  "held_after (Mt_emergency tx) b = True"
| "held_after (Mt_released c) b = False"
| "held_after e b = b"

definition held :: "mt_event list \<Rightarrow> bool" where
  "held tr = fold held_after tr False"

lemma history_snoc [simp]: "awaiting (tr @ [e]) = awaiting_after e (awaiting tr)" "held (tr @ [e]) = held_after e (held tr)"
  by (simp_all add: awaiting_def held_def)

text \<open>What lets the motor be driven again.\<close>

definition releasing_codes :: "command_code list" where
  "releasing_codes = [CC_fin_free, CC_set_fin_zero, CC_start_fin_zero_hold, CC_fin_move_relative]"

fun releases :: "mt_event \<Rightarrow> command_code \<Rightarrow> bool" where
  "releases (Mt_command r) c = (c \<in> set releasing_codes \<and> gcr_command r = cc c)"
| "releases (Mt_call (mission_call.Call_start now readiness mode)) c = (c = CC_start_sequence)"
| "releases e c = False"

definition starts_prepared ::
    "pending_start option \<Rightarrow> start_response \<Rightarrow> preflight_readiness \<Rightarrow> start_mode \<Rightarrow> bool" where
  "starts_prepared w r readiness mode = (case w of None \<Rightarrow> False | Some p \<Rightarrow> sr_reason r = CR_none \<and>
     sr_transaction_id r = gcr_transaction_id (pd_request p) \<and> readiness = pd_readiness p \<and>
     mode = start_mode_of (pd_request p))"

definition start_codes :: "u8 list" where
  "start_codes = [cc CC_start_sequence, cc CC_force_start_sequence]"

text \<open>Which event may follow a history.\<close>

fun msg_allowed :: "mt_event list \<Rightarrow> mt_event \<Rightarrow> bool" where
  "msg_allowed tr (Mt_call (mission_call.Call_start now readiness mode)) =
     (\<exists>earlier r. tr = earlier @ [Mt_response r] \<and> starts_prepared (awaiting earlier) r readiness mode)"
| "msg_allowed tr (Mt_prepare p queued) =
     (\<exists>earlier. tr = earlier @ [Mt_command (pd_request p)] \<and> gcr_command (pd_request p) \<in> set start_codes \<and>
       awaiting tr = None)"
| "msg_allowed tr (Mt_released c) = (\<exists>earlier e. tr = earlier @ [e] \<and> releases e c)"
| "msg_allowed tr e = True"

section \<open>Operations that leave the view\<close>

definition same_view :: "('d, 'n) mission_task \<Rightarrow> ('d, 'n) mission_task \<Rightarrow> bool" where
  "same_view s s' = (mt_trace s' = mt_trace s \<and> fn_output_inhibited (mt_fin s') = fn_output_inhibited (mt_fin s) \<and>
     mt_start_preparation_pending s' = mt_start_preparation_pending s \<and> mt_pending_start s' = mt_pending_start s)"

fun mild_event :: "mt_event \<Rightarrow> bool" where
  "mild_event (Mt_call (mission_call.Call_start now readiness mode)) = False"
| "mild_event (Mt_prepare p queued) = False"
| "mild_event (Mt_response r) = False"
| "mild_event (Mt_released c) = False"
| "mild_event (Mt_emergency tx) = False"
| "mild_event e = True"

lemma mild_event: "mild_event e \<Longrightarrow> msg_allowed tr e \<and> awaiting_after e w = w \<and> held_after e b = b"
  by (cases e) (auto elim!: mild_event.elims)

definition mild :: "('d, 'n) mission_task \<Rightarrow> ('d, 'n) mission_task \<Rightarrow> bool" where
  "mild s s' = (\<exists>es. mt_trace s' = mt_trace s @ es \<and> list_all mild_event es \<and>
     (fn_output_inhibited (mt_fin s) \<longrightarrow> fn_output_inhibited (mt_fin s')) \<and>
     mt_start_preparation_pending s' = mt_start_preparation_pending s \<and> mt_pending_start s' = mt_pending_start s)"

lemma mild_refl: "mild s s"
  by (simp add: mild_def)

lemma mild_trans: "mild a b \<Longrightarrow> mild b c \<Longrightarrow> mild a c"
  by (auto simp: mild_def)

interpretation same_view: guarantee same_view
  by standard (simp add: preorder_rel_def same_view_def)

interpretation mild: guarantee mild
  by standard (auto simp: preorder_rel_def mild_refl intro: mild_trans)

lemma same_mild: "guar same_view m \<Longrightarrow> guar mild m"
  by (auto simp: guar_def same_view_def mild_def)

named_theorems same_ops \<open>operations that leave the view\<close>
named_theorems mild_ops \<open>operations that add only mild events\<close>

lemma same_modify [same_ops]:
  "(\<And>s. mt_trace (f s) = mt_trace s) \<Longrightarrow> (\<And>s. fn_output_inhibited (mt_fin (f s)) = fn_output_inhibited (mt_fin s)) \<Longrightarrow>
   (\<And>s. mt_start_preparation_pending (f s) = mt_start_preparation_pending s) \<Longrightarrow>
   (\<And>s. mt_pending_start (f s) = mt_pending_start s) \<Longrightarrow> guar same_view (modify f)"
  by (intro same_view.modify) (simp add: same_view_def)

lemma same_store [same_ops]: "guar same_view (mt_store f)"
  unfolding mt_store_def by (intro same_view.construct same_ops) simp_all

lemma same_access [same_ops]: "guar same_view (mt_access c)"
  unfolding mt_access_def by (intro same_view.construct same_ops)

lemma same_load [same_ops]: "guar same_view (mt_load api f)"
  unfolding mt_load_def by (intro same_view.construct same_ops)

lemma same_driver [same_ops]: "guar same_view (on_driver m)"
  unfolding on_driver_def by (intro same_view.construct same_ops) simp_all

lemma same_fin [same_ops]: "(\<And>f. fn_output_inhibited (g f) = fn_output_inhibited f) \<Longrightarrow> guar same_view (fin_update g)"
  unfolding fin_update_def by (intro same_view.construct same_ops) simp_all

lemma same_snapshot [same_ops]: "guar same_view mt_snapshot"
  unfolding mt_snapshot_def by (rule same_view.gets)

lemma same_executor [same_ops]: "guar same_view (try_executor api)"
  unfolding try_executor_def by (intro same_view.construct same_ops)

lemma same_both [same_ops]: "guar same_view (try_both api)"
  unfolding try_both_def by (intro same_view.construct same_ops)

lemma same_result [same_ops]: "guar same_view (mt_result api r b)"
  unfolding mt_result_def by (intro same_view.construct same_ops)

lemma same_event [same_ops]: "guar same_view (mt_event_request api fl st e)"
  unfolding mt_event_request_def by (intro same_view.construct same_ops)

lemma same_checkpoint [same_ops]: "guar same_view (mt_checkpoint api)"
  unfolding mt_checkpoint_def by (intro same_view.construct same_ops) simp_all

section \<open>Operations that add only mild events\<close>

lemma mild_emit [mild_ops]: "mild_event e \<Longrightarrow> guar mild (mt_emit e)"
  unfolding mt_emit_def by (intro mild.modify) (simp add: mild_def)

lemma mild_power [mild_ops]: "guar mild (mt_power api r)"
  unfolding mt_power_def by (intro mild.construct mild_ops same_ops [THEN same_mild]) simp

lemma mild_para [mild_ops]: "guar mild (mt_para api b r)"
  unfolding mt_para_def by (intro mild.construct mild_ops same_ops [THEN same_mild]) simp

lemma mild_finish [mild_ops]: "guar mild (mt_finish tx ph rs dt)"
  unfolding mt_finish_def by (intro mild.construct mild_ops same_ops [THEN same_mild]) simp

lemma mild_call [mild_ops]: "mild_event (Mt_call c) \<Longrightarrow> guar mild (machine_call c g)"
  unfolding machine_call_def by (intro mild.construct mild_ops same_ops [THEN same_mild]) (simp_all split: prod.split)

lemma mild_each [mild_ops]: "(\<And>x. guar mild (f x)) \<Longrightarrow> guar mild (each f xs)"
  by (induction xs) (simp_all add: mild.ret mild.bind)

section \<open>The invariants\<close>

definition safe_inv :: "('d, 'n) mission_task \<Rightarrow> bool" where
  "safe_inv s = (trace_allowed msg_allowed (mt_trace s) \<and> (held (mt_trace s) \<longrightarrow> fn_output_inhibited (mt_fin s)))"

text \<open>Between messages the task waits for the answer of the preparation that is not answered.\<close>

definition idle_inv :: "('d, 'n) mission_task \<Rightarrow> bool" where
  "idle_inv s = (safe_inv s \<and>
     awaiting (mt_trace s) = (if mt_start_preparation_pending s then Some (mt_pending_start s) else None))"

definition answered_inv :: "('d, 'n) mission_task \<Rightarrow> bool" where
  "answered_inv s = (safe_inv s \<and> awaiting (mt_trace s) = None)"

definition commanded :: "generic_command_request \<Rightarrow> ('d, 'n) mission_task \<Rightarrow> bool" where
  "commanded r s = (idle_inv s \<and> (\<exists>earlier. mt_trace s = earlier @ [Mt_command r]))"

lemma mild_events:
  assumes "list_all mild_event es"
  shows "awaiting (tr @ es) = awaiting tr \<and> held (tr @ es) = held tr \<and>
    (trace_allowed msg_allowed tr \<longrightarrow> trace_allowed msg_allowed (tr @ es))"
  using assms
proof (induction es rule: rev_induct)
  case (snoc e es)
  then show ?case using mild_event [of e] by (simp flip: append_assoc)
qed simp

lemma mild_safe: "mild s s' \<Longrightarrow> safe_inv s \<Longrightarrow> safe_inv s'"
  by (auto simp: mild_def safe_inv_def mild_events)

lemma mild_idle: "mild s s' \<Longrightarrow> idle_inv s \<Longrightarrow> idle_inv s'"
  using mild_safe by (auto simp: mild_def idle_inv_def mild_events)

lemma mild_answered: "mild s s' \<Longrightarrow> answered_inv s \<Longrightarrow> answered_inv s'"
  using mild_safe by (auto simp: mild_def answered_inv_def mild_events)

lemma same_commanded: "same_view s s' \<Longrightarrow> commanded r s \<Longrightarrow> commanded r s'"
  by (auto simp: same_view_def commanded_def idle_inv_def safe_inv_def)

lemma mild_keeps_idle: "guar mild m \<Longrightarrow> keeps idle_inv m"
  using mild_idle by (auto intro: guar_keeps)

lemma keeps_answered: "guar mild m \<Longrightarrow> keeps answered_inv m"
  using mild_answered by (auto intro: guar_keeps)

lemma keeps_commanded: "guar same_view m \<Longrightarrow> keeps (commanded r) m"
  using same_commanded by (auto intro: guar_keeps)

lemma commanded_idle: "commanded r s \<Longrightarrow> idle_inv s"
  by (simp add: commanded_def)

lemma valid_then:
  "keeps I m \<Longrightarrow> (\<And>a. valid I (f a) Q) \<Longrightarrow> valid I (m \<bind> f) Q"
  by (intro valid_bind [of _ _ "\<lambda>_. I"]) (simp_all add: keeps_valid)

lemma after_command: "keeps idle_inv m \<Longrightarrow> valid (commanded r) m (\<lambda>_. idle_inv)"
  by (auto intro: valid_strengthen simp: keeps_valid commanded_idle)

section \<open>Emergencies and the latches\<close>

lemma keeps_stop: "keeps idle_inv (actuator_stop api tx st rs)"
proof -
  have "keeps idle_inv (fin_update (\<lambda>f. fin_released (f\<lparr>fn_output_inhibited := True\<rparr>)) \<bind> (\<lambda>_. mt_emit (Mt_emergency tx)))"
    by (simp add: keeps_def idle_inv_def safe_inv_def fin_update_def mt_emit_def fin_released_def)
  moreover have "guar mild (do {
       _ \<leftarrow> on_driver (driver_coast (mi_ledc api));
       mt_power api (power_request_of True True False);
       _ \<leftarrow> mt_para api True (hold_request 0);
       each (\<lambda>r. mt_result api r True) rs;
       mt_event_request api actuator_emergency_flag st 0 })"
    by (intro mild.construct mild_ops same_ops [THEN same_mild])
  ultimately show ?thesis using keeps_bind [OF _ mild_keeps_idle] by (fastforce simp: actuator_stop_def)
qed

lemma keeps_emergency: "keeps idle_inv (actuator_emergency api tx)"
  unfolding actuator_emergency_def
  by (intro keeps_rules keeps_stop mild_keeps_idle same_ops [THEN same_mild])

lemma keeps_on_emergency: "keeps idle_inv (on_emergency api e)"
proof -
  have "guar mild (liftoff_emergency api tx)" for tx
    unfolding liftoff_emergency_def by (intro mild.construct mild_ops same_ops [THEN same_mild]) simp
  then show ?thesis unfolding on_emergency_def
    by (intro keeps_rules mild_keeps_idle keeps_emergency mild.construct same_ops [THEN same_mild])
qed

lemma mild_inhibit: "guar mild (fin_update (\<lambda>f. f\<lparr>fn_output_inhibited := True\<rparr>))"
  unfolding fin_update_def by (intro mild.modify) (simp add: mild_def)

lemma keeps_latches: "keeps idle_inv (take_liftoff_latch api)" "keeps idle_inv (take_actuator_latch api)"
  unfolding take_liftoff_latch_def take_actuator_latch_def
  by (intro mild_keeps_idle mild.construct mild_inhibit same_ops [THEN same_mild])+

section \<open>Answers\<close>

definition answered_by :: "pending_start \<Rightarrow> start_response \<Rightarrow> ('d, 'n) mission_task \<Rightarrow> bool" where
  "answered_by p r s = (safe_inv s \<and>
     (\<exists>earlier. mt_trace s = earlier @ [Mt_response r] \<and> awaiting earlier = Some p))"

definition started :: "('d, 'n) mission_task \<Rightarrow> bool" where
  "started s = (answered_inv s \<and>
     (\<exists>earlier now readiness mode. mt_trace s = earlier @ [Mt_call (mission_call.Call_start now readiness mode)]))"

lemma same_answered_by: "guar same_view m \<Longrightarrow> keeps (answered_by p r) m"
  by (erule guar_keeps) (auto simp: same_view_def answered_by_def safe_inv_def)

lemma answered_by_answered: "answered_by p r s \<Longrightarrow> answered_inv s"
  by (auto simp: answered_by_def answered_inv_def)

text \<open>The release keeps the invariants where its cause is the last event.\<close>

lemma released_inv:
  assumes "safe_inv s" and "mt_trace s = earlier @ [e]" and "releases e c"
  shows "safe_inv (snd (run_state (release_output c) s))"
proof -
  have "msg_allowed (mt_trace s) (Mt_released c)" using assms(2,3) by simp
  then show ?thesis using assms(1)
    by (simp add: release_output_def mt_emit_def fin_update_def safe_inv_def del: msg_allowed.simps)
qed

lemma release_frame: "run_state (release_output c) s = (a, s') \<Longrightarrow>
   awaiting (mt_trace s') = awaiting (mt_trace s) \<and> mt_pending_start s' = mt_pending_start s \<and>
   mt_start_preparation_pending s' = mt_start_preparation_pending s"
  by (auto simp: release_output_def mt_emit_def fin_update_def)

lemma released_start: "valid started (release_output CC_start_sequence) (\<lambda>_. answered_inv)"
proof (rule validI)
  fix s :: "('a, 'b) mission_task" and a s'
  assume "started s" and run: "run_state (release_output CC_start_sequence) s = (a, s')"
  then obtain earlier now readiness mode where s: "safe_inv s" "awaiting (mt_trace s) = None"
    "mt_trace s = earlier @ [Mt_call (mission_call.Call_start now readiness mode)]"
    by (auto simp: started_def answered_inv_def)
  show "answered_inv s'" using released_inv [OF s(1,3), of CC_start_sequence] release_frame [OF run] s(2) run
    by (simp add: answered_inv_def)
qed

lemma released_command:
  assumes "gcr_command r = cc c" and "c \<in> set releasing_codes"
  shows "valid (commanded r) (release_output c) (\<lambda>_. idle_inv)"
proof (rule validI)
  fix s :: "('a, 'b) mission_task" and a s'
  assume "commanded r s" and run: "run_state (release_output c) s = (a, s')"
  then obtain earlier where s: "idle_inv s" "mt_trace s = earlier @ [Mt_command r]"
    by (auto simp: commanded_def)
  then have "safe_inv s'" using released_inv [OF _ s(2), of c] assms run by (simp add: idle_inv_def)
  then show "idle_inv s'" using release_frame [OF run] s run by (simp add: idle_inv_def)
qed

lemma valid_start_call:
  assumes "starts_prepared (Some p) r readiness mode"
  shows "valid (answered_by p r) (machine_call (mission_call.Call_start now readiness mode) g) (\<lambda>_. started)"
  using assms by (auto simp: valid_def machine_call_def mt_emit_def answered_by_def started_def answered_inv_def
      safe_inv_def split: prod.split)

lemma valid_answered: "guar mild m \<Longrightarrow> (\<And>s. P s \<Longrightarrow> answered_inv s) \<Longrightarrow> valid P m (\<lambda>_. answered_inv)"
  using keeps_answered by (auto simp: keeps_valid intro: valid_strengthen)

lemma started_rest:
  "valid started (if t = TR_completed
     then do { release_output CC_start_sequence; mt_checkpoint api; ret x }
     else do { _ \<leftarrow> mt_para api True (hold_request 0); ret y }) (\<lambda>_. answered_inv)"
proof (rule valid_if)
  show "valid started (do { release_output CC_start_sequence; mt_checkpoint api; ret x }) (\<lambda>_. answered_inv)"
    by (intro valid_bind [OF released_start] valid_answered mild.construct same_ops [THEN same_mild])
  show "valid started (do { _ \<leftarrow> mt_para api True (hold_request 0); ret y }) (\<lambda>_. answered_inv)"
    by (intro valid_answered mild.construct mild_ops) (simp add: started_def)
qed

lemma valid_start_prepared:
  assumes "sr_reason r = CR_none" and "sr_transaction_id r = gcr_transaction_id (pd_request p)"
  shows "valid (answered_by p r) (start_prepared api p detail) (\<lambda>_. answered_inv)"
proof -
  have "starts_prepared (Some p) r (pd_readiness p) (start_mode_of (pd_request p))"
    using assms by (simp add: starts_prepared_def)
  note call = valid_start_call [OF this]
  show ?thesis unfolding start_prepared_def start_mode_of_def [symmetric]
    by (rule valid_then [OF same_answered_by [OF same_access]], rule valid_ret_bind, rule valid_bind [OF call started_rest])
qed

lemma valid_answer:
  assumes "sr_transaction_id r = gcr_transaction_id (pd_request p)"
  shows "valid (\<lambda>s. idle_inv s \<and> mt_start_preparation_pending s \<and> mt_pending_start s = p) (answer_start api p r) (\<lambda>_. idle_inv)"
proof -
  have emit: "valid (\<lambda>s. idle_inv s \<and> mt_start_preparation_pending s \<and> mt_pending_start s = p) (mt_emit (Mt_response r))
      (\<lambda>_. answered_by p r)"
    by (auto simp: valid_def mt_emit_def answered_by_def idle_inv_def safe_inv_def)
  have discard: "valid (answered_by p r) (mt_para api True (hold_request 0) \<bind> (\<lambda>_. ret x)) (\<lambda>_. answered_inv)" for x
    by (intro valid_answered mild.construct mild_ops) (rule answered_by_answered)
  have reset: "valid answered_inv (modify (\<lambda>s. s\<lparr>mt_start_preparation_pending := False\<rparr>)) (\<lambda>_. idle_inv)"
    by (auto simp: valid_def idle_inv_def answered_inv_def safe_inv_def)
  have finish: "valid answered_inv (do { final \<leftarrow> mt_finish tx ph rs dt; mt_result api final False;
      modify (\<lambda>s. s\<lparr>mt_start_preparation_pending := False\<rparr>) }) (\<lambda>_. idle_inv)" for tx ph rs dt
    by (intro valid_then keeps_answered mild_ops same_ops [THEN same_mild] reset)
  show ?thesis unfolding answer_start_def
    by (rule valid_bind [OF emit], rule valid_bind [where R = "\<lambda>_. answered_inv"])
      (use assms in \<open>auto intro!: valid_start_prepared discard finish split: prod.split\<close>)
qed

definition waiting_for :: "pending_start \<Rightarrow> ('d, 'n) mission_task \<Rightarrow> bool" where
  "waiting_for p s = (idle_inv s \<and> mt_start_preparation_pending s \<and> mt_pending_start s = p)"

lemma keeps_waiting: "guar same_view m \<Longrightarrow> keeps (waiting_for p) m"
  by (erule guar_keeps) (auto simp: same_view_def waiting_for_def idle_inv_def safe_inv_def)

lemma valid_waiting:
  assumes "sr_transaction_id r = gcr_transaction_id (pd_request p)"
  shows "valid (waiting_for p) (do { locked \<leftarrow> try_both api;
     if \<not> locked then do { _ \<leftarrow> mt_access (mi_return_response api r); ret False }
     else do { answer_start api p r; ret True } }) (\<lambda>_. idle_inv)"
proof (rule valid_then [OF keeps_waiting [OF same_both]], rule valid_if)
  have "keeps (waiting_for p) (do { _ \<leftarrow> mt_access (mi_return_response api r); ret False })"
    by (intro keeps_waiting same_view.construct same_ops)
  then show "valid (waiting_for p) (do { _ \<leftarrow> mt_access (mi_return_response api r); ret False }) (\<lambda>_. idle_inv)"
    unfolding keeps_valid by (rule valid_weaken) (simp add: waiting_for_def)
  show "valid (waiting_for p) (do { answer_start api p r; ret True }) (\<lambda>_. idle_inv)"
    by (rule valid_bind [OF valid_answer [OF assms, folded waiting_for_def]]) (simp add: valid_ret)
qed

lemma keeps_start_response: "keeps idle_inv (on_start_response api r)"
  unfolding on_start_response_def keeps_valid
  by (rule valid_gets_bind, rule valid_gets_bind, rule valid_if)
    (auto intro!: valid_ret valid_strengthen [OF valid_waiting] simp: waiting_for_def)

section \<open>Commands\<close>

lemma commanded_mild: "guar mild m \<Longrightarrow> valid (commanded r) m (\<lambda>_. idle_inv)"
  by (intro after_command mild_keeps_idle)

lemma commanded_release:
  assumes "gcr_command r = cc c" and "c \<in> set releasing_codes"
  shows "valid (commanded r) (do { release_output c; ret x }) (\<lambda>_. idle_inv)"
  by (rule valid_bind [OF released_command [OF assms]]) (simp add: valid_ret)

text \<open>Steps that leave the view, up to the release.\<close>

lemma commanded_then:
  "guar same_view m \<Longrightarrow> (\<And>a. valid (commanded r) (f a) Q) \<Longrightarrow> valid (commanded r) (m \<bind> f) Q"
  by (intro valid_then keeps_commanded)

lemma commanded_refuse: "valid (commanded r) (ret x) (\<lambda>_. idle_inv)"
  by (intro commanded_mild mild.ret)

lemmas commanded_rules = commanded_refuse valid_if commanded_then same_view.gets same_view.ret

lemma fin_commands:
  "gcr_command r = cc CC_fin_free \<Longrightarrow> valid (commanded r) fin_free_command (\<lambda>_. idle_inv)"
  "gcr_command r = cc CC_set_fin_zero \<Longrightarrow> valid (commanded r) (set_fin_zero_command api) (\<lambda>_. idle_inv)"
  "gcr_command r = cc CC_start_fin_zero_hold \<Longrightarrow> valid (commanded r) zero_hold_command (\<lambda>_. idle_inv)"
  "gcr_command r = cc CC_fin_move_relative \<Longrightarrow> valid (commanded r) (relative_move_command api r) (\<lambda>_. idle_inv)"
  unfolding fin_free_command_def set_fin_zero_command_def zero_hold_command_def relative_move_command_def
  by ((intro commanded_rules commanded_release same_ops;
      simp add: releasing_codes_def fin_released_def zeroed_def)+)

lemma mild_commands:
  "guar mild cancel_command" "guar mild (enter_recovery_command api)" "guar mild (calibration_command api r)"
  unfolding cancel_command_def enter_recovery_command_def calibration_command_def
  by (intro mild.construct mild_ops same_ops [THEN same_mild]; simp)+

definition may_prepare :: "generic_command_request \<Rightarrow> ('d, 'n) mission_task \<Rightarrow> bool" where
  "may_prepare r s = (commanded r s \<and> \<not> mt_start_preparation_pending s)"

lemma keeps_may_prepare: "guar same_view m \<Longrightarrow> keeps (may_prepare r) m"
  by (erule guar_keeps) (auto simp: may_prepare_def dest: same_commanded, auto simp: same_view_def)

lemma prepare_idle:
  assumes "gcr_command r \<in> set start_codes"
  shows "valid (may_prepare r) (do {
       mt_emit (Mt_prepare \<lparr>pd_request = r, pd_readiness = readiness\<rparr> queued);
       if queued then do {
         modify (\<lambda>s. s\<lparr>mt_pending_start := \<lparr>pd_request = r, pd_readiness = readiness\<rparr>,
           mt_start_preparation_pending := True\<rparr>);
         ret continues }
       else ret (refused_with CR_busy) }) (\<lambda>_. idle_inv)"
proof (rule validI)
  fix s :: "('a, 'b) mission_task" and a s'
  assume "may_prepare r s" and run: "run_state (do {
       mt_emit (Mt_prepare \<lparr>pd_request = r, pd_readiness = readiness\<rparr> queued);
       if queued then do {
         modify (\<lambda>s. s\<lparr>mt_pending_start := \<lparr>pd_request = r, pd_readiness = readiness\<rparr>,
           mt_start_preparation_pending := True\<rparr>);
         ret continues }
       else ret (refused_with CR_busy) }) s = (a, s')"
  then have s: "safe_inv s" "awaiting (mt_trace s) = None" "\<not> mt_start_preparation_pending s"
    "\<exists>earlier. mt_trace s = earlier @ [Mt_command r]"
    by (auto simp: may_prepare_def commanded_def idle_inv_def)
  then have "msg_allowed (mt_trace s) (Mt_prepare \<lparr>pd_request = r, pd_readiness = readiness\<rparr> queued)"
    using assms by auto
  then show "idle_inv s'" using run s(1-3)
    by (auto simp: mt_emit_def idle_inv_def safe_inv_def simp del: msg_allowed.simps split: if_splits)
qed

lemma start_command_idle:
  assumes "gcr_command r \<in> set start_codes"
  shows "valid (commanded r) (start_command api r) (\<lambda>_. idle_inv)"
proof -
  have "valid (may_prepare r) (do {
       queued \<leftarrow> mt_access (mi_send_preparation api \<lparr>pc_kind = PCK_start_preparation, pc_command = r\<rparr>);
       mt_emit (Mt_prepare \<lparr>pd_request = r, pd_readiness = readiness\<rparr> queued);
       if queued then do {
         modify (\<lambda>s. s\<lparr>mt_pending_start := \<lparr>pd_request = r, pd_readiness = readiness\<rparr>,
           mt_start_preparation_pending := True\<rparr>);
         ret continues }
       else ret (refused_with CR_busy) }) (\<lambda>_. idle_inv)" for readiness
    by (intro valid_then keeps_may_prepare same_ops prepare_idle assms)
  note prepare = this [THEN valid_strengthen]
  show ?thesis unfolding start_command_def
    by (intro commanded_then same_view.gets same_ops valid_gets_bind valid_if prepare)
      (auto intro!: valid_ret simp: may_prepare_def commanded_idle)
qed

lemma valid_run_command: "valid (commanded r) (run_command api r) (\<lambda>_. idle_inv)"
proof -
  have disable: "guar mild (machine_call Call_disable g \<bind> (\<lambda>t. ret (outcome_of t)))" for g
    by (intro mild.construct mild_ops) simp
  show ?thesis unfolding run_command_def Let_def
    by (intro valid_if fin_commands start_command_idle commanded_mild [OF disable]
        mild_commands [THEN commanded_mild] commanded_refuse) (simp_all add: start_codes_def)
qed

lemma keeps_transition: "keeps idle_inv (on_transition api r)"
proof -
  have emit: "valid idle_inv (mt_emit (Mt_command r)) (\<lambda>_. commanded r)"
    by (auto simp: valid_def mt_emit_def commanded_def idle_inv_def safe_inv_def)
  have "guar mild (complete_command api r out)" for out
    unfolding complete_command_def by (intro mild.construct mild_ops same_ops [THEN same_mild])
  then have rest: "keeps idle_inv (do { only_if (\<not> co_asynchronous out) (complete_command api r out); ret True })" for out
    by (intro mild_keeps_idle mild.construct)
  have run: "keeps idle_inv (do { mt_emit (Mt_command r); out \<leftarrow> run_command api r;
      only_if (\<not> co_asynchronous out) (complete_command api r out); ret True })"
    unfolding keeps_valid
    by (rule valid_bind [OF emit], rule valid_bind [OF valid_run_command]) (rule rest [unfolded keeps_valid])
  show ?thesis unfolding on_transition_def
    by (intro keeps_rules run) (intro mild_keeps_idle mild.construct same_ops [THEN same_mild])+
qed

section \<open>The turns\<close>

lemma keeps_each_while: "(\<And>x. keeps I (f x)) \<Longrightarrow> keeps I (each_while f xs)"
  by (induction xs) (auto intro!: keeps_rules)

lemma keeps_messages: "keeps idle_inv (mission_messages api t)"
proof -
  have "guar same_view (recovery_coast api)"
    unfolding recovery_coast_def by (intro same_view.construct same_ops) simp_all
  then show ?thesis unfolding mission_messages_def
    by (intro keeps_rules keeps_each_while keeps_on_emergency keeps_latches keeps_start_response keeps_transition
        mild_keeps_idle same_mild)
qed

text \<open>The states of the task: its turns, and between two of them the rest of the loop body, which reads these
variables and does not write them.\<close>

inductive message_state :: "'d mission_api \<Rightarrow> ('d, 'n) mission_task \<Rightarrow> bool" for api where
  fresh: "mt_trace s = [] \<Longrightarrow> \<not> mt_start_preparation_pending s \<Longrightarrow> message_state api s"
| messages: "message_state api s \<Longrightarrow> message_state api (snd (run_state (mission_messages api t) s))"
| rest: "message_state api s \<Longrightarrow> same_view s s' \<Longrightarrow> message_state api s'"

lemma message_state_idle: "message_state api s \<Longrightarrow> idle_inv s"
proof (induction rule: message_state.induct)
  case (fresh s)
  then show ?case by (simp add: idle_inv_def safe_inv_def awaiting_def held_def)
next
  case (messages s t)
  then show ?case using keeps_messages by (auto simp: keeps_def)
next
  case (rest s s')
  then show ?case by (auto simp: same_view_def idle_inv_def safe_inv_def)
qed

section \<open>Starts\<close>

fun decides :: "mt_event \<Rightarrow> bool" where
  "decides (Mt_prepare p queued) = queued"
| "decides (Mt_response r) = True"
| "decides e = False"

lemma awaiting_split:
  "awaiting tr = Some p \<Longrightarrow> \<exists>before after. tr = before @ Mt_prepare p True # after \<and> list_all (\<lambda>e. \<not> decides e) after"
proof (induction tr rule: rev_induct)
  case (snoc e tr)
  show ?case
  proof (cases "decides e")
    case True
    then have "e = Mt_prepare p True" using snoc.prems by (cases e) (auto split: if_splits)
    then show ?thesis by force
  next
    case False
    then have "awaiting tr = Some p" using snoc.prems by (cases e) auto
    then obtain before after where "tr = before @ Mt_prepare p True # after" "list_all (\<lambda>e. \<not> decides e) after"
      using snoc.IH by blast
    then show ?thesis using False by (intro exI [of _ before] exI [of _ "after @ [e]"]) simp
  qed
qed (simp add: awaiting_def)

lemma trace_allowed_at: "trace_allowed P (pre @ e # post) \<Longrightarrow> P pre e"
  unfolding trace_allowed_def by (erule allE [of _ "length pre"]) simp

lemma trace_allowed_prefix: "trace_allowed P (pre @ post) \<Longrightarrow> trace_allowed P pre"
  unfolding trace_allowed_def by (intro allI impI, erule_tac x = k in allE) (simp add: nth_append)

text \<open>C17: A flight attempt starts only from a preparation that a command asked for. Before every call of
  \<open>startSequence\<close>, in any interleaving of emergencies, answers and commands, the mission task took a start
  command, queued its preparation with the readiness it read then, and received for that transaction an
  answer without a reason to refuse; no other preparation and no other answer lies between, so that a
  preparation starts at most one flight, with its own readiness and in the mode its command named.\<close>

theorem starts_are_prepared:
  assumes "message_state api s"
    and "mt_trace s = pre @ Mt_call (mission_call.Call_start now readiness mode) # post"
  shows "\<exists>before p after r. pre = before @ [Mt_command (pd_request p), Mt_prepare p True] @ after @ [Mt_response r] \<and>
    gcr_command (pd_request p) \<in> set start_codes \<and> list_all (\<lambda>e. \<not> decides e) after \<and>
    sr_reason r = CR_none \<and> sr_transaction_id r = gcr_transaction_id (pd_request p) \<and>
    readiness = pd_readiness p \<and> mode = start_mode_of (pd_request p)"
proof -
  have all: "trace_allowed msg_allowed (pre @ Mt_call (mission_call.Call_start now readiness mode) # post)"
    using message_state_idle [OF assms(1)] assms(2) by (simp add: idle_inv_def safe_inv_def)
  then obtain earlier r where r: "pre = earlier @ [Mt_response r]" "starts_prepared (awaiting earlier) r readiness mode"
    using trace_allowed_at by fastforce
  then obtain p where p: "awaiting earlier = Some p" "starts_prepared (Some p) r readiness mode"
    by (cases "awaiting earlier") (auto simp: starts_prepared_def)
  then obtain start after where a: "earlier = start @ Mt_prepare p True # after" "list_all (\<lambda>e. \<not> decides e) after"
    using awaiting_split by blast
  have "trace_allowed msg_allowed (start @ Mt_prepare p True # (after @ [Mt_response r]))"
    using all r(1) a(1) trace_allowed_prefix [of msg_allowed pre] by simp
  then obtain before where "start = before @ [Mt_command (pd_request p)]" "gcr_command (pd_request p) \<in> set start_codes"
    using trace_allowed_at by fastforce
  then show ?thesis using r(1) p(2) a by (fastforce simp: starts_prepared_def)
qed

section \<open>Emergencies hold\<close>

lemma held_unless_released:
  assumes "list_all (\<lambda>e. \<forall>c. e \<noteq> Mt_released c) post" and "held pre"
  shows "held (pre @ post)"
  using assms
proof (induction post rule: rev_induct)
  case (snoc e post)
  then have "held (pre @ post)" by simp
  then show ?case using snoc.prems by (cases e) (simp_all flip: append_assoc)
qed simp

text \<open>C18: An actuator emergency keeps the fin motor off. If in some turn after an accepted actuator emergency
  the mission task sets a half bridge to a duty, then since the emergency the output was released, and right
  before that release the task took one of the four fin commands that release it or called
  \<open>startSequence\<close>: nothing else, and no lapse of time, ends the emergency.\<close>

theorem emergency_holds:
  assumes "message_state api s" and "mt_trace s = pre @ Mt_emergency tx # post"
    and "oi_output_inhibited oi = fn_output_inhibited (mt_fin s)"
    and "run_state (motor_output (mi_ovf api) (mi_ledc api) (mi_profile_id api) oi) (mt_driver s) = (r, driver)"
    and "md_calls driver = md_calls (mt_driver s) @ cs" and "drive_attempt cs"
  shows "\<exists>before e c after. post = before @ e # Mt_released c # after \<and> releases e c"
proof -
  have inv: "safe_inv s" using message_state_idle [OF assms(1)] by (simp add: idle_inv_def)
  have "\<not> undriven (mt_driver s) driver" using assms(5,6) by (simp add: undriven_def)
  then obtain request where "fst (motor_action (mi_profile_id api) (md_initialized (mt_driver s)) oi) = MA_torque request"
    using undriven_unless_torque [OF assms(4)] by blast
  then have "\<not> fn_output_inhibited (mt_fin s)"
    using torque_conditions assms(3) by (fastforce simp: output_inhibited_def)
  then have "\<not> held (mt_trace s)" using inv by (simp add: safe_inv_def)
  moreover have "held (pre @ [Mt_emergency tx])" by simp
  ultimately have "\<not> list_all (\<lambda>e. \<forall>c. e \<noteq> Mt_released c) post"
    using held_unless_released [of post "pre @ [Mt_emergency tx]"] assms(2) by auto
  then obtain start c after where post: "post = start @ Mt_released c # after"
    by (auto simp: list_all_iff in_set_conv_decomp)
  have "msg_allowed (pre @ Mt_emergency tx # start) (Mt_released c)"
    using inv assms(2) post trace_allowed_at [of msg_allowed "pre @ Mt_emergency tx # start" "Mt_released c" after]
    by (simp add: safe_inv_def)
  then obtain earlier e where "pre @ Mt_emergency tx # start = earlier @ [e]" "releases e c" by auto
  moreover from this have "start \<noteq> []" by auto
  ultimately obtain before where "start = before @ [e]"
    by (metis append_butlast_last_id last.simps last_appendR last_snoc list.distinct(1))
  then show ?thesis using post \<open>releases e c\<close> by auto
qed

section \<open>A run on the ground\<close>

text \<open>A board where every queue and mutex is free, and a task that has done nothing yet.\<close>

definition ground_api :: "unit mission_api" where
  "ground_api = \<lparr>mi_others = id, mi_exec_others = (\<lambda>d. ([], d)), mi_lock_executor = (\<lambda>d. (True, d)),
     mi_lock_state = (\<lambda>d. (True, d)), mi_now = (\<lambda>d. (1000000, d)), mi_rtc_now = (\<lambda>d. (1000000, d)),
     mi_return_emergency = (\<lambda>_ d. (True, d)), mi_return_response = (\<lambda>_ d. (True, d)),
     mi_return_transition = (\<lambda>_ d. (True, d)), mi_send_result = (\<lambda>_ _ d. (True, d)),
     mi_send_event = (\<lambda>_ d. (True, d)), mi_send_power = (\<lambda>_ d. (True, d)), mi_send_para = (\<lambda>_ _ d. (True, d)),
     mi_send_recovery = (\<lambda>_ d. (True, d)), mi_send_preparation = (\<lambda>_ d. (True, d)),
     mi_rails = obedient_rails, mi_ledc = obedient_ledc, mi_profile_id = 1, mi_configuration_ready = True,
     mi_ovf = (\<lambda>_. 0)\<rparr>"

definition ground_shared :: "unit mission_shared" where
  "ground_shared = \<lparr>mx_out = outputs_1, mx_executor = (executor_init, fin_guard_init), mx_recovery_requested = False,
     mx_liftoff_latch = 0, mx_actuator_latch = 0, mx_event_overflow_latch = 0, mx_failure_overflow_detail = 0,
     mx_result_queue_overflow = 0, mx_emergency_metadata_overflow = 0, mx_deployment_failure = 0,
     mx_bus_voltage_valid = False, mx_bus_millivolts = 0, mx_lps_ready = True, mx_ssc_ready = True,
     mx_logic_power_present = True, mx_motor_power_present = True, mx_can_healthy = True\<rparr>"

definition no_zero :: fin_zero_metadata where
  "no_zero = \<lparr>fz_encoder_zero_count = 0, fz_configured_timestamp_us = 0, fz_approach_direction = AD_unknown,
     fz_calibration_method = CM_current_position, fz_ground_verification_status = GV_unverified,
     fz_measured_bidirectional_span_rad = 0\<rparr>"

definition ground_metadata :: flight_metadata where
  "ground_metadata = \<lparr>md_fin_zero = no_zero, md_encoder =
     \<lparr>et_capture_requested_timestamp_us = 0, et_spi_transaction_start_us = 0, et_spi_transaction_complete_us = 0,
      et_consumer_timestamp_us = 0, et_pipeline_ready_timestamp_us = 0, et_consumer_deadline_miss_count = 0,
      et_repeated_block_count = 0, et_coalesced_notification_count = 0, et_raw_capture_missed_tick_count = 0,
      et_timestamp_offset_saturation_count = 0, et_pipeline_state = EP_ready\<rparr>\<rparr>"

definition ground_fin :: fin_locals where
  "ground_fin = \<lparr>fn_mode = CFM_free, fn_auto_hold_allowed = False, fn_boot_hold_active = False,
     fn_target_is_unwrapped = False, fn_target_rad = Fin 0, fn_pending_move = no_fin_move, fn_angle_available = True,
     fn_zero_available = True, fn_latest_raw = 0, fn_previous_wrapped_rad = Fin 0, fn_unwrapped_rad = Fin 0,
     fn_zero_reference_rad = Fin 0, fn_angle_rad = Fin 0, fn_rate_rad_s = Fin 0, fn_rate_valid = True,
     fn_velocity = [], fn_valid_count = 0, fn_zero_metadata = no_zero, fn_zero_configured = True,
     fn_zero_hold_valid = True, fn_encoder_ready = True, fn_motor_ready = True, fn_output_inhibited = False\<rparr>"

definition ground_air :: air_data_snapshot where
  "ground_air = \<lparr>an_flight = \<lparr>ad_flight_epoch = 0, ad_lps_liftoff_detected = False, ad_pressure_apex_detected = False\<rparr>,
     an_lps_monotonic_us = 0, an_ssc_monotonic_us = 0, an_pressure_raw = 0, an_temperature_raw = 0,
     an_airspeed_raw = 0, an_static_pressure_pa = Fin 0, an_ssc_temperature_celsius = Fin 0,
     an_airspeed_mps = Fin 0, an_lps_valid = True, an_ssc_valid = True, an_ssc_zero_valid = True,
     an_airspeed_valid = False\<rparr>"

definition a_request :: "u8 \<Rightarrow> command_code \<Rightarrow> generic_command_request" where
  "a_request tx c = \<lparr>gcr_transaction_id = tx, gcr_command = cc c, gcr_arguments = replicate 6 0\<rparr>"

definition ground_task :: "(unit, unit) mission_task" where
  "ground_task = \<lparr>mt_shared = ground_shared, mt_driver = ready_driver, mt_boot = boot_memory_init,
     mt_metadata = ground_metadata, mt_machine = machine_init, mt_fin = ground_fin, mt_recovery_motor_safe = False,
     mt_start_preparation_pending = False,
     mt_pending_start = \<lparr>pd_request = a_request 0 CC_start_sequence, pd_readiness = ready_all\<rparr>,
     mt_preflight_generation = 0, mt_gyro_bias_valid = True, mt_gravity_reference_valid = True,
     mt_calibration = no_calibration, mt_calibration_generation = 0, mt_calibration_active = False,
     mt_air = ground_air, mt_trace = []\<rparr>"

text \<open>A start is commanded; the emergency comes before its answer.\<close>

definition forced_start :: turn_messages where
  "forced_start = \<lparr>tu_emergencies = [], tu_responses = [], tu_commands = [a_request 5 CC_force_start_sequence]\<rparr>"

definition emergency_only :: turn_messages where
  "emergency_only = \<lparr>tu_emergencies = [\<lparr>mg_transaction_id = 9, mg_liftoff_detection = False\<rparr>], tu_responses = [],
     tu_commands = []\<rparr>"

definition start_answer :: turn_messages where
  "start_answer = \<lparr>tu_emergencies = [], tu_responses = [\<lparr>sr_transaction_id = 5, sr_reason = CR_none, sr_detail = 0\<rparr>],
     tu_commands = []\<rparr>"

definition after_turns :: "turn_messages list \<Rightarrow> (unit, unit) mission_task" where
  "after_turns ts = fold (\<lambda>t s. snd (run_state (mission_messages ground_api t) s)) ts ground_task"

text \<open>The turns, from any state where no latch is set.\<close>

definition unlatched :: "(unit, unit) mission_task \<Rightarrow> bool" where
  "unlatched s = (\<not> mx_recovery_requested (mt_shared s) \<and> mx_liftoff_latch (mt_shared s) = 0 \<and>
     mx_actuator_latch (mt_shared s) = 0)"

lemmas access_defs = mt_load_def mt_store_def mt_access_def mt_emit_def only_if_def try_both_def try_executor_def
  machine_call_def mt_snapshot_def ground_api_def

lemma latch_take_0: "latch_take 0 = (None, 0)"
  by code_simp

lemma forced_turn:
  assumes "unlatched s" and "\<not> mt_start_preparation_pending s"
    and "run_state (mission_messages ground_api forced_start) s = (a, s')"
  shows "unlatched s' \<and> mt_start_preparation_pending s' \<and> pd_request (mt_pending_start s') = a_request 5 CC_force_start_sequence \<and>
    pr_resources_preallocated (pd_readiness (mt_pending_start s')) \<and> mt_machine s' = mt_machine s \<and>
    snd (mx_executor (mt_shared s')) = snd (mx_executor (mt_shared s)) \<and>
    mt_trace s' = mt_trace s @ [Mt_command (a_request 5 CC_force_start_sequence), Mt_prepare (mt_pending_start s') True]"
  using assms
  by (auto simp: mission_messages_def recovery_coast_def take_liftoff_latch_def take_actuator_latch_def forced_start_def
      on_transition_def run_command_def start_command_def access_defs unlatched_def latch_take_0 a_request_def continues_def
      outcome_of_def exec_run_def preflight_readiness_of_def)

lemma result_ground: "run_state (mt_result ground_api r priority) s = ((), s)"
  by (cases s) (simp add: mt_result_def access_defs)

lemma results_ground: "run_state (each (\<lambda>r. mt_result ground_api r priority) rs) s = ((), s)"
  by (induction rs) (simp_all add: result_ground)

lemma event_ground: "run_state (mt_event_request ground_api fl st e) s = ((), s)"
  by (cases s) (simp add: mt_event_request_def access_defs)

lemma store_same: "s\<lparr>mt_shared := (mt_shared s)\<lparr>mx_out := (mx_out (mt_shared s))\<lparr>ou_board := ()\<rparr>\<rparr>\<rparr> = s"
  by (cases s) simp

lemma para_ground: "run_state (mt_para ground_api front r) s = (True, s\<lparr>mt_trace := mt_trace s @ [Mt_para front r True]\<rparr>)"
  by (simp add: mt_para_def access_defs store_same)

lemma power_ground: "run_state (mt_power ground_api r) s = ((), s\<lparr>mt_trace := mt_trace s @ [Mt_power r True]\<rparr>)"
  by (simp add: mt_power_def access_defs store_same)

lemma ledc_ground: "mi_ledc ground_api = obedient_ledc"
  by (simp add: ground_api_def)

lemma stop_ground:
  assumes "run_state (actuator_stop ground_api tx st rs) s = (a, s')"
  shows "mt_shared s' = mt_shared s \<and> mt_machine s' = mt_machine s \<and> 
    mt_start_preparation_pending s' = mt_start_preparation_pending s \<and> mt_pending_start s' = mt_pending_start s \<and>
    mt_fin s' = fin_released ((mt_fin s)\<lparr>fn_output_inhibited := True\<rparr>) \<and>
    mt_driver s' = snd (run_state (driver_coast obedient_ledc) (mt_driver s)) \<and> mt_trace s' = mt_trace s @ [Mt_emergency tx,
      Mt_power (power_request_of True True False) True, Mt_para True (hold_request 0) True]"
  using assms
  by (auto simp: actuator_stop_def on_driver_def fin_update_def fin_released_def mt_emit_def para_ground power_ground
      results_ground event_ground ledc_ground split: prod.splits)

lemma both_ground: "run_state (try_both ground_api) s = (True, s)"
  by (cases s; cases "mt_shared s") (simp add: access_defs exec_run_def)

lemma emergency_ground:
  assumes "sn_state (mt_machine s) = MS_command_receive" and "run_state (actuator_emergency ground_api 9) s = (a, s')"
  shows "\<exists>ex. mt_shared s' = (mt_shared s)\<lparr>mx_executor := (ex, snd (mx_executor (mt_shared s)))\<rparr> \<and> mt_machine s' = mt_machine s \<and> 
    mt_start_preparation_pending s' = mt_start_preparation_pending s \<and> mt_pending_start s' = mt_pending_start s \<and>
    mt_fin s' = fin_released ((mt_fin s)\<lparr>fn_output_inhibited := True\<rparr>) \<and>
    mt_driver s' = snd (run_state (driver_coast obedient_ledc) (mt_driver s)) \<and> mt_trace s' = mt_trace s @ [Mt_emergency 9,
      Mt_power (power_request_of True True False) True, Mt_para True (hold_request 0) True]"
proof -
  have sn: "sn_state (mission_snapshot.truncate (mt_machine s)) = MS_command_receive"
    using assms(1) by (simp add: mission_snapshot.defs)
  obtain d ex where d: "actuatorEmergency 9 MS_command_receive (fst (mx_executor (mt_shared s))) = (d, ex)" by fastforce
  then have x: "ed_execute d" by (auto simp: actuatorEmergency_def Let_def split: prod.splits)
  show ?thesis using assms(2) sn d x stop_ground
    by (fastforce simp: actuator_emergency_def mt_snapshot_def mt_store_def only_if_def result_ground)
qed

lemma unlatched_turn:
  assumes "unlatched s"
  shows "run_state (recovery_coast ground_api) s = ((), s)" "run_state (take_liftoff_latch ground_api) s = ((), s)"
    "run_state (take_actuator_latch ground_api) s = ((), s)"
  using assms by (cases s; cases "mt_shared s"; simp add: recovery_coast_def take_liftoff_latch_def take_actuator_latch_def access_defs unlatched_def
      latch_take_0)+

lemma emergency_turn:
  assumes "unlatched s" and "sn_state (mt_machine s) = MS_command_receive"
    and "run_state (mission_messages ground_api emergency_only) s = (a, s')"
  shows "unlatched s' \<and> mt_machine s' = mt_machine s \<and> snd (mx_executor (mt_shared s')) = snd (mx_executor (mt_shared s)) \<and>
    mt_start_preparation_pending s' = mt_start_preparation_pending s \<and> mt_pending_start s' = mt_pending_start s \<and>
    mt_fin s' = fin_released ((mt_fin s)\<lparr>fn_output_inhibited := True\<rparr>) \<and>
    mt_driver s' = snd (run_state (driver_coast obedient_ledc) (mt_driver s)) \<and> mt_trace s' = mt_trace s @ [Mt_emergency 9,
      Mt_power (power_request_of True True False) True, Mt_para True (hold_request 0) True]"
proof -
  obtain b t where t: "run_state (actuator_emergency ground_api 9) s = (b, t)" by (metis surj_pair)
  note e = emergency_ground [OF assms(2) t]
  then have "unlatched t" using assms(1) by (auto simp: unlatched_def)
  then have "s' = t" using assms(3) t
    by (simp add: mission_messages_def emergency_only_def on_emergency_def both_ground unlatched_turn assms(1))
  then show ?thesis using e \<open>unlatched t\<close> by auto
qed

lemma forced_start_completes:
  assumes "sn_state m = MS_command_receive" and "pr_resources_preallocated readiness"
  shows "fst (startSequence now readiness SM_forced m fin_guard_init) = TR_completed"
  using assms by (simp add: startSequence_def Let_def clearFinOvertravelIfRecoverable_def finOvertravelFaultLatched_def fin_guard_init_def)

lemma finish_ground:
  assumes "run_state (mt_finish tx ph rs dt) s = (a, s')"
  shows "mt_fin s' = mt_fin s \<and> mt_trace s' = mt_trace s @ [Mt_finish tx ph rs]"
  using assms by (auto simp: mt_finish_def mt_store_def mt_emit_def split: prod.splits)

lemma checkpoint_ground:
  "mt_fin (snd (run_state (mt_checkpoint ground_api) s)) = mt_fin s"
  "mt_trace (snd (run_state (mt_checkpoint ground_api) s)) = mt_trace s"
  by (simp_all add: mt_checkpoint_def access_defs)

lemma prepared_ground:
  assumes "fst (startSequence 1000000 (pd_readiness p) (start_mode_of (pd_request p)) (mt_machine s)
      (snd (mx_executor (mt_shared s)))) = TR_completed"
    and "run_state (start_prepared ground_api p detail) s = ((reason, d), s')"
  shows "reason = CR_none \<and> \<not> fn_output_inhibited (mt_fin s') \<and> mt_trace s' = mt_trace s @
    [Mt_call (mission_call.Call_start 1000000 (pd_readiness p) (start_mode_of (pd_request p))), Mt_released CC_start_sequence]"
  using assms unfolding start_prepared_def start_mode_of_def [symmetric]
  by (auto simp: access_defs release_output_def fin_update_def transitionReason_def mt_checkpoint_def Let_def split: prod.splits)

lemma answer_ground:
  assumes "fst (startSequence 1000000 (pd_readiness p) (start_mode_of (pd_request p)) (mt_machine s)
      (snd (mx_executor (mt_shared s)))) = TR_completed"
    and "sr_reason r = CR_none" and "run_state (answer_start ground_api p r) s = (a, s')"
  shows "\<not> fn_output_inhibited (mt_fin s') \<and> mt_trace s' = mt_trace s @ [Mt_response r,
     Mt_call (mission_call.Call_start 1000000 (pd_readiness p) (start_mode_of (pd_request p))), Mt_released CC_start_sequence,
     Mt_finish (gcr_transaction_id (pd_request p)) CP_completed CR_none]"
proof -
  let ?s = "s\<lparr>mt_trace := mt_trace s @ [Mt_response r]\<rparr>"
  obtain reason d t where t: "run_state (start_prepared ground_api p (sr_detail r)) ?s = ((reason, d), t)"
    by (metis surj_pair)
  note p = prepared_ground [OF _ t]
  obtain c u where u: "run_state (mt_finish (gcr_transaction_id (pd_request p)) CP_completed CR_none d) t = (c, u)"
    by (metis surj_pair)
  have "s' = u\<lparr>mt_start_preparation_pending := False\<rparr>" using assms t u p
    by (simp add: answer_start_def mt_emit_def result_ground)
  then show ?thesis using p finish_ground [OF u] assms(1) by simp
qed

lemma answer_turn:
  assumes "unlatched s" and "mt_start_preparation_pending s"
    and "pd_request (mt_pending_start s) = a_request 5 CC_force_start_sequence"
    and "fst (startSequence 1000000 (pd_readiness (mt_pending_start s)) SM_forced (mt_machine s)
      (snd (mx_executor (mt_shared s)))) = TR_completed"
    and "run_state (mission_messages ground_api start_answer) s = (a, s')"
  shows "\<not> fn_output_inhibited (mt_fin s') \<and> mt_trace s' = mt_trace s @ [Mt_response \<lparr>sr_transaction_id = 5, sr_reason = CR_none, sr_detail = 0\<rparr>,
     Mt_call (mission_call.Call_start 1000000 (pd_readiness (mt_pending_start s)) SM_forced), Mt_released CC_start_sequence,
     Mt_finish 5 CP_completed CR_none]"
proof -
  let ?r = "\<lparr>sr_transaction_id = 5, sr_reason = CR_none, sr_detail = 0\<rparr>"
  have m: "start_mode_of (pd_request (mt_pending_start s)) = SM_forced" "gcr_transaction_id (pd_request (mt_pending_start s)) = 5"
    using assms(3) by (simp_all add: start_mode_of_def is_forced_def a_request_def)
  obtain c t where t: "run_state (answer_start ground_api (mt_pending_start s) ?r) s = (c, t)" by (metis surj_pair)
  have "s' = t" using assms(2,5) m t
    by (simp add: mission_messages_def start_answer_def unlatched_turn [OF assms(1)] on_start_response_def both_ground)
  then show ?thesis using answer_ground [OF _ _ t] assms(4) m by simp
qed

text \<open>The three turns after each other: the preparation survives the emergency, and its start ends it.\<close>

lemma ground_unlatched: "unlatched ground_task" "\<not> mt_start_preparation_pending ground_task"
  "sn_state (mt_machine ground_task) = MS_command_receive" "snd (mx_executor (mt_shared ground_task)) = fin_guard_init"
  by (simp_all add: ground_task_def ground_shared_def unlatched_def machine_init_def mission_snapshot.defs snapshot_init_def)

lemma after_turns_state: "message_state ground_api (after_turns ts)"
proof (induction ts rule: rev_induct)
  case Nil
  then show ?case by (intro message_state.fresh) (simp_all add: after_turns_def ground_task_def)
next
  case (snoc t ts)
  then show ?case using message_state.messages [of ground_api "after_turns ts" t] by (simp add: after_turns_def)
qed

lemma after_turns_snoc: "after_turns (ts @ [t]) = snd (run_state (mission_messages ground_api t) (after_turns ts))"
  by (simp add: after_turns_def)

lemma start_survives_emergency:
  "\<exists>p. \<not> fn_output_inhibited (mt_fin (after_turns [forced_start, emergency_only, start_answer])) \<and>
     mt_trace (after_turns [forced_start, emergency_only, start_answer]) =
       [Mt_command (a_request 5 CC_force_start_sequence), Mt_prepare p True, Mt_emergency 9,
        Mt_power (power_request_of True True False) True, Mt_para True (hold_request 0) True,
        Mt_response \<lparr>sr_transaction_id = 5, sr_reason = CR_none, sr_detail = 0\<rparr>,
        Mt_call (mission_call.Call_start 1000000 (pd_readiness p) SM_forced), Mt_released CC_start_sequence,
        Mt_finish 5 CP_completed CR_none]"
proof -
  define s1 where "s1 = after_turns [forced_start]"
  define s2 where "s2 = after_turns [forced_start, emergency_only]"
  define s3 where "s3 = after_turns [forced_start, emergency_only, start_answer]"
  obtain a b c where run: "run_state (mission_messages ground_api forced_start) ground_task = (a, s1)"
    "run_state (mission_messages ground_api emergency_only) s1 = (b, s2)"
    "run_state (mission_messages ground_api start_answer) s2 = (c, s3)"
    using after_turns_snoc [of "[]" forced_start] after_turns_snoc [of "[forced_start]" emergency_only]
      after_turns_snoc [of "[forced_start, emergency_only]" start_answer]
    by (simp add: s1_def s2_def s3_def prod_eq_iff after_turns_def)
  note one = forced_turn [OF ground_unlatched(1,2) run(1)]
  then have "sn_state (mt_machine s1) = MS_command_receive" using ground_unlatched by simp
  note two = emergency_turn [OF _ this run(2)]
  have "fst (startSequence 1000000 (pd_readiness (mt_pending_start s2)) SM_forced (mt_machine s2)
      (snd (mx_executor (mt_shared s2)))) = TR_completed"
    using one two ground_unlatched forced_start_completes by simp
  then have "\<not> fn_output_inhibited (mt_fin s3) \<and> mt_trace s3 = mt_trace s2 @
     [Mt_response \<lparr>sr_transaction_id = 5, sr_reason = CR_none, sr_detail = 0\<rparr>,
      Mt_call (mission_call.Call_start 1000000 (pd_readiness (mt_pending_start s2)) SM_forced), Mt_released CC_start_sequence,
      Mt_finish 5 CP_completed CR_none]"
    using answer_turn [OF _ _ _ _ run(3)] one two by simp
  then show ?thesis using one two unfolding s3_def [symmetric]
    by (intro exI [of _ "mt_pending_start s2"]) (simp add: ground_task_def)
qed

definition with_start :: "(unit, unit) mission_task" where
  "with_start = after_turns [forced_start, emergency_only, start_answer]"

lemma with_start_state: "message_state ground_api with_start"
  unfolding with_start_def by (rule after_turns_state)

lemma starts_are_prepared_witness:
  "\<exists>pre readiness post. mt_trace with_start = pre @ Mt_call (mission_call.Call_start 1000000 readiness SM_forced) # post \<and>
    (\<exists>before p after r. pre = before @ [Mt_command (pd_request p), Mt_prepare p True] @ after @ [Mt_response r] \<and>
      gcr_command (pd_request p) \<in> set start_codes \<and> list_all (\<lambda>e. \<not> decides e) after \<and>
      sr_reason r = CR_none \<and> sr_transaction_id r = gcr_transaction_id (pd_request p) \<and>
      readiness = pd_readiness p \<and> SM_forced = start_mode_of (pd_request p))"
proof -
  obtain p where t: "mt_trace with_start = [Mt_command (a_request 5 CC_force_start_sequence), Mt_prepare p True, Mt_emergency 9,
        Mt_power (power_request_of True True False) True, Mt_para True (hold_request 0) True,
        Mt_response \<lparr>sr_transaction_id = 5, sr_reason = CR_none, sr_detail = 0\<rparr>] @
        Mt_call (mission_call.Call_start 1000000 (pd_readiness p) SM_forced) # [Mt_released CC_start_sequence,
        Mt_finish 5 CP_completed CR_none]"
    using start_survives_emergency by (auto simp: with_start_def)
  show ?thesis using t starts_are_prepared [OF with_start_state t] by blast
qed

text \<open>After an emergency the zero hold is commanded.\<close>

definition zero_hold_turn :: turn_messages where
  "zero_hold_turn = \<lparr>tu_emergencies = [], tu_responses = [], tu_commands = [a_request 6 CC_start_fin_zero_hold]\<rparr>"

definition with_hold :: "(unit, unit) mission_task" where
  "with_hold = after_turns [emergency_only, zero_hold_turn]"

lemma hold_turn:
  assumes "unlatched s" and "fin_usable (mt_fin s)" and "run_state (mission_messages ground_api zero_hold_turn) s = (a, s')"
  shows "\<not> fn_output_inhibited (mt_fin s') \<and> mt_driver s' = mt_driver s \<and> mt_trace s' = mt_trace s @
    [Mt_command (a_request 6 CC_start_fin_zero_hold), Mt_released CC_start_fin_zero_hold, Mt_finish 6 CP_completed CR_none]"
  using assms(2,3)
  by (auto simp: mission_messages_def zero_hold_turn_def unlatched_turn [OF assms(1)] on_transition_def both_ground run_command_def
      zero_hold_command_def fin_usable_def release_output_def fin_update_def mt_emit_def outcome_of_def complete_command_def
      mt_snapshot_def mt_finish_def mt_store_def result_ground only_if_def transitionReason_def a_request_def
      split: prod.splits)

lemma with_hold_facts:
  "mt_trace with_hold = [] @ Mt_emergency 9 # [Mt_power (power_request_of True True False) True,
     Mt_para True (hold_request 0) True, Mt_command (a_request 6 CC_start_fin_zero_hold),
     Mt_released CC_start_fin_zero_hold, Mt_finish 6 CP_completed CR_none]"
  "\<not> fn_output_inhibited (mt_fin with_hold)"
  "mt_driver with_hold = ready_driver\<lparr>md_calls := [Mc_stop In1, Mc_stop In2, Mc_coast]\<rparr>"
proof -
  define s1 where "s1 = after_turns [emergency_only]"
  obtain a b where run: "run_state (mission_messages ground_api emergency_only) ground_task = (a, s1)"
    "run_state (mission_messages ground_api zero_hold_turn) s1 = (b, with_hold)"
    using after_turns_snoc [of "[emergency_only]" zero_hold_turn]
    by (simp add: s1_def with_hold_def prod_eq_iff after_turns_def)
  note one = emergency_turn [OF ground_unlatched(1,3) run(1)]
  have "fin_usable (mt_fin s1)" using one by (simp add: fin_usable_def fin_released_def ground_task_def ground_fin_def)
  note two = hold_turn [OF _ this run(2)]
  show "mt_trace with_hold = [] @ Mt_emergency 9 # [Mt_power (power_request_of True True False) True,
     Mt_para True (hold_request 0) True, Mt_command (a_request 6 CC_start_fin_zero_hold),
     Mt_released CC_start_fin_zero_hold, Mt_finish 6 CP_completed CR_none]"
    and "\<not> fn_output_inhibited (mt_fin with_hold)"
    using one two by (simp_all add: ground_task_def)
  show "mt_driver with_hold = ready_driver\<lparr>md_calls := [Mc_stop In1, Mc_stop In2, Mc_coast]\<rparr>"
    using one two by (simp add: ground_task_def driver_coast_def run_output ready_driver_def obedient_ledc_def rememberFirst_def)
qed

definition zero_held :: output_inputs where
  "zero_held = held_fin\<lparr>oi_fin := (oi_fin held_fin)\<lparr>fv_mode := CFM_zero_hold\<rparr>\<rparr>"

lemma zero_hold_drives:
  assumes "run_state (motor_output (\<lambda>_. 0) obedient_ledc 1 zero_held) (ready_driver\<lparr>md_calls := start\<rparr>) = (r, s)"
  shows "\<exists>cs. md_calls s = start @ cs \<and> drive_attempt cs"
proof -
  have "motor_action 1 True zero_held = (MA_torque
      \<lparr>tr_output_torque_nm = Fin 0, tr_saturated = False, tr_valid = True\<rparr>, TQE_unavailable)"
    using held_request
    by (simp add: motor_action_def manual_action_def output_inhibited_def zero_held_def held_fin_def snapshot_init_def dsub_def Let_def)
  moreover have "bus_voltage zero_held = Fin 9" by (simp add: bus_voltage_def zero_held_def held_fin_def kMotorBusVoltageV_def)
  moreover have "fv_angle_rad (oi_fin zero_held) = Fin 0" "fv_rate_rad_s (oi_fin zero_held) = Fin 0"
    "oi_motor_ready zero_held" by (simp_all add: zero_held_def held_fin_def)
  ultimately show ?thesis
    using assms no_force
    by (auto simp: motor_output_def applyTorque_def active_profile_def ready_driver_def obedient_ledc_def driver_apply_def
        command_refused_def setChannelDuty_def then_output_def driven_or_coast_def run_output check_output_def
        drive_attempt_def kProductionMotorMaximumDuty_def Let_def split: if_splits)
qed

lemma emergency_holds_witness:
  "\<exists>before e c after. [Mt_power (power_request_of True True False) True, Mt_para True (hold_request 0) True,
     Mt_command (a_request 6 CC_start_fin_zero_hold), Mt_released CC_start_fin_zero_hold, Mt_finish 6 CP_completed CR_none] =
     before @ e # Mt_released c # after \<and> releases e c"
proof -
  have api: "mi_ovf ground_api = (\<lambda>_. 0)" "mi_ledc ground_api = obedient_ledc" "mi_profile_id ground_api = 1"
    by (simp_all add: ground_api_def)
  obtain r s where run: "run_state (motor_output (\<lambda>_. 0) obedient_ledc 1 zero_held)
      (ready_driver\<lparr>md_calls := [Mc_stop In1, Mc_stop In2, Mc_coast]\<rparr>) = (r, s)"
    by (metis surj_pair)
  obtain cs where cs: "md_calls s = [Mc_stop In1, Mc_stop In2, Mc_coast] @ cs" "drive_attempt cs"
    using zero_hold_drives [OF run] by blast
  have state: "message_state ground_api with_hold" unfolding with_hold_def by (rule after_turns_state)
  have "run_state (motor_output (mi_ovf ground_api) (mi_ledc ground_api) (mi_profile_id ground_api) zero_held)
      (mt_driver with_hold) = (r, s)"
    using run by (simp add: api with_hold_facts(3))
  moreover have "oi_output_inhibited zero_held = fn_output_inhibited (mt_fin with_hold)"
    using with_hold_facts(2) by (simp add: zero_held_def held_fin_def)
  moreover have "md_calls s = md_calls (mt_driver with_hold) @ cs" using cs(1) by (simp add: with_hold_facts(3))
  ultimately show ?thesis using emergency_holds [OF state with_hold_facts(1)] cs(2) by blast
qed

end
