(* ===== verification/Spec2Isabelle.thy ===== *)
theory Spec2Isabelle
  imports Prelude Can_Protocol Can_Codec Double Fin_Overtravel Mission_State Mission_Flight Mission_Attempt Command_Executor Command_Safety Quantization Quantization_Accuracy Recovery Recovery_Boot Recovery_Safety Flight_Log Runtime_Queues Flight_Storage Sd_Log Safety_Core Flight_Detectors Control_Pipeline Characterization_Types Campaign Motion_Guard Command_Journal Epoch_Assembler Record_Validation Capture_Codec Capture_Roundtrip Capture_Validation State_Logic State_Guarantees Safety_Task Parachute_Task Parachute_Moves Parachute_Commands Recovery_Task Recovery_Dump Recovery_Sleep Command_Worker Can_Shim Can_Task Can_Delivery Motor_Driver Attitude_Estimator Airspeed_Estimator Mission_Output Mission_Task Mission_Guards
begin

text \<open>
  The flight software of the C-99L Mission Board, a sounding-rocket computer on an ESP32-S3, and
  its verification. All paths are relative to the repository; the C++ code is under \<open>src/\<close>.

  \<^bold>\<open>The program.\<close> One \<open>MissionStateMachine\<close> decides the phase of the flight (command receive,
  liftoff detection, engine burn, control, descent) from the evidence of the detectors, the
  readiness masks and the emergency requests; its directives drive the fin motor through the
  control pipeline, the parachute servo through the parachute controller and the rails through
  the power arbiter. The \<open>CommandExecutor\<close> accepts the commands of the ground station, which arrive
  as CAN frames, and reports their results. Telemetry is quantised and sent on CAN; the flight is
  recorded as 192-byte records in internal flash and on an SD card. A reset in flight resumes from
  a checkpoint in RTC memory; after the flight the board sleeps and wakes as a recovery beacon.
  Tasks exchange values through single-producer single-consumer queues, an emergency latch and a
  snapshot cache. A second firmware, the characterization build, runs a motor identification
  campaign with its own state machine, guards and log format.

  \<^bold>\<open>Shared ground.\<close>
  \<^item> \<open>Prelude\<close>: fixed-width integers as words, little-endian packing and the lemmas that read it back
    (\<open>wire_simps\<close>), list update, \<open>find_if\<close>.
  \<^item> \<open>Double\<close>: binary64 as a value type with round to nearest even, used wherever the code computes
    with \<open>double\<close>; \<open>float\<close> fields that are only copied are their bit patterns.

  \<^bold>\<open>Communication.\<close>
  \<^item> \<open>Can_Protocol\<close>, \<open>Can_Codec\<close> (\<open>protocol/can_protocol\<close>): identifiers, messages, one encoder and one
    decoder per message; round trip, strictness of every decoder, isolation of the emergency
    frames, sequence counters per stream.
  \<^item> \<open>Quantization\<close>, \<open>Quantization_Accuracy\<close> (\<open>protocol/quantization\<close>): the telemetry codes, decoding
    and encoding again is the identity, and how far a decoded value is from what was sent.
  \<^item> \<open>Runtime_Queues\<close> (\<open>runtime/task_architecture.hpp\<close>, \<open>emergency_latch\<close>, \<open>mission_snapshot_cache\<close>): the
    queue both as whole operations (locale \<open>bounded_fifo\<close>) and cut at its atomic accesses, so that
    producer and consumer interleave.

  \<^bold>\<open>Mission.\<close>
  \<^item> \<open>Mission_State\<close> (\<open>mission/mission_state\<close>): the record \<open>mission\<close>, one definition per member function
    and per block of \<open>tick\<close>, the reachable states. \<open>Mission_Flight\<close> and \<open>Mission_Attempt\<close> prove what a
    flight may rely on: the invariant, the deployment deadline and the absence of early deployment,
    the gate into control, irrevocable descent, isolation of a flight epoch after a rollback.
  \<^item> \<open>Command_Executor\<close>, \<open>Command_Safety\<close> (\<open>mission/command_executor\<close>): the transaction cache, acceptance,
    completion, emergency; idempotence, single execution and the safety conditions.
  \<^item> \<open>Recovery\<close>, \<open>Recovery_Boot\<close>, \<open>Recovery_Safety\<close> (\<open>mission/recovery\<close>, \<open>runtime/recovery_persistence\<close>,
    \<open>runtime/recovery_boot\<close>): marker, boot path, deep sleep, exit transaction over an abstract NVS,
    checkpoint and audit with their checksums; the round trip of a flight over a reset.

  \<^bold>\<open>Sensing and actuation.\<close>
  \<^item> \<open>Flight_Detectors\<close> (\<open>sensors/\<close>): liftoff and apex detection, airspeed gate, freshness; each debounced
    detector interprets the locale \<open>debounced\<close>, which relates it to a streak in its history.
  \<^item> \<open>Attitude_Estimator\<close>, \<open>Airspeed_Estimator\<close> (\<open>sensors/attitude_estimator\<close>, \<open>airspeed_estimator\<close>): the ring
    of gyro samples, the roll integration and what a valid estimate rests on; the pitot model and the
    conditioning of its pressure, with \<open>expm1\<close> and \<open>log1p\<close> of the C library as arguments.
  \<^item> \<open>Control_Pipeline\<close> (\<open>control/control_pipeline\<close>), \<open>Fin_Overtravel\<close> (\<open>control/fin_overtravel_guard\<close>): roll
    controller, zero hold, torque mapper and motor decision in doubles, the overtravel fault.
  \<^item> \<open>Safety_Core\<close> (\<open>actuators/safety_core\<close>): power arbiter, parachute retry controller, servo angles.

  \<^bold>\<open>Storage.\<close>
  \<^item> \<open>Flight_Log\<close> (\<open>runtime/flight_log\<close>): the record, its serialisation and CRC-32.
  \<^item> \<open>Flight_Storage\<close> (\<open>InternalFlashLog\<close>): over a partition API that is a record of functions; a
    refinement to the list of appended records. The partition has 2 MiB, the code's constant.
  \<^item> \<open>Sd_Log\<close> (\<open>SdFlightLog\<close>): staging ring, writer, export; POSIX calls are a record of functions over
    an external state. Loops that retry on \<open>EINTR\<close> are \<open>partial_function (option)\<close>; that they return is
    proved under a rank that decreases with every interruption, never assumed.

  \<^bold>\<open>Tasks.\<close> The FreeRTOS tasks of \<open>runtime/production_runtime.cpp\<close>, one turn of the loop as an operation.
  \<^item> \<open>State_Logic\<close>, \<open>State_Guarantees\<close>: the state monad of the tasks, triples and invariants
    (\<open>valid\<close>, \<open>keeps\<close>), the locale \<open>guarantee\<close> for relations between the state before and after, traces.
  \<^item> \<open>Safety_Task\<close>: the task that deploys and cuts the power on its own clock.
  \<^item> \<open>Parachute_Task\<close>, \<open>Parachute_Moves\<close>, \<open>Parachute_Commands\<close>: the owner of the servo; every move is
    authorised, one automatic opening per flight, every command answered once.
  \<^item> \<open>Recovery_Task\<close>, \<open>Recovery_Dump\<close>, \<open>Recovery_Sleep\<close>: the task of the internal flash log: the dump sends
    the bytes asked for, the board sleeps only after the way into recovery is recorded.
  \<^item> \<open>Command_Worker\<close>: acceptance of commands and their hand-over to the task that owns them.
  \<^item> \<open>Can_Shim\<close> (\<open>runtime/CANCREATE.h\<close>), \<open>Can_Task\<close>, \<open>Can_Delivery\<close>: the wire side of recovery mode, the CAN
    task, and the order in which results, events and log data leave the board.
  \<^item> \<open>Motor_Driver\<close> (\<open>actuators/production_motor\<close>), \<open>Mission_Output\<close>: the half bridges of the fin motor, and
    what the mission task gives them in a turn.
  \<^item> \<open>Mission_Task\<close>: the first part of the mission task's turn: emergencies, answers of the parachute
    task, commands. \<open>Mission_Guards\<close>: a flight starts only from a preparation that a start command asked
    for, and an emergency keeps the fin motor off until a command releases it.

  \<^bold>\<open>Characterization.\<close> Files under \<open>src/characterization/\<close>.
  \<^item> \<open>Characterization_Types\<close>: enumerations with their wire codes, structs, defaults.
  \<^item> \<open>Campaign\<close> (\<open>campaign_state_machine\<close>): sessions, stages, runs and the handoff to stage M0 over a
    power cycle; what a handoff proves about the runs before it.
  \<^item> \<open>Motion_Guard\<close> (\<open>position_guard\<close>, \<open>zero_approach\<close>, \<open>shutdown_sequence.hpp\<close>), \<open>Command_Journal\<close>: which
    commands may reach the motor, and the evidence that is kept of each.
  \<^item> \<open>Epoch_Assembler\<close> (\<open>fixed_epoch_assembler\<close>): samples into epochs of 1 ms; the invariant ties the
    eight buckets to the history of accepted samples. The unwrapped angle is bounded for 2^24 calls,
    over four hours at 1 kHz.
  \<^item> \<open>Record_Validation\<close> (\<open>record_validation\<close>): the strict check of a log record, which every block of
    the assembler passes.
  \<^item> \<open>Capture_Codec\<close>, \<open>Capture_Roundtrip\<close>, \<open>Capture_Validation\<close> (\<open>log_format_v5\<close>): encoders and decoders of
    the capture file, their round trip, and what the validation of a whole file guarantees.
  \<^bold>\<open>Conventions.\<close> A member function that changes its object takes the object last and returns it with
  the result. Enumerations are datatypes with their wire value as \<open>..._code\<close>. An error return is a
  value of a sum, an option or the code's own error enumeration. Indices that the code keeps in 64
  bits and that cannot reach \<open>2^64\<close> in the life of the board are \<open>nat\<close>; every other integer has its
  width. Calls of ESP-IDF and POSIX are parameters with named laws. A task is a record of its locals
  and of what it shares; queues, mutexes, clocks and drivers are an API over an external state \<open>'d\<close>,
  what the other tasks do between two accesses is a function or a list of calls of that API
  (\<open>..._others\<close>), and the messages that a loop drains from a queue are the input of a turn. The fields
  \<open>..._trace\<close>, \<open>..._sent\<close> and \<open>..._calls\<close> are history variables, without a counterpart in the code. Deep
  sleep and restart end a run.

  \<^bold>\<open>Not modelled.\<close> The display attitude estimator, the device drivers, the bring-up shell, the drivers of
  the characterization build, and of \<open>runtime/production_runtime.cpp\<close> the tasks for air data,
  housekeeping and the SD log, the start of the tasks, and the part of the mission task's turn
  that reads the sensors and composes status and log: the components those call are modelled.

\<close>

end
